(* ===== verification/JS_Prelude.thy ===== *)
theory JS_Prelude
  imports Complex_Main "HOL-Library.AList" "HOL-Library.Multiset"
begin

text \<open>
  The part of the JavaScript language and its standard library that the modelled
  TypeScript uses, and the lemmas the components share about it.

  Strings are lists of characters; a \<open>char\<close> stands for one code unit in 0..255.
  \<open>null\<close> and \<open>undefined\<close> are \<open>None\<close>; an exception is the left value of a sum.
  A plain object used as a dictionary (\<open>Record<string, V>\<close>) is an association list in
  insertion order (its own properties only, the prototype chain is not modelled);
  \<open>Object.keys\<close> and \<open>Object.entries\<close> enumerate array-index keys first, as ECMAScript does.
\<close>

named_theorems js_simps \<open>evaluation and rewriting of the string and array helpers\<close>
named_theorems obj_simps \<open>lookup and update laws of objects\<close>

section \<open>Exceptions\<close>

datatype js_error = TypeError

type_synonym 'a js_result = "js_error + 'a"

section \<open>Truthiness\<close>

text \<open>A nullable string that is null or empty is falsy.\<close>

fun truthy :: "string option \<Rightarrow> string option" where
  "truthy None = None"
| "truthy (Some s) = (if s = [] then None else Some s)"

lemma truthy_eq_None [js_simps]: "truthy x = None \<longleftrightarrow> x = None \<or> x = Some []"
  by (cases x) auto

lemma truthy_eq_Some [js_simps]: "truthy x = Some s \<longleftrightarrow> x = Some s \<and> s \<noteq> []"
  by (cases x) auto

section \<open>Strings and arrays\<close>

text \<open>\<open>String.prototype.split\<close> with a one-character separator.\<close>

fun split_on :: "char \<Rightarrow> string \<Rightarrow> string list" where
  "split_on c [] = [[]]"
| "split_on c (x # xs) =
     (if x = c then [] # split_on c xs
      else (case split_on c xs of [] \<Rightarrow> [[x]] | w # ws \<Rightarrow> (x # w) # ws))"

text \<open>\<open>Array.prototype.join\<close>.\<close>

fun join :: "string \<Rightarrow> string list \<Rightarrow> string" where
  "join sep [] = []"
| "join sep [w] = w"
| "join sep (w # v # ws) = w @ sep @ join sep (v # ws)"

text \<open>\<open>String.prototype.indexOf\<close> of one character: -1 when absent.\<close>

fun index_of :: "char \<Rightarrow> string \<Rightarrow> int" where
  "index_of c [] = -1"
| "index_of c (x # xs) =
     (if x = c then 0 else (let i = index_of c xs in if i = -1 then -1 else i + 1))"

definition starts_with :: "string \<Rightarrow> string \<Rightarrow> bool" where
  "starts_with s p \<longleftrightarrow> take (length p) s = p"

text \<open>\<open>Array.prototype.findIndex\<close>, with \<open>None\<close> for -1, and \<open>find\<close>.\<close>

fun find_index :: "('a \<Rightarrow> bool) \<Rightarrow> 'a list \<Rightarrow> nat option" where
  "find_index P [] = None"
| "find_index P (x # xs) = (if P x then Some 0 else map_option Suc (find_index P xs))"

text \<open>Reading an array at an index: out of range is \<open>undefined\<close>.\<close>

definition at_index :: "'a list \<Rightarrow> int \<Rightarrow> 'a option" where
  "at_index xs i = (if 0 \<le> i \<and> i < int (length xs) then Some (xs ! nat i) else None)"

text \<open>\<open>slice(0, e)\<close> and \<open>slice(s)\<close>: a negative bound counts from the end.\<close>

definition slice_bound :: "'a list \<Rightarrow> int \<Rightarrow> nat" where
  "slice_bound xs i =
     (if i < 0 then nat (int (length xs) + i) else min (nat i) (length xs))"

definition slice_to :: "'a list \<Rightarrow> int \<Rightarrow> 'a list" where
  "slice_to xs e = take (slice_bound xs e) xs"

definition slice_from :: "'a list \<Rightarrow> int \<Rightarrow> 'a list" where
  "slice_from xs s = drop (slice_bound xs s) xs"

lemma split_on_not_Nil [simp]: "split_on c s \<noteq> []"
  by (cases s) (auto split: list.splits)

lemma split_on_no_sep: "w \<in> set (split_on c s) \<Longrightarrow> c \<notin> set w"
proof (induction s arbitrary: w)
  case (Cons x xs)
  then show ?case by (auto split: if_splits list.splits)
qed simp

lemma split_on_chars: "w \<in> set (split_on c s) \<Longrightarrow> set w \<subseteq> set s"
proof (induction s arbitrary: w)
  case (Cons x xs)
  obtain v vs where v: "split_on c xs = v # vs" by (meson neq_Nil_conv split_on_not_Nil)
  then have "set v \<subseteq> set xs" "u \<in> set vs \<Longrightarrow> set u \<subseteq> set xs" for u
    using Cons.IH by auto
  then show ?case using Cons.prems v by (auto split: if_splits)
qed simp

lemma split_on_free [simp]: "c \<notin> set s \<Longrightarrow> split_on c s = [s]"
  by (induction s) auto

lemma split_on_append [simp]:
  "c \<notin> set a \<Longrightarrow> split_on c (a @ c # b) = a # split_on c b"
  by (induction a) auto

lemma join_Cons: "ws \<noteq> [] \<Longrightarrow> join sep (w # ws) = w @ sep @ join sep ws"
  by (cases ws) auto

lemma set_join: "c \<in> set (join sep ws) \<Longrightarrow> c \<in> set sep \<or> (\<exists>w \<in> set ws. c \<in> set w)"
  by (induction sep ws rule: join.induct) auto

lemma join_split_on: "join [c] (split_on c s) = s"
proof (induction s)
  case (Cons x xs)
  show ?case
  proof (cases "x = c")
    case True
    then show ?thesis using Cons by (simp add: join_Cons)
  next
    case False
    obtain w ws where ws: "split_on c xs = w # ws"
      by (meson neq_Nil_conv split_on_not_Nil)
    with Cons False show ?thesis by (cases ws) auto
  qed
qed simp

lemma split_on_join:
  "ws \<noteq> [] \<Longrightarrow> \<forall>w \<in> set ws. c \<notin> set w \<Longrightarrow> split_on c (join [c] ws) = ws"
proof (induction ws)
  case (Cons w ws)
  then show ?case by (cases ws) auto
qed simp

lemma index_of_ge: "- 1 \<le> index_of c s"
  by (induction s) (auto simp: Let_def)

lemma index_of_absent [js_simps]: "index_of c s = -1 \<longleftrightarrow> c \<notin> set s"
proof (induction s)
  case (Cons x xs)
  then show ?case using index_of_ge [of c xs] by (auto simp: Let_def)
qed simp

lemma index_of_takeWhile:
  "c \<in> set s \<Longrightarrow> index_of c s = int (length (takeWhile (\<lambda>x. x \<noteq> c) s))"
proof (induction s)
  case (Cons x xs)
  then show ?case using index_of_absent [of c xs] by (auto simp: Let_def)
qed simp

lemma starts_with_append [simp]: "starts_with (p @ s) p"
  by (simp add: starts_with_def)

lemma starts_with_iff: "starts_with s p \<longleftrightarrow> (\<exists>t. s = p @ t)"
  by (auto simp: starts_with_def) (metis append_take_drop_id)

lemma find_index_Some:
  "find_index P xs = Some i \<Longrightarrow> i < length xs \<and> P (xs ! i) \<and> (\<forall>j < i. \<not> P (xs ! j))"
proof (induction xs arbitrary: i)
  case (Cons x xs)
  then show ?case by (auto split: if_splits simp: nth_Cons split: nat.splits)
qed simp

lemma find_index_None [js_simps]: "find_index P xs = None \<longleftrightarrow> (\<forall>x \<in> set xs. \<not> P x)"
  by (induction xs) auto

lemma find_index_ex: "x \<in> set xs \<Longrightarrow> P x \<Longrightarrow> \<exists>i. find_index P xs = Some i"
  using find_index_None [of P xs] by (cases "find_index P xs") auto

lemma find_Some_in: "find P xs = Some x \<Longrightarrow> x \<in> set xs \<and> P x"
  by (auto simp: find_Some_iff)

lemma find_append:
  "find P (xs @ ys) = (case find P xs of None \<Rightarrow> find P ys | Some x \<Rightarrow> Some x)"
  by (induction xs) auto

lemma at_index_nat [simp]: "i < length xs \<Longrightarrow> at_index xs (int i) = Some (xs ! i)"
  by (simp add: at_index_def)

lemma at_index_Some: "at_index xs i = Some x \<longleftrightarrow> 0 \<le> i \<and> nat i < length xs \<and> x = xs ! nat i"
  by (auto simp: at_index_def)

lemma slice_to_nonneg [simp]: "0 \<le> i \<Longrightarrow> slice_to xs i = take (nat i) xs"
  by (simp add: slice_to_def slice_bound_def min_def)

lemma slice_from_nonneg [simp]: "0 \<le> i \<Longrightarrow> slice_from xs i = drop (nat i) xs"
  by (auto simp add: slice_from_def slice_bound_def min_def)

section \<open>Objects used as dictionaries\<close>

type_synonym 'v obj = "(string \<times> 'v) list"

abbreviation obj_get :: "'v obj \<Rightarrow> string \<Rightarrow> 'v option" where
  "obj_get ob k \<equiv> map_of ob k"

text \<open>\<open>{...o, [k]: v}\<close> and \<open>o[k] = v\<close>: overwrite in place or append; \<open>delete o[k]\<close>.\<close>

abbreviation obj_set :: "'v obj \<Rightarrow> string \<Rightarrow> 'v \<Rightarrow> 'v obj" where
  "obj_set ob k v \<equiv> AList.update k v ob"

abbreviation obj_delete :: "'v obj \<Rightarrow> string \<Rightarrow> 'v obj" where
  "obj_delete ob k \<equiv> AList.delete k ob"

definition is_digit :: "char \<Rightarrow> bool" where
  "is_digit c \<longleftrightarrow> c \<in> set ''0123456789''"

definition digit_value :: "char \<Rightarrow> nat" where
  "digit_value c = (of_char c :: nat) - 48"

definition digits_value :: "string \<Rightarrow> nat" where
  "digits_value s = foldl (\<lambda>n c. 10 * n + digit_value c) 0 s"

text \<open>An array index: the canonical decimal form of a number below \<open>2^32 - 1\<close>.\<close>

definition is_array_index :: "string \<Rightarrow> bool" where
  "is_array_index k \<longleftrightarrow>
     k \<noteq> [] \<and> list_all is_digit k \<and> (k = ''0'' \<or> hd k \<noteq> CHR ''0'') \<and>
     digits_value k < 4294967295"

definition obj_entries :: "'v obj \<Rightarrow> (string \<times> 'v) list" where
  "obj_entries ob =
     sort_key (\<lambda>p. digits_value (fst p)) (filter (\<lambda>p. is_array_index (fst p)) ob) @
     filter (\<lambda>p. \<not> is_array_index (fst p)) ob"

definition obj_keys :: "'v obj \<Rightarrow> string list" where
  "obj_keys ob = map fst (obj_entries ob)"

definition obj_wf :: "'v obj \<Rightarrow> bool" where
  "obj_wf ob \<longleftrightarrow> distinct (map fst ob)"

lemma obj_wf_Nil [simp, intro]: "obj_wf []"
  by (simp add: obj_wf_def)

lemma obj_wf_set [simp, intro]: "obj_wf ob \<Longrightarrow> obj_wf (obj_set ob k v)"
  by (simp add: obj_wf_def distinct_update)

lemma obj_wf_delete [simp, intro]: "obj_wf ob \<Longrightarrow> obj_wf (obj_delete ob k)"
  by (simp add: obj_wf_def distinct_delete)

lemma obj_get_set [obj_simps]: "obj_get (obj_set ob k v) j = (if j = k then Some v else obj_get ob j)"
  by (simp add: update_conv')

lemma obj_get_delete [obj_simps]:
  "obj_get (obj_delete ob k) j = (if j = k then None else obj_get ob j)"
  by (simp add: delete_conv')

lemma mset_obj_entries: "mset (obj_entries ob) = mset ob"
  by (simp add: obj_entries_def)

lemma set_obj_entries [simp]: "set (obj_entries ob) = set ob"
  by (metis mset_obj_entries set_mset_mset)

lemma set_obj_keys [simp]: "set (obj_keys ob) = fst ` set ob"
  by (simp add: obj_keys_def)

lemma obj_keys_Nil [simp]: "obj_keys ob = [] \<longleftrightarrow> ob = []"
proof
  assume "obj_keys ob = []"
  then have "fst ` set ob = {}" by (simp flip: set_obj_keys)
  then show "ob = []" by simp
qed (simp add: obj_keys_def obj_entries_def)

lemma obj_keys_empty [simp]: "obj_keys [] = []"
  by simp

lemma obj_wf_entries [simp]: "obj_wf (obj_entries ob) = obj_wf ob"
  unfolding obj_wf_def
  by (metis mset_map mset_obj_entries mset_eq_imp_distinct_iff)

lemma obj_get_entries: "obj_wf ob \<Longrightarrow> obj_get (obj_entries ob) k = obj_get ob k"
  using obj_wf_entries [of ob] unfolding obj_wf_def
  by (metis map_of_eq_Some_iff option.exhaust set_obj_entries)

lemma obj_get_in: "obj_wf ob \<Longrightarrow> obj_get ob k = Some v \<longleftrightarrow> (k, v) \<in> set ob"
  by (simp add: obj_wf_def map_of_eq_Some_iff)

lemma obj_set_subset: "set (obj_set ob k v) \<subseteq> insert (k, v) (set ob)"
  by (induction ob) auto

lemma set_obj_set: "obj_wf ob \<Longrightarrow> set (obj_set ob k v) = insert (k, v) {p \<in> set ob. fst p \<noteq> k}"
  unfolding obj_wf_def
proof (induction ob)
  case (Cons p ob)
  then show ?case by (cases p) (auto simp: image_iff)
qed simp

text \<open>Building an object from the entries of another that pass a test.\<close>

lemma obj_collect_get:
  assumes "obj_wf ob"
  shows "obj_get (foldl (\<lambda>out (k, v). if P v then obj_set out k (f v) else out) [] (obj_entries ob)) k =
    (case obj_get ob k of Some x \<Rightarrow> if P x then Some (f x) else None | None \<Rightarrow> None)"
proof -
  have "obj_get (foldl (\<lambda>out (k, v). if P v then obj_set out k (f v) else out) acc es) k =
      (case obj_get es k of
         Some x \<Rightarrow> if P x then Some (f x) else obj_get acc k
       | None \<Rightarrow> obj_get acc k)" if "obj_wf es" for acc es
    using that
  proof (induction es arbitrary: acc)
    case (Cons p es)
    obtain j x where p: "p = (j, x)" by (cases p)
    then have wf: "obj_wf es" "obj_get es j = None"
      using Cons.prems by (auto simp: obj_wf_def map_of_eq_None_iff)
    show ?case using Cons.IH [OF wf(1)] p wf(2) by (auto simp: obj_simps split: option.splits)
  qed simp
  from this [of "obj_entries ob" "[]"] show ?thesis
    using assms by (cases "obj_get ob k") (simp_all add: obj_get_entries)
qed

lemma obj_collect_wf:
  "obj_wf (foldl (\<lambda>out (k, v). if P v then obj_set out k (f v) else out) [] es)"
proof -
  have "obj_wf (foldl (\<lambda>out (k, v). if P v then obj_set out k (f v) else out) acc es)" if "obj_wf acc" for acc
    using that by (induction es arbitrary: acc) (auto split: prod.splits)
  then show ?thesis by simp
qed

text \<open>
  The interface of a dictionary, for the components that keep their state in one: a lookup
  after a store or a removal, and the lemma every component's invariant uses, that a
  property of all the values survives a store of a value that has it.
\<close>

locale js_dict =
  fixes lookup :: "'m \<Rightarrow> 'k \<Rightarrow> 'v option"
    and store :: "'m \<Rightarrow> 'k \<Rightarrow> 'v \<Rightarrow> 'm"
    and remove :: "'m \<Rightarrow> 'k \<Rightarrow> 'm"
    and wf_dict :: "'m \<Rightarrow> bool"
  assumes lookup_store: "lookup (store m k v) j = (if j = k then Some v else lookup m j)"
    and lookup_remove: "lookup (remove m k) j = (if j = k then None else lookup m j)"
    and wf_store: "wf_dict m \<Longrightarrow> wf_dict (store m k v)"
    and wf_remove: "wf_dict m \<Longrightarrow> wf_dict (remove m k)"
begin

lemma all_store:
  assumes "\<And>j w. lookup m j = Some w \<Longrightarrow> P j w" and "P k v" and "lookup (store m k v) j = Some w"
  shows "P j w"
  using assms by (auto simp: lookup_store split: if_splits)

lemma all_remove:
  assumes "\<And>j w. lookup m j = Some w \<Longrightarrow> P j w" and "lookup (remove m k) j = Some w"
  shows "P j w"
  using assms by (auto simp: lookup_remove split: if_splits)

lemma store_back: "lookup m k = Some v \<Longrightarrow> lookup (store (store m k w) k v) = lookup m"
  by (rule ext) (simp add: lookup_store)

text \<open>Writing back a list of snapshots of \<open>m0\<close>.\<close>

lemma restore_lookup:
  "(\<And>k v. (k, v) \<in> set snaps \<Longrightarrow> lookup m0 k = Some v) \<Longrightarrow>
     lookup (foldl (\<lambda>acc (k, v). store acc k v) m snaps) j =
       (if j \<in> fst ` set snaps then lookup m0 j else lookup m j)"
proof (induction snaps arbitrary: m)
  case (Cons p ps)
  obtain k v where p: "p = (k, v)" by (cases p)
  have m0: "lookup m0 k = Some v" using Cons.prems [of k v] p by simp
  have "lookup (foldl (\<lambda>acc (k, v). store acc k v) (store m k v) ps) j =
      (if j \<in> fst ` set ps then lookup m0 j else lookup (store m k v) j)"
    by (rule Cons.IH) (simp add: Cons.prems)
  then show ?case using m0 p by (simp add: lookup_store)
qed simp

lemma remove_store: "lookup m k = None \<Longrightarrow> lookup (remove (store m k v) k) = lookup m"
  by (rule ext) (simp add: lookup_store lookup_remove)

end

interpretation obj: js_dict map_of "\<lambda>ob k v. AList.update k v ob" "\<lambda>ob k. AList.delete k ob" obj_wf
  by unfold_locales (simp_all add: obj_simps)

end
