(* ===== verification/Tab_Url.thy ===== *)
theory Tab_Url
  imports JS_Prelude
begin

text \<open>
  Workspace slugs and tab URLs: the reserved slugs of
  \<^verbatim>\<open>packages/core/paths/reserved-slugs.ts\<close> and the URL helpers at the head of
  \<^verbatim>\<open>apps/desktop/src/renderer/src/stores/tab-store.ts\<close> (splitting a tab URL into
  pathname and suffix, the dedup identity, the workspace slug of a path, and the
  sanitizing of a path before it becomes a session).
\<close>

section \<open>Reserved slugs\<close>

definition RESERVED_SLUGS :: "string list" where
  "RESERVED_SLUGS =
    [''login'', ''logout'', ''signin'', ''signout'', ''signup'', ''auth'', ''oauth'',
     ''callback'', ''invite'', ''invitations'', ''verify'', ''reset'', ''password'',
     ''onboarding'', ''api'', ''admin'', ''multica'', ''www'', ''new'', ''home'', ''homepage'',
     ''dashboard'', ''help'', ''about'', ''pricing'', ''changelog'', ''docs'', ''support'',
     ''status'', ''legal'', ''privacy'', ''terms'', ''security'', ''contact'',
     ''contact-sales'', ''blog'', ''careers'', ''press'', ''download'', ''usecases'',
     ''profile'', ''account'', ''billing'', ''notifications'', ''search'', ''members'',
     ''issues'', ''projects'', ''autopilots'', ''agents'', ''squads'', ''inbox'', ''my-issues'',
     ''usage'', ''runtimes'', ''skills'', ''settings'', ''workspaces'', ''teams'', ''v1'',
     ''v2'', ''graphql'', ''webhooks'', ''sdk'', ''tokens'', ''cli'', ''health'', ''readyz'',
     ''healthz'', ''ws'', ''metrics'', ''ping'', ''postmaster'', ''abuse'', ''noreply'',
     ''webmaster'', ''hostmaster'', ''mail'', ''ftp'', ''static'', ''cdn'', ''assets'',
     ''public'', ''files'', ''uploads'', ''_next'', ''favicon.ico'', ''robots.txt'',
     ''sitemap.xml'', ''manifest.json'', ''.well-known'']"

definition isReservedSlug :: "string \<Rightarrow> bool" where
  "isReservedSlug slug \<longleftrightarrow> slug \<in> set RESERVED_SLUGS"

section \<open>URL helpers\<close>

definition splitTabUrl :: "string \<Rightarrow> string \<times> string" where
  "splitTabUrl url =
    (let searchIdx = index_of CHR ''?'' url;
         hashIdx = index_of CHR ''#'' url;
         cut = (if searchIdx = -1 then hashIdx
                else if hashIdx = -1 then searchIdx
                else min searchIdx hashIdx)
     in if cut = -1 then (url, []) else (slice_to url cut, slice_from url cut))"

definition resourceKeyForUrl :: "string \<Rightarrow> string" where
  "resourceKeyForUrl url = fst (splitTabUrl url)"

text \<open>\<open>path.split("/").filter(Boolean)\<close>\<close>

definition segments_of :: "string \<Rightarrow> string list" where
  "segments_of path = filter (\<lambda>w. w \<noteq> []) (split_on CHR ''/'' path)"

definition extractWorkspaceSlug :: "string \<Rightarrow> string option" where
  "extractWorkspaceSlug path =
    (let first = (case segments_of path of [] \<Rightarrow> [] | w # _ \<Rightarrow> w)
     in if first = [] then None
        else if isReservedSlug first then None
        else Some first)"

definition sanitizeTabPath :: "string \<Rightarrow> string option" where
  "sanitizeTabPath path =
    (case splitTabUrl path of (pathname, suffix) \<Rightarrow>
      let segments = segments_of pathname;
          firstSegment = (case segments of [] \<Rightarrow> [] | w # _ \<Rightarrow> w)
      in if firstSegment = [] then None
         else if isReservedSlug firstSegment then None
         else if length segments = 1 then Some (''/'' @ firstSegment @ ''/issues'' @ suffix)
         else Some path)"

definition defaultPathFor :: "string \<Rightarrow> string" where
  "defaultPathFor slug = ''/'' @ slug @ ''/issues''"

definition scrollMementoKey :: "string \<Rightarrow> string \<Rightarrow> string" where
  "scrollMementoKey routeKey containerKey = routeKey @ ''::'' @ containerKey"

section \<open>Lemmas\<close>

definition url_mark :: "char \<Rightarrow> bool" where
  "url_mark c \<longleftrightarrow> c = CHR ''?'' \<or> c = CHR ''#''"

lemma takeWhile_length_min:
  "min (length (takeWhile P xs)) (length (takeWhile Q xs)) =
   length (takeWhile (\<lambda>x. P x \<and> Q x) xs)"
  by (induction xs) auto

lemma splitTabUrl_eq:
  "splitTabUrl url = (takeWhile (\<lambda>c. \<not> url_mark c) url, dropWhile (\<lambda>c. \<not> url_mark c) url)"
proof -
  let ?q = "CHR ''?''" and ?h = "CHR ''#''"
  let ?n = "length (takeWhile (\<lambda>c. c \<noteq> ?q \<and> c \<noteq> ?h) url)"
  have um: "(\<lambda>c. \<not> url_mark c) = (\<lambda>c. c \<noteq> ?q \<and> c \<noteq> ?h)"
    by (auto simp: url_mark_def)
  have cut: "take ?n url = takeWhile (\<lambda>c. c \<noteq> ?q \<and> c \<noteq> ?h) url"
    "drop ?n url = dropWhile (\<lambda>c. c \<noteq> ?q \<and> c \<noteq> ?h) url"
    by (metis takeWhile_eq_take, metis dropWhile_eq_drop)
  consider "?q \<notin> set url" "?h \<notin> set url" | "?q \<in> set url" "?h \<notin> set url"
    | "?q \<notin> set url" "?h \<in> set url" | "?q \<in> set url" "?h \<in> set url" by blast
  then show ?thesis
  proof cases
    case 1
    then have all: "\<forall>c \<in> set url. c \<noteq> ?q \<and> c \<noteq> ?h" by metis
    then have "takeWhile (\<lambda>c. c \<noteq> ?q \<and> c \<noteq> ?h) url = url"
      "dropWhile (\<lambda>c. c \<noteq> ?q \<and> c \<noteq> ?h) url = []"
      by (simp_all only: takeWhile_eq_all_conv dropWhile_eq_Nil_conv not_not)
    moreover have "index_of ?q url = -1" "index_of ?h url = -1"
      using 1 by (simp_all only: index_of_absent not_False_eq_True)
    then have "splitTabUrl url = (url, [])" by (simp add: splitTabUrl_def)
    ultimately show ?thesis by (simp only: um)
  next
    case 2
    then have "takeWhile (\<lambda>c. c \<noteq> ?q \<and> c \<noteq> ?h) url = takeWhile (\<lambda>c. c \<noteq> ?q) url"
      by (intro takeWhile_cong) auto
    with 2 cut show ?thesis
      by (simp add: splitTabUrl_def index_of_absent index_of_takeWhile um)
  next
    case 3
    then have "takeWhile (\<lambda>c. c \<noteq> ?q \<and> c \<noteq> ?h) url = takeWhile (\<lambda>c. c \<noteq> ?h) url"
      by (intro takeWhile_cong) auto
    with 3 cut show ?thesis
      by (simp add: splitTabUrl_def index_of_absent index_of_takeWhile um)
  next
    case 4
    then have "min (index_of ?q url) (index_of ?h url) = int ?n"
      by (simp add: index_of_takeWhile flip: takeWhile_length_min)
    with 4 cut show ?thesis
      by (simp add: splitTabUrl_def index_of_absent um Let_def)
  qed
qed

text \<open>The pathname is the longest prefix free of \<open>?\<close> and \<open>#\<close>; nothing is lost.\<close>

lemma splitTabUrl_append: "fst (splitTabUrl url) @ snd (splitTabUrl url) = url"
  by (simp add: splitTabUrl_eq)

lemma pathname_mark_free: "c \<in> set (fst (splitTabUrl url)) \<Longrightarrow> \<not> url_mark c"
  by (auto simp: splitTabUrl_eq dest: set_takeWhileD)

lemma suffix_starts_mark: "snd (splitTabUrl url) = c # rest \<Longrightarrow> url_mark c"
  by (auto simp: splitTabUrl_eq dropWhile_eq_Cons_conv)

lemma splitTabUrl_mark_free:
  "\<forall>c \<in> set p. \<not> url_mark c \<Longrightarrow> suf = [] \<or> url_mark (hd suf) \<Longrightarrow> splitTabUrl (p @ suf) = (p, suf)"
  by (cases suf) (auto simp: splitTabUrl_eq takeWhile_append dropWhile_append)

text \<open>Segments are the non-empty pieces between slashes.\<close>

lemma segments_of_slash [simp]: "segments_of (CHR ''/'' # p) = segments_of p"
  by (simp add: segments_of_def)

lemma segments_of_append:
  "w \<noteq> [] \<Longrightarrow> CHR ''/'' \<notin> set w \<Longrightarrow> segments_of (w @ CHR ''/'' # p) = w # segments_of p"
  by (simp add: segments_of_def)

lemma segments_of_single: "w \<noteq> [] \<Longrightarrow> CHR ''/'' \<notin> set w \<Longrightarrow> segments_of w = [w]"
  by (simp add: segments_of_def)

lemma segments_of_mem: "w \<in> set (segments_of p) \<Longrightarrow> w \<noteq> [] \<and> CHR ''/'' \<notin> set w"
  by (auto simp: segments_of_def dest: split_on_no_sep)

lemma segments_of_chars: "w \<in> set (segments_of p) \<Longrightarrow> set w \<subseteq> set p"
proof -
  have "w \<in> set (split_on c p) \<Longrightarrow> set w \<subseteq> set p" for c
    by (induction p arbitrary: w) (fastforce split: if_splits list.splits)+
  then show "w \<in> set (segments_of p) \<Longrightarrow> set w \<subseteq> set p" by (auto simp: segments_of_def)
qed

lemma extractWorkspaceSlug_iff:
  "extractWorkspaceSlug p = Some w \<longleftrightarrow>
     (\<exists>ws. segments_of p = w # ws) \<and> \<not> isReservedSlug w"
  using segments_of_mem [of _ p]
  by (cases "segments_of p") (auto simp: extractWorkspaceSlug_def Let_def)

text \<open>What the sanitizer returns: a path whose first segment is an unreserved slug and that
  has a route segment after it; and it returns such paths unchanged.\<close>

definition tab_path_ok :: "string \<Rightarrow> bool" where
  "tab_path_ok path \<longleftrightarrow>
     (\<exists>w v ws. segments_of (fst (splitTabUrl path)) = w # v # ws \<and> \<not> isReservedSlug w)"

lemma sanitizeTabPath_fixed: "tab_path_ok p \<Longrightarrow> sanitizeTabPath p = Some p"
  using segments_of_mem [of _ "fst (splitTabUrl p)"]
  by (auto simp: tab_path_ok_def sanitizeTabPath_def Let_def split: prod.splits)

lemma sanitizeTabPath_shape:
  assumes "sanitizeTabPath p = Some q"
  shows "tab_path_ok q \<and> snd (splitTabUrl q) = snd (splitTabUrl p)"
proof -
  obtain pa su where ps: "splitTabUrl p = (pa, su)" by fastforce
  obtain w ws where seg: "segments_of pa = w # ws"
    using assms ps by (cases "segments_of pa") (auto simp: sanitizeTabPath_def)
  have w: "w \<noteq> []" "CHR ''/'' \<notin> set w" "\<not> isReservedSlug w"
    using assms ps seg segments_of_mem [of w pa] by (auto simp: sanitizeTabPath_def split: if_splits)
  show ?thesis
  proof (cases "ws = []")
    case False
    with assms ps seg w have "q = p" by (auto simp: sanitizeTabPath_def)
    with False ps seg w show ?thesis by (cases ws) (auto simp: tab_path_ok_def)
  next
    case True
    with assms ps seg w have q: "q = (''/'' @ w @ ''/issues'') @ su"
      by (auto simp: sanitizeTabPath_def)
    have "\<forall>c \<in> set (''/'' @ w @ ''/issues''). \<not> url_mark c"
      using pathname_mark_free [of _ p] ps segments_of_chars [of w pa] seg
      by (auto simp: url_mark_def)
    moreover have "su = [] \<or> url_mark (hd su)"
      using suffix_starts_mark [of p] ps by (cases su) auto
    ultimately have "splitTabUrl q = (''/'' @ w @ ''/issues'', su)"
      unfolding q by (rule splitTabUrl_mark_free)
    moreover have "segments_of (''/'' @ w @ ''/issues'') = [w, ''issues'']"
      using w by (simp add: segments_of_append segments_of_single)
    ultimately show ?thesis using w ps by (auto simp: tab_path_ok_def)
  qed
qed

lemmas sanitizeTabPath_ok = sanitizeTabPath_shape [THEN conjunct1]
  and sanitizeTabPath_suffix = sanitizeTabPath_shape [THEN conjunct2]

text \<open>
  The sanitizer and the slug extraction agree: a sanitized path belongs to the workspace
  named by the first segment of its pathname. \<open>extractWorkspaceSlug\<close> itself does not cut
  the suffix off, which matters only for a path with no slash before its suffix.
\<close>

lemma sanitize_nonempty: "sanitizeTabPath p = Some q \<Longrightarrow> q \<noteq> []"
  by (drule sanitizeTabPath_ok) (auto simp: tab_path_ok_def splitTabUrl_eq segments_of_def)

lemma truthy_sanitize [simp]: "truthy (sanitizeTabPath p) = sanitizeTabPath p"
  using sanitize_nonempty [of p] by (cases "sanitizeTabPath p") auto

end
