(* ===== verification/Tab_Store.thy ===== *)
theory Tab_Store
  imports Tab_Url
begin

text \<open>
  The desktop tab store, \<^verbatim>\<open>apps/desktop/src/renderer/src/stores/tab-store.ts\<close>: the session,
  group and store types, the helpers and every action of the store. An action takes the
  store and returns the new one (\<open>get\<close>/\<open>set\<close> of the source). An id minted by
  \<open>createSafeId\<close> is the argument \<open>fresh\<close> of the action that mints it; the drag library's
  \<open>arrayMove\<close> is an argument of \<open>moveTab\<close>. The one read that can hit \<open>undefined\<close>
  (\<open>nextTabs[...].id\<close> in \<open>closeTab\<close>) is a \<open>TypeError\<close> of the model.
\<close>

section \<open>State\<close>

record scroll_offset =
  offTop :: rat
  offHeight :: rat

record tab_memento =
  scroll :: "scroll_offset obj"

record tab_history =
  histStack :: "string list"
  histIndex :: int

record tab_session =
  tabId :: string
  tabUrl :: string
  resourceKey :: string
  tabTitle :: string
  pinned :: bool
  history :: tab_history
  memento :: tab_memento

record tab_group =
  tabs :: "tab_session list"
  activeTabId :: string

record tab_store =
  activeWorkspaceSlug :: "string option"
  byWorkspace :: "tab_group obj"
  mountGeneration :: int

definition initial_store :: tab_store where
  "initial_store = \<lparr>activeWorkspaceSlug = None, byWorkspace = [], mountGeneration = 0\<rparr>"

section \<open>Helpers\<close>

definition emptyMemento :: tab_memento where
  "emptyMemento = \<lparr>scroll = []\<rparr>"

definition makeSession :: "string \<Rightarrow> string \<Rightarrow> string \<Rightarrow> tab_session" where
  "makeSession fresh url title =
     \<lparr>tabId = fresh, tabUrl = url, resourceKey = resourceKeyForUrl url, tabTitle = title,
      pinned = False, history = \<lparr>histStack = [url], histIndex = 0\<rparr>, memento = emptyMemento\<rparr>"

fun pinnedBoundary :: "tab_session list \<Rightarrow> nat" where
  "pinnedBoundary [] = 0"
| "pinnedBoundary (t # ts) = (if pinned t then Suc (pinnedBoundary ts) else 0)"

definition defaultTabFor :: "string \<Rightarrow> string \<Rightarrow> tab_session" where
  "defaultTabFor fresh slug = makeSession fresh (defaultPathFor slug) ''Issues''"

fun find_location_in :: "(string \<times> tab_group) list \<Rightarrow> string \<Rightarrow> (string \<times> tab_group \<times> nat) option" where
  "find_location_in [] tid = None"
| "find_location_in ((slug, grp) # rest) tid =
     (case find_index (\<lambda>t. tabId t = tid) (tabs grp) of
        Some index \<Rightarrow> Some (slug, grp, index)
      | None \<Rightarrow> find_location_in rest tid)"

definition findTabLocation :: "tab_group obj \<Rightarrow> string \<Rightarrow> (string \<times> tab_group \<times> nat) option" where
  "findTabLocation bw tid = find_location_in (obj_entries bw) tid"

definition buildCloseOtherTabsResult :: "tab_group obj \<Rightarrow> string \<Rightarrow> tab_group obj option" where
  "buildCloseOtherTabsResult bw tid =
    (case findTabLocation bw tid of
       None \<Rightarrow> None
     | Some (slug, grp, _) \<Rightarrow>
        (let closingTabs = filter (\<lambda>t. \<not> pinned t \<and> tabId t \<noteq> tid) (tabs grp)
         in if closingTabs = [] then None
            else
             (let closingIds = set (map tabId closingTabs);
                  nextTabs = filter (\<lambda>t. tabId t \<notin> closingIds) (tabs grp);
                  nextActiveTabId = (if activeTabId grp \<in> closingIds then tid else activeTabId grp)
              in Some (obj_set bw slug \<lparr>tabs = nextTabs, activeTabId = nextActiveTabId\<rparr>))))"

definition put_group :: "tab_store \<Rightarrow> string \<Rightarrow> tab_group \<Rightarrow> tab_store" where
  "put_group s slug g = s\<lparr>byWorkspace := obj_set (byWorkspace s) slug g\<rparr>"

text \<open>The group an action on the active workspace works on (the two early returns).\<close>

definition active_group :: "tab_store \<Rightarrow> (string \<times> tab_group) option" where
  "active_group s =
    (case truthy (activeWorkspaceSlug s) of
       None \<Rightarrow> None
     | Some slug \<Rightarrow> map_option (Pair slug) (obj_get (byWorkspace s) slug))"

section \<open>Actions\<close>

definition switchWorkspace :: "string \<Rightarrow> string \<Rightarrow> string option \<Rightarrow> tab_store \<Rightarrow> tab_store" where
  "switchWorkspace fresh slug openPath s =
    (if slug = [] then s
     else
      (let existing = obj_get (byWorkspace s) slug;
           desiredPath = (case openPath of Some p \<Rightarrow> Some p
                          | None \<Rightarrow> if existing \<noteq> None then None else Some (defaultPathFor slug))
       in case existing of
            None \<Rightarrow>
             (let cleanDesired = (case truthy desiredPath of None \<Rightarrow> None | Some p \<Rightarrow> sanitizeTabPath p);
                  seedPath = (case cleanDesired of Some p \<Rightarrow> p | None \<Rightarrow> defaultPathFor slug);
                  tab = makeSession fresh seedPath ''Issues''
              in (put_group s slug \<lparr>tabs = [tab], activeTabId = tabId tab\<rparr>)
                   \<lparr>activeWorkspaceSlug := Some slug\<rparr>)
          | Some grp \<Rightarrow>
             (case truthy desiredPath of
                None \<Rightarrow> s\<lparr>activeWorkspaceSlug := Some slug\<rparr>
              | Some path \<Rightarrow>
                 (case truthy (sanitizeTabPath path) of
                    None \<Rightarrow> s\<lparr>activeWorkspaceSlug := Some slug\<rparr>
                  | Some clean \<Rightarrow>
                     (case find (\<lambda>t. resourceKey t = resourceKeyForUrl clean) (tabs grp) of
                        Some match \<Rightarrow>
                          (put_group s slug (grp\<lparr>activeTabId := tabId match\<rparr>))
                            \<lparr>activeWorkspaceSlug := Some slug\<rparr>
                      | None \<Rightarrow>
                         (let tab = makeSession fresh clean ''Issues''
                          in (put_group s slug \<lparr>tabs = tabs grp @ [tab], activeTabId = tabId tab\<rparr>)
                               \<lparr>activeWorkspaceSlug := Some slug\<rparr>))))))"

definition openTab ::
  "string \<Rightarrow> string \<Rightarrow> string \<Rightarrow> bool \<Rightarrow> tab_store \<Rightarrow> tab_store \<times> string" where
  "openTab fresh path title activate s =
    (case truthy (sanitizeTabPath path) of
       None \<Rightarrow> (s, [])
     | Some clean \<Rightarrow>
        (case active_group s of
           None \<Rightarrow> (s, [])
         | Some (slug, grp) \<Rightarrow>
            (case find (\<lambda>t. resourceKey t = resourceKeyForUrl clean) (tabs grp) of
               Some existing \<Rightarrow>
                 (put_group s slug (grp\<lparr>activeTabId := tabId existing\<rparr>), tabId existing)
             | None \<Rightarrow>
                (let tab = makeSession fresh clean title
                 in (put_group s slug
                       \<lparr>tabs = tabs grp @ [tab],
                        activeTabId = (if activate then tabId tab else activeTabId grp)\<rparr>,
                     tabId tab)))))"

definition addTab :: "string \<Rightarrow> string \<Rightarrow> string \<Rightarrow> tab_store \<Rightarrow> tab_store \<times> string" where
  "addTab fresh path title s =
    (case truthy (sanitizeTabPath path) of
       None \<Rightarrow> (s, [])
     | Some clean \<Rightarrow>
        (case active_group s of
           None \<Rightarrow> (s, [])
         | Some (slug, grp) \<Rightarrow>
            (let tab = makeSession fresh clean title
             in (put_group s slug \<lparr>tabs = tabs grp @ [tab], activeTabId = activeTabId grp\<rparr>,
                 tabId tab))))"

definition closeTab :: "string \<Rightarrow> string \<Rightarrow> tab_store \<Rightarrow> tab_store js_result" where
  "closeTab fresh tid s =
    (case findTabLocation (byWorkspace s) tid of
       None \<Rightarrow> Inr s
     | Some (slug, grp, index) \<Rightarrow>
        (if length (tabs grp) = 1
         then (let tab = defaultTabFor fresh slug
               in Inr (put_group s slug \<lparr>tabs = [tab], activeTabId = tabId tab\<rparr>))
         else
          (let nextTabs = filter (\<lambda>t. tabId t \<noteq> tid) (tabs grp)
           in if activeTabId grp = tid
              then (case at_index nextTabs (min (int index) (int (length nextTabs) - 1)) of
                      None \<Rightarrow> Inl TypeError
                    | Some t \<Rightarrow> Inr (put_group s slug \<lparr>tabs = nextTabs, activeTabId = tabId t\<rparr>))
              else Inr (put_group s slug \<lparr>tabs = nextTabs, activeTabId = activeTabId grp\<rparr>))))"

definition closeOtherTabs :: "string \<Rightarrow> tab_store \<Rightarrow> tab_store" where
  "closeOtherTabs tid s =
    (case buildCloseOtherTabsResult (byWorkspace s) tid of
       None \<Rightarrow> s
     | Some bw \<Rightarrow> s\<lparr>byWorkspace := bw\<rparr>)"

definition setActiveTab :: "string \<Rightarrow> tab_store \<Rightarrow> tab_store" where
  "setActiveTab tid s =
    (case findTabLocation (byWorkspace s) tid of
       None \<Rightarrow> s
     | Some (slug, grp, _) \<Rightarrow>
        (if activeWorkspaceSlug s = Some slug \<and> activeTabId grp = tid then s
         else (put_group s slug (grp\<lparr>activeTabId := tid\<rparr>))\<lparr>activeWorkspaceSlug := Some slug\<rparr>))"

text \<open>The patch of \<open>updateTab\<close> holds at most the title.\<close>

definition updateTab :: "string \<Rightarrow> string option \<Rightarrow> tab_store \<Rightarrow> tab_store" where
  "updateTab tid patch_title s =
    (case findTabLocation (byWorkspace s) tid of
       None \<Rightarrow> s
     | Some (slug, grp, index) \<Rightarrow>
        (let current = tabs grp ! index;
             nxt = (case patch_title of None \<Rightarrow> current | Some ti \<Rightarrow> current\<lparr>tabTitle := ti\<rparr>)
         in if tabTitle nxt = tabTitle current then s
            else put_group s slug (grp\<lparr>tabs := (tabs grp)[index := nxt]\<rparr>)))"

definition navigateActiveSession :: "string \<Rightarrow> bool \<Rightarrow> tab_store \<Rightarrow> tab_store" where
  "navigateActiveSession url replace s =
    (case active_group s of
       None \<Rightarrow> s
     | Some (slug, grp) \<Rightarrow>
        (case find_index (\<lambda>t. tabId t = activeTabId grp) (tabs grp) of
           None \<Rightarrow> s
         | Some index \<Rightarrow>
            (case truthy (sanitizeTabPath url) of
               None \<Rightarrow> s
             | Some clean \<Rightarrow>
                (if extractWorkspaceSlug clean \<noteq> Some slug then s
                 else
                  (let current = tabs grp ! index; h = history current
                   in if tabUrl current = clean then s
                      else
                       (let stack =
                              (if replace
                               then slice_to (histStack h) (histIndex h) @ [clean] @
                                    slice_from (histStack h) (histIndex h + 1)
                               else slice_to (histStack h) (histIndex h + 1) @ [clean]);
                            historyIndex = (if replace then histIndex h else histIndex h + 1);
                            nxt = current\<lparr>tabUrl := clean, resourceKey := resourceKeyForUrl clean,
                                    history := \<lparr>histStack = stack, histIndex = historyIndex\<rparr>\<rparr>
                        in put_group s slug (grp\<lparr>tabs := (tabs grp)[index := nxt]\<rparr>)))))))"

definition stepHistory :: "int \<Rightarrow> tab_store \<Rightarrow> tab_store" where
  "stepHistory delta s =
    (case active_group s of
       None \<Rightarrow> s
     | Some (slug, grp) \<Rightarrow>
        (case find_index (\<lambda>t. tabId t = activeTabId grp) (tabs grp) of
           None \<Rightarrow> s
         | Some index \<Rightarrow>
            (let current = tabs grp ! index;
                 nextIndex = histIndex (history current) + delta
             in if nextIndex < 0 \<or> nextIndex \<ge> int (length (histStack (history current))) then s
                else
                 (let url = histStack (history current) ! nat nextIndex;
                      nxt = current\<lparr>tabUrl := url, resourceKey := resourceKeyForUrl url,
                              history := (history current)\<lparr>histIndex := nextIndex\<rparr>\<rparr>
                  in put_group s slug (grp\<lparr>tabs := (tabs grp)[index := nxt]\<rparr>)))))"

definition goBack :: "tab_store \<Rightarrow> tab_store" where
  "goBack s = stepHistory (-1) s"

definition goForward :: "tab_store \<Rightarrow> tab_store" where
  "goForward s = stepHistory 1 s"

definition next_scroll :: "scroll_offset obj \<Rightarrow> string \<Rightarrow> scroll_offset obj \<Rightarrow> scroll_offset obj" where
  "next_scroll cur routeKey entries =
     foldl (\<lambda>m (containerKey, value). obj_set m (scrollMementoKey routeKey containerKey) value)
       (filter (\<lambda>(key, value). \<not> starts_with key (routeKey @ ''::'')) (obj_entries cur))
       (obj_entries entries)"

definition scroll_unchanged :: "scroll_offset obj \<Rightarrow> scroll_offset obj \<Rightarrow> bool" where
  "scroll_unchanged prev nxt \<longleftrightarrow>
     length (obj_keys prev) = length (obj_keys nxt) \<and>
     list_all (\<lambda>(k, n). case obj_get prev k of None \<Rightarrow> False
                        | Some p \<Rightarrow> offTop p = offTop n \<and> offHeight p = offHeight n)
       (obj_entries nxt)"

definition commitScrollMemento ::
  "string \<Rightarrow> string \<Rightarrow> scroll_offset obj \<Rightarrow> tab_store \<Rightarrow> tab_store" where
  "commitScrollMemento tid routeKey entries s =
    (case findTabLocation (byWorkspace s) tid of
       None \<Rightarrow> s
     | Some (slug, grp, index) \<Rightarrow>
        (let current = tabs grp ! index;
             nextScroll = next_scroll (scroll (memento current)) routeKey entries
         in if scroll_unchanged (scroll (memento current)) nextScroll then s
            else put_group s slug
                   (grp\<lparr>tabs := (tabs grp)[index := current\<lparr>memento := \<lparr>scroll = nextScroll\<rparr>\<rparr>]\<rparr>)))"

definition reloadActiveTab :: "tab_store \<Rightarrow> tab_store" where
  "reloadActiveTab s =
    (case active_group s of
       None \<Rightarrow> s
     | Some (slug, grp) \<Rightarrow>
        (if \<not> list_ex (\<lambda>t. tabId t = activeTabId grp) (tabs grp) then s
         else s\<lparr>mountGeneration := mountGeneration s + 1\<rparr>))"

definition closeActiveTab :: "string \<Rightarrow> tab_store \<Rightarrow> tab_store js_result" where
  "closeActiveTab fresh s =
    (case active_group s of
       None \<Rightarrow> Inr s
     | Some (slug, grp) \<Rightarrow> closeTab fresh (activeTabId grp) s)"

definition moveTab ::
  "(tab_session list \<Rightarrow> int \<Rightarrow> int \<Rightarrow> tab_session list) \<Rightarrow> int \<Rightarrow> int \<Rightarrow> tab_store \<Rightarrow> tab_store" where
  "moveTab arrayMove fromIndex toIndex s =
    (if fromIndex = toIndex then s
     else case active_group s of
       None \<Rightarrow> s
     | Some (slug, grp) \<Rightarrow>
        (if fromIndex < 0 \<or> fromIndex \<ge> int (length (tabs grp)) then s
         else
          (let boundary = int (pinnedBoundary (tabs grp));
               source = tabs grp ! nat fromIndex;
               clampedTo = (if pinned source then max 0 (min toIndex (boundary - 1))
                            else max boundary (min toIndex (int (length (tabs grp)) - 1)))
           in if clampedTo = fromIndex then s
              else put_group s slug
                     (grp\<lparr>tabs := arrayMove (tabs grp) fromIndex clampedTo\<rparr>))))"

definition togglePin :: "string \<Rightarrow> tab_store \<Rightarrow> tab_store" where
  "togglePin tid s =
    (case findTabLocation (byWorkspace s) tid of
       None \<Rightarrow> s
     | Some (slug, grp, index) \<Rightarrow>
        (let current = tabs grp ! index;
             nextTab = current\<lparr>pinned := \<not> pinned current\<rparr>;
             withoutCurrent = take index (tabs grp) @ drop (Suc index) (tabs grp);
             insertAt = pinnedBoundary withoutCurrent;
             nextTabs = take insertAt withoutCurrent @ [nextTab] @ drop insertAt withoutCurrent
         in put_group s slug (grp\<lparr>tabs := nextTabs\<rparr>)))"

text \<open>The set of valid slugs iterates in insertion order: it is a list.\<close>

definition validateWorkspaceSlugs :: "string \<Rightarrow> string list \<Rightarrow> tab_store \<Rightarrow> tab_store" where
  "validateWorkspaceSlugs fresh validSlugs s =
    (let nextByWorkspace = filter (\<lambda>(slug, _). slug \<in> set validSlugs) (obj_entries (byWorkspace s));
         changed0 = list_ex (\<lambda>slug. slug \<notin> set validSlugs) (obj_keys (byWorkspace s));
         first_key = (case obj_keys nextByWorkspace of [] \<Rightarrow> None | k # _ \<Rightarrow> Some k);
         (active1, changed1) =
           (case truthy (activeWorkspaceSlug s) of
              Some a \<Rightarrow> if a \<notin> set validSlugs then (first_key, True)
                        else (activeWorkspaceSlug s, changed0)
            | None \<Rightarrow> (activeWorkspaceSlug s, changed0));
         (active2, changed2) =
           (if truthy active1 = None
            then (first_key, changed1 \<or> truthy first_key \<noteq> None)
            else (active1, changed1));
         fallback = (case validSlugs of [] \<Rightarrow> None | k # _ \<Rightarrow> truthy (Some k))
     in case (truthy active2, fallback) of
          (None, Some slug) \<Rightarrow>
            (let tab = defaultTabFor fresh slug
             in s\<lparr>byWorkspace := obj_set nextByWorkspace slug \<lparr>tabs = [tab], activeTabId = tabId tab\<rparr>,
                  activeWorkspaceSlug := Some slug\<rparr>)
        | _ \<Rightarrow> if \<not> changed2 then s
               else s\<lparr>byWorkspace := nextByWorkspace, activeWorkspaceSlug := active2\<rparr>)"

definition reset_tabs :: "tab_store \<Rightarrow> tab_store" where
  "reset_tabs s = s\<lparr>activeWorkspaceSlug := None, byWorkspace := [], mountGeneration := 0\<rparr>"

definition getActiveTab :: "tab_store \<Rightarrow> tab_session option" where
  "getActiveTab s =
    (case active_group s of
       None \<Rightarrow> None
     | Some (_, grp) \<Rightarrow> find (\<lambda>t. tabId t = activeTabId grp) (tabs grp))"

end
