(* ===== verification/Tab_Invariant.thy ===== *)
theory Tab_Invariant
  imports Tab_Store
begin

text \<open>
  The invariant of the tab store and its preservation by every action. A store is
  well-formed when its groups are keyed by non-empty slugs, every group is non-empty, has
  its active tab among its tabs, keeps its pinned tabs first and its ids distinct, no id is
  in two groups, every session's identity is derived from its url and its history index is
  in range, and the active workspace has a group. A store is in sync when every session's
  url is the history entry its index points at.
\<close>

named_theorems tab_defs \<open>definitions of the tab store's actions\<close>

section \<open>Pinned tabs first\<close>

definition pinned_first :: "tab_session list \<Rightarrow> bool" where
  "pinned_first ts \<longleftrightarrow> sorted_wrt (\<lambda>a b. pinned b \<longrightarrow> pinned a) ts"

lemma pinned_first_Nil [simp]: "pinned_first []"
  by (simp add: pinned_first_def)

lemma pinned_first_single [simp]: "pinned_first [t]"
  by (simp add: pinned_first_def)

lemma pinned_first_append:
  "pinned_first (xs @ ys) \<longleftrightarrow>
     pinned_first xs \<and> pinned_first ys \<and> (\<forall>x \<in> set xs. \<forall>y \<in> set ys. pinned y \<longrightarrow> pinned x)"
  by (simp add: pinned_first_def sorted_wrt_append)

lemma pinned_first_filter [simp, intro]: "pinned_first ts \<Longrightarrow> pinned_first (filter P ts)"
  by (simp add: pinned_first_def sorted_wrt_filter)

lemma pinned_first_snoc: "pinned_first ts \<Longrightarrow> \<not> pinned t \<Longrightarrow> pinned_first (ts @ [t])"
  by (simp add: pinned_first_append)

lemma pinned_first_map: "pinned_first ts \<longleftrightarrow> sorted_wrt (\<lambda>a b. b \<longrightarrow> a) (map pinned ts)"
  by (simp add: pinned_first_def sorted_wrt_map)

lemma pinned_first_update:
  assumes "pinned_first ts" and "i < length ts" and "pinned t = pinned (ts ! i)"
  shows "pinned_first (ts[i := t])"
proof -
  have "map pinned (ts[i := t]) = map pinned ts"
    using assms by (simp add: map_update) (metis list_update_id map_update nth_map)
  then show ?thesis using assms by (simp add: pinned_first_map)
qed

lemma pinned_first_zones:
  assumes "pinned_first ts"
  obtains ps us where "ts = ps @ us" and "\<forall>t \<in> set ps. pinned t" and "\<forall>t \<in> set us. \<not> pinned t"
    and "pinnedBoundary ts = length ps"
proof -
  have "pinned_first ts \<Longrightarrow> \<exists>ps us. ts = ps @ us \<and> (\<forall>t \<in> set ps. pinned t) \<and>
          (\<forall>t \<in> set us. \<not> pinned t) \<and> pinnedBoundary ts = length ps"
  proof (induction ts)
    case (Cons t ts)
    then obtain ps us where IH: "ts = ps @ us" "\<forall>t \<in> set ps. pinned t" "\<forall>t \<in> set us. \<not> pinned t"
      "pinnedBoundary ts = length ps" by (auto simp: pinned_first_def)
    show ?case
    proof (cases "pinned t")
      case True
      with IH show ?thesis by (intro exI [of _ "t # ps"] exI [of _ us]) simp
    next
      case False
      with Cons.prems have "\<forall>u \<in> set ts. \<not> pinned u" by (auto simp: pinned_first_def)
      with False show ?thesis by (intro exI [of _ "[]"] exI [of _ "t # ts"]) simp
    qed
  qed simp
  with assms that show thesis by blast
qed

lemma pinned_first_zonesI:
  "\<forall>t \<in> set ps. pinned t \<Longrightarrow> \<forall>t \<in> set us. \<not> pinned t \<Longrightarrow> pinned_first (ps @ us)"
proof -
  have all: "(\<And>t. t \<in> set xs \<Longrightarrow> pinned t = b) \<Longrightarrow> pinned_first xs" for xs b
    by (induction xs) (auto simp: pinned_first_def)
  assume "\<forall>t \<in> set ps. pinned t" and "\<forall>t \<in> set us. \<not> pinned t"
  then show ?thesis using all [of ps True] all [of us False] by (simp add: pinned_first_append)
qed

text \<open>Inserting a tab, pinned or not, at the boundary keeps the zones.\<close>

lemma pinned_first_insert:
  assumes "pinned_first ts"
  shows "pinned_first (take (pinnedBoundary ts) ts @ [t] @ drop (pinnedBoundary ts) ts)"
proof -
  obtain ps us where z: "ts = ps @ us" "\<forall>t \<in> set ps. pinned t" "\<forall>t \<in> set us. \<not> pinned t"
    "pinnedBoundary ts = length ps" using pinned_first_zones [OF assms] by metis
  show ?thesis
  proof (cases "pinned t")
    case True
    then show ?thesis using z pinned_first_zonesI [of "ps @ [t]" us] by simp
  next
    case False
    then show ?thesis using z pinned_first_zonesI [of ps "t # us"] by simp
  qed
qed

section \<open>Well-formed sessions, groups and stores\<close>

definition session_wf :: "tab_session \<Rightarrow> bool" where
  "session_wf t \<longleftrightarrow>
     resourceKey t = resourceKeyForUrl (tabUrl t) \<and>
     0 \<le> histIndex (history t) \<and> histIndex (history t) < int (length (histStack (history t)))"

definition session_sync :: "tab_session \<Rightarrow> bool" where
  "session_sync t \<longleftrightarrow> histStack (history t) ! nat (histIndex (history t)) = tabUrl t"

definition tab_ids :: "tab_group \<Rightarrow> string set" where
  "tab_ids g = tabId ` set (tabs g)"

definition group_wf :: "tab_group \<Rightarrow> bool" where
  "group_wf g \<longleftrightarrow>
     activeTabId g \<in> tab_ids g \<and> pinned_first (tabs g) \<and> distinct (map tabId (tabs g)) \<and>
     (\<forall>t \<in> set (tabs g). session_wf t)"

definition store_ids :: "tab_store \<Rightarrow> string set" where
  "store_ids s = {x. \<exists>slug g. obj_get (byWorkspace s) slug = Some g \<and> x \<in> tab_ids g}"

definition groups_ok :: "(tab_group \<Rightarrow> bool) \<Rightarrow> tab_store \<Rightarrow> bool" where
  "groups_ok P s \<longleftrightarrow> (\<forall>slug g. obj_get (byWorkspace s) slug = Some g \<longrightarrow> slug \<noteq> [] \<and> P g)"

definition ids_disjoint :: "tab_store \<Rightarrow> bool" where
  "ids_disjoint s \<longleftrightarrow>
     (\<forall>j k g h. obj_get (byWorkspace s) j = Some g \<longrightarrow> obj_get (byWorkspace s) k = Some h \<longrightarrow>
        j \<noteq> k \<longrightarrow> tab_ids g \<inter> tab_ids h = {})"

definition active_ok :: "tab_store \<Rightarrow> bool" where
  "active_ok s \<longleftrightarrow>
     (\<forall>w. activeWorkspaceSlug s = Some w \<longrightarrow> obj_get (byWorkspace s) w \<noteq> None)"

definition store_wf :: "tab_store \<Rightarrow> bool" where
  "store_wf s \<longleftrightarrow>
     obj_wf (byWorkspace s) \<and> groups_ok group_wf s \<and> ids_disjoint s \<and> active_ok s"

definition group_sync :: "tab_group \<Rightarrow> bool" where
  "group_sync g \<longleftrightarrow> (\<forall>t \<in> set (tabs g). session_sync t)"

definition store_sync :: "tab_store \<Rightarrow> bool" where
  "store_sync s \<longleftrightarrow> groups_ok group_sync s"

lemma group_wf_nonempty: "group_wf g \<Longrightarrow> tabs g \<noteq> []"
  by (auto simp: group_wf_def tab_ids_def)

lemma store_wf_initial: "store_wf initial_store"
  by (simp add: store_wf_def initial_store_def groups_ok_def ids_disjoint_def active_ok_def)

lemma store_sync_initial: "store_sync initial_store"
  by (simp add: store_sync_def groups_ok_def initial_store_def)

section \<open>Locating tabs\<close>

lemma find_location_in_Some:
  "find_location_in xs tid = Some (slug, g, i) \<Longrightarrow>
     (slug, g) \<in> set xs \<and> i < length (tabs g) \<and> tabId (tabs g ! i) = tid"
  by (induction xs tid rule: find_location_in.induct)
    (auto split: option.splits dest: find_index_Some)

lemma findTabLocation_Some:
  assumes "store_wf s" and "findTabLocation (byWorkspace s) tid = Some (slug, g, i)"
  shows "obj_get (byWorkspace s) slug = Some g" and "i < length (tabs g)"
    and "tabId (tabs g ! i) = tid" and "group_wf g" and "slug \<noteq> []" and "tid \<in> tab_ids g"
proof -
  have wf: "obj_wf (byWorkspace s)" and gs: "groups_ok group_wf s"
    using assms(1) by (auto simp: store_wf_def)
  have loc: "(slug, g) \<in> set (byWorkspace s)" "i < length (tabs g)" "tabId (tabs g ! i) = tid"
    using find_location_in_Some [of "obj_entries (byWorkspace s)"] assms(2)
    by (auto simp: findTabLocation_def)
  then show get: "obj_get (byWorkspace s) slug = Some g" using wf by (simp add: obj_get_in)
  show "i < length (tabs g)" and "tabId (tabs g ! i) = tid" by (fact loc)+
  then show "tid \<in> tab_ids g" by (auto simp: tab_ids_def)
  show "group_wf g" and "slug \<noteq> []" using gs get by (auto simp: groups_ok_def)
qed

lemma find_location_in_None:
  "find_location_in xs tid = None \<longleftrightarrow> (\<forall>(slug, g) \<in> set xs. tid \<notin> tab_ids g)"
  by (induction xs tid rule: find_location_in.induct)
    (auto split: option.splits simp: tab_ids_def find_index_None dest!: find_index_Some)

lemma findTabLocation_None:
  assumes "store_wf s"
  shows "findTabLocation (byWorkspace s) tid = None \<longleftrightarrow> tid \<notin> store_ids s"
proof -
  have "obj_wf (byWorkspace s)" using assms by (simp add: store_wf_def)
  then show ?thesis
    by (auto simp: findTabLocation_def find_location_in_None store_ids_def obj_get_in)
qed

lemma active_group_Some:
  assumes "active_group s = Some (slug, g)"
  shows "activeWorkspaceSlug s = Some slug" and "slug \<noteq> []" and "obj_get (byWorkspace s) slug = Some g"
  using assms by (auto simp: active_group_def js_simps split: option.splits)

lemma store_wf_group:
  "store_wf s \<Longrightarrow> obj_get (byWorkspace s) slug = Some g \<Longrightarrow> group_wf g \<and> slug \<noteq> []"
  by (auto simp: store_wf_def groups_ok_def)

lemma store_sync_group:
  "store_sync s \<Longrightarrow> obj_get (byWorkspace s) slug = Some g \<Longrightarrow> t \<in> set (tabs g) \<Longrightarrow> session_sync t"
  by (auto simp: store_sync_def groups_ok_def group_sync_def)

section \<open>Replacing one group\<close>

lemma put_group_get [obj_simps]:
  "obj_get (byWorkspace (put_group s slug g)) k = (if k = slug then Some g else obj_get (byWorkspace s) k)"
  by (simp add: put_group_def obj_simps)

lemma put_group_active [simp]: "activeWorkspaceSlug (put_group s slug g) = activeWorkspaceSlug s"
  by (simp add: put_group_def)

lemma groups_ok_put:
  assumes "groups_ok P s" and "slug \<noteq> []" and "P g"
  shows "groups_ok P (put_group s slug g)"
  unfolding groups_ok_def
proof (intro allI impI)
  fix k h
  assume get: "obj_get (byWorkspace (put_group s slug g)) k = Some h"
  show "k \<noteq> [] \<and> P h"
  proof (rule obj.all_store [where P = "\<lambda>k h. k \<noteq> [] \<and> P h"])
    show "obj_get (obj_set (byWorkspace s) slug g) k = Some h"
      using get by (simp add: put_group_def)
    show "j \<noteq> [] \<and> P w" if "obj_get (byWorkspace s) j = Some w" for j w
      using assms(1) that by (simp add: groups_ok_def)
  qed (use assms in simp)
qed

text \<open>
  The rule of every action: a well-formed group whose ids are the replaced group's or new to
  the store may replace the group of a slug.
\<close>

lemma put_group_wf:
  assumes wf: "store_wf s" and slug: "slug \<noteq> []" and g: "group_wf g"
    and ids: "\<And>x. x \<in> tab_ids g \<Longrightarrow>
      x \<notin> store_ids s \<or> (\<exists>h. obj_get (byWorkspace s) slug = Some h \<and> x \<in> tab_ids h)"
  shows "store_wf (put_group s slug g)"
proof -
  have disj: "x \<notin> tab_ids h"
    if "x \<in> tab_ids g" "obj_get (byWorkspace s) k = Some h" "k \<noteq> slug" for x k h
    using ids [OF that(1)] wf that unfolding store_wf_def ids_disjoint_def store_ids_def by blast
  have "ids_disjoint (put_group s slug g)"
    unfolding ids_disjoint_def
  proof (intro allI impI)
    fix j k u v
    assume "obj_get (byWorkspace (put_group s slug g)) j = Some u"
      "obj_get (byWorkspace (put_group s slug g)) k = Some v" "j \<noteq> k"
    moreover have "ids_disjoint s" using wf by (simp add: store_wf_def)
    ultimately show "tab_ids u \<inter> tab_ids v = {}"
      using disj [of _ j u] disj [of _ k v]
      by (cases "j = slug"; cases "k = slug") (auto simp: obj_simps ids_disjoint_def)
  qed
  moreover have "groups_ok group_wf (put_group s slug g)"
    using wf slug g by (simp add: store_wf_def groups_ok_put)
  moreover have "active_ok (put_group s slug g)"
    using wf by (auto simp: store_wf_def active_ok_def obj_simps)
  moreover have "obj_wf (byWorkspace (put_group s slug g))"
    using wf by (simp add: store_wf_def put_group_def)
  ultimately show ?thesis by (simp add: store_wf_def)
qed

lemma put_same_ids_wf:
  assumes "store_wf s" and "obj_get (byWorkspace s) slug = Some h"
    and "group_wf g" and "tab_ids g \<subseteq> tab_ids h"
  shows "store_wf (put_group s slug g)"
  using assms store_wf_group [OF assms(1,2)] by (intro put_group_wf) auto

lemma put_fresh_wf:
  assumes "store_wf s" and "obj_get (byWorkspace s) slug = Some h"
    and "group_wf g" and "tab_ids g \<subseteq> insert x (tab_ids h)" and "x \<notin> store_ids s"
  shows "store_wf (put_group s slug g)"
  using assms store_wf_group [OF assms(1,2)] by (intro put_group_wf) auto

lemma store_wf_activate:
  "store_wf s \<Longrightarrow> obj_get (byWorkspace s) w \<noteq> None \<Longrightarrow> store_wf (s\<lparr>activeWorkspaceSlug := Some w\<rparr>)"
  by (auto simp: store_wf_def groups_ok_def ids_disjoint_def active_ok_def)

lemma store_sync_put:
  "store_sync s \<Longrightarrow> slug \<noteq> [] \<Longrightarrow> group_sync g \<Longrightarrow> store_sync (put_group s slug g)"
  by (simp add: store_sync_def groups_ok_put)

lemma store_sync_activate [simp]: "store_sync (s\<lparr>activeWorkspaceSlug := w\<rparr>) = store_sync s"
  by (simp add: store_sync_def groups_ok_def)

lemma store_ids_activate [simp]: "store_ids (s\<lparr>activeWorkspaceSlug := w\<rparr>) = store_ids s"
  by (simp add: store_ids_def)

section \<open>Building groups\<close>

lemma makeSession_wf [simp]: "session_wf (makeSession fresh url title)"
  by (simp add: session_wf_def makeSession_def)

lemma makeSession_sync [simp]: "session_sync (makeSession fresh url title)"
  by (simp add: session_sync_def makeSession_def)

lemma makeSession_fields [simp]:
  "tabId (makeSession fresh url title) = fresh" "pinned (makeSession fresh url title) = False"
  "tabUrl (makeSession fresh url title) = url"
  "resourceKey (makeSession fresh url title) = resourceKeyForUrl url"
  by (simp_all add: makeSession_def)

lemma defaultTabFor_wf [simp]:
  "session_wf (defaultTabFor fresh slug)" "session_sync (defaultTabFor fresh slug)"
  "tabId (defaultTabFor fresh slug) = fresh"
  by (simp_all add: defaultTabFor_def)

lemma group_wf_single [simp]:
  "session_wf t \<Longrightarrow> tabId t = a \<Longrightarrow> group_wf \<lparr>tabs = [t], activeTabId = a\<rparr>"
  by (auto simp add: group_wf_def tab_ids_def)

lemma group_wf_focus: "group_wf g \<Longrightarrow> t \<in> set (tabs g) \<Longrightarrow> group_wf (g\<lparr>activeTabId := tabId t\<rparr>)"
  by (auto simp: group_wf_def tab_ids_def)

lemma group_wf_append:
  assumes "group_wf g" and "session_wf t" and "\<not> pinned t" and "tabId t \<notin> tab_ids g"
    and "a = tabId t \<or> a = activeTabId g"
  shows "group_wf \<lparr>tabs = tabs g @ [t], activeTabId = a\<rparr>"
  using assms by (auto simp: group_wf_def tab_ids_def pinned_first_snoc)

lemma group_wf_update:
  assumes "group_wf g" and "i < length (tabs g)" and "session_wf t"
    and "tabId t = tabId (tabs g ! i)" and "pinned t = pinned (tabs g ! i)"
  shows "group_wf (g\<lparr>tabs := (tabs g)[i := t]\<rparr>)" and "tab_ids (g\<lparr>tabs := (tabs g)[i := t]\<rparr>) = tab_ids g"
proof -
  have m: "map tabId ((tabs g)[i := t]) = map tabId (tabs g)"
    using assms(2,4) by (metis list_update_id map_update)
  then have "tabId ` set ((tabs g)[i := t]) = tabId ` set (tabs g)" by (metis set_map)
  then show "tab_ids (g\<lparr>tabs := (tabs g)[i := t]\<rparr>) = tab_ids g"
    and "group_wf (g\<lparr>tabs := (tabs g)[i := t]\<rparr>)"
    using assms m set_update_subset_insert [of "tabs g" i t]
    by (auto simp: group_wf_def tab_ids_def pinned_first_update)
qed

lemma group_sync_update:
  assumes "group_sync g" and "session_sync t"
  shows "group_sync (g\<lparr>tabs := (tabs g)[i := t]\<rparr>)"
  using assms set_update_subset_insert [of "tabs g" i t] by (auto simp: group_sync_def)

end
