(* ===== verification/Tab_Actions.thy ===== *)
theory Tab_Actions
  imports Tab_Invariant
begin

text \<open>
  Every action of the tab store keeps the store well-formed, and every action keeps it in
  sync. The actions that mint a session need the minted id to be new to the store, as a
  \<open>createSafeId\<close> UUID is; \<open>moveTab\<close> needs the drag library's \<open>arrayMove\<close> to do what its
  documentation says.
\<close>

text \<open>\<open>arrayMove(array, from, to)\<close>: the array with the item at \<open>from\<close> moved to \<open>to\<close>.\<close>

definition array_move_contract :: "('a list \<Rightarrow> int \<Rightarrow> int \<Rightarrow> 'a list) \<Rightarrow> bool" where
  "array_move_contract am \<longleftrightarrow>
     (\<forall>xs i j. 0 \<le> i \<and> i < int (length xs) \<and> 0 \<le> j \<and> j < int (length xs) \<longrightarrow>
        am xs i j =
          (let rest = take (nat i) xs @ drop (Suc (nat i)) xs
           in take (nat j) rest @ [xs ! nat i] @ drop (nat j) rest))"

section \<open>Focusing, opening and adding\<close>

lemma openTab_wf:
  assumes wf: "store_wf s" and fresh: "fresh \<notin> store_ids s"
  shows "store_wf (fst (openTab fresh path title activate s))"
proof (cases "sanitizeTabPath path")
  case None
  then show ?thesis using wf by (simp add: openTab_def)
next
  case (Some clean)
  show ?thesis
  proof (cases "active_group s")
    case None
    with Some wf show ?thesis by (simp add: openTab_def)
  next
    case (Some sg)
    obtain slug g where sg: "sg = (slug, g)" by fastforce
    note act = active_group_Some [OF Some [unfolded sg]]
    have gwf: "group_wf g" using store_wf_group [OF wf act(3)] by simp
    show ?thesis
    proof (cases "find (\<lambda>t. resourceKey t = resourceKeyForUrl clean) (tabs g)")
      case (Some e)
      then have "e \<in> set (tabs g)" by (auto dest: find_Some_in)
      then have "store_wf (put_group s slug (g\<lparr>activeTabId := tabId e\<rparr>))"
        using wf act gwf by (intro put_same_ids_wf) (auto simp: group_wf_focus tab_ids_def)
      then show ?thesis
        using \<open>sanitizeTabPath path = Some clean\<close> sanitize_nonempty [of path clean] \<open>active_group s = Some sg\<close> sg Some
        by (simp add: openTab_def)
    next
      case None
      have "fresh \<notin> tab_ids g" using fresh act(3) by (auto simp: store_ids_def)
      then have "store_wf (put_group s slug \<lparr>tabs = tabs g @ [makeSession fresh clean title],
                   activeTabId = a\<rparr>)" if "a = fresh \<or> a = activeTabId g" for a
        using wf act gwf fresh that
        by (intro put_fresh_wf [where x = fresh]) (auto simp: group_wf_append tab_ids_def)
      then show ?thesis
        using \<open>sanitizeTabPath path = Some clean\<close> sanitize_nonempty [of path clean] \<open>active_group s = Some sg\<close> sg None
        by (simp add: openTab_def Let_def)
    qed
  qed
qed

lemma group_sync_focus [simp]: "group_sync (g\<lparr>activeTabId := a\<rparr>) = group_sync g"
  by (simp add: group_sync_def)

lemma store_sync_active_group:
  "active_group s = Some (slug, g) \<Longrightarrow> store_sync s \<Longrightarrow> group_sync g \<and> slug \<noteq> []"
  using active_group_Some [of s slug g] by (auto simp: store_sync_def groups_ok_def)

lemma store_sync_location:
  assumes "findTabLocation (byWorkspace s) tid = Some (slug, g, i)"
    and "obj_wf (byWorkspace s)" and "store_sync s"
  shows "group_sync g \<and> slug \<noteq> [] \<and> i < length (tabs g)"
  using assms find_location_in_Some [of "obj_entries (byWorkspace s)" tid slug g i]
  by (auto simp: findTabLocation_def store_sync_def groups_ok_def obj_get_in)

lemma openTab_sync: "store_sync s \<Longrightarrow> store_sync (fst (openTab fresh path title activate s))"
  by (auto simp: openTab_def Let_def store_sync_put group_sync_def dest!: store_sync_active_group
      split: option.splits)

lemma addTab_wf:
  assumes wf: "store_wf s" and fresh: "fresh \<notin> store_ids s"
  shows "store_wf (fst (addTab fresh path title s))"
proof (cases "sanitizeTabPath path = None \<or> active_group s = None")
  case True
  then show ?thesis using wf by (auto simp: addTab_def split: option.splits)
next
  case False
  then obtain clean slug g where sc: "sanitizeTabPath path = Some clean"
    and ag: "active_group s = Some (slug, g)" by auto
  note act = active_group_Some [OF ag]
  have gwf: "group_wf g" using store_wf_group [OF wf act(3)] by simp
  have "fresh \<notin> tab_ids g" using fresh act(3) by (auto simp: store_ids_def)
  then have "store_wf (put_group s slug \<lparr>tabs = tabs g @ [makeSession fresh clean title],
               activeTabId = activeTabId g\<rparr>)"
    using wf act gwf fresh
    by (intro put_fresh_wf [where x = fresh]) (auto simp: group_wf_append tab_ids_def)
  then show ?thesis using sc ag sanitize_nonempty [OF sc] by (simp add: addTab_def Let_def)
qed

lemma addTab_sync: "store_sync s \<Longrightarrow> store_sync (fst (addTab fresh path title s))"
  by (auto simp: addTab_def Let_def store_sync_put group_sync_def dest!: store_sync_active_group
      split: option.splits)

lemma new_group_wf:
  assumes "store_wf s" and "slug \<noteq> []" and "session_wf t" and "tabId t \<notin> store_ids s"
  shows "store_wf ((put_group s slug \<lparr>tabs = [t], activeTabId = tabId t\<rparr>)\<lparr>activeWorkspaceSlug := Some slug\<rparr>)"
  using assms
  by (intro store_wf_activate put_group_wf) (auto simp: tab_ids_def obj_simps)

lemma switchWorkspace_wf:
  assumes wf: "store_wf s" and fresh: "fresh \<notin> store_ids s"
  shows "store_wf (switchWorkspace fresh slug openPath s)"
proof (cases "slug = []")
  case True
  then show ?thesis using wf by (simp add: switchWorkspace_def)
next
  case False
  show ?thesis
  proof (cases "obj_get (byWorkspace s) slug")
    case None
    have "store_wf ((put_group s slug \<lparr>tabs = [makeSession fresh u t], activeTabId = fresh\<rparr>)
            \<lparr>activeWorkspaceSlug := Some slug\<rparr>)" for u t
      using new_group_wf [OF wf False, of "makeSession fresh u t"] fresh by simp
    with None False show ?thesis by (simp add: switchWorkspace_def Let_def)
  next
    case (Some g)
    have gwf: "group_wf g" using store_wf_group [OF wf Some] by simp
    have id: "fresh \<notin> tab_ids g" using fresh Some by (auto simp: store_ids_def)
    have stay: "store_wf (s\<lparr>activeWorkspaceSlug := Some slug\<rparr>)"
      using wf Some by (simp add: store_wf_activate)
    have focus: "store_wf ((put_group s slug (g\<lparr>activeTabId := tabId m\<rparr>))\<lparr>activeWorkspaceSlug := Some slug\<rparr>)"
      if "find P (tabs g) = Some m" for P m
      using wf Some gwf find_Some_in [OF that]
      by (intro store_wf_activate put_same_ids_wf) (auto simp: group_wf_focus tab_ids_def obj_simps)
    have add: "store_wf ((put_group s slug \<lparr>tabs = tabs g @ [makeSession fresh u t], activeTabId = fresh\<rparr>)
                 \<lparr>activeWorkspaceSlug := Some slug\<rparr>)" for u t
      using wf Some gwf id fresh
      by (intro store_wf_activate put_fresh_wf [where x = fresh])
        (auto simp: group_wf_append tab_ids_def obj_simps)
    show ?thesis
      using False Some stay focus add
      by (auto simp: switchWorkspace_def Let_def split: option.splits)
  qed
qed

lemma store_sync_get: "obj_get (byWorkspace s) slug = Some g \<Longrightarrow> store_sync s \<Longrightarrow> group_sync g \<and> slug \<noteq> []"
  by (auto simp: store_sync_def groups_ok_def)

lemma switchWorkspace_sync: "store_sync s \<Longrightarrow> store_sync (switchWorkspace fresh slug openPath s)"
  by (auto simp: switchWorkspace_def Let_def store_sync_put group_sync_def
      dest!: store_sync_get split: option.splits)

lemma setActiveTab_wf:
  assumes wf: "store_wf s"
  shows "store_wf (setActiveTab tid s)"
proof (cases "findTabLocation (byWorkspace s) tid")
  case (Some l)
  obtain slug g i where l: "l = (slug, g, i)" by (cases l) auto
  note loc = findTabLocation_Some [OF wf Some [unfolded l]]
  have "group_wf (g\<lparr>activeTabId := tid\<rparr>)"
    using group_wf_focus [OF loc(4), of "tabs g ! i"] loc(2,3) by auto
  then have "store_wf ((put_group s slug (g\<lparr>activeTabId := tid\<rparr>))\<lparr>activeWorkspaceSlug := Some slug\<rparr>)"
    using wf loc by (intro store_wf_activate put_same_ids_wf) (auto simp: tab_ids_def obj_simps)
  then show ?thesis using Some l wf by (simp add: setActiveTab_def)
qed (simp add: setActiveTab_def wf)

lemma setActiveTab_sync:
  "obj_wf (byWorkspace s) \<Longrightarrow> store_sync s \<Longrightarrow> store_sync (setActiveTab tid s)"
  by (auto simp: setActiveTab_def store_sync_put dest!: store_sync_location split: option.splits)

section \<open>Closing\<close>

lemma closeTab_wf:
  assumes wf: "store_wf s" and fresh: "fresh \<notin> store_ids s"
  shows "\<exists>s'. closeTab fresh tid s = Inr s' \<and> store_wf s'"
proof (cases "findTabLocation (byWorkspace s) tid")
  case (Some l)
  obtain slug g i where l: "l = (slug, g, i)" by (cases l) auto
  note loc = findTabLocation_Some [OF wf Some [unfolded l]]
  show ?thesis
  proof (cases "length (tabs g) = 1")
    case True
    have "store_wf (put_group s slug \<lparr>tabs = [defaultTabFor fresh slug],
            activeTabId = tabId (defaultTabFor fresh slug)\<rparr>)"
      using wf loc fresh by (intro put_fresh_wf [where x = fresh]) (auto simp: tab_ids_def)
    then show ?thesis using Some l True by (simp add: closeTab_def Let_def)
  next
    case False
    define nxt where "nxt = filter (\<lambda>t. tabId t \<noteq> tid) (tabs g)"
    have dist: "distinct (map tabId (tabs g))" using loc(4) by (simp add: group_wf_def)
    define j where "j = (if i = 0 then 1 else 0 :: nat)"
    have j: "j < length (tabs g)" "j \<noteq> i" using False loc(2) by (auto simp: j_def)
    then have "tabId (tabs g ! j) \<noteq> tid"
      using dist loc(2,3) by (metis length_map nth_eq_iff_index_eq nth_map)
    then have ne: "nxt \<noteq> []" using j by (auto simp: nxt_def filter_empty_conv)
    have sub: "set nxt \<subseteq> set (tabs g)" by (auto simp: nxt_def)
    have nwf: "group_wf \<lparr>tabs = nxt, activeTabId = a\<rparr>" if "a \<in> tabId ` set nxt" for a
      using loc(4) that by (auto simp: group_wf_def tab_ids_def nxt_def distinct_map_filter)
    have put: "store_wf (put_group s slug \<lparr>tabs = nxt, activeTabId = a\<rparr>)" if "a \<in> tabId ` set nxt" for a
      using wf loc(1) nwf [OF that] sub by (intro put_same_ids_wf) (auto simp: tab_ids_def)
    show ?thesis
    proof (cases "activeTabId g = tid")
      case True
      let ?k = "min (int i) (int (length nxt) - 1)"
      have k: "0 \<le> ?k" "nat ?k < length nxt" using ne unfolding min_def by (cases nxt; auto)+
      then have "at_index nxt ?k = Some (nxt ! nat ?k)" by (auto simp: at_index_Some)
      moreover have "tabId (nxt ! nat ?k) \<in> tabId ` set nxt" using k by simp
      ultimately show ?thesis
        using Some l False True put by (simp add: closeTab_def Let_def nxt_def)
    next
      case nt: False
      have "activeTabId g \<in> tabId ` set nxt"
        using loc(4) nt by (auto simp: group_wf_def tab_ids_def nxt_def)
      then show ?thesis
        using Some l False nt put by (simp add: closeTab_def Let_def nxt_def)
    qed
  qed
qed (simp add: closeTab_def wf)

lemma closeTab_sync:
  assumes "obj_wf (byWorkspace s)" and "store_sync s" and "closeTab fresh tid s = Inr s'"
  shows "store_sync s'"
  using assms
  by (auto simp: closeTab_def Let_def store_sync_put group_sync_def
      dest!: store_sync_location split: option.splits if_splits)

lemma closeOtherTabs_wf:
  assumes wf: "store_wf s"
  shows "store_wf (closeOtherTabs tid s)"
proof (cases "findTabLocation (byWorkspace s) tid")
  case (Some l)
  obtain slug g i where l: "l = (slug, g, i)" by (cases l) auto
  note loc = findTabLocation_Some [OF wf Some [unfolded l]]
  let ?closing = "set (map tabId (filter (\<lambda>t. \<not> pinned t \<and> tabId t \<noteq> tid) (tabs g)))"
  let ?g = "\<lparr>tabs = filter (\<lambda>t. tabId t \<notin> ?closing) (tabs g),
              activeTabId = (if activeTabId g \<in> ?closing then tid else activeTabId g)\<rparr>"
  have tid: "tid \<notin> ?closing" by auto
  have "tid \<in> tab_ids ?g" using loc(6) by (auto simp: tab_ids_def)
  moreover have "activeTabId g \<in> tab_ids ?g" if "activeTabId g \<notin> ?closing"
    using loc(4) that by (auto simp: tab_ids_def group_wf_def)
  ultimately have "group_wf ?g"
    using loc(4) by (auto simp: group_wf_def distinct_map_filter)
  then have "store_wf (put_group s slug ?g)"
    using wf loc(1) by (intro put_same_ids_wf) (auto simp: tab_ids_def)
  then show ?thesis
    using Some l wf by (simp add: closeOtherTabs_def buildCloseOtherTabsResult_def Let_def put_group_def)
qed (simp add: closeOtherTabs_def buildCloseOtherTabsResult_def wf)

lemma closeOtherTabs_sync:
  assumes "obj_wf (byWorkspace s)" and "store_sync s"
  shows "store_sync (closeOtherTabs tid s)"
proof (cases "findTabLocation (byWorkspace s) tid")
  case (Some l)
  obtain slug g i where l: "l = (slug, g, i)" by (cases l) auto
  have "group_sync g" "slug \<noteq> []" using store_sync_location [OF Some [unfolded l] assms] by auto
  then have "store_sync (put_group s slug \<lparr>tabs = filter P (tabs g), activeTabId = a\<rparr>)" for P a
    using assms by (intro store_sync_put) (auto simp: group_sync_def)
  then show ?thesis
    using Some l assms
    by (simp add: closeOtherTabs_def buildCloseOtherTabsResult_def Let_def put_group_def)
qed (simp add: closeOtherTabs_def buildCloseOtherTabsResult_def assms)

lemma closeActiveTab_wf:
  assumes "store_wf s" and "fresh \<notin> store_ids s"
  shows "\<exists>s'. closeActiveTab fresh s = Inr s' \<and> store_wf s'"
  using assms closeTab_wf by (auto simp: closeActiveTab_def split: option.splits)

lemma closeActiveTab_sync:
  "obj_wf (byWorkspace s) \<Longrightarrow> store_sync s \<Longrightarrow> closeActiveTab fresh s = Inr s' \<Longrightarrow> store_sync s'"
  by (auto simp: closeActiveTab_def dest: closeTab_sync split: option.splits)

section \<open>Titles, navigation and history\<close>

lemma updateTab_wf:
  assumes wf: "store_wf s"
  shows "store_wf (updateTab tid patch_title s)"
proof (cases "findTabLocation (byWorkspace s) tid")
  case (Some l)
  obtain slug g i where l: "l = (slug, g, i)" by (cases l) auto
  note loc = findTabLocation_Some [OF wf Some [unfolded l]]
  have "session_wf ((tabs g ! i)\<lparr>tabTitle := ti\<rparr>)" for ti
    using loc(2,4) by (auto simp: group_wf_def session_wf_def)
  then have "store_wf (put_group s slug (g\<lparr>tabs := (tabs g)[i := (tabs g ! i)\<lparr>tabTitle := ti\<rparr>]\<rparr>))" for ti
    using group_wf_update [OF loc(4,2)] wf loc(1) by (intro put_same_ids_wf) auto
  then show ?thesis
    using Some l wf by (auto simp: updateTab_def Let_def split: option.splits)
qed (simp add: updateTab_def wf)

lemma updateTab_sync:
  assumes "obj_wf (byWorkspace s)" and "store_sync s"
  shows "store_sync (updateTab tid patch_title s)"
proof (cases "findTabLocation (byWorkspace s) tid")
  case (Some l)
  obtain slug g i where l: "l = (slug, g, i)" by (cases l) auto
  note loc = store_sync_location [OF Some [unfolded l] assms]
  have "session_sync ((tabs g ! i)\<lparr>tabTitle := ti\<rparr>)" for ti
    using loc by (auto simp: group_sync_def session_sync_def)
  then show ?thesis
    using Some l assms loc
    by (auto simp: updateTab_def Let_def intro!: store_sync_put group_sync_update split: option.splits)
qed (simp add: updateTab_def assms)

text \<open>The session that \<open>navigateActiveSession\<close> writes, named for the lemmas below.\<close>

definition navigated :: "bool \<Rightarrow> string \<Rightarrow> tab_session \<Rightarrow> tab_session" where
  "navigated replace clean t =
    (let h = history t
     in t\<lparr>tabUrl := clean, resourceKey := resourceKeyForUrl clean,
          history := \<lparr>histStack = (if replace
                                   then slice_to (histStack h) (histIndex h) @ [clean] @
                                        slice_from (histStack h) (histIndex h + 1)
                                   else slice_to (histStack h) (histIndex h + 1) @ [clean]),
                      histIndex = (if replace then histIndex h else histIndex h + 1)\<rparr>\<rparr>)"

lemma navigated_fields [simp]:
  "tabId (navigated r u t) = tabId t" "pinned (navigated r u t) = pinned t"
  "tabUrl (navigated r u t) = u" "resourceKey (navigated r u t) = resourceKeyForUrl u"
  by (simp_all add: navigated_def Let_def)

lemma navigated_wf: "session_wf t \<Longrightarrow> session_wf (navigated r u t) \<and> session_sync (navigated r u t)"
  by (auto simp: session_wf_def session_sync_def navigated_def Let_def nth_append nat_add_distrib)

lemma navigateActiveSession_cases:
  obtains "navigateActiveSession url replace s = s"
  | slug g i clean where
      "active_group s = Some (slug, g)" "i < length (tabs g)" "tabId (tabs g ! i) = activeTabId g"
      "sanitizeTabPath url = Some clean" "extractWorkspaceSlug clean = Some slug"
      "navigateActiveSession url replace s =
         put_group s slug (g\<lparr>tabs := (tabs g)[i := navigated replace clean (tabs g ! i)]\<rparr>)"
proof (cases "navigateActiveSession url replace s = s")
  case False
  then obtain slug g i clean where ag: "active_group s = Some (slug, g)"
    and i: "find_index (\<lambda>t. tabId t = activeTabId g) (tabs g) = Some i"
    and clean: "sanitizeTabPath url = Some clean" "extractWorkspaceSlug clean = Some slug"
    by (auto simp: navigateActiveSession_def split: option.splits if_splits)
  show ?thesis
    using False ag i clean find_index_Some [OF i] sanitize_nonempty [OF clean(1)]
    by (intro that(2) [OF ag _ _ clean, of i])
      (auto simp: navigateActiveSession_def navigated_def Let_def split: if_splits)
qed (rule that(1))

lemma navigateActiveSession_wf:
  assumes wf: "store_wf s"
  shows "store_wf (navigateActiveSession url replace s)"
proof (rule navigateActiveSession_cases [of url replace s])
  fix slug i clean and g :: tab_group
  assume ag: "active_group s = Some (slug, g)" and i: "i < length (tabs g)"
    and eq: "navigateActiveSession url replace s =
         put_group s slug (g\<lparr>tabs := (tabs g)[i := navigated replace clean (tabs g ! i)]\<rparr>)"
  note act = active_group_Some [OF ag]
  have gwf: "group_wf g" using store_wf_group [OF wf act(3)] by simp
  have "session_wf (navigated replace clean (tabs g ! i))"
    using gwf i by (simp add: navigated_wf group_wf_def)
  then show ?thesis
    unfolding eq using group_wf_update [OF gwf i] wf act(3) by (intro put_same_ids_wf) auto
qed (simp add: wf)

lemma navigateActiveSession_sync:
  assumes "store_wf s" and "store_sync s"
  shows "store_sync (navigateActiveSession url replace s)"
proof (rule navigateActiveSession_cases [of url replace s])
  fix slug i clean and g :: tab_group
  assume ag: "active_group s = Some (slug, g)" and i: "i < length (tabs g)"
    and eq: "navigateActiveSession url replace s =
         put_group s slug (g\<lparr>tabs := (tabs g)[i := navigated replace clean (tabs g ! i)]\<rparr>)"
  note act = active_group_Some [OF ag]
  have "session_wf (tabs g ! i)" using store_wf_group [OF assms(1) act(3)] i by (simp add: group_wf_def)
  then show ?thesis
    unfolding eq using store_sync_active_group [OF ag assms(2)] assms(2)
    by (intro store_sync_put group_sync_update) (auto simp: navigated_wf)
qed (simp add: assms)

definition stepped :: "int \<Rightarrow> tab_session \<Rightarrow> tab_session" where
  "stepped n t =
    (let url = histStack (history t) ! nat n
     in t\<lparr>tabUrl := url, resourceKey := resourceKeyForUrl url, history := (history t)\<lparr>histIndex := n\<rparr>\<rparr>)"

lemma stepped_fields [simp]:
  "tabId (stepped n t) = tabId t" "pinned (stepped n t) = pinned t"
  "histIndex (history (stepped n t)) = n" "histStack (history (stepped n t)) = histStack (history t)"
  by (simp_all add: stepped_def Let_def)

lemma stepped_wf:
  "0 \<le> n \<Longrightarrow> n < int (length (histStack (history t))) \<Longrightarrow> session_wf (stepped n t) \<and> session_sync (stepped n t)"
  by (simp add: session_wf_def session_sync_def stepped_def Let_def)

lemma stepHistory_cases:
  obtains "stepHistory d s = s"
  | slug g i where
      "active_group s = Some (slug, g)" "i < length (tabs g)" "tabId (tabs g ! i) = activeTabId g"
      "0 \<le> histIndex (history (tabs g ! i)) + d"
      "histIndex (history (tabs g ! i)) + d < int (length (histStack (history (tabs g ! i))))"
      "stepHistory d s =
         put_group s slug (g\<lparr>tabs := (tabs g)[i := stepped (histIndex (history (tabs g ! i)) + d) (tabs g ! i)]\<rparr>)"
proof (cases "stepHistory d s = s")
  case False
  then obtain slug g i where ag: "active_group s = Some (slug, g)"
    and i: "find_index (\<lambda>t. tabId t = activeTabId g) (tabs g) = Some i"
    by (auto simp: stepHistory_def split: option.splits)
  show ?thesis
    using False ag i find_index_Some [OF i]
    by (intro that(2) [OF ag, of i])
      (auto simp: stepHistory_def stepped_def Let_def not_less not_le split: if_splits)
qed (rule that(1))

lemma stepHistory_wf:
  assumes wf: "store_wf s"
  shows "store_wf (stepHistory d s)"
proof (rule stepHistory_cases [of d s])
  fix slug i and g :: tab_group
  let ?n = "histIndex (history (tabs g ! i)) + d"
  assume ag: "active_group s = Some (slug, g)" and i: "i < length (tabs g)"
    and n: "0 \<le> ?n" "?n < int (length (histStack (history (tabs g ! i))))"
    and eq: "stepHistory d s = put_group s slug (g\<lparr>tabs := (tabs g)[i := stepped ?n (tabs g ! i)]\<rparr>)"
  note act = active_group_Some [OF ag]
  have gwf: "group_wf g" using store_wf_group [OF wf act(3)] by simp
  show ?thesis
    unfolding eq using group_wf_update [OF gwf i] stepped_wf [OF n] wf act(3)
    by (intro put_same_ids_wf) auto
qed (simp add: wf)

lemma stepHistory_sync:
  assumes "store_sync s"
  shows "store_sync (stepHistory d s)"
proof (rule stepHistory_cases [of d s])
  fix slug i and g :: tab_group
  let ?n = "histIndex (history (tabs g ! i)) + d"
  assume ag: "active_group s = Some (slug, g)" and i: "i < length (tabs g)"
    and n: "0 \<le> ?n" "?n < int (length (histStack (history (tabs g ! i))))"
    and eq: "stepHistory d s = put_group s slug (g\<lparr>tabs := (tabs g)[i := stepped ?n (tabs g ! i)]\<rparr>)"
  show ?thesis
    unfolding eq using store_sync_active_group [OF ag assms] stepped_wf [OF n] assms
    by (intro store_sync_put group_sync_update) auto
qed (simp add: assms)

section \<open>Scroll mementos and reload\<close>

lemma commitScrollMemento_wf:
  assumes wf: "store_wf s"
  shows "store_wf (commitScrollMemento tid routeKey entries s)"
proof (cases "findTabLocation (byWorkspace s) tid")
  case (Some l)
  obtain slug g i where l: "l = (slug, g, i)" by (cases l) auto
  note loc = findTabLocation_Some [OF wf Some [unfolded l]]
  have "session_wf ((tabs g ! i)\<lparr>memento := m\<rparr>)" for m
    using loc(2,4) by (auto simp: group_wf_def session_wf_def)
  then have "store_wf (put_group s slug (g\<lparr>tabs := (tabs g)[i := (tabs g ! i)\<lparr>memento := m\<rparr>]\<rparr>))" for m
    using group_wf_update [OF loc(4,2)] wf loc(1) by (intro put_same_ids_wf) auto
  then show ?thesis using Some l wf by (simp add: commitScrollMemento_def Let_def)
qed (simp add: commitScrollMemento_def wf)

lemma commitScrollMemento_sync:
  assumes "obj_wf (byWorkspace s)" and "store_sync s"
  shows "store_sync (commitScrollMemento tid routeKey entries s)"
proof (cases "findTabLocation (byWorkspace s) tid")
  case (Some l)
  obtain slug g i where l: "l = (slug, g, i)" by (cases l) auto
  note loc = store_sync_location [OF Some [unfolded l] assms]
  have "session_sync ((tabs g ! i)\<lparr>memento := m\<rparr>)" for m
    using loc by (auto simp: group_sync_def session_sync_def)
  then show ?thesis
    using Some l assms loc
    by (auto simp: commitScrollMemento_def Let_def intro!: store_sync_put group_sync_update)
qed (simp add: commitScrollMemento_def assms)

lemma store_wf_generation [simp]: "store_wf (s\<lparr>mountGeneration := n\<rparr>) = store_wf s"
  by (simp add: store_wf_def groups_ok_def ids_disjoint_def active_ok_def)

lemma store_sync_generation [simp]: "store_sync (s\<lparr>mountGeneration := n\<rparr>) = store_sync s"
  by (simp add: store_sync_def groups_ok_def)

lemma reloadActiveTab_wf: "store_wf s \<Longrightarrow> store_wf (reloadActiveTab s)"
  by (simp add: reloadActiveTab_def split: option.splits)

lemma reloadActiveTab_sync: "store_sync s \<Longrightarrow> store_sync (reloadActiveTab s)"
  by (simp add: reloadActiveTab_def split: option.splits)

end
