(* ===== verification/Tab_Order.thy ===== *)
theory Tab_Order
  imports Tab_Actions
begin

text \<open>
  The actions that reorder a group (drag and pin), the one that drops the groups of revoked
  workspaces, and the reset: they keep the store well-formed and in sync.
\<close>

section \<open>Moving one element of a list\<close>

definition moved :: "'a list \<Rightarrow> nat \<Rightarrow> nat \<Rightarrow> 'a list" where
  "moved xs i j =
     (let rest = take i xs @ drop (Suc i) xs in take j rest @ [xs ! i] @ drop j rest)"

lemma array_move_moved:
  "array_move_contract am \<Longrightarrow> 0 \<le> i \<Longrightarrow> i < int (length xs) \<Longrightarrow> 0 \<le> j \<Longrightarrow> j < int (length xs) \<Longrightarrow>
     am xs i j = moved xs (nat i) (nat j)"
  by (simp add: array_move_contract_def moved_def)

lemma mset_insert_at: "mset (take k r @ [x] @ drop k r) = add_mset x (mset r)"
proof -
  have "mset r = mset (take k r) + mset (drop k r)" by (metis append_take_drop_id mset_append)
  then show ?thesis by simp
qed

lemma mset_remove_at:
  assumes "i < length xs"
  shows "add_mset (xs ! i) (mset (take i xs @ drop (Suc i) xs)) = mset xs"
proof -
  have "mset xs = mset (take i xs @ xs ! i # drop (Suc i) xs)"
    using assms by (simp only: id_take_nth_drop [symmetric])
  then show ?thesis by simp
qed

lemma mset_moved: "i < length xs \<Longrightarrow> mset (moved xs i j) = mset xs"
  using mset_insert_at [of j "take i xs @ drop (Suc i) xs" "xs ! i"] mset_remove_at [of i xs]
  by (simp only: moved_def Let_def)

lemma set_moved [simp]: "i < length xs \<Longrightarrow> set (moved xs i j) = set xs"
  by (metis mset_moved set_mset_mset)

lemma distinct_map_moved [simp]:
  "i < length xs \<Longrightarrow> distinct (map f (moved xs i j)) = distinct (map f xs)"
  by (metis mset_map mset_moved mset_eq_imp_distinct_iff)

lemma moved_nth: "i < length xs \<Longrightarrow> j < length xs \<Longrightarrow> moved xs i j ! j = xs ! i"
  by (simp add: moved_def Let_def nth_append min_def)

lemma moved_same: "i < length xs \<Longrightarrow> moved xs i i = xs"
  by (simp add: moved_def Let_def min_def id_take_nth_drop [symmetric])

lemma moved_left:
  assumes "i < length ps" and "j < length ps"
  shows "moved (ps @ us) i j = moved ps i j @ us"
  using assms by (simp add: moved_def Let_def nth_append)

lemma moved_right:
  assumes "length ps \<le> i" and "length ps \<le> j" and "i < length (ps @ us)"
  shows "moved (ps @ us) i j = ps @ moved us (i - length ps) (j - length ps)"
  using assms by (simp add: moved_def Let_def nth_append Suc_diff_le)

section \<open>Dragging within a zone\<close>

lemma pinned_first_moved:
  assumes pf: "pinned_first ts" and i: "i < length ts"
    and j: "if pinned (ts ! i) then j < pinnedBoundary ts else pinnedBoundary ts \<le> j \<and> j < length ts"
  shows "pinned_first (moved ts i j)"
proof -
  obtain ps us where z: "ts = ps @ us" "\<forall>t \<in> set ps. pinned t" "\<forall>t \<in> set us. \<not> pinned t"
    "pinnedBoundary ts = length ps" using pinned_first_zones [OF pf] by metis
  show ?thesis
  proof (cases "i < length ps")
    case True
    then have "moved ts i j = moved ps i j @ us"
      using z j i by (simp add: nth_append moved_left)
    then show ?thesis using z True pinned_first_zonesI [of "moved ps i j" us] by simp
  next
    case False
    with z i have "us ! (i - length ps) \<in> set us" by (intro nth_mem) simp
    then have "\<not> pinned (ts ! i)" using z False by (simp add: nth_append)
    then have "moved ts i j = ps @ moved us (i - length ps) (j - length ps)"
      using z False i j by (simp add: moved_right)
    then show ?thesis
      using z False i pinned_first_zonesI [of ps "moved us (i - length ps) (j - length ps)"] by auto
  qed
qed

lemma pinnedBoundary_le: "pinnedBoundary ts \<le> length ts"
  by (induction ts) auto

lemma moveTab_cases:
  assumes "array_move_contract am" and "store_wf s"
  obtains "moveTab am fromIndex toIndex s = s"
  | slug g i j where
      "active_group s = Some (slug, g)" "i < length (tabs g)" "fromIndex = int i" "j < length (tabs g)"
      "j = nat (if pinned (tabs g ! i) then max 0 (min toIndex (int (pinnedBoundary (tabs g)) - 1))
                else max (int (pinnedBoundary (tabs g))) (min toIndex (int (length (tabs g)) - 1)))"
      "if pinned (tabs g ! i) then j < pinnedBoundary (tabs g) else pinnedBoundary (tabs g) \<le> j"
      "moveTab am fromIndex toIndex s = put_group s slug (g\<lparr>tabs := moved (tabs g) i j\<rparr>)"
proof (cases "moveTab am fromIndex toIndex s = s")
  case False
  then obtain slug g where ag: "active_group s = Some (slug, g)"
    and f: "0 \<le> fromIndex" "fromIndex < int (length (tabs g))"
    by (auto simp: moveTab_def not_less not_le split: option.splits if_splits)
  define i where "i = nat fromIndex"
  define c where "c = (if pinned (tabs g ! i) then max 0 (min toIndex (int (pinnedBoundary (tabs g)) - 1))
                else max (int (pinnedBoundary (tabs g))) (min toIndex (int (length (tabs g)) - 1)))"
  have i: "i < length (tabs g)" "fromIndex = int i" using f by (auto simp: i_def)
  have pf: "pinned_first (tabs g)"
    using store_wf_group [OF assms(2) active_group_Some(3) [OF ag]] by (simp add: group_wf_def)
  obtain ps us where z: "tabs g = ps @ us" "\<forall>t \<in> set ps. pinned t" "\<forall>t \<in> set us. \<not> pinned t"
    "pinnedBoundary (tabs g) = length ps" using pinned_first_zones [OF pf] by metis
  have b: "(0 < pinnedBoundary (tabs g)) = True" if "pinned (tabs g ! i)"
    using that z i by (cases ps) (auto simp: nth_append)
  have bu: "pinnedBoundary (tabs g) < length (tabs g)" if "\<not> pinned (tabs g ! i)"
    using that z i by (cases us) (auto simp: nth_append)
  have c: "0 \<le> c" "nat c < length (tabs g)"
    "if pinned (tabs g ! i) then nat c < pinnedBoundary (tabs g) else pinnedBoundary (tabs g) \<le> nat c"
    using b bu pinnedBoundary_le [of "tabs g"] i by (auto simp: c_def)
  have "moveTab am fromIndex toIndex s = put_group s slug (g\<lparr>tabs := am (tabs g) fromIndex c\<rparr>)"
    using False ag f by (auto simp: moveTab_def Let_def c_def i_def split: if_splits)
  also have "am (tabs g) fromIndex c = moved (tabs g) i (nat c)"
    using array_move_moved [OF assms(1)] f c by (simp add: i_def)
  finally show ?thesis
    using that(2) [OF ag i(1,2) c(2)] c(3) by (simp add: c_def)
qed (rule that(1))

text \<open>A drag that stays in its zone moves the tab to exactly the drop index.\<close>

lemma moveTab_in_zone:
  assumes am: "array_move_contract am" and wf: "store_wf s" and ag: "active_group s = Some (slug, g)"
    and f: "0 \<le> f" "f < int (length (tabs g))" and t: "0 \<le> t" "t < int (length (tabs g))"
    and zone: "pinned (tabs g ! nat f) = pinned (tabs g ! nat t)"
  shows "moveTab am f t s =
    (if f = t then s else put_group s slug (g\<lparr>tabs := moved (tabs g) (nat f) (nat t)\<rparr>))"
proof -
  have "pinned_first (tabs g)"
    using store_wf_group [OF wf active_group_Some(3) [OF ag]] by (simp add: group_wf_def)
  then obtain ps us where z: "tabs g = ps @ us" "\<forall>t \<in> set ps. pinned t" "\<forall>t \<in> set us. \<not> pinned t"
    "pinnedBoundary (tabs g) = length ps" using pinned_first_zones by metis
  have iff: "pinned (tabs g ! nat k) \<longleftrightarrow> k < int (length ps)" if "0 \<le> k" "k < int (length (tabs g))" for k
    using that z by (auto simp: nth_append)
  have "(if pinned (tabs g ! nat f) then max 0 (min t (int (pinnedBoundary (tabs g)) - 1))
         else max (int (pinnedBoundary (tabs g))) (min t (int (length (tabs g)) - 1))) = t"
    using iff [OF f] iff [OF t] zone t z(4) by auto
  then show ?thesis
    using f ag array_move_moved [OF am f t] t by (auto simp: moveTab_def Let_def)
qed

lemma moveTab_wf:
  assumes am: "array_move_contract am" and wf: "store_wf s"
  shows "store_wf (moveTab am fromIndex toIndex s)"
proof (rule moveTab_cases [OF am wf, of fromIndex toIndex])
  fix slug i j and g :: tab_group
  assume ag: "active_group s = Some (slug, g)" and i: "i < length (tabs g)" and j: "j < length (tabs g)"
    and zone: "if pinned (tabs g ! i) then j < pinnedBoundary (tabs g) else pinnedBoundary (tabs g) \<le> j"
    and eq: "moveTab am fromIndex toIndex s = put_group s slug (g\<lparr>tabs := moved (tabs g) i j\<rparr>)"
  note act = active_group_Some [OF ag]
  have gwf: "group_wf g" using store_wf_group [OF wf act(3)] by simp
  then have "pinned_first (moved (tabs g) i j)"
    using i j zone by (intro pinned_first_moved) (auto simp: group_wf_def)
  then have "group_wf (g\<lparr>tabs := moved (tabs g) i j\<rparr>)" using gwf i by (simp add: group_wf_def tab_ids_def)
  then show ?thesis
    unfolding eq using wf act(3) i by (intro put_same_ids_wf) (auto simp: tab_ids_def)
qed (simp add: wf)

lemma moveTab_sync:
  assumes am: "array_move_contract am" and wf: "store_wf s" and sync: "store_sync s"
  shows "store_sync (moveTab am fromIndex toIndex s)"
proof (rule moveTab_cases [OF am wf, of fromIndex toIndex])
  fix slug i j and g :: tab_group
  assume ag: "active_group s = Some (slug, g)" and i: "i < length (tabs g)"
    and eq: "moveTab am fromIndex toIndex s = put_group s slug (g\<lparr>tabs := moved (tabs g) i j\<rparr>)"
  show ?thesis
    unfolding eq using store_sync_active_group [OF ag sync] sync i
    by (intro store_sync_put) (auto simp: group_sync_def)
qed (simp add: sync)

section \<open>Pinning\<close>

definition repinned :: "tab_session list \<Rightarrow> nat \<Rightarrow> tab_session list" where
  "repinned ts i =
     (let rest = take i ts @ drop (Suc i) ts; k = pinnedBoundary rest; t = ts ! i
      in take k rest @ [t\<lparr>pinned := \<not> pinned t\<rparr>] @ drop k rest)"

lemma togglePin_eq:
  "togglePin tid s =
    (case findTabLocation (byWorkspace s) tid of
       None \<Rightarrow> s
     | Some (slug, g, i) \<Rightarrow> put_group s slug (g\<lparr>tabs := repinned (tabs g) i\<rparr>))"
  by (auto simp: togglePin_def repinned_def Let_def split: option.splits)

lemma mset_repinned:
  assumes "i < length ts"
  shows "mset (repinned ts i) + {#ts ! i#} = mset ts + {#(ts ! i)\<lparr>pinned := \<not> pinned (ts ! i)\<rparr>#}"
proof -
  let ?rest = "take i ts @ drop (Suc i) ts" and ?t = "(ts ! i)\<lparr>pinned := \<not> pinned (ts ! i)\<rparr>"
  have "mset (repinned ts i) = add_mset ?t (mset ?rest)"
    by (simp only: repinned_def Let_def mset_insert_at)
  then show ?thesis using mset_remove_at [OF assms] by simp
qed

lemma repinned_ids:
  assumes "i < length ts"
  shows "mset (map tabId (repinned ts i)) = mset (map tabId ts)"
proof -
  have "image_mset tabId (mset (repinned ts i) + {#ts ! i#}) =
        image_mset tabId (mset ts + {#(ts ! i)\<lparr>pinned := \<not> pinned (ts ! i)\<rparr>#})"
    using mset_repinned [OF assms] by simp
  then show ?thesis by simp
qed

lemma set_repinned:
  assumes "i < length ts"
  shows "set (repinned ts i) \<subseteq> insert ((ts ! i)\<lparr>pinned := \<not> pinned (ts ! i)\<rparr>) (set ts)"
  by (auto simp: repinned_def Let_def dest!: in_set_takeD in_set_dropD)

lemma pinned_first_remove:
  assumes "pinned_first ts"
  shows "pinned_first (take i ts @ drop (Suc i) ts)"
proof -
  have "pinned_first (take i ts @ drop i ts)" using assms by simp
  moreover have "drop (Suc i) ts = tl (drop i ts)" by (simp add: drop_Suc tl_drop)
  ultimately show ?thesis
    by (cases "drop i ts") (auto simp: pinned_first_def sorted_wrt_append)
qed

lemma pinned_first_repinned: "pinned_first ts \<Longrightarrow> pinned_first (repinned ts i)"
  by (simp only: repinned_def Let_def pinned_first_insert pinned_first_remove)

lemma togglePin_wf:
  assumes wf: "store_wf s"
  shows "store_wf (togglePin tid s)"
proof (cases "findTabLocation (byWorkspace s) tid")
  case (Some l)
  obtain slug g i where l: "l = (slug, g, i)" by (cases l) auto
  note loc = findTabLocation_Some [OF wf Some [unfolded l]]
  have ids: "tabId ` set (repinned (tabs g) i) = tabId ` set (tabs g)"
    using repinned_ids [OF loc(2)] by (metis set_map set_mset_mset)
  have dist: "distinct (map tabId (repinned (tabs g) i)) = distinct (map tabId (tabs g))"
    using repinned_ids [OF loc(2)] by (metis mset_eq_imp_distinct_iff)
  have "session_wf ((tabs g ! i)\<lparr>pinned := \<not> pinned (tabs g ! i)\<rparr>)"
    using loc(2,4) by (auto simp: group_wf_def session_wf_def)
  then have "\<forall>t \<in> set (repinned (tabs g) i). session_wf t"
    using set_repinned [OF loc(2)] loc(4) by (auto simp: group_wf_def)
  then have "group_wf (g\<lparr>tabs := repinned (tabs g) i\<rparr>)"
    using loc(4) ids dist by (simp add: group_wf_def tab_ids_def pinned_first_repinned)
  then have "store_wf (put_group s slug (g\<lparr>tabs := repinned (tabs g) i\<rparr>))"
    using wf loc(1) ids by (intro put_same_ids_wf) (auto simp: tab_ids_def)
  then show ?thesis using Some l by (simp add: togglePin_eq)
qed (simp add: togglePin_eq wf)

lemma togglePin_sync:
  assumes "obj_wf (byWorkspace s)" and "store_sync s"
  shows "store_sync (togglePin tid s)"
proof (cases "findTabLocation (byWorkspace s) tid")
  case (Some l)
  obtain slug g i where l: "l = (slug, g, i)" by (cases l) auto
  note loc = store_sync_location [OF Some [unfolded l] assms]
  have "session_sync ((tabs g ! i)\<lparr>pinned := \<not> pinned (tabs g ! i)\<rparr>)"
    using loc by (auto simp: group_sync_def session_sync_def)
  then have "group_sync (g\<lparr>tabs := repinned (tabs g) i\<rparr>)"
    using set_repinned [of i "tabs g"] loc by (auto simp: group_sync_def)
  then show ?thesis using Some l loc assms by (simp add: togglePin_eq store_sync_put)
qed (simp add: togglePin_eq assms)

end
