(* ===== verification/Tab_Machine.thy ===== *)
theory Tab_Machine
  imports Tab_Order
begin

text \<open>
  Dropping revoked workspaces and resetting the store, and the store as a state machine: an
  action datatype, one step function over all the actions, and the reachable stores.
\<close>

section \<open>Revoked workspaces and reset\<close>

lemma substore_wf:
  assumes wf: "store_wf s" and "obj_wf nb"
    and sub: "\<And>k g. obj_get nb k = Some g \<Longrightarrow> obj_get (byWorkspace s) k = Some g"
    and act: "\<And>w. a = Some w \<Longrightarrow> obj_get nb w \<noteq> None"
  shows "store_wf (s\<lparr>byWorkspace := nb, activeWorkspaceSlug := a\<rparr>)"
    and "store_sync s \<Longrightarrow> store_sync (s\<lparr>byWorkspace := nb, activeWorkspaceSlug := a\<rparr>)"
    and "store_ids (s\<lparr>byWorkspace := nb, activeWorkspaceSlug := a\<rparr>) \<subseteq> store_ids s"
proof -
  have "ids_disjoint (s\<lparr>byWorkspace := nb, activeWorkspaceSlug := a\<rparr>)"
    using wf unfolding store_wf_def ids_disjoint_def by (simp, blast dest: sub)
  moreover have "groups_ok group_wf (s\<lparr>byWorkspace := nb, activeWorkspaceSlug := a\<rparr>)"
    using wf by (auto simp: store_wf_def groups_ok_def dest: sub)
  ultimately show "store_wf (s\<lparr>byWorkspace := nb, activeWorkspaceSlug := a\<rparr>)"
    using assms by (auto simp: store_wf_def active_ok_def)
  show "store_sync s \<Longrightarrow> store_sync (s\<lparr>byWorkspace := nb, activeWorkspaceSlug := a\<rparr>)"
    by (auto simp: store_sync_def groups_ok_def dest: sub)
  show "store_ids (s\<lparr>byWorkspace := nb, activeWorkspaceSlug := a\<rparr>) \<subseteq> store_ids s"
    by (auto simp: store_ids_def dest: sub)
qed

definition valid_groups :: "string list \<Rightarrow> tab_store \<Rightarrow> tab_group obj" where
  "valid_groups valid s = filter (\<lambda>(slug, _). slug \<in> set valid) (obj_entries (byWorkspace s))"

lemma valid_groups_get:
  assumes "obj_wf (byWorkspace s)"
  shows "obj_get (valid_groups valid s) k =
           (if k \<in> set valid then obj_get (byWorkspace s) k else None)"
    and "obj_wf (valid_groups valid s)"
proof -
  show wf: "obj_wf (valid_groups valid s)"
    using assms by (simp add: valid_groups_def obj_wf_def distinct_map_filter)
      (metis distinct_map_filter obj_wf_def obj_wf_entries)
  show "obj_get (valid_groups valid s) k =
           (if k \<in> set valid then obj_get (byWorkspace s) k else None)"
  proof (cases "obj_get (valid_groups valid s) k")
    case None
    then have "k \<notin> fst ` set (valid_groups valid s)" by (simp add: map_of_eq_None_iff)
    then show ?thesis
      using None assms by (cases "obj_get (byWorkspace s) k")
        (force simp: valid_groups_def obj_get_in image_iff)+
  next
    case (Some g)
    then have "(k, g) \<in> set (valid_groups valid s)" by (auto dest: map_of_SomeD)
    then show ?thesis using Some assms obj_get_in [of "byWorkspace s" k g]
      by (auto simp: valid_groups_def)
  qed
qed

lemma first_key_in: "obj_keys ob = k # ks \<Longrightarrow> obj_get ob k \<noteq> None"
proof -
  assume "obj_keys ob = k # ks"
  then have "k \<in> fst ` set ob" by (metis list.set_intros(1) set_obj_keys)
  then show ?thesis by (simp add: map_of_eq_None_iff)
qed

text \<open>The four outcomes of the validation.\<close>

lemma validate_cases:
  assumes wf: "store_wf s"
  obtains "validateWorkspaceSlugs fresh valid s = s" "\<And>w. activeWorkspaceSlug s = Some w \<Longrightarrow> w \<in> set valid"
      "\<And>k. obj_get (byWorkspace s) k \<noteq> None \<Longrightarrow> k \<in> set valid"
  | a where "validateWorkspaceSlugs fresh valid s =
             s\<lparr>byWorkspace := valid_groups valid s, activeWorkspaceSlug := a\<rparr>"
      "\<And>w. a = Some w \<Longrightarrow> obj_get (valid_groups valid s) w \<noteq> None"
      "a = None \<Longrightarrow> valid_groups valid s = []"
      "\<And>w. activeWorkspaceSlug s = Some w \<Longrightarrow> w \<in> set valid \<Longrightarrow> a = Some w"
  | slug where "slug \<noteq> []" "slug \<in> set valid" "valid_groups valid s = []"
      "validateWorkspaceSlugs fresh valid s =
         (put_group (s\<lparr>byWorkspace := [], activeWorkspaceSlug := None\<rparr>) slug
            \<lparr>tabs = [defaultTabFor fresh slug], activeTabId = fresh\<rparr>)\<lparr>activeWorkspaceSlug := Some slug\<rparr>"
proof -
  let ?nb = "valid_groups valid s"
  have owf: "obj_wf (byWorkspace s)" using wf by (simp add: store_wf_def)
  note nb = valid_groups_get [OF owf]
  have keys_ne: "obj_get (byWorkspace s) k \<noteq> None \<Longrightarrow> k \<noteq> []" for k
    using wf by (auto simp: store_wf_def groups_ok_def)
  have act: "activeWorkspaceSlug s = Some w \<Longrightarrow> obj_get (byWorkspace s) w \<noteq> None" for w
    using wf by (auto simp: store_wf_def active_ok_def)
  have tr: "truthy (activeWorkspaceSlug s) = activeWorkspaceSlug s"
    using act keys_ne by (cases "activeWorkspaceSlug s") auto
  let ?first = "case obj_keys ?nb of [] \<Rightarrow> None | k # _ \<Rightarrow> Some k"
  have first: "?first = Some k \<Longrightarrow> obj_get ?nb k \<noteq> None" for k
    using first_key_in [of ?nb] by (auto split: list.splits)
  have first_tr: "truthy ?first = ?first"
    using first keys_ne nb(1) by (cases ?first) (auto split: if_splits)
  have first_None: "?first = None \<Longrightarrow> ?nb = []"
    by (simp split: list.splits)
  have nbdef: "filter (\<lambda>(slug, _). slug \<in> set valid) (obj_entries (byWorkspace s)) = ?nb"
    by (simp add: valid_groups_def)
  let ?ch = "list_ex (\<lambda>slug. slug \<notin> set valid) (obj_keys (byWorkspace s))"
  have ch: "\<not> ?ch \<Longrightarrow> obj_get (byWorkspace s) k \<noteq> None \<Longrightarrow> k \<in> set valid" for k
    by (simp add: list_ex_iff map_of_eq_None_iff) blast
  consider (keep) w where "activeWorkspaceSlug s = Some w" "w \<in> set valid"
    | (gone) "\<And>w. activeWorkspaceSlug s = Some w \<Longrightarrow> w \<notin> set valid" by auto
  then show thesis
  proof cases
    case keep
    have eq: "validateWorkspaceSlugs fresh valid s =
      (if ?ch then s\<lparr>byWorkspace := ?nb, activeWorkspaceSlug := Some w\<rparr> else s)"
      using keep tr by (simp add: validateWorkspaceSlugs_def nbdef Let_def split: list.splits)
    show thesis
    proof (cases ?ch)
      case True
      then have e: "validateWorkspaceSlugs fresh valid s =
        s\<lparr>byWorkspace := ?nb, activeWorkspaceSlug := Some w\<rparr>" using eq by simp
      have "obj_get ?nb w \<noteq> None" using keep nb(1) [of valid w] act [OF keep(1)] by simp
      then show thesis by (intro that(2) [OF e]) (simp_all add: keep(1))
    next
      case False
      then have e: "validateWorkspaceSlugs fresh valid s = s" using eq by simp
      show thesis using False keep by (intro that(1) [OF e]) (auto dest: ch)
    qed
  next
    case gone
    show thesis
    proof (cases ?first)
      case (Some k)
      have "validateWorkspaceSlugs fresh valid s =
            s\<lparr>byWorkspace := ?nb, activeWorkspaceSlug := Some k\<rparr>"
        using gone tr Some first_tr
        by (cases "activeWorkspaceSlug s")
          (auto simp: validateWorkspaceSlugs_def nbdef Let_def split: list.splits if_splits)
      then show thesis using first [OF Some] gone by (intro that(2) [of "Some k"]) auto
    next
      case None
      then have nbN: "?nb = []" by (rule first_None)
      show thesis
      proof (cases "case valid of [] \<Rightarrow> None | k # _ \<Rightarrow> truthy (Some k)")
        case (Some slug)
        then have "slug \<noteq> []" "slug \<in> set valid" by (auto split: list.splits if_splits)
        moreover have "validateWorkspaceSlugs fresh valid s =
         (put_group (s\<lparr>byWorkspace := [], activeWorkspaceSlug := None\<rparr>) slug
            \<lparr>tabs = [defaultTabFor fresh slug], activeTabId = fresh\<rparr>)\<lparr>activeWorkspaceSlug := Some slug\<rparr>"
          unfolding validateWorkspaceSlugs_def nbdef nbN using gone tr Some
          by (cases "activeWorkspaceSlug s")
            (auto simp: Let_def put_group_def split: list.splits if_splits)
        ultimately show thesis using nbN by (intro that(3))
      next
        case nofb: None
        have eq: "validateWorkspaceSlugs fresh valid s =
          (if ?ch \<or> activeWorkspaceSlug s \<noteq> None
           then s\<lparr>byWorkspace := ?nb, activeWorkspaceSlug := None\<rparr> else s)"
          unfolding validateWorkspaceSlugs_def nbdef nbN using gone tr nofb
          by (cases "activeWorkspaceSlug s") (auto simp: Let_def split: list.splits if_splits)
        show thesis
        proof (cases "?ch \<or> activeWorkspaceSlug s \<noteq> None")
          case True
          then have e: "validateWorkspaceSlugs fresh valid s =
            s\<lparr>byWorkspace := ?nb, activeWorkspaceSlug := None\<rparr>" using eq by simp
          show thesis using nbN gone by (intro that(2) [OF e]) auto
        next
          case False
          then have e: "validateWorkspaceSlugs fresh valid s = s" using eq by simp
          show thesis using False by (intro that(1) [OF e]) (auto dest: ch)
        qed
      qed
    qed
  qed
qed

lemma validateWorkspaceSlugs_wf:
  assumes wf: "store_wf s" and fresh: "fresh \<notin> store_ids s"
  shows "store_wf (validateWorkspaceSlugs fresh valid s)"
    and "store_sync s \<Longrightarrow> store_sync (validateWorkspaceSlugs fresh valid s)"
proof -
  have owf: "obj_wf (byWorkspace s)" using wf by (simp add: store_wf_def)
  note nb = valid_groups_get [OF owf]
  have sub: "obj_get (valid_groups valid s) k = Some g \<Longrightarrow> obj_get (byWorkspace s) k = Some g" for k g
    using nb(1) [of valid k] by (auto split: if_splits)
  have "store_wf (validateWorkspaceSlugs fresh valid s) \<and>
        (store_sync s \<longrightarrow> store_sync (validateWorkspaceSlugs fresh valid s))"
  proof (rule validate_cases [OF wf, of fresh valid])
    fix a
    assume eq: "validateWorkspaceSlugs fresh valid s =
             s\<lparr>byWorkspace := valid_groups valid s, activeWorkspaceSlug := a\<rparr>"
      and a: "\<And>w. a = Some w \<Longrightarrow> obj_get (valid_groups valid s) w \<noteq> None"
    show ?thesis unfolding eq using substore_wf [OF wf nb(2) sub a] by blast
  next
    fix slug
    assume slug: "slug \<noteq> []" and eq: "validateWorkspaceSlugs fresh valid s =
         (put_group (s\<lparr>byWorkspace := [], activeWorkspaceSlug := None\<rparr>) slug
            \<lparr>tabs = [defaultTabFor fresh slug], activeTabId = fresh\<rparr>)\<lparr>activeWorkspaceSlug := Some slug\<rparr>"
    let ?e = "s\<lparr>byWorkspace := [], activeWorkspaceSlug := None\<rparr>"
    have e: "store_wf ?e" "store_sync s \<Longrightarrow> store_sync ?e" "fresh \<notin> store_ids ?e"
      using substore_wf [OF wf, of "[]" None] fresh by auto
    have "store_wf ((put_group ?e slug \<lparr>tabs = [defaultTabFor fresh slug],
            activeTabId = tabId (defaultTabFor fresh slug)\<rparr>)\<lparr>activeWorkspaceSlug := Some slug\<rparr>)"
      using new_group_wf [OF e(1) slug, of "defaultTabFor fresh slug"] e(3) by simp
    then show ?thesis
      unfolding eq using e(2) slug by (auto simp: store_sync_put group_sync_def)
  qed (use wf in auto)
  then show "store_wf (validateWorkspaceSlugs fresh valid s)"
    and "store_sync s \<Longrightarrow> store_sync (validateWorkspaceSlugs fresh valid s)" by auto
qed

lemma reset_tabs_initial: "reset_tabs s = initial_store"
  by (simp add: reset_tabs_def initial_store_def)

section \<open>The store as a state machine\<close>

datatype tab_action =
    SwitchWorkspace string "string option"
  | OpenTab string string bool
  | AddTab string string
  | CloseTab string
  | CloseOtherTabs string
  | SetActiveTab string
  | UpdateTab string "string option"
  | Navigate string bool
  | GoBack
  | GoForward
  | CommitScroll string string "scroll_offset obj"
  | ReloadActive
  | CloseActive
  | MoveTab int int
  | TogglePin string
  | ValidateSlugs "string list"
  | ResetTabs

text \<open>One action; \<open>fresh\<close> is the id the next \<open>createSafeId\<close> call returns.\<close>

fun tab_step ::
  "(tab_session list \<Rightarrow> int \<Rightarrow> int \<Rightarrow> tab_session list) \<Rightarrow> string \<Rightarrow> tab_action \<Rightarrow> tab_store \<Rightarrow>
   tab_store js_result" where
  "tab_step am fresh (SwitchWorkspace slug openPath) s = Inr (switchWorkspace fresh slug openPath s)"
| "tab_step am fresh (OpenTab path title activate) s = Inr (fst (openTab fresh path title activate s))"
| "tab_step am fresh (AddTab path title) s = Inr (fst (addTab fresh path title s))"
| "tab_step am fresh (CloseTab tid) s = closeTab fresh tid s"
| "tab_step am fresh (CloseOtherTabs tid) s = Inr (closeOtherTabs tid s)"
| "tab_step am fresh (SetActiveTab tid) s = Inr (setActiveTab tid s)"
| "tab_step am fresh (UpdateTab tid title) s = Inr (updateTab tid title s)"
| "tab_step am fresh (Navigate url replace) s = Inr (navigateActiveSession url replace s)"
| "tab_step am fresh GoBack s = Inr (goBack s)"
| "tab_step am fresh GoForward s = Inr (goForward s)"
| "tab_step am fresh (CommitScroll tid routeKey entries) s = Inr (commitScrollMemento tid routeKey entries s)"
| "tab_step am fresh ReloadActive s = Inr (reloadActiveTab s)"
| "tab_step am fresh CloseActive s = closeActiveTab fresh s"
| "tab_step am fresh (MoveTab i j) s = Inr (moveTab am i j s)"
| "tab_step am fresh (TogglePin tid) s = Inr (togglePin tid s)"
| "tab_step am fresh (ValidateSlugs valid) s = Inr (validateWorkspaceSlugs fresh valid s)"
| "tab_step am fresh ResetTabs s = Inr (reset_tabs s)"

inductive tab_reachable ::
  "(tab_session list \<Rightarrow> int \<Rightarrow> int \<Rightarrow> tab_session list) \<Rightarrow> tab_store \<Rightarrow> bool"
  for am where
  start: "tab_reachable am initial_store"
| step: "tab_reachable am s \<Longrightarrow> fresh \<notin> store_ids s \<Longrightarrow> tab_step am fresh a s = Inr s' \<Longrightarrow>
     tab_reachable am s'"

lemmas action_wf =
  switchWorkspace_wf openTab_wf addTab_wf closeOtherTabs_wf setActiveTab_wf updateTab_wf
  navigateActiveSession_wf stepHistory_wf commitScrollMemento_wf reloadActiveTab_wf moveTab_wf
  togglePin_wf validateWorkspaceSlugs_wf

lemmas action_sync =
  switchWorkspace_sync openTab_sync addTab_sync closeOtherTabs_sync setActiveTab_sync updateTab_sync
  navigateActiveSession_sync stepHistory_sync commitScrollMemento_sync reloadActiveTab_sync moveTab_sync
  togglePin_sync

text \<open>One step never throws, and keeps the store well-formed and in sync.\<close>

lemma tab_step_wf:
  assumes am: "array_move_contract am" and wf: "store_wf s" and fresh: "fresh \<notin> store_ids s"
  shows "\<exists>s'. tab_step am fresh a s = Inr s' \<and> store_wf s' \<and> (store_sync s \<longrightarrow> store_sync s')"
proof -
  have owf: "obj_wf (byWorkspace s)" using wf by (simp add: store_wf_def)
  show ?thesis
  proof (cases a)
    case (CloseTab tid)
    then show ?thesis using closeTab_wf [OF wf fresh] closeTab_sync [OF owf] by fastforce
  next
    case CloseActive
    then show ?thesis using closeActiveTab_wf [OF wf fresh] closeActiveTab_sync [OF owf] by fastforce
  next
    case (ValidateSlugs valid)
    then show ?thesis using validateWorkspaceSlugs_wf [OF wf fresh] by simp
  next
    case ResetTabs
    then show ?thesis by (simp add: reset_tabs_initial store_wf_initial store_sync_initial)
  qed (simp_all add: action_wf action_sync am wf fresh owf goBack_def goForward_def)
qed

lemma reachable_wf:
  assumes "array_move_contract am" and "tab_reachable am s"
  shows "store_wf s \<and> store_sync s"
  using assms(2)
proof (induction rule: tab_reachable.induct)
  case start
  then show ?case by (simp add: store_wf_initial store_sync_initial)
next
  case (step s fresh a s')
  then show ?case using tab_step_wf [OF assms(1), of s fresh a] by auto
qed

end
