(* ===== verification/Tab_Persist.thy ===== *)
theory Tab_Persist
  imports Tab_Machine
begin

text \<open>
  Persistence of the tab store: what \<open>partialize\<close> writes, the three payload migrations, and
  \<open>mergePersistedTabs\<close>, which rebuilds live sessions from an untrusted payload
  (\<^verbatim>\<open>apps/desktop/src/renderer/src/stores/tab-store.ts\<close>). Fields the source treats as
  possibly missing are options; an array or object that fails its \<open>Array.isArray\<close> or
  \<open>typeof\<close> test is \<open>None\<close>. Window warnings are not modelled.
\<close>

section \<open>Payloads\<close>

record v1_tab =
  v1Id :: string
  v1Path :: string
  v1Title :: string
  v1Icon :: string

record v1_persisted =
  v1Tabs :: "v1_tab list option"
  v1ActiveTabId :: "string option"

record v2_tab =
  v2Id :: string
  v2Path :: string
  v2Title :: string
  v2Icon :: string

record v2_group =
  v2Tabs :: "v2_tab list"
  v2ActiveTabId :: string

record v2_persisted =
  v2ActiveWorkspaceSlug :: "string option"
  v2ByWorkspace :: "v2_group obj option"

record v3_tab =
  v3Id :: string
  v3Path :: string
  v3Title :: string
  v3Icon :: string
  v3Pinned :: bool

record v3_group =
  v3Tabs :: "v3_tab list"
  v3ActiveTabId :: string

record v3_persisted =
  v3ActiveWorkspaceSlug :: "string option"
  v3ByWorkspace :: "v3_group obj option"

record v4_history =
  v4Stack :: "string list option"
  v4Index :: "int option"

record v4_tab =
  v4Id :: string
  v4Url :: string
  v4Title :: string
  v4Pinned :: "bool option"
  v4History :: "v4_history option"
  v4Memento :: "tab_memento option"

record v4_group =
  v4Tabs :: "v4_tab list"
  v4ActiveTabId :: string

record v4_persisted =
  v4ActiveWorkspaceSlug :: "string option"
  v4ByWorkspace :: "v4_group obj option"

section \<open>Migrations\<close>

definition v1_push :: "v2_group obj \<Rightarrow> v1_tab \<Rightarrow> v2_group obj" where
  "v1_push bw t =
    (case truthy (extractWorkspaceSlug (v1Path t)) of
       None \<Rightarrow> bw
     | Some slug \<Rightarrow>
        (let g = (case obj_get bw slug of Some g \<Rightarrow> g | None \<Rightarrow> \<lparr>v2Tabs = [], v2ActiveTabId = []\<rparr>);
             t2 = \<lparr>v2Id = v1Id t, v2Path = v1Path t, v2Title = v1Title t, v2Icon = v1Icon t\<rparr>
         in obj_set bw slug (g\<lparr>v2Tabs := v2Tabs g @ [t2]\<rparr>)))"

text \<open>A group exists only once a tab was pushed, so its first tab is there to fall back on.\<close>

definition v1_activate :: "string option \<Rightarrow> v2_group \<Rightarrow> v2_group" where
  "v1_activate active g =
    (if list_ex (\<lambda>t. Some (v2Id t) = active) (v2Tabs g)
     then g\<lparr>v2ActiveTabId := (case active of Some a \<Rightarrow> a | None \<Rightarrow> [])\<rparr>
     else g\<lparr>v2ActiveTabId := (case v2Tabs g of t # _ \<Rightarrow> v2Id t | [] \<Rightarrow> [])\<rparr>)"

definition migrateV1ToV2 :: "v1_persisted \<Rightarrow> v2_persisted" where
  "migrateV1ToV2 v1 =
    (let oldTabs = (case v1Tabs v1 of Some ts \<Rightarrow> ts | None \<Rightarrow> []);
         grouped = foldl v1_push [] oldTabs;
         byWs = map (\<lambda>(slug, g). (slug, v1_activate (v1ActiveTabId v1) g)) grouped;
         inherited = find (\<lambda>(slug, g). Some (v2ActiveTabId g) = v1ActiveTabId v1) (obj_entries byWs)
     in \<lparr>v2ActiveWorkspaceSlug =
           (case truthy (map_option fst inherited) of
              Some slug \<Rightarrow> Some slug
            | None \<Rightarrow> (case obj_keys byWs of [] \<Rightarrow> None | k # _ \<Rightarrow> Some k)),
         v2ByWorkspace = Some byWs\<rparr>)"

definition migrateV2ToV3 :: "v2_persisted \<Rightarrow> v3_persisted" where
  "migrateV2ToV3 v2 =
    \<lparr>v3ActiveWorkspaceSlug = v2ActiveWorkspaceSlug v2,
     v3ByWorkspace = Some
       (map (\<lambda>(slug, g).
          (slug, \<lparr>v3Tabs = map (\<lambda>t. \<lparr>v3Id = v2Id t, v3Path = v2Path t, v3Title = v2Title t,
                                   v3Icon = v2Icon t, v3Pinned = False\<rparr>) (v2Tabs g),
                  v3ActiveTabId = v2ActiveTabId g\<rparr>))
         (obj_entries (case v2ByWorkspace v2 of Some bw \<Rightarrow> bw | None \<Rightarrow> [])))\<rparr>"

definition migrateV3ToV4 :: "v3_persisted \<Rightarrow> v4_persisted" where
  "migrateV3ToV4 v3 =
    \<lparr>v4ActiveWorkspaceSlug = v3ActiveWorkspaceSlug v3,
     v4ByWorkspace = Some
       (map (\<lambda>(slug, g).
          (slug, \<lparr>v4Tabs = map (\<lambda>t. \<lparr>v4Id = v3Id t, v4Url = v3Path t, v4Title = v3Title t,
                                   v4Pinned = Some (v3Pinned t),
                                   v4History = Some \<lparr>v4Stack = Some [v3Path t], v4Index = Some 0\<rparr>,
                                   v4Memento = Some emptyMemento\<rparr>) (v3Tabs g),
                  v4ActiveTabId = v3ActiveTabId g\<rparr>))
         (obj_entries (case v3ByWorkspace v3 of Some bw \<Rightarrow> bw | None \<Rightarrow> [])))\<rparr>"

text \<open>The stored version says which payload the state is.\<close>

datatype persisted_state =
    Version1 v1_persisted
  | Version2 v2_persisted
  | Version3 v3_persisted
  | Version4 v4_persisted

fun migrate :: "persisted_state \<Rightarrow> v4_persisted" where
  "migrate (Version1 st) = migrateV3ToV4 (migrateV2ToV3 (migrateV1ToV2 st))"
| "migrate (Version2 st) = migrateV3ToV4 (migrateV2ToV3 st)"
| "migrate (Version3 st) = migrateV3ToV4 st"
| "migrate (Version4 st) = st"

section \<open>Writing and reading the payload\<close>

definition partialize_tab :: "tab_session \<Rightarrow> v4_tab" where
  "partialize_tab t =
    \<lparr>v4Id = tabId t, v4Url = tabUrl t, v4Title = tabTitle t, v4Pinned = Some (pinned t),
     v4History = Some \<lparr>v4Stack = Some (histStack (history t)), v4Index = Some (histIndex (history t))\<rparr>,
     v4Memento = Some (memento t)\<rparr>"

definition partialize :: "tab_store \<Rightarrow> v4_persisted" where
  "partialize s =
    \<lparr>v4ActiveWorkspaceSlug = activeWorkspaceSlug s,
     v4ByWorkspace = Some
       (map (\<lambda>(slug, g). (slug, \<lparr>v4Tabs = map partialize_tab (tabs g), v4ActiveTabId = activeTabId g\<rparr>))
         (obj_entries (byWorkspace s)))\<rparr>"

definition merge_tab :: "string \<Rightarrow> v4_tab \<Rightarrow> tab_session option" where
  "merge_tab slug pTab =
    (case sanitizeTabPath (v4Url pTab) of
       None \<Rightarrow> None
     | Some clean \<Rightarrow>
        (if extractWorkspaceSlug clean \<noteq> Some slug then None
         else
          (let stack = (case v4History pTab of
                          Some h \<Rightarrow> (case v4Stack h of Some (u # us) \<Rightarrow> u # us | _ \<Rightarrow> [clean])
                        | None \<Rightarrow> [clean]);
               len = int (length stack);
               index = min (max (case v4History pTab of
                                   Some h \<Rightarrow> (case v4Index h of Some i \<Rightarrow> i | None \<Rightarrow> len - 1)
                                 | None \<Rightarrow> len - 1) 0) (len - 1)
           in Some \<lparr>tabId = v4Id pTab, tabUrl = clean, resourceKey = resourceKeyForUrl clean,
                    tabTitle = v4Title pTab, pinned = (v4Pinned pTab = Some True),
                    history = \<lparr>histStack = stack, histIndex = index\<rparr>,
                    memento = (case v4Memento pTab of Some m \<Rightarrow> m | None \<Rightarrow> emptyMemento)\<rparr>)))"

text \<open>\<open>tabs.sort\<close> is stable and its comparator puts pinned tabs before unpinned ones.\<close>

definition pin_rank :: "tab_session \<Rightarrow> nat" where
  "pin_rank t = (if pinned t then 0 else 1)"

definition merge_group :: "string \<Rightarrow> v4_group \<Rightarrow> tab_group option" where
  "merge_group slug pGroup =
    (let kept = List.map_filter (merge_tab slug) (v4Tabs pGroup);
         ts = sort_key pin_rank kept
     in case ts of
          [] \<Rightarrow> None
        | t # _ \<Rightarrow> Some \<lparr>tabs = ts,
                        activeTabId = (if list_ex (\<lambda>t. tabId t = v4ActiveTabId pGroup) ts
                                       then v4ActiveTabId pGroup else tabId t)\<rparr>)"

definition mergePersistedTabs :: "v4_persisted option \<Rightarrow> tab_store \<Rightarrow> tab_store" where
  "mergePersistedTabs persisted cur =
    (case persisted of
       None \<Rightarrow> cur
     | Some p \<Rightarrow>
        (case v4ByWorkspace p of
           None \<Rightarrow> cur
         | Some pbw \<Rightarrow>
            (let bw = List.map_filter (\<lambda>(slug, pg). map_option (Pair slug) (merge_group slug pg)) (obj_entries pbw)
             in cur\<lparr>byWorkspace := bw,
                    activeWorkspaceSlug :=
                      (case truthy (v4ActiveWorkspaceSlug p) of
                         Some a \<Rightarrow> if obj_get bw a \<noteq> None then Some a
                                   else (case obj_keys bw of [] \<Rightarrow> None | k # _ \<Rightarrow> Some k)
                       | None \<Rightarrow> (case obj_keys bw of [] \<Rightarrow> None | k # _ \<Rightarrow> Some k))\<rparr>)))"

section \<open>A merged session, group and store\<close>

lemma merge_tab_props:
  assumes "merge_tab slug p = Some t"
  shows "session_wf t" and "tabId t = v4Id p" and "tab_path_ok (tabUrl t)"
    and "extractWorkspaceSlug (tabUrl t) = Some slug"
proof -
  obtain clean where c: "sanitizeTabPath (v4Url p) = Some clean" "extractWorkspaceSlug clean = Some slug"
    using assms by (auto simp: merge_tab_def split: option.splits if_splits)
  define stack where "stack = (case v4History p of
                          Some h \<Rightarrow> (case v4Stack h of Some (u # us) \<Rightarrow> u # us | _ \<Rightarrow> [clean])
                        | None \<Rightarrow> [clean])"
  have ne: "stack \<noteq> []" by (auto simp: stack_def split: option.splits list.splits)
  have t: "tabId t = v4Id p" "tabUrl t = clean" "resourceKey t = resourceKeyForUrl clean"
    "histStack (history t) = stack"
    "\<exists>i. histIndex (history t) = min (max i 0) (int (length stack) - 1)"
    using assms c by (auto simp: merge_tab_def Let_def stack_def)
  then show "tabId t = v4Id p" "tab_path_ok (tabUrl t)" "extractWorkspaceSlug (tabUrl t) = Some slug"
    using c sanitizeTabPath_ok by auto
  show "session_wf t" using t ne by (cases stack) (auto simp: session_wf_def)
qed

lemma set_map_filter: "set (List.map_filter f xs) = {y. \<exists>x \<in> set xs. f x = Some y}"
  by (induction xs) (auto split: option.splits)

lemma map_filter_all_Some: "(\<And>x. x \<in> set xs \<Longrightarrow> f x = Some (g x)) \<Longrightarrow> List.map_filter f xs = map g xs"
  by (induction xs) auto

lemma map_filter_distinct:
  assumes "\<And>x y. x \<in> set xs \<Longrightarrow> f x = Some y \<Longrightarrow> g y = h x" and "distinct (map h xs)"
  shows "distinct (map g (List.map_filter f xs))"
  using assms
proof (induction xs)
  case (Cons x xs)
  then have IH: "distinct (map g (List.map_filter f xs))" by simp
  show ?case
  proof (cases "f x")
    case None
    then show ?thesis using IH by simp
  next
    case (Some y)
    have "g y \<noteq> g z" if "z \<in> set (List.map_filter f xs)" for z
      using that Cons.prems Some by (force simp: set_map_filter)
    then show ?thesis using IH Some by auto
  qed
qed simp

lemma pinned_first_sort: "pinned_first (sort_key pin_rank ts)"
proof -
  have "sorted (map pin_rank (sort_key pin_rank ts))" by simp
  then show ?thesis
    unfolding pinned_first_def sorted_map
    by (rule sorted_wrt_mono_rel [rotated]) (auto simp: pin_rank_def split: if_splits)
qed

lemma sort_pinned_first: "pinned_first ts \<Longrightarrow> sort_key pin_rank ts = ts"
proof (induction ts)
  case (Cons t ts)
  then have "sort_key pin_rank ts = ts" by (simp add: pinned_first_def)
  moreover have "\<forall>x \<in> set ts. pin_rank t \<le> pin_rank x"
    using Cons.prems by (auto simp: pinned_first_def pin_rank_def)
  ultimately show ?case by (simp add: insort_is_Cons)
qed simp

text \<open>The ids a payload group carries, and a payload without repeated ids.\<close>

definition payload_ids :: "v4_group \<Rightarrow> string list" where
  "payload_ids g = map v4Id (v4Tabs g)"

definition payload_wf :: "v4_group obj \<Rightarrow> bool" where
  "payload_wf pbw \<longleftrightarrow>
     obj_wf pbw \<and> (\<forall>(slug, g) \<in> set pbw. distinct (payload_ids g)) \<and>
     (\<forall>(j, g) \<in> set pbw. \<forall>(k, h) \<in> set pbw. j \<noteq> k \<longrightarrow> set (payload_ids g) \<inter> set (payload_ids h) = {})"

lemma merge_group_props:
  assumes "merge_group slug pg = Some g"
  shows "distinct (payload_ids pg) \<Longrightarrow> group_wf g" and "tab_ids g \<subseteq> set (payload_ids pg)"
    and "slug \<noteq> []"
    and "\<And>t. t \<in> set (tabs g) \<Longrightarrow> extractWorkspaceSlug (tabUrl t) = Some slug"
proof -
  define kept where "kept = List.map_filter (merge_tab slug) (v4Tabs pg)"
  define ts where "ts = sort_key pin_rank kept"
  have g: "tabs g = ts" "ts \<noteq> []"
    "activeTabId g = (if list_ex (\<lambda>t. tabId t = v4ActiveTabId pg) ts then v4ActiveTabId pg else tabId (hd ts))"
    using assms by (auto simp: merge_group_def Let_def kept_def ts_def split: list.splits)
  have mem: "\<exists>p \<in> set (v4Tabs pg). merge_tab slug p = Some t" if "t \<in> set ts" for t
    using that by (auto simp: ts_def kept_def set_map_filter)
  show ids: "tab_ids g \<subseteq> set (payload_ids pg)"
    using mem by (fastforce simp: tab_ids_def g(1) payload_ids_def merge_tab_props(2))
  show "extractWorkspaceSlug (tabUrl t) = Some slug" if "t \<in> set (tabs g)" for t
    using mem that g(1) merge_tab_props(4) by blast
  then have "extractWorkspaceSlug (tabUrl (hd ts)) = Some slug" using g by simp
  then show "slug \<noteq> []" by (auto simp: extractWorkspaceSlug_def Let_def split: if_splits)
  have act: "activeTabId g \<in> tab_ids g"
    using g by (auto simp: tab_ids_def list_ex_iff image_iff eq_commute)
  assume "distinct (payload_ids pg)"
  then have "distinct (map tabId kept)"
    unfolding kept_def payload_ids_def by (intro map_filter_distinct) (auto simp: merge_tab_props(2))
  then have "distinct (map tabId ts)"
    unfolding ts_def by (metis mset_map mset_sort mset_eq_imp_distinct_iff)
  then show "group_wf g"
    using act g(1) mem merge_tab_props(1) pinned_first_sort [of kept]
    by (auto simp: group_wf_def ts_def)
qed

text \<open>The groups a payload rebuilds, keyed as in the payload.\<close>

definition merged_groups :: "v4_group obj \<Rightarrow> tab_group obj" where
  "merged_groups pbw =
     List.map_filter (\<lambda>(slug, pg). map_option (Pair slug) (merge_group slug pg)) (obj_entries pbw)"

lemma merged_groups_get:
  assumes "obj_wf pbw"
  shows "obj_wf (merged_groups pbw)"
    and "obj_get (merged_groups pbw) k =
           (case obj_get pbw k of None \<Rightarrow> None | Some pg \<Rightarrow> merge_group k pg)"
proof -
  have d: "distinct (map fst (obj_entries pbw))"
    using assms obj_wf_entries [of pbw] by (simp add: obj_wf_def)
  show wf: "obj_wf (merged_groups pbw)"
    unfolding obj_wf_def merged_groups_def by (rule map_filter_distinct [OF _ d]) auto
  show "obj_get (merged_groups pbw) k =
           (case obj_get pbw k of None \<Rightarrow> None | Some pg \<Rightarrow> merge_group k pg)"
  proof (cases "obj_get (merged_groups pbw) k")
    case None
    then have "\<forall>g. (k, g) \<notin> set (merged_groups pbw)" using obj_get_in [OF wf, of k] by auto
    then have "merge_group k pg = None" if "(k, pg) \<in> set pbw" for pg
      using that by (cases "merge_group k pg") (force simp: merged_groups_def set_map_filter)+
    then show ?thesis using None by (auto split: option.splits dest: map_of_SomeD)
  next
    case (Some g)
    then have "(k, g) \<in> set (merged_groups pbw)" using obj_get_in [OF wf, of k g] by auto
    then obtain pg where "(k, pg) \<in> set pbw" "merge_group k pg = Some g"
      by (auto simp: merged_groups_def set_map_filter)
    then show ?thesis using Some assms obj_get_in [of pbw k pg] by auto
  qed
qed

lemma mergePersistedTabs_eq:
  "mergePersistedTabs (Some p) cur =
    (case v4ByWorkspace p of
       None \<Rightarrow> cur
     | Some pbw \<Rightarrow>
        (let bw = merged_groups pbw; first = (case obj_keys bw of [] \<Rightarrow> None | k # _ \<Rightarrow> Some k)
         in cur\<lparr>byWorkspace := bw,
                activeWorkspaceSlug :=
                  (case truthy (v4ActiveWorkspaceSlug p) of
                     Some a \<Rightarrow> if obj_get bw a \<noteq> None then Some a else first
                   | None \<Rightarrow> first)\<rparr>))"
  by (simp add: mergePersistedTabs_def merged_groups_def Let_def split: option.splits)

lemma mergePersistedTabs_wf:
  assumes pbw: "v4ByWorkspace p = Some pbw" and wf: "payload_wf pbw"
  shows "store_wf (mergePersistedTabs (Some p) cur)"
proof -
  let ?s = "mergePersistedTabs (Some p) cur"
  have owf: "obj_wf pbw" using wf by (simp add: payload_wf_def)
  note mg = merged_groups_get [OF owf]
  have bw: "byWorkspace ?s = merged_groups pbw" by (simp add: mergePersistedTabs_eq pbw Let_def)
  have grp: "\<exists>pg. (k, pg) \<in> set pbw \<and> merge_group k pg = Some g"
    if "obj_get (merged_groups pbw) k = Some g" for k g
    using that mg(2) [of k] owf by (auto split: option.splits dest: map_of_SomeD)
  have "groups_ok group_wf ?s"
    unfolding groups_ok_def bw using wf merge_group_props(1,3)
    by (auto simp: payload_wf_def dest!: grp) fastforce+
  moreover have "ids_disjoint ?s"
    unfolding ids_disjoint_def bw
  proof (intro allI impI)
    fix j k g h
    assume "obj_get (merged_groups pbw) j = Some g" "obj_get (merged_groups pbw) k = Some h" "j \<noteq> k"
    then obtain pg ph where "(j, pg) \<in> set pbw" "(k, ph) \<in> set pbw"
      "tab_ids g \<subseteq> set (payload_ids pg)" "tab_ids h \<subseteq> set (payload_ids ph)"
      using grp merge_group_props(2) by meson
    moreover have "set (payload_ids pg) \<inter> set (payload_ids ph) = {}"
      using wf \<open>j \<noteq> k\<close> calculation(1,2) by (fastforce simp: payload_wf_def)
    ultimately show "tab_ids g \<inter> tab_ids h = {}" by blast
  qed
  moreover have "active_ok ?s"
    unfolding active_ok_def bw
    by (auto simp: mergePersistedTabs_eq pbw Let_def dest: first_key_in
        split: option.splits list.splits if_splits)
  ultimately show ?thesis using mg(1) by (simp add: store_wf_def bw)
qed

end
