(* ===== verification/Tab_Properties.thy ===== *)
theory Tab_Properties
  imports Tab_Persist
begin

text \<open>
  The properties of the tab store: its invariant and safety over every run, the functional
  behaviour of its actions, and its persistence. Each property whose statement has hypotheses
  is followed by a concrete instance.
\<close>

section \<open>A concrete store for the instances\<close>

text \<open>\<open>arrayMove\<close> as its documentation describes it.\<close>

definition arrayMove_doc :: "'a list \<Rightarrow> int \<Rightarrow> int \<Rightarrow> 'a list" where
  "arrayMove_doc xs i j = moved xs (nat i) (nat j)"

lemma arrayMove_doc_contract: "array_move_contract arrayMove_doc"
  by (simp add: array_move_contract_def arrayMove_doc_def moved_def)

definition demo1 :: tab_store where
  "demo1 = switchWorkspace ''t1'' ''acme'' None initial_store"

definition demo2 :: tab_store where
  "demo2 = fst (openTab ''t2'' ''/acme/inbox?x=1'' ''Inbox'' True demo1)"

lemma path_eval:
  "sanitizeTabPath ''/acme/issues'' = Some ''/acme/issues''"
  "sanitizeTabPath ''/acme/inbox?x=1'' = Some ''/acme/inbox?x=1''"
  "sanitizeTabPath ''/acme/inbox'' = Some ''/acme/inbox''"
  "sanitizeTabPath ''/acme/agents'' = Some ''/acme/agents''"
  "resourceKeyForUrl ''/acme/issues'' = ''/acme/issues''"
  "resourceKeyForUrl ''/acme/inbox?x=1'' = ''/acme/inbox''"
  "resourceKeyForUrl ''/acme/inbox'' = ''/acme/inbox''"
  "resourceKeyForUrl ''/acme/agents'' = ''/acme/agents''"
  "extractWorkspaceSlug ''/acme/issues'' = Some ''acme''"
  "extractWorkspaceSlug ''/acme/inbox?x=1'' = Some ''acme''"
  "extractWorkspaceSlug ''/acme/agents'' = Some ''acme''"
  "tab_path_ok ''/acme/issues''" "tab_path_ok ''/acme/inbox?x=1''"
proof -
  show p: "sanitizeTabPath ''/acme/issues'' = Some ''/acme/issues''"
    "sanitizeTabPath ''/acme/inbox?x=1'' = Some ''/acme/inbox?x=1''"
    "sanitizeTabPath ''/acme/inbox'' = Some ''/acme/inbox''"
    "sanitizeTabPath ''/acme/agents'' = Some ''/acme/agents''"
    "resourceKeyForUrl ''/acme/issues'' = ''/acme/issues''"
    "resourceKeyForUrl ''/acme/inbox?x=1'' = ''/acme/inbox''"
    "resourceKeyForUrl ''/acme/inbox'' = ''/acme/inbox''"
    "resourceKeyForUrl ''/acme/agents'' = ''/acme/agents''"
    "extractWorkspaceSlug ''/acme/issues'' = Some ''acme''"
    "extractWorkspaceSlug ''/acme/inbox?x=1'' = Some ''acme''"
    "extractWorkspaceSlug ''/acme/agents'' = Some ''acme''"
    by code_simp+
  show "tab_path_ok ''/acme/issues''" "tab_path_ok ''/acme/inbox?x=1''"
    using p by (auto dest: sanitizeTabPath_ok)
qed

lemma demo1_eq:
  "demo1 = \<lparr>activeWorkspaceSlug = Some ''acme'',
            byWorkspace = [(''acme'', \<lparr>tabs = [makeSession ''t1'' ''/acme/issues'' ''Issues''],
                                      activeTabId = ''t1''\<rparr>)],
            mountGeneration = 0\<rparr>"
  by (simp add: demo1_def switchWorkspace_def initial_store_def put_group_def defaultPathFor_def
      path_eval Let_def)

lemma demo2_eq:
  "demo2 = \<lparr>activeWorkspaceSlug = Some ''acme'',
            byWorkspace = [(''acme'', \<lparr>tabs = [makeSession ''t1'' ''/acme/issues'' ''Issues'',
                                              makeSession ''t2'' ''/acme/inbox?x=1'' ''Inbox''],
                                      activeTabId = ''t2''\<rparr>)],
            mountGeneration = 0\<rparr>"
  by (simp add: demo2_def demo1_eq openTab_def active_group_def put_group_def
      path_eval Let_def)

lemma demo1_reachable: "tab_reachable am demo1"
  by (rule tab_reachable.step [OF tab_reachable.start, of "''t1''" am "SwitchWorkspace ''acme'' None"])
    (simp_all add: demo1_def initial_store_def store_ids_def)

lemma demo2_reachable: "tab_reachable am demo2"
  by (rule tab_reachable.step [OF demo1_reachable, of "''t2''" am "OpenTab ''/acme/inbox?x=1'' ''Inbox'' True"])
    (simp_all add: demo2_def demo1_eq store_ids_def tab_ids_def)

lemma demo_wf: "store_wf demo1" "store_sync demo1" "store_wf demo2" "store_sync demo2"
  using reachable_wf [OF arrayMove_doc_contract] demo1_reachable demo2_reachable by auto

lemma demo2_ids: "store_ids demo2 = {''t1'', ''t2''}"
  by (auto simp: store_ids_def demo2_eq tab_ids_def)

section \<open>Invariant and safety\<close>





section \<open>URLs\<close>

text \<open>The sanitizer accepts exactly paths with an unreserved first segment, its results are fixed points, always have a route segment after the slug, and keep the query and hash of the input.\<close>

theorem sanitizeTabPath_normal_form:
  assumes "sanitizeTabPath p = Some q"
  shows "sanitizeTabPath q = Some q \<and> snd (splitTabUrl q) = snd (splitTabUrl p) \<and>
         (\<exists>w v ws. segments_of (fst (splitTabUrl q)) = w # v # ws \<and> \<not> isReservedSlug w)"
  using sanitizeTabPath_ok [OF assms] sanitizeTabPath_suffix [OF assms]
    sanitizeTabPath_fixed [OF sanitizeTabPath_ok [OF assms]]
  by (simp add: tab_path_ok_def)

theorem sanitizeTabPath_normal_form_witness:
  "sanitizeTabPath ''/acme?f=1#x'' = Some ''/acme/issues?f=1#x'' \<and>
   sanitizeTabPath ''/acme/issues?f=1#x'' = Some ''/acme/issues?f=1#x''"
proof -
  have "sanitizeTabPath ''/acme?f=1#x'' = Some ''/acme/issues?f=1#x''" by code_simp
  then show ?thesis using sanitizeTabPath_normal_form by blast
qed

section \<open>Opening, closing, ordering\<close>

lemma put_group_put [simp]: "put_group (put_group s k g) k h = put_group s k h"
  by (simp add: put_group_def)

lemma put_group_self: "obj_get (byWorkspace s) k = Some g \<Longrightarrow> put_group s k g = s"
  by (simp add: put_group_def update_triv)

lemma active_group_put:
  "active_group s = Some (k, g) \<Longrightarrow> active_group (put_group s k h) = Some (k, h)"
  by (auto simp: active_group_def obj_simps split: option.splits)

text \<open>Opening a path dedupes by its pathname: opening it again, with any title and any query, focuses the tab the first call returned and creates nothing.\<close>

theorem openTab_dedupes:
  assumes "sanitizeTabPath p = Some c" and "sanitizeTabPath q = Some d"
    and "resourceKeyForUrl c = resourceKeyForUrl d"
    and "active_group s = Some (slug, g)"
    and "openTab f1 p ti1 act1 s = (s1, i1)" and "openTab f2 q ti2 act2 s1 = (s2, i2)"
    and "\<forall>t \<in> set (tabs g). tabId t \<noteq> f1"
  shows "i2 = i1 \<and> (\<exists>h. obj_get (byWorkspace s1) slug = Some h \<and>
           s2 = put_group s1 slug (h\<lparr>activeTabId := i1\<rparr>) \<and>
           (\<exists>t \<in> set (tabs h). tabId t = i1 \<and> resourceKey t = resourceKeyForUrl c))"
proof -
  have ne: "c \<noteq> []" "d \<noteq> []" using assms(1,2) sanitize_nonempty by auto
  let ?key = "\<lambda>t. resourceKey t = resourceKeyForUrl c"
  define h where "h = (case find ?key (tabs g) of
      Some e \<Rightarrow> g\<lparr>activeTabId := tabId e\<rparr>
    | None \<Rightarrow> \<lparr>tabs = tabs g @ [makeSession f1 c ti1], activeTabId = (if act1 then f1 else activeTabId g)\<rparr>)"
  have s1: "s1 = put_group s slug h"
    using assms(1,4,5) ne by (auto simp: openTab_def h_def Let_def split: option.splits)
  have ag: "active_group s1 = Some (slug, h)" unfolding s1 using assms(4) by (rule active_group_put)
  obtain e where e: "find ?key (tabs h) = Some e" "tabId e = i1"
    using assms(1,4,5) ne
    by (cases "find ?key (tabs g)")
      (auto simp: openTab_def h_def Let_def find_append find_None_iff split: option.splits)
  then have "s2 = put_group s1 slug (h\<lparr>activeTabId := i1\<rparr>)" "i2 = i1"
    using assms(2,3,6) ne ag by (auto simp: openTab_def)
  then show ?thesis
    using e find_Some_in [OF e(1)] active_group_Some(3) [OF ag] by auto
qed

theorem openTab_dedupes_witness:
  "\<exists>h. snd (openTab ''t9'' ''/acme/inbox'' ''again'' False demo2) = ''t2'' \<and>
       fst (openTab ''t9'' ''/acme/inbox'' ''again'' False demo2) =
         put_group demo2 ''acme'' (h\<lparr>activeTabId := ''t2''\<rparr>)"
proof -
  have "active_group demo1 =
      Some (''acme'', \<lparr>tabs = [makeSession ''t1'' ''/acme/issues'' ''Issues''], activeTabId = ''t1''\<rparr>)"
    by (simp add: active_group_def demo1_eq)
  moreover have "openTab ''t2'' ''/acme/inbox?x=1'' ''Inbox'' True demo1 = (demo2, ''t2'')"
    by (simp add: demo2_eq demo1_eq openTab_def active_group_def put_group_def path_eval Let_def)
  moreover have "openTab ''t9'' ''/acme/inbox'' ''again'' False demo2 =
      (fst (openTab ''t9'' ''/acme/inbox'' ''again'' False demo2),
       snd (openTab ''t9'' ''/acme/inbox'' ''again'' False demo2))" by simp
  ultimately show ?thesis
    using openTab_dedupes [OF path_eval(2,3)] by (fastforce simp: path_eval)
qed

text \<open>Closing a tab removes its id from the store, touches no other workspace, and leaves its workspace non-empty: the other tabs in order, or one fresh default tab if it was the last.\<close>

theorem closeTab_removes:
  assumes "store_wf s" and "fresh \<notin> store_ids s"
    and "findTabLocation (byWorkspace s) tid = Some (slug, g, i)"
  shows "\<exists>s' h. closeTab fresh tid s = Inr s' \<and> tid \<notin> store_ids s' \<and>
           obj_get (byWorkspace s') slug = Some h \<and>
           tabs h = (if length (tabs g) = 1 then [defaultTabFor fresh slug]
                     else filter (\<lambda>t. tabId t \<noteq> tid) (tabs g)) \<and>
           (activeTabId g \<noteq> tid \<longrightarrow> activeTabId h = activeTabId g) \<and>
           (\<forall>k. k \<noteq> slug \<longrightarrow> obj_get (byWorkspace s') k = obj_get (byWorkspace s) k)"
proof -
  note loc = findTabLocation_Some [OF assms(1,3)]
  let ?ts = "if length (tabs g) = 1 then [defaultTabFor fresh slug]
             else filter (\<lambda>t. tabId t \<noteq> tid) (tabs g)"
  obtain s' where s': "closeTab fresh tid s = Inr s'" using closeTab_wf [OF assms(1,2)] by blast
  then obtain h where h: "s' = put_group s slug h" "tabs h = ?ts"
    "activeTabId g \<noteq> tid \<Longrightarrow> activeTabId h = activeTabId g"
  proof -
    have act1: "activeTabId g = tid" if "length (tabs g) = 1"
      using that loc(2-4) by (cases "tabs g") (auto simp: group_wf_def tab_ids_def)
    show thesis
      using s' assms(3) act1
      by (auto simp: closeTab_def Let_def split: if_splits option.splits intro!: that)
  qed
  have "fresh \<noteq> tid" using assms(2) loc(1,6) by (auto simp: store_ids_def)
  then have "tid \<notin> tab_ids h" by (auto simp: tab_ids_def h(2))
  moreover have "tid \<notin> tab_ids u" if "obj_get (byWorkspace s) k = Some u" "k \<noteq> slug" for k u
    using assms(1) loc(1,6) that unfolding store_wf_def ids_disjoint_def by blast
  ultimately have "tid \<notin> store_ids s'"
    by (auto simp: store_ids_def h(1) obj_simps split: if_splits)
  then show ?thesis using s' h by (intro exI [of _ s'] exI [of _ h]) (simp add: obj_simps)
qed

lemma demo2_location:
  "findTabLocation (byWorkspace demo2) ''t1'' =
     Some (''acme'', \<lparr>tabs = [makeSession ''t1'' ''/acme/issues'' ''Issues'',
                             makeSession ''t2'' ''/acme/inbox?x=1'' ''Inbox''], activeTabId = ''t2''\<rparr>, 0)"
  by (simp add: findTabLocation_def demo2_eq obj_entries_def is_array_index_def is_digit_def)

theorem closeTab_removes_witness:
  "\<exists>s' h. closeTab ''t3'' ''t1'' demo2 = Inr s' \<and> ''t1'' \<notin> store_ids s' \<and>
     obj_get (byWorkspace s') ''acme'' = Some h \<and> tabs h = [makeSession ''t2'' ''/acme/inbox?x=1'' ''Inbox'']"
proof -
  have "''t3'' \<notin> store_ids demo2" by (simp add: demo2_ids)
  then show ?thesis using closeTab_removes [OF demo_wf(3) _ demo2_location] by fastforce
qed

text \<open>Dragging a tab permutes its group, moves exactly that tab to the drop position clamped into its own zone, and keeps pinned tabs first.\<close>

theorem moveTab_reorders:
  assumes "array_move_contract am" and "store_wf s" and "active_group s = Some (slug, g)"
    and "active_group (moveTab am fromIndex toIndex s) = Some (slug, h)"
  shows "mset (tabs h) = mset (tabs g) \<and> pinned_first (tabs h) \<and> activeTabId h = activeTabId g \<and>
         (0 \<le> fromIndex \<and> fromIndex < int (length (tabs g)) \<and> 0 \<le> toIndex \<and> toIndex < int (length (tabs g)) \<and>
          pinned (tabs g ! nat fromIndex) = pinned (tabs g ! nat toIndex) \<longrightarrow>
            tabs h = moved (tabs g) (nat fromIndex) (nat toIndex))"
proof -
  have gwf: "pinned_first (tabs g)"
    using store_wf_group [OF assms(2) active_group_Some(3) [OF assms(3)]] by (simp add: group_wf_def)
  have hwf: "pinned_first (tabs h)"
    using store_wf_group [OF moveTab_wf [OF assms(1,2)] active_group_Some(3) [OF assms(4)]]
    by (simp add: group_wf_def)
  have "mset (tabs h) = mset (tabs g) \<and> activeTabId h = activeTabId g"
  proof (rule moveTab_cases [OF assms(1,2), of fromIndex toIndex])
    fix slug' i j and g' :: tab_group
    assume "active_group s = Some (slug', g')" "i < length (tabs g')"
      "moveTab am fromIndex toIndex s = put_group s slug' (g'\<lparr>tabs := moved (tabs g') i j\<rparr>)"
    then show ?thesis using assms(3,4) active_group_put [OF assms(3)] by (auto simp: mset_moved)
  qed (use assms in simp)
  moreover have "tabs h = moved (tabs g) (nat fromIndex) (nat toIndex)"
    if "0 \<le> fromIndex \<and> fromIndex < int (length (tabs g)) \<and> 0 \<le> toIndex \<and> toIndex < int (length (tabs g)) \<and>
        pinned (tabs g ! nat fromIndex) = pinned (tabs g ! nat toIndex)"
    using assms(3,4) that moveTab_in_zone [OF assms(1-3), of fromIndex toIndex]
      active_group_put [OF assms(3)]
    by (auto simp: moved_same split: if_splits)
  ultimately show ?thesis using hwf by blast
qed

lemma demo2_active:
  "active_group demo2 = Some (''acme'',
     \<lparr>tabs = [makeSession ''t1'' ''/acme/issues'' ''Issues'', makeSession ''t2'' ''/acme/inbox?x=1'' ''Inbox''],
      activeTabId = ''t2''\<rparr>)"
  by (simp add: active_group_def demo2_eq)

theorem moveTab_reorders_witness:
  "\<exists>h. active_group (moveTab arrayMove_doc 0 1 demo2) = Some (''acme'', h) \<and>
       map tabId (tabs h) = [''t2'', ''t1''] \<and> pinned_first (tabs h)"
proof -
  let ?g = "\<lparr>tabs = [makeSession ''t1'' ''/acme/issues'' ''Issues'', makeSession ''t2'' ''/acme/inbox?x=1'' ''Inbox''],
             activeTabId = ''t2''\<rparr>"
  have "moveTab arrayMove_doc 0 1 demo2 =
      put_group demo2 ''acme'' (?g\<lparr>tabs := moved (tabs ?g) 0 1\<rparr>)"
    using moveTab_in_zone [OF arrayMove_doc_contract demo_wf(3) demo2_active, of 0 1] by simp
  then have ag: "active_group (moveTab arrayMove_doc 0 1 demo2) =
      Some (''acme'', ?g\<lparr>tabs := moved (tabs ?g) 0 1\<rparr>)"
    using active_group_put [OF demo2_active] by simp
  show ?thesis
    using moveTab_reorders [OF arrayMove_doc_contract demo_wf(3) demo2_active ag] ag
    by (auto simp: moved_def)
qed

end
