(* ===== verification/Tab_History.thy ===== *)
theory Tab_History
  imports Tab_Properties
begin

text \<open>
  The per-tab virtual history, the scroll mementos, pinning and the validation of
  workspaces: how an action relates to the one before it.
\<close>

section \<open>Back and forward\<close>

text \<open>The active session and its index, as the history actions compute it.\<close>

definition active_at :: "tab_store \<Rightarrow> string \<Rightarrow> tab_group \<Rightarrow> nat \<Rightarrow> bool" where
  "active_at s slug g i \<longleftrightarrow>
     active_group s = Some (slug, g) \<and> find_index (\<lambda>t. tabId t = activeTabId g) (tabs g) = Some i"

lemma active_at_exists:
  assumes "store_wf s" and "active_group s = Some (slug, g)"
  shows "\<exists>i. active_at s slug g i"
proof -
  have "activeTabId g \<in> tab_ids g"
    using store_wf_group [OF assms(1) active_group_Some(3) [OF assms(2)]] by (simp add: group_wf_def)
  then obtain t where "t \<in> set (tabs g)" "tabId t = activeTabId g" by (auto simp: tab_ids_def)
  then show ?thesis using assms(2) find_index_ex [of t "tabs g"] by (simp add: active_at_def)
qed

lemma active_at_session: "active_at s slug g i \<Longrightarrow> getActiveTab s = Some (tabs g ! i) \<and> i < length (tabs g)"
  by (auto simp: active_at_def getActiveTab_def find_Some_iff dest: find_index_Some)

lemma find_index_map: "find_index P (map f xs) = find_index (\<lambda>x. P (f x)) xs"
  by (induction xs) auto

lemma find_index_map_cong:
  "map f xs = map f ys \<Longrightarrow> find_index (\<lambda>x. f x = a) xs = find_index (\<lambda>x. f x = a) ys"
  using find_index_map [of "\<lambda>y. y = a" f xs] find_index_map [of "\<lambda>y. y = a" f ys] by simp

lemma active_at_put:
  assumes "active_at s slug g i" and "tabId t = tabId (tabs g ! i)"
  shows "active_at (put_group s slug (g\<lparr>tabs := (tabs g)[i := t]\<rparr>)) slug (g\<lparr>tabs := (tabs g)[i := t]\<rparr>) i"
proof -
  have i: "i < length (tabs g)" using assms(1) active_at_session by blast
  have "map tabId ((tabs g)[i := t]) = map tabId (tabs g)"
    using i assms(2) by (metis list_update_id map_update)
  then have "find_index (\<lambda>t. tabId t = activeTabId g) ((tabs g)[i := t]) = Some i"
    using assms(1) find_index_map_cong [of tabId "(tabs g)[i := t]" "tabs g"] by (simp add: active_at_def)
  then show ?thesis using assms(1) active_group_put by (simp add: active_at_def)
qed

lemma stepHistory_at:
  assumes "active_at s slug g i"
    and "0 \<le> histIndex (history (tabs g ! i)) + d"
    and "histIndex (history (tabs g ! i)) + d < int (length (histStack (history (tabs g ! i))))"
  shows "stepHistory d s =
    put_group s slug (g\<lparr>tabs := (tabs g)[i := stepped (histIndex (history (tabs g ! i)) + d) (tabs g ! i)]\<rparr>)"
  using assms by (auto simp: stepHistory_def active_at_def stepped_def Let_def)

lemma stepped_stepped: "stepped m (stepped n t) = stepped m t"
  by (simp add: stepped_def Let_def)

lemma stepped_self:
  "session_wf t \<Longrightarrow> session_sync t \<Longrightarrow> stepped (histIndex (history t)) t = t"
  by (simp add: stepped_def session_wf_def session_sync_def Let_def)

lemma stepHistory_inverse:
  assumes wf: "store_wf s" and sync: "store_sync s" and at: "active_at s slug g i"
    and r: "0 \<le> histIndex (history (tabs g ! i)) + d"
      "histIndex (history (tabs g ! i)) + d < int (length (histStack (history (tabs g ! i))))"
  shows "stepHistory (- d) (stepHistory d s) = s"
proof -
  let ?t = "tabs g ! i" let ?n = "histIndex (history ?t)"
  have i: "i < length (tabs g)" using at active_at_session by blast
  have ag: "active_group s = Some (slug, g)" using at by (simp add: active_at_def)
  note get = active_group_Some(3) [OF ag]
  have tw: "session_wf ?t" "session_sync ?t"
    using store_wf_group [OF wf get] store_sync_active_group [OF ag sync] i
    by (auto simp: group_wf_def group_sync_def)
  let ?g' = "g\<lparr>tabs := (tabs g)[i := stepped (?n + d) ?t]\<rparr>"
  let ?s' = "put_group s slug ?g'"
  have s': "stepHistory d s = ?s'" using stepHistory_at [OF at r] .
  have at': "active_at ?s' slug ?g' i" using active_at_put [OF at] by simp
  have t': "tabs ?g' ! i = stepped (?n + d) ?t" using i by simp
  have "stepHistory (- d) ?s' = put_group ?s' slug (?g'\<lparr>tabs := (tabs ?g')[i := stepped ?n (stepped (?n + d) ?t)]\<rparr>)"
    using stepHistory_at [OF at', of "- d"] tw(1) unfolding t' by (simp add: session_wf_def)
  also have "\<dots> = put_group s slug (g\<lparr>tabs := (tabs g)[i := ?t]\<rparr>)"
    by (simp add: stepped_stepped stepped_self tw)
  also have "\<dots> = s" using put_group_self [OF get] by simp
  finally show ?thesis unfolding s' .
qed

text \<open>Back then forward is the identity: in a well-formed store in sync, if the active tab can go back, going back and then forward restores the whole store.\<close>

theorem goForward_goBack:
  assumes "store_wf s" and "store_sync s" and "getActiveTab s = Some t"
    and "0 < histIndex (history t)"
  shows "goForward (goBack s) = s"
proof -
  obtain slug g where ag: "active_group s = Some (slug, g)"
    using assms(3) by (auto simp: getActiveTab_def split: option.splits)
  obtain i where at: "active_at s slug g i" using active_at_exists [OF assms(1) ag] by blast
  then have t: "t = tabs g ! i" "i < length (tabs g)" using active_at_session assms(3) by auto
  have "session_wf t"
    using store_wf_group [OF assms(1) active_group_Some(3) [OF ag]] t by (simp add: group_wf_def)
  then show ?thesis
    using stepHistory_inverse [OF assms(1,2) at, of "-1"] assms(4) t
    by (simp add: goBack_def goForward_def session_wf_def)
qed

definition demo3 :: tab_store where
  "demo3 = navigateActiveSession ''/acme/agents'' False demo2"

lemma demo3_eq:
  "demo3 = put_group demo2 ''acme''
     \<lparr>tabs = [makeSession ''t1'' ''/acme/issues'' ''Issues'',
              (makeSession ''t2'' ''/acme/inbox?x=1'' ''Inbox'')
                \<lparr>tabUrl := ''/acme/agents'', resourceKey := ''/acme/agents'',
                 history := \<lparr>histStack = [''/acme/inbox?x=1'', ''/acme/agents''], histIndex = 1\<rparr>\<rparr>],
      activeTabId = ''t2''\<rparr>"
  by (simp add: demo3_def navigateActiveSession_def demo2_active path_eval makeSession_def)

lemma demo3_wf: "store_wf demo3" "store_sync demo3"
  unfolding demo3_def by (simp_all add: navigateActiveSession_wf navigateActiveSession_sync demo_wf)

theorem goForward_goBack_witness: "goForward (goBack demo3) = demo3"
proof -
  have "\<exists>t. getActiveTab demo3 = Some t \<and> 0 < histIndex (history t)"
    by (simp add: getActiveTab_def active_group_put [OF demo2_active] demo3_eq)
  then show ?thesis using goForward_goBack [OF demo3_wf] by blast
qed

text \<open>A push then back returns the active tab to the url it had, with the pushed url still ahead of it; everything after the old position was discarded.\<close>

theorem push_then_back:
  assumes "store_wf s" and "store_sync s" and "getActiveTab s = Some t"
    and "sanitizeTabPath url = Some clean" and "extractWorkspaceSlug clean = activeWorkspaceSlug s"
    and "clean \<noteq> tabUrl t"
  shows "\<exists>u. getActiveTab (goBack (navigateActiveSession url False s)) = Some u \<and>
           tabId u = tabId t \<and> tabUrl u = tabUrl t \<and> resourceKey u = resourceKey t \<and>
           histIndex (history u) = histIndex (history t) \<and>
           histStack (history u) = take (Suc (nat (histIndex (history t)))) (histStack (history t)) @ [clean]"
proof -
  obtain slug g where ag: "active_group s = Some (slug, g)"
    using assms(3) by (auto simp: getActiveTab_def split: option.splits)
  obtain i where at: "active_at s slug g i" using active_at_exists [OF assms(1) ag] by blast
  then have t: "t = tabs g ! i" "i < length (tabs g)" using active_at_session assms(3) by auto
  have tw: "session_wf t" "session_sync t"
    using store_wf_group [OF assms(1) active_group_Some(3) [OF ag]] store_sync_active_group [OF ag assms(2)] t
    by (auto simp: group_wf_def group_sync_def)
  let ?n = "histIndex (history t)" let ?t' = "navigated False clean t"
  let ?g' = "g\<lparr>tabs := (tabs g)[i := ?t']\<rparr>"
  have nav: "navigateActiveSession url False s = put_group s slug ?g'"
    using at assms(4-6) active_group_Some(1) [OF ag] sanitize_nonempty [OF assms(4)] t
    by (auto simp: navigateActiveSession_def active_at_def navigated_def Let_def)
  have at': "active_at (put_group s slug ?g') slug ?g' i" using active_at_put [OF at] t by simp
  have st: "histStack (history ?t') = take (Suc (nat ?n)) (histStack (history t)) @ [clean]"
    "histIndex (history ?t') = ?n + 1"
    using tw(1) by (simp_all add: navigated_def Let_def session_wf_def nat_add_distrib)
  have ti: "tabs ?g' ! i = ?t'" using t by simp
  have len: "length (take (Suc (nat ?n)) (histStack (history t))) = Suc (nat ?n)"
    using tw(1) by (auto simp: session_wf_def)
  let ?u = "stepped ?n ?t'"
  have "stepHistory (-1) (put_group s slug ?g') =
        put_group (put_group s slug ?g') slug (?g'\<lparr>tabs := (tabs ?g')[i := ?u]\<rparr>)"
    using stepHistory_at [OF at', of "-1"] tw(1) len unfolding ti st by (simp add: session_wf_def)
  then have "getActiveTab (goBack (navigateActiveSession url False s)) = Some ?u"
    using active_at_session [OF active_at_put [OF at', of ?u]] t ti
    by (simp add: goBack_def nav)
  moreover have "tabUrl ?u = tabUrl t" "resourceKey ?u = resourceKey t"
    using tw st(1) len by (auto simp: stepped_def Let_def nth_append session_sync_def session_wf_def)
  ultimately show ?thesis using st by auto
qed

theorem push_then_back_witness:
  "\<exists>u. getActiveTab (goBack (navigateActiveSession ''/acme/agents'' False demo2)) = Some u \<and>
       tabUrl u = ''/acme/inbox?x=1'' \<and> histStack (history u) = [''/acme/inbox?x=1'', ''/acme/agents'']"
proof -
  have t: "getActiveTab demo2 = Some (makeSession ''t2'' ''/acme/inbox?x=1'' ''Inbox'')"
    by (simp add: getActiveTab_def demo2_active)
  have a: "extractWorkspaceSlug ''/acme/agents'' = activeWorkspaceSlug demo2"
    by (simp add: path_eval demo2_eq)
  show ?thesis
    using push_then_back [OF demo_wf(3,4) t path_eval(4) a] by (auto simp: makeSession_def)
qed

section \<open>Scroll mementos\<close>

lemma foldl_store_get:
  assumes "distinct (map fst es)"
  shows "obj_get (foldl (\<lambda>m (c, v). obj_set m (scrollMementoKey r c) v) m es) k =
    (case find (\<lambda>(c, v). scrollMementoKey r c = k) es of Some (c, v) \<Rightarrow> Some v | None \<Rightarrow> obj_get m k)"
  using assms
proof (induction es arbitrary: m)
  case (Cons e es)
  obtain c v where e: "e = (c, v)" by fastforce
  have "find (\<lambda>(c, v). scrollMementoKey r c = k) es = None" if "scrollMementoKey r c = k"
    using that Cons.prems e by (auto simp: find_None_iff scrollMementoKey_def image_iff)
  then show ?case using Cons e by (auto simp: obj_simps split: option.splits)
qed simp

lemma filter_get:
  assumes "distinct (map fst es)"
  shows "obj_get (filter (\<lambda>(k, v). Q k) es) k = (if Q k then obj_get es k else None)"
  using assms by (induction es) (auto simp: map_of_eq_None_iff image_iff split: if_splits)

lemma next_scroll_get:
  assumes "obj_wf cur" and "obj_wf entries"
  shows "obj_get (next_scroll cur r entries) (scrollMementoKey r c) = obj_get entries c"
    and "\<not> starts_with k (r @ ''::'') \<Longrightarrow> obj_get (next_scroll cur r entries) k = obj_get cur k"
    and "obj_wf (next_scroll cur r entries)"
proof -
  let ?kept = "filter (\<lambda>(key, value). \<not> starts_with key (r @ ''::'')) (obj_entries cur)"
  have d: "distinct (map fst (obj_entries entries))" "distinct (map fst (obj_entries cur))"
    using assms obj_wf_entries by (auto simp: obj_wf_def)
  note g = foldl_store_get [OF d(1), of r ?kept]
  have pre: "starts_with (scrollMementoKey r c) (r @ ''::'')" for c
    by (simp add: scrollMementoKey_def starts_with_def)
  have kept: "obj_get ?kept k = (if starts_with k (r @ ''::'') then None else obj_get cur k)" for k
    using filter_get [OF d(2), of "\<lambda>k. \<not> starts_with k (r @ ''::'')" k] obj_get_entries [OF assms(1)] by simp
  show "obj_get (next_scroll cur r entries) (scrollMementoKey r c) = obj_get entries c"
  proof (cases "obj_get entries c")
    case None
    then have "find (\<lambda>(c', v). scrollMementoKey r c' = scrollMementoKey r c) (obj_entries entries) = None"
      using obj_get_in [OF assms(2), of c] by (auto simp: find_None_iff scrollMementoKey_def)
    then show ?thesis using None by (simp add: next_scroll_def g kept pre)
  next
    case (Some v)
    then have in_e: "(c, v) \<in> set (obj_entries entries)" using obj_get_in [OF assms(2)] by simp
    then have "find (\<lambda>(c', v). scrollMementoKey r c' = scrollMementoKey r c) (obj_entries entries) \<noteq> None"
      by (auto simp: find_None_iff)
    then obtain p where p: "find (\<lambda>(c', v). scrollMementoKey r c' = scrollMementoKey r c) (obj_entries entries) = Some p"
      by blast
    obtain w where f: "p = (c, w)" "(c, w) \<in> set (obj_entries entries)"
      using find_Some_in [OF p] by (cases p) (auto simp: scrollMementoKey_def)
    then have "w = v" using in_e d(1) by (meson eq_key_imp_eq_value)
    then show ?thesis using f(1) p Some by (simp add: next_scroll_def g)
  qed
  show "obj_get (next_scroll cur r entries) k = obj_get cur k" if "\<not> starts_with k (r @ ''::'')"
  proof -
    have "find (\<lambda>(c, v). scrollMementoKey r c = k) (obj_entries entries) = None"
      using that pre by (auto simp: find_None_iff)
    then show ?thesis using that by (simp add: next_scroll_def g kept)
  qed
  have "obj_wf (foldl (\<lambda>m (c, v). obj_set m (scrollMementoKey r c) v) m es)" if "obj_wf m" for m es
    using that by (induction es arbitrary: m) auto
  moreover have "obj_wf ?kept" using d(2) by (simp add: obj_wf_def distinct_map_filter)
  ultimately show "obj_wf (next_scroll cur r entries)" by (simp add: next_scroll_def)
qed

lemma scroll_unchanged_get:
  assumes "obj_wf prev" and "obj_wf nxt" and "scroll_unchanged prev nxt"
  shows "obj_get nxt = obj_get prev"
proof -
  have some: "obj_get prev k = Some v" if "obj_get nxt k = Some v" for k v
  proof -
    have "(k, v) \<in> set (obj_entries nxt)" using that assms(2) by (simp add: obj_get_in)
    then show ?thesis
      using assms(3) by (force simp: scroll_unchanged_def list_all_iff split: option.splits
          intro: scroll_offset.equality)
  qed
  have "card (fst ` set nxt) = length nxt" "card (fst ` set prev) = length prev"
    using assms(1,2) distinct_card [of "map fst nxt"] distinct_card [of "map fst prev"]
    by (simp_all add: obj_wf_def)
  moreover have "length prev = length nxt"
    using assms(3) mset_obj_entries [of prev] mset_obj_entries [of nxt]
    by (metis scroll_unchanged_def obj_keys_def length_map size_mset)
  moreover have "fst ` set nxt \<subseteq> fst ` set prev"
    using some assms by (fastforce simp: obj_get_in image_iff)
  ultimately have "fst ` set nxt = fst ` set prev"
    by (intro card_subset_eq) auto
  then have none: "obj_get prev k = None" if "obj_get nxt k = None" for k
    using that by (simp add: map_of_eq_None_iff)
  show ?thesis
  proof (rule ext)
    fix k
    show "obj_get nxt k = obj_get prev k"
      using some [of k] none [of k] by (cases "obj_get nxt k") simp_all
  qed
qed

text \<open>Committing scroll offsets replaces one route's entries: afterwards the tab's offset of each container of that route is exactly the one captured (none if it was not captured), and entries of other routes are unchanged, also when the write was skipped as unchanged.\<close>

theorem commitScrollMemento_replaces:
  assumes "store_wf s" and "findTabLocation (byWorkspace s) tid = Some (slug, g, i)"
    and "obj_wf (scroll (memento (tabs g ! i)))" and "obj_wf entries"
  shows "\<exists>h. obj_get (byWorkspace (commitScrollMemento tid r entries s)) slug = Some h \<and>
    (\<forall>c. obj_get (scroll (memento (tabs h ! i))) (scrollMementoKey r c) = obj_get entries c) \<and>
    (\<forall>k. starts_with k (r @ ''::'') \<or>
         obj_get (scroll (memento (tabs h ! i))) k = obj_get (scroll (memento (tabs g ! i))) k)"
proof -
  note loc = findTabLocation_Some [OF assms(1,2)]
  let ?cur = "scroll (memento (tabs g ! i))"
  note ns = next_scroll_get [OF assms(3,4)]
  show ?thesis
  proof (cases "scroll_unchanged ?cur (next_scroll ?cur r entries)")
    case True
    then have "obj_get (next_scroll ?cur r entries) = obj_get ?cur"
      using scroll_unchanged_get [OF assms(3) ns(3)] by simp
    then have "obj_get ?cur (scrollMementoKey r c) = obj_get entries c" for c
      using ns(1) [of r c] by simp
    then show ?thesis
      using True assms(2) loc(1) by (intro exI [of _ g]) (simp add: commitScrollMemento_def)
  next
    case False
    then show ?thesis
      using assms(2) loc(2) ns by (auto simp: commitScrollMemento_def Let_def obj_simps)
  qed
qed

theorem commitScrollMemento_replaces_witness:
  "\<exists>h. obj_get (byWorkspace (commitScrollMemento ''t1'' ''/acme/issues''
           [(''main'', \<lparr>offTop = 40, offHeight = 900\<rparr>)] demo2)) ''acme'' = Some h \<and>
     obj_get (scroll (memento (tabs h ! 0))) (scrollMementoKey ''/acme/issues'' ''main'') =
       Some \<lparr>offTop = 40, offHeight = 900\<rparr>"
  using commitScrollMemento_replaces [OF demo_wf(3) demo2_location,
      of "[(''main'', \<lparr>offTop = 40, offHeight = 900\<rparr>)]" "''/acme/issues''"]
  by (fastforce simp: makeSession_def emptyMemento_def obj_wf_def)

section \<open>Pins and revoked workspaces\<close>

text \<open>Toggling a pin flips the pin of exactly that tab: the other tabs keep their multiset, the group keeps its ids, and the toggled tab sits at the boundary of the two zones.\<close>

theorem togglePin_at_boundary:
  assumes "store_wf s" and "findTabLocation (byWorkspace s) tid = Some (slug, g, i)"
  shows "\<exists>h k. togglePin tid s = put_group s slug h \<and> k < length (tabs h) \<and>
    tabs h ! k = (tabs g ! i)\<lparr>pinned := \<not> pinned (tabs g ! i)\<rparr> \<and>
    mset (take k (tabs h) @ drop (Suc k) (tabs h)) = mset (take i (tabs g) @ drop (Suc i) (tabs g)) \<and>
    (\<forall>t \<in> set (take k (tabs h)). pinned t) \<and> (\<forall>t \<in> set (drop (Suc k) (tabs h)). \<not> pinned t)"
proof -
  note loc = findTabLocation_Some [OF assms]
  let ?rest = "take i (tabs g) @ drop (Suc i) (tabs g)"
  have "pinned_first ?rest" using loc(4) pinned_first_remove by (simp add: group_wf_def)
  then obtain ps us where z: "?rest = ps @ us" "\<forall>t \<in> set ps. pinned t" "\<forall>t \<in> set us. \<not> pinned t"
    "pinnedBoundary ?rest = length ps" using pinned_first_zones by metis
  let ?h = "g\<lparr>tabs := repinned (tabs g) i\<rparr>"
  have h: "tabs ?h = ps @ [(tabs g ! i)\<lparr>pinned := \<not> pinned (tabs g ! i)\<rparr>] @ us"
    using z by (simp add: repinned_def Let_def)
  have "togglePin tid s = put_group s slug ?h" using assms(2) by (simp add: togglePin_eq)
  then show ?thesis
    using h z by (intro exI [of _ ?h] exI [of _ "length ps"]) (simp add: nth_append)
qed

theorem togglePin_at_boundary_witness:
  "\<exists>h k. togglePin ''t1'' demo2 = put_group demo2 ''acme'' h \<and> tabId (tabs h ! k) = ''t1'' \<and> pinned (tabs h ! k)"
proof -
  obtain h k where "togglePin ''t1'' demo2 = put_group demo2 ''acme'' h"
    "tabs h ! k = (makeSession ''t1'' ''/acme/issues'' ''Issues'')\<lparr>pinned := True\<rparr>"
    using togglePin_at_boundary [OF demo_wf(3) demo2_location] by auto
  then show ?thesis by (intro exI [of _ h] exI [of _ k]) simp
qed

text \<open>After the workspace list is validated only valid workspaces have groups, the groups of the workspaces that stay are untouched, and an active workspace that is still valid stays active.\<close>

theorem validateWorkspaceSlugs_prunes:
  assumes "store_wf s"
  shows "(\<forall>k g. obj_get (byWorkspace (validateWorkspaceSlugs fresh valid s)) k = Some g \<longrightarrow> k \<in> set valid) \<and>
    (\<forall>k g. k \<in> set valid \<and> obj_get (byWorkspace s) k = Some g \<longrightarrow>
       obj_get (byWorkspace (validateWorkspaceSlugs fresh valid s)) k = Some g) \<and>
    (\<forall>w. activeWorkspaceSlug s = Some w \<and> w \<in> set valid \<longrightarrow>
       activeWorkspaceSlug (validateWorkspaceSlugs fresh valid s) = Some w)"
proof -
  have owf: "obj_wf (byWorkspace s)" using assms by (simp add: store_wf_def)
  note nb = valid_groups_get [OF owf]
  have act: "obj_get (byWorkspace s) w \<noteq> None" if "activeWorkspaceSlug s = Some w" for w
    using assms that by (auto simp: store_wf_def active_ok_def)
  show ?thesis
  proof (rule validate_cases [OF assms, of fresh valid])
    fix slug
    assume e: "valid_groups valid s = []" and slug: "slug \<in> set valid" and
      eq: "validateWorkspaceSlugs fresh valid s =
         (put_group (s\<lparr>byWorkspace := [], activeWorkspaceSlug := None\<rparr>) slug
            \<lparr>tabs = [defaultTabFor fresh slug], activeTabId = fresh\<rparr>)\<lparr>activeWorkspaceSlug := Some slug\<rparr>"
    have none: "obj_get (byWorkspace s) k = None" if "k \<in> set valid" for k
      using nb(1) [of valid k] e that by simp
    moreover have "w \<notin> set valid" if "activeWorkspaceSlug s = Some w" for w
      using act [OF that] none by auto
    ultimately show ?thesis unfolding eq using slug by (auto simp: put_group_def)
  qed (auto simp: nb(1))
qed

theorem validateWorkspaceSlugs_prunes_witness:
  "obj_get (byWorkspace (validateWorkspaceSlugs ''t9'' [''beta''] demo2)) ''acme'' = None \<and>
   activeWorkspaceSlug (validateWorkspaceSlugs ''t9'' [''acme''] demo2) = Some ''acme''"
proof
  have "k \<in> set [''beta'']"
    if "obj_get (byWorkspace (validateWorkspaceSlugs ''t9'' [''beta''] demo2)) k = Some g" for k g
    using validateWorkspaceSlugs_prunes [OF demo_wf(3), of "''t9''" "[''beta'']"] that by blast
  then show "obj_get (byWorkspace (validateWorkspaceSlugs ''t9'' [''beta''] demo2)) ''acme'' = None"
    by (cases "obj_get (byWorkspace (validateWorkspaceSlugs ''t9'' [''beta''] demo2)) ''acme''") fastforce+
  have "activeWorkspaceSlug demo2 = Some ''acme''" by (simp add: demo2_eq)
  then show "activeWorkspaceSlug (validateWorkspaceSlugs ''t9'' [''acme''] demo2) = Some ''acme''"
    using validateWorkspaceSlugs_prunes [OF demo_wf(3), of "''t9''" "[''acme'']"] by (metis list.set_intros(1))
qed

end
