(* ===== verification/Tab_Restore.thy ===== *)
theory Tab_Restore
  imports Tab_History
begin

text \<open>
  Restoring the tab store: what a rebuilt store satisfies whatever the payload, the round
  trip through the payload, the migration of the oldest payload, and the one field of the
  payload that is trusted without a check.
\<close>

text \<open>Whatever a payload without repeated tab ids contains, the store rebuilt from it is well-formed, and every rebuilt tab's url is a workspace path of the workspace it is filed under.\<close>

theorem merge_rebuilds_wf:
  assumes "v4ByWorkspace p = Some pbw" and "payload_wf pbw"
  shows "store_wf (mergePersistedTabs (Some p) cur) \<and>
    (\<forall>slug g. obj_get (byWorkspace (mergePersistedTabs (Some p) cur)) slug = Some g \<longrightarrow>
       (\<forall>t \<in> set (tabs g). extractWorkspaceSlug (tabUrl t) = Some slug))"
proof -
  have owf: "obj_wf pbw" using assms(2) by (simp add: payload_wf_def)
  have "byWorkspace (mergePersistedTabs (Some p) cur) = merged_groups pbw"
    by (simp add: mergePersistedTabs_eq assms(1) Let_def)
  then show ?thesis
    using mergePersistedTabs_wf [OF assms] merged_groups_get(2) [OF owf] merge_group_props(4)
    by (auto split: option.splits)
qed

definition stray_payload :: v4_persisted where
  "stray_payload = \<lparr>v4ActiveWorkspaceSlug = Some ''gone'',
     v4ByWorkspace = Some [(''acme'', \<lparr>v4Tabs =
       [\<lparr>v4Id = ''a'', v4Url = ''/acme/issues'', v4Title = ''Issues'', v4Pinned = None,
         v4History = Some \<lparr>v4Stack = Some [''/beta/issues'', ''/acme/issues''], v4Index = Some 7\<rparr>, v4Memento = None\<rparr>,
        \<lparr>v4Id = ''b'', v4Url = ''/login'', v4Title = ''x'', v4Pinned = Some True,
         v4History = None, v4Memento = None\<rparr>], v4ActiveTabId = ''b''\<rparr>)]\<rparr>"

lemma stray_sanitize: "sanitizeTabPath ''/login'' = None"
  by code_simp

lemma stray_array_index: "\<not> is_array_index ''acme''"
  by code_simp

lemma stray_merged:
  "mergePersistedTabs (Some stray_payload) initial_store =
    \<lparr>activeWorkspaceSlug = Some ''acme'',
     byWorkspace = [(''acme'', \<lparr>tabs =
       [\<lparr>tabId = ''a'', tabUrl = ''/acme/issues'', resourceKey = ''/acme/issues'', tabTitle = ''Issues'',
         pinned = False, history = \<lparr>histStack = [''/beta/issues'', ''/acme/issues''], histIndex = 1\<rparr>,
         memento = emptyMemento\<rparr>], activeTabId = ''a''\<rparr>)],
     mountGeneration = 0\<rparr>"
  by (simp add: mergePersistedTabs_def stray_payload_def merge_group_def merge_tab_def initial_store_def
      path_eval stray_sanitize stray_array_index obj_entries_def obj_keys_def Let_def)

lemma stray_payload_wf: "payload_wf (the (v4ByWorkspace stray_payload))"
  by (simp add: payload_wf_def stray_payload_def payload_ids_def obj_wf_def)

theorem merge_rebuilds_wf_witness:
  "store_wf (mergePersistedTabs (Some stray_payload) initial_store) \<and>
   obj_get (byWorkspace (mergePersistedTabs (Some stray_payload) initial_store)) ''acme'' \<noteq> None"
proof -
  have "v4ByWorkspace stray_payload = Some (the (v4ByWorkspace stray_payload))"
    by (simp add: stray_payload_def)
  then show ?thesis
    using merge_rebuilds_wf [OF _ stray_payload_wf, of stray_payload initial_store] by (simp add: stray_merged)
qed

text \<open>The history stack of a payload is trusted: there is a payload, without repeated ids, whose rebuilt store goes back into a path of another workspace while the tab stays filed under its own.\<close>

theorem restored_history_leaks:
  "\<exists>p pbw. v4ByWorkspace p = Some pbw \<and> payload_wf pbw \<and>
     (\<exists>t. getActiveTab (goBack (mergePersistedTabs (Some p) initial_store)) = Some t \<and>
          activeWorkspaceSlug (goBack (mergePersistedTabs (Some p) initial_store)) = Some ''acme'' \<and>
          extractWorkspaceSlug (tabUrl t) = Some ''beta'')"
proof -
  have "extractWorkspaceSlug ''/beta/issues'' = Some ''beta''" by code_simp
  then have "\<exists>t. getActiveTab (goBack (mergePersistedTabs (Some stray_payload) initial_store)) = Some t \<and>
          activeWorkspaceSlug (goBack (mergePersistedTabs (Some stray_payload) initial_store)) = Some ''acme'' \<and>
          extractWorkspaceSlug (tabUrl t) = Some ''beta''"
    by (simp add: stray_merged goBack_def stepHistory_def active_group_def getActiveTab_def put_group_def Let_def)
  moreover have "v4ByWorkspace stray_payload = Some (the (v4ByWorkspace stray_payload))"
    by (simp add: stray_payload_def)
  ultimately show ?thesis using stray_payload_wf by blast
qed

section \<open>Round trip\<close>

text \<open>Every tab is filed under the workspace its url names.\<close>

definition store_home :: "tab_store \<Rightarrow> bool" where
  "store_home s \<longleftrightarrow>
     (\<forall>slug g t. obj_get (byWorkspace s) slug = Some g \<longrightarrow> t \<in> set (tabs g) \<longrightarrow>
        tab_path_ok (tabUrl t) \<and> extractWorkspaceSlug (tabUrl t) = Some slug)"

lemma merge_partialize_tab:
  assumes "session_wf t" and "tab_path_ok (tabUrl t)" and "extractWorkspaceSlug (tabUrl t) = Some slug"
  shows "merge_tab slug (partialize_tab t) = Some t"
proof -
  let ?h = "history t"
  obtain u us where st: "histStack ?h = u # us"
    using assms(1) by (cases "histStack ?h") (auto simp: session_wf_def)
  have "min (max (histIndex ?h) 0) (int (length (u # us)) - 1) = histIndex ?h"
    using assms(1) st by (auto simp: session_wf_def)
  then show ?thesis
    using assms st sanitizeTabPath_fixed [OF assms(2)]
    by (simp add: merge_tab_def partialize_tab_def session_wf_def Let_def)
qed

lemma map_filter_partial_inverse:
  "(\<And>x. x \<in> set xs \<Longrightarrow> f (g x) = Some x) \<Longrightarrow> List.map_filter f (map g xs) = xs"
  by (induction xs) auto

lemma merge_partialize_group:
  assumes wf: "group_wf g"
    and home: "\<And>t. t \<in> set (tabs g) \<Longrightarrow> tab_path_ok (tabUrl t) \<and> extractWorkspaceSlug (tabUrl t) = Some slug"
  shows "merge_group slug \<lparr>v4Tabs = map partialize_tab (tabs g), v4ActiveTabId = activeTabId g\<rparr> = Some g"
proof -
  have "List.map_filter (merge_tab slug) (map partialize_tab (tabs g)) = tabs g"
    using wf home merge_partialize_tab
    by (intro map_filter_partial_inverse) (auto simp: group_wf_def)
  moreover have "sort_key pin_rank (tabs g) = tabs g"
    using wf by (simp add: group_wf_def sort_pinned_first)
  moreover have "list_ex (\<lambda>t. tabId t = activeTabId g) (tabs g)"
    using wf by (auto simp: group_wf_def tab_ids_def list_ex_iff)
  ultimately show ?thesis
    using group_wf_nonempty [OF wf] by (auto simp: merge_group_def Let_def split: list.splits)
qed

text \<open>C3. Writing a well-formed store whose tabs are at home and reading it back rebuilds every group, session by session, and the active workspace.\<close>

theorem persist_roundtrip:
  assumes "store_wf s" and "store_home s" and "activeWorkspaceSlug s = Some w"
  shows "activeWorkspaceSlug (mergePersistedTabs (Some (partialize s)) cur) = Some w \<and>
    (\<forall>k. obj_get (byWorkspace (mergePersistedTabs (Some (partialize s)) cur)) k = obj_get (byWorkspace s) k)"
proof -
  have owf: "obj_wf (byWorkspace s)" using assms(1) by (simp add: store_wf_def)
  define f where "f = (\<lambda>g :: tab_group. \<lparr>v4Tabs = map partialize_tab (tabs g), v4ActiveTabId = activeTabId g\<rparr>)"
  define pbw where "pbw = map (\<lambda>(slug, g). (slug, f g)) (obj_entries (byWorkspace s))"
  have p: "partialize s = \<lparr>v4ActiveWorkspaceSlug = Some w, v4ByWorkspace = Some pbw\<rparr>"
    by (simp add: partialize_def pbw_def f_def assms(3))
  have fst_pbw: "map fst pbw = map fst (obj_entries (byWorkspace s))"
    by (simp add: pbw_def comp_def case_prod_beta)
  then have wfp: "obj_wf pbw" using owf obj_wf_entries [of "byWorkspace s"] by (simp add: obj_wf_def)
  have get: "obj_get pbw k = map_option f (obj_get (byWorkspace s) k)" for k
    using map_of_map [of f "obj_entries (byWorkspace s)"] obj_get_entries [OF owf, of k]
    by (simp add: pbw_def)
  have restored: "obj_get (merged_groups pbw) k = obj_get (byWorkspace s) k" for k
  proof (cases "obj_get (byWorkspace s) k")
    case (Some g)
    then have "merge_group k (f g) = Some g"
      using store_wf_group [OF assms(1)] assms(2) unfolding f_def
      by (intro merge_partialize_group) (auto simp: store_home_def)
    then show ?thesis using Some by (simp add: merged_groups_get(2) [OF wfp] get)
  qed (simp add: merged_groups_get(2) [OF wfp] get)
  have "obj_get (byWorkspace s) w \<noteq> None" "w \<noteq> []"
    using assms(1,3) by (auto simp: store_wf_def active_ok_def groups_ok_def)
  then show ?thesis by (simp add: p mergePersistedTabs_eq Let_def restored)
qed

theorem persist_roundtrip_witness:
  "store_home demo2 \<and>
   obj_get (byWorkspace (mergePersistedTabs (Some (partialize demo2)) initial_store)) ''acme'' =
     obj_get (byWorkspace demo2) ''acme''"
proof -
  have home: "store_home demo2" by (auto simp: store_home_def demo2_eq path_eval)
  have "activeWorkspaceSlug demo2 = Some ''acme''" by (simp add: demo2_eq)
  then show ?thesis using persist_roundtrip [OF demo_wf(3) home] home by blast
qed

section \<open>Migration of flat tabs\<close>

definition v2_of_v1 :: "v1_tab \<Rightarrow> v2_tab" where
  "v2_of_v1 t = \<lparr>v2Id = v1Id t, v2Path = v1Path t, v2Title = v1Title t, v2Icon = v1Icon t\<rparr>"

definition v1_of_slug :: "string \<Rightarrow> v1_tab list \<Rightarrow> v1_tab list" where
  "v1_of_slug slug ts = filter (\<lambda>t. extractWorkspaceSlug (v1Path t) = Some slug) ts"

lemma extract_truthy: "truthy (extractWorkspaceSlug p) = extractWorkspaceSlug p"
  by (auto simp: extractWorkspaceSlug_def Let_def)

lemma v1_push_wf: "obj_wf bw \<Longrightarrow> obj_wf (v1_push bw t)"
  by (auto simp: v1_push_def Let_def split: option.splits)

lemma v1_push_get:
  "map_option v2Tabs (obj_get (v1_push bw t) slug) =
    (if extractWorkspaceSlug (v1Path t) = Some slug
     then Some ((case obj_get bw slug of Some g \<Rightarrow> v2Tabs g | None \<Rightarrow> []) @ [v2_of_v1 t])
     else map_option v2Tabs (obj_get bw slug))"
  by (auto simp: v1_push_def extract_truthy Let_def obj_simps v2_of_v1_def split: option.splits)

lemma v1_fold_get:
  "map_option v2Tabs (obj_get (foldl v1_push bw ts) slug) =
    (if v1_of_slug slug ts = [] then map_option v2Tabs (obj_get bw slug)
     else Some ((case obj_get bw slug of Some g \<Rightarrow> v2Tabs g | None \<Rightarrow> []) @ map v2_of_v1 (v1_of_slug slug ts)))"
proof (induction ts arbitrary: bw)
  case (Cons t ts)
  show ?case
    using v1_push_get [of bw t slug] Cons.IH [of "v1_push bw t"]
    by (cases "obj_get (v1_push bw t) slug")
      (auto simp: v1_of_slug_def split: if_splits option.splits)
qed (simp add: v1_of_slug_def)

lemma v1_fold_wf: "obj_wf bw \<Longrightarrow> obj_wf (foldl v1_push bw ts)"
  by (induction ts arbitrary: bw) (auto simp: v1_push_wf)

text \<open>Migrating the flat v1 payload files every tab with a workspace path, in order, under the workspace its path names, creates no other group, and gives each group an active tab that is one of its tabs: the old active tab where it landed.\<close>

theorem migrateV1_groups_tabs:
  "\<exists>bw. v2ByWorkspace (migrateV1ToV2 v1) = Some bw \<and>
    (\<forall>slug. let mine = v1_of_slug slug (case v1Tabs v1 of Some ts \<Rightarrow> ts | None \<Rightarrow> []) in
       obj_get bw slug =
         (if mine = [] then None
          else Some \<lparr>v2Tabs = map v2_of_v1 mine,
                     v2ActiveTabId =
                       (case v1ActiveTabId v1 of
                          Some a \<Rightarrow> if a \<in> set (map v1Id mine) then a else v1Id (hd mine)
                        | None \<Rightarrow> v1Id (hd mine))\<rparr>))"
proof -
  define ts where "ts = (case v1Tabs v1 of Some ts \<Rightarrow> ts | None \<Rightarrow> [])"
  let ?grouped = "foldl v1_push [] ts"
  let ?bw = "map (\<lambda>(slug, g). (slug, v1_activate (v1ActiveTabId v1) g)) ?grouped"
  have "v2ByWorkspace (migrateV1ToV2 v1) = Some ?bw"
    by (simp add: migrateV1ToV2_def ts_def Let_def)
  moreover have "obj_get ?bw slug =
         (if v1_of_slug slug ts = [] then None
          else Some \<lparr>v2Tabs = map v2_of_v1 (v1_of_slug slug ts),
                     v2ActiveTabId =
                       (case v1ActiveTabId v1 of
                          Some a \<Rightarrow> if a \<in> set (map v1Id (v1_of_slug slug ts)) then a
                                    else v1Id (hd (v1_of_slug slug ts))
                        | None \<Rightarrow> v1Id (hd (v1_of_slug slug ts)))\<rparr>)" for slug
  proof -
    have get: "obj_get ?bw slug = map_option (v1_activate (v1ActiveTabId v1)) (obj_get ?grouped slug)"
      using map_of_map [of "v1_activate (v1ActiveTabId v1)" ?grouped] by simp
    have tabs: "map_option v2Tabs (obj_get ?grouped slug) =
        (if v1_of_slug slug ts = [] then None else Some (map v2_of_v1 (v1_of_slug slug ts)))"
      using v1_fold_get [of "[]" ts slug] by simp
    show ?thesis
    proof (cases "v1_of_slug slug ts")
      case Nil
      then show ?thesis using get tabs by simp
    next
      case (Cons m ms)
      then obtain g where "obj_get ?grouped slug = Some g" "v2Tabs g = map v2_of_v1 (m # ms)"
        using tabs by auto
      then show ?thesis
        unfolding get Cons
        by (cases "v1ActiveTabId v1") (auto simp: v1_activate_def v2_of_v1_def list_ex_iff)
    qed
  qed
  ultimately show ?thesis unfolding ts_def [symmetric] Let_def by blast
qed

end
