(* ===== verification/JS_Number.thy ===== *)
theory JS_Number
  imports JS_Prelude
begin

text \<open>
  Numbers as strings: \<open>String(n)\<close>, \<open>Number(digits)\<close>, \<open>parseInt(s, 10)\<close> on integers, and the
  ASCII part of white space and upper case. A digit string past \<open>2^53 - 1\<close> is not a safe
  integer; below it the conversion is exact.
\<close>

fun string_of_nat :: "nat \<Rightarrow> string" where
  "string_of_nat n =
     (if n < 10 then [char_of (48 + n)] else string_of_nat (n div 10) @ [char_of (48 + n mod 10)])"

declare string_of_nat.simps [simp del]

definition string_of_int :: "int \<Rightarrow> string" where
  "string_of_int i = (if i < 0 then ''-'' @ string_of_nat (nat (- i)) else string_of_nat (nat i))"

definition MAX_SAFE_INTEGER :: int where
  "MAX_SAFE_INTEGER = 9007199254740991"

text \<open>\<open>/^\d+$/\<close>\<close>

definition all_digits :: "string \<Rightarrow> bool" where
  "all_digits s \<longleftrightarrow> s \<noteq> [] \<and> list_all is_digit s"

text \<open>\<open>Number(s)\<close> of a digit string, when it is a safe integer.\<close>

definition safe_number :: "string \<Rightarrow> int option" where
  "safe_number s = (let n = int (digits_value s) in if n \<le> MAX_SAFE_INTEGER then Some n else None)"

text \<open>White space of \<open>trim\<close> and \<open>\s\<close> among the code units 0..255, and \<open>toUpperCase\<close> on ASCII.\<close>

definition is_ws :: "char \<Rightarrow> bool" where
  "is_ws c \<longleftrightarrow> (let n = (of_char c :: nat) in (9 \<le> n \<and> n \<le> 13) \<or> n = 32 \<or> n = 160)"

definition upcase :: "char \<Rightarrow> char" where
  "upcase c = (let n = (of_char c :: nat) in if 97 \<le> n \<and> n \<le> 122 then char_of (n - 32) else c)"

definition trim_start :: "string \<Rightarrow> string" where
  "trim_start s = dropWhile is_ws s"

definition trim_end :: "string \<Rightarrow> string" where
  "trim_end s = rev (dropWhile is_ws (rev s))"

definition trim :: "string \<Rightarrow> string" where
  "trim s = trim_end (trim_start s)"

text \<open>\<open>split(/\s+/)\<close>\<close>

function split_ws :: "string \<Rightarrow> string list" where
  "split_ws s =
     takeWhile (\<lambda>c. \<not> is_ws c) s #
     (case dropWhile (\<lambda>c. \<not> is_ws c) s of
        [] \<Rightarrow> []
      | c # cs \<Rightarrow> split_ws (dropWhile is_ws cs))"
  by pat_completeness auto
termination
proof (relation "measure length", goal_cases)
  case (2 s c cs)
  have "length (dropWhile is_ws cs) \<le> length cs" by (rule length_dropWhile_le)
  also have "\<dots> < length (dropWhile (\<lambda>c. \<not> is_ws c) s)" using 2 by simp
  also have "\<dots> \<le> length s" by (rule length_dropWhile_le)
  finally show ?case by simp
qed simp

declare split_ws.simps [simp del]

text \<open>\<open>parseInt(s, 10)\<close>: leading white space, a sign, then the longest digit prefix; \<open>None\<close> is \<open>NaN\<close>.\<close>

definition parse_nat :: "string \<Rightarrow> int option" where
  "parse_nat s =
     (let d = takeWhile is_digit s in if d = [] then None else Some (int (digits_value d)))"

definition parseInt :: "string \<Rightarrow> int option" where
  "parseInt s =
     (case trim_start s of
        [] \<Rightarrow> None
      | c # cs \<Rightarrow> if c = CHR ''-'' then map_option uminus (parse_nat cs)
                   else if c = CHR ''+'' then parse_nat cs
                   else parse_nat (c # cs))"

text \<open>\<open>String(x)\<close> of the result of a \<open>parseInt\<close>.\<close>

definition string_of_number :: "int option \<Rightarrow> string" where
  "string_of_number x = (case x of Some i \<Rightarrow> string_of_int i | None \<Rightarrow> ''NaN'')"

section \<open>Lemmas\<close>

lemma digits_value_snoc: "digits_value (s @ [c]) = 10 * digits_value s + digit_value c"
  by (simp add: digits_value_def)

lemma digit_char: "n < 10 \<Longrightarrow> is_digit (char_of (48 + n)) \<and> digit_value (char_of (48 + n)) = n"
proof -
  assume "n < 10"
  then have "n \<in> {0, 1, 2, 3, 4, 5, 6, 7, 8, 9}" by auto
  then show ?thesis by (auto simp: is_digit_def digit_value_def char_of_def of_char_def bit_simps)
qed

lemma string_of_nat_props:
  "all_digits (string_of_nat n) \<and> digits_value (string_of_nat n) = n"
proof (induction n rule: string_of_nat.induct)
  case (1 n)
  show ?case
  proof (cases "n < 10")
    case True
    then show ?thesis using digit_char [of n]
      by (subst (1 2) string_of_nat.simps) (simp add: all_digits_def digits_value_def)
  next
    case False
    have "n mod 10 < 10" by simp
    from digit_char [OF this] False 1 show ?thesis
      by (subst (1 2) string_of_nat.simps) (simp add: all_digits_def digits_value_snoc)
  qed
qed

lemmas string_of_nat_digits [simp] = string_of_nat_props [THEN conjunct1]
  and string_of_nat_value [simp] = string_of_nat_props [THEN conjunct2]

lemma string_of_nat_not_Nil [simp]: "string_of_nat n \<noteq> []"
  using string_of_nat_digits [of n] by (simp add: all_digits_def del: string_of_nat_digits)

lemma string_of_int_nonneg [simp]: "0 \<le> i \<Longrightarrow> string_of_int i = string_of_nat (nat i)"
  by (simp add: string_of_int_def)

lemma is_digit_chars: "is_digit c \<Longrightarrow> c \<notin> set ''/-*?+,: =TZNa''"
  by (auto simp: is_digit_def)

lemma is_digit_not_ws: "is_digit c \<Longrightarrow> \<not> is_ws c"
  by (auto simp: is_digit_def is_ws_def)

lemma string_of_nat_char: "c \<in> set (string_of_nat n) \<Longrightarrow> is_digit c"
  using string_of_nat_digits [of n] by (auto simp: all_digits_def list_all_iff simp del: string_of_nat_digits)

lemma string_of_nat_free [simp]:
  "CHR ''/'' \<notin> set (string_of_nat n)" "CHR ''-'' \<notin> set (string_of_nat n)"
  "CHR '','' \<notin> set (string_of_nat n)" "CHR ''*'' \<notin> set (string_of_nat n)"
  "CHR '':'' \<notin> set (string_of_nat n)" "CHR ''+'' \<notin> set (string_of_nat n)"
  "CHR ''?'' \<notin> set (string_of_nat n)" "CHR '' '' \<notin> set (string_of_nat n)"
  by (auto dest!: string_of_nat_char simp: is_digit_def)

lemma takeWhile_digits [simp]:
  "\<not> is_digit c \<Longrightarrow> takeWhile is_digit (string_of_nat n @ c # s) = string_of_nat n"
  "takeWhile is_digit (string_of_nat n) = string_of_nat n"
  by (auto simp: takeWhile_append string_of_nat_char)

lemma digits_value_zeros [simp]: "digits_value (CHR ''0'' # s) = digits_value s"
  by (simp add: digits_value_def digit_value_def of_char_def)

lemma trim_start_digits: "is_digit c \<Longrightarrow> trim_start (c # s) = c # s"
  by (simp add: trim_start_def is_digit_not_ws)

lemma parseInt_digits: "all_digits d \<Longrightarrow> parseInt d = Some (int (digits_value d))"
proof -
  assume d: "all_digits d"
  then obtain c cs where c: "d = c # cs" "is_digit c" by (cases d) (auto simp: all_digits_def)
  then have "c \<noteq> CHR ''-''" "c \<noteq> CHR ''+''" using is_digit_chars [of c] by auto
  moreover have "takeWhile is_digit d = d" using d by (auto simp: all_digits_def list_all_iff)
  ultimately show ?thesis
    using c by (simp add: parseInt_def trim_start_digits parse_nat_def
        del: takeWhile_eq_all_conv takeWhile.simps)
qed

lemma split_ws_single: "\<forall>c \<in> set w. \<not> is_ws c \<Longrightarrow> split_ws w = [w]"
proof -
  assume "\<forall>c \<in> set w. \<not> is_ws c"
  then have "dropWhile (\<lambda>c. \<not> is_ws c) w = []" "takeWhile (\<lambda>c. \<not> is_ws c) w = w"
    by simp_all
  then show ?thesis
    by (simp add: split_ws.simps [of w] del: takeWhile_eq_all_conv dropWhile_eq_Nil_conv)
qed

lemma split_ws_space:
  assumes "\<forall>c \<in> set w. \<not> is_ws c" and "s \<noteq> []" and "\<not> is_ws (hd s)"
  shows "split_ws (w @ CHR '' '' # s) = w # split_ws s"
proof -
  have "is_ws (CHR '' '')" by (simp add: is_ws_def)
  then show ?thesis
    using assms by (cases s) (simp_all add: split_ws.simps [of "w @ _"] takeWhile_append dropWhile_append)
qed

lemma trim_id: "s = [] \<or> (\<not> is_ws (hd s) \<and> \<not> is_ws (last s)) \<Longrightarrow> trim s = s"
proof (cases "s = []")
  case False
  assume "s = [] \<or> (\<not> is_ws (hd s) \<and> \<not> is_ws (last s))"
  with False have h: "\<not> is_ws (hd s)" "\<not> is_ws (last s)" by auto
  then have "trim_start s = s" using False by (cases s) (auto simp: trim_start_def)
  moreover have "dropWhile is_ws (rev s) = rev s"
    using h False by (cases s rule: rev_cases) auto
  ultimately show ?thesis by (simp add: trim_def trim_end_def)
qed (simp add: trim_def trim_start_def trim_end_def)

lemma trim_ends: "trim s = [] \<or> (\<not> is_ws (hd (trim s)) \<and> \<not> is_ws (last (trim s)))"
proof (cases "trim s = []")
  case False
  let ?a = "trim_start s"
  have t: "rev (trim s) = dropWhile is_ws (rev ?a)" by (simp add: trim_def trim_end_def)
  have l: "\<not> is_ws (last (trim s))"
    using False hd_dropWhile [of is_ws "rev ?a"] t by (metis hd_rev rev_is_Nil_conv)
  obtain ws where ws: "?a = trim s @ ws"
    using t takeWhile_dropWhile_id [of is_ws "rev ?a"] by (metis rev_append rev_rev_ident)
  then have "?a \<noteq> []" using False by simp
  then have "\<not> is_ws (hd ?a)" using hd_dropWhile [of is_ws s] by (simp add: trim_start_def)
  then show ?thesis using l ws False by simp
qed simp

lemma trim_trim [simp]: "trim (trim s) = trim s"
  using trim_ends by (rule trim_id)

end
