(* ===== verification/Cron_Field.thy ===== *)
theory Cron_Field
  imports JS_Number
begin

text \<open>
  The field grammar of the schedule editor
  (\<open>packages/views/autopilots/components/schedule-editor/cron-mapping.ts\<close>): bounds and
  names of the five cron fields, one part of a field, the normalisation of the text and the
  two collapse rules. Numbers are integers; \<open>null\<close> is \<open>None\<close>.
\<close>

section \<open>Bounds and names\<close>

definition DOW_NAMES :: "(string \<times> int) list" where
  "DOW_NAMES =
     [(''SUN'', 0), (''MON'', 1), (''TUE'', 2), (''WED'', 3), (''THU'', 4), (''FRI'', 5),
      (''SAT'', 6)]"

definition MONTH_NAMES :: "(string \<times> int) list" where
  "MONTH_NAMES =
     [(''JAN'', 1), (''FEB'', 2), (''MAR'', 3), (''APR'', 4), (''MAY'', 5), (''JUN'', 6),
      (''JUL'', 7), (''AUG'', 8), (''SEP'', 9), (''OCT'', 10), (''NOV'', 11), (''DEC'', 12)]"

record field_bounds =
  bmin :: int
  bmax :: int
  bnames :: "(string \<times> int) list"

definition MINUTE :: field_bounds where
  "MINUTE = \<lparr>bmin = 0, bmax = 59, bnames = []\<rparr>"

definition HOUR :: field_bounds where
  "HOUR = \<lparr>bmin = 0, bmax = 23, bnames = []\<rparr>"

definition DOM :: field_bounds where
  "DOM = \<lparr>bmin = 1, bmax = 31, bnames = []\<rparr>"

definition MONTH :: field_bounds where
  "MONTH = \<lparr>bmin = 1, bmax = 12, bnames = MONTH_NAMES\<rparr>"

definition DOW :: field_bounds where
  "DOW = \<lparr>bmin = 0, bmax = 6, bnames = DOW_NAMES\<rparr>"

lemmas bounds_defs = MINUTE_def HOUR_def DOM_def MONTH_def DOW_def

section \<open>One part of a field\<close>

record range_part =
  rlo :: int
  rhi :: int
  rstep :: int
  wildcard :: bool
  stepped :: bool
  explicitRange :: bool

definition fieldValue :: "string \<Rightarrow> field_bounds \<Rightarrow> int option" where
  "fieldValue s b =
     (case map_of (bnames b) (map upcase s) of
        Some named \<Rightarrow> Some named
      | None \<Rightarrow>
          if \<not> all_digits s then None
          else (case safe_number s of
                  None \<Rightarrow> None
                | Some n \<Rightarrow> if n < bmin b \<or> n > bmax b then None else Some n))"

text \<open>The step: 1 when none was written, \<open>None\<close> when what was written is not a positive safe integer.\<close>

definition step_value :: "string option \<Rightarrow> int option" where
  "step_value stepStr =
     (case stepStr of
        None \<Rightarrow> Some 1
      | Some s \<Rightarrow>
          if \<not> all_digits s then None
          else (case safe_number s of None \<Rightarrow> None | Some n \<Rightarrow> if n < 1 then None else Some n))"

text \<open>Array destructuring \<open>[a, b, ...rest]\<close> of a non-empty array.\<close>

definition destruct2 :: "'a list \<Rightarrow> 'a \<times> 'a option \<times> 'a list" where
  "destruct2 xs = (hd xs, (if length xs > 1 then Some (xs ! 1) else None), drop 2 xs)"

definition parseRangePart :: "string \<Rightarrow> field_bounds \<Rightarrow> range_part option" where
  "parseRangePart part b =
     (let (rangeStr, stepStr, more) = destruct2 (split_on CHR ''/'' part) in
      if more \<noteq> [] \<or> rangeStr = [] then None
      else (case step_value stepStr of
        None \<Rightarrow> None
      | Some st \<Rightarrow>
          if rangeStr = ''*'' then
            Some \<lparr>rlo = bmin b, rhi = bmax b, rstep = st, wildcard = True,
                  stepped = (stepStr \<noteq> None), explicitRange = False\<rparr>
          else
            (let (loStr, hiStr, moreRange) = destruct2 (split_on CHR ''-'' rangeStr) in
             if moreRange \<noteq> [] \<or> loStr = [] then None
             else (case fieldValue loStr b of
               None \<Rightarrow> None
             | Some lo \<Rightarrow>
                 (case (case hiStr of
                          None \<Rightarrow> Some (if stepStr \<noteq> None then bmax b else lo)
                        | Some h \<Rightarrow> fieldValue h b) of
                    None \<Rightarrow> None
                  | Some hi \<Rightarrow>
                      if hi < lo then None
                      else Some \<lparr>rlo = lo, rhi = hi, rstep = st, wildcard = False,
                                 stepped = (stepStr \<noteq> None), explicitRange = (hiStr \<noteq> None)\<rparr>)))))"

definition plainValue :: "string \<Rightarrow> field_bounds \<Rightarrow> int option" where
  "plainValue field b =
     (case parseRangePart field b of
        None \<Rightarrow> None
      | Some r \<Rightarrow> if wildcard r \<or> stepped r \<or> explicitRange r then None else Some (rlo r))"

section \<open>Day sets\<close>

text \<open>\<open>for (let d = lo; d <= hi; d += step)\<close>, for a positive step.\<close>

function step_range :: "int \<Rightarrow> int \<Rightarrow> int \<Rightarrow> int list" where
  "step_range lo hi st = (if lo \<le> hi \<and> 0 < st then lo # step_range (lo + st) hi st else [])"
  by pat_completeness auto
termination by (relation "measure (\<lambda>(lo, hi, st). nat (hi - lo + 1))") auto

declare step_range.simps [simp del]

fun expandDow_parts :: "string list \<Rightarrow> int list option" where
  "expandDow_parts [] = Some []"
| "expandDow_parts (part # parts) =
     (case parseRangePart part DOW of
        None \<Rightarrow> None
      | Some r \<Rightarrow>
          map_option (\<lambda>ds. step_range (rlo r) (rhi r) (rstep r) @ ds) (expandDow_parts parts))"

definition expandDow :: "string \<Rightarrow> int list option" where
  "expandDow field =
     (case expandDow_parts (split_on CHR '','' field) of
        None \<Rightarrow> None
      | Some ds \<Rightarrow> if ds = [] then None else Some (sort (remdups ds)))"

text \<open>The maximal runs: \<open>run_end\<close> is the inner loop, which returns the last day of the run and
  what follows it.\<close>

fun run_end :: "int \<Rightarrow> int list \<Rightarrow> int \<times> int list" where
  "run_end x [] = (x, [])"
| "run_end x (y # ys) = (if y = x + 1 then run_end y ys else (x, y # ys))"

lemma run_end_length: "length (snd (run_end x ys)) \<le> length ys"
  by (induction ys arbitrary: x) (auto simp: le_SucI)

function runs_of :: "int list \<Rightarrow> (int \<times> int) list" where
  "runs_of [] = []"
| "runs_of (x # xs) = (x, fst (run_end x xs)) # runs_of (snd (run_end x xs))"
  by pat_completeness auto
termination
  by (relation "measure length") (auto simp: less_Suc_eq_le run_end_length)

definition consecutiveRuns :: "int list \<Rightarrow> (int \<times> int) list" where
  "consecutiveRuns days = runs_of (sort (remdups days))"

definition run_text :: "int \<times> int \<Rightarrow> string" where
  "run_text p =
     (if fst p < snd p then string_of_int (fst p) @ ''-'' @ string_of_int (snd p)
      else string_of_int (fst p))"

definition dowFieldFromDays :: "int list \<Rightarrow> string" where
  "dowFieldFromDays days = join '','' (map run_text (consecutiveRuns days))"

section \<open>Normalisation\<close>

text \<open>\<open>replace(/\+?\d+/g, ...)\<close>: each number, with its plus sign, becomes its canonical
  form; a number past the safe range is left as it is.\<close>

definition canonical_number :: "string \<Rightarrow> string \<Rightarrow> string" where
  "canonical_number num d = (case safe_number d of None \<Rightarrow> num | Some n \<Rightarrow> string_of_int n)"

function normalize_numbers :: "string \<Rightarrow> string" where
  "normalize_numbers [] = []"
| "normalize_numbers (c # cs) =
     (if is_digit c then
        canonical_number (takeWhile is_digit (c # cs)) (takeWhile is_digit (c # cs)) @
        normalize_numbers (dropWhile is_digit cs)
      else if c = CHR ''+'' \<and> takeWhile is_digit cs \<noteq> [] then
        canonical_number (c # takeWhile is_digit cs) (takeWhile is_digit cs) @
        normalize_numbers (dropWhile is_digit cs)
      else c # normalize_numbers cs)"
  by pat_completeness auto
termination by (relation "measure length") (auto intro: le_imp_less_Suc length_dropWhile_le)

declare normalize_numbers.simps(2) [simp del]

definition normalizeRange :: "string \<Rightarrow> string" where
  "normalizeRange part =
     (let slash = index_of CHR ''/'' part;
          range = (if slash = -1 then part else take (nat slash) part);
          st = (if slash = -1 then [] else drop (nat slash) part);
          low = hd (split_on CHR ''-'' range)
      in if low = ''*'' \<or> low = ''?'' then ''*'' @ st else part)"

definition normalizeField :: "string \<Rightarrow> string" where
  "normalizeField field =
     join '','' (map normalize_numbers (map normalizeRange
       (filter (\<lambda>part. length part > 0) (split_on CHR '','' field))))"

section \<open>The collapse rules\<close>

definition collapse_part :: "field_bounds \<Rightarrow> bool \<Rightarrow> string \<Rightarrow> string" where
  "collapse_part b rangeSlot part =
     (case parseRangePart part b of
        None \<Rightarrow> part
      | Some r \<Rightarrow>
          if rangeSlot \<and> \<not> stepped r then part
          else if rangeSlot \<and> explicitRange r \<and> rstep r \<le> bmax b then part
          else if rstep r > rhi r - rlo r then string_of_int (rlo r) else part)"

definition collapseDegenerateRange :: "string \<Rightarrow> field_bounds \<Rightarrow> bool \<Rightarrow> string" where
  "collapseDegenerateRange field b rangeSlot =
     join '','' (map (collapse_part b rangeSlot) (split_on CHR '','' field))"

definition collapseWildcardList :: "string \<Rightarrow> field_bounds \<Rightarrow> string" where
  "collapseWildcardList field b =
     (let parts = split_on CHR '','' field in
      if length parts < 2 then field
      else (let ranges = map (\<lambda>part. parseRangePart part b) parts in
            if list_ex (\<lambda>r. r = None) ranges then field
            else if list_ex (\<lambda>r. wildcard (the r) \<and> rstep (the r) = 1) ranges then ''*''
            else field))"

end
