(* ===== verification/Cron_Schedule.thy ===== *)
theory Cron_Schedule
  imports Cron_Field
begin

text \<open>
  The structured schedule (\<open>schedule-editor/model.ts\<close>), its parser and printer
  (\<open>cron-mapping.ts\<close>: \<open>parseCron\<close>, \<open>toCron\<close>, \<open>cronFields\<close>) and its readback (\<open>describe.ts\<close>).
  The zone canonicaliser of \<open>Intl\<close> is the parameter \<open>canon\<close>; the translations are the
  parameter \<open>t\<close>.
\<close>

section \<open>The model\<close>

datatype time_unit = Minutes | Hours

record time_window =
  wfrom :: string
  wto :: string

datatype time_pattern =
    At string
  | Every (interval: int) (unit_of: time_unit) (window: "time_window option") (minute_of: int)

datatype day_pattern = EveryDay | Weekly "int list" | Monthly int

record schedule_config =
  time :: time_pattern
  days :: day_pattern
  timezone :: string
  raw :: "string option"

definition getDefaultScheduleConfig :: "string \<Rightarrow> schedule_config" where
  "getDefaultScheduleConfig tz =
     \<lparr>time = At ''09:00'', days = EveryDay, timezone = tz, raw = None\<rparr>"

definition DAY_KEYS :: "string list" where
  "DAY_KEYS = [''sun'', ''mon'', ''tue'', ''wed'', ''thu'', ''fri'', ''sat'']"

definition pad2 :: "int \<Rightarrow> string" where
  "pad2 n = (let s = string_of_int n in replicate (2 - length s) CHR ''0'' @ s)"

text \<open>Hour and minute; a part that is not a number is \<open>NaN\<close>, here \<open>None\<close>.\<close>

definition timeParts :: "string \<Rightarrow> int option \<times> int option" where
  "timeParts tm =
     (let (h, m, more) = destruct2 (split_on CHR '':'' tm) in
      (parseInt h, parseInt (case m of None \<Rightarrow> ''0'' | Some s \<Rightarrow> s)))"

section \<open>Parsing\<close>

definition parseHourPattern :: "string \<Rightarrow> (int \<times> (int \<times> int) option) option" where
  "parseHourPattern field =
     (case parseRangePart field HOUR of
        None \<Rightarrow> None
      | Some r \<Rightarrow>
          if rstep r > bmax HOUR then None
          else (let spansDay = wildcard r \<or> (rlo r = bmin HOUR \<and> rhi r = bmax HOUR) in
                Some (rstep r, if spansDay then None else Some (rlo r, rhi r))))"

definition parseMinuteInterval :: "string \<Rightarrow> int option" where
  "parseMinuteInterval field =
     (case parseRangePart field MINUTE of
        None \<Rightarrow> None
      | Some r \<Rightarrow>
          if explicitRange r \<or> rstep r > bmax MINUTE then None
          else if rlo r \<noteq> bmin MINUTE then None
          else if \<not> stepped r \<and> \<not> wildcard r then None
          else Some (rstep r))"

definition clock :: "int \<Rightarrow> int \<Rightarrow> string" where
  "clock h m = pad2 h @ '':'' @ pad2 m"

definition parse_fixed_minute :: "int \<Rightarrow> string \<Rightarrow> time_pattern option" where
  "parse_fixed_minute m hourField =
     (case plainValue hourField HOUR of
        Some h \<Rightarrow> Some (At (clock h m))
      | None \<Rightarrow>
          (case parseHourPattern hourField of
             None \<Rightarrow> None
           | Some (n, rng) \<Rightarrow>
               Some (Every n Hours
                 (case rng of
                    None \<Rightarrow> None
                  | Some (lo, hi) \<Rightarrow> Some \<lparr>wfrom = clock lo m, wto = clock hi m\<rparr>) m)))"

definition parse_minute_interval :: "int \<Rightarrow> string \<Rightarrow> time_pattern option" where
  "parse_minute_interval n hourField =
     (case parseHourPattern hourField of
        None \<Rightarrow> None
      | Some (hour_interval, None) \<Rightarrow>
          if hour_interval \<noteq> 1 then None else Some (Every n Minutes None 0)
      | Some (hour_interval, Some (lo, hi)) \<Rightarrow>
          (let selectsOneHour = hour_interval > hi - lo in
           if \<not> selectsOneHour \<and> hour_interval \<noteq> 1 then None
           else Some (Every n Minutes
                  (Some \<lparr>wfrom = pad2 lo @ '':00'',
                         wto = pad2 (if selectsOneHour then lo else hi) @ '':59''\<rparr>) 0)))"

definition parseTimeFields :: "string \<Rightarrow> string \<Rightarrow> time_pattern option" where
  "parseTimeFields minuteField hourField =
     (case plainValue minuteField MINUTE of
        Some m \<Rightarrow> parse_fixed_minute m hourField
      | None \<Rightarrow>
          (case parseMinuteInterval minuteField of
             None \<Rightarrow> None
           | Some n \<Rightarrow> parse_minute_interval n hourField))"

definition parse_day_fields :: "string \<Rightarrow> string \<Rightarrow> day_pattern option" where
  "parse_day_fields domField dowField =
     (if domField = ''*'' then
        if dowField = ''*'' then Some EveryDay
        else map_option Weekly (expandDow dowField)
      else if dowField \<noteq> ''*'' then None
      else map_option Monthly (plainValue domField DOM))"

definition hasTimezonePrefix :: "string \<Rightarrow> bool" where
  "hasTimezonePrefix s \<longleftrightarrow> starts_with s ''TZ='' \<or> starts_with s ''CRON_TZ=''"

definition extractTimezonePrefix ::
    "(string \<Rightarrow> string option) \<Rightarrow> string \<Rightarrow> (string \<times> string) option" where
  "extractTimezonePrefix canon expr =
     (if \<not> hasTimezonePrefix expr then None
      else (let space = index_of CHR '' '' expr in
        if space = -1 then None
        else (let name = slice_from (slice_to expr space) (index_of CHR ''='' expr + 1);
                  rest = trim (slice_from expr space) in
          if length rest = 0 then None
          else if hasTimezonePrefix rest then None
          else map_option (\<lambda>z. (z, rest)) (canon (if name = [] then ''UTC'' else name)))))"

text \<open>The five fields of the text, normalised and collapsed; \<open>None\<close> when there are not five.\<close>

definition split_fields :: "string \<Rightarrow> (string \<times> string \<times> string \<times> string \<times> string) option" where
  "split_fields body =
     (case map normalizeField (split_ws (trim body)) of
        [mi, h, dm, mon, dow] \<Rightarrow>
          Some (collapseDegenerateRange (collapseWildcardList mi MINUTE) MINUTE False,
                collapseDegenerateRange (collapseWildcardList h HOUR) HOUR True,
                collapseDegenerateRange (collapseWildcardList dm DOM) DOM False,
                collapseWildcardList mon MONTH,
                collapseWildcardList dow DOW)
      | _ \<Rightarrow> None)"

definition parse_structured :: "string \<Rightarrow> (time_pattern \<times> day_pattern) option" where
  "parse_structured body =
     (case split_fields body of
        None \<Rightarrow> None
      | Some (mi, h, dm, mon, dow) \<Rightarrow>
          if mon \<noteq> ''*'' then None
          else (case parse_day_fields dm dow of
            None \<Rightarrow> None
          | Some d \<Rightarrow> map_option (\<lambda>t. (t, d)) (parseTimeFields mi h)))"

definition parseCron :: "(string \<Rightarrow> string option) \<Rightarrow> string \<Rightarrow> string \<Rightarrow> schedule_config" where
  "parseCron canon expr tz0 =
     (let prefix = extractTimezonePrefix canon expr;
          tz = (case prefix of None \<Rightarrow> tz0 | Some p \<Rightarrow> fst p);
          body = (case prefix of None \<Rightarrow> expr | Some p \<Rightarrow> snd p)
      in (case parse_structured body of
            None \<Rightarrow> (getDefaultScheduleConfig tz)\<lparr>raw := Some body\<rparr>
          | Some (t, d) \<Rightarrow> \<lparr>time = t, days = d, timezone = tz, raw = None\<rparr>))"

section \<open>Printing\<close>

text \<open>\<open>===\<close> on numbers: \<open>NaN\<close> differs from itself.\<close>

definition num_eq :: "int option \<Rightarrow> int option \<Rightarrow> bool" where
  "num_eq a b \<longleftrightarrow> a \<noteq> None \<and> a = b"

definition day_fields :: "day_pattern \<Rightarrow> string \<times> string" where
  "day_fields d =
     (case d of
        EveryDay \<Rightarrow> (''*'', ''*'')
      | Monthly n \<Rightarrow> (string_of_int n, ''*'')
      | Weekly ds \<Rightarrow> (''*'', if length ds > 0 then dowFieldFromDays ds else ''1''))"

definition time_fields :: "time_pattern \<Rightarrow> string \<times> string" where
  "time_fields tp =
     (case tp of
        At tm \<Rightarrow>
          (string_of_number (snd (timeParts tm)), string_of_number (fst (timeParts tm)))
      | Every n Hours None m \<Rightarrow>
          (string_of_int m, if n = 1 then ''*'' else ''*/'' @ string_of_int n)
      | Every n Hours (Some w) m \<Rightarrow>
          (let (fh, fm) = timeParts (wfrom w); (th, tm) = timeParts (wto w);
               rng = string_of_number fh @ ''-'' @ string_of_number th
           in (string_of_number fm, if n = 1 then rng else rng @ ''/'' @ string_of_int n))
      | Every n Minutes win m \<Rightarrow>
          (if n = 1 then ''*'' else ''*/'' @ string_of_int n,
           case win of
             None \<Rightarrow> ''*''
           | Some w \<Rightarrow>
               (let fh = fst (timeParts (wfrom w)); th = fst (timeParts (wto w)) in
                if num_eq fh th then string_of_number fh
                else string_of_number fh @ ''-'' @ string_of_number th)))"

definition cronFields :: "schedule_config \<Rightarrow> string" where
  "cronFields c =
     (case raw c of
        Some s \<Rightarrow> s
      | None \<Rightarrow>
          (let (dm, dow) = day_fields (days c); (mi, h) = time_fields (time c) in
           join '' '' [mi, h, dm, ''*'', dow]))"

definition toCron :: "schedule_config \<Rightarrow> string" where
  "toCron c =
     (let fields = cronFields c in
      if hasTimezonePrefix fields then fields
      else if fields = [] \<or> fields \<noteq> trim fields then fields
      else if timezone c = [] \<or> CHR '' '' \<in> set (timezone c) then fields
      else ''TZ='' @ timezone c @ '' '' @ fields)"

section \<open>Readback\<close>

text \<open>The messages of the catalogue, with their arguments.\<close>

datatype message =
    DaysLong "string option"
  | DaysRange string string
  | DaysJoin
  | TimeAt string
  | TimeEveryHour string
  | TimeEveryHours int string
  | TimeEveryHourWindow
  | TimeEveryHoursWindow int
  | Window string string
  | TimeEveryMinute
  | TimeEveryMinutes int
  | DaysEvery
  | DaysMonthly int

definition run_names :: "(message \<Rightarrow> string) \<Rightarrow> int \<times> int \<Rightarrow> string list" where
  "run_names t p =
     (let name = (\<lambda>d. t (DaysLong (at_index DAY_KEYS d))) in
      if snd p - fst p \<ge> 2 then [t (DaysRange (name (fst p)) (name (snd p)))]
      else map name (step_range (fst p) (snd p) 1))"

definition formatDayList :: "(message \<Rightarrow> string) \<Rightarrow> int list \<Rightarrow> string" where
  "formatDayList t ds = join (t DaysJoin) (concat (map (run_names t) (consecutiveRuns ds)))"

definition time_clauses :: "(message \<Rightarrow> string) \<Rightarrow> time_pattern \<Rightarrow> string list" where
  "time_clauses t tp =
     (case tp of
        At tm \<Rightarrow> [t (TimeAt tm)]
      | Every n Hours None m \<Rightarrow>
          [if n = 1 then t (TimeEveryHour (pad2 m)) else t (TimeEveryHours n (pad2 m))]
      | Every n Hours (Some w) m \<Rightarrow>
          [if n = 1 then t TimeEveryHourWindow else t (TimeEveryHoursWindow n),
           t (Window (wfrom w) (wto w))]
      | Every n Minutes win m \<Rightarrow>
          (if n = 1 then t TimeEveryMinute else t (TimeEveryMinutes n)) #
          (case win of None \<Rightarrow> [] | Some w \<Rightarrow> [t (Window (wfrom w) (wto w))]))"

definition day_clause :: "(message \<Rightarrow> string) \<Rightarrow> day_pattern \<Rightarrow> string" where
  "day_clause t d =
     (case d of
        EveryDay \<Rightarrow> t DaysEvery
      | Weekly ds \<Rightarrow> formatDayList t ds
      | Monthly n \<Rightarrow> t (DaysMonthly n))"

definition describeSchedule :: "(message \<Rightarrow> string) \<Rightarrow> schedule_config \<Rightarrow> string option" where
  "describeSchedule t c =
     (case raw c of
        Some s \<Rightarrow> None
      | None \<Rightarrow>
          Some (join [CHR '' '', char_of (183 :: nat), CHR '' '']
                 (time_clauses t (time c) @ [day_clause t (days c)])))"

section \<open>Submitting\<close>

text \<open>The server's verdict on a preview request, and what the submit gate makes of it
  (\<open>validate.ts\<close>).\<close>

datatype preview_outcome =
    Fetched
  | ApiError int "string option" string
  | OtherError

datatype rejection_code = InvalidCron | InvalidTimezone

record schedule_rejection =
  code :: rejection_code
  detail :: string

definition classifyScheduleRejection :: "string option \<Rightarrow> string \<Rightarrow> schedule_rejection" where
  "classifyScheduleRejection body_code msg =
     \<lparr>code = (if body_code = Some ''invalid_timezone'' then InvalidTimezone else InvalidCron),
      detail = msg\<rparr>"

definition findScheduleRejection ::
    "(string \<Rightarrow> string \<Rightarrow> preview_outcome) \<Rightarrow> schedule_config \<Rightarrow> schedule_rejection option" where
  "findScheduleRejection fetchQuery c =
     (case fetchQuery (toCron c) (timezone c) of
        Fetched \<Rightarrow> None
      | OtherError \<Rightarrow> None
      | ApiError st bc msg \<Rightarrow>
          if st \<noteq> 400 then None else Some (classifyScheduleRejection bc msg))"

text \<open>\<open>ensureAccepted\<close>: the gate's new validity and whether the write may go on.\<close>

definition ensureAccepted ::
    "(string \<Rightarrow> string \<Rightarrow> preview_outcome) \<Rightarrow> schedule_config \<Rightarrow> bool \<Rightarrow> bool \<times> bool" where
  "ensureAccepted fetchQuery c scheduleValid =
     (case findScheduleRejection fetchQuery c of
        None \<Rightarrow> (scheduleValid, True)
      | Some r \<Rightarrow> (False, False))"

end
