(* ===== verification/Cron_Field_Facts.thy ===== *)
theory Cron_Field_Facts
  imports Cron_Field
begin

text \<open>
  What the field grammar guarantees: the shape and the bounds of every part it accepts, the
  texts the printer uses, the set of values a field selects, and that neither collapse rule
  changes that set or the star that decides between dom AND dow and dom OR dow.
\<close>

section \<open>The parts the grammar accepts\<close>

definition bounds_ok :: "field_bounds \<Rightarrow> bool" where
  "bounds_ok b \<longleftrightarrow>
     0 \<le> bmin b \<and> bmin b < bmax b \<and> bmax b \<le> 59 \<and>
     (\<forall>(s, v) \<in> set (bnames b).
        bmin b \<le> v \<and> v \<le> bmax b \<and> s \<noteq> [] \<and>
        list_all (\<lambda>c. \<not> is_digit c \<and> c \<noteq> CHR '','') s)"

lemma bounds_ok_fields [simp]:
  "bounds_ok MINUTE" "bounds_ok HOUR" "bounds_ok DOM" "bounds_ok MONTH" "bounds_ok DOW"
  by (simp_all add: bounds_ok_def bounds_defs MONTH_NAMES_def DOW_NAMES_def is_digit_def)

lemma bounds_values [simp]:
  "bmin MINUTE = 0" "bmax MINUTE = 59" "bmin HOUR = 0" "bmax HOUR = 23" "bmin DOM = 1"
  "bmax DOM = 31" "bmin MONTH = 1" "bmax MONTH = 12" "bmin DOW = 0" "bmax DOW = 6"
  by (simp_all add: bounds_defs)

definition part_ok :: "field_bounds \<Rightarrow> range_part \<Rightarrow> bool" where
  "part_ok b r \<longleftrightarrow>
     bmin b \<le> rlo r \<and> rlo r \<le> rhi r \<and> rhi r \<le> bmax b \<and> 1 \<le> rstep r \<and>
     (\<not> stepped r \<longrightarrow> rstep r = 1) \<and>
     (wildcard r \<longrightarrow> rlo r = bmin b \<and> rhi r = bmax b \<and> \<not> explicitRange r) \<and>
     (\<not> wildcard r \<longrightarrow> \<not> explicitRange r \<longrightarrow> rhi r = (if stepped r then bmax b else rlo r))"

lemma destruct2_simps [simp]:
  "destruct2 [a] = (a, None, [])"
  "destruct2 [a, b] = (a, Some b, [])"
  "destruct2 (a # b # c # ds) = (a, Some b, c # ds)"
  by (simp_all add: destruct2_def)

lemma split_on_cases:
  obtains a where "split_on c s = [a]" "s = a" "c \<notin> set s"
  | a b where "split_on c s = [a, b]" "s = a @ c # b"
  | a b d ds where "split_on c s = a # b # d # ds"
proof -
  have j: "join [c] (split_on c s) = s" by (rule join_split_on)
  consider a where "split_on c s = [a]" | a b where "split_on c s = [a, b]"
    | a b d ds where "split_on c s = a # b # d # ds"
    using split_on_not_Nil [of c s] by (metis list.exhaust)
  then show ?thesis
  proof cases
    case (1 a)
    then show ?thesis using j split_on_no_sep [of a c s] that(1) by simp
  next
    case (2 a b)
    show ?thesis by (rule that(2) [OF 2]) (use j 2 in simp)
  next
    case 3
    then show ?thesis using that(3) by blast
  qed
qed

lemma fieldValue_bounds: "bounds_ok b \<Longrightarrow> fieldValue s b = Some v \<Longrightarrow> bmin b \<le> v \<and> v \<le> bmax b"
  by (auto simp: fieldValue_def bounds_ok_def split: option.splits if_splits dest!: map_of_SomeD)

lemma upcase_comma [simp]: "upcase (CHR '','') = CHR '',''"
  by (simp add: upcase_def)

lemma digits_no_comma: "all_digits s \<Longrightarrow> CHR '','' \<notin> set s"
proof -
  assume "all_digits s"
  then have "\<forall>c \<in> set s. is_digit c" by (simp add: all_digits_def list_all_iff)
  moreover have "\<not> is_digit (CHR '','')" by (simp add: is_digit_def)
  ultimately show ?thesis by blast
qed

lemma bounds_ok_name:
  "bounds_ok b \<Longrightarrow> (s, v) \<in> set (bnames b) \<Longrightarrow>
    bmin b \<le> v \<and> v \<le> bmax b \<and> s \<noteq> [] \<and> (\<forall>c \<in> set s. \<not> is_digit c \<and> c \<noteq> CHR '','')"
  unfolding bounds_ok_def list_all_iff by blast

lemma fieldValue_chars:
  assumes "bounds_ok b" "fieldValue s b = Some v"
  shows "CHR '','' \<notin> set s" "s \<noteq> []"
proof -
  have "CHR '','' \<notin> set s \<and> s \<noteq> []"
  proof (cases "map_of (bnames b) (map upcase s)")
    case None
    then have "all_digits s" using assms(2) by (simp add: fieldValue_def split: if_splits)
    then show ?thesis using digits_no_comma by (simp add: all_digits_def)
  next
    case (Some n)
    then have "(map upcase s, n) \<in> set (bnames b)" by (rule map_of_SomeD)
    note name = bounds_ok_name [OF assms(1) this]
    have "CHR '','' \<notin> set (map upcase s)" using name by blast
    moreover have "CHR '','' \<in> set s \<Longrightarrow> CHR '','' \<in> set (map upcase s)"
      using imageI [of "CHR '',''" "set s" upcase] by simp
    ultimately show ?thesis using name by simp blast
  qed
  then show "CHR '','' \<notin> set s" "s \<noteq> []" by auto
qed

lemma step_value_ge: "step_value st = Some n \<Longrightarrow> 1 \<le> n \<and> (st = None \<longrightarrow> n = 1)"
  by (simp add: step_value_def split: option.splits if_splits)

lemma step_value_no_comma: "step_value (Some s) = Some n \<Longrightarrow> CHR '','' \<notin> set s"
  using digits_no_comma [of s] by (simp add: step_value_def split: if_splits)

text \<open>The range of a part: a wildcard, a value or a pair of values.\<close>

definition range_ends :: "string \<Rightarrow> bool \<Rightarrow> field_bounds \<Rightarrow> (int \<times> int \<times> bool) option" where
  "range_ends rs st b =
     (let (loStr, hiStr, more) = destruct2 (split_on CHR ''-'' rs) in
      if more \<noteq> [] \<or> loStr = [] then None
      else (case fieldValue loStr b of
        None \<Rightarrow> None
      | Some lo \<Rightarrow>
          (case (case hiStr of None \<Rightarrow> Some (if st then bmax b else lo)
                 | Some h \<Rightarrow> fieldValue h b) of
             None \<Rightarrow> None
           | Some hi \<Rightarrow> if hi < lo then None else Some (lo, hi, hiStr \<noteq> None))))"

definition part_of :: "string \<Rightarrow> string option \<Rightarrow> field_bounds \<Rightarrow> range_part option" where
  "part_of rs st b =
     (if rs = [] then None
      else (case step_value st of
        None \<Rightarrow> None
      | Some n \<Rightarrow>
          if rs = ''*'' then
            Some \<lparr>rlo = bmin b, rhi = bmax b, rstep = n, wildcard = True,
                  stepped = (st \<noteq> None), explicitRange = False\<rparr>
          else map_option (\<lambda>(lo, hi, ex). \<lparr>rlo = lo, rhi = hi, rstep = n, wildcard = False,
                  stepped = (st \<noteq> None), explicitRange = ex\<rparr>) (range_ends rs (st \<noteq> None) b)))"

lemma parseRangePart_eq:
  "parseRangePart p b =
     (case split_on CHR ''/'' p of
        [rs] \<Rightarrow> part_of rs None b
      | [rs, s] \<Rightarrow> part_of rs (Some s) b
      | _ \<Rightarrow> None)"
proof (cases rule: split_on_cases [of "CHR ''/''" p])
  case (1 a)
  show ?thesis unfolding parseRangePart_def 1(1)
    by (auto simp: part_of_def range_ends_def Let_def split: option.splits prod.splits)
next
  case (2 a c)
  show ?thesis unfolding parseRangePart_def 2(1)
    by (auto simp: part_of_def range_ends_def Let_def split: option.splits prod.splits)
next
  case 3
  show ?thesis unfolding parseRangePart_def 3 by simp
qed

lemma range_ends_ok:
  assumes "bounds_ok b" "range_ends rs st b = Some (lo, hi, ex)"
  shows "bmin b \<le> lo" "lo \<le> hi" "hi \<le> bmax b" "CHR '','' \<notin> set rs"
    "\<not> ex \<longrightarrow> hi = (if st then bmax b else lo)"
proof -
  have "bmin b \<le> lo \<and> lo \<le> hi \<and> hi \<le> bmax b \<and> CHR '','' \<notin> set rs \<and>
      (\<not> ex \<longrightarrow> hi = (if st then bmax b else lo))"
  proof (cases rule: split_on_cases [of "CHR ''-''" rs])
    case (1 a)
    then have v: "fieldValue rs b = Some lo" "lo \<le> hi" "hi = (if st then bmax b else lo)"
      using assms(2) unfolding range_ends_def 1(1) by (auto split: option.splits if_splits)
    then show ?thesis
      using fieldValue_bounds [OF assms(1) v(1)] fieldValue_chars [OF assms(1) v(1)] by auto
  next
    case (2 a c)
    then have v: "fieldValue a b = Some lo" "fieldValue c b = Some hi" "lo \<le> hi" "ex"
      using assms(2) unfolding range_ends_def 2(1) by (auto split: option.splits if_splits)
    then show ?thesis
      using fieldValue_bounds [OF assms(1) v(1)] fieldValue_chars [OF assms(1) v(1)]
        fieldValue_bounds [OF assms(1) v(2)] fieldValue_chars [OF assms(1) v(2)] 2(2) by auto
  next
    case 3
    then show ?thesis using assms(2) unfolding range_ends_def 3 by simp
  qed
  then show "bmin b \<le> lo" "lo \<le> hi" "hi \<le> bmax b" "CHR '','' \<notin> set rs"
    "\<not> ex \<longrightarrow> hi = (if st then bmax b else lo)" by auto
qed

lemma part_of_ok:
  assumes "bounds_ok b" "part_of rs st b = Some r"
  shows "part_ok b r" "CHR '','' \<notin> set rs" "step_value st = Some (rstep r)"
proof -
  obtain n where n: "step_value st = Some n" "rs \<noteq> []"
    using assms(2) by (auto simp: part_of_def split: if_splits option.splits)
  have "part_ok b r \<and> CHR '','' \<notin> set rs \<and> rstep r = n"
  proof (cases "rs = ''*''")
    case True
    then show ?thesis using assms n step_value_ge [OF n(1)]
      by (auto simp: part_of_def part_ok_def bounds_ok_def)
  next
    case False
    then obtain lo hi ex where e: "range_ends rs (st \<noteq> None) b = Some (lo, hi, ex)"
      "r = \<lparr>rlo = lo, rhi = hi, rstep = n, wildcard = False, stepped = (st \<noteq> None),
             explicitRange = ex\<rparr>"
      using assms(2) n by (auto simp: part_of_def)
    show ?thesis using range_ends_ok [OF assms(1) e(1)] step_value_ge [OF n(1)] e(2)
      by (auto simp: part_ok_def)
  qed
  then show "part_ok b r" "CHR '','' \<notin> set rs" "step_value st = Some (rstep r)" using n by auto
qed

lemma parseRangePart_ok:
  assumes "bounds_ok b" "parseRangePart p b = Some r"
  shows "part_ok b r" "CHR '','' \<notin> set p"
proof -
  have "part_ok b r \<and> CHR '','' \<notin> set p"
  proof (cases rule: split_on_cases [of "CHR ''/''" p])
    case (1 a)
    then have "part_of a None b = Some r" using assms(2) by (simp add: parseRangePart_eq)
    then show ?thesis using part_of_ok [OF assms(1)] 1(2) by blast
  next
    case (2 a c)
    then have r: "part_of a (Some c) b = Some r" using assms(2) by (simp add: parseRangePart_eq)
    have "CHR '','' \<notin> set c" using part_of_ok(3) [OF assms(1) r] by (rule step_value_no_comma)
    then show ?thesis using part_of_ok(1,2) [OF assms(1) r] 2(2) by auto
  next
    case 3
    then show ?thesis using assms(2) by (simp add: parseRangePart_eq)
  qed
  then show "part_ok b r" "CHR '','' \<notin> set p" by auto
qed

section \<open>The texts of the printer\<close>

lemma upcase_digit: "is_digit c \<Longrightarrow> upcase c = c"
  by (auto simp: is_digit_def upcase_def)

lemma fieldValue_number:
  assumes "bounds_ok b" "bmin b \<le> v" "v \<le> bmax b" "all_digits s" "int (digits_value s) = v"
  shows "fieldValue s b = Some v"
proof -
  have "map_of (bnames b) (map upcase s) = None"
  proof (cases "map_of (bnames b) (map upcase s)")
    case (Some n)
    then have "(map upcase s, n) \<in> set (bnames b)" by (rule map_of_SomeD)
    note name = bounds_ok_name [OF assms(1) this]
    obtain c cs where c: "s = c # cs" "is_digit c"
      using assms(4) by (cases s) (auto simp: all_digits_def)
    have "upcase c \<in> set (map upcase s)" by (simp add: c(1))
    then have "\<not> is_digit (upcase c)" using name by blast
    then show ?thesis using c(2) upcase_digit [OF c(2)] by simp
  qed simp
  moreover have "v \<le> 59" using assms(1,3) by (simp add: bounds_ok_def)
  ultimately show ?thesis
    using assms by (simp add: fieldValue_def safe_number_def MAX_SAFE_INTEGER_def)
qed

lemma fieldValue_string [simp]:
  "bounds_ok b \<Longrightarrow> bmin b \<le> v \<Longrightarrow> v \<le> bmax b \<Longrightarrow> fieldValue (string_of_nat (nat v)) b = Some v"
  by (rule fieldValue_number) (auto simp: bounds_ok_def)

lemma step_value_string [simp]:
  "1 \<le> n \<Longrightarrow> n \<le> MAX_SAFE_INTEGER \<Longrightarrow> step_value (Some (string_of_nat (nat n))) = Some n"
  by (simp add: step_value_def safe_number_def)

lemma string_of_nat_not_star [simp]: "string_of_nat n \<noteq> ''*''" "string_of_nat n @ s \<noteq> ''*''"
  "string_of_nat n @ c # s \<noteq> ''*''"
proof -
  have "string_of_nat n @ s \<noteq> ''*''" for s
  proof
    assume "string_of_nat n @ s = ''*''"
    then have "CHR ''*'' \<in> set (string_of_nat n)"
      using string_of_nat_not_Nil [of n] by (cases "string_of_nat n") auto
    then show False by simp
  qed
  from this [of "[]"] this [of s] this [of "c # s"]
  show "string_of_nat n \<noteq> ''*''" "string_of_nat n @ s \<noteq> ''*''" "string_of_nat n @ c # s \<noteq> ''*''"
    by simp_all
qed

lemma parse_star [simp]:
  "parseRangePart ''*'' b =
     Some \<lparr>rlo = bmin b, rhi = bmax b, rstep = 1, wildcard = True, stepped = False,
           explicitRange = False\<rparr>"
  by (simp add: parseRangePart_eq part_of_def step_value_def)

lemma parse_star_step:
  "1 \<le> n \<Longrightarrow> n \<le> MAX_SAFE_INTEGER \<Longrightarrow> parseRangePart (''*/'' @ string_of_nat (nat n)) b =
     Some \<lparr>rlo = bmin b, rhi = bmax b, rstep = n, wildcard = True, stepped = True,
           explicitRange = False\<rparr>"
  by (simp add: parseRangePart_eq part_of_def)

lemma parse_value:
  "bounds_ok b \<Longrightarrow> bmin b \<le> v \<Longrightarrow> v \<le> bmax b \<Longrightarrow> parseRangePart (string_of_nat (nat v)) b =
     Some \<lparr>rlo = v, rhi = v, rstep = 1, wildcard = False, stepped = False,
           explicitRange = False\<rparr>"
  by (simp add: parseRangePart_eq part_of_def range_ends_def step_value_def)

lemma parse_range:
  "bounds_ok b \<Longrightarrow> bmin b \<le> lo \<Longrightarrow> lo \<le> hi \<Longrightarrow> hi \<le> bmax b \<Longrightarrow>
   parseRangePart (string_of_nat (nat lo) @ CHR ''-'' # string_of_nat (nat hi)) b =
     Some \<lparr>rlo = lo, rhi = hi, rstep = 1, wildcard = False, stepped = False,
           explicitRange = True\<rparr>"
  by (simp add: parseRangePart_eq part_of_def range_ends_def step_value_def)

lemma parse_range_step:
  assumes "bounds_ok b" "bmin b \<le> lo" "lo \<le> hi" "hi \<le> bmax b" "1 \<le> n" "n \<le> MAX_SAFE_INTEGER"
  shows "parseRangePart
      (string_of_nat (nat lo) @ CHR ''-'' # string_of_nat (nat hi) @ CHR ''/'' # string_of_nat (nat n)) b =
     Some \<lparr>rlo = lo, rhi = hi, rstep = n, wildcard = False, stepped = True,
           explicitRange = True\<rparr>"
proof -
  have "split_on CHR ''/''
      ((string_of_nat (nat lo) @ CHR ''-'' # string_of_nat (nat hi)) @ CHR ''/'' # string_of_nat (nat n)) =
      [string_of_nat (nat lo) @ CHR ''-'' # string_of_nat (nat hi), string_of_nat (nat n)]"
    by (subst split_on_append) simp_all
  then show ?thesis using assms by (simp add: parseRangePart_eq part_of_def range_ends_def)
qed

section \<open>What a field selects\<close>

text \<open>The values of a part: every \<open>step\<close>-th one of its range.\<close>

definition part_vals :: "range_part \<Rightarrow> int set" where
  "part_vals r = {v. rlo r \<le> v \<and> v \<le> rhi r \<and> rstep r dvd v - rlo r}"

text \<open>The star: a wildcard that steps by 1.\<close>

definition starred_part :: "range_part \<Rightarrow> bool" where
  "starred_part r \<longleftrightarrow> wildcard r \<and> rstep r = 1"

definition parts_meaning :: "field_bounds \<Rightarrow> string list \<Rightarrow> (int set \<times> bool) option" where
  "parts_meaning b ps =
     map_option (\<lambda>rs. (\<Union> (part_vals ` set rs), list_ex starred_part rs))
       (those (map (\<lambda>p. parseRangePart p b) ps))"

text \<open>The set a field selects and whether it carries a star; \<open>None\<close> when a part is malformed.\<close>

definition field_meaning :: "string \<Rightarrow> field_bounds \<Rightarrow> (int set \<times> bool) option" where
  "field_meaning field b = parts_meaning b (split_on CHR '','' field)"

lemma those_Some_iff: "those xs = Some ys \<longleftrightarrow> xs = map Some ys"
proof (induction xs arbitrary: ys)
  case (Cons x xs)
  then show ?case by (cases x; cases ys) auto
qed auto

lemma parts_meaning_Nil [simp]: "parts_meaning b [] = Some ({}, False)"
  by (simp add: parts_meaning_def)

lemma parts_meaning_Cons:
  "parts_meaning b (p # ps) =
     (case parseRangePart p b of
        None \<Rightarrow> None
      | Some r \<Rightarrow>
          map_option (\<lambda>(vs, st). (part_vals r \<union> vs, starred_part r \<or> st)) (parts_meaning b ps))"
  by (cases "those (map (\<lambda>p. parseRangePart p b) ps)")
    (auto simp: parts_meaning_def split: option.splits)

lemma part_vals_point [simp]: "rlo r = rhi r \<Longrightarrow> part_vals r = {rlo r}"
  by (auto simp: part_vals_def)

lemma part_vals_wide: "rlo r \<le> rhi r \<Longrightarrow> rhi r - rlo r < rstep r \<Longrightarrow> part_vals r = {rlo r}"
  unfolding part_vals_def by (auto dest: zdvd_imp_le)

lemma part_vals_all: "rstep r = 1 \<Longrightarrow> part_vals r = {rlo r..rhi r}"
  by (auto simp: part_vals_def)

lemma part_vals_bounds: "part_ok b r \<Longrightarrow> part_vals r \<subseteq> {bmin b..bmax b}"
  by (auto simp: part_vals_def part_ok_def)

lemma part_vals_lo: "part_ok b r \<Longrightarrow> rlo r \<in> part_vals r"
  by (simp add: part_vals_def part_ok_def)

text \<open>A collapsed part selects what the part selects.\<close>

lemma collapse_part_meaning:
  assumes "bounds_ok b" "parseRangePart p b = Some r"
  shows "\<exists>r'. parseRangePart (collapse_part b slot p) b = Some r' \<and>
           part_vals r' = part_vals r \<and> starred_part r' = starred_part r"
proof (cases "collapse_part b slot p = p")
  case False
  then have c: "collapse_part b slot p = string_of_int (rlo r)" "rhi r - rlo r < rstep r"
    using assms(2) by (auto simp: collapse_part_def split: if_splits)
  have ok: "part_ok b r" by (rule parseRangePart_ok(1) [OF assms])
  then have lo: "bmin b \<le> rlo r" "rlo r \<le> bmax b" "0 \<le> rlo r"
    using assms(1) by (auto simp: part_ok_def bounds_ok_def)
  have "\<not> starred_part r"
    using ok assms(1) c(2) by (auto simp: starred_part_def part_ok_def bounds_ok_def)
  moreover have "part_vals r = {rlo r}"
    using ok c(2) by (intro part_vals_wide) (auto simp: part_ok_def)
  ultimately show ?thesis
    using parse_value [OF assms(1) lo(1,2)] lo c(1) by (auto simp: starred_part_def)
qed (use assms in auto)

lemma collapse_part_None: "parseRangePart p b = None \<Longrightarrow> collapse_part b slot p = p"
  by (simp add: collapse_part_def)

lemma collapse_parts_meaning:
  "bounds_ok b \<Longrightarrow> parts_meaning b (map (collapse_part b slot) ps) = parts_meaning b ps"
proof (induction ps)
  case (Cons p ps)
  show ?case
  proof (cases "parseRangePart p b")
    case None
    then show ?thesis by (simp add: parts_meaning_Cons collapse_part_None)
  next
    case (Some r)
    then obtain r' where "parseRangePart (collapse_part b slot p) b = Some r'"
      "part_vals r' = part_vals r" "starred_part r' = starred_part r"
      using collapse_part_meaning [OF Cons.prems Some] by blast
    then show ?thesis using Cons Some by (simp add: parts_meaning_Cons)
  qed
qed simp

lemma collapse_part_no_comma:
  "bounds_ok b \<Longrightarrow> CHR '','' \<notin> set p \<Longrightarrow> CHR '','' \<notin> set (collapse_part b slot p)"
proof -
  assume b: "bounds_ok b" "CHR '','' \<notin> set p"
  have "CHR '','' \<notin> set (string_of_int (rlo r))" if "parseRangePart p b = Some r" for r
    using parseRangePart_ok(1) [OF b(1) that] b(1) by (simp add: part_ok_def bounds_ok_def)
  then show ?thesis using b(2) by (simp add: collapse_part_def split: option.splits)
qed

lemma collapseDegenerateRange_parts:
  "bounds_ok b \<Longrightarrow> split_on CHR '','' (collapseDegenerateRange f b slot) =
     map (collapse_part b slot) (split_on CHR '','' f)"
  unfolding collapseDegenerateRange_def
proof (rule split_on_join)
  assume b: "bounds_ok b"
  show "\<forall>w \<in> set (map (collapse_part b slot) (split_on CHR '','' f)). CHR '','' \<notin> set w"
    using collapse_part_no_comma [OF b] split_on_no_sep [of _ "CHR '',''" f] by simp
qed simp

lemma collapseDegenerateRange_meaning:
  "bounds_ok b \<Longrightarrow> field_meaning (collapseDegenerateRange f b slot) b = field_meaning f b"
  by (simp add: field_meaning_def collapseDegenerateRange_parts collapse_parts_meaning)

lemma field_meaning_single:
  "bounds_ok b \<Longrightarrow> parseRangePart f b = Some r \<Longrightarrow> field_meaning f b = Some (part_vals r, starred_part r)"
  using parseRangePart_ok(2) [of b f r] by (simp add: field_meaning_def parts_meaning_Cons)

lemma field_meaning_star [simp]:
  "bounds_ok b \<Longrightarrow> field_meaning ''*'' b = Some ({bmin b..bmax b}, True)"
  by (simp add: field_meaning_single part_vals_all starred_part_def)

lemma parts_meaning_Some:
  "parts_meaning b ps = Some (vs, st) \<longleftrightarrow>
     (\<exists>rs. map (\<lambda>p. parseRangePart p b) ps = map Some rs \<and> vs = \<Union> (part_vals ` set rs) \<and>
           st = list_ex starred_part rs)"
  by (auto simp: parts_meaning_def those_Some_iff)

lemma parse_all_ok:
  assumes "bounds_ok b" "map (\<lambda>p. parseRangePart p b) ps = map Some rs"
  shows "\<forall>r \<in> set rs. part_ok b r"
proof
  fix r assume "r \<in> set rs"
  then have "Some r \<in> set (map (\<lambda>p. parseRangePart p b) ps)" unfolding assms(2) by simp
  then show "part_ok b r" using parseRangePart_ok(1) [OF assms(1)] by auto
qed

lemma collapseWildcardList_meaning:
  assumes "bounds_ok b"
  shows "field_meaning (collapseWildcardList f b) b = field_meaning f b"
proof (cases "collapseWildcardList f b = f")
  case False
  let ?ps = "split_on CHR '','' f"
  have star: "collapseWildcardList f b = ''*''"
    and all: "\<not> list_ex (\<lambda>r. r = None) (map (\<lambda>p. parseRangePart p b) ?ps)"
    and one: "list_ex (\<lambda>r. wildcard (the r) \<and> rstep (the r) = 1) (map (\<lambda>p. parseRangePart p b) ?ps)"
    using False by (auto simp: collapseWildcardList_def Let_def split: if_splits)
  define rs where "rs = map (\<lambda>p. the (parseRangePart p b)) ?ps"
  have some: "parseRangePart x b = Some (the (parseRangePart x b))" if "x \<in> set ?ps" for x
  proof (cases "parseRangePart x b")
    case None
    then have "None \<in> (\<lambda>p. parseRangePart p b) ` set ?ps" using that by (auto intro: rev_image_eqI)
    then show ?thesis using all by (simp add: list_ex_iff)
  qed simp
  have rs: "map (\<lambda>p. parseRangePart p b) ?ps = map Some rs"
    unfolding rs_def map_map comp_def by (rule map_cong [OF refl some])
  obtain r where r: "r \<in> set rs" "starred_part r"
    using one unfolding rs by (auto simp: list_ex_iff starred_part_def)
  have ok: "\<forall>r \<in> set rs. part_ok b r" by (rule parse_all_ok [OF assms rs])
  have "part_vals r = {bmin b..bmax b}"
    using r ok part_vals_all [of r] by (auto simp: starred_part_def part_ok_def)
  then have "\<Union> (part_vals ` set rs) = {bmin b..bmax b}"
    using r(1) ok part_vals_bounds by blast
  moreover have "list_ex starred_part rs" using r by (auto simp: list_ex_iff)
  ultimately have "field_meaning f b = Some ({bmin b..bmax b}, True)"
    unfolding field_meaning_def parts_meaning_Some using rs by auto
  then show ?thesis using star assms by simp
qed simp

end
