(* ===== verification/Cron_Meaning.thy ===== *)
theory Cron_Meaning
  imports Cron_Schedule Cron_Field_Facts
begin

text \<open>
  What a schedule means: the moments at which an expression fires, read off its five fields
  (day-of-month AND day-of-week when either carries a star, OR otherwise), and the moments
  at which a structured schedule fires, read off the model; and the schedules the parser
  produces (\<open>settled\<close>). The parser is sound for the two meanings.
\<close>

section \<open>The two meanings\<close>

text \<open>A moment: minute, hour, day of month, month, day of week.\<close>

type_synonym moment = "int \<times> int \<times> int \<times> int \<times> int"

definition moments :: "moment set" where
  "moments = {0..59} \<times> {0..23} \<times> {1..31} \<times> {1..12} \<times> {0..6}"

definition fields_of :: "string \<Rightarrow> string list" where
  "fields_of body = map normalizeField (split_ws (trim body))"

fun cron_fires :: "string list \<Rightarrow> moment \<Rightarrow> bool" where
  "cron_fires [fmi, fh, fd, fmo, fw] (mi, h, d, mo, w) =
     (case (field_meaning fmi MINUTE, field_meaning fh HOUR, field_meaning fd DOM,
            field_meaning fmo MONTH, field_meaning fw DOW) of
        (Some (vmi, smi), Some (vh, sh), Some (vd, sd), Some (vmo, smo), Some (vw, sw)) \<Rightarrow>
          mi \<in> vmi \<and> h \<in> vh \<and> mo \<in> vmo \<and>
          (if sd \<or> sw then d \<in> vd \<and> w \<in> vw else d \<in> vd \<or> w \<in> vw)
      | _ \<Rightarrow> False)"
| "cron_fires _ _ = False"

definition in_window :: "time_window \<Rightarrow> int \<Rightarrow> bool" where
  "in_window w h =
     (case (fst (timeParts (wfrom w)), fst (timeParts (wto w))) of
        (Some lo, Some hi) \<Rightarrow> lo \<le> h \<and> h \<le> hi
      | _ \<Rightarrow> False)"

definition time_fires :: "time_pattern \<Rightarrow> int \<Rightarrow> int \<Rightarrow> bool" where
  "time_fires tp h mi =
     (case tp of
        At tm \<Rightarrow> timeParts tm = (Some h, Some mi)
      | Every n Hours None m \<Rightarrow> mi = m \<and> n dvd h
      | Every n Hours (Some w) m \<Rightarrow>
          mi = m \<and> in_window w h \<and> n dvd h - the (fst (timeParts (wfrom w)))
      | Every n Minutes win m \<Rightarrow>
          n dvd mi \<and> (case win of None \<Rightarrow> True | Some w \<Rightarrow> in_window w h))"

definition day_fires :: "day_pattern \<Rightarrow> int \<Rightarrow> int \<Rightarrow> bool" where
  "day_fires dp d w =
     (case dp of EveryDay \<Rightarrow> True | Weekly ds \<Rightarrow> w \<in> set ds | Monthly n \<Rightarrow> d = n)"

fun config_fires :: "schedule_config \<Rightarrow> moment \<Rightarrow> bool" where
  "config_fires c (mi, h, d, mo, w) = (time_fires (time c) h mi \<and> day_fires (days c) d w)"

section \<open>The schedules the parser produces\<close>

definition settled_window :: "time_window \<Rightarrow> int \<Rightarrow> int \<Rightarrow> bool" where
  "settled_window w fm tm =
     (case (fst (timeParts (wfrom w)), fst (timeParts (wto w))) of
        (Some lo, Some hi) \<Rightarrow>
          0 \<le> lo \<and> lo \<le> hi \<and> hi \<le> 23 \<and> \<not> (lo = 0 \<and> hi = 23) \<and>
          wfrom w = clock lo fm \<and> wto w = clock hi tm
      | _ \<Rightarrow> False)"

definition settled_time :: "time_pattern \<Rightarrow> bool" where
  "settled_time tp =
     (case tp of
        At tm \<Rightarrow>
          (case timeParts tm of
             (Some h, Some m) \<Rightarrow> 0 \<le> h \<and> h \<le> 23 \<and> 0 \<le> m \<and> m \<le> 59 \<and> tm = clock h m
           | _ \<Rightarrow> False)
      | Every n Hours win m \<Rightarrow>
          1 \<le> n \<and> n \<le> 23 \<and> 0 \<le> m \<and> m \<le> 59 \<and>
          (case win of None \<Rightarrow> True | Some w \<Rightarrow> settled_window w m m)
      | Every n Minutes win m \<Rightarrow>
          1 \<le> n \<and> n \<le> 59 \<and> m = 0 \<and>
          (case win of None \<Rightarrow> True | Some w \<Rightarrow> settled_window w 0 59))"

definition settled_days :: "day_pattern \<Rightarrow> bool" where
  "settled_days dp =
     (case dp of
        EveryDay \<Rightarrow> True
      | Weekly ds \<Rightarrow> ds \<noteq> [] \<and> sorted ds \<and> distinct ds \<and> list_all (\<lambda>d. 0 \<le> d \<and> d \<le> 6) ds
      | Monthly n \<Rightarrow> 1 \<le> n \<and> n \<le> 31)"

definition settled :: "schedule_config \<Rightarrow> bool" where
  "settled c \<longleftrightarrow> raw c = None \<and> settled_time (time c) \<and> settled_days (days c)"

section \<open>Clock texts\<close>

lemma all_digits_replicate: "all_digits s \<Longrightarrow> all_digits (replicate n CHR ''0'' @ s)"
  by (induction n) (simp_all add: all_digits_def is_digit_def)

lemma digits_value_replicate [simp]: "digits_value (replicate n CHR ''0'' @ s) = digits_value s"
  by (induction n) simp_all

lemma pad2_digits [simp]: "0 \<le> n \<Longrightarrow> all_digits (pad2 n)"
  by (simp add: pad2_def Let_def all_digits_replicate)

lemma pad2_value [simp]: "0 \<le> n \<Longrightarrow> int (digits_value (pad2 n)) = n"
  by (simp add: pad2_def Let_def)

lemma all_digits_free: "all_digits s \<Longrightarrow> \<not> is_digit c \<Longrightarrow> c \<notin> set s"
  by (auto simp: all_digits_def list_all_iff)

lemma timeParts_clock [simp]: "0 \<le> h \<Longrightarrow> 0 \<le> m \<Longrightarrow> timeParts (clock h m) = (Some h, Some m)"
proof -
  assume hm: "0 \<le> h" "0 \<le> m"
  have "\<not> is_digit (CHR '':'')" by (simp add: is_digit_def)
  then have "CHR '':'' \<notin> set (pad2 h)" "CHR '':'' \<notin> set (pad2 m)"
    using hm all_digits_free [OF pad2_digits] by auto
  then show ?thesis
    using hm by (simp add: timeParts_def clock_def parseInt_digits)
qed

lemma clock_00: "pad2 h @ '':00'' = clock h 0" "pad2 h @ '':59'' = clock h 59"
proof -
  have "pad2 0 = ''00''" "pad2 59 = ''59''" by code_simp+
  then show "pad2 h @ '':00'' = clock h 0" "pad2 h @ '':59'' = clock h 59"
    by (simp_all add: clock_def)
qed

section \<open>Soundness of the field parsers\<close>

lemma plainValue_meaning:
  assumes "bounds_ok b" "plainValue f b = Some v"
  shows "field_meaning f b = Some ({v}, False)" "bmin b \<le> v" "v \<le> bmax b"
proof -
  obtain r where r: "parseRangePart f b = Some r" "\<not> wildcard r" "\<not> stepped r" "\<not> explicitRange r"
    "v = rlo r"
    using assms(2) by (auto simp: plainValue_def split: option.splits if_splits)
  have ok: "part_ok b r" by (rule parseRangePart_ok(1) [OF assms(1) r(1)])
  then have "part_vals r = {v}" using r by (simp add: part_ok_def)
  then show "field_meaning f b = Some ({v}, False)"
    using field_meaning_single [OF assms(1) r(1)] r(2) by (simp add: starred_part_def)
  show "bmin b \<le> v" "v \<le> bmax b" using ok r(5) by (auto simp: part_ok_def)
qed

lemma step_range_set: "0 < st \<Longrightarrow> set (step_range lo hi st) = {v. lo \<le> v \<and> v \<le> hi \<and> st dvd v - lo}"
proof (induction lo hi st rule: step_range.induct)
  case (1 lo hi st)
  show ?case
  proof (cases "lo \<le> hi")
    case True
    have "{v. lo \<le> v \<and> v \<le> hi \<and> st dvd v - lo} =
        insert lo {v. lo + st \<le> v \<and> v \<le> hi \<and> st dvd v - (lo + st)}" (is "?L = ?R")
    proof (rule set_eqI)
      fix v
      have d: "st dvd v - (lo + st) \<longleftrightarrow> st dvd v - lo"
        using dvd_diff_left_iff [of st st "v - lo"] by (simp add: algebra_simps)
      have "lo + st \<le> v" if "lo < v" "st dvd v - lo"
        using that zdvd_imp_le [of st "v - lo"] by simp
      then show "v \<in> ?L \<longleftrightarrow> v \<in> ?R" using True 1(2) d by auto
    qed
    then show ?thesis using 1 True by (simp add: step_range.simps [of lo])
  next
    case False
    then show ?thesis by (auto simp: step_range.simps [of lo])
  qed
qed

lemma expandDow_parts_meaning:
  "expandDow_parts ps = Some ds \<Longrightarrow> \<exists>st. parts_meaning DOW ps = Some (set ds, st)"
proof (induction ps arbitrary: ds)
  case (Cons p ps)
  then obtain r es where r: "parseRangePart p DOW = Some r" "expandDow_parts ps = Some es"
    "ds = step_range (rlo r) (rhi r) (rstep r) @ es"
    by (auto split: option.splits)
  obtain st where "parts_meaning DOW ps = Some (set es, st)" using Cons.IH [OF r(2)] by blast
  moreover have "part_ok DOW r" using parseRangePart_ok(1) [OF _ r(1)] by simp
  then have "set (step_range (rlo r) (rhi r) (rstep r)) = part_vals r"
    by (simp add: step_range_set part_ok_def part_vals_def)
  ultimately show ?case using r by (simp add: parts_meaning_Cons)
qed auto

lemma parts_meaning_subset:
  "bounds_ok b \<Longrightarrow> parts_meaning b ps = Some (vs, st) \<Longrightarrow> vs \<subseteq> {bmin b..bmax b}"
proof -
  assume b: "bounds_ok b" and "parts_meaning b ps = Some (vs, st)"
  then obtain rs where rs: "map (\<lambda>p. parseRangePart p b) ps = map Some rs" "vs = \<Union> (part_vals ` set rs)"
    by (auto simp: parts_meaning_Some)
  have "part_vals r \<subseteq> {bmin b..bmax b}" if "r \<in> set rs" for r
    using parse_all_ok [OF b rs(1)] that part_vals_bounds by blast
  then show ?thesis unfolding rs(2) by blast
qed

lemma expandDow_meaning:
  assumes "expandDow f = Some ds"
  shows "\<exists>st. field_meaning f DOW = Some (set ds, st)" "settled_days (Weekly ds)"
proof -
  obtain es where es: "expandDow_parts (split_on CHR '','' f) = Some es" "es \<noteq> []"
    "ds = sort (remdups es)"
    using assms by (auto simp: expandDow_def split: option.splits if_splits)
  obtain st where m: "parts_meaning DOW (split_on CHR '','' f) = Some (set es, st)"
    using expandDow_parts_meaning [OF es(1)] by blast
  then show "\<exists>st. field_meaning f DOW = Some (set ds, st)"
    using es(3) by (auto simp: field_meaning_def)
  have "set es \<subseteq> {bmin DOW..bmax DOW}" by (rule parts_meaning_subset [OF _ m]) simp
  moreover have "set ds = set es" using es(3) by simp
  moreover have "ds \<noteq> []" using es(2) calculation(2) by auto
  ultimately show "settled_days (Weekly ds)"
    using es(3) by (auto simp: settled_days_def DOW_def list_all_iff)
qed

lemma parseHourPattern_meaning:
  assumes "parseHourPattern f = Some (n, rng)"
  shows "1 \<le> n \<and> n \<le> 23 \<and>
    (\<exists>lo hi st. field_meaning f HOUR = Some ({h. lo \<le> h \<and> h \<le> hi \<and> n dvd h - lo}, st) \<and>
      0 \<le> lo \<and> lo \<le> hi \<and> hi \<le> 23 \<and> rng = (if lo = 0 \<and> hi = 23 then None else Some (lo, hi)))"
proof -
  obtain r where r: "parseRangePart f HOUR = Some r" "rstep r \<le> 23" "n = rstep r"
    "rng = (if wildcard r \<or> (rlo r = 0 \<and> rhi r = 23) then None else Some (rlo r, rhi r))"
    using assms by (auto simp: parseHourPattern_def HOUR_def split: option.splits if_splits)
  have ok: "part_ok HOUR r" by (rule parseRangePart_ok(1) [OF _ r(1)]) simp
  have "field_meaning f HOUR = Some (part_vals r, starred_part r)"
    by (rule field_meaning_single [OF _ r(1)]) simp
  moreover have "0 \<le> rlo r \<and> rlo r \<le> rhi r \<and> rhi r \<le> 23 \<and> 1 \<le> rstep r"
    "rng = (if rlo r = 0 \<and> rhi r = 23 then None else Some (rlo r, rhi r))"
    using ok r(4) by (auto simp: part_ok_def HOUR_def)
  ultimately show ?thesis using r(2,3) by (auto simp: part_vals_def)
qed

lemma parseMinuteInterval_meaning:
  assumes "parseMinuteInterval f = Some n"
  shows "1 \<le> n \<and> n \<le> 59 \<and>
    (\<exists>st. field_meaning f MINUTE = Some ({m. 0 \<le> m \<and> m \<le> 59 \<and> n dvd m}, st))"
proof -
  obtain r where r: "parseRangePart f MINUTE = Some r" "rstep r \<le> 59" "n = rstep r"
    "\<not> explicitRange r" "rlo r = 0" "stepped r \<or> wildcard r"
    using assms by (auto simp: parseMinuteInterval_def MINUTE_def split: option.splits if_splits)
  have ok: "part_ok MINUTE r" by (rule parseRangePart_ok(1) [OF _ r(1)]) simp
  have "field_meaning f MINUTE = Some (part_vals r, starred_part r)"
    by (rule field_meaning_single [OF _ r(1)]) simp
  moreover have "rhi r = 59" "1 \<le> rstep r"
    using ok r(4,6) by (auto simp: part_ok_def MINUTE_def)
  ultimately show ?thesis using r by (simp add: part_vals_def)
qed

text \<open>What a structured time owes to the two fields it was read from.\<close>

definition time_sound :: "time_pattern \<Rightarrow> string \<Rightarrow> string \<Rightarrow> bool" where
  "time_sound tp fm fh \<longleftrightarrow>
     settled_time tp \<and>
     (\<exists>vm sm vh sh. field_meaning fm MINUTE = Some (vm, sm) \<and> field_meaning fh HOUR = Some (vh, sh) \<and>
        (\<forall>h mi. 0 \<le> h \<longrightarrow> h \<le> 23 \<longrightarrow> 0 \<le> mi \<longrightarrow> mi \<le> 59 \<longrightarrow>
           time_fires tp h mi = (mi \<in> vm \<and> h \<in> vh)))"

lemma parse_fixed_minute_sound:
  assumes m: "plainValue fm MINUTE = Some m" and p: "parse_fixed_minute m fh = Some tp"
  shows "time_sound tp fm fh"
proof -
  have mm: "field_meaning fm MINUTE = Some ({m}, False)" "0 \<le> m" "m \<le> 59"
    using plainValue_meaning [OF bounds_ok_fields(1) m] by simp_all
  show ?thesis
  proof (cases "plainValue fh HOUR")
    case (Some h)
    have hh: "field_meaning fh HOUR = Some ({h}, False)" "0 \<le> h" "h \<le> 23"
      using plainValue_meaning [OF bounds_ok_fields(2) Some] by simp_all
    have "tp = At (clock h m)" using p Some by (simp add: parse_fixed_minute_def)
    then show ?thesis using mm hh by (auto simp: time_sound_def settled_time_def time_fires_def)
  next
    case None
    then obtain n rng where hp: "parseHourPattern fh = Some (n, rng)"
      and tp: "tp = Every n Hours (case rng of None \<Rightarrow> None
                 | Some (lo, hi) \<Rightarrow> Some \<lparr>wfrom = clock lo m, wto = clock hi m\<rparr>) m"
      using p by (auto simp: parse_fixed_minute_def split: option.splits)
    obtain lo hi st where h: "field_meaning fh HOUR = Some ({h. lo \<le> h \<and> h \<le> hi \<and> n dvd h - lo}, st)"
      "0 \<le> lo" "lo \<le> hi" "hi \<le> 23" "rng = (if lo = 0 \<and> hi = 23 then None else Some (lo, hi))"
      "1 \<le> n" "n \<le> 23"
      using parseHourPattern_meaning [OF hp] by blast
    show ?thesis
    proof (cases "lo = 0 \<and> hi = 23")
      case True
      then show ?thesis using mm h tp by (auto simp: time_sound_def settled_time_def time_fires_def)
    next
      case False
      then have "tp = Every n Hours (Some \<lparr>wfrom = clock lo m, wto = clock hi m\<rparr>) m"
        using tp h(5) by simp
      then show ?thesis using mm h False
        by (auto simp: time_sound_def settled_time_def time_fires_def settled_window_def in_window_def)
    qed
  qed
qed

lemma parse_minute_interval_sound:
  assumes m: "parseMinuteInterval fm = Some n" and p: "parse_minute_interval n fh = Some tp"
  shows "time_sound tp fm fh"
proof -
  obtain sm where mm: "field_meaning fm MINUTE = Some ({m. 0 \<le> m \<and> m \<le> 59 \<and> n dvd m}, sm)"
    "1 \<le> n" "n \<le> 59"
    using parseMinuteInterval_meaning [OF m] by blast
  obtain k rng where hp: "parseHourPattern fh = Some (k, rng)"
    using p by (auto simp: parse_minute_interval_def split: option.splits)
  obtain lo hi st where h: "field_meaning fh HOUR = Some ({h. lo \<le> h \<and> h \<le> hi \<and> k dvd h - lo}, st)"
    "0 \<le> lo" "lo \<le> hi" "hi \<le> 23" "rng = (if lo = 0 \<and> hi = 23 then None else Some (lo, hi))"
    "1 \<le> k" "k \<le> 23"
    using parseHourPattern_meaning [OF hp] by blast
  show ?thesis
  proof (cases "lo = 0 \<and> hi = 23")
    case True
    then have "k = 1" "tp = Every n Minutes None 0"
      using p hp h(5) by (auto simp: parse_minute_interval_def split: if_splits)
    then show ?thesis using mm h True by (auto simp: time_sound_def settled_time_def time_fires_def)
  next
    case False
    define top where "top = (if k > hi - lo then lo else hi)"
    have tp: "tp = Every n Minutes (Some \<lparr>wfrom = clock lo 0, wto = clock top 59\<rparr>) 0"
      "k > hi - lo \<or> k = 1"
      using False p hp h(5)
      by (auto simp: parse_minute_interval_def Let_def clock_00 top_def split: if_splits)
    have top: "lo \<le> top" "top \<le> 23" "\<not> (lo = 0 \<and> top = 23)" "0 \<le> top"
      using h False by (auto simp: top_def)
    have "{h. lo \<le> h \<and> h \<le> hi \<and> k dvd h - lo} = {lo..top}"
    proof (cases "k > hi - lo")
      case True
      then have "h - lo = 0" if "lo \<le> h" "h \<le> hi" "k dvd h - lo" for h
        using that zdvd_imp_le [of k "h - lo"] by (cases "h = lo") auto
      then show ?thesis using True h(3) by (auto simp: top_def)
    next
      case False
      then show ?thesis using tp(2) by (auto simp: top_def)
    qed
    then show ?thesis using mm h tp(1) top
      by (auto simp: time_sound_def settled_time_def time_fires_def settled_window_def in_window_def)
  qed
qed

lemma parseTimeFields_sound: "parseTimeFields fm fh = Some tp \<Longrightarrow> time_sound tp fm fh"
  by (auto simp: parseTimeFields_def split: option.splits
      intro: parse_fixed_minute_sound parse_minute_interval_sound)

definition days_sound :: "day_pattern \<Rightarrow> string \<Rightarrow> string \<Rightarrow> bool" where
  "days_sound dp fd fw \<longleftrightarrow>
     settled_days dp \<and>
     (\<exists>vd sd vw sw. field_meaning fd DOM = Some (vd, sd) \<and> field_meaning fw DOW = Some (vw, sw) \<and>
        (\<forall>d w. 1 \<le> d \<longrightarrow> d \<le> 31 \<longrightarrow> 0 \<le> w \<longrightarrow> w \<le> 6 \<longrightarrow>
           day_fires dp d w = (if sd \<or> sw then d \<in> vd \<and> w \<in> vw else d \<in> vd \<or> w \<in> vw)))"

lemma parse_day_fields_sound:
  assumes "parse_day_fields fd fw = Some dp"
  shows "days_sound dp fd fw"
proof (cases "fd = ''*''")
  case True
  show ?thesis
  proof (cases "fw = ''*''")
    case True
    with \<open>fd = ''*''\<close> show ?thesis
      using assms by (auto simp: parse_day_fields_def days_sound_def settled_days_def day_fires_def)
  next
    case False
    then obtain ds where ds: "expandDow fw = Some ds" "dp = Weekly ds"
      using assms True by (auto simp: parse_day_fields_def)
    obtain st where "field_meaning fw DOW = Some (set ds, st)"
      using expandDow_meaning(1) [OF ds(1)] by blast
    then show ?thesis using expandDow_meaning(2) [OF ds(1)] ds(2) True
      by (auto simp: days_sound_def day_fires_def)
  qed
next
  case False
  then obtain n where n: "plainValue fd DOM = Some n" "dp = Monthly n" "fw = ''*''"
    using assms by (auto simp: parse_day_fields_def split: if_splits)
  show ?thesis
    using plainValue_meaning [OF bounds_ok_fields(3) n(1)] n(2,3)
    by (auto simp: days_sound_def day_fires_def settled_days_def)
qed

lemma split_fields_Some:
  assumes "split_fields body = Some (mi, h, dm, mon, dow)"
  obtains a b c d e where "fields_of body = [a, b, c, d, e]"
    "field_meaning mi MINUTE = field_meaning a MINUTE" "field_meaning h HOUR = field_meaning b HOUR"
    "field_meaning dm DOM = field_meaning c DOM" "field_meaning mon MONTH = field_meaning d MONTH"
    "field_meaning dow DOW = field_meaning e DOW"
proof -
  have "\<exists>a b c d e. fields_of body = [a, b, c, d, e] \<and>
      mi = collapseDegenerateRange (collapseWildcardList a MINUTE) MINUTE False \<and>
      h = collapseDegenerateRange (collapseWildcardList b HOUR) HOUR True \<and>
      dm = collapseDegenerateRange (collapseWildcardList c DOM) DOM False \<and>
      mon = collapseWildcardList d MONTH \<and> dow = collapseWildcardList e DOW"
    using assms by (simp add: split_fields_def fields_of_def split: list.splits)
  then show ?thesis
    using that by (auto simp: collapseDegenerateRange_meaning collapseWildcardList_meaning)
qed

lemma parse_structured_sound:
  assumes "parse_structured body = Some (tp, dp)"
  shows "settled_time tp" "settled_days dp"
    "\<forall>m \<in> moments. cron_fires (fields_of body) m =
       config_fires \<lparr>time = tp, days = dp, timezone = z, raw = None\<rparr> m"
proof -
  obtain mi h dm mon dow where f: "split_fields body = Some (mi, h, dm, mon, dow)" "mon = ''*''"
    "parse_day_fields dm dow = Some dp" "parseTimeFields mi h = Some tp"
    using assms by (auto simp: parse_structured_def split: option.splits if_splits prod.splits)
  obtain a b c d e where fs: "fields_of body = [a, b, c, d, e]"
    "field_meaning mi MINUTE = field_meaning a MINUTE" "field_meaning h HOUR = field_meaning b HOUR"
    "field_meaning dm DOM = field_meaning c DOM" "field_meaning mon MONTH = field_meaning d MONTH"
    "field_meaning dow DOW = field_meaning e DOW"
    by (rule split_fields_Some [OF f(1)])
  have t: "time_sound tp mi h" by (rule parseTimeFields_sound [OF f(4)])
  have dy: "days_sound dp dm dow" by (rule parse_day_fields_sound [OF f(3)])
  show "settled_time tp" "settled_days dp" using t dy by (simp_all add: time_sound_def days_sound_def)
  have mo: "field_meaning d MONTH = Some ({1..12}, True)" using fs(5) f(2) by simp
  obtain vm sm vh sh where t': "field_meaning a MINUTE = Some (vm, sm)" "field_meaning b HOUR = Some (vh, sh)"
    "\<And>h mi. 0 \<le> h \<Longrightarrow> h \<le> 23 \<Longrightarrow> 0 \<le> mi \<Longrightarrow> mi \<le> 59 \<Longrightarrow>
       time_fires tp h mi = (mi \<in> vm \<and> h \<in> vh)"
    using t unfolding time_sound_def fs by blast
  obtain vd sd vw sw where d': "field_meaning c DOM = Some (vd, sd)" "field_meaning e DOW = Some (vw, sw)"
    "\<And>d w. 1 \<le> d \<Longrightarrow> d \<le> 31 \<Longrightarrow> 0 \<le> w \<Longrightarrow> w \<le> 6 \<Longrightarrow>
       day_fires dp d w = (if sd \<or> sw then d \<in> vd \<and> w \<in> vw else d \<in> vd \<or> w \<in> vw)"
    using dy unfolding days_sound_def fs by blast
  show "\<forall>m \<in> moments. cron_fires (fields_of body) m =
       config_fires \<lparr>time = tp, days = dp, timezone = z, raw = None\<rparr> m"
  proof
    fix m assume "m \<in> moments"
    then obtain mi h d mo w where m: "m = (mi, h, d, mo, w)" "0 \<le> mi" "mi \<le> 59" "0 \<le> h" "h \<le> 23"
      "1 \<le> d" "d \<le> 31" "1 \<le> mo" "mo \<le> 12" "0 \<le> w" "w \<le> 6"
      by (auto simp: moments_def)
    show "cron_fires (fields_of body) m =
       config_fires \<lparr>time = tp, days = dp, timezone = z, raw = None\<rparr> m"
      unfolding fs(1) m(1) using m t' d' mo by simp
  qed
qed

end
