(* ===== verification/Cron_Properties.thy ===== *)
theory Cron_Properties
  imports Cron_Meaning
begin

text \<open>
  The properties of the schedule editor: the runs of days, the collapse rules, the soundness
  of the parser for what the expression means, and the round trips of parsing and printing.
\<close>

text \<open>
  The printer against the parser: every field the printer writes is its own normal form,
  survives the collapse rules and is read back as the part of the schedule it was written from.
\<close>

section \<open>Runs of days\<close>

lemma run_end_props:
  "run_end x ys = (y, rest) \<Longrightarrow>
     x \<le> y \<and> x # ys = [x..y] @ rest \<and> (rest = [] \<or> hd rest \<noteq> y + 1)"
proof (induction ys arbitrary: x)
  case (Cons z zs)
  show ?case
  proof (cases "z = x + 1")
    case True
    then have "x + 1 \<le> y \<and> (x + 1) # zs = [x + 1..y] @ rest \<and> (rest = [] \<or> hd rest \<noteq> y + 1)"
      using Cons by simp
    then show ?thesis using True by (simp add: upto_rec1)
  qed (use Cons in auto)
qed auto

definition run_days :: "int \<times> int \<Rightarrow> int list" where
  "run_days p = [fst p..snd p]"

lemma runs_of_days: "concat (map run_days (runs_of xs)) = xs"
proof (induction xs rule: runs_of.induct)
  case (2 x xs)
  obtain y rest where r: "run_end x xs = (y, rest)" by fastforce
  have "concat (map run_days (runs_of (x # xs))) = [x..y] @ concat (map run_days (runs_of rest))"
    using r by (simp add: run_days_def)
  also have "\<dots> = [x..y] @ rest" using 2 r by simp
  also have "\<dots> = x # xs" using run_end_props [OF r] by simp
  finally show ?case .
qed simp

lemma runs_of_le: "p \<in> set (runs_of xs) \<Longrightarrow> fst p \<le> snd p"
proof (induction xs rule: runs_of.induct)
  case (2 x xs)
  obtain y rest where r: "run_end x xs = (y, rest)" by fastforce
  have "x \<le> y" using run_end_props [OF r] by simp
  then show ?case using 2 r by auto
qed simp

lemma runs_of_hd: "xs \<noteq> [] \<Longrightarrow> runs_of xs \<noteq> [] \<and> fst (hd (runs_of xs)) = hd xs"
  by (cases xs) auto

fun separated :: "(int \<times> int) list \<Rightarrow> bool" where
  "separated (p # q # ps) \<longleftrightarrow> snd p + 1 < fst q \<and> separated (q # ps)"
| "separated _ \<longleftrightarrow> True"

lemma separated_Cons: "separated (p # ps) \<longleftrightarrow> (ps \<noteq> [] \<longrightarrow> snd p + 1 < fst (hd ps)) \<and> separated ps"
  by (cases ps) auto

lemma runs_of_separated: "sorted_wrt (<) xs \<Longrightarrow> separated (runs_of xs)"
proof (induction xs rule: runs_of.induct)
  case (2 x xs)
  obtain y rest where r: "run_end x xs = (y, rest)" by fastforce
  note e = run_end_props [OF r]
  have s: "sorted_wrt (<) ([x..y] @ rest)" using 2(2) e by simp
  then have "sorted_wrt (<) rest" by (simp add: sorted_wrt_append)
  then have IH: "separated (runs_of rest)" using 2(1) r by simp
  have "y + 1 < fst (hd (runs_of rest))" if "runs_of rest \<noteq> []"
  proof -
    have ne: "rest \<noteq> []" using that by auto
    then have "y < hd rest" using s e by (simp add: sorted_wrt_append)
    then show ?thesis using e ne runs_of_hd [OF ne] by simp
  qed
  then show ?case using IH r by (simp add: separated_Cons)
qed simp

section \<open>Texts in normal form\<close>

definition text_ok :: "string \<Rightarrow> bool" where
  "text_ok p \<longleftrightarrow>
     p \<noteq> [] \<and> normalizeRange p = p \<and> normalize_numbers p = p \<and>
     (\<forall>c \<in> set p. \<not> is_ws c) \<and> CHR '','' \<notin> set p"

lemma normalize_number [simp]:
  assumes "int n \<le> MAX_SAFE_INTEGER" "s = [] \<or> \<not> is_digit (hd s)"
  shows "normalize_numbers (string_of_nat n @ s) = string_of_nat n @ normalize_numbers s"
proof -
  have d: "all_digits (string_of_nat n)" by simp
  then obtain c cs where c: "string_of_nat n = c # cs" "is_digit c" "\<forall>x \<in> set cs. is_digit x"
    by (cases "string_of_nat n") (auto simp: all_digits_def list_all_iff)
  have t: "takeWhile is_digit (cs @ s) = cs" "dropWhile is_digit (cs @ s) = s"
    using c(3) assms(2) by (cases s; simp add: takeWhile_append dropWhile_append)+
  have "canonical_number (c # cs) (c # cs) = c # cs"
    using assms(1) string_of_nat_value [of n]
    by (simp add: canonical_number_def safe_number_def flip: c(1))
  then show ?thesis using c(2) t by (simp add: c(1) normalize_numbers.simps(2))
qed

lemma normalize_number_end [simp]:
  "int n \<le> MAX_SAFE_INTEGER \<Longrightarrow> normalize_numbers (string_of_nat n) = string_of_nat n"
  using normalize_number [of n "[]"] by simp

lemma normalize_other [simp]:
  "\<not> is_digit c \<Longrightarrow> c \<noteq> CHR ''+'' \<Longrightarrow> normalize_numbers (c # s) = c # normalize_numbers s"
  by (simp add: normalize_numbers.simps(2))

lemma not_digits [simp]:
  "\<not> is_digit (CHR ''/'')" "\<not> is_digit (CHR ''-'')" "\<not> is_digit (CHR ''*'')"
  by (simp_all add: is_digit_def)

lemma hd_split_on: "x \<noteq> c \<Longrightarrow> \<exists>w. hd (split_on c (x # xs)) = x # w"
  by (cases "split_on c xs") auto

lemma normalizeRange_digit:
  assumes "is_digit c"
  shows "normalizeRange (c # cs) = c # cs"
proof -
  have n: "c \<noteq> CHR ''/''" "c \<noteq> CHR ''-''" "c \<noteq> CHR ''*''" "c \<noteq> CHR ''?''"
    using is_digit_chars [OF assms] by auto
  let ?i = "index_of CHR ''/'' (c # cs)"
  define rng where "rng = (if ?i = -1 then c # cs else take (nat ?i) (c # cs))"
  have "?i = -1 \<or> 0 < ?i"
    using n(1) index_of_ge [of "CHR ''/''" cs] by (auto simp: Let_def)
  then obtain ds where "rng = c # ds"
    by (cases "nat ?i") (auto simp: rng_def)
  then obtain w where "hd (split_on CHR ''-'' rng) = c # w" using hd_split_on [OF n(2)] by blast
  then show ?thesis using n unfolding normalizeRange_def Let_def rng_def [symmetric] by simp
qed

lemma normalizeRange_number [simp]: "normalizeRange (string_of_nat n @ s) = string_of_nat n @ s"
proof -
  obtain c cs where c: "string_of_nat n = c # cs" "is_digit c"
    using string_of_nat_digits [of n]
    by (cases "string_of_nat n") (auto simp: all_digits_def simp del: string_of_nat_digits)
  then show ?thesis using normalizeRange_digit [of c "cs @ s"] by simp
qed

lemma normalizeRange_star [simp]: "normalizeRange ''*'' = ''*''"
  by (simp add: normalizeRange_def)

lemma normalizeRange_star_step [simp]: "normalizeRange (CHR ''*'' # CHR ''/'' # s) = CHR ''*'' # CHR ''/'' # s"
  by (simp add: normalizeRange_def Let_def)

lemma string_of_nat_ws: "c \<in> set (string_of_nat n) \<Longrightarrow> \<not> is_ws c"
  by (rule is_digit_not_ws) (rule string_of_nat_char)

lemma not_ws [simp]: "\<not> is_ws (CHR ''/'')" "\<not> is_ws (CHR ''-'')" "\<not> is_ws (CHR ''*'')"
  by (simp_all add: is_ws_def)

lemma text_ok_star [simp]: "text_ok ''*''"
  by (simp add: text_ok_def)

lemma text_ok_star_step: "int n \<le> MAX_SAFE_INTEGER \<Longrightarrow> text_ok (''*/'' @ string_of_nat n)"
  by (auto simp: text_ok_def string_of_nat_ws)

lemma text_ok_value: "int n \<le> MAX_SAFE_INTEGER \<Longrightarrow> text_ok (string_of_nat n)"
  using normalizeRange_number [of n "[]"] by (auto simp: text_ok_def string_of_nat_ws)

lemma text_ok_range:
  "int n \<le> MAX_SAFE_INTEGER \<Longrightarrow> int m \<le> MAX_SAFE_INTEGER \<Longrightarrow>
   text_ok (string_of_nat n @ CHR ''-'' # string_of_nat m)"
  by (auto simp: text_ok_def string_of_nat_ws)

lemma text_ok_range_step:
  "int n \<le> MAX_SAFE_INTEGER \<Longrightarrow> int m \<le> MAX_SAFE_INTEGER \<Longrightarrow> int k \<le> MAX_SAFE_INTEGER \<Longrightarrow>
   text_ok (string_of_nat n @ CHR ''-'' # string_of_nat m @ CHR ''/'' # string_of_nat k)"
  by (auto simp: text_ok_def string_of_nat_ws)

lemma normalizeField_join:
  assumes "ps \<noteq> []" "\<forall>p \<in> set ps. text_ok p"
  shows "normalizeField (join '','' ps) = join '','' ps"
proof -
  have "split_on CHR '','' (join '','' ps) = ps"
    using assms by (intro split_on_join) (auto simp: text_ok_def)
  moreover have "filter (\<lambda>part. length part > 0) ps = ps"
    using assms(2) by (simp add: text_ok_def filter_id_conv)
  moreover have "map normalizeRange ps = ps" "map normalize_numbers ps = ps"
    using assms(2) by (simp_all add: text_ok_def map_idI)
  ultimately show ?thesis by (simp add: normalizeField_def)
qed

lemma normalizeField_text: "text_ok p \<Longrightarrow> normalizeField p = p"
  using normalizeField_join [of "[p]"] by simp

text \<open>A field the printer writes for a bound: it reaches the parsers unchanged.\<close>

definition printed :: "field_bounds \<Rightarrow> bool \<Rightarrow> string \<Rightarrow> bool" where
  "printed b slot p \<longleftrightarrow> text_ok p \<and> collapse_part b slot p = p"

lemma printed_field:
  assumes "printed b slot p"
  shows "collapseDegenerateRange (collapseWildcardList (normalizeField p) b) b slot = p"
proof -
  have t: "text_ok p" "collapse_part b slot p = p" using assms by (auto simp: printed_def)
  then have "CHR '','' \<notin> set p" by (simp add: text_ok_def)
  then show ?thesis
    using t by (simp add: normalizeField_text collapseWildcardList_def collapseDegenerateRange_def)
qed

lemma printed_star: "bounds_ok b \<Longrightarrow> printed b slot ''*''"
  by (simp add: printed_def collapse_part_def bounds_ok_def)

lemma printed_star_step:
  assumes "bounds_ok b" "1 \<le> n" "n \<le> bmax b - bmin b"
  shows "printed b slot (''*/'' @ string_of_nat (nat n))"
proof -
  have "n \<le> MAX_SAFE_INTEGER" using assms by (simp add: bounds_ok_def MAX_SAFE_INTEGER_def)
  then show ?thesis
    using assms text_ok_star_step [of "nat n"] parse_star_step [of n b]
    by (simp add: printed_def collapse_part_def)
qed

lemma printed_value:
  assumes "bounds_ok b" "bmin b \<le> v" "v \<le> bmax b"
  shows "printed b slot (string_of_nat (nat v))"
proof -
  have "0 \<le> v" "v \<le> MAX_SAFE_INTEGER" using assms by (simp_all add: bounds_ok_def MAX_SAFE_INTEGER_def)
  then show ?thesis
    using assms text_ok_value [of "nat v"] parse_value [of b v]
    by (simp add: printed_def collapse_part_def)
qed

lemma printed_range:
  assumes "bounds_ok b" "bmin b \<le> lo" "lo \<le> hi" "hi \<le> bmax b"
  shows "printed b True (string_of_nat (nat lo) @ CHR ''-'' # string_of_nat (nat hi))"
proof -
  have "0 \<le> lo" "lo \<le> MAX_SAFE_INTEGER" "hi \<le> MAX_SAFE_INTEGER"
    using assms by (simp_all add: bounds_ok_def MAX_SAFE_INTEGER_def)
  then show ?thesis
    using assms text_ok_range [of "nat lo" "nat hi"] parse_range [OF assms]
    by (simp add: printed_def collapse_part_def)
qed

lemma printed_range_step:
  assumes "bounds_ok b" "bmin b \<le> lo" "lo \<le> hi" "hi \<le> bmax b" "1 \<le> n" "n \<le> bmax b"
  shows "printed b True
    (string_of_nat (nat lo) @ CHR ''-'' # string_of_nat (nat hi) @ CHR ''/'' # string_of_nat (nat n))"
proof -
  have "0 \<le> lo" "lo \<le> MAX_SAFE_INTEGER" "hi \<le> MAX_SAFE_INTEGER" "n \<le> MAX_SAFE_INTEGER"
    using assms by (simp_all add: bounds_ok_def MAX_SAFE_INTEGER_def)
  then show ?thesis
    using assms text_ok_range_step [of "nat lo" "nat hi" "nat n"]
      parse_range_step [OF assms(1-5)]
    by (simp add: printed_def collapse_part_def)
qed

section \<open>Reading back what was printed\<close>

lemma dow_parts:
  assumes "\<forall>p \<in> set ps. 0 \<le> fst p \<and> fst p \<le> snd p \<and> snd p \<le> 6"
  shows "expandDow_parts (map run_text ps) = Some (concat (map run_days ps))"
    "\<forall>p \<in> set (map run_text ps). text_ok p"
    "list_ex (\<lambda>r. wildcard (the r) \<and> rstep (the r) = 1) (map (\<lambda>p. parseRangePart p DOW) (map run_text ps)) = False"
proof -
  have up: "step_range a b 1 = [a..b]" for a b
    by (induction a b rule: upto.induct) (simp add: step_range.simps upto.simps)
  have one: "\<exists>r. parseRangePart (run_text p) DOW = Some r \<and>
      step_range (rlo r) (rhi r) (rstep r) = run_days p \<and> \<not> wildcard r"
    and ok: "text_ok (run_text p)" if "p \<in> set ps" for p
  proof -
    have p: "0 \<le> fst p" "fst p \<le> snd p" "snd p \<le> 6" using assms that by auto
    have m: "fst p \<le> MAX_SAFE_INTEGER" "snd p \<le> MAX_SAFE_INTEGER"
      using p by (simp_all add: MAX_SAFE_INTEGER_def)
    show "\<exists>r. parseRangePart (run_text p) DOW = Some r \<and>
      step_range (rlo r) (rhi r) (rstep r) = run_days p \<and> \<not> wildcard r"
    proof (cases "fst p < snd p")
      case True
      then show ?thesis using p parse_range [of DOW "fst p" "snd p"]
        by (simp add: run_text_def run_days_def up)
    next
      case False
      then have "snd p = fst p" using p by simp
      then show ?thesis using p parse_value [of DOW "fst p"]
        by (simp add: run_text_def run_days_def up)
    qed
    show "text_ok (run_text p)"
      using p m text_ok_range [of "nat (fst p)" "nat (snd p)"] text_ok_value [of "nat (snd p)"]
      by (simp add: run_text_def)
  qed
  show "\<forall>p \<in> set (map run_text ps). text_ok p" using ok by simp
  show "expandDow_parts (map run_text ps) = Some (concat (map run_days ps))"
    using one
  proof (induction ps)
    case (Cons p ps)
    obtain r where "parseRangePart (run_text p) DOW = Some r"
      "step_range (rlo r) (rhi r) (rstep r) = run_days p"
      using Cons.prems [of p] by auto
    moreover have "expandDow_parts (map run_text ps) = Some (concat (map run_days ps))"
      using Cons by simp
    ultimately show ?case by simp
  qed simp
  have "\<not> wildcard (the (parseRangePart (run_text p) DOW))" if "p \<in> set ps" for p
    using one [OF that] by auto
  then show "list_ex (\<lambda>r. wildcard (the r) \<and> rstep (the r) = 1)
      (map (\<lambda>p. parseRangePart p DOW) (map run_text ps)) = False"
    by (auto simp: list_ex_iff)
qed

lemma dow_roundtrip:
  assumes "settled_days (Weekly ds)"
  shows "normalizeField (dowFieldFromDays ds) = dowFieldFromDays ds"
    "collapseWildcardList (dowFieldFromDays ds) DOW = dowFieldFromDays ds"
    "expandDow (dowFieldFromDays ds) = Some ds"
    "dowFieldFromDays ds \<noteq> ''*''"
    "dowFieldFromDays ds \<noteq> [] \<and> (\<forall>c \<in> set (dowFieldFromDays ds). \<not> is_ws c)"
proof -
  have ds: "ds \<noteq> []" "sorted ds" "distinct ds" "\<forall>d \<in> set ds. 0 \<le> d \<and> d \<le> 6"
    using assms by (auto simp: settled_days_def list_all_iff)
  let ?rs = "runs_of ds"
  have rs: "consecutiveRuns ds = ?rs"
    using ds by (simp add: consecutiveRuns_def distinct_remdups_id sorted_sort_id)
  have days: "concat (map run_days ?rs) = ds" by (rule runs_of_days)
  have b: "\<forall>p \<in> set ?rs. 0 \<le> fst p \<and> fst p \<le> snd p \<and> snd p \<le> 6"
  proof
    fix p assume p: "p \<in> set ?rs"
    have le: "fst p \<le> snd p" by (rule runs_of_le [OF p])
    then have "set (run_days p) \<subseteq> set (concat (map run_days ?rs))" "fst p \<in> set (run_days p)"
      "snd p \<in> set (run_days p)"
      using p by (auto simp: run_days_def)
    then have "fst p \<in> set ds" "snd p \<in> set ds" unfolding days by auto
    then show "0 \<le> fst p \<and> fst p \<le> snd p \<and> snd p \<le> 6" using le ds(4) by auto
  qed
  note parts = dow_parts [OF b]
  let ?f = "join '','' (map run_text ?rs)"
  have f: "dowFieldFromDays ds = ?f" by (simp add: dowFieldFromDays_def rs)
  have ne: "map run_text ?rs \<noteq> []" using ds(1) runs_of_hd by simp
  have sp: "split_on CHR '','' ?f = map run_text ?rs"
    using ne parts(2) by (intro split_on_join) (auto simp: text_ok_def)
  show "normalizeField (dowFieldFromDays ds) = dowFieldFromDays ds"
    unfolding f by (rule normalizeField_join [OF ne parts(2)])
  show "collapseWildcardList (dowFieldFromDays ds) DOW = dowFieldFromDays ds"
    unfolding f collapseWildcardList_def sp Let_def parts(3) by simp
  show "expandDow (dowFieldFromDays ds) = Some ds"
    unfolding f expandDow_def sp parts(1) days
    using ds by (simp add: distinct_remdups_id sorted_sort_id)
  show "dowFieldFromDays ds \<noteq> ''*''"
  proof
    assume "dowFieldFromDays ds = ''*''"
    then have "map run_text ?rs = [''*'']" using sp f by simp
    then show False using parts(3) by simp
  qed
  show "dowFieldFromDays ds \<noteq> [] \<and> (\<forall>c \<in> set (dowFieldFromDays ds). \<not> is_ws c)"
  proof -
    have nc: "\<not> is_ws (CHR '','')" by (simp add: is_ws_def)
    have "ws \<noteq> [] \<Longrightarrow> \<forall>p \<in> set ws. text_ok p \<Longrightarrow>
        join '','' ws \<noteq> [] \<and> (\<forall>c \<in> set (join '','' ws). \<not> is_ws c)" for ws
    proof (induction ws)
      case (Cons w ws)
      then show ?case using nc by (cases ws) (auto simp: text_ok_def)
    qed simp
    from this [OF ne parts(2)] show ?thesis unfolding f .
  qed
qed

lemma plainValue_star: "plainValue ''*'' b = None"
  by (simp add: plainValue_def)

lemma plainValue_star_step:
  "1 \<le> n \<Longrightarrow> n \<le> MAX_SAFE_INTEGER \<Longrightarrow> plainValue (''*/'' @ string_of_nat (nat n)) b = None"
  using parse_star_step [of n b] by (simp add: plainValue_def)

lemma plainValue_value:
  "bounds_ok b \<Longrightarrow> bmin b \<le> v \<Longrightarrow> v \<le> bmax b \<Longrightarrow> plainValue (string_of_nat (nat v)) b = Some v"
  by (simp add: plainValue_def parse_value)

text \<open>The three texts of an hour field and what they are read as.\<close>

definition steps_text :: "int \<Rightarrow> string" where
  "steps_text n = (if n = 1 then ''*'' else ''*/'' @ string_of_int n)"

lemma minute_steps:
  assumes "1 \<le> n" "n \<le> 59"
  shows "printed MINUTE False (steps_text n)" "plainValue (steps_text n) MINUTE = None"
    "parseMinuteInterval (steps_text n) = Some n" "hd (steps_text n) = CHR ''*''"
proof -
  have m: "n \<le> MAX_SAFE_INTEGER" using assms by (simp add: MAX_SAFE_INTEGER_def)
  show "printed MINUTE False (steps_text n)"
    using assms printed_star [of MINUTE False] printed_star_step [of MINUTE n False]
    by (simp add: steps_text_def)
  show "plainValue (steps_text n) MINUTE = None"
    using assms m plainValue_star [of MINUTE] plainValue_star_step [of n MINUTE]
    by (simp add: steps_text_def)
  show "parseMinuteInterval (steps_text n) = Some n"
    using assms m parse_star_step [of n MINUTE] by (simp add: steps_text_def parseMinuteInterval_def)
  show "hd (steps_text n) = CHR ''*''" by (simp add: steps_text_def)
qed

lemma hour_steps:
  assumes "1 \<le> n" "n \<le> 23"
  shows "printed HOUR True (steps_text n)" "plainValue (steps_text n) HOUR = None"
    "parseHourPattern (steps_text n) = Some (n, None)"
proof -
  have m: "n \<le> MAX_SAFE_INTEGER" using assms by (simp add: MAX_SAFE_INTEGER_def)
  show "printed HOUR True (steps_text n)"
    using assms printed_star [of HOUR True] printed_star_step [of HOUR n True]
    by (simp add: steps_text_def)
  show "plainValue (steps_text n) HOUR = None"
    using assms m plainValue_star [of HOUR] plainValue_star_step [of n HOUR]
    by (simp add: steps_text_def)
  show "parseHourPattern (steps_text n) = Some (n, None)"
    using assms m parse_star_step [of n HOUR] by (simp add: steps_text_def parseHourPattern_def)
qed

definition window_text :: "int \<Rightarrow> int \<Rightarrow> int \<Rightarrow> string" where
  "window_text lo hi n =
     string_of_int lo @ CHR ''-'' # string_of_int hi @
     (if n = 1 then [] else CHR ''/'' # string_of_int n)"

lemma hour_window:
  assumes "0 \<le> lo" "lo \<le> hi" "hi \<le> 23" "1 \<le> n" "n \<le> 23"
  shows "printed HOUR True (window_text lo hi n)" "plainValue (window_text lo hi n) HOUR = None"
    "\<not> (lo = 0 \<and> hi = 23) \<Longrightarrow> parseHourPattern (window_text lo hi n) = Some (n, Some (lo, hi))"
proof -
  have m: "n \<le> MAX_SAFE_INTEGER" using assms by (simp add: MAX_SAFE_INTEGER_def)
  have r: "parseRangePart (window_text lo hi n) HOUR =
      Some \<lparr>rlo = lo, rhi = hi, rstep = n, wildcard = False, stepped = (n \<noteq> 1), explicitRange = True\<rparr>"
    using assms m parse_range [of HOUR lo hi] parse_range_step [of HOUR lo hi n]
    by (simp add: window_text_def)
  show "printed HOUR True (window_text lo hi n)"
    using assms printed_range [of HOUR lo hi] printed_range_step [of HOUR lo hi n]
    by (simp add: window_text_def)
  show "plainValue (window_text lo hi n) HOUR = None" using r by (auto simp: plainValue_def)
  show "\<not> (lo = 0 \<and> hi = 23) \<Longrightarrow> parseHourPattern (window_text lo hi n) = Some (n, Some (lo, hi))"
    using r assms by (auto simp: parseHourPattern_def)
qed

lemma minute_value:
  assumes "0 \<le> m" "m \<le> 59"
  shows "printed MINUTE False (string_of_nat (nat m))" "plainValue (string_of_nat (nat m)) MINUTE = Some m"
    "is_digit (hd (string_of_nat (nat m)))"
  using assms printed_value [of MINUTE m False] plainValue_value [of MINUTE m]
    string_of_nat_char [OF list.set_sel(1) [OF string_of_nat_not_Nil]] by simp_all

lemma hour_value:
  assumes "0 \<le> h" "h \<le> 23"
  shows "printed HOUR True (string_of_nat (nat h))" "plainValue (string_of_nat (nat h)) HOUR = Some h"
    "parseHourPattern (string_of_nat (nat h)) = Some (1, Some (h, h))"
  using assms printed_value [of HOUR h True] plainValue_value [of HOUR h] parse_value [of HOUR h]
  by (simp_all add: parseHourPattern_def)

lemma settled_windowE:
  assumes "settled_window w fm tm"
  obtains lo hi where "w = \<lparr>wfrom = clock lo fm, wto = clock hi tm\<rparr>" "0 \<le> lo" "lo \<le> hi" "hi \<le> 23"
    "\<not> (lo = 0 \<and> hi = 23)"
  using assms by (cases w) (auto simp: settled_window_def split: option.splits)

definition reads_back :: "time_pattern \<Rightarrow> bool" where
  "reads_back tp \<longleftrightarrow>
     printed MINUTE False (fst (time_fields tp)) \<and> printed HOUR True (snd (time_fields tp)) \<and>
     parseTimeFields (fst (time_fields tp)) (snd (time_fields tp)) = Some tp \<and>
     (is_digit (hd (fst (time_fields tp))) \<or> hd (fst (time_fields tp)) = CHR ''*'')"

lemma reads_back_at:
  "0 \<le> h \<Longrightarrow> h \<le> 23 \<Longrightarrow> 0 \<le> m \<Longrightarrow> m \<le> 59 \<Longrightarrow> reads_back (At (clock h m))"
  using minute_value [of m] hour_value [of h]
  by (simp add: reads_back_def time_fields_def string_of_number_def parseTimeFields_def
      parse_fixed_minute_def)

lemma reads_back_hours:
  assumes "1 \<le> n" "n \<le> 23" "0 \<le> m" "m \<le> 59"
  shows "reads_back (Every n Hours None m)"
    "0 \<le> lo \<Longrightarrow> lo \<le> hi \<Longrightarrow> hi \<le> 23 \<Longrightarrow> \<not> (lo = 0 \<and> hi = 23) \<Longrightarrow>
     reads_back (Every n Hours (Some \<lparr>wfrom = clock lo m, wto = clock hi m\<rparr>) m)"
proof -
  have "time_fields (Every n Hours None m) = (string_of_nat (nat m), steps_text n)"
    using assms by (simp add: time_fields_def steps_text_def)
  then show "reads_back (Every n Hours None m)"
    using assms minute_value [of m] hour_steps [of n]
    by (simp add: reads_back_def parseTimeFields_def parse_fixed_minute_def)
next
  assume w: "0 \<le> lo" "lo \<le> hi" "hi \<le> 23" "\<not> (lo = 0 \<and> hi = 23)"
  have "time_fields (Every n Hours (Some \<lparr>wfrom = clock lo m, wto = clock hi m\<rparr>) m) =
      (string_of_nat (nat m), window_text lo hi n)"
    using assms w by (simp add: time_fields_def window_text_def string_of_number_def)
  then show "reads_back (Every n Hours (Some \<lparr>wfrom = clock lo m, wto = clock hi m\<rparr>) m)"
    using assms w minute_value [of m] hour_window [of lo hi n]
    by (simp add: reads_back_def parseTimeFields_def parse_fixed_minute_def)
qed

lemma reads_back_minutes:
  assumes "1 \<le> n" "n \<le> 59"
  shows "reads_back (Every n Minutes None 0)"
    "0 \<le> lo \<Longrightarrow> lo \<le> hi \<Longrightarrow> hi \<le> 23 \<Longrightarrow> \<not> (lo = 0 \<and> hi = 23) \<Longrightarrow>
     reads_back (Every n Minutes (Some \<lparr>wfrom = clock lo 0, wto = clock hi 59\<rparr>) 0)"
proof -
  have "time_fields (Every n Minutes None 0) = (steps_text n, steps_text 1)"
    using assms by (simp add: time_fields_def steps_text_def)
  then show "reads_back (Every n Minutes None 0)"
    using assms minute_steps [of n] hour_steps [of 1]
    by (simp add: reads_back_def parseTimeFields_def parse_minute_interval_def)
next
  assume w: "0 \<le> lo" "lo \<le> hi" "hi \<le> 23" "\<not> (lo = 0 \<and> hi = 23)"
  let ?tp = "Every n Minutes (Some \<lparr>wfrom = clock lo 0, wto = clock hi 59\<rparr>) 0"
  have t: "time_fields ?tp =
      (steps_text n, if lo = hi then string_of_nat (nat lo) else window_text lo hi 1)"
    using assms w by (simp add: time_fields_def steps_text_def window_text_def string_of_number_def
        num_eq_def)
  show "reads_back ?tp"
  proof (cases "lo = hi")
    case True
    then show ?thesis
      using assms w t minute_steps [of n] hour_value [of lo]
      by (simp add: reads_back_def parseTimeFields_def parse_minute_interval_def clock_00)
  next
    case False
    then show ?thesis
      using assms w t minute_steps [of n] hour_window [of lo hi 1]
      by (simp add: reads_back_def parseTimeFields_def parse_minute_interval_def clock_00)
  qed
qed

lemma time_roundtrip: "settled_time tp \<Longrightarrow> reads_back tp"
proof (cases tp)
  case (At tm)
  assume "settled_time tp"
  then obtain h m where "0 \<le> h" "h \<le> 23" "0 \<le> m" "m \<le> 59" "tm = clock h m"
    using At by (cases "fst (timeParts tm)"; cases "snd (timeParts tm)"; cases "timeParts tm")
      (auto simp: settled_time_def)
  then show ?thesis using At reads_back_at by simp
next
  case (Every n u win m)
  assume s: "settled_time tp"
  show ?thesis
  proof (cases u)
    case Minutes
    then show ?thesis
      using s Every reads_back_minutes
      by (cases win) (auto simp: settled_time_def elim!: settled_windowE)
  next
    case Hours
    then have b: "1 \<le> n" "n \<le> 23" "0 \<le> m" "m \<le> 59" using s Every by (simp_all add: settled_time_def)
    show ?thesis
    proof (cases win)
      case None
      then show ?thesis using Hours Every reads_back_hours(1) [OF b] by simp
    next
      case (Some w)
      then have "settled_window w m m" using s Every Hours by (simp add: settled_time_def)
      then obtain lo hi where "w = \<lparr>wfrom = clock lo m, wto = clock hi m\<rparr>" "0 \<le> lo" "lo \<le> hi" "hi \<le> 23"
        "\<not> (lo = 0 \<and> hi = 23)" by (rule settled_windowE)
      then show ?thesis using Some Hours Every reads_back_hours(2) [OF b, of lo hi] by simp
    qed
  qed
qed

section \<open>The expression as a whole\<close>

definition printed_fields :: "time_pattern \<Rightarrow> day_pattern \<Rightarrow> string" where
  "printed_fields tp dp =
     join '' '' [fst (time_fields tp), snd (time_fields tp), fst (day_fields dp), ''*'', snd (day_fields dp)]"

lemma cronFields_structured: "raw c = None \<Longrightarrow> cronFields c = printed_fields (time c) (days c)"
  by (simp add: cronFields_def printed_fields_def case_prod_beta Let_def)

definition dense :: "string \<Rightarrow> bool" where
  "dense s \<longleftrightarrow> s \<noteq> [] \<and> (\<forall>c \<in> set s. \<not> is_ws c)"

lemma dense_hd: "dense s \<Longrightarrow> s \<noteq> [] \<and> \<not> is_ws (hd s)"
  by (cases s) (auto simp: dense_def)

lemma dense_last: "dense s \<Longrightarrow> \<not> is_ws (last s)"
  by (auto simp: dense_def)

lemma split_dense:
  assumes "dense a" "dense b" "dense c" "dense d" "dense e"
  shows "split_ws (join '' '' [a, b, c, d, e]) = [a, b, c, d, e]"
    "trim (join '' '' [a, b, c, d, e]) = join '' '' [a, b, c, d, e]"
proof -
  have nows: "\<forall>x \<in> set s. \<not> is_ws x" if "dense s" for s using that by (simp add: dense_def)
  have ne: "a \<noteq> []" "b \<noteq> []" "c \<noteq> []" "d \<noteq> []" "e \<noteq> []" using assms by (simp_all add: dense_def)
  have h: "\<not> is_ws (hd b)" "\<not> is_ws (hd c)" "\<not> is_ws (hd d)" "\<not> is_ws (hd e)" "\<not> is_ws (hd a)"
    using assms by (simp_all add: dense_hd)
  show "split_ws (join '' '' [a, b, c, d, e]) = [a, b, c, d, e]"
    using ne h assms
    by (simp add: split_ws_space nows split_ws_single)
  show "trim (join '' '' [a, b, c, d, e]) = join '' '' [a, b, c, d, e]"
    using ne h dense_last [OF assms(5)] by (intro trim_id) simp
qed

lemma printed_dense: "printed b slot p \<Longrightarrow> dense p"
  by (simp add: printed_def text_ok_def dense_def)

lemma day_roundtrip:
  assumes "settled_days dp"
  shows "printed DOM False (fst (day_fields dp))" "dense (snd (day_fields dp))"
    "collapseWildcardList (normalizeField (snd (day_fields dp))) DOW = snd (day_fields dp)"
    "parse_day_fields (fst (day_fields dp)) (snd (day_fields dp)) = Some dp"
proof -
  have star: "printed DOM False ''*''" "dense ''*''" "collapseWildcardList (normalizeField ''*'') DOW = ''*''"
    by (simp_all add: printed_star dense_def normalizeField_text collapseWildcardList_def)
  have "printed DOM False (fst (day_fields dp)) \<and> dense (snd (day_fields dp)) \<and>
    collapseWildcardList (normalizeField (snd (day_fields dp))) DOW = snd (day_fields dp) \<and>
    parse_day_fields (fst (day_fields dp)) (snd (day_fields dp)) = Some dp"
  proof (cases dp)
    case EveryDay
    then show ?thesis using star by (simp add: day_fields_def parse_day_fields_def)
  next
    case (Weekly ds)
    then have "settled_days (Weekly ds)" "ds \<noteq> []" using assms by (auto simp: settled_days_def)
    then show ?thesis using star Weekly dow_roundtrip [of ds]
      by (simp add: day_fields_def parse_day_fields_def dense_def)
  next
    case (Monthly n)
    then have "1 \<le> n" "n \<le> 31" using assms by (auto simp: settled_days_def)
    then show ?thesis
      using star Monthly printed_value [of DOM n False] plainValue_value [of DOM n]
      by (simp add: day_fields_def parse_day_fields_def)
  qed
  then show "printed DOM False (fst (day_fields dp))" "dense (snd (day_fields dp))"
    "collapseWildcardList (normalizeField (snd (day_fields dp))) DOW = snd (day_fields dp)"
    "parse_day_fields (fst (day_fields dp)) (snd (day_fields dp)) = Some dp" by auto
qed

lemma printed_fields_props:
  assumes "settled_time tp" "settled_days dp"
  shows "parse_structured (printed_fields tp dp) = Some (tp, dp)"
    "trim (printed_fields tp dp) = printed_fields tp dp" "printed_fields tp dp \<noteq> []"
    "\<not> hasTimezonePrefix (printed_fields tp dp)"
proof -
  note t = time_roundtrip [OF assms(1), unfolded reads_back_def]
  note d = day_roundtrip [OF assms(2)]
  have s: "dense (fst (time_fields tp))" "dense (snd (time_fields tp))" "dense (fst (day_fields dp))"
    "dense ''*''" "dense (snd (day_fields dp))"
    using t d by (auto simp: dense_def printed_def text_ok_def)
  note sp = split_dense [OF s]
  show tr: "trim (printed_fields tp dp) = printed_fields tp dp"
    unfolding printed_fields_def by (rule sp(2))
  have mon: "collapseWildcardList (normalizeField ''*'') MONTH = ''*''"
    by (simp add: normalizeField_text collapseWildcardList_def)
  have "split_fields (printed_fields tp dp) =
      Some (fst (time_fields tp), snd (time_fields tp), fst (day_fields dp), ''*'', snd (day_fields dp))"
    unfolding split_fields_def tr unfolding printed_fields_def sp(1)
    using t d mon by (simp add: printed_field)
  then show "parse_structured (printed_fields tp dp) = Some (tp, dp)"
    using t d by (simp add: parse_structured_def)
  show ne: "printed_fields tp dp \<noteq> []"
    by (simp add: printed_fields_def)
  have "hd (printed_fields tp dp) = hd (fst (time_fields tp))"
    using s(1) by (simp add: printed_fields_def dense_def)
  then have "hd (printed_fields tp dp) \<noteq> CHR ''T''" "hd (printed_fields tp dp) \<noteq> CHR ''C''"
    using t by (auto dest: is_digit_chars simp: is_digit_def)
  then show "\<not> hasTimezonePrefix (printed_fields tp dp)"
    using ne by (auto simp: hasTimezonePrefix_def starts_with_iff)
qed

section \<open>The timezone prefix\<close>

lemma index_of_append [simp]: "c \<notin> set a \<Longrightarrow> index_of c (a @ c # b) = int (length a)"
  by (induction a) (auto simp: Let_def)

lemma trim_space [simp]: "trim (CHR '' '' # s) = trim s"
  by (simp add: trim_def trim_start_def is_ws_def)

lemma extract_printed:
  assumes "z \<noteq> []" "CHR '' '' \<notin> set z" "f \<noteq> []" "trim f = f" "\<not> hasTimezonePrefix f"
  shows "extractTimezonePrefix canon (''TZ='' @ z @ '' '' @ f) = map_option (\<lambda>z'. (z', f)) (canon z)"
proof -
  let ?e = "''TZ='' @ z @ '' '' @ f"
  have "hasTimezonePrefix ?e" by (simp add: hasTimezonePrefix_def starts_with_def)
  moreover have "index_of CHR '' '' ?e = 3 + int (length z)"
    using index_of_append [of "CHR '' ''" "''TZ='' @ z" f] assms(2) by simp
  moreover have "index_of CHR ''='' ?e = 2" by simp
  moreover have "slice_from (slice_to ?e (3 + int (length z))) 3 = z"
    by (simp add: nat_add_distrib numeral_3_eq_3)
  moreover have "slice_from ?e (3 + int (length z)) = CHR '' '' # f"
    by (simp add: nat_add_distrib numeral_3_eq_3)
  ultimately show ?thesis
    using assms by (simp add: extractTimezonePrefix_def)
qed

text \<open>What a text without an extractable prefix, and what the printed text, parse to.\<close>

definition structured :: "string \<Rightarrow> string \<Rightarrow> schedule_config" where
  "structured body tz =
     (case parse_structured body of
        None \<Rightarrow> (getDefaultScheduleConfig tz)\<lparr>raw := Some body\<rparr>
      | Some (t, d) \<Rightarrow> \<lparr>time = t, days = d, timezone = tz, raw = None\<rparr>)"

lemma parseCron_eq:
  "parseCron canon e tz =
     (case extractTimezonePrefix canon e of
        None \<Rightarrow> structured e tz
      | Some (z, rest) \<Rightarrow> structured rest z)"
  by (simp add: parseCron_def structured_def Let_def split: option.splits prod.splits)

lemma structured_timezone [simp]: "timezone (structured body tz) = tz"
  by (simp add: structured_def getDefaultScheduleConfig_def split: option.splits prod.splits)

text \<open>Printing a text that has its prefix split off and reading it back.\<close>

definition zone_ok :: "(string \<Rightarrow> string option) \<Rightarrow> string \<Rightarrow> bool" where
  "zone_ok canon z \<longleftrightarrow> z = [] \<or> CHR '' '' \<in> set z \<or> canon z = Some z"

lemma reparse:
  assumes fields: "cronFields c = f" and body: "\<not> hasTimezonePrefix f" and z: "zone_ok canon (timezone c)"
  shows "parseCron canon (toCron c) (timezone c) = structured f (timezone c)"
proof (cases "f = [] \<or> f \<noteq> trim f \<or> timezone c = [] \<or> CHR '' '' \<in> set (timezone c)")
  case True
  then have "toCron c = f" using body by (auto simp: toCron_def fields)
  then show ?thesis using body by (simp add: parseCron_eq extractTimezonePrefix_def)
next
  case False
  then have "toCron c = ''TZ='' @ timezone c @ '' '' @ f"
    using body by (simp add: toCron_def fields)
  moreover have "extractTimezonePrefix canon (''TZ='' @ timezone c @ '' '' @ f) =
      map_option (\<lambda>z'. (z', f)) (canon (timezone c))"
    using False body by (intro extract_printed) auto
  moreover have "canon (timezone c) = Some (timezone c)" using z False by (auto simp: zone_ok_def)
  ultimately show ?thesis by (simp add: parseCron_eq)
qed

lemma structured_settled:
  assumes "raw (structured body tz) = None"
  shows "settled (structured body tz)"
    "\<forall>m \<in> moments. cron_fires (fields_of body) m = config_fires (structured body tz) m"
proof -
  obtain t d where p: "parse_structured body = Some (t, d)"
    using assms by (auto simp: structured_def split: option.splits)
  show "settled (structured body tz)"
    using parse_structured_sound(1,2) [OF p] p by (simp add: structured_def settled_def)
  show "\<forall>m \<in> moments. cron_fires (fields_of body) m = config_fires (structured body tz) m"
    using parse_structured_sound(3) [OF p, of tz] p by (simp add: structured_def)
qed

lemma structured_printed: "settled c \<Longrightarrow> structured (cronFields c) (timezone c) = c"
  by (cases c)
    (simp add: settled_def structured_def cronFields_structured printed_fields_props)

lemma settled_reload:
  assumes "settled c" and "zone_ok canon (timezone c)"
  shows "parseCron canon (toCron c) (timezone c) = c"
proof -
  have c: "raw c = None" "settled_time (time c)" "settled_days (days c)"
    using assms(1) by (auto simp: settled_def)
  have "\<not> hasTimezonePrefix (cronFields c)"
    using printed_fields_props [OF c(2,3)] by (simp add: cronFields_structured [OF c(1)])
  then show ?thesis
    using reparse [OF refl _ assms(2)] structured_printed [OF assms(1)] by simp
qed

lemma structured_reload:
  assumes "\<not> hasTimezonePrefix body \<or> raw (structured body z) = None" and "zone_ok canon z"
  shows "parseCron canon (toCron (structured body z)) z = structured body z"
proof (cases "raw (structured body z) = None")
  case True
  then show ?thesis using settled_reload [OF structured_settled(1) [OF True]] assms(2) by simp
next
  case False
  then have "raw (structured body z) = Some body"
    by (auto simp: structured_def split: option.splits prod.splits)
  then have "cronFields (structured body z) = body" by (simp add: cronFields_def)
  then show ?thesis using reparse [of "structured body z" body canon] assms False by simp
qed

lemma prefixed_reload:
  assumes "hasTimezonePrefix e" "extractTimezonePrefix canon e = None" "raw (structured e z) \<noteq> None"
  shows "parseCron canon (toCron (structured e z)) z = structured e z"
proof -
  have "raw (structured e z) = Some e"
    using assms(3) by (auto simp: structured_def split: option.splits prod.splits)
  then have "toCron (structured e z) = e" using assms(1) by (simp add: toCron_def cronFields_def)
  then show ?thesis using assms(2) by (simp add: parseCron_eq)
qed

lemma extract_Some:
  assumes "extractTimezonePrefix canon e = Some (z, rest)"
  shows "\<exists>name. canon name = Some z" "\<not> hasTimezonePrefix rest"
  using assms by (auto simp: extractTimezonePrefix_def Let_def split: if_splits)

text \<open>The runs of a day set are its ascending days cut into maximal stretches: flattening them gives the sorted days without repetition, every run is ascending, and between two neighbouring runs at least one day is missing.\<close>

theorem consecutiveRuns_maximal:
  "concat (map run_days (consecutiveRuns ds)) = sort (remdups ds) \<and>
   list_all (\<lambda>p. fst p \<le> snd p) (consecutiveRuns ds) \<and> separated (consecutiveRuns ds)"
proof -
  have "sorted_wrt (<) (sort (remdups ds))" by (simp add: strict_sorted_iff)
  then show ?thesis
    by (simp add: consecutiveRuns_def runs_of_days runs_of_separated list_all_iff runs_of_le)
qed

text \<open>C4. The two collapse rules change the text of a field, never what it selects: the set of values and the star that decides between dom AND dow and dom OR dow are those of the field, and a malformed field stays malformed.\<close>

theorem collapse_keeps_meaning:
  assumes "bounds_ok b"
  shows "field_meaning (collapseDegenerateRange (collapseWildcardList f b) b slot) b = field_meaning f b"
  using assms by (simp add: collapseDegenerateRange_meaning collapseWildcardList_meaning)

lemma collapse_keeps_meaning_witness:
  "field_meaning (collapseDegenerateRange (collapseWildcardList ''10-20/30'' MINUTE) MINUTE False) MINUTE =
     field_meaning ''10-20/30'' MINUTE \<and>
   collapseDegenerateRange (collapseWildcardList ''10-20/30'' MINUTE) MINUTE False = ''10''"
proof -
  have "collapseDegenerateRange (collapseWildcardList ''10-20/30'' MINUTE) MINUTE False = ''10''"
    by code_simp
  then show ?thesis using collapse_keeps_meaning [OF bounds_ok_fields(1), of "''10-20/30''" False] by simp
qed



text \<open>C6. Parsing never produces a half-structured schedule: the result is either settled (times on the clock, intervals and windows within their bounds, days non-empty, ascending and in the week) or the default schedule carrying the text of the fields verbatim.\<close>

theorem parseCron_total:
  "settled (parseCron canon e tz) \<or>
   (\<exists>z body. parseCron canon e tz = (getDefaultScheduleConfig z)\<lparr>raw := Some body\<rparr> \<and>
      (extractTimezonePrefix canon e = Some (z, body) \<or>
       extractTimezonePrefix canon e = None \<and> z = tz \<and> body = e))"
proof -
  have s: "settled (structured body z) \<or> structured body z = (getDefaultScheduleConfig z)\<lparr>raw := Some body\<rparr>"
    for body z
    using structured_settled(1) [of body z] by (auto simp: structured_def split: option.splits)
  show ?thesis
  proof (cases "extractTimezonePrefix canon e")
    case None
    then show ?thesis using s [of e tz] by (simp add: parseCron_eq)
  next
    case (Some p)
    then show ?thesis using s [of "snd p" "fst p"] by (cases p) (simp add: parseCron_eq)
  qed
qed

text \<open>C7. Printing a settled schedule and reading it back gives the schedule, with its timezone riding in the prefix.\<close>

theorem parseCron_toCron:
  assumes "settled c" and "zone_ok canon (timezone c)"
  shows "parseCron canon (toCron c) (timezone c) = c"
  using assms by (rule settled_reload)

definition office_hours :: schedule_config where
  "office_hours =
     \<lparr>time = Every 2 Hours (Some \<lparr>wfrom = ''09:30'', wto = ''17:30''\<rparr>) 30,
      days = Weekly [1, 2, 3, 5], timezone = ''Asia/Tokyo'', raw = None\<rparr>"

lemma parseCron_toCron_witness:
  "parseCron Some (toCron office_hours) ''Asia/Tokyo'' = office_hours \<and>
   toCron office_hours = ''TZ=Asia/Tokyo 30 9-17/2 * * 1-3,5''"
proof -
  have "settled office_hours" "toCron office_hours = ''TZ=Asia/Tokyo 30 9-17/2 * * 1-3,5''"
    "timezone office_hours = ''Asia/Tokyo''" by code_simp+
  moreover have "zone_ok Some ''Asia/Tokyo''" by (simp add: zone_ok_def)
  ultimately show ?thesis using parseCron_toCron [of office_hours Some] by simp
qed

text \<open>Saving and reloading keeps the editor where it was, for every expression, structured or not: parsing what was printed from a parsed expression gives the same schedule.\<close>

theorem reload_fixpoint:
  assumes canon: "\<And>z z'. canon z = Some z' \<Longrightarrow> canon z' = Some z'" and tz: "zone_ok canon tz"
  shows "parseCron canon (toCron (parseCron canon e tz)) (timezone (parseCron canon e tz)) = parseCron canon e tz"
proof (cases "extractTimezonePrefix canon e")
  case None
  then have c: "parseCron canon e tz = structured e tz" by (simp add: parseCron_eq)
  show ?thesis
  proof (cases "hasTimezonePrefix e \<and> raw (structured e tz) \<noteq> None")
    case True
    then show ?thesis using prefixed_reload [OF _ None] c by simp
  next
    case False
    then show ?thesis using structured_reload [OF _ tz, of e] c by simp
  qed
next
  case (Some p)
  obtain z rest where p: "p = (z, rest)" by (cases p)
  have x: "extractTimezonePrefix canon e = Some (z, rest)" using Some p by simp
  obtain name where "canon name = Some z" using extract_Some(1) [OF x] by blast
  then have "zone_ok canon z" using canon by (simp add: zone_ok_def)
  moreover have "parseCron canon e tz = structured rest z" using x by (simp add: parseCron_eq)
  ultimately show ?thesis
    using structured_reload [of rest z canon] extract_Some(2) [OF x] by simp
qed

definition canon_demo :: "string \<Rightarrow> string option" where
  "canon_demo z =
     (if z = ''UTC'' \<or> z = ''Asia/Tokyo'' then Some z
      else if z = ''asia/tokyo'' then Some ''Asia/Tokyo'' else None)"

lemma reload_fixpoint_witness:
  "parseCron canon_demo (toCron (parseCron canon_demo ''CRON_TZ=asia/tokyo 0 9 1,15 * *'' ''UTC'')) ''Asia/Tokyo'' =
     parseCron canon_demo ''CRON_TZ=asia/tokyo 0 9 1,15 * *'' ''UTC'' \<and>
   raw (parseCron canon_demo ''CRON_TZ=asia/tokyo 0 9 1,15 * *'' ''UTC'') = Some ''0 9 1,15 * *''"
proof -
  have "\<And>z z'. canon_demo z = Some z' \<Longrightarrow> canon_demo z' = Some z'"
    by (auto simp: canon_demo_def split: if_splits)
  moreover have "zone_ok canon_demo ''UTC''" by (simp add: zone_ok_def canon_demo_def)
  moreover have "timezone (parseCron canon_demo ''CRON_TZ=asia/tokyo 0 9 1,15 * *'' ''UTC'') = ''Asia/Tokyo''"
    "raw (parseCron canon_demo ''CRON_TZ=asia/tokyo 0 9 1,15 * *'' ''UTC'') = Some ''0 9 1,15 * *''"
    by code_simp+
  ultimately show ?thesis
    using reload_fixpoint [of canon_demo "''UTC''" "''CRON_TZ=asia/tokyo 0 9 1,15 * *''"] by simp
qed

end
