(* ===== verification/Issue_Cache.thy ===== *)
theory Issue_Cache
  imports JS_Prelude
begin

text \<open>
  Issues, patches and the bucketed list cache (\<open>packages/core/issues/cache-helpers.ts\<close>,
  \<open>surface/membership.ts\<close>). The fields the code reads are record fields; the others travel in
  \<open>other_fields\<close>, their values standing for references. In a patch \<open>None\<close> is an absent field
  (a field written as \<open>undefined\<close> is not modelled), and a nullable field is a nested option.
  A position is only ever compared, so it is an integer.
\<close>

section \<open>Issues and patches\<close>

datatype issue_status = Backlog | Todo | In_progress | In_review | Done | Blocked | Cancelled

definition ALL_STATUSES :: "issue_status list" where
  "ALL_STATUSES = [Backlog, Todo, In_progress, In_review, Done, Blocked, Cancelled]"

definition PAGINATED_STATUSES :: "issue_status list" where
  "PAGINATED_STATUSES = ALL_STATUSES"

datatype issue_priority = Urgent | High | Medium | Low | NoPriority

datatype assignee_kind = MemberActor | AgentActor | SquadActor

text \<open>The values of custom properties; a number is only compared, so it is an integer.\<close>

datatype prop_value = PText string | PNum int | PBool bool | PList "string list"

record issue =
  issue_id :: string
  title :: string
  status :: issue_status
  priority :: issue_priority
  assignee_type :: "assignee_kind option"
  assignee_id :: "string option"
  creator_id :: string
  parent_issue_id :: "string option"
  project_id :: "string option"
  position :: int
  start_date :: "string option"
  due_date :: "string option"
  created_at :: string
  updated_at :: string
  properties :: "prop_value obj option"
  other_fields :: "string obj"

text \<open>\<open>Partial<Issue>\<close>\<close>

record issue_patch =
  p_title :: "string option"
  p_status :: "issue_status option"
  p_priority :: "issue_priority option"
  p_assignee_type :: "assignee_kind option option"
  p_assignee_id :: "string option option"
  p_creator_id :: "string option"
  p_parent_issue_id :: "string option option"
  p_project_id :: "string option option"
  p_position :: "int option"
  p_start_date :: "string option option"
  p_due_date :: "string option option"
  p_created_at :: "string option"
  p_updated_at :: "string option"
  p_properties :: "prop_value obj option"
  p_other :: "string obj"

definition no_patch :: issue_patch where
  "no_patch =
     \<lparr>p_title = None, p_status = None, p_priority = None, p_assignee_type = None,
      p_assignee_id = None, p_creator_id = None, p_parent_issue_id = None, p_project_id = None,
      p_position = None, p_start_date = None, p_due_date = None, p_created_at = None,
      p_updated_at = None, p_properties = None,
      p_other = []\<rparr>"

text \<open>An issue as the partial issue with every field, the spread \<open>{...base, ...patch}\<close> of two
  partial issues, and of an issue and a patch.\<close>

definition as_partial :: "issue \<Rightarrow> issue_patch" where
  "as_partial i =
     \<lparr>p_title = Some (title i), p_status = Some (status i), p_priority = Some (priority i),
      p_assignee_type = Some (assignee_type i), p_assignee_id = Some (assignee_id i),
      p_creator_id = Some (creator_id i), p_parent_issue_id = Some (parent_issue_id i),
      p_project_id = Some (project_id i), p_position = Some (position i),
      p_start_date = Some (start_date i), p_due_date = Some (due_date i),
      p_created_at = Some (created_at i), p_updated_at = Some (updated_at i),
      p_properties = properties i, p_other = other_fields i\<rparr>"

definition over :: "'a option \<Rightarrow> 'a option \<Rightarrow> 'a option" where
  "over p q = (case q of None \<Rightarrow> p | Some v \<Rightarrow> Some v)"

definition spread_fields :: "string obj \<Rightarrow> string obj \<Rightarrow> string obj" where
  "spread_fields ob q = foldl (\<lambda>acc (k, v). obj_set acc k v) ob q"

definition spread :: "issue_patch \<Rightarrow> issue_patch \<Rightarrow> issue_patch" where
  "spread p q =
     \<lparr>p_title = over (p_title p) (p_title q), p_status = over (p_status p) (p_status q),
      p_priority = over (p_priority p) (p_priority q),
      p_assignee_type = over (p_assignee_type p) (p_assignee_type q),
      p_assignee_id = over (p_assignee_id p) (p_assignee_id q),
      p_creator_id = over (p_creator_id p) (p_creator_id q),
      p_parent_issue_id = over (p_parent_issue_id p) (p_parent_issue_id q),
      p_project_id = over (p_project_id p) (p_project_id q),
      p_position = over (p_position p) (p_position q),
      p_start_date = over (p_start_date p) (p_start_date q),
      p_due_date = over (p_due_date p) (p_due_date q),
      p_created_at = over (p_created_at p) (p_created_at q),
      p_updated_at = over (p_updated_at p) (p_updated_at q),
      p_properties = over (p_properties p) (p_properties q),
      p_other = spread_fields (p_other p) (p_other q)\<rparr>"

definition or_else :: "'a \<Rightarrow> 'a option \<Rightarrow> 'a" where
  "or_else d x = (case x of None \<Rightarrow> d | Some v \<Rightarrow> v)"

definition patched :: "issue \<Rightarrow> issue_patch \<Rightarrow> issue" where
  "patched i p =
     \<lparr>issue_id = issue_id i, title = or_else (title i) (p_title p),
      status = or_else (status i) (p_status p), priority = or_else (priority i) (p_priority p),
      assignee_type = or_else (assignee_type i) (p_assignee_type p),
      assignee_id = or_else (assignee_id i) (p_assignee_id p),
      creator_id = or_else (creator_id i) (p_creator_id p),
      parent_issue_id = or_else (parent_issue_id i) (p_parent_issue_id p),
      project_id = or_else (project_id i) (p_project_id p),
      position = or_else (position i) (p_position p),
      start_date = or_else (start_date i) (p_start_date p),
      due_date = or_else (due_date i) (p_due_date p),
      created_at = or_else (created_at i) (p_created_at p),
      updated_at = or_else (updated_at i) (p_updated_at p),
      properties = over (properties i) (p_properties p),
      other_fields = spread_fields (other_fields i) (p_other p)\<rparr>"

section \<open>Buckets\<close>

record issue_bucket =
  bucket_issues :: "issue list"
  bucket_total :: int

text \<open>\<open>byStatus\<close>: a status may have no bucket.\<close>

type_synonym list_cache = "issue_status \<Rightarrow> issue_bucket option"

definition EMPTY_BUCKET :: issue_bucket where
  "EMPTY_BUCKET = \<lparr>bucket_issues = [], bucket_total = 0\<rparr>"

definition getBucket :: "list_cache \<Rightarrow> issue_status \<Rightarrow> issue_bucket" where
  "getBucket resp s = or_else EMPTY_BUCKET (resp s)"

definition setBucket :: "list_cache \<Rightarrow> issue_status \<Rightarrow> issue_bucket \<Rightarrow> list_cache" where
  "setBucket resp s b = resp(s := Some b)"

fun find_location_from :: "issue_status list \<Rightarrow> list_cache \<Rightarrow> string \<Rightarrow> (issue_status \<times> issue) option" where
  "find_location_from [] resp i = None"
| "find_location_from (s # ss) resp i =
     (case find (\<lambda>x. issue_id x = i) (bucket_issues (getBucket resp s)) of
        Some found \<Rightarrow> Some (s, found)
      | None \<Rightarrow> find_location_from ss resp i)"

definition findIssueLocation :: "list_cache \<Rightarrow> string \<Rightarrow> (issue_status \<times> issue) option" where
  "findIssueLocation resp i = find_location_from PAGINATED_STATUSES resp i"

definition addIssueToBuckets :: "list_cache \<Rightarrow> issue \<Rightarrow> list_cache" where
  "addIssueToBuckets resp x =
     (let b = getBucket resp (status x) in
      if list_ex (\<lambda>y. issue_id y = issue_id x) (bucket_issues b) then resp
      else setBucket resp (status x)
             \<lparr>bucket_issues = bucket_issues b @ [x], bucket_total = bucket_total b + 1\<rparr>)"

definition removeIssueFromBuckets :: "list_cache \<Rightarrow> string \<Rightarrow> list_cache" where
  "removeIssueFromBuckets resp i =
     (case findIssueLocation resp i of
        None \<Rightarrow> resp
      | Some (s, x) \<Rightarrow>
          (let b = getBucket resp s in
           setBucket resp s
             \<lparr>bucket_issues = filter (\<lambda>y. issue_id y \<noteq> i) (bucket_issues b),
              bucket_total = max 0 (bucket_total b - 1)\<rparr>))"

definition moveBucketTotal :: "list_cache \<Rightarrow> issue_status \<Rightarrow> issue_status \<Rightarrow> list_cache" where
  "moveBucketTotal resp s t =
     (if s = t then resp
      else (let fromB = getBucket resp s; toB = getBucket resp t;
                next = setBucket resp s (fromB\<lparr>bucket_total := max 0 (bucket_total fromB - 1)\<rparr>)
            in setBucket next t (toB\<lparr>bucket_total := bucket_total toB + 1\<rparr>)))"

definition decrementBucketTotal :: "list_cache \<Rightarrow> issue_status \<Rightarrow> list_cache" where
  "decrementBucketTotal resp s =
     (let b = getBucket resp s in setBucket resp s (b\<lparr>bucket_total := max 0 (bucket_total b - 1)\<rparr>))"

definition insertByPosition :: "issue list \<Rightarrow> issue \<Rightarrow> issue list" where
  "insertByPosition xs x =
     (case find_index (\<lambda>y. position y > position x) xs of
        None \<Rightarrow> xs @ [x]
      | Some i \<Rightarrow> take i xs @ [x] @ drop i xs)"

definition patchIssueInBuckets :: "list_cache \<Rightarrow> string \<Rightarrow> issue_patch \<Rightarrow> list_cache" where
  "patchIssueInBuckets resp i p =
     (case findIssueLocation resp i of
        None \<Rightarrow> resp
      | Some (s, x) \<Rightarrow>
          (let merged = patched x p; t = or_else s (p_status p) in
           if t = s then
             (let b = getBucket resp s;
                  positionChanged = (p_position p \<noteq> None \<and> p_position p \<noteq> Some (position x)) in
              if \<not> positionChanged then
                setBucket resp s
                  (b\<lparr>bucket_issues := map (\<lambda>y. if issue_id y = i then merged else y) (bucket_issues b)\<rparr>)
              else
                setBucket resp s
                  (b\<lparr>bucket_issues :=
                      insertByPosition (filter (\<lambda>y. issue_id y \<noteq> i) (bucket_issues b)) merged\<rparr>))
           else
             (let fromB = getBucket resp s; toB = getBucket resp t;
                  next = setBucket resp s
                    \<lparr>bucket_issues = filter (\<lambda>y. issue_id y \<noteq> i) (bucket_issues fromB),
                     bucket_total = max 0 (bucket_total fromB - 1)\<rparr>
              in setBucket next t
                   \<lparr>bucket_issues = insertByPosition (bucket_issues toB) merged,
                    bucket_total = bucket_total toB + 1\<rparr>)))"

definition flattenIssueBuckets :: "list_cache \<Rightarrow> issue list" where
  "flattenIssueBuckets resp =
     concat (map (\<lambda>s. case resp s of None \<Rightarrow> [] | Some b \<Rightarrow> bucket_issues b) PAGINATED_STATUSES)"

section \<open>Membership in a filtered list\<close>

datatype membership = IsMember | NotMember | Undecided

record changed_dims =
  ch_assignee :: bool
  ch_project :: bool
  ch_status :: bool

text \<open>\<open>MyIssuesFilter\<close>\<close>

record my_filter =
  f_assignee_id :: "string option"
  f_assignee_ids :: "string list option"
  f_assignee_types :: "assignee_kind list option"
  f_creator_id :: "string option"
  f_project_id :: "string option"
  f_involves_user_id :: "string option"

text \<open>\<open>has(f) && (!base || base.f !== p.f)\<close>\<close>

definition field_changed :: "'a option \<Rightarrow> 'a option \<Rightarrow> bool" where
  "field_changed pv bv \<longleftrightarrow> (case pv of None \<Rightarrow> False | Some v \<Rightarrow> bv \<noteq> Some v)"

definition issueChangedDims :: "issue_patch \<Rightarrow> issue option \<Rightarrow> changed_dims" where
  "issueChangedDims p base =
     \<lparr>ch_assignee = (field_changed (p_assignee_id p) (map_option assignee_id base) \<or>
                     field_changed (p_assignee_type p) (map_option assignee_type base)),
      ch_project = field_changed (p_project_id p) (map_option project_id base),
      ch_status = field_changed (p_status p) (map_option status base)\<rparr>"

definition listFilterDependsOn :: "string option \<Rightarrow> 'a my_filter_scheme \<Rightarrow> changed_dims \<Rightarrow> bool" where
  "listFilterDependsOn scope flt ch \<longleftrightarrow>
     (if scope = Some ''all'' then ch_assignee ch
      else if ch_assignee ch \<and>
          (f_assignee_id flt \<noteq> None \<or> f_assignee_ids flt \<noteq> None \<or> f_assignee_types flt \<noteq> None \<or>
           f_involves_user_id flt \<noteq> None) then True
      else if ch_project ch \<and> f_project_id flt \<noteq> None then True
      else False)"

text \<open>One test of the filter: \<open>None\<close> leaves the answer as it is, \<open>Some unknown\<close> continues.\<close>

definition test_eq :: "string option \<Rightarrow> 'a option \<Rightarrow> ('a \<Rightarrow> string option) \<Rightarrow> bool \<Rightarrow> bool option" where
  "test_eq want have get unknown =
     (case want of
        None \<Rightarrow> Some unknown
      | Some w \<Rightarrow>
          (case have of
             None \<Rightarrow> Some True
           | Some v \<Rightarrow> if get v \<noteq> Some w then None else Some unknown))"

definition test_in :: "'v list option \<Rightarrow> 'v option option \<Rightarrow> bool \<Rightarrow> bool option" where
  "test_in want have unknown =
     (case want of
        None \<Rightarrow> Some unknown
      | Some ws \<Rightarrow>
          (case have of
             None \<Rightarrow> Some True
           | Some None \<Rightarrow> None
           | Some (Some v) \<Rightarrow> if v \<notin> set ws then None else Some unknown))"

definition filter_tests :: "issue_patch \<Rightarrow> 'a my_filter_scheme \<Rightarrow> bool option" where
  "filter_tests i flt =
     Option.bind (test_eq (f_assignee_id flt) (p_assignee_id i) (\<lambda>v. v) False)
       (\<lambda>u. Option.bind (test_in (f_assignee_ids flt) (p_assignee_id i) u)
       (\<lambda>u. Option.bind (test_in (f_assignee_types flt) (p_assignee_type i) u)
       (\<lambda>u. Option.bind (test_eq (f_creator_id flt) (p_creator_id i) Some u)
       (\<lambda>u. test_eq (f_project_id flt) (p_project_id i) (\<lambda>v. v) u))))"

definition issueMatchesListFilter ::
    "issue_patch \<Rightarrow> string option \<Rightarrow> 'a my_filter_scheme \<Rightarrow> membership" where
  "issueMatchesListFilter i scope flt =
     (if scope = Some ''all'' then Undecided
      else
        (case filter_tests i flt of
           None \<Rightarrow> NotMember
         | Some u \<Rightarrow>
             if f_involves_user_id flt \<noteq> None then Undecided
             else if u then Undecided else IsMember))"

end
