(* ===== verification/Issue_Facts.thy ===== *)
theory Issue_Facts
  imports Issue_Cache
begin

text \<open>
  The invariant of a bucketed list (every card in the bucket of its status, each card once,
  buckets in position order, no more cards loaded than counted), the effect of the bucket
  operations on cards and totals, and the three-valued membership test against the filter it
  decides.
\<close>

named_theorems bucket_simps \<open>reading a bucket after an operation\<close>

lemma all_statuses [simp]: "set ALL_STATUSES = UNIV" "set PAGINATED_STATUSES = UNIV"
proof -
  have "s \<in> set ALL_STATUSES" for s by (cases s) (simp_all add: ALL_STATUSES_def)
  then show "set ALL_STATUSES = UNIV" "set PAGINATED_STATUSES = UNIV"
    by (auto simp: PAGINATED_STATUSES_def)
qed

lemma distinct_statuses [simp]: "distinct ALL_STATUSES"
  by (simp add: ALL_STATUSES_def)

section \<open>The invariant\<close>

abbreviation cards :: "list_cache \<Rightarrow> issue_status \<Rightarrow> issue list" where
  "cards resp s \<equiv> bucket_issues (getBucket resp s)"

abbreviation counted :: "list_cache \<Rightarrow> issue_status \<Rightarrow> int" where
  "counted resp s \<equiv> bucket_total (getBucket resp s)"

definition bucket_ok :: "issue_status \<Rightarrow> issue_bucket \<Rightarrow> bool" where
  "bucket_ok s b \<longleftrightarrow>
     list_all (\<lambda>x. status x = s) (bucket_issues b) \<and>
     sorted (map position (bucket_issues b)) \<and>
     int (length (bucket_issues b)) \<le> bucket_total b"

definition cache_ok :: "list_cache \<Rightarrow> bool" where
  "cache_ok resp \<longleftrightarrow>
     list_all (\<lambda>s. bucket_ok s (getBucket resp s)) ALL_STATUSES \<and>
     distinct (concat (map (\<lambda>s. map issue_id (cards resp s)) ALL_STATUSES))"

lemma distinct_concat_map:
  "distinct ss \<Longrightarrow> distinct (concat (map f ss)) \<longleftrightarrow>
     (\<forall>s \<in> set ss. distinct (f s)) \<and>
     (\<forall>s \<in> set ss. \<forall>t \<in> set ss. s \<noteq> t \<longrightarrow> set (f s) \<inter> set (f t) = {})"
proof (induction ss)
  case (Cons a ss)
  have a: "a \<notin> set ss" "distinct ss" using Cons.prems by auto
  have "set (f a) \<inter> set (concat (map f ss)) = {} \<longleftrightarrow> (\<forall>t \<in> set ss. set (f a) \<inter> set (f t) = {})" by auto
  moreover have "(\<forall>s \<in> set (a # ss). \<forall>t \<in> set (a # ss). s \<noteq> t \<longrightarrow> set (f s) \<inter> set (f t) = {}) \<longleftrightarrow>
      (\<forall>t \<in> set ss. set (f a) \<inter> set (f t) = {}) \<and>
      (\<forall>s \<in> set ss. \<forall>t \<in> set ss. s \<noteq> t \<longrightarrow> set (f s) \<inter> set (f t) = {})" (is "?L \<longleftrightarrow> ?A \<and> ?B")
  proof
    show "?L \<Longrightarrow> ?A \<and> ?B" using a by fastforce
    show "?A \<and> ?B \<Longrightarrow> ?L" by (auto simp: Int_commute)
  qed
  ultimately show ?case using Cons.IH [OF a(2)] by simp argo
qed simp

text \<open>Two cards with one id are one card of one bucket.\<close>

definition ids_apart :: "list_cache \<Rightarrow> bool" where
  "ids_apart resp \<longleftrightarrow>
     (\<forall>s. distinct (map issue_id (cards resp s))) \<and>
     (\<forall>s t x y. x \<in> set (cards resp s) \<longrightarrow> y \<in> set (cards resp t) \<longrightarrow> issue_id x = issue_id y \<longrightarrow> s = t)"

lemma cache_ok_iff: "cache_ok resp \<longleftrightarrow> (\<forall>s. bucket_ok s (getBucket resp s)) \<and> ids_apart resp"
proof -
  have "distinct (concat (map (\<lambda>s. map issue_id (cards resp s)) ALL_STATUSES)) \<longleftrightarrow> ids_apart resp"
    by (subst distinct_concat_map) (simp_all add: ids_apart_def disjoint_iff, blast)
  then show ?thesis by (simp add: cache_ok_def list_all_iff)
qed

lemma ids_apartD:
  "ids_apart resp \<Longrightarrow> x \<in> set (cards resp s) \<Longrightarrow> y \<in> set (cards resp t) \<Longrightarrow> issue_id x = issue_id y \<Longrightarrow>
     s = t \<and> x = y"
proof -
  assume a: "ids_apart resp" "x \<in> set (cards resp s)" "y \<in> set (cards resp t)" "issue_id x = issue_id y"
  then have st: "s = t" unfolding ids_apart_def by blast
  have "inj_on issue_id (set (cards resp s))"
    using a(1) by (simp add: ids_apart_def distinct_map)
  then show ?thesis using a st by (auto dest: inj_onD)
qed

lemma getBucket_set [bucket_simps]: "getBucket (setBucket resp s b) u = (if u = s then b else getBucket resp u)"
  by (simp add: getBucket_def setBucket_def or_else_def)

section \<open>Finding a card\<close>

lemma find_location_from_Some:
  "find_location_from ss resp i = Some (s, x) \<Longrightarrow> s \<in> set ss \<and> x \<in> set (cards resp s) \<and> issue_id x = i"
  by (induction ss) (auto split: option.splits dest: find_Some_in)

lemma find_location_from_None:
  "find_location_from ss resp i = None \<longleftrightarrow> (\<forall>s \<in> set ss. \<forall>x \<in> set (cards resp s). issue_id x \<noteq> i)"
  by (induction ss) (auto split: option.splits simp: find_None_iff dest: find_Some_in)

lemma located:
  "findIssueLocation resp i = Some (s, x) \<Longrightarrow> x \<in> set (cards resp s) \<and> issue_id x = i"
  unfolding findIssueLocation_def by (blast dest: find_location_from_Some)

lemma not_located:
  "findIssueLocation resp i = None \<longleftrightarrow> (\<forall>s. \<forall>x \<in> set (cards resp s). issue_id x \<noteq> i)"
  by (simp add: findIssueLocation_def find_location_from_None)

lemma located_status: "cache_ok resp \<Longrightarrow> findIssueLocation resp i = Some (s, x) \<Longrightarrow> status x = s"
  using located [of resp i s x] by (auto simp: cache_ok_iff bucket_ok_def list_all_iff)

section \<open>Position order\<close>

lemma insertByPosition_mset [simp]: "mset (insertByPosition xs x) = add_mset x (mset xs)"
proof (cases "find_index (\<lambda>y. position y > position x) xs")
  case (Some i)
  have "mset (take i xs) + mset (drop i xs) = mset xs" by (metis append_take_drop_id mset_append)
  then show ?thesis using Some by (simp add: insertByPosition_def)
qed (simp add: insertByPosition_def)

lemma insertByPosition_set [simp]: "set (insertByPosition xs x) = insert x (set xs)"
  using insertByPosition_mset [of xs x] by (metis set_mset_add_mset_insert set_mset_mset)

lemma insertByPosition_length [simp]: "length (insertByPosition xs x) = Suc (length xs)"
  using insertByPosition_mset [of xs x] by (metis size_add_mset size_mset)

lemma insertByPosition_sorted:
  assumes "sorted (map position xs)"
  shows "sorted (map position (insertByPosition xs x))"
proof (cases "find_index (\<lambda>y. position y > position x) xs")
  case None
  then have "\<forall>y \<in> set xs. position y \<le> position x" by (simp add: find_index_None not_less)
  then show ?thesis using None assms by (simp add: insertByPosition_def sorted_append)
next
  case (Some i)
  note f = find_index_Some [OF Some]
  have le: "position y \<le> position x" if y: "y \<in> set (take i xs)" for y
  proof -
    obtain j where "j < length (take i xs)" "take i xs ! j = y"
      using y in_set_conv_nth [of y "take i xs"] by blast
    then have "j < i" "xs ! j = y" by simp_all
    then show ?thesis using f by (auto simp: not_less)
  qed
  have ge: "position x \<le> position y" if y: "y \<in> set (drop i xs)" for y
  proof -
    obtain j where "j < length (drop i xs)" "drop i xs ! j = y"
      using y in_set_conv_nth [of y "drop i xs"] by blast
    then have j: "i + j < length xs" "y = xs ! (i + j)" by auto
    have "position (xs ! i) \<le> position (xs ! (i + j))"
      using sorted_nth_mono [OF assms, of i "i + j"] j by simp
    then show ?thesis using f j by simp
  qed
  have "sorted (map position (take i xs) @ map position (drop i xs))"
    using assms by (simp flip: map_append)
  then show ?thesis
    using Some le ge by (auto simp: insertByPosition_def sorted_append)
qed

lemma filter_ids_length:
  assumes "distinct (map issue_id xs)" "x \<in> set xs"
  shows "mset (filter (\<lambda>y. issue_id y \<noteq> issue_id x) xs) = mset xs - {#x#}"
    "Suc (length (filter (\<lambda>y. issue_id y \<noteq> issue_id x) xs)) = length xs"
proof -
  show m: "mset (filter (\<lambda>y. issue_id y \<noteq> issue_id x) xs) = mset xs - {#x#}"
    using assms
  proof (induction xs)
    case (Cons z zs)
    show ?case
    proof (cases "z = x")
      case True
      then have "issue_id x \<notin> issue_id ` set zs" using Cons.prems by simp
      then have "\<forall>y \<in> set zs. issue_id y \<noteq> issue_id x" by (metis image_eqI)
      then have "filter (\<lambda>y. issue_id y \<noteq> issue_id x) zs = zs" by (simp add: filter_id_conv)
      then show ?thesis using True by simp
    next
      case False
      then have x: "x \<in> set zs" using Cons.prems by auto
      then have "issue_id z \<noteq> issue_id x" using Cons.prems by (auto simp: image_iff)
      then show ?thesis using Cons x False by simp
    qed
  qed simp
  have "size (mset xs - {#x#}) = size (mset xs) - 1"
    using assms(2) by (simp add: size_Diff_singleton)
  moreover have "0 < length xs" using assms(2) by (auto simp: length_pos_if_in_set)
  ultimately show "Suc (length (filter (\<lambda>y. issue_id y \<noteq> issue_id x) xs)) = length xs"
    using m by (metis Suc_pred' size_mset)
qed

lemma sorted_filter_position: "sorted (map position xs) \<Longrightarrow> sorted (map position (filter P xs))"
  by (rule sorted_filter)

section \<open>The bucket operations\<close>

lemma bucket_ok_empty [simp]: "bucket_ok s \<lparr>bucket_issues = [], bucket_total = 0\<rparr>"
  by (simp add: bucket_ok_def)

lemma bucket_ok_remove:
  assumes "bucket_ok s b" "distinct (map issue_id (bucket_issues b))" "x \<in> set (bucket_issues b)"
  shows "bucket_ok s \<lparr>bucket_issues = filter (\<lambda>y. issue_id y \<noteq> issue_id x) (bucket_issues b),
                     bucket_total = max 0 (bucket_total b - 1)\<rparr>"
    "max 0 (bucket_total b - 1) = bucket_total b - 1"
proof -
  note f = filter_ids_length(2) [OF assms(2,3)]
  then have l: "int (length (filter (\<lambda>y. issue_id y \<noteq> issue_id x) (bucket_issues b))) + 1 =
      int (length (bucket_issues b))" by linarith
  have t: "int (length (bucket_issues b)) \<le> bucket_total b" using assms(1) by (simp add: bucket_ok_def)
  then show "max 0 (bucket_total b - 1) = bucket_total b - 1" using l by linarith
  show "bucket_ok s \<lparr>bucket_issues = filter (\<lambda>y. issue_id y \<noteq> issue_id x) (bucket_issues b),
                     bucket_total = max 0 (bucket_total b - 1)\<rparr>"
    using assms(1) t l by (auto simp: bucket_ok_def list_all_iff sorted_filter_position)
qed

lemma bucket_ok_insert:
  "bucket_ok s b \<Longrightarrow> status x = s \<Longrightarrow>
   bucket_ok s \<lparr>bucket_issues = insertByPosition (bucket_issues b) x, bucket_total = bucket_total b + 1\<rparr>"
  by (simp add: bucket_ok_def list_all_iff insertByPosition_sorted)

lemma bucket_ok_reinsert:
  assumes "bucket_ok s b" "distinct (map issue_id (bucket_issues b))" "x \<in> set (bucket_issues b)" "status y = s"
  shows "bucket_ok s (b\<lparr>bucket_issues :=
      insertByPosition (filter (\<lambda>y. issue_id y \<noteq> issue_id x) (bucket_issues b)) y\<rparr>)"
  using assms filter_ids_length(2) [OF assms(2,3)]
  by (auto simp: bucket_ok_def list_all_iff insertByPosition_sorted sorted_filter_position)

text \<open>The effect of a patch on the cards of one bucket: the patched card leaves the bucket it was
  in and enters the bucket of its new status.\<close>

definition moved_cards :: "list_cache \<Rightarrow> issue_status \<Rightarrow> issue \<Rightarrow> issue_patch \<Rightarrow> issue_status \<Rightarrow> issue multiset" where
  "moved_cards resp s x p u =
     (let old = mset (cards resp u) - (if u = s then {#x#} else {#})
      in if u = or_else s (p_status p) then add_mset (patched x p) old else old)"

definition moved_total :: "list_cache \<Rightarrow> issue_status \<Rightarrow> issue_patch \<Rightarrow> issue_status \<Rightarrow> int" where
  "moved_total resp s p u =
     counted resp u - (if u = s then 1 else 0) + (if u = or_else s (p_status p) then 1 else 0)"

lemma map_replace_mset:
  assumes "distinct (map issue_id xs)" "x \<in> set xs"
  shows "mset (map (\<lambda>y. if issue_id y = issue_id x then z else y) xs) = add_mset z (mset xs - {#x#})"
  using assms
proof (induction xs)
  case (Cons w ws)
  show ?case
  proof (cases "w = x")
    case True
    then have "issue_id x \<notin> issue_id ` set ws" using Cons.prems by simp
    then have "map (\<lambda>y. if issue_id y = issue_id x then z else y) ws = ws"
      by (intro map_idI) (metis image_eqI)
    then show ?thesis using True by simp
  next
    case False
    then have x: "x \<in> set ws" using Cons.prems by auto
    then have "issue_id w \<noteq> issue_id x" using Cons.prems by (auto simp: image_iff)
    then show ?thesis using Cons x False by (simp add: add_mset_commute)
  qed
qed simp

lemma patched_id [simp]: "issue_id (patched x p) = issue_id x"
  by (simp add: patched_def)

lemma patched_status [simp]: "status (patched x p) = or_else (status x) (p_status p)"
  by (simp add: patched_def)

lemma patched_position: "p_position p = None \<or> p_position p = Some (position x) \<Longrightarrow> position (patched x p) = position x"
  by (auto simp: patched_def or_else_def)

lemma bucket_ok_replace:
  assumes "bucket_ok s b" "distinct (map issue_id (bucket_issues b))" "x \<in> set (bucket_issues b)"
    "status y = s" "position y = position x"
  shows "bucket_ok s (b\<lparr>bucket_issues := map (\<lambda>z. if issue_id z = issue_id x then y else z) (bucket_issues b)\<rparr>)"
proof -
  have "inj_on issue_id (set (bucket_issues b))" using assms(2) by (simp add: distinct_map)
  then have "map position (map (\<lambda>z. if issue_id z = issue_id x then y else z) (bucket_issues b)) =
      map position (bucket_issues b)"
    using assms(3,5) by (auto dest: inj_onD)
  then show ?thesis using assms(1,4) by (auto simp: bucket_ok_def list_all_iff simp del: map_map)
qed

lemma patch_buckets:
  fixes p :: issue_patch
  assumes ok: "cache_ok resp" and loc: "findIssueLocation resp i = Some (s, x)"
  defines "r \<equiv> patchIssueInBuckets resp i p"
  shows "bucket_ok u (getBucket r u)" "mset (cards r u) = moved_cards resp s x p u"
    "counted r u = moved_total resp s p u"
proof -
  have b: "bucket_ok v (getBucket resp v)" "distinct (map issue_id (cards resp v))" for v
    using ok by (auto simp: cache_ok_iff ids_apart_def)
  have x: "x \<in> set (cards resp s)" "issue_id x = i" "status x = s"
    using located [OF loc] located_status [OF ok loc] by auto
  have "bucket_ok u (getBucket r u) \<and> mset (cards r u) = moved_cards resp s x p u \<and>
      counted r u = moved_total resp s p u"
  proof (cases "or_else s (p_status p) = s")
    case same: True
    have st: "status (patched x p) = s" using x(3) same by simp
    show ?thesis
    proof (cases "p_position p \<noteq> None \<and> p_position p \<noteq> Some (position x)")
      case True
      then have r: "r = setBucket resp s ((getBucket resp s)\<lparr>bucket_issues :=
          insertByPosition (filter (\<lambda>y. issue_id y \<noteq> issue_id x) (cards resp s)) (patched x p)\<rparr>)"
        using loc same x(2) by (simp add: r_def patchIssueInBuckets_def Let_def)
      show ?thesis
        using bucket_ok_reinsert [OF b(1) b(2) x(1) st] b(1) [of u] same
        by (simp add: r bucket_simps moved_cards_def moved_total_def filter_ids_length(1) [OF b(2) x(1)] del: mset_filter)
    next
      case False
      then have pos: "position (patched x p) = position x" using patched_position by auto
      have r: "r = setBucket resp s ((getBucket resp s)\<lparr>bucket_issues :=
          map (\<lambda>y. if issue_id y = issue_id x then patched x p else y) (cards resp s)\<rparr>)"
        using False loc same x(2) by (simp add: r_def patchIssueInBuckets_def Let_def)
      have m: "mset (map (\<lambda>y. if issue_id y = issue_id x then patched x p else y) (cards resp s)) =
          add_mset (patched x p) (mset (cards resp s) - {#x#})"
        by (rule map_replace_mset [OF b(2) x(1)])
      show ?thesis
        using bucket_ok_replace [OF b(1) b(2) x(1) st pos] b(1) [of u] same m
        by (simp add: r bucket_simps moved_cards_def moved_total_def del: mset_map)
    qed
  next
    case False
    define t where "t = or_else s (p_status p)"
    have ts: "t \<noteq> s" using False by (simp add: t_def)
    have st: "status (patched x p) = t" using x(3) by (simp add: t_def)
    have r: "r = setBucket (setBucket resp s
          \<lparr>bucket_issues = filter (\<lambda>y. issue_id y \<noteq> issue_id x) (cards resp s),
           bucket_total = max 0 (counted resp s - 1)\<rparr>) t
          \<lparr>bucket_issues = insertByPosition (cards resp t) (patched x p),
           bucket_total = counted resp t + 1\<rparr>"
      using loc ts x(2) by (simp add: r_def patchIssueInBuckets_def Let_def t_def)
    note rem = bucket_ok_remove [OF b(1) b(2) x(1)]
    have ins: "bucket_ok t \<lparr>bucket_issues = insertByPosition (cards resp t) (patched x p),
        bucket_total = counted resp t + 1\<rparr>" by (rule bucket_ok_insert [OF b(1) st])
    show ?thesis
      using rem ins b(1) [of u] ts
      by (simp add: r bucket_simps moved_cards_def moved_total_def t_def [symmetric]
          filter_ids_length(1) [OF b(2) x(1)] del: mset_filter)
  qed
  then show "bucket_ok u (getBucket r u)" "mset (cards r u) = moved_cards resp s x p u"
    "counted r u = moved_total resp s p u" by auto
qed

lemma patch_ids:
  assumes "cache_ok resp" "findIssueLocation resp i = Some (s, x)"
  shows "ids_apart (patchIssueInBuckets resp i p)"
proof -
  let ?r = "patchIssueInBuckets resp i p"
  have x: "x \<in> set (cards resp s)" "issue_id x = i" using located [OF assms(2)] by auto
  have apart: "ids_apart resp" using assms(1) by (simp add: cache_ok_iff)
  have m: "mset (cards ?r u) = moved_cards resp s x p u" for u
    by (rule patch_buckets(2) [OF assms])
  have dist: "distinct (map issue_id (cards resp u))" for u using apart by (simp add: ids_apart_def)
  let ?old = "\<lambda>u. filter (\<lambda>y. issue_id y \<noteq> i) (cards resp u)"
  have old: "mset (?old u) = mset (cards resp u) - (if u = s then {#x#} else {#})" for u
  proof (cases "u = s")
    case True
    then show ?thesis using filter_ids_length(1) [OF dist x(1)] x(2) by (simp del: mset_filter)
  next
    case False
    have "issue_id y \<noteq> i" if y: "y \<in> set (cards resp u)" for y
      using ids_apartD [OF apart y x(1)] x(2) False by auto
    then have "?old u = cards resp u" by (simp add: filter_id_conv)
    then show ?thesis using False by (simp del: mset_filter)
  qed
  let ?new = "\<lambda>u. if u = or_else s (p_status p) then patched x p # ?old u else ?old u"
  have new: "mset (cards ?r u) = mset (?new u)" for u
  proof -
    have "mset (cards ?r u) =
        (if u = or_else s (p_status p) then add_mset (patched x p) (mset (?old u)) else mset (?old u))"
      unfolding m moved_cards_def Let_def old [symmetric] ..
    then show ?thesis by simp
  qed
  have "distinct (map issue_id (cards ?r u))" for u
  proof -
    have "distinct (map issue_id (?old u))" using dist [of u] by (rule distinct_map_filter)
    then have "distinct (map issue_id (?new u))" using x(2) by auto
    moreover have "mset (map issue_id (cards ?r u)) = mset (map issue_id (?new u))"
      using new [of u] unfolding mset_map by (rule arg_cong)
    ultimately show ?thesis using mset_eq_imp_distinct_iff by blast
  qed
  moreover have "u = v" if y: "y \<in> set (cards ?r u)" "z \<in> set (cards ?r v)" "issue_id y = issue_id z" for y z u v
  proof -
    have "y \<in> set (?new u)" "z \<in> set (?new v)" using y new by (metis set_mset_mset)+
    then show ?thesis using y(3) x(2) ids_apartD [OF apart, of y u z v] by (auto split: if_splits)
  qed
  ultimately show ?thesis unfolding ids_apart_def by blast
qed

lemma patch_cache_ok:
  "cache_ok resp \<Longrightarrow> findIssueLocation resp i = Some (s, x) \<Longrightarrow> cache_ok (patchIssueInBuckets resp i p)"
  using patch_buckets(1) patch_ids by (simp add: cache_ok_iff)

section \<open>Membership\<close>

text \<open>The list a scope and a filter stand for on the server. Two of its predicates are not in
  the client: who an assignee involves, and the union behind the scope \<open>all\<close>; they are the
  parameters \<open>involves\<close> and \<open>mine\<close>, and depend on the assignee (and, for the union, the
  creator) alone.\<close>

definition serves ::
    "(string \<Rightarrow> assignee_kind option \<Rightarrow> string option \<Rightarrow> bool) \<Rightarrow>
     (assignee_kind option \<Rightarrow> string option \<Rightarrow> string \<Rightarrow> bool) \<Rightarrow>
     string option \<Rightarrow> 'a my_filter_scheme \<Rightarrow> issue \<Rightarrow> bool" where
  "serves involves mine scope flt x \<longleftrightarrow>
     (if scope = Some ''all'' then mine (assignee_type x) (assignee_id x) (creator_id x)
      else
        (f_assignee_id flt = None \<or> f_assignee_id flt = assignee_id x) \<and>
        (case f_assignee_ids flt of None \<Rightarrow> True
         | Some as \<Rightarrow> (case assignee_id x of None \<Rightarrow> False | Some a \<Rightarrow> a \<in> set as)) \<and>
        (case f_assignee_types flt of None \<Rightarrow> True
         | Some ts \<Rightarrow> (case assignee_type x of None \<Rightarrow> False | Some t \<Rightarrow> t \<in> set ts)) \<and>
        (f_creator_id flt = None \<or> f_creator_id flt = Some (creator_id x)) \<and>
        (f_project_id flt = None \<or> f_project_id flt = project_id x) \<and>
        (case f_involves_user_id flt of None \<Rightarrow> True
         | Some u \<Rightarrow> involves u (assignee_type x) (assignee_id x)))"

text \<open>A full issue that a partial one may be.\<close>

definition agrees :: "'a option \<Rightarrow> 'a \<Rightarrow> bool" where
  "agrees pv v \<longleftrightarrow> pv = None \<or> pv = Some v"

definition completes :: "issue_patch \<Rightarrow> issue \<Rightarrow> bool" where
  "completes p x \<longleftrightarrow>
     agrees (p_assignee_id p) (assignee_id x) \<and> agrees (p_assignee_type p) (assignee_type x) \<and>
     agrees (p_creator_id p) (creator_id x) \<and> agrees (p_project_id p) (project_id x)"

lemma test_eq_None:
  "test_eq want have get u = None \<longleftrightarrow> (\<exists>w v. want = Some w \<and> have = Some v \<and> get v \<noteq> Some w)"
  by (auto simp: test_eq_def split: option.splits)

lemma test_eq_False:
  "test_eq want have get u = Some False \<longleftrightarrow>
     \<not> u \<and> want = None \<or> \<not> u \<and> (\<exists>w v. want = Some w \<and> have = Some v \<and> get v = Some w)"
  by (auto simp: test_eq_def split: option.splits)

lemma test_in_None:
  "test_in want have u = None \<longleftrightarrow>
     (\<exists>ws. want = Some ws \<and> (have = Some None \<or> (\<exists>v. have = Some (Some v) \<and> v \<notin> set ws)))"
  by (auto simp: test_in_def split: option.splits)

lemma test_in_False:
  "test_in want have u = Some False \<longleftrightarrow>
     \<not> u \<and> (want = None \<or> (\<exists>ws v. want = Some ws \<and> have = Some (Some v) \<and> v \<in> set ws))"
  by (auto simp: test_in_def split: option.splits)

lemma bind_False_cases:
  "Option.bind m f = Some False \<longleftrightarrow> (\<exists>u. m = Some u \<and> f u = Some False)"
  by (cases m) auto

lemma bind_None_cases: "Option.bind m f = None \<longleftrightarrow> m = None \<or> (\<exists>u. m = Some u \<and> f u = None)"
  by (cases m) auto

lemma membership_yes:
  assumes m: "issueMatchesListFilter p scope flt = IsMember" and c: "completes p x"
  shows "serves involves mine scope flt x"
proof -
  have s: "scope \<noteq> Some ''all''" "f_involves_user_id flt = None" "filter_tests p flt = Some False"
    using m by (simp_all add: issueMatchesListFilter_def split: if_splits option.splits)
  obtain u1 u2 u3 u4 where t:
    "test_eq (f_assignee_id flt) (p_assignee_id p) (\<lambda>v. v) False = Some u1"
    "test_in (f_assignee_ids flt) (p_assignee_id p) u1 = Some u2"
    "test_in (f_assignee_types flt) (p_assignee_type p) u2 = Some u3"
    "test_eq (f_creator_id flt) (p_creator_id p) Some u3 = Some u4"
    "test_eq (f_project_id flt) (p_project_id p) (\<lambda>v. v) u4 = Some False"
    using s(3) unfolding filter_tests_def bind_False_cases by blast
  have u4: "\<not> u4" using t(5) by (auto simp: test_eq_False)
  then have u3: "\<not> u3" using t(4) by (auto simp: test_eq_False)
  then have u2: "\<not> u2" using t(3) by (auto simp: test_in_False)
  then have u1: "\<not> u1" using t(2) by (auto simp: test_in_False)
  have "f_assignee_id flt = None \<or> f_assignee_id flt = assignee_id x"
    using t(1) u1 c by (auto simp: test_eq_False completes_def agrees_def)
  moreover have "case f_assignee_ids flt of None \<Rightarrow> True
       | Some as \<Rightarrow> (case assignee_id x of None \<Rightarrow> False | Some a \<Rightarrow> a \<in> set as)"
    using t(2) u2 c by (auto simp: test_in_False completes_def agrees_def)
  moreover have "case f_assignee_types flt of None \<Rightarrow> True
       | Some ts \<Rightarrow> (case assignee_type x of None \<Rightarrow> False | Some k \<Rightarrow> k \<in> set ts)"
    using t(3) u3 c by (auto simp: test_in_False completes_def agrees_def)
  moreover have "f_creator_id flt = None \<or> f_creator_id flt = Some (creator_id x)"
    using t(4) u4 c by (auto simp: test_eq_False completes_def agrees_def)
  moreover have "f_project_id flt = None \<or> f_project_id flt = project_id x"
    using t(5) c by (auto simp: test_eq_False completes_def agrees_def)
  ultimately show ?thesis using s(1,2) by (simp add: serves_def)
qed

lemma membership_no:
  assumes m: "issueMatchesListFilter p scope flt = NotMember" and c: "completes p x"
  shows "\<not> serves involves mine scope flt x"
proof -
  have agreed: "agrees (p_assignee_id p) (assignee_id x)" "agrees (p_assignee_type p) (assignee_type x)"
    "agrees (p_creator_id p) (creator_id x)" "agrees (p_project_id p) (project_id x)"
    using c by (simp_all add: completes_def)
  have s: "scope \<noteq> Some ''all''"
    using m by (auto simp: issueMatchesListFilter_def)
  have "test_eq (f_assignee_id flt) (p_assignee_id p) (\<lambda>v. v) False = None \<or>
    (\<exists>u. test_in (f_assignee_ids flt) (p_assignee_id p) u = None) \<or>
    (\<exists>u. test_in (f_assignee_types flt) (p_assignee_type p) u = None) \<or>
    (\<exists>u. test_eq (f_creator_id flt) (p_creator_id p) Some u = None) \<or>
    (\<exists>u. test_eq (f_project_id flt) (p_project_id p) (\<lambda>v. v) u = None)"
  proof -
    have "filter_tests p flt = None"
      using m s by (simp add: issueMatchesListFilter_def split: if_splits option.splits)
    then show ?thesis unfolding filter_tests_def bind_None_cases by blast
  qed
  then consider
      "\<exists>w v. f_assignee_id flt = Some w \<and> p_assignee_id p = Some v \<and> v \<noteq> Some w"
    | "\<exists>ws. f_assignee_ids flt = Some ws \<and>
         (p_assignee_id p = Some None \<or> (\<exists>v. p_assignee_id p = Some (Some v) \<and> v \<notin> set ws))"
    | "\<exists>ws. f_assignee_types flt = Some ws \<and>
         (p_assignee_type p = Some None \<or> (\<exists>v. p_assignee_type p = Some (Some v) \<and> v \<notin> set ws))"
    | "\<exists>w v. f_creator_id flt = Some w \<and> p_creator_id p = Some v \<and> Some v \<noteq> Some w"
    | "\<exists>w v. f_project_id flt = Some w \<and> p_project_id p = Some v \<and> v \<noteq> Some w"
    unfolding test_eq_None test_in_None by blast
  then show ?thesis
  proof cases
    case 1
    then have "f_assignee_id flt \<noteq> None \<and> f_assignee_id flt \<noteq> assignee_id x"
      using agreed(1) by (auto simp: agrees_def)
    then show ?thesis using s by (simp add: serves_def)
  next
    case 2
    then obtain ws where ws: "f_assignee_ids flt = Some ws"
      "p_assignee_id p = Some None \<or> (\<exists>v. p_assignee_id p = Some (Some v) \<and> v \<notin> set ws)" by blast
    have "\<forall>a. assignee_id x = Some a \<longrightarrow> a \<notin> set ws"
      using ws(2) agreed(1) by (cases "assignee_id x") (auto simp: agrees_def)
    with ws(1) show ?thesis using s by (cases "assignee_id x") (simp_all add: serves_def)
  next
    case 3
    then obtain ws where ws: "f_assignee_types flt = Some ws"
      "p_assignee_type p = Some None \<or> (\<exists>v. p_assignee_type p = Some (Some v) \<and> v \<notin> set ws)" by blast
    have "\<forall>a. assignee_type x = Some a \<longrightarrow> a \<notin> set ws"
      using ws(2) agreed(2) by (cases "assignee_type x") (auto simp: agrees_def)
    with ws(1) show ?thesis using s by (cases "assignee_type x") (simp_all add: serves_def)
  next
    case 4
    then have "f_creator_id flt \<noteq> None \<and> f_creator_id flt \<noteq> Some (creator_id x)"
      using agreed(3) by (auto simp: agrees_def)
    then show ?thesis using s by (simp add: serves_def)
  next
    case 5
    then have "f_project_id flt \<noteq> None \<and> f_project_id flt \<noteq> project_id x"
      using agreed(4) by (auto simp: agrees_def)
    then show ?thesis using s by (simp add: serves_def)
  qed
qed

end
