(* ===== verification/Issue_Coordinator.thy ===== *)
theory Issue_Coordinator
  imports Issue_Facts
begin

text \<open>
  The cache coordinator (\<open>packages/core/issues/cache-coordinator.ts\<close>): how one issue change
  reaches every loaded list, flat window, table page, the detail cache and the inbox, and how
  a failed write is rolled back. The query client is its caches, keyed by the query keys of
  one workspace; \<open>setQueryData\<close> on a loaded key overwrites it in place.
\<close>

section \<open>Query keys and caches\<close>

record sort_param =
  sort_by :: "string option"
  date_field :: "string option"
  sort_properties :: "string list obj option"

text \<open>\<open>IssueFlatFilter\<close>, the fields the reconcile rules read.\<close>

record flat_filter = my_filter +
  f_q :: "string option"
  f_statuses :: "issue_status list option"
  f_priorities :: "issue_priority list option"
  f_assignee_filters :: "string list option"
  f_include_no_assignee :: bool
  f_project_ids :: "string list option"
  f_include_no_project :: bool
  f_top_level_only :: bool
  f_label_ids :: "string list option"

definition no_filter :: my_filter where
  "no_filter =
     \<lparr>f_assignee_id = None, f_assignee_ids = None, f_assignee_types = None, f_creator_id = None,
      f_project_id = None, f_involves_user_id = None\<rparr>"

datatype query_key =
    ListKey sort_param
  | MyKey string my_filter sort_param
  | FlatKey string flat_filter sort_param
  | TableKey string

record flat_page =
  page_issues :: "issue list"
  page_total :: int

record table_row =
  row_issue :: issue
  direct_child_count :: int

record inbox_item =
  inbox_item_id :: string
  inbox_issue :: "string option"
  inbox_status :: "issue_status option"
  inbox_read :: bool
  inbox_archived :: bool
  inbox_created :: string
  inbox_details :: "string obj option"

record query_cache =
  qc_lists :: "(query_key \<times> list_cache) list"
  qc_flat :: "(query_key \<times> flat_page list) list"
  qc_rows :: "(query_key \<times> table_row list) list"
  qc_details :: "issue obj"
  qc_inbox :: "inbox_item list option"
  qc_archived :: "inbox_item list option"

record change_result =
  prev_lists :: "(query_key \<times> list_cache) list"
  prev_flat :: "(query_key \<times> flat_page list) list"
  prev_rows :: "(query_key \<times> table_row list) list"
  prev_detail :: "issue option"
  prev_inbox :: "inbox_item list option"
  stale_keys :: "query_key list"
  prev_issue :: "issue option"

fun listContractFromKey :: "query_key \<Rightarrow> string option \<times> my_filter \<times> sort_param" where
  "listContractFromKey (MyKey scope flt srt) = (Some scope, flt, srt)"
| "listContractFromKey (ListKey srt) = (None, no_filter, srt)"
| "listContractFromKey k = (None, no_filter, \<lparr>sort_by = None, date_field = None, sort_properties = None\<rparr>)"

definition no_flat_filter :: flat_filter where
  "no_flat_filter =
     my_filter.extend no_filter
       (flat_filter.fields None None None None False None False False None)"

fun flatContractFromKey :: "query_key \<Rightarrow> string option \<times> flat_filter \<times> sort_param" where
  "flatContractFromKey (FlatKey scope flt srt) = (Some scope, flt, srt)"
| "flatContractFromKey k = (None, no_flat_filter, \<lparr>sort_by = None, date_field = None, sort_properties = None\<rparr>)"

fun is_list_key :: "query_key \<Rightarrow> bool" where
  "is_list_key (ListKey srt) \<longleftrightarrow> True"
| "is_list_key k \<longleftrightarrow> False"

fun is_my_key :: "query_key \<Rightarrow> bool" where
  "is_my_key (MyKey s f srt) \<longleftrightarrow> True"
| "is_my_key k \<longleftrightarrow> False"

definition bucketedListEntries :: "query_cache \<Rightarrow> (query_key \<times> list_cache) list" where
  "bucketedListEntries qc =
     filter (\<lambda>e. is_list_key (fst e)) (qc_lists qc) @ filter (\<lambda>e. is_my_key (fst e)) (qc_lists qc)"

section \<open>What a patch changes\<close>

text \<open>\<open>patchFieldChanged\<close> of one field, given the field of the patch and of the base.\<close>

abbreviation patchFieldChanged :: "'a option \<Rightarrow> (issue \<Rightarrow> 'a) \<Rightarrow> issue option \<Rightarrow> bool" where
  "patchFieldChanged pv get base \<equiv> field_changed pv (map_option get base)"

definition other_changed :: "string obj \<Rightarrow> issue option \<Rightarrow> bool" where
  "other_changed ob base \<longleftrightarrow>
     list_ex (\<lambda>(k, v). case base of None \<Rightarrow> True | Some b \<Rightarrow> obj_get (other_fields b) k \<noteq> Some v) ob"

text \<open>The property bag of a patch is an object of its own, never the one of the base.\<close>

definition patchChangesAnyIssueField :: "issue_patch \<Rightarrow> issue option \<Rightarrow> bool" where
  "patchChangesAnyIssueField p base \<longleftrightarrow>
     patchFieldChanged (p_title p) title base \<or> patchFieldChanged (p_status p) status base \<or>
     patchFieldChanged (p_priority p) priority base \<or>
     patchFieldChanged (p_assignee_type p) assignee_type base \<or>
     patchFieldChanged (p_assignee_id p) assignee_id base \<or>
     patchFieldChanged (p_creator_id p) creator_id base \<or>
     patchFieldChanged (p_parent_issue_id p) parent_issue_id base \<or>
     patchFieldChanged (p_project_id p) project_id base \<or>
     patchFieldChanged (p_position p) position base \<or>
     patchFieldChanged (p_start_date p) start_date base \<or>
     patchFieldChanged (p_due_date p) due_date base \<or>
     patchFieldChanged (p_created_at p) created_at base \<or>
     patchFieldChanged (p_updated_at p) updated_at base \<or>
     p_properties p \<noteq> None \<or> other_changed (p_other p) base"

definition nonempty :: "'a list option \<Rightarrow> bool" where
  "nonempty xs \<longleftrightarrow> (case xs of None \<Rightarrow> False | Some ys \<Rightarrow> length ys > 0)"

definition flatWindowNeedsReconcile ::
    "query_key \<Rightarrow> issue_patch \<Rightarrow> issue option \<Rightarrow> changed_dims \<Rightarrow> bool" where
  "flatWindowNeedsReconcile key p base ch =
     (case flatContractFromKey key of
        (scope, flt, srt) \<Rightarrow>
          (let anyIssueFieldChanged = patchChangesAnyIssueField p base;
               by_field = or_else ''position'' (sort_by srt) in
           if listFilterDependsOn scope flt ch then True
           else if truthy (f_q flt) \<noteq> None \<and> patchFieldChanged (p_title p) title base then True
           else if ch_status ch \<and> nonempty (f_statuses flt) then True
           else if patchFieldChanged (p_priority p) priority base \<and> nonempty (f_priorities flt) then True
           else if ch_assignee ch \<and> (nonempty (f_assignee_filters flt) \<or> f_include_no_assignee flt) then True
           else if ch_project ch \<and> (nonempty (f_project_ids flt) \<or> f_include_no_project flt) then True
           else if patchFieldChanged (p_parent_issue_id p) parent_issue_id base \<and> f_top_level_only flt then True
           else if date_field srt = Some ''updated_at'' \<and> anyIssueFieldChanged then True
           else if date_field srt = Some ''created_at'' \<and> patchFieldChanged (p_created_at p) created_at base
             then True
           else if by_field = ''title'' then patchFieldChanged (p_title p) title base
           else if by_field = ''status'' then ch_status ch
           else if by_field = ''priority'' then patchFieldChanged (p_priority p) priority base
           else if by_field = ''created_at'' then patchFieldChanged (p_created_at p) created_at base
           else if by_field = ''updated_at'' then anyIssueFieldChanged
           else if by_field = ''start_date'' then patchFieldChanged (p_start_date p) start_date base
           else if by_field = ''due_date'' then patchFieldChanged (p_due_date p) due_date base
           else if by_field = ''position'' then patchFieldChanged (p_position p) position base
           else False))"

section \<open>One bucketed list\<close>

text \<open>The body of the first loop: the cache to write, if any, and the stale keys it reports. A
  patched or pruned cache is a new object, so it is always written; \<open>moveBucketTotal\<close> returns
  its argument when the two statuses are equal.\<close>

definition reconcile_absent ::
    "query_key \<Rightarrow> list_cache \<Rightarrow> issue_patch \<Rightarrow> changed_dims \<Rightarrow> issue option \<Rightarrow>
     list_cache option \<times> query_key list" where
  "reconcile_absent key data p ch base =
     (case listContractFromKey key of
        (scope, flt, srt) \<Rightarrow>
          if \<not> listFilterDependsOn scope flt ch \<and> \<not> ch_status ch then (None, [])
          else
            (let was = (case base of None \<Rightarrow> Undecided
                        | Some b \<Rightarrow> issueMatchesListFilter (as_partial b) scope flt);
                 now = issueMatchesListFilter
                   (spread (case base of None \<Rightarrow> no_patch | Some b \<Rightarrow> as_partial b) p) scope flt
             in if was = NotMember \<and> now = NotMember then (None, [])
                else
                  (case (was, base, now) of
                     (IsMember, Some b, IsMember) \<Rightarrow>
                       (case p_status p of
                          Some t \<Rightarrow>
                            if ch_status ch \<and> status b \<noteq> t
                            then (Some (moveBucketTotal data (status b) t), [key])
                            else (None, [])
                        | None \<Rightarrow> (None, []))
                   | (IsMember, Some b, NotMember) \<Rightarrow>
                       (Some (decrementBucketTotal data (status b)), [])
                   | _ \<Rightarrow> (None, [key]))))"

definition reconcile_present ::
    "query_key \<Rightarrow> list_cache \<Rightarrow> string \<Rightarrow> issue_patch \<Rightarrow> changed_dims \<Rightarrow> issue \<Rightarrow>
     list_cache option \<times> query_key list" where
  "reconcile_present key data i p ch x =
     (case listContractFromKey key of
        (scope, flt, srt) \<Rightarrow>
          if listFilterDependsOn scope flt ch then
            (case issueMatchesListFilter (spread (as_partial x) p) scope flt of
               NotMember \<Rightarrow> (Some (removeIssueFromBuckets data i), [])
             | Undecided \<Rightarrow> (Some (patchIssueInBuckets data i p), [key])
             | IsMember \<Rightarrow> (Some (patchIssueInBuckets data i p), []))
          else (Some (patchIssueInBuckets data i p), []))"

definition reconcile_list ::
    "query_key \<Rightarrow> list_cache \<Rightarrow> string \<Rightarrow> issue_patch \<Rightarrow> changed_dims \<Rightarrow> issue option \<Rightarrow>
     list_cache option \<times> query_key list" where
  "reconcile_list key data i p ch base =
     (let (scope, flt, srt) = listContractFromKey key;
          loc = findIssueLocation data i;
          resort = (if sort_by srt = Some ''updated_at'' \<and>
              patchChangesAnyIssueField p (case loc of Some (s, x) \<Rightarrow> Some x | None \<Rightarrow> base)
            then [key] else []);
          (nxt, stale) = (case loc of
              Some (s, x) \<Rightarrow> reconcile_present key data i p ch x
            | None \<Rightarrow> reconcile_absent key data p ch base)
      in (nxt, resort @ stale))"

definition keep_first :: "issue option \<Rightarrow> issue option \<Rightarrow> issue option" where
  "keep_first a b = (case a of Some x \<Rightarrow> Some x | None \<Rightarrow> b)"

definition list_step ::
    "string \<Rightarrow> issue_patch \<Rightarrow> changed_dims \<Rightarrow> issue option \<Rightarrow> query_cache \<times> change_result \<Rightarrow>
     query_key \<times> list_cache \<Rightarrow> query_cache \<times> change_result" where
  "list_step i p ch base st e =
     (case (st, e) of
        ((qc, res), (key, data)) \<Rightarrow>
          (let (nxt, stale) = reconcile_list key data i p ch base;
               res1 = res\<lparr>stale_keys := stale_keys res @ stale,
                          prev_issue := keep_first (prev_issue res) (map_option snd (findIssueLocation data i))\<rparr>
           in case nxt of
                None \<Rightarrow> (qc, res1)
              | Some d \<Rightarrow>
                  (qc\<lparr>qc_lists := AList.update key d (qc_lists qc)\<rparr>,
                   res1\<lparr>prev_lists := prev_lists res1 @ [(key, data)]\<rparr>)))"

section \<open>Flat windows and table pages\<close>

definition find_last :: "('a \<Rightarrow> bool) \<Rightarrow> 'a list \<Rightarrow> 'a option" where
  "find_last P xs = find P (rev xs)"

definition flat_step ::
    "string \<Rightarrow> issue_patch \<Rightarrow> changed_dims \<Rightarrow> issue option \<Rightarrow> query_cache \<times> change_result \<Rightarrow>
     query_key \<times> flat_page list \<Rightarrow> query_cache \<times> change_result" where
  "flat_step i p ch base st e =
     (case (st, e) of
        ((qc, res), (key, pages)) \<Rightarrow>
          (let found = find_last (\<lambda>x. issue_id x = i) (concat (map page_issues pages));
               pages' = map (\<lambda>pg. pg\<lparr>page_issues :=
                   map (\<lambda>x. if issue_id x \<noteq> i then x else patched x p) (page_issues pg)\<rparr>) pages;
               stale = (if flatWindowNeedsReconcile key p (keep_first found base) ch then [key] else []);
               res1 = res\<lparr>stale_keys := stale_keys res @ stale\<rparr>
           in case found of
                None \<Rightarrow> (qc, res1)
              | Some x \<Rightarrow>
                  (qc\<lparr>qc_flat := AList.update key pages' (qc_flat qc)\<rparr>,
                   res1\<lparr>prev_flat := prev_flat res1 @ [(key, pages)],
                        prev_issue := keep_first (prev_issue res1) (Some x)\<rparr>)))"

definition row_step ::
    "string \<Rightarrow> issue_patch \<Rightarrow> query_cache \<times> change_result \<Rightarrow> query_key \<times> table_row list \<Rightarrow>
     query_cache \<times> change_result" where
  "row_step i p st e =
     (case (st, e) of
        ((qc, res), (key, rws)) \<Rightarrow>
          (let found = find_last (\<lambda>r. issue_id (row_issue r) = i) rws;
               rws' = map (\<lambda>r. if issue_id (row_issue r) \<noteq> i then r
                               else r\<lparr>row_issue := patched (row_issue r) p\<rparr>) rws
           in case found of
                None \<Rightarrow> (qc, res)
              | Some r \<Rightarrow>
                  (qc\<lparr>qc_rows := AList.update key rws' (qc_rows qc)\<rparr>,
                   res\<lparr>prev_rows := prev_rows res @ [(key, rws)],
                       prev_issue := keep_first (prev_issue res) (Some (row_issue r))\<rparr>)))"

section \<open>The whole change\<close>

definition patch_inbox :: "string \<Rightarrow> issue_status \<Rightarrow> inbox_item list option \<Rightarrow> inbox_item list option" where
  "patch_inbox i s old =
     map_option (map (\<lambda>it. if inbox_issue it = Some i then it\<lparr>inbox_status := Some s\<rparr> else it)) old"

definition patchInboxIssueStatus :: "query_cache \<Rightarrow> string \<Rightarrow> issue_status \<Rightarrow> query_cache" where
  "patchInboxIssueStatus qc i s =
     qc\<lparr>qc_inbox := patch_inbox i s (qc_inbox qc), qc_archived := patch_inbox i s (qc_archived qc)\<rparr>"

definition detail_step :: "string \<Rightarrow> issue_patch \<Rightarrow> query_cache \<times> change_result \<Rightarrow> query_cache \<times> change_result" where
  "detail_step i p st =
     (case st of
        (qc, res) \<Rightarrow>
          (case obj_get (qc_details qc) i of
             None \<Rightarrow> (qc, res)
           | Some d \<Rightarrow>
               (qc\<lparr>qc_details := obj_set (qc_details qc) i (patched d p)\<rparr>,
                res\<lparr>prev_detail := Some d, prev_issue := keep_first (prev_issue res) (Some d)\<rparr>)))"

definition inbox_step :: "string \<Rightarrow> issue_patch \<Rightarrow> query_cache \<times> change_result \<Rightarrow> query_cache \<times> change_result" where
  "inbox_step i p st =
     (case st of
        (qc, res) \<Rightarrow>
          (case p_status p of
             None \<Rightarrow> (qc, res)
           | Some s \<Rightarrow>
               (case qc_inbox qc of
                  None \<Rightarrow> (qc, res)
                | Some items \<Rightarrow> (patchInboxIssueStatus qc i s, res\<lparr>prev_inbox := Some items\<rparr>))))"

definition applyIssueChange ::
    "query_cache \<Rightarrow> string \<Rightarrow> issue_patch \<Rightarrow> changed_dims \<Rightarrow> issue option \<Rightarrow> query_cache \<times> change_result" where
  "applyIssueChange qc i p ch base =
     (let start = \<lparr>prev_lists = [], prev_flat = [], prev_rows = [], prev_detail = None,
                   prev_inbox = None, stale_keys = [], prev_issue = base\<rparr>;
          st1 = foldl (list_step i p ch base) (qc, start) (bucketedListEntries qc);
          st2 = foldl (flat_step i p ch base) st1 (qc_flat (fst st1));
          st3 = foldl (row_step i p) st2 (qc_rows (fst st2))
      in inbox_step i p (detail_step i p st3))"

definition restore :: "('k \<times> 'v) list \<Rightarrow> ('k \<times> 'v) list \<Rightarrow> ('k \<times> 'v) list" where
  "restore snaps m = foldl (\<lambda>acc (k, v). AList.update k v acc) m snaps"

definition rollbackIssueChange :: "query_cache \<Rightarrow> string \<Rightarrow> change_result \<Rightarrow> query_cache" where
  "rollbackIssueChange qc i res =
     qc\<lparr>qc_lists := restore (prev_lists res) (qc_lists qc),
        qc_flat := restore (prev_flat res) (qc_flat qc),
        qc_rows := restore (prev_rows res) (qc_rows qc),
        qc_details := (case prev_detail res of None \<Rightarrow> qc_details qc
                       | Some d \<Rightarrow> obj_set (qc_details qc) i d),
        qc_inbox := (case prev_inbox res of None \<Rightarrow> qc_inbox qc | Some items \<Rightarrow> Some items)\<rparr>"

text \<open>\<open>invalidateStaleListKeys\<close>: each reported key once, in order of its first report.\<close>

fun invalidateStaleListKeys :: "query_key list \<Rightarrow> query_key list \<Rightarrow> query_key list" where
  "invalidateStaleListKeys seen [] = []"
| "invalidateStaleListKeys seen (k # ks) =
     (if k \<in> set seen then invalidateStaleListKeys seen ks
      else k # invalidateStaleListKeys (k # seen) ks)"

definition queryKeyHasUpdatedAtSort :: "query_key \<Rightarrow> bool" where
  "queryKeyHasUpdatedAtSort k \<longleftrightarrow>
     (case k of
        ListKey srt \<Rightarrow> sort_by srt = Some ''updated_at''
      | MyKey s f srt \<Rightarrow> sort_by srt = Some ''updated_at''
      | FlatKey s f srt \<Rightarrow> sort_by srt = Some ''updated_at''
      | TableKey s \<Rightarrow> False)"

end
