(* ===== verification/Issue_Rollback.thy ===== *)
theory Issue_Rollback
  imports Issue_Coordinator
begin

text \<open>
  The snapshots of a change: every cache the change overwrites was recorded with the value it
  had, so writing the snapshots back restores it, in place and in order.
\<close>

interpretation query: js_dict map_of "\<lambda>m k v. AList.update k v m" "\<lambda>m k. AList.delete k m"
    "\<lambda>m. distinct (map fst m)"
  by unfold_locales (simp_all add: update_conv' delete_conv' distinct_update distinct_delete)

lemma alist_eq:
  "map fst m = map fst n \<Longrightarrow> distinct (map fst m) \<Longrightarrow> map_of m = map_of n \<Longrightarrow> m = n"
proof (induction m arbitrary: n)
  case (Cons p ps)
  obtain q qs where n: "n = q # qs" using Cons.prems(1) by (cases n) auto
  obtain k v w where pq: "p = (k, v)" "q = (k, w)" using Cons.prems(1) n by (cases p; cases q) auto
  have k: "k \<notin> fst ` set ps" "k \<notin> fst ` set qs"
    using Cons.prems(1,2) n pq by (auto simp flip: set_map)
  have "map_of (p # ps) k = map_of (q # qs) k" using Cons.prems(3) unfolding n by (rule fun_cong)
  then have "v = w" using pq by simp
  moreover have "map_of ps = map_of qs"
  proof
    fix j
    have "map_of (p # ps) j = map_of (q # qs) j" using Cons.prems(3) unfolding n by (rule fun_cong)
    moreover have "map_of ps k = None" "map_of qs k = None" using k by (simp_all add: map_of_eq_None_iff)
    ultimately show "map_of ps j = map_of qs j" using pq by (cases "j = k") auto
  qed
  then have "ps = qs" using Cons.IH [of qs] Cons.prems(1,2) n by simp
  ultimately show ?case using n pq by simp
qed simp

text \<open>\<open>m\<close> differs from \<open>m0\<close> at most at the keys \<open>snaps\<close> recorded.\<close>

definition saved :: "('k \<times> 'v) list \<Rightarrow> ('k \<times> 'v) list \<Rightarrow> ('k \<times> 'v) list \<Rightarrow> bool" where
  "saved m0 m snaps \<longleftrightarrow>
     map fst m = map fst m0 \<and>
     (\<forall>k v. (k, v) \<in> set snaps \<longrightarrow> map_of m0 k = Some v) \<and>
     (\<forall>k. k \<notin> fst ` set snaps \<longrightarrow> map_of m k = map_of m0 k)"

lemma saved_start [simp]: "saved m m []"
  by (simp add: saved_def)

lemma update_keys_in: "k \<in> fst ` set m \<Longrightarrow> map fst (AList.update k v m) = map fst m"
  by (simp add: update_keys)

lemma map_of_key: "map_of m k = Some v \<Longrightarrow> k \<in> fst ` set m"
  by (metis domI dom_map_of_conv_image_fst)

lemma saved_step:
  assumes "saved m0 m snaps" "map_of m0 k = Some v"
  shows "saved m0 (AList.update k w m) (snaps @ [(k, v)])"
proof -
  have "k \<in> set (map fst m0)" using map_of_key [OF assms(2)] by simp
  then have "k \<in> fst ` set m" using assms(1) by (simp add: saved_def flip: set_map)
  then have "map fst (AList.update k w m) = map fst m0"
    using assms(1) update_keys_in [of k m w] by (simp add: saved_def)
  moreover have "map_of (AList.update k w m) j = map_of m0 j" if "j \<notin> fst ` set (snaps @ [(k, v)])" for j
    using assms(1) that by (simp add: saved_def update_conv')
  moreover have "map_of m0 j = Some u" if "(j, u) \<in> set (snaps @ [(k, v)])" for j u
    using assms that by (auto simp: saved_def)
  ultimately show ?thesis unfolding saved_def by blast
qed

lemma saved_restore:
  assumes "saved m0 m snaps" "distinct (map fst m0)"
  shows "restore snaps m = m0"
proof -
  have sn: "map_of m0 k = Some v" if "(k, v) \<in> set snaps" for k v using assms(1) that by (simp add: saved_def)
  have keys: "map fst (restore snaps n) = map fst n" if "fst ` set snaps \<subseteq> fst ` set n" for n
    using that unfolding restore_def
  proof (induction snaps arbitrary: n)
    case (Cons p ps)
    obtain k v where p: "p = (k, v)" by (cases p)
    then have k: "map fst (AList.update k v n) = map fst n" using Cons.prems by (intro update_keys_in) simp
    have "fst ` set ps \<subseteq> fst ` set (AList.update k v n)"
    proof -
      have "fst ` set (AList.update k v n) = fst ` set n" using k by (metis list.set_map)
      then show ?thesis using Cons.prems by simp
    qed
    then show ?case using Cons.IH [of "AList.update k v n"] k p by simp
  qed simp
  have "fst ` set snaps \<subseteq> fst ` set m0"
  proof
    fix k assume "k \<in> fst ` set snaps"
    then obtain v where "(k, v) \<in> set snaps" by auto
    then show "k \<in> fst ` set m0" using sn map_of_key by metis
  qed
  then have "fst ` set snaps \<subseteq> fst ` set m" using assms(1) by (simp add: saved_def flip: set_map)
  then have kk: "map fst (restore snaps m) = map fst m0" using keys assms(1) by (simp add: saved_def)
  have "map_of (restore snaps m) = map_of m0"
  proof
    fix j
    show "map_of (restore snaps m) j = map_of m0 j"
      using query.restore_lookup [of snaps m0 m j] sn assms(1) unfolding restore_def saved_def by auto
  qed
  then show ?thesis using alist_eq [OF kk] assms(2) kk by simp
qed

section \<open>The loops\<close>

definition recorded :: "query_cache \<Rightarrow> query_cache \<times> change_result \<Rightarrow> bool" where
  "recorded qc0 st \<longleftrightarrow>
     saved (qc_lists qc0) (qc_lists (fst st)) (prev_lists (snd st)) \<and>
     saved (qc_flat qc0) (qc_flat (fst st)) (prev_flat (snd st)) \<and>
     saved (qc_rows qc0) (qc_rows (fst st)) (prev_rows (snd st)) \<and>
     qc_details (fst st) = qc_details qc0 \<and> qc_inbox (fst st) = qc_inbox qc0 \<and>
     qc_archived (fst st) = qc_archived qc0 \<and> prev_detail (snd st) = None \<and> prev_inbox (snd st) = None"

lemma foldl_keeps:
  "P a \<Longrightarrow> (\<And>a x. x \<in> set xs \<Longrightarrow> P a \<Longrightarrow> P (f a x)) \<Longrightarrow> P (foldl f a xs)"
  by (induction xs arbitrary: a) auto

lemma list_step_recorded:
  assumes "recorded qc0 st" "map_of (qc_lists qc0) (fst e) = Some (snd e)"
  shows "recorded qc0 (list_step i p ch base st e)"
  using assms saved_step [of "qc_lists qc0"]
  by (auto simp: list_step_def recorded_def Let_def split: prod.splits option.splits)

lemma flat_step_recorded:
  assumes "recorded qc0 st" "map_of (qc_flat qc0) (fst e) = Some (snd e)"
  shows "recorded qc0 (flat_step i p ch base st e)"
  using assms saved_step [of "qc_flat qc0"]
  by (auto simp: flat_step_def recorded_def Let_def split: prod.splits option.splits)

lemma row_step_recorded:
  assumes "recorded qc0 st" "map_of (qc_rows qc0) (fst e) = Some (snd e)"
  shows "recorded qc0 (row_step i p st e)"
  using assms saved_step [of "qc_rows qc0"]
  by (auto simp: row_step_def recorded_def Let_def split: prod.splits option.splits)

text \<open>The list loop leaves the flat windows alone, and the flat loop the table pages.\<close>

lemma list_loop_frame:
  "qc_flat (fst (foldl (list_step i p ch base) st es)) = qc_flat (fst st)"
  "qc_rows (fst (foldl (list_step i p ch base) st es)) = qc_rows (fst st)"
  by (induction es arbitrary: st)
    (auto simp: list_step_def Let_def split: prod.splits option.splits)

lemma flat_loop_frame:
  "qc_rows (fst (foldl (flat_step i p ch base) st es)) = qc_rows (fst st)"
  by (induction es arbitrary: st)
    (auto simp: flat_step_def Let_def split: prod.splits option.splits)

definition query_cache_ok :: "query_cache \<Rightarrow> bool" where
  "query_cache_ok qc \<longleftrightarrow>
     distinct (map fst (qc_lists qc)) \<and> distinct (map fst (qc_flat qc)) \<and>
     distinct (map fst (qc_rows qc)) \<and> obj_wf (qc_details qc)"

definition loops ::
    "query_cache \<Rightarrow> string \<Rightarrow> issue_patch \<Rightarrow> changed_dims \<Rightarrow> issue option \<Rightarrow> query_cache \<times> change_result" where
  "loops qc i p ch base =
     foldl (row_step i p)
       (foldl (flat_step i p ch base)
         (foldl (list_step i p ch base)
           (qc, \<lparr>prev_lists = [], prev_flat = [], prev_rows = [], prev_detail = None,
                 prev_inbox = None, stale_keys = [], prev_issue = base\<rparr>)
           (bucketedListEntries qc)) (qc_flat qc)) (qc_rows qc)"

lemma applyIssueChange_eq:
  "applyIssueChange qc i p ch base = inbox_step i p (detail_step i p (loops qc i p ch base))"
  by (simp add: applyIssueChange_def loops_def Let_def list_loop_frame flat_loop_frame)

lemma entry_lookup: "distinct (map fst m) \<Longrightarrow> e \<in> set m \<Longrightarrow> map_of m (fst e) = Some (snd e)"
  by (cases e) simp

lemma loops_recorded:
  assumes "query_cache_ok qc"
  shows "recorded qc (loops qc i p ch base)"
proof -
  have d: "distinct (map fst (qc_lists qc))" "distinct (map fst (qc_flat qc))" "distinct (map fst (qc_rows qc))"
    using assms by (simp_all add: query_cache_ok_def)
  let ?start = "(qc, \<lparr>prev_lists = [], prev_flat = [], prev_rows = [], prev_detail = None,
                 prev_inbox = None, stale_keys = [], prev_issue = base\<rparr>)"
  have "recorded qc ?start" by (simp add: recorded_def)
  then have 1: "recorded qc (foldl (list_step i p ch base) ?start (bucketedListEntries qc))"
    by (rule foldl_keeps) (auto intro!: list_step_recorded entry_lookup d simp: bucketedListEntries_def)
  then have 2: "recorded qc (foldl (flat_step i p ch base)
      (foldl (list_step i p ch base) ?start (bucketedListEntries qc)) (qc_flat qc))"
    by (rule foldl_keeps) (auto intro!: flat_step_recorded entry_lookup d)
  then show ?thesis
    unfolding loops_def by (rule foldl_keeps) (auto intro!: row_step_recorded entry_lookup d)
qed

lemma update_back:
  "obj_wf ob \<Longrightarrow> obj_get ob k = Some v \<Longrightarrow> obj_set (obj_set ob k w) k v = ob"
proof -
  assume a: "obj_wf ob" "obj_get ob k = Some v"
  have k: "k \<in> fst ` set ob" using map_of_key [OF a(2)] .
  have m: "map fst (obj_set ob k w) = map fst ob" by (rule update_keys_in [OF k])
  then have "k \<in> fst ` set (obj_set ob k w)" using k by (metis list.set_map)
  then have "map fst (obj_set (obj_set ob k w) k v) = map fst ob" using update_keys_in m by metis
  moreover have "map_of (obj_set (obj_set ob k w) k v) = map_of ob" by (rule obj.store_back [OF a(2)])
  ultimately show ?thesis using alist_eq a(1) by (metis obj_wf_def)
qed

lemma rollback_loops:
  assumes "query_cache_ok qc"
  shows "rollbackIssueChange (fst (loops qc i p ch base)) i (snd (loops qc i p ch base)) = qc"
proof -
  let ?st = "loops qc i p ch base"
  have r: "recorded qc ?st" by (rule loops_recorded [OF assms])
  then have "restore (prev_lists (snd ?st)) (qc_lists (fst ?st)) = qc_lists qc"
    "restore (prev_flat (snd ?st)) (qc_flat (fst ?st)) = qc_flat qc"
    "restore (prev_rows (snd ?st)) (qc_rows (fst ?st)) = qc_rows qc"
    using assms by (auto simp: recorded_def query_cache_ok_def intro!: saved_restore)
  then show ?thesis using r by (simp add: rollbackIssueChange_def recorded_def)
qed

lemma rollback_change:
  assumes "query_cache_ok qc"
  shows "rollbackIssueChange (fst (applyIssueChange qc i p ch base)) i (snd (applyIssueChange qc i p ch base)) =
    qc\<lparr>qc_archived := (case (p_status p, qc_inbox qc) of
         (Some s, Some items) \<Rightarrow> patch_inbox i s (qc_archived qc)
       | _ \<Rightarrow> qc_archived qc)\<rparr>"
proof -
  obtain c res where l: "loops qc i p ch base = (c, res)" by (cases "loops qc i p ch base")
  have roll: "rollbackIssueChange c i res = qc" using rollback_loops [OF assms] l by (metis fst_conv snd_conv)
  have r: "recorded qc (c, res)" using loops_recorded [OF assms] l by metis
  have same: "qc_details c = qc_details qc" "qc_inbox c = qc_inbox qc" "qc_archived c = qc_archived qc"
    "prev_detail res = None" "prev_inbox res = None" using r by (simp_all add: recorded_def)
  have bk: "restore (prev_lists res) (qc_lists c) = qc_lists qc"
    "restore (prev_flat res) (qc_flat c) = qc_flat qc" "restore (prev_rows res) (qc_rows c) = qc_rows qc"
    using roll by (auto simp: rollbackIssueChange_def)
  have det: "obj_get (qc_details qc) i = Some d \<Longrightarrow> obj_set (obj_set (qc_details qc) i w) i d = qc_details qc" for d w
    using assms by (intro update_back) (simp add: query_cache_ok_def)
  have "rollbackIssueChange (fst (inbox_step i p (detail_step i p (c, res)))) i
      (snd (inbox_step i p (detail_step i p (c, res)))) =
    qc\<lparr>qc_archived := (case (p_status p, qc_inbox qc) of
         (Some s, Some items) \<Rightarrow> patch_inbox i s (qc_archived qc)
       | _ \<Rightarrow> qc_archived qc)\<rparr>"
    using same bk det
    by (auto simp: detail_step_def inbox_step_def rollbackIssueChange_def patchInboxIssueStatus_def
        split: option.splits)
  then show ?thesis by (simp add: applyIssueChange_eq l)
qed

end
