(* ===== verification/Issue_Counts.thy ===== *)
theory Issue_Counts
  imports Issue_Rollback
begin

text \<open>
  The totals of a loaded list against the server. \<open>srv\<close> is the workspace's issues on the server;
  a list's totals are exact when each bucket counts the issues of its status the list serves.
  The change of one issue keeps them exact in every list that is not reported stale.
\<close>

section \<open>The server's counts\<close>

definition count_of :: "('a \<Rightarrow> bool) \<Rightarrow> 'a list \<Rightarrow> int" where
  "count_of P xs = int (length (filter P xs))"

text \<open>The issue \<open>i\<close> replaced by \<open>x\<close> on the server.\<close>

definition replaced :: "string \<Rightarrow> issue \<Rightarrow> issue list \<Rightarrow> issue list" where
  "replaced i x srv = map (\<lambda>y. if issue_id y = i then x else y) srv"

definition counts_exact ::
    "(string \<Rightarrow> assignee_kind option \<Rightarrow> string option \<Rightarrow> bool) \<Rightarrow>
     (assignee_kind option \<Rightarrow> string option \<Rightarrow> string \<Rightarrow> bool) \<Rightarrow>
     query_key \<Rightarrow> list_cache \<Rightarrow> issue list \<Rightarrow> bool" where
  "counts_exact involves mine key data srv \<longleftrightarrow>
     (case listContractFromKey key of
        (scope, flt, srt) \<Rightarrow>
          list_all (\<lambda>s. counted data s =
            count_of (\<lambda>x. status x = s \<and> serves involves mine scope flt x) srv) ALL_STATUSES)"

text \<open>The loaded cards are issues the list serves, as the server has them.\<close>

definition cards_served ::
    "(string \<Rightarrow> assignee_kind option \<Rightarrow> string option \<Rightarrow> bool) \<Rightarrow>
     (assignee_kind option \<Rightarrow> string option \<Rightarrow> string \<Rightarrow> bool) \<Rightarrow>
     query_key \<Rightarrow> list_cache \<Rightarrow> issue list \<Rightarrow> bool" where
  "cards_served involves mine key data srv \<longleftrightarrow>
     (case listContractFromKey key of
        (scope, flt, srt) \<Rightarrow>
          list_all (\<lambda>s. list_all (\<lambda>x. x \<in> set srv \<and> serves involves mine scope flt x) (cards data s))
            ALL_STATUSES)"

lemma count_of_mset: "count_of P xs = int (size (filter_mset P (mset xs)))"
  by (simp add: count_of_def flip: mset_filter)

lemma count_of_replaced:
  assumes "distinct (map issue_id srv)" "b \<in> set srv" "issue_id b = i"
  shows "count_of P (replaced i x srv) =
    count_of P srv - (if P b then 1 else 0) + (if P x then 1 else 0)"
proof -
  have m: "mset (replaced i x srv) = add_mset x (mset srv - {#b#})"
    using map_replace_mset [OF assms(1,2), of x] assms(3) by (simp add: replaced_def)
  have b: "mset srv = add_mset b (mset srv - {#b#})" using assms(2) by simp
  obtain rest where rest: "mset srv = add_mset b rest" "mset (replaced i x srv) = add_mset x rest"
    using m b by blast
  show ?thesis unfolding count_of_mset rest by simp
qed

lemma count_of_pos: "x \<in> set xs \<Longrightarrow> P x \<Longrightarrow> 1 \<le> count_of P xs"
proof -
  assume "x \<in> set xs" "P x"
  then have "x \<in> set (filter P xs)" by simp
  then have "0 < length (filter P xs)" by (rule length_pos_if_in_set)
  then have "Suc 0 \<le> length (filter P xs)" by (rule Suc_leI)
  then show ?thesis unfolding count_of_def by linarith
qed

section \<open>A change the filter does not depend on\<close>

lemma unchanged: "\<not> field_changed pv (Some v) \<Longrightarrow> or_else v pv = v"
  by (auto simp: field_changed_def or_else_def split: option.splits)

lemma untouched_membership:
  assumes "\<not> listFilterDependsOn scope flt (issueChangedDims p (Some b))"
    and "or_else (creator_id b) (p_creator_id p) = creator_id b"
  shows "serves involves mine scope flt (patched b p) = serves involves mine scope flt b"
proof -
  have creator: "creator_id (patched b p) = creator_id b" using assms(2) by (simp add: patched_def)
  have assignee: "assignee_id (patched b p) = assignee_id b \<and> assignee_type (patched b p) = assignee_type b"
    if "\<not> ch_assignee (issueChangedDims p (Some b))"
    using that by (simp add: issueChangedDims_def patched_def unchanged)
  have project: "project_id (patched b p) = project_id b" if "\<not> ch_project (issueChangedDims p (Some b))"
    using that by (simp add: issueChangedDims_def patched_def unchanged)
  show ?thesis
  proof (cases "scope = Some ''all''")
    case True
    then have "\<not> ch_assignee (issueChangedDims p (Some b))" using assms(1) by (simp add: listFilterDependsOn_def)
    then show ?thesis using assignee creator True by (simp add: serves_def)
  next
    case False
    have a: "\<not> ch_assignee (issueChangedDims p (Some b)) \<or>
      (f_assignee_id flt = None \<and> f_assignee_ids flt = None \<and> f_assignee_types flt = None \<and>
       f_involves_user_id flt = None)"
      and pr: "\<not> ch_project (issueChangedDims p (Some b)) \<or> f_project_id flt = None"
      using assms(1) False by (auto simp: listFilterDependsOn_def split: if_splits)
    have proj: "(f_project_id flt = None \<or> f_project_id flt = project_id (patched b p)) =
        (f_project_id flt = None \<or> f_project_id flt = project_id b)"
      using pr project by auto
    from a show ?thesis
    proof
      assume "\<not> ch_assignee (issueChangedDims p (Some b))"
      then have "assignee_id (patched b p) = assignee_id b" "assignee_type (patched b p) = assignee_type b"
        using assignee by auto
      then show ?thesis by (simp only: serves_def creator proj)
    next
      assume "f_assignee_id flt = None \<and> f_assignee_ids flt = None \<and> f_assignee_types flt = None \<and>
       f_involves_user_id flt = None"
      then show ?thesis using creator False proj by (simp add: serves_def)
    qed
  qed
qed

lemma completes_patched: "completes (spread (as_partial b) p) (patched b p)"
  by (auto simp: completes_def agrees_def spread_def as_partial_def patched_def over_def or_else_def
      split: option.splits)

lemma completes_self: "completes (as_partial b) b"
  by (simp add: completes_def agrees_def as_partial_def)

section \<open>One list\<close>

text \<open>What one list needs to stay exact: the server's issue as the base, its own fields as the
  changed dimensions, an immutable creator.\<close>

definition honest_change :: "issue list \<Rightarrow> string \<Rightarrow> issue \<Rightarrow> issue_patch \<Rightarrow> bool" where
  "honest_change srv i b p \<longleftrightarrow>
     distinct (map issue_id srv) \<and> b \<in> set srv \<and> issue_id b = i \<and>
     or_else (creator_id b) (p_creator_id p) = creator_id b"

lemma counts_exact_iff:
  "listContractFromKey key = (scope, flt, srt) \<Longrightarrow>
   counts_exact involves mine key data srv \<longleftrightarrow>
     (\<forall>s. counted data s = count_of (\<lambda>x. status x = s \<and> serves involves mine scope flt x) srv)"
  by (simp add: counts_exact_def list_all_iff)

lemma count_change:
  assumes "honest_change srv i b p"
  shows "count_of (\<lambda>x. status x = u \<and> serves involves mine scope flt x) (replaced i (patched b p) srv) =
    count_of (\<lambda>x. status x = u \<and> serves involves mine scope flt x) srv
      - (if status b = u \<and> serves involves mine scope flt b then 1 else 0)
      + (if or_else (status b) (p_status p) = u \<and> serves involves mine scope flt (patched b p) then 1 else 0)"
proof -
  have h: "distinct (map issue_id srv)" "b \<in> set srv" "issue_id b = i"
    using assms by (simp_all add: honest_change_def)
  show ?thesis
    using count_of_replaced [OF h, of "\<lambda>x. status x = u \<and> serves involves mine scope flt x" "patched b p"]
    by simp
qed

lemma remove_counted:
  assumes "cache_ok data" "findIssueLocation data i = Some (s, x)"
  shows "counted (removeIssueFromBuckets data i) u = counted data u - (if u = s then 1 else 0)"
proof -
  have x: "x \<in> set (cards data s)" using located [OF assms(2)] by simp
  have "bucket_ok s (getBucket data s)" "distinct (map issue_id (cards data s))"
    using assms(1) by (auto simp: cache_ok_iff ids_apart_def)
  then have "max 0 (counted data s - 1) = counted data s - 1" using x by (rule bucket_ok_remove(2))
  then show ?thesis using assms(2) by (simp add: removeIssueFromBuckets_def Let_def bucket_simps)
qed

lemma present_exact:
  assumes key: "listContractFromKey key = (scope, flt, srt)"
    and ok: "cache_ok data" and loc: "findIssueLocation data i = Some (s, b)"
    and h: "honest_change srv i b p" and served: "serves involves mine scope flt b"
    and exact: "counts_exact involves mine key data srv"
    and r: "reconcile_present key data i p (issueChangedDims p (Some b)) b = (nxt, stale)"
  shows "key \<in> set stale \<or> counts_exact involves mine key (or_else data nxt) (replaced i (patched b p) srv)"
proof -
  have st: "status b = s" by (rule located_status [OF ok loc])
  have e: "counted data u = count_of (\<lambda>x. status x = u \<and> serves involves mine scope flt x) srv" for u
    using exact key by (simp add: counts_exact_iff)
  have patch: "counts_exact involves mine key (patchIssueInBuckets data i p) (replaced i (patched b p) srv)"
    if "serves involves mine scope flt (patched b p)"
    using patch_buckets(3) [OF ok loc] that served st
    by (simp add: counts_exact_iff [OF key] count_change [OF h] moved_total_def e)
  show ?thesis
  proof (cases "listFilterDependsOn scope flt (issueChangedDims p (Some b))")
    case False
    then have "nxt = Some (patchIssueInBuckets data i p)" using r key by (simp add: reconcile_present_def)
    moreover have "serves involves mine scope flt (patched b p)"
      using untouched_membership [OF False] h served by (simp add: honest_change_def)
    ultimately show ?thesis using patch by (simp add: or_else_def)
  next
    case True
    show ?thesis
    proof (cases "issueMatchesListFilter (spread (as_partial b) p) scope flt")
      case IsMember
      then have "nxt = Some (patchIssueInBuckets data i p)"
        using r key True by (simp add: reconcile_present_def)
      moreover have "serves involves mine scope flt (patched b p)"
        by (rule membership_yes [OF IsMember completes_patched])
      ultimately show ?thesis using patch by (simp add: or_else_def)
    next
      case NotMember
      then have "nxt = Some (removeIssueFromBuckets data i)"
        using r key True by (simp add: reconcile_present_def)
      moreover have "\<not> serves involves mine scope flt (patched b p)"
        by (rule membership_no [OF NotMember completes_patched])
      ultimately show ?thesis
        using remove_counted [OF ok loc] served st
        by (simp add: counts_exact_iff [OF key] count_change [OF h] e or_else_def)
    next
      case Undecided
      then show ?thesis using r key True by (auto simp: reconcile_present_def)
    qed
  qed
qed

lemma absent_exact:
  assumes key: "listContractFromKey key = (scope, flt, srt)"
    and h: "honest_change srv i b p"
    and exact: "counts_exact involves mine key data srv"
    and r: "reconcile_absent key data p (issueChangedDims p (Some b)) (Some b) = (nxt, stale)"
  shows "key \<in> set stale \<or> counts_exact involves mine key (or_else data nxt) (replaced i (patched b p) srv)"
proof -
  let ?ch = "issueChangedDims p (Some b)"
  have e: "counted data u = count_of (\<lambda>x. status x = u \<and> serves involves mine scope flt x) srv" for u
    using exact key by (simp add: counts_exact_iff)
  have same: "or_else (status b) (p_status p) = status b" if "\<not> ch_status ?ch"
    using that by (simp add: issueChangedDims_def unchanged)
  have keep: ?thesis if "nxt = None" "serves involves mine scope flt (patched b p) = serves involves mine scope flt b"
    "serves involves mine scope flt b \<Longrightarrow> or_else (status b) (p_status p) = status b"
    using that e by (auto simp: counts_exact_iff [OF key] count_change [OF h] or_else_def)
  show ?thesis
  proof (cases "listFilterDependsOn scope flt ?ch \<or> ch_status ?ch")
    case False
    then have "nxt = None" using r key by (simp add: reconcile_absent_def)
    then show ?thesis
      using keep untouched_membership [of scope flt p b] same False h by (simp add: honest_change_def)
  next
    case True
    then have t: "(\<not> listFilterDependsOn scope flt ?ch \<and> \<not> ch_status ?ch) = False" by blast
    let ?was = "issueMatchesListFilter (as_partial b) scope flt"
    let ?now = "issueMatchesListFilter (spread (as_partial b) p) scope flt"
    have was: "?was = IsMember \<Longrightarrow> serves involves mine scope flt b"
      "?was = NotMember \<Longrightarrow> \<not> serves involves mine scope flt b"
      using membership_yes [OF _ completes_self] membership_no [OF _ completes_self] by blast+
    have now: "?now = IsMember \<Longrightarrow> serves involves mine scope flt (patched b p)"
      "?now = NotMember \<Longrightarrow> \<not> serves involves mine scope flt (patched b p)"
      using membership_yes [OF _ completes_patched] membership_no [OF _ completes_patched] by blast+
    consider (out) "?was = NotMember" "?now = NotMember" | (stay) "?was = IsMember" "?now = IsMember"
      | (left) "?was = IsMember" "?now = NotMember" | (stale) "stale = [key]"
      using r key by (cases ?was; cases ?now) (simp_all add: reconcile_absent_def t)
    then show ?thesis
    proof cases
      case out
      then have "nxt = None" using r key by (simp add: reconcile_absent_def t)
      then show ?thesis using keep was now out by simp
    next
      case stay
      show ?thesis
      proof (cases "ch_status ?ch")
        case moved: True
        then obtain t where t: "p_status p = Some t" "status b \<noteq> t"
          by (auto simp: issueChangedDims_def field_changed_def split: option.splits)
        then have "stale = [key]" using r key stay moved by (simp add: reconcile_absent_def t)
        then show ?thesis by simp
      next
        case False
        then have "listFilterDependsOn scope flt ?ch" using True by blast
        then have "nxt = None" using r key stay False
          by (cases "p_status p") (simp_all add: reconcile_absent_def)
        then show ?thesis using keep was now stay same [OF False] by simp
      qed
    next
      case left
      then have n: "nxt = Some (decrementBucketTotal data (status b))"
        using r key by (simp add: reconcile_absent_def t)
      have "1 \<le> count_of (\<lambda>x. status x = status b \<and> serves involves mine scope flt x) srv"
        by (rule count_of_pos [of b]) (use h was left in \<open>auto simp: honest_change_def\<close>)
      then have "max 0 (counted data (status b) - 1) = counted data (status b) - 1" using e by simp
      then show ?thesis
        using n was(1) [OF left(1)] now(2) [OF left(2)] e
        by (simp add: counts_exact_iff [OF key] count_change [OF h] or_else_def decrementBucketTotal_def
            Let_def bucket_simps)
    next
      case stale
      then show ?thesis by simp
    qed
  qed
qed

lemma reconcile_exact:
  assumes ok: "cache_ok data" and h: "honest_change srv i b p"
    and served: "cards_served involves mine key data srv"
    and exact: "counts_exact involves mine key data srv"
    and r: "reconcile_list key data i p (issueChangedDims p (Some b)) (Some b) = (nxt, stale)"
  shows "key \<in> set stale \<or> counts_exact involves mine key (or_else data nxt) (replaced i (patched b p) srv)"
proof -
  obtain scope flt srt where key: "listContractFromKey key = (scope, flt, srt)"
    by (cases "listContractFromKey key") auto
  show ?thesis
  proof (cases "findIssueLocation data i")
    case None
    obtain st2 where "reconcile_absent key data p (issueChangedDims p (Some b)) (Some b) = (nxt, st2)"
      "set st2 \<subseteq> set stale"
      using r None key by (auto simp: reconcile_list_def Let_def split: prod.splits)
    then show ?thesis using absent_exact [OF key h exact] by blast
  next
    case (Some l)
    obtain s x where l: "l = (s, x)" by (cases l)
    have x: "x \<in> set (cards data s)" "issue_id x = i" using located Some l by auto
    have sv: "x \<in> set srv" "serves involves mine scope flt x"
      using served key x(1) by (auto simp: cards_served_def list_all_iff)
    have "inj_on issue_id (set srv)" using h by (simp add: honest_change_def distinct_map)
    then have xb: "x = b" using sv(1) x(2) h by (auto simp: honest_change_def dest: inj_onD)
    obtain st2 where "reconcile_present key data i p (issueChangedDims p (Some b)) b = (nxt, st2)"
      "set st2 \<subseteq> set stale"
      using r Some l key xb by (auto simp: reconcile_list_def Let_def split: prod.splits)
    then show ?thesis
      using present_exact [OF key ok, of i s b] Some l xb h sv(2) exact by blast
  qed
qed

end
