(* ===== verification/Issue_Properties.thy ===== *)
theory Issue_Properties
  imports Issue_Counts
begin

text \<open>
  The properties of the issue cache: patching a bucketed list, the membership test, the totals
  of every loaded list after a change, and the rollback of a failed one.
\<close>

section \<open>The list loop as a whole\<close>

lemma list_step_eq:
  "list_step i p ch base st (key, data) =
     (case fst (reconcile_list key data i p ch base) of
        None \<Rightarrow> fst st
      | Some d \<Rightarrow> (fst st)\<lparr>qc_lists := AList.update key d (qc_lists (fst st))\<rparr>,
      snd (list_step i p ch base st (key, data)))"
  "stale_keys (snd (list_step i p ch base st (key, data))) =
     stale_keys (snd st) @ snd (reconcile_list key data i p ch base)"
  by (auto simp: list_step_def Let_def split: prod.splits option.splits)

lemma list_step_lookup:
  assumes "map_of (qc_lists (fst st)) key = Some data"
  shows "map_of (qc_lists (fst (list_step i p ch base st (key, data)))) k =
    (if k = key then Some (or_else data (fst (reconcile_list key data i p ch base)))
     else map_of (qc_lists (fst st)) k)"
  using assms
  by (subst list_step_eq(1)) (auto simp: or_else_def update_conv' split: option.splits)

definition entry_done ::
    "string \<Rightarrow> issue_patch \<Rightarrow> changed_dims \<Rightarrow> issue option \<Rightarrow> query_cache \<times> change_result \<Rightarrow>
     query_key \<times> list_cache \<Rightarrow> bool" where
  "entry_done i p ch base st e \<longleftrightarrow>
     map_of (qc_lists (fst st)) (fst e) =
       Some (or_else (snd e) (fst (reconcile_list (fst e) (snd e) i p ch base))) \<and>
     set (snd (reconcile_list (fst e) (snd e) i p ch base)) \<subseteq> set (stale_keys (snd st))"

lemma list_loop_lookup:
  assumes "distinct (map fst es)" "\<forall>e \<in> set es. map_of (qc_lists (fst st)) (fst e) = Some (snd e)"
  shows "(\<forall>e \<in> set es. entry_done i p ch base (foldl (list_step i p ch base) st es) e) \<and>
    (\<forall>k. k \<notin> fst ` set es \<longrightarrow>
      map_of (qc_lists (fst (foldl (list_step i p ch base) st es))) k = map_of (qc_lists (fst st)) k) \<and>
    set (stale_keys (snd st)) \<subseteq> set (stale_keys (snd (foldl (list_step i p ch base) st es)))"
  using assms
proof (induction es arbitrary: st)
  case (Cons e es)
  obtain key data where e: "e = (key, data)" by (cases e)
  let ?st = "list_step i p ch base st (key, data)"
  let ?fin = "foldl (list_step i p ch base) ?st es"
  have now: "map_of (qc_lists (fst st)) key = Some data" using Cons.prems(2) e by simp
  note look = list_step_lookup [OF now, of i p ch base]
  have key: "key \<notin> fst ` set es" using Cons.prems(1) e by simp
  have pre: "distinct (map fst es)" "\<forall>e \<in> set es. map_of (qc_lists (fst ?st)) (fst e) = Some (snd e)"
    using Cons.prems key e by (auto simp: look image_iff)
  have IH: "\<forall>e \<in> set es. entry_done i p ch base ?fin e"
    "\<And>k. k \<notin> fst ` set es \<Longrightarrow> map_of (qc_lists (fst ?fin)) k = map_of (qc_lists (fst ?st)) k"
    "set (stale_keys (snd ?st)) \<subseteq> set (stale_keys (snd ?fin))"
    using Cons.IH [OF pre] by auto
  have stale: "stale_keys (snd ?st) = stale_keys (snd st) @ snd (reconcile_list key data i p ch base)"
    by (rule list_step_eq(2))
  have "entry_done i p ch base ?fin e"
    using IH(2) [OF key] look [of key] IH(3) stale e by (simp add: entry_done_def)
  moreover have "map_of (qc_lists (fst ?fin)) k = map_of (qc_lists (fst st)) k" if "k \<notin> fst ` set (e # es)" for k
    using IH(2) [of k] look [of k] e that by simp
  moreover have "set (stale_keys (snd st)) \<subseteq> set (stale_keys (snd ?fin))" using IH(3) stale by simp
  ultimately show ?case using IH(1) e by simp
qed simp

text \<open>The later loops and steps leave the lists alone and only add stale keys.\<close>

lemma later_frame:
  "qc_lists (fst (foldl (flat_step i p ch base) st fs)) = qc_lists (fst st)"
  "set (stale_keys (snd st)) \<subseteq> set (stale_keys (snd (foldl (flat_step i p ch base) st fs)))"
  "qc_lists (fst (foldl (row_step i p) st rs)) = qc_lists (fst st)"
  "stale_keys (snd (foldl (row_step i p) st rs)) = stale_keys (snd st)"
proof -
  have f: "qc_lists (fst (flat_step i p ch base s e)) = qc_lists (fst s)"
    "set (stale_keys (snd s)) \<subseteq> set (stale_keys (snd (flat_step i p ch base s e)))" for s e
    by (auto simp: flat_step_def Let_def split: prod.splits option.splits)
  have r: "qc_lists (fst (row_step i p s e)) = qc_lists (fst s)"
    "stale_keys (snd (row_step i p s e)) = stale_keys (snd s)" for s e
    by (auto simp: row_step_def Let_def split: prod.splits option.splits)
  show "qc_lists (fst (foldl (flat_step i p ch base) st fs)) = qc_lists (fst st)"
    by (induction fs arbitrary: st) (simp_all add: f)
  show "set (stale_keys (snd st)) \<subseteq> set (stale_keys (snd (foldl (flat_step i p ch base) st fs)))"
  proof (induction fs arbitrary: st)
    case (Cons x fs)
    have "set (stale_keys (snd (flat_step i p ch base st x))) \<subseteq>
        set (stale_keys (snd (foldl (flat_step i p ch base) (flat_step i p ch base st x) fs)))" by (rule Cons)
    then show ?case using f(2) [of st x] by simp
  qed simp
  show "qc_lists (fst (foldl (row_step i p) st rs)) = qc_lists (fst st)"
    by (induction rs arbitrary: st) (simp_all add: r)
  show "stale_keys (snd (foldl (row_step i p) st rs)) = stale_keys (snd st)"
    by (induction rs arbitrary: st) (simp_all add: r)
qed

lemma steps_frame:
  "qc_lists (fst (inbox_step i p (detail_step i p st))) = qc_lists (fst st)"
  "stale_keys (snd (inbox_step i p (detail_step i p st))) = stale_keys (snd st)"
  by (auto simp: inbox_step_def detail_step_def patchInboxIssueStatus_def split: prod.splits option.splits)

lemma bucketed_entries:
  assumes "distinct (map fst (qc_lists qc))"
  shows "distinct (map fst (bucketedListEntries qc))"
    "\<forall>e \<in> set (bucketedListEntries qc). map_of (qc_lists qc) (fst e) = Some (snd e)"
proof -
  have d: "distinct (map fst (filter P (qc_lists qc)))" for P using assms by (rule distinct_map_filter)
  have "\<not> (is_list_key k \<and> is_my_key k)" for k by (cases k) auto
  then have "fst ` set (filter (\<lambda>e. is_list_key (fst e)) (qc_lists qc)) \<inter>
      fst ` set (filter (\<lambda>e. is_my_key (fst e)) (qc_lists qc)) = {}" by auto
  then show "distinct (map fst (bucketedListEntries qc))" using d by (simp add: bucketedListEntries_def)
  show "\<forall>e \<in> set (bucketedListEntries qc). map_of (qc_lists qc) (fst e) = Some (snd e)"
    using assms by (auto simp: bucketedListEntries_def intro!: entry_lookup)
qed

lemma applied_lists:
  assumes "distinct (map fst (qc_lists qc))" "(key, data) \<in> set (bucketedListEntries qc)"
  shows "map_of (qc_lists (fst (applyIssueChange qc i p ch base))) key =
      Some (or_else data (fst (reconcile_list key data i p ch base)))"
    "set (snd (reconcile_list key data i p ch base)) \<subseteq>
      set (stale_keys (snd (applyIssueChange qc i p ch base)))"
proof -
  let ?start = "(qc, \<lparr>prev_lists = [], prev_flat = [], prev_rows = [], prev_detail = None,
                 prev_inbox = None, stale_keys = [], prev_issue = base\<rparr>)"
  let ?l = "foldl (list_step i p ch base) ?start (bucketedListEntries qc)"
  have b: "\<forall>e \<in> set (bucketedListEntries qc). map_of (qc_lists (fst ?start)) (fst e) = Some (snd e)"
    using bucketed_entries(2) [OF assms(1)] by simp
  have "entry_done i p ch base ?l (key, data)"
    using list_loop_lookup [OF bucketed_entries(1) [OF assms(1)] b, of i p ch base] assms(2) by blast
  then have loop: "map_of (qc_lists (fst ?l)) key = Some (or_else data (fst (reconcile_list key data i p ch base)))"
    "set (snd (reconcile_list key data i p ch base)) \<subseteq> set (stale_keys (snd ?l))"
    by (simp_all add: entry_done_def)
  have "qc_lists (fst (applyIssueChange qc i p ch base)) = qc_lists (fst ?l)"
    unfolding applyIssueChange_eq steps_frame loops_def by (simp only: later_frame)
  then show "map_of (qc_lists (fst (applyIssueChange qc i p ch base))) key =
      Some (or_else data (fst (reconcile_list key data i p ch base)))" using loop(1) by simp
  have "set (stale_keys (snd ?l)) \<subseteq> set (stale_keys (snd (applyIssueChange qc i p ch base)))"
    unfolding applyIssueChange_eq steps_frame loops_def by (simp only: later_frame)
  then show "set (snd (reconcile_list key data i p ch base)) \<subseteq>
      set (stale_keys (snd (applyIssueChange qc i p ch base)))" using loop(2) by blast
qed

section \<open>A small workspace\<close>

definition demo_issue :: "string \<Rightarrow> issue_status \<Rightarrow> string option \<Rightarrow> int \<Rightarrow> issue" where
  "demo_issue i s who pos =
     \<lparr>issue_id = i, title = ''t'', status = s, priority = Low,
      assignee_type = map_option (\<lambda>_. MemberActor) who, assignee_id = who, creator_id = ''ann'',
      parent_issue_id = None, project_id = None, position = pos, start_date = None, due_date = None,
      created_at = ''1'', updated_at = ''1'', properties = None, other_fields = []\<rparr>"

definition demo_srv :: "issue list" where
  "demo_srv = [demo_issue ''a'' Todo (Some ''ann'') 1, demo_issue ''b'' Todo (Some ''bob'') 2,
               demo_issue ''c'' Done (Some ''ann'') 3]"

definition demo_list :: list_cache where
  "demo_list =
     (\<lambda>s. None)(Todo := Some \<lparr>bucket_issues = [demo_issue ''a'' Todo (Some ''ann'') 1], bucket_total = 1\<rparr>,
              Done := Some \<lparr>bucket_issues = [demo_issue ''c'' Done (Some ''ann'') 3], bucket_total = 1\<rparr>)"

definition demo_key :: query_key where
  "demo_key = MyKey ''assigned'' (no_filter\<lparr>f_assignee_id := Some ''ann''\<rparr>)
     \<lparr>sort_by = None, date_field = None, sort_properties = None\<rparr>"

definition demo_cache :: query_cache where
  "demo_cache =
     \<lparr>qc_lists = [(demo_key, demo_list)], qc_flat = [], qc_rows = [], qc_details = [],
      qc_inbox = Some [],
      qc_archived = Some [\<lparr>inbox_item_id = ''n'', inbox_issue = Some ''a'', inbox_status = Some Todo,
        inbox_read = True, inbox_archived = True, inbox_created = ''t'', inbox_details = None\<rparr>]\<rparr>"

definition to_bob :: issue_patch where
  "to_bob = no_patch\<lparr>p_assignee_id := Some (Some ''bob''), p_status := Some Done\<rparr>"

lemma demo_list_ok: "cache_ok demo_list"
  by code_simp

section \<open>The properties\<close>

text \<open>Patching a card of a well-formed bucketed list keeps it well-formed (each card once, in the bucket of its status, buckets in position order, loaded cards within the total), leaves every other card, puts the patched card in the bucket of its new status and moves one unit of the totals with it.\<close>

theorem patchIssueInBuckets_correct:
  assumes "cache_ok resp" and "findIssueLocation resp i = Some (s, x)"
  shows "cache_ok (patchIssueInBuckets resp i p) \<and>
    findIssueLocation (patchIssueInBuckets resp i p) i = Some (or_else s (p_status p), patched x p) \<and>
    (\<forall>u. mset (cards (patchIssueInBuckets resp i p) u) = moved_cards resp s x p u) \<and>
    (\<forall>u. counted (patchIssueInBuckets resp i p) u = moved_total resp s p u)"
proof -
  let ?r = "patchIssueInBuckets resp i p"
  have ok: "cache_ok ?r" by (rule patch_cache_ok [OF assms])
  have m: "\<forall>u. mset (cards ?r u) = moved_cards resp s x p u" "\<forall>u. counted ?r u = moved_total resp s p u"
    using patch_buckets(2,3) [OF assms] by blast+
  have x: "issue_id x = i" using located [OF assms(2)] by simp
  let ?t = "or_else s (p_status p)"
  have "patched x p \<in># mset (cards ?r ?t)" using m(1) by (simp add: moved_cards_def)
  then have in_t: "patched x p \<in> set (cards ?r ?t)" by simp
  have "issue_id (patched x p) = i" using x by simp
  then have "findIssueLocation ?r i \<noteq> None" using in_t not_located [of ?r i] by blast
  then obtain t y where l: "findIssueLocation ?r i = Some (t, y)" by auto
  have "y \<in> set (cards ?r t)" "issue_id y = i" using located [OF l] by auto
  then have "t = ?t \<and> y = patched x p"
    using ids_apartD [of ?r y t "patched x p" ?t] in_t ok x by (simp add: cache_ok_iff)
  then show ?thesis using ok m l by simp
qed

lemma patchIssueInBuckets_correct_witness:
  "cache_ok (patchIssueInBuckets demo_list ''a'' to_bob) \<and>
   findIssueLocation (patchIssueInBuckets demo_list ''a'' to_bob) ''a'' =
     Some (Done, patched (demo_issue ''a'' Todo (Some ''ann'') 1) to_bob)"
proof -
  have "findIssueLocation demo_list ''a'' = Some (Todo, demo_issue ''a'' Todo (Some ''ann'') 1)" by code_simp
  moreover have "or_else Todo (p_status to_bob) = Done" by code_simp
  ultimately show ?thesis using patchIssueInBuckets_correct [OF demo_list_ok, of "''a''" Todo _ to_bob] by simp
qed

text \<open>The membership test never guesses: whatever full issue a partial one turns out to be, a yes means the list serves it and a no means it does not, for every meaning of the two predicates the client cannot evaluate.\<close>

theorem issueMatchesListFilter_sound:
  assumes "completes p x"
  shows "(issueMatchesListFilter p scope flt = IsMember \<longrightarrow> serves involves mine scope flt x) \<and>
    (issueMatchesListFilter p scope flt = NotMember \<longrightarrow> \<not> serves involves mine scope flt x)"
  using membership_yes [OF _ assms] membership_no [OF _ assms] by blast

lemma issueMatchesListFilter_sound_witness:
  "serves (\<lambda>u t a. False) (\<lambda>t a c. False) (Some ''assigned'') (no_filter\<lparr>f_assignee_id := Some ''ann''\<rparr>)
     (demo_issue ''a'' Todo (Some ''ann'') 1)"
proof -
  have "completes (no_patch\<lparr>p_assignee_id := Some (Some ''ann'')\<rparr>) (demo_issue ''a'' Todo (Some ''ann'') 1)"
    "issueMatchesListFilter (no_patch\<lparr>p_assignee_id := Some (Some ''ann'')\<rparr>) (Some ''assigned'')
       (no_filter\<lparr>f_assignee_id := Some ''ann''\<rparr>) = IsMember"
    by code_simp+
  then show ?thesis
    using issueMatchesListFilter_sound [of "no_patch\<lparr>p_assignee_id := Some (Some ''ann'')\<rparr>"
        "demo_issue ''a'' Todo (Some ''ann'') 1" "Some ''assigned''" "no_filter\<lparr>f_assignee_id := Some ''ann''\<rparr>"
        "\<lambda>u t a. False" "\<lambda>t a c. False"] by blast
qed

text \<open>C8. After a change every loaded list is right or reported stale: if its totals counted exactly the server's issues before, and the base is the server's copy, then once the server has applied the change its totals are exact again, unless its key is among the stale keys.\<close>

theorem applyIssueChange_exact_or_stale:
  assumes "query_cache_ok qc" and "(key, data) \<in> set (bucketedListEntries qc)" and "cache_ok data"
    and "honest_change srv i b p" and "cards_served involves mine key data srv"
    and "counts_exact involves mine key data srv"
  shows "\<exists>d. map_of (qc_lists (fst (applyIssueChange qc i p (issueChangedDims p (Some b)) (Some b)))) key = Some d \<and>
    (key \<in> set (stale_keys (snd (applyIssueChange qc i p (issueChangedDims p (Some b)) (Some b)))) \<or>
     counts_exact involves mine key d (replaced i (patched b p) srv))"
proof -
  let ?r = "reconcile_list key data i p (issueChangedDims p (Some b)) (Some b)"
  have d: "distinct (map fst (qc_lists qc))" using assms(1) by (simp add: query_cache_ok_def)
  note a = applied_lists [OF d assms(2), of i p "issueChangedDims p (Some b)" "Some b"]
  have "key \<in> set (snd ?r) \<or> counts_exact involves mine key (or_else data (fst ?r)) (replaced i (patched b p) srv)"
    by (rule reconcile_exact [OF assms(3-6)]) simp
  then show ?thesis using a by blast
qed

lemma applyIssueChange_exact_or_stale_witness:
  "\<exists>d. map_of (qc_lists (fst (applyIssueChange demo_cache ''a'' to_bob
        (issueChangedDims to_bob (Some (hd demo_srv))) (Some (hd demo_srv))))) demo_key = Some d \<and>
    (demo_key \<in> set (stale_keys (snd (applyIssueChange demo_cache ''a'' to_bob
        (issueChangedDims to_bob (Some (hd demo_srv))) (Some (hd demo_srv))))) \<or>
     counts_exact (\<lambda>u t a. False) (\<lambda>t a c. False) demo_key d (replaced ''a'' (patched (hd demo_srv) to_bob) demo_srv))"
proof -
  have "query_cache_ok demo_cache" by (simp add: query_cache_ok_def demo_cache_def)
  moreover have "(demo_key, demo_list) \<in> set (bucketedListEntries demo_cache)"
    by (simp add: bucketedListEntries_def demo_cache_def demo_key_def)
  moreover have "honest_change demo_srv ''a'' (hd demo_srv) to_bob" by code_simp
  moreover have "cards_served (\<lambda>u t a. False) (\<lambda>t a c. False) demo_key demo_list demo_srv" by code_simp
  moreover have "counts_exact (\<lambda>u t a. False) (\<lambda>t a c. False) demo_key demo_list demo_srv" by code_simp
  ultimately show ?thesis
    using applyIssueChange_exact_or_stale [OF _ _ demo_list_ok, of demo_cache demo_key demo_srv "''a''" "hd demo_srv" to_bob
        "\<lambda>u t a. False" "\<lambda>t a c. False"] by blast
qed

text \<open>Rolling back a change restores every list, flat window, table page, the details and the inbox exactly, but not the archived inbox: when the change set a status and the inbox was loaded, the archived rows of the issue keep the rejected status.\<close>

theorem rollbackIssueChange_restores:
  assumes "query_cache_ok qc"
  shows "rollbackIssueChange (fst (applyIssueChange qc i p ch base)) i (snd (applyIssueChange qc i p ch base)) =
    qc\<lparr>qc_archived := (case (p_status p, qc_inbox qc) of
         (Some s, Some items) \<Rightarrow> patch_inbox i s (qc_archived qc)
       | _ \<Rightarrow> qc_archived qc)\<rparr>"
  using assms by (rule rollback_change)

lemma rollbackIssueChange_restores_witness:
  "qc_archived demo_cache = Some [\<lparr>inbox_item_id = ''n'', inbox_issue = Some ''a'', inbox_status = Some Todo,
        inbox_read = True, inbox_archived = True, inbox_created = ''t'', inbox_details = None\<rparr>] \<and>
   qc_archived (rollbackIssueChange
      (fst (applyIssueChange demo_cache ''a'' to_bob (issueChangedDims to_bob None) None)) ''a''
      (snd (applyIssueChange demo_cache ''a'' to_bob (issueChangedDims to_bob None) None))) =
     Some [\<lparr>inbox_item_id = ''n'', inbox_issue = Some ''a'', inbox_status = Some Done,
        inbox_read = True, inbox_archived = True, inbox_created = ''t'', inbox_details = None\<rparr>]"
proof -
  have "query_cache_ok demo_cache" by (simp add: query_cache_ok_def demo_cache_def)
  from rollbackIssueChange_restores [OF this, of "''a''" to_bob "issueChangedDims to_bob None" None]
  show ?thesis by (simp add: demo_cache_def to_bob_def no_patch_def patch_inbox_def)
qed

end
