(* ===== verification/Permissions.thy ===== *)
theory Permissions
  imports JS_Prelude
begin

text \<open>
  The permission rules (\<open>packages/core/permissions/rules.ts\<close>, \<open>types.ts\<close>): one definition per
  rule, each returning a decision with its reason and its message. The resources carry the
  fields the rules read.
\<close>

section \<open>Context and decisions\<close>

datatype member_role = OwnerRole | AdminRole | MemberRole | ReporterRole

record permission_context =
  userId :: "string option"
  role :: "member_role option"

datatype decision_reason =
    Allowed | NotAuthenticated | NotMemberReason | NotOwnerRole | NotAdminRole
  | NotResourceOwner | LastOwner | PrivateVisibility | UnknownReason

record decision =
  allowed :: bool
  reason :: decision_reason
  message :: string

definition ALLOW :: decision where
  "ALLOW = \<lparr>allowed = True, reason = Allowed, message = []\<rparr>"

definition deny :: "decision_reason \<Rightarrow> string \<Rightarrow> decision" where
  "deny r m = \<lparr>allowed = False, reason = r, message = m\<rparr>"

section \<open>Resources\<close>

datatype target_kind = WorkspaceTarget | MemberTarget | TeamTarget

record invocation_target =
  target_type :: target_kind
  target_id :: "string option"

datatype permission_mode = PrivateMode | PublicTo

text \<open>\<open>invocation_targets\<close> is \<open>None\<close> when a legacy backend omits it.\<close>

record agent =
  agent_owner_id :: "string option"
  permission_mode :: permission_mode
  invocation_targets :: "invocation_target list option"

datatype author_kind = MemberAuthor | AgentAuthor

record comment =
  author_type :: author_kind
  author_id :: string

section \<open>The rules\<close>

definition isAdminLike :: "member_role option \<Rightarrow> bool" where
  "isAdminLike r \<longleftrightarrow> r = Some OwnerRole \<or> r = Some AdminRole"

definition reporterDenied :: decision where
  "reporterDenied = deny NotMemberReason ''This workspace role cannot access this feature.''"

text \<open>A resource whose owner is \<open>null\<close> belongs to nobody.\<close>

definition owned_by :: "string option \<Rightarrow> permission_context \<Rightarrow> bool" where
  "owned_by ow ctx \<longleftrightarrow> ow \<noteq> None \<and> ow = userId ctx"

definition canEditAgent :: "agent \<Rightarrow> permission_context \<Rightarrow> decision" where
  "canEditAgent a ctx =
     (if userId ctx = None then deny NotAuthenticated ''Sign in to edit this agent.''
      else if role ctx = Some ReporterRole then reporterDenied
      else if isAdminLike (role ctx) then ALLOW
      else if owned_by (agent_owner_id a) ctx then ALLOW
      else deny NotResourceOwner ''Only the agent owner and workspace admins can edit this agent.'')"

text \<open>The long dash of three messages is outside the code units modelled; it is written as a hyphen.\<close>

definition canAssignAgentToIssue :: "agent \<Rightarrow> permission_context \<Rightarrow> decision" where
  "canAssignAgentToIssue a ctx =
     (if userId ctx = None then deny NotAuthenticated ''Sign in to assign agents.''
      else if role ctx = Some ReporterRole then reporterDenied
      else if owned_by (agent_owner_id a) ctx then ALLOW
      else if permission_mode a = PrivateMode then
        deny PrivateVisibility ''Personal agent - only the owner can assign work.''
      else
        (let targets = (case invocation_targets a of None \<Rightarrow> [] | Some ts \<Rightarrow> ts) in
         if list_ex (\<lambda>t. target_type t = WorkspaceTarget) targets then
           (if role ctx = None then deny NotMemberReason ''Join this workspace to assign agents.''
            else ALLOW)
         else if list_ex (\<lambda>t. target_type t = MemberTarget \<and> target_id t = userId ctx) targets then ALLOW
         else deny PrivateVisibility
           ''Restricted agent - you don't have access to assign work to it.''))"

definition canEditSkill :: "string option \<Rightarrow> permission_context \<Rightarrow> decision" where
  "canEditSkill created_by ctx =
     (if userId ctx = None then deny NotAuthenticated ''Sign in to edit this skill.''
      else if role ctx = Some ReporterRole then reporterDenied
      else if isAdminLike (role ctx) then ALLOW
      else if owned_by created_by ctx then ALLOW
      else deny NotResourceOwner ''Only the creator and workspace admins can edit this skill.'')"

definition canDeleteSkill :: "string option \<Rightarrow> permission_context \<Rightarrow> decision" where
  "canDeleteSkill created_by ctx = canEditSkill created_by ctx"

definition canEditComment :: "comment \<Rightarrow> permission_context \<Rightarrow> decision" where
  "canEditComment c ctx =
     (if userId ctx = None then deny NotAuthenticated ''Sign in to edit comments.''
      else if role ctx = Some ReporterRole then reporterDenied
      else if author_type c \<noteq> MemberAuthor then
        deny NotResourceOwner ''Agent-authored comments cannot be edited.''
      else if Some (author_id c) = userId ctx then ALLOW
      else if isAdminLike (role ctx) then ALLOW
      else deny NotResourceOwner ''Only the author and workspace admins can edit this comment.'')"

definition canDeleteComment :: "comment \<Rightarrow> permission_context \<Rightarrow> decision" where
  "canDeleteComment c ctx =
     (if userId ctx = None then deny NotAuthenticated ''Sign in to delete comments.''
      else if role ctx = Some ReporterRole then reporterDenied
      else if author_type c = MemberAuthor \<and> Some (author_id c) = userId ctx then ALLOW
      else if isAdminLike (role ctx) then ALLOW
      else deny NotResourceOwner ''Only the author and workspace admins can delete this comment.'')"

definition canDeleteRuntime :: "string option \<Rightarrow> permission_context \<Rightarrow> decision" where
  "canDeleteRuntime owner_id ctx =
     (if userId ctx = None then deny NotAuthenticated ''Sign in to delete runtimes.''
      else if role ctx = Some ReporterRole then reporterDenied
      else if isAdminLike (role ctx) then ALLOW
      else if owned_by owner_id ctx then ALLOW
      else deny NotResourceOwner
        ''Only the runtime owner and workspace admins can delete this runtime.'')"

definition canUpdateWorkspaceSettings :: "permission_context \<Rightarrow> decision" where
  "canUpdateWorkspaceSettings ctx =
     (if isAdminLike (role ctx) then ALLOW
      else deny NotAdminRole ''Only workspace owners and admins can update workspace settings.'')"

definition canDeleteWorkspace :: "permission_context \<Rightarrow> decision" where
  "canDeleteWorkspace ctx =
     (if role ctx = Some OwnerRole then ALLOW
      else deny NotOwnerRole ''Only the workspace owner can delete this workspace.'')"

definition canManageMembers :: "permission_context \<Rightarrow> decision" where
  "canManageMembers ctx =
     (if isAdminLike (role ctx) then ALLOW
      else deny NotAdminRole ''Only workspace owners and admins can manage members.'')"

definition canChangeMemberRole :: "member_role \<Rightarrow> int \<Rightarrow> permission_context \<Rightarrow> decision" where
  "canChangeMemberRole target_role ownerCount ctx =
     (let manage = canManageMembers ctx in
      if \<not> allowed manage then manage
      else if target_role = OwnerRole \<and> role ctx \<noteq> Some OwnerRole then
        deny NotOwnerRole ''Only the workspace owner can change another owner's role.''
      else if target_role = OwnerRole \<and> ownerCount \<le> 1 then
        deny LastOwner
          ''Promote another member to owner first - a workspace must keep at least one owner.''
      else ALLOW)"

section \<open>Role changes\<close>

text \<open>A role change as the member page makes it: the actor may change the target's role only when
  the rule allows it, and the count it passes is the number of owners in the member list.\<close>

record member =
  member_user :: string
  member_role :: member_role

definition owners :: "member list \<Rightarrow> nat" where
  "owners ms = length (filter (\<lambda>m. member_role m = OwnerRole) ms)"

definition role_in :: "member list \<Rightarrow> string \<Rightarrow> member_role option" where
  "role_in ms u = map_option member_role (find (\<lambda>m. member_user m = u) ms)"

definition set_role :: "member list \<Rightarrow> string \<Rightarrow> member_role \<Rightarrow> member list" where
  "set_role ms u r = map (\<lambda>m. if member_user m = u then m\<lparr>member_role := r\<rparr> else m) ms"

definition change_role :: "member list \<Rightarrow> string \<Rightarrow> string \<Rightarrow> member_role \<Rightarrow> member list" where
  "change_role ms actor target r =
     (case role_in ms target of
        None \<Rightarrow> ms
      | Some cur \<Rightarrow>
          if allowed (canChangeMemberRole cur (int (owners ms)) \<lparr>userId = Some actor, role = role_in ms actor\<rparr>)
          then set_role ms target r else ms)"

inductive role_changes :: "member list \<Rightarrow> member list \<Rightarrow> bool" where
  no_change: "role_changes ms ms"
| one_change: "role_changes ms ms' \<Longrightarrow> role_changes ms (change_role ms' actor target r)"

lemmas rule_defs = canEditAgent_def canAssignAgentToIssue_def canEditSkill_def canDeleteSkill_def
  canEditComment_def canDeleteComment_def canDeleteRuntime_def canUpdateWorkspaceSettings_def
  canDeleteWorkspace_def canManageMembers_def canChangeMemberRole_def

lemma ALLOW_allowed [simp]: "allowed ALLOW" "\<not> allowed (deny r m)" "\<not> allowed reporterDenied"
  by (simp_all add: ALLOW_def deny_def reporterDenied_def)

lemma decisions_distinct [simp]:
  "ALLOW \<noteq> deny r m" "deny r m \<noteq> ALLOW" "reporterDenied \<noteq> ALLOW" "ALLOW \<noteq> reporterDenied"
  by (simp_all add: ALLOW_def deny_def reporterDenied_def)

lemma filter_update_one:
  assumes "distinct (map member_user ms)" "m \<in> set ms"
  shows "owners (set_role ms (member_user m) r) + (if member_role m = OwnerRole then 1 else 0) =
    owners ms + (if r = OwnerRole then 1 else 0)"
  using assms
proof (induction ms)
  case (Cons x xs)
  show ?case
  proof (cases "x = m")
    case True
    have "member_user m \<notin> member_user ` set xs" using Cons.prems True by simp
    then have "set_role xs (member_user m) r = xs"
      unfolding set_role_def by (intro map_idI) (metis image_eqI)
    then show ?thesis using True by (simp add: owners_def set_role_def)
  next
    case False
    then have "m \<in> set xs" "member_user x \<noteq> member_user m" using Cons.prems by (auto simp: image_iff)
    then show ?thesis using Cons by (simp add: owners_def set_role_def)
  qed
qed simp

lemma set_role_users [simp]: "map member_user (set_role ms u r) = map member_user ms"
  by (simp add: set_role_def)

lemma change_role_users [simp]: "map member_user (change_role ms a u r) = map member_user ms"
  by (simp add: change_role_def split: option.splits)

lemma change_role_keeps_owner:
  assumes "distinct (map member_user ms)" "1 \<le> owners ms"
  shows "1 \<le> owners (change_role ms actor target r)"
proof (cases "find (\<lambda>m. member_user m = target) ms")
  case None
  then show ?thesis using assms by (simp add: change_role_def role_in_def)
next
  case (Some m)
  then have m: "m \<in> set ms" "member_user m = target" using find_Some_in by fastforce+
  note f = filter_update_one [OF assms(1) m(1), of r]
  show ?thesis
  proof (cases "change_role ms actor target r = ms")
    case True
    then show ?thesis using assms(2) by simp
  next
    case False
    then have ch: "change_role ms actor target r = set_role ms target r"
      and al: "allowed (canChangeMemberRole (member_role m) (int (owners ms))
        \<lparr>userId = Some actor, role = role_in ms actor\<rparr>)"
      using Some by (auto simp: change_role_def role_in_def split: if_splits)
    have "member_role m = OwnerRole \<Longrightarrow> 2 \<le> owners ms"
      using al by (simp add: canChangeMemberRole_def Let_def split: if_splits)
    then show ?thesis using f assms(2) m(2) ch by (simp split: if_splits)
  qed
qed

section \<open>The properties\<close>

text \<open>A reporter is refused every action on a resource and on the workspace, and a signed-out user every action on a resource.\<close>

theorem outsiders_denied:
  "(role ctx = Some ReporterRole \<or> userId ctx = None \<longrightarrow>
      \<not> allowed (canEditAgent a ctx) \<and> \<not> allowed (canAssignAgentToIssue a ctx) \<and>
      \<not> allowed (canEditSkill s ctx) \<and> \<not> allowed (canDeleteSkill s ctx) \<and>
      \<not> allowed (canEditComment c ctx) \<and> \<not> allowed (canDeleteComment c ctx) \<and>
      \<not> allowed (canDeleteRuntime s ctx)) \<and>
   (role ctx = Some ReporterRole \<longrightarrow>
      \<not> allowed (canUpdateWorkspaceSettings ctx) \<and> \<not> allowed (canDeleteWorkspace ctx) \<and>
      \<not> allowed (canManageMembers ctx) \<and> \<not> allowed (canChangeMemberRole target n ctx))"
  by (auto simp: rule_defs isAdminLike_def Let_def)

lemma outsiders_denied_witness:
  "\<not> allowed (canAssignAgentToIssue
      \<lparr>agent_owner_id = Some ''r'', permission_mode = PublicTo, invocation_targets = None\<rparr>
      \<lparr>userId = Some ''r'', role = Some ReporterRole\<rparr>)"
  using outsiders_denied [of "\<lparr>userId = Some ''r'', role = Some ReporterRole\<rparr>"
      "\<lparr>agent_owner_id = Some ''r'', permission_mode = PublicTo, invocation_targets = None\<rparr>"] by simp

text \<open>Who may invoke an agent: its owner always; nobody else when it is private, admins and workspace owners included; when it is public, any member through a workspace grant, or exactly the users named by member grants; a team grant opens nothing.\<close>

theorem canAssignAgentToIssue_iff:
  "allowed (canAssignAgentToIssue a ctx) \<longleftrightarrow>
     (\<exists>u. userId ctx = Some u \<and> role ctx \<noteq> Some ReporterRole \<and>
        (agent_owner_id a = Some u \<or>
         permission_mode a = PublicTo \<and>
           (let ts = (case invocation_targets a of None \<Rightarrow> [] | Some ts \<Rightarrow> ts) in
            if list_ex (\<lambda>t. target_type t = WorkspaceTarget) ts then role ctx \<noteq> None
            else list_ex (\<lambda>t. target_type t = MemberTarget \<and> target_id t = Some u) ts)))"
proof (cases "userId ctx")
  case (Some u)
  then show ?thesis
    by (cases "permission_mode a") (auto simp: canAssignAgentToIssue_def owned_by_def Let_def)
qed (simp add: canAssignAgentToIssue_def)

text \<open>A workspace never loses its last owner: whatever sequence of role changes the members attempt, if each user is listed once and there was an owner, there still is one.\<close>

theorem last_owner_stays:
  assumes "role_changes ms ms'" and "distinct (map member_user ms)" and "1 \<le> owners ms"
  shows "1 \<le> owners ms'"
proof -
  from assms have "1 \<le> owners ms' \<and> map member_user ms' = map member_user ms"
  proof (induction rule: role_changes.induct)
    case (one_change ms ms' actor target r)
    then have "1 \<le> owners ms'" "map member_user ms' = map member_user ms" by auto
    then show ?case using change_role_keeps_owner [of ms' actor target r] one_change.prems by simp
  qed simp
  then show ?thesis by simp
qed

lemma last_owner_stays_witness:
  "1 \<le> owners (change_role [\<lparr>member_user = ''a'', member_role = OwnerRole\<rparr>,
      \<lparr>member_user = ''b'', member_role = AdminRole\<rparr>] ''a'' ''a'' MemberRole)"
proof -
  let ?ms = "[\<lparr>member_user = ''a'', member_role = OwnerRole\<rparr>, \<lparr>member_user = ''b'', member_role = AdminRole\<rparr>]"
  have "role_changes ?ms (change_role ?ms ''a'' ''a'' MemberRole)" by (intro one_change no_change)
  then show ?thesis by (rule last_owner_stays) (simp_all add: owners_def)
qed

end
