(* ===== verification/JS_Json.thy ===== *)
theory JS_Json
  imports JS_Number
begin

text \<open>
  Values whose type the code does not know (\<open>unknown\<close>: parsed JSON, telemetry properties), and
  the text a web storage keeps. A number is an integer or non-finite.

  A stored text is either the text that \<open>JSON.stringify\<close> prints for an array or an object, kept
  as the value itself (\<open>Doc v\<close>, which \<open>JSON.parse\<close> reads as \<open>json_value v\<close>), or any other text
  (\<open>Text s\<close>), on which \<open>JSON.parse\<close> throws or yields a value that is not an object: the code
  that parses treats both alike.
\<close>

section \<open>Values\<close>

datatype js =
    JUndef
  | JNull
  | JBool bool
  | JNum int
  | JNonFinite
  | JStr string
  | JArr "js list"
  | JObj "(string \<times> js) list"

text \<open>\<open>typeof v === "object"\<close>, which \<open>null\<close> and arrays satisfy too, and \<open>Array.isArray\<close>.\<close>

fun is_object :: "js \<Rightarrow> bool" where
  "is_object JNull = True"
| "is_object (JArr _) = True"
| "is_object (JObj _) = True"
| "is_object _ = False"

fun is_string :: "js \<Rightarrow> bool" where
  "is_string (JStr _) = True"
| "is_string _ = False"

fun is_array :: "js \<Rightarrow> bool" where
  "is_array (JArr _) = True"
| "is_array _ = False"

text \<open>
  \<open>v.k\<close> of an object or an array, for a key that is no member of an array; a missing key is
  \<open>undefined\<close>.
\<close>

fun get_prop :: "js \<Rightarrow> string \<Rightarrow> js" where
  "get_prop (JObj ob) k = (case obj_get ob k of Some v \<Rightarrow> v | None \<Rightarrow> JUndef)"
| "get_prop _ k = JUndef"

text \<open>\<open>v?.k\<close> of an optional value.\<close>

definition opt_prop :: "js option \<Rightarrow> string \<Rightarrow> js" where
  "opt_prop x k = (case x of Some v \<Rightarrow> get_prop v k | None \<Rightarrow> JUndef)"

text \<open>The texts of two primitives, and \<open>a ?? b\<close>.\<close>

definition or_else :: "'a option \<Rightarrow> 'a option \<Rightarrow> 'a option" where
  "or_else a b = (case a of None \<Rightarrow> b | Some x \<Rightarrow> Some x)"

definition default_to :: "'a \<Rightarrow> 'a option \<Rightarrow> 'a" where
  "default_to d x = (case x of None \<Rightarrow> d | Some v \<Rightarrow> v)"

text \<open>Truthiness, where a number that is not finite stands for an infinity, and \<open>a || b\<close>.\<close>

definition js_truthy :: "js \<Rightarrow> bool" where
  "js_truthy v \<longleftrightarrow> v \<notin> {JUndef, JNull, JBool False, JNum 0, JStr []}"

definition js_or :: "js \<Rightarrow> js \<Rightarrow> js" where
  "js_or a b = (if js_truthy a then a else b)"

text \<open>The own members of an object or an array, in enumeration order for an array.\<close>

fun members :: "js \<Rightarrow> js obj" where
  "members (JObj ob) = ob"
| "members (JArr vs) = zip (map string_of_nat [0..<length vs]) vs"
| "members _ = []"

text \<open>\<open>{...a, ...b}\<close>\<close>

definition obj_spread :: "'v obj \<Rightarrow> 'v obj \<Rightarrow> 'v obj" where
  "obj_spread a b = foldl (\<lambda>acc (k, v). obj_set acc k v) a b"

lemma or_else_simps [simp]: "or_else None b = b" "or_else (Some x) b = Some x"
  by (simp_all add: or_else_def)

lemma default_to_simps [simp]: "default_to d None = d" "default_to d (Some v) = v"
  by (simp_all add: default_to_def)

lemma obj_get_spread_other:
  "k \<notin> fst ` set b \<Longrightarrow> obj_get (obj_spread a b) k = obj_get a k"
  unfolding obj_spread_def
proof (induction b arbitrary: a)
  case (Cons p b)
  then show ?case by (cases p) (simp add: obj_simps)
qed simp

lemma keys_spread: "fst ` set (obj_spread a b) = fst ` set a \<union> fst ` set b"
  unfolding obj_spread_def
proof (induction b arbitrary: a)
  case (Cons p b)
  then show ?case by (cases p) (auto simp: dom_update [symmetric] dom_map_of_conv_image_fst [symmetric] update_conv')
qed simp

lemma obj_get_spread:
  "obj_wf b \<Longrightarrow>
     obj_get (obj_spread a b) k = (case obj_get b k of None \<Rightarrow> obj_get a k | Some v \<Rightarrow> Some v)"
  unfolding obj_spread_def
proof (induction b arbitrary: a)
  case (Cons p b)
  obtain j v where p: "p = (j, v)" by (cases p)
  then have wf: "obj_wf b" "obj_get b j = None"
    using Cons.prems by (auto simp: obj_wf_def map_of_eq_None_iff)
  show ?case using Cons.IH [OF wf(1)] p wf(2) by (auto simp: obj_simps split: option.splits)
qed simp

lemma obj_wf_spread: "obj_wf a \<Longrightarrow> obj_wf (obj_spread a b)"
  unfolding obj_spread_def by (induction b arbitrary: a) auto

lemma is_object_cases:
  "is_object v \<Longrightarrow> v \<noteq> JNull \<Longrightarrow> \<not> is_array v \<Longrightarrow> \<exists>ob. v = JObj ob"
  by (cases v) auto

section \<open>Stored texts\<close>

datatype item = Doc js | Text string

text \<open>
  What survives the text of a value: a member that is \<open>undefined\<close> disappears from an object
  and becomes \<open>null\<close> in an array, and so does a number that is not finite.
\<close>

definition null_for :: "js \<Rightarrow> js" where
  "null_for v = (if v = JUndef then JNull else v)"

fun json_value :: "js \<Rightarrow> js" where
  "json_value (JArr vs) = JArr (map (\<lambda>v. null_for (json_value v)) vs)"
| "json_value (JObj ob) =
     JObj (map (\<lambda>(k, v). (k, json_value v)) (filter (\<lambda>(k, v). obj_get ob k \<noteq> Some JUndef) ob))"
| "json_value JNonFinite = JNull"
| "json_value v = v"

fun JSON_parse :: "item \<Rightarrow> js option" where
  "JSON_parse (Doc v) = Some (json_value v)"
| "JSON_parse (Text _) = None"

definition JSON_stringify :: "js \<Rightarrow> item" where
  "JSON_stringify v = Doc v"

text \<open>An item is falsy when it is the empty string.\<close>

fun item_truthy :: "item \<Rightarrow> bool" where
  "item_truthy (Text s) \<longleftrightarrow> s \<noteq> []"
| "item_truthy (Doc _) \<longleftrightarrow> True"

lemma parse_stringify [simp]: "JSON_parse (JSON_stringify v) = Some (json_value v)"
  by (simp add: JSON_stringify_def)

lemma json_value_undef [simp]: "json_value v = JUndef \<longleftrightarrow> v = JUndef"
  by (cases v) auto

lemma null_for_json [simp]: "v \<noteq> JUndef \<Longrightarrow> null_for (json_value v) = json_value v"
  by (simp add: null_for_def)

lemma json_value_null_for [simp]: "json_value (null_for v) = null_for (json_value v)"
  by (simp add: null_for_def)

lemma null_for_idem [simp]: "null_for (null_for v) = null_for v"
  by (simp add: null_for_def)

lemma json_value_eq_string [simp]: "json_value v = JStr s \<longleftrightarrow> v = JStr s"
  by (cases v) auto

lemma json_value_eq_num [simp]: "json_value v = JNum i \<longleftrightarrow> v = JNum i"
  by (cases v) auto

lemma is_string_json [simp]: "is_string (json_value v) = is_string v"
  by (cases v) auto

lemma is_object_json: "is_object v \<Longrightarrow> is_object (json_value v)"
  by (cases v) auto

lemma json_members:
  "map_of (map (\<lambda>(k, v). (k, f v)) (filter (\<lambda>(k, v). P k) ob)) k =
     (if P k then map_option f (map_of ob k) else None)"
  by (induction ob) auto

lemma json_value_obj_get:
  "obj_get (map (\<lambda>(k, v). (k, json_value v)) (filter (\<lambda>(k, v). obj_get ob k \<noteq> Some JUndef) ob)) k =
     (if obj_get ob k = Some JUndef then None else map_option json_value (obj_get ob k))"
  by (simp add: json_members)

lemma get_prop_json [simp]: "get_prop (json_value v) k = json_value (get_prop v k)"
proof (cases v)
  case (JObj ob)
  show ?thesis
    by (simp only: JObj json_value.simps get_prop.simps json_value_obj_get) (simp split: option.splits)
qed simp_all

lemma json_value_idem [simp]: "json_value (json_value v) = json_value v"
proof (induction v)
  case (JObj ob)
  let ?ms = "map (\<lambda>(k, v). (k, json_value v)) (filter (\<lambda>(k, v). obj_get ob k \<noteq> Some JUndef) ob)"
  have keep: "filter (\<lambda>(k, v). obj_get ?ms k \<noteq> Some JUndef) ?ms = ?ms"
    by (simp only: json_value_obj_get filter_id_conv) (auto split: if_splits)
  have same: "map (\<lambda>(k, v). (k, json_value v)) ?ms = ?ms"
    using JObj.IH by (auto simp: snds.simps)
  show ?case by (simp only: json_value.simps keep same)
qed auto

lemma stringify_truthy [simp]: "item_truthy (JSON_stringify v)"
  by (simp add: JSON_stringify_def)

section \<open>The text of a value\<close>

text \<open>
  The text that \<open>JSON.stringify\<close> prints, where the code shows it to a user. A member that is
  \<open>undefined\<close> is left out of an object and printed as \<open>null\<close> in an array.
\<close>

definition hex_digit :: "nat \<Rightarrow> char" where
  "hex_digit d = ''0123456789abcdef'' ! d"

definition json_char :: "char \<Rightarrow> string" where
  "json_char c =
     (let n = of_char c :: nat; b = char_of (92 :: nat) in
      if n = 34 \<or> n = 92 then [b, c]
      else if n = 8 then b # ''b''
      else if n = 9 then b # ''t''
      else if n = 10 then b # ''n''
      else if n = 12 then b # ''f''
      else if n = 13 then b # ''r''
      else if n < 32 then b # ''u00'' @ [hex_digit (n div 16), hex_digit (n mod 16)]
      else [c])"

definition json_string :: "string \<Rightarrow> string" where
  "json_string s = (let q = char_of (34 :: nat) in q # concat (map json_char s) @ [q])"

fun json_text :: "js \<Rightarrow> string" where
  "json_text (JBool b) = (if b then ''true'' else ''false'')"
| "json_text (JNum i) = string_of_int i"
| "json_text (JStr s) = json_string s"
| "json_text (JArr vs) = ''['' @ join '','' (map json_text vs) @ '']''"
| "json_text (JObj ob) =
     CHR 0x7B # join '',''
       (map (\<lambda>(k, t). json_string k @ '':'' @ t)
         (obj_entries (map (\<lambda>(k, v). (k, json_text v)) (filter (\<lambda>(k, v). v \<noteq> JUndef) ob)))) @
     [CHR 0x7D]"
| "json_text _ = ''null''"

end
