(* ===== verification/Exception_Dedupe.thy ===== *)
theory Exception_Dedupe
  imports JS_Json "HOL-Library.Word"
begin

text \<open>
  \<open>packages/core/analytics/exception-dedupe.ts\<close>: the fuse that keeps the first three
  \<open>$exception\<close> events of a fingerprint in a tab session and drops the rest. The blob of the
  session storage is an optional item; whether the storage exists, and whether its \<open>getItem\<close>
  or \<open>setItem\<close> throws, is given for every call.
\<close>

unbundle bit_operations_syntax

definition EXCEPTION_SAMPLE_LIMIT :: int where
  "EXCEPTION_SAMPLE_LIMIT = 3"

definition MAX_FINGERPRINTS :: nat where
  "MAX_FINGERPRINTS = 50"

section \<open>The fingerprint\<close>

fun readString :: "js \<Rightarrow> string option" where
  "readString (JStr s) = (if s = [] then None else Some s)"
| "readString _ = None"

fun readNumberAsString :: "js \<Rightarrow> string option" where
  "readNumberAsString (JNum i) = Some (string_of_int i)"
| "readNumberAsString _ = None"

text \<open>
  \<open>((h << 5) + h) ^ c\<close> wraps to 32 bits at the \<open>^\<close>; \<open>>>> 0\<close> reads the word as unsigned.
\<close>

definition hash_step :: "32 word \<Rightarrow> char \<Rightarrow> 32 word" where
  "hash_step h c = (push_bit 5 h + h) XOR of_nat (of_char c)"

definition base36_digit :: "int \<Rightarrow> char" where
  "base36_digit d = ''0123456789abcdefghijklmnopqrstuvwxyz'' ! nat d"

function base36 :: "int \<Rightarrow> string" where
  "base36 n = (if n < 36 then [base36_digit n] else base36 (n div 36) @ [base36_digit (n mod 36)])"
  by pat_completeness auto
termination
  by (relation "measure nat") auto

declare base36.simps [simp del]

definition hash :: "string \<Rightarrow> string" where
  "hash input = base36 (uint (foldl hash_step 5381 input))"

record top_frame =
  filename :: string
  fn :: string
  lineno :: string
  colno :: string

definition topFrame :: "js option \<Rightarrow> top_frame option" where
  "topFrame entry =
     (case entry of None \<Rightarrow> None
      | Some e \<Rightarrow>
          (let st = get_prop e ''stacktrace'';
               frames = (if is_object st then get_prop st ''frames'' else JUndef)
           in case frames of
                JArr fs \<Rightarrow>
                  if fs = [] then None
                  else (let f = last fs in
                        if f = JNull \<or> \<not> is_object f then None
                        else Some
                          \<lparr>filename = default_to [] (readString (get_prop f ''filename'')),
                           fn = default_to [] (readString (get_prop f ''function'')),
                           lineno = default_to [] (readNumberAsString (get_prop f ''lineno'')),
                           colno = default_to [] (readNumberAsString (get_prop f ''colno''))\<rparr>)
              | _ \<Rightarrow> None))"

text \<open>The first entry of \<open>$exception_list\<close>, when it is an object.\<close>

definition first_entry :: "js \<Rightarrow> js option" where
  "first_entry xs =
     (case xs of JArr (e # _) \<Rightarrow> (if is_object e \<and> e \<noteq> JNull then Some e else None) | _ \<Rightarrow> None)"

definition SEP :: char where
  "SEP = char_of (1 :: nat)"

definition buildFingerprint :: "js \<Rightarrow> string option" where
  "buildFingerprint properties =
     (if properties = JUndef \<or> properties = JNull \<or> \<not> is_object properties then None
      else
        (let entry = first_entry (get_prop properties ''$exception_list'');
             type = default_to [] (or_else (readString (opt_prop entry ''type''))
                      (readString (get_prop properties ''$exception_type'')));
             value = default_to [] (or_else (readString (opt_prop entry ''value''))
                      (readString (get_prop properties ''$exception_message'')));
             frame = topFrame entry
         in if type = [] \<and> value = [] \<and> frame = None then None
            else
              (let parts = [type, value] @
                     (case frame of None \<Rightarrow> []
                      | Some f \<Rightarrow> [filename f, fn f, lineno f, colno f])
               in Some (hash (join [SEP] parts)))))"

section \<open>The fuse\<close>

text \<open>What the environment does during one call.\<close>

record session_env =
  available :: bool
  get_throws :: bool
  set_throws :: bool

definition readCounts :: "item option \<Rightarrow> js obj" where
  "readCounts raw =
     (case raw of None \<Rightarrow> []
      | Some r \<Rightarrow>
          if \<not> item_truthy r then []
          else (case JSON_parse r of Some (JObj ob) \<Rightarrow> ob | _ \<Rightarrow> []))"

definition current_count :: "js obj \<Rightarrow> string \<Rightarrow> int" where
  "current_count counts fingerprint =
     (case obj_get counts fingerprint of Some (JNum n) \<Rightarrow> n | _ \<Rightarrow> 0)"

text \<open>The result is the verdict (\<open>True\<close> drops the event) and the blob afterwards.\<close>

definition shouldDropException :: "session_env \<Rightarrow> js \<Rightarrow> item option \<Rightarrow> bool \<times> item option" where
  "shouldDropException env properties blob =
     (case buildFingerprint properties of
        None \<Rightarrow> (False, blob)
      | Some fingerprint \<Rightarrow>
          if \<not> available env then (False, blob)
          else if get_throws env then (False, blob)
          else
            (let counts = readCounts blob;
                 current = current_count counts fingerprint
             in if EXCEPTION_SAMPLE_LIMIT \<le> current then (True, blob)
                else if current = 0 \<and> MAX_FINGERPRINTS \<le> length (obj_keys counts)
                then (False, blob)
                else if set_throws env then (False, blob)
                else (False,
                  Some (JSON_stringify (JObj (obj_set counts fingerprint (JNum (current + 1))))))))"

text \<open>The verdicts of the events of a session, in order, and the blob at its end.\<close>

fun session :: "(session_env \<times> js) list \<Rightarrow> item option \<Rightarrow> bool list \<times> item option" where
  "session [] blob = ([], blob)"
| "session ((env, p) # evs) blob =
     (let (d, blob') = shouldDropException env p blob;
          (ds, blob'') = session evs blob'
      in (d # ds, blob''))"

end
