(* ===== verification/Dedupe_Properties.thy ===== *)
theory Dedupe_Properties
  imports Exception_Dedupe
begin

text \<open>
  The properties of the exception fuse: it drops only after three events of the fingerprint
  were kept, whatever the storage does; its blob stays bounded; and with a working storage it
  drops exactly from the fourth event of a fingerprint on.
\<close>

section \<open>The blob\<close>

text \<open>Counts written by the fuse itself: at most fifty keys, each counted once to three times.\<close>

definition counts_ok :: "js obj \<Rightarrow> bool" where
  "counts_ok ob \<longleftrightarrow> obj_wf ob \<and> length ob \<le> MAX_FINGERPRINTS \<and>
     list_all (\<lambda>(k, v). v \<in> {JNum 1, JNum 2, JNum 3}) ob"

definition blob_ok :: "item option \<Rightarrow> bool" where
  "blob_ok blob \<longleftrightarrow>
     (case blob of None \<Rightarrow> True | Some (Doc (JObj ob)) \<Rightarrow> counts_ok ob | _ \<Rightarrow> False)"

definition nums :: "js obj \<Rightarrow> bool" where
  "nums ob \<longleftrightarrow> list_all (\<lambda>(k, v). \<exists>i. v = JNum i) ob"

lemma nums_json:
  assumes "nums ob"
  shows "json_value (JObj ob) = JObj ob"
proof -
  have num: "\<exists>i. v = JNum i" if "(k, v) \<in> set ob" for k v
    using assms that by (auto simp: nums_def list_all_iff)
  have "obj_get ob k \<noteq> Some JUndef" for k using num map_of_SomeD by fastforce
  then have "filter (\<lambda>(k, v). obj_get ob k \<noteq> Some JUndef) ob = ob" by (simp add: filter_id_conv)
  moreover have "map (\<lambda>(k, v). (k, json_value v)) ob = ob" by (rule map_idI) (use num in force)
  ultimately show ?thesis by (simp only: json_value.simps)
qed

lemma readCounts_Doc: "nums ob \<Longrightarrow> readCounts (Some (Doc (JObj ob))) = ob"
  by (simp only: readCounts_def option.case item_truthy.simps JSON_parse.simps nums_json js.case simp_thms if_False)

lemma current_count_Doc: "current_count (readCounts (Some (Doc (JObj ob)))) f = current_count ob f"
proof -
  have "obj_get (readCounts (Some (Doc (JObj ob)))) f =
      (if obj_get ob f = Some JUndef then None else map_option json_value (obj_get ob f))"
    by (simp only: readCounts_def option.case item_truthy.simps JSON_parse.simps json_value.simps
        js.case simp_thms if_False json_value_obj_get)
  then show ?thesis by (auto simp: current_count_def split: option.splits js.splits)
qed

lemma nums_set: "nums ob \<Longrightarrow> nums (obj_set ob f (JNum n))"
  using obj_set_subset [where ob = ob and k = f and v = "JNum n"] by (fastforce simp: nums_def list_all_iff)

lemma blob_ok_cases:
  assumes "blob_ok blob"
  shows "counts_ok (readCounts blob)"
proof (cases blob)
  case None
  then show ?thesis by (simp add: readCounts_def counts_ok_def)
next
  case (Some i)
  then obtain ob where ob: "i = Doc (JObj ob)" "counts_ok ob"
    using assms by (auto simp: blob_ok_def split: item.splits js.splits)
  then have "nums ob" by (auto simp: nums_def counts_ok_def list_all_iff)
  then show ?thesis using Some ob readCounts_Doc by simp
qed

lemma length_obj_keys [simp]: "length (obj_keys ob) = length ob"
proof -
  have "size (mset (obj_entries ob)) = size (mset ob)" by (simp only: mset_obj_entries)
  then show ?thesis by (simp add: obj_keys_def)
qed

lemma length_obj_set:
  "length (obj_set ob k v) = (if obj_get ob k = None then Suc (length ob) else length ob)"
  by (induction ob) auto

lemma current_count_values:
  assumes "counts_ok ob"
  shows "current_count ob f = 0 \<and> obj_get ob f = None \<or>
    current_count ob f \<in> {1, 2, 3} \<and> obj_get ob f = Some (JNum (current_count ob f))"
proof (cases "obj_get ob f")
  case (Some v)
  then have "(f, v) \<in> set ob" by (rule map_of_SomeD)
  then have "v \<in> {JNum 1, JNum 2, JNum 3}" using assms by (auto simp: counts_ok_def list_all_iff)
  then show ?thesis using Some by (auto simp: current_count_def)
qed (simp add: current_count_def)

lemma counts_ok_set:
  assumes "counts_ok ob" and "current_count ob f < 3"
    and room: "current_count ob f = 0 \<Longrightarrow> length ob < MAX_FINGERPRINTS"
  shows "counts_ok (obj_set ob f (JNum (current_count ob f + 1)))"
proof -
  have v: "JNum (current_count ob f + 1) \<in> {JNum 1, JNum 2, JNum 3}"
    using current_count_values [OF assms(1), of f] assms(2) by auto
  have "length (obj_set ob f (JNum (current_count ob f + 1))) \<le> MAX_FINGERPRINTS"
    using current_count_values [OF assms(1), of f] room assms(1)
    by (auto simp: length_obj_set counts_ok_def)
  moreover have "\<forall>p \<in> set (obj_set ob f (JNum (current_count ob f + 1))).
      snd p \<in> {JNum 1, JNum 2, JNum 3}"
  proof
    fix p assume "p \<in> set (obj_set ob f (JNum (current_count ob f + 1)))"
    then have "p = (f, JNum (current_count ob f + 1)) \<or> p \<in> set ob"
      using obj_set_subset by (metis insertE subsetD)
    then show "snd p \<in> {JNum 1, JNum 2, JNum 3}"
      using v assms(1) by (auto simp: counts_ok_def list_all_iff)
  qed
  ultimately show ?thesis using assms(1) by (auto simp: counts_ok_def list_all_iff)
qed

lemma current_count_set:
  "current_count (obj_set ob f (JNum n)) g = (if g = f then n else current_count ob g)"
  by (simp add: current_count_def obj_simps)

text \<open>What one call does, case by case.\<close>

lemma shouldDrop_cases:
  obtains (keep) "shouldDropException env p blob = (False, blob)"
  | (drop) f where "buildFingerprint p = Some f" "3 \<le> current_count (readCounts blob) f"
      "shouldDropException env p blob = (True, blob)"
  | (count) f where "buildFingerprint p = Some f" "current_count (readCounts blob) f < 3"
      "current_count (readCounts blob) f = 0 \<Longrightarrow> length (readCounts blob) < MAX_FINGERPRINTS"
      "shouldDropException env p blob = (False, Some (Doc (JObj (obj_set (readCounts blob) f
         (JNum (current_count (readCounts blob) f + 1))))))"
proof (cases "buildFingerprint p")
  case None
  then show ?thesis by (intro keep) (simp add: shouldDropException_def)
next
  case (Some f)
  let ?c = "current_count (readCounts blob) f"
  consider (off) "\<not> available env \<or> get_throws env"
    | (at) "available env" "\<not> get_throws env" "3 \<le> ?c"
    | (full) "available env" "\<not> get_throws env" "\<not> 3 \<le> ?c" "?c = 0"
        "MAX_FINGERPRINTS \<le> length (readCounts blob)"
    | (lost) "available env" "\<not> get_throws env" "\<not> 3 \<le> ?c"
        "\<not> (?c = 0 \<and> MAX_FINGERPRINTS \<le> length (readCounts blob))" "set_throws env"
    | (written) "available env" "\<not> get_throws env" "\<not> 3 \<le> ?c"
        "\<not> (?c = 0 \<and> MAX_FINGERPRINTS \<le> length (readCounts blob))" "\<not> set_throws env"
    by blast
  then show ?thesis
  proof cases
    case off
    then show ?thesis using Some by (intro keep) (auto simp: shouldDropException_def)
  next
    case at
    then show ?thesis using Some
      by (intro drop) (auto simp: shouldDropException_def EXCEPTION_SAMPLE_LIMIT_def)
  next
    case full
    then show ?thesis using Some
      by (intro keep) (auto simp: shouldDropException_def EXCEPTION_SAMPLE_LIMIT_def)
  next
    case lost
    then show ?thesis using Some
      by (intro keep) (auto simp: shouldDropException_def EXCEPTION_SAMPLE_LIMIT_def)
  next
    case written
    then show ?thesis using Some
      by (intro count)
        (auto simp: shouldDropException_def EXCEPTION_SAMPLE_LIMIT_def JSON_stringify_def Let_def)
  qed
qed

lemma blob_ok_step:
  assumes "blob_ok blob"
  shows "blob_ok (snd (shouldDropException env p blob))"
  using shouldDrop_cases [of env p blob]
proof cases
  case (count f)
  then show ?thesis using counts_ok_set [OF blob_ok_cases [OF assms]] by (simp add: blob_ok_def)
qed (use assms in auto)

lemma blob_ok_session: "blob_ok blob \<Longrightarrow> blob_ok (snd (session evs blob))"
proof (induction evs arbitrary: blob)
  case (Cons ev evs)
  obtain env p where ev: "ev = (env, p)" by (cases ev)
  obtain d b where s: "shouldDropException env p blob = (d, b)" by fastforce
  have "blob_ok b" using blob_ok_step [OF Cons.prems, of env p] s by simp
  then show ?case using Cons.IH [of b] ev s by (simp add: split_beta)
qed simp

section \<open>Never drops too much\<close>

definition kept :: "string \<Rightarrow> ((session_env \<times> js) \<times> bool) list \<Rightarrow> nat" where
  "kept f h = length (filter (\<lambda>((env, p), d). buildFingerprint p = Some f \<and> \<not> d) h)"

lemma kept_Cons:
  "kept f (((env, p), d) # h) = (if buildFingerprint p = Some f \<and> \<not> d then Suc (kept f h) else kept f h)"
  by (simp add: kept_def)

lemma length_session [simp]: "length (fst (session evs blob)) = length evs"
  by (induction evs arbitrary: blob) (auto simp: split_beta)

lemma drops_late:
  assumes "\<And>f. current_count (readCounts blob) f \<le> int (K f)"
    and "fst (session evs blob) ! i" and "i < length evs"
  shows "\<exists>f. buildFingerprint (snd (evs ! i)) = Some f \<and>
    3 \<le> K f + kept f (take i (zip evs (fst (session evs blob))))"
  using assms
proof (induction evs arbitrary: blob K i)
  case (Cons ev evs)
  obtain env p where ev: "ev = (env, p)" by (cases ev)
  obtain d b where s: "shouldDropException env p blob = (d, b)" by fastforce
  have ses: "fst (session (ev # evs) blob) = d # fst (session evs b)"
    using ev s by (simp add: split_beta)
  show ?case
  proof (cases i)
    case 0
    have "d" using Cons.prems(2) ses 0 by simp
    show ?thesis using shouldDrop_cases [of env p blob]
    proof cases
      case (drop f)
      then have "3 \<le> int (K f)" using Cons.prems(1) [of f] by linarith
      then show ?thesis using drop 0 ev by auto
    qed (use s \<open>d\<close> in auto)
  next
    case (Suc j)
    define K' where "K' f = (if buildFingerprint p = Some f \<and> \<not> d then Suc (K f) else K f)" for f
    have "current_count (readCounts b) f \<le> int (K' f)" for f
      using shouldDrop_cases [of env p blob]
    proof cases
      case keep
      then show ?thesis using s Cons.prems(1) [of f] by (simp add: K'_def)
    next
      case (drop g)
      then show ?thesis using s Cons.prems(1) [of f] by (simp add: K'_def)
    next
      case (count g)
      then show ?thesis using s Cons.prems(1) [of f] by (auto simp: K'_def current_count_set current_count_Doc)
    qed
    moreover have "fst (session evs b) ! j" using Cons.prems(2) ses Suc by simp
    moreover have "j < length evs" using Cons.prems(3) Suc by simp
    ultimately obtain f where f: "buildFingerprint (snd (evs ! j)) = Some f"
      "3 \<le> K' f + kept f (take j (zip evs (fst (session evs b))))"
      using Cons.IH [of b K' j] by blast
    have "3 \<le> K f + kept f (take i (zip (ev # evs) (fst (session (ev # evs) blob))))"
      using f(2) Suc ses ev by (simp add: kept_Cons K'_def split: if_splits)
    then show ?thesis using f(1) Suc by auto
  qed
qed simp

section \<open>Exactly the fourth\<close>

text \<open>The reference: the fingerprints seen so far, newest first, decide.\<close>

fun reference :: "string list \<Rightarrow> js list \<Rightarrow> bool list" where
  "reference seen [] = []"
| "reference seen (p # ps) =
     (case buildFingerprint p of
        None \<Rightarrow> False # reference seen ps
      | Some f \<Rightarrow> (3 \<le> count_list seen f) # reference (f # seen) ps)"

abbreviation working :: session_env where
  "working \<equiv> \<lparr>available = True, get_throws = False, set_throws = False\<rparr>"

definition fingerprints :: "js list \<Rightarrow> string set" where
  "fingerprints ps = {f. Some f \<in> buildFingerprint ` set ps}"

lemma fingerprints_simps:
  "fingerprints [] = {}"
  "fingerprints (p # ps) = set_option (buildFingerprint p) \<union> fingerprints ps"
  by (auto simp: fingerprints_def)

lemma finite_fingerprints: "finite (fingerprints ps)"
  by (induction ps) (auto simp: fingerprints_simps)

definition tracks :: "string list \<Rightarrow> js obj \<Rightarrow> bool" where
  "tracks seen ob \<longleftrightarrow> obj_wf ob \<and> nums ob \<and> fst ` set ob = set seen \<and>
     (\<forall>f. current_count ob f = int (min 3 (count_list seen f)))"

lemma tracks_length: "tracks seen ob \<Longrightarrow> length ob = card (set seen)"
  unfolding tracks_def obj_wf_def by (metis distinct_card length_map set_map)

lemma count_list_0: "count_list xs f = 0 \<longleftrightarrow> f \<notin> set xs"
  by (induction xs) auto

lemma tracks_step:
  assumes t: "tracks seen ob" and "count_list seen f < 3"
  shows "tracks (f # seen) (obj_set ob f (JNum (current_count ob f + 1)))"
  using assms unfolding tracks_def
  by (auto simp: current_count_set set_obj_set image_iff nums_set)

lemma tracks_more: "tracks seen ob \<Longrightarrow> 3 \<le> count_list seen f \<Longrightarrow> tracks (f # seen) ob"
  unfolding tracks_def using count_list_0 [of seen f] by (auto simp: insert_absorb)

lemma shouldDrop_working:
  assumes t: "tracks seen (readCounts blob)" and f: "buildFingerprint p = Some f"
    and room: "card (insert f (set seen)) \<le> 50"
  shows "fst (shouldDropException working p blob) \<longleftrightarrow> 3 \<le> count_list seen f"
    and "tracks (f # seen) (readCounts (snd (shouldDropException working p blob)))"
proof -
  let ?ob = "readCounts blob"
  have c: "current_count ?ob f = int (min 3 (count_list seen f))" using t by (simp add: tracks_def)
  have free: "length ?ob < 50" if "current_count ?ob f = 0"
  proof -
    have "f \<notin> set seen" using that c count_list_0 [of seen f] by (simp add: min_def split: if_splits)
    then show ?thesis using room tracks_length [OF t] by simp
  qed
  show "fst (shouldDropException working p blob) \<longleftrightarrow> 3 \<le> count_list seen f"
    using c f by (simp add: shouldDropException_def EXCEPTION_SAMPLE_LIMIT_def Let_def)
  show "tracks (f # seen) (readCounts (snd (shouldDropException working p blob)))"
  proof (cases "3 \<le> count_list seen f")
    case True
    then show ?thesis using c f tracks_more [OF t True]
      by (simp add: shouldDropException_def EXCEPTION_SAMPLE_LIMIT_def)
  next
    case False
    then have "\<not> (current_count ?ob f = 0 \<and> MAX_FINGERPRINTS \<le> length ?ob)"
      using free by (auto simp: MAX_FINGERPRINTS_def)
    moreover have "\<not> EXCEPTION_SAMPLE_LIMIT \<le> current_count ?ob f"
      using False c by (simp add: EXCEPTION_SAMPLE_LIMIT_def)
    ultimately have "snd (shouldDropException working p blob) =
        Some (Doc (JObj (obj_set ?ob f (JNum (current_count ?ob f + 1)))))"
      using f by (auto simp: shouldDropException_def JSON_stringify_def Let_def)
    then show ?thesis using tracks_step [OF t] False t by (simp add: readCounts_Doc nums_set tracks_def)
  qed
qed

lemma session_reference:
  assumes "tracks seen (readCounts blob)" and "card (set seen \<union> fingerprints ps) \<le> 50"
  shows "fst (session (map (Pair working) ps) blob) = reference seen ps"
  using assms
proof (induction ps arbitrary: seen blob)
  case (Cons p ps)
  obtain d b where s: "shouldDropException working p blob = (d, b)" by fastforce
  have ses: "fst (session (map (Pair working) (p # ps)) blob) =
      d # fst (session (map (Pair working) ps) b)"
    by (simp only: list.map session.simps s Let_def split_beta fst_conv snd_conv)
  show ?case
  proof (cases "buildFingerprint p")
    case None
    then have db: "d = False" "b = blob" using s by (simp_all add: shouldDropException_def)
    have "card (set seen \<union> fingerprints ps) \<le> 50"
      using Cons.prems(2) None by (simp add: fingerprints_simps)
    from Cons.IH [OF Cons.prems(1) this] show ?thesis using None db ses by simp
  next
    case (Some f)
    have "card (insert f (set seen)) \<le> card (set seen \<union> fingerprints (p # ps))"
      by (rule card_mono) (use Some in \<open>auto simp: fingerprints_simps finite_fingerprints\<close>)
    then have "card (insert f (set seen)) \<le> 50" using Cons.prems(2) by linarith
    note now = shouldDrop_working [OF Cons.prems(1) Some this]
    have d: "d \<longleftrightarrow> 3 \<le> count_list seen f" using now(1) s by simp
    have b: "tracks (f # seen) (readCounts b)" using now(2) s by simp
    have "card (set (f # seen) \<union> fingerprints ps) \<le> 50"
      using Cons.prems(2) Some by (simp add: fingerprints_simps)
    from Cons.IH [OF b this] show ?thesis using Some d ses by simp
  qed
qed simp

section \<open>Properties\<close>

text \<open>Whatever the storage does in a session, an event is dropped only after at least three events of its fingerprint were kept, and the blob never holds more than fifty counts, each from one to three.\<close>

theorem shouldDropException_fails_open:
  assumes "i < length evs" and "fst (session evs None) ! i"
  shows "(\<exists>f. buildFingerprint (snd (evs ! i)) = Some f \<and>
      3 \<le> kept f (take i (zip evs (fst (session evs None))))) \<and>
    blob_ok (snd (session evs None))"
proof -
  have "current_count (readCounts None) f \<le> int 0" for f
    by (simp add: readCounts_def current_count_def)
  from drops_late [of None "\<lambda>_. 0", OF this assms(2,1)]
  show ?thesis using blob_ok_session [of None evs] by (simp add: blob_ok_def)
qed

definition demo_error :: "string \<Rightarrow> js" where
  "demo_error m = JObj [(''$exception_type'', JStr ''E''), (''$exception_message'', JStr m)]"

definition demo_events :: "(session_env \<times> js) list" where
  "demo_events = (working\<lparr>set_throws := True\<rparr>, demo_error ''a'') #
     map (Pair working) [demo_error ''a'', demo_error ''b'', demo_error ''a'', demo_error ''a'',
       demo_error ''a'']"

lemma demo_dropped: "fst (session demo_events None) = [False, False, False, False, False, True]"
  by code_simp

lemma shouldDropException_fails_open_witness:
  "3 \<le> kept (hash (''E'' @ [SEP] @ ''a'')) (take 5 (zip demo_events (fst (session demo_events None))))"
proof -
  have "buildFingerprint (snd (demo_events ! 5)) = Some (hash (''E'' @ [SEP] @ ''a''))"
    by code_simp
  then show ?thesis
    using shouldDropException_fails_open [of 5 demo_events]
    by (simp add: demo_dropped) (simp add: demo_events_def)
qed

text \<open>With a working storage and at most fifty different fingerprints in a session the fuse is exact: an event is dropped if and only if three events of its fingerprint came before it, and events of other fingerprints or without one never count.\<close>

theorem shouldDropException_exact:
  assumes "card (fingerprints ps) \<le> 50"
  shows "fst (session (map (Pair working) ps) None) = reference [] ps"
proof -
  have "tracks [] (readCounts None)" by (simp add: tracks_def readCounts_def current_count_def nums_def)
  then show ?thesis using session_reference [of "[]" None ps] assms by simp
qed

lemma shouldDropException_exact_witness:
  "fst (session (map (Pair working) (replicate 4 (demo_error ''a''))) None) =
     [False, False, False, True]"
proof -
  have "fingerprints (replicate 4 (demo_error ''a'')) = set_option (buildFingerprint (demo_error ''a''))"
    by (simp add: numeral_eq_Suc fingerprints_simps)
  moreover have "card (set_option (buildFingerprint (demo_error ''a''))) \<le> 1"
    by (cases "buildFingerprint (demo_error ''a'')") simp_all
  moreover have "reference [] (replicate 4 (demo_error ''a'')) = [False, False, False, True]"
    by code_simp
  ultimately show ?thesis
    using shouldDropException_exact [of "replicate 4 (demo_error ''a'')"] by simp
qed

end
