(* ===== verification/Hang_Stack.thy ===== *)
theory Hang_Stack
  imports JS_Json
begin

text \<open>
  The stack of a hung renderer: \<open>apps/desktop/src/shared/hang-stack.ts\<close> rebuilds its frames from
  untrusted input, and \<open>apps/desktop/src/main/renderer-stack-capture.ts\<close> reads it over the
  DevTools protocol. A call to the debugger is an entry of a trace; which calls fail, and what
  arrives while the capture waits, are arguments.
\<close>

section \<open>Frames\<close>

record hang_frame =
  functionName :: string
  url :: string
  lineNumber :: int
  columnNumber :: int

definition HANG_STACK_MAX_FRAMES :: nat where
  "HANG_STACK_MAX_FRAMES = 20"

definition url_segments :: "string \<Rightarrow> string list" where
  "url_segments s = filter (\<lambda>w. w \<noteq> [])
     (split_on (CHR ''/'') (takeWhile (\<lambda>c. c \<noteq> CHR ''?'' \<and> c \<noteq> CHR ''#'') s))"

definition redactFrameUrl :: "js \<Rightarrow> string" where
  "redactFrameUrl u =
     (case u of
        JStr s \<Rightarrow>
          (let segments = url_segments s
           in if segments = [] then [] else join ''/'' (slice_from segments (- 2)))
      | _ \<Rightarrow> [])"

fun toNumber :: "js \<Rightarrow> int" where
  "toNumber (JNum i) = i"
| "toNumber _ = 0"

definition frame_name :: "js \<Rightarrow> string" where
  "frame_name v = (case v of JStr s \<Rightarrow> (if s = [] then ''(anonymous)'' else s) | _ \<Rightarrow> ''(anonymous)'')"

definition frame_location :: "js \<Rightarrow> js" where
  "frame_location frame =
     (let l = get_prop frame ''location'' in if l = JUndef \<or> l = JNull then frame else l)"

definition sanitizeFrame :: "js \<Rightarrow> hang_frame" where
  "sanitizeFrame frame =
     \<lparr>functionName = frame_name (get_prop frame ''functionName''),
      url = redactFrameUrl (get_prop frame ''url''),
      lineNumber = toNumber (get_prop (frame_location frame) ''lineNumber''),
      columnNumber = toNumber (get_prop (frame_location frame) ''columnNumber'')\<rparr>"

definition sanitizeHangStackFrames :: "js \<Rightarrow> nat \<Rightarrow> hang_frame list option" where
  "sanitizeHangStackFrames rawFrames maxFrames =
     (case rawFrames of
        JArr raw \<Rightarrow>
          if raw = [] then None
          else (let frames = map sanitizeFrame
                      (filter (\<lambda>f. f \<noteq> JNull \<and> is_object f) (take maxFrames raw))
                in if frames = [] then None else Some frames)
      | _ \<Rightarrow> None)"

text \<open>The frame as the object that travels through the breadcrumb and into telemetry.\<close>

definition frame_js :: "hang_frame \<Rightarrow> js" where
  "frame_js f = JObj
     [(''functionName'', JStr (functionName f)), (''url'', JStr (url f)),
      (''lineNumber'', JNum (lineNumber f)), (''columnNumber'', JNum (columnNumber f))]"

definition stack_js :: "hang_frame list \<Rightarrow> js" where
  "stack_js frames = JArr (map frame_js frames)"

section \<open>The debugger channel\<close>

datatype cdp_call =
    Attach
  | Detach
  | SendCommand string
  | Listen
  | Unlisten

definition ALLOWED_CDP_METHODS :: "string list" where
  "ALLOWED_CDP_METHODS = [''Debugger.enable'', ''Debugger.disable'', ''Debugger.pause'', ''Debugger.resume'']"

text \<open>
  A command is refused or sent; \<open>fails\<close> says which of the sent commands reject. The result is
  whether the promise resolves, with the calls made.
\<close>

definition sendDebuggerCommand :: "(string \<Rightarrow> bool) \<Rightarrow> string \<Rightarrow> bool \<times> cdp_call list" where
  "sendDebuggerCommand fails method =
     (if method \<notin> set ALLOWED_CDP_METHODS then (False, [])
      else (\<not> fails method, [SendCommand method]))"

definition detachQuietly :: "cdp_call list" where
  "detachQuietly = [Detach]"

definition warmDebuggerChannel :: "bool \<Rightarrow> bool \<Rightarrow> (string \<Rightarrow> bool) \<Rightarrow> bool \<times> cdp_call list" where
  "warmDebuggerChannel attached attach_fails fails =
     (let pre = (if attached then [] else [Attach]) in
      if \<not> attached \<and> attach_fails then (False, pre)
      else (let (ok, calls) = sendDebuggerCommand fails ''Debugger.enable'' in
            if ok then (True, pre @ calls)
            else (False, pre @ calls @ (if attached then [] else detachQuietly))))"

definition coolDebuggerChannel :: "bool \<Rightarrow> (string \<Rightarrow> bool) \<Rightarrow> cdp_call list" where
  "coolDebuggerChannel attached fails =
     (if \<not> attached then []
      else snd (sendDebuggerCommand fails ''Debugger.disable'') @ detachQuietly)"

text \<open>
  What the listener receives before the timeout resolves the promise with \<open>null\<close>: the
  messages of the protocol in order, each a method and its \<open>callFrames\<close>. The first pause
  decides, later ones are ignored.
\<close>

fun first_pause :: "nat \<Rightarrow> (string \<times> js) list \<Rightarrow> hang_frame list option" where
  "first_pause maxFrames [] = None"
| "first_pause maxFrames ((method, callFrames) # ms) =
     (if method \<noteq> ''Debugger.paused'' then first_pause maxFrames ms
      else sanitizeHangStackFrames callFrames maxFrames)"

definition captureHangStack ::
  "bool \<Rightarrow> bool \<Rightarrow> (string \<Rightarrow> bool) \<Rightarrow> nat \<Rightarrow> (string \<times> js) list \<Rightarrow> hang_frame list option \<times> cdp_call list" where
  "captureHangStack attached listen_fails fails maxFrames messages =
     (if \<not> attached then (None, [])
      else
        (let (ok, calls) = sendDebuggerCommand fails ''Debugger.pause'';
             closing = Unlisten # snd (sendDebuggerCommand fails ''Debugger.resume'')
         in (if ok \<and> \<not> listen_fails then first_pause maxFrames messages else None,
             Listen # calls @ closing)))"

section \<open>Sanitizing again changes nothing\<close>

text \<open>A reduced url: at most two non-empty segments without a query.\<close>

definition reduced_url :: "string \<Rightarrow> bool" where
  "reduced_url s \<longleftrightarrow> (\<exists>ws. length ws \<le> 2 \<and> s = join ''/'' ws \<and>
     list_all (\<lambda>w. w \<noteq> [] \<and> set w \<inter> set ''/?#'' = {}) ws)"

lemma url_segments_clean:
  assumes "w \<in> set (url_segments s)"
  shows "w \<noteq> [] \<and> set w \<inter> set ''/?#'' = {}"
proof -
  let ?w = "takeWhile (\<lambda>c. c \<noteq> CHR ''?'' \<and> c \<noteq> CHR ''#'') s"
  have w: "w \<in> set (split_on (CHR ''/'') ?w)" "w \<noteq> []"
    using assms by (simp_all add: url_segments_def)
  have "CHR ''/'' \<notin> set w" by (rule split_on_no_sep [OF w(1)])
  moreover have "x \<noteq> CHR ''?'' \<and> x \<noteq> CHR ''#''" if "x \<in> set w" for x
    using split_on_chars [OF w(1)] that set_takeWhileD [of x _ s] by blast
  ultimately show ?thesis using w(2) by auto
qed

lemma reduced_url_Nil: "reduced_url []"
  unfolding reduced_url_def by (rule exI [of _ "[]"]) simp

lemma redactFrameUrl_reduced: "reduced_url (redactFrameUrl u)"
proof (cases u)
  case (JStr s)
  let ?ws = "slice_from (url_segments s) (- 2)"
  have "set ?ws \<subseteq> set (url_segments s)" by (simp add: slice_from_def set_drop_subset)
  then have "list_all (\<lambda>w. w \<noteq> [] \<and> set w \<inter> set ''/?#'' = {}) ?ws"
    unfolding list_all_iff using url_segments_clean by blast
  moreover have "length ?ws \<le> 2" by (simp add: slice_from_def slice_bound_def)
  moreover have "redactFrameUrl u = join ''/'' ?ws"
    using JStr by (simp add: redactFrameUrl_def Let_def slice_from_def)
  ultimately show ?thesis unfolding reduced_url_def by blast
qed (simp_all add: redactFrameUrl_def reduced_url_Nil)

lemma redactFrameUrl_id:
  assumes "reduced_url s"
  shows "redactFrameUrl (JStr s) = s"
proof -
  obtain ws where ws: "length ws \<le> 2" "s = join ''/'' ws"
    and "list_all (\<lambda>w. w \<noteq> [] \<and> set w \<inter> set ''/?#'' = {}) ws"
    using assms by (auto simp: reduced_url_def)
  then have clean: "w \<noteq> []" "CHR ''/'' \<notin> set w" "CHR ''?'' \<notin> set w" "CHR ''#'' \<notin> set w"
    if "w \<in> set ws" for w using that by (simp_all add: list_all_iff)
  show ?thesis
  proof (cases "ws = []")
    case True
    then show ?thesis using ws by (simp add: redactFrameUrl_def url_segments_def)
  next
    case False
    have "c \<noteq> CHR ''?'' \<and> c \<noteq> CHR ''#''" if "c \<in> set s" for c
      using set_join [of c "''/''" ws] that ws(2) clean(3,4) by (cases "c = CHR ''/''") auto
    then have "takeWhile (\<lambda>c. c \<noteq> CHR ''?'' \<and> c \<noteq> CHR ''#'') s = s"
      unfolding takeWhile_eq_all_conv by blast
    moreover have "split_on (CHR ''/'') s = ws"
      unfolding ws(2) using clean(2) False by (intro split_on_join) simp_all
    moreover have "filter (\<lambda>w. w \<noteq> []) ws = ws" using clean(1) by (simp add: filter_id_conv)
    ultimately have "url_segments s = ws" by (simp only: url_segments_def)
    moreover have "slice_from ws (- 2) = ws" using ws(1) by (simp add: slice_from_def slice_bound_def)
    ultimately show ?thesis using False ws(2) by (simp add: redactFrameUrl_def)
  qed
qed

definition clean_frame :: "hang_frame \<Rightarrow> bool" where
  "clean_frame f \<longleftrightarrow> functionName f \<noteq> [] \<and> reduced_url (url f)"

lemma sanitizeFrame_clean: "clean_frame (sanitizeFrame raw)"
  by (auto simp: clean_frame_def sanitizeFrame_def redactFrameUrl_reduced frame_name_def split: js.splits)

lemma sanitizeFrame_id:
  assumes "clean_frame f"
  shows "sanitizeFrame (frame_js f) = f"
  using assms by (simp add: clean_frame_def sanitizeFrame_def frame_js_def redactFrameUrl_id
      frame_name_def frame_location_def)

lemma sanitize_frames_clean:
  assumes "sanitizeHangStackFrames raw n = Some fs"
  shows "fs \<noteq> [] \<and> length fs \<le> n \<and> list_all clean_frame fs"
proof -
  obtain vs where raw: "raw = JArr vs" and fs: "fs = map sanitizeFrame
      (filter (\<lambda>f. f \<noteq> JNull \<and> is_object f) (take n vs))" "fs \<noteq> []"
    using assms by (auto simp: sanitizeHangStackFrames_def Let_def split: js.splits if_splits)
  have "length fs \<le> length (take n vs)" unfolding fs(1) by (simp only: length_map length_filter_le)
  then show ?thesis using fs by (auto simp: list_all_iff sanitizeFrame_clean)
qed

lemma sanitize_clean:
  assumes "fs \<noteq> []" and "length fs \<le> n" and "list_all clean_frame fs"
  shows "sanitizeHangStackFrames (stack_js fs) n = Some fs"
proof -
  have "filter (\<lambda>f. f \<noteq> JNull \<and> is_object f) (map frame_js fs) = map frame_js fs"
    by (simp add: filter_id_conv frame_js_def)
  moreover have "map (sanitizeFrame \<circ> frame_js) fs = fs"
    using assms(3) by (intro map_idI) (simp add: list_all_iff sanitizeFrame_id)
  ultimately show ?thesis using assms(1,2)
    by (simp add: sanitizeHangStackFrames_def stack_js_def)
qed

end
