(* ===== verification/Freeze_Breadcrumb.thy ===== *)
theory Freeze_Breadcrumb
  imports Hang_Stack
begin

text \<open>
  The breadcrumb of a freeze or a crash: the file operations of
  \<open>apps/desktop/src/main/freeze-breadcrumb.ts\<close> and the report of the next renderer boot,
  \<open>apps/desktop/src/renderer/src/freeze-flush.ts\<close>. The file is an optional item; whether a
  write or a removal fails is an argument.
\<close>

section \<open>The file\<close>

definition FREEZE_BREADCRUMB_TTL_MS :: int where
  "FREEZE_BREADCRUMB_TTL_MS = 7 * 24 * 60 * 60 * 1000"

record payload =
  kind :: string
  context_of :: "js obj"

definition freeze_breadcrumb :: "string \<Rightarrow> int \<Rightarrow> string \<Rightarrow> payload \<Rightarrow> js" where
  "freeze_breadcrumb owner ts version p = JObj
     [(''ownerId'', JStr owner), (''kind'', JStr (kind p)), (''context'', JObj (context_of p)),
      (''ts'', JNum ts), (''version'', JStr version)]"

definition writeFreezeBreadcrumb :: "bool \<Rightarrow> js \<Rightarrow> item option \<Rightarrow> item option" where
  "writeFreezeBreadcrumb fails breadcrumb file =
     (if fails then file else Some (JSON_stringify breadcrumb))"

definition remove_file :: "bool \<Rightarrow> item option \<Rightarrow> item option" where
  "remove_file fails file = (if fails then file else None)"

text \<open>The parsed content of the file, when it is an object; a missing file throws.\<close>

definition parsed_object :: "item option \<Rightarrow> js option" where
  "parsed_object file =
     (case file of None \<Rightarrow> None
      | Some raw \<Rightarrow>
          (case JSON_parse raw of
             Some v \<Rightarrow> (if is_object v \<and> v \<noteq> JNull then Some v else None)
           | None \<Rightarrow> None))"

definition clearFreezeBreadcrumb :: "bool \<Rightarrow> string option \<Rightarrow> item option \<Rightarrow> item option" where
  "clearFreezeBreadcrumb fails ownerId file =
     (case ownerId of
        None \<Rightarrow> remove_file fails file
      | Some own \<Rightarrow>
          (case parsed_object file of
             None \<Rightarrow> file
           | Some v \<Rightarrow> if get_prop v ''ownerId'' \<noteq> JStr own then file else remove_file fails file))"

definition isExpired :: "js \<Rightarrow> int \<Rightarrow> bool" where
  "isExpired breadcrumb now =
     (case get_prop breadcrumb ''ts'' of
        JNum ts \<Rightarrow> FREEZE_BREADCRUMB_TTL_MS < now - ts
      | _ \<Rightarrow> True)"

definition readFreezeBreadcrumb :: "bool \<Rightarrow> int \<Rightarrow> item option \<Rightarrow> js option \<times> item option" where
  "readFreezeBreadcrumb fails now file =
     (if file = None then (None, file)
      else (case parsed_object file of
              None \<Rightarrow> (None, remove_file fails file)
            | Some b \<Rightarrow>
                if \<not> is_string (get_prop b ''kind'') then (None, remove_file fails file)
                else if isExpired b now then (None, remove_file fails file)
                else (Some b, file)))"

definition ackFreezeBreadcrumb :: "bool \<Rightarrow> js \<Rightarrow> item option \<Rightarrow> item option" where
  "ackFreezeBreadcrumb fails ts file =
     (case parsed_object file of
        None \<Rightarrow> file
      | Some v \<Rightarrow> if get_prop v ''ts'' \<noteq> ts then file else remove_file fails file)"

section \<open>The report\<close>

definition when_string :: "string \<Rightarrow> js \<Rightarrow> js obj" where
  "when_string key v = (case v of JStr s \<Rightarrow> [(key, JStr s)] | _ \<Rightarrow> [])"

definition routeProps :: "js \<Rightarrow> js obj" where
  "routeProps v =
     (if v = JUndef \<or> v = JNull \<or> \<not> is_object v then []
      else obj_spread (when_string ''path'' (get_prop v ''path''))
                      (when_string ''surface'' (get_prop v ''surface'')))"

definition stackProps :: "js \<Rightarrow> js obj" where
  "stackProps v =
     (case sanitizeHangStackFrames v HANG_STACK_MAX_FRAMES of
        None \<Rightarrow> []
      | Some frames \<Rightarrow>
          (let top = hd frames in
           [(''stack'', stack_js frames), (''stack_depth'', JNum (int (length frames))),
            (''stack_function'', JStr (functionName top))] @
           (if url top = [] then [] else [(''stack_url'', JStr (url top))]) @
           [(''stack_line'', JNum (lineNumber top))]))"

definition crashProps :: "js \<Rightarrow> js obj" where
  "crashProps v =
     (if v = JUndef \<or> v = JNull \<or> \<not> is_object v then []
      else when_string ''crash_reason'' (get_prop v ''reason'') @
        (case get_prop v ''exitCode'' of
           JNum i \<Rightarrow> [(''crash_exit_code'', JNum i)]
         | JNonFinite \<Rightarrow> [(''crash_exit_code'', JNonFinite)]
         | _ \<Rightarrow> []))"

definition is_crash :: "js \<Rightarrow> bool" where
  "is_crash breadcrumb \<longleftrightarrow> get_prop breadcrumb ''kind'' = JStr ''render-process-gone''"

definition buildFreezeEventProps :: "js \<Rightarrow> js obj" where
  "buildFreezeEventProps breadcrumb =
     (let context = get_prop breadcrumb ''context'' in
      foldl obj_spread
        [(''source'', JStr (if is_crash breadcrumb then ''render-process-gone'' else ''main-unresponsive'')),
         (''recovered'', JBool False),
         (''breadcrumb_ts'', get_prop breadcrumb ''ts''),
         (''crashed_version'', get_prop breadcrumb ''version'')]
        [routeProps (get_prop context ''desktopRoute''),
         stackProps (get_prop context ''stack''),
         crashProps (get_prop context ''details'')])"

text \<open>
  A renderer with the file it shares with the main process: \<open>handed\<close> is the timestamp of a
  report that waits for its \<open>onCaptured\<close>, \<open>ack_timer\<close> the one whose grace window runs.
\<close>

record freeze_sys =
  crumb_file :: "item option"
  captured :: "(string \<times> js obj) list"
  handed :: "js option"
  ack_timer :: "js option"

datatype freeze_event =
    Write js
  | Clear string
  | Boot int
  | Captured
  | Grace
  | Cleanup

definition flushFreezeBreadcrumb :: "bool \<Rightarrow> int \<Rightarrow> freeze_sys \<Rightarrow> freeze_sys" where
  "flushFreezeBreadcrumb fails now s =
     (let (r, f) = readFreezeBreadcrumb fails now (crumb_file s);
          s' = s\<lparr>crumb_file := f, handed := None, ack_timer := None\<rparr>
      in case r of
           None \<Rightarrow> s'
         | Some b \<Rightarrow> s'\<lparr>captured := captured s @
               [(if is_crash b then ''client_crash'' else ''client_unresponsive'',
                 buildFreezeEventProps b)],
               handed := Some (get_prop b ''ts'')\<rparr>)"

text \<open>One step, with whether the file operation in it fails.\<close>

fun freeze_step :: "freeze_sys \<Rightarrow> bool \<times> freeze_event \<Rightarrow> freeze_sys" where
  "freeze_step s (fails, Write b) = s\<lparr>crumb_file := writeFreezeBreadcrumb fails b (crumb_file s)\<rparr>"
| "freeze_step s (fails, Clear own) = s\<lparr>crumb_file := clearFreezeBreadcrumb fails (Some own) (crumb_file s)\<rparr>"
| "freeze_step s (fails, Boot now) = flushFreezeBreadcrumb fails now s"
| "freeze_step s (fails, Captured) =
     (case handed s of None \<Rightarrow> s | Some ts \<Rightarrow> s\<lparr>handed := None, ack_timer := Some ts\<rparr>)"
| "freeze_step s (fails, Grace) =
     (case ack_timer s of None \<Rightarrow> s
      | Some ts \<Rightarrow> s\<lparr>ack_timer := None, crumb_file := ackFreezeBreadcrumb fails ts (crumb_file s)\<rparr>)"
| "freeze_step s (fails, Cleanup) = s\<lparr>ack_timer := None\<rparr>"

definition freeze_run :: "freeze_sys \<Rightarrow> (bool \<times> freeze_event) list \<Rightarrow> freeze_sys" where
  "freeze_run s evs = foldl freeze_step s evs"

definition freeze_start :: "item option \<Rightarrow> freeze_sys" where
  "freeze_start f = \<lparr>crumb_file = f, captured = [], handed = None, ack_timer = None\<rparr>"

end
