(* ===== verification/Renderer_Recovery.thy ===== *)
theory Renderer_Recovery
  imports Freeze_Breadcrumb
begin

text \<open>
  \<open>apps/desktop/src/main/renderer-recovery.ts\<close>: the handlers that watch one window. A handler
  returns the next state and the effects it has, in order; \<open>recovery_step\<close> composes them with
  the breadcrumb file the way \<open>apps/desktop/src/main/index.ts\<close> wires them. Between the report
  of a hang and its breadcrumb the main process waits for the stack: that wait is the state
  component \<open>reading\<close>, the number of reports whose stack has not come back yet.
\<close>

section \<open>Options, state and effects\<close>

record recovery_options =
  isDev :: bool
  captureStack :: bool
  persistBreadcrumb :: bool
  clearBreadcrumb :: bool

record recovery_state =
  unresponsivePromptTimer :: bool
  unresponsiveBreadcrumbWritten :: bool
  reading :: nat

datatype effect =
    Log string item
  | Persist payload
  | ClearBreadcrumb
  | Prompt payload
  | Reload

definition recovery_start :: recovery_state where
  "recovery_start = \<lparr>unresponsivePromptTimer = False, unresponsiveBreadcrumbWritten = False, reading = 0\<rparr>"

section \<open>Helpers\<close>

text \<open>A thrown value: an \<open>Error\<close> with its optional stack, or anything else as \<open>String(e)\<close>.\<close>

datatype thrown = Error_obj "string option" string | Other_thrown string

fun formatError :: "thrown \<Rightarrow> string" where
  "formatError (Error_obj stack message) = default_to message stack"
| "formatError (Other_thrown s) = s"

definition isRecoverableRendererExit :: "js \<Rightarrow> bool" where
  "isRecoverableRendererExit details =
     (if details = JUndef \<or> details = JNull \<or> \<not> is_object details then False
      else get_prop details ''reason'' \<in> JStr ` set
        [''crashed'', ''oom'', ''abnormal-exit'', ''launch-failed'', ''integrity-failure''])"

text \<open>
  \<open>getDiagnosticContext\<close>: absent, throwing or returning an object, at each moment it is called.
\<close>

type_synonym diagnostics = "js obj option option"

definition readDiagnosticContext :: "diagnostics \<Rightarrow> js obj" where
  "readDiagnosticContext diag =
     (case diag of None \<Rightarrow> [] | Some None \<Rightarrow> [] | Some (Some ob) \<Rightarrow> ob)"

definition mergeDiagnosticContext :: "diagnostics \<Rightarrow> js obj \<Rightarrow> js obj" where
  "mergeDiagnosticContext diag context = obj_spread (readDiagnosticContext diag) context"

definition maybePromptReload :: "recovery_options \<Rightarrow> payload \<Rightarrow> effect list" where
  "maybePromptReload opts p = (if isDev opts then [] else [Prompt p])"

definition persist :: "recovery_options \<Rightarrow> payload \<Rightarrow> effect list" where
  "persist opts p = (if persistBreadcrumb opts then [Persist p] else [])"

text \<open>The stack that comes back: \<open>null\<close> or \<open>undefined\<close>, a value, or a rejection.\<close>

datatype stack_result = Stack js | Rejected thrown

definition readStack :: "stack_result \<Rightarrow> js \<times> effect list" where
  "readStack r =
     (case r of
        Stack v \<Rightarrow> (if v = JUndef then JNull else v, [])
      | Rejected e \<Rightarrow> (JNull, [Log ''stack-capture-failed'' (Text (formatError e))]))"

section \<open>Handlers\<close>

definition on_process_gone ::
  "recovery_options \<Rightarrow> diagnostics \<Rightarrow> js \<Rightarrow> recovery_state \<Rightarrow> recovery_state \<times> effect list" where
  "on_process_gone opts diag details s =
     (let logged = (if isDev opts then [Log ''process-gone'' (JSON_stringify details)] else [])
      in if \<not> isRecoverableRendererExit details then (s, logged)
         else (let p = \<lparr>kind = ''render-process-gone'',
                        context_of = mergeDiagnosticContext diag [(''details'', details)]\<rparr>
               in (s, logged @ persist opts p @ maybePromptReload opts p)))"

definition on_preload_error ::
  "recovery_options \<Rightarrow> diagnostics \<Rightarrow> string \<Rightarrow> thrown \<Rightarrow> recovery_state \<Rightarrow> recovery_state \<times> effect list" where
  "on_preload_error opts diag preloadPath error s =
     (s, (if isDev opts
          then [Log ''preload-error'' (Text (''path='' @ preloadPath @ '' err='' @ formatError error))]
          else []) @
         maybePromptReload opts
           \<lparr>kind = ''preload-error'',
            context_of = mergeDiagnosticContext diag
              [(''preloadPath'', JStr preloadPath), (''error'', JStr (formatError error))]\<rparr>)"

definition on_unresponsive :: "recovery_options \<Rightarrow> recovery_state \<Rightarrow> recovery_state \<times> effect list" where
  "on_unresponsive opts s =
     (if isDev opts \<or> unresponsivePromptTimer s then (s, [])
      else (s\<lparr>unresponsivePromptTimer := True\<rparr>, []))"

text \<open>The part of \<open>reportHang\<close> after the stack was read.\<close>

definition finish_report ::
  "recovery_options \<Rightarrow> diagnostics \<Rightarrow> js \<Rightarrow> recovery_state \<Rightarrow> recovery_state \<times> effect list" where
  "finish_report opts diag stack s =
     (let p = \<lparr>kind = ''unresponsive'',
               context_of = mergeDiagnosticContext diag
                 (if js_truthy stack then [(''stack'', stack)] else [])\<rparr>
      in (s\<lparr>unresponsiveBreadcrumbWritten := True\<rparr>, persist opts p @ maybePromptReload opts p))"

text \<open>The timer's callback: without \<open>captureStack\<close> the report is made at once.\<close>

definition on_timer ::
  "recovery_options \<Rightarrow> diagnostics \<Rightarrow> recovery_state \<Rightarrow> recovery_state \<times> effect list" where
  "on_timer opts diag s =
     (let s' = s\<lparr>unresponsivePromptTimer := False\<rparr>
      in if captureStack opts then (s'\<lparr>reading := Suc (reading s')\<rparr>, [])
         else finish_report opts diag JNull s')"

definition on_stack ::
  "recovery_options \<Rightarrow> diagnostics \<Rightarrow> stack_result \<Rightarrow> recovery_state \<Rightarrow> recovery_state \<times> effect list" where
  "on_stack opts diag r s =
     (let (stack, logged) = readStack r;
          (s', effs) = finish_report opts diag stack (s\<lparr>reading := reading s - 1\<rparr>)
      in (s', logged @ effs))"

definition on_responsive :: "recovery_options \<Rightarrow> recovery_state \<Rightarrow> recovery_state \<times> effect list" where
  "on_responsive opts s =
     (let s1 = s\<lparr>unresponsivePromptTimer := False\<rparr>
      in if unresponsiveBreadcrumbWritten s1
         then (s1\<lparr>unresponsiveBreadcrumbWritten := False\<rparr>,
               if clearBreadcrumb opts then [ClearBreadcrumb] else [])
         else (s1, []))"

text \<open>The answer to a prompt.\<close>

definition on_answer :: "bool \<Rightarrow> bool \<Rightarrow> recovery_state \<Rightarrow> recovery_state \<times> effect list" where
  "on_answer reload destroyed s = (s, if reload \<and> \<not> destroyed then [Reload] else [])"

section \<open>The dialog\<close>

fun rendererRecoveryMessage :: "string \<Rightarrow> string option" where
  "rendererRecoveryMessage k =
     (if k = ''render-process-gone'' then Some ''The desktop window stopped unexpectedly.''
      else if k = ''preload-error'' then Some ''The desktop window could not finish starting.''
      else if k = ''unresponsive'' then Some ''The desktop window has been stuck for a few seconds.''
      else None)"

definition rendererRecoveryDetail :: "payload \<Rightarrow> string" where
  "rendererRecoveryDetail p =
     join [char_of (10 :: nat)]
       ([''Click Reload to refresh this window and keep using Multica.'',
         ''If this keeps happening, please tell us what you were doing right before this message appeared and whether Reload recovered the window.''] @
        (if kind p = ''unresponsive'' then
           [''For macOS reports, an Activity Monitor sample of the Multica Helper (Renderer) process helps us find what blocked the app.'']
         else []) @
        ['''', ''Diagnostic details:'', ''kind: '' @ kind p,
         ''context: '' @ json_text (JObj (context_of p))])"

record message_box =
  buttons :: "string list"
  defaultId :: nat
  cancelId :: nat
  title :: string
  message :: "string option"
  detail :: string

definition reload_message_box :: "payload \<Rightarrow> message_box" where
  "reload_message_box p =
     \<lparr>buttons = [''Reload'', ''Dismiss''], defaultId = 0, cancelId = 1,
      title = ''Multica needs to reload'', message = rendererRecoveryMessage (kind p),
      detail = rendererRecoveryDetail p\<rparr>"

definition reload_answer :: "nat \<Rightarrow> bool" where
  "reload_answer response \<longleftrightarrow> response = 0"

section \<open>The window and its breadcrumb\<close>

text \<open>The owner of the window's breadcrumbs, the version, and the window with its file.\<close>

record window =
  win :: recovery_state
  disk :: "item option"
  trace :: "effect list"

text \<open>
  What an effect does to the file, at the time \<open>now\<close>: \<open>persistBreadcrumb\<close> and
  \<open>clearBreadcrumb\<close> as \<open>createWindow\<close> passes them.
\<close>

fun effect_on_disk :: "string \<Rightarrow> string \<Rightarrow> int \<Rightarrow> bool \<Rightarrow> item option \<Rightarrow> effect \<Rightarrow> item option" where
  "effect_on_disk owner version now fails d (Persist p) =
     writeFreezeBreadcrumb fails (freeze_breadcrumb owner now version p) d"
| "effect_on_disk owner version now fails d ClearBreadcrumb =
     clearFreezeBreadcrumb fails (Some owner) d"
| "effect_on_disk owner version now fails d _ = d"

datatype window_event =
    Process_gone js
  | Preload_error string thrown
  | Unresponsive
  | Timer_fires
  | Stack_read stack_result
  | Responsive
  | Prompt_answered nat bool

fun handle ::
  "recovery_options \<Rightarrow> diagnostics \<Rightarrow> window_event \<Rightarrow> recovery_state \<Rightarrow> recovery_state \<times> effect list" where
  "handle opts diag (Process_gone details) s = on_process_gone opts diag details s"
| "handle opts diag (Preload_error path e) s = on_preload_error opts diag path e s"
| "handle opts diag Unresponsive s = on_unresponsive opts s"
| "handle opts diag Timer_fires s = on_timer opts diag s"
| "handle opts diag (Stack_read r) s = on_stack opts diag r s"
| "handle opts diag Responsive s = on_responsive opts s"
| "handle opts diag (Prompt_answered n destroyed) s = on_answer (reload_answer n) destroyed s"

fun enabled :: "window_event \<Rightarrow> recovery_state \<Rightarrow> bool" where
  "enabled Timer_fires s = unresponsivePromptTimer s"
| "enabled (Stack_read r) s = (0 < reading s)"
| "enabled _ s = True"

text \<open>What the environment gives one step.\<close>

record step_env =
  diag :: diagnostics
  time :: int
  io_fails :: bool

definition apply_step ::
  "recovery_options \<Rightarrow> string \<Rightarrow> string \<Rightarrow> step_env \<Rightarrow> window_event \<Rightarrow> window \<Rightarrow> window" where
  "apply_step opts owner version e ev w =
     (let (s, effs) = handle opts (diag e) ev (win w)
      in w\<lparr>win := s, disk := foldl (effect_on_disk owner version (time e) (io_fails e)) (disk w) effs,
           trace := trace w @ effs\<rparr>)"

inductive recovery_run ::
  "recovery_options \<Rightarrow> string \<Rightarrow> string \<Rightarrow> window \<Rightarrow> (step_env \<times> window_event) list \<Rightarrow> window \<Rightarrow> bool"
  for opts owner version where
  run_Nil: "recovery_run opts owner version w [] w"
| run_snoc: "recovery_run opts owner version w evs w' \<Longrightarrow> enabled ev (win w') \<Longrightarrow>
    recovery_run opts owner version w (evs @ [(e, ev)]) (apply_step opts owner version e ev w')"

inductive_simps run_Nil_iff: "recovery_run opts owner version w [] w'"

definition fresh_window :: "item option \<Rightarrow> window" where
  "fresh_window d = \<lparr>win = recovery_start, disk = d, trace = []\<rparr>"

end
