(* ===== verification/Freeze_Properties.thy ===== *)
theory Freeze_Properties
  imports Renderer_Recovery
begin

text \<open>
  The properties of the freeze reports: what may leave the machine, that a recorded breadcrumb
  is reported before it disappears, and when the breadcrumb of a hang outlives the hang.
\<close>

section \<open>The event\<close>

lemma when_string_keys: "fst ` set (when_string key v) \<subseteq> {key}"
  by (cases v) (simp_all add: when_string_def)

lemma route_keys: "fst ` set (routeProps v) \<subseteq> {''path'', ''surface''}"
  using when_string_keys by (simp add: routeProps_def keys_spread) blast

lemma stack_keys:
  "fst ` set (stackProps v) \<subseteq> {''stack'', ''stack_depth'', ''stack_function'', ''stack_url'', ''stack_line''}"
  by (auto simp: stackProps_def Let_def split: option.splits if_splits)

lemma crash_keys: "fst ` set (crashProps v) \<subseteq> {''crash_reason'', ''crash_exit_code''}"
  using when_string_keys [of "''crash_reason''" "get_prop v ''reason''"]
  by (auto simp: crashProps_def split: js.splits)

definition event_keys :: "string list" where
  "event_keys = [''source'', ''recovered'', ''breadcrumb_ts'', ''crashed_version'', ''path'',
     ''surface'', ''stack'', ''stack_depth'', ''stack_function'', ''stack_url'', ''stack_line'',
     ''crash_reason'', ''crash_exit_code'']"

lemma event_keys_whitelisted: "fst ` set (buildFreezeEventProps b) \<subseteq> set event_keys"
  using route_keys stack_keys crash_keys
  by (simp add: buildFreezeEventProps_def keys_spread event_keys_def Let_def) blast

lemma event_ts: "obj_get (buildFreezeEventProps b) ''breadcrumb_ts'' = Some (get_prop b ''ts'')"
proof -
  have "''breadcrumb_ts'' \<notin> fst ` set (routeProps v)" "''breadcrumb_ts'' \<notin> fst ` set (stackProps v)"
    "''breadcrumb_ts'' \<notin> fst ` set (crashProps v)" for v
    using route_keys [of v] stack_keys [of v] crash_keys [of v] by auto
  then show ?thesis by (simp add: buildFreezeEventProps_def obj_get_spread_other Let_def)
qed

lemma stackProps_wf: "obj_wf (stackProps v)"
  by (simp add: stackProps_def obj_wf_def Let_def split: option.splits)

lemma stackProps_stack:
  "obj_get (stackProps v) ''stack'' =
     map_option stack_js (sanitizeHangStackFrames v HANG_STACK_MAX_FRAMES)"
  by (simp add: stackProps_def Let_def split: option.splits)

lemma event_stack:
  "obj_get (buildFreezeEventProps b) ''stack'' =
     map_option stack_js
       (sanitizeHangStackFrames (get_prop (get_prop b ''context'') ''stack'') HANG_STACK_MAX_FRAMES)"
proof -
  have "''stack'' \<notin> fst ` set (routeProps v)" "''stack'' \<notin> fst ` set (crashProps v)" for v
    using route_keys [of v] crash_keys [of v] by auto
  then show ?thesis
    by (simp add: buildFreezeEventProps_def obj_get_spread_other obj_get_spread [OF stackProps_wf]
        stackProps_stack Let_def split: option.splits)
qed

section \<open>The breadcrumb's way to the report\<close>

definition reported :: "js \<Rightarrow> freeze_sys \<Rightarrow> bool" where
  "reported ts s \<longleftrightarrow> list_ex (\<lambda>(n, props). obj_get props ''breadcrumb_ts'' = Some ts) (captured s)"

text \<open>Whoever waits to acknowledge a timestamp has reported it.\<close>

definition acks_reported :: "freeze_sys \<Rightarrow> bool" where
  "acks_reported s \<longleftrightarrow> (\<forall>ts. handed s = Some ts \<or> ack_timer s = Some ts \<longrightarrow> reported ts s)"

lemma reported_step: "reported ts s \<Longrightarrow> reported ts (freeze_step s ev)"
  by (induction s ev rule: freeze_step.induct)
    (auto simp: reported_def flushFreezeBreadcrumb_def Let_def split_beta split: option.splits)

lemma acks_reported_step: "acks_reported s \<Longrightarrow> acks_reported (freeze_step s ev)"
  by (induction s ev rule: freeze_step.induct)
    (auto simp: acks_reported_def reported_def flushFreezeBreadcrumb_def event_ts Let_def split_beta
      split: option.splits)

lemma acks_reported_run: "acks_reported s \<Longrightarrow> acks_reported (freeze_run s evs)"
  unfolding freeze_run_def by (induction evs arbitrary: s) (auto simp: acks_reported_step)

lemma acks_reported_start: "acks_reported (freeze_start f)"
  by (simp add: acks_reported_def freeze_start_def)

text \<open>A breadcrumb the main process wrote, and the events that may retire it unreported.\<close>

definition valid_breadcrumb :: "js \<Rightarrow> int \<Rightarrow> bool" where
  "valid_breadcrumb b t \<longleftrightarrow> is_string (get_prop b ''kind'') \<and> get_prop b ''ts'' = JNum t"

fun spares :: "js \<Rightarrow> int \<Rightarrow> bool \<times> freeze_event \<Rightarrow> bool" where
  "spares b t (fails, Write v) = False"
| "spares b t (fails, Clear own) = (get_prop b ''ownerId'' \<noteq> JStr own)"
| "spares b t (fails, Boot now) = (now - t \<le> FREEZE_BREADCRUMB_TTL_MS)"
| "spares b t _ = True"

lemma valid_parsed: "valid_breadcrumb b t \<Longrightarrow> parsed_object (Some (Doc b)) = Some (json_value b)"
  by (cases b) (auto simp: valid_breadcrumb_def parsed_object_def)

lemma read_valid:
  assumes "valid_breadcrumb b t" and "now - t \<le> FREEZE_BREADCRUMB_TTL_MS"
  shows "readFreezeBreadcrumb fails now (Some (Doc b)) = (Some (json_value b), Some (Doc b))"
  using valid_parsed [OF assms(1)] assms
  by (simp add: readFreezeBreadcrumb_def isExpired_def valid_breadcrumb_def)

lemma boot_reports:
  assumes "valid_breadcrumb b t" and "now - t \<le> FREEZE_BREADCRUMB_TTL_MS"
    and "crumb_file s = Some (Doc b)"
  shows "reported (JNum t) (flushFreezeBreadcrumb fails now s)"
  using assms(1) by (simp add: flushFreezeBreadcrumb_def assms(3) read_valid [OF assms(1,2)]
      reported_def event_ts valid_breadcrumb_def)

lemma ack_other:
  assumes "valid_breadcrumb b t" and "ts \<noteq> JNum t"
  shows "ackFreezeBreadcrumb fails ts (Some (Doc b)) = Some (Doc b)"
  using valid_parsed [OF assms(1)] assms by (auto simp: ackFreezeBreadcrumb_def valid_breadcrumb_def)

lemma spared_step:
  assumes v: "valid_breadcrumb b t" and acks: "acks_reported s" and sp: "spares b t ev"
    and here: "crumb_file s = Some (Doc b)"
  shows "crumb_file (freeze_step s ev) = Some (Doc b) \<or> reported (JNum t) (freeze_step s ev)"
proof -
  obtain fails e where ev: "ev = (fails, e)" by (cases ev)
  show ?thesis
  proof (cases e)
    case (Write w)
    then show ?thesis using sp ev by simp
  next
    case (Clear own)
    then show ?thesis using sp ev here valid_parsed [OF v] by (simp add: clearFreezeBreadcrumb_def)
  next
    case (Boot now)
    then show ?thesis using boot_reports [OF v _ here] sp ev by simp
  next
    case Captured
    then show ?thesis using ev here by (simp split: option.splits)
  next
    case Grace
    show ?thesis
    proof (cases "ack_timer s")
      case None
      then show ?thesis using Grace ev here by simp
    next
      case (Some ts)
      then have r: "reported ts s" using acks by (simp add: acks_reported_def)
      show ?thesis
      proof (cases "ts = JNum t")
        case True
        then show ?thesis using r reported_step by blast
      next
        case False
        then show ?thesis using Grace ev here Some ack_other [OF v False] by simp
      qed
    qed
  next
    case Cleanup
    then show ?thesis using ev here by simp
  qed
qed

lemma spared_run:
  assumes "valid_breadcrumb b t" and "acks_reported s" and "list_all (spares b t) evs"
    and "crumb_file s = Some (Doc b) \<or> reported (JNum t) s"
  shows "(crumb_file (freeze_run s evs) = Some (Doc b) \<or> reported (JNum t) (freeze_run s evs)) \<and>
    (list_ex (\<lambda>(f, e). \<exists>now. e = Boot now) evs \<longrightarrow> reported (JNum t) (freeze_run s evs))"
  using assms(2-)
proof (induction evs arbitrary: s)
  case (Cons ev evs)
  have sp: "spares b t ev" "list_all (spares b t) evs" using Cons.prems(2) by simp_all
  have now: "crumb_file (freeze_step s ev) = Some (Doc b) \<or> reported (JNum t) (freeze_step s ev)"
    using Cons.prems(3) spared_step [OF assms(1) Cons.prems(1) sp(1)] reported_step by blast
  note ih = Cons.IH [OF acks_reported_step [OF Cons.prems(1)] sp(2) now]
  have keep: "reported (JNum t) (freeze_run s (ev # evs))" if "reported (JNum t) (freeze_step s ev)"
  proof -
    have "reported (JNum t) (freeze_run s' es)" if "reported (JNum t) s'" for s' es
      using that unfolding freeze_run_def by (induction es arbitrary: s') (simp_all add: reported_step)
    from this [OF that] show ?thesis by (simp add: freeze_run_def)
  qed
  have boot: "reported (JNum t) (freeze_step s ev)" if "ev = (f, Boot now)" for f now
    using that Cons.prems(3) reported_step [of "JNum t" s ev] boot_reports [OF assms(1)] sp(1) by auto
  show ?case using ih keep boot by (cases ev) (auto simp: freeze_run_def)
qed (simp add: freeze_run_def)

section \<open>The window\<close>

definition production :: "bool \<Rightarrow> recovery_options" where
  "production capture =
     \<lparr>isDev = False, captureStack = capture, persistBreadcrumb = True, clearBreadcrumb = True\<rparr>"

lemma production_simps [simp]:
  "isDev (production c) = False" "captureStack (production c) = c"
  "persistBreadcrumb (production c) = True" "clearBreadcrumb (production c) = True"
  by (simp_all add: production_def)

text \<open>The last thing heard from the window is that it hangs.\<close>

fun heard :: "bool \<Rightarrow> window_event \<Rightarrow> bool" where
  "heard b Unresponsive = True"
| "heard b Responsive = False"
| "heard b _ = b"

definition stuck :: "(step_env \<times> window_event) list \<Rightarrow> bool" where
  "stuck evs = foldl heard False (map snd evs)"

lemma stuck_snoc: "stuck (evs @ [(e, ev)]) = heard (stuck evs) ev"
  by (simp add: stuck_def)

definition own_hang :: "string \<Rightarrow> item option \<Rightarrow> bool" where
  "own_hang owner d =
     (case parsed_object d of
        None \<Rightarrow> False
      | Some v \<Rightarrow> get_prop v ''ownerId'' = JStr owner \<and> get_prop v ''kind'' = JStr ''unresponsive'')"

lemma parsed_written:
  "parsed_object (writeFreezeBreadcrumb False (freeze_breadcrumb owner now v p) d) =
     Some (json_value (freeze_breadcrumb owner now v p))"
  by (simp add: writeFreezeBreadcrumb_def freeze_breadcrumb_def JSON_stringify_def parsed_object_def)

lemma own_hang_write:
  "own_hang owner (writeFreezeBreadcrumb False (freeze_breadcrumb owner now v p) d) \<longleftrightarrow>
     kind p = ''unresponsive''"
  by (simp add: own_hang_def parsed_written) (simp add: freeze_breadcrumb_def)

lemma own_hang_clear: "\<not> own_hang owner (clearFreezeBreadcrumb False (Some owner) d)"
  by (auto simp: own_hang_def clearFreezeBreadcrumb_def remove_file_def parsed_object_def
      split: option.splits)

text \<open>Without \<open>captureStack\<close>: a timer, a written flag or an own hang breadcrumb means a hang.\<close>

definition window_ok :: "string \<Rightarrow> bool \<Rightarrow> window \<Rightarrow> bool" where
  "window_ok owner hung w \<longleftrightarrow>
     (own_hang owner (disk w) \<longrightarrow> unresponsiveBreadcrumbWritten (win w)) \<and>
     (unresponsiveBreadcrumbWritten (win w) \<longrightarrow> hung) \<and>
     (unresponsivePromptTimer (win w) \<longrightarrow> hung) \<and> reading (win w) = 0"

lemmas handler_defs = on_process_gone_def on_preload_error_def on_unresponsive_def on_timer_def
  on_stack_def on_responsive_def on_answer_def finish_report_def persist_def maybePromptReload_def

lemma window_ok_step:
  assumes "window_ok owner hung w" and "enabled ev (win w)" and "\<not> io_fails e"
  shows "window_ok owner (heard hung ev) (apply_step (production False) owner v e ev w)"
proof (cases ev)
  case (Process_gone details)
  then show ?thesis using assms
    by (auto simp: window_ok_def apply_step_def handler_defs own_hang_write Let_def)
next
  case (Stack_read r)
  then show ?thesis using assms by (simp add: window_ok_def)
qed (use assms in \<open>auto simp: window_ok_def apply_step_def handler_defs own_hang_write
    own_hang_clear Let_def\<close>)

lemma window_ok_run:
  assumes "recovery_run (production False) owner v (fresh_window d) evs w"
    and "list_all (\<lambda>(e, ev). \<not> io_fails e) evs" and "\<not> own_hang owner d"
  shows "window_ok owner (stuck evs) w"
  using assms
proof (induction "fresh_window d" evs w rule: recovery_run.induct)
  case run_Nil
  then show ?case by (simp add: window_ok_def fresh_window_def recovery_start_def)
next
  case (run_snoc evs w ev e)
  then show ?case using window_ok_step [of owner "stuck evs" w ev e v] by (simp add: stuck_snoc)
qed

section \<open>Every hang is prompted for\<close>

definition hang_prompts :: "effect list \<Rightarrow> nat" where
  "hang_prompts tr =
     length (filter (\<lambda>e. case e of Prompt p \<Rightarrow> kind p = ''unresponsive'' | _ \<Rightarrow> False) tr)"

lemma hang_prompts_append: "hang_prompts (a @ b) = hang_prompts a + hang_prompts b"
  by (simp add: hang_prompts_def)

definition outstanding :: "window \<Rightarrow> nat" where
  "outstanding w = hang_prompts (trace w) + reading (win w) +
     (if unresponsivePromptTimer (win w) then 1 else 0)"

lemma outstanding_step:
  assumes "enabled ev (win w)" and "ev \<noteq> Responsive"
  shows "outstanding w \<le> outstanding (apply_step (production c) owner v e ev w)"
proof (cases ev)
  case (Process_gone details)
  then show ?thesis
    by (simp add: outstanding_def apply_step_def handler_defs hang_prompts_append Let_def)
next
  case (Stack_read r)
  then show ?thesis using assms
    by (auto simp: outstanding_def apply_step_def handler_defs hang_prompts_append split_beta
        hang_prompts_def Let_def)
next
  case Timer_fires
  then show ?thesis using assms
    by (auto simp: outstanding_def apply_step_def handler_defs hang_prompts_append hang_prompts_def Let_def)
qed (use assms in \<open>auto simp: outstanding_def apply_step_def handler_defs hang_prompts_append Let_def\<close>)

lemma outstanding_run:
  assumes "recovery_run (production c) owner v w evs w'"
    and "list_all (\<lambda>(e, ev). ev \<noteq> Responsive) evs"
  shows "outstanding w \<le> outstanding w'"
  using assms
proof (induction w evs w' rule: recovery_run.induct)
  case (run_snoc w evs w' ev e)
  then show ?case using outstanding_step [of ev w' c owner v e] by simp
qed simp

section \<open>The debugger is always released\<close>

lemma captureHangStack_resumes:
  "snd (captureHangStack attached listen_fails fails n ms) =
     (if attached then [Listen, SendCommand ''Debugger.pause'', Unlisten, SendCommand ''Debugger.resume'']
      else [])"
  by (simp add: captureHangStack_def sendDebuggerCommand_def ALLOWED_CDP_METHODS_def split_beta)

lemma warmDebuggerChannel_rolls_back:
  "warmDebuggerChannel attached attach_fails fails = (False, calls) \<Longrightarrow>
     Attach \<in> set calls \<Longrightarrow> \<not> attach_fails \<Longrightarrow> last calls = Detach"
  by (auto simp: warmDebuggerChannel_def sendDebuggerCommand_def ALLOWED_CDP_METHODS_def
      detachQuietly_def Let_def split: if_splits)

section \<open>Runs that can be computed\<close>

definition calm :: "int \<Rightarrow> step_env" where
  "calm now = \<lparr>diag = None, time = now, io_fails = False\<rparr>"

definition run_events ::
  "recovery_options \<Rightarrow> string \<Rightarrow> string \<Rightarrow> window \<Rightarrow> (step_env \<times> window_event) list \<Rightarrow> window option" where
  "run_events opts owner version w evs =
     foldl (\<lambda>acc (e, ev). Option.bind acc (\<lambda>w. if enabled ev (win w)
        then Some (apply_step opts owner version e ev w) else None)) (Some w) evs"

lemma run_events_run:
  "run_events opts owner version w evs = Some w' \<Longrightarrow> recovery_run opts owner version w evs w'"
proof (induction evs arbitrary: w' rule: rev_induct)
  case Nil
  then show ?case by (simp add: run_events_def run_Nil)
next
  case (snoc p evs)
  obtain e ev where p: "p = (e, ev)" by (cases p)
  obtain v where v: "run_events opts owner version w evs = Some v" "enabled ev (win v)"
    "w' = apply_step opts owner version e ev v"
    using snoc.prems p by (auto simp: run_events_def bind_eq_Some_conv split: if_splits)
  then show ?case using snoc.IH [OF v(1)] p by (simp add: run_snoc)
qed

definition hang_and_back :: "(step_env \<times> window_event) list" where
  "hang_and_back = [(calm 1, Unresponsive), (calm 2, Timer_fires), (calm 3, Responsive)]"

definition late_stack :: "(step_env \<times> window_event) list" where
  "late_stack = [(calm 1, Unresponsive), (calm 2, Timer_fires), (calm 3, Responsive),
     (calm 4, Stack_read (Stack JNull))]"

definition crash_then_hiccup :: "(step_env \<times> window_event) list" where
  "crash_then_hiccup = [(calm 1, Unresponsive), (calm 2, Timer_fires),
     (calm 3, Process_gone (JObj [(''reason'', JStr ''crashed'')])), (calm 4, Prompt_answered 0 False),
     (calm 5, Unresponsive), (calm 6, Responsive)]"

lemmas run_simps = run_events_def late_stack_def crash_then_hiccup_def apply_step_def handler_defs
  fresh_window_def recovery_start_def calm_def

section \<open>Properties\<close>

text \<open>Frames that were sanitized once survive a second sanitizing unchanged, and whatever the input was they are at most the given number, named, and carry a url of at most two path segments without a query.\<close>

theorem sanitizeHangStackFrames_idempotent:
  assumes "sanitizeHangStackFrames raw n = Some fs"
  shows "sanitizeHangStackFrames (stack_js fs) n = Some fs \<and> fs \<noteq> [] \<and> length fs \<le> n \<and>
    list_all clean_frame fs"
  using sanitize_frames_clean [OF assms] sanitize_clean by simp

definition demo_stack :: js where
  "demo_stack = JArr [JNull, JObj [(''functionName'', JStr ''''),
     (''url'', JStr ''file:///Users/ana/app/main.js?v=1''), (''scopeChain'', JArr []),
     (''location'', JObj [(''lineNumber'', JNum 7)])]]"

definition demo_frame :: hang_frame where
  "demo_frame = \<lparr>functionName = ''(anonymous)'', url = ''app/main.js'', lineNumber = 7, columnNumber = 0\<rparr>"

lemma sanitizeHangStackFrames_idempotent_witness:
  "sanitizeHangStackFrames (stack_js [demo_frame]) 20 = Some [demo_frame]"
proof -
  have "sanitizeHangStackFrames demo_stack 20 = Some [demo_frame]" by code_simp
  from sanitizeHangStackFrames_idempotent [OF this] show ?thesis by simp
qed

text \<open>Whatever the breadcrumb file holds, the event made of it has keys of the fixed list only, and its stack is a list of at most twenty sanitized frames with no other field.\<close>

theorem buildFreezeEventProps_whitelist:
  "fst ` set (buildFreezeEventProps b) \<subseteq> set event_keys \<and>
   (obj_get (buildFreezeEventProps b) ''stack'' = None \<or>
    (\<exists>fs. obj_get (buildFreezeEventProps b) ''stack'' = Some (stack_js fs) \<and> length fs \<le> 20 \<and>
       list_all clean_frame fs))"
proof -
  let ?fs = "sanitizeHangStackFrames (get_prop (get_prop b ''context'') ''stack'') HANG_STACK_MAX_FRAMES"
  have "length fs \<le> 20 \<and> list_all clean_frame fs" if "?fs = Some fs" for fs
    using sanitize_frames_clean [OF that] by (simp add: HANG_STACK_MAX_FRAMES_def)
  then show ?thesis using event_keys_whitelisted event_stack [of b] by (cases ?fs) auto
qed


definition demo_crumb :: "int \<Rightarrow> js" where
  "demo_crumb t = freeze_breadcrumb ''main:1'' t ''1.0'' \<lparr>kind = ''unresponsive'', context_of = []\<rparr>"


text \<open>Without stack capture, a window that last said it is responsive has no hang breadcrumb of its own on disk, whatever happened before: timers, crashes, preload errors, answered prompts.\<close>

theorem recovered_window_leaves_no_hang:
  assumes "recovery_run (production False) owner version (fresh_window d) evs w"
    and "list_all (\<lambda>(e, ev). \<not> io_fails e) evs" and "\<not> own_hang owner d" and "\<not> stuck evs"
  shows "\<not> own_hang owner (disk w)"
  using window_ok_run [OF assms(1-3)] assms(4) by (auto simp: window_ok_def)

lemma recovered_window_leaves_no_hang_witness:
  "\<exists>w. run_events (production False) ''main:1'' ''1.0'' (fresh_window None) hang_and_back = Some w \<and>
     \<not> own_hang ''main:1'' (disk w)"
proof -
  have "\<not> Option.is_none (run_events (production False) ''main:1'' ''1.0'' (fresh_window None) hang_and_back)"
    by code_simp
  then obtain w where
    w: "run_events (production False) ''main:1'' ''1.0'' (fresh_window None) hang_and_back = Some w"
    by (auto simp: Option.is_none_def)
  have "list_all (\<lambda>(e, ev). \<not> io_fails e) hang_and_back" "\<not> own_hang ''main:1'' None" "\<not> stuck hang_and_back"
    by code_simp+
  from recovered_window_leaves_no_hang [OF run_events_run [OF w] this] show ?thesis using w by blast
qed

text \<open>Two runs in which the report goes wrong. With stack capture a window that recovers before its stack comes back leaves a hang breadcrumb and prompts for a reload although it is responsive; and after a hang that ended in a crash, the next short hang deletes the crash's breadcrumb.\<close>

theorem breadcrumb_races:
  "(\<exists>w. recovery_run (production True) ''main:1'' v (fresh_window None) late_stack w \<and>
      \<not> stuck late_stack \<and> own_hang ''main:1'' (disk w) \<and> hang_prompts (trace w) = 1) \<and>
   (\<exists>w w'. recovery_run (production False) ''main:1'' v (fresh_window None) (take 5 crash_then_hiccup) w \<and>
      map_option is_crash (parsed_object (disk w)) = Some True \<and>
      recovery_run (production False) ''main:1'' v (fresh_window None) crash_then_hiccup w' \<and>
      disk w' = None)"
proof
  let ?run = "\<lambda>c. run_events (production c) ''main:1'' v (fresh_window None)"
  have "\<exists>w. ?run True late_stack = Some w \<and> own_hang ''main:1'' (disk w) \<and> hang_prompts (trace w) = 1"
    by (simp add: run_simps own_hang_write hang_prompts_def readStack_def Let_def)
  moreover have "\<not> stuck late_stack" by (simp add: stuck_def late_stack_def)
  ultimately show "\<exists>w. recovery_run (production True) ''main:1'' v (fresh_window None) late_stack w \<and>
      \<not> stuck late_stack \<and> own_hang ''main:1'' (disk w) \<and> hang_prompts (trace w) = 1"
    using run_events_run by blast
  have "\<exists>w. ?run False (take 5 crash_then_hiccup) = Some w \<and>
      map_option is_crash (parsed_object (disk w)) = Some True"
    by (simp add: run_simps isRecoverableRendererExit_def writeFreezeBreadcrumb_def JSON_stringify_def
        freeze_breadcrumb_def parsed_object_def is_crash_def reload_answer_def Let_def)
  moreover have "\<exists>w. ?run False crash_then_hiccup = Some w \<and> disk w = None"
    by (simp add: run_simps isRecoverableRendererExit_def writeFreezeBreadcrumb_def JSON_stringify_def
        freeze_breadcrumb_def clearFreezeBreadcrumb_def remove_file_def parsed_object_def
        reload_answer_def Let_def)
  ultimately show "\<exists>w w'. recovery_run (production False) ''main:1'' v (fresh_window None) (take 5 crash_then_hiccup) w \<and>
      map_option is_crash (parsed_object (disk w)) = Some True \<and>
      recovery_run (production False) ''main:1'' v (fresh_window None) crash_then_hiccup w' \<and>
      disk w' = None"
    using run_events_run by blast
qed


definition armed_window :: window where
  "armed_window =
     \<lparr>win = \<lparr>unresponsivePromptTimer = True, unresponsiveBreadcrumbWritten = False, reading = 0\<rparr>,
      disk = None, trace = []\<rparr>"


end
