(* ===== verification/Workspace_Storage.thy ===== *)
theory Workspace_Storage
  imports JS_Json
begin

text \<open>
  The web storage and its namespacing by workspace: \<open>packages/core/types/storage.ts\<close>,
  \<open>packages/core/platform/workspace-storage.ts\<close>, \<open>platform/storage-cleanup.ts\<close> and
  \<open>packages/core/drafts/cleanup-registry.ts\<close>. A storage maps a key to a stored text.
\<close>

section \<open>The adapter\<close>

type_synonym storage = "string \<rightharpoonup> item"

definition getItem :: "storage \<Rightarrow> string \<Rightarrow> item option" where
  "getItem st key = st key"

definition setItem :: "storage \<Rightarrow> string \<Rightarrow> item \<Rightarrow> storage" where
  "setItem st key v = st(key \<mapsto> v)"

definition removeItem :: "storage \<Rightarrow> string \<Rightarrow> storage" where
  "removeItem st key = st(key := None)"

interpretation adapter: js_dict getItem setItem removeItem "\<lambda>_. True"
  by unfold_locales (simp_all add: getItem_def setItem_def removeItem_def)

text \<open>
  A dictionary seen through injective keys is a dictionary; what is stored under keys of
  another namespace is not touched.
\<close>

locale namespaced = js_dict lookup store remove wf_dict
  for lookup :: "'m \<Rightarrow> 'k \<Rightarrow> 'v option"
    and store :: "'m \<Rightarrow> 'k \<Rightarrow> 'v \<Rightarrow> 'm"
    and remove :: "'m \<Rightarrow> 'k \<Rightarrow> 'm"
    and wf_dict :: "'m \<Rightarrow> bool" +
  fixes key_of :: "'d \<Rightarrow> 'k"
  assumes key_inj: "key_of k = key_of j \<Longrightarrow> k = j"
begin

lemma store_elsewhere: "(\<And>j. key_of j \<noteq> k) \<Longrightarrow> lookup (store m (key_of k') v) k = lookup m k"
  by (metis lookup_store)

lemma remove_elsewhere: "(\<And>j. key_of j \<noteq> k) \<Longrightarrow> lookup (remove m (key_of k')) k = lookup m k"
  by (metis lookup_remove)

end

sublocale namespaced \<subseteq> view: js_dict "\<lambda>m k. lookup m (key_of k)" "\<lambda>m k. store m (key_of k)"
  "\<lambda>m k. remove m (key_of k)" wf_dict
  by unfold_locales (auto simp: lookup_store lookup_remove wf_store wf_remove dest: key_inj)

section \<open>The current workspace\<close>

record platform =
  currentSlug :: "string option"
  currentWsId :: "string option"
  pendingNotify :: bool
  pendingRehydrate :: bool

definition setCurrentWorkspace :: "string option \<Rightarrow> string option \<Rightarrow> platform \<Rightarrow> platform" where
  "setCurrentWorkspace slug wsId p =
     (if currentSlug p = slug then p\<lparr>currentWsId := wsId\<rparr>
      else p\<lparr>currentSlug := slug, currentWsId := wsId, pendingNotify := True, pendingRehydrate := True\<rparr>)"

definition slug_key :: "string \<Rightarrow> string \<Rightarrow> string" where
  "slug_key slug key = key @ '':'' @ slug"

section \<open>The workspace-aware storage\<close>

definition ws_getItem :: "string option \<Rightarrow> storage \<Rightarrow> string \<Rightarrow> item option" where
  "ws_getItem slug st key =
     (case truthy slug of None \<Rightarrow> None | Some s \<Rightarrow> getItem st (slug_key s key))"

definition ws_setItem :: "string option \<Rightarrow> storage \<Rightarrow> string \<Rightarrow> item \<Rightarrow> storage" where
  "ws_setItem slug st key v =
     (case truthy slug of None \<Rightarrow> st | Some s \<Rightarrow> setItem st (slug_key s key) v)"

definition ws_removeItem :: "string option \<Rightarrow> storage \<Rightarrow> string \<Rightarrow> storage" where
  "ws_removeItem slug st key =
     (case truthy slug of None \<Rightarrow> st | Some s \<Rightarrow> removeItem st (slug_key s key))"

lemma slug_key_inj: "slug_key s k = slug_key s j \<Longrightarrow> k = j"
  by (simp add: slug_key_def)

interpretation ws: namespaced getItem setItem removeItem "\<lambda>_. True" "slug_key s" for s
  by unfold_locales (rule slug_key_inj)

text \<open>Slugs have no colon, so the last colon of a key tells the workspace.\<close>

lemma slug_key_eq:
  assumes "slug_key s k = slug_key t j" and "CHR '':'' \<notin> set s" and "CHR '':'' \<notin> set t"
  shows "s = t \<and> k = j"
proof -
  have cut: "takeWhile (\<lambda>c. c \<noteq> CHR '':'') (rev (slug_key u l)) = rev u" if "CHR '':'' \<notin> set u" for u l
    using that by (auto simp: slug_key_def takeWhile_append)
  have "rev s = rev t" using cut [OF assms(2), of k] cut [OF assms(3), of j] assms(1) by metis
  then show ?thesis using assms(1) by (simp add: slug_key_def)
qed

lemma ws_get_set_same: "truthy (Some s) = Some s \<Longrightarrow>
    ws_getItem (Some s) (ws_setItem (Some s) st key v) j = (if j = key then Some v else ws_getItem (Some s) st j)"
  by (simp add: ws_getItem_def ws_setItem_def ws.view.lookup_store)

section \<open>Cleanup\<close>

record cleanup_entry =
  storageKey :: string
  workspaceScoped :: bool

text \<open>\<open>entries.set(entry.storageKey, entry)\<close>: one entry for a key, the last one wins.\<close>

definition registerDraftCleanup :: "cleanup_entry \<Rightarrow> cleanup_entry obj \<Rightarrow> cleanup_entry obj" where
  "registerDraftCleanup entry entries = obj_set entries (storageKey entry) entry"

definition entry_key :: "string \<Rightarrow> cleanup_entry \<Rightarrow> string" where
  "entry_key slug entry =
     (if workspaceScoped entry then slug_key slug (storageKey entry) else storageKey entry)"

definition clear_entry :: "string \<Rightarrow> storage \<Rightarrow> cleanup_entry \<Rightarrow> storage" where
  "clear_entry slug st entry =
     removeItem st (entry_key slug entry)"

definition clearRegisteredWorkspaceDrafts :: "cleanup_entry obj \<Rightarrow> string \<Rightarrow> storage \<Rightarrow> storage" where
  "clearRegisteredWorkspaceDrafts entries slug st = foldl (clear_entry slug) st (map snd entries)"

definition WORKSPACE_SCOPED_KEYS :: "string list" where
  "WORKSPACE_SCOPED_KEYS =
     [''multica_issue_surface_views'', ''multica_issues_view'', ''multica_issues_scope'',
      ''multica_my_issues_view'', ''multica:chat:selectedAgentId'', ''multica:chat:selectedProjectId'',
      ''multica:chat:activeSessionId'', ''multica:chat:expanded'', ''multica_navigation'']"

definition clearWorkspaceStorage :: "cleanup_entry obj \<Rightarrow> string \<Rightarrow> storage \<Rightarrow> storage" where
  "clearWorkspaceStorage entries slug st =
     clearRegisteredWorkspaceDrafts entries slug
       (foldl (\<lambda>st key. removeItem st (slug_key slug key)) st WORKSPACE_SCOPED_KEYS)"

lemma removes_lookup:
  "foldl (\<lambda>st x. removeItem st (f x)) st xs k = (if k \<in> f ` set xs then None else st k)"
  by (induction xs arbitrary: st) (auto simp: removeItem_def)

lemma clearWorkspaceStorage_lookup:
  "clearWorkspaceStorage entries slug st k =
     (if k \<in> slug_key slug ` set WORKSPACE_SCOPED_KEYS \<union> entry_key slug ` snd ` set entries
      then None else st k)"
proof -
  have eq: "clear_entry slug = (\<lambda>st e. removeItem st (entry_key slug e))"
    by (intro ext) (simp add: clear_entry_def)
  show ?thesis
    unfolding clearWorkspaceStorage_def clearRegisteredWorkspaceDrafts_def eq removes_lookup set_map
    by simp
qed

end
