(* ===== verification/Draft_Upload.thy ===== *)
theory Draft_Upload
  imports JS_Json
begin

text \<open>
  \<open>packages/core/drafts/draft-upload.ts\<close>: the uploads of a draft, placeholders and completed
  ones. They come back from the storage unchecked, so an upload is a value whose members are
  read; a \<open>DraftUpload\<close> of the code is one that has the members of its type.
\<close>

abbreviation clientUploadId :: "js \<Rightarrow> js" where
  "clientUploadId u \<equiv> get_prop u ''clientUploadId''"

abbreviation status_of :: "js \<Rightarrow> js" where
  "status_of u \<equiv> get_prop u ''status''"

abbreviation attachment_of :: "js \<Rightarrow> js" where
  "attachment_of u \<equiv> get_prop u ''attachment''"

definition isUploaded :: "js \<Rightarrow> bool" where
  "isUploaded u \<longleftrightarrow> status_of u = JStr ''uploaded''"

fun uploadedAttachments :: "js list \<Rightarrow> js list" where
  "uploadedAttachments [] = []"
| "uploadedAttachments (u # us) =
     (if status_of u = JStr ''uploaded'' then attachment_of u # uploadedAttachments us
      else uploadedAttachments us)"

definition hasUploadingDraft :: "js list \<Rightarrow> bool" where
  "hasUploadingDraft us \<longleftrightarrow> list_ex (\<lambda>u. status_of u = JStr ''uploading'') us"

definition attachmentToDraftUpload :: "js \<Rightarrow> js" where
  "attachmentToDraftUpload a = JObj
     [(''clientUploadId'', js_or (get_prop a ''id'') (get_prop a ''url'')),
      (''status'', JStr ''uploaded''),
      (''filename'', get_prop a ''filename''),
      (''size'', get_prop a ''size_bytes''),
      (''contentType'', js_or (get_prop a ''content_type'') JUndef),
      (''attachment'', JObj (obj_set (members a) ''download_url'' (JStr [])))]"

definition looksLikeAttachment :: "js \<Rightarrow> bool" where
  "looksLikeAttachment v \<longleftrightarrow> is_object v \<and> v \<noteq> JNull \<and> is_string (get_prop v ''id'') \<and>
     is_string (get_prop v ''filename'') \<and> is_string (get_prop v ''url'')"

definition isDraftUploadShape :: "js \<Rightarrow> bool" where
  "isDraftUploadShape v \<longleftrightarrow> is_object v \<and> v \<noteq> JNull \<and> is_string (clientUploadId v) \<and>
     is_string (status_of v)"

definition normalize_item :: "js \<Rightarrow> js list" where
  "normalize_item i =
     (if isDraftUploadShape i then
        (if status_of i = JStr ''uploading'' then []
         else if status_of i = JStr ''uploaded'' then
           (if looksLikeAttachment (attachment_of i) then [i] else [])
         else [i])
      else if looksLikeAttachment i then [attachmentToDraftUpload i]
      else [])"

definition normalizeStoredUploads :: "js \<Rightarrow> js list" where
  "normalizeStoredUploads raw =
     (case raw of JArr items \<Rightarrow> concat (map normalize_item items) | _ \<Rightarrow> [])"

section \<open>What a reload leaves of the uploads\<close>

lemma string_is_object: "is_string (get_prop v k) \<Longrightarrow> is_object v \<and> v \<noteq> JNull"
  by (cases v) auto

lemma shape_iff: "isDraftUploadShape v \<longleftrightarrow> is_string (clientUploadId v) \<and> is_string (status_of v)"
  using string_is_object by (auto simp: isDraftUploadShape_def)

lemma looks_iff: "looksLikeAttachment v \<longleftrightarrow> is_string (get_prop v ''id'') \<and>
    is_string (get_prop v ''filename'') \<and> is_string (get_prop v ''url'')"
  using string_is_object by (auto simp: looksLikeAttachment_def)

lemma shape_json [simp]: "isDraftUploadShape (json_value v) = isDraftUploadShape v"
  by (simp add: shape_iff)

lemma looks_json [simp]: "looksLikeAttachment (json_value v) = looksLikeAttachment v"
  by (simp add: looks_iff)

lemma shape_null_for [simp]: "isDraftUploadShape (null_for v) = isDraftUploadShape v"
  by (simp add: null_for_def shape_iff)

lemma looks_null_for [simp]: "looksLikeAttachment (null_for v) = looksLikeAttachment v"
  by (simp add: null_for_def looks_iff)

lemma wrapped_shape:
  assumes "looksLikeAttachment a"
  shows "isDraftUploadShape (attachmentToDraftUpload a)"
    and "status_of (attachmentToDraftUpload a) = JStr ''uploaded''"
    and "looksLikeAttachment (attachment_of (attachmentToDraftUpload a))"
proof -
  obtain ob where a: "a = JObj ob" using assms by (cases a) (auto simp: looks_iff)
  have "is_string (js_or (get_prop a ''id'') (get_prop a ''url''))"
    using assms by (auto simp: looks_iff js_or_def)
  then show "isDraftUploadShape (attachmentToDraftUpload a)"
    by (simp add: shape_iff attachmentToDraftUpload_def)
  show "status_of (attachmentToDraftUpload a) = JStr ''uploaded''"
    by (simp add: attachmentToDraftUpload_def)
  show "looksLikeAttachment (attachment_of (attachmentToDraftUpload a))"
    using assms by (simp add: looks_iff attachmentToDraftUpload_def a obj_simps)
qed

text \<open>A normalized upload: one that normalizing keeps.\<close>

definition normal_upload :: "js \<Rightarrow> bool" where
  "normal_upload u \<longleftrightarrow> normalize_item u = [u]"

lemma normal_upload_iff:
  "normal_upload u \<longleftrightarrow> isDraftUploadShape u \<and> status_of u \<noteq> JStr ''uploading'' \<and>
     (status_of u = JStr ''uploaded'' \<longrightarrow> looksLikeAttachment (attachment_of u))"
proof (cases "isDraftUploadShape u")
  case True
  then show ?thesis by (auto simp: normal_upload_def normalize_item_def)
next
  case False
  have "attachmentToDraftUpload u \<noteq> u" if "looksLikeAttachment u"
    using wrapped_shape(1) [OF that] False by metis
  then show ?thesis using False by (auto simp: normal_upload_def normalize_item_def)
qed

lemma normal_json [simp]: "normal_upload (json_value u) = normal_upload u"
  by (simp add: normal_upload_iff)

lemma normal_null_for [simp]: "normal_upload (null_for u) = normal_upload u"
  by (cases u) (simp_all add: null_for_def normal_upload_iff shape_iff)

lemma normalize_item_normal: "list_all normal_upload (normalize_item i)"
proof (cases "isDraftUploadShape i")
  case True
  then show ?thesis by (auto simp: normalize_item_def normal_upload_iff)
next
  case False
  then show ?thesis using wrapped_shape by (auto simp: normalize_item_def normal_upload_iff)
qed

lemma normalize_normal: "list_all normal_upload (normalizeStoredUploads raw)"
  using normalize_item_normal
  by (auto simp: normalizeStoredUploads_def list_all_iff split: js.splits)

lemma normal_null: "normal_upload u \<Longrightarrow> null_for u = u"
  by (auto simp: null_for_def normal_upload_iff shape_iff)

text \<open>A reload keeps of the uploads of a draft exactly the normal ones.\<close>

lemma normalize_shaped:
  assumes "list_all isDraftUploadShape us"
  shows "normalizeStoredUploads (json_value (JArr us)) = map json_value (filter normal_upload us)"
proof -
  have "normalize_item (null_for (json_value u)) = (if normal_upload u then [json_value u] else [])"
    if "u \<in> set us" for u
  proof -
    have shape: "isDraftUploadShape u" using assms that by (simp add: list_all_iff)
    then have "json_value u \<noteq> JUndef" by (auto simp: shape_iff)
    then have "null_for (json_value u) = json_value u" by (simp add: null_for_def)
    then show ?thesis using shape by (auto simp: normal_upload_iff normalize_item_def)
  qed
  then have "concat (map (\<lambda>u. normalize_item (null_for (json_value u))) us) =
      concat (map (\<lambda>u. if normal_upload u then [json_value u] else []) us)"
    by (intro arg_cong [where f = concat] map_cong) auto
  also have "\<dots> = map json_value (filter normal_upload us)"
    by (induction us) auto
  finally show ?thesis by (simp add: normalizeStoredUploads_def comp_def)
qed

lemma normalize_stored:
  assumes "list_all normal_upload us"
  shows "normalizeStoredUploads (json_value (JArr us)) = map json_value us"
proof -
  have "list_all isDraftUploadShape us" "filter normal_upload us = us"
    using assms by (auto simp: list_all_iff normal_upload_iff filter_id_conv)
  then show ?thesis using normalize_shaped by metis
qed

end
