(* ===== verification/Chat_Store.thy ===== *)
theory Chat_Store
  imports Workspace_Storage Draft_Upload
begin

text \<open>
  \<open>packages/core/chat/store.ts\<close>: the chat panel's state and the parts of it that live in the
  storage, under keys of the current workspace. Drafts, uploads and queued restores come from
  JSON the code does not check in depth, so their leaves are values. Every action takes the
  system, that is the platform's current workspace, the storage and the state, to the next.
\<close>

section \<open>Keys\<close>

definition AGENT_STORAGE_KEY :: string where "AGENT_STORAGE_KEY = ''multica:chat:selectedAgentId''"
definition PROJECT_STORAGE_KEY :: string where "PROJECT_STORAGE_KEY = ''multica:chat:selectedProjectId''"
definition SESSION_STORAGE_KEY :: string where "SESSION_STORAGE_KEY = ''multica:chat:activeSessionId''"
definition DRAFTS_KEY :: string where "DRAFTS_KEY = ''multica:chat:drafts''"
definition DRAFT_ATTACHMENTS_KEY :: string where "DRAFT_ATTACHMENTS_KEY = ''multica:chat:draft-attachments''"
definition APPLIED_RESTORES_KEY :: string where "APPLIED_RESTORES_KEY = ''multica:chat:applied-draft-restores''"
definition PENDING_SEND_RESTORES_KEY :: string where "PENDING_SEND_RESTORES_KEY = ''multica:chat:pending-send-restores''"
definition DRAFT_NEW_SESSION :: string where "DRAFT_NEW_SESSION = ''__new__''"
definition LEGACY_NEW_SESSION_PREFIX :: string where "LEGACY_NEW_SESSION_PREFIX = DRAFT_NEW_SESSION @ '':''"
definition CHAT_WIDTH_KEY :: string where "CHAT_WIDTH_KEY = ''multica:chat:width''"
definition CHAT_HEIGHT_KEY :: string where "CHAT_HEIGHT_KEY = ''multica:chat:height''"
definition CHAT_EXPANDED_KEY :: string where "CHAT_EXPANDED_KEY = ''multica:chat:expanded''"
definition OPEN_KEY :: string where "OPEN_KEY = ''multica:chat:isOpen''"
definition FLOATING_KEY :: string where "FLOATING_KEY = ''multica:chat:floatingChatEnabled''"

definition CHAT_DEFAULT_W :: int where "CHAT_DEFAULT_W = 380"
definition CHAT_DEFAULT_H :: int where "CHAT_DEFAULT_H = 600"

definition wsKey :: "string option \<Rightarrow> string \<Rightarrow> string" where
  "wsKey slug base = (case truthy slug of None \<Rightarrow> base | Some s \<Rightarrow> slug_key s base)"

section \<open>Reading and writing the persisted parts\<close>

text \<open>The value a stored text parses to, \<open>None\<close> for a missing, empty or corrupt one.\<close>

definition stored_value :: "storage \<Rightarrow> string \<Rightarrow> js option" where
  "stored_value st key =
     (case getItem st key of None \<Rightarrow> None
      | Some raw \<Rightarrow> if item_truthy raw then JSON_parse raw else None)"

definition readDrafts :: "storage \<Rightarrow> string \<Rightarrow> js obj" where
  "readDrafts st key =
     (case stored_value st key of None \<Rightarrow> [] | Some parsed \<Rightarrow> members parsed)"

text \<open>An empty object is not stored.\<close>

definition write_object :: "storage \<Rightarrow> string \<Rightarrow> js obj \<Rightarrow> storage" where
  "write_object st key pruned =
     (if obj_keys pruned = [] then removeItem st key
      else setItem st key (JSON_stringify (JObj pruned)))"

definition writeDrafts :: "storage \<Rightarrow> string \<Rightarrow> js obj \<Rightarrow> storage" where
  "writeDrafts st key drafts =
     write_object st key (filter (\<lambda>(k, v). js_truthy v) (obj_entries drafts))"

definition isAttachmentDraft :: "js \<Rightarrow> bool" where
  "isAttachmentDraft v \<longleftrightarrow> is_object v \<and> v \<noteq> JNull \<and> is_string (get_prop v ''id'') \<and>
     is_string (get_prop v ''filename'')"

text \<open>\<open>out[k] = f(value)\<close> for the array values of an object, when the result is not empty.\<close>

definition collect_arrays :: "(js \<Rightarrow> js list) \<Rightarrow> js \<Rightarrow> js list obj" where
  "collect_arrays f parsed =
     foldl (\<lambda>out (k, v). if is_array v \<and> f v \<noteq> [] then obj_set out k (f v) else out) []
       (obj_entries (members parsed))"

definition readDraftAttachments :: "storage \<Rightarrow> string \<Rightarrow> js list obj" where
  "readDraftAttachments st key =
     (case stored_value st key of None \<Rightarrow> []
      | Some parsed \<Rightarrow> collect_arrays normalizeStoredUploads parsed)"

definition write_arrays :: "storage \<Rightarrow> string \<Rightarrow> js list obj \<Rightarrow> storage" where
  "write_arrays st key slots =
     write_object st key (map (\<lambda>(k, vs). (k, JArr vs)) (filter (\<lambda>(k, vs). vs \<noteq> []) (obj_entries slots)))"

definition writeDraftAttachments :: "storage \<Rightarrow> string \<Rightarrow> js list obj \<Rightarrow> storage" where
  "writeDraftAttachments st key drafts = write_arrays st key drafts"

fun string_values :: "js list \<Rightarrow> string list" where
  "string_values [] = []"
| "string_values (v # vs) = (case v of JStr s \<Rightarrow> s # string_values vs | _ \<Rightarrow> string_values vs)"

definition readAppliedRestores :: "storage \<Rightarrow> string \<Rightarrow> string list" where
  "readAppliedRestores st key =
     (case stored_value st key of Some (JArr vs) \<Rightarrow> string_values vs | _ \<Rightarrow> [])"

definition writeAppliedRestores :: "storage \<Rightarrow> string \<Rightarrow> string list \<Rightarrow> storage" where
  "writeAppliedRestores st key ids =
     (if ids = [] then removeItem st key else setItem st key (JSON_stringify (JArr (map JStr ids))))"

definition isPendingSendRestore :: "js \<Rightarrow> bool" where
  "isPendingSendRestore v \<longleftrightarrow> is_object v \<and> v \<noteq> JNull \<and> is_string (get_prop v ''id'') \<and>
     is_string (get_prop v ''content'') \<and> is_string (get_prop v ''sessionId'')"

definition restore_attachments :: "js \<Rightarrow> js" where
  "restore_attachments r = JObj (obj_set (members r) ''attachments''
     (case get_prop r ''attachments'' of JArr atts \<Rightarrow> JArr (filter isAttachmentDraft atts) | _ \<Rightarrow> JArr []))"

definition normalize_queue :: "js \<Rightarrow> js list" where
  "normalize_queue v =
     (case v of JArr rs \<Rightarrow> map restore_attachments (filter isPendingSendRestore rs) | _ \<Rightarrow> [])"

definition readPendingSendRestores :: "storage \<Rightarrow> string \<Rightarrow> js list obj" where
  "readPendingSendRestores st key =
     (case stored_value st key of None \<Rightarrow> [] | Some parsed \<Rightarrow> collect_arrays normalize_queue parsed)"

definition writePendingSendRestores :: "storage \<Rightarrow> string \<Rightarrow> js list obj \<Rightarrow> storage" where
  "writePendingSendRestores st key queues = write_arrays st key queues"

section \<open>The legacy new-chat slots\<close>

definition is_legacy_key :: "string \<Rightarrow> bool" where
  "is_legacy_key k \<longleftrightarrow> starts_with k LEGACY_NEW_SESSION_PREFIX"

definition migrateLegacyNewChatSlots :: "'v obj \<Rightarrow> string option \<Rightarrow> 'v obj \<times> bool" where
  "migrateLegacyNewChatSlots slots selectedAgentId =
     (let legacyKeys = filter is_legacy_key (obj_keys slots) in
      if legacyKeys = [] then (slots, False)
      else
        (let adopted = obj_get slots (LEGACY_NEW_SESSION_PREFIX @ default_to [] selectedAgentId);
             kept = (case adopted of
                       Some v \<Rightarrow> if obj_get slots DRAFT_NEW_SESSION = None
                                 then obj_set slots DRAFT_NEW_SESSION v else slots
                     | None \<Rightarrow> slots)
         in (foldl (\<lambda>ob k. obj_delete ob k) kept legacyKeys, True)))"

definition loadDraftSlots ::
  "storage \<Rightarrow> string \<Rightarrow> string \<Rightarrow> string option \<Rightarrow> storage \<times> js obj \<times> js list obj" where
  "loadDraftSlots st draftsKey attachmentsKey selectedAgentId =
     (let (drafts, drafts_changed) = migrateLegacyNewChatSlots (readDrafts st draftsKey) selectedAgentId;
          (atts, atts_changed) =
            migrateLegacyNewChatSlots (readDraftAttachments st attachmentsKey) selectedAgentId;
          st1 = (if drafts_changed then writeDrafts st draftsKey drafts else st);
          st2 = (if atts_changed then writeDraftAttachments st1 attachmentsKey atts else st1)
      in (st2, drafts, atts))"

section \<open>The state\<close>

record chat_state =
  isOpen :: bool
  floatingChatEnabled :: bool
  activeSessionId :: "string option"
  selectedAgentId :: "string option"
  selectedProjectId :: "string option"
  inputDrafts :: "js obj"
  inputDraftAttachments :: "js list obj"
  appliedDraftRestoreIds :: "string list"
  pendingSendRestores :: "js list obj"
  chatWidth :: int
  chatHeight :: int
  isExpanded :: bool

record chat_sys =
  plat :: platform
  stored :: storage
  chat :: chat_state

definition slug_of :: "chat_sys \<Rightarrow> string option" where
  "slug_of s = currentSlug (plat s)"

definition key_in :: "chat_sys \<Rightarrow> string \<Rightarrow> string" where
  "key_in s base = wsKey (slug_of s) base"

fun item_text :: "item \<Rightarrow> string" where
  "item_text (Text s) = s"
| "item_text (Doc v) = json_text v"

definition getText :: "storage \<Rightarrow> string \<Rightarrow> string option" where
  "getText st key = map_option item_text (getItem st key)"

definition setText :: "storage \<Rightarrow> string \<Rightarrow> string \<Rightarrow> storage" where
  "setText st key t = setItem st key (Text t)"

text \<open>\<open>Number(text)\<close> of the integers the store writes; any other text is not a number.\<close>

definition number_text :: "string \<Rightarrow> int option" where
  "number_text t =
     (case t of
        [] \<Rightarrow> Some 0
      | c # ds \<Rightarrow>
          if c = CHR ''-'' then (if all_digits ds then Some (- int (digits_value ds)) else None)
          else if all_digits (c # ds) then Some (int (digits_value (c # ds))) else None)"

definition stored_size :: "storage \<Rightarrow> string \<Rightarrow> int \<Rightarrow> int" where
  "stored_size st key dflt =
     (case getText st key of None \<Rightarrow> dflt
      | Some t \<Rightarrow> (case number_text t of Some n \<Rightarrow> (if n = 0 then dflt else n) | None \<Rightarrow> dflt))"

definition bool_text :: "bool \<Rightarrow> string" where
  "bool_text b = (if b then ''true'' else ''false'')"

definition createChatStore :: "platform \<Rightarrow> storage \<Rightarrow> chat_sys" where
  "createChatStore p storage =
     (let key = wsKey (currentSlug p);
          agent = getText storage (key AGENT_STORAGE_KEY);
          (st', drafts, atts) =
            loadDraftSlots storage (key DRAFTS_KEY) (key DRAFT_ATTACHMENTS_KEY) agent
      in \<lparr>plat = p, stored = st', chat =
           \<lparr>isOpen = (getText storage OPEN_KEY = Some ''true''),
            floatingChatEnabled = (getText storage FLOATING_KEY \<noteq> Some ''false''),
            activeSessionId = getText st' (key SESSION_STORAGE_KEY),
            selectedAgentId = agent,
            selectedProjectId = getText st' (key PROJECT_STORAGE_KEY),
            inputDrafts = drafts,
            inputDraftAttachments = atts,
            appliedDraftRestoreIds = readAppliedRestores st' (key APPLIED_RESTORES_KEY),
            pendingSendRestores = readPendingSendRestores st' (key PENDING_SEND_RESTORES_KEY),
            chatWidth = stored_size st' CHAT_WIDTH_KEY CHAT_DEFAULT_W,
            chatHeight = stored_size st' CHAT_HEIGHT_KEY CHAT_DEFAULT_H,
            isExpanded = (getText st' (key CHAT_EXPANDED_KEY) = Some ''true'')\<rparr>\<rparr>)"

section \<open>Panel\<close>

definition setOpen :: "bool \<Rightarrow> chat_sys \<Rightarrow> chat_sys" where
  "setOpen b s = s\<lparr>stored := setText (stored s) OPEN_KEY (bool_text b), chat := (chat s)\<lparr>isOpen := b\<rparr>\<rparr>"

definition toggle :: "chat_sys \<Rightarrow> chat_sys" where
  "toggle s =
     (let b = \<not> isOpen (chat s) in
      s\<lparr>stored := setText (stored s) OPEN_KEY (bool_text b), chat := (chat s)\<lparr>isOpen := b\<rparr>\<rparr>)"

definition setFloatingChatEnabled :: "bool \<Rightarrow> chat_sys \<Rightarrow> chat_sys" where
  "setFloatingChatEnabled enabled s =
     (let st1 = setText (stored s) FLOATING_KEY (bool_text enabled) in
      if enabled then s\<lparr>stored := st1, chat := (chat s)\<lparr>floatingChatEnabled := True\<rparr>\<rparr>
      else s\<lparr>stored := setText st1 OPEN_KEY ''false'',
             chat := (chat s)\<lparr>floatingChatEnabled := False, isOpen := False\<rparr>\<rparr>)"

definition store_id :: "storage \<Rightarrow> string \<Rightarrow> string option \<Rightarrow> storage" where
  "store_id st key ident =
     (case truthy ident of Some t \<Rightarrow> setText st key t | None \<Rightarrow> removeItem st key)"

definition setActiveSession :: "string option \<Rightarrow> chat_sys \<Rightarrow> chat_sys" where
  "setActiveSession ident s =
     s\<lparr>stored := store_id (stored s) (key_in s SESSION_STORAGE_KEY) ident,
       chat := (chat s)\<lparr>activeSessionId := ident\<rparr>\<rparr>"

definition setSelectedAgentId :: "string \<Rightarrow> chat_sys \<Rightarrow> chat_sys" where
  "setSelectedAgentId ident s =
     s\<lparr>stored := setText (stored s) (key_in s AGENT_STORAGE_KEY) ident,
       chat := (chat s)\<lparr>selectedAgentId := Some ident\<rparr>\<rparr>"

definition setSelectedProjectId :: "string option \<Rightarrow> chat_sys \<Rightarrow> chat_sys" where
  "setSelectedProjectId ident s =
     s\<lparr>stored := store_id (stored s) (key_in s PROJECT_STORAGE_KEY) ident,
       chat := (chat s)\<lparr>selectedProjectId := ident\<rparr>\<rparr>"

definition setChatSize :: "int \<Rightarrow> int \<Rightarrow> chat_sys \<Rightarrow> chat_sys" where
  "setChatSize w h s =
     (let st1 = setText (stored s) CHAT_WIDTH_KEY (string_of_int w);
          st2 = setText st1 CHAT_HEIGHT_KEY (string_of_int h);
          st3 = removeItem st2 (key_in s CHAT_EXPANDED_KEY)
      in s\<lparr>stored := st3, chat := (chat s)\<lparr>chatWidth := w, chatHeight := h, isExpanded := False\<rparr>\<rparr>)"

definition setExpanded :: "bool \<Rightarrow> chat_sys \<Rightarrow> chat_sys" where
  "setExpanded expanded s =
     s\<lparr>stored := (if expanded then setText (stored s) (key_in s CHAT_EXPANDED_KEY) ''true''
              else removeItem (stored s) (key_in s CHAT_EXPANDED_KEY)),
       chat := (chat s)\<lparr>isExpanded := expanded\<rparr>\<rparr>"

section \<open>Restores\<close>

definition set_applied :: "string list \<Rightarrow> chat_sys \<Rightarrow> chat_sys" where
  "set_applied ids s =
     s\<lparr>stored := writeAppliedRestores (stored s) (key_in s APPLIED_RESTORES_KEY) ids,
       chat := (chat s)\<lparr>appliedDraftRestoreIds := ids\<rparr>\<rparr>"

definition markDraftRestoreApplied :: "string \<Rightarrow> chat_sys \<Rightarrow> chat_sys" where
  "markDraftRestoreApplied restoreId s =
     (let current = appliedDraftRestoreIds (chat s) in
      if restoreId \<in> set current then s else set_applied (current @ [restoreId]) s)"

definition forgetDraftRestoreApplied :: "string \<Rightarrow> chat_sys \<Rightarrow> chat_sys" where
  "forgetDraftRestoreApplied restoreId s =
     (let current = appliedDraftRestoreIds (chat s) in
      if restoreId \<notin> set current then s
      else set_applied (filter (\<lambda>i. i \<noteq> restoreId) current) s)"

definition set_pending :: "js list obj \<Rightarrow> chat_sys \<Rightarrow> chat_sys" where
  "set_pending queues s =
     s\<lparr>stored := writePendingSendRestores (stored s) (key_in s PENDING_SEND_RESTORES_KEY) queues,
       chat := (chat s)\<lparr>pendingSendRestores := queues\<rparr>\<rparr>"

text \<open>A restore is an object with strings \<open>id\<close>, \<open>content\<close> and \<open>sessionId\<close>.\<close>

definition str_prop :: "js \<Rightarrow> string \<Rightarrow> string" where
  "str_prop v k = (case get_prop v k of JStr s \<Rightarrow> s | _ \<Rightarrow> [])"

definition enqueuePendingSendRestore :: "js \<Rightarrow> chat_sys \<Rightarrow> chat_sys" where
  "enqueuePendingSendRestore restore s =
     (let sid = str_prop restore ''sessionId'' in
      if sid = [] \<or> str_prop restore ''id'' = [] then s
      else
        (let current = pendingSendRestores (chat s);
             existing = default_to [] (obj_get current sid)
         in if list_ex (\<lambda>r. get_prop r ''id'' = get_prop restore ''id'') existing then s
            else set_pending (obj_set current sid (existing @ [restore])) s))"

definition set_or_delete :: "js list obj \<Rightarrow> string \<Rightarrow> js list \<Rightarrow> js list obj" where
  "set_or_delete ob k vs = (if vs \<noteq> [] then obj_set ob k vs else obj_delete ob k)"

definition dequeuePendingSendRestore :: "string \<Rightarrow> string \<Rightarrow> chat_sys \<Rightarrow> chat_sys" where
  "dequeuePendingSendRestore sessionId restoreId s =
     (let current = pendingSendRestores (chat s);
          existing = default_to [] (obj_get current sessionId)
      in if \<not> list_ex (\<lambda>r. get_prop r ''id'' = JStr restoreId) existing then s
         else set_pending (set_or_delete current sessionId
                (filter (\<lambda>r. get_prop r ''id'' \<noteq> JStr restoreId) existing)) s)"

section \<open>Drafts\<close>

definition set_drafts :: "js obj \<Rightarrow> chat_sys \<Rightarrow> chat_sys" where
  "set_drafts drafts s =
     s\<lparr>stored := writeDrafts (stored s) (key_in s DRAFTS_KEY) drafts,
       chat := (chat s)\<lparr>inputDrafts := drafts\<rparr>\<rparr>"

definition setInputDraft :: "string \<Rightarrow> string \<Rightarrow> chat_sys \<Rightarrow> chat_sys" where
  "setInputDraft sessionId draft s =
     set_drafts (obj_set (inputDrafts (chat s)) sessionId (JStr draft)) s"

text \<open>A draft that is not a string has no \<open>trim\<close>.\<close>

definition draft_text :: "js obj \<Rightarrow> string \<Rightarrow> string js_result" where
  "draft_text drafts sessionId =
     (case obj_get drafts sessionId of
        None \<Rightarrow> Inr []
      | Some JNull \<Rightarrow> Inr []
      | Some JUndef \<Rightarrow> Inr []
      | Some (JStr t) \<Rightarrow> Inr t
      | Some _ \<Rightarrow> Inl TypeError)"

definition appendToInputDraft :: "string \<Rightarrow> string \<Rightarrow> chat_sys \<Rightarrow> chat_sys js_result" where
  "appendToInputDraft sessionId markdown s =
     (case draft_text (inputDrafts (chat s)) sessionId of
        Inl e \<Rightarrow> Inl e
      | Inr existing \<Rightarrow>
          (let nl = char_of (10 :: nat);
               draft = (if trim existing \<noteq> [] then trim_end existing @ [nl, nl] @ markdown else markdown)
           in Inr (set_drafts (obj_set (inputDrafts (chat s)) sessionId (JStr draft)) s)))"

section \<open>Uploads\<close>

definition set_uploads :: "js list obj \<Rightarrow> chat_sys \<Rightarrow> chat_sys" where
  "set_uploads slots s =
     s\<lparr>stored := writeDraftAttachments (stored s) (key_in s DRAFT_ATTACHMENTS_KEY) slots,
       chat := (chat s)\<lparr>inputDraftAttachments := slots\<rparr>\<rparr>"

definition uploads_of :: "chat_sys \<Rightarrow> string \<Rightarrow> js list" where
  "uploads_of s sessionId = default_to [] (obj_get (inputDraftAttachments (chat s)) sessionId)"

definition setInputDraftAttachments :: "string \<Rightarrow> js list \<Rightarrow> chat_sys \<Rightarrow> chat_sys" where
  "setInputDraftAttachments sessionId uploads s =
     set_uploads (set_or_delete (inputDraftAttachments (chat s)) sessionId uploads) s"

definition same_attachment :: "js \<Rightarrow> js \<Rightarrow> bool" where
  "same_attachment attachment u \<longleftrightarrow> status_of u = JStr ''uploaded'' \<and>
     get_prop (attachment_of u) ''id'' = get_prop attachment ''id''"

definition addInputDraftAttachment :: "string \<Rightarrow> js \<Rightarrow> chat_sys \<Rightarrow> chat_sys" where
  "addInputDraftAttachment sessionId attachment s =
     (if \<not> js_truthy (get_prop attachment ''id'') then s
      else
        (let existing = uploads_of s sessionId;
             wrapped = attachmentToDraftUpload attachment;
             nextForKey =
               (if list_ex (same_attachment attachment) existing
                then map (\<lambda>u. if same_attachment attachment u then wrapped else u) existing
                else existing @ [wrapped])
         in set_uploads (obj_set (inputDraftAttachments (chat s)) sessionId nextForKey) s))"

definition addInputDraftUpload :: "string \<Rightarrow> js \<Rightarrow> chat_sys \<Rightarrow> chat_sys" where
  "addInputDraftUpload sessionId upload s =
     (let existing = uploads_of s sessionId in
      if list_ex (\<lambda>u. clientUploadId u = clientUploadId upload) existing then s
      else set_uploads (obj_set (inputDraftAttachments (chat s)) sessionId (existing @ [upload])) s)"

definition replace_upload :: "string \<Rightarrow> (js \<Rightarrow> js) \<Rightarrow> js list \<Rightarrow> js list" where
  "replace_upload uid f us = map (\<lambda>u. if clientUploadId u = JStr uid then f u else u) us"

definition settled_upload :: "string \<Rightarrow> js \<Rightarrow> js" where
  "settled_upload uid attachment =
     JObj (obj_set (members (attachmentToDraftUpload attachment)) ''clientUploadId'' (JStr uid))"

definition settleInputDraftUpload :: "string \<Rightarrow> string \<Rightarrow> js \<Rightarrow> chat_sys \<Rightarrow> chat_sys" where
  "settleInputDraftUpload sessionId uid attachment s =
     (let existing = uploads_of s sessionId in
      if \<not> list_ex (\<lambda>u. clientUploadId u = JStr uid) existing then s
      else set_uploads (obj_set (inputDraftAttachments (chat s)) sessionId
             (replace_upload uid (\<lambda>_. settled_upload uid attachment) existing)) s)"

definition failed_upload :: "string \<Rightarrow> js \<Rightarrow> js \<Rightarrow> js" where
  "failed_upload uid error target = JObj
     [(''clientUploadId'', JStr uid), (''status'', JStr ''failed''),
      (''filename'', get_prop target ''filename''), (''size'', get_prop target ''size''),
      (''contentType'', get_prop target ''contentType''), (''error'', error)]"

definition failInputDraftUpload :: "string \<Rightarrow> string \<Rightarrow> js \<Rightarrow> chat_sys \<Rightarrow> chat_sys" where
  "failInputDraftUpload sessionId uid error s =
     (let existing = uploads_of s sessionId in
      case find (\<lambda>u. clientUploadId u = JStr uid) existing of
        None \<Rightarrow> s
      | Some target \<Rightarrow>
          set_uploads (obj_set (inputDraftAttachments (chat s)) sessionId
            (replace_upload uid (\<lambda>_. failed_upload uid error target) existing)) s)"

definition removeInputDraftUpload :: "string \<Rightarrow> string \<Rightarrow> chat_sys \<Rightarrow> chat_sys" where
  "removeInputDraftUpload sessionId uid s =
     (let existing = uploads_of s sessionId in
      if \<not> list_ex (\<lambda>u. clientUploadId u = JStr uid) existing then s
      else set_uploads (set_or_delete (inputDraftAttachments (chat s)) sessionId
             (filter (\<lambda>u. clientUploadId u \<noteq> JStr uid) existing)) s)"

definition clearInputDraft :: "string \<Rightarrow> chat_sys \<Rightarrow> chat_sys" where
  "clearInputDraft sessionId s =
     (if obj_get (inputDrafts (chat s)) sessionId = None \<and>
         obj_get (inputDraftAttachments (chat s)) sessionId = None then s
      else set_uploads (obj_delete (inputDraftAttachments (chat s)) sessionId)
             (set_drafts (obj_delete (inputDrafts (chat s)) sessionId) s))"

section \<open>Workspace switches and logout\<close>

definition rehydrate :: "chat_sys \<Rightarrow> chat_sys" where
  "rehydrate s =
     (let agent = getText (stored s) (key_in s AGENT_STORAGE_KEY);
          session = getText (stored s) (key_in s SESSION_STORAGE_KEY);
          project = getText (stored s) (key_in s PROJECT_STORAGE_KEY);
          (st', drafts, atts) =
            loadDraftSlots (stored s) (key_in s DRAFTS_KEY) (key_in s DRAFT_ATTACHMENTS_KEY) agent
      in s\<lparr>stored := st', chat := (chat s)
           \<lparr>activeSessionId := session, selectedAgentId := agent, selectedProjectId := project,
            inputDrafts := drafts, inputDraftAttachments := atts,
            appliedDraftRestoreIds := readAppliedRestores st' (key_in s APPLIED_RESTORES_KEY),
            pendingSendRestores := readPendingSendRestores st' (key_in s PENDING_SEND_RESTORES_KEY)\<rparr>\<rparr>)"

definition switch_workspace :: "string option \<Rightarrow> string option \<Rightarrow> chat_sys \<Rightarrow> chat_sys" where
  "switch_workspace slug wsId s = s\<lparr>plat := setCurrentWorkspace slug wsId (plat s)\<rparr>"

text \<open>The microtasks: the subscribers are told the slug, the registered stores rehydrate.\<close>

definition run_microtasks :: "chat_sys \<Rightarrow> chat_sys" where
  "run_microtasks s =
     (let s1 = s\<lparr>plat := (plat s)\<lparr>pendingNotify := False\<rparr>\<rparr>
      in if pendingRehydrate (plat s1)
         then rehydrate (s1\<lparr>plat := (plat s1)\<lparr>pendingRehydrate := False\<rparr>\<rparr>)
         else s1)"

definition chat_cleanup_entries :: "cleanup_entry obj" where
  "chat_cleanup_entries = foldl (\<lambda>es k. registerDraftCleanup \<lparr>storageKey = k, workspaceScoped = True\<rparr> es) []
     [DRAFTS_KEY, DRAFT_ATTACHMENTS_KEY, APPLIED_RESTORES_KEY, PENDING_SEND_RESTORES_KEY]"

definition resetInMemory :: "chat_sys \<Rightarrow> chat_sys" where
  "resetInMemory s = s\<lparr>chat := (chat s)\<lparr>inputDrafts := [], inputDraftAttachments := [],
     appliedDraftRestoreIds := [], pendingSendRestores := []\<rparr>\<rparr>"

end
