(* ===== verification/Chat_Facts.thy ===== *)
theory Chat_Facts
  imports Chat_Store
begin

text \<open>
  What reading the storage gives after a write: per slice of the chat state, the round trip of
  one slot, and that a write under one key leaves the others alone.
\<close>

named_theorems chat_simps \<open>lookups after a write of one of the chat store's keys\<close>

section \<open>Keys\<close>

lemmas chat_keys = AGENT_STORAGE_KEY_def PROJECT_STORAGE_KEY_def SESSION_STORAGE_KEY_def DRAFTS_KEY_def
  DRAFT_ATTACHMENTS_KEY_def APPLIED_RESTORES_KEY_def PENDING_SEND_RESTORES_KEY_def CHAT_EXPANDED_KEY_def
  CHAT_WIDTH_KEY_def CHAT_HEIGHT_KEY_def OPEN_KEY_def FLOATING_KEY_def

definition workspace_keys :: "string list" where
  "workspace_keys = [AGENT_STORAGE_KEY, PROJECT_STORAGE_KEY, SESSION_STORAGE_KEY, DRAFTS_KEY,
     DRAFT_ATTACHMENTS_KEY, APPLIED_RESTORES_KEY, PENDING_SEND_RESTORES_KEY, CHAT_EXPANDED_KEY]"

definition global_keys :: "string list" where
  "global_keys = [OPEN_KEY, FLOATING_KEY, CHAT_WIDTH_KEY, CHAT_HEIGHT_KEY]"

lemma wsKey_eq [simp]: "wsKey slug a = wsKey slug b \<longleftrightarrow> a = b"
  by (auto simp: wsKey_def slug_key_def split: option.splits)

lemma wsKey_global:
  assumes "a \<in> set workspace_keys" and "g \<in> set global_keys"
  shows "wsKey slug a \<noteq> g"
proof (cases "truthy slug")
  case None
  then show ?thesis using assms
    by (auto simp: wsKey_def workspace_keys_def global_keys_def chat_keys)
next
  case (Some s)
  then show ?thesis using assms
    by (auto simp: wsKey_def slug_key_def workspace_keys_def global_keys_def chat_keys)
qed

lemma distinct_keys: "distinct (workspace_keys @ global_keys)"
  by (simp add: workspace_keys_def global_keys_def chat_keys)

section \<open>One key\<close>

lemma stored_value_set: "stored_value (setItem st k (JSON_stringify v)) j =
    (if j = k then Some (json_value v) else stored_value st j)"
  by (simp add: stored_value_def adapter.lookup_store)

lemma stored_value_text: "j \<noteq> k \<Longrightarrow> stored_value (setText st k t) j = stored_value st j"
  by (simp add: stored_value_def setText_def adapter.lookup_store)

lemma stored_value_remove: "stored_value (removeItem st k) j = (if j = k then None else stored_value st j)"
  by (simp add: stored_value_def adapter.lookup_remove)

lemma getText_set: "getText (setText st k t) j = (if j = k then Some t else getText st j)"
  by (simp add: getText_def setText_def adapter.lookup_store)

lemma getText_remove: "getText (removeItem st k) j = (if j = k then None else getText st j)"
  by (simp add: getText_def adapter.lookup_remove)

lemma getText_item: "j \<noteq> k \<Longrightarrow> getText (setItem st k v) j = getText st j"
  by (simp add: getText_def adapter.lookup_store)

lemma stored_value_write: "stored_value (write_object st k ob) j =
    (if j = k then (if ob = [] then None else Some (json_value (JObj ob))) else stored_value st j)"
  by (simp add: write_object_def stored_value_set stored_value_remove)

lemma getText_write: "j \<noteq> k \<Longrightarrow> getText (write_object st k ob) j = getText st j"
  by (simp add: write_object_def getText_item getText_remove)

lemma stored_value_store_id: "j \<noteq> k \<Longrightarrow> stored_value (store_id st k i) j = stored_value st j"
  by (simp add: store_id_def stored_value_text stored_value_remove split: option.splits)

lemma getText_store_id: "getText (store_id st k i) j = (if j = k then truthy i else getText st j)"
  by (simp add: store_id_def getText_set getText_remove split: option.splits)

lemmas write_defs = writeDrafts_def writeDraftAttachments_def write_arrays_def
  writePendingSendRestores_def writeAppliedRestores_def

lemmas other_key = stored_value_set stored_value_text stored_value_remove getText_set getText_remove
  getText_item stored_value_write getText_write stored_value_store_id getText_store_id

section \<open>Drafts\<close>

lemma obj_get_filter:
  assumes "obj_wf ob"
  shows "obj_get (filter (\<lambda>(k, v). P v) ob) k =
    (case obj_get ob k of Some v \<Rightarrow> if P v then Some v else None | None \<Rightarrow> None)"
  using assms
proof (induction ob)
  case (Cons p ob)
  obtain j v where p: "p = (j, v)" by (cases p)
  then have "obj_wf ob" "obj_get ob j = None"
    using Cons.prems by (auto simp: obj_wf_def map_of_eq_None_iff)
  then show ?case using Cons.IH p by (auto split: option.splits)
qed simp

lemma obj_wf_filter: "obj_wf ob \<Longrightarrow> obj_wf (filter P ob)"
  unfolding obj_wf_def by (simp add: distinct_map_filter)

lemma members_json:
  "obj_get (members (json_value (JObj ob))) k =
     (if obj_get ob k = Some JUndef then None else map_option json_value (obj_get ob k))"
  by (simp only: json_value.simps members.simps json_value_obj_get)

definition draft_view :: "js obj \<Rightarrow> string \<Rightarrow> js option" where
  "draft_view drafts k =
     (case map_option json_value (obj_get drafts k) of
        Some v \<Rightarrow> if js_truthy v then Some v else None
      | None \<Rightarrow> None)"

lemma truthy_json: "js_truthy (json_value v) \<Longrightarrow> js_truthy v"
  by (cases v) (auto simp: js_truthy_def)

lemma readDrafts_writeDrafts:
  assumes "obj_wf drafts"
  shows "draft_view (readDrafts (writeDrafts st key drafts) key) = draft_view drafts"
proof
  fix k
  define p where "p = filter (\<lambda>(k, v). js_truthy v) (obj_entries drafts)"
  have p: "obj_get p k = (case obj_get drafts k of Some v \<Rightarrow> if js_truthy v then Some v else None | None \<Rightarrow> None)"
    using assms by (simp add: p_def obj_get_filter obj_get_entries)
  have undef: "obj_get p k \<noteq> Some JUndef" using p by (auto simp: js_truthy_def split: option.splits if_splits)
  have "stored_value (writeDrafts st key drafts) key = (if p = [] then None else Some (json_value (JObj p)))"
    by (simp only: writeDrafts_def stored_value_write p_def simp_thms if_True)
  then have "obj_get (readDrafts (writeDrafts st key drafts) key) k =
      (if p = [] then None else obj_get (members (json_value (JObj p))) k)"
    by (cases "p = []") (simp_all only: readDrafts_def option.case simp_thms if_True if_False map_of.simps)
  also have "\<dots> = map_option json_value (obj_get p k)" using undef by (simp only: members_json) simp
  finally show "draft_view (readDrafts (writeDrafts st key drafts) key) k = draft_view drafts k"
    using p truthy_json by (auto simp: draft_view_def split: option.splits if_splits)
qed

section \<open>Slots of arrays\<close>

lemma collect_arrays_get:
  "obj_wf (members v) \<Longrightarrow> obj_get (collect_arrays f v) k =
    (case obj_get (members v) k of
       Some x \<Rightarrow> if is_array x \<and> f x \<noteq> [] then Some (f x) else None
     | None \<Rightarrow> None)"
  unfolding collect_arrays_def by (rule obj_collect_get)

lemma obj_wf_collect: "obj_wf (collect_arrays f v)"
  unfolding collect_arrays_def by (rule obj_collect_wf)

lemma obj_wf_json: "obj_wf ob \<Longrightarrow> obj_wf (members (json_value (JObj ob)))"
proof -
  assume "obj_wf ob"
  then have wf: "obj_wf (filter (\<lambda>(k, v). obj_get ob k \<noteq> Some JUndef) ob)" by (rule obj_wf_filter)
  have eq: "map fst (map (\<lambda>(k, v). (k, json_value v)) xs) = map fst xs" for xs
    by (induction xs) auto
  show ?thesis using wf unfolding obj_wf_def members.simps json_value.simps eq .
qed

text \<open>
  A slice whose slots are arrays: \<open>f\<close> normalizes the array of a slot when it is read, and
  normalizing what was normalized and stored changes nothing but the text form.
\<close>

locale array_slice =
  fixes f :: "js \<Rightarrow> js list"
  assumes f_empty: "f (JArr []) = []"
    and f_stable: "f (json_value (JArr (f (json_value (JArr vs))))) = map json_value (f (json_value (JArr vs)))"
begin

definition slot_view :: "js list obj \<Rightarrow> string \<Rightarrow> js list option" where
  "slot_view slots k =
     (case obj_get slots k of
        Some vs \<Rightarrow> (let n = f (json_value (JArr vs)) in if n = [] then None else Some (map json_value n))
      | None \<Rightarrow> None)"

definition read_slots :: "storage \<Rightarrow> string \<Rightarrow> js list obj" where
  "read_slots st key = (case stored_value st key of None \<Rightarrow> [] | Some parsed \<Rightarrow> collect_arrays f parsed)"

lemma read_write:
  assumes "obj_wf slots"
  shows "obj_get (read_slots (write_arrays st key slots) key) k =
    (case obj_get slots k of
       Some vs \<Rightarrow> (let n = f (json_value (JArr vs)) in if n = [] then None else Some n)
     | None \<Rightarrow> None)"
proof -
  let ?q = "filter (\<lambda>(k, vs). vs \<noteq> []) (obj_entries slots)"
  let ?p = "map (\<lambda>(k, vs). (k, JArr vs)) ?q"
  have q: "obj_get ?q k = (case obj_get slots k of Some v \<Rightarrow> if v \<noteq> [] then Some v else None | None \<Rightarrow> None)"
    using assms by (simp add: obj_get_filter obj_get_entries)
  have p: "obj_get ?p k = map_option JArr (obj_get ?q k)" for k by (simp add: map_of_map)
  have wf: "obj_wf ?p"
  proof -
    have "obj_wf ?q" using assms by (intro obj_wf_filter) simp
    moreover have "map fst ?p = map fst ?q" by (simp add: comp_def split_beta)
    ultimately show ?thesis by (simp only: obj_wf_def)
  qed
  have mem: "obj_get (members (json_value (JObj ?p))) k = map_option (\<lambda>vs. json_value (JArr vs)) (obj_get ?q k)"
    unfolding members_json p by (cases "obj_get ?q k") simp_all
  have "obj_get (read_slots (write_arrays st key slots) key) k =
      (if ?p = [] then None else obj_get (collect_arrays f (json_value (JObj ?p))) k)"
    by (simp only: read_slots_def write_arrays_def stored_value_write if_True) simp
  also have "\<dots> = (if ?p = [] then None else
      (case obj_get ?q k of Some vs \<Rightarrow> (let n = f (json_value (JArr vs)) in if n = [] then None else Some n)
       | None \<Rightarrow> None))"
    unfolding collect_arrays_get [OF obj_wf_json [OF wf]] mem
    by (cases "obj_get ?q k") (simp_all add: Let_def)
  also have "\<dots> = (case obj_get slots k of
       Some vs \<Rightarrow> (let n = f (json_value (JArr vs)) in if n = [] then None else Some n)
     | None \<Rightarrow> None)"
  proof (cases "obj_get slots k")
    case None
    then show ?thesis using q by simp
  next
    case (Some vs)
    show ?thesis
    proof (cases "vs = []")
      case True
      then show ?thesis using q Some f_empty by (simp add: Let_def)
    next
      case False
      then have "obj_get ?q k = Some vs" using q Some by simp
      moreover from this have "?p \<noteq> []" by auto
      ultimately show ?thesis using Some by simp
    qed
  qed
  finally show ?thesis .
qed

lemma view_read_write:
  assumes "obj_wf slots"
  shows "slot_view (read_slots (write_arrays st key slots) key) = slot_view slots"
proof
  fix k
  show "slot_view (read_slots (write_arrays st key slots) key) k = slot_view slots k"
    using read_write [OF assms, of st key k] f_stable
    by (auto simp: slot_view_def Let_def comp_def simp del: json_value.simps split: option.splits)
qed

end

section \<open>The two slices\<close>

interpretation uploads: array_slice normalizeStoredUploads
proof
  show "normalizeStoredUploads (JArr []) = []" by (simp add: normalizeStoredUploads_def)
  show "normalizeStoredUploads (json_value (JArr (normalizeStoredUploads (json_value (JArr vs))))) =
      map json_value (normalizeStoredUploads (json_value (JArr vs)))" for vs
    by (rule normalize_stored [OF normalize_normal])
qed

lemma pending_iff: "isPendingSendRestore v \<longleftrightarrow> is_string (get_prop v ''id'') \<and>
    is_string (get_prop v ''content'') \<and> is_string (get_prop v ''sessionId'')"
  using string_is_object by (auto simp: isPendingSendRestore_def)

lemma attachment_draft_iff: "isAttachmentDraft v \<longleftrightarrow> is_string (get_prop v ''id'') \<and>
    is_string (get_prop v ''filename'')"
  using string_is_object by (auto simp: isAttachmentDraft_def)

lemma filter_attachment_json:
  "filter isAttachmentDraft (map (\<lambda>v. null_for (json_value v)) (filter isAttachmentDraft vs)) =
     map (\<lambda>v. null_for (json_value v)) (filter isAttachmentDraft vs)"
proof -
  have "isAttachmentDraft (null_for (json_value v)) = isAttachmentDraft v" for v
    by (cases "v = JUndef") (simp_all add: attachment_draft_iff null_for_def)
  then show ?thesis by (simp add: filter_id_conv)
qed

lemma restore_attachments_json:
  "restore_attachments (json_value (restore_attachments r)) = json_value (restore_attachments r)"
proof -
  define atts where "atts = (case get_prop r ''attachments'' of
      JArr atts \<Rightarrow> filter isAttachmentDraft atts | _ \<Rightarrow> [])"
  have atts: "filter isAttachmentDraft (map (\<lambda>v. null_for (json_value v)) atts) =
      map (\<lambda>v. null_for (json_value v)) atts"
    unfolding atts_def by (cases "get_prop r ''attachments''") (simp_all add: filter_attachment_json)
  let ?ob = "obj_set (members r) ''attachments'' (JArr atts)"
  have r: "restore_attachments r = JObj ?ob"
    unfolding restore_attachments_def atts_def by (cases "get_prop r ''attachments''") simp_all
  obtain ob' where ob': "json_value (JObj ?ob) = JObj ob'" by simp
  have g: "get_prop (JObj ob') ''attachments'' = JArr (map (\<lambda>v. null_for (json_value v)) atts)"
    unfolding ob' [symmetric] get_prop_json by (simp add: obj_simps)
  then have "obj_get ob' ''attachments'' = Some (JArr (map (\<lambda>v. null_for (json_value v)) atts))"
    by (auto split: option.splits)
  then have "obj_set ob' ''attachments'' (JArr (map (\<lambda>v. null_for (json_value v)) atts)) = ob'"
    by (rule update_triv)
  then have "restore_attachments (JObj ob') = JObj ob'"
    by (simp only: restore_attachments_def g js.case atts members.simps)
  then show ?thesis by (simp only: r ob')
qed

lemma restore_pending: "isPendingSendRestore r \<Longrightarrow> isPendingSendRestore (restore_attachments r)"
proof -
  assume r: "isPendingSendRestore r"
  then obtain ob where "r = JObj ob" by (cases r) (auto simp: pending_iff)
  then show ?thesis using r by (simp add: pending_iff restore_attachments_def obj_simps)
qed

interpretation queues: array_slice normalize_queue
proof
  show "normalize_queue (JArr []) = []" by (simp add: normalize_queue_def)
  fix vs
  define rs where "rs = normalize_queue (json_value (JArr vs))"
  have rs: "\<exists>r0. isPendingSendRestore r0 \<and> r = restore_attachments r0" if "r \<in> set rs" for r
    using that unfolding rs_def by (auto simp: normalize_queue_def)
  have p: "isPendingSendRestore (json_value r)" if "r \<in> set rs" for r
    using rs [OF that] restore_pending by (auto simp: pending_iff)
  have nn: "null_for (json_value r) = json_value r" if "r \<in> set rs" for r
    using p [OF that] by (auto simp: null_for_def pending_iff)
  have fx: "restore_attachments (json_value r) = json_value r" if "r \<in> set rs" for r
    using rs [OF that] restore_attachments_json by blast
  have 1: "map (\<lambda>v. null_for (json_value v)) rs = map json_value rs"
    using nn by (intro map_cong) simp_all
  have 2: "filter isPendingSendRestore (map json_value rs) = map json_value rs"
    using p by (simp add: filter_id_conv)
  have 3: "map restore_attachments (map json_value rs) = map json_value rs"
    using fx by simp
  have "normalize_queue (json_value (JArr rs)) = map json_value rs"
    by (simp only: json_value.simps normalize_queue_def js.case 1 2 3)
  then show "normalize_queue (json_value (JArr (normalize_queue (json_value (JArr vs))))) =
      map json_value (normalize_queue (json_value (JArr vs)))" by (simp only: rs_def)
qed

lemma readDraftAttachments_eq: "readDraftAttachments = uploads.read_slots"
  by (intro ext) (simp add: readDraftAttachments_def uploads.read_slots_def)

lemma readPendingSendRestores_eq: "readPendingSendRestores = queues.read_slots"
  by (intro ext) (simp add: readPendingSendRestores_def queues.read_slots_def)

section \<open>The ledger\<close>

lemma string_values_JStr [simp]: "string_values (map JStr ss) = ss"
  by (induction ss) auto

lemma readApplied_writeApplied: "readAppliedRestores (writeAppliedRestores st key ids) key = ids"
proof (cases "ids = []")
  case True
  then show ?thesis by (simp add: writeAppliedRestores_def readAppliedRestores_def stored_value_remove)
next
  case False
  have "map (\<lambda>v. null_for (json_value v)) (map JStr ids) = map JStr ids" by (simp add: null_for_def)
  then show ?thesis using False
    by (simp only: writeAppliedRestores_def readAppliedRestores_def stored_value_set if_False if_True
        simp_thms json_value.simps option.case js.case string_values_JStr)
qed

end
