(* ===== verification/Chat_Sync.thy ===== *)
theory Chat_Sync
  imports Chat_Facts
begin

text \<open>
  The chat store stays in step with the storage: whatever the user does, a reload reads back
  what is in memory, up to empty drafts and uploads that were still running.
\<close>

section \<open>Memory and storage\<close>

definition docs_wf :: "storage \<Rightarrow> bool" where
  "docs_wf st \<longleftrightarrow> (\<forall>k v. stored_value st k = Some v \<longrightarrow> obj_wf (members v))"

definition chat_ok :: "chat_sys \<Rightarrow> bool" where
  "chat_ok s \<longleftrightarrow> docs_wf (stored s) \<and> obj_wf (inputDrafts (chat s)) \<and>
     obj_wf (inputDraftAttachments (chat s)) \<and> obj_wf (pendingSendRestores (chat s))"

text \<open>What a state shows to the user of its persisted parts.\<close>

record chat_view =
  v_drafts :: "string \<Rightarrow> js option"
  v_uploads :: "string \<Rightarrow> js list option"
  v_queues :: "string \<Rightarrow> js list option"
  v_applied :: "string list"
  v_agent :: "string option"
  v_session :: "string option"
  v_project :: "string option"
  v_open :: bool
  v_floating :: bool

definition view_of :: "chat_state \<Rightarrow> chat_view" where
  "view_of c =
     \<lparr>v_drafts = draft_view (inputDrafts c),
      v_uploads = uploads.slot_view (inputDraftAttachments c),
      v_queues = queues.slot_view (pendingSendRestores c),
      v_applied = appliedDraftRestoreIds c, v_agent = selectedAgentId c,
      v_session = truthy (activeSessionId c), v_project = truthy (selectedProjectId c),
      v_open = isOpen c, v_floating = floatingChatEnabled c\<rparr>"

definition stored_view :: "string option \<Rightarrow> storage \<Rightarrow> chat_view" where
  "stored_view slug st =
     \<lparr>v_drafts = draft_view (readDrafts st (wsKey slug DRAFTS_KEY)),
      v_uploads = uploads.slot_view (readDraftAttachments st (wsKey slug DRAFT_ATTACHMENTS_KEY)),
      v_queues = queues.slot_view (readPendingSendRestores st (wsKey slug PENDING_SEND_RESTORES_KEY)),
      v_applied = readAppliedRestores st (wsKey slug APPLIED_RESTORES_KEY),
      v_agent = getText st (wsKey slug AGENT_STORAGE_KEY),
      v_session = truthy (getText st (wsKey slug SESSION_STORAGE_KEY)),
      v_project = truthy (getText st (wsKey slug PROJECT_STORAGE_KEY)),
      v_open = (getText st OPEN_KEY = Some ''true''),
      v_floating = (getText st FLOATING_KEY \<noteq> Some ''false'')\<rparr>"

definition in_sync :: "chat_sys \<Rightarrow> bool" where
  "in_sync s \<longleftrightarrow> chat_ok s \<and> view_of (chat s) = stored_view (slug_of s) (stored s)"

section \<open>Every write keeps them in step\<close>

lemma distinct_keys_rev: "distinct (rev (workspace_keys @ global_keys))"
  using distinct_keys by (simp only: distinct_rev)

lemmas keys_apart = distinct_keys [unfolded workspace_keys_def global_keys_def, simplified]
  distinct_keys_rev [unfolded workspace_keys_def global_keys_def, simplified]

lemma key_in_eq: "key_in s a = wsKey (slug_of s) a"
  by (simp add: key_in_def)

lemma global_apart:
  "a \<in> set workspace_keys \<Longrightarrow> wsKey slug a \<noteq> OPEN_KEY" "a \<in> set workspace_keys \<Longrightarrow> wsKey slug a \<noteq> FLOATING_KEY"
  "a \<in> set workspace_keys \<Longrightarrow> wsKey slug a \<noteq> CHAT_WIDTH_KEY" "a \<in> set workspace_keys \<Longrightarrow> wsKey slug a \<noteq> CHAT_HEIGHT_KEY"
  by (simp_all add: wsKey_global global_keys_def)

lemma in_workspace_keys:
  "AGENT_STORAGE_KEY \<in> set workspace_keys" "PROJECT_STORAGE_KEY \<in> set workspace_keys"
  "SESSION_STORAGE_KEY \<in> set workspace_keys" "DRAFTS_KEY \<in> set workspace_keys"
  "DRAFT_ATTACHMENTS_KEY \<in> set workspace_keys" "APPLIED_RESTORES_KEY \<in> set workspace_keys"
  "PENDING_SEND_RESTORES_KEY \<in> set workspace_keys" "CHAT_EXPANDED_KEY \<in> set workspace_keys"
  by (simp_all add: workspace_keys_def)

lemma sync_keys:
  "wsKey slug a = wsKey slug b \<longleftrightarrow> a = b"
  "a \<in> set workspace_keys \<Longrightarrow> g \<in> set global_keys \<Longrightarrow> wsKey slug a = g \<longleftrightarrow> False"
  "a \<in> set workspace_keys \<Longrightarrow> g \<in> set global_keys \<Longrightarrow> g = wsKey slug a \<longleftrightarrow> False"
  using wsKey_global by auto

lemma in_global_keys:
  "OPEN_KEY \<in> set global_keys" "FLOATING_KEY \<in> set global_keys"
  "CHAT_WIDTH_KEY \<in> set global_keys" "CHAT_HEIGHT_KEY \<in> set global_keys"
  by (simp_all add: global_keys_def)

lemma slug_of_update [simp]:
  "slug_of (s\<lparr>stored := a\<rparr>) = slug_of s" "slug_of (s\<lparr>chat := c\<rparr>) = slug_of s"
  by (simp_all add: slug_of_def)

lemma docs_wf_write: "docs_wf st \<Longrightarrow> obj_wf ob \<Longrightarrow> docs_wf (write_object st k ob)"
  by (simp add: docs_wf_def stored_value_write obj_wf_json del: json_value.simps)

lemma string_of_nat_inj: "string_of_nat a = string_of_nat b \<Longrightarrow> a = b"
  by (metis string_of_nat_value)

lemma array_members_wf: "obj_wf (members (JArr vs))"
proof -
  have "distinct (map string_of_nat [0..<length vs])"
    by (simp add: distinct_map inj_on_def string_of_nat_inj)
  moreover have "map fst (members (JArr vs)) = map string_of_nat [0..<length vs]" by simp
  ultimately show ?thesis by (simp only: obj_wf_def)
qed

lemma docs_wf_applied: "docs_wf st \<Longrightarrow> docs_wf (writeAppliedRestores st k ids)"
  using array_members_wf
  by (simp add: docs_wf_def writeAppliedRestores_def stored_value_set stored_value_remove del: members.simps)

lemma docs_wf_text: "docs_wf st \<Longrightarrow> docs_wf (setText st k t)"
  by (simp add: docs_wf_def stored_value_def setText_def adapter.lookup_store)

lemma docs_wf_remove: "docs_wf st \<Longrightarrow> docs_wf (removeItem st k)"
  by (simp add: docs_wf_def stored_value_remove)

lemma docs_wf_id: "docs_wf st \<Longrightarrow> docs_wf (store_id st k i)"
  by (simp add: store_id_def docs_wf_text docs_wf_remove split: option.splits)

lemma docs_wf_drafts: "docs_wf st \<Longrightarrow> obj_wf ob \<Longrightarrow> docs_wf (writeDrafts st k ob)"
  by (simp add: writeDrafts_def docs_wf_write obj_wf_filter)

lemma docs_wf_arrays:
  assumes "docs_wf st" and "obj_wf ob"
  shows "docs_wf (write_arrays st k ob)"
proof -
  let ?q = "filter (\<lambda>(k, vs). vs \<noteq> []) (obj_entries ob)"
  have "obj_wf ?q" using assms(2) by (intro obj_wf_filter) simp
  moreover have "map fst (map (\<lambda>(k, vs). (k, JArr vs)) ?q) = map fst ?q" by (simp add: comp_def split_beta)
  ultimately have "obj_wf (map (\<lambda>(k, vs). (k, JArr vs)) ?q)" by (simp only: obj_wf_def)
  then show ?thesis by (simp add: write_arrays_def docs_wf_write assms(1))
qed

lemmas docs_wf_intros = docs_wf_write docs_wf_applied docs_wf_text docs_wf_remove docs_wf_id
  docs_wf_drafts docs_wf_arrays

lemmas read_defs = readDrafts_def readDraftAttachments_def readPendingSendRestores_def readAppliedRestores_def

lemmas sync_simps = stored_view_def view_of_def read_defs write_defs other_key sync_keys
  in_workspace_keys in_global_keys keys_apart key_in_eq

lemmas slice_ops = set_drafts_def set_uploads_def set_pending_def set_applied_def
  writeDraftAttachments_def writePendingSendRestores_def

lemma in_sync_facts:
  "in_sync s \<Longrightarrow> view_of (chat s) = stored_view (slug_of s) (stored s)"
  "in_sync s \<Longrightarrow> chat_ok s"
  by (simp_all add: in_sync_def)

lemma in_syncI: "chat_ok s \<Longrightarrow> view_of (chat s) = stored_view (slug_of s) (stored s) \<Longrightarrow> in_sync s"
  by (simp add: in_sync_def)

lemma drafts_sync:
  assumes "in_sync s" and "obj_wf drafts"
  shows "in_sync (set_drafts drafts s)"
proof (rule in_syncI)
  show "chat_ok (set_drafts drafts s)"
    using in_sync_facts [OF assms(1)] assms(2) by (simp add: chat_ok_def slice_ops docs_wf_intros)
  show "view_of (chat (set_drafts drafts s)) = stored_view (slug_of (set_drafts drafts s)) (stored (set_drafts drafts s))"
    using in_sync_facts(1) [OF assms(1)] readDrafts_writeDrafts [OF assms(2), of "stored s" "key_in s DRAFTS_KEY"]
    by (simp add: slice_ops sync_simps)
qed

lemma uploads_sync:
  assumes "in_sync s" and "obj_wf slots"
  shows "in_sync (set_uploads slots s)"
proof (rule in_syncI)
  show "chat_ok (set_uploads slots s)"
    using in_sync_facts [OF assms(1)] assms(2) by (simp add: chat_ok_def slice_ops docs_wf_intros)
  show "view_of (chat (set_uploads slots s)) = stored_view (slug_of (set_uploads slots s)) (stored (set_uploads slots s))"
    using in_sync_facts(1) [OF assms(1)]
      uploads.view_read_write [OF assms(2), of "stored s" "key_in s DRAFT_ATTACHMENTS_KEY"]
    by (simp add: slice_ops sync_simps uploads.read_slots_def)
qed

lemma pending_sync:
  assumes "in_sync s" and "obj_wf queues"
  shows "in_sync (set_pending queues s)"
proof (rule in_syncI)
  show "chat_ok (set_pending queues s)"
    using in_sync_facts [OF assms(1)] assms(2) by (simp add: chat_ok_def slice_ops docs_wf_intros)
  show "view_of (chat (set_pending queues s)) = stored_view (slug_of (set_pending queues s)) (stored (set_pending queues s))"
    using in_sync_facts(1) [OF assms(1)]
      queues.view_read_write [OF assms(2), of "stored s" "key_in s PENDING_SEND_RESTORES_KEY"]
    by (simp add: slice_ops sync_simps queues.read_slots_def)
qed

lemma applied_sync:
  assumes "in_sync s"
  shows "in_sync (set_applied ids s)"
proof (rule in_syncI)
  show "chat_ok (set_applied ids s)"
    using in_sync_facts [OF assms(1)] by (simp add: chat_ok_def slice_ops docs_wf_intros)
  show "view_of (chat (set_applied ids s)) = stored_view (slug_of (set_applied ids s)) (stored (set_applied ids s))"
    using in_sync_facts(1) [OF assms(1)]
      readApplied_writeApplied [of "stored s" "key_in s APPLIED_RESTORES_KEY" ids]
    by (simp add: slice_ops sync_simps)
qed

lemmas panel_ops = setOpen_def toggle_def setFloatingChatEnabled_def setActiveSession_def
  setSelectedAgentId_def setSelectedProjectId_def setChatSize_def setExpanded_def

lemma panel_chat_ok:
  assumes "chat_ok s"
  shows "chat_ok (setOpen b s)" "chat_ok (toggle s)" "chat_ok (setFloatingChatEnabled b s)"
    "chat_ok (setActiveSession i s)" "chat_ok (setSelectedAgentId a s)" "chat_ok (setSelectedProjectId i s)"
    "chat_ok (setChatSize w h s)" "chat_ok (setExpanded b s)"
  using assms by (simp_all add: chat_ok_def panel_ops docs_wf_intros Let_def)

lemma truthy_truthy [simp]: "truthy (truthy i) = truthy i"
  by (cases i) auto

lemma panel_view:
  assumes "view_of (chat s) = stored_view (slug_of s) (stored s)"
    and "s' \<in> {setOpen b s, toggle s, setFloatingChatEnabled b s, setActiveSession i s,
      setSelectedAgentId a s, setSelectedProjectId i s, setChatSize w h s, setExpanded b s}"
  shows "view_of (chat s') = stored_view (slug_of s') (stored s')"
  using assms(2)
proof (elim insertE)
  assume "s' = setOpen b s"
  then show ?thesis using assms(1) by (simp add: panel_ops sync_simps bool_text_def)
next
  assume "s' = toggle s"
  then show ?thesis using assms(1) by (simp add: panel_ops sync_simps bool_text_def Let_def)
next
  assume "s' = setFloatingChatEnabled b s"
  then show ?thesis using assms(1) by (simp add: panel_ops sync_simps bool_text_def Let_def)
next
  assume "s' = setActiveSession i s"
  then show ?thesis using assms(1) by (simp add: panel_ops sync_simps)
next
  assume "s' = setSelectedAgentId a s"
  then show ?thesis using assms(1) by (simp add: panel_ops sync_simps)
next
  assume "s' = setSelectedProjectId i s"
  then show ?thesis using assms(1) by (simp add: panel_ops sync_simps)
next
  assume "s' = setChatSize w h s"
  then show ?thesis using assms(1) by (simp add: panel_ops sync_simps Let_def)
next
  assume "s' = setExpanded b s"
  then show ?thesis using assms(1) by (simp add: panel_ops sync_simps)
qed simp

lemma panel_sync:
  assumes "in_sync s"
  shows "in_sync (setOpen b s)" "in_sync (toggle s)" "in_sync (setFloatingChatEnabled b s)"
    "in_sync (setActiveSession i s)" "in_sync (setSelectedAgentId a s)" "in_sync (setSelectedProjectId i s)"
    "in_sync (setChatSize w h s)" "in_sync (setExpanded b s)"
proof -
  note ok = in_sync_facts(2) [OF assms]
    and view = panel_view [OF in_sync_facts(1) [OF assms], where b = b and i = i and a = a and w = w and h = h]
  show "in_sync (setOpen b s)" by (rule in_syncI [OF panel_chat_ok(1) [OF ok] view]) simp
  show "in_sync (toggle s)" by (rule in_syncI [OF panel_chat_ok(2) [OF ok] view]) simp
  show "in_sync (setFloatingChatEnabled b s)"
    by (rule in_syncI [OF panel_chat_ok(3) [OF ok] view]) simp
  show "in_sync (setActiveSession i s)"
    by (rule in_syncI [OF panel_chat_ok(4) [OF ok] view]) simp
  show "in_sync (setSelectedAgentId a s)"
    by (rule in_syncI [OF panel_chat_ok(5) [OF ok] view]) simp
  show "in_sync (setSelectedProjectId i s)"
    by (rule in_syncI [OF panel_chat_ok(6) [OF ok] view]) simp
  show "in_sync (setChatSize w h s)" by (rule in_syncI [OF panel_chat_ok(7) [OF ok] view]) simp
  show "in_sync (setExpanded b s)" by (rule in_syncI [OF panel_chat_ok(8) [OF ok] view]) simp
qed

section \<open>Loading\<close>

lemma obj_wf_deletes: "obj_wf ob \<Longrightarrow> obj_wf (foldl (\<lambda>ob k. obj_delete ob k) ob ks)"
  by (induction ks arbitrary: ob) auto

lemma migrate_wf: "obj_wf slots \<Longrightarrow> obj_wf (fst (migrateLegacyNewChatSlots slots a))"
  by (auto simp: migrateLegacyNewChatSlots_def Let_def obj_wf_deletes split: option.splits)

lemma migrate_unchanged: "\<not> snd (migrateLegacyNewChatSlots slots a) \<Longrightarrow> fst (migrateLegacyNewChatSlots slots a) = slots"
  by (auto simp: migrateLegacyNewChatSlots_def Let_def split: if_splits)

lemma readDrafts_wf: "docs_wf st \<Longrightarrow> obj_wf (readDrafts st k)"
  by (simp add: readDrafts_def docs_wf_def split: option.splits)

lemma readDraftAttachments_wf: "obj_wf (readDraftAttachments st k)"
  by (simp add: readDraftAttachments_def obj_wf_collect split: option.splits)

lemma readPending_wf: "obj_wf (readPendingSendRestores st k)"
  by (simp add: readPendingSendRestores_def obj_wf_collect split: option.splits)

text \<open>After loading, both draft maps show what the storage holds, and nothing else moved.\<close>

lemma read_other:
  "stored_value st k = stored_value st' k \<Longrightarrow> readDrafts st k = readDrafts st' k"
  "stored_value st k = stored_value st' k \<Longrightarrow> readDraftAttachments st k = readDraftAttachments st' k"
  "stored_value st k = stored_value st' k \<Longrightarrow> readPendingSendRestores st k = readPendingSendRestores st' k"
  "stored_value st k = stored_value st' k \<Longrightarrow> readAppliedRestores st k = readAppliedRestores st' k"
  by (simp_all add: readDrafts_def readDraftAttachments_def readPendingSendRestores_def readAppliedRestores_def)

lemma loadDraftSlots_sync:
  assumes wf: "docs_wf st0" and apart: "kd \<noteq> ka" and load: "loadDraftSlots st0 kd ka a = (st2, drafts, atts)"
  shows "docs_wf st2" and "obj_wf drafts" and "obj_wf atts"
    and "draft_view drafts = draft_view (readDrafts st2 kd)"
    and "uploads.slot_view atts = uploads.slot_view (readDraftAttachments st2 ka)"
    and "k \<noteq> kd \<Longrightarrow> k \<noteq> ka \<Longrightarrow> stored_value st2 k = stored_value st0 k"
    and "k \<noteq> kd \<Longrightarrow> k \<noteq> ka \<Longrightarrow> getText st2 k = getText st0 k"
proof -
  define md where "md = migrateLegacyNewChatSlots (readDrafts st0 kd) a"
  define ma where "ma = migrateLegacyNewChatSlots (readDraftAttachments st0 ka) a"
  define st1 where "st1 = (if snd md then writeDrafts st0 kd (fst md) else st0)"
  have res: "drafts = fst md" "atts = fst ma"
    "st2 = (if snd ma then writeDraftAttachments st1 ka (fst ma) else st1)"
    using load unfolding loadDraftSlots_def md_def [symmetric] ma_def [symmetric]
    by (auto simp: split_beta st1_def Let_def)
  show wfs: "obj_wf drafts" "obj_wf atts"
    by (simp_all add: res md_def ma_def migrate_wf readDrafts_wf wf readDraftAttachments_wf)
  have wf1: "docs_wf st1" using wf wfs by (simp add: st1_def res docs_wf_intros)
  show "docs_wf st2" using wf1 wfs by (simp add: res docs_wf_intros writeDraftAttachments_def)
  have d1: "draft_view drafts = draft_view (readDrafts st1 kd)"
    using readDrafts_writeDrafts [OF wfs(1), of st0 kd] migrate_unchanged [of "readDrafts st0 kd" a]
    by (simp add: st1_def res md_def)
  have 21: "stored_value st2 j = stored_value st1 j" "getText st2 j = getText st1 j" if "j \<noteq> ka" for j
    using that by (simp_all add: res write_defs other_key)
  have 10: "stored_value st1 j = stored_value st0 j" "getText st1 j = getText st0 j" if "j \<noteq> kd" for j
    using that by (simp_all add: st1_def write_defs other_key)
  show "draft_view drafts = draft_view (readDrafts st2 kd)"
    using d1 read_other(1) [OF 21(1) [OF apart]] by simp
  show "uploads.slot_view atts = uploads.slot_view (readDraftAttachments st2 ka)"
  proof (cases "snd ma")
    case True
    then show ?thesis using uploads.view_read_write [OF wfs(2), of st1 ka]
      by (simp add: res readDraftAttachments_eq writeDraftAttachments_def)
  next
    case False
    have "readDraftAttachments st1 ka = readDraftAttachments st0 ka"
      by (rule read_other(2) [OF 10(1)]) (use apart in simp)
    moreover have "atts = readDraftAttachments st0 ka"
      using False migrate_unchanged by (simp add: res ma_def)
    ultimately show ?thesis using False by (simp add: res)
  qed
  show "stored_value st2 k = stored_value st0 k" if "k \<noteq> kd" "k \<noteq> ka" using 21(1) 10(1) that by simp
  show "getText st2 k = getText st0 k" if "k \<noteq> kd" "k \<noteq> ka" using 21(2) 10(2) that by simp
qed

lemma drafts_keys_apart: "wsKey slug DRAFTS_KEY \<noteq> wsKey slug DRAFT_ATTACHMENTS_KEY"
  by (simp add: keys_apart)

lemma rehydrate_sync:
  assumes "docs_wf (stored s)"
    and "isOpen (chat s) = (getText (stored s) OPEN_KEY = Some ''true'')"
    and "floatingChatEnabled (chat s) = (getText (stored s) FLOATING_KEY \<noteq> Some ''false'')"
  shows "in_sync (rehydrate s)"
proof -
  obtain st2 drafts atts where load: "loadDraftSlots (stored s) (key_in s DRAFTS_KEY)
      (key_in s DRAFT_ATTACHMENTS_KEY) (getText (stored s) (key_in s AGENT_STORAGE_KEY)) = (st2, drafts, atts)"
    using prod_cases3 by blast
  note facts = loadDraftSlots_sync [OF assms(1) drafts_keys_apart load [unfolded key_in_eq]]
  have other: "stored_value st2 k = stored_value (stored s) k" "getText st2 k = getText (stored s) k"
    if "k \<noteq> wsKey (slug_of s) DRAFTS_KEY" "k \<noteq> wsKey (slug_of s) DRAFT_ATTACHMENTS_KEY" for k
    using facts(6,7) that by simp_all
  have r: "rehydrate s = s\<lparr>stored := st2, chat := (chat s)
      \<lparr>activeSessionId := getText (stored s) (key_in s SESSION_STORAGE_KEY),
       selectedAgentId := getText (stored s) (key_in s AGENT_STORAGE_KEY),
       selectedProjectId := getText (stored s) (key_in s PROJECT_STORAGE_KEY),
       inputDrafts := drafts, inputDraftAttachments := atts,
       appliedDraftRestoreIds := readAppliedRestores st2 (key_in s APPLIED_RESTORES_KEY),
       pendingSendRestores := readPendingSendRestores st2 (key_in s PENDING_SEND_RESTORES_KEY)\<rparr>\<rparr>"
    by (simp add: rehydrate_def load)
  show ?thesis
  proof (rule in_syncI)
    show "chat_ok (rehydrate s)" using facts(1-3) readPending_wf by (simp add: r chat_ok_def)
    show "view_of (chat (rehydrate s)) = stored_view (slug_of (rehydrate s)) (stored (rehydrate s))"
      using facts(4,5) assms(2,3) other
      by (simp add: r view_of_def stored_view_def key_in_eq keys_apart sync_keys in_workspace_keys in_global_keys)
  qed
qed

lemma create_sync:
  assumes "docs_wf st0"
  shows "in_sync (createChatStore p st0)"
proof -
  let ?k = "wsKey (currentSlug p)"
  obtain st2 drafts atts where load: "loadDraftSlots st0 (?k DRAFTS_KEY) (?k DRAFT_ATTACHMENTS_KEY)
      (getText st0 (?k AGENT_STORAGE_KEY)) = (st2, drafts, atts)"
    using prod_cases3 by blast
  note facts = loadDraftSlots_sync [OF assms drafts_keys_apart load]
  have other: "getText st2 k = getText st0 k" if "k \<noteq> ?k DRAFTS_KEY" "k \<noteq> ?k DRAFT_ATTACHMENTS_KEY" for k
    using facts(7) that by simp
  show ?thesis
  proof (rule in_syncI)
    show "chat_ok (createChatStore p st0)"
      using facts(1-3) readPending_wf by (simp add: createChatStore_def chat_ok_def load Let_def)
    show "view_of (chat (createChatStore p st0)) =
        stored_view (slug_of (createChatStore p st0)) (stored (createChatStore p st0))"
      using facts(4,5) other
      by (simp add: createChatStore_def load Let_def view_of_def stored_view_def slug_of_def keys_apart sync_keys
          in_workspace_keys in_global_keys)
  qed
qed

end
