(* ===== verification/Chat_Properties.thy ===== *)
theory Chat_Properties
  imports Chat_Sync
begin

text \<open>
  Runs of the chat store, and its properties: reloading, the migration of the legacy slots,
  uploads that were removed, and what a workspace switch can lose.
\<close>

section \<open>Actions\<close>

datatype chat_action =
    SetOpen bool
  | Toggle
  | SetFloating bool
  | SetActiveSession "string option"
  | SetSelectedAgent string
  | SetSelectedProject "string option"
  | SetSize int int
  | SetExpanded bool
  | MarkApplied string
  | ForgetApplied string
  | Enqueue js
  | Dequeue string string
  | SetDraft string string
  | AppendDraft string string
  | SetUploads string "js list"
  | AddAttachment string js
  | AddUpload string js
  | SettleUpload string string js
  | FailUpload string string js
  | RemoveUpload string string
  | ClearDraft string
  | Switch "string option" "string option"

text \<open>An action that throws leaves everything as it was; a switch is taken with its microtasks.\<close>

fun chat_step :: "chat_sys \<Rightarrow> chat_action \<Rightarrow> chat_sys" where
  "chat_step s (SetOpen b) = setOpen b s"
| "chat_step s Toggle = toggle s"
| "chat_step s (SetFloating b) = setFloatingChatEnabled b s"
| "chat_step s (SetActiveSession i) = setActiveSession i s"
| "chat_step s (SetSelectedAgent a) = setSelectedAgentId a s"
| "chat_step s (SetSelectedProject i) = setSelectedProjectId i s"
| "chat_step s (SetSize w h) = setChatSize w h s"
| "chat_step s (SetExpanded b) = setExpanded b s"
| "chat_step s (MarkApplied r) = markDraftRestoreApplied r s"
| "chat_step s (ForgetApplied r) = forgetDraftRestoreApplied r s"
| "chat_step s (Enqueue r) = enqueuePendingSendRestore r s"
| "chat_step s (Dequeue sid r) = dequeuePendingSendRestore sid r s"
| "chat_step s (SetDraft sid t) = setInputDraft sid t s"
| "chat_step s (AppendDraft sid t) = (case appendToInputDraft sid t s of Inl e \<Rightarrow> s | Inr s' \<Rightarrow> s')"
| "chat_step s (SetUploads sid us) = setInputDraftAttachments sid us s"
| "chat_step s (AddAttachment sid a) = addInputDraftAttachment sid a s"
| "chat_step s (AddUpload sid u) = addInputDraftUpload sid u s"
| "chat_step s (SettleUpload sid uid a) = settleInputDraftUpload sid uid a s"
| "chat_step s (FailUpload sid uid e) = failInputDraftUpload sid uid e s"
| "chat_step s (RemoveUpload sid uid) = removeInputDraftUpload sid uid s"
| "chat_step s (ClearDraft sid) = clearInputDraft sid s"
| "chat_step s (Switch slug wsId) = run_microtasks (switch_workspace slug wsId s)"

definition chat_run :: "chat_sys \<Rightarrow> chat_action list \<Rightarrow> chat_sys" where
  "chat_run s acts = foldl chat_step s acts"

section \<open>Every run is in step with the storage\<close>

lemma set_or_delete_wf: "obj_wf ob \<Longrightarrow> obj_wf (set_or_delete ob k vs)"
  by (simp add: set_or_delete_def)

lemma set_or_delete_get: "obj_get (set_or_delete ob k vs) j =
    (if j = k then (if vs = [] then None else Some vs) else obj_get ob j)"
  by (simp add: set_or_delete_def obj_simps)

lemma slices_wf:
  assumes "in_sync s"
  shows "obj_wf (inputDrafts (chat s))" "obj_wf (inputDraftAttachments (chat s))"
    "obj_wf (pendingSendRestores (chat s))"
  using in_sync_facts(2) [OF assms] by (simp_all add: chat_ok_def)

lemma rehydrated_sync: "in_sync s \<Longrightarrow> in_sync (rehydrate (s\<lparr>plat := p\<rparr>))"
  using in_sync_facts [of s]
  by (intro rehydrate_sync) (auto simp: chat_ok_def view_of_def stored_view_def)

lemma plat_sync: "in_sync s \<Longrightarrow> currentSlug p = currentSlug (plat s) \<Longrightarrow> in_sync (s\<lparr>plat := p\<rparr>)"
  by (simp add: in_sync_def chat_ok_def slug_of_def)

lemma switch_sync:
  assumes "in_sync s"
  shows "in_sync (run_microtasks (switch_workspace slug wsId s))"
proof -
  define q where "q = setCurrentWorkspace slug wsId (plat s)"
  have run: "run_microtasks (switch_workspace slug wsId s) =
      (if pendingRehydrate q then rehydrate (s\<lparr>plat := q\<lparr>pendingNotify := False, pendingRehydrate := False\<rparr>\<rparr>)
       else s\<lparr>plat := q\<lparr>pendingNotify := False\<rparr>\<rparr>)"
    by (simp add: run_microtasks_def switch_workspace_def q_def)
  show ?thesis
  proof (cases "pendingRehydrate q")
    case True
    then show ?thesis by (simp add: run rehydrated_sync assms)
  next
    case False
    then have "currentSlug q = currentSlug (plat s)"
      by (auto simp: q_def setCurrentWorkspace_def split: if_splits)
    then show ?thesis using False by (simp add: run plat_sync assms)
  qed
qed

lemma chat_step_sync:
  assumes "in_sync s"
  shows "in_sync (chat_step s a)"
proof (cases a)
  case (MarkApplied r)
  then show ?thesis using assms by (simp add: markDraftRestoreApplied_def applied_sync Let_def)
next
  case (ForgetApplied r)
  then show ?thesis using assms by (simp add: forgetDraftRestoreApplied_def applied_sync Let_def)
next
  case (Enqueue r)
  then show ?thesis using assms slices_wf [OF assms]
    by (simp add: enqueuePendingSendRestore_def pending_sync Let_def)
next
  case (Dequeue sid r)
  then show ?thesis using assms slices_wf [OF assms]
    by (simp add: dequeuePendingSendRestore_def pending_sync set_or_delete_wf Let_def)
next
  case (SetDraft sid t)
  then show ?thesis using assms slices_wf [OF assms] by (simp add: setInputDraft_def drafts_sync)
next
  case (AppendDraft sid t)
  then show ?thesis using assms slices_wf [OF assms]
    by (simp add: appendToInputDraft_def drafts_sync Let_def split: sum.splits)
next
  case (SetUploads sid us)
  then show ?thesis using assms slices_wf [OF assms]
    by (simp add: setInputDraftAttachments_def uploads_sync set_or_delete_wf)
next
  case (AddAttachment sid at)
  then show ?thesis using assms slices_wf [OF assms]
    by (simp add: addInputDraftAttachment_def uploads_sync Let_def)
next
  case (AddUpload sid u)
  then show ?thesis using assms slices_wf [OF assms]
    by (simp add: addInputDraftUpload_def uploads_sync Let_def)
next
  case (SettleUpload sid uid at)
  then show ?thesis using assms slices_wf [OF assms]
    by (simp add: settleInputDraftUpload_def uploads_sync Let_def)
next
  case (FailUpload sid uid e)
  then show ?thesis using assms slices_wf [OF assms]
    by (simp add: failInputDraftUpload_def uploads_sync Let_def split: option.splits)
next
  case (RemoveUpload sid uid)
  then show ?thesis using assms slices_wf [OF assms]
    by (simp add: removeInputDraftUpload_def uploads_sync set_or_delete_wf Let_def)
next
  case (ClearDraft sid)
  have "in_sync (set_drafts (obj_delete (inputDrafts (chat s)) sid) s)"
    using assms slices_wf [OF assms] by (simp add: drafts_sync)
  from uploads_sync [OF this] ClearDraft show ?thesis using assms slices_wf [OF assms]
    by (simp add: clearInputDraft_def)
next
  case (Switch slug wsId)
  then show ?thesis by (simp add: switch_sync assms)
qed (use panel_sync [OF assms] in simp_all)

lemma chat_run_sync: "in_sync s \<Longrightarrow> in_sync (chat_run s acts)"
  unfolding chat_run_def by (induction acts arbitrary: s) (simp_all add: chat_step_sync)

section \<open>The migration\<close>

lemma deletes_lookup: "obj_get (foldl (\<lambda>ob k. obj_delete ob k) ob ks) k = (if k \<in> set ks then None else obj_get ob k)"
  by (induction ks arbitrary: ob) (auto simp: obj_simps)

lemma in_obj_keys: "k \<in> set (obj_keys ob) \<longleftrightarrow> obj_get ob k \<noteq> None"
  using set_obj_keys [of ob] map_of_eq_None_iff [of ob k] by auto

lemma new_session_not_legacy: "\<not> is_legacy_key DRAFT_NEW_SESSION"
  by (simp add: is_legacy_key_def starts_with_def LEGACY_NEW_SESSION_PREFIX_def DRAFT_NEW_SESSION_def)

lemma legacy_slot: "is_legacy_key (LEGACY_NEW_SESSION_PREFIX @ a)"
  by (simp add: is_legacy_key_def)

text \<open>What the migration promises for every slot.\<close>

definition migrated_slot :: "'v obj \<Rightarrow> string option \<Rightarrow> string \<Rightarrow> 'v option" where
  "migrated_slot slots agent k =
     (if is_legacy_key k then None
      else if k = DRAFT_NEW_SESSION \<and> obj_get slots k = None
      then obj_get slots (LEGACY_NEW_SESSION_PREFIX @ default_to [] agent)
      else obj_get slots k)"

lemma migrate_refines: "obj_get (fst (migrateLegacyNewChatSlots slots agent)) k = migrated_slot slots agent k"
proof (cases "filter is_legacy_key (obj_keys slots) = []")
  case True
  have none: "obj_get slots j = None" if "is_legacy_key j" for j
  proof (rule ccontr)
    assume "obj_get slots j \<noteq> None"
    then have "j \<in> set (filter is_legacy_key (obj_keys slots))"
      using that by (simp only: set_filter in_obj_keys) simp
    then show False using True by simp
  qed
  then show ?thesis using True none [OF legacy_slot] by (auto simp: migrateLegacyNewChatSlots_def migrated_slot_def)
next
  case False
  let ?a = "obj_get slots (LEGACY_NEW_SESSION_PREFIX @ default_to [] agent)"
  define kept where "kept = (case ?a of
      Some v \<Rightarrow> if obj_get slots DRAFT_NEW_SESSION = None then obj_set slots DRAFT_NEW_SESSION v else slots
    | None \<Rightarrow> slots)"
  have m: "fst (migrateLegacyNewChatSlots slots agent) =
      foldl (\<lambda>ob k. obj_delete ob k) kept (filter is_legacy_key (obj_keys slots))"
    using False by (simp add: migrateLegacyNewChatSlots_def kept_def Let_def)
  have kept: "obj_get kept k = (if k = DRAFT_NEW_SESSION \<and> obj_get slots k = None then ?a else obj_get slots k)" for k
    by (auto simp: kept_def obj_simps split: option.splits)
  have del: "k \<in> set (filter is_legacy_key (obj_keys slots)) \<longleftrightarrow> is_legacy_key k \<and> obj_get slots k \<noteq> None"
    by (simp only: set_filter mem_Collect_eq in_obj_keys) blast
  show ?thesis unfolding m deletes_lookup del kept migrated_slot_def using new_session_not_legacy by auto
qed

lemma migrate_done:
  assumes "\<And>k. is_legacy_key k \<Longrightarrow> obj_get slots k = None"
  shows "migrateLegacyNewChatSlots slots agent = (slots, False)"
proof -
  have "k \<notin> set (obj_keys slots)" if "is_legacy_key k" for k
    using assms [OF that] in_obj_keys by blast
  then have "filter is_legacy_key (obj_keys slots) = []" by (auto simp: filter_empty_conv)
  then show ?thesis by (simp add: migrateLegacyNewChatSlots_def)
qed

lemmas migrate_lookup = migrate_refines [unfolded migrated_slot_def]

section \<open>Reloading\<close>

definition no_legacy :: "chat_view \<Rightarrow> bool" where
  "no_legacy v \<longleftrightarrow> (\<forall>k. is_legacy_key k \<longrightarrow> v_drafts v k = None \<and> v_uploads v k = None)"

text \<open>The session ids the code passes are ids of sessions or \<open>DRAFT_NEW_SESSION\<close>.\<close>

fun session_id_of :: "chat_action \<Rightarrow> string option" where
  "session_id_of (SetDraft sid t) = Some sid"
| "session_id_of (AppendDraft sid t) = Some sid"
| "session_id_of (SetUploads sid us) = Some sid"
| "session_id_of (AddAttachment sid a) = Some sid"
| "session_id_of (AddUpload sid u) = Some sid"
| "session_id_of (SettleUpload sid uid a) = Some sid"
| "session_id_of (FailUpload sid uid e) = Some sid"
| "session_id_of (RemoveUpload sid uid) = Some sid"
| "session_id_of (ClearDraft sid) = Some sid"
| "session_id_of _ = None"

definition plain_action :: "chat_action \<Rightarrow> bool" where
  "plain_action a \<longleftrightarrow> (case session_id_of a of None \<Rightarrow> True | Some sid \<Rightarrow> \<not> is_legacy_key sid)"

lemma draft_view_cong: "obj_get a k = obj_get b k \<Longrightarrow> draft_view a k = draft_view b k"
  by (simp add: draft_view_def)

lemma slot_view_cong: "obj_get a k = obj_get b k \<Longrightarrow> uploads.slot_view a k = uploads.slot_view b k"
  by (simp add: uploads.slot_view_def)

lemma draft_view_migrate:
  assumes "\<And>k. is_legacy_key k \<Longrightarrow> draft_view ob k = None"
  shows "draft_view (fst (migrateLegacyNewChatSlots ob agent)) k = draft_view ob k"
  using assms [of k] assms [OF legacy_slot, of "default_to [] agent"]
  by (auto simp: draft_view_def migrate_lookup)

lemma slot_view_migrate:
  assumes "\<And>k. is_legacy_key k \<Longrightarrow> uploads.slot_view ob k = None"
  shows "uploads.slot_view (fst (migrateLegacyNewChatSlots ob agent)) k = uploads.slot_view ob k"
  using assms [of k] assms [OF legacy_slot, of "default_to [] agent"]
  by (auto simp: uploads.slot_view_def migrate_lookup)

lemmas action_defs = panel_ops slice_ops markDraftRestoreApplied_def forgetDraftRestoreApplied_def
  enqueuePendingSendRestore_def dequeuePendingSendRestore_def setInputDraft_def appendToInputDraft_def
  setInputDraftAttachments_def addInputDraftAttachment_def addInputDraftUpload_def
  settleInputDraftUpload_def failInputDraftUpload_def removeInputDraftUpload_def clearInputDraft_def

text \<open>An action touches the draft slots of its own session only.\<close>

lemma step_frame:
  assumes "session_id_of a \<noteq> Some k" and "\<And>slug wsId. a \<noteq> Switch slug wsId"
  shows "obj_get (inputDrafts (chat (chat_step s a))) k = obj_get (inputDrafts (chat s)) k"
    and "obj_get (inputDraftAttachments (chat (chat_step s a))) k = obj_get (inputDraftAttachments (chat s)) k"
  using assms
  by (cases a; simp add: action_defs set_or_delete_get obj_simps Let_def split: sum.split option.split)+

lemma loaded_no_legacy:
  "v_drafts v = draft_view (fst (migrateLegacyNewChatSlots a ag)) \<Longrightarrow>
   v_uploads v = uploads.slot_view (fst (migrateLegacyNewChatSlots b ag)) \<Longrightarrow> no_legacy v"
  by (simp add: no_legacy_def draft_view_def uploads.slot_view_def migrate_lookup)

lemma loadDraftSlots_parts:
  "loadDraftSlots st0 kd ka a = (st2, drafts, atts) \<Longrightarrow>
     drafts = fst (migrateLegacyNewChatSlots (readDrafts st0 kd) a) \<and>
     atts = fst (migrateLegacyNewChatSlots (readDraftAttachments st0 ka) a)"
  by (auto simp: loadDraftSlots_def split_beta Let_def)

lemma create_parts:
  "inputDrafts (chat (createChatStore p st0)) =
     fst (migrateLegacyNewChatSlots (readDrafts st0 (wsKey (currentSlug p) DRAFTS_KEY))
       (getText st0 (wsKey (currentSlug p) AGENT_STORAGE_KEY)))"
  "inputDraftAttachments (chat (createChatStore p st0)) =
     fst (migrateLegacyNewChatSlots (readDraftAttachments st0 (wsKey (currentSlug p) DRAFT_ATTACHMENTS_KEY))
       (getText st0 (wsKey (currentSlug p) AGENT_STORAGE_KEY)))"
  by (simp_all add: createChatStore_def loadDraftSlots_def split_beta Let_def)

lemma rehydrate_parts:
  "inputDrafts (chat (rehydrate s)) =
     fst (migrateLegacyNewChatSlots (readDrafts (stored s) (key_in s DRAFTS_KEY))
       (getText (stored s) (key_in s AGENT_STORAGE_KEY)))"
  "inputDraftAttachments (chat (rehydrate s)) =
     fst (migrateLegacyNewChatSlots (readDraftAttachments (stored s) (key_in s DRAFT_ATTACHMENTS_KEY))
       (getText (stored s) (key_in s AGENT_STORAGE_KEY)))"
  by (simp_all add: rehydrate_def loadDraftSlots_def split_beta Let_def)

lemma create_no_legacy: "no_legacy (view_of (chat (createChatStore p st0)))"
  by (rule loaded_no_legacy) (simp_all add: view_of_def create_parts)

lemma rehydrate_no_legacy: "no_legacy (view_of (chat (rehydrate s)))"
  by (rule loaded_no_legacy) (simp_all add: view_of_def rehydrate_parts)

lemma step_no_legacy:
  assumes "no_legacy (view_of (chat s))" and "plain_action a"
  shows "no_legacy (view_of (chat (chat_step s a)))"
proof (cases "\<exists>slug wsId. a = Switch slug wsId")
  case True
  then show ?thesis using assms(1) rehydrate_no_legacy
    by (auto simp: run_microtasks_def switch_workspace_def Let_def)
next
  case False
  have "session_id_of a \<noteq> Some k" if "is_legacy_key k" for k
    using assms(2) that by (auto simp: plain_action_def split: option.splits)
  from step_frame [OF this] False assms(1) show ?thesis
    by (simp add: no_legacy_def view_of_def draft_view_def uploads.slot_view_def)
qed

lemma run_no_legacy:
  "no_legacy (view_of (chat s)) \<Longrightarrow> list_all plain_action acts \<Longrightarrow> no_legacy (view_of (chat (chat_run s acts)))"
  unfolding chat_run_def by (induction acts arbitrary: s) (simp_all add: step_no_legacy)

lemma create_view:
  assumes "docs_wf st0" and "no_legacy (stored_view (currentSlug p) st0)"
  shows "view_of (chat (createChatStore p st0)) = stored_view (currentSlug p) st0"
proof -
  let ?k = "wsKey (currentSlug p)"
  obtain st2 drafts atts where load: "loadDraftSlots st0 (?k DRAFTS_KEY) (?k DRAFT_ATTACHMENTS_KEY)
      (getText st0 (?k AGENT_STORAGE_KEY)) = (st2, drafts, atts)"
    using prod_cases3 by blast
  note facts = loadDraftSlots_sync [OF assms(1) drafts_keys_apart load]
  have other: "getText st2 k = getText st0 k" "stored_value st2 k = stored_value st0 k"
    if "k \<noteq> ?k DRAFTS_KEY" "k \<noteq> ?k DRAFT_ATTACHMENTS_KEY" for k
    using facts(6,7) that by simp_all
  have same: "readAppliedRestores st2 (?k APPLIED_RESTORES_KEY) = readAppliedRestores st0 (?k APPLIED_RESTORES_KEY)"
    "readPendingSendRestores st2 (?k PENDING_SEND_RESTORES_KEY) = readPendingSendRestores st0 (?k PENDING_SEND_RESTORES_KEY)"
    by (rule read_other, rule other, simp_all add: keys_apart)+
  have "draft_view drafts = draft_view (readDrafts st0 (?k DRAFTS_KEY))"
    using loadDraftSlots_parts [OF load] assms(2) draft_view_migrate
    by (auto simp: no_legacy_def stored_view_def)
  moreover have "uploads.slot_view atts = uploads.slot_view (readDraftAttachments st0 (?k DRAFT_ATTACHMENTS_KEY))"
    using loadDraftSlots_parts [OF load] assms(2) slot_view_migrate
    by (auto simp: no_legacy_def stored_view_def)
  ultimately show ?thesis
    by (simp add: createChatStore_def load Let_def view_of_def stored_view_def other same keys_apart
        sync_keys in_workspace_keys in_global_keys)
qed

section \<open>Removed uploads\<close>

definition absent :: "string \<Rightarrow> string \<Rightarrow> chat_sys \<Rightarrow> bool" where
  "absent sid uid s \<longleftrightarrow> list_all (\<lambda>u. clientUploadId u \<noteq> JStr uid) (uploads_of s sid)"

text \<open>The actions that can bring an upload of this id into the slot.\<close>

fun readds :: "string \<Rightarrow> string \<Rightarrow> chat_action \<Rightarrow> bool" where
  "readds sid uid (SetUploads k us) \<longleftrightarrow> k = sid \<and> list_ex (\<lambda>u. clientUploadId u = JStr uid) us"
| "readds sid uid (AddUpload k u) \<longleftrightarrow> k = sid \<and> clientUploadId u = JStr uid"
| "readds sid uid (AddAttachment k a) \<longleftrightarrow>
     k = sid \<and> js_or (get_prop a ''id'') (get_prop a ''url'') = JStr uid"
| "readds sid uid (Switch slug wsId) \<longleftrightarrow> True"
| "readds sid uid _ \<longleftrightarrow> False"

lemma wrapped_id [simp]:
  "clientUploadId (attachmentToDraftUpload a) = js_or (get_prop a ''id'') (get_prop a ''url'')"
  by (simp add: attachmentToDraftUpload_def)

lemma settled_id [simp]: "clientUploadId (settled_upload uid a) = JStr uid"
  by (simp add: settled_upload_def obj_simps)

lemma failed_id [simp]: "clientUploadId (failed_upload uid e t) = JStr uid"
  by (simp add: failed_upload_def)

lemma uploads_of_set: "uploads_of (set_uploads (obj_set (inputDraftAttachments (chat s)) k us) s) sid =
    (if sid = k then us else uploads_of s sid)"
  by (simp add: uploads_of_def slice_ops obj_simps)

lemma uploads_of_delete: "uploads_of (set_uploads (set_or_delete (inputDraftAttachments (chat s)) k us) s) sid =
    (if sid = k then us else uploads_of s sid)"
  by (simp add: uploads_of_def slice_ops set_or_delete_get)

lemma absent_unchanged: "absent sid uid s \<Longrightarrow> \<not> list_ex (\<lambda>u. clientUploadId u = JStr uid) (uploads_of s sid)"
  by (simp add: absent_def list_ex_iff list_all_iff)

lemma step_absent:
  assumes "absent sid uid s" and "\<not> readds sid uid a"
  shows "absent sid uid (chat_step s a)"
proof (cases "session_id_of a = Some sid")
  case False
  have "\<And>slug wsId. a \<noteq> Switch slug wsId" using assms(2) by auto
  from step_frame(2) [OF False this] show ?thesis using assms(1) by (simp add: absent_def uploads_of_def)
next
  case True
  have none: "u \<in> set (uploads_of s sid) \<Longrightarrow> clientUploadId u \<noteq> JStr uid" for u
    using assms(1) by (simp add: absent_def list_all_iff)
  show ?thesis
  proof (cases a)
    case (SetUploads k us)
    then show ?thesis using True assms(2)
      by (auto simp: absent_def setInputDraftAttachments_def uploads_of_delete list_all_iff list_ex_iff)
  next
    case (AddAttachment k att)
    then show ?thesis using True assms(2) none
      by (auto simp: absent_def addInputDraftAttachment_def uploads_of_set list_all_iff Let_def)
  next
    case (AddUpload k u)
    then show ?thesis using True assms none
      by (auto simp: absent_def addInputDraftUpload_def uploads_of_set list_all_iff Let_def)
  next
    case (SettleUpload k i att)
    then show ?thesis using True assms none
      by (auto simp: absent_def settleInputDraftUpload_def uploads_of_set replace_upload_def
          list_all_iff list_ex_iff Let_def)
  next
    case (FailUpload k i e)
    then show ?thesis using True assms none
      by (auto simp: absent_def failInputDraftUpload_def uploads_of_set replace_upload_def
          list_all_iff find_Some_iff find_None_iff Let_def split: option.splits)
  next
    case (RemoveUpload k i)
    then show ?thesis using True assms none
      by (auto simp: absent_def removeInputDraftUpload_def uploads_of_delete list_all_iff Let_def)
  next
    case (ClearDraft k)
    then show ?thesis using True assms
      by (auto simp: absent_def clearInputDraft_def uploads_of_def slice_ops obj_simps)
  qed (use True assms in \<open>auto simp: absent_def uploads_of_def action_defs Let_def split: sum.splits\<close>)
qed

lemma run_absent:
  "absent sid uid s \<Longrightarrow> list_all (\<lambda>a. \<not> readds sid uid a) acts \<Longrightarrow> absent sid uid (chat_run s acts)"
  unfolding chat_run_def by (induction acts arbitrary: s) (simp_all add: step_absent)

lemma removed_absent: "absent sid uid (removeInputDraftUpload sid uid s)"
  by (auto simp: absent_def removeInputDraftUpload_def uploads_of_delete list_all_iff list_ex_iff Let_def)

lemma cleared_absent: "absent sid uid (clearInputDraft sid s)"
  by (auto simp: absent_def clearInputDraft_def uploads_of_def slice_ops obj_simps)

section \<open>Properties\<close>


definition at_slug :: "string \<Rightarrow> platform" where
  "at_slug s = \<lparr>currentSlug = Some s, currentWsId = None, pendingNotify = False, pendingRehydrate = False\<rparr>"

definition demo_upload :: "string \<Rightarrow> js" where
  "demo_upload st = JObj [(''clientUploadId'', JStr ''u1''), (''status'', JStr st),
     (''filename'', JStr ''a.png''), (''size'', JNum 3)]"

definition demo_chat :: "chat_action list" where
  "demo_chat = [SetDraft ''s1'' ''hello'', AddUpload ''s1'' (demo_upload ''uploading''),
     FailUpload ''s1'' ''u1'' (JStr ''oops''), Switch (Some ''b'') None, SetDraft ''s1'' ''other'',
     Switch (Some ''a'') None]"


text \<open>The migration leaves no legacy slot, never overwrites the unified new-chat slot, adopts into an empty one the legacy slot of the selected agent, keeps every other slot, and the text and the attachments that are loaded come from the same legacy slot.\<close>

theorem loadDraftSlots_migrates:
  "case loadDraftSlots st kd ka agent of (st', drafts, atts) \<Rightarrow>
     (\<forall>k. obj_get drafts k = migrated_slot (readDrafts st kd) agent k \<and>
          obj_get atts k = migrated_slot (readDraftAttachments st ka) agent k) \<and>
     migrateLegacyNewChatSlots drafts agent = (drafts, False) \<and>
     migrateLegacyNewChatSlots atts agent = (atts, False)"
proof -
  obtain st' drafts atts where load: "loadDraftSlots st kd ka agent = (st', drafts, atts)"
    using prod_cases3 by blast
  note parts = loadDraftSlots_parts [OF load]
  have "obj_get drafts k = migrated_slot (readDrafts st kd) agent k"
    "obj_get atts k = migrated_slot (readDraftAttachments st ka) agent k" for k
    by (simp_all only: parts migrate_refines)
  moreover have "migrateLegacyNewChatSlots drafts agent = (drafts, False)"
    "migrateLegacyNewChatSlots atts agent = (atts, False)"
    by (rule migrate_done, simp add: parts migrate_lookup)+
  ultimately show ?thesis by (simp add: load)
qed

text \<open>An upload that the user removed, or whose draft was cleared, never comes back through a late result: whatever settles, fails, is added under other ids or is edited afterwards in this workspace, its id stays out of the draft.\<close>

theorem removed_upload_stays_gone:
  assumes "list_all (\<lambda>a. \<not> readds sid uid a) acts"
  shows "absent sid uid (chat_run (removeInputDraftUpload sid uid s) acts) \<and>
    absent sid uid (chat_run (clearInputDraft sid s) acts)"
  using run_absent [OF removed_absent assms] run_absent [OF cleared_absent assms] by blast

lemma removed_upload_stays_gone_witness:
  "absent ''s1'' ''u1'' (chat_run (removeInputDraftUpload ''s1'' ''u1''
     (chat_run (createChatStore (at_slug ''a'') (\<lambda>_. None)) [AddUpload ''s1'' (demo_upload ''uploading'')]))
     [SettleUpload ''s1'' ''u1'' (JObj [(''id'', JStr ''at1'')])])"
  using removed_upload_stays_gone [of "''s1''" "''u1''" "[SettleUpload ''s1'' ''u1'' (JObj [(''id'', JStr ''at1'')])]"]
  by simp

definition away_and_back :: "chat_action list" where
  "away_and_back = [AddUpload ''s1'' (demo_upload ''uploading''), Switch (Some ''b'') None,
     Switch (Some ''a'') None,
     SettleUpload ''s1'' ''u1'' (JObj [(''id'', JStr ''at1''), (''filename'', JStr ''a.png''), (''url'', JStr ''/f'')])]"

text \<open>C12. A workspace switch can lose work: a draft written between the switch and its microtask replaces all drafts of the new workspace by those of the old one, and an upload that was running when the user left the workspace is gone when it completes after the return.\<close>

theorem switch_hazards:
  "(let s = chat_run (createChatStore p (\<lambda>_. None)) acts;
        s' = setInputDraft sid t (switch_workspace slug wsId s)
    in draft_view (readDrafts (stored s') (wsKey slug DRAFTS_KEY)) =
       draft_view (obj_set (inputDrafts (chat s)) sid (JStr t))) \<and>
   uploads_of (chat_run (createChatStore (at_slug ''a'') (\<lambda>_. None)) away_and_back) ''s1'' = []"
proof
  let ?s = "chat_run (createChatStore p (\<lambda>_. None)) acts"
  have "docs_wf (\<lambda>_. None)" by (simp add: docs_wf_def stored_value_def getItem_def)
  then have "obj_wf (inputDrafts (chat ?s))" by (intro slices_wf chat_run_sync create_sync)
  then have wf: "obj_wf (obj_set (inputDrafts (chat ?s)) sid (JStr t))" by simp
  have "slug_of (switch_workspace slug wsId ?s) = slug"
    by (simp add: slug_of_def switch_workspace_def setCurrentWorkspace_def)
  then show "let s = ?s; s' = setInputDraft sid t (switch_workspace slug wsId s)
    in draft_view (readDrafts (stored s') (wsKey slug DRAFTS_KEY)) =
       draft_view (obj_set (inputDrafts (chat s)) sid (JStr t))"
    using readDrafts_writeDrafts [OF wf, of "stored ?s" "wsKey slug DRAFTS_KEY"]
    by (simp add: setInputDraft_def slice_ops key_in_def switch_workspace_def Let_def)
  show "uploads_of (chat_run (createChatStore (at_slug ''a'') (\<lambda>_. None)) away_and_back) ''s1'' = []"
    by code_simp
qed

section \<open>Logout\<close>

text \<open>Drafts typed while no workspace was current are stored under the bare key, which no cleanup removes.\<close>

lemma bare_drafts_survive_logout:
  "clearWorkspaceStorage chat_cleanup_entries slug st DRAFTS_KEY = st DRAFTS_KEY"
  by (auto simp: clearWorkspaceStorage_lookup chat_cleanup_entries_def registerDraftCleanup_def entry_key_def
      slug_key_def WORKSPACE_SCOPED_KEYS_def chat_keys)

lemma expanded_not_rehydrated: "isExpanded (chat (rehydrate s)) = isExpanded (chat s)"
  by (simp add: rehydrate_def split_beta Let_def)

end
