(* ===== verification/JS_Sort.thy ===== *)
theory JS_Sort
  imports JS_Prelude "HOL-Library.List_Lexorder" "HOL-Library.Char_ord"
begin

text \<open>
  \<open>Array.prototype.sort\<close> with a comparator, and when its result is determined: a comparator is
  consistent on a set when it is antisymmetric and transitive there, and the sorted order is
  unique when it is 0 on equal elements only. Strings compare by code units.
\<close>

section \<open>Comparators and the sort\<close>

text \<open>\<open>x || y\<close> on numbers, and the difference of two times, where \<open>NaN\<close> is falsy like 0.\<close>

definition or_number :: "int \<Rightarrow> int \<Rightarrow> int" where
  "or_number x y = (if x \<noteq> 0 then x else y)"

definition time_diff :: "int option \<Rightarrow> int option \<Rightarrow> int" where
  "time_diff x y = (case (x, y) of (Some a, Some b) \<Rightarrow> a - b | _ \<Rightarrow> 0)"

text \<open>\<open>Array.prototype.sort\<close> is a stable sort.\<close>

fun sorted_insert :: "('a \<Rightarrow> 'a \<Rightarrow> int) \<Rightarrow> 'a \<Rightarrow> 'a list \<Rightarrow> 'a list" where
  "sorted_insert cmp x [] = [x]"
| "sorted_insert cmp x (y # ys) = (if cmp x y \<le> 0 then x # y # ys else y # sorted_insert cmp x ys)"

definition array_sort :: "('a \<Rightarrow> 'a \<Rightarrow> int) \<Rightarrow> 'a list \<Rightarrow> 'a list" where
  "array_sort cmp xs = foldr (sorted_insert cmp) xs []"

section \<open>Consistent comparators\<close>

definition consistent_on :: "'a set \<Rightarrow> ('a \<Rightarrow> 'a \<Rightarrow> int) \<Rightarrow> bool" where
  "consistent_on S cmp \<longleftrightarrow>
     (\<forall>a \<in> S. \<forall>b \<in> S. cmp a b < 0 \<longleftrightarrow> 0 < cmp b a) \<and>
     (\<forall>a \<in> S. \<forall>b \<in> S. \<forall>c \<in> S. cmp a b \<le> 0 \<longrightarrow> cmp b c \<le> 0 \<longrightarrow> cmp a c \<le> 0)"

lemma consistent_flip: "consistent_on S cmp \<Longrightarrow> a \<in> S \<Longrightarrow> b \<in> S \<Longrightarrow> cmp a b < 0 \<longleftrightarrow> 0 < cmp b a"
  unfolding consistent_on_def by blast

lemma consistent_trans:
  "consistent_on S cmp \<Longrightarrow> a \<in> S \<Longrightarrow> b \<in> S \<Longrightarrow> c \<in> S \<Longrightarrow> cmp a b \<le> 0 \<Longrightarrow> cmp b c \<le> 0 \<Longrightarrow> cmp a c \<le> 0"
  unfolding consistent_on_def by blast

lemma consistent_or:
  assumes f: "consistent_on S f" and g: "consistent_on S g"
  shows "consistent_on S (\<lambda>a b. or_number (f a b) (g a b))"
  unfolding consistent_on_def
proof (intro conjI ballI impI)
  fix a b assume "a \<in> S" "b \<in> S"
  then show "or_number (f a b) (g a b) < 0 \<longleftrightarrow> 0 < or_number (f b a) (g b a)"
    using consistent_flip [OF f, of a b] consistent_flip [OF f, of b a] consistent_flip [OF g, of a b]
    unfolding or_number_def by auto
next
  fix a b c assume s: "a \<in> S" "b \<in> S" "c \<in> S"
    and ab: "or_number (f a b) (g a b) \<le> 0" and bc: "or_number (f b c) (g b c) \<le> 0"
  have fab: "f a b \<le> 0" and fbc: "f b c \<le> 0" using ab bc unfolding or_number_def by (auto split: if_splits)
  have fac: "f a c \<le> 0" using consistent_trans [OF f s fab fbc] .
  show "or_number (f a c) (g a c) \<le> 0"
  proof (cases "f a c = 0")
    case True
    then have ca: "f c a \<le> 0" using consistent_flip [OF f s(1,3)] by linarith
    have "f b a \<le> 0" using consistent_trans [OF f s(2,3,1) fbc ca] .
    then have "f a b = 0" using fab consistent_flip [OF f s(1,2)] by linarith
    moreover have "f c b \<le> 0" using consistent_trans [OF f s(3,1,2) ca fab] .
    then have "f b c = 0" using fbc consistent_flip [OF f s(2,3)] by linarith
    ultimately have "g a b \<le> 0" "g b c \<le> 0" using ab bc by (simp_all add: or_number_def)
    then show ?thesis using True consistent_trans [OF g s] by (simp add: or_number_def)
  qed (use fac in \<open>simp add: or_number_def\<close>)
qed

lemma consistent_dir:
  assumes f: "consistent_on S f" and d: "d = 1 \<or> d = (-1::int)"
  shows "consistent_on S (\<lambda>a b. d * f a b)"
proof -
  have "consistent_on S (\<lambda>a b. - f a b)"
    unfolding consistent_on_def
  proof (intro conjI ballI impI)
    fix a b assume "a \<in> S" "b \<in> S"
    then show "- f a b < 0 \<longleftrightarrow> 0 < - f b a" using consistent_flip [OF f, of b a] by simp
  next
    fix a b c assume s: "a \<in> S" "b \<in> S" "c \<in> S" and "- f a b \<le> 0" "- f b c \<le> 0"
    then have "f c b \<le> 0" "f b a \<le> 0"
      using consistent_flip [OF f s(1,2)] consistent_flip [OF f s(2,3)] by linarith+
    then show "- f a c \<le> 0"
      using consistent_trans [OF f s(3,2,1)] consistent_flip [OF f s(1,3)] by linarith
  qed
  then show ?thesis using d f by auto
qed

lemma consistent_key: "consistent_on S (\<lambda>a b. k a - k b)"
  unfolding consistent_on_def by auto

lemma consistent_pull: "consistent_on UNIV f \<Longrightarrow> consistent_on S (\<lambda>a b. f (k a) (k b))"
  unfolding consistent_on_def by blast

lemma consistent_time:
  assumes "\<forall>x \<in> S. tm (k x) \<noteq> None"
  shows "consistent_on S (\<lambda>a b. time_diff (tm (k a)) (tm (k b)))"
    "consistent_on S (\<lambda>a b. time_diff (tm (k b)) (tm (k a)))"
proof -
  have eq: "time_diff (tm (k a)) (tm (k b)) = the (tm (k a)) - the (tm (k b))" if ab: "a \<in> S" "b \<in> S" for a b
  proof -
    obtain u where "tm (k a) = Some u" using assms ab(1) by blast
    moreover obtain v where "tm (k b) = Some v" using assms ab(2) by blast
    ultimately show ?thesis by (simp add: time_diff_def)
  qed
  show "consistent_on S (\<lambda>a b. time_diff (tm (k a)) (tm (k b)))"
    "consistent_on S (\<lambda>a b. time_diff (tm (k b)) (tm (k a)))"
    unfolding consistent_on_def by (simp_all add: eq)
qed

text \<open>Missing values last.\<close>

definition cmp_option :: "('v \<Rightarrow> 'v \<Rightarrow> int) \<Rightarrow> 'v option \<Rightarrow> 'v option \<Rightarrow> int" where
  "cmp_option f x y = (case (x, y) of (None, None) \<Rightarrow> 0 | (None, Some v) \<Rightarrow> 1 | (Some v, None) \<Rightarrow> -1
     | (Some u, Some v) \<Rightarrow> f u v)"

lemma consistent_option:
  assumes f: "consistent_on UNIV f"
  shows "consistent_on S (\<lambda>a b. cmp_option f (k a) (k b))"
proof -
  have "consistent_on UNIV (cmp_option f)"
    unfolding consistent_on_def
  proof (intro conjI ballI impI)
    fix x y
    show "cmp_option f x y < 0 \<longleftrightarrow> 0 < cmp_option f y x"
      using consistent_flip [OF f, of "the x" "the y"]
      by (cases x; cases y) (simp_all add: cmp_option_def)
  next
    fix x y z assume "cmp_option f x y \<le> 0" "cmp_option f y z \<le> 0"
    then show "cmp_option f x z \<le> 0"
      using consistent_trans [OF f, of "the x" "the y" "the z"]
      by (cases x; cases y; cases z) (simp_all add: cmp_option_def)
  qed
  then show ?thesis by (rule consistent_pull)
qed

lemma consistent_cong:
  "(\<And>a b. a \<in> S \<Longrightarrow> b \<in> S \<Longrightarrow> f a b = g a b) \<Longrightarrow> consistent_on S f \<longleftrightarrow> consistent_on S g"
  unfolding consistent_on_def by simp

section \<open>Sorting\<close>

lemma sorted_insert_mset [simp]: "mset (sorted_insert cmp x ys) = add_mset x (mset ys)"
  by (induction ys) auto

lemma array_sort_mset [simp]: "mset (array_sort cmp xs) = mset xs"
  unfolding array_sort_def by (induction xs) simp_all

lemma array_sort_set [simp]: "set (array_sort cmp xs) = set xs"
  using array_sort_mset by (rule mset_eq_setD)

lemma array_sort_length [simp]: "length (array_sort cmp xs) = length xs"
  using array_sort_mset by (rule mset_eq_length)

definition ordered :: "('a \<Rightarrow> 'a \<Rightarrow> int) \<Rightarrow> 'a list \<Rightarrow> bool" where
  "ordered cmp xs \<longleftrightarrow> sorted_wrt (\<lambda>a b. cmp a b \<le> 0) xs"

lemma sorted_insert_set [simp]: "set (sorted_insert cmp x ys) = insert x (set ys)"
  by (induction ys) auto

lemma sorted_insert_ordered:
  assumes c: "consistent_on S cmp"
  shows "insert x (set ys) \<subseteq> S \<Longrightarrow> ordered cmp ys \<Longrightarrow> ordered cmp (sorted_insert cmp x ys)"
proof (induction ys)
  case (Cons y ys)
  show ?case
  proof (cases "cmp x y \<le> 0")
    case True
    have "cmp x z \<le> 0" if "z \<in> set ys" for z
      using consistent_trans [OF c _ _ _ True, of z] Cons.prems that by (auto simp: ordered_def)
    then show ?thesis using True Cons.prems by (simp add: ordered_def)
  next
    case False
    then have "cmp y x \<le> 0" using consistent_flip [OF c, of y x] Cons.prems by simp
    then show ?thesis using False Cons by (simp add: ordered_def)
  qed
qed (simp add: ordered_def)

lemma array_sort_ordered:
  assumes "consistent_on S cmp"
  shows "set xs \<subseteq> S \<Longrightarrow> ordered cmp (array_sort cmp xs)"
proof (induction xs)
  case (Cons x xs)
  have "array_sort cmp (x # xs) = sorted_insert cmp x (array_sort cmp xs)" by (simp add: array_sort_def)
  then show ?case using Cons sorted_insert_ordered [OF assms, of x "array_sort cmp xs"] by simp
qed (simp add: array_sort_def ordered_def)

text \<open>A comparator that is 0 only on equal elements leaves one order.\<close>

lemma ordered_unique:
  assumes "consistent_on S cmp" and strict: "\<And>a b. a \<in> S \<Longrightarrow> b \<in> S \<Longrightarrow> cmp a b = 0 \<Longrightarrow> a = b"
  shows "set xs \<subseteq> S \<Longrightarrow> ordered cmp xs \<Longrightarrow> ordered cmp ys \<Longrightarrow> mset xs = mset ys \<Longrightarrow> xs = ys"
proof (induction xs arbitrary: ys)
  case (Cons x xs)
  obtain y zs where ys: "ys = y # zs" using Cons.prems(4) by (cases ys) auto
  have sets: "set (x # xs) = set (y # zs)" using mset_eq_setD Cons.prems(4) ys by blast
  have "x = y"
  proof (rule ccontr)
    assume n: "x \<noteq> y"
    then have "y \<in> set xs" "x \<in> set zs" using sets by (auto simp: set_eq_iff)
    then have "cmp x y \<le> 0" "cmp y x \<le> 0" using Cons.prems(2,3) ys by (simp_all add: ordered_def)
    moreover have s: "x \<in> S" "y \<in> S" using Cons.prems(1) sets by auto
    ultimately have "cmp x y = 0" using consistent_flip [OF assms(1) s] consistent_flip [OF assms(1) s(2,1)] by linarith
    then show False using strict s n by blast
  qed
  then show ?case using Cons ys by (simp add: ordered_def)
qed simp

lemma array_sort_cong:
  assumes "consistent_on S cmp" "\<And>a b. a \<in> S \<Longrightarrow> b \<in> S \<Longrightarrow> cmp a b = 0 \<Longrightarrow> a = b"
    "set xs \<subseteq> S" "mset xs = mset ys"
  shows "array_sort cmp xs = array_sort cmp ys"
proof (rule ordered_unique [OF assms(1,2)])
  have "set ys \<subseteq> S" using assms(3) mset_eq_setD [OF assms(4)] by simp
  then show "ordered cmp (array_sort cmp xs)" "ordered cmp (array_sort cmp ys)"
    using array_sort_ordered assms by blast+
qed (use assms in simp_all)

lemma or_number_zero [simp]: "or_number x y = 0 \<longleftrightarrow> x = 0 \<and> y = 0"
  by (simp add: or_number_def)

text \<open>A sorted array stays as it is.\<close>

lemma array_sort_ordered_id: "ordered cmp xs \<Longrightarrow> array_sort cmp xs = xs"
proof (induction xs)
  case (Cons x xs)
  then have "array_sort cmp xs = xs" by (simp add: ordered_def)
  moreover have "sorted_insert cmp x xs = x # xs" using Cons.prems by (cases xs) (simp_all add: ordered_def)
  ultimately show ?case by (simp add: array_sort_def)
qed (simp add: array_sort_def)

text \<open>The sort compares an element with the others only, so comparators that agree on distinct
  elements sort alike.\<close>

lemma sorted_insert_agree:
  "(\<And>y. y \<in> set ys \<Longrightarrow> f x y = g x y) \<Longrightarrow> sorted_insert f x ys = sorted_insert g x ys"
  by (induction ys) simp_all

lemma array_sort_agree:
  "distinct xs \<Longrightarrow> (\<And>a b. a \<in> set xs \<Longrightarrow> b \<in> set xs \<Longrightarrow> a \<noteq> b \<Longrightarrow> f a b = g a b) \<Longrightarrow>
     array_sort f xs = array_sort g xs"
proof (induction xs)
  case (Cons x xs)
  have "array_sort f xs = array_sort g xs" using Cons by simp
  moreover have "sorted_insert f x (array_sort g xs) = sorted_insert g x (array_sort g xs)"
    using Cons.prems by (intro sorted_insert_agree) auto
  ultimately show ?case by (simp add: array_sort_def)
qed (simp add: array_sort_def)

text \<open>A stable sort commutes with a filter, and with a map that keeps the order.\<close>

lemma sorted_insert_first: "ordered cmp (x # ys) \<Longrightarrow> sorted_insert cmp x ys = x # ys"
  by (cases ys) (simp_all add: ordered_def)

lemma filter_sorted_insert:
  assumes c: "consistent_on S cmp"
  shows "insert x (set ys) \<subseteq> S \<Longrightarrow> ordered cmp ys \<Longrightarrow>
    filter P (sorted_insert cmp x ys) = (if P x then sorted_insert cmp x (filter P ys) else filter P ys)"
proof (induction ys)
  case (Cons y ys)
  show ?case
  proof (cases "cmp x y \<le> 0")
    case True
    have all: "cmp x z \<le> 0" if "z \<in> set (y # ys)" for z
      using that True consistent_trans [OF c _ _ _ True, of z] Cons.prems by (auto simp: ordered_def)
    then have "ordered cmp (x # filter P (y # ys))"
      using Cons.prems(2) unfolding ordered_def by (auto intro: sorted_wrt_filter)
    then have "P x \<Longrightarrow> sorted_insert cmp x (filter P (y # ys)) = x # filter P (y # ys)"
      by (rule sorted_insert_first)
    then show ?thesis using True by auto
  next
    case False
    then show ?thesis using Cons by (simp add: ordered_def)
  qed
qed simp

lemma filter_array_sort:
  assumes c: "consistent_on S cmp"
  shows "set xs \<subseteq> S \<Longrightarrow> filter P (array_sort cmp xs) = array_sort cmp (filter P xs)"
proof (induction xs)
  case (Cons x xs)
  have "ordered cmp (array_sort cmp xs)" using array_sort_ordered [OF c] Cons.prems by simp
  then have "filter P (sorted_insert cmp x (array_sort cmp xs)) =
      (if P x then sorted_insert cmp x (filter P (array_sort cmp xs)) else filter P (array_sort cmp xs))"
    using filter_sorted_insert [OF c, of x "array_sort cmp xs" P] Cons.prems by simp
  then show ?case using Cons by (simp add: array_sort_def)
qed (simp add: array_sort_def)

lemma map_sorted_insert:
  "(\<And>a b. cmp (f a) (f b) = cmp a b) \<Longrightarrow> map f (sorted_insert cmp x ys) = sorted_insert cmp (f x) (map f ys)"
  by (induction ys) simp_all

lemma map_array_sort:
  "(\<And>a b. cmp (f a) (f b) = cmp a b) \<Longrightarrow> map f (array_sort cmp xs) = array_sort cmp (map f xs)"
  unfolding array_sort_def by (induction xs) (simp_all add: map_sorted_insert)

end
