(* ===== verification/Issue_Paging.thy ===== *)
theory Issue_Paging
  imports Issue_Coordinator JS_Number JS_Sort
begin

text \<open>
  The fetches behind the issue lists (\<open>packages/core/issues/queries.ts\<close>): the loops that walk a
  paged endpoint, the merge of the three relations of "all my issues" and the comparator that
  orders the merge. The server is a parameter: the answer to the \<open>k\<close>-th request of a loop at an
  offset, \<open>None\<close> when the request is rejected. \<open>localeCompare\<close> and \<open>Date.parse\<close> (\<open>None\<close> for an
  invalid date, \<open>NaN\<close>) are parameters too. A loop that need not
  end is a partial function: \<open>None\<close> is "never settles".
\<close>

section \<open>The comparator of the merged lists\<close>

fun prop_string :: "prop_value \<Rightarrow> string" where
  "prop_string (PText s) = s"
| "prop_string (PNum n) = string_of_int n"
| "prop_string (PBool b) = (if b then ''true'' else ''false'')"
| "prop_string (PList ss) = join '','' ss"

definition prop_missing :: "prop_value option \<Rightarrow> bool" where
  "prop_missing v \<longleftrightarrow> (case v of None \<Rightarrow> True | Some (PList ss) \<Rightarrow> True | Some (PBool b) \<Rightarrow> True | _ \<Rightarrow> False)"

definition MERGE_STATUS_RANK :: "issue_status \<Rightarrow> int" where
  "MERGE_STATUS_RANK s = (case s of Backlog \<Rightarrow> 0 | Todo \<Rightarrow> 1 | In_progress \<Rightarrow> 2 | In_review \<Rightarrow> 3
     | Done \<Rightarrow> 4 | Blocked \<Rightarrow> 5 | Cancelled \<Rightarrow> 6)"

definition MERGE_PRIORITY_RANK :: "issue_priority \<Rightarrow> int" where
  "MERGE_PRIORITY_RANK p = (case p of Urgent \<Rightarrow> 0 | High \<Rightarrow> 1 | Medium \<Rightarrow> 2 | Low \<Rightarrow> 3 | NoPriority \<Rightarrow> 4)"

text \<open>What the comparator takes from the language.\<close>

record compare_env =
  locale_compare :: "string \<Rightarrow> string \<Rightarrow> int"
  date_time :: "string \<Rightarrow> int option"

definition property_of :: "issue \<Rightarrow> string \<Rightarrow> prop_value option" where
  "property_of x pid = Option.bind (properties x) (\<lambda>bag. obj_get bag pid)"

definition tie_break :: "compare_env \<Rightarrow> issue \<Rightarrow> issue \<Rightarrow> int" where
  "tie_break env a b =
     or_number (time_diff (date_time env (created_at b)) (date_time env (created_at a)))
       (if issue_id a < issue_id b then 1 else if issue_id a > issue_id b then -1 else 0)"

definition missing_aware ::
    "compare_env \<Rightarrow> int \<Rightarrow> string option \<Rightarrow> string option \<Rightarrow> issue \<Rightarrow> issue \<Rightarrow> int" where
  "missing_aware env dir av bv a b =
     (case (truthy av, truthy bv) of
        (None, None) \<Rightarrow> tie_break env a b
      | (None, Some y) \<Rightarrow> 1
      | (Some x, None) \<Rightarrow> -1
      | (Some x, Some y) \<Rightarrow> or_number (dir * locale_compare env x y) (tie_break env a b))"

definition compare_property :: "compare_env \<Rightarrow> int \<Rightarrow> string \<Rightarrow> issue \<Rightarrow> issue \<Rightarrow> int" where
  "compare_property env dir pid a b =
     (let av = property_of a pid; bv = property_of b pid in
      if prop_missing av \<and> prop_missing bv then tie_break env a b
      else if prop_missing av then 1
      else if prop_missing bv then -1
      else (case (av, bv) of
              (Some (PNum x), Some (PNum y)) \<Rightarrow> or_number (dir * (x - y)) (tie_break env a b)
            | (Some x, Some y) \<Rightarrow>
                or_number (dir * locale_compare env (prop_string x) (prop_string y)) (tie_break env a b)
            | _ \<Rightarrow> 0))"

definition compareIssuesForSort ::
    "compare_env \<Rightarrow> string option \<Rightarrow> bool \<Rightarrow> issue \<Rightarrow> issue \<Rightarrow> int" where
  "compareIssuesForSort env sort_by_param is_desc a b =
     (let by_field = or_else ''position'' sort_by_param;
          dir = (if by_field \<noteq> ''position'' \<and> is_desc then -1 else 1);
          tie = tie_break env a b
      in if starts_with by_field ''property:''
         then compare_property env dir (drop (length ''property:'') by_field) a b
         else if by_field = ''status''
         then or_number (dir * (MERGE_STATUS_RANK (status a) - MERGE_STATUS_RANK (status b))) tie
         else if by_field = ''priority''
         then or_number (dir * (MERGE_PRIORITY_RANK (priority a) - MERGE_PRIORITY_RANK (priority b))) tie
         else if by_field = ''title''
         then or_number (dir * locale_compare env (title a) (title b)) tie
         else if by_field = ''created_at''
         then or_number (dir * time_diff (date_time env (created_at a)) (date_time env (created_at b))) tie
         else if by_field = ''updated_at''
         then or_number (dir * time_diff (date_time env (updated_at a)) (date_time env (updated_at b))) tie
         else if by_field = ''start_date'' then missing_aware env dir (start_date a) (start_date b) a b
         else if by_field = ''due_date'' then missing_aware env dir (due_date a) (due_date b) a b
         else or_number (position a - position b) tie)"

section \<open>Walking the pages of a flat list\<close>

datatype fetch_error = Rejected | NoProgress

type_synonym 'a fetched = "fetch_error + 'a"

type_synonym page_server = "nat \<Rightarrow> nat \<Rightarrow> flat_page option"

text \<open>The inner loop: the unseen issues of a page, in order.\<close>

fun take_new :: "issue list \<Rightarrow> string list \<Rightarrow> issue list \<times> string list" where
  "take_new [] seen = ([], seen)"
| "take_new (x # xs) seen =
     (if issue_id x \<in> set seen then take_new xs seen
      else (let (ys, seen') = take_new xs (issue_id x # seen) in (x # ys, seen')))"

partial_function (option) flat_loop ::
    "page_server \<Rightarrow> nat \<Rightarrow> nat \<Rightarrow> issue list \<Rightarrow> string list \<Rightarrow> issue list fetched option" where
  "flat_loop server k offset issues seen =
     (case server k offset of
        None \<Rightarrow> Some (Inl Rejected)
      | Some response \<Rightarrow>
          (let (added, seen') = take_new (page_issues response) seen;
               issues' = issues @ added
           in if int (length issues') \<ge> page_total response then Some (Inr issues')
              else if page_issues response = [] \<or> added = [] then Some (Inl NoProgress)
              else flat_loop server (Suc k) (offset + length (page_issues response)) issues' seen'))"

definition fetchAllFlatPages :: "page_server \<Rightarrow> issue list fetched option" where
  "fetchAllFlatPages server = flat_loop server 0 0 [] []"

text \<open>\<open>Promise.all\<close>: one rejection rejects at once, whatever the others do; the first of the list
  stands for the first in time.\<close>

fun failure_of :: "'a fetched option \<Rightarrow> fetch_error option" where
  "failure_of (Some (Inl e)) = Some e"
| "failure_of p = None"

fun success_of :: "'a fetched option \<Rightarrow> 'a option" where
  "success_of (Some (Inr x)) = Some x"
| "success_of p = None"

definition promise_all :: "'a fetched option list \<Rightarrow> 'a list fetched option" where
  "promise_all ps =
     (case List.map_filter failure_of ps of
        e # es \<Rightarrow> Some (Inl e)
      | [] \<Rightarrow> if None \<in> set ps then None else Some (Inr (List.map_filter success_of ps)))"

definition by_id :: "issue list \<Rightarrow> issue obj" where
  "by_id xs = foldl (\<lambda>m x. obj_set m (issue_id x) x) [] xs"

definition fetchAllMyFlatIssues ::
    "compare_env \<Rightarrow> string option \<Rightarrow> bool \<Rightarrow> page_server list \<Rightarrow> issue list fetched option" where
  "fetchAllMyFlatIssues env sort_by_param is_desc servers =
     (case promise_all (map fetchAllFlatPages servers) of
        None \<Rightarrow> None
      | Some (Inl e) \<Rightarrow> Some (Inl e)
      | Some (Inr relations) \<Rightarrow>
          Some (Inr (array_sort (compareIssuesForSort env sort_by_param is_desc)
                       (map snd (by_id (concat relations))))))"

text \<open>\<open>getNextPageParam\<close> of the flat window: the offset of the next page.\<close>

definition getNextPageParam :: "bool \<Rightarrow> flat_page list \<Rightarrow> int option" where
  "getNextPageParam allMyIssues allPages =
     (if allMyIssues \<or> allPages = [] then None
      else (let loaded = int (sum_list (map (\<lambda>p. length (page_issues p)) allPages)) in
            if loaded < page_total (last allPages) then Some loaded else None))"

section \<open>First pages, merged\<close>

definition fetchFirstPages :: "(issue_status \<Rightarrow> flat_page option) \<Rightarrow> list_cache fetched" where
  "fetchFirstPages server =
     (if list_ex (\<lambda>s. server s = None) PAGINATED_STATUSES then Inl Rejected
      else Inr (\<lambda>s. map_option
        (\<lambda>res. \<lparr>bucket_issues = page_issues res, bucket_total = page_total res\<rparr>) (server s)))"

text \<open>The unseen issues of one status over the three caches, in the order of the caches.\<close>

definition merge_status :: "list_cache list \<Rightarrow> issue_status \<Rightarrow> issue list" where
  "merge_status caches s =
     fst (foldl (\<lambda>(merged, seen) cache.
            case cache s of
              None \<Rightarrow> (merged, seen)
            | Some b \<Rightarrow> (let (new, seen') = take_new (bucket_issues b) seen in (merged @ new, seen')))
          ([], []) caches)"

definition fetchAllMyFirstPages ::
    "compare_env \<Rightarrow> string option \<Rightarrow> bool \<Rightarrow> (issue_status \<Rightarrow> flat_page option) list \<Rightarrow> list_cache fetched" where
  "fetchAllMyFirstPages env by_param is_desc servers =
     (case promise_all (map (\<lambda>sv. Some (fetchFirstPages sv)) servers) of
        Some (Inr caches) \<Rightarrow>
          Inr (\<lambda>s. let merged = array_sort (compareIssuesForSort env by_param is_desc) (merge_status caches s)
                   in Some \<lparr>bucket_issues = merged, bucket_total = int (length merged)\<rparr>)
      | _ \<Rightarrow> Inl Rejected)"

section \<open>Assignee groups, merged\<close>

record assignee_group =
  group_id :: string
  group_type :: "assignee_kind option"
  group_assignee :: "string option"
  group_issues :: "issue list"
  group_total :: int

fun kind_string :: "assignee_kind \<Rightarrow> string" where
  "kind_string MemberActor = ''member''"
| "kind_string AgentActor = ''agent''"
| "kind_string SquadActor = ''squad''"

definition groupKey :: "assignee_group \<Rightarrow> string" where
  "groupKey g = or_else ''_'' (map_option kind_string (group_type g)) @ ''::'' @ or_else ''_'' (group_assignee g)"

definition merge_assignee_group :: "assignee_group obj \<Rightarrow> assignee_group \<Rightarrow> assignee_group obj" where
  "merge_assignee_group merged g =
     (case obj_get merged (groupKey g) of
        None \<Rightarrow> obj_set merged (groupKey g) (g\<lparr>group_total := int (length (group_issues g))\<rparr>)
      | Some existing \<Rightarrow>
          (let (new, seen) = take_new (group_issues g) (map issue_id (group_issues existing));
               issues = group_issues existing @ new
           in obj_set merged (groupKey g)
                (existing\<lparr>group_issues := issues, group_total := int (length issues)\<rparr>)))"

definition fetchAllMyAssigneeGroups ::
    "compare_env \<Rightarrow> string option \<Rightarrow> bool \<Rightarrow> assignee_group list option list \<Rightarrow> assignee_group list fetched" where
  "fetchAllMyAssigneeGroups env by_param is_desc responses =
     (if None \<in> set responses then Inl Rejected
      else Inr (map (\<lambda>g. g\<lparr>group_issues := array_sort (compareIssuesForSort env by_param is_desc) (group_issues g)\<rparr>)
                  (map snd (foldl merge_assignee_group [] (concat (List.map_filter id responses))))))"

section \<open>Loading one more page of a column\<close>

definition hasMore :: "list_cache option \<Rightarrow> issue_status \<Rightarrow> bool" where
  "hasMore cache s \<longleftrightarrow>
     (case Option.bind cache (\<lambda>c. c s) of
        None \<Rightarrow> False
      | Some b \<Rightarrow> int (length (bucket_issues b)) < bucket_total b)"

text \<open>\<open>useLoadMoreByStatus\<close> and \<open>useLoadMoreByAssigneeGroup\<close>: the page that came back is appended.\<close>

definition append_new :: "issue list \<Rightarrow> issue list \<Rightarrow> issue list" where
  "append_new old page = old @ filter (\<lambda>x. issue_id x \<notin> issue_id ` set old) page"

definition loadMoreByStatus :: "issue_status \<Rightarrow> flat_page \<Rightarrow> list_cache option \<Rightarrow> list_cache option" where
  "loadMoreByStatus s res old =
     map_option (\<lambda>c. setBucket c s
       \<lparr>bucket_issues = append_new (bucket_issues (getBucket c s)) (page_issues res),
        bucket_total = page_total res\<rparr>) old"

definition loadMoreByAssigneeGroup ::
    "assignee_group list \<Rightarrow> assignee_group list option \<Rightarrow> assignee_group list option" where
  "loadMoreByAssigneeGroup res old =
     (case res of
        [] \<Rightarrow> old
      | next_group # rest \<Rightarrow>
          map_option (map (\<lambda>g. if group_id g \<noteq> group_id next_group then g
            else g\<lparr>group_issues := append_new (group_issues g) (group_issues next_group),
                   group_total := group_total next_group\<rparr>)) old)"

section \<open>The Gantt list of a project\<close>

definition PROJECT_GANTT_PAGE_LIMIT :: nat where
  "PROJECT_GANTT_PAGE_LIMIT = 500"

definition PROJECT_GANTT_MAX_ISSUES :: nat where
  "PROJECT_GANTT_MAX_ISSUES = 10000"

function gantt_loop :: "page_server \<Rightarrow> nat \<Rightarrow> nat \<Rightarrow> issue list \<Rightarrow> issue list fetched" where
  "gantt_loop server k offset issues =
     (if offset < PROJECT_GANTT_MAX_ISSUES then
        (case server k offset of
           None \<Rightarrow> Inl Rejected
         | Some res \<Rightarrow>
             (let issues' = issues @ page_issues res in
              if length (page_issues res) < PROJECT_GANTT_PAGE_LIMIT then Inr issues'
              else if int (length issues') \<ge> page_total res then Inr issues'
              else gantt_loop server (Suc k) (offset + PROJECT_GANTT_PAGE_LIMIT) issues'))
      else Inr issues)"
  by pat_completeness auto

termination
  by (relation "measure (\<lambda>(server, k, offset, issues). PROJECT_GANTT_MAX_ISSUES - offset)")
    (simp_all add: PROJECT_GANTT_PAGE_LIMIT_def)

declare gantt_loop.simps [simp del]

definition fetchProjectGanttIssues :: "page_server \<Rightarrow> issue list fetched" where
  "fetchProjectGanttIssues server = gantt_loop server 0 0 []"

section \<open>Children of many parents\<close>

definition CHILDREN_BY_PARENTS_CHUNK_SIZE :: nat where
  "CHILDREN_BY_PARENTS_CHUNK_SIZE = 200"

function parent_chunks :: "string list \<Rightarrow> string list list" where
  "parent_chunks ids =
     (if ids = [] then []
      else take CHILDREN_BY_PARENTS_CHUNK_SIZE ids # parent_chunks (drop CHILDREN_BY_PARENTS_CHUNK_SIZE ids))"
  by pat_completeness auto

termination
  by (relation "measure length") (simp_all add: CHILDREN_BY_PARENTS_CHUNK_SIZE_def)

declare parent_chunks.simps [simp del]

definition group_child :: "issue list obj \<Rightarrow> issue \<Rightarrow> issue list obj" where
  "group_child grouped x =
     (case truthy (parent_issue_id x) of
        None \<Rightarrow> grouped
      | Some p \<Rightarrow>
          (case obj_get grouped p of
             Some bucket \<Rightarrow> obj_set grouped p (bucket @ [x])
           | None \<Rightarrow> obj_set grouped p [x]))"

text \<open>Hydration writes a parent's own cache only where that is missing or empty.\<close>

definition hydrate_children :: "issue list obj \<Rightarrow> issue list obj \<Rightarrow> issue list obj" where
  "hydrate_children grouped caches =
     foldl (\<lambda>acc (p, children).
       case obj_get acc p of
         Some existing \<Rightarrow> if existing = [] then obj_set acc p children else acc
       | None \<Rightarrow> obj_set acc p children) caches grouped"

definition fetchAndHydrateChildrenByParents ::
    "(string list \<Rightarrow> issue list option) \<Rightarrow> string list \<Rightarrow> issue list obj \<Rightarrow>
     (issue list obj \<times> issue list obj) fetched" where
  "fetchAndHydrateChildrenByParents api parentIds caches =
     (let responses = map api (parent_chunks parentIds) in
      if None \<in> set responses then Inl Rejected
      else (let grouped = foldl group_child [] (concat (List.map_filter id responses))
            in Inr (grouped, hydrate_children grouped caches)))"

end
