(* ===== verification/Paging_Properties.thy ===== *)
theory Paging_Properties
  imports Issue_Paging
begin

text \<open>
  The properties of the issue fetches: the export loop settles and returns the server's list, and
  the three relations of "all my issues" merge into one ordered list.
\<close>

text \<open>
  What the paging loops return and when they settle, the consistency of the comparator of the
  merged lists, stable sorting, and the merges.
\<close>

section \<open>The flat loop\<close>

lemma flat_loop_returns:
  assumes bounded: "\<And>k offset pg. server k offset = Some pg \<Longrightarrow> page_total pg \<le> N"
  shows "\<exists>r. flat_loop server k offset issues seen = Some r"
proof (induction "nat (N - int (length issues))" arbitrary: k offset issues seen rule: less_induct)
  case less
  show ?case
  proof (cases "server k offset")
    case None
    then show ?thesis by (simp add: flat_loop.simps)
  next
    case (Some pg)
    obtain added seen' where new: "take_new (page_issues pg) seen = (added, seen')" by fastforce
    show ?thesis
    proof (cases "int (length (issues @ added)) \<ge> page_total pg \<or> page_issues pg = [] \<or> added = []")
      case True
      then show ?thesis using Some new by (subst flat_loop.simps) (auto simp: Let_def)
    next
      case False
      moreover have "page_total pg \<le> N" using bounded Some .
      ultimately have "nat (N - int (length (issues @ added))) < nat (N - int (length issues))" by auto
      then obtain r where "flat_loop server (Suc k) (offset + length (page_issues pg)) (issues @ added) seen' = Some r"
        using less by blast
      then show ?thesis using False Some new by (subst flat_loop.simps) (simp add: Let_def)
    qed
  qed
qed

lemma take_new_split:
  obtains added seen' where "take_new xs seen = (added, seen')"
  by (cases "take_new xs seen") blast

lemma take_new_added: "take_new xs seen = (added, seen') \<Longrightarrow>
    distinct (map issue_id added) \<and> issue_id ` set added = issue_id ` set xs - set seen \<and> set added \<subseteq> set xs"
proof (induction xs arbitrary: seen added seen')
  case (Cons x xs)
  show ?case
  proof (cases "issue_id x \<in> set seen")
    case True
    then show ?thesis using Cons.IH [of seen added seen'] Cons.prems by auto
  next
    case False
    obtain ys s where ys: "take_new xs (issue_id x # seen) = (ys, s)" by (rule take_new_split)
    have "added = x # ys" using Cons.prems False ys by simp
    then show ?thesis using Cons.IH [OF ys] False by auto
  qed
qed simp

lemma take_new_seen: "take_new xs seen = (added, seen') \<Longrightarrow> set seen' = set seen \<union> issue_id ` set xs"
proof (induction xs arbitrary: seen added seen')
  case (Cons x xs)
  show ?case
  proof (cases "issue_id x \<in> set seen")
    case True
    then show ?thesis using Cons.IH [of seen added seen'] Cons.prems by auto
  next
    case False
    obtain ys s where ys: "take_new xs (issue_id x # seen) = (ys, s)" by (rule take_new_split)
    then have "seen' = s" using Cons.prems False by simp
    then show ?thesis using Cons.IH [OF ys] by simp
  qed
qed simp

definition loop_state :: "issue list \<Rightarrow> string list \<Rightarrow> bool" where
  "loop_state issues seen \<longleftrightarrow> distinct (map issue_id issues) \<and> set seen = issue_id ` set issues"

lemma loop_state_step:
  assumes "loop_state issues seen" "take_new xs seen = (added, seen')"
  shows "loop_state (issues @ added) seen'"
proof -
  have "distinct (map issue_id added)" "issue_id ` set added = issue_id ` set xs - set seen"
    using take_new_added [OF assms(2)] by simp_all
  then show ?thesis using assms(1) take_new_seen [OF assms(2)]
    by (simp add: loop_state_def image_Un Un_Diff_cancel)
qed

lemma flat_loop_distinct:
  assumes ret: "flat_loop server k offset issues seen = Some r" and st: "loop_state issues seen"
  shows "\<forall>xs. r = Inr xs \<longrightarrow> distinct (map issue_id xs)"
proof -
  have "loop_state issues seen \<longrightarrow> (\<forall>xs. r = Inr xs \<longrightarrow> distinct (map issue_id xs))"
  proof (rule flat_loop.raw_induct [where P = "\<lambda>server k offset issues seen r.
      loop_state issues seen \<longrightarrow> (\<forall>xs. r = Inr xs \<longrightarrow> distinct (map issue_id xs))", OF _ ret])
    fix f and server :: page_server and k offset issues seen and r :: "issue list fetched"
    assume IH: "\<And>server k offset issues seen r. f server k offset issues seen = Some r \<Longrightarrow>
        loop_state issues seen \<longrightarrow> (\<forall>xs. r = Inr xs \<longrightarrow> distinct (map issue_id xs))"
      and eq: "(case server k offset of None \<Rightarrow> Some (Inl Rejected)
        | Some response \<Rightarrow>
            (let (added, seen') = take_new (page_issues response) seen; issues' = issues @ added
             in if int (length issues') \<ge> page_total response then Some (Inr issues')
                else if page_issues response = [] \<or> added = [] then Some (Inl NoProgress)
                else f server (Suc k) (offset + length (page_issues response)) issues' seen')) = Some r"
    show "loop_state issues seen \<longrightarrow> (\<forall>xs. r = Inr xs \<longrightarrow> distinct (map issue_id xs))"
    proof (intro impI)
      assume st: "loop_state issues seen"
      show "\<forall>xs. r = Inr xs \<longrightarrow> distinct (map issue_id xs)"
      proof (cases "server k offset")
        case None
        then show ?thesis using eq by auto
      next
        case (Some pg)
        obtain added seen' where new: "take_new (page_issues pg) seen = (added, seen')" by fastforce
        have st': "loop_state (issues @ added) seen'" using loop_state_step [OF st new] .
        then show ?thesis using eq Some new IH st'
          by (auto simp: Let_def loop_state_def split: if_splits)
      qed
    qed
  qed
  then show ?thesis using st by blast
qed


definition snapshot_server :: "page_server \<Rightarrow> issue list \<Rightarrow> bool" where
  "snapshot_server server xs \<longleftrightarrow>
     (\<forall>k offset. \<exists>n > 0. server k offset =
        Some \<lparr>page_issues = take n (drop offset xs), page_total = int (length xs)\<rparr>)"

lemma take_new_fresh:
  "distinct (map issue_id xs) \<Longrightarrow> issue_id ` set xs \<inter> set seen = {} \<Longrightarrow> fst (take_new xs seen) = xs"
proof (induction xs arbitrary: seen)
  case (Cons x xs)
  have "fst (take_new xs (issue_id x # seen)) = xs" using Cons by auto
  then show ?case using Cons.prems by (auto simp: case_prod_unfold Let_def)
qed simp

lemma ids_apart_parts:
  assumes "distinct (map issue_id xs)"
  shows "issue_id ` set (take n (drop m xs)) \<inter> issue_id ` set (take m xs) = {}"
proof -
  have "distinct (map issue_id (take m xs @ drop m xs))" using assms by simp
  then have "issue_id ` set (drop m xs) \<inter> issue_id ` set (take m xs) = {}"
    unfolding map_append distinct_append by auto
  then show ?thesis using set_take_subset [of n "drop m xs"] by blast
qed

lemma flat_loop_snapshot:
  assumes snap: "snapshot_server server xs" and ids: "distinct (map issue_id xs)"
  shows "offset < length xs \<or> xs = [] \<Longrightarrow> loop_state (take offset xs) seen \<Longrightarrow>
         flat_loop server k offset (take offset xs) seen = Some (Inr xs)"
proof (induction "length xs - offset" arbitrary: k offset seen rule: less_induct)
  case less
  obtain n where n: "n > 0" "server k offset =
      Some \<lparr>page_issues = take n (drop offset xs), page_total = int (length xs)\<rparr>"
    using snap unfolding snapshot_server_def by blast
  let ?page = "take n (drop offset xs)"
  obtain added seen' where new: "take_new ?page seen = (added, seen')" by (rule take_new_split)
  have "distinct (map issue_id ?page)" using ids by (simp add: take_map [symmetric] drop_map [symmetric])
  moreover have "issue_id ` set ?page \<inter> set seen = {}"
    using ids_apart_parts [OF ids] less.prems(2) by (simp add: loop_state_def)
  ultimately have added: "added = ?page" using take_new_fresh [of ?page seen] new by simp
  have step: "take offset xs @ added = take (offset + n) xs" using added by (simp add: take_add)
  show ?case
  proof (cases "offset + n \<ge> length xs")
    case True
    then show ?thesis using n(2) new added by (subst flat_loop.simps) (auto simp: Let_def)
  next
    case False
    then have page: "length ?page = n" "?page \<noteq> []" using n(1) by auto
    have "loop_state (take (offset + n) xs) seen'"
      using loop_state_step [OF less.prems(2) new] step by simp
    then have "flat_loop server (Suc k) (offset + n) (take (offset + n) xs) seen' = Some (Inr xs)"
      using less.hyps [of "offset + n"] False n(1) by simp
    then show ?thesis using n(2) new step page added False by (subst flat_loop.simps) (simp add: Let_def)
  qed
qed

section \<open>The comparator is consistent\<close>

definition id_order :: "issue \<Rightarrow> issue \<Rightarrow> int" where
  "id_order a b = (if issue_id a < issue_id b then 1 else if issue_id a > issue_id b then -1 else 0)"

lemma consistent_id: "consistent_on S id_order"
  unfolding consistent_on_def id_order_def by auto

lemma tie_break_eq:
  "tie_break env a b =
     or_number (time_diff (date_time env (created_at b)) (date_time env (created_at a))) (id_order a b)"
  by (simp add: tie_break_def id_order_def)

lemma missing_aware_eq:
  "missing_aware env dir av bv a b =
     or_number (cmp_option (\<lambda>x y. dir * locale_compare env x y) (truthy av) (truthy bv)) (tie_break env a b)"
  by (simp add: missing_aware_def cmp_option_def or_number_def split: option.splits)


text \<open>A property of one type: its values are all numbers, or all texts.\<close>

definition one_type :: "string \<Rightarrow> issue set \<Rightarrow> bool" where
  "one_type pid S \<longleftrightarrow>
     (\<forall>x \<in> S. prop_missing (property_of x pid) \<or> (\<exists>n. property_of x pid = Some (PNum n))) \<or>
     (\<forall>x \<in> S. prop_missing (property_of x pid) \<or> (\<exists>s. property_of x pid = Some (PText s)))"

definition num_value :: "prop_value option \<Rightarrow> int option" where
  "num_value v = (case v of Some (PNum n) \<Rightarrow> Some n | _ \<Rightarrow> None)"

definition text_value :: "prop_value option \<Rightarrow> string option" where
  "text_value v = (case v of Some (PText s) \<Rightarrow> Some s | _ \<Rightarrow> None)"

lemma compare_property_num:
  assumes "prop_missing (property_of a pid) \<or> (\<exists>n. property_of a pid = Some (PNum n))"
    "prop_missing (property_of b pid) \<or> (\<exists>n. property_of b pid = Some (PNum n))"
  shows "compare_property env dir pid a b =
    or_number (cmp_option (\<lambda>x y. dir * (x - y)) (num_value (property_of a pid)) (num_value (property_of b pid)))
      (tie_break env a b)"
  using assms
  by (auto simp: compare_property_def cmp_option_def num_value_def or_number_def prop_missing_def Let_def
      split: option.splits prop_value.splits)

lemma compare_property_text:
  assumes "prop_missing (property_of a pid) \<or> (\<exists>s. property_of a pid = Some (PText s))"
    "prop_missing (property_of b pid) \<or> (\<exists>s. property_of b pid = Some (PText s))"
  shows "compare_property env dir pid a b =
    or_number (cmp_option (\<lambda>x y. dir * locale_compare env x y)
        (text_value (property_of a pid)) (text_value (property_of b pid)))
      (tie_break env a b)"
  using assms
  by (auto simp: compare_property_def cmp_option_def text_value_def or_number_def prop_missing_def Let_def
      split: option.splits prop_value.splits)

text \<open>What the comparator needs of its environment: a consistent \<open>localeCompare\<close>, valid dates, and
  properties of one type each.\<close>

definition env_ok :: "compare_env \<Rightarrow> issue set \<Rightarrow> bool" where
  "env_ok env S \<longleftrightarrow>
     consistent_on UNIV (locale_compare env) \<and>
     (\<forall>x \<in> S. date_time env (created_at x) \<noteq> None) \<and>
     (\<forall>x \<in> S. date_time env (updated_at x) \<noteq> None) \<and>
     (\<forall>pid. one_type pid S)"

lemma consistent_tie: "env_ok env S \<Longrightarrow> consistent_on S (tie_break env)"
  unfolding tie_break_eq [abs_def]
  by (intro consistent_or consistent_time(2) consistent_id) (simp add: env_ok_def)

lemma consistent_missing:
  assumes "env_ok env S" "dir = 1 \<or> dir = -1"
  shows "consistent_on S (\<lambda>a b. missing_aware env dir (k a) (k b) a b)"
proof -
  have "consistent_on UNIV (\<lambda>x y. dir * locale_compare env x y)"
    using assms unfolding env_ok_def by (intro consistent_dir) simp_all
  then have "consistent_on S (\<lambda>a b. cmp_option (\<lambda>x y. dir * locale_compare env x y) (truthy (k a)) (truthy (k b)))"
    by (rule consistent_option)
  then show ?thesis
    unfolding missing_aware_eq by (intro consistent_or consistent_tie assms(1))
qed

lemma consistent_property:
  assumes env: "env_ok env S" and d: "dir = 1 \<or> dir = -1"
  shows "consistent_on S (compare_property env dir pid)"
proof -
  have "consistent_on UNIV (\<lambda>x y. dir * locale_compare env x y)"
    using assms unfolding env_ok_def by (intro consistent_dir) simp_all
  then have texts: "consistent_on S (\<lambda>a b. or_number (cmp_option (\<lambda>x y. dir * locale_compare env x y)
      (text_value (property_of a pid)) (text_value (property_of b pid))) (tie_break env a b))"
    by (intro consistent_or consistent_option consistent_tie env)
  have "consistent_on UNIV (\<lambda>x y. dir * (x - y))" using d by (intro consistent_dir consistent_key)
  then have nums: "consistent_on S (\<lambda>a b. or_number (cmp_option (\<lambda>x y. dir * (x - y))
      (num_value (property_of a pid)) (num_value (property_of b pid))) (tie_break env a b))"
    by (intro consistent_or consistent_option consistent_tie env)
  have "one_type pid S" using env by (simp add: env_ok_def)
  then show ?thesis
    unfolding one_type_def
  proof
    assume "\<forall>x \<in> S. prop_missing (property_of x pid) \<or> (\<exists>n. property_of x pid = Some (PNum n))"
    then show ?thesis
      by (subst consistent_cong [OF compare_property_num]) (simp_all add: nums)
  next
    assume "\<forall>x \<in> S. prop_missing (property_of x pid) \<or> (\<exists>s. property_of x pid = Some (PText s))"
    then show ?thesis
      by (subst consistent_cong [OF compare_property_text]) (simp_all add: texts)
  qed
qed

lemma consistent_if:
  "(c \<Longrightarrow> consistent_on S f) \<Longrightarrow> (\<not> c \<Longrightarrow> consistent_on S g) \<Longrightarrow>
   consistent_on S (\<lambda>a b. if c then f a b else g a b)"
  by (cases c) simp_all

lemma compare_consistent:
  assumes env: "env_ok env S"
  shows "consistent_on S (compareIssuesForSort env by_param is_desc)"
proof -
  define by_field where "by_field = or_else ''position'' by_param"
  define dir :: int where "dir = (if by_field \<noteq> ''position'' \<and> is_desc then -1 else 1)"
  have d: "dir = 1 \<or> dir = -1" by (simp add: dir_def)
  have lc: "consistent_on UNIV (locale_compare env)" and tm: "\<forall>x \<in> S. date_time env (created_at x) \<noteq> None"
    "\<forall>x \<in> S. date_time env (updated_at x) \<noteq> None" using env by (simp_all add: env_ok_def)
  note parts = consistent_property [OF env d] consistent_missing [OF env d]
    consistent_or [OF consistent_dir [OF consistent_key d] consistent_tie [OF env]]
    consistent_or [OF consistent_key consistent_tie [OF env]]
    consistent_or [OF consistent_dir [OF consistent_pull [OF lc] d] consistent_tie [OF env]]
    consistent_or [OF consistent_dir [OF consistent_time(1) [where k = created_at, OF tm(1)] d] consistent_tie [OF env]]
    consistent_or [OF consistent_dir [OF consistent_time(1) [where k = updated_at, OF tm(2)] d] consistent_tie [OF env]]
  show ?thesis
    unfolding compareIssuesForSort_def Let_def by_field_def [symmetric] dir_def [symmetric]
    by (intro consistent_if parts)
qed

lemma tie_break_strict: "tie_break env a b = 0 \<Longrightarrow> issue_id a = issue_id b"
  by (auto simp: tie_break_def split: if_splits)

lemma missing_aware_strict: "missing_aware env dir x y a b = 0 \<Longrightarrow> issue_id a = issue_id b"
  by (auto simp: missing_aware_eq intro: tie_break_strict)

lemma compare_property_strict: "compare_property env dir pid a b = 0 \<Longrightarrow> issue_id a = issue_id b"
  by (auto simp: compare_property_def Let_def prop_missing_def intro: tie_break_strict
      split: if_splits option.splits prop_value.splits)

lemma compare_strict: "compareIssuesForSort env by_param is_desc a b = 0 \<Longrightarrow> issue_id a = issue_id b"
  unfolding compareIssuesForSort_def Let_def
  by (simp add: tie_break_strict split: if_split_asm)
    (blast dest: missing_aware_strict compare_property_strict tie_break_strict)+

section \<open>The union of the relations\<close>

lemma by_id_snoc: "by_id (xs @ [x]) = obj_set (by_id xs) (issue_id x) x"
  by (simp add: by_id_def)

lemma by_id_props:
  "inj_on issue_id (set xs) \<Longrightarrow>
     distinct (map fst (by_id xs)) \<and> set (by_id xs) = (\<lambda>x. (issue_id x, x)) ` set xs"
proof (induction xs rule: rev_induct)
  case Nil
  then show ?case by (simp add: by_id_def)
next
  case (snoc x xs)
  have "inj_on issue_id (set xs)" using snoc.prems by (auto intro: inj_on_subset)
  then have ih: "distinct (map fst (by_id xs))" "set (by_id xs) = (\<lambda>x. (issue_id x, x)) ` set xs"
    using snoc.IH by simp_all
  have "set (obj_set (by_id xs) (issue_id x) x) = insert (issue_id x, x) {p \<in> set (by_id xs). fst p \<noteq> issue_id x}"
    using ih(1) by (intro set_obj_set) (simp add: obj_wf_def)
  also have "\<dots> = (\<lambda>x. (issue_id x, x)) ` set (xs @ [x])"
    using ih(2) snoc.prems by (auto simp: inj_on_def)
  finally show ?case using ih(1) by (simp add: by_id_snoc distinct_update)
qed

lemma by_id_values:
  assumes "inj_on issue_id (set xs)"
  shows "set (map snd (by_id xs)) = set xs" "distinct (map snd (by_id xs))"
proof -
  have p: "distinct (map fst (by_id xs))" "set (by_id xs) = (\<lambda>x. (issue_id x, x)) ` set xs"
    using by_id_props [OF assms] by simp_all
  show "set (map snd (by_id xs)) = set xs" by (simp add: p(2) image_image)
  have "fst q = issue_id (snd q)" if "q \<in> set (by_id xs)" for q using that p(2) by auto
  then have "map fst (by_id xs) = map issue_id (map snd (by_id xs))" by simp
  then have "distinct (map issue_id (map snd (by_id xs)))" by (simp only: p(1) flip: \<open>map fst (by_id xs) = _\<close>)
  then show "distinct (map snd (by_id xs))" unfolding distinct_map by blast
qed

section \<open>The fetches\<close>

lemma promise_all_ok: "promise_all (map (\<lambda>x. Some (Inr x)) xs) = Some (Inr xs)"
proof -
  have "List.map_filter failure_of (map (\<lambda>x. Some (Inr x)) xs) = []"
    by (induction xs) (simp_all add: List.map_filter_simps)
  moreover have "List.map_filter success_of (map (\<lambda>x. Some (Inr x)) xs) = xs"
    by (induction xs) (simp_all add: List.map_filter_simps)
  moreover have "None \<notin> set (map (\<lambda>x. Some (Inr x)) xs)" by auto
  ultimately show ?thesis by (simp add: promise_all_def)
qed

lemma fetchAllFlatPages_snapshot:
  "snapshot_server server xs \<Longrightarrow> distinct (map issue_id xs) \<Longrightarrow> fetchAllFlatPages server = Some (Inr xs)"
  using flat_loop_snapshot [of server xs 0 "[]" 0]
  by (cases "xs = []") (simp_all add: fetchAllFlatPages_def loop_state_def)

section \<open>Merged columns\<close>

lemma merge_status_state:
  "loop_state (merge_status caches s)
     (snd (foldl (\<lambda>(merged, seen) cache.
            case cache s of
              None \<Rightarrow> (merged, seen)
            | Some b \<Rightarrow> (let (new, seen') = take_new (bucket_issues b) seen in (merged @ new, seen')))
          ([], []) caches))"
proof (induction caches rule: rev_induct)
  case Nil
  show ?case by (simp add: merge_status_def loop_state_def)
next
  case (snoc c caches)
  then show ?case
    by (auto simp: merge_status_def case_prod_unfold Let_def split: option.splits intro: loop_state_step)
qed

lemma merge_status_distinct: "distinct (map issue_id (merge_status caches s))"
  using merge_status_state [of caches s] by (simp add: loop_state_def)

section \<open>The Gantt loop\<close>


lemma gantt_agree:
  "offset + 500 * (n - k) \<ge> PROJECT_GANTT_MAX_ISSUES \<Longrightarrow> (\<And>j m. j < n \<Longrightarrow> server j m = server' j m) \<Longrightarrow>
   k \<le> n \<Longrightarrow> gantt_loop server k offset issues = gantt_loop server' k offset issues"
proof (induction "n - k" arbitrary: k offset issues)
  case 0
  then show ?case by (simp add: gantt_loop.simps)
next
  case (Suc d)
  then have k: "k < n" by simp
  have same: "server k offset = server' k offset" using Suc.prems(2) k by simp
  have "gantt_loop server (Suc k) (offset + 500) is = gantt_loop server' (Suc k) (offset + 500) is" for "is"
  proof (rule Suc.hyps(1))
    show "PROJECT_GANTT_MAX_ISSUES \<le> offset + 500 + 500 * (n - Suc k)" using Suc.prems(1) k by simp
  qed (use Suc k in simp_all)
  then show ?case using same
    by (subst (1 2) gantt_loop.simps) (simp add: PROJECT_GANTT_PAGE_LIMIT_def Let_def split: option.splits)
qed

lemma gantt_twenty:
  assumes "\<And>j m. j < 20 \<Longrightarrow> server j m = server' j m"
  shows "fetchProjectGanttIssues server = fetchProjectGanttIssues server'"
  unfolding fetchProjectGanttIssues_def
  by (rule gantt_agree [where n = 20]) (simp_all add: PROJECT_GANTT_MAX_ISSUES_def assms)

lemma gantt_snapshot:
  assumes server: "\<And>k m. server k m = Some \<lparr>page_issues = take 500 (drop m xs), page_total = int (length xs)\<rparr>"
  shows "fetchProjectGanttIssues server = Inr (take 10000 xs)"
proof -
  have "gantt_loop server k m (take m xs) = Inr (take 10000 xs)"
    if "m = 500 * j" "j \<le> 20" "m < length xs \<or> m = 0" for k m j
    using that
  proof (induction "20 - j" arbitrary: k m j)
    case 0
    then have "m = 10000" by simp
    then show ?case by (simp add: gantt_loop.simps PROJECT_GANTT_MAX_ISSUES_def)
  next
    case (Suc d)
    then have m: "m < 10000" by simp
    have app: "take m xs @ take 500 (drop m xs) = take (m + 500) xs" by (simp add: take_add)
    show ?case
    proof (cases "m + 500 < length xs")
      case True
      then have "gantt_loop server (Suc k) (m + 500) (take (m + 500) xs) = Inr (take 10000 xs)"
        using Suc.hyps(1) [of "Suc j" "m + 500" "Suc k"] Suc.hyps(2) Suc.prems by simp
      then show ?thesis using True m app
        by (subst gantt_loop.simps)
          (simp add: server Let_def PROJECT_GANTT_MAX_ISSUES_def PROJECT_GANTT_PAGE_LIMIT_def)
    next
      case False
      have "m + 500 \<le> 10000" using Suc.hyps(2) Suc.prems(1) by simp
      then have "take (m + 500) xs = take 10000 xs" using False by simp
      then show ?thesis using False m app
        by (subst gantt_loop.simps)
          (auto simp: server Let_def PROJECT_GANTT_MAX_ISSUES_def PROJECT_GANTT_PAGE_LIMIT_def)
    qed
  qed
  from this [of 0 0 0] show ?thesis by (simp add: fetchProjectGanttIssues_def)
qed

section \<open>Children by parents\<close>

lemma parent_chunks_concat: "concat (parent_chunks ids) = ids"
proof (induction ids rule: parent_chunks.induct)
  case (1 ids)
  then show ?case by (subst parent_chunks.simps) simp
qed

lemma parent_chunks_small: "c \<in> set (parent_chunks ids) \<Longrightarrow> c \<noteq> [] \<and> length c \<le> CHILDREN_BY_PARENTS_CHUNK_SIZE"
proof (induction ids rule: parent_chunks.induct)
  case (1 ids)
  show ?case
  proof (cases "ids = []")
    case True
    then show ?thesis using 1(2) by (simp add: parent_chunks.simps)
  next
    case False
    then have "c = take CHILDREN_BY_PARENTS_CHUNK_SIZE ids \<or> c \<in> set (parent_chunks (drop CHILDREN_BY_PARENTS_CHUNK_SIZE ids))"
      using 1(2) by (subst (asm) parent_chunks.simps) simp
    then show ?thesis using 1(1) False by (auto simp: CHILDREN_BY_PARENTS_CHUNK_SIZE_def)
  qed
qed

lemma group_child_get:
  "obj_get (foldl group_child m xs) p =
     (let mine = filter (\<lambda>x. truthy (parent_issue_id x) = Some p) xs in
      if mine = [] then obj_get m p
      else Some (or_else [] (obj_get m p) @ mine))"
proof (induction xs arbitrary: m)
  case (Cons x xs)
  have "obj_get (group_child m x) p =
    (if truthy (parent_issue_id x) = Some p then Some (or_else [] (obj_get m p) @ [x]) else obj_get m p)"
    by (auto simp: group_child_def obj_simps or_else_def split: option.splits)
  then show ?case using Cons.IH [of "group_child m x"] by (simp add: Let_def or_else_def)
qed simp

lemma responses_concat:
  assumes "\<And>c. c \<in> set cs \<Longrightarrow> api c = Some (concat (map kids c))"
  shows "None \<notin> set (map api cs)"
    "concat (List.map_filter id (map api cs)) = concat (map kids (concat cs))"
proof -
  show "None \<notin> set (map api cs)" using assms by fastforce
  show "concat (List.map_filter id (map api cs)) = concat (map kids (concat cs))"
    using assms by (induction cs) (simp_all add: List.map_filter_simps)
qed

section \<open>Hydration\<close>

lemma hydrate_get:
  "distinct (map fst grouped) \<Longrightarrow>
   obj_get (hydrate_children grouped caches) p =
     (case obj_get caches p of
        Some (x # xs) \<Rightarrow> Some (x # xs)
      | cached \<Rightarrow> (case obj_get grouped p of Some children \<Rightarrow> Some children | None \<Rightarrow> cached))"
proof (induction grouped arbitrary: caches)
  case Nil
  then show ?case by (auto simp: hydrate_children_def split: option.splits list.splits)
next
  case (Cons e grouped)
  obtain q children where e: "e = (q, children)" by (cases e) blast
  let ?m = "case obj_get caches q of
      Some existing \<Rightarrow> if existing = [] then obj_set caches q children else caches
    | None \<Rightarrow> obj_set caches q children"
  have step: "hydrate_children (e # grouped) caches = hydrate_children grouped ?m"
    by (simp add: hydrate_children_def e)
  have get: "obj_get ?m p = (if p = q then (case obj_get caches q of Some (x # xs) \<Rightarrow> Some (x # xs) | _ \<Rightarrow> Some children)
      else obj_get caches p)"
    by (auto simp: obj_simps split: option.splits list.splits)
  have ih: "obj_get (hydrate_children grouped ?m) p =
     (case obj_get ?m p of
        Some (x # xs) \<Rightarrow> Some (x # xs)
      | cached \<Rightarrow> (case obj_get grouped p of Some children \<Rightarrow> Some children | None \<Rightarrow> cached))"
    by (rule Cons.IH) (use Cons.prems in simp)
  show ?case
  proof (cases "p = q")
    case True
    then have "obj_get grouped p = None" using Cons.prems e by (simp add: map_of_eq_None_iff)
    then show ?thesis unfolding step ih get using True e
      by (simp split: option.splits list.splits)
  next
    case False
    then have rest: "obj_get (e # grouped) p = obj_get grouped p" using e by simp
    show ?thesis unfolding step ih get rest using False by simp
  qed
qed

lemma group_child_wf: "obj_wf m \<Longrightarrow> obj_wf (foldl group_child m xs)"
  by (induction xs arbitrary: m) (auto simp: group_child_def split: option.splits)

lemma children_fetch:
  assumes api: "\<And>c. set c \<subseteq> set ids \<Longrightarrow> api c = Some (concat (map kids c))"
  defines "all_children \<equiv> concat (map kids ids)"
  shows "\<exists>grouped. fetchAndHydrateChildrenByParents api ids caches = Inr (grouped, hydrate_children grouped caches) \<and>
     obj_wf grouped \<and>
     (\<forall>p. obj_get grouped p =
        (let mine = filter (\<lambda>x. truthy (parent_issue_id x) = Some p) all_children in
         if mine = [] then None else Some mine))"
proof -
  have ok: "api c = Some (concat (map kids c))" if "c \<in> set (parent_chunks ids)" for c
  proof (rule api)
    have "set c \<subseteq> set (concat (parent_chunks ids))" using that by auto
    then show "set c \<subseteq> set ids" by (simp only: parent_chunks_concat)
  qed
  have none: "None \<notin> set (map api (parent_chunks ids))" by (rule responses_concat(1)) (rule ok)
  have "concat (List.map_filter id (map api (parent_chunks ids))) = concat (map kids (concat (parent_chunks ids)))"
    by (rule responses_concat(2)) (rule ok)
  then have responses: "concat (List.map_filter id (map api (parent_chunks ids))) = all_children"
    by (simp only: parent_chunks_concat all_children_def)
  have "fetchAndHydrateChildrenByParents api ids caches =
      Inr (foldl group_child [] all_children, hydrate_children (foldl group_child [] all_children) caches)"
    unfolding fetchAndHydrateChildrenByParents_def Let_def responses using none by simp
  then show ?thesis
    using group_child_get [of "[]" all_children] group_child_wf [of "[]" all_children]
    by (auto simp: Let_def or_else_def)
qed

section \<open>A server that grows under the loop\<close>

definition some_issue :: "string \<Rightarrow> issue" where
  "some_issue i =
     \<lparr>issue_id = i, title = i, status = Todo, priority = Low, assignee_type = None, assignee_id = None,
      creator_id = ''u1'', parent_issue_id = None, project_id = None, position = 0, start_date = None,
      due_date = None, created_at = i, updated_at = i, properties = None, other_fields = []\<rparr>"

definition growing_server :: page_server where
  "growing_server k offset =
     Some \<lparr>page_issues = [some_issue (replicate k CHR ''x'')], page_total = int k + 2\<rparr>"

lemma growing_never_settles: "fetchAllFlatPages growing_server = None"
proof (rule ccontr)
  assume "fetchAllFlatPages growing_server \<noteq> None"
  then obtain r where ret: "flat_loop growing_server 0 0 [] [] = Some r"
    by (auto simp: fetchAllFlatPages_def)
  have "growing_server = growing_server \<and> length ([] :: issue list) = 0 \<and>
      set ([] :: string list) = (\<lambda>j. replicate j CHR ''x'') ` {..<0} \<longrightarrow> False"
  proof (rule flat_loop.raw_induct [where P = "\<lambda>server k offset issues seen r.
      server = growing_server \<and> length issues = k \<and> set seen = (\<lambda>j. replicate j CHR ''x'') ` {..<k} \<longrightarrow> False",
      OF _ ret])
    fix f and server :: page_server and k offset and issues :: "issue list" and seen :: "string list"
      and r :: "issue list fetched"
    assume IH: "\<And>server k offset issues seen r. f server k offset issues seen = Some r \<Longrightarrow>
        server = growing_server \<and> length issues = k \<and> set seen = (\<lambda>j. replicate j CHR ''x'') ` {..<k} \<longrightarrow> False"
      and eq: "(case server k offset of None \<Rightarrow> Some (Inl Rejected)
        | Some response \<Rightarrow>
            (let (added, seen') = take_new (page_issues response) seen; issues' = issues @ added
             in if int (length issues') \<ge> page_total response then Some (Inr issues')
                else if page_issues response = [] \<or> added = [] then Some (Inl NoProgress)
                else f server (Suc k) (offset + length (page_issues response)) issues' seen')) = Some r"
    show "server = growing_server \<and> length issues = k \<and> set seen = (\<lambda>j. replicate j CHR ''x'') ` {..<k} \<longrightarrow> False"
    proof (intro impI, elim conjE)
      assume s: "server = growing_server" "length issues = k" "set seen = (\<lambda>j. replicate j CHR ''x'') ` {..<k}"
      have fresh: "replicate k CHR ''x'' \<notin> set seen"
        using s(3) by (auto dest: arg_cong [where f = length])
      let ?new = "some_issue (replicate k CHR ''x'')"
      have "f growing_server (Suc k) (offset + 1) (issues @ [?new]) (replicate k CHR ''x'' # seen) = Some r"
        using eq s(1,2) fresh by (simp add: growing_server_def some_issue_def)
      moreover have "length (issues @ [?new]) = Suc k" using s(2) by simp
      moreover have "set (replicate k CHR ''x'' # seen) = (\<lambda>j. replicate j CHR ''x'') ` {..<Suc k}"
        using s(3) by (simp add: lessThan_Suc)
      ultimately show False using IH by blast
    qed
  qed
  then show False by simp
qed

section \<open>A concrete environment and servers\<close>

definition demo_env :: compare_env where
  "demo_env =
     \<lparr>locale_compare = (\<lambda>s t. if s < t then -1 else if t < s then 1 else 0),
      date_time = (\<lambda>s. Some (int (length s)))\<rparr>"

definition demo_issues :: "issue list" where
  "demo_issues = [some_issue ''a'', some_issue ''b'', some_issue ''c'']"

definition paged :: "issue list \<Rightarrow> page_server" where
  "paged xs k offset = Some \<lparr>page_issues = take 2 (drop offset xs), page_total = int (length xs)\<rparr>"

lemma paged_snapshot: "snapshot_server (paged xs) xs"
  unfolding snapshot_server_def paged_def by (metis zero_less_numeral)

lemma demo_env_ok: "\<forall>x \<in> S. properties x = None \<Longrightarrow> env_ok demo_env S"
proof -
  assume none: "\<forall>x \<in> S. properties x = None"
  have "consistent_on UNIV (locale_compare demo_env)"
    unfolding consistent_on_def by (auto simp: demo_env_def)
  then show ?thesis using none by (simp add: env_ok_def demo_env_def one_type_def property_of_def prop_missing_def)
qed

section \<open>The export loop\<close>

text \<open>C13. A list export settles: whatever the server answers, and however its list changes between two requests, if the totals it reports are bounded the loop returns or throws, and what it returns holds no issue twice; only a server whose total keeps growing ahead of the loop keeps it going.\<close>

theorem fetchAllFlatPages_settles:
  assumes "\<And>k offset pg. server k offset = Some pg \<Longrightarrow> page_total pg \<le> N"
  shows "\<exists>r. fetchAllFlatPages server = Some r \<and> (\<forall>xs. r = Inr xs \<longrightarrow> distinct (map issue_id xs))"
proof -
  have "\<exists>r. flat_loop server 0 0 [] [] = Some r" by (rule flat_loop_returns) (rule assms)
  then obtain r where r: "flat_loop server 0 0 [] [] = Some r" ..
  have "loop_state [] []" by (simp add: loop_state_def)
  with r have "\<forall>xs. r = Inr xs \<longrightarrow> distinct (map issue_id xs)" by (rule flat_loop_distinct)
  then show ?thesis using r by (auto simp: fetchAllFlatPages_def)
qed

theorem fetchAllFlatPages_settles_witness:
  "\<exists>r. fetchAllFlatPages (paged demo_issues) = Some r \<and> (\<forall>xs. r = Inr xs \<longrightarrow> distinct (map issue_id xs))"
  by (rule fetchAllFlatPages_settles [where N = 3]) (auto simp: paged_def demo_issues_def)

section \<open>All my issues\<close>

lemma relations_fetched:
  assumes "list_all2 (\<lambda>server P. \<exists>xs. snapshot_server server xs \<and> mset xs = mset (filter P srv)) servers Ps"
    "distinct (map issue_id srv)"
  shows "\<exists>xss. map fetchAllFlatPages servers = map (\<lambda>x. Some (Inr x)) xss \<and>
    set (concat xss) = {x \<in> set srv. \<exists>P \<in> set Ps. P x}"
  using assms(1)
proof (induction rule: list_all2_induct)
  case Nil
  show ?case by (rule exI [of _ "[]"]) simp
next
  case (Cons server servers P Ps)
  obtain xs where xs: "snapshot_server server xs" "mset xs = mset (filter P srv)" using Cons(1) by blast
  obtain xss where xss: "map fetchAllFlatPages servers = map (\<lambda>x. Some (Inr x)) xss"
    "set (concat xss) = {x \<in> set srv. \<exists>P \<in> set Ps. P x}" using Cons(3) by blast
  have "distinct (map issue_id (filter P srv))" using assms(2) by (rule distinct_map_filter)
  then have "distinct (map issue_id xs)"
    using xs(2) by (metis mset_eq_imp_distinct_iff mset_map)
  then have "fetchAllFlatPages server = Some (Inr xs)" using fetchAllFlatPages_snapshot xs(1) by blast
  moreover have "set xs = {x \<in> set srv. P x}" using mset_eq_setD [OF xs(2)] by simp
  ultimately show ?case using xss by (intro exI [of _ "xs # xss"]) auto
qed

text \<open>"All my issues" fetched as three separate relations and merged on the client is what one query for the union of the relations would return: every issue of a relation once, in the order of the requested sort, for any sort field and direction and whatever order the relations came in.\<close>

theorem fetchAllMyFlatIssues_is_union:
  assumes ids: "distinct (map issue_id srv)" and env: "env_ok env (set srv)"
    and servers: "list_all2 (\<lambda>server P. \<exists>xs. snapshot_server server xs \<and> mset xs = mset (filter P srv)) servers Ps"
  shows "\<exists>ys. fetchAllMyFlatIssues env by_param is_desc servers = Some (Inr ys) \<and>
    mset ys = mset (filter (\<lambda>x. \<exists>P \<in> set Ps. P x) srv) \<and>
    ordered (compareIssuesForSort env by_param is_desc) ys \<and>
    (\<forall>zs. mset zs = mset ys \<longrightarrow> ordered (compareIssuesForSort env by_param is_desc) zs \<longrightarrow> zs = ys)"
proof -
  let ?cmp = "compareIssuesForSort env by_param is_desc"
  obtain xss where xss: "map fetchAllFlatPages servers = map (\<lambda>x. Some (Inr x)) xss"
    "set (concat xss) = {x \<in> set srv. \<exists>P \<in> set Ps. P x}" using relations_fetched [OF servers ids] by blast
  let ?union = "map snd (by_id (concat xss))"
  have sub: "set (concat xss) \<subseteq> set srv" using xss(2) by blast
  have inj: "inj_on issue_id (set srv)" using ids by (simp add: distinct_map)
  then have union: "set ?union = set (concat xss)" "distinct ?union"
    using by_id_values inj_on_subset [OF inj sub] by blast+
  have wanted: "distinct (filter (\<lambda>x. \<exists>P \<in> set Ps. P x) srv)"
    "set ?union = set (filter (\<lambda>x. \<exists>P \<in> set Ps. P x) srv)"
    using ids union(1) xss(2) by (simp_all add: distinct_map)
  have same: "mset ?union = mset (filter (\<lambda>x. \<exists>P \<in> set Ps. P x) srv)"
    using set_eq_iff_mset_eq_distinct [THEN iffD1, OF union(2) wanted] .
  have cons: "consistent_on (set srv) ?cmp" using compare_consistent [OF env] .
  have strict: "a = b" if "a \<in> set srv" "b \<in> set srv" "?cmp a b = 0" for a b
    using compare_strict [OF that(3)] inj that(1,2) by (simp add: inj_on_def)
  have us: "set ?union \<subseteq> set srv" using union(1) sub by simp
  have "fetchAllMyFlatIssues env by_param is_desc servers = Some (Inr (array_sort ?cmp ?union))"
    by (simp add: fetchAllMyFlatIssues_def xss(1) promise_all_ok)
  moreover have ord: "ordered ?cmp (array_sort ?cmp ?union)" using array_sort_ordered [OF cons us] .
  moreover have "zs = array_sort ?cmp ?union" if z: "mset zs = mset (array_sort ?cmp ?union)" "ordered ?cmp zs" for zs
  proof (rule ordered_unique [OF cons strict _ z(2) ord z(1)])
    show "set zs \<subseteq> set srv" using mset_eq_setD [OF z(1)] us by simp
  qed
  ultimately show ?thesis using same by (intro exI [of _ "array_sort ?cmp ?union"]) simp
qed

theorem fetchAllMyFlatIssues_is_union_witness:
  "\<exists>ys. fetchAllMyFlatIssues demo_env (Some ''title'') True [paged demo_issues, paged [some_issue ''b'']] = Some (Inr ys) \<and>
    mset ys = mset (filter (\<lambda>x. \<exists>P \<in> set [\<lambda>x. True, \<lambda>x. issue_id x = ''b'']. P x) demo_issues) \<and>
    ordered (compareIssuesForSort demo_env (Some ''title'') True) ys \<and>
    (\<forall>zs. mset zs = mset ys \<longrightarrow> ordered (compareIssuesForSort demo_env (Some ''title'') True) zs \<longrightarrow> zs = ys)"
proof (rule fetchAllMyFlatIssues_is_union)
  show "distinct (map issue_id demo_issues)" by (simp add: demo_issues_def some_issue_def)
  have b_only: "filter (\<lambda>x. issue_id x = ''b'') demo_issues = [some_issue ''b'']"
    by (simp add: demo_issues_def some_issue_def)
  have "\<exists>xs. snapshot_server (paged demo_issues) xs \<and> mset xs = mset (filter (\<lambda>x. True) demo_issues)"
    by (rule exI [of _ demo_issues]) (simp add: paged_snapshot)
  moreover have "\<exists>xs. snapshot_server (paged [some_issue ''b'']) xs \<and>
      mset xs = mset (filter (\<lambda>x. issue_id x = ''b'') demo_issues)"
    by (rule exI [of _ "[some_issue ''b'']"]) (simp only: b_only paged_snapshot simp_thms)
  ultimately show "list_all2 (\<lambda>server P. \<exists>xs. snapshot_server server xs \<and> mset xs = mset (filter P demo_issues))
      [paged demo_issues, paged [some_issue ''b'']] [\<lambda>x. True, \<lambda>x. issue_id x = ''b'']"
    by (simp only: list_all2_Cons list.rel_intros(1) simp_thms)
qed (rule demo_env_ok, simp add: demo_issues_def some_issue_def)

end
