(* ===== verification/Recent_Items.thy ===== *)
theory Recent_Items
  imports JS_Prelude
begin

text \<open>
  The recently visited issues and contexts (\<open>packages/core/issues/stores/recent-issues-store.ts\<close>,
  \<open>packages/core/chat/recent-context-store.ts\<close>): per workspace a list of entries, latest first,
  capped at 20, with at most 50 workspaces. The two stores differ in the entry and in what makes
  two entries the same; the shared operations take that key and the time stamp as arguments.
  An entry comes with its \<open>visitedAt\<close>, the clock at the visit.
\<close>

section \<open>The operations of both stores\<close>

definition MAX_RECENT_ITEMS :: nat where
  "MAX_RECENT_ITEMS = 20"

definition MAX_WORKSPACES :: nat where
  "MAX_WORKSPACES = 50"

definition recent_bucket :: "'e list obj \<Rightarrow> string \<Rightarrow> 'e list" where
  "recent_bucket m ws = (case obj_get m ws of None \<Rightarrow> [] | Some b \<Rightarrow> b)"

definition latest_visit :: "('e \<Rightarrow> int) \<Rightarrow> 'e list obj \<Rightarrow> string \<Rightarrow> int" where
  "latest_visit visited m ws = (case recent_bucket m ws of [] \<Rightarrow> 0 | e # es \<Rightarrow> visited e)"

definition oldest_workspace :: "('e \<Rightarrow> int) \<Rightarrow> 'e list obj \<Rightarrow> string list \<Rightarrow> string" where
  "oldest_workspace visited m ids =
     foldl (\<lambda>oldest candidate.
       if latest_visit visited m candidate < latest_visit visited m oldest then candidate else oldest)
       (hd ids) (tl ids)"

definition record_entry :: "('e \<Rightarrow> string) \<Rightarrow> ('e \<Rightarrow> int) \<Rightarrow> string \<Rightarrow> 'e \<Rightarrow> 'e list obj \<Rightarrow> 'e list obj" where
  "record_entry key visited ws e m =
     (let filtered = filter (\<lambda>i. key i \<noteq> key e) (recent_bucket m ws);
          nxt = obj_set m ws (take MAX_RECENT_ITEMS (e # filtered));
          ids = obj_keys nxt
      in if length ids > MAX_WORKSPACES then obj_delete nxt (oldest_workspace visited nxt ids) else nxt)"

definition forget_entry :: "('e \<Rightarrow> string) \<Rightarrow> string \<Rightarrow> string \<Rightarrow> 'e list obj \<Rightarrow> 'e list obj" where
  "forget_entry key ws k m =
     (case obj_get m ws of
        None \<Rightarrow> m
      | Some bucket \<Rightarrow>
          (let nxt = filter (\<lambda>e. key e \<noteq> k) bucket in
           if length nxt = length bucket then m
           else if nxt = [] then obj_delete m ws
           else obj_set m ws nxt))"

definition prune_entries :: "string list \<Rightarrow> 'e list obj \<Rightarrow> 'e list obj" where
  "prune_entries active m =
     (let kept = filter (\<lambda>(ws, items). ws \<in> set active) (obj_entries m) in
      if length kept \<noteq> length m then kept else m)"

definition select_entries :: "string option \<Rightarrow> 'e list obj \<Rightarrow> 'e list" where
  "select_entries ws m = (case truthy ws of None \<Rightarrow> [] | Some w \<Rightarrow> recent_bucket m w)"

section \<open>The two stores\<close>

record recent_issue =
  recent_id :: string
  recent_at :: int

datatype context_type = IssueContext | ProjectContext

record recent_context =
  context_kind :: context_type
  context_id :: string
  context_at :: int
  context_fields :: "string obj"

definition recordIssueVisit :: "int \<Rightarrow> string \<Rightarrow> string \<Rightarrow> recent_issue list obj \<Rightarrow> recent_issue list obj" where
  "recordIssueVisit now ws i = record_entry recent_id recent_at ws \<lparr>recent_id = i, recent_at = now\<rparr>"

definition forgetIssue :: "string \<Rightarrow> string \<Rightarrow> recent_issue list obj \<Rightarrow> recent_issue list obj" where
  "forgetIssue ws i = forget_entry recent_id ws i"

fun context_string :: "context_type \<Rightarrow> string" where
  "context_string IssueContext = ''issue''"
| "context_string ProjectContext = ''project''"

definition entryKey :: "recent_context \<Rightarrow> string" where
  "entryKey e = context_string (context_kind e) @ '':'' @ context_id e"

definition recordContextVisit ::
    "recent_context \<Rightarrow> string \<Rightarrow> recent_context list obj \<Rightarrow> recent_context list obj" where
  "recordContextVisit e ws = record_entry entryKey context_at ws e"

definition forgetContext ::
    "string \<Rightarrow> context_type \<Rightarrow> string \<Rightarrow> recent_context list obj \<Rightarrow> recent_context list obj" where
  "forgetContext ws t i = forget_entry entryKey ws (context_string t @ '':'' @ i)"

section \<open>The invariant\<close>

definition recents_ok :: "('e \<Rightarrow> string) \<Rightarrow> 'e list obj \<Rightarrow> bool" where
  "recents_ok key m \<longleftrightarrow>
     obj_wf m \<and> length m \<le> MAX_WORKSPACES \<and>
     (\<forall>ws b. obj_get m ws = Some b \<longrightarrow>
        b \<noteq> [] \<and> length b \<le> MAX_RECENT_ITEMS \<and> distinct (map key b))"

lemma recents_bucket: "recents_ok key m \<Longrightarrow> obj_get m ws = Some b \<Longrightarrow>
    b \<noteq> [] \<and> length b \<le> MAX_RECENT_ITEMS \<and> distinct (map key b)"
  unfolding recents_ok_def by blast

lemma recents_delete: "recents_ok key m \<Longrightarrow> recents_ok key (obj_delete m ws)"
  using length_delete_le [of ws m] by (auto simp: recents_ok_def obj_simps)

lemma recents_replace:
  assumes "recents_ok key m" "obj_get m ws \<noteq> None" "b \<noteq> []" "length b \<le> MAX_RECENT_ITEMS" "distinct (map key b)"
  shows "recents_ok key (obj_set m ws b)"
proof -
  have "ws \<in> fst ` set m" using assms(2) by (auto simp: map_of_eq_None_iff)
  then have keys: "map fst (obj_set m ws b) = map fst m" by (simp add: update_keys)
  have "length (map fst (obj_set m ws b)) = length (map fst m)" by (simp only: keys)
  then have "length (obj_set m ws b) = length m" by simp
  then show ?thesis using assms by (auto simp: recents_ok_def obj_simps)
qed

lemma forget_ok: "recents_ok key m \<Longrightarrow> recents_ok key (forget_entry key ws k m)"
proof -
  assume ok: "recents_ok key m"
  show ?thesis
  proof (cases "obj_get m ws")
    case None
    then show ?thesis using ok by (simp add: forget_entry_def)
  next
    case (Some b)
    let ?n = "filter (\<lambda>e. key e \<noteq> k) b"
    have "length b \<le> MAX_RECENT_ITEMS" "distinct (map key b)" using recents_bucket [OF ok Some] by simp_all
    then have "length ?n \<le> MAX_RECENT_ITEMS" "distinct (map key ?n)"
      using le_trans [OF length_filter_le] by (blast, simp add: distinct_map_filter)
    then show ?thesis using ok Some recents_delete [OF ok] recents_replace [OF ok, of ws ?n]
      by (simp add: forget_entry_def Let_def)
  qed
qed

lemma filter_full: "length (filter P xs) = length xs \<Longrightarrow> filter P xs = xs"
proof (induction xs)
  case (Cons x xs)
  then show ?case using length_filter_le [of P xs] by (cases "P x") simp_all
qed simp

lemma forgotten: "recent_bucket (forget_entry key ws k m) ws = filter (\<lambda>e. key e \<noteq> k) (recent_bucket m ws)"
proof (cases "obj_get m ws")
  case (Some b)
  show ?thesis
  proof (cases "length (filter (\<lambda>e. key e \<noteq> k) b) = length b")
    case True
    then show ?thesis using Some filter_full [OF True] by (simp add: forget_entry_def recent_bucket_def)
  next
    case False
    then show ?thesis using Some by (simp add: forget_entry_def recent_bucket_def Let_def obj_simps)
  qed
qed (simp add: forget_entry_def recent_bucket_def)

lemma forget_others: "w \<noteq> ws \<Longrightarrow> recent_bucket (forget_entry key ws k m) w = recent_bucket m w"
  by (auto simp: forget_entry_def recent_bucket_def Let_def obj_simps split: option.splits)

lemma prune_ok: "recents_ok key m \<Longrightarrow> recents_ok key (prune_entries active m)"
proof -
  assume ok: "recents_ok key m"
  let ?kept = "filter (\<lambda>(ws, items). ws \<in> set active) (obj_entries m)"
  have wf: "obj_wf m" using ok by (simp add: recents_ok_def)
  then have ewf: "obj_wf (obj_entries m)" by simp
  then have kwf: "obj_wf ?kept" by (simp add: obj_wf_def distinct_map_filter)
  have "length ?kept \<le> length (obj_entries m)" by simp
  also have "length (obj_entries m) = length m" using mset_obj_entries by (rule mset_eq_length)
  finally have len: "length ?kept \<le> length m" .
  have "obj_get m ws = Some b" if "obj_get ?kept ws = Some b" for ws b
  proof -
    have "(ws, b) \<in> set ?kept" using that obj_get_in [OF kwf] by blast
    then have "(ws, b) \<in> set m" by simp
    then show ?thesis using obj_get_in [OF wf] by blast
  qed
  then have "recents_ok key ?kept" using ok kwf len by (auto simp: recents_ok_def)
  then show ?thesis using ok by (simp add: prune_entries_def Let_def)
qed

lemma oldest_in: "ids \<noteq> [] \<Longrightarrow> oldest_workspace visited m ids \<in> set ids"
proof -
  have "foldl (\<lambda>oldest candidate.
      if latest_visit visited m candidate < latest_visit visited m oldest then candidate else oldest) i rest
    \<in> insert i (set rest)" for i rest
    by (induction rest rule: rev_induct) auto
  moreover assume "ids \<noteq> []"
  then have "insert (hd ids) (set (tl ids)) = set ids" by (cases ids) simp_all
  ultimately show ?thesis unfolding oldest_workspace_def by blast
qed

lemma obj_keys_length: "length (obj_keys m) = length m"
  unfolding obj_keys_def using mset_obj_entries [of m, THEN mset_eq_length] by simp

lemma delete_length: "obj_wf m \<Longrightarrow> k \<in> fst ` set m \<Longrightarrow> Suc (length (obj_delete m k)) = length m"
proof (induction m)
  case (Cons p m)
  show ?case
  proof (cases "fst p = k")
    case True
    then have "k \<notin> fst ` set m" using Cons.prems(1) by (auto simp: obj_wf_def)
    then show ?thesis using True by (cases p) (simp add: delete_idem)
  next
    case False
    then show ?thesis using Cons by (cases p) (simp add: obj_wf_def)
  qed
qed simp

lemma update_length: "length (obj_set m k v) \<le> Suc (length m)"
  by (induction m) auto

lemma record_ok:
  assumes ok: "recents_ok key m"
  shows "recents_ok key (record_entry key visited ws e m)"
proof -
  let ?b = "take MAX_RECENT_ITEMS (e # filter (\<lambda>i. key i \<noteq> key e) (recent_bucket m ws))"
  let ?n = "obj_set m ws ?b"
  have d: "distinct (map key (recent_bucket m ws))"
    using recents_bucket [OF ok, of ws] by (simp add: recent_bucket_def split: option.splits)
  have "distinct (map key (e # filter (\<lambda>i. key i \<noteq> key e) (recent_bucket m ws)))"
    using d by (auto simp: distinct_map_filter)
  then have b: "?b \<noteq> []" "length ?b \<le> MAX_RECENT_ITEMS" "distinct (map key ?b)"
    by (simp_all only: take_map [symmetric] distinct_take) (simp_all add: MAX_RECENT_ITEMS_def)
  have wf: "obj_wf m" "obj_wf ?n" using ok by (auto simp: recents_ok_def)
  have buckets: "\<forall>w c. obj_get ?n w = Some c \<longrightarrow> c \<noteq> [] \<and> length c \<le> MAX_RECENT_ITEMS \<and> distinct (map key c)"
    using b ok by (auto simp: obj_simps recents_ok_def)
  have "length ?n \<le> Suc (length m)"
    by (rule update_length)
  then have n: "length ?n \<le> Suc MAX_WORKSPACES" using ok by (simp add: recents_ok_def)
  show ?thesis
  proof (cases "length (obj_keys ?n) > MAX_WORKSPACES")
    case True
    let ?o = "oldest_workspace visited ?n (obj_keys ?n)"
    have "obj_keys ?n \<noteq> []" using True by auto
    then have "?o \<in> fst ` set ?n" using oldest_in [of "obj_keys ?n" visited ?n] by simp
    then have "Suc (length (obj_delete ?n ?o)) = length ?n" using delete_length wf(2) by blast
    then have "recents_ok key (obj_delete ?n ?o)"
      using n wf(2) buckets by (auto simp: recents_ok_def obj_simps)
    then show ?thesis using True by (simp add: record_entry_def Let_def)
  next
    case False
    then have "recents_ok key ?n" using wf(2) buckets by (simp add: recents_ok_def obj_keys_length)
    then show ?thesis using False by (simp add: record_entry_def Let_def)
  qed
qed

end
