(* ===== verification/Issue_Deletion.thy ===== *)
theory Issue_Deletion
  imports Issue_Paging Recent_Items
begin

text \<open>
  Deleting issues: the cleanup of every cache that may show a deleted issue
  (\<open>packages/core/issues/delete-cache.ts\<close>), the delete mutations with their rollback
  (\<open>useDeleteIssue\<close>, \<open>useBatchDeleteIssues\<close> of \<open>mutations.ts\<close>) and the delete event
  (\<open>onIssueDeleted\<close> of \<open>ws-updaters.ts\<close>). The state is the part of the query client of one
  workspace these functions read or write, its loaded caches in the client's order, with the two
  stores of recent items; an invalidated prefix is appended to \<open>dc_stale\<close>. Both kinds of caches
  live under the \<open>my\<close> prefix: boards in buckets, and boards grouped by assignee, which have no
  \<open>byStatus\<close>. A function that throws returns the caches as they are at the throw.
\<close>

section \<open>The caches\<close>

datatype my_key =
    MyBoardKey string my_filter sort_param
  | MyGroupsKey string my_filter sort_param

datatype my_data = Board list_cache | Groups "assignee_group list"

datatype scoped_kind = Timeline | Reactions | Subscribers | Usage | Attachments | Tasks | LabelsOf

datatype stale_prefix =
    AllIssues | ListAll | MyAll | FlatAll | TableAll | GanttAll
  | AssigneeGroupsAll | MyAssigneeGroupsAll
  | ChildrenOf string | ChildrenAll | ChildrenByParentsAll | ChildProgress
  | ProjectsAll | TaskSnapshot | Activity30d | RunCounts30d | AgentTasksAll
  | Scoped scoped_kind string

record delete_client =
  dc_lists :: "(sort_param \<times> list_cache) list"
  dc_my :: "(my_key \<times> my_data) list"
  dc_flat :: "(query_key \<times> flat_page list) list"
  dc_details :: "issue obj"
  dc_children :: "issue list obj"
  dc_scoped :: "(scoped_kind \<times> string) list"
  dc_recent :: "recent_issue list obj"
  dc_contexts :: "recent_context list obj"
  dc_stale :: "stale_prefix list"

definition invalidate :: "stale_prefix list \<Rightarrow> delete_client \<Rightarrow> delete_client" where
  "invalidate ps c = c\<lparr>dc_stale := dc_stale c @ ps\<rparr>"

section \<open>Collecting the parents\<close>

definition collectParentId :: "string list \<Rightarrow> string option \<Rightarrow> string list" where
  "collectParentId ids p =
     (case truthy p of None \<Rightarrow> ids | Some q \<Rightarrow> if q \<in> set ids then ids else ids @ [q])"

definition collectParentFromListCache :: "string list \<Rightarrow> list_cache \<Rightarrow> string \<Rightarrow> string list" where
  "collectParentFromListCache ids data i =
     collectParentId ids (case findIssueLocation data i of None \<Rightarrow> None | Some (s, x) \<Rightarrow> parent_issue_id x)"

definition collect_page :: "string \<Rightarrow> string list \<Rightarrow> flat_page \<Rightarrow> string list" where
  "collect_page i ids page =
     collectParentId ids (Option.bind (find (\<lambda>x. issue_id x = i) (page_issues page)) parent_issue_id)"

text \<open>Reading \<open>byStatus[s]\<close> of a cache without \<open>byStatus\<close> throws.\<close>

fun collect_my :: "(my_key \<times> my_data) list \<Rightarrow> string \<Rightarrow> string list \<Rightarrow> string list js_result" where
  "collect_my [] i ids = Inr ids"
| "collect_my ((k, Board data) # es) i ids = collect_my es i (collectParentFromListCache ids data i)"
| "collect_my ((k, Groups gs) # es) i ids = Inl TypeError"

definition collect_children :: "string \<Rightarrow> string list \<Rightarrow> string \<times> issue list \<Rightarrow> string list" where
  "collect_children i ids e =
     (case find (\<lambda>x. issue_id x = i) (snd e) of
        None \<Rightarrow> ids
      | Some child \<Rightarrow> collectParentId (collectParentId ids (parent_issue_id child)) (Some (fst e)))"

definition collectDeletedIssueCacheMetadata :: "delete_client \<Rightarrow> string \<Rightarrow> string list js_result" where
  "collectDeletedIssueCacheMetadata c i =
     (let ids0 = collectParentId [] (Option.bind (obj_get (dc_details c) i) parent_issue_id);
          ids1 = foldl (\<lambda>ids e. collectParentFromListCache ids (snd e) i) ids0 (dc_lists c);
          ids2 = foldl (collect_page i) ids1 (concat (map snd (dc_flat c)))
      in (case collect_my (dc_my c) i ids2 of
            Inl e \<Rightarrow> Inl e
          | Inr ids3 \<Rightarrow> Inr (foldl (collect_children i) ids3 (dc_children c))))"

section \<open>Pruning\<close>

fun prune_my :: "(my_key \<times> my_data) list \<Rightarrow> string \<Rightarrow> (my_key \<times> my_data) list \<times> js_error option" where
  "prune_my [] i = ([], None)"
| "prune_my ((k, Board data) # es) i =
     (let (rest, err) = prune_my es i in ((k, Board (removeIssueFromBuckets data i)) # rest, err))"
| "prune_my ((k, Groups gs) # es) i = ((k, Groups gs) # es, Some TypeError)"

definition prune_flat :: "string \<Rightarrow> flat_page list \<Rightarrow> flat_page list" where
  "prune_flat i pages =
     (if list_ex (\<lambda>p. list_ex (\<lambda>x. issue_id x = i) (page_issues p)) pages
      then map (\<lambda>p. p\<lparr>page_total := max 0 (page_total p - 1),
                      page_issues := filter (\<lambda>x. issue_id x \<noteq> i) (page_issues p)\<rparr>) pages
      else pages)"

definition pruneDeletedIssueFromListCaches ::
    "delete_client \<Rightarrow> string \<Rightarrow> delete_client \<times> js_error option" where
  "pruneDeletedIssueFromListCaches c i =
     (let c1 = c\<lparr>dc_lists := map (\<lambda>(k, data). (k, removeIssueFromBuckets data i)) (dc_lists c)\<rparr>;
          (my, err) = prune_my (dc_my c1) i;
          c2 = c1\<lparr>dc_my := my\<rparr>
      in (case err of
            Some e \<Rightarrow> (c2, Some e)
          | None \<Rightarrow> (c2\<lparr>dc_flat := map (\<lambda>(k, pages). (k, prune_flat i pages)) (dc_flat c2)\<rparr>, None)))"

text \<open>A parent whose children are not loaded is left alone.\<close>

definition pruneDeletedIssueFromParentChildrenCaches ::
    "delete_client \<Rightarrow> string \<Rightarrow> string list \<Rightarrow> delete_client" where
  "pruneDeletedIssueFromParentChildrenCaches c i parents =
     foldl (\<lambda>acc p. case obj_get (dc_children acc) p of
         None \<Rightarrow> acc
       | Some old \<Rightarrow> acc\<lparr>dc_children := obj_set (dc_children acc) p (filter (\<lambda>x. issue_id x \<noteq> i) old)\<rparr>)
       c parents"

section \<open>Invalidation\<close>

definition invalidateDeletedIssueParentCaches :: "delete_client \<Rightarrow> string list \<Rightarrow> delete_client" where
  "invalidateDeletedIssueParentCaches c parents =
     (if parents = [] then c
      else invalidate (map ChildrenOf parents @ [ChildProgress, ChildrenByParentsAll]) c)"

definition invalidateDeletedIssueDependentCaches :: "delete_client \<Rightarrow> delete_client" where
  "invalidateDeletedIssueDependentCaches c =
     invalidate [TaskSnapshot, Activity30d, RunCounts30d, AgentTasksAll] c"

definition invalidateIssueScopedCaches :: "delete_client \<Rightarrow> string \<Rightarrow> delete_client" where
  "invalidateIssueScopedCaches c i =
     invalidate [Scoped Timeline i, Scoped Reactions i, Scoped Subscribers i, Scoped Usage i,
       Scoped Attachments i, Scoped Tasks i, ChildrenOf i, Scoped LabelsOf i] c"

section \<open>The whole cleanup\<close>

definition scoped_of :: "string \<Rightarrow> (scoped_kind \<times> string) list" where
  "scoped_of i = [(Timeline, i), (Reactions, i), (Subscribers, i), (Usage, i), (Attachments, i),
     (Tasks, i), (LabelsOf, i)]"

definition remove_scoped :: "string \<Rightarrow> delete_client \<Rightarrow> delete_client" where
  "remove_scoped i c =
     c\<lparr>dc_details := obj_delete (dc_details c) i,
       dc_scoped := filter (\<lambda>e. e \<notin> set (scoped_of i)) (dc_scoped c),
       dc_children := obj_delete (dc_children c) i\<rparr>"

definition cleanupDeletedIssueCaches ::
    "string \<Rightarrow> delete_client \<Rightarrow> string \<Rightarrow> string list \<Rightarrow> delete_client \<times> js_error option" where
  "cleanupDeletedIssueCaches ws c i parents =
     (case pruneDeletedIssueFromListCaches c i of
        (c1, Some e) \<Rightarrow> (c1, Some e)
      | (c1, None) \<Rightarrow>
          (let c2 = invalidateDeletedIssueParentCaches
                 (pruneDeletedIssueFromParentChildrenCaches c1 i parents) parents;
               c3 = remove_scoped i c2;
               c4 = invalidateDeletedIssueDependentCaches
                 (invalidate [ChildProgress, ListAll, MyAll, FlatAll, TableAll, GanttAll] c3)
           in (c4\<lparr>dc_recent := forgetIssue ws i (dc_recent c4)\<rparr>, None)))"

text \<open>With the default of its last parameter, and the event handler.\<close>

definition cleanup_collecting :: "string \<Rightarrow> delete_client \<Rightarrow> string \<Rightarrow> delete_client \<times> js_error option" where
  "cleanup_collecting ws c i =
     (case collectDeletedIssueCacheMetadata c i of
        Inl e \<Rightarrow> (c, Some e)
      | Inr parents \<Rightarrow> cleanupDeletedIssueCaches ws c i parents)"

definition onIssueDeleted :: "string \<Rightarrow> delete_client \<Rightarrow> string \<Rightarrow> delete_client \<times> js_error option" where
  "onIssueDeleted ws c i =
     (case cleanup_collecting ws c i of
        (c1, Some e) \<Rightarrow> (c1, Some e)
      | (c1, None) \<Rightarrow> (invalidate [AssigneeGroupsAll, MyAssigneeGroupsAll, ProjectsAll] c1, None))"

section \<open>The delete mutation\<close>

record delete_context =
  ctx_id :: string
  ctx_parents :: "string list"
  snap_lists :: "(sort_param \<times> list_cache) list"
  snap_my :: "(my_key \<times> my_data) list"
  snap_flat :: "(query_key \<times> flat_page list) list"
  snap_detail :: "issue option"
  snap_children :: "(string \<times> issue list option) list"

definition delete_mutate :: "delete_client \<Rightarrow> string \<Rightarrow> js_error + delete_client \<times> delete_context" where
  "delete_mutate c i =
     (case collectDeletedIssueCacheMetadata c i of
        Inl e \<Rightarrow> Inl e
      | Inr parents \<Rightarrow>
          (let ctx = \<lparr>ctx_id = i, ctx_parents = parents, snap_lists = dc_lists c, snap_my = dc_my c,
                      snap_flat = dc_flat c, snap_detail = obj_get (dc_details c) i,
                      snap_children = map (\<lambda>p. (p, obj_get (dc_children c) p)) parents\<rparr>
           in (case pruneDeletedIssueFromListCaches c i of
                 (c1, Some e) \<Rightarrow> Inl e
               | (c1, None) \<Rightarrow>
                   (let c2 = pruneDeletedIssueFromParentChildrenCaches c1 i parents
                    in Inr (c2\<lparr>dc_details := obj_delete (dc_details c2) i\<rparr>, ctx)))))"

text \<open>Writing \<open>undefined\<close> to a key is ignored by the client.\<close>

definition write_back_some :: "(string \<times> 'v option) list \<Rightarrow> 'v obj \<Rightarrow> 'v obj" where
  "write_back_some snaps m =
     foldl (\<lambda>acc (k, v). case v of None \<Rightarrow> acc | Some x \<Rightarrow> obj_set acc k x) m snaps"

definition restore_lists :: "delete_context \<Rightarrow> delete_client \<Rightarrow> delete_client" where
  "restore_lists ctx c =
     c\<lparr>dc_lists := restore (snap_lists ctx) (dc_lists c),
       dc_my := restore (snap_my ctx) (dc_my c),
       dc_flat := restore (snap_flat ctx) (dc_flat c)\<rparr>"

definition restore_children :: "delete_context \<Rightarrow> delete_client \<Rightarrow> delete_client" where
  "restore_children ctx c = c\<lparr>dc_children := write_back_some (snap_children ctx) (dc_children c)\<rparr>"

definition delete_error :: "delete_context \<Rightarrow> delete_client \<Rightarrow> delete_client" where
  "delete_error ctx c =
     (let c1 = restore_lists ctx c;
          c2 = (case snap_detail ctx of None \<Rightarrow> c1
                | Some d \<Rightarrow> c1\<lparr>dc_details := obj_set (dc_details c1) (ctx_id ctx) d\<rparr>)
      in restore_children ctx c2)"

definition delete_success ::
    "string \<Rightarrow> delete_context \<Rightarrow> delete_client \<Rightarrow> delete_client \<times> js_error option" where
  "delete_success ws ctx c =
     cleanupDeletedIssueCaches ws
       (c\<lparr>dc_contexts := forgetContext ws IssueContext (ctx_id ctx) (dc_contexts c)\<rparr>)
       (ctx_id ctx) (ctx_parents ctx)"

definition settled_prefixes :: "stale_prefix list" where
  "settled_prefixes =
     [ListAll, FlatAll, TableAll, AssigneeGroupsAll, MyAssigneeGroupsAll, GanttAll, ProjectsAll]"

definition delete_settled :: "delete_context option \<Rightarrow> delete_client \<Rightarrow> delete_client" where
  "delete_settled ctx c =
     (let c1 = invalidate settled_prefixes c
      in (case ctx of None \<Rightarrow> c1 | Some x \<Rightarrow> invalidateDeletedIssueParentCaches c1 (ctx_parents x)))"

section \<open>The batch mutation\<close>

record batch_context = delete_context +
  ctx_metadata :: "(string \<times> string list) list"

fun collect_all :: "delete_client \<Rightarrow> string list \<Rightarrow> (string \<times> string list) list js_result" where
  "collect_all c [] = Inr []"
| "collect_all c (i # is) =
     (case collectDeletedIssueCacheMetadata c i of
        Inl e \<Rightarrow> Inl e
      | Inr parents \<Rightarrow>
          (case collect_all c is of Inl e \<Rightarrow> Inl e | Inr rest \<Rightarrow> Inr ((i, parents) # rest)))"

text \<open>The second map entry of a repeated id replaces the first; both were collected from the same
  caches.\<close>

fun prune_all :: "delete_client \<Rightarrow> (string \<times> string list) list \<Rightarrow> delete_client js_result" where
  "prune_all c [] = Inr c"
| "prune_all c ((i, parents) # rest) =
     (case pruneDeletedIssueFromListCaches c i of
        (c1, Some e) \<Rightarrow> Inl e
      | (c1, None) \<Rightarrow> prune_all (pruneDeletedIssueFromParentChildrenCaches c1 i parents) rest)"

definition batch_delete_mutate ::
    "delete_client \<Rightarrow> string list \<Rightarrow> js_error + delete_client \<times> batch_context" where
  "batch_delete_mutate c is =
     (case collect_all c is of
        Inl e \<Rightarrow> Inl e
      | Inr metadata \<Rightarrow>
          (let parents = foldl (\<lambda>ids p. if p \<in> set ids then ids else ids @ [p]) [] (concat (map snd metadata));
               ctx = \<lparr>ctx_id = [], ctx_parents = parents, snap_lists = dc_lists c, snap_my = dc_my c,
                      snap_flat = dc_flat c, snap_detail = None,
                      snap_children = map (\<lambda>p. (p, obj_get (dc_children c) p)) parents,
                      ctx_metadata = metadata\<rparr>
           in (case prune_all c metadata of Inl e \<Rightarrow> Inl e | Inr c1 \<Rightarrow> Inr (c1, ctx))))"

definition batch_delete_error :: "batch_context \<Rightarrow> delete_client \<Rightarrow> delete_client" where
  "batch_delete_error ctx c =
     restore_children (delete_context.truncate ctx) (restore_lists (delete_context.truncate ctx) c)"

fun cleanup_all ::
    "string \<Rightarrow> delete_client \<Rightarrow> (string \<times> string list) list \<Rightarrow> delete_client \<times> js_error option" where
  "cleanup_all ws c [] = (c, None)"
| "cleanup_all ws c ((i, parents) # rest) =
     (case cleanupDeletedIssueCaches ws
         (c\<lparr>dc_contexts := forgetContext ws IssueContext i (dc_contexts c)\<rparr>) i parents of
        (c1, Some e) \<Rightarrow> (c1, Some e)
      | (c1, None) \<Rightarrow> cleanup_all ws c1 rest)"

definition batch_delete_success ::
    "string \<Rightarrow> nat \<Rightarrow> string list \<Rightarrow> batch_context \<Rightarrow> delete_client \<Rightarrow> delete_client \<times> js_error option" where
  "batch_delete_success ws deleted is ctx c =
     (if deleted = length is then cleanup_all ws c (ctx_metadata ctx)
      else (let c1 = batch_delete_error ctx c;
                c2 = foldl invalidateIssueScopedCaches c1 is
            in (invalidateDeletedIssueDependentCaches (invalidate [AllIssues] c2), None)))"

definition batch_delete_settled :: "batch_context option \<Rightarrow> delete_client \<Rightarrow> delete_client" where
  "batch_delete_settled ctx c =
     delete_settled (map_option delete_context.truncate ctx) c"

end
