(* ===== verification/Deletion_Properties.thy ===== *)
theory Deletion_Properties
  imports Issue_Deletion Issue_Rollback Paging_Properties
begin

text \<open>
  The properties of a deletion: what is gone afterwards and what stays, what a failed request
  gives back, and which boards stop a deletion altogether.
\<close>

text \<open>
  What each part of a deletion does to the caches: the collector finds every parent, the pruning
  filters the deleted issue out of every loaded list, and a rollback writes the snapshots back.
\<close>

section \<open>Which deletions throw\<close>

fun is_groups :: "my_data \<Rightarrow> bool" where
  "is_groups (Groups gs) \<longleftrightarrow> True"
| "is_groups (Board d) \<longleftrightarrow> False"

definition has_groups :: "delete_client \<Rightarrow> bool" where
  "has_groups c \<longleftrightarrow> list_ex (\<lambda>e. is_groups (snd e)) (dc_my c)"

lemma collect_my_result:
  "collect_my es i ids = Inl TypeError \<and> list_ex (\<lambda>e. is_groups (snd e)) es \<or>
   (\<exists>ids'. collect_my es i ids = Inr ids') \<and> \<not> list_ex (\<lambda>e. is_groups (snd e)) es"
  by (induction es i ids rule: collect_my.induct) auto

lemma collect_throws: "collectDeletedIssueCacheMetadata c i = Inl e \<longleftrightarrow> has_groups c"
proof -
  have e: "e = TypeError" by (cases e) simp
  let ?ids = "foldl (collect_page i)
      (foldl (\<lambda>ids e. collectParentFromListCache ids (snd e) i)
        (collectParentId [] (Option.bind (obj_get (dc_details c) i) parent_issue_id)) (dc_lists c))
      (concat (map snd (dc_flat c)))"
  have eq: "collectDeletedIssueCacheMetadata c i =
      (case collect_my (dc_my c) i ?ids of Inl e \<Rightarrow> Inl e
       | Inr ids3 \<Rightarrow> Inr (foldl (collect_children i) ids3 (dc_children c)))"
    by (simp add: collectDeletedIssueCacheMetadata_def Let_def)
  show ?thesis
    using collect_my_result [of "dc_my c" i ?ids] unfolding eq e has_groups_def by auto
qed

lemma collect_returns: "(\<exists>ids. collectDeletedIssueCacheMetadata c i = Inr ids) \<longleftrightarrow> \<not> has_groups c"
  using collect_throws [of c i] by (cases "collectDeletedIssueCacheMetadata c i") auto

lemma prune_my_keys [simp]: "map fst (fst (prune_my es i)) = map fst es"
  by (induction es i rule: prune_my.induct) (simp_all add: case_prod_unfold Let_def)

lemma prune_my_error: "snd (prune_my es i) = (if list_ex (\<lambda>e. is_groups (snd e)) es then Some TypeError else None)"
  by (induction es i rule: prune_my.induct) (simp_all add: case_prod_unfold Let_def)

fun board_without :: "string \<Rightarrow> my_data \<Rightarrow> my_data" where
  "board_without i (Board d) = Board (removeIssueFromBuckets d i)"
| "board_without i (Groups gs) = Groups gs"

lemma prune_my_boards:
  "\<not> list_ex (\<lambda>e. is_groups (snd e)) es \<Longrightarrow> fst (prune_my es i) = map (apsnd (board_without i)) es"
  by (induction es i rule: prune_my.induct) (simp_all add: case_prod_unfold Let_def)

lemma has_groups_same: "map snd (dc_my c) = map snd (dc_my d) \<Longrightarrow> has_groups c = has_groups d"
proof -
  assume a: "map snd (dc_my c) = map snd (dc_my d)"
  have "list_ex (\<lambda>e. is_groups (snd e)) es = list_ex is_groups (map snd es)" for es :: "(my_key \<times> my_data) list"
    by (simp add: list_ex_iff)
  then show ?thesis using a by (simp add: has_groups_def)
qed

lemma prune_lists_eq:
  assumes "\<not> has_groups c"
  shows "pruneDeletedIssueFromListCaches c i =
    (c\<lparr>dc_lists := map (apsnd (\<lambda>d. removeIssueFromBuckets d i)) (dc_lists c),
       dc_my := map (apsnd (board_without i)) (dc_my c),
       dc_flat := map (apsnd (prune_flat i)) (dc_flat c)\<rparr>, None)"
proof -
  have "prune_my (dc_my c) i = (map (apsnd (board_without i)) (dc_my c), None)"
    using assms prune_my_boards [of "dc_my c" i] prune_my_error [of "dc_my c" i]
    by (simp add: has_groups_def prod_eq_iff)
  then show ?thesis by (simp add: pruneDeletedIssueFromListCaches_def Let_def apsnd_def map_prod_def)
qed

lemma prune_children_my: "dc_my (pruneDeletedIssueFromParentChildrenCaches c i ps) = dc_my c"
proof (induction ps arbitrary: c)
  case Nil
  then show ?case by (simp add: pruneDeletedIssueFromParentChildrenCaches_def)
next
  case (Cons p ps)
  have step: "pruneDeletedIssueFromParentChildrenCaches c i (p # ps) =
      pruneDeletedIssueFromParentChildrenCaches (pruneDeletedIssueFromParentChildrenCaches c i [p]) i ps"
    by (simp add: pruneDeletedIssueFromParentChildrenCaches_def)
  have "dc_my (pruneDeletedIssueFromParentChildrenCaches c i [p]) = dc_my c"
    by (simp add: pruneDeletedIssueFromParentChildrenCaches_def split: option.split)
  then show ?case unfolding step Cons by simp
qed

lemma has_groups_pruned:
  assumes "\<not> has_groups c"
  shows "\<not> has_groups (pruneDeletedIssueFromParentChildrenCaches (fst (pruneDeletedIssueFromListCaches c i)) i ps)"
proof -
  have "\<not> is_groups (board_without i d)" if "\<not> is_groups d" for d
    using that by (cases d) simp_all
  then show ?thesis using assms
    by (simp add: has_groups_def prune_children_my prune_lists_eq list_ex_iff)
qed

lemma prune_all_returns: "\<not> has_groups c \<Longrightarrow> \<exists>c'. prune_all c metadata = Inr c'"
proof (induction metadata arbitrary: c)
  case Nil
  then show ?case by simp
next
  case (Cons e rest)
  obtain i parents where e: "e = (i, parents)" by (cases e)
  show ?case using Cons(1) [OF has_groups_pruned [OF Cons(2), of i parents]] Cons(2)
    by (simp add: e prune_lists_eq)
qed

lemma collect_all_returns: "\<not> has_groups c \<Longrightarrow> \<exists>metadata. collect_all c is = Inr metadata"
proof (induction "is")
  case Nil
  then show ?case by simp
next
  case (Cons i "is")
  obtain parents where "collectDeletedIssueCacheMetadata c i = Inr parents"
    using collect_returns [of c i] Cons(2) by blast
  then show ?case using Cons by auto
qed

lemma batch_delete_returns: "\<not> has_groups c \<Longrightarrow> \<exists>c1 ctx. batch_delete_mutate c is = Inr (c1, ctx)"
proof -
  assume ng: "\<not> has_groups c"
  obtain metadata where "collect_all c is = Inr metadata" using collect_all_returns [OF ng] by blast
  moreover obtain c1 where "prune_all c metadata = Inr c1" using prune_all_returns [OF ng] by blast
  ultimately show ?thesis by (simp add: batch_delete_mutate_def Let_def)
qed

section \<open>Children\<close>

lemma prune_children_get:
  "obj_get (dc_children (pruneDeletedIssueFromParentChildrenCaches c i ps)) p =
     (if p \<in> set ps then map_option (filter (\<lambda>x. issue_id x \<noteq> i)) (obj_get (dc_children c) p)
      else obj_get (dc_children c) p)"
proof (induction ps arbitrary: c)
  case Nil
  then show ?case by (simp add: pruneDeletedIssueFromParentChildrenCaches_def)
next
  case (Cons q ps)
  let ?c = "case obj_get (dc_children c) q of
         None \<Rightarrow> c
       | Some old \<Rightarrow> c\<lparr>dc_children := obj_set (dc_children c) q (filter (\<lambda>x. issue_id x \<noteq> i) old)\<rparr>"
  have "pruneDeletedIssueFromParentChildrenCaches c i (q # ps) = pruneDeletedIssueFromParentChildrenCaches ?c i ps"
    by (simp add: pruneDeletedIssueFromParentChildrenCaches_def)
  moreover have "obj_get (dc_children ?c) p =
      (if p = q then map_option (filter (\<lambda>x. issue_id x \<noteq> i)) (obj_get (dc_children c) p) else obj_get (dc_children c) p)"
    by (simp add: obj_simps split: option.splits)
  ultimately show ?case
    by (cases "obj_get (dc_children c) p") (auto simp: Cons.IH [of ?c])
qed

lemma prune_children_frame:
  "\<exists>ch. pruneDeletedIssueFromParentChildrenCaches c i ps = c\<lparr>dc_children := ch\<rparr>"
proof (induction ps arbitrary: c)
  case Nil
  show ?case by (rule exI [of _ "dc_children c"]) (simp add: pruneDeletedIssueFromParentChildrenCaches_def)
next
  case (Cons q ps)
  show ?case
  proof (cases "obj_get (dc_children c) q")
    case None
    then show ?thesis using Cons.IH [of c] by (simp add: pruneDeletedIssueFromParentChildrenCaches_def)
  next
    case (Some old)
    then show ?thesis
      using Cons.IH [of "c\<lparr>dc_children := obj_set (dc_children c) q (filter (\<lambda>x. issue_id x \<noteq> i) old)\<rparr>"]
      by (simp add: pruneDeletedIssueFromParentChildrenCaches_def)
  qed
qed

lemma collectParentId_keeps: "set ids \<subseteq> set (collectParentId ids p)"
  by (auto simp: collectParentId_def split: option.splits)

lemma collectParentId_adds: "p \<noteq> [] \<Longrightarrow> p \<in> set (collectParentId ids (Some p))"
  by (auto simp: collectParentId_def)

lemma collect_children_keeps: "set ids \<subseteq> set (collect_children i ids e)"
proof (cases "find (\<lambda>x. issue_id x = i) (snd e)")
  case None
  then show ?thesis by (simp add: collect_children_def)
next
  case (Some child)
  have "set ids \<subseteq> set (collectParentId ids (parent_issue_id child))" by (rule collectParentId_keeps)
  also have "\<dots> \<subseteq> set (collectParentId (collectParentId ids (parent_issue_id child)) (Some (fst e)))"
    by (rule collectParentId_keeps)
  finally show ?thesis using Some by (simp add: collect_children_def)
qed

lemma collect_children_loop_keeps: "set ids \<subseteq> set (foldl (collect_children i) ids es)"
proof (induction es arbitrary: ids)
  case (Cons e es)
  show ?case using subset_trans [OF collect_children_keeps [of ids i e] Cons.IH [of "collect_children i ids e"]] by simp
qed simp

lemma collect_children_loop_finds:
  "(p, xs) \<in> set es \<Longrightarrow> p \<noteq> [] \<Longrightarrow> x \<in> set xs \<Longrightarrow> issue_id x = i \<Longrightarrow>
   p \<in> set (foldl (collect_children i) ids es)"
proof (induction es arbitrary: ids)
  case (Cons e es)
  show ?case
  proof (cases "e = (p, xs)")
    case True
    have "find (\<lambda>x. issue_id x = i) xs \<noteq> None" using Cons.prems(3,4) by (auto simp: find_None_iff)
    then have "p \<in> set (collect_children i ids e)"
      using True collectParentId_adds [OF Cons.prems(2)] by (auto simp: collect_children_def)
    then show ?thesis using collect_children_loop_keeps [of "collect_children i ids e" i es] by auto
  next
    case False
    then show ?thesis using Cons by simp
  qed
qed simp

lemma collect_finds_parents:
  assumes "collectDeletedIssueCacheMetadata c i = Inr ids" "(p, xs) \<in> set (dc_children c)" "p \<noteq> []"
    "x \<in> set xs" "issue_id x = i"
  shows "p \<in> set ids"
  using assms collect_children_loop_finds [OF assms(2-5)]
  by (auto simp: collectDeletedIssueCacheMetadata_def Let_def split: sum.splits)

section \<open>Filtering\<close>

lemma remove_cards:
  assumes "ids_apart d"
  shows "cards (removeIssueFromBuckets d i) s = filter (\<lambda>x. issue_id x \<noteq> i) (cards d s)"
proof (cases "findIssueLocation d i")
  case None
  then have "\<forall>x \<in> set (cards d s). issue_id x \<noteq> i" by (simp add: not_located)
  then have "filter (\<lambda>x. issue_id x \<noteq> i) (cards d s) = cards d s" by (simp add: filter_id_conv)
  then show ?thesis using None by (simp add: removeIssueFromBuckets_def)
next
  case (Some loc)
  obtain t x where tx: "findIssueLocation d i = Some (t, x)" using Some by (cases loc) simp
  show ?thesis
  proof (cases "s = t")
    case True
    then show ?thesis using tx by (simp add: removeIssueFromBuckets_def Let_def bucket_simps)
  next
    case False
    have "\<forall>y \<in> set (cards d s). issue_id y \<noteq> i"
      using ids_apartD [OF assms] located [OF tx] False by blast
    then have "filter (\<lambda>x. issue_id x \<noteq> i) (cards d s) = cards d s" by (simp add: filter_id_conv)
    then show ?thesis using tx False by (simp add: removeIssueFromBuckets_def Let_def bucket_simps)
  qed
qed

lemma prune_flat_issues:
  "map page_issues (prune_flat i pages) = map (\<lambda>p. filter (\<lambda>x. issue_id x \<noteq> i) (page_issues p)) pages"
proof (cases "list_ex (\<lambda>p. list_ex (\<lambda>x. issue_id x = i) (page_issues p)) pages")
  case True
  then show ?thesis by (simp add: prune_flat_def)
next
  case False
  then have "filter (\<lambda>x. issue_id x \<noteq> i) (page_issues p) = page_issues p" if "p \<in> set pages" for p
    using that by (simp add: list_ex_iff filter_id_conv)
  then show ?thesis using False by (simp add: prune_flat_def)
qed

text \<open>A cache \<open>d'\<close> that is \<open>d\<close> without the issue.\<close>

definition list_without :: "string \<Rightarrow> list_cache \<Rightarrow> list_cache \<Rightarrow> bool" where
  "list_without i d d' \<longleftrightarrow> (\<forall>s. cards d' s = filter (\<lambda>x. issue_id x \<noteq> i) (cards d s))"

fun my_without :: "string \<Rightarrow> my_data \<Rightarrow> my_data \<Rightarrow> bool" where
  "my_without i (Board d) (Board d') \<longleftrightarrow> list_without i d d'"
| "my_without i d d' \<longleftrightarrow> False"

definition without_issue :: "string \<Rightarrow> string \<Rightarrow> delete_client \<Rightarrow> delete_client \<Rightarrow> bool" where
  "without_issue ws i c c' \<longleftrightarrow>
     list_all2 (\<lambda>e e'. fst e = fst e' \<and> list_without i (snd e) (snd e')) (dc_lists c) (dc_lists c') \<and>
     list_all2 (\<lambda>e e'. fst e = fst e' \<and> my_without i (snd e) (snd e')) (dc_my c) (dc_my c') \<and>
     list_all2 (\<lambda>e e'. fst e = fst e' \<and>
       map page_issues (snd e') = map (\<lambda>p. filter (\<lambda>x. issue_id x \<noteq> i) (page_issues p)) (snd e))
       (dc_flat c) (dc_flat c') \<and>
     (\<forall>j. obj_get (dc_details c') j = (if j = i then None else obj_get (dc_details c) j)) \<and>
     (\<forall>p. obj_get (dc_children c') p =
        (if p = i then None else map_option (filter (\<lambda>x. issue_id x \<noteq> i)) (obj_get (dc_children c) p))) \<and>
     dc_scoped c' = filter (\<lambda>e. snd e \<noteq> i) (dc_scoped c) \<and>
     (\<forall>w. recent_bucket (dc_recent c') w =
        (if w = ws then filter (\<lambda>e. recent_id e \<noteq> i) (recent_bucket (dc_recent c) w)
         else recent_bucket (dc_recent c) w))"

text \<open>What a client satisfies: no issue twice in a bucketed list, and no empty parent id.\<close>

fun board_apart :: "my_data \<Rightarrow> bool" where
  "board_apart (Board d) \<longleftrightarrow> ids_apart d"
| "board_apart (Groups gs) \<longleftrightarrow> True"

definition client_ok :: "delete_client \<Rightarrow> bool" where
  "client_ok c \<longleftrightarrow>
     (\<forall>e \<in> set (dc_lists c). ids_apart (snd e)) \<and> (\<forall>e \<in> set (dc_my c). board_apart (snd e)) \<and>
     distinct (map fst (dc_lists c)) \<and> distinct (map fst (dc_my c)) \<and> distinct (map fst (dc_flat c)) \<and>
     obj_wf (dc_children c) \<and> [] \<notin> fst ` set (dc_children c)"

lemma scoped_of_iff: "e \<in> set (scoped_of i) \<longleftrightarrow> snd e = i"
  by (cases e; cases "fst e") (auto simp: scoped_of_def)

lemma invalidate_sel [simp]:
  "dc_lists (invalidate ps c) = dc_lists c" "dc_my (invalidate ps c) = dc_my c" "dc_flat (invalidate ps c) = dc_flat c"
  "dc_details (invalidate ps c) = dc_details c" "dc_children (invalidate ps c) = dc_children c"
  "dc_scoped (invalidate ps c) = dc_scoped c" "dc_recent (invalidate ps c) = dc_recent c"
  "dc_contexts (invalidate ps c) = dc_contexts c" "dc_stale (invalidate ps c) = dc_stale c @ ps"
  by (simp_all add: invalidate_def)

lemma invalidate_parents: "\<exists>ps. invalidateDeletedIssueParentCaches c parents = invalidate ps c"
  by (cases "parents = []") (auto simp: invalidateDeletedIssueParentCaches_def intro: exI [of _ "[]"] simp: invalidate_def)

lemma list_all2_map: "(\<And>e. e \<in> set es \<Longrightarrow> P e (f e)) \<Longrightarrow> list_all2 P es (map f es)"
  by (induction es) auto

lemma pruned_client:
  assumes ok: "client_ok c" and ng: "\<not> has_groups c" and coll: "collectDeletedIssueCacheMetadata c i = Inr parents"
  shows "\<exists>c'. cleanupDeletedIssueCaches ws c i parents = (c', None) \<and> without_issue ws i c c' \<and>
    {ListAll, MyAll, FlatAll, TableAll, GanttAll, ChildProgress} \<subseteq> set (dc_stale c')"
proof -
  let ?c1 = "c\<lparr>dc_lists := map (apsnd (\<lambda>d. removeIssueFromBuckets d i)) (dc_lists c),
       dc_my := map (apsnd (board_without i)) (dc_my c),
       dc_flat := map (apsnd (prune_flat i)) (dc_flat c)\<rparr>"
  obtain ch where ch: "pruneDeletedIssueFromParentChildrenCaches ?c1 i parents = ?c1\<lparr>dc_children := ch\<rparr>"
    using prune_children_frame by blast
  let ?c2 = "?c1\<lparr>dc_children := ch\<rparr>"
  obtain ps where ps: "invalidateDeletedIssueParentCaches ?c2 parents = invalidate ps ?c2"
    using invalidate_parents by blast
  let ?c4 = "invalidateDeletedIssueDependentCaches
      (invalidate [ChildProgress, ListAll, MyAll, FlatAll, TableAll, GanttAll] (remove_scoped i (invalidate ps ?c2)))"
  let ?c' = "?c4\<lparr>dc_recent := forgetIssue ws i (dc_recent ?c4)\<rparr>"
  have run: "cleanupDeletedIssueCaches ws c i parents = (?c', None)"
    unfolding cleanupDeletedIssueCaches_def prune_lists_eq [OF ng] prod.case option.case Let_def ch ps ..
  have kids: "obj_get ch p = map_option (filter (\<lambda>x. issue_id x \<noteq> i)) (obj_get (dc_children c) p)" for p
  proof (cases "p \<in> set parents")
    case True
    then show ?thesis using prune_children_get [of ?c1 i parents p] ch by simp
  next
    case False
    have "filter (\<lambda>x. issue_id x \<noteq> i) xs = xs" if "obj_get (dc_children c) p = Some xs" for xs
    proof -
      have mem: "(p, xs) \<in> set (dc_children c)" using that by (rule map_of_SomeD)
      then have "p \<noteq> []" using ok by (force simp: client_ok_def)
      then have "\<forall>x \<in> set xs. issue_id x \<noteq> i" using collect_finds_parents [OF coll mem] False by blast
      then show ?thesis by (simp add: filter_id_conv)
    qed
    then show ?thesis using False prune_children_get [of ?c1 i parents p] ch
      by (cases "obj_get (dc_children c) p") simp_all
  qed
  have lists: "list_all2 (\<lambda>e e'. fst e = fst e' \<and> list_without i (snd e) (snd e')) (dc_lists c) (dc_lists ?c')"
    using ok by (simp add: invalidateDeletedIssueDependentCaches_def remove_scoped_def)
      (rule list_all2_map, simp add: list_without_def client_ok_def remove_cards)
  have my: "my_without i d (board_without i d)" if "board_apart d" "\<not> is_groups d" for d
    using that by (cases d) (simp_all add: list_without_def remove_cards)
  have mys: "list_all2 (\<lambda>e e'. fst e = fst e' \<and> my_without i (snd e) (snd e')) (dc_my c) (dc_my ?c')"
    using ok ng by (simp add: invalidateDeletedIssueDependentCaches_def remove_scoped_def)
      (rule list_all2_map, simp add: client_ok_def has_groups_def list_ex_iff my)
  have flats: "list_all2 (\<lambda>e e'. fst e = fst e' \<and>
      map page_issues (snd e') = map (\<lambda>p. filter (\<lambda>x. issue_id x \<noteq> i) (page_issues p)) (snd e)) (dc_flat c) (dc_flat ?c')"
    by (simp add: invalidateDeletedIssueDependentCaches_def remove_scoped_def)
      (rule list_all2_map, simp add: prune_flat_issues)
  have "without_issue ws i c ?c'"
    unfolding without_issue_def
    using lists mys flats
    by (simp add: invalidateDeletedIssueDependentCaches_def remove_scoped_def scoped_of_iff obj_simps kids
        forgetIssue_def forgotten forget_others)
  moreover have "{ListAll, MyAll, FlatAll, TableAll, GanttAll, ChildProgress} \<subseteq> set (dc_stale ?c')"
    by (simp add: invalidateDeletedIssueDependentCaches_def)
  ultimately show ?thesis using run by blast
qed

section \<open>Rollback\<close>

text \<open>\<open>c'\<close> is \<open>c\<close> but for the contents of its lists and of the children of \<open>ps\<close>.\<close>

definition touched :: "string list \<Rightarrow> delete_client \<Rightarrow> delete_client \<Rightarrow> bool" where
  "touched ps c c' \<longleftrightarrow>
     map fst (dc_lists c') = map fst (dc_lists c) \<and> map fst (dc_my c') = map fst (dc_my c) \<and>
     map fst (dc_flat c') = map fst (dc_flat c) \<and>
     c' = c\<lparr>dc_lists := dc_lists c', dc_my := dc_my c', dc_flat := dc_flat c', dc_children := dc_children c'\<rparr> \<and>
     (\<forall>p. (p \<notin> set ps \<longrightarrow> obj_get (dc_children c') p = obj_get (dc_children c) p) \<and>
          (obj_get (dc_children c) p = None \<longrightarrow> obj_get (dc_children c') p = None))"

lemma touched_refl: "touched ps c c"
  by (simp add: touched_def)

lemma touched_details: "touched ps c c' \<Longrightarrow> dc_details c' = dc_details c"
  unfolding touched_def by (cases c; cases c') simp

lemma touched_trans: "touched ps c c1 \<Longrightarrow> touched ps c1 c2 \<Longrightarrow> touched ps c c2"
  unfolding touched_def by (cases c; cases c1; cases c2) simp

lemma touched_prune:
  assumes "pruneDeletedIssueFromListCaches c i = (c1, None)" "set parents \<subseteq> set ps"
  shows "touched ps c (pruneDeletedIssueFromParentChildrenCaches c1 i parents)"
proof -
  obtain ch where ch: "pruneDeletedIssueFromParentChildrenCaches c1 i parents = c1\<lparr>dc_children := ch\<rparr>"
    using prune_children_frame by blast
  have c1: "c1 = c\<lparr>dc_lists := map (\<lambda>(k, data). (k, removeIssueFromBuckets data i)) (dc_lists c),
      dc_my := fst (prune_my (dc_my c) i), dc_flat := map (\<lambda>(k, pages). (k, prune_flat i pages)) (dc_flat c)\<rparr>"
    using assms(1) by (simp add: pruneDeletedIssueFromListCaches_def Let_def case_prod_unfold split: option.splits)
  have kids: "dc_children c1 = dc_children c" using c1 by simp
  have "obj_get ch p = (if p \<in> set parents then map_option (filter (\<lambda>x. issue_id x \<noteq> i)) (obj_get (dc_children c) p)
      else obj_get (dc_children c) p)" for p
    using prune_children_get [of c1 i parents p] ch kids by simp
  then have "(p \<notin> set ps \<longrightarrow> obj_get ch p = obj_get (dc_children c) p) \<and>
      (obj_get (dc_children c) p = None \<longrightarrow> obj_get ch p = None)" for p
    using assms(2) by auto
  then have "touched ps c (c1\<lparr>dc_children := ch\<rparr>)"
    unfolding touched_def c1 by (simp add: o_def case_prod_unfold)
  then show ?thesis by (simp only: ch)
qed

lemma touched_prune_all:
  "prune_all c metadata = Inr c' \<Longrightarrow> \<forall>e \<in> set metadata. set (snd e) \<subseteq> set ps \<Longrightarrow> touched ps c c'"
proof (induction c metadata rule: prune_all.induct)
  case (1 c)
  then show ?case by (simp add: touched_refl)
next
  case (2 c i parents rest)
  obtain c1 err where p: "pruneDeletedIssueFromListCaches c i = (c1, err)" by (cases "pruneDeletedIssueFromListCaches c i")
  have err: "err = None" using 2(2) p by (cases err) simp_all
  let ?c2 = "pruneDeletedIssueFromParentChildrenCaches c1 i parents"
  have "prune_all ?c2 rest = Inr c'" using 2(2) p err by simp
  then have "touched ps ?c2 c'" using 2(1) [OF p [symmetric] err] 2(3) by simp
  moreover have "touched ps c ?c2" using touched_prune p err 2(3) by simp
  ultimately show ?case using touched_trans by blast
qed

lemma write_back_get:
  "obj_get (write_back_some (map (\<lambda>p. (p, f p)) ps) m) p =
     (if p \<in> set ps then (case f p of None \<Rightarrow> obj_get m p | Some v \<Rightarrow> Some v) else obj_get m p)"
proof (induction ps rule: rev_induct)
  case Nil
  then show ?case by (simp add: write_back_some_def)
next
  case (snoc q ps)
  have "write_back_some (map (\<lambda>p. (p, f p)) (ps @ [q])) m =
    (case f q of None \<Rightarrow> write_back_some (map (\<lambda>p. (p, f p)) ps) m
     | Some x \<Rightarrow> obj_set (write_back_some (map (\<lambda>p. (p, f p)) ps) m) q x)"
    by (cases "f q") (simp_all add: write_back_some_def)
  then show ?case using snoc by (auto simp: obj_simps split: option.splits)
qed

lemma restore_all: "map fst m = map fst m0 \<Longrightarrow> distinct (map fst m0) \<Longrightarrow> restore m0 m = m0"
proof -
  assume a: "map fst m = map fst m0" "distinct (map fst m0)"
  have "set (map fst m) = set (map fst m0)" using a(1) by simp
  then have "map_of m k = map_of m0 k" if "k \<notin> fst ` set m0" for k
  proof -
    have "k \<notin> fst ` set m" using that a(1) by (metis set_map)
    then show ?thesis using that by (metis map_of_eq_None_iff)
  qed
  then have "saved m0 m m0" using a by (auto simp: saved_def)
  then show ?thesis using a(2) by (rule saved_restore)
qed

text \<open>The same caches: every list as it was, in place, and every detail and children cache.\<close>

definition same_caches :: "delete_client \<Rightarrow> delete_client \<Rightarrow> bool" where
  "same_caches c c' \<longleftrightarrow>
     dc_lists c' = dc_lists c \<and> dc_my c' = dc_my c \<and> dc_flat c' = dc_flat c \<and>
     obj_get (dc_details c') = obj_get (dc_details c) \<and> obj_get (dc_children c') = obj_get (dc_children c) \<and>
     dc_scoped c' = dc_scoped c \<and> dc_recent c' = dc_recent c \<and> dc_contexts c' = dc_contexts c \<and>
     dc_stale c' = dc_stale c"

lemma restored:
  assumes "touched ps c c'" "client_ok c"
    and ctx: "snap_lists ctx = dc_lists c" "snap_my ctx = dc_my c" "snap_flat ctx = dc_flat c"
      "snap_children ctx = map (\<lambda>p. (p, obj_get (dc_children c) p)) ps"
  shows "same_caches c (restore_children ctx (restore_lists ctx c'))"
proof -
  have t: "map fst (dc_lists c') = map fst (dc_lists c)" "map fst (dc_my c') = map fst (dc_my c)"
    "map fst (dc_flat c') = map fst (dc_flat c)"
    "c' = c\<lparr>dc_lists := dc_lists c', dc_my := dc_my c', dc_flat := dc_flat c', dc_children := dc_children c'\<rparr>"
    and kids: "\<And>p. p \<notin> set ps \<Longrightarrow> obj_get (dc_children c') p = obj_get (dc_children c) p"
    "\<And>p. obj_get (dc_children c) p = None \<Longrightarrow> obj_get (dc_children c') p = None"
    using assms(1) unfolding touched_def by blast+
  have rest: "dc_details c' = dc_details c" "dc_scoped c' = dc_scoped c" "dc_recent c' = dc_recent c"
    "dc_contexts c' = dc_contexts c" "dc_stale c' = dc_stale c"
    by (subst t(4), simp)+
  have keys: "distinct (map fst (dc_lists c))" "distinct (map fst (dc_my c))" "distinct (map fst (dc_flat c))"
    using assms(2) by (simp_all add: client_ok_def)
  have "obj_get (write_back_some (map (\<lambda>p. (p, obj_get (dc_children c) p)) ps) (dc_children c')) p =
      obj_get (dc_children c) p" for p
    using kids [of p] by (auto simp: write_back_get split: option.splits)
  then show ?thesis
    using restore_all [OF t(1) keys(1)] restore_all [OF t(2) keys(2)] restore_all [OF t(3) keys(3)]
    by (simp add: same_caches_def restore_children_def restore_lists_def ctx rest fun_eq_iff)
qed

section \<open>A concrete client\<close>

definition demo_child :: issue where
  "demo_child = (some_issue ''a'')\<lparr>parent_issue_id := Some ''p''\<rparr>"

definition demo_column :: "issue list \<Rightarrow> list_cache" where
  "demo_column xs = (\<lambda>s. None)(Todo := Some \<lparr>bucket_issues = xs, bucket_total = int (length xs)\<rparr>)"

definition plain_sort :: sort_param where
  "plain_sort = \<lparr>sort_by = None, date_field = None, sort_properties = None\<rparr>"

definition demo_client :: delete_client where
  "demo_client =
     \<lparr>dc_lists = [(plain_sort, demo_column [demo_child, some_issue ''b''])],
      dc_my = [(MyBoardKey ''assigned'' no_filter plain_sort, Board (demo_column [demo_child]))],
      dc_flat = [(FlatKey ''all'' no_flat_filter plain_sort, [\<lparr>page_issues = [demo_child], page_total = 1\<rparr>])],
      dc_details = [(''a'', demo_child)], dc_children = [(''p'', [demo_child])],
      dc_scoped = [(Timeline, ''a''), (Timeline, ''b'')],
      dc_recent = [(''w1'', [\<lparr>recent_id = ''a'', recent_at = 5\<rparr>])], dc_contexts = [], dc_stale = []\<rparr>"

lemma demo_column_cards: "cards (demo_column xs) s = (if s = Todo then xs else [])"
  by (simp add: demo_column_def getBucket_def or_else_def EMPTY_BUCKET_def)

lemma demo_column_apart: "distinct (map issue_id xs) \<Longrightarrow> ids_apart (demo_column xs)"
  unfolding ids_apart_def demo_column_cards by simp

lemma demo_client_ok: "client_ok demo_client" "\<not> has_groups demo_client"
proof -
  have "ids_apart (demo_column [demo_child, some_issue ''b''])" "ids_apart (demo_column [demo_child])"
    by (rule demo_column_apart, simp add: demo_child_def some_issue_def)+
  then show "client_ok demo_client" by (simp add: client_ok_def demo_client_def obj_wf_def)
  show "\<not> has_groups demo_client" by (simp add: has_groups_def demo_client_def)
qed

section \<open>The properties\<close>



text \<open>One assignee-grouped board under My Issues blocks every deletion: while such a board is in the cache the collector throws, so the delete mutation fails before it sends a request (and the batch mutation with it), and a delete event of the server leaves every cache as it was, the deleted issue included; without one neither throws.\<close>

theorem groups_block_deletion:
  "(\<exists>e. delete_mutate c i = Inl e) = has_groups c \<and>
   (\<exists>e. batch_delete_mutate c [i] = Inl e) = has_groups c \<and>
   (if has_groups c then onIssueDeleted ws c i = (c, Some TypeError)
    else \<exists>c'. onIssueDeleted ws c i = (c', None))"
proof (cases "has_groups c")
  case True
  then have "collectDeletedIssueCacheMetadata c i = Inl TypeError" using collect_throws by blast
  then show ?thesis using True
    by (simp add: delete_mutate_def batch_delete_mutate_def onIssueDeleted_def cleanup_collecting_def)
next
  case False
  then obtain parents where coll: "collectDeletedIssueCacheMetadata c i = Inr parents"
    using collect_returns by blast
  note lists = prune_lists_eq [OF False, of i]
  have "\<not> (\<exists>e. delete_mutate c i = Inl e)" "\<not> (\<exists>e. batch_delete_mutate c [i] = Inl e)"
    by (simp_all add: delete_mutate_def batch_delete_mutate_def coll lists Let_def)
  moreover have "\<exists>c'. onIssueDeleted ws c i = (c', None)"
    by (simp add: onIssueDeleted_def cleanup_collecting_def cleanupDeletedIssueCaches_def coll lists Let_def)
  ultimately show ?thesis using False by simp
qed

text \<open>C15. A failed delete gives everything back: when the request of a single or a batch deletion fails, its error handler leaves every list, flat window, detail, sub-issue list and store as they were before the mutation, in place and in order, whatever was loaded.\<close>

theorem failed_delete_restores:
  assumes "client_ok c"
  shows "(\<forall>c1 ctx. delete_mutate c i = Inr (c1, ctx) \<longrightarrow> same_caches c (delete_error ctx c1)) \<and>
    (\<forall>c1 ctx. batch_delete_mutate c is = Inr (c1, ctx) \<longrightarrow> same_caches c (batch_delete_error ctx c1))"
proof (intro conjI allI impI)
  fix c1 ctx assume run: "delete_mutate c i = Inr (c1, ctx)"
  obtain parents where coll: "collectDeletedIssueCacheMetadata c i = Inr parents"
    using run by (auto simp: delete_mutate_def split: sum.splits)
  obtain c0 err where p: "pruneDeletedIssueFromListCaches c i = (c0, err)"
    by (cases "pruneDeletedIssueFromListCaches c i")
  have err: "err = None" using run by (cases err) (simp_all add: delete_mutate_def coll p Let_def)
  let ?c2 = "pruneDeletedIssueFromParentChildrenCaches c0 i parents"
  have c1: "c1 = ?c2\<lparr>dc_details := obj_delete (dc_details ?c2) i\<rparr>"
    and ctx: "ctx = \<lparr>ctx_id = i, ctx_parents = parents, snap_lists = dc_lists c, snap_my = dc_my c,
        snap_flat = dc_flat c, snap_detail = obj_get (dc_details c) i,
        snap_children = map (\<lambda>p. (p, obj_get (dc_children c) p)) parents\<rparr>"
    using run by (simp_all add: delete_mutate_def coll p err Let_def)
  have t: "touched parents c ?c2" using touched_prune [of c i c0 parents parents] p err by simp
  have details: "dc_details ?c2 = dc_details c" using t by (rule touched_details)
  have undone: "same_caches c (restore_children ctx (restore_lists ctx ?c2))"
    by (rule restored [OF t assms]) (simp_all add: ctx)
  have "obj_get (dc_details (delete_error ctx c1)) = obj_get (dc_details c)"
    by (cases "obj_get (dc_details c) i")
      (auto simp: delete_error_def ctx c1 details restore_lists_def restore_children_def Let_def obj_simps fun_eq_iff)
  then show "same_caches c (delete_error ctx c1)"
    using undone
    by (cases "obj_get (dc_details c) i")
      (simp_all add: same_caches_def delete_error_def ctx c1 restore_lists_def restore_children_def Let_def)
next
  fix c1 ctx assume run: "batch_delete_mutate c is = Inr (c1, ctx)"
  obtain metadata where coll: "collect_all c is = Inr metadata"
    using run by (auto simp: batch_delete_mutate_def split: sum.splits)
  let ?ps = "foldl (\<lambda>ids p. if p \<in> set ids then ids else ids @ [p]) [] (concat (map snd metadata))"
  have prune: "prune_all c metadata = Inr c1"
    and ctx: "delete_context.truncate ctx = \<lparr>ctx_id = [], ctx_parents = ?ps, snap_lists = dc_lists c,
        snap_my = dc_my c, snap_flat = dc_flat c, snap_detail = None,
        snap_children = map (\<lambda>p. (p, obj_get (dc_children c) p)) ?ps\<rparr>"
    using run by (auto simp: batch_delete_mutate_def coll Let_def delete_context.defs split: sum.splits)
  have union: "set (foldl (\<lambda>ids p. if p \<in> set ids then ids else ids @ [p]) acc ps) = set acc \<union> set ps"
    for acc ps :: "string list"
    by (induction ps arbitrary: acc) auto
  have "touched ?ps c c1" using touched_prune_all [OF prune, of ?ps] by (auto simp: union)
  then show "same_caches c (batch_delete_error ctx c1)"
    unfolding batch_delete_error_def by (rule restored [OF _ assms]) (simp_all add: ctx)
qed

theorem failed_delete_restores_witness:
  "(\<exists>c1 ctx. delete_mutate demo_client ''a'' = Inr (c1, ctx) \<and> same_caches demo_client (delete_error ctx c1)) \<and>
   (\<exists>c1 ctx. batch_delete_mutate demo_client [''a'', ''b''] = Inr (c1, ctx) \<and>
      same_caches demo_client (batch_delete_error ctx c1))"
proof -
  have "\<not> (\<exists>e. delete_mutate demo_client ''a'' = Inl e)"
    using collect_returns [of demo_client "''a''"] demo_client_ok(2) prune_lists_eq [OF demo_client_ok(2), of "''a''"]
    by (auto simp: delete_mutate_def Let_def)
  then obtain c1 ctx where one: "delete_mutate demo_client ''a'' = Inr (c1, ctx)"
    by (cases "delete_mutate demo_client ''a''") auto
  obtain c2 ctx2 where two: "batch_delete_mutate demo_client [''a'', ''b''] = Inr (c2, ctx2)"
    using batch_delete_returns [OF demo_client_ok(2), of "[''a'', ''b'']"] by blast
  show ?thesis
    using failed_delete_restores [OF demo_client_ok(1), of "''a''" "[''a'', ''b'']"] one two by blast
qed

end
