(* ===== verification/Issue_Updaters.thy ===== *)
theory Issue_Updaters
  imports Issue_Deletion
begin

text \<open>
  The handlers of issue events (\<open>packages/core/issues/ws-updaters.ts\<close>), the create and update
  mutations around the coordinator (\<open>useCreateIssue\<close>, \<open>useUpdateIssue\<close>, \<open>useBatchUpdateIssues\<close> of
  \<open>mutations.ts\<close>) and the optimistic writes of one custom property
  (\<open>packages/core/properties/mutations.ts\<close>). The state is the coordinator's caches with the caches
  it does not reconcile: the sub-issues per parent, the Gantt rows per project and the labels per
  issue. Labels and metadata are replaced as a whole, so they are references in \<open>other_fields\<close>;
  a property bag is an object.
\<close>

section \<open>The caches\<close>

datatype stale_mark = Marked stale_prefix | MarkedKey query_key | MarkedDetail string | MarkedProperties

record update_client =
  uc_cache :: query_cache
  uc_children :: "issue list obj"
  uc_gantt :: "(string \<times> issue list) list"
  uc_labels :: "string obj"
  uc_stale :: "stale_mark list"

definition mark :: "stale_mark list \<Rightarrow> update_client \<Rightarrow> update_client" where
  "mark ms uc = uc\<lparr>uc_stale := uc_stale uc @ ms\<rparr>"

section \<open>Patching every kind of cache\<close>

definition patch_copy :: "string \<Rightarrow> issue_patch \<Rightarrow> issue \<Rightarrow> issue" where
  "patch_copy i p x = (if issue_id x = i then patched x p else x)"

definition patch_lists :: "string \<Rightarrow> issue_patch \<Rightarrow> query_cache \<Rightarrow> query_cache" where
  "patch_lists i p qc =
     qc\<lparr>qc_lists := map (\<lambda>(k, d). (k, if is_list_key k then patchIssueInBuckets d i p else d)) (qc_lists qc)\<rparr>"

definition patchIssueInFlatCaches :: "string \<Rightarrow> issue_patch \<Rightarrow> query_cache \<Rightarrow> query_cache" where
  "patchIssueInFlatCaches i p qc =
     qc\<lparr>qc_flat := map (\<lambda>(k, pages).
       (k, map (\<lambda>pg. pg\<lparr>page_issues := map (patch_copy i p) (page_issues pg)\<rparr>) pages)) (qc_flat qc)\<rparr>"

definition patch_rows :: "string \<Rightarrow> issue_patch \<Rightarrow> table_row list \<Rightarrow> table_row list" where
  "patch_rows i p rws =
     (if list_ex (\<lambda>r. issue_id (row_issue r) = i) rws
      then map (\<lambda>r. if issue_id (row_issue r) = i then r\<lparr>row_issue := patched (row_issue r) p\<rparr> else r) rws
      else rws)"

definition patchIssueInTableCaches :: "string \<Rightarrow> issue_patch \<Rightarrow> query_cache \<Rightarrow> query_cache" where
  "patchIssueInTableCaches i p qc = qc\<lparr>qc_rows := map (\<lambda>(k, rws). (k, patch_rows i p rws)) (qc_rows qc)\<rparr>"

definition patch_detail :: "string \<Rightarrow> issue_patch \<Rightarrow> query_cache \<Rightarrow> query_cache" where
  "patch_detail i p qc =
     (case obj_get (qc_details qc) i of
        None \<Rightarrow> qc
      | Some d \<Rightarrow> qc\<lparr>qc_details := obj_set (qc_details qc) i (patched d p)\<rparr>)"

definition patchIssueInChildrenCaches :: "string \<Rightarrow> issue_patch \<Rightarrow> update_client \<Rightarrow> update_client" where
  "patchIssueInChildrenCaches i p uc =
     uc\<lparr>uc_children := map (\<lambda>(k, xs).
       (k, if list_ex (\<lambda>x. issue_id x = i) xs then map (patch_copy i p) xs else xs)) (uc_children uc)\<rparr>"

definition patch_gantt :: "string \<Rightarrow> issue_patch \<Rightarrow> update_client \<Rightarrow> update_client" where
  "patch_gantt i p uc = uc\<lparr>uc_gantt := map (\<lambda>(k, xs). (k, map (patch_copy i p) xs)) (uc_gantt uc)\<rparr>"

definition on_cache :: "(query_cache \<Rightarrow> query_cache) \<Rightarrow> update_client \<Rightarrow> update_client" where
  "on_cache f uc = uc\<lparr>uc_cache := f (uc_cache uc)\<rparr>"

text \<open>Lists, flat windows, table pages and the detail cache, in this order.\<close>

definition patch_snapshots :: "string \<Rightarrow> issue_patch \<Rightarrow> query_cache \<Rightarrow> query_cache" where
  "patch_snapshots i p qc =
     patch_detail i p (patchIssueInTableCaches i p (patchIssueInFlatCaches i p (patch_lists i p qc)))"

section \<open>Marks by predicate\<close>

definition loaded_keys :: "query_cache \<Rightarrow> query_key list" where
  "loaded_keys qc = map fst (qc_lists qc) @ map fst (qc_flat qc) @ map fst (qc_rows qc)"

fun key_sort :: "query_key \<Rightarrow> sort_param option" where
  "key_sort (ListKey srt) = Some srt"
| "key_sort (MyKey scope flt srt) = Some srt"
| "key_sort (FlatKey scope flt srt) = Some srt"
| "key_sort (TableKey s) = None"

definition invalidateUpdatedAtSortedIssueLists :: "update_client \<Rightarrow> update_client" where
  "invalidateUpdatedAtSortedIssueLists uc =
     mark (map MarkedKey (filter queryKeyHasUpdatedAtSort (loaded_keys (uc_cache uc)))) uc"

definition property_window :: "query_key \<Rightarrow> bool" where
  "property_window k \<longleftrightarrow>
     (case key_sort k of
        None \<Rightarrow> False
      | Some srt \<Rightarrow>
          (case sort_properties srt of None \<Rightarrow> False | Some bag \<Rightarrow> bag \<noteq> []) \<or>
          (case sort_by srt of None \<Rightarrow> False | Some by_field \<Rightarrow> starts_with by_field ''property:''))"

definition invalidatePropertyWindowQueries :: "update_client \<Rightarrow> update_client" where
  "invalidatePropertyWindowQueries uc =
     mark (map MarkedKey (filter property_window (loaded_keys (uc_cache uc)))) uc"

fun label_window :: "query_key \<Rightarrow> bool" where
  "label_window (FlatKey scope flt srt) \<longleftrightarrow> nonempty (f_label_ids flt)"
| "label_window k \<longleftrightarrow> False"

definition invalidateIssueDerivatives :: "bool \<Rightarrow> update_client \<Rightarrow> update_client" where
  "invalidateIssueDerivatives statusOrProjectChanged uc =
     mark ([Marked AssigneeGroupsAll, Marked MyAssigneeGroupsAll, Marked GanttAll] @
           (if statusOrProjectChanged then [Marked ProjectsAll] else [])) uc"

section \<open>Labels, metadata, properties\<close>

definition other_patch :: "string \<Rightarrow> string \<Rightarrow> issue_patch" where
  "other_patch f v = no_patch\<lparr>p_other := [(f, v)]\<rparr>"

definition patchIssueLabels :: "string \<Rightarrow> string \<Rightarrow> update_client \<Rightarrow> update_client" where
  "patchIssueLabels i labels uc =
     (let p = other_patch ''labels'' labels;
          uc1 = on_cache (patch_snapshots i p) uc;
          uc2 = (case obj_get (uc_labels uc1) i of
                   None \<Rightarrow> uc1
                 | Some old \<Rightarrow> uc1\<lparr>uc_labels := obj_set (uc_labels uc1) i labels\<rparr>)
      in patch_gantt i p (patchIssueInChildrenCaches i p uc2))"

definition invalidateIssueLabelDerivatives :: "update_client \<Rightarrow> update_client" where
  "invalidateIssueLabelDerivatives uc =
     mark (map Marked [ChildrenAll, ChildrenByParentsAll, MyAll, AssigneeGroupsAll, MyAssigneeGroupsAll, TableAll] @
           map MarkedKey (filter label_window (map fst (qc_flat (uc_cache uc))))) uc"

definition onIssueLabelsChanged :: "string \<Rightarrow> string \<Rightarrow> update_client \<Rightarrow> update_client" where
  "onIssueLabelsChanged i labels uc = invalidateIssueLabelDerivatives (patchIssueLabels i labels uc)"

definition onIssueMetadataChanged :: "string \<Rightarrow> string \<Rightarrow> update_client \<Rightarrow> update_client" where
  "onIssueMetadataChanged i metadata uc =
     mark [Marked TableAll]
       (invalidateUpdatedAtSortedIssueLists
         (mark [Marked MyAll] (on_cache (patch_snapshots i (other_patch ''metadata'' metadata)) uc)))"

definition properties_patch :: "prop_value obj \<Rightarrow> issue_patch" where
  "properties_patch bag = no_patch\<lparr>p_properties := Some bag\<rparr>"

definition patchIssueProperties :: "string \<Rightarrow> prop_value obj \<Rightarrow> update_client \<Rightarrow> update_client" where
  "patchIssueProperties i bag uc =
     patchIssueInChildrenCaches i (properties_patch bag) (on_cache (patch_snapshots i (properties_patch bag)) uc)"

definition onIssuePropertiesChanged :: "string \<Rightarrow> prop_value obj \<Rightarrow> update_client \<Rightarrow> update_client" where
  "onIssuePropertiesChanged i bag uc =
     invalidateUpdatedAtSortedIssueLists
       (invalidatePropertyWindowQueries
         (mark (map Marked [ChildrenAll, ChildrenByParentsAll, MyAll, AssigneeGroupsAll, MyAssigneeGroupsAll, TableAll])
           (patchIssueProperties i bag uc)))"

section \<open>Writing one property\<close>

definition find_copy :: "string \<Rightarrow> issue list \<Rightarrow> issue option" where
  "find_copy i xs = find (\<lambda>x. issue_id x = i) xs"

fun first_some :: "('a \<Rightarrow> 'b option) \<Rightarrow> 'a list \<Rightarrow> 'b option" where
  "first_some f [] = None"
| "first_some f (x # xs) = (case f x of Some y \<Rightarrow> Some y | None \<Rightarrow> first_some f xs)"

definition findIssueInFlatCaches :: "string \<Rightarrow> query_cache \<Rightarrow> issue option" where
  "findIssueInFlatCaches i qc =
     first_some (\<lambda>pages. first_some (\<lambda>pg. find_copy i (page_issues pg)) pages) (map snd (qc_flat qc))"

definition find_in_lists :: "string \<Rightarrow> query_cache \<Rightarrow> issue option" where
  "find_in_lists i qc =
     first_some (\<lambda>(k, d). map_option snd (findIssueLocation d i)) (filter (\<lambda>e. is_list_key (fst e)) (qc_lists qc))"

definition readIssueProperties :: "string \<Rightarrow> update_client \<Rightarrow> prop_value obj option" where
  "readIssueProperties i uc =
     map_option (\<lambda>x. or_else [] (properties x))
       (case obj_get (qc_details (uc_cache uc)) i of
          Some d \<Rightarrow> Some d
        | None \<Rightarrow>
            (case find_in_lists i (uc_cache uc) of
               Some x \<Rightarrow> Some x
             | None \<Rightarrow>
                 (case findIssueInFlatCaches i (uc_cache uc) of
                    Some x \<Rightarrow> Some x
                  | None \<Rightarrow> first_some (\<lambda>(k, xs). find_copy i xs) (uc_children uc))))"

record property_context =
  pc_prev :: "prop_value option"
  pc_had_bag :: bool
  pc_issue :: string
  pc_property :: string

definition property_context_of :: "string \<Rightarrow> string \<Rightarrow> prop_value obj option \<Rightarrow> property_context" where
  "property_context_of i pid prev =
     \<lparr>pc_prev = Option.bind prev (\<lambda>bag. obj_get bag pid), pc_had_bag = (prev \<noteq> None),
      pc_issue = i, pc_property = pid\<rparr>"

definition set_property_mutate ::
    "string \<Rightarrow> string \<Rightarrow> prop_value \<Rightarrow> update_client \<Rightarrow> update_client \<times> property_context" where
  "set_property_mutate i pid v uc =
     (let prev = readIssueProperties i uc in
      (patchIssueProperties i (obj_set (or_else [] prev) pid v) uc, property_context_of i pid prev))"

definition unset_property_mutate ::
    "string \<Rightarrow> string \<Rightarrow> update_client \<Rightarrow> update_client \<times> property_context" where
  "unset_property_mutate i pid uc =
     (let prev = readIssueProperties i uc in
      (case prev of
         None \<Rightarrow> uc
       | Some bag \<Rightarrow> patchIssueProperties i (obj_delete bag pid) uc,
       property_context_of i pid prev))"

definition rollbackSingleKey :: "property_context \<Rightarrow> update_client \<Rightarrow> update_client" where
  "rollbackSingleKey ctx uc =
     (if \<not> pc_had_bag ctx then mark [MarkedDetail (pc_issue ctx)] uc
      else (let current = or_else [] (readIssueProperties (pc_issue ctx) uc);
                nxt = (case pc_prev ctx of
                         None \<Rightarrow> obj_delete current (pc_property ctx)
                       | Some v \<Rightarrow> obj_set current (pc_property ctx) v)
            in patchIssueProperties (pc_issue ctx) nxt uc))"

definition settleIssuePropertyCaches :: "nat \<Rightarrow> string \<Rightarrow> update_client \<Rightarrow> update_client" where
  "settleIssuePropertyCaches in_flight i uc =
     (if in_flight > 1 then uc
      else invalidatePropertyWindowQueries (mark [MarkedDetail i, MarkedProperties] uc))"

end
