(* ===== verification/Issue_Mutations.thy ===== *)
theory Issue_Mutations
  imports Issue_Updaters
begin

text \<open>
  Creating and updating issues: the create and update events (\<open>onIssueCreated\<close>,
  \<open>onIssueUpdated\<close> of \<open>ws-updaters.ts\<close>) and the mutations (\<open>useCreateIssue\<close>, \<open>useUpdateIssue\<close>,
  \<open>useBatchUpdateIssues\<close> of \<open>mutations.ts\<close>). A patch here is already without the control fields
  (\<open>suppress_run\<close>, \<open>handoff_note\<close>, \<open>move_intent\<close>) the mutations strip; cancelling the requests in
  flight is not modelled, nor is the request itself: a mutation is its four handlers.
\<close>

section \<open>Creation\<close>

definition add_to_lists :: "issue \<Rightarrow> query_cache \<Rightarrow> query_cache" where
  "add_to_lists x qc =
     qc\<lparr>qc_lists := map (\<lambda>(k, d). (k, if is_list_key k then addIssueToBuckets d x else d)) (qc_lists qc)\<rparr>"

definition mark_parent :: "issue \<Rightarrow> update_client \<Rightarrow> update_client" where
  "mark_parent x uc =
     (case truthy (parent_issue_id x) of
        None \<Rightarrow> uc
      | Some p \<Rightarrow> mark [Marked (ChildrenOf p), Marked ChildProgress] uc)"

definition onIssueCreated :: "issue \<Rightarrow> update_client \<Rightarrow> update_client" where
  "onIssueCreated x uc =
     (let uc1 = mark (map Marked [MyAll, FlatAll, TableAll, AssigneeGroupsAll, MyAssigneeGroupsAll])
                  (on_cache (add_to_lists x) uc);
          uc2 = (if truthy (project_id x) = None then uc1 else mark [Marked ProjectsAll] uc1)
      in mark_parent x (mark [Marked GanttAll] uc2))"

definition create_success ::
    "int \<Rightarrow> string \<Rightarrow> issue \<Rightarrow> update_client \<times> recent_issue list obj \<Rightarrow> update_client \<times> recent_issue list obj" where
  "create_success now ws x st =
     (mark_parent x (on_cache (add_to_lists x) (fst st)), recordIssueVisit now ws (issue_id x) (snd st))"

definition create_settled :: "update_client \<Rightarrow> update_client" where
  "create_settled uc = mark (map Marked settled_prefixes) uc"

section \<open>The update event\<close>

record update_flags =
  assigneeChanged :: "bool option"
  statusChanged :: "bool option"
  projectChanged :: "bool option"

definition cached_issue :: "string \<Rightarrow> query_cache \<Rightarrow> issue option" where
  "cached_issue i qc =
     (case obj_get (qc_details qc) i of
        Some d \<Rightarrow> Some d
      | None \<Rightarrow>
          (case filter (\<lambda>e. is_list_key (fst e)) (qc_lists qc) of
             [] \<Rightarrow> findIssueInFlatCaches i qc
           | (k, d) # es \<Rightarrow>
               (case findIssueLocation d i of
                  Some (s, x) \<Rightarrow> Some x
                | None \<Rightarrow> findIssueInFlatCaches i qc)))"

definition event_changes :: "issue_patch \<Rightarrow> issue option \<Rightarrow> update_flags \<Rightarrow> changed_dims" where
  "event_changes p cached flags =
     (let oldProjectId = Option.bind cached project_id in
      \<lparr>ch_assignee = or_else
         (cached \<noteq> None \<and>
           (field_changed (p_assignee_id p) (map_option assignee_id cached) \<or>
            field_changed (p_assignee_type p) (map_option assignee_type cached)))
         (assigneeChanged flags),
       ch_project = or_else
         (case p_project_id p of None \<Rightarrow> False | Some new \<Rightarrow> new \<noteq> oldProjectId)
         (projectChanged flags),
       ch_status = or_else
         (cached \<noteq> None \<and> field_changed (p_status p) (map_option status cached))
         (statusChanged flags)\<rparr>)"

definition flush_stale :: "query_key list \<Rightarrow> update_client \<Rightarrow> update_client" where
  "flush_stale ks uc = mark (map MarkedKey (invalidateStaleListKeys [] ks)) uc"

definition patch_children_of :: "string \<Rightarrow> string \<Rightarrow> issue_patch \<Rightarrow> update_client \<Rightarrow> update_client" where
  "patch_children_of parent i p uc =
     (case obj_get (uc_children uc) parent of
        None \<Rightarrow> uc
      | Some xs \<Rightarrow> uc\<lparr>uc_children := obj_set (uc_children uc) parent (map (patch_copy i p) xs)\<rparr>)"

definition onIssueUpdated :: "string \<Rightarrow> issue_patch \<Rightarrow> update_flags \<Rightarrow> update_client \<Rightarrow> update_client" where
  "onIssueUpdated i p flags uc =
     (let cached = cached_issue i (uc_cache uc);
          oldParent = Option.bind cached parent_issue_id;
          newParent = or_else None (p_parent_issue_id p);
          parentChanged = (p_parent_issue_id p \<noteq> None \<and> newParent \<noteq> oldParent);
          (qc1, change) = applyIssueChange (uc_cache uc) i p (event_changes p cached flags) cached;
          uc1 = flush_stale (stale_keys change) (uc\<lparr>uc_cache := qc1\<rparr>);
          uc2 = mark [Marked TableAll]
            (invalidateIssueDerivatives (p_status p \<noteq> None \<or> p_project_id p \<noteq> None) uc1);
          uc3 = (case truthy oldParent of
                   None \<Rightarrow> uc2
                 | Some q \<Rightarrow> if parentChanged then mark [Marked (ChildrenOf q)] uc2 else patch_children_of q i p uc2);
          uc4 = (case truthy newParent of
                   None \<Rightarrow> uc3
                 | Some q \<Rightarrow> if parentChanged then mark [Marked (ChildrenOf q)] uc3 else uc3)
      in if truthy oldParent = None \<and> truthy newParent = None then uc4
         else mark [Marked ChildrenByParentsAll]
                (if p_status p \<noteq> None \<or> p_parent_issue_id p \<noteq> None
                 then mark [Marked ChildProgress] uc4 else uc4))"

section \<open>The update mutation\<close>

record update_context =
  up_change :: change_result
  up_children :: "issue list option"
  up_parent :: "string option"
  up_id :: string

text \<open>\<open>a ?? b\<close>: the parent of the detail, else of the copy the coordinator found.\<close>

definition resolve_parent :: "string \<Rightarrow> issue option \<Rightarrow> change_result \<Rightarrow> issue list obj \<Rightarrow> string option" where
  "resolve_parent i prevDetail change children =
     (let known = (case Option.bind prevDetail parent_issue_id of
                     Some q \<Rightarrow> Some q
                   | None \<Rightarrow> Option.bind (prev_issue change) parent_issue_id)
      in case truthy known of
           Some q \<Rightarrow> Some q
         | None \<Rightarrow>
             (case find (\<lambda>e. list_ex (\<lambda>x. issue_id x = i) (snd e)) children of
                Some (q, xs) \<Rightarrow> Some q
              | None \<Rightarrow> known))"

definition update_mutate :: "string \<Rightarrow> issue_patch \<Rightarrow> update_client \<Rightarrow> update_client \<times> update_context" where
  "update_mutate i p uc =
     (let prevDetail = obj_get (qc_details (uc_cache uc)) i;
          (qc1, change) = applyIssueChange (uc_cache uc) i p (issueChangedDims p prevDetail) prevDetail;
          parent = resolve_parent i prevDetail change (uc_children uc);
          prevChildren = (case truthy parent of None \<Rightarrow> None | Some q \<Rightarrow> obj_get (uc_children uc) q);
          uc1 = uc\<lparr>uc_cache := qc1\<rparr>;
          uc2 = (case truthy parent of
                   None \<Rightarrow> uc1
                 | Some q \<Rightarrow>
                     (if p_parent_issue_id p \<noteq> None \<and> p_parent_issue_id p \<noteq> Some (Some q)
                      then (case obj_get (uc_children uc1) q of
                              None \<Rightarrow> uc1
                            | Some xs \<Rightarrow> uc1\<lparr>uc_children :=
                                obj_set (uc_children uc1) q (filter (\<lambda>x. issue_id x \<noteq> i) xs)\<rparr>)
                      else patch_children_of q i p uc1))
      in (uc2, \<lparr>up_change = change, up_children = prevChildren, up_parent = parent, up_id = i\<rparr>))"

definition update_error :: "update_context \<Rightarrow> update_client \<Rightarrow> update_client" where
  "update_error ctx uc =
     (let uc1 = uc\<lparr>uc_cache := rollbackIssueChange (uc_cache uc) (up_id ctx) (up_change ctx)\<rparr> in
      case (truthy (up_parent ctx), up_children ctx) of
        (Some q, Some xs) \<Rightarrow> uc1\<lparr>uc_children := obj_set (uc_children uc1) q xs\<rparr>
      | _ \<Rightarrow> uc1)"

text \<open>The reconcile with the entity of the server leaves the property bag alone.\<close>

definition update_success :: "issue \<Rightarrow> issue_patch \<Rightarrow> update_client \<Rightarrow> update_client" where
  "update_success server intent uc =
     (let (qc1, reconcile) = applyIssueChange (uc_cache uc) (issue_id server)
            ((as_partial server)\<lparr>p_properties := None\<rparr>) (issueChangedDims intent (Some server)) (Some server)
      in flush_stale (stale_keys reconcile) (uc\<lparr>uc_cache := qc1\<rparr>))"

definition update_settled ::
    "issue_patch \<Rightarrow> bool \<Rightarrow> string \<Rightarrow> update_context option \<Rightarrow> update_client \<Rightarrow> update_client" where
  "update_settled p has_attachments i ctx uc =
     (let uc1 = mark [Marked TableAll]
            (invalidateIssueDerivatives (p_status p \<noteq> None \<or> p_project_id p \<noteq> None) uc);
          uc2 = (case ctx of None \<Rightarrow> uc1 | Some c \<Rightarrow> flush_stale (stale_keys (up_change c)) uc1);
          uc3 = (if has_attachments then mark [Marked (Scoped Attachments i)] uc2 else uc2);
          parent = Option.bind ctx (\<lambda>c. truthy (up_parent c));
          newParent = truthy (or_else None (p_parent_issue_id p));
          uc4 = (case parent of
                   None \<Rightarrow> uc3
                 | Some q \<Rightarrow> mark [Marked (ChildrenOf q), Marked ChildProgress] uc3);
          uc5 = (case newParent of
                   None \<Rightarrow> uc4
                 | Some q \<Rightarrow> if Option.bind ctx up_parent \<noteq> Some q
                     then mark [Marked (ChildrenOf q), Marked ChildProgress] uc4 else uc4)
      in if parent = None \<and> newParent = None then uc5 else mark [Marked ChildrenByParentsAll] uc5)"

section \<open>The batch update\<close>

record batch_update_context =
  bu_lists :: "(query_key \<times> list_cache) list"
  bu_flat :: "(query_key \<times> flat_page list) list"
  bu_rows :: "(query_key \<times> table_row list) list"
  bu_details :: "issue obj"
  bu_inbox :: "inbox_item list option"
  bu_stale :: "query_key list"
  bu_children :: "issue list obj"

text \<open>The first snapshot of a key is kept.\<close>

definition first_wins :: "('k \<times> 'v) list \<Rightarrow> ('k \<times> 'v) list \<Rightarrow> ('k \<times> 'v) list" where
  "first_wins old new = foldl (\<lambda>acc (k, v). if map_of acc k = None then acc @ [(k, v)] else acc) old new"

definition batch_step ::
    "issue_patch \<Rightarrow> query_cache \<times> batch_update_context \<Rightarrow> string \<Rightarrow> query_cache \<times> batch_update_context" where
  "batch_step p st i =
     (let (qc, ctx) = st;
          base = obj_get (qc_details qc) i;
          (qc1, change) = applyIssueChange qc i p (issueChangedDims p base) base
      in (qc1, ctx\<lparr>bu_lists := first_wins (bu_lists ctx) (prev_lists change),
                   bu_flat := first_wins (bu_flat ctx) (prev_flat change),
                   bu_rows := first_wins (bu_rows ctx) (prev_rows change),
                   bu_details := (case prev_detail change of None \<Rightarrow> bu_details ctx
                                  | Some d \<Rightarrow> obj_set (bu_details ctx) i d),
                   bu_inbox := (case bu_inbox ctx of None \<Rightarrow> prev_inbox change | Some items \<Rightarrow> Some items),
                   bu_stale := bu_stale ctx @ stale_keys change\<rparr>))"

definition batch_children :: "string list \<Rightarrow> issue_patch \<Rightarrow> string \<times> issue list \<Rightarrow> bool" where
  "batch_children is p e \<longleftrightarrow> list_ex (\<lambda>x. issue_id x \<in> set is) (snd e)"

definition batch_update_mutate ::
    "string list \<Rightarrow> issue_patch \<Rightarrow> update_client \<Rightarrow> update_client \<times> batch_update_context" where
  "batch_update_mutate is p uc =
     (let (qc1, ctx) = foldl (batch_step p)
            (uc_cache uc, \<lparr>bu_lists = [], bu_flat = [], bu_rows = [], bu_details = [], bu_inbox = None,
                           bu_stale = [], bu_children = []\<rparr>) is;
          hit = filter (batch_children is p) (uc_children uc)
      in (uc\<lparr>uc_cache := qc1,
             uc_children := map (\<lambda>(q, xs). (q, if batch_children is p (q, xs)
               then map (\<lambda>x. if issue_id x \<in> set is then patched x p else x) xs else xs)) (uc_children uc)\<rparr>,
          ctx\<lparr>bu_children := hit\<rparr>))"

definition batch_update_error :: "batch_update_context \<Rightarrow> update_client \<Rightarrow> update_client" where
  "batch_update_error ctx uc =
     uc\<lparr>uc_cache := (uc_cache uc)
          \<lparr>qc_lists := restore (bu_lists ctx) (qc_lists (uc_cache uc)),
           qc_flat := restore (bu_flat ctx) (qc_flat (uc_cache uc)),
           qc_rows := restore (bu_rows ctx) (qc_rows (uc_cache uc)),
           qc_details := restore (bu_details ctx) (qc_details (uc_cache uc)),
           qc_inbox := (case bu_inbox ctx of None \<Rightarrow> qc_inbox (uc_cache uc) | Some items \<Rightarrow> Some items)\<rparr>,
        uc_children := restore (bu_children ctx) (uc_children uc)\<rparr>"

definition batch_update_settled ::
    "issue_patch \<Rightarrow> batch_update_context option \<Rightarrow> update_client \<Rightarrow> update_client" where
  "batch_update_settled p ctx uc =
     (let uc1 = mark [Marked TableAll]
            (invalidateIssueDerivatives (p_status p \<noteq> None \<or> p_project_id p \<noteq> None) uc)
      in (case ctx of
            None \<Rightarrow> uc1
          | Some c \<Rightarrow>
              (let uc2 = flush_stale (bu_stale c) uc1 in
               if bu_children c = [] then uc2
               else mark (map (\<lambda>e. Marked (ChildrenOf (fst e))) (bu_children c) @ [Marked ChildProgress]) uc2)))"

end
