(* ===== verification/Updater_Facts.thy ===== *)
theory Updater_Facts
  imports Issue_Mutations Issue_Rollback
begin

text \<open>
  What a patch of every cache does to the copies of an issue, and why the snapshots of a failed
  update, single or batch, give every cache back.
\<close>

section \<open>Every copy\<close>

lemma patch_copy_none: "\<forall>x \<in> set xs. issue_id x \<noteq> i \<Longrightarrow> map (patch_copy i p) xs = xs"
  by (induction xs) (simp_all add: patch_copy_def)

lemma patch_copy_cards:
  assumes apart: "ids_apart d" and p: "p_status p = None" "p_position p = None"
  shows "cards (patchIssueInBuckets d i p) s = map (patch_copy i p) (cards d s)"
proof (cases "findIssueLocation d i")
  case None
  then have "\<forall>x \<in> set (cards d s). issue_id x \<noteq> i" by (simp add: not_located)
  then have "map (patch_copy i p) (cards d s) = cards d s" by (rule patch_copy_none)
  then show ?thesis using None by (simp add: patchIssueInBuckets_def)
next
  case (Some loc)
  obtain t x where tx: "findIssueLocation d i = Some (t, x)" using Some by (cases loc) simp
  note at = located [OF tx]
  have run: "patchIssueInBuckets d i p =
      setBucket d t (getBucket d t\<lparr>bucket_issues := map (\<lambda>y. if issue_id y = i then patched x p else y) (cards d t)\<rparr>)"
    by (simp add: patchIssueInBuckets_def tx Let_def p or_else_def)
  show ?thesis
  proof (cases "s = t")
    case True
    have "(if issue_id y = i then patched x p else y) = patch_copy i p y" if y: "y \<in> set (cards d t)" for y
    proof (cases "issue_id y = i")
      case True
      then have "issue_id y = issue_id x" using conjunct2 [OF at] by simp
      then have "y = x" using ids_apartD [OF apart y conjunct1 [OF at]] by blast
      then show ?thesis using True by (simp add: patch_copy_def)
    qed (simp add: patch_copy_def)
    then show ?thesis using True by (simp add: run bucket_simps)
  next
    case False
    have "\<forall>y \<in> set (cards d s). issue_id y \<noteq> i"
    proof (intro ballI notI)
      fix y assume "y \<in> set (cards d s)" "issue_id y = i"
      then have "s = t" using ids_apartD [OF apart, of y s x t] at by simp
      then show False using False by simp
    qed
    then have "map (patch_copy i p) (cards d s) = cards d s" by (rule patch_copy_none)
    then show ?thesis using False by (simp add: run bucket_simps)
  qed
qed

definition list_copies :: "query_cache \<Rightarrow> issue list" where
  "list_copies qc =
     concat (map (\<lambda>(k, d). if is_list_key k then concat (map (cards d) ALL_STATUSES) else []) (qc_lists qc))"

definition cache_copies :: "query_cache \<Rightarrow> issue list" where
  "cache_copies qc =
     list_copies qc @ concat (map (\<lambda>(k, pages). concat (map page_issues pages)) (qc_flat qc)) @
     concat (map (\<lambda>(k, rws). map row_issue rws) (qc_rows qc)) @ map snd (qc_details qc)"

definition copies_ok :: "query_cache \<Rightarrow> bool" where
  "copies_ok qc \<longleftrightarrow>
     (\<forall>(k, d) \<in> set (qc_lists qc). ids_apart d) \<and> obj_wf (qc_details qc) \<and>
     (\<forall>(k, x) \<in> set (qc_details qc). issue_id x = k)"

lemma patch_lists_copies:
  assumes ok: "\<forall>(k, d) \<in> set (qc_lists qc). ids_apart d" and p: "p_status p = None" "p_position p = None"
  shows "list_copies (patch_lists i p qc) = map (patch_copy i p) (list_copies qc)"
proof -
  have "concat (map (cards (patchIssueInBuckets d i p)) ALL_STATUSES) =
      map (patch_copy i p) (concat (map (cards d) ALL_STATUSES))" if "ids_apart d" for d
    by (simp add: patch_copy_cards [OF that p] map_concat o_def)
  then have "concat (map (\<lambda>(k, d). if is_list_key k then concat (map (cards d) ALL_STATUSES) else [])
        (map (\<lambda>(k, d). (k, if is_list_key k then patchIssueInBuckets d i p else d)) es)) =
      map (patch_copy i p) (concat (map (\<lambda>(k, d). if is_list_key k then concat (map (cards d) ALL_STATUSES) else []) es))"
    if "\<forall>(k, d) \<in> set es. ids_apart d" for es
    using that by (induction es) auto
  then show ?thesis using ok by (simp add: list_copies_def patch_lists_def)
qed

lemma patch_details_copies:
  assumes "obj_wf m" "\<forall>(k, x) \<in> set m. issue_id x = k" "obj_get m i = Some d"
  shows "map snd (obj_set m i (patched d p)) = map (patch_copy i p) (map snd m)"
  using assms
proof (induction m)
  case (Cons e m)
  obtain k x where e: "e = (k, x)" by (cases e)
  show ?case
  proof (cases "k = i")
    case True
    have "i \<notin> fst ` set m" using Cons.prems(1) e True by (simp add: obj_wf_def)
    then have "\<forall>y \<in> set (map snd m). issue_id y \<noteq> i" using Cons.prems(2) by force
    then have "map (patch_copy i p) (map snd m) = map snd m" by (rule patch_copy_none)
    then show ?thesis using True Cons.prems e by (simp add: patch_copy_def)
  next
    case False
    then show ?thesis using Cons e by (simp add: patch_copy_def obj_wf_def)
  qed
qed simp

lemma no_detail_copies:
  assumes "\<forall>(k, x) \<in> set m. issue_id x = k" "obj_get m i = None"
  shows "map (patch_copy i p) (map snd m) = map snd m"
proof (rule map_idI)
  fix x assume "x \<in> set (map snd m)"
  then obtain k where "(k, x) \<in> set m" by auto
  then have "issue_id x = k" "k \<in> fst ` set m" using assms(1) by force+
  then show "patch_copy i p x = x" using assms(2) by (auto simp: patch_copy_def map_of_eq_None_iff)
qed

lemma flat_copies:
  "concat (map (\<lambda>(k, pages). concat (map page_issues pages)) (qc_flat (patchIssueInFlatCaches i p qc))) =
   map (patch_copy i p) (concat (map (\<lambda>(k, pages). concat (map page_issues pages)) (qc_flat qc)))"
proof -
  have "concat (map page_issues (map (\<lambda>pg. pg\<lparr>page_issues := map (patch_copy i p) (page_issues pg)\<rparr>) pages)) =
      map (patch_copy i p) (concat (map page_issues pages))" for pages
    by (simp add: map_concat o_def)
  then show ?thesis
    by (simp add: patchIssueInFlatCaches_def map_concat o_def case_prod_unfold)
qed

lemma table_copies:
  "concat (map (\<lambda>(k, rws). map row_issue rws) (qc_rows (patchIssueInTableCaches i p qc))) =
   map (patch_copy i p) (concat (map (\<lambda>(k, rws). map row_issue rws) (qc_rows qc)))"
proof -
  have row: "row_issue (if issue_id (row_issue r) = i then r\<lparr>row_issue := patched (row_issue r) p\<rparr> else r) =
      patch_copy i p (row_issue r)" for r
    by (simp add: patch_copy_def)
  have "map row_issue rws = map (patch_copy i p) (map row_issue rws)"
    if "\<not> list_ex (\<lambda>r. issue_id (row_issue r) = i) rws" for rws
    by (rule patch_copy_none [symmetric]) (use that in \<open>simp add: list_ex_iff\<close>)
  then have "map row_issue (patch_rows i p rws) = map (patch_copy i p) (map row_issue rws)" for rws
    by (cases "list_ex (\<lambda>r. issue_id (row_issue r) = i) rws") (simp_all add: patch_rows_def row o_def)
  then show ?thesis
    by (simp add: patchIssueInTableCaches_def map_concat o_def case_prod_unfold)
qed

lemma children_copies:
  "concat (map snd (uc_children (patchIssueInChildrenCaches i p uc))) =
   map (patch_copy i p) (concat (map snd (uc_children uc)))"
proof -
  have "map (patch_copy i p) xs = xs" if "\<not> list_ex (\<lambda>x. issue_id x = i) xs" for xs
    by (rule patch_copy_none) (use that in \<open>simp add: list_ex_iff\<close>)
  then have "(if list_ex (\<lambda>x. issue_id x = i) xs then map (patch_copy i p) xs else xs) = map (patch_copy i p) xs" for xs
    by simp
  then show ?thesis
    by (simp add: patchIssueInChildrenCaches_def map_concat o_def case_prod_unfold)
qed

lemma gantt_copies:
  "concat (map snd (uc_gantt (patch_gantt i p uc))) = map (patch_copy i p) (concat (map snd (uc_gantt uc)))"
  by (simp add: patch_gantt_def map_concat o_def case_prod_unfold)

lemma patch_frames [simp]:
  "qc_flat (patch_lists i p qc) = qc_flat qc" "qc_rows (patch_lists i p qc) = qc_rows qc"
  "qc_details (patch_lists i p qc) = qc_details qc"
  "qc_lists (patchIssueInFlatCaches i p qc) = qc_lists qc" "qc_rows (patchIssueInFlatCaches i p qc) = qc_rows qc"
  "qc_details (patchIssueInFlatCaches i p qc) = qc_details qc"
  "qc_lists (patchIssueInTableCaches i p qc) = qc_lists qc" "qc_flat (patchIssueInTableCaches i p qc) = qc_flat qc"
  "qc_details (patchIssueInTableCaches i p qc) = qc_details qc"
  "qc_lists (patch_detail i p qc) = qc_lists qc" "qc_flat (patch_detail i p qc) = qc_flat qc"
  "qc_rows (patch_detail i p qc) = qc_rows qc"
  by (simp_all add: patch_lists_def patchIssueInFlatCaches_def patchIssueInTableCaches_def patch_detail_def
      split: option.splits)

lemma patch_snapshots_copies:
  assumes ok: "copies_ok qc" and p: "p_status p = None" "p_position p = None"
  shows "cache_copies (patch_snapshots i p qc) = map (patch_copy i p) (cache_copies qc)"
proof -
  let ?q = "patchIssueInTableCaches i p (patchIssueInFlatCaches i p (patch_lists i p qc))"
  have lists: "list_copies (patch_snapshots i p qc) = map (patch_copy i p) (list_copies qc)"
    using patch_lists_copies [of qc p i] ok p by (simp add: list_copies_def patch_snapshots_def copies_ok_def)
  have details: "map snd (qc_details (patch_snapshots i p qc)) = map (patch_copy i p) (map snd (qc_details qc))"
  proof (cases "obj_get (qc_details qc) i")
    case None
    then show ?thesis using no_detail_copies [of "qc_details qc" i p] ok
      by (simp add: patch_snapshots_def patch_detail_def copies_ok_def)
  next
    case (Some d)
    then show ?thesis using patch_details_copies [of "qc_details qc" i d p] ok
      by (simp add: patch_snapshots_def patch_detail_def copies_ok_def)
  qed
  have flats: "concat (map (\<lambda>(k, pages). concat (map page_issues pages)) (qc_flat (patch_snapshots i p qc))) =
      map (patch_copy i p) (concat (map (\<lambda>(k, pages). concat (map page_issues pages)) (qc_flat qc)))"
    using flat_copies [of i p "patch_lists i p qc"] by (simp add: patch_snapshots_def)
  have tables: "concat (map (\<lambda>(k, rws). map row_issue rws) (qc_rows (patch_snapshots i p qc))) =
      map (patch_copy i p) (concat (map (\<lambda>(k, rws). map row_issue rws) (qc_rows qc)))"
    using table_copies [of i p "patchIssueInFlatCaches i p (patch_lists i p qc)"] by (simp add: patch_snapshots_def)
  show ?thesis unfolding cache_copies_def map_append lists details flats tables ..
qed

section \<open>Rolling a batch back\<close>

lemma change_saved:
  fixes i :: string and p :: issue_patch and ch :: changed_dims and base :: "issue option"
  assumes "query_cache_ok qc"
  defines "r \<equiv> applyIssueChange qc i p ch base"
  shows "saved (qc_lists qc) (qc_lists (fst r)) (prev_lists (snd r))"
    "saved (qc_flat qc) (qc_flat (fst r)) (prev_flat (snd r))"
    "saved (qc_rows qc) (qc_rows (fst r)) (prev_rows (snd r))"
    "prev_detail (snd r) = obj_get (qc_details qc) i"
    "qc_details (fst r) = (case obj_get (qc_details qc) i of None \<Rightarrow> qc_details qc
       | Some d \<Rightarrow> obj_set (qc_details qc) i (patched d p))"
    "prev_inbox (snd r) = (if p_status p = None then None else qc_inbox qc)"
    "p_status p = None \<or> qc_inbox qc = None \<Longrightarrow> qc_inbox (fst r) = qc_inbox qc"
proof -
  obtain c res where l: "loops qc i p ch base = (c, res)" by (cases "loops qc i p ch base")
  have rec: "recorded qc (c, res)" using loops_recorded [OF assms(1), of i p ch base] l by simp
  have r: "r = inbox_step i p (detail_step i p (c, res))" by (simp add: r_def applyIssueChange_eq l)
  have kept: "qc_lists (fst r) = qc_lists c" "qc_flat (fst r) = qc_flat c" "qc_rows (fst r) = qc_rows c"
    "prev_lists (snd r) = prev_lists res" "prev_flat (snd r) = prev_flat res" "prev_rows (snd r) = prev_rows res"
    by (simp_all add: r detail_step_def inbox_step_def patchInboxIssueStatus_def split: option.splits)
  show "saved (qc_lists qc) (qc_lists (fst r)) (prev_lists (snd r))"
    "saved (qc_flat qc) (qc_flat (fst r)) (prev_flat (snd r))"
    "saved (qc_rows qc) (qc_rows (fst r)) (prev_rows (snd r))"
    using rec by (simp_all add: kept recorded_def)
  show "prev_detail (snd r) = obj_get (qc_details qc) i"
    "qc_details (fst r) = (case obj_get (qc_details qc) i of None \<Rightarrow> qc_details qc
       | Some d \<Rightarrow> obj_set (qc_details qc) i (patched d p))"
    "prev_inbox (snd r) = (if p_status p = None then None else qc_inbox qc)"
    "p_status p = None \<or> qc_inbox qc = None \<Longrightarrow> qc_inbox (fst r) = qc_inbox qc"
    using rec by (auto simp: r recorded_def detail_step_def inbox_step_def patchInboxIssueStatus_def
        split: option.splits)
qed

lemma first_wins_Cons:
  "first_wins old ((k, v) # new) = first_wins (if map_of old k = None then old @ [(k, v)] else old) new"
  by (simp add: first_wins_def)

lemma first_wins_keys: "fst ` set (first_wins old new) = fst ` set old \<union> fst ` set new"
proof (induction new arbitrary: old)
  case (Cons e new)
  obtain k v where e: "e = (k, v)" by (cases e)
  have "k \<in> fst ` set old" if "map_of old k \<noteq> None"
    using that by (simp add: map_of_eq_None_iff)
  then show ?case unfolding e first_wins_Cons Cons.IH by auto
qed (simp add: first_wins_def)

lemma first_wins_mem:
  "(k, v) \<in> set (first_wins old new) \<Longrightarrow> (k, v) \<in> set old \<or> k \<notin> fst ` set old \<and> (k, v) \<in> set new"
proof (induction new arbitrary: old)
  case (Cons e new)
  obtain j w where e: "e = (j, w)" by (cases e)
  show ?case
  proof (cases "map_of old j")
    case None
    then have "j \<notin> fst ` set old" by (simp add: map_of_eq_None_iff)
    then show ?thesis using Cons.IH [of "old @ [(j, w)]"] Cons.prems None unfolding e first_wins_Cons by auto
  next
    case (Some u)
    then show ?thesis using Cons.IH [of old] Cons.prems unfolding e first_wins_Cons by auto
  qed
qed (simp add: first_wins_def)

lemma saved_first_wins:
  assumes "saved m0 m old" "saved m m1 new"
  shows "saved m0 m1 (first_wins old new)"
  unfolding saved_def
proof (intro conjI allI impI)
  show "map fst m1 = map fst m0" using assms by (simp add: saved_def)
next
  fix k v assume mem: "(k, v) \<in> set (first_wins old new)"
  consider "(k, v) \<in> set old" | "k \<notin> fst ` set old" "(k, v) \<in> set new" using first_wins_mem [OF mem] by blast
  then show "map_of m0 k = Some v"
  proof cases
    case 1
    then show ?thesis using assms(1) by (simp add: saved_def)
  next
    case 2
    then have "map_of m k = Some v" using assms(2) unfolding saved_def by blast
    moreover have "map_of m k = map_of m0 k" using 2 assms(1) unfolding saved_def by blast
    ultimately show ?thesis by simp
  qed
next
  fix k assume "k \<notin> fst ` set (first_wins old new)"
  then have "k \<notin> fst ` set old" "k \<notin> fst ` set new" by (simp_all add: first_wins_keys)
  then show "map_of m1 k = map_of m0 k" using assms by (simp add: saved_def)
qed

lemma saved_keys: "saved m0 m snaps \<Longrightarrow> map fst m = map fst m0"
  by (simp add: saved_def)

definition batch_ok :: "query_cache \<Rightarrow> string list \<Rightarrow> query_cache \<times> batch_update_context \<Rightarrow> bool" where
  "batch_ok qc0 done st \<longleftrightarrow>
     saved (qc_lists qc0) (qc_lists (fst st)) (bu_lists (snd st)) \<and>
     saved (qc_flat qc0) (qc_flat (fst st)) (bu_flat (snd st)) \<and>
     saved (qc_rows qc0) (qc_rows (fst st)) (bu_rows (snd st)) \<and>
     saved (qc_details qc0) (qc_details (fst st)) (bu_details (snd st)) \<and>
     obj_wf (bu_details (snd st)) \<and> fst ` set (bu_details (snd st)) \<subseteq> set done \<and>
     (case bu_inbox (snd st) of None \<Rightarrow> qc_inbox (fst st) = qc_inbox qc0 | Some items \<Rightarrow> qc_inbox qc0 = Some items)"

lemma batch_cache_ok: "query_cache_ok qc0 \<Longrightarrow> batch_ok qc0 d st \<Longrightarrow> query_cache_ok (fst st)"
  using saved_keys by (auto simp: query_cache_ok_def batch_ok_def obj_wf_def dest!: saved_keys)

lemma saved_details:
  assumes "saved m0 m old" "obj_get m i = Some d" "obj_wf old" "i \<notin> fst ` set old"
  shows "saved m0 (obj_set m i w) (obj_set old i d)"
proof -
  have here: "obj_get m0 i = Some d" using assms(1,2,4) by (simp add: saved_def)
  have "obj_set old i d = old @ [(i, d)]" using assms(4) by (induction old) auto
  then show ?thesis using saved_step [OF assms(1) here] by simp
qed

lemma batch_step_ok:
  assumes qc: "query_cache_ok qc0" and st: "batch_ok qc0 is st" and i: "i \<notin> set is"
  shows "batch_ok qc0 (is @ [i]) (batch_step p st i)"
proof -
  obtain c ctx where s: "st = (c, ctx)" by (cases st)
  have ok: "query_cache_ok c" using batch_cache_ok [OF qc st] s by simp
  let ?base = "obj_get (qc_details c) i"
  let ?r = "applyIssueChange c i p (issueChangedDims p ?base) ?base"
  note ch = change_saved [OF ok, where i = i and p = p and ch = "issueChangedDims p ?base" and base = ?base]
  have b: "saved (qc_lists qc0) (qc_lists c) (bu_lists ctx)" "saved (qc_flat qc0) (qc_flat c) (bu_flat ctx)"
    "saved (qc_rows qc0) (qc_rows c) (bu_rows ctx)" "saved (qc_details qc0) (qc_details c) (bu_details ctx)"
    "obj_wf (bu_details ctx)" "fst ` set (bu_details ctx) \<subseteq> set is"
    "case bu_inbox ctx of None \<Rightarrow> qc_inbox c = qc_inbox qc0 | Some items \<Rightarrow> qc_inbox qc0 = Some items"
    using st unfolding s batch_ok_def fst_conv snd_conv by blast+
  have new: "i \<notin> fst ` set (bu_details ctx)" using b(6) i by auto
  obtain q1 change where r: "?r = (q1, change)" by (cases ?r)
  let ?ctx = "ctx\<lparr>bu_lists := first_wins (bu_lists ctx) (prev_lists change),
                   bu_flat := first_wins (bu_flat ctx) (prev_flat change),
                   bu_rows := first_wins (bu_rows ctx) (prev_rows change),
                   bu_details := (case prev_detail change of None \<Rightarrow> bu_details ctx
                                  | Some d \<Rightarrow> obj_set (bu_details ctx) i d),
                   bu_inbox := (case bu_inbox ctx of None \<Rightarrow> prev_inbox change | Some items \<Rightarrow> Some items),
                   bu_stale := bu_stale ctx @ stale_keys change\<rparr>"
  have step: "batch_step p st i = (q1, ?ctx)" by (simp add: batch_step_def s r Let_def)
  have pd: "prev_detail change = ?base" using ch(4) r by simp
  have lists: "saved (qc_lists qc0) (qc_lists q1) (bu_lists ?ctx)" "saved (qc_flat qc0) (qc_flat q1) (bu_flat ?ctx)"
    "saved (qc_rows qc0) (qc_rows q1) (bu_rows ?ctx)"
    using saved_first_wins b ch(1-3) r by auto
  have details: "saved (qc_details qc0) (qc_details q1) (bu_details ?ctx) \<and> obj_wf (bu_details ?ctx) \<and>
      fst ` set (bu_details ?ctx) \<subseteq> set (is @ [i])"
  proof (cases ?base)
    case None
    then show ?thesis using b(4,5,6) ch(5) r pd by auto
  next
    case (Some d)
    have "fst ` set (obj_set (bu_details ctx) i d) \<subseteq> insert i (fst ` set (bu_details ctx))"
      using obj_set_subset by fastforce
    then show ?thesis using Some saved_details [OF b(4) Some b(5) new] b(5,6) ch(5) r pd by auto
  qed
  have inbox: "case bu_inbox ?ctx of None \<Rightarrow> qc_inbox q1 = qc_inbox qc0 | Some items \<Rightarrow> qc_inbox qc0 = Some items"
  proof (cases "bu_inbox ctx")
    case None
    then have same: "qc_inbox c = qc_inbox qc0" using b(7) by simp
    have "prev_inbox change = (if p_status p = None then None else qc_inbox c)" using ch(6) r by simp
    then show ?thesis using None same ch(7) r by (cases "p_status p"; cases "qc_inbox c") (auto split: option.splits)
  next
    case (Some items)
    then show ?thesis using b(7) by simp
  qed
  show ?thesis unfolding step batch_ok_def fst_conv snd_conv using lists details inbox by blast
qed

lemma batch_loop_ok:
  assumes "query_cache_ok qc" "distinct is"
  shows "batch_ok qc is (foldl (batch_step p) (qc, \<lparr>bu_lists = [], bu_flat = [], bu_rows = [], bu_details = [],
    bu_inbox = None, bu_stale = [], bu_children = []\<rparr>) is)"
  using assms(2)
proof (induction "is" rule: rev_induct)
  case Nil
  then show ?case by (simp add: batch_ok_def)
next
  case (snoc i "is")
  then show ?case using batch_step_ok [OF assms(1)] by simp
qed

end
