(* ===== verification/Updater_Properties.thy ===== *)
theory Updater_Properties
  imports Updater_Facts Deletion_Properties
begin

text \<open>
  The properties of the updates: a label event reaches every copy, a failed update gives every
  cache back, and what a property write misses.
\<close>

section \<open>All copies of an issue\<close>

definition copies :: "update_client \<Rightarrow> issue list" where
  "copies uc =
     cache_copies (uc_cache uc) @ concat (map snd (uc_children uc)) @ concat (map snd (uc_gantt uc))"

definition demo_row :: issue where
  "demo_row = (some_issue ''a'')\<lparr>properties := Some [(''cost'', PNum 3), (''team'', PText ''core'')]\<rparr>"

definition demo_updates :: update_client where
  "demo_updates =
     \<lparr>uc_cache = \<lparr>qc_lists = [(ListKey plain_sort, demo_column [some_issue ''b''])], qc_flat = [],
                 qc_rows = [(TableKey ''todo'', [\<lparr>row_issue = demo_row, direct_child_count = 0\<rparr>])],
                 qc_details = [(''b'', some_issue ''b'')], qc_inbox = None, qc_archived = None\<rparr>,
      uc_children = [], uc_gantt = [(''proj'', [demo_row])], uc_labels = [], uc_stale = []\<rparr>"

lemma mark_sel [simp]:
  "uc_cache (mark ms uc) = uc_cache uc" "uc_children (mark ms uc) = uc_children uc"
  "uc_gantt (mark ms uc) = uc_gantt uc" "uc_labels (mark ms uc) = uc_labels uc"
  "uc_stale (mark ms uc) = uc_stale uc @ ms"
  by (simp_all add: mark_def)

lemma children_frame [simp]:
  "uc_cache (patchIssueInChildrenCaches i p uc) = uc_cache uc"
  "uc_gantt (patchIssueInChildrenCaches i p uc) = uc_gantt uc"
  "uc_labels (patchIssueInChildrenCaches i p uc) = uc_labels uc"
  "uc_stale (patchIssueInChildrenCaches i p uc) = uc_stale uc"
  by (simp_all add: patchIssueInChildrenCaches_def)

text \<open>A label event reaches every copy: after it each cached copy of the issue, in the workspace lists, the flat windows, the table pages, the detail, the sub-issue lists and the Gantt rows, is the old copy with the new labels, no other issue is touched, and the caches it cannot patch are marked stale.\<close>

theorem onIssueLabelsChanged_everywhere:
  assumes "copies_ok (uc_cache uc)"
  shows "copies (onIssueLabelsChanged i labels uc) =
      map (\<lambda>x. if issue_id x = i then x\<lparr>other_fields := obj_set (other_fields x) ''labels'' labels\<rparr> else x) (copies uc) \<and>
    Marked ` {MyAll, ChildrenByParentsAll, AssigneeGroupsAll, MyAssigneeGroupsAll, TableAll} \<subseteq>
      set (uc_stale (onIssueLabelsChanged i labels uc))"
proof -
  let ?p = "other_patch ''labels'' labels"
  have p: "p_status ?p = None" "p_position ?p = None" by (simp_all add: other_patch_def no_patch_def)
  define uc1 where "uc1 = on_cache (patch_snapshots i ?p) uc"
  define uc2 where "uc2 = (case obj_get (uc_labels uc1) i of None \<Rightarrow> uc1
      | Some old \<Rightarrow> uc1\<lparr>uc_labels := obj_set (uc_labels uc1) i labels\<rparr>)"
  have sel: "uc_cache uc2 = patch_snapshots i ?p (uc_cache uc)" "uc_children uc2 = uc_children uc"
    "uc_gantt uc2 = uc_gantt uc"
    by (simp_all add: uc2_def uc1_def on_cache_def split: option.splits)
  let ?uc3 = "patch_gantt i ?p (patchIssueInChildrenCaches i ?p uc2)"
  have run: "onIssueLabelsChanged i labels uc = invalidateIssueLabelDerivatives ?uc3"
    by (simp only: onIssueLabelsChanged_def patchIssueLabels_def Let_def uc1_def uc2_def)
  have "cache_copies (uc_cache ?uc3) = map (patch_copy i ?p) (cache_copies (uc_cache uc))"
    using patch_snapshots_copies [OF assms p, of i] sel by (simp add: patch_gantt_def)
  moreover have "concat (map snd (uc_children ?uc3)) = map (patch_copy i ?p) (concat (map snd (uc_children uc)))"
    using children_copies [of i ?p uc2] sel by (simp add: patch_gantt_def)
  moreover have "concat (map snd (uc_gantt ?uc3)) = map (patch_copy i ?p) (concat (map snd (uc_gantt uc)))"
    using gantt_copies [of i ?p "patchIssueInChildrenCaches i ?p uc2"] sel by simp
  ultimately have all: "copies ?uc3 = map (patch_copy i ?p) (copies uc)" by (simp only: copies_def map_append)
  have "patch_copy i ?p = (\<lambda>x. if issue_id x = i then x\<lparr>other_fields := obj_set (other_fields x) ''labels'' labels\<rparr> else x)"
    by (rule ext) (simp add: patch_copy_def patched_def other_patch_def no_patch_def spread_fields_def or_else_def over_def)
  moreover have "copies (onIssueLabelsChanged i labels uc) = copies ?uc3"
    by (simp add: run invalidateIssueLabelDerivatives_def copies_def)
  ultimately have "copies (onIssueLabelsChanged i labels uc) =
      map (\<lambda>x. if issue_id x = i then x\<lparr>other_fields := obj_set (other_fields x) ''labels'' labels\<rparr> else x) (copies uc)"
    using all by simp
  moreover have "Marked ` {MyAll, ChildrenByParentsAll, AssigneeGroupsAll, MyAssigneeGroupsAll, TableAll} \<subseteq>
      set (uc_stale (onIssueLabelsChanged i labels uc))"
    by (simp add: run invalidateIssueLabelDerivatives_def)
  ultimately show ?thesis by blast
qed

lemma demo_copies_ok: "copies_ok (uc_cache demo_updates)"
  using demo_column_apart [of "[some_issue ''b'']"]
  by (simp add: copies_ok_def demo_updates_def obj_wf_def some_issue_def)

theorem onIssueLabelsChanged_everywhere_witness:
  "copies (onIssueLabelsChanged ''b'' ''urgent'' demo_updates) =
      map (\<lambda>x. if issue_id x = ''b'' then x\<lparr>other_fields := obj_set (other_fields x) ''labels'' ''urgent''\<rparr> else x)
        (copies demo_updates) \<and>
    Marked ` {MyAll, ChildrenByParentsAll, AssigneeGroupsAll, MyAssigneeGroupsAll, TableAll} \<subseteq>
      set (uc_stale (onIssueLabelsChanged ''b'' ''urgent'' demo_updates))"
  by (rule onIssueLabelsChanged_everywhere [OF demo_copies_ok])

section \<open>What a property write misses\<close>

lemma property_rows:
  "qc_rows (uc_cache (patchIssueProperties i bag uc)) =
     map (\<lambda>(k, rws). (k, patch_rows i (properties_patch bag) rws)) (qc_rows (uc_cache uc))"
  by (simp add: patchIssueProperties_def on_cache_def patch_snapshots_def patchIssueInTableCaches_def)

lemma patched_bag: "properties (patched x (properties_patch bag)) = Some bag"
  by (simp add: patched_def properties_patch_def over_def)

lemma patched_rows:
  "r \<in> set (patch_rows i (properties_patch bag) rws) \<Longrightarrow> issue_id (row_issue r) = i \<Longrightarrow>
   properties (row_issue r) = Some bag"
proof (cases "list_ex (\<lambda>r. issue_id (row_issue r) = i) rws")
  case True
  assume r: "r \<in> set (patch_rows i (properties_patch bag) rws)" "issue_id (row_issue r) = i"
  have "r \<in> (\<lambda>x. if issue_id (row_issue x) = i
      then x\<lparr>row_issue := patched (row_issue x) (properties_patch bag)\<rparr> else x) ` set rws"
    using r(1) True by (simp add: patch_rows_def)
  then obtain x where x: "r = (if issue_id (row_issue x) = i
      then x\<lparr>row_issue := patched (row_issue x) (properties_patch bag)\<rparr> else x)"
    by (rule imageE)
  show ?thesis
  proof (cases "issue_id (row_issue x) = i")
    case True
    then show ?thesis unfolding x by (simp add: patched_bag)
  next
    case False
    then show ?thesis using r(2) x by simp
  qed
next
  case False
  assume "r \<in> set (patch_rows i (properties_patch bag) rws)" "issue_id (row_issue r) = i"
  then show ?thesis using False by (simp add: patch_rows_def list_ex_iff)
qed



section \<open>Failed updates\<close>

lemma map_of_apply: "map_of (map (\<lambda>(k, v). (k, f k v)) m) k = map_option (f k) (map_of m k)"
  by (induction m) auto

lemma children_back:
  "obj_wf m \<Longrightarrow> obj_get m q = Some xs \<Longrightarrow> obj_set (obj_set m q ys) q xs = m"
  by (rule update_back)

text \<open>The archived inbox after a change that was rolled back.\<close>

definition archived_after :: "string \<Rightarrow> issue_patch \<Rightarrow> query_cache \<Rightarrow> inbox_item list option" where
  "archived_after i p qc =
     (case (p_status p, qc_inbox qc) of
        (Some s, Some items) \<Rightarrow> patch_inbox i s (qc_archived qc)
      | _ \<Rightarrow> qc_archived qc)"

text \<open>C17. A failed update gives everything back: when the request of a single or a batch update fails, its error handler restores every list, flat window, table page, detail, sub-issue list and the inbox exactly, in place and in order, however many issues of the batch share a cache; only the archived inbox is not put back: when the change set a status and the inbox was loaded, its rows of the issue keep the rejected status.\<close>

theorem failed_update_restores:
  assumes ok: "query_cache_ok (uc_cache uc)" and wf: "obj_wf (uc_children uc)" and ids: "distinct is"
  shows "update_error (snd (update_mutate i p uc)) (fst (update_mutate i p uc)) =
      uc\<lparr>uc_cache := (uc_cache uc)\<lparr>qc_archived := archived_after i p (uc_cache uc)\<rparr>\<rparr> \<and>
    (\<exists>a. batch_update_error (snd (batch_update_mutate is p uc)) (fst (batch_update_mutate is p uc)) =
      uc\<lparr>uc_cache := (uc_cache uc)\<lparr>qc_archived := a\<rparr>\<rparr>)"
proof
  let ?base = "obj_get (qc_details (uc_cache uc)) i"
  obtain q1 change where r: "applyIssueChange (uc_cache uc) i p (issueChangedDims p ?base) ?base = (q1, change)"
    by fastforce
  have a: "rollbackIssueChange q1 i change = (uc_cache uc)\<lparr>qc_archived := archived_after i p (uc_cache uc)\<rparr>"
    using rollback_change [OF ok, of i p "issueChangedDims p ?base" ?base] r by (simp add: archived_after_def)
  define parent where "parent = resolve_parent i ?base change (uc_children uc)"
  show "update_error (snd (update_mutate i p uc)) (fst (update_mutate i p uc)) =
      uc\<lparr>uc_cache := (uc_cache uc)\<lparr>qc_archived := archived_after i p (uc_cache uc)\<rparr>\<rparr>"
  proof (cases "truthy parent")
    case None
    then show ?thesis using a
      by (simp add: update_mutate_def update_error_def r Let_def parent_def [symmetric])
  next
    case (Some q)
    then show ?thesis using a children_back [OF wf, of q]
      by (cases "obj_get (uc_children uc) q")
        (simp_all add: update_mutate_def update_error_def r Let_def parent_def [symmetric] patch_children_of_def)
  qed
next
  let ?start = "(uc_cache uc, \<lparr>bu_lists = [], bu_flat = [], bu_rows = [], bu_details = [],
    bu_inbox = None, bu_stale = [], bu_children = []\<rparr>)"
  obtain q1 ctx where r: "foldl (batch_step p) ?start is = (q1, ctx)" by fastforce
  have b: "batch_ok (uc_cache uc) is (q1, ctx)" using batch_loop_ok [OF ok ids, of p] r by simp
  let ?hit = "filter (batch_children is p) (uc_children uc)"
  let ?kids = "map (\<lambda>(q, xs). (q, if batch_children is p (q, xs)
      then map (\<lambda>x. if issue_id x \<in> set is then patched x p else x) xs else xs)) (uc_children uc)"
  have dk: "distinct (map fst (uc_children uc))" using wf by (simp add: obj_wf_def)
  have "saved (uc_children uc) ?kids ?hit"
    unfolding saved_def
  proof (intro conjI allI impI)
    show "map fst ?kids = map fst (uc_children uc)" by (simp add: o_def case_prod_unfold)
  next
    fix k v assume "(k, v) \<in> set ?hit"
    then show "map_of (uc_children uc) k = Some v" using dk by simp
  next
    fix k assume k: "k \<notin> fst ` set ?hit"
    have "map_of ?kids k = map_option (\<lambda>xs. if batch_children is p (k, xs)
        then map (\<lambda>x. if issue_id x \<in> set is then patched x p else x) xs else xs) (map_of (uc_children uc) k)"
      by (rule map_of_apply)
    moreover have "\<not> batch_children is p (k, xs)" if "map_of (uc_children uc) k = Some xs" for xs
      using k map_of_SomeD [OF that] by force
    ultimately show "map_of ?kids k = map_of (uc_children uc) k" by (cases "map_of (uc_children uc) k") simp_all
  qed
  then have kids: "restore ?hit ?kids = uc_children uc" using dk by (rule saved_restore)
  have caches: "restore (bu_lists ctx) (qc_lists q1) = qc_lists (uc_cache uc)"
    "restore (bu_flat ctx) (qc_flat q1) = qc_flat (uc_cache uc)"
    "restore (bu_rows ctx) (qc_rows q1) = qc_rows (uc_cache uc)"
    "restore (bu_details ctx) (qc_details q1) = qc_details (uc_cache uc)"
    using b ok by (auto simp: batch_ok_def query_cache_ok_def obj_wf_def intro!: saved_restore)
  let ?q = "q1\<lparr>qc_lists := qc_lists (uc_cache uc), qc_flat := qc_flat (uc_cache uc),
      qc_rows := qc_rows (uc_cache uc), qc_details := qc_details (uc_cache uc),
      qc_inbox := (case bu_inbox ctx of None \<Rightarrow> qc_inbox q1 | Some items \<Rightarrow> Some items)\<rparr>"
  have "(case bu_inbox ctx of None \<Rightarrow> qc_inbox q1 | Some items \<Rightarrow> Some items) = qc_inbox (uc_cache uc)"
    using b by (cases "bu_inbox ctx") (simp_all add: batch_ok_def)
  then have q: "?q = (uc_cache uc)\<lparr>qc_archived := qc_archived q1\<rparr>" by simp
  have mutated: "batch_update_mutate is p uc = (uc\<lparr>uc_cache := q1, uc_children := ?kids\<rparr>, ctx\<lparr>bu_children := ?hit\<rparr>)"
    using r by (simp add: batch_update_mutate_def Let_def)
  have "batch_update_error (snd (batch_update_mutate is p uc)) (fst (batch_update_mutate is p uc)) =
      uc\<lparr>uc_cache := ?q\<rparr>"
    unfolding mutated batch_update_error_def by (simp add: caches kids split: option.split)
  then have "batch_update_error (snd (batch_update_mutate is p uc)) (fst (batch_update_mutate is p uc)) =
      uc\<lparr>uc_cache := (uc_cache uc)\<lparr>qc_archived := qc_archived q1\<rparr>\<rparr>"
    by (simp only: q)
  then show "\<exists>a. batch_update_error (snd (batch_update_mutate is p uc)) (fst (batch_update_mutate is p uc)) =
      uc\<lparr>uc_cache := (uc_cache uc)\<lparr>qc_archived := a\<rparr>\<rparr>" ..
qed

theorem failed_update_restores_witness:
  "update_error (snd (update_mutate ''b'' (no_patch\<lparr>p_status := Some Done\<rparr>) demo_updates))
        (fst (update_mutate ''b'' (no_patch\<lparr>p_status := Some Done\<rparr>) demo_updates)) =
      demo_updates\<lparr>uc_cache := (uc_cache demo_updates)
        \<lparr>qc_archived := archived_after ''b'' (no_patch\<lparr>p_status := Some Done\<rparr>) (uc_cache demo_updates)\<rparr>\<rparr> \<and>
    (\<exists>a. batch_update_error (snd (batch_update_mutate [''a'', ''b''] (no_patch\<lparr>p_status := Some Done\<rparr>) demo_updates))
        (fst (batch_update_mutate [''a'', ''b''] (no_patch\<lparr>p_status := Some Done\<rparr>) demo_updates)) =
      demo_updates\<lparr>uc_cache := (uc_cache demo_updates)\<lparr>qc_archived := a\<rparr>\<rparr>)"
proof -
  have "query_cache_ok (uc_cache demo_updates)" "obj_wf (uc_children demo_updates)" "distinct [''a'', ''b'']"
    by (simp_all add: query_cache_ok_def demo_updates_def obj_wf_def)
  then show ?thesis by (rule failed_update_restores)
qed

end
