(* ===== verification/Issue_Timeline.thy ===== *)
theory Issue_Timeline
  imports JS_Sort
begin

text \<open>
  The timeline of an issue: its comments and activities in one array, cached under
  \<open>issueKeys.timeline(issueId)\<close> (\<open>None\<close> while it is not loaded). The mutations are in
  \<open>packages/core/issues/mutations.ts\<close>, the socket events in
  \<open>packages/views/issues/hooks/use-issue-timeline.ts\<close>, the threads that are drawn from it in
  \<open>thread-utils.ts\<close> beside the issue page. \<open>null\<close> and \<open>undefined\<close> are both \<open>None\<close>; the clock
  of a resolve is an argument.
\<close>

section \<open>Entries\<close>

datatype entry_kind = Activity | Comment

text \<open>A reaction of a comment or of an issue; \<open>reaction_on\<close> is its \<open>comment_id\<close> or \<open>issue_id\<close>.\<close>

record reaction =
  reaction_id :: string
  reaction_on :: string
  reaction_actor_type :: string
  reaction_actor_id :: string
  emoji :: string
  reacted_at :: string

record attachment =
  attachment_id :: string
  attachment_rest :: string

record timeline_entry =
  entry_kind :: entry_kind
  entry_id :: string
  actor_type :: string
  actor_id :: string
  entry_created :: string
  action :: "string option"
  content :: "string option"
  parent_id :: "string option"
  entry_updated :: "string option"
  comment_type :: "string option"
  quick_action_id :: "string option"
  reactions :: "reaction list option"
  attachments :: "attachment list option"
  resolved_at :: "string option"
  resolved_by_type :: "string option"
  resolved_by_id :: "string option"
  source_task_id :: "string option"
  coalesced_count :: "nat option"

record comment =
  comment_id :: string
  comment_issue :: string
  author_type :: string
  author_id :: string
  comment_content :: string
  comment_kind :: string
  comment_parent :: "string option"
  comment_reactions :: "reaction list option"
  comment_attachments :: "attachment list option"
  comment_created :: string
  comment_updated :: string
  comment_resolved_at :: "string option"
  comment_resolved_type :: "string option"
  comment_resolved_id :: "string option"
  comment_task :: "string option"
  comment_quick_action :: "string option"

type_synonym timeline = "timeline_entry list option"

section \<open>Order\<close>

definition timeline_order :: "timeline_entry \<Rightarrow> timeline_entry \<Rightarrow> int" where
  "timeline_order a b =
     (if entry_created a \<noteq> entry_created b then (if entry_created a < entry_created b then -1 else 1)
      else if entry_id a < entry_id b then -1 else 1)"

definition sortTimelineEntriesAsc :: "timeline_entry list \<Rightarrow> timeline_entry list" where
  "sortTimelineEntriesAsc entries = array_sort timeline_order entries"

section \<open>Appending\<close>

definition or_empty :: "'a list option \<Rightarrow> 'a list" where
  "or_empty xs = (case xs of None \<Rightarrow> [] | Some ys \<Rightarrow> ys)"

definition commentToTimelineEntry :: "comment \<Rightarrow> timeline_entry" where
  "commentToTimelineEntry c =
     \<lparr>entry_kind = Comment, entry_id = comment_id c, actor_type = author_type c, actor_id = author_id c,
      entry_created = comment_created c, action = None, content = Some (comment_content c),
      parent_id = comment_parent c, entry_updated = Some (comment_updated c),
      comment_type = Some (comment_kind c), quick_action_id = None,
      reactions = Some (or_empty (comment_reactions c)),
      attachments = Some (or_empty (comment_attachments c)), resolved_at = comment_resolved_at c,
      resolved_by_type = comment_resolved_type c, resolved_by_id = comment_resolved_id c,
      source_task_id = comment_task c, coalesced_count = None\<rparr>"

text \<open>The entry the mutation builds for itself carries no resolution and no task.\<close>

definition created_entry :: "comment \<Rightarrow> timeline_entry" where
  "created_entry c =
     \<lparr>entry_kind = Comment, entry_id = comment_id c, actor_type = author_type c, actor_id = author_id c,
      entry_created = comment_created c, action = None, content = Some (comment_content c),
      parent_id = comment_parent c, entry_updated = Some (comment_updated c),
      comment_type = Some (comment_kind c), quick_action_id = None,
      reactions = Some (or_empty (comment_reactions c)),
      attachments = Some (or_empty (comment_attachments c)), resolved_at = None,
      resolved_by_type = None, resolved_by_id = None, source_task_id = None, coalesced_count = None\<rparr>"

definition add_entry :: "timeline_entry \<Rightarrow> timeline \<Rightarrow> timeline" where
  "add_entry entry old =
     (case old of
        None \<Rightarrow> Some [entry]
      | Some es \<Rightarrow> if list_ex (\<lambda>e. entry_id e = entry_id entry) es then Some es
                   else Some (sortTimelineEntriesAsc (es @ [entry])))"

definition create_comment_success :: "comment \<Rightarrow> timeline \<Rightarrow> timeline" where
  "create_comment_success c old = add_entry (created_entry c) old"

section \<open>Replies\<close>

definition is_reply_to :: "string list \<Rightarrow> timeline_entry \<Rightarrow> bool" where
  "is_reply_to ids e \<longleftrightarrow> (case truthy (parent_id e) of None \<Rightarrow> False | Some p \<Rightarrow> p \<in> set ids)"

text \<open>One pass of the cascade over the entries; the set of ids in the order they were added.\<close>

definition cascade_pass :: "timeline_entry list \<Rightarrow> string list \<Rightarrow> string list" where
  "cascade_pass es ids =
     foldl (\<lambda>acc e. if is_reply_to acc e \<and> entry_id e \<notin> set acc then acc @ [entry_id e] else acc) ids es"

lemma cascade_pass_grows: "\<exists>new. cascade_pass es ids = ids @ new \<and> set new \<subseteq> entry_id ` set es - set ids"
proof (induction es arbitrary: ids)
  case Nil
  then show ?case by (simp add: cascade_pass_def)
next
  case (Cons e es)
  let ?ids = "if is_reply_to ids e \<and> entry_id e \<notin> set ids then ids @ [entry_id e] else ids"
  have step: "cascade_pass (e # es) ids = cascade_pass es ?ids" by (simp add: cascade_pass_def)
  obtain new where new: "cascade_pass es ?ids = ?ids @ new" "set new \<subseteq> entry_id ` set es - set ?ids"
    using Cons.IH [of ?ids] by (elim exE conjE)
  show ?case
  proof (cases "is_reply_to ids e \<and> entry_id e \<notin> set ids")
    case True
    then show ?thesis using new step by (intro exI [of _ "entry_id e # new"]) auto
  next
    case False
    then show ?thesis using new step by (intro exI [of _ new]) auto
  qed
qed

text \<open>\<open>while (changed)\<close>: a pass that added nothing ends the loop.\<close>

function cascade :: "timeline_entry list \<Rightarrow> string list \<Rightarrow> string list" where
  "cascade es ids =
     (let ids' = cascade_pass es ids in if length ids' = length ids then ids' else cascade es ids')"
  by pat_completeness auto

termination
proof (relation "measure (\<lambda>(es, ids). card (entry_id ` set es - set ids))")
  show "wf (measure (\<lambda>(es, ids). card (entry_id ` set es - set ids)))" by simp
next
  fix es :: "timeline_entry list" and ids ids' :: "string list"
  assume ids': "ids' = cascade_pass es ids" and grown: "length ids' \<noteq> length ids"
  obtain new where new: "ids' = ids @ new" "set new \<subseteq> entry_id ` set es - set ids"
    using cascade_pass_grows [of es ids] ids' by (elim exE conjE) simp
  then have "new \<noteq> []" using grown by auto
  then have "entry_id ` set es - set ids' \<subset> entry_id ` set es - set ids" using new by (cases new) auto
  then show "((es, ids'), (es, ids)) \<in> measure (\<lambda>(es, ids). card (entry_id ` set es - set ids))"
    by (simp add: psubset_card_mono)
qed

declare cascade.simps [simp del]

section \<open>The comments of a thread\<close>

text \<open>\<open>byId\<close>: a map of the comments, the last one winning an id.\<close>

definition comments_by_id :: "timeline_entry list \<Rightarrow> timeline_entry obj" where
  "comments_by_id es =
     foldl (\<lambda>m e. if entry_kind e = Comment then obj_set m (entry_id e) e else m) [] es"

text \<open>The walk up. The guard holds the ids already left, so each turn adds one of the map's keys.\<close>

definition climb_ids :: "timeline_entry obj \<Rightarrow> timeline_entry option \<Rightarrow> string list \<Rightarrow> string set" where
  "climb_ids byId cur guard = (entry_id ` (snd ` set byId \<union> set_option cur)) - set guard"

function climb :: "timeline_entry obj \<Rightarrow> string \<Rightarrow> timeline_entry option \<Rightarrow> string list \<Rightarrow> string" where
  "climb byId rootId cur guard =
     (case cur of
        None \<Rightarrow> rootId
      | Some c \<Rightarrow>
          (case truthy (parent_id c) of
             None \<Rightarrow> rootId
           | Some p \<Rightarrow>
               if obj_get byId p \<noteq> None \<and> entry_id c \<notin> set guard
               then climb byId p (obj_get byId p) (guard @ [entry_id c])
               else rootId))"
  by pat_completeness auto

termination
proof (relation "measure (\<lambda>(byId, rootId :: string, cur, guard). card (climb_ids byId cur guard))")
  show "wf (measure (\<lambda>(byId, rootId :: string, cur, guard). card (climb_ids byId cur guard)))" by simp
next
  fix byId :: "timeline_entry obj" and rootId guard p and cur :: "timeline_entry option" and c :: timeline_entry
  assume cur: "cur = Some c" and go: "obj_get byId p \<noteq> None \<and> entry_id c \<notin> set guard"
  obtain d where d: "obj_get byId p = Some d" using go by blast
  then have "d \<in> snd ` set byId" using map_of_SomeD by (force simp: image_iff)
  then have "climb_ids byId (obj_get byId p) (guard @ [entry_id c]) \<subseteq> climb_ids byId cur guard - {entry_id c}"
    unfolding climb_ids_def d by auto
  moreover have "entry_id c \<in> climb_ids byId cur guard" using cur go by (simp add: climb_ids_def)
  moreover have "finite (climb_ids byId cur guard)" by (simp add: climb_ids_def)
  ultimately have "card (climb_ids byId (obj_get byId p) (guard @ [entry_id c])) < card (climb_ids byId cur guard)"
    by (intro psubset_card_mono) auto
  then show "((byId, p, obj_get byId p, guard @ [entry_id c]), byId, rootId, cur, guard)
      \<in> measure (\<lambda>(byId, rootId :: string, cur, guard). card (climb_ids byId cur guard))" by simp
qed

declare climb.simps [simp del]

definition childrenByParent :: "timeline_entry obj \<Rightarrow> string list obj" where
  "childrenByParent byId =
     foldl (\<lambda>m e. case truthy (parent_id e) of
                    None \<Rightarrow> m
                  | Some p \<Rightarrow> obj_set m p (or_empty (obj_get m p) @ [entry_id e])) [] (map snd byId)"

text \<open>\<open>for (const child of ...)\<close>: a child not seen yet joins the ids and the stack.\<close>

definition push_children :: "string list \<Rightarrow> string list \<times> string list \<Rightarrow> string list \<times> string list" where
  "push_children cs st = foldl (\<lambda>(ids, stack) c. if c \<in> set ids then (ids, stack) else (ids @ [c], stack @ [c])) st cs"

lemma push_children_grows:
  "\<exists>new. push_children cs (ids, stack) = (ids @ new, stack @ new) \<and> set new = set cs - set ids \<and> distinct new"
proof (induction cs arbitrary: ids stack)
  case Nil
  then show ?case by (simp add: push_children_def)
next
  case (Cons c cs)
  show ?case
  proof (cases "c \<in> set ids")
    case True
    then have "push_children (c # cs) (ids, stack) = push_children cs (ids, stack)" by (simp add: push_children_def)
    then show ?thesis using Cons.IH [of ids stack] True by auto
  next
    case False
    then have "push_children (c # cs) (ids, stack) = push_children cs (ids @ [c], stack @ [c])"
      by (simp add: push_children_def)
    moreover obtain new where "push_children cs (ids @ [c], stack @ [c]) = (ids @ [c] @ new, stack @ [c] @ new)"
      "set new = set cs - set (ids @ [c])" "distinct new"
      using Cons.IH [of "ids @ [c]" "stack @ [c]"] by (elim exE conjE) simp
    ultimately show ?thesis using False by (intro exI [of _ "c # new"]) auto
  qed
qed

definition kid_ids :: "string list obj \<Rightarrow> string set" where
  "kid_ids kids = \<Union> (set ` snd ` set kids)"

lemma kid_ids_get: "set (or_empty (obj_get kids i)) \<subseteq> kid_ids kids"
proof (cases "obj_get kids i")
  case (Some cs)
  then have "cs \<in> snd ` set kids" using map_of_SomeD by (force simp: image_iff)
  then show ?thesis using Some by (auto simp: or_empty_def kid_ids_def)
qed (simp add: or_empty_def)

text \<open>The walk down: \<open>stack.pop()\<close> takes the last id.\<close>

function expand :: "string list obj \<Rightarrow> string list \<Rightarrow> string list \<Rightarrow> string list" where
  "expand kids ids stack =
     (if stack = [] then ids
      else (let (ids', stack') = push_children (or_empty (obj_get kids (last stack))) (ids, butlast stack)
            in expand kids ids' stack'))"
  by pat_completeness auto

termination
proof (relation "measure (\<lambda>(kids, ids, stack). 2 * card (kid_ids kids - set ids) + length stack)")
  show "wf (measure (\<lambda>(kids, ids, stack). 2 * card (kid_ids kids - set ids) + length stack))" by simp
next
  fix kids ids stack pr ids' stack'
  assume ne: "stack \<noteq> []" and pr: "pr = push_children (or_empty (obj_get kids (last stack))) (ids, butlast stack)"
    and split: "(ids', stack') = pr"
  let ?cs = "or_empty (obj_get kids (last stack))"
  obtain new where new: "ids' = ids @ new" "stack' = butlast stack @ new" "set new = set ?cs - set ids" "distinct new"
    using push_children_grows [of ?cs ids "butlast stack"] pr split by (elim exE conjE) simp
  have fin: "finite (kid_ids kids - set ids)" by (simp add: kid_ids_def)
  have sub: "set new \<subseteq> kid_ids kids - set ids" using new(3) kid_ids_get [of kids "last stack"] by auto
  have "kid_ids kids - set ids' = (kid_ids kids - set ids) - set new" using new(1) by auto
  then have "card (kid_ids kids - set ids') = card (kid_ids kids - set ids) - length new"
    using card_Diff_subset [OF _ sub] distinct_card [OF new(4)] by simp
  moreover have "length new \<le> card (kid_ids kids - set ids)"
    using card_mono [OF fin sub] distinct_card [OF new(4)] by simp
  moreover have "length stack = Suc (length (butlast stack))" using ne by (cases stack) simp_all
  ultimately show "((kids, ids', stack'), kids, ids, stack)
      \<in> measure (\<lambda>(kids, ids, stack). 2 * card (kid_ids kids - set ids) + length stack)"
    using new(2) by simp
qed

declare expand.simps [simp del]

definition collectThreadCommentIds :: "timeline_entry list \<Rightarrow> string \<Rightarrow> string list" where
  "collectThreadCommentIds es commentId =
     (let byId = comments_by_id es;
          rootId = climb byId commentId (obj_get byId commentId) []
      in expand (childrenByParent byId) [rootId] [rootId])"

section \<open>The mutations\<close>

text \<open>\<open>onMutate\<close> gives the cache and the snapshot it took; \<open>onError\<close> writes the snapshot back.\<close>

definition update_comment_mutate :: "string \<Rightarrow> string \<Rightarrow> string list \<Rightarrow> timeline \<Rightarrow> timeline \<times> timeline" where
  "update_comment_mutate commentId new_content attachmentIds old =
     (map_option (map (\<lambda>e. if entry_id e = commentId
        then e\<lparr>content := Some new_content,
               attachments := map_option (filter (\<lambda>a. attachment_id a \<in> set attachmentIds)) (attachments e)\<rparr>
        else e)) old, old)"

definition delete_comment_mutate :: "string \<Rightarrow> timeline \<Rightarrow> timeline \<times> timeline" where
  "delete_comment_mutate commentId prev =
     (let toRemove = (case prev of None \<Rightarrow> [commentId] | Some es \<Rightarrow> cascade es [commentId])
      in (map_option (filter (\<lambda>e. entry_id e \<notin> set toRemove)) prev, prev))"

definition resolve_entry :: "bool \<Rightarrow> string \<Rightarrow> string \<Rightarrow> string list \<Rightarrow> timeline_entry \<Rightarrow> timeline_entry" where
  "resolve_entry resolved now commentId threadIds e =
     (if entry_id e = commentId
      then e\<lparr>resolved_at := (if resolved then Some now else None),
             resolved_by_type := (if resolved then resolved_by_type e else None),
             resolved_by_id := (if resolved then resolved_by_id e else None)\<rparr>
      else if resolved \<and> truthy (resolved_at e) \<noteq> None \<and> entry_id e \<in> set threadIds
      then e\<lparr>resolved_at := None, resolved_by_type := None, resolved_by_id := None\<rparr>
      else e)"

definition resolve_comment_mutate :: "string \<Rightarrow> bool \<Rightarrow> string \<Rightarrow> timeline \<Rightarrow> timeline \<times> timeline" where
  "resolve_comment_mutate commentId resolved now prev =
     (map_option (\<lambda>old. map (resolve_entry resolved now commentId
        (if resolved then collectThreadCommentIds old commentId else [])) old) prev, prev)"

definition timeline_error :: "timeline \<Rightarrow> timeline \<Rightarrow> timeline" where
  "timeline_error prev now_cached = (case prev of None \<Rightarrow> now_cached | Some es \<Rightarrow> Some es)"

section \<open>Socket events\<close>

definition on_comment_created :: "string \<Rightarrow> comment \<Rightarrow> timeline \<Rightarrow> timeline" where
  "on_comment_created issueId c old =
     (if comment_issue c \<noteq> issueId then old else add_entry (commentToTimelineEntry c) old)"

text \<open>\<open>comment:updated\<close>, \<open>comment:resolved\<close> and \<open>comment:unresolved\<close> replace the entry.\<close>

definition on_comment_replaced :: "string \<Rightarrow> comment \<Rightarrow> timeline \<Rightarrow> timeline" where
  "on_comment_replaced issueId c old =
     (if comment_issue c \<noteq> issueId then old
      else map_option (map (\<lambda>e. if entry_id e = comment_id c then commentToTimelineEntry c else e)) old)"

definition on_comment_deleted :: "string \<Rightarrow> string \<Rightarrow> string \<Rightarrow> timeline \<Rightarrow> timeline" where
  "on_comment_deleted issueId commentId of_issue old =
     (if of_issue \<noteq> issueId then old
      else map_option (\<lambda>es. let idsToRemove = cascade es [commentId]
                            in filter (\<lambda>e. entry_id e \<notin> set idsToRemove) es) old)"

definition on_activity_created :: "string \<Rightarrow> string \<Rightarrow> timeline_entry option \<Rightarrow> timeline \<Rightarrow> timeline" where
  "on_activity_created issueId of_issue entry old =
     (if of_issue \<noteq> issueId then old
      else case entry of None \<Rightarrow> old | Some e \<Rightarrow> if entry_id e = [] then old else add_entry e old)"

definition on_reaction_added :: "string \<Rightarrow> string \<Rightarrow> reaction \<Rightarrow> timeline \<Rightarrow> timeline" where
  "on_reaction_added issueId of_issue r old =
     (if of_issue \<noteq> issueId then old
      else map_option (map (\<lambda>e. if entry_id e \<noteq> reaction_on r then e
        else if list_ex (\<lambda>x. reaction_id x = reaction_id r) (or_empty (reactions e)) then e
        else e\<lparr>reactions := Some (or_empty (reactions e) @ [r])\<rparr>)) old)"

definition same_reaction :: "string \<Rightarrow> string \<Rightarrow> string \<Rightarrow> reaction \<Rightarrow> bool" where
  "same_reaction em aty aid r \<longleftrightarrow> emoji r = em \<and> reaction_actor_type r = aty \<and> reaction_actor_id r = aid"

definition on_reaction_removed ::
    "string \<Rightarrow> string \<Rightarrow> string \<Rightarrow> string \<Rightarrow> string \<Rightarrow> string \<Rightarrow> timeline \<Rightarrow> timeline" where
  "on_reaction_removed issueId of_issue commentId em aty aid old =
     (if of_issue \<noteq> issueId then old
      else map_option (map (\<lambda>e. if entry_id e \<noteq> commentId then e
        else e\<lparr>reactions := Some (filter (\<lambda>r. \<not> same_reaction em aty aid r) (or_empty (reactions e)))\<rparr>)) old)"

end
