(* ===== verification/Issue_Threads.thy ===== *)
theory Issue_Threads
  imports Issue_Timeline
begin

text \<open>
  What the issue page draws from a timeline: the threads of \<open>thread-utils.ts\<close> and the
  \<open>timelineView\<close> of \<open>issue-detail.tsx\<close> in \<open>packages/views/issues/components\<close>. The recursion over
  replies is a walk with the entries still to visit on a stack; it need not end when the
  parents form a cycle, then its value is \<open>None\<close>. \<open>getTime\<close> is a parameter.
\<close>

section \<open>Threads\<close>

definition add_reply :: "timeline_entry list obj \<Rightarrow> timeline_entry \<Rightarrow> timeline_entry list obj" where
  "add_reply m e =
     (if entry_kind e \<noteq> Comment then m
      else case truthy (parent_id e) of
          None \<Rightarrow> m
        | Some p \<Rightarrow> obj_set m p (or_empty (obj_get m p) @ [e]))"

definition repliesByParent :: "timeline_entry list \<Rightarrow> timeline_entry list obj" where
  "repliesByParent es = foldl add_reply [] es"

partial_function (option) walk_replies ::
    "timeline_entry list obj \<Rightarrow> timeline_entry list \<Rightarrow> timeline_entry list \<Rightarrow> timeline_entry list option" where
  "walk_replies m todo out =
     (case todo of
        [] \<Rightarrow> Some out
      | child # rest \<Rightarrow> walk_replies m (or_empty (obj_get m (entry_id child)) @ rest) (out @ [child]))"

definition collectThreadReplies :: "string \<Rightarrow> timeline_entry list obj \<Rightarrow> timeline_entry list option" where
  "collectThreadReplies rootId m =
     map_option sortTimelineEntriesAsc (walk_replies m (or_empty (obj_get m rootId)) [])"

section \<open>Resolutions\<close>

datatype thread_resolution = Unresolved | Root_resolved | Reply_resolved string

definition choose_reply :: "timeline_entry option \<Rightarrow> timeline_entry \<Rightarrow> timeline_entry option" where
  "choose_reply chosen reply =
     (case truthy (resolved_at reply) of
        None \<Rightarrow> chosen
      | Some t \<Rightarrow>
          (case chosen of
             None \<Rightarrow> Some reply
           | Some c \<Rightarrow> (case resolved_at c of
                           None \<Rightarrow> chosen
                         | Some s \<Rightarrow> if s < t then Some reply else chosen)))"

definition deriveThreadResolution :: "timeline_entry \<Rightarrow> timeline_entry list \<Rightarrow> thread_resolution" where
  "deriveThreadResolution root_entry replies =
     (if truthy (resolved_at root_entry) \<noteq> None then Root_resolved
      else case foldl choose_reply None replies of
          None \<Rightarrow> Unresolved
        | Some c \<Rightarrow> Reply_resolved (entry_id c))"

definition is_root :: "timeline_entry \<Rightarrow> bool" where
  "is_root e \<longleftrightarrow> entry_kind e = Comment \<and> truthy (parent_id e) = None"

definition rootCommentIds :: "timeline_entry list \<Rightarrow> string list" where
  "rootCommentIds es = map entry_id (filter is_root es)"

text \<open>The results of calls that may not return, in order.\<close>

fun all_some :: "'a option list \<Rightarrow> 'a list option" where
  "all_some [] = Some []"
| "all_some (x # xs) =
     (case x of None \<Rightarrow> None
      | Some y \<Rightarrow> (case all_some xs of None \<Rightarrow> None | Some ys \<Rightarrow> Some (y # ys)))"

definition resolvedThreadRootIds :: "timeline_entry list \<Rightarrow> string list option" where
  "resolvedThreadRootIds es =
     (let m = repliesByParent es;
          roots = filter is_root es
      in case all_some (map (\<lambda>r. collectThreadReplies (entry_id r) m) roots) of
          None \<Rightarrow> None
        | Some rs \<Rightarrow> Some (map (entry_id \<circ> fst)
              (filter (\<lambda>(r, replies). deriveThreadResolution r replies \<noteq> Unresolved) (zip roots rs))))"

section \<open>The view\<close>

definition topLevel :: "timeline_entry list \<Rightarrow> timeline_entry list" where
  "topLevel es = filter (\<lambda>e. entry_kind e = Activity \<or> truthy (parent_id e) = None) es"

definition COALESCE_MS :: int where "COALESCE_MS = 2 * 60 * 1000"

definition coalesces :: "(string \<Rightarrow> int option) \<Rightarrow> timeline_entry \<Rightarrow> timeline_entry \<Rightarrow> bool" where
  "coalesces getTime prev e \<longleftrightarrow>
     action e \<noteq> Some ''squad_leader_evaluated'' \<and> entry_kind prev = Activity \<and>
     action prev = action e \<and> actor_type prev = actor_type e \<and> actor_id prev = actor_id e \<and>
     (action e \<in> {Some ''task_completed'', Some ''task_failed''} \<or>
      (case (getTime (entry_created e), getTime (entry_created prev)) of
         (Some a, Some b) \<Rightarrow> \<bar>a - b\<bar> \<le> COALESCE_MS
       | _ \<Rightarrow> False))"

definition coalesce_step ::
    "(string \<Rightarrow> int option) \<Rightarrow> timeline_entry list \<Rightarrow> timeline_entry \<Rightarrow> timeline_entry list" where
  "coalesce_step getTime acc e =
     (if entry_kind e = Activity \<and> acc \<noteq> [] \<and> coalesces getTime (last acc) e
      then butlast acc @ [e\<lparr>coalesced_count := Some (case coalesced_count (last acc) of None \<Rightarrow> 2 | Some n \<Rightarrow> n + 1)\<rparr>]
      else acc @ [e])"

definition coalesce :: "(string \<Rightarrow> int option) \<Rightarrow> timeline_entry list \<Rightarrow> timeline_entry list" where
  "coalesce getTime es = foldl (coalesce_step getTime) [] es"

datatype timeline_group = Activities "timeline_entry list" | Comment_group timeline_entry

definition group_step :: "timeline_group list \<Rightarrow> timeline_entry \<Rightarrow> timeline_group list" where
  "group_step gs e =
     (if entry_kind e = Activity
      then (case gs of
              [] \<Rightarrow> [Activities [e]]
            | _ \<Rightarrow> (case last gs of
                      Activities xs \<Rightarrow> butlast gs @ [Activities (xs @ [e])]
                    | Comment_group x \<Rightarrow> gs @ [Activities [e]]))
      else gs @ [Comment_group e])"

definition threadReplies :: "timeline_entry list \<Rightarrow> (string \<times> timeline_entry list) list option" where
  "threadReplies es =
     (let m = repliesByParent es;
          roots = filter (\<lambda>e. entry_kind e = Comment) (topLevel es)
      in map_option (zip (map entry_id roots)) (all_some (map (\<lambda>r. collectThreadReplies (entry_id r) m) roots)))"

definition view_groups :: "(string \<Rightarrow> int option) \<Rightarrow> timeline_entry list \<Rightarrow> timeline_group list" where
  "view_groups getTime es = foldl group_step [] (coalesce getTime (topLevel es))"

text \<open>The rows of the list: an unfolded comment, the bar of a resolved one, a block of activities.\<close>

datatype timeline_item =
  Comment_item string timeline_entry
| Resolved_bar string timeline_entry
| Activity_item string "timeline_entry list"

fun flatten_group :: "string list \<Rightarrow> timeline_group \<Rightarrow> timeline_item" where
  "flatten_group expanded (Comment_group e) =
     (if truthy (resolved_at e) \<noteq> None \<and> entry_id e \<notin> set expanded
      then Resolved_bar (entry_id e) e else Comment_item (entry_id e) e)"
| "flatten_group expanded (Activities xs) = Activity_item (entry_id (hd xs)) xs"

definition flattenGroups :: "string list \<Rightarrow> timeline_group list \<Rightarrow> timeline_item list" where
  "flattenGroups expanded groups = map (flatten_group expanded) groups"

text \<open>The thread a reply belongs to, and the row a deep link to a comment lands on.\<close>

definition replyToRoot :: "(string \<times> timeline_entry list) list \<Rightarrow> string obj" where
  "replyToRoot threads =
     foldl (\<lambda>m (rootId, replies). foldl (\<lambda>m r. obj_set m (entry_id r) rootId) m replies) [] threads"

fun item_id :: "timeline_item \<Rightarrow> string" where
  "item_id (Comment_item i e) = i"
| "item_id (Resolved_bar i e) = i"
| "item_id (Activity_item i xs) = i"

definition targetIdx :: "timeline_item list \<Rightarrow> string obj \<Rightarrow> string option \<Rightarrow> nat option" where
  "targetIdx items toRoot highlight =
     (case truthy highlight of
        None \<Rightarrow> None
      | Some h \<Rightarrow>
          (case find_index (\<lambda>it. item_id it = h) items of
             Some i \<Rightarrow> Some i
           | None \<Rightarrow> (case truthy (obj_get toRoot h) of
                         None \<Rightarrow> None
                       | Some r \<Rightarrow> find_index (\<lambda>it. item_id it = r) items)))"

end
