(* ===== verification/Timeline_Facts.thy ===== *)
theory Timeline_Facts
  imports Issue_Threads
begin

text \<open>
  Lemmas about timelines: the reply relation, that the cascade of a deletion and the two walks
  over a thread compute its closure, that the recursion over replies ends on a timeline
  without repeated ids, and the order of the array.
\<close>

section \<open>The reply relation\<close>

text \<open>From a parent's id to the ids of its replies, over all entries and over the comments.\<close>

definition reply_edges :: "timeline_entry list \<Rightarrow> (string \<times> string) set" where
  "reply_edges es = {(p, q). \<exists>e \<in> set es. truthy (parent_id e) = Some p \<and> entry_id e = q}"

definition comments :: "timeline_entry list \<Rightarrow> timeline_entry list" where
  "comments es = filter (\<lambda>e. entry_kind e = Comment) es"

definition thread_edges :: "timeline_entry list \<Rightarrow> (string \<times> string) set" where
  "thread_edges es = {(p, q) \<in> reply_edges (comments es). p \<in> entry_id ` set (comments es)}"

definition same_thread :: "timeline_entry list \<Rightarrow> string \<Rightarrow> string \<Rightarrow> bool" where
  "same_thread es a b \<longleftrightarrow> (\<exists>r. (r, a) \<in> (thread_edges es)\<^sup>* \<and> (r, b) \<in> (thread_edges es)\<^sup>*)"

definition ids_ok :: "timeline_entry list \<Rightarrow> bool" where
  "ids_ok es \<longleftrightarrow> distinct (map entry_id es)"

lemma comments_in [simp]: "e \<in> set (comments es) \<longleftrightarrow> e \<in> set es \<and> entry_kind e = Comment"
  by (auto simp: comments_def)

lemma ids_ok_comments: "ids_ok es \<Longrightarrow> ids_ok (comments es)"
  by (simp add: ids_ok_def comments_def distinct_map_filter)

lemma ids_ok_eq: "ids_ok es \<Longrightarrow> a \<in> set es \<Longrightarrow> b \<in> set es \<Longrightarrow> entry_id a = entry_id b \<Longrightarrow> a = b"
  by (auto simp: ids_ok_def distinct_map dest: inj_onD)

lemma is_reply_edge: "e \<in> set es \<Longrightarrow> is_reply_to ids e \<Longrightarrow> \<exists>p \<in> set ids. (p, entry_id e) \<in> reply_edges es"
  by (auto simp: is_reply_to_def reply_edges_def split: option.splits)

section \<open>The cascade\<close>

lemma cascade_pass_sound:
  assumes "set es \<subseteq> set all"
  shows "set ids \<subseteq> R \<Longrightarrow> (reply_edges all) `` R \<subseteq> R \<Longrightarrow> set (cascade_pass es ids) \<subseteq> R"
  using assms
proof (induction es arbitrary: ids)
  case Nil
  then show ?case by (simp add: cascade_pass_def)
next
  case (Cons e es)
  let ?ids = "if is_reply_to ids e \<and> entry_id e \<notin> set ids then ids @ [entry_id e] else ids"
  have "entry_id e \<in> R" if r: "is_reply_to ids e"
  proof -
    obtain p where "p \<in> set ids" "(p, entry_id e) \<in> reply_edges all"
      using is_reply_edge [of e all ids] r Cons.prems(3) by auto
    then show ?thesis using Cons.prems(1,2) by blast
  qed
  then have "set ?ids \<subseteq> R" using Cons.prems(1) by auto
  then show ?case using Cons.IH [of ?ids] Cons.prems by (simp add: cascade_pass_def)
qed

lemma cascade_pass_still:
  "cascade_pass es ids = ids \<Longrightarrow> e \<in> set es \<Longrightarrow> is_reply_to ids e \<Longrightarrow> entry_id e \<in> set ids"
proof (induction es arbitrary: ids)
  case (Cons x es)
  have x: "\<not> (is_reply_to ids x \<and> entry_id x \<notin> set ids)"
  proof
    assume a: "is_reply_to ids x \<and> entry_id x \<notin> set ids"
    obtain new where "cascade_pass es (ids @ [entry_id x]) = (ids @ [entry_id x]) @ new"
      using cascade_pass_grows [of es "ids @ [entry_id x]"] by (elim exE conjE)
    then show False using a Cons.prems(1) by (simp add: cascade_pass_def)
  qed
  then have "cascade_pass es ids = ids" using Cons.prems(1) by (auto simp: cascade_pass_def)
  then show ?case using Cons x by auto
qed simp

lemma cascade_closure: "set (cascade es ids) = (reply_edges es)\<^sup>* `` set ids"
proof
  let ?R = "(reply_edges es)\<^sup>*"
  have "set ids \<subseteq> R \<Longrightarrow> (reply_edges es) `` R \<subseteq> R \<Longrightarrow> set (cascade es ids) \<subseteq> R" for R
  proof (induction es ids rule: cascade.induct)
    case (1 es ids)
    have "set (cascade_pass es ids) \<subseteq> R" using cascade_pass_sound [of es es ids R] 1(2,3) by simp
    then show ?case using 1 by (subst cascade.simps) (simp add: Let_def)
  qed
  moreover have "(reply_edges es) `` (?R `` set ids) \<subseteq> ?R `` set ids"
    by (auto intro: rtrancl_into_rtrancl)
  ultimately show "set (cascade es ids) \<subseteq> ?R `` set ids" by auto
next
  have "set ids \<subseteq> set (cascade es ids) \<and> (reply_edges es) `` set (cascade es ids) \<subseteq> set (cascade es ids)"
  proof (induction es ids rule: cascade.induct)
    case (1 es ids)
    obtain new where new: "cascade_pass es ids = ids @ new"
      using cascade_pass_grows [of es ids] by (elim exE conjE)
    show ?case
    proof (cases "length (cascade_pass es ids) = length ids")
      case True
      then have same: "cascade_pass es ids = ids" using new by simp
      have "q \<in> set ids" if pq: "(p, q) \<in> reply_edges es" "p \<in> set ids" for p q
      proof -
        obtain e where e: "e \<in> set es" "truthy (parent_id e) = Some p" "entry_id e = q"
          using pq(1) unfolding reply_edges_def by blast
        then have "is_reply_to ids e" using pq(2) by (simp add: is_reply_to_def)
        then show ?thesis using cascade_pass_still [OF same e(1)] e(3) by simp
      qed
      then show ?thesis using True same by (subst (1 2 3) cascade.simps) (auto simp: Let_def)
    next
      case False
      have step: "cascade es ids = cascade es (cascade_pass es ids)"
        using False by (subst cascade.simps) (simp add: Let_def)
      then show ?thesis using 1 [OF refl False] new by auto
    qed
  qed
  then have ids: "set ids \<subseteq> set (cascade es ids)"
    and closed: "(reply_edges es) `` set (cascade es ids) \<subseteq> set (cascade es ids)" by auto
  have "y \<in> set (cascade es ids)" if "(x, y) \<in> (reply_edges es)\<^sup>*" "x \<in> set ids" for x y
    using that by (induction rule: rtrancl_induct) (use ids closed in auto)
  then show "(reply_edges es)\<^sup>* `` set ids \<subseteq> set (cascade es ids)" by auto
qed

section \<open>The maps of the walks\<close>

lemma comments_by_id_eq:
  assumes "ids_ok es"
  shows "comments_by_id es = map (\<lambda>e. (entry_id e, e)) (comments es)"
proof -
  have "foldl (\<lambda>m e. if entry_kind e = Comment then obj_set m (entry_id e) e else m) m xs =
      m @ map (\<lambda>e. (entry_id e, e)) (comments xs)"
    if "distinct (map fst m @ map entry_id xs)" for m xs
    using that
  proof (induction xs arbitrary: m)
    case (Cons x xs)
    have fresh: "entry_id x \<notin> fst ` set m" using Cons.prems by auto
    have new: "obj_set m (entry_id x) x = m @ [(entry_id x, x)]" using fresh by (induction m) auto
    show ?case
    proof (cases "entry_kind x = Comment")
      case True
      have "distinct (map fst (m @ [(entry_id x, x)]) @ map entry_id xs)" using Cons.prems by auto
      then show ?thesis using True new Cons.IH [of "m @ [(entry_id x, x)]"] by (simp add: comments_def)
    next
      case False
      then show ?thesis using Cons.IH [of m] Cons.prems by (simp add: comments_def)
    qed
  qed (simp add: comments_def)
  from this [of "[]" es] show ?thesis using assms by (simp add: comments_by_id_def ids_ok_def)
qed

lemma comments_by_id_get:
  assumes "ids_ok es"
  shows "obj_get (comments_by_id es) i = Some e \<longleftrightarrow> e \<in> set (comments es) \<and> entry_id e = i"
proof -
  have d: "distinct (map entry_id (comments es))" using ids_ok_comments [OF assms] by (simp add: ids_ok_def)
  then have "map_of (map (\<lambda>e. (entry_id e, e)) (comments es)) i = Some e
      \<longleftrightarrow> (i, e) \<in> set (map (\<lambda>e. (entry_id e, e)) (comments es))"
    by (intro map_of_eq_Some_iff) (simp add: comp_def)
  then show ?thesis using comments_by_id_eq [OF assms] by auto
qed

text \<open>Both maps of children append to the list under the parent.\<close>

lemma grouped_get:
  fixes f :: "timeline_entry \<Rightarrow> 'a"
  assumes "\<And>m e. step m e = (case key e of None \<Rightarrow> m | Some p \<Rightarrow> obj_set m p (or_empty (obj_get m p) @ [f e]))"
  shows "or_empty (obj_get (foldl step m xs) p) =
    or_empty (obj_get m p) @ map f (filter (\<lambda>e. key e = Some p) xs)"
proof (induction xs arbitrary: m)
  case (Cons x xs)
  show ?case
  proof (cases "key x")
    case None
    then show ?thesis using Cons [of m] by (simp add: assms)
  next
    case (Some q)
    then show ?thesis using Cons [of "step m x"] by (simp add: assms or_empty_def obj_simps)
  qed
qed simp

lemma childrenByParent_get:
  "or_empty (obj_get (childrenByParent m) p) =
     map entry_id (filter (\<lambda>e. truthy (parent_id e) = Some p) (map snd m))"
  unfolding childrenByParent_def
  by (subst grouped_get [where f = entry_id and key = "\<lambda>e. truthy (parent_id e)"]) (simp_all add: or_empty_def)

lemma repliesByParent_get:
  "or_empty (obj_get (repliesByParent es) p) = filter (\<lambda>e. truthy (parent_id e) = Some p) (comments es)"
proof -
  have "or_empty (obj_get (foldl add_reply [] es) p) = or_empty (obj_get [] p) @
      map (\<lambda>e. e) (filter (\<lambda>e. (if entry_kind e = Comment then truthy (parent_id e) else None) = Some p) es)"
    by (rule grouped_get) (simp add: add_reply_def)
  moreover have "filter (\<lambda>e. (if entry_kind e = Comment then truthy (parent_id e) else None) = Some p) es =
      filter (\<lambda>e. truthy (parent_id e) = Some p) (comments es)"
    unfolding comments_def filter_filter by (rule filter_cong) auto
  ultimately show ?thesis by (simp add: repliesByParent_def or_empty_def)
qed

section \<open>The walk down\<close>

definition kid_edges :: "string list obj \<Rightarrow> (string \<times> string) set" where
  "kid_edges kids = {(p, q). q \<in> set (or_empty (obj_get kids p))}"

lemma expand_closure:
  "set stack \<subseteq> set ids \<Longrightarrow> (kid_edges kids) `` (set ids - set stack) \<subseteq> set ids \<Longrightarrow>
     set (expand kids ids stack) = (kid_edges kids)\<^sup>* `` set ids"
proof (induction kids ids stack rule: expand.induct)
  case (1 kids ids stack)
  show ?case
  proof (cases "stack = []")
    case True
    then have "(kid_edges kids) `` set ids \<subseteq> set ids" using 1(3) by simp
    then have "(kid_edges kids)\<^sup>* `` set ids = set ids" by (rule Image_closed_trancl)
    then show ?thesis using True by (subst expand.simps) simp
  next
    case False
    let ?cs = "or_empty (obj_get kids (last stack))"
    obtain new where new: "push_children ?cs (ids, butlast stack) = (ids @ new, butlast stack @ new)"
      "set new = set ?cs - set ids" using push_children_grows [of ?cs ids "butlast stack"] by (elim exE conjE)
    have st: "set stack = insert (last stack) (set (butlast stack))"
      using append_butlast_last_id [OF False] by (metis Un_insert_right list.simps(15) set_append sup_bot.right_neutral empty_set)
    have kids: "set new \<subseteq> (kid_edges kids) `` set ids"
      using new(2) st 1(2) by (auto simp: kid_edges_def)
    have "set (expand kids (ids @ new) (butlast stack @ new)) = (kid_edges kids)\<^sup>* `` set (ids @ new)"
    proof (rule 1(1) [OF False _ refl, unfolded new(1), OF refl])
      show "set (butlast stack @ new) \<subseteq> set (ids @ new)" using st 1(2) by auto
      show "(kid_edges kids) `` (set (ids @ new) - set (butlast stack @ new)) \<subseteq> set (ids @ new)"
      proof
        fix q assume "q \<in> (kid_edges kids) `` (set (ids @ new) - set (butlast stack @ new))"
        then obtain p where p: "(p, q) \<in> kid_edges kids" "p \<in> set ids" "p \<notin> set (butlast stack)" by auto
        show "q \<in> set (ids @ new)"
        proof (cases "p = last stack")
          case True
          then show ?thesis using p(1) new(2) by (auto simp: kid_edges_def)
        next
          case False
          then show ?thesis using p st 1(3) by auto
        qed
      qed
    qed
    moreover have "(kid_edges kids)\<^sup>* `` set (ids @ new) = (kid_edges kids)\<^sup>* `` set ids"
    proof -
      have "y \<in> (kid_edges kids)\<^sup>* `` set ids" if "x \<in> set new" "(x, y) \<in> (kid_edges kids)\<^sup>*" for x y
        using kids that by (blast intro: converse_rtrancl_into_rtrancl)
      then show ?thesis by auto
    qed
    ultimately show ?thesis using False by (subst expand.simps) (simp add: new(1))
  qed
qed

section \<open>The walk up\<close>

text \<open>Every entry has one parent, so its ancestors lie on one path, or on one cycle.\<close>

lemma thread_edges_parent:
  assumes "ids_ok es"
  shows "(p, q) \<in> thread_edges es \<Longrightarrow> (p', q) \<in> thread_edges es \<Longrightarrow> p = p'"
  using ids_ok_eq [OF assms] unfolding thread_edges_def reply_edges_def by fastforce

lemma single_parent_last:
  assumes sv: "\<And>p p' q. (p, q) \<in> E \<Longrightarrow> (p', q) \<in> E \<Longrightarrow> p = p'" and e: "(p, q) \<in> E"
    and path: "(x, q) \<in> E\<^sup>+"
  shows "(x, p) \<in> E\<^sup>*"
proof -
  obtain z where "(x, z) \<in> E\<^sup>*" "(z, q) \<in> E" using path by (meson tranclD2)
  then show ?thesis using sv [OF e] by simp
qed

lemma cycle_back:
  assumes sv: "\<And>p p' q. (p, q) \<in> E \<Longrightarrow> (p', q) \<in> E \<Longrightarrow> p = p'" and cycle: "(r, r) \<in> E\<^sup>+"
  shows "(x, r) \<in> E\<^sup>* \<Longrightarrow> (r, x) \<in> E\<^sup>*"
proof (induction rule: converse_rtrancl_induct)
  case (step x y)
  have "(r, y) \<in> E\<^sup>+" using cycle step.IH by (rule trancl_rtrancl_trancl)
  show ?case by (rule single_parent_last [OF sv step.hyps(1) \<open>(r, y) \<in> E\<^sup>+\<close>])
qed simp

definition climb_ok :: "timeline_entry list \<Rightarrow> string \<Rightarrow> string \<Rightarrow> string list \<Rightarrow> bool" where
  "climb_ok es c rootId guard \<longleftrightarrow>
     (rootId, c) \<in> (thread_edges es)\<^sup>* \<and> rootId \<in> entry_id ` set (comments es) \<and>
     (\<forall>x. (x, c) \<in> (thread_edges es)\<^sup>* \<longrightarrow> (x, rootId) \<in> (thread_edges es)\<^sup>* \<or> (rootId, x) \<in> (thread_edges es)\<^sup>*) \<and>
     (\<forall>g \<in> set guard. (rootId, g) \<in> (thread_edges es)\<^sup>+)"

lemma climb_top:
  assumes ids: "ids_ok es"
  shows "byId = comments_by_id es \<Longrightarrow> cur = obj_get byId rootId \<Longrightarrow> climb_ok es c rootId guard \<Longrightarrow>
    (climb byId rootId cur guard, c) \<in> (thread_edges es)\<^sup>* \<and>
    climb byId rootId cur guard \<in> entry_id ` set (comments es) \<and>
    (\<forall>x. (x, c) \<in> (thread_edges es)\<^sup>* \<longrightarrow> (climb byId rootId cur guard, x) \<in> (thread_edges es)\<^sup>*)"
proof (induction byId rootId cur guard rule: climb.induct)
  case (1 byId rootId cur guard)
  let ?E = "thread_edges es"
  note sv = thread_edges_parent [OF ids]
  have root: "rootId \<in> entry_id ` set (comments es)" "(rootId, c) \<in> ?E\<^sup>*"
    using 1(4) by (simp_all add: climb_ok_def)
  have line: "(x, rootId) \<in> ?E\<^sup>* \<or> (rootId, x) \<in> ?E\<^sup>*" if "(x, c) \<in> ?E\<^sup>*" for x
    using 1(4) that by (simp add: climb_ok_def)
  obtain e where e: "e \<in> set (comments es)" "entry_id e = rootId" using root(1) by (rule imageE) simp
  then have cur: "cur = Some e" using comments_by_id_get [OF ids, of rootId e] 1(2,3) by simp
  have stop: ?case if "climb byId rootId cur guard = rootId" "\<And>x. (x, rootId) \<in> ?E\<^sup>* \<Longrightarrow> (rootId, x) \<in> ?E\<^sup>*"
    using that root line by auto
  show ?case
  proof (cases "truthy (parent_id e)")
    case None
    have here: "climb byId rootId cur guard = rootId" by (subst climb.simps) (simp add: cur None)
    have only: "x = rootId" if "(x, rootId) \<in> ?E\<^sup>*" for x
    proof (rule ccontr)
      assume "x \<noteq> rootId"
      then have "(x, rootId) \<in> ?E\<^sup>+" using that by (simp add: rtrancl_eq_or_trancl)
      then obtain z where "(z, rootId) \<in> ?E" by (meson tranclD2)
      then obtain d where d: "d \<in> set (comments es)" "truthy (parent_id d) = Some z" "entry_id d = rootId"
        unfolding thread_edges_def reply_edges_def by blast
      then have "d = e" using ids_ok_eq [OF ids_ok_comments [OF ids]] e by simp
      then show False using d None by simp
    qed
    show ?thesis by (rule stop [OF here]) (drule only, simp)
  next
    case (Some p)
    show ?thesis
    proof (cases "obj_get byId p \<noteq> None \<and> entry_id e \<notin> set guard")
      case False
      have here: "climb byId rootId cur guard = rootId" by (subst climb.simps) (simp add: cur Some False del: not_None_eq)
      show ?thesis
      proof (cases "obj_get byId p = None")
        case True
        have only: "x = rootId" if "(x, rootId) \<in> ?E\<^sup>*" for x
        proof (rule ccontr)
          assume "x \<noteq> rootId"
          then have "(x, rootId) \<in> ?E\<^sup>+" using that by (simp add: rtrancl_eq_or_trancl)
          then obtain z where z: "(z, rootId) \<in> ?E" by (meson tranclD2)
          then obtain d where d: "d \<in> set (comments es)" "truthy (parent_id d) = Some z" "entry_id d = rootId"
            "z \<in> entry_id ` set (comments es)"
            unfolding thread_edges_def reply_edges_def by blast
          then have "d = e" using ids_ok_eq [OF ids_ok_comments [OF ids]] e by simp
          then have "p \<in> entry_id ` set (comments es)" using d Some by simp
          then obtain b where "b \<in> set (comments es)" "entry_id b = p" by (rule imageE) simp
          then have "obj_get byId p = Some b" using comments_by_id_get [OF ids, of p b] 1(2) by simp
          then show False using True by simp
        qed
        show ?thesis by (rule stop [OF here]) (drule only, simp)
      next
        case False
        then have "rootId \<in> set guard" using \<open>\<not> (obj_get byId p \<noteq> None \<and> entry_id e \<notin> set guard)\<close> e by simp
        then have cycle: "(rootId, rootId) \<in> ?E\<^sup>+" using 1(4) by (simp add: climb_ok_def)
        show ?thesis by (rule stop [OF here]) (rule cycle_back [OF sv cycle])
      qed
    next
      case True
      have there: "climb byId rootId cur guard = climb byId p (obj_get byId p) (guard @ [entry_id e])"
        by (subst climb.simps) (simp add: cur Some True)
      obtain d where "obj_get byId p = Some d" using True by blast
      then have p: "p \<in> entry_id ` set (comments es)" using comments_by_id_get [OF ids, of p d] 1(2) by auto
      then have edge: "(p, rootId) \<in> ?E" using e Some unfolding thread_edges_def reply_edges_def by blast
      have "climb_ok es c p (guard @ [entry_id e])"
        unfolding climb_ok_def
      proof (intro conjI allI impI ballI)
        show "(p, c) \<in> ?E\<^sup>*" using edge root(2) by (rule converse_rtrancl_into_rtrancl)
        show "p \<in> entry_id ` set (comments es)" by (rule p)
        show "(x, p) \<in> ?E\<^sup>* \<or> (p, x) \<in> ?E\<^sup>*" if "(x, c) \<in> ?E\<^sup>*" for x
          using line [OF that]
        proof
          assume up: "(x, rootId) \<in> ?E\<^sup>*"
          show ?thesis
          proof (cases "x = rootId")
            case True
            then show ?thesis using edge by blast
          next
            case False
            then have up': "(x, rootId) \<in> ?E\<^sup>+" using up by (simp add: rtrancl_eq_or_trancl)
            show ?thesis by (rule disjI1) (rule single_parent_last [OF sv edge up'])
          qed
        next
          assume "(rootId, x) \<in> ?E\<^sup>*"
          then show ?thesis using edge by (blast intro: converse_rtrancl_into_rtrancl)
        qed
        show "(p, g) \<in> ?E\<^sup>+" if "g \<in> set (guard @ [entry_id e])" for g
        proof (cases "g = rootId")
          case True
          then show ?thesis using edge by blast
        next
          case False
          then have "(rootId, g) \<in> ?E\<^sup>+" using that e 1(4) by (auto simp: climb_ok_def)
          with edge show ?thesis by (rule trancl_into_trancl2)
        qed
      qed
      then show ?thesis using 1(1) [OF cur Some True 1(2) refl] there by simp
    qed
  qed
qed

section \<open>The ids of a thread\<close>

lemma kid_edges_of:
  assumes "ids_ok es"
  shows "kid_edges (childrenByParent (comments_by_id es)) = reply_edges (comments es)"
proof -
  have "q \<in> set (or_empty (obj_get (childrenByParent (comments_by_id es)) p)) \<longleftrightarrow> (p, q) \<in> reply_edges (comments es)" for p q
    unfolding childrenByParent_get comments_by_id_eq [OF assms] reply_edges_def by auto
  then show ?thesis by (auto simp: kid_edges_def)
qed

text \<open>From a comment on, an edge to a reply is an edge of the thread.\<close>

lemma reply_paths:
  assumes "p \<in> entry_id ` set (comments es)"
  shows "(p, q) \<in> (reply_edges (comments es))\<^sup>* \<longleftrightarrow> (p, q) \<in> (thread_edges es)\<^sup>*"
proof
  assume "(p, q) \<in> (reply_edges (comments es))\<^sup>*"
  then have "(p, q) \<in> (thread_edges es)\<^sup>* \<and> q \<in> entry_id ` set (comments es)"
  proof (induction rule: rtrancl_induct)
    case (step x y)
    then have "(x, y) \<in> thread_edges es" by (simp add: thread_edges_def)
    moreover have "y \<in> entry_id ` set (comments es)" using step.hyps(2) unfolding reply_edges_def by blast
    ultimately show ?case using step.IH by auto
  qed (use assms in simp)
  then show "(p, q) \<in> (thread_edges es)\<^sup>*" ..
next
  have "thread_edges es \<subseteq> reply_edges (comments es)" unfolding thread_edges_def by blast
  then show "(p, q) \<in> (thread_edges es)\<^sup>* \<Longrightarrow> (p, q) \<in> (reply_edges (comments es))\<^sup>*"
    using rtrancl_mono by blast
qed

lemma collectThreadCommentIds_set:
  assumes ids: "ids_ok es" and c: "c \<in> entry_id ` set (comments es)"
  shows "set (collectThreadCommentIds es c) = {q. same_thread es c q}"
proof -
  let ?byId = "comments_by_id es"
  let ?top = "climb ?byId c (obj_get ?byId c) []"
  have "climb_ok es c c []" using c by (simp add: climb_ok_def)
  from climb_top [OF ids refl refl this]
  have top: "(?top, c) \<in> (thread_edges es)\<^sup>*" "?top \<in> entry_id ` set (comments es)"
    "(x, c) \<in> (thread_edges es)\<^sup>* \<Longrightarrow> (?top, x) \<in> (thread_edges es)\<^sup>*" for x
    by blast+
  have "set (collectThreadCommentIds es c) = (reply_edges (comments es))\<^sup>* `` {?top}"
    unfolding collectThreadCommentIds_def Let_def
    using expand_closure [of "[?top]" "[?top]" "childrenByParent ?byId"] by (simp add: kid_edges_of [OF ids])
  also have "\<dots> = {q. (?top, q) \<in> (thread_edges es)\<^sup>*}" using reply_paths [OF top(2)] by auto
  also have "\<dots> = {q. same_thread es c q}"
  proof -
    have "same_thread es c q \<longleftrightarrow> (?top, q) \<in> (thread_edges es)\<^sup>*" for q
    proof
      assume "same_thread es c q"
      then obtain r where "(r, c) \<in> (thread_edges es)\<^sup>*" and rq: "(r, q) \<in> (thread_edges es)\<^sup>*"
        unfolding same_thread_def by (elim exE conjE)
      from top(3) [OF this(1)] rq show "(?top, q) \<in> (thread_edges es)\<^sup>*" by (rule rtrancl_trans)
    next
      assume "(?top, q) \<in> (thread_edges es)\<^sup>*"
      then show "same_thread es c q" unfolding same_thread_def using top(1) by (intro exI conjI)
    qed
    then show ?thesis by simp
  qed
  finally show ?thesis .
qed

end
