(* ===== verification/Thread_Facts.thy ===== *)
theory Thread_Facts
  imports Timeline_Facts
begin

text \<open>
  Lemmas about what the issue page draws: the recursion over the replies of a root returns all
  its descendants once, one resolved reply is the one chosen, and the order in which entries
  arrive does not matter.
\<close>

section \<open>The replies of a root\<close>

definition replies_of :: "timeline_entry list \<Rightarrow> string \<Rightarrow> timeline_entry list" where
  "replies_of es p = filter (\<lambda>e. truthy (parent_id e) = Some p) (comments es)"

definition walk_ok :: "timeline_entry list \<Rightarrow> string \<Rightarrow> timeline_entry list \<Rightarrow> timeline_entry list \<Rightarrow> bool" where
  "walk_ok es r todo out \<longleftrightarrow>
     distinct (out @ todo) \<and> set (out @ todo) \<subseteq> set (comments es) \<and>
     (\<forall>e \<in> set (out @ todo). truthy (parent_id e) \<in> Some ` insert r (entry_id ` set out)) \<and>
     (\<forall>e \<in> set (out @ todo). (r, entry_id e) \<in> (thread_edges es)\<^sup>+) \<and>
     (\<forall>p \<in> insert r (entry_id ` set out). set (replies_of es p) \<subseteq> set (out @ todo))"

lemma walk_step:
  assumes ids: "ids_ok es" and r: "r \<in> set es" "is_root r" and ok: "walk_ok es (entry_id r) (c # rest) out"
  shows "walk_ok es (entry_id r) (replies_of es (entry_id c) @ rest) (out @ [c])"
proof -
  let ?kids = "replies_of es (entry_id c)"
  let ?E = "thread_edges es"
  have c: "c \<in> set (comments es)" "c \<notin> set out" "truthy (parent_id c) \<noteq> None"
    using ok by (auto simp: walk_ok_def)
  have "c \<noteq> r" using c(3) r(2) by (auto simp: is_root_def)
  then have other: "entry_id c \<noteq> entry_id r" using ids_ok_eq [OF ids] c(1) r(1) by auto
  have unseen: "entry_id c \<notin> entry_id ` set out"
  proof
    assume "entry_id c \<in> entry_id ` set out"
    then obtain d where "d \<in> set out" "entry_id d = entry_id c" by auto
    moreover have "set out \<subseteq> set (comments es)" using ok by (simp add: walk_ok_def)
    ultimately show False using ids_ok_eq [OF ids_ok_comments [OF ids], of d c] c by auto
  qed
  have fresh: "e \<notin> set (out @ c # rest)" if "e \<in> set ?kids" for e
  proof
    assume "e \<in> set (out @ c # rest)"
    moreover have "\<forall>e \<in> set (out @ c # rest). truthy (parent_id e) \<in> Some ` insert (entry_id r) (entry_id ` set out)"
      using ok unfolding walk_ok_def by (elim conjE)
    ultimately have "truthy (parent_id e) \<in> Some ` insert (entry_id r) (entry_id ` set out)" by (rule bspec [rotated])
    then show False using that other unseen by (auto simp: replies_of_def)
  qed
  have dist: "distinct ?kids" using ids_ok_comments [OF ids] by (simp add: replies_of_def ids_ok_def distinct_map)
  have edge: "(entry_id c, entry_id e) \<in> ?E" if "e \<in> set ?kids" for e
    using that c(1) unfolding replies_of_def thread_edges_def reply_edges_def by auto
  show ?thesis
    unfolding walk_ok_def
  proof (intro conjI ballI)
    show "distinct ((out @ [c]) @ ?kids @ rest)"
      using ok dist fresh by (auto simp: walk_ok_def)
    show "set ((out @ [c]) @ ?kids @ rest) \<subseteq> set (comments es)"
      using ok by (auto simp: walk_ok_def replies_of_def)
  next
    fix e assume e: "e \<in> set ((out @ [c]) @ ?kids @ rest)"
    show "truthy (parent_id e) \<in> Some ` insert (entry_id r) (entry_id ` set (out @ [c]))"
    proof (cases "e \<in> set ?kids")
      case True
      then show ?thesis by (auto simp: replies_of_def)
    next
      case False
      then have "e \<in> set (out @ c # rest)" using e by auto
      then show ?thesis using ok by (auto simp: walk_ok_def)
    qed
    show "(entry_id r, entry_id e) \<in> ?E\<^sup>+"
    proof (cases "e \<in> set ?kids")
      case True
      have "(entry_id r, entry_id c) \<in> ?E\<^sup>+" using ok by (simp add: walk_ok_def)
      then show ?thesis using edge [OF True] by (rule trancl_into_trancl)
    next
      case False
      then have "e \<in> set (out @ c # rest)" using e by auto
      then show ?thesis using ok by (auto simp: walk_ok_def)
    qed
  next
    fix p assume "p \<in> insert (entry_id r) (entry_id ` set (out @ [c]))"
    then show "set (replies_of es p) \<subseteq> set ((out @ [c]) @ ?kids @ rest)"
      using ok by (auto simp: walk_ok_def)
  qed
qed

lemma walk_ends:
  assumes ids: "ids_ok es" and r: "r \<in> set es" "is_root r"
  shows "walk_ok es (entry_id r) todo out \<Longrightarrow>
    \<exists>res. walk_replies (repliesByParent es) todo out = Some res \<and> walk_ok es (entry_id r) [] res"
proof (induction "length (comments es) - length out" arbitrary: todo out rule: less_induct)
  case less
  show ?case
  proof (cases todo)
    case Nil
    then show ?thesis using less.prems by (subst walk_replies.simps) simp
  next
    case (Cons c rest)
    have next_ok: "walk_ok es (entry_id r) (replies_of es (entry_id c) @ rest) (out @ [c])"
      using walk_step [OF ids r] less.prems Cons by simp
    have "distinct (out @ [c])" "set (out @ [c]) \<subseteq> set (comments es)" using next_ok by (auto simp: walk_ok_def)
    then have "length (out @ [c]) \<le> length (comments es)"
      by (metis card_length card_mono distinct_card finite_set le_trans)
    then have "length (comments es) - length (out @ [c]) < length (comments es) - length out" by simp
    from less.hyps [OF this next_ok] show ?thesis
      using Cons by (subst walk_replies.simps) (simp add: repliesByParent_get replies_of_def)
  qed
qed

lemma walk_root:
  assumes ids: "ids_ok es" and r: "r \<in> set es" "is_root r"
  shows "\<exists>res. walk_replies (repliesByParent es) (replies_of es (entry_id r)) [] = Some res \<and> distinct res \<and>
    set res = {e \<in> set (comments es). (entry_id r, entry_id e) \<in> (thread_edges es)\<^sup>+}"
proof -
  let ?E = "thread_edges es"
  have rc: "r \<in> set (comments es)" using r by (simp add: is_root_def)
  have "walk_ok es (entry_id r) (replies_of es (entry_id r)) []"
    unfolding walk_ok_def
  proof (intro conjI ballI)
    show "distinct ([] @ replies_of es (entry_id r))"
      using ids_ok_comments [OF ids] by (simp add: replies_of_def ids_ok_def distinct_map)
    fix e assume "e \<in> set ([] @ replies_of es (entry_id r))"
    then have "(entry_id r, entry_id e) \<in> ?E"
      using rc unfolding replies_of_def thread_edges_def reply_edges_def by auto
    then show "(entry_id r, entry_id e) \<in> ?E\<^sup>+" by blast
  qed (auto simp: replies_of_def)
  then obtain res where res: "walk_replies (repliesByParent es) (replies_of es (entry_id r)) [] = Some res"
    "walk_ok es (entry_id r) [] res" using walk_ends [OF ids r] by blast
  have all: "q \<in> entry_id ` set res" if "(entry_id r, q) \<in> ?E\<^sup>+" for q
    using that
  proof (induction rule: trancl_induct)
    case (base y)
    then obtain e where "e \<in> set (replies_of es (entry_id r))" "entry_id e = y"
      unfolding thread_edges_def reply_edges_def replies_of_def by auto
    moreover have "set (replies_of es (entry_id r)) \<subseteq> set res" using res(2) by (simp add: walk_ok_def)
    ultimately show ?case by blast
  next
    case (step y z)
    then obtain e where "e \<in> set (replies_of es y)" "entry_id e = z"
      unfolding thread_edges_def reply_edges_def replies_of_def by auto
    moreover have "set (replies_of es y) \<subseteq> set res" using res(2) step.IH by (auto simp: walk_ok_def)
    ultimately show ?case by blast
  qed
  have "e \<in> set res" if e: "e \<in> set (comments es)" "(entry_id r, entry_id e) \<in> ?E\<^sup>+" for e
  proof -
    obtain d where d: "d \<in> set res" "entry_id d = entry_id e" using all [OF e(2)] by auto
    then have "d \<in> set (comments es)" using res(2) by (auto simp: walk_ok_def)
    then show ?thesis using ids_ok_eq [OF ids_ok_comments [OF ids]] e(1) d by auto
  qed
  moreover have "distinct res" "set res \<subseteq> set (comments es)"
    "\<And>e. e \<in> set res \<Longrightarrow> (entry_id r, entry_id e) \<in> ?E\<^sup>+"
    using res(2) by (simp_all add: walk_ok_def)
  ultimately show ?thesis using res(1) by blast
qed

lemma collectThreadReplies_root:
  assumes "ids_ok es" "r \<in> set es" "is_root r"
  shows "\<exists>res. collectThreadReplies (entry_id r) (repliesByParent es) = Some res \<and> distinct res \<and>
    set res = {e \<in> set (comments es). (entry_id r, entry_id e) \<in> (thread_edges es)\<^sup>+}"
proof -
  obtain res where res: "walk_replies (repliesByParent es) (replies_of es (entry_id r)) [] = Some res" "distinct res"
    "set res = {e \<in> set (comments es). (entry_id r, entry_id e) \<in> (thread_edges es)\<^sup>+}"
    using walk_root [OF assms] by blast
  moreover have "distinct (sortTimelineEntriesAsc res)"
    using res(2) unfolding sortTimelineEntriesAsc_def by (metis array_sort_mset mset_eq_imp_distinct_iff)
  ultimately show ?thesis
    by (simp add: collectThreadReplies_def repliesByParent_get flip: replies_of_def)
      (simp add: sortTimelineEntriesAsc_def)
qed

section \<open>The resolution of a thread\<close>

lemma choose_none:
  "\<forall>e \<in> set es. truthy (resolved_at e) = None \<Longrightarrow> foldl choose_reply acc es = acc"
  by (induction es) (simp_all add: choose_reply_def)

lemma choose_one:
  assumes "c \<in> set es" "distinct es" "\<forall>e \<in> set es. truthy (resolved_at e) \<noteq> None \<longleftrightarrow> e = c"
  shows "foldl choose_reply None es = Some c"
proof -
  obtain xs ys where es: "es = xs @ c # ys" using split_list [OF assms(1)] by blast
  have "truthy (resolved_at e) = None" if "e \<in> set xs \<union> set ys" for e
    using that assms(2,3) unfolding es by auto
  moreover have "truthy (resolved_at c) \<noteq> None" using assms(1,3) by blast
  then have "choose_reply None c = Some c" by (auto simp: choose_reply_def split: option.splits)
  ultimately show ?thesis using choose_none [of xs None] choose_none [of ys "Some c"] unfolding es by simp
qed

section \<open>Every comment belongs to one thread\<close>

definition closed_comments :: "timeline_entry list \<Rightarrow> bool" where
  "closed_comments es \<longleftrightarrow> thread_edges es = reply_edges (comments es)"

lemma root_no_parent:
  assumes "ids_ok es" "r \<in> set es" "is_root r"
  shows "(x, entry_id r) \<in> (thread_edges es)\<^sup>* \<Longrightarrow> x = entry_id r"
proof (rule ccontr)
  assume "(x, entry_id r) \<in> (thread_edges es)\<^sup>*" "x \<noteq> entry_id r"
  then have "(x, entry_id r) \<in> (thread_edges es)\<^sup>+" by (simp add: rtrancl_eq_or_trancl)
  then obtain z where "(z, entry_id r) \<in> thread_edges es" by (meson tranclD2)
  then obtain e where e: "e \<in> set es" "truthy (parent_id e) = Some z" "entry_id e = entry_id r"
    unfolding thread_edges_def reply_edges_def by auto
  then have "e = r" using ids_ok_eq [OF assms(1)] assms(2) by blast
  then show False using e(2) assms(3) by (simp add: is_root_def)
qed

lemma has_root:
  assumes ids: "ids_ok es" and closed: "closed_comments es" and acyc: "acyclic (thread_edges es)"
    and e: "e \<in> set (comments es)"
  shows "\<exists>r \<in> set es. is_root r \<and> (entry_id r, entry_id e) \<in> (thread_edges es)\<^sup>*"
proof -
  let ?E = "thread_edges es"
  let ?top = "climb (comments_by_id es) (entry_id e) (obj_get (comments_by_id es) (entry_id e)) []"
  have "climb_ok es (entry_id e) (entry_id e) []" using e by (auto simp: climb_ok_def)
  from climb_top [OF ids refl refl this]
  have top: "(?top, entry_id e) \<in> ?E\<^sup>*" "?top \<in> entry_id ` set (comments es)"
    "\<And>x. (x, entry_id e) \<in> ?E\<^sup>* \<Longrightarrow> (?top, x) \<in> ?E\<^sup>*" by blast+
  obtain r where r: "r \<in> set (comments es)" "entry_id r = ?top" using top(2) by (rule imageE) simp
  have "is_root r"
  proof (rule ccontr)
    assume "\<not> is_root r"
    then obtain p where p: "truthy (parent_id r) = Some p" using r(1) by (auto simp: is_root_def)
    then have "(p, ?top) \<in> reply_edges (comments es)" unfolding reply_edges_def using r by blast
    then have edge: "(p, ?top) \<in> ?E" using closed by (simp add: closed_comments_def)
    then have "(p, entry_id e) \<in> ?E\<^sup>*" using top(1) by (rule converse_rtrancl_into_rtrancl)
    from top(3) [OF this] edge have "(?top, ?top) \<in> ?E\<^sup>+" by (rule rtrancl_into_trancl1)
    then show False using acyc by (simp add: acyclic_def)
  qed
  then show ?thesis using r top(1) by (intro bexI [of _ r]) simp_all
qed

lemma one_root:
  assumes ids: "ids_ok es" and r: "r \<in> set es" "is_root r" and s: "s \<in> set es" "is_root s"
    and e: "(entry_id r, x) \<in> (thread_edges es)\<^sup>*"
  shows "(entry_id s, x) \<in> (thread_edges es)\<^sup>* \<Longrightarrow> r = s"
  using e
proof (induction rule: rtrancl_induct)
  case base
  then have "entry_id s = entry_id r" using root_no_parent [OF ids r] by blast
  then show ?case using ids_ok_eq [OF ids r(1) s(1)] by simp
next
  case (step y z)
  show ?case
  proof (cases "entry_id s = z")
    case True
    then have "(entry_id r, entry_id s) \<in> (thread_edges es)\<^sup>*" using step.hyps by auto
    then have "entry_id r = entry_id s" by (rule root_no_parent [OF ids s])
    then show ?thesis using ids_ok_eq [OF ids r(1) s(1)] by simp
  next
    case False
    then have "(entry_id s, z) \<in> (thread_edges es)\<^sup>+" using step.prems by (simp add: rtrancl_eq_or_trancl)
    then have "(entry_id s, y) \<in> (thread_edges es)\<^sup>*"
      using single_parent_last [of "thread_edges es" y z "entry_id s"] thread_edges_parent [OF ids] step.hyps(2)
      by blast
    then show ?thesis by (rule step.IH)
  qed
qed

lemma all_some_map: "(\<And>x. x \<in> set xs \<Longrightarrow> f x = Some (g x)) \<Longrightarrow> all_some (map f xs) = Some (map g xs)"
  by (induction xs) simp_all

lemma distinct_threads:
  "distinct rs \<Longrightarrow> (\<And>r. r \<in> set rs \<Longrightarrow> distinct (L r)) \<Longrightarrow>
   (\<And>r s. r \<in> set rs \<Longrightarrow> s \<in> set rs \<Longrightarrow> r \<noteq> s \<Longrightarrow> set (L r) \<inter> set (L s) = {}) \<Longrightarrow>
   distinct (concat (map L rs))"
proof (induction rs)
  case (Cons r rs)
  have "set (L r) \<inter> set (L s) = {}" if "s \<in> set rs" for s
    using Cons.prems(1,3) that by auto
  then have "set (L r) \<inter> set (concat (map L rs)) = {}" by auto
  then show ?case using Cons by simp
qed simp

lemma threads_partition:
  assumes ids: "ids_ok es" and closed: "closed_comments es" and acyc: "acyclic (thread_edges es)"
  shows "\<exists>threads. threadReplies es = Some threads \<and> map fst threads = rootCommentIds es \<and>
    mset (filter is_root es) + mset (concat (map snd threads)) = mset (comments es)"
proof -
  let ?E = "thread_edges es"
  let ?roots = "filter is_root es"
  have roots: "filter (\<lambda>e. entry_kind e = Comment) (topLevel es) = ?roots"
    unfolding topLevel_def filter_filter by (rule filter_cong) (auto simp: is_root_def)
  define L :: "timeline_entry \<Rightarrow> timeline_entry list" where "L r = the (collectThreadReplies (entry_id r) (repliesByParent es))" for r
  have L: "collectThreadReplies (entry_id r) (repliesByParent es) = Some (L r)" "distinct (L r)"
    "set (L r) = {e \<in> set (comments es). (entry_id r, entry_id e) \<in> ?E\<^sup>+}" if r: "r \<in> set ?roots" for r
  proof -
    have "r \<in> set es" "is_root r" using r by simp_all
    then obtain res where res: "collectThreadReplies (entry_id r) (repliesByParent es) = Some res" "distinct res"
      "set res = {e \<in> set (comments es). (entry_id r, entry_id e) \<in> ?E\<^sup>+}"
      using collectThreadReplies_root [OF ids] by blast
    then show "collectThreadReplies (entry_id r) (repliesByParent es) = Some (L r)" "distinct (L r)"
      "set (L r) = {e \<in> set (comments es). (entry_id r, entry_id e) \<in> ?E\<^sup>+}"
      by (simp_all only: L_def option.sel)
  qed
  have some: "all_some (map (\<lambda>r. collectThreadReplies (entry_id r) (repliesByParent es)) ?roots) = Some (map L ?roots)"
    by (rule all_some_map) (rule L(1))
  let ?threads = "zip (map entry_id ?roots) (map L ?roots)"
  have 1: "threadReplies es = Some ?threads" by (simp add: threadReplies_def Let_def roots some)
  have dr: "distinct ?roots" using ids by (simp add: ids_ok_def distinct_map)
  have dist: "distinct (concat (map L ?roots))"
  proof (rule distinct_threads [OF dr L(2)])
    fix r s assume rs: "r \<in> set ?roots" "s \<in> set ?roots" "r \<noteq> s"
    have "r = s" if "e \<in> set (L r)" "e \<in> set (L s)" for e
      using one_root [OF ids, of r s "entry_id e"] rs(1,2) that L(3) [OF rs(1)] L(3) [OF rs(2)]
      by (simp add: trancl_into_rtrancl)
    then show "set (L r) \<inter> set (L s) = {}" using rs(3) by blast
  qed
  have split: "set ?roots \<union> set (concat (map L ?roots)) = set (comments es)"
  proof
    show "set ?roots \<union> set (concat (map L ?roots)) \<subseteq> set (comments es)"
      using L(3) by (auto simp: is_root_def)
    show "set (comments es) \<subseteq> set ?roots \<union> set (concat (map L ?roots))"
    proof
      fix e assume e: "e \<in> set (comments es)"
      obtain r where r: "r \<in> set ?roots" "(entry_id r, entry_id e) \<in> ?E\<^sup>*"
        using has_root [OF ids closed acyc e] by auto
      show "e \<in> set ?roots \<union> set (concat (map L ?roots))"
      proof (cases "entry_id r = entry_id e")
        case True
        then have "r = e" using ids_ok_eq [OF ids, of r e] r(1) e by simp
        then show ?thesis using r(1) by simp
      next
        case False
        then have "(entry_id r, entry_id e) \<in> ?E\<^sup>+" using r(2) by (simp add: rtrancl_eq_or_trancl)
        then have "e \<in> set (L r)" using L(3) [OF r(1)] e by simp
        then show ?thesis using r(1) by auto
      qed
    qed
  qed
  have apart: "set ?roots \<inter> set (concat (map L ?roots)) = {}"
  proof -
    have False if e: "e \<in> set ?roots" "r \<in> set ?roots" "e \<in> set (L r)" for e r
    proof -
      have up: "(entry_id r, entry_id e) \<in> ?E\<^sup>+" using L(3) [OF e(2)] e(3) by simp
      then have "entry_id r = entry_id e"
        using root_no_parent [OF ids, of e "entry_id r"] e(1) trancl_into_rtrancl [OF up] by simp
      then show False using up acyc by (simp add: acyclic_def)
    qed
    then show ?thesis by auto
  qed
  have "mset (?roots @ concat (map L ?roots)) = mset (comments es)"
  proof (rule set_eq_iff_mset_eq_distinct [THEN iffD1])
    show "distinct (?roots @ concat (map L ?roots))" using dr dist apart by simp
    show "distinct (comments es)" using ids_ok_comments [OF ids] by (simp add: ids_ok_def distinct_map)
    show "set (?roots @ concat (map L ?roots)) = set (comments es)" using split by simp
  qed
  then show ?thesis using 1 by (intro exI [of _ ?threads]) (simp add: rootCommentIds_def)
qed

section \<open>Groups\<close>

definition group_comments :: "timeline_group list \<Rightarrow> timeline_entry list" where
  "group_comments gs = concat (map (\<lambda>g. case g of Comment_group e \<Rightarrow> [e] | Activities xs \<Rightarrow> []) gs)"

definition group_activities :: "timeline_group list \<Rightarrow> timeline_entry list" where
  "group_activities gs = concat (map (\<lambda>g. case g of Comment_group e \<Rightarrow> [] | Activities xs \<Rightarrow> xs) gs)"

definition drawn_count :: "timeline_entry \<Rightarrow> nat" where
  "drawn_count e = (case coalesced_count e of None \<Rightarrow> 1 | Some n \<Rightarrow> n)"

lemma group_step_parts:
  "group_comments (group_step gs e) = group_comments gs @ (if entry_kind e = Activity then [] else [e])"
  "group_activities (group_step gs e) = group_activities gs @ (if entry_kind e = Activity then [e] else [])"
proof -
  have "group_comments (group_step gs e) = group_comments gs @ (if entry_kind e = Activity then [] else [e]) \<and>
    group_activities (group_step gs e) = group_activities gs @ (if entry_kind e = Activity then [e] else [])"
  proof (cases gs rule: rev_cases)
    case Nil
    then show ?thesis by (simp add: group_step_def group_comments_def group_activities_def)
  next
    case (snoc hs g)
    then have "gs \<noteq> []" by simp
    then have ne: "(case gs of [] \<Rightarrow> a | x # xs \<Rightarrow> b) = b" for a b :: "timeline_group list"
      by (auto simp: neq_Nil_conv)
    show ?thesis
      by (cases g) (simp_all add: group_step_def ne, simp_all add: snoc group_comments_def group_activities_def)
  qed
  then show "group_comments (group_step gs e) = group_comments gs @ (if entry_kind e = Activity then [] else [e])"
    "group_activities (group_step gs e) = group_activities gs @ (if entry_kind e = Activity then [e] else [])"
    by blast+
qed

lemma groups_parts:
  "group_comments (foldl group_step gs es) = group_comments gs @ comments es"
  "group_activities (foldl group_step gs es) = group_activities gs @ filter (\<lambda>e. entry_kind e = Activity) es"
proof -
  have kind: "entry_kind e = Comment \<longleftrightarrow> entry_kind e \<noteq> Activity" for e :: timeline_entry
    by (cases "entry_kind e") simp_all
  show "group_comments (foldl group_step gs es) = group_comments gs @ comments es"
    by (induction es arbitrary: gs) (simp_all add: group_step_parts comments_def kind)
  show "group_activities (foldl group_step gs es) = group_activities gs @ filter (\<lambda>e. entry_kind e = Activity) es"
    by (induction es arbitrary: gs) (simp_all add: group_step_parts)
qed

abbreviation activities :: "timeline_entry list \<Rightarrow> timeline_entry list" where
  "activities es \<equiv> filter (\<lambda>e. entry_kind e = Activity) es"

lemma coalesce_parts:
  assumes "\<forall>e \<in> set es. coalesced_count e = None"
  shows "comments (coalesce gt es) = comments es"
    "sum_list (map drawn_count (activities (coalesce gt es))) = length (activities es)"
proof -
  have step: "comments (coalesce_step gt acc e) = comments acc @ comments [e] \<and>
    sum_list (map drawn_count (activities (coalesce_step gt acc e))) =
       sum_list (map drawn_count (activities acc)) + length (activities [e])"
    if none: "coalesced_count e = None" for acc and e
  proof (cases "entry_kind e = Activity \<and> acc \<noteq> [] \<and> coalesces gt (last acc) e")
    case False
    then have "coalesce_step gt acc e = acc @ [e]" by (simp only: coalesce_step_def if_False)
    then show ?thesis using none by (simp add: comments_def drawn_count_def)
  next
    case True
    then obtain ys p where acc: "acc = ys @ [p]" by (cases acc rule: rev_cases) simp_all
    have p: "entry_kind p = Activity" using True acc by (simp add: coalesces_def)
    have "coalesce_step gt acc e =
        ys @ [e\<lparr>coalesced_count := Some (case coalesced_count p of None \<Rightarrow> 2 | Some n \<Rightarrow> n + 1)\<rparr>]"
      using True unfolding acc coalesce_step_def last_snoc butlast_snoc by (simp only: simp_thms if_True)
    then show ?thesis using True p unfolding acc
      by (simp add: comments_def drawn_count_def split: option.split)
  qed
  have "comments (foldl (coalesce_step gt) acc es) = comments acc @ comments es \<and>
      sum_list (map drawn_count (activities (foldl (coalesce_step gt) acc es))) =
        sum_list (map drawn_count (activities acc)) + length (activities es)" for acc
    using assms
  proof (induction es arbitrary: acc)
    case (Cons e es)
    then show ?case using step [of e acc] by (simp add: comments_def)
  qed (simp add: comments_def)
  from this [of "[]"] show "comments (coalesce gt es) = comments es"
    "sum_list (map drawn_count (activities (coalesce gt es))) = length (activities es)"
    by (simp_all add: coalesce_def comments_def)
qed

end
