(* ===== verification/Timeline_Properties.thy ===== *)
theory Timeline_Properties
  imports Thread_Facts
begin

text \<open>
  The properties of the issue timeline: what a deletion and a resolve do to a thread, that the
  page draws every comment once, and that the order in which socket events and the answers to
  mutations arrive leaves no trace.
\<close>

section \<open>A concrete timeline\<close>

definition demo_comment :: "string \<Rightarrow> string option \<Rightarrow> string \<Rightarrow> comment" where
  "demo_comment i parent created =
     \<lparr>comment_id = i, comment_issue = ''i1'', author_type = ''member'', author_id = ''u1'',
      comment_content = ''hi'', comment_kind = ''comment'', comment_parent = parent, comment_reactions = None,
      comment_attachments = None, comment_created = created, comment_updated = created,
      comment_resolved_at = None, comment_resolved_type = None, comment_resolved_id = None,
      comment_task = None, comment_quick_action = None\<rparr>"

definition demo_entry :: "string \<Rightarrow> string option \<Rightarrow> string \<Rightarrow> timeline_entry" where
  "demo_entry i parent created = commentToTimelineEntry (demo_comment i parent created)"

definition demo_timeline :: "timeline_entry list" where
  "demo_timeline =
     [demo_entry ''a'' None ''1'', (demo_entry ''b'' (Some ''a'') ''2'')\<lparr>resolved_at := Some ''9''\<rparr>,
      demo_entry ''c'' (Some ''b'') ''3'', demo_entry ''d'' None ''4'',
      (demo_entry ''e'' None ''5'')\<lparr>entry_kind := Activity, action := Some ''x''\<rparr>]"

lemmas demo_timeline_defs = demo_timeline_def demo_entry_def demo_comment_def commentToTimelineEntry_def

lemma demo_timeline_ids: "ids_ok demo_timeline"
  by (simp add: ids_ok_def demo_timeline_defs)

section \<open>Deletion\<close>

text \<open>The entries whose parent is not in the array.\<close>

definition orphans :: "timeline_entry list \<Rightarrow> timeline_entry list" where
  "orphans es = filter (\<lambda>e. case truthy (parent_id e) of None \<Rightarrow> False | Some p \<Rightarrow> p \<notin> entry_id ` set es) es"

text \<open>C18. Deleting a comment removes exactly it and its replies, direct and indirect, whatever order and shape the array has, and the socket event removes exactly what the mutation removed; no entry loses its parent by it, and a failed request puts the array back.\<close>

theorem comment_deletion_cascades:
  "let keep = filter (\<lambda>e. (c, entry_id e) \<notin> (reply_edges es)\<^sup>*) es
   in on_comment_deleted i c i (Some es) = Some keep \<and>
      fst (delete_comment_mutate c (Some es)) = Some keep \<and>
      timeline_error (snd (delete_comment_mutate c (Some es))) (Some keep) = Some es \<and>
      set (orphans keep) \<subseteq> set (orphans es)"
proof -
  let ?keep = "filter (\<lambda>e. (c, entry_id e) \<notin> (reply_edges es)\<^sup>*) es"
  have ids: "entry_id e \<in> set (cascade es [c]) \<longleftrightarrow> (c, entry_id e) \<in> (reply_edges es)\<^sup>*" for e
    by (simp add: cascade_closure)
  have "e \<in> set (orphans es)" if e: "e \<in> set (orphans ?keep)" for e
  proof -
    obtain p where p: "truthy (parent_id e) = Some p" "p \<notin> entry_id ` set ?keep" "e \<in> set es"
      "(c, entry_id e) \<notin> (reply_edges es)\<^sup>*"
      using e by (auto simp: orphans_def split: option.splits)
    have "p \<notin> entry_id ` set es"
    proof
      assume "p \<in> entry_id ` set es"
      then have "(c, p) \<in> (reply_edges es)\<^sup>*" using p(2) by auto
      moreover have "(p, entry_id e) \<in> reply_edges es" unfolding reply_edges_def using p(1,3) by blast
      ultimately show False using p(4) by (meson rtrancl_into_rtrancl)
    qed
    then show ?thesis using p by (simp add: orphans_def)
  qed
  then have "set (orphans ?keep) \<subseteq> set (orphans es)" by blast
  then show ?thesis
    unfolding Let_def by (simp add: on_comment_deleted_def delete_comment_mutate_def timeline_error_def Let_def ids)
qed

section \<open>Resolving\<close>

lemma resolve_keeps:
  "entry_id (resolve_entry b now c ids e) = entry_id e"
  "parent_id (resolve_entry b now c ids e) = parent_id e"
  "entry_kind (resolve_entry b now c ids e) = entry_kind e"
  by (simp_all add: resolve_entry_def)

lemma resolve_edges: "thread_edges (map (resolve_entry b now c ids) es) = thread_edges es"
proof -
  have c: "comments (map (resolve_entry b now c ids) es) = map (resolve_entry b now c ids) (comments es)"
    by (simp add: comments_def filter_map comp_def resolve_keeps)
  have "reply_edges (map (resolve_entry b now c ids) xs) = reply_edges xs" for xs
    by (simp add: reply_edges_def resolve_keeps)
  then show ?thesis unfolding thread_edges_def c by (simp add: image_image resolve_keeps)
qed

text \<open>Resolving a comment leaves one resolution in its thread: the other resolutions of the thread are cleared, every other thread stays as it was, and the page shows the thread as resolved by exactly that comment, by its root if the root was resolved, also when several comments were resolved before and when the parents of a thread are malformed.\<close>

theorem resolving_leaves_one_resolution:
  assumes ids: "ids_ok es" and c: "c \<in> entry_id ` set (comments es)" and now: "now \<noteq> []"
  shows "\<exists>es'. fst (resolve_comment_mutate c True now (Some es)) = Some es' \<and>
    map entry_id es' = map entry_id es \<and>
    (\<forall>e \<in> set es'. same_thread es c (entry_id e) \<longrightarrow> (truthy (resolved_at e) \<noteq> None \<longleftrightarrow> entry_id e = c)) \<and>
    (\<forall>e \<in> set es. \<not> same_thread es c (entry_id e) \<longrightarrow> e \<in> set es') \<and>
    (\<forall>r \<in> set es'. is_root r \<and> same_thread es c (entry_id r) \<longrightarrow>
       (\<exists>replies. collectThreadReplies (entry_id r) (repliesByParent es') = Some replies \<and>
          deriveThreadResolution r replies = (if entry_id r = c then Root_resolved else Reply_resolved c)))"
proof -
  let ?f = "resolve_entry True now c (collectThreadCommentIds es c)"
  let ?es = "map ?f es"
  have thread: "set (collectThreadCommentIds es c) = {q. same_thread es c q}"
    by (rule collectThreadCommentIds_set [OF ids c])
  have run: "fst (resolve_comment_mutate c True now (Some es)) = Some ?es"
    by (simp add: resolve_comment_mutate_def)
  have same_ids: "map entry_id ?es = map entry_id es" by (simp add: resolve_keeps)
  have ids': "ids_ok ?es" using ids by (simp add: ids_ok_def comp_def resolve_keeps)
  have one: "truthy (resolved_at e) \<noteq> None \<longleftrightarrow> entry_id e = c"
    if e: "e \<in> set ?es" "same_thread es c (entry_id e)" for e
  proof -
    obtain x where x: "e = ?f x" using e(1) by auto
    then have "same_thread es c (entry_id x)" using e(2) by (simp add: resolve_keeps)
    then have m: "entry_id x \<in> set (collectThreadCommentIds es c)" by (simp add: thread)
    obtain n ns where "now = n # ns" using now by (cases now) simp_all
    then show ?thesis using x m by (auto simp: resolve_entry_def)
  qed
  have others: "e \<in> set ?es" if "e \<in> set es" "\<not> same_thread es c (entry_id e)" for e
  proof -
    have "entry_id e \<noteq> c" using that(2) unfolding same_thread_def by blast
    then have "?f e = e" using that(2) by (simp add: resolve_entry_def thread)
    then show ?thesis using that(1) by (metis image_eqI set_map)
  qed
  have shown: "\<exists>replies. collectThreadReplies (entry_id r) (repliesByParent ?es) = Some replies \<and>
      deriveThreadResolution r replies = (if entry_id r = c then Root_resolved else Reply_resolved c)"
    if r: "r \<in> set ?es" "is_root r" "same_thread es c (entry_id r)" for r
  proof -
    obtain replies where rs: "collectThreadReplies (entry_id r) (repliesByParent ?es) = Some replies" "distinct replies"
      "set replies = {e \<in> set (comments ?es). (entry_id r, entry_id e) \<in> (thread_edges es)\<^sup>+}"
      using collectThreadReplies_root [OF ids' r(1,2)] by (auto simp: resolve_edges)
    obtain x where x: "(x, c) \<in> (thread_edges es)\<^sup>*" "(x, entry_id r) \<in> (thread_edges es)\<^sup>*"
      using r(3) unfolding same_thread_def by (elim exE conjE)
    have "x = entry_id r" using root_no_parent [OF ids' r(1,2)] x(2) by (simp add: resolve_edges)
    then have down: "(entry_id r, c) \<in> (thread_edges es)\<^sup>*" using x(1) by simp
    have root: "truthy (resolved_at r) \<noteq> None \<longleftrightarrow> entry_id r = c" using one [OF r(1,3)] .
    show ?thesis
    proof (cases "entry_id r = c")
      case True
      then show ?thesis using rs(1) root by (simp add: deriveThreadResolution_def)
    next
      case False
      then have "(entry_id r, c) \<in> (thread_edges es)\<^sup>+" using down by (simp add: rtrancl_eq_or_trancl)
      moreover obtain d where d: "d \<in> set (comments es)" "entry_id d = c" using c by (rule imageE) simp
      have "?f d \<in> set (comments ?es)" "entry_id (?f d) = c" using d by (simp_all add: resolve_keeps)
      ultimately have mem: "?f d \<in> set replies" using rs(3) by simp
      have "truthy (resolved_at e) \<noteq> None \<longleftrightarrow> e = ?f d" if e: "e \<in> set replies" for e
      proof -
        have e': "e \<in> set ?es" "(entry_id r, entry_id e) \<in> (thread_edges es)\<^sup>*" using e rs(3) by auto
        then have "same_thread es c (entry_id e)" unfolding same_thread_def using down by blast
        then have "truthy (resolved_at e) \<noteq> None \<longleftrightarrow> entry_id e = c" by (rule one [OF e'(1)])
        moreover have "entry_id e = c \<longleftrightarrow> e = ?f d"
          using ids_ok_eq [OF ids' e'(1), of "?f d"] d by (auto simp: resolve_keeps)
        ultimately show ?thesis by simp
      qed
      then have "foldl choose_reply None replies = Some (?f d)" using choose_one [OF mem rs(2)] by blast
      then show ?thesis using rs(1) root False d(2) by (simp add: deriveThreadResolution_def resolve_keeps)
    qed
  qed
  show ?thesis using run same_ids one others shown by blast
qed

theorem resolving_leaves_one_resolution_witness:
  "\<exists>es'. fst (resolve_comment_mutate ''c'' True ''10'' (Some demo_timeline)) = Some es' \<and>
    map entry_id es' = map entry_id demo_timeline \<and>
    (\<forall>e \<in> set es'. same_thread demo_timeline ''c'' (entry_id e) \<longrightarrow>
       (truthy (resolved_at e) \<noteq> None \<longleftrightarrow> entry_id e = ''c'')) \<and>
    (\<forall>e \<in> set demo_timeline. \<not> same_thread demo_timeline ''c'' (entry_id e) \<longrightarrow> e \<in> set es') \<and>
    (\<forall>r \<in> set es'. is_root r \<and> same_thread demo_timeline ''c'' (entry_id r) \<longrightarrow>
       (\<exists>replies. collectThreadReplies (entry_id r) (repliesByParent es') = Some replies \<and>
          deriveThreadResolution r replies = (if entry_id r = ''c'' then Root_resolved else Reply_resolved ''c'')))"
proof (rule resolving_leaves_one_resolution [OF demo_timeline_ids])
  show "''c'' \<in> entry_id ` set (comments demo_timeline)" by (simp add: comments_def demo_timeline_defs)
qed simp

section \<open>Drawing\<close>

lemma group_none: "group_comments [] = []" "group_activities [] = []"
  by (simp_all add: group_comments_def group_activities_def)

text \<open>C20. The page draws every entry once: when the ids are distinct, every reply's parent is a loaded comment and the parents form no cycle, the collection of replies ends, each comment is either a root row or a reply of exactly one root, the root rows keep the order of the array, and the counts on the merged activity rows add up to the number of activities.\<close>

theorem every_entry_drawn_once:
  assumes "ids_ok es" "closed_comments es" "acyclic (thread_edges es)" "\<forall>e \<in> set es. coalesced_count e = None"
  shows "\<exists>threads. threadReplies es = Some threads \<and> map fst threads = rootCommentIds es \<and>
    mset (filter is_root es) + mset (concat (map snd threads)) = mset (comments es) \<and>
    group_comments (view_groups getTime es) = filter is_root es \<and>
    sum_list (map drawn_count (group_activities (view_groups getTime es))) = length (activities es)"
proof -
  have top: "\<forall>e \<in> set (topLevel es). coalesced_count e = None" using assms(4) by (simp add: topLevel_def)
  have "comments (topLevel es) = filter is_root es" "activities (topLevel es) = activities es"
    unfolding comments_def topLevel_def filter_filter by (rule filter_cong; auto simp: is_root_def)+
  then have "group_comments (view_groups getTime es) = filter is_root es"
    "sum_list (map drawn_count (group_activities (view_groups getTime es))) = length (activities es)"
    using coalesce_parts [OF top, of getTime] groups_parts [of "[]"]
    by (simp_all add: view_groups_def group_none)
  then show ?thesis using threads_partition [OF assms(1-3)] by blast
qed

lemma demo_edges: "reply_edges (comments demo_timeline) = {(''a'', ''b''), (''b'', ''c'')}"
  by (auto simp: reply_edges_def comments_def demo_timeline_defs)

theorem every_entry_drawn_once_witness:
  "\<exists>threads. threadReplies demo_timeline = Some threads \<and> map fst threads = rootCommentIds demo_timeline \<and>
    mset (filter is_root demo_timeline) + mset (concat (map snd threads)) = mset (comments demo_timeline) \<and>
    group_comments (view_groups (\<lambda>s. None) demo_timeline) = filter is_root demo_timeline \<and>
    sum_list (map drawn_count (group_activities (view_groups (\<lambda>s. None) demo_timeline))) = length (activities demo_timeline)"
proof (rule every_entry_drawn_once [OF demo_timeline_ids])
  have e: "thread_edges demo_timeline = {(''a'', ''b''), (''b'', ''c'')}"
    unfolding thread_edges_def demo_edges by (auto simp: comments_def demo_timeline_defs)
  then show "closed_comments demo_timeline" by (simp add: closed_comments_def demo_edges)
  have "(of_char (hd x) :: nat) < of_char (hd y)" if "(x, y) \<in> (thread_edges demo_timeline)\<^sup>+" for x y
    using that by (induction rule: trancl_induct) (auto simp: e)
  then show "acyclic (thread_edges demo_timeline)" unfolding acyclic_def by blast
qed (simp add: demo_timeline_defs)

section \<open>Arrivals\<close>

text \<open>What adds an entry: an event of the socket about a comment or an activity, or the answer to
  the client's own request.\<close>

datatype arrival = Socket_comment comment | Posted comment | Socket_activity timeline_entry

fun arrive :: "string \<Rightarrow> timeline \<Rightarrow> arrival \<Rightarrow> timeline" where
  "arrive issueId old (Socket_comment c) = on_comment_created issueId c old"
| "arrive issueId old (Posted c) = create_comment_success c old"
| "arrive issueId old (Socket_activity e) = on_activity_created issueId issueId (Some e) old"

fun arriving :: "arrival \<Rightarrow> timeline_entry" where
  "arriving (Socket_comment c) = commentToTimelineEntry c"
| "arriving (Posted c) = created_entry c"
| "arriving (Socket_activity e) = e"

fun arrival_ok :: "string \<Rightarrow> arrival \<Rightarrow> bool" where
  "arrival_ok issueId (Socket_comment c) \<longleftrightarrow> comment_issue c = issueId"
| "arrival_ok issueId (Posted c) \<longleftrightarrow> True"
| "arrival_ok issueId (Socket_activity e) \<longleftrightarrow> entry_id e \<noteq> []"

lemma arrive_adds: "arrival_ok issueId a \<Longrightarrow> arrive issueId old a = add_entry (arriving a) old"
  by (cases a) (simp_all add: on_comment_created_def create_comment_success_def on_activity_created_def)

definition text_order :: "string \<Rightarrow> string \<Rightarrow> int" where
  "text_order s t = (if s < t then -1 else if t < s then 1 else 0)"

definition entry_order :: "timeline_entry \<Rightarrow> timeline_entry \<Rightarrow> int" where
  "entry_order a b = or_number (text_order (entry_created a) (entry_created b)) (text_order (entry_id a) (entry_id b))"

lemma text_order_consistent: "consistent_on UNIV text_order"
  unfolding consistent_on_def text_order_def by auto

lemma entry_order_consistent: "consistent_on S entry_order"
  unfolding entry_order_def by (intro consistent_or consistent_pull [OF text_order_consistent])

lemma entry_order_zero: "entry_order a b = 0 \<Longrightarrow> entry_id a = entry_id b"
  by (auto simp: entry_order_def or_number_def text_order_def split: if_splits)

lemma timeline_order_eq: "entry_id a \<noteq> entry_id b \<Longrightarrow> timeline_order a b = entry_order a b"
  unfolding timeline_order_def entry_order_def or_number_def text_order_def by auto

definition timeline_ok :: "timeline_entry list \<Rightarrow> bool" where
  "timeline_ok es \<longleftrightarrow> ids_ok es \<and> ordered entry_order es"

lemma add_entry_ok:
  assumes ok: "timeline_ok es" and same: "\<forall>x \<in> set es. entry_id x = entry_id e \<longrightarrow> x = e"
  shows "\<exists>es'. add_entry e (Some es) = Some es' \<and> timeline_ok es' \<and> set es' = insert e (set es)"
proof (cases "list_ex (\<lambda>x. entry_id x = entry_id e) es")
  case True
  then have "e \<in> set es" using same by (auto simp: list_ex_iff)
  then show ?thesis using ok True by (auto simp: add_entry_def)
next
  case False
  have ids: "distinct (map entry_id (es @ [e]))" using ok False by (auto simp: timeline_ok_def ids_ok_def list_ex_iff)
  have "sortTimelineEntriesAsc (es @ [e]) = array_sort entry_order (es @ [e])"
    unfolding sortTimelineEntriesAsc_def
  proof (rule array_sort_agree)
    show "distinct (es @ [e])" using ids by (simp only: distinct_map)
    show "timeline_order a b = entry_order a b" if "a \<in> set (es @ [e])" "b \<in> set (es @ [e])" "a \<noteq> b" for a b
      using ids that unfolding distinct_map by (intro timeline_order_eq) (blast dest: inj_onD)
  qed
  moreover have "ordered entry_order (array_sort entry_order (es @ [e]))"
    by (rule array_sort_ordered [OF entry_order_consistent subset_UNIV])
  moreover have "mset (map entry_id (array_sort entry_order (es @ [e]))) = mset (map entry_id (es @ [e]))"
    by (simp only: mset_map array_sort_mset)
  then have "ids_ok (array_sort entry_order (es @ [e]))"
    unfolding ids_ok_def using mset_eq_imp_distinct_iff ids by blast
  ultimately show ?thesis using False by (simp add: add_entry_def timeline_ok_def)
qed

lemma arrivals_ok:
  "timeline_ok es \<Longrightarrow> list_all (arrival_ok issueId) xs \<Longrightarrow> inj_on entry_id (set es \<union> arriving ` set xs) \<Longrightarrow>
     \<exists>es'. foldl (arrive issueId) (Some es) xs = Some es' \<and> timeline_ok es' \<and> set es' = set es \<union> arriving ` set xs"
proof (induction xs arbitrary: es)
  case (Cons x xs)
  have x: "\<forall>y \<in> set es. entry_id y = entry_id (arriving x) \<longrightarrow> y = arriving x"
    using inj_onD [OF Cons.prems(3), of _ "arriving x"] by simp
  obtain es1 where es1: "add_entry (arriving x) (Some es) = Some es1" "timeline_ok es1"
    "set es1 = insert (arriving x) (set es)" using add_entry_ok [OF Cons.prems(1) x] by blast
  have "set es1 \<union> arriving ` set xs = set es \<union> arriving ` set (x # xs)" using es1(3) by auto
  then show ?case using Cons.IH [OF es1(2)] Cons.prems es1(1) by (simp add: arrive_adds)
qed simp

text \<open>C19. The order of arrival leaves no trace: from one loaded timeline, any two orders of the same socket events and own posts, with any repetitions, lead to the same array, sorted and without repeated ids, that holds exactly the loaded and the arrived entries; so a post seen first by its own answer and then by the socket, or the other way round, appears once and in place.\<close>

theorem arrivals_converge:
  assumes "timeline_ok es" "list_all (arrival_ok issueId) xs" "set ys = set xs"
    "inj_on entry_id (set es \<union> arriving ` set xs)"
  shows "\<exists>es'. foldl (arrive issueId) (Some es) xs = Some es' \<and> foldl (arrive issueId) (Some es) ys = Some es' \<and>
    timeline_ok es' \<and> set es' = set es \<union> arriving ` set xs"
proof -
  obtain a where a: "foldl (arrive issueId) (Some es) xs = Some a" "timeline_ok a" "set a = set es \<union> arriving ` set xs"
    using arrivals_ok [OF assms(1,2,4)] by blast
  have "list_all (arrival_ok issueId) ys" using assms(2,3) by (simp add: list_all_iff)
  then obtain b where b: "foldl (arrive issueId) (Some es) ys = Some b" "timeline_ok b" "set b = set es \<union> arriving ` set ys"
    using arrivals_ok [OF assms(1), of issueId ys] assms(3,4) by auto
  have "a = b"
  proof (rule ordered_unique [OF entry_order_consistent])
    show "x = y" if "x \<in> set a" "y \<in> set a" "entry_order x y = 0" for x y
      using entry_order_zero [OF that(3)] that(1,2) a(2) by (intro ids_ok_eq [of a]) (simp_all add: timeline_ok_def)
    show "set a \<subseteq> set a" "ordered entry_order a" "ordered entry_order b"
      using a(2) b(2) by (simp_all add: timeline_ok_def)
    have "distinct a" "distinct b" using a(2) b(2) by (simp_all add: timeline_ok_def ids_ok_def distinct_map)
    then show "mset a = mset b" using a(3) b(3) assms(3) set_eq_iff_mset_eq_distinct by metis
  qed
  then show ?thesis using a b by blast
qed

theorem arrivals_converge_witness:
  "\<exists>es'. foldl (arrive ''i1'') (Some demo_timeline)
      [Posted (demo_comment ''g'' None ''7''), Socket_comment (demo_comment ''f'' None ''35''), Socket_comment (demo_comment ''g'' None ''7'')] = Some es' \<and>
    foldl (arrive ''i1'') (Some demo_timeline)
      [Socket_comment (demo_comment ''g'' None ''7''), Posted (demo_comment ''g'' None ''7''), Socket_comment (demo_comment ''f'' None ''35'')] = Some es' \<and>
    timeline_ok es' \<and>
    set es' = set demo_timeline \<union> arriving ` set [Posted (demo_comment ''g'' None ''7''), Socket_comment (demo_comment ''f'' None ''35''), Socket_comment (demo_comment ''g'' None ''7'')]"
proof (rule arrivals_converge)
  have "ordered entry_order demo_timeline"
    by (simp add: ordered_def demo_timeline_defs entry_order_def text_order_def or_number_def less_char_def)
  then show "timeline_ok demo_timeline" using demo_timeline_ids by (simp add: timeline_ok_def)
qed (auto simp: demo_timeline_defs created_entry_def inj_on_def)

end
