(* ===== verification/Inbox.thy ===== *)
theory Inbox
  imports Issue_Coordinator JS_Sort
begin

text \<open>
  The inbox (\<open>packages/core/inbox\<close>): the two cached lists (the main one and the archive, part of
  the query cache), the rows that are drawn from them, one per issue, the mutations with their
  optimistic writes, and the page's selection (\<open>views/inbox/components/inbox-page.tsx\<close>).
  \<open>new Date(s).getTime()\<close> is a parameter, \<open>None\<close> for an invalid date.
\<close>

section \<open>Rows\<close>

definition inbox_key :: "inbox_item \<Rightarrow> string" where
  "inbox_key it = (case inbox_issue it of None \<Rightarrow> inbox_item_id it | Some i \<Rightarrow> i)"

definition newest_first :: "(string \<Rightarrow> int option) \<Rightarrow> inbox_item \<Rightarrow> inbox_item \<Rightarrow> int" where
  "newest_first getTime a b = time_diff (getTime (inbox_created b)) (getTime (inbox_created a))"

definition comment_of :: "inbox_item \<Rightarrow> string option" where
  "comment_of it = (case inbox_details it of None \<Rightarrow> None | Some d \<Rightarrow> obj_get d ''comment_id'')"

text \<open>The groups of a map, in the order their first item came.\<close>

definition add_to_group :: "inbox_item list obj \<Rightarrow> inbox_item \<Rightarrow> inbox_item list obj" where
  "add_to_group groups it =
     obj_set groups (inbox_key it)
       ((case obj_get groups (inbox_key it) of None \<Rightarrow> [] | Some g \<Rightarrow> g) @ [it])"

text \<open>A group's row: its newest item, with the comment of an older one when it has none.\<close>

definition merge_row :: "(string \<Rightarrow> int option) \<Rightarrow> inbox_item list \<Rightarrow> inbox_item list" where
  "merge_row getTime grp =
     (case array_sort (newest_first getTime) grp of
        [] \<Rightarrow> []
      | newest # older \<Rightarrow>
          (let commentId = (case comment_of newest of
                 Some c \<Rightarrow> Some c
               | None \<Rightarrow> (case find (\<lambda>it. truthy (comment_of it) \<noteq> None) (newest # older) of
                            None \<Rightarrow> None | Some it \<Rightarrow> comment_of it))
           in (case truthy commentId of
                 None \<Rightarrow> [newest]
               | Some c \<Rightarrow>
                   if comment_of newest \<noteq> Some c
                   then [newest\<lparr>inbox_details := Some (obj_set
                           (case inbox_details newest of None \<Rightarrow> [] | Some d \<Rightarrow> d) ''comment_id'' c)\<rparr>]
                   else [newest])))"

definition groupInboxItemsByIssue :: "(string \<Rightarrow> int option) \<Rightarrow> inbox_item list \<Rightarrow> inbox_item list" where
  "groupInboxItemsByIssue getTime items =
     array_sort (newest_first getTime)
       (concat (map (\<lambda>(k, grp). merge_row getTime grp) (foldl add_to_group [] items)))"

definition deduplicateInboxItems :: "(string \<Rightarrow> int option) \<Rightarrow> inbox_item list \<Rightarrow> inbox_item list" where
  "deduplicateInboxItems getTime items = groupInboxItemsByIssue getTime (filter (\<lambda>it. \<not> inbox_archived it) items)"

definition deduplicateArchivedInboxItems :: "(string \<Rightarrow> int option) \<Rightarrow> inbox_item list \<Rightarrow> inbox_item list" where
  "deduplicateArchivedInboxItems getTime items = groupInboxItemsByIssue getTime (filter inbox_archived items)"

definition inboxUnreadCount :: "(string \<Rightarrow> int option) \<Rightarrow> inbox_item list option \<Rightarrow> nat" where
  "inboxUnreadCount getTime cached =
     (case cached of None \<Rightarrow> 0
      | Some items \<Rightarrow> length (filter (\<lambda>it. \<not> inbox_read it) (deduplicateInboxItems getTime items)))"

text \<open>Unread counts of other workspaces.\<close>

definition hasOtherWorkspaceUnread :: "(string \<times> int) list \<Rightarrow> string option \<Rightarrow> bool" where
  "hasOtherWorkspaceUnread summary currentWsId \<longleftrightarrow> list_ex (\<lambda>(w, n). Some w \<noteq> currentWsId \<and> n > 0) summary"

definition unreadWorkspaceIds :: "(string \<times> int) list \<Rightarrow> string list" where
  "unreadWorkspaceIds summary = remdups (map fst (filter (\<lambda>(w, n). n > 0) summary))"

section \<open>Mutations\<close>

record inbox_context =
  ctx_main :: "inbox_item list option"
  ctx_archive :: "inbox_item list option"

definition set_read :: "bool \<Rightarrow> string \<Rightarrow> inbox_item list option \<Rightarrow> inbox_item list option" where
  "set_read b i = map_option (map (\<lambda>it. if inbox_item_id it = i then it\<lparr>inbox_read := b\<rparr> else it))"

definition mark_read_mutate :: "string \<Rightarrow> query_cache \<Rightarrow> query_cache \<times> inbox_context" where
  "mark_read_mutate i qc =
     (qc\<lparr>qc_inbox := set_read True i (qc_inbox qc), qc_archived := set_read True i (qc_archived qc)\<rparr>,
      \<lparr>ctx_main = qc_inbox qc, ctx_archive = qc_archived qc\<rparr>)"

definition mark_unread_mutate :: "string \<Rightarrow> query_cache \<Rightarrow> query_cache \<times> inbox_context" where
  "mark_unread_mutate i qc =
     (qc\<lparr>qc_inbox := set_read False i (qc_inbox qc), qc_archived := set_read False i (qc_archived qc)\<rparr>,
      \<lparr>ctx_main = qc_inbox qc, ctx_archive = qc_archived qc\<rparr>)"

text \<open>The issue of the item that is archived or restored, when it is cached and has one.\<close>

definition target_issue :: "string \<Rightarrow> inbox_item list option \<Rightarrow> string option" where
  "target_issue i prev =
     (case prev of None \<Rightarrow> None
      | Some items \<Rightarrow> (case find (\<lambda>it. inbox_item_id it = i) items of None \<Rightarrow> None | Some it \<Rightarrow> inbox_issue it))"

definition set_archived :: "bool \<Rightarrow> string \<Rightarrow> inbox_item list option \<Rightarrow> inbox_item list option" where
  "set_archived b i prev =
     (let issueId = target_issue i prev
      in map_option (map (\<lambda>it.
           if inbox_item_id it = i \<or> (truthy issueId \<noteq> None \<and> inbox_issue it = issueId)
           then it\<lparr>inbox_archived := b\<rparr> else it)) prev)"

definition archive_mutate :: "string \<Rightarrow> query_cache \<Rightarrow> query_cache \<times> inbox_context" where
  "archive_mutate i qc =
     (qc\<lparr>qc_inbox := set_archived True i (qc_inbox qc)\<rparr>, \<lparr>ctx_main = qc_inbox qc, ctx_archive = None\<rparr>)"

definition unarchive_mutate :: "string \<Rightarrow> query_cache \<Rightarrow> query_cache \<times> inbox_context" where
  "unarchive_mutate i qc =
     (qc\<lparr>qc_archived := set_archived False i (qc_archived qc)\<rparr>, \<lparr>ctx_main = None, ctx_archive = qc_archived qc\<rparr>)"

definition mark_all_read_mutate :: "query_cache \<Rightarrow> query_cache \<times> inbox_context" where
  "mark_all_read_mutate qc =
     (qc\<lparr>qc_inbox := map_option (map (\<lambda>it. if \<not> inbox_archived it then it\<lparr>inbox_read := True\<rparr> else it)) (qc_inbox qc)\<rparr>,
      \<lparr>ctx_main = qc_inbox qc, ctx_archive = None\<rparr>)"

definition inbox_error :: "inbox_context \<Rightarrow> query_cache \<Rightarrow> query_cache" where
  "inbox_error ctx qc =
     qc\<lparr>qc_inbox := (case ctx_main ctx of None \<Rightarrow> qc_inbox qc | Some items \<Rightarrow> Some items),
        qc_archived := (case ctx_archive ctx of None \<Rightarrow> qc_archived qc | Some items \<Rightarrow> Some items)\<rparr>"

definition onInboxIssueDeleted :: "string \<Rightarrow> query_cache \<Rightarrow> query_cache" where
  "onInboxIssueDeleted i qc =
     qc\<lparr>qc_inbox := map_option (filter (\<lambda>it. inbox_issue it \<noteq> Some i)) (qc_inbox qc),
        qc_archived := map_option (filter (\<lambda>it. inbox_issue it \<noteq> Some i)) (qc_archived qc)\<rparr>"

section \<open>The page's selection\<close>

definition selected_row :: "inbox_item list \<Rightarrow> string \<Rightarrow> inbox_item option" where
  "selected_row rows selectedKey = find (\<lambda>it. inbox_key it = selectedKey) rows"

text \<open>The key selected after the row \<open>i\<close> leaves the list: the next, else the previous, else none.\<close>

definition advanceSelectionPast :: "string \<Rightarrow> inbox_item list \<Rightarrow> string \<Rightarrow> string" where
  "advanceSelectionPast i rows selectedKey =
     (case find_index (\<lambda>it. inbox_item_id it = i) rows of
        None \<Rightarrow> selectedKey
      | Some idx \<Rightarrow>
          if inbox_key (rows ! idx) \<noteq> selectedKey then selectedKey
          else (case at_index rows (int idx + 1) of
                  Some it \<Rightarrow> inbox_key it
                | None \<Rightarrow> (case at_index rows (int idx - 1) of
                             Some it \<Rightarrow> inbox_key it
                           | None \<Rightarrow> [])))"

text \<open>
  The effect that reads the selected row: it runs again whenever the row's id or its flag
  changed, and asks the server unless the user parked this row as unread.
\<close>

record inbox_page =
  page_cache :: query_cache
  page_key :: string
  manual_unread :: "string option"
  seen_deps :: "(string \<times> bool) option"
  requests :: "(string \<times> inbox_context) list"

definition page_selected :: "(string \<Rightarrow> int option) \<Rightarrow> inbox_page \<Rightarrow> inbox_item option" where
  "page_selected getTime s =
     (case qc_inbox (page_cache s) of None \<Rightarrow> None
      | Some items \<Rightarrow> selected_row (deduplicateInboxItems getTime items) (page_key s))"

definition auto_read :: "(string \<Rightarrow> int option) \<Rightarrow> inbox_page \<Rightarrow> inbox_page" where
  "auto_read getTime s =
     (let deps = map_option (\<lambda>it. (inbox_item_id it, inbox_read it)) (page_selected getTime s)
      in if deps = seen_deps s then s
         else (case deps of
                 None \<Rightarrow> s\<lparr>seen_deps := deps\<rparr>
               | Some (i, isRead) \<Rightarrow>
                   if i = [] \<or> isRead \<or> manual_unread s = Some i then s\<lparr>seen_deps := deps\<rparr>
                   else (let (qc, ctx) = mark_read_mutate i (page_cache s)
                         in s\<lparr>seen_deps := deps, page_cache := qc, requests := requests s @ [(i, ctx)]\<rparr>)))"

text \<open>The answer to the latest request: accepted, or refused with its rollback.\<close>

definition answer_read :: "bool \<Rightarrow> inbox_page \<Rightarrow> inbox_page" where
  "answer_read accepted s =
     (if requests s = [] \<or> accepted then s
      else s\<lparr>page_cache := inbox_error (snd (last (requests s))) (page_cache s)\<rparr>)"

definition handleMarkUnread :: "(string \<Rightarrow> int option) \<Rightarrow> string \<Rightarrow> inbox_page \<Rightarrow> inbox_page" where
  "handleMarkUnread getTime i s =
     (let guard = (case page_selected getTime s of
                     Some it \<Rightarrow> if inbox_item_id it = i then Some i else manual_unread s
                   | None \<Rightarrow> manual_unread s)
      in s\<lparr>manual_unread := guard, page_cache := fst (mark_unread_mutate i (page_cache s))\<rparr>)"

definition release_guard :: "(string \<Rightarrow> int option) \<Rightarrow> inbox_page \<Rightarrow> inbox_page" where
  "release_guard getTime s =
     (case manual_unread s of None \<Rightarrow> s
      | Some g \<Rightarrow> if map_option inbox_item_id (page_selected getTime s) = Some g \<or> g = [] then s
                  else s\<lparr>manual_unread := None\<rparr>)"

definition handleMarkRead :: "string \<Rightarrow> inbox_page \<Rightarrow> inbox_page" where
  "handleMarkRead i s =
     s\<lparr>manual_unread := (if manual_unread s = Some i then None else manual_unread s),
       page_cache := fst (mark_read_mutate i (page_cache s))\<rparr>"

definition handleArchive :: "(string \<Rightarrow> int option) \<Rightarrow> string \<Rightarrow> inbox_page \<Rightarrow> inbox_page" where
  "handleArchive getTime i s =
     (let rows = (case qc_inbox (page_cache s) of None \<Rightarrow> [] | Some items \<Rightarrow> deduplicateInboxItems getTime items)
      in s\<lparr>page_key := advanceSelectionPast i rows (page_key s),
           page_cache := fst (archive_mutate i (page_cache s))\<rparr>)"

end
