(* ===== verification/Inbox_Properties.thy ===== *)
theory Inbox_Properties
  imports Inbox
begin

text \<open>
  The properties of the inbox: its rows are the newest items of each issue, what archiving and
  reading do to the rows, the badge and the selection, and that a refused automatic read is
  sent again for ever.
\<close>

text \<open>
  Lemmas about the inbox rows: the groups of a list are its items by key, each has one row made
  from its newest item, and the rows of a list without some groups are the other rows.
\<close>

section \<open>Groups\<close>

definition first_keys :: "inbox_item list \<Rightarrow> string list" where
  "first_keys items = foldl (\<lambda>ks it. if inbox_key it \<in> set ks then ks else ks @ [inbox_key it]) [] items"

abbreviation with_key :: "string \<Rightarrow> inbox_item list \<Rightarrow> inbox_item list" where
  "with_key k items \<equiv> filter (\<lambda>it. inbox_key it = k) items"

lemma first_keys_snoc:
  "first_keys (xs @ [x]) =
     (if inbox_key x \<in> set (first_keys xs) then first_keys xs else first_keys xs @ [inbox_key x])"
  by (simp add: first_keys_def)

lemma first_keys_ok: "distinct (first_keys items) \<and> set (first_keys items) = inbox_key ` set items"
proof (induction items rule: rev_induct)
  case Nil
  show ?case by (simp add: first_keys_def)
next
  case (snoc x xs)
  then show ?case by (auto simp: first_keys_snoc)
qed

lemma first_keys_filter:
  "first_keys (filter (\<lambda>it. Q (inbox_key it)) items) = filter Q (first_keys items)"
proof (induction items rule: rev_induct)
  case (snoc x xs)
  then show ?case using first_keys_ok [of xs] first_keys_ok [of "filter (\<lambda>it. Q (inbox_key it)) xs"]
    by (auto simp: first_keys_snoc)
qed (simp add: first_keys_def)

lemma update_map:
  assumes "distinct ks"
  shows "obj_set (map (\<lambda>k. (k, f k)) ks) k v =
    (if k \<in> set ks then map (\<lambda>j. (j, if j = k then v else f j)) ks
     else map (\<lambda>k. (k, f k)) ks @ [(k, v)])"
  using assms
proof (induction ks)
  case (Cons j ks)
  show ?case
  proof (cases "j = k")
    case True
    then have "map (\<lambda>j. (j, if j = k then v else f j)) ks = map (\<lambda>k. (k, f k)) ks" using Cons.prems by auto
    then show ?thesis using True by simp
  qed (use Cons in simp)
qed simp

lemma groups_eq:
  "foldl add_to_group [] items = map (\<lambda>k. (k, with_key k items)) (first_keys items)"
proof (induction items rule: rev_induct)
  case Nil
  then show ?case by (simp add: first_keys_def)
next
  case (snoc x xs)
  let ?ks = "first_keys xs" and ?k = "inbox_key x"
  have ks: "distinct ?ks" "set ?ks = inbox_key ` set xs" using first_keys_ok by blast+
  have get: "obj_get (map (\<lambda>k. (k, with_key k xs)) ?ks) ?k = (if ?k \<in> set ?ks then Some (with_key ?k xs) else None)"
    by (simp add: map_of_map_restrict restrict_map_def comp_def)
  have none: "with_key ?k xs = []" if new: "?k \<notin> set ?ks"
  proof -
    have "inbox_key it \<noteq> ?k" if "it \<in> set xs" for it
    proof
      assume "inbox_key it = ?k"
      then have "?k \<in> inbox_key ` set xs" using that by (metis image_eqI)
      then show False using new ks(2) by simp
    qed
    then show ?thesis by (simp add: filter_empty_conv)
  qed
  have "foldl add_to_group [] (xs @ [x]) = add_to_group (map (\<lambda>k. (k, with_key k xs)) ?ks) x"
    by (simp add: snoc)
  also have "\<dots> = obj_set (map (\<lambda>k. (k, with_key k xs)) ?ks) ?k (with_key ?k xs @ [x])"
    using none by (simp add: add_to_group_def get)
  also have "\<dots> = map (\<lambda>k. (k, with_key k (xs @ [x]))) (first_keys (xs @ [x]))"
  proof (cases "?k \<in> set ?ks")
    case True
    then show ?thesis using ks(1) by (subst update_map) (auto simp: first_keys_snoc)
  next
    case False
    then have "with_key k (xs @ [x]) = with_key k xs" if "k \<in> set ?ks" for k
      using that by (cases "inbox_key x = k") simp_all
    then have "map (\<lambda>k. (k, with_key k (xs @ [x]))) ?ks = map (\<lambda>k. (k, with_key k xs)) ?ks" by simp
    moreover have "with_key ?k (xs @ [x]) = with_key ?k xs @ [x]" by simp
    ultimately show ?thesis using False ks(1) by (subst update_map) (simp_all only: first_keys_snoc if_False map_append list.map simp_thms)
  qed
  finally show ?case .
qed

section \<open>Rows\<close>

definition dates_ok :: "(string \<Rightarrow> int option) \<Rightarrow> inbox_item set \<Rightarrow> bool" where
  "dates_ok getTime S \<longleftrightarrow> (\<forall>it \<in> S. getTime (inbox_created it) \<noteq> None)"

lemma newest_consistent: "dates_ok getTime S \<Longrightarrow> consistent_on S (newest_first getTime)"
  unfolding newest_first_def dates_ok_def by (rule consistent_time(2))

text \<open>A row is an item of its group but for the details.\<close>

definition same_but_details :: "inbox_item \<Rightarrow> inbox_item \<Rightarrow> bool" where
  "same_but_details r it \<longleftrightarrow> r = it\<lparr>inbox_details := inbox_details r\<rparr>"

lemma same_but_details_fields:
  assumes "same_but_details r it"
  shows "inbox_item_id r = inbox_item_id it" "inbox_issue r = inbox_issue it" "inbox_read r = inbox_read it"
    "inbox_archived r = inbox_archived it" "inbox_created r = inbox_created it" "inbox_key r = inbox_key it"
proof -
  note r = assms [unfolded same_but_details_def]
  show id: "inbox_item_id r = inbox_item_id it" by (subst r) simp
  show issue: "inbox_issue r = inbox_issue it" by (subst r) simp
  show "inbox_read r = inbox_read it" by (subst r) simp
  show "inbox_archived r = inbox_archived it" by (subst r) simp
  show "inbox_created r = inbox_created it" by (subst r) simp
  show "inbox_key r = inbox_key it" unfolding inbox_key_def id issue ..
qed

lemma merge_row_one:
  assumes "grp \<noteq> []" "dates_ok getTime (set grp)"
  shows "\<exists>r it. merge_row getTime grp = [r] \<and> it \<in> set grp \<and> same_but_details r it \<and>
    (\<forall>x \<in> set grp. newest_first getTime it x \<le> 0)"
proof -
  let ?s = "array_sort (newest_first getTime) grp"
  have "?s \<noteq> []" using assms(1) array_sort_length [of "newest_first getTime" grp] by (metis length_0_conv)
  then obtain it older where s: "?s = it # older" by (cases ?s) simp_all
  have "set ?s = set grp" by simp
  then have grp: "set grp = insert it (set older)" using s by simp
  have "ordered (newest_first getTime) ?s" using array_sort_ordered [OF newest_consistent [OF assms(2)]] by simp
  moreover have "newest_first getTime it it \<le> 0" using assms(2) grp
    by (auto simp: newest_first_def time_diff_def dates_ok_def)
  ultimately have "\<forall>x \<in> set grp. newest_first getTime it x \<le> 0" using s grp by (simp add: ordered_def)
  moreover have "\<exists>r. merge_row getTime grp = [r] \<and> same_but_details r it"
    unfolding merge_row_def s
    by (simp add: Let_def same_but_details_def split: option.split)
  ultimately show ?thesis using grp by blast
qed

text \<open>Two dates are all the sort of the rows looks at.\<close>

lemma newest_first_cong:
  "inbox_created a = inbox_created a' \<Longrightarrow> inbox_created b = inbox_created b' \<Longrightarrow>
   newest_first getTime a b = newest_first getTime a' b'"
  by (simp add: newest_first_def)

definition row_list :: "(string \<Rightarrow> int option) \<Rightarrow> inbox_item list \<Rightarrow> inbox_item list" where
  "row_list getTime items = concat (map (\<lambda>k. merge_row getTime (with_key k items)) (first_keys items))"

lemma group_rows: "groupInboxItemsByIssue getTime items = array_sort (newest_first getTime) (row_list getTime items)"
  unfolding groupInboxItemsByIssue_def row_list_def groups_eq by (simp add: comp_def)

lemma row_list_of:
  assumes ok: "dates_ok getTime (set items)"
  shows "map inbox_key (row_list getTime items) = first_keys items"
    "r \<in> set (row_list getTime items) \<Longrightarrow>
       \<exists>it \<in> set items. same_but_details r it \<and>
         (\<forall>x \<in> set items. inbox_key x = inbox_key r \<longrightarrow> newest_first getTime it x \<le> 0)"
proof -
  have row: "\<exists>r it. merge_row getTime (with_key k items) = [r] \<and> it \<in> set (with_key k items) \<and> same_but_details r it \<and>
    (\<forall>x \<in> set (with_key k items). newest_first getTime it x \<le> 0)" if "k \<in> set (first_keys items)" for k
  proof (rule merge_row_one)
    show "with_key k items \<noteq> []" using that first_keys_ok [of items] by (auto simp: filter_empty_conv)
    show "dates_ok getTime (set (with_key k items))" using ok by (simp add: dates_ok_def)
  qed
  have "map inbox_key (merge_row getTime (with_key k items)) = [k]" if "k \<in> set (first_keys items)" for k
    using row [OF that] same_but_details_fields(6) by fastforce
  then have "map inbox_key (concat (map (\<lambda>k. merge_row getTime (with_key k items)) ks)) = ks"
    if "set ks \<subseteq> set (first_keys items)" for ks
    using that by (induction ks) simp_all
  then show "map inbox_key (row_list getTime items) = first_keys items" by (simp add: row_list_def)
  assume "r \<in> set (row_list getTime items)"
  then obtain k where k: "k \<in> set (first_keys items)" "r \<in> set (merge_row getTime (with_key k items))"
    by (auto simp: row_list_def)
  obtain r' it where m: "merge_row getTime (with_key k items) = [r']" "it \<in> set (with_key k items)"
    "same_but_details r' it" "\<forall>x \<in> set (with_key k items). newest_first getTime it x \<le> 0"
    using row [OF k(1)] by blast
  have "r = r'" using k(2) m(1) by simp
  moreover have "inbox_key r' = k" using same_but_details_fields(6) [OF m(3)] m(2) by simp
  ultimately show "\<exists>it \<in> set items. same_but_details r it \<and>
         (\<forall>x \<in> set items. inbox_key x = inbox_key r \<longrightarrow> newest_first getTime it x \<le> 0)"
    using m by (intro bexI [of _ it]) auto
qed

lemma rows_dates:
  assumes ok: "dates_ok getTime (set items)"
  shows "dates_ok getTime (set (row_list getTime items))"
proof -
  have "getTime (inbox_created r) \<noteq> None" if r: "r \<in> set (row_list getTime items)" for r
  proof -
    obtain it where "it \<in> set items" "same_but_details r it" using row_list_of(2) [OF ok r] by blast
    then show ?thesis using ok same_but_details_fields(5) by (simp add: dates_ok_def)
  qed
  then show ?thesis by (simp add: dates_ok_def)
qed

section \<open>Leaving groups out, and reading\<close>

lemma rows_filter:
  assumes ok: "dates_ok getTime (set items)"
  shows "groupInboxItemsByIssue getTime (filter (\<lambda>it. Q (inbox_key it)) items) =
    filter (\<lambda>r. Q (inbox_key r)) (groupInboxItemsByIssue getTime items)"
proof -
  let ?in = "filter (\<lambda>it. Q (inbox_key it)) items"
  have group: "with_key k ?in = with_key k items" if "Q k" for k
    unfolding filter_filter using that by (intro filter_cong) auto
  have keys: "inbox_key r = k" if "k \<in> set (first_keys items)" "r \<in> set (merge_row getTime (with_key k items))" for k r
  proof -
    have "with_key k items \<noteq> []" using that(1) first_keys_ok [of items] by (auto simp: filter_empty_conv)
    moreover have "dates_ok getTime (set (with_key k items))" using ok by (simp add: dates_ok_def)
    ultimately obtain r' it where "merge_row getTime (with_key k items) = [r']" "it \<in> set (with_key k items)"
      "same_but_details r' it" using merge_row_one by blast
    then show ?thesis using that(2) same_but_details_fields(6) [of r' it] by simp
  qed
  have "concat (map (\<lambda>k. merge_row getTime (with_key k ?in)) (filter Q ks)) =
      filter (\<lambda>r. Q (inbox_key r)) (concat (map (\<lambda>k. merge_row getTime (with_key k items)) ks))"
    if "set ks \<subseteq> set (first_keys items)" for ks
    using that
  proof (induction ks)
    case (Cons k ks)
    let ?g = "merge_row getTime (with_key k items)"
    have here: "\<forall>r \<in> set ?g. inbox_key r = k"
    proof
      fix r assume "r \<in> set ?g"
      with Cons.prems show "inbox_key r = k" by (intro keys) (auto simp only: list.set_intros subset_iff)
    qed
    have ih: "concat (map (\<lambda>k. merge_row getTime (with_key k ?in)) (filter Q ks)) =
        filter (\<lambda>r. Q (inbox_key r)) (concat (map (\<lambda>k. merge_row getTime (with_key k items)) ks))"
      by (rule Cons.IH) (use Cons.prems in simp)
    show ?case
    proof (cases "Q k")
      case True
      have "filter (\<lambda>r. Q (inbox_key r)) ?g = ?g" using here True by (intro filter_True) (metis)
      then show ?thesis using True ih group [OF True] by (simp only: filter.simps if_True list.map concat.simps filter_append)
    next
      case False
      have "filter (\<lambda>r. Q (inbox_key r)) ?g = []" using here False by (intro filter_False) (metis)
      then show ?thesis using False ih by (simp only: filter.simps if_False list.map concat.simps filter_append append_Nil)
    qed
  qed simp
  then have "row_list getTime ?in = filter (\<lambda>r. Q (inbox_key r)) (row_list getTime items)"
    by (simp add: row_list_def first_keys_filter)
  then show ?thesis
    unfolding group_rows using filter_array_sort [OF newest_consistent [OF rows_dates [OF ok]] subset_refl]
    by (simp only:)
qed

text \<open>A change of the read flags alone goes through to the rows.\<close>

definition read_change :: "(inbox_item \<Rightarrow> inbox_item) \<Rightarrow> bool" where
  "read_change f \<longleftrightarrow> (\<exists>P b. f = (\<lambda>it. if P (inbox_item_id it) then it\<lparr>inbox_read := b\<rparr> else it))"

lemma read_change_fields:
  assumes "read_change f"
  shows "inbox_key (f it) = inbox_key it" "inbox_created (f it) = inbox_created it"
    "inbox_details (f it) = inbox_details it" "inbox_archived (f it) = inbox_archived it"
    "f (it\<lparr>inbox_details := d\<rparr>) = (f it)\<lparr>inbox_details := d\<rparr>"
proof -
  obtain P b where f: "f = (\<lambda>it. if P (inbox_item_id it) then it\<lparr>inbox_read := b\<rparr> else it)"
    using assms unfolding read_change_def by blast
  have "inbox_key (it\<lparr>inbox_read := b\<rparr>) = inbox_key it" by (simp add: inbox_key_def split: option.split)
  then show "inbox_key (f it) = inbox_key it" by (simp add: f)
  show "inbox_created (f it) = inbox_created it" by (simp add: f)
  show "inbox_details (f it) = inbox_details it" by (simp add: f)
  show "inbox_archived (f it) = inbox_archived it" by (simp add: f)
  show "f (it\<lparr>inbox_details := d\<rparr>) = (f it)\<lparr>inbox_details := d\<rparr>" by (simp add: f)
qed

lemma rows_read:
  assumes f: "read_change f"
  shows "groupInboxItemsByIssue getTime (map f items) = map f (groupInboxItemsByIssue getTime items)"
proof -
  note fields = read_change_fields [OF f]
  have order: "newest_first getTime (f a) (f b) = newest_first getTime a b" for a b
    by (simp add: newest_first_def fields(2))
  have "merge_row getTime (map f grp) = map f (merge_row getTime grp)" for grp
  proof -
    have comment: "comment_of (f it) = comment_of it" for it by (simp add: comment_of_def fields(3))
    have found: "find (\<lambda>it. truthy (comment_of it) \<noteq> None) (map f xs) =
        map_option f (find (\<lambda>it. truthy (comment_of it) \<noteq> None) xs)" for xs
      by (induction xs) (simp_all add: comment)
    have sorted: "array_sort (newest_first getTime) (map f grp) = map f (array_sort (newest_first getTime) grp)"
      by (rule map_array_sort [symmetric]) (rule order)
    show ?thesis
    proof (cases "array_sort (newest_first getTime) grp")
      case Nil
      then show ?thesis unfolding merge_row_def sorted by simp
    next
      case (Cons n os)
      have c: "(case map_option f x of None \<Rightarrow> None | Some it \<Rightarrow> comment_of it) =
          (case x of None \<Rightarrow> None | Some it \<Rightarrow> comment_of it)" for x
        by (cases x) (simp_all add: comment)
      show ?thesis unfolding merge_row_def sorted Cons list.map list.case Let_def
        found [of "n # os", unfolded list.map] c comment fields(3)
        by (simp add: fields(5) split: option.split)
    qed
  qed
  moreover have "with_key k (map f items) = map f (with_key k items)" for k
    by (simp add: filter_map comp_def fields(1))
  moreover have "first_keys (map f items) = first_keys items"
  proof (induction items rule: rev_induct)
    case Nil
    show ?case by simp
  next
    case (snoc x xs)
    have "first_keys (map f xs @ [f x]) = first_keys (xs @ [x])" unfolding first_keys_snoc snoc fields(1) ..
    then show ?case by simp
  qed
  ultimately have "row_list getTime (map f items) = map f (row_list getTime items)"
    by (simp add: row_list_def map_concat comp_def)
  then show ?thesis unfolding group_rows by (simp add: map_array_sort order)
qed

section \<open>A concrete inbox\<close>

definition demo_item :: "string \<Rightarrow> string option \<Rightarrow> string \<Rightarrow> inbox_item" where
  "demo_item i issue created =
     \<lparr>inbox_item_id = i, inbox_issue = issue, inbox_status = None, inbox_read = False, inbox_archived = False,
      inbox_created = created, inbox_details = None\<rparr>"

definition demo_inbox :: "inbox_item list" where
  "demo_inbox = [demo_item ''n1'' (Some ''a'') ''1'', demo_item ''n2'' (Some ''a'') ''22'', demo_item ''n3'' None ''333'']"

definition demo_page :: inbox_page where
  "demo_page =
     \<lparr>page_cache = \<lparr>qc_lists = [], qc_flat = [], qc_rows = [], qc_details = [], qc_inbox = Some demo_inbox,
                    qc_archived = None\<rparr>,
      page_key = ''a'', manual_unread = None, seen_deps = None, requests = []\<rparr>"

abbreviation demo_time :: "string \<Rightarrow> int option" where
  "demo_time \<equiv> \<lambda>s. Some (int (length s))"

lemma demo_dates: "dates_ok demo_time S"
  by (simp add: dates_ok_def)

lemma demo_rows: "deduplicateInboxItems demo_time demo_inbox = [demo_item ''n3'' None ''333'', demo_item ''n2'' (Some ''a'') ''22'']"
  by (simp add: deduplicateInboxItems_def groupInboxItemsByIssue_def add_to_group_def merge_row_def demo_inbox_def demo_item_def
      inbox_key_def array_sort_def newest_first_def time_diff_def comment_of_def)

section \<open>Rows\<close>

lemma group_row_set: "set (groupInboxItemsByIssue getTime items) = set (row_list getTime items)"
  by (simp add: group_rows)

lemma rows_distinct:
  assumes "dates_ok getTime (set items)"
  shows "distinct (map inbox_key (groupInboxItemsByIssue getTime items))"
proof -
  have "mset (map inbox_key (groupInboxItemsByIssue getTime items)) = mset (first_keys items)"
    using row_list_of(1) [OF assms] by (simp only: mset_map array_sort_mset group_rows flip: row_list_of(1) [OF assms])
  then show ?thesis using first_keys_ok mset_eq_imp_distinct_iff by blast
qed

text \<open>C21. The inbox shows one row for each issue that has an unarchived item, and none other: the row is the newest of those items, read or unread as that item is, and the rows are in order, newest first, whatever order the items came in.\<close>

theorem inbox_rows_newest:
  assumes "dates_ok getTime (set items)"
  shows "distinct (map inbox_key (deduplicateInboxItems getTime items)) \<and>
    inbox_key ` set (deduplicateInboxItems getTime items) = inbox_key ` {it \<in> set items. \<not> inbox_archived it} \<and>
    (\<forall>r \<in> set (deduplicateInboxItems getTime items). \<exists>it \<in> set items. \<not> inbox_archived it \<and> same_but_details r it \<and>
       (\<forall>x \<in> set items. \<not> inbox_archived x \<and> inbox_key x = inbox_key r \<longrightarrow>
          the (getTime (inbox_created x)) \<le> the (getTime (inbox_created r)))) \<and>
    ordered (newest_first getTime) (deduplicateInboxItems getTime items)"
proof -
  let ?in = "filter (\<lambda>it. \<not> inbox_archived it) items"
  have ok: "dates_ok getTime (set ?in)" using assms by (simp add: dates_ok_def)
  have rows: "deduplicateInboxItems getTime items = groupInboxItemsByIssue getTime ?in"
    by (simp add: deduplicateInboxItems_def)
  have keys: "inbox_key ` set (row_list getTime ?in) = inbox_key ` set ?in"
    using arg_cong [OF row_list_of(1) [OF ok], of set] first_keys_ok [of ?in] by simp
  have newest: "\<exists>it \<in> set items. \<not> inbox_archived it \<and> same_but_details r it \<and>
       (\<forall>x \<in> set items. \<not> inbox_archived x \<and> inbox_key x = inbox_key r \<longrightarrow>
          the (getTime (inbox_created x)) \<le> the (getTime (inbox_created r)))"
    if r: "r \<in> set (row_list getTime ?in)" for r
  proof -
    obtain it where it: "it \<in> set ?in" "same_but_details r it"
      "\<forall>x \<in> set ?in. inbox_key x = inbox_key r \<longrightarrow> newest_first getTime it x \<le> 0"
      using row_list_of(2) [OF ok r] by blast
    have "the (getTime (inbox_created x)) \<le> the (getTime (inbox_created r))"
      if x: "x \<in> set ?in" "inbox_key x = inbox_key r" for x
    proof -
      obtain t u where "getTime (inbox_created it) = Some t" "getTime (inbox_created x) = Some u"
        using ok it(1) x(1) unfolding dates_ok_def by blast
      then show ?thesis using it(3) x same_but_details_fields(5) [OF it(2)]
        by (auto simp: newest_first_def time_diff_def)
    qed
    then show ?thesis using it(1,2) by (intro bexI [of _ it]) simp_all
  qed
  have ord: "ordered (newest_first getTime) (groupInboxItemsByIssue getTime ?in)"
    unfolding group_rows by (rule array_sort_ordered [OF newest_consistent [OF rows_dates [OF ok]]]) simp
  show ?thesis
    unfolding rows group_row_set
  proof (intro conjI ballI)
    show "distinct (map inbox_key (groupInboxItemsByIssue getTime ?in))" by (rule rows_distinct [OF ok])
    show "inbox_key ` set (row_list getTime ?in) = inbox_key ` {it \<in> set items. \<not> inbox_archived it}"
      using keys by simp
  qed (use newest ord in blast)+
qed

theorem inbox_rows_newest_witness:
  "distinct (map inbox_key (deduplicateInboxItems demo_time demo_inbox)) \<and>
    inbox_key ` set (deduplicateInboxItems demo_time demo_inbox) = {''a'', ''n3''} \<and>
    ordered (newest_first demo_time) (deduplicateInboxItems demo_time demo_inbox)"
proof -
  have "{it \<in> set demo_inbox. \<not> inbox_archived it} = set demo_inbox"
    by (auto simp: demo_inbox_def demo_item_def)
  then have "inbox_key ` {it \<in> set demo_inbox. \<not> inbox_archived it} = {''a'', ''n3''}"
    by (simp add: demo_inbox_def demo_item_def inbox_key_def)
  then show ?thesis using inbox_rows_newest [OF demo_dates [of "set demo_inbox"]] by metis
qed

section \<open>Archiving\<close>

text \<open>Ids are distinct, an issue's id is not empty and not the id of an item without an issue.\<close>

definition inbox_ids_ok :: "inbox_item list \<Rightarrow> bool" where
  "inbox_ids_ok items \<longleftrightarrow>
     distinct (map inbox_item_id items) \<and> (\<forall>it \<in> set items. inbox_issue it \<noteq> Some []) \<and>
     (\<forall>a \<in> set items. \<forall>b \<in> set items. inbox_issue a = None \<longrightarrow> inbox_issue b \<noteq> Some (inbox_item_id a))"

lemma find_item:
  assumes "distinct (map inbox_item_id items)" "it \<in> set items"
  shows "find (\<lambda>x. inbox_item_id x = inbox_item_id it) items = Some it"
  using assms by (induction items) auto

lemma archived_group:
  assumes ok: "inbox_ids_ok items" and it: "it \<in> set items" and x: "x \<in> set items"
  shows "inbox_item_id x = inbox_item_id it \<or> (truthy (inbox_issue it) \<noteq> None \<and> inbox_issue x = inbox_issue it)
    \<longleftrightarrow> inbox_key x = inbox_key it"
proof -
  have same: "inbox_item_id x = inbox_item_id it \<Longrightarrow> x = it"
    using ok it x by (auto simp: inbox_ids_ok_def distinct_map dest: inj_onD)
  show ?thesis
  proof (cases "inbox_issue it")
    case None
    have "inbox_key x = inbox_key it \<Longrightarrow> inbox_item_id x = inbox_item_id it"
      using None ok it x by (cases "inbox_issue x") (auto simp: inbox_key_def inbox_ids_ok_def)
    then show ?thesis using None same by auto
  next
    case (Some i)
    then have "i \<noteq> []" using ok it by (auto simp: inbox_ids_ok_def)
    moreover have "inbox_key x = i \<Longrightarrow> inbox_issue x = Some i"
      using Some ok it x by (cases "inbox_issue x") (auto simp: inbox_key_def inbox_ids_ok_def)
    ultimately show ?thesis using Some same by (auto simp: inbox_key_def)
  qed
qed

lemma archive_rows:
  assumes dates: "dates_ok getTime (set items)" and ok: "inbox_ids_ok items"
    and r: "r \<in> set (deduplicateInboxItems getTime items)"
  shows "\<exists>items'. set_archived True (inbox_item_id r) (Some items) = Some items' \<and>
    deduplicateInboxItems getTime items' =
      filter (\<lambda>x. inbox_key x \<noteq> inbox_key r) (deduplicateInboxItems getTime items)"
proof -
  let ?in = "filter (\<lambda>it. \<not> inbox_archived it) items"
  have din: "dates_ok getTime (set ?in)" using dates by (simp add: dates_ok_def)
  have "r \<in> set (row_list getTime ?in)" using r by (simp add: deduplicateInboxItems_def group_row_set)
  then obtain it where it: "it \<in> set ?in" "same_but_details r it" using row_list_of(2) [OF din] by blast
  have id: "inbox_item_id r = inbox_item_id it" "inbox_key r = inbox_key it"
    using same_but_details_fields [OF it(2)] by simp_all
  have target: "target_issue (inbox_item_id r) (Some items) = inbox_issue it"
    using find_item [of items it] ok it(1) id by (simp add: target_issue_def inbox_ids_ok_def)
  let ?f = "\<lambda>x. if inbox_key x = inbox_key r then x\<lparr>inbox_archived := True\<rparr> else x"
  have "map (\<lambda>x. if inbox_item_id x = inbox_item_id r \<or> (truthy (inbox_issue it) \<noteq> None \<and> inbox_issue x = inbox_issue it)
        then x\<lparr>inbox_archived := True\<rparr> else x) items = map ?f items"
    using archived_group [OF ok, of it] it(1) id by (intro map_cong) simp_all
  then have run: "set_archived True (inbox_item_id r) (Some items) = Some (map ?f items)"
    by (simp only: set_archived_def Let_def target option.map)
  have "filter (\<lambda>x. \<not> inbox_archived x) (map ?f xs) = filter (\<lambda>x. inbox_key x \<noteq> inbox_key r) (filter (\<lambda>x. \<not> inbox_archived x) xs)" for xs
    by (induction xs) simp_all
  then have "deduplicateInboxItems getTime (map ?f items) =
      filter (\<lambda>x. inbox_key x \<noteq> inbox_key r) (deduplicateInboxItems getTime items)"
    using rows_filter [OF din, of "\<lambda>k. k \<noteq> inbox_key r"] by (simp add: deduplicateInboxItems_def)
  then show ?thesis using run by blast
qed

lemma advance_resolves:
  assumes "distinct (map inbox_key rows)" "r \<in> set rows" "key = inbox_key r"
    "distinct (map inbox_item_id rows)"
  shows "(\<exists>x \<in> set rows. inbox_key x \<noteq> inbox_key r \<and> advanceSelectionPast (inbox_item_id r) rows key = inbox_key x) \<or>
    (rows = [r] \<and> advanceSelectionPast (inbox_item_id r) rows key = [])"
proof -
  obtain idx where idx: "find_index (\<lambda>it. inbox_item_id it = inbox_item_id r) rows = Some idx"
    using find_index_ex [OF assms(2), of "\<lambda>it. inbox_item_id it = inbox_item_id r"] by blast
  then have i: "idx < length rows" "inbox_item_id (rows ! idx) = inbox_item_id r" using find_index_Some by blast+
  then have here: "rows ! idx = r" using assms(2,4) by (auto simp: distinct_map dest: inj_onD nth_mem)
  have other: "inbox_key (rows ! j) \<noteq> inbox_key r" if "j < length rows" "j \<noteq> idx" for j
    using nth_eq_iff_index_eq [OF assms(1), of j idx] that i(1) here by simp
  have run: "advanceSelectionPast (inbox_item_id r) rows key =
      (case at_index rows (int idx + 1) of
         Some it \<Rightarrow> inbox_key it
       | None \<Rightarrow> (case at_index rows (int idx - 1) of Some it \<Rightarrow> inbox_key it | None \<Rightarrow> []))"
    by (simp add: advanceSelectionPast_def idx here assms(3))
  show ?thesis
  proof (cases "Suc idx < length rows")
    case True
    then have "at_index rows (int idx + 1) = Some (rows ! Suc idx)" by (simp add: at_index_def nat_add_distrib)
    then show ?thesis using run other [of "Suc idx"] True by auto
  next
    case False
    then have last: "at_index rows (int idx + 1) = None" by (simp add: at_index_def)
    show ?thesis
    proof (cases idx)
      case 0
      then have "rows = [r]" using False i(1) here by (cases rows) auto
      then show ?thesis using run last 0 by (simp add: at_index_def)
    next
      case (Suc j)
      then have "at_index rows (int idx - 1) = Some (rows ! j)" using i(1) by (simp add: at_index_def)
      then show ?thesis using run last other [of j] Suc i(1) by auto
    qed
  qed
qed

lemma row_ids:
  assumes dates: "dates_ok getTime (set items)" and ok: "inbox_ids_ok items"
  shows "distinct (map inbox_item_id (deduplicateInboxItems getTime items))"
proof -
  let ?in = "filter (\<lambda>it. \<not> inbox_archived it) items" and ?rows = "deduplicateInboxItems getTime items"
  have din: "dates_ok getTime (set ?in)" using dates by (simp add: dates_ok_def)
  have d: "distinct (map inbox_key ?rows)" using rows_distinct [OF din] by (simp add: deduplicateInboxItems_def)
  have same: "r = s" if rs: "r \<in> set ?rows" "s \<in> set ?rows" "inbox_item_id r = inbox_item_id s" for r s
  proof -
    have "r \<in> set (row_list getTime ?in)" "s \<in> set (row_list getTime ?in)"
      using rs(1,2) by (simp_all add: deduplicateInboxItems_def group_row_set)
    then obtain a b where ab: "a \<in> set items" "same_but_details r a" "b \<in> set items" "same_but_details s b"
      using row_list_of(2) [OF din] by (metis filter_is_subset subsetD)
    then have "inbox_item_id a = inbox_item_id b" using rs(3) same_but_details_fields(1) by metis
    then have "a = b" using ok ab(1,3) by (auto simp: inbox_ids_ok_def distinct_map dest: inj_onD)
    then have k: "inbox_key r = inbox_key s"
      using same_but_details_fields(6) [OF ab(2)] same_but_details_fields(6) [OF ab(4)] by simp
    have "inj_on inbox_key (set ?rows)" using d by (simp only: distinct_map)
    from inj_onD [OF this k rs(1,2)] show ?thesis .
  qed
  have "inj_on inbox_item_id (set ?rows)" by (rule inj_onI) (rule same)
  moreover have "distinct ?rows" using d by (simp only: distinct_map)
  ultimately show ?thesis by (simp only: distinct_map)
qed

text \<open>Archiving a row takes exactly that row off the list, siblings of the same issue included, and leaves the others in place; the badge drops by one if the row was unread; the selection, if it was on the row, moves to a neighbour that is still there and is cleared only when no row is left; and a refused request puts the list back.\<close>

theorem archiving_takes_one_row:
  assumes cached: "qc_inbox (page_cache s) = Some items" and dates: "dates_ok getTime (set items)"
    and ok: "inbox_ids_ok items" and r: "r \<in> set (deduplicateInboxItems getTime items)"
  shows "\<exists>items'. qc_inbox (page_cache (handleArchive getTime (inbox_item_id r) s)) = Some items' \<and>
    deduplicateInboxItems getTime items' =
      filter (\<lambda>x. inbox_key x \<noteq> inbox_key r) (deduplicateInboxItems getTime items) \<and>
    inboxUnreadCount getTime (Some items') + (if inbox_read r then 0 else 1) = inboxUnreadCount getTime (Some items) \<and>
    (page_key s = inbox_key r \<longrightarrow>
       page_selected getTime (handleArchive getTime (inbox_item_id r) s) \<noteq> None \<or>
       (deduplicateInboxItems getTime items' = [] \<and> page_key (handleArchive getTime (inbox_item_id r) s) = [])) \<and>
    inbox_error (snd (archive_mutate (inbox_item_id r) (page_cache s)))
      (fst (archive_mutate (inbox_item_id r) (page_cache s))) = page_cache s"
proof -
  let ?rows = "deduplicateInboxItems getTime items" and ?s = "handleArchive getTime (inbox_item_id r) s"
  obtain items' where items': "set_archived True (inbox_item_id r) (Some items) = Some items'"
    "deduplicateInboxItems getTime items' = filter (\<lambda>x. inbox_key x \<noteq> inbox_key r) ?rows"
    using archive_rows [OF dates ok r] by blast
  have din: "dates_ok getTime (set (filter (\<lambda>it. \<not> inbox_archived it) items))" using dates by (simp add: dates_ok_def)
  have keys: "distinct (map inbox_key ?rows)" using rows_distinct [OF din] by (simp add: deduplicateInboxItems_def)
  have main: "qc_inbox (page_cache ?s) = Some items'"
    using items'(1) cached by (simp add: handleArchive_def archive_mutate_def Let_def)
  have badge: "length (filter (\<lambda>it. \<not> inbox_read it) (filter (\<lambda>x. inbox_key x \<noteq> inbox_key r) xs)) +
      (if inbox_read r then 0 else 1) = length (filter (\<lambda>it. \<not> inbox_read it) xs)"
    if "distinct (map inbox_key xs)" "r \<in> set xs" for xs
    using that
  proof (induction xs)
    case (Cons x xs)
    show ?case
    proof (cases "x = r")
      case True
      have "inbox_key y \<noteq> inbox_key r" if "y \<in> set xs" for y
      proof
        assume "inbox_key y = inbox_key r"
        then have "inbox_key r \<in> inbox_key ` set xs" using that by (metis image_eqI)
        then show False using Cons.prems(1) True by simp
      qed
      then have "filter (\<lambda>x. inbox_key x \<noteq> inbox_key r) xs = xs" by (simp add: filter_id_conv)
      then show ?thesis using True by simp
    next
      case False
      then have "inbox_key x \<noteq> inbox_key r" using Cons.prems by (auto simp: image_iff)
      then show ?thesis using Cons False by auto
    qed
  qed simp
  have selection: "page_selected getTime ?s \<noteq> None \<or> (deduplicateInboxItems getTime items' = [] \<and> page_key ?s = [])"
    if key: "page_key s = inbox_key r"
  proof -
    have pk: "page_key ?s = advanceSelectionPast (inbox_item_id r) ?rows (page_key s)"
      using cached by (simp add: handleArchive_def Let_def)
    consider x where "x \<in> set ?rows" "inbox_key x \<noteq> inbox_key r" "page_key ?s = inbox_key x"
      | "?rows = [r]" "page_key ?s = []"
      using advance_resolves [OF keys r key row_ids [OF dates ok]] pk by auto
    then show ?thesis
    proof cases
      case 1
      then have "x \<in> set (deduplicateInboxItems getTime items')" using items'(2) by simp
      then have "find (\<lambda>it. inbox_key it = page_key ?s) (deduplicateInboxItems getTime items') \<noteq> None"
        using 1(3) by (simp only: find_None_iff simp_thms) blast
      then show ?thesis using main by (simp add: page_selected_def selected_row_def)
    next
      case 2
      then show ?thesis using items'(2) by simp
    qed
  qed
  have undone: "inbox_error (snd (archive_mutate (inbox_item_id r) (page_cache s)))
      (fst (archive_mutate (inbox_item_id r) (page_cache s))) = page_cache s"
    using cached by (simp add: inbox_error_def archive_mutate_def)
  show ?thesis using main items'(2) badge [OF keys r] selection undone
    by (intro exI [of _ items']) (simp add: inboxUnreadCount_def)
qed

theorem archiving_takes_one_row_witness:
  "\<exists>items'. qc_inbox (page_cache (handleArchive demo_time ''n2'' demo_page)) = Some items' \<and>
    deduplicateInboxItems demo_time items' = [demo_item ''n3'' None ''333''] \<and>
    inboxUnreadCount demo_time (Some items') + 1 = 2 \<and>
    page_selected demo_time (handleArchive demo_time ''n2'' demo_page) \<noteq> None"
proof -
  have ids: "inbox_ids_ok demo_inbox" by (simp add: inbox_ids_ok_def demo_inbox_def demo_item_def)
  have r: "demo_item ''n2'' (Some ''a'') ''22'' \<in> set (deduplicateInboxItems demo_time demo_inbox)" by (simp add: demo_rows)
  have cached: "qc_inbox (page_cache demo_page) = Some demo_inbox" by (simp add: demo_page_def)
  have rest: "filter (\<lambda>x. inbox_key x \<noteq> inbox_key (demo_item ''n2'' (Some ''a'') ''22'')) (deduplicateInboxItems demo_time demo_inbox) =
      [demo_item ''n3'' None ''333'']"
    by (simp add: demo_rows inbox_key_def demo_item_def)
  have badge: "inboxUnreadCount demo_time (Some demo_inbox) = 2"
    by (simp add: inboxUnreadCount_def demo_rows) (simp add: demo_item_def)
  have fields: "inbox_item_id (demo_item ''n2'' (Some ''a'') ''22'') = ''n2''"
    "inbox_read (demo_item ''n2'' (Some ''a'') ''22'') = False"
    "page_key demo_page = inbox_key (demo_item ''n2'' (Some ''a'') ''22'')"
    by (simp_all add: demo_item_def demo_page_def inbox_key_def)
  show ?thesis
    using archiving_takes_one_row [OF cached demo_dates ids r] unfolding rest badge fields by auto
qed

section \<open>Reading\<close>

lemma set_read_rows:
  "deduplicateInboxItems getTime (map (\<lambda>it. if inbox_item_id it = i then it\<lparr>inbox_read := b\<rparr> else it) items) =
     map (\<lambda>r. if inbox_item_id r = i then r\<lparr>inbox_read := b\<rparr> else r) (deduplicateInboxItems getTime items)"
proof -
  let ?f = "\<lambda>it :: inbox_item. if inbox_item_id it = i then it\<lparr>inbox_read := b\<rparr> else it"
  have f: "read_change ?f" unfolding read_change_def by (rule exI [of _ "\<lambda>x. x = i"]) (rule exI [of _ b], rule refl)
  have "filter (\<lambda>it. \<not> inbox_archived it) (map ?f items) = map ?f (filter (\<lambda>it. \<not> inbox_archived it) items)"
    by (simp only: filter_map comp_def read_change_fields(4) [OF f])
  then show ?thesis unfolding deduplicateInboxItems_def by (simp only: rows_read [OF f])
qed

definition read_row :: "inbox_item list \<Rightarrow> bool \<Rightarrow> string \<Rightarrow> inbox_item list" where
  "read_row items b i = map (\<lambda>it. if inbox_item_id it = i then it\<lparr>inbox_read := b\<rparr> else it) items"

lemma selected_read:
  assumes "selected_row rows k = Some r"
  shows "selected_row (map (\<lambda>x. if inbox_item_id x = i then x\<lparr>inbox_read := b\<rparr> else x) rows) k =
    Some (if inbox_item_id r = i then r\<lparr>inbox_read := b\<rparr> else r)"
proof -
  have key: "inbox_key (x\<lparr>inbox_read := b\<rparr>) = inbox_key x" for x by (simp add: inbox_key_def split: option.split)
  show ?thesis using assms unfolding selected_row_def
    by (induction rows) (auto simp: key split: if_splits)
qed

definition unread_selected :: "(string \<Rightarrow> int option) \<Rightarrow> inbox_page \<Rightarrow> string \<Rightarrow> bool" where
  "unread_selected getTime s i \<longleftrightarrow>
     (\<exists>r. page_selected getTime s = Some r \<and> inbox_item_id r = i \<and> \<not> inbox_read r) \<and> i \<noteq> [] \<and>
     manual_unread s \<noteq> Some i \<and> seen_deps s \<noteq> Some (i, False)"

text \<open>The page renders, the effect fires, and the render of its optimistic write follows.\<close>

definition render_twice :: "(string \<Rightarrow> int option) \<Rightarrow> inbox_page \<Rightarrow> inbox_page" where
  "render_twice getTime s = auto_read getTime (auto_read getTime s)"

lemma auto_read_fires:
  assumes "unread_selected getTime s i"
  shows "requests (render_twice getTime s) = requests s @ [(i, \<lparr>ctx_main = qc_inbox (page_cache s), ctx_archive = qc_archived (page_cache s)\<rparr>)]"
    "seen_deps (render_twice getTime s) = Some (i, True)" "manual_unread (render_twice getTime s) = manual_unread s"
    "page_key (render_twice getTime s) = page_key s"
    "page_cache (render_twice getTime s) = fst (mark_read_mutate i (page_cache s))"
proof -
  obtain r where r: "page_selected getTime s = Some r" "inbox_item_id r = i" "\<not> inbox_read r"
    and i: "i \<noteq> []" "manual_unread s \<noteq> Some i" "seen_deps s \<noteq> Some (i, False)"
    using assms by (auto simp: unread_selected_def)
  obtain items where items: "qc_inbox (page_cache s) = Some items"
    "selected_row (deduplicateInboxItems getTime items) (page_key s) = Some r"
    using r(1) by (auto simp: page_selected_def split: option.splits)
  let ?s1 = "auto_read getTime s"
  have s1: "?s1 = s\<lparr>seen_deps := Some (i, False), page_cache := fst (mark_read_mutate i (page_cache s)),
      requests := requests s @ [(i, \<lparr>ctx_main = qc_inbox (page_cache s), ctx_archive = qc_archived (page_cache s)\<rparr>)]\<rparr>"
    using r i by (auto simp: auto_read_def Let_def mark_read_mutate_def)
  have "page_selected getTime ?s1 = Some (r\<lparr>inbox_read := True\<rparr>)"
    using selected_read [OF items(2), of i True] r(2) items(1)
    by (simp add: s1 page_selected_def mark_read_mutate_def set_read_def set_read_rows)
  then have deps: "map_option (\<lambda>it. (inbox_item_id it, inbox_read it)) (page_selected getTime ?s1) = Some (i, True)"
    using r(2) by simp
  have "seen_deps ?s1 = Some (i, False)" by (simp add: s1)
  then have "render_twice getTime s = ?s1\<lparr>seen_deps := Some (i, True)\<rparr>"
    unfolding render_twice_def auto_read_def [of getTime ?s1] deps Let_def by simp
  then show "requests (render_twice getTime s) = requests s @ [(i, \<lparr>ctx_main = qc_inbox (page_cache s), ctx_archive = qc_archived (page_cache s)\<rparr>)]"
    "seen_deps (render_twice getTime s) = Some (i, True)" "manual_unread (render_twice getTime s) = manual_unread s"
    "page_key (render_twice getTime s) = page_key s"
    "page_cache (render_twice getTime s) = fst (mark_read_mutate i (page_cache s))"
    by (simp_all add: s1)
qed

text \<open>A refused read puts the unread row back, so the same state comes round.\<close>

lemma refused_round:
  assumes "unread_selected getTime s i"
  shows "unread_selected getTime (answer_read False (render_twice getTime s)) i"
    "page_cache (answer_read False (render_twice getTime s)) = page_cache s"
proof -
  note fired = auto_read_fires [OF assms]
  let ?s = "answer_read False (render_twice getTime s)"
  have "qc_inbox (page_cache s) \<noteq> None"
    using assms by (auto simp: unread_selected_def page_selected_def split: option.splits)
  then show cache: "page_cache ?s = page_cache s"
    by (auto simp: answer_read_def fired inbox_error_def mark_read_mutate_def set_read_def split: option.splits)
  have kept: "page_key ?s = page_key s" "manual_unread ?s = manual_unread s" "seen_deps ?s = Some (i, True)"
    by (simp_all add: answer_read_def fired)
  have sel: "page_selected getTime ?s = page_selected getTime s"
    unfolding page_selected_def cache kept(1) by (rule refl)
  show "unread_selected getTime ?s i" using assms unfolding unread_selected_def sel kept by blast
qed

text \<open>C22. Opening an unread row reads it with one request when the server accepts, and the badge drops; but a refused request is sent again without end: its rollback makes the row unread, which wakes the effect that sent it, so after \<open>n\<close> refusals there were \<open>n + 1\<close> requests and the row is still shown as read by the next attempt only.\<close>

theorem refused_read_never_settles:
  assumes "unread_selected getTime s i"
  shows "length (requests (((\<lambda>t. render_twice getTime (answer_read False t)) ^^ n) (render_twice getTime s))) =
      length (requests s) + n + 1 \<and>
    render_twice getTime (answer_read True (render_twice getTime s)) = render_twice getTime s"
proof -
  let ?round = "\<lambda>t. render_twice getTime (answer_read False t)"
  have "\<exists>t. (?round ^^ n) (render_twice getTime s) = render_twice getTime t \<and> unread_selected getTime t i \<and>
      length (requests t) = length (requests s) + n"
  proof (induction n)
    case 0
    show ?case using assms by auto
  next
    case (Suc n)
    then obtain t where t: "(?round ^^ n) (render_twice getTime s) = render_twice getTime t" "unread_selected getTime t i"
      "length (requests t) = length (requests s) + n" by blast
    let ?t = "answer_read False (render_twice getTime t)"
    have "requests ?t = requests (render_twice getTime t)" by (simp add: answer_read_def)
    then have "length (requests ?t) = length (requests s) + Suc n" using auto_read_fires(1) [OF t(2)] t(3) by simp
    then show ?case using t(1) refused_round(1) [OF t(2)] by (intro exI [of _ ?t]) simp
  qed
  then obtain t where "(?round ^^ n) (render_twice getTime s) = render_twice getTime t" "unread_selected getTime t i"
      "length (requests t) = length (requests s) + n" by blast
  then have many: "length (requests ((?round ^^ n) (render_twice getTime s))) = length (requests s) + n + 1"
    using auto_read_fires(1) by simp
  let ?u = "render_twice getTime s"
  obtain r where r: "page_selected getTime s = Some r" "inbox_item_id r = i" using assms by (auto simp: unread_selected_def)
  then obtain items where items: "qc_inbox (page_cache s) = Some items"
    "selected_row (deduplicateInboxItems getTime items) (page_key s) = Some r"
    by (auto simp: page_selected_def split: option.splits)
  have "page_selected getTime ?u = Some (r\<lparr>inbox_read := True\<rparr>)"
    using selected_read [OF items(2), of i True] r(2) items(1)
    by (simp add: auto_read_fires [OF assms] page_selected_def mark_read_mutate_def set_read_def set_read_rows)
  then have "auto_read getTime ?u = ?u" using auto_read_fires(2) [OF assms] r(2) by (simp add: auto_read_def Let_def)
  then have "render_twice getTime (answer_read True ?u) = ?u" by (simp add: answer_read_def render_twice_def [of getTime ?u])
  then show ?thesis using many by simp
qed

theorem refused_read_never_settles_witness:
  "length (requests (((\<lambda>t. render_twice demo_time (answer_read False t)) ^^ 7) (render_twice demo_time demo_page))) = 8 \<and>
   render_twice demo_time (answer_read True (render_twice demo_time demo_page)) = render_twice demo_time demo_page"
proof -
  have "page_selected demo_time demo_page = Some (demo_item ''n2'' (Some ''a'') ''22'')"
    by (simp add: page_selected_def demo_page_def demo_rows selected_row_def inbox_key_def) (simp add: demo_item_def)
  then have "unread_selected demo_time demo_page ''n2''"
    by (simp add: unread_selected_def demo_item_def demo_page_def)
  from refused_read_never_settles [OF this, of 7] show ?thesis by (simp add: demo_page_def)
qed

end
