(* ===== verification/Draft_Restore.thy ===== *)
theory Draft_Restore
  imports Chat_Store
begin

text \<open>
  The hand-over of a restored prompt to a chat composer
  (\<open>views/chat/components/use-chat-draft-restore.ts\<close>, the restore effect of \<open>chat-input.tsx\<close> and
  \<open>useConsumeChatDraftRestore\<close> of \<open>core/chat/mutations.ts\<close>) over the chat store, with the server's
  rows, the responses under way and the running requests beside it. The effects of a render are
  steps that may come in any order. Which callbacks of a request still reach the hook is a
  parameter: the mutation library decides it from the number of the call, the number of calls
  before the hook was mounted and the number of calls made.
\<close>

section \<open>State\<close>

record restore_row =
  row_id :: string
  row_session :: string
  row_content :: "string option"
  row_attachments :: js

record restore_request =
  request_id :: string
  request_content :: string
  request_attachments :: js
  request_session :: "string option"
  serverRestoreId :: "string option"

text \<open>
  \<open>calls\<close> are the consume requests made so far; \<open>deleted\<close> and \<open>answered\<close> hold the numbers of
  those that reached the server and that were answered. \<open>handed\<close> is the history of the requests
  the composer took, \<open>born\<close> that of the ids the server gave out.
\<close>

record restore_state =
  store :: chat_sys
  slot :: "restore_request option"
  cached_rows :: "restore_row list obj"
  reconciling :: "string list"
  calls :: "(string \<times> string) list"
  deleted :: "nat list"
  answered :: "nat list"
  mounted_at :: nat
  server_rows :: "restore_row list"
  under_way :: "(string \<times> restore_row list) list"
  active_session :: "string option"
  composer_shown :: bool
  appliedRestoreId :: "string option"
  dropped_messages :: "(string \<times> string) list"
  handed :: "restore_request list"
  born :: "string list"

definition ledger :: "restore_state \<Rightarrow> string list" where
  "ledger s = appliedDraftRestoreIds (chat (store s))"

definition queue_of :: "restore_state \<Rightarrow> string \<Rightarrow> js list" where
  "queue_of s sid = default_to [] (obj_get (pendingSendRestores (chat (store s))) sid)"

text \<open>The rows of the session on screen.\<close>

definition shown_rows :: "restore_state \<Rightarrow> restore_row list" where
  "shown_rows s = default_to [] (obj_get (cached_rows s) (default_to [] (active_session s)))"

section \<open>Consuming\<close>

text \<open>\<open>onMutate\<close> takes the row off the cached list.\<close>

definition consume_mutate :: "string \<Rightarrow> string \<Rightarrow> restore_state \<Rightarrow> restore_state" where
  "consume_mutate sessionId restoreId s =
     (case obj_get (cached_rows s) sessionId of
        None \<Rightarrow> s
      | Some rows \<Rightarrow> s\<lparr>cached_rows := obj_set (cached_rows s) sessionId
                        (filter (\<lambda>r. row_id r \<noteq> restoreId) rows)\<rparr>)"

definition consume_row :: "string \<Rightarrow> string \<Rightarrow> restore_state \<Rightarrow> restore_state" where
  "consume_row sessionId restoreId s =
     consume_mutate sessionId restoreId
       (s\<lparr>reconciling := (if restoreId \<in> set (reconciling s) then reconciling s else reconciling s @ [restoreId]),
          calls := calls s @ [(sessionId, restoreId)]\<rparr>)"

text \<open>The effect that consumes again the rows whose consume never landed.\<close>

definition reconcile_row :: "string list \<Rightarrow> string \<Rightarrow> restore_state \<Rightarrow> restore_row \<Rightarrow> restore_state" where
  "reconcile_row applied sid s r =
     (if row_session r \<noteq> sid \<or> row_id r \<notin> set applied \<or> row_id r \<in> set (reconciling s) then s
      else consume_row sid (row_id r) s)"

definition reconcile_rows :: "restore_state \<Rightarrow> restore_state" where
  "reconcile_rows s =
     (case truthy (active_session s) of
        None \<Rightarrow> s
      | Some sid \<Rightarrow> if \<not> composer_shown s then s else foldl (reconcile_row (ledger s) sid) s (shown_rows s))"

section \<open>Offering\<close>

definition local_request :: "string \<Rightarrow> js \<Rightarrow> restore_request" where
  "local_request sid r =
     \<lparr>request_id = str_prop r ''id'', request_content = str_prop r ''content'',
      request_attachments = get_prop r ''attachments'', request_session = Some sid, serverRestoreId = None\<rparr>"

definition durable_request :: "string \<Rightarrow> restore_row \<Rightarrow> restore_request" where
  "durable_request sid r =
     \<lparr>request_id = row_id r, request_content = default_to [] (row_content r),
      request_attachments = row_attachments r, request_session = Some sid, serverRestoreId = Some (row_id r)\<rparr>"

text \<open>The effect that fills and releases the slot.\<close>

definition offer_restore :: "restore_state \<Rightarrow> restore_state" where
  "offer_restore s =
     (if \<not> composer_shown s then s\<lparr>slot := None\<rparr>
      else (case truthy (active_session s) of
        None \<Rightarrow> s
      | Some sid \<Rightarrow> (case slot s of
          Some q \<Rightarrow> (case truthy (request_session q) of
              None \<Rightarrow> s
            | Some k \<Rightarrow> if k = sid then s else s\<lparr>slot := None\<rparr>)
        | None \<Rightarrow> (case queue_of s sid of
            queued # _ \<Rightarrow> s\<lparr>slot := Some (local_request sid queued)\<rparr>
          | [] \<Rightarrow> (case find (\<lambda>r. row_session r = sid \<and> row_id r \<notin> set (ledger s)) (shown_rows s) of
              None \<Rightarrow> s
            | Some r \<Rightarrow> s\<lparr>dropped_messages := dropped_messages s @ [(sid, row_id r)],
                            slot := Some (durable_request sid r)\<rparr>)))))"

section \<open>The composer\<close>

text \<open>The only terminal transition: the draft was written.\<close>

definition handleRestoreDraftApplied :: "restore_state \<Rightarrow> restore_state" where
  "handleRestoreDraftApplied s =
     (case slot s of
        None \<Rightarrow> s
      | Some q \<Rightarrow>
          (let s' = (case (truthy (serverRestoreId q), truthy (request_session q)) of
               (Some i, Some sid) \<Rightarrow> consume_row sid i (s\<lparr>store := markDraftRestoreApplied i (store s)\<rparr>)
             | (None, Some sid) \<Rightarrow> s\<lparr>store := dequeuePendingSendRestore sid (request_id q) (store s)\<rparr>
             | _ \<Rightarrow> s)
           in s'\<lparr>slot := None\<rparr>))"

definition draftKey :: "restore_state \<Rightarrow> string" where
  "draftKey s = default_to DRAFT_NEW_SESSION (active_session s)"

fun attachment_values :: "js \<Rightarrow> js list" where
  "attachment_values (JArr vs) = vs"
| "attachment_values _ = []"

text \<open>The composer's effect: it takes the request into an empty draft and leaves it alone otherwise.\<close>

definition adopt_restore :: "restore_state \<Rightarrow> restore_state js_result" where
  "adopt_restore s =
     (case slot s of
        None \<Rightarrow> Inr (s\<lparr>appliedRestoreId := None\<rparr>)
      | Some q \<Rightarrow>
          if appliedRestoreId s = Some (request_id q) then Inr s
          else if truthy (request_session q) \<noteq> None \<and> request_session q \<noteq> Some (draftKey s) then Inr s
          else (case draft_text (inputDrafts (chat (store s))) (draftKey s) of
              Inl e \<Rightarrow> Inl e
            | Inr inputDraft \<Rightarrow>
                if trim inputDraft \<noteq> [] \<or> uploads_of (store s) (draftKey s) \<noteq> [] then Inr s
                else Inr (handleRestoreDraftApplied
                  (s\<lparr>appliedRestoreId := Some (request_id q),
                     store := setInputDraftAttachments (draftKey s)
                       (map attachmentToDraftUpload (attachment_values (request_attachments q)))
                       (setInputDraft (draftKey s) (request_content q) (store s)),
                     handed := handed s @ [q]\<rparr>))))"

section \<open>Steps\<close>

text \<open>
  The environment: the user shows a session, hides the composer, types and sends; the server
  gives out rows; a read copies a session's rows at the server and lands later; a consume
  reaches the server and is answered, with success only after it did. A remount drops the
  hook's own state, a reload also the query cache and the responses under way.
\<close>

datatype restore_event =
    Reconcile | Offer | Adopt
  | Queue_local js
  | Show_session "string option"
  | Show_composer bool
  | Type_draft string string
  | Clear_draft string
  | Give_row restore_row
  | Read_rows string
  | Land_rows nat
  | Delete_row nat
  | Answer nat bool
  | Remount bool

definition land_rows :: "nat \<Rightarrow> restore_state \<Rightarrow> restore_state" where
  "land_rows n s =
     (if n < length (under_way s)
      then s\<lparr>cached_rows := obj_set (cached_rows s) (fst (under_way s ! n)) (snd (under_way s ! n)),
             under_way := take n (under_way s) @ drop (Suc n) (under_way s)\<rparr>
      else s)"

definition delete_row :: "nat \<Rightarrow> restore_state \<Rightarrow> restore_state" where
  "delete_row n s =
     (if n < length (calls s) \<and> n \<notin> set (answered s)
      then s\<lparr>server_rows := filter (\<lambda>r. row_id r \<noteq> snd (calls s ! n)) (server_rows s),
             deleted := deleted s @ [n]\<rparr>
      else s)"

definition answer_consume :: "(nat \<Rightarrow> nat \<Rightarrow> nat \<Rightarrow> bool) \<Rightarrow> nat \<Rightarrow> bool \<Rightarrow> restore_state \<Rightarrow> restore_state" where
  "answer_consume heard n ok s =
     (if n < length (calls s) \<and> n \<notin> set (answered s) \<and> (ok \<longrightarrow> n \<in> set (deleted s))
      then (let s' = s\<lparr>answered := answered s @ [n]\<rparr>; i = snd (calls s ! n)
            in if heard n (mounted_at s) (length (calls s))
               then s'\<lparr>store := (if ok then forgetDraftRestoreApplied i (store s) else store s),
                       reconciling := filter (\<lambda>j. j \<noteq> i) (reconciling s)\<rparr>
               else s')
      else s)"

definition remount :: "bool \<Rightarrow> restore_state \<Rightarrow> restore_state" where
  "remount reload s =
     s\<lparr>slot := None, reconciling := [], appliedRestoreId := None, mounted_at := length (calls s),
       cached_rows := (if reload then [] else cached_rows s), under_way := (if reload then [] else under_way s)\<rparr>"

fun restore_step :: "(nat \<Rightarrow> nat \<Rightarrow> nat \<Rightarrow> bool) \<Rightarrow> restore_event \<Rightarrow> restore_state \<Rightarrow> restore_state js_result" where
  "restore_step heard Reconcile s = Inr (reconcile_rows s)"
| "restore_step heard Offer s = Inr (offer_restore s)"
| "restore_step heard Adopt s = adopt_restore s"
| "restore_step heard (Queue_local r) s = Inr (s\<lparr>store := enqueuePendingSendRestore r (store s)\<rparr>)"
| "restore_step heard (Show_session sid) s = Inr (s\<lparr>active_session := sid\<rparr>)"
| "restore_step heard (Show_composer b) s = Inr (s\<lparr>composer_shown := b\<rparr>)"
| "restore_step heard (Type_draft sid d) s = Inr (s\<lparr>store := setInputDraft sid d (store s)\<rparr>)"
| "restore_step heard (Clear_draft sid) s = Inr (s\<lparr>store := clearInputDraft sid (store s)\<rparr>)"
| "restore_step heard (Give_row r) s =
     Inr (if row_id r = [] \<or> row_id r \<in> set (born s) then s
          else s\<lparr>server_rows := server_rows s @ [r], born := born s @ [row_id r]\<rparr>)"
| "restore_step heard (Read_rows sid) s =
     Inr (s\<lparr>under_way := under_way s @ [(sid, filter (\<lambda>r. row_session r = sid) (server_rows s))]\<rparr>)"
| "restore_step heard (Land_rows n) s = Inr (land_rows n s)"
| "restore_step heard (Delete_row n) s = Inr (delete_row n s)"
| "restore_step heard (Answer n ok) s = Inr (answer_consume heard n ok s)"
| "restore_step heard (Remount reload) s = Inr (remount reload s)"

fun restore_run :: "(nat \<Rightarrow> nat \<Rightarrow> nat \<Rightarrow> bool) \<Rightarrow> restore_event list \<Rightarrow> restore_state \<Rightarrow> restore_state js_result" where
  "restore_run heard [] s = Inr s"
| "restore_run heard (x # xs) s =
     (case restore_step heard x s of Inl e \<Rightarrow> Inl e | Inr s' \<Rightarrow> restore_run heard xs s')"

text \<open>
  The documented rule of the mutation library: the callbacks given to a call run for the latest
  call of a mounted hook only.
\<close>

definition latest_call_only :: "(nat \<Rightarrow> nat \<Rightarrow> nat \<Rightarrow> bool) \<Rightarrow> bool" where
  "latest_call_only heard \<longleftrightarrow> (\<forall>n m k. heard n m k \<longleftrightarrow> m \<le> n \<and> Suc n = k)"

end
