(* ===== verification/Restore_Facts.thy ===== *)
theory Restore_Facts
  imports Draft_Restore Chat_Properties
begin

text \<open>
  The invariants of a restore's hand-over: where an id may be seen, which ids the ledger covers,
  and how each step moves them.
\<close>

section \<open>What each operation of the store touches\<close>

lemma ledger_marked: "ledger (s\<lparr>store := markDraftRestoreApplied i (store s)\<rparr>) =
    (if i \<in> set (ledger s) then ledger s else ledger s @ [i])"
  by (simp add: ledger_def markDraftRestoreApplied_def set_applied_def Let_def)

lemma ledger_forgotten: "ledger (s\<lparr>store := forgetDraftRestoreApplied i (store s)\<rparr>) = filter (\<lambda>j. j \<noteq> i) (ledger s)"
  by (simp add: ledger_def forgetDraftRestoreApplied_def set_applied_def Let_def) (metis (mono_tags, lifting) filter_True)

lemma ledger_kept:
  "appliedDraftRestoreIds (chat (setInputDraft sid d c)) = appliedDraftRestoreIds (chat c)"
  "appliedDraftRestoreIds (chat (setInputDraftAttachments sid us c)) = appliedDraftRestoreIds (chat c)"
  "appliedDraftRestoreIds (chat (clearInputDraft sid c)) = appliedDraftRestoreIds (chat c)"
  "appliedDraftRestoreIds (chat (enqueuePendingSendRestore r c)) = appliedDraftRestoreIds (chat c)"
  "appliedDraftRestoreIds (chat (dequeuePendingSendRestore sid i c)) = appliedDraftRestoreIds (chat c)"
  by (simp_all add: setInputDraft_def set_drafts_def setInputDraftAttachments_def set_uploads_def clearInputDraft_def
      enqueuePendingSendRestore_def dequeuePendingSendRestore_def set_pending_def Let_def)

lemma queue_kept:
  "pendingSendRestores (chat (setInputDraft sid d c)) = pendingSendRestores (chat c)"
  "pendingSendRestores (chat (setInputDraftAttachments sid us c)) = pendingSendRestores (chat c)"
  "pendingSendRestores (chat (clearInputDraft sid c)) = pendingSendRestores (chat c)"
  "pendingSendRestores (chat (markDraftRestoreApplied i c)) = pendingSendRestores (chat c)"
  "pendingSendRestores (chat (forgetDraftRestoreApplied i c)) = pendingSendRestores (chat c)"
  by (simp_all add: setInputDraft_def set_drafts_def setInputDraftAttachments_def set_uploads_def clearInputDraft_def
      markDraftRestoreApplied_def forgetDraftRestoreApplied_def set_applied_def Let_def)

lemma queue_enqueued: "default_to [] (obj_get (pendingSendRestores (chat (enqueuePendingSendRestore r c))) sid) =
    (if sid = str_prop r ''sessionId'' \<and> sid \<noteq> [] \<and> str_prop r ''id'' \<noteq> [] \<and>
        get_prop r ''id'' \<notin> (\<lambda>x. get_prop x ''id'') ` set (default_to [] (obj_get (pendingSendRestores (chat c)) sid))
     then default_to [] (obj_get (pendingSendRestores (chat c)) sid) @ [r]
     else default_to [] (obj_get (pendingSendRestores (chat c)) sid))"
proof -
  have ex: "list_ex (\<lambda>x. get_prop x ''id'' = v) xs \<longleftrightarrow> v \<in> (\<lambda>x. get_prop x ''id'') ` set xs" for v xs
    by (auto simp: list_ex_iff)
  show ?thesis unfolding enqueuePendingSendRestore_def set_pending_def Let_def ex by (simp add: obj_simps default_to_def)
qed

lemma queue_dequeued: "default_to [] (obj_get (pendingSendRestores (chat (dequeuePendingSendRestore k i c))) sid) =
    (if sid = k then filter (\<lambda>r. get_prop r ''id'' \<noteq> JStr i) (default_to [] (obj_get (pendingSendRestores (chat c)) sid))
     else default_to [] (obj_get (pendingSendRestores (chat c)) sid))"
proof -
  have keep: "filter (\<lambda>r. get_prop r ''id'' \<noteq> JStr i) xs = xs" if "\<not> list_ex (\<lambda>r. get_prop r ''id'' = JStr i) xs" for xs
    using that by (simp add: list_ex_iff filter_id_conv)
  show ?thesis
    by (simp add: dequeuePendingSendRestore_def set_pending_def Let_def set_or_delete_get keep default_to_def)
qed

lemma str_prop_id: "str_prop r ''id'' \<noteq> [] \<Longrightarrow> get_prop r ''id'' = JStr (str_prop r ''id'')"
  by (simp add: str_prop_def split: js.splits)

section \<open>The always-invariant\<close>

definition durable_ids :: "restore_state \<Rightarrow> string list" where
  "durable_ids s = List.map_filter serverRestoreId (handed s)"

text \<open>The ids on a cached list or in a response under way.\<close>

definition seen_ids :: "restore_state \<Rightarrow> string list" where
  "seen_ids s = map row_id (concat (map snd (cached_rows s)) @ concat (map snd (under_way s)))"

definition slot_ok :: "(string \<Rightarrow> js list) \<Rightarrow> string list \<Rightarrow> restore_request option \<Rightarrow> bool" where
  "slot_ok queue born_ids sl \<longleftrightarrow> (case sl of None \<Rightarrow> True
     | Some q \<Rightarrow> (\<exists>sid. sid \<noteq> [] \<and> ((\<exists>r \<in> set (queue sid). q = local_request sid r) \<or>
                    (\<exists>r. q = durable_request sid r \<and> row_id r \<in> set born_ids))))"

definition kept_inv ::
  "string list \<Rightarrow> string list \<Rightarrow> string list \<Rightarrow> string set \<Rightarrow> string set \<Rightarrow> (string \<times> string) list \<Rightarrow> nat list \<Rightarrow> bool" where
  "kept_inv ledger_ids durable born_ids on_server seen all_calls gone \<longleftrightarrow>
     set ledger_ids \<subseteq> set durable \<and> set durable \<subseteq> set born_ids \<and> [] \<notin> set born_ids \<and>
     on_server \<union> seen \<subseteq> set born_ids \<and> set born_ids \<subseteq> on_server \<union> set durable \<and>
     snd ` set all_calls \<subseteq> set durable \<and>
     (\<forall>n \<in> set gone. n < length all_calls \<and> snd (all_calls ! n) \<notin> on_server)"

definition queue_inv :: "(string \<Rightarrow> js list) \<Rightarrow> bool" where
  "queue_inv queue \<longleftrightarrow> (\<forall>sid. distinct (map (\<lambda>r. get_prop r ''id'') (queue sid)) \<and>
     (\<forall>r \<in> set (queue sid). is_string (get_prop r ''id'')))"

definition kept_ok :: "restore_state \<Rightarrow> bool" where
  "kept_ok s \<longleftrightarrow>
     kept_inv (ledger s) (durable_ids s) (born s) (row_id ` set (server_rows s)) (set (seen_ids s)) (calls s) (deleted s) \<and>
     queue_inv (queue_of s) \<and> slot_ok (queue_of s) (born s) (slot s)"

text \<open>What at-most-once needs besides.\<close>

definition once_ok :: "restore_state \<Rightarrow> bool" where
  "once_ok s \<longleftrightarrow> distinct (durable_ids s) \<and>
     (\<forall>i \<in> set (durable_ids s). i \<in> set (ledger s) \<or> i \<notin> row_id ` set (server_rows s) \<union> set (seen_ids s)) \<and>
     (case slot s of None \<Rightarrow> True
      | Some q \<Rightarrow> (case serverRestoreId q of None \<Rightarrow> True | Some i \<Rightarrow> i \<notin> set (durable_ids s)))"

section \<open>Consuming\<close>

lemma consume_row_fields:
  "ledger (consume_row sid i s) = ledger s" "durable_ids (consume_row sid i s) = durable_ids s"
  "born (consume_row sid i s) = born s" "server_rows (consume_row sid i s) = server_rows s"
  "calls (consume_row sid i s) = calls s @ [(sid, i)]" "deleted (consume_row sid i s) = deleted s"
  "slot (consume_row sid i s) = slot s" "store (consume_row sid i s) = store s" "handed (consume_row sid i s) = handed s"
  "queue_of (consume_row sid i s) = queue_of s" "answered (consume_row sid i s) = answered s"
  by (auto simp: consume_row_def consume_mutate_def ledger_def durable_ids_def queue_of_def fun_eq_iff split: option.split)

definition rows_in :: "('k \<times> restore_row list) list \<Rightarrow> restore_row set" where
  "rows_in ob = (\<Union>p \<in> set ob. set (snd p))"

lemma rows_in_set: "rows_in (obj_set ob k rows) \<subseteq> rows_in ob \<union> set rows"
proof -
  have "rows_in (obj_set ob k rows) \<subseteq> (\<Union>p \<in> insert (k, rows) (set ob). set (snd p))"
    unfolding rows_in_def using obj_set_subset [of k rows ob] by (rule UN_mono) simp
  then show ?thesis by (auto simp: rows_in_def)
qed

lemma rows_in_get:
  assumes "obj_get ob k = Some rows"
  shows "set rows \<subseteq> rows_in ob"
proof -
  have "(k, rows) \<in> set ob" using assms by (rule map_of_SomeD)
  then show ?thesis unfolding rows_in_def by force
qed

lemma seen_ids_set: "set (seen_ids s) = row_id ` (rows_in (cached_rows s) \<union> rows_in (under_way s))"
  by (auto simp: seen_ids_def rows_in_def)

lemma consume_row_seen: "set (seen_ids (consume_row sid i s)) \<subseteq> set (seen_ids s)"
proof (cases "obj_get (cached_rows s) sid")
  case None
  then show ?thesis by (simp add: consume_row_def consume_mutate_def seen_ids_def)
next
  case (Some rows)
  let ?rows = "filter (\<lambda>r. row_id r \<noteq> i) rows"
  have "set ?rows \<subseteq> rows_in (cached_rows s)" using rows_in_get [OF Some] by auto
  then have "rows_in (obj_set (cached_rows s) sid ?rows) \<subseteq> rows_in (cached_rows s)"
    using rows_in_set [of sid ?rows "cached_rows s"] by blast
  then have "rows_in (obj_set (cached_rows s) sid ?rows) \<union> rows_in (under_way s) \<subseteq>
      rows_in (cached_rows s) \<union> rows_in (under_way s)" by blast
  from image_mono [OF this, of row_id] show ?thesis
    unfolding seen_ids_set using Some by (simp add: consume_row_def consume_mutate_def)
qed

lemma kept_inv_change:
  assumes "kept_inv l d b sv seen cs gone" "sv' \<union> seen' \<subseteq> set b" "set b \<subseteq> sv' \<union> set d"
    "\<forall>n \<in> set gone'. n < length cs \<and> snd (cs ! n) \<notin> sv'"
  shows "kept_inv l d b sv' seen' cs gone'"
  using assms by (simp only: kept_inv_def simp_thms)

lemma kept_inv_parts:
  assumes "kept_inv l d b sv seen cs gone"
  shows "sv \<union> seen \<subseteq> set b" "set b \<subseteq> sv \<union> set d" "\<forall>n \<in> set gone. n < length cs \<and> snd (cs ! n) \<notin> sv"
    "snd ` set cs \<subseteq> set d"
  using assms unfolding kept_inv_def by blast+

lemma kept_inv_consume:
  assumes "kept_inv l d b sv seen cs gone" "i \<in> set d" "seen' \<subseteq> seen"
  shows "kept_inv l d b sv seen' (cs @ [(sid, i)]) gone"
  using assms unfolding kept_inv_def by (auto simp: nth_append)

lemma kept_consume:
  assumes "kept_ok s" "i \<in> set (durable_ids s)"
  shows "kept_ok (consume_row sid i s)"
  using assms kept_inv_consume [OF _ assms(2) consume_row_seen, of "ledger s" "born s"]
  by (simp add: kept_ok_def consume_row_fields)

lemma once_consume: "once_ok s \<Longrightarrow> once_ok (consume_row sid i s)"
  using consume_row_seen [of sid i s] by (auto simp: once_ok_def consume_row_fields split: option.splits)

section \<open>The steps\<close>

lemma reconcile_keeps:
  assumes "kept_ok s"
  shows "kept_ok (reconcile_rows s)" "once_ok s \<Longrightarrow> once_ok (reconcile_rows s)" "handed (reconcile_rows s) = handed s"
    "queue_of (reconcile_rows s) = queue_of s" "server_rows (reconcile_rows s) = server_rows s"
proof -
  have loop: "kept_ok (foldl (reconcile_row l sid) s rows) \<and>
      (once_ok s \<longrightarrow> once_ok (foldl (reconcile_row l sid) s rows)) \<and>
      handed (foldl (reconcile_row l sid) s rows) = handed s \<and>
      queue_of (foldl (reconcile_row l sid) s rows) = queue_of s \<and>
      server_rows (foldl (reconcile_row l sid) s rows) = server_rows s"
    if "kept_ok s" "set l \<subseteq> set (durable_ids s)" for l sid rows s
    using that
  proof (induction rows arbitrary: s)
    case (Cons r rows)
    show ?case
    proof (cases "row_session r \<noteq> sid \<or> row_id r \<notin> set l \<or> row_id r \<in> set (reconciling s)")
      case True
      then have "reconcile_row l sid s r = s" by (simp add: reconcile_row_def)
      then show ?thesis using Cons by simp
    next
      case False
      then have run: "reconcile_row l sid s r = consume_row sid (row_id r) s" by (simp add: reconcile_row_def)
      have "row_id r \<in> set (durable_ids s)" using False Cons.prems(2) by blast
      then have "kept_ok (consume_row sid (row_id r) s)" by (rule kept_consume [OF Cons.prems(1)])
      moreover have "set l \<subseteq> set (durable_ids (consume_row sid (row_id r) s))"
        using Cons.prems(2) by (simp add: consume_row_fields)
      ultimately show ?thesis using Cons.IH once_consume [of s sid "row_id r"] run by (simp add: consume_row_fields)
    qed
  qed simp
  have "set (ledger s) \<subseteq> set (durable_ids s)" using assms by (simp add: kept_ok_def kept_inv_def)
  note run = loop [OF assms this]
  show "kept_ok (reconcile_rows s)" "once_ok s \<Longrightarrow> once_ok (reconcile_rows s)" "handed (reconcile_rows s) = handed s"
    "queue_of (reconcile_rows s) = queue_of s" "server_rows (reconcile_rows s) = server_rows s"
    using run assms by (simp_all add: reconcile_rows_def split: option.split)
qed

text \<open>Steps that change only the slot and the fields no invariant reads.\<close>

lemma kept_slot:
  assumes "kept_ok s" "ledger t = ledger s" "handed t = handed s" "born t = born s" "server_rows t = server_rows s"
    "set (seen_ids t) \<subseteq> set (seen_ids s)" "calls t = calls s" "deleted t = deleted s" "queue_of t = queue_of s"
    "slot_ok (queue_of s) (born s) (slot t)"
  shows "kept_ok t"
  using assms unfolding kept_ok_def kept_inv_def durable_ids_def by auto

lemma once_slot:
  assumes "once_ok s" "ledger t = ledger s" "handed t = handed s" "server_rows t = server_rows s"
    "set (seen_ids t) \<subseteq> set (seen_ids s)" "slot t = None \<or> slot t = slot s"
  shows "once_ok t"
proof -
  have d: "durable_ids t = durable_ids s" using assms(3) by (simp add: durable_ids_def)
  show ?thesis
    using assms(1,5,6) unfolding once_ok_def d assms(2,4) by (auto split: option.splits)
qed

lemma default_get:
  assumes "r \<in> set (default_to [] (obj_get ob k))"
  shows "r \<in> rows_in ob"
  using assms rows_in_get [of ob k] by (cases "obj_get ob k") (auto simp: default_to_def)

lemma offer_shape: "\<exists>sl dm. offer_restore s = s\<lparr>slot := sl, dropped_messages := dm\<rparr> \<and>
    (sl = None \<or> sl = slot s \<or>
     (\<exists>sid. sid \<noteq> [] \<and> ((\<exists>r \<in> set (queue_of s sid). sl = Some (local_request sid r)) \<or>
        (\<exists>r \<in> set (shown_rows s). row_id r \<notin> set (ledger s) \<and> sl = Some (durable_request sid r)))))"
proof -
  let ?P = "\<lambda>sl. sl = None \<or> sl = slot s \<or>
     (\<exists>sid. sid \<noteq> [] \<and> ((\<exists>r \<in> set (queue_of s sid). sl = Some (local_request sid r)) \<or>
        (\<exists>r \<in> set (shown_rows s). row_id r \<notin> set (ledger s) \<and> sl = Some (durable_request sid r))))"
  have same: "\<exists>sl dm. s = s\<lparr>slot := sl, dropped_messages := dm\<rparr> \<and> ?P sl"
    by (rule exI [of _ "slot s"], rule exI [of _ "dropped_messages s"]) simp
  have none: "\<exists>sl dm. s\<lparr>slot := None\<rparr> = s\<lparr>slot := sl, dropped_messages := dm\<rparr> \<and> ?P sl"
    by (rule exI [of _ None], rule exI [of _ "dropped_messages s"]) simp
  show ?thesis
  proof (cases "truthy (active_session s)")
    case None
    then have "offer_restore s = s \<or> offer_restore s = s\<lparr>slot := None\<rparr>" by (simp add: offer_restore_def)
    then show ?thesis using same none by metis
  next
    case (Some sid)
    then have sid: "sid \<noteq> []" by (auto simp: truthy_eq_Some)
    show ?thesis
    proof (cases "composer_shown s \<and> slot s = None")
      case False
      then have "offer_restore s = s \<or> offer_restore s = s\<lparr>slot := None\<rparr>"
        using Some by (auto simp: offer_restore_def split: option.splits)
      then show ?thesis using same none by metis
    next
      case True
      show ?thesis
      proof (cases "queue_of s sid")
        case (Cons r rs)
        then have "offer_restore s = s\<lparr>slot := Some (local_request sid r), dropped_messages := dropped_messages s\<rparr>"
          using True Some by (simp add: offer_restore_def)
        moreover have "r \<in> set (queue_of s sid)" using Cons by simp
        ultimately show ?thesis using sid by blast
      next
        case Nil
        show ?thesis
        proof (cases "find (\<lambda>r. row_session r = sid \<and> row_id r \<notin> set (ledger s)) (shown_rows s)")
          case None
          then have "offer_restore s = s" using True \<open>truthy (active_session s) = Some sid\<close> Nil by (simp add: offer_restore_def)
          then show ?thesis using same by metis
        next
          case (Some r)
          then have "r \<in> set (shown_rows s)" "row_id r \<notin> set (ledger s)" using find_Some_in [OF Some] by blast+
          moreover have "offer_restore s = s\<lparr>slot := Some (durable_request sid r),
              dropped_messages := dropped_messages s @ [(sid, row_id r)]\<rparr>"
            using True \<open>truthy (active_session s) = Some sid\<close> Nil Some by (simp add: offer_restore_def)
          ultimately show ?thesis using sid by blast
        qed
      qed
    qed
  qed
qed

lemma offer_keeps:
  assumes "kept_ok s"
  shows "kept_ok (offer_restore s)" "once_ok s \<Longrightarrow> once_ok (offer_restore s)" "handed (offer_restore s) = handed s"
    "queue_of (offer_restore s) = queue_of s" "server_rows (offer_restore s) = server_rows s"
proof -
  obtain sl dm where t: "offer_restore s = s\<lparr>slot := sl, dropped_messages := dm\<rparr>"
    and sl: "sl = None \<or> sl = slot s \<or>
     (\<exists>sid. sid \<noteq> [] \<and> ((\<exists>r \<in> set (queue_of s sid). sl = Some (local_request sid r)) \<or>
        (\<exists>r \<in> set (shown_rows s). row_id r \<notin> set (ledger s) \<and> sl = Some (durable_request sid r))))"
    using offer_shape by blast
  have shown: "row_id r \<in> set (seen_ids s)" if "r \<in> set (shown_rows s)" for r
    using default_get [of r] that unfolding shown_rows_def seen_ids_set by blast
  have in_born: "set (seen_ids s) \<subseteq> set (born s)" using assms by (simp add: kept_ok_def kept_inv_def)
  have same: "ledger (offer_restore s) = ledger s" "seen_ids (offer_restore s) = seen_ids s"
    "queue_of (offer_restore s) = queue_of s" "durable_ids (offer_restore s) = durable_ids s"
    by (simp_all add: t ledger_def seen_ids_def queue_of_def durable_ids_def fun_eq_iff)
  have sv: "server_rows (offer_restore s) = server_rows s" "slot (offer_restore s) = sl" by (simp_all add: t)
  consider "sl = None \<or> sl = slot s"
    | sid r where "sid \<noteq> []" "r \<in> set (queue_of s sid)" "sl = Some (local_request sid r)"
    | sid r where "sid \<noteq> []" "r \<in> set (shown_rows s)" "row_id r \<notin> set (ledger s)" "sl = Some (durable_request sid r)"
    using sl by blast
  note cases = this
  have "slot_ok (queue_of s) (born s) sl"
  proof (cases rule: cases)
    case 1
    then show ?thesis using assms by (auto simp: slot_ok_def kept_ok_def)
  next
    case 2
    then show ?thesis unfolding slot_ok_def by auto
  next
    case 3
    then have "row_id r \<in> set (born s)" using shown in_born by blast
    then show ?thesis using 3 unfolding slot_ok_def by auto
  qed
  then show "kept_ok (offer_restore s)"
    by (intro kept_slot [OF assms]) (simp_all add: same, simp_all add: t)
  show "handed (offer_restore s) = handed s" "queue_of (offer_restore s) = queue_of s"
    "server_rows (offer_restore s) = server_rows s" using same by (simp_all add: t)
  assume once: "once_ok s"
  show "once_ok (offer_restore s)"
  proof (cases rule: cases)
    case 1
    then show ?thesis by (intro once_slot [OF once]) (simp_all add: same, simp_all add: t)
  next
    case 2
    then show ?thesis using once 2 unfolding once_ok_def same sv by (simp add: local_request_def)
  next
    case 3
    then have "row_id r \<notin> set (durable_ids s)" using once shown by (auto simp: once_ok_def)
    then show ?thesis using once 3 unfolding once_ok_def same sv by (simp add: durable_request_def)
  qed
qed

lemma map_filter_snoc: "List.map_filter f (xs @ [x]) = List.map_filter f xs @ (case f x of None \<Rightarrow> [] | Some y \<Rightarrow> [y])"
  by (induction xs) (simp_all add: map_filter_simps split: option.split)

definition hand_over :: "restore_request \<Rightarrow> restore_state \<Rightarrow> restore_state" where
  "hand_over q s = s\<lparr>appliedRestoreId := Some (request_id q),
     store := setInputDraftAttachments (draftKey s)
       (map attachmentToDraftUpload (attachment_values (request_attachments q)))
       (setInputDraft (draftKey s) (request_content q) (store s)), handed := handed s @ [q]\<rparr>"

text \<open>What the composer's effect does when it takes a request.\<close>

lemma adopt_cases:
  assumes "adopt_restore s = Inr t"
  obtains (left) a where "t = s\<lparr>appliedRestoreId := a\<rparr>"
  | (took) q where "slot s = Some q"
      "t = handleRestoreDraftApplied (hand_over q s)"
      "truthy (request_session q) \<noteq> None \<longrightarrow> request_session q = Some (draftKey s)"
      "\<exists>d. draft_text (inputDrafts (chat (store s))) (draftKey s) = Inr d \<and> trim d = []"
      "uploads_of (store s) (draftKey s) = []"
proof (cases "slot s")
  case None
  then show ?thesis using assms left by (auto simp: adopt_restore_def)
next
  case (Some q)
  have same: "s = s\<lparr>appliedRestoreId := appliedRestoreId s\<rparr>" by simp
  show ?thesis
  proof (cases "appliedRestoreId s = Some (request_id q) \<or>
      (truthy (request_session q) \<noteq> None \<and> request_session q \<noteq> Some (draftKey s))")
    case True
    then have "adopt_restore s = Inr s" unfolding adopt_restore_def Some option.case by (simp only: if_True if_cancel split: if_split) blast
    then have "t = s" using assms by simp
    then show ?thesis using left same by metis
  next
    case False
    then obtain d where d: "draft_text (inputDrafts (chat (store s))) (draftKey s) = Inr d"
      using assms Some by (auto simp: adopt_restore_def split: sum.splits)
    show ?thesis
    proof (cases "trim d \<noteq> [] \<or> uploads_of (store s) (draftKey s) \<noteq> []")
      case True
      then have "t = s" using assms Some False d by (auto simp: adopt_restore_def)
      then show ?thesis using left same by metis
    next
      case empty: False
      have "\<not> (truthy (request_session q) \<noteq> None \<and> request_session q \<noteq> Some (draftKey s))"
        "appliedRestoreId s \<noteq> Some (request_id q)" using False by blast+
      then have "adopt_restore s = Inr (handleRestoreDraftApplied (hand_over q s))"
        unfolding adopt_restore_def Some option.case d sum.case hand_over_def using empty by (simp only: if_False)
      then have "t = handleRestoreDraftApplied (hand_over q s)" using assms by simp
      then show ?thesis using took [OF Some] False d empty by blast
    qed
  qed
qed

lemma hand_over_fields:
  "ledger (hand_over q s) = ledger s" "queue_of (hand_over q s) = queue_of s" "slot (hand_over q s) = slot s"
  "born (hand_over q s) = born s" "server_rows (hand_over q s) = server_rows s" "seen_ids (hand_over q s) = seen_ids s"
  "calls (hand_over q s) = calls s" "deleted (hand_over q s) = deleted s" "handed (hand_over q s) = handed s @ [q]"
  by (simp_all add: hand_over_def ledger_def queue_of_def seen_ids_def ledger_kept queue_kept fun_eq_iff)

lemma take_local:
  assumes ok: "kept_ok s" and q: "slot s = Some (local_request sid r)" and sid: "sid \<noteq> []" and r: "r \<in> set (queue_of s sid)"
    and t: "t = handleRestoreDraftApplied (hand_over (local_request sid r) s)"
  shows "kept_ok t" "once_ok s \<Longrightarrow> once_ok t" "handed t = handed s @ [local_request sid r]"
    "\<And>k x. x \<in> set (queue_of s k) \<Longrightarrow> x \<in> set (queue_of t k) \<or> local_request k x = local_request sid r"
proof -
  let ?u = "hand_over (local_request sid r) s"
  have run: "t = ?u\<lparr>store := dequeuePendingSendRestore sid (str_prop r ''id'') (store ?u), slot := None\<rparr>"
    using sid by (simp add: t handleRestoreDraftApplied_def hand_over_fields(3) q local_request_def Let_def)
  have same: "ledger t = ledger s" "born t = born s" "server_rows t = server_rows s" "seen_ids t = seen_ids s" "calls t = calls s"
    "deleted t = deleted s" "slot t = None" "handed t = handed s @ [local_request sid r]"
    using hand_over_fields [of "local_request sid r" s]
    by (simp_all add: run) (simp_all add: ledger_def seen_ids_def ledger_kept)
  have dur: "durable_ids t = durable_ids s" by (simp add: durable_ids_def same map_filter_snoc) (simp add: local_request_def)
  have queue: "queue_of t k = (if k = sid then filter (\<lambda>x. get_prop x ''id'' \<noteq> JStr (str_prop r ''id'')) (queue_of s sid) else queue_of s k)" for k
  proof -
    have "queue_of t k = (if k = sid then filter (\<lambda>x. get_prop x ''id'' \<noteq> JStr (str_prop r ''id'')) (queue_of ?u sid) else queue_of ?u k)"
      by (simp add: run queue_of_def queue_dequeued)
    then show ?thesis by (simp only: hand_over_fields)
  qed
  have strings: "distinct (map (\<lambda>x. get_prop x ''id'') (queue_of s sid))" "is_string (get_prop r ''id'')"
    using ok r by (auto simp: kept_ok_def queue_inv_def)
  have "queue_inv (queue_of t)"
    using ok by (auto simp: kept_ok_def queue_inv_def queue distinct_map inj_on_def)
  then show "kept_ok t" using ok by (simp add: kept_ok_def same dur slot_ok_def)
  show "once_ok s \<Longrightarrow> once_ok t" by (simp add: once_ok_def same dur)
  show "handed t = handed s @ [local_request sid r]" by (rule same)
  show "x \<in> set (queue_of t k) \<or> local_request k x = local_request sid r" if x: "x \<in> set (queue_of s k)" for k x
  proof (cases "k = sid \<and> get_prop x ''id'' = JStr (str_prop r ''id'')")
    case True
    then have "get_prop x ''id'' = get_prop r ''id''" using strings(2) by (cases "get_prop r ''id''") (simp_all add: str_prop_def)
    then have "x = r" using strings(1) x r True by (auto simp: distinct_map dest: inj_onD)
    then show ?thesis using True by simp
  next
    case False
    then show ?thesis using x by (auto simp: queue)
  qed
qed

lemma take_durable:
  assumes ok: "kept_ok s" and q: "slot s = Some (durable_request sid r)" and sid: "sid \<noteq> []" and r: "row_id r \<in> set (born s)"
    and t: "t = handleRestoreDraftApplied (hand_over (durable_request sid r) s)"
  shows "kept_ok t" "once_ok s \<Longrightarrow> once_ok t" "handed t = handed s @ [durable_request sid r]" "queue_of t = queue_of s"
proof -
  let ?u = "hand_over (durable_request sid r) s" and ?i = "row_id r"
  let ?v = "?u\<lparr>store := markDraftRestoreApplied ?i (store ?u)\<rparr>"
  have i: "?i \<noteq> []" using ok r by (auto simp: kept_ok_def kept_inv_def)
  have run: "t = (consume_row sid ?i ?v)\<lparr>slot := None\<rparr>"
    using sid i by (simp add: t handleRestoreDraftApplied_def hand_over_fields(3) q durable_request_def Let_def)
  have uv: "born ?v = born s" "server_rows ?v = server_rows s" "seen_ids ?v = seen_ids s" "calls ?v = calls s"
    "deleted ?v = deleted s" "handed ?v = handed s @ [durable_request sid r]" "queue_of ?v = queue_of s"
    "slot ?v = Some (durable_request sid r)"
    using hand_over_fields [of "durable_request sid r" s]
    by (simp_all add: seen_ids_def q) (simp add: queue_of_def queue_kept fun_eq_iff)
  have led: "ledger ?v = (if ?i \<in> set (ledger s) then ledger s else ledger s @ [?i])"
    by (simp only: ledger_marked hand_over_fields)
  have dur: "durable_ids ?v = durable_ids s @ [?i]"
    unfolding durable_ids_def uv map_filter_snoc by (simp add: durable_request_def)
  have "kept_ok ?v" using ok r unfolding kept_ok_def uv led dur q by (auto simp: kept_inv_def)
  then have kept: "kept_ok (consume_row sid ?i ?v)" by (rule kept_consume) (simp add: dur)
  have fields: "ledger t = ledger ?v" "durable_ids t = durable_ids ?v" "handed t = handed ?v" "server_rows t = server_rows s"
    "queue_of t = queue_of s" "slot t = None" "seen_ids t = seen_ids (consume_row sid ?i ?v)"
    using consume_row_fields [of sid ?i ?v] uv
    by (simp_all add: run ledger_def durable_ids_def seen_ids_def queue_of_def fun_eq_iff)
  show "kept_ok t"
    by (rule kept_slot [OF kept]) (simp_all add: run slot_ok_def ledger_def seen_ids_def queue_of_def fun_eq_iff)
  show "handed t = handed s @ [durable_request sid r]" "queue_of t = queue_of s" using fields uv by simp_all
  assume once: "once_ok s"
  then have new: "?i \<notin> set (durable_ids s)" by (simp add: once_ok_def q durable_request_def)
  have "set (seen_ids t) \<subseteq> set (seen_ids s)" using consume_row_seen [of sid ?i ?v] fields uv by simp
  then show "once_ok t" using once new unfolding once_ok_def fields dur led by auto
qed

text \<open>
  A read is overtaken by a consume when the answer of the consume finds the row still on a cached
  list or in a response under way.
\<close>

definition read_settled :: "restore_event \<Rightarrow> restore_state \<Rightarrow> bool" where
  "read_settled x s \<longleftrightarrow> (case x of Answer n ok \<Rightarrow> ok \<and> n < length (calls s) \<longrightarrow> snd (calls s ! n) \<notin> set (seen_ids s) | _ \<Rightarrow> True)"

lemma answer_keeps:
  assumes ok: "kept_ok s"
  shows "kept_ok (answer_consume heard n b s)" "once_ok s \<Longrightarrow> read_settled (Answer n b) s \<Longrightarrow> once_ok (answer_consume heard n b s)"
    "handed (answer_consume heard n b s) = handed s" "queue_of (answer_consume heard n b s) = queue_of s"
proof -
  let ?t = "answer_consume heard n b s" and ?i = "snd (calls s ! n)"
  have plain: "durable_ids ?t = durable_ids s" "born ?t = born s" "server_rows ?t = server_rows s" "seen_ids ?t = seen_ids s"
    "calls ?t = calls s" "deleted ?t = deleted s" "slot ?t = slot s" "handed ?t = handed s" "queue_of ?t = queue_of s"
    by (auto simp: answer_consume_def Let_def durable_ids_def seen_ids_def queue_of_def queue_kept fun_eq_iff)
  have led: "ledger ?t = (if n < length (calls s) \<and> n \<notin> set (answered s) \<and> (b \<longrightarrow> n \<in> set (deleted s)) \<and>
      heard n (mounted_at s) (length (calls s)) \<and> b then filter (\<lambda>j. j \<noteq> ?i) (ledger s) else ledger s)"
    using ledger_forgotten [of ?i s] by (auto simp: answer_consume_def Let_def ledger_def)
  then have sub: "set (ledger ?t) \<subseteq> set (ledger s)" by auto
  show "kept_ok ?t" using ok sub unfolding kept_ok_def plain by (auto simp: kept_inv_def)
  show "handed ?t = handed s" "queue_of ?t = queue_of s" by (rule plain)+
  assume once: "once_ok s" and settled: "read_settled (Answer n b) s"
  have gone: "?i \<notin> row_id ` set (server_rows s)" if "n \<in> set (deleted s)"
    using ok that by (auto simp: kept_ok_def kept_inv_def)
  have "i \<in> set (ledger ?t) \<or> i \<notin> row_id ` set (server_rows s) \<union> set (seen_ids s)" if "i \<in> set (durable_ids s)" for i
  proof (cases "i \<in> set (ledger s) \<and> i \<notin> set (ledger ?t)")
    case True
    then have "i = ?i" "b" "n < length (calls s)" "n \<in> set (deleted s)" by (auto simp: led split: if_splits)
    then show ?thesis using settled gone by (simp add: read_settled_def)
  next
    case False
    then show ?thesis using once that by (auto simp: once_ok_def)
  qed
  then show "once_ok ?t" using once unfolding once_ok_def plain by blast
qed

lemma land_seen: "set (seen_ids (land_rows n s)) \<subseteq> set (seen_ids s)"
proof (cases "n < length (under_way s)")
  case False
  then show ?thesis by (simp add: land_rows_def)
next
  case True
  have p: "under_way s ! n \<in> set (under_way s)" using True by simp
  then have "set (snd (under_way s ! n)) \<subseteq> rows_in (under_way s)" unfolding rows_in_def by blast
  moreover have "rows_in (take n (under_way s) @ drop (Suc n) (under_way s)) \<subseteq> rows_in (under_way s)"
    unfolding rows_in_def using set_take_subset [of n "under_way s"] set_drop_subset [of "Suc n" "under_way s"] by fastforce
  ultimately have "rows_in (cached_rows (land_rows n s)) \<union> rows_in (under_way (land_rows n s)) \<subseteq>
      rows_in (cached_rows s) \<union> rows_in (under_way s)"
    using rows_in_set [of "fst (under_way s ! n)" "snd (under_way s ! n)" "cached_rows s"] True
    unfolding land_rows_def by auto
  then show ?thesis unfolding seen_ids_set by (rule image_mono)
qed

lemma give_keeps:
  assumes ok: "kept_ok s" and new: "row_id r \<noteq> []" "row_id r \<notin> set (born s)"
    and t: "t = s\<lparr>server_rows := server_rows s @ [r], born := born s @ [row_id r]\<rparr>"
  shows "kept_ok t" "once_ok s \<Longrightarrow> once_ok t"
proof -
  have same: "ledger t = ledger s" "durable_ids t = durable_ids s" "seen_ids t = seen_ids s" "calls t = calls s"
    "deleted t = deleted s" "slot t = slot s" "queue_of t = queue_of s" "born t = born s @ [row_id r]"
    "server_rows t = server_rows s @ [r]"
    by (simp_all add: t ledger_def durable_ids_def seen_ids_def queue_of_def fun_eq_iff)
  have calls_old: "row_id r \<notin> snd ` set (calls s)" "row_id r \<notin> set (durable_ids s)"
    using ok new by (auto simp: kept_ok_def kept_inv_def)
  have "snd (calls s ! n) \<noteq> row_id r" if "n < length (calls s)" for n
    using calls_old(1) nth_mem [OF that] by (metis image_eqI)
  then show "kept_ok t" using ok new unfolding kept_ok_def same
    by (auto simp: kept_inv_def slot_ok_def split: option.splits)
  show "once_ok s \<Longrightarrow> once_ok t" using calls_old(2) unfolding once_ok_def same by auto
qed

lemma queue_local_keeps:
  assumes ok: "kept_ok s" and t: "t = s\<lparr>store := enqueuePendingSendRestore r (store s)\<rparr>"
  shows "kept_ok t" "once_ok s \<Longrightarrow> once_ok t" "set (queue_of s sid) \<subseteq> set (queue_of t sid)"
proof -
  have same: "ledger t = ledger s" "durable_ids t = durable_ids s" "seen_ids t = seen_ids s" "calls t = calls s"
    "deleted t = deleted s" "slot t = slot s" "born t = born s" "server_rows t = server_rows s"
    by (simp_all add: t ledger_def durable_ids_def seen_ids_def ledger_kept)
  have queue: "queue_of t k = (if k = str_prop r ''sessionId'' \<and> k \<noteq> [] \<and> str_prop r ''id'' \<noteq> [] \<and>
      get_prop r ''id'' \<notin> (\<lambda>x. get_prop x ''id'') ` set (queue_of s k) then queue_of s k @ [r] else queue_of s k)" for k
    by (simp add: t queue_of_def queue_enqueued)
  then show grows: "set (queue_of s sid) \<subseteq> set (queue_of t sid)" for sid by auto
  have "queue_inv (queue_of t)"
    using ok str_prop_id [of r] by (auto simp: kept_ok_def queue_inv_def queue)
  moreover have "slot_ok (queue_of t) (born s) (slot s)"
    using ok grows unfolding kept_ok_def slot_ok_def by (auto split: option.splits) blast+
  ultimately show "kept_ok t" using ok by (simp add: kept_ok_def same)
  show "once_ok s \<Longrightarrow> once_ok t" unfolding once_ok_def same .
qed

lemma adopt_keeps:
  assumes ok: "kept_ok s" and t: "adopt_restore s = Inr t"
  shows "kept_ok t" "once_ok s \<Longrightarrow> once_ok t"
    "\<exists>new. handed t = handed s @ new \<and>
       (\<forall>k. \<forall>x \<in> set (queue_of s k). x \<in> set (queue_of t k) \<or> local_request k x \<in> set new)"
proof -
  have "kept_ok t \<and> (once_ok s \<longrightarrow> once_ok t) \<and> (\<exists>new. handed t = handed s @ new \<and>
       (\<forall>k. \<forall>x \<in> set (queue_of s k). x \<in> set (queue_of t k) \<or> local_request k x \<in> set new))"
    using t
  proof (cases rule: adopt_cases)
    case (left a)
    then have "kept_ok t"
      by (intro kept_slot [OF ok]) (use ok in \<open>simp_all add: kept_ok_def ledger_def seen_ids_def queue_of_def fun_eq_iff\<close>)
    moreover have "once_ok s \<longrightarrow> once_ok t"
      by (intro impI, erule once_slot) (simp_all add: left ledger_def seen_ids_def)
    moreover have "queue_of t = queue_of s" "handed t = handed s" by (simp_all add: left queue_of_def fun_eq_iff)
    ultimately show ?thesis by simp
  next
    case (took q)
    then consider sid r where "sid \<noteq> []" "r \<in> set (queue_of s sid)" "q = local_request sid r"
      | sid r where "sid \<noteq> []" "q = durable_request sid r" "row_id r \<in> set (born s)"
      using ok unfolding kept_ok_def slot_ok_def by auto
    then show ?thesis
    proof cases
      case 1
      note l = take_local [OF ok _ 1(1,2)]
      have q: "slot s = Some (local_request sid r)" "t = handleRestoreDraftApplied (hand_over (local_request sid r) s)"
        using took 1 by simp_all
      show ?thesis using l(1,2,3) [OF q] l(4) [OF q] by (intro conjI impI exI [of _ "[local_request sid r]"]) auto
    next
      case 2
      have q: "slot s = Some (durable_request sid r)" "t = handleRestoreDraftApplied (hand_over (durable_request sid r) s)"
        using took 2 by simp_all
      note l = take_durable [OF ok q(1) 2(1,3) q(2)]
      show ?thesis using l by auto
    qed
  qed
  then show "kept_ok t" "once_ok s \<Longrightarrow> once_ok t"
    "\<exists>new. handed t = handed s @ new \<and>
       (\<forall>k. \<forall>x \<in> set (queue_of s k). x \<in> set (queue_of t k) \<or> local_request k x \<in> set new)" by blast+
qed

lemma restore_step_keeps:
  assumes ok: "kept_ok s" and t: "restore_step heard x s = Inr t"
  shows "kept_ok t" "once_ok s \<Longrightarrow> read_settled x s \<Longrightarrow> once_ok t"
    "\<exists>new. handed t = handed s @ new \<and>
       (\<forall>k. \<forall>r \<in> set (queue_of s k). r \<in> set (queue_of t k) \<or> local_request k r \<in> set new)"
proof -
  let ?Q = "kept_ok t \<and> (once_ok s \<longrightarrow> read_settled x s \<longrightarrow> once_ok t) \<and> (\<exists>new. handed t = handed s @ new \<and>
       (\<forall>k. \<forall>r \<in> set (queue_of s k). r \<in> set (queue_of t k) \<or> local_request k r \<in> set new))"
  have frame: ?Q if "ledger t = ledger s" "handed t = handed s" "born t = born s" "server_rows t = server_rows s"
      "set (seen_ids t) \<subseteq> set (seen_ids s)" "calls t = calls s" "deleted t = deleted s" "queue_of t = queue_of s"
      "slot t = slot s \<or> slot t = None"
  proof -
    have "slot_ok (queue_of s) (born s) (slot t)" using that(9) ok by (auto simp: kept_ok_def slot_ok_def)
    then have "kept_ok t" by (rule kept_slot [OF ok that(1-8)])
    moreover have "once_ok s \<longrightarrow> once_ok t"
      by (intro impI, erule once_slot) (use that in auto)
    ultimately show ?thesis using that by simp
  qed
  have ?Q
  proof (cases x)
    case Reconcile
    then show ?thesis using reconcile_keeps [OF ok] t by auto
  next
    case Offer
    then show ?thesis using offer_keeps [OF ok] t by auto
  next
    case Adopt
    then have a: "adopt_restore s = Inr t" using t by simp
    show ?thesis using adopt_keeps [OF ok a] by blast
  next
    case (Queue_local r)
    then have t: "t = s\<lparr>store := enqueuePendingSendRestore r (store s)\<rparr>" using t by simp
    have "handed t = handed s" by (simp add: t)
    then show ?thesis using queue_local_keeps [OF ok t] by auto
  next
    case (Give_row r)
    show ?thesis
    proof (cases "row_id r = [] \<or> row_id r \<in> set (born s)")
      case True
      then have "t = s" using Give_row t by simp
      then show ?thesis using ok by simp
    next
      case False
      then have t: "t = s\<lparr>server_rows := server_rows s @ [r], born := born s @ [row_id r]\<rparr>" using Give_row t by simp
      have "handed t = handed s" "queue_of t = queue_of s" by (simp_all add: t queue_of_def fun_eq_iff)
      then show ?thesis using give_keeps [OF ok _ _ t] False by simp
    qed
  next
    case (Read_rows sid)
    then have t: "t = s\<lparr>under_way := under_way s @ [(sid, filter (\<lambda>r. row_session r = sid) (server_rows s))]\<rparr>" using t by simp
    have same: "ledger t = ledger s" "durable_ids t = durable_ids s" "calls t = calls s" "server_rows t = server_rows s"
      "deleted t = deleted s" "slot t = slot s" "queue_of t = queue_of s" "born t = born s" "handed t = handed s"
      by (simp_all add: t ledger_def durable_ids_def queue_of_def fun_eq_iff)
    have seen: "set (seen_ids t) \<subseteq> set (seen_ids s) \<union> row_id ` set (server_rows s)"
      by (auto simp: t seen_ids_def)
    have kept: "kept_inv (ledger s) (durable_ids s) (born s) (row_id ` set (server_rows s)) (set (seen_ids s)) (calls s) (deleted s)"
      using ok by (simp only: kept_ok_def simp_thms)
    have "row_id ` set (server_rows s) \<union> set (seen_ids t) \<subseteq> set (born s)" using seen kept_inv_parts(1) [OF kept] by blast
    then have "kept_ok t" unfolding kept_ok_def same
      using kept_inv_change [OF kept _ kept_inv_parts(2,3) [OF kept]] ok by (simp only: kept_ok_def simp_thms)
    moreover have "once_ok t" if once: "once_ok s"
    proof -
      have "\<forall>i \<in> set (durable_ids s). i \<in> set (ledger s) \<or> i \<notin> row_id ` set (server_rows s) \<union> set (seen_ids t)"
        using once seen unfolding once_ok_def by blast
      then show ?thesis using once unfolding once_ok_def same by (simp only: simp_thms)
    qed
    ultimately show ?thesis by (simp add: same)
  next
    case (Delete_row n)
    then have t: "t = delete_row n s" using t by simp
    have same: "ledger t = ledger s" "durable_ids t = durable_ids s" "seen_ids t = seen_ids s" "calls t = calls s"
      "slot t = slot s" "queue_of t = queue_of s" "born t = born s" "handed t = handed s"
      by (simp_all add: t delete_row_def ledger_def durable_ids_def seen_ids_def queue_of_def fun_eq_iff)
    have kept: "kept_inv (ledger s) (durable_ids s) (born s) (row_id ` set (server_rows s)) (set (seen_ids s)) (calls s) (deleted s)"
      using ok by (simp only: kept_ok_def simp_thms)
    have rows: "row_id ` set (server_rows t) \<subseteq> row_id ` set (server_rows s)" by (auto simp: t delete_row_def)
    have gone: "set (born s) \<subseteq> row_id ` set (server_rows t) \<union> set (durable_ids s)"
    proof
      fix i
      assume "i \<in> set (born s)"
      then have i: "i \<in> row_id ` set (server_rows s) \<or> i \<in> set (durable_ids s)" using ok by (auto simp: kept_ok_def kept_inv_def)
      show "i \<in> row_id ` set (server_rows t) \<union> set (durable_ids s)"
      proof (cases "i \<in> set (durable_ids s)")
        case False
        have "i \<noteq> snd (calls s ! n)" if n: "n < length (calls s)"
        proof -
          have "snd (calls s ! n) \<in> snd ` set (calls s)" using n by simp
          then show ?thesis using kept_inv_parts(4) [OF kept] False by blast
        qed
        then show ?thesis using i False by (auto simp: t delete_row_def)
      qed simp
    qed
    have del: "n' < length (calls s) \<and> snd (calls s ! n') \<notin> row_id ` set (server_rows t)" if "n' \<in> set (deleted t)" for n'
    proof (cases "n' \<in> set (deleted s)")
      case True
      then show ?thesis using kept_inv_parts(3) [OF kept] rows by blast
    next
      case False
      then show ?thesis using that by (auto simp: t delete_row_def split: if_splits)
    qed
    have "row_id ` set (server_rows t) \<union> set (seen_ids s) \<subseteq> set (born s)" using rows kept_inv_parts(1) [OF kept] by blast
    from kept_inv_change [OF kept this gone] del have "kept_ok t"
      unfolding kept_ok_def same using ok by (simp only: kept_ok_def simp_thms) blast
    moreover have "once_ok t" if once: "once_ok s"
    proof -
      have "\<forall>i \<in> set (durable_ids s). i \<in> set (ledger s) \<or> i \<notin> row_id ` set (server_rows t) \<union> set (seen_ids s)"
        using once rows unfolding once_ok_def by blast
      then show ?thesis using once unfolding once_ok_def same by (simp only: simp_thms)
    qed
    ultimately show ?thesis by (simp add: same)
  next
    case (Answer n b)
    then have "t = answer_consume heard n b s" using t by simp
    then show ?thesis using answer_keeps [where heard = heard and n = n and b = b, OF ok] Answer by auto
  next
    case (Land_rows n)
    then have t: "t = land_rows n s" using t by simp
    show ?thesis using land_seen [of n s] by (intro frame) (simp_all add: t, simp_all add: land_rows_def ledger_def queue_of_def fun_eq_iff)
  next
    case (Remount reload)
    then have t: "t = remount reload s" using t by simp
    show ?thesis by (intro frame) (auto simp: t remount_def ledger_def queue_of_def seen_ids_def fun_eq_iff)
  next
    case (Type_draft sid d)
    then have t: "t = s\<lparr>store := setInputDraft sid d (store s)\<rparr>" using t by simp
    show ?thesis by (intro frame) (simp_all add: t ledger_def queue_of_def seen_ids_def ledger_kept queue_kept fun_eq_iff)
  next
    case (Clear_draft sid)
    then have t: "t = s\<lparr>store := clearInputDraft sid (store s)\<rparr>" using t by simp
    show ?thesis by (intro frame) (simp_all add: t ledger_def queue_of_def seen_ids_def ledger_kept queue_kept fun_eq_iff)
  next
    case (Show_session sid)
    then have t: "t = s\<lparr>active_session := sid\<rparr>" using t by simp
    show ?thesis by (intro frame) (simp_all add: t ledger_def queue_of_def seen_ids_def fun_eq_iff)
  next
    case (Show_composer b)
    then have t: "t = s\<lparr>composer_shown := b\<rparr>" using t by simp
    show ?thesis by (intro frame) (simp_all add: t ledger_def queue_of_def seen_ids_def fun_eq_iff)
  qed
  then show "kept_ok t" "once_ok s \<Longrightarrow> read_settled x s \<Longrightarrow> once_ok t"
    "\<exists>new. handed t = handed s @ new \<and>
       (\<forall>k. \<forall>r \<in> set (queue_of s k). r \<in> set (queue_of t k) \<or> local_request k r \<in> set new)" by blast+
qed

end
