(* ===== verification/Restore_Properties.thy ===== *)
theory Restore_Properties
  imports Restore_Facts
begin

text \<open>
  The properties of the hand-over of restored prompts: nothing is lost, nothing is handed over
  twice unless a read is overtaken, queued prompts reach a user who keeps clearing the composer,
  and two runs in which the bookkeeping goes wrong.
\<close>

section \<open>Runs\<close>

fun reads_settled :: "(nat \<Rightarrow> nat \<Rightarrow> nat \<Rightarrow> bool) \<Rightarrow> restore_event list \<Rightarrow> restore_state \<Rightarrow> bool" where
  "reads_settled heard [] s \<longleftrightarrow> True"
| "reads_settled heard (x # xs) s \<longleftrightarrow> read_settled x s \<and>
     (case restore_step heard x s of Inl e \<Rightarrow> True | Inr s' \<Rightarrow> reads_settled heard xs s')"

text \<open>A device that took part in no hand-over yet; its queues may hold prompts from before.\<close>

definition restore_start :: "restore_state \<Rightarrow> bool" where
  "restore_start s \<longleftrightarrow> handed s = [] \<and> ledger s = [] \<and> slot s = None \<and> cached_rows s = [] \<and> under_way s = [] \<and>
     calls s = [] \<and> deleted s = [] \<and> set (born s) = row_id ` set (server_rows s) \<and> [] \<notin> set (born s) \<and> queue_inv (queue_of s)"

lemma start_ok:
  assumes s: "restore_start s"
  shows "kept_ok s" "once_ok s"
proof -
  from s have born: "set (born s) = row_id ` set (server_rows s)" and rest: "handed s = []" "ledger s = []" "slot s = None"
      "cached_rows s = []" "under_way s = []" "calls s = []" "deleted s = []" "[] \<notin> set (born s)" "queue_inv (queue_of s)"
    unfolding restore_start_def by blast+
  have none: "durable_ids s = []" "seen_ids s = []" by (simp_all add: durable_ids_def seen_ids_def rest map_filter_simps)
  show "kept_ok s" using rest born by (simp add: kept_ok_def kept_inv_def slot_ok_def none)
  show "once_ok s" using rest by (simp add: once_ok_def none)
qed

lemma restore_run_keeps:
  assumes "kept_ok s" "restore_run heard xs s = Inr t"
  shows "kept_ok t" "once_ok s \<Longrightarrow> reads_settled heard xs s \<Longrightarrow> once_ok t"
    "\<exists>new. handed t = handed s @ new \<and>
       (\<forall>k. \<forall>r \<in> set (queue_of s k). r \<in> set (queue_of t k) \<or> local_request k r \<in> set new)"
proof -
  have "kept_ok t \<and> (once_ok s \<longrightarrow> reads_settled heard xs s \<longrightarrow> once_ok t) \<and> (\<exists>new. handed t = handed s @ new \<and>
       (\<forall>k. \<forall>r \<in> set (queue_of s k). r \<in> set (queue_of t k) \<or> local_request k r \<in> set new))"
    using assms
  proof (induction xs arbitrary: s)
    case (Cons x xs)
    then obtain u where u: "restore_step heard x s = Inr u" "restore_run heard xs u = Inr t" by (auto split: sum.splits)
    note step = restore_step_keeps [OF Cons.prems(1) u(1)]
    note rest = Cons.IH [OF step(1) u(2)]
    obtain new1 where new1: "handed u = handed s @ new1"
      "\<forall>k. \<forall>r \<in> set (queue_of s k). r \<in> set (queue_of u k) \<or> local_request k r \<in> set new1"
      using step(3) by blast
    obtain new2 where new2: "handed t = handed u @ new2"
      "\<forall>k. \<forall>r \<in> set (queue_of u k). r \<in> set (queue_of t k) \<or> local_request k r \<in> set new2"
      using rest by blast
    have "handed t = handed s @ (new1 @ new2)" using new1(1) new2(1) by simp
    moreover have "\<forall>k. \<forall>r \<in> set (queue_of s k). r \<in> set (queue_of t k) \<or> local_request k r \<in> set (new1 @ new2)"
      using new1(2) new2(2) unfolding set_append by blast
    moreover have "once_ok s \<Longrightarrow> reads_settled heard (x # xs) s \<Longrightarrow> once_ok t"
      using step(2) rest u(1) by simp
    ultimately show ?case using rest by blast
  qed simp
  then show "kept_ok t" "once_ok s \<Longrightarrow> reads_settled heard xs s \<Longrightarrow> once_ok t"
    "\<exists>new. handed t = handed s @ new \<and>
       (\<forall>k. \<forall>r \<in> set (queue_of s k). r \<in> set (queue_of t k) \<or> local_request k r \<in> set new)" by blast+
qed

section \<open>A concrete device\<close>

definition demo_row :: "string \<Rightarrow> restore_row" where
  "demo_row i = \<lparr>row_id = i, row_session = ''s'', row_content = Some (''text '' @ i), row_attachments = JUndef\<rparr>"

definition demo_device :: "js list obj \<Rightarrow> string list \<Rightarrow> restore_state" where
  "demo_device queues rows =
     \<lparr>store = (createChatStore (at_slug ''a'') (\<lambda>_. None))\<lparr>chat :=
        (chat (createChatStore (at_slug ''a'') (\<lambda>_. None)))\<lparr>pendingSendRestores := queues\<rparr>\<rparr>,
      slot = None, cached_rows = [], reconciling = [], calls = [], deleted = [], answered = [], mounted_at = 0,
      server_rows = map demo_row rows, under_way = [], active_session = Some ''s'', composer_shown = True,
      appliedRestoreId = None, dropped_messages = [], handed = [], born = rows\<rparr>"

abbreviation demo_heard :: "nat \<Rightarrow> nat \<Rightarrow> nat \<Rightarrow> bool" where
  "demo_heard \<equiv> \<lambda>n m k. m \<le> n \<and> Suc n = k"

lemma demo_start: "restore_start (demo_device [] [''r'', ''q''])"
proof -
  have none: "ledger (demo_device [] [''r'', ''q'']) = []" by code_simp
  have "queue_of (demo_device [] [''r'', ''q'']) = (\<lambda>sid. [])" by (simp add: queue_of_def demo_device_def default_to_def fun_eq_iff)
  then have "queue_inv (queue_of (demo_device [] [''r'', ''q'']))" by (simp add: queue_inv_def)
  then show ?thesis unfolding restore_start_def using none by (simp add: demo_device_def demo_row_def)
qed

section \<open>At most once\<close>


definition calm_run :: "restore_event list" where
  "calm_run = [Read_rows ''s'', Land_rows 0, Offer, Adopt, Adopt, Delete_row 0, Answer 0 False, Clear_draft ''s'',
     Remount True, Read_rows ''s'', Land_rows 0, Reconcile, Offer, Adopt, Delete_row 1]"


section \<open>Nothing is lost\<close>

lemma draft_written: "obj_get (inputDrafts (chat (setInputDraftAttachments k us (setInputDraft k d c)))) j =
    (if j = k then Some (JStr d) else obj_get (inputDrafts (chat c)) j)"
  "uploads_of (setInputDraftAttachments k us (setInputDraft k d c)) j = (if j = k then us else uploads_of c j)"
  by (simp_all add: setInputDraftAttachments_def set_uploads_def setInputDraft_def set_drafts_def obj_simps uploads_of_def
      set_or_delete_get default_to_def)

lemma handled_drafts:
  "inputDrafts (chat (store (handleRestoreDraftApplied s))) = inputDrafts (chat (store s))"
  "uploads_of (store (handleRestoreDraftApplied s)) = uploads_of (store s)"
  by (auto simp: handleRestoreDraftApplied_def Let_def consume_row_fields(8) markDraftRestoreApplied_def set_applied_def
      dequeuePendingSendRestore_def set_pending_def uploads_of_def fun_eq_iff split: option.split)

lemma adopted_text:
  assumes "kept_ok s" "adopt_restore s = Inr u" "handed u \<noteq> handed s"
  shows "\<exists>q. slot s = Some q \<and> handed u = handed s @ [q] \<and> request_session q = Some (draftKey s) \<and>
    draft_text (inputDrafts (chat (store u))) (draftKey s) = Inr (request_content q) \<and>
    uploads_of (store u) (draftKey s) = map attachmentToDraftUpload (attachment_values (request_attachments q)) \<and>
    (\<exists>d. draft_text (inputDrafts (chat (store s))) (draftKey s) = Inr d \<and> trim d = []) \<and> uploads_of (store s) (draftKey s) = []"
  using assms(2)
proof (cases rule: adopt_cases)
  case (left a)
  then show ?thesis using assms(3) by simp
next
  case (took q)
  then obtain sid where "sid \<noteq> []" "request_session q = Some sid"
    using assms(1) by (auto simp: kept_ok_def slot_ok_def local_request_def durable_request_def)
  then have session: "request_session q = Some (draftKey s)" using took(3) by (simp add: truthy_eq_Some)
  have "handed (handleRestoreDraftApplied (hand_over q s)) = handed s @ [q]"
    by (auto simp: handleRestoreDraftApplied_def Let_def consume_row_fields hand_over_fields split: option.split)
  moreover have "draft_text (inputDrafts (chat (store u))) (draftKey s) = Inr (request_content q)"
    unfolding took(2) handled_drafts hand_over_def by (simp add: draft_text_def draft_written)
  moreover have "uploads_of (store u) (draftKey s) = map attachmentToDraftUpload (attachment_values (request_attachments q))"
    unfolding took(2) handled_drafts hand_over_def by (simp add: draft_written)
  ultimately show ?thesis using took session by simp
qed


definition failed_send :: "string \<Rightarrow> js" where
  "failed_send i = JObj [(''id'', JStr i), (''content'', JStr (''again '' @ i)), (''sessionId'', JStr ''s'')]"


section \<open>Queued prompts arrive\<close>

definition ready :: "string \<Rightarrow> restore_state \<Rightarrow> bool" where
  "ready sid s \<longleftrightarrow> composer_shown s \<and> active_session s = Some sid \<and> sid \<noteq> [] \<and> slot s = None \<and>
     (\<exists>d. draft_text (inputDrafts (chat (store s))) sid = Inr d \<and> trim d = []) \<and> uploads_of (store s) sid = []"

lemma cleared:
  "draft_text (inputDrafts (chat (clearInputDraft sid c))) sid = Inr []" "uploads_of (clearInputDraft sid c) sid = []"
  by (simp_all add: clearInputDraft_def draft_text_def uploads_of_def set_uploads_def set_drafts_def default_to_def obj_simps)

lemma trim_Nil: "trim [] = []"
  by (simp add: trim_def trim_start_def trim_end_def)

lemma drain_round:
  assumes ok: "kept_ok s" and ready: "ready sid s" and queue: "queue_of s sid = r # rs"
    and fresh: "appliedRestoreId s \<noteq> Some (str_prop r ''id'')"
  shows "\<exists>t. restore_run heard [Offer, Adopt, Clear_draft sid] s = Inr t \<and> kept_ok t \<and> ready sid t \<and> queue_of t sid = rs \<and>
    handed t = handed s @ [local_request sid r] \<and> appliedRestoreId t = Some (str_prop r ''id'')"
proof -
  let ?q = "local_request sid r"
  let ?s1 = "s\<lparr>slot := Some ?q\<rparr>" and ?i = "str_prop r ''id''"
  let ?t1 = "handleRestoreDraftApplied (hand_over ?q ?s1)"
  let ?t = "?t1\<lparr>store := clearInputDraft sid (store ?t1)\<rparr>"
  have sid: "sid \<noteq> []" "active_session s = Some sid" using ready by (simp_all add: ready_def)
  have offer: "offer_restore s = ?s1" using ready queue by (simp add: offer_restore_def ready_def truthy_eq_Some)
  have key: "draftKey ?s1 = sid" using sid by (simp add: draftKey_def default_to_def)
  have adopt: "adopt_restore ?s1 = Inr ?t1"
    using ready fresh key by (auto simp: adopt_restore_def ready_def hand_over_def local_request_def)
  have run: "restore_run heard [Offer, Adopt, Clear_draft sid] s = Inr ?t" by (simp add: offer adopt)
  have kept: "kept_ok ?t" by (rule restore_run_keeps(1) [OF ok run])
  have t1: "?t1 = (hand_over ?q ?s1)\<lparr>store := dequeuePendingSendRestore sid ?i (store (hand_over ?q ?s1)), slot := None\<rparr>"
    using sid by (simp add: handleRestoreDraftApplied_def hand_over_fields(3) local_request_def Let_def)
  have "queue_of ?t sid = filter (\<lambda>x. get_prop x ''id'' \<noteq> JStr ?i) (queue_of (hand_over ?q ?s1) sid)"
    by (simp add: t1 queue_of_def queue_kept queue_dequeued)
  also have "queue_of (hand_over ?q ?s1) sid = r # rs" using queue by (simp add: hand_over_fields(2)) (simp add: queue_of_def)
  also have "filter (\<lambda>x. get_prop x ''id'' \<noteq> JStr ?i) (r # rs) = rs"
  proof -
    have "distinct (map (\<lambda>x. get_prop x ''id'') (r # rs))" "is_string (get_prop r ''id'')"
      using ok queue unfolding kept_ok_def queue_inv_def by (metis, metis list.set_intros(1))
    moreover from this(2) have "get_prop r ''id'' = JStr ?i" by (cases "get_prop r ''id''") (simp_all add: str_prop_def)
    ultimately show ?thesis by (auto simp: filter_id_conv) (metis image_eqI)
  qed
  finally have q: "queue_of ?t sid = rs" .
  have h: "handed ?t = handed s @ [?q]" "appliedRestoreId ?t = Some ?i"
    by (simp_all add: t1 hand_over_fields) (simp add: hand_over_def local_request_def)
  have "ready sid ?t" using ready cleared [of sid "store ?t1"]
    by (simp add: ready_def t1) (simp add: hand_over_def trim_Nil)
  then show ?thesis using run kept q h by blast
qed

lemma restore_run_append: "restore_run heard (xs @ ys) s =
    (case restore_run heard xs s of Inl e \<Rightarrow> Inl e | Inr t \<Rightarrow> restore_run heard ys t)"
  by (induction xs arbitrary: s) (simp_all split: sum.split)

text \<open>Prompts queued for a session reach the user: while the composer shows that session and the user clears the draft after each one, every queued prompt is handed over, in the order it was queued, and the queue is empty in the end.\<close>

theorem queued_restores_drain:
  assumes start: "restore_start s0" "restore_run heard xs s0 = Inr s" and ready: "ready sid s" and fresh: "appliedRestoreId s = None"
  shows "\<exists>t. restore_run heard (concat (replicate (length (queue_of s sid)) [Offer, Adopt, Clear_draft sid])) s = Inr t \<and>
    queue_of t sid = [] \<and> handed t = handed s @ map (local_request sid) (queue_of s sid)"
proof -
  have drain: "\<exists>t. restore_run heard (concat (replicate (length rs) [Offer, Adopt, Clear_draft sid])) s = Inr t \<and>
      queue_of t sid = [] \<and> handed t = handed s @ map (local_request sid) rs"
    if "kept_ok s" "ready sid s" "queue_of s sid = rs" "\<forall>r \<in> set rs. appliedRestoreId s \<noteq> Some (str_prop r ''id'')" for rs s
    using that
  proof (induction rs arbitrary: s)
    case (Cons r rs)
    have "appliedRestoreId s \<noteq> Some (str_prop r ''id'')" using Cons.prems(4) by simp
    from drain_round [OF Cons.prems(1-3) this] obtain t where t:
      "restore_run heard [Offer, Adopt, Clear_draft sid] s = Inr t" "kept_ok t" "ready sid t" "queue_of t sid = rs"
      "handed t = handed s @ [local_request sid r]" "appliedRestoreId t = Some (str_prop r ''id'')" by blast
    have inv: "distinct (map (\<lambda>x. get_prop x ''id'') (r # rs))" "\<forall>x \<in> set (r # rs). is_string (get_prop x ''id'')"
      using Cons.prems(1,3) unfolding kept_ok_def queue_inv_def by (metis, metis)
    have ne: "str_prop x ''id'' \<noteq> str_prop r ''id''" if x: "x \<in> set rs" for x
    proof
      assume same: "str_prop x ''id'' = str_prop r ''id''"
      have "is_string (get_prop x ''id'')" "is_string (get_prop r ''id'')" using inv(2) x by simp_all
      then have "get_prop x ''id'' = get_prop r ''id''" using same
        by (cases "get_prop x ''id''"; cases "get_prop r ''id''") (simp_all add: str_prop_def)
      then show False using inv(1) x by (force simp: image_iff)
    qed
    have "\<forall>x \<in> set rs. appliedRestoreId t \<noteq> Some (str_prop x ''id'')"
    proof
      fix x
      assume "x \<in> set rs"
      then show "appliedRestoreId t \<noteq> Some (str_prop x ''id'')" using ne [of x] unfolding t(6) option.inject by metis
    qed
    from Cons.IH [OF t(2-4) this] obtain u where u: "queue_of u sid = []" "handed u = handed t @ map (local_request sid) rs"
      "restore_run heard (concat (replicate (length rs) [Offer, Adopt, Clear_draft sid])) t = Inr u" by blast
    have "restore_run heard ([Offer, Adopt, Clear_draft sid] @ concat (replicate (length rs) [Offer, Adopt, Clear_draft sid])) s = Inr u"
      unfolding restore_run_append t(1) sum.case by (rule u(3))
    moreover have "concat (replicate (length (r # rs)) [Offer, Adopt, Clear_draft sid]) =
        [Offer, Adopt, Clear_draft sid] @ concat (replicate (length rs) [Offer, Adopt, Clear_draft sid])" by simp
    ultimately have "restore_run heard (concat (replicate (length (r # rs)) [Offer, Adopt, Clear_draft sid])) s = Inr u"
      by (simp only:)
    then show ?case using u(1,2) t(5) by (intro exI [of _ u]) simp
  qed simp
  have "kept_ok s" by (rule restore_run_keeps(1) [OF start_ok(1) [OF start(1)] start(2)])
  then show ?thesis using drain [OF _ ready refl] fresh by simp
qed

theorem queued_restores_drain_witness:
  "\<exists>s t. restore_run demo_heard [Queue_local (failed_send ''f''), Queue_local (failed_send ''g'')] (demo_device [] [''r'', ''q'']) = Inr s \<and>
     restore_run demo_heard (concat (replicate 2 [Offer, Adopt, Clear_draft ''s''])) s = Inr t \<and> queue_of t ''s'' = [] \<and>
     handed t = [local_request ''s'' (failed_send ''f''), local_request ''s'' (failed_send ''g'')]"
proof -
  let ?a = "[Queue_local (failed_send ''f''), Queue_local (failed_send ''g'')]" and ?d = "demo_device [] [''r'', ''q'']"
  have view: "map_sum id (\<lambda>s. (queue_of s ''s'', composer_shown s, active_session s, slot s, draft_text (inputDrafts (chat (store s))) ''s'',
      uploads_of (store s) ''s'', appliedRestoreId s, handed s)) (restore_run demo_heard ?a ?d) =
      Inr ([failed_send ''f'', failed_send ''g''], True, Some ''s'', None, Inr [], [], None, [])" by code_simp
  then obtain s where s: "restore_run demo_heard ?a ?d = Inr s" "queue_of s ''s'' = [failed_send ''f'', failed_send ''g'']"
      "composer_shown s" "active_session s = Some ''s''" "slot s = None" "draft_text (inputDrafts (chat (store s))) ''s'' = Inr []"
      "uploads_of (store s) ''s'' = []" "appliedRestoreId s = None" "handed s = []"
    by (cases "restore_run demo_heard ?a ?d") auto
  have "ready ''s'' s" using s by (simp add: ready_def trim_def trim_start_def trim_end_def)
  from queued_restores_drain [OF demo_start s(1) this s(8)] show ?thesis using s(1,2,9)
    by (auto simp: numeral_2_eq_2 simp del: restore_run.simps)
qed

section \<open>Two races\<close>

text \<open>A refetch is answered between a consume and its answer; the user has sent the prompt meanwhile.\<close>

definition overtaken_run :: "restore_event list" where
  "overtaken_run = [Read_rows ''s'', Land_rows 0, Offer, Read_rows ''s'', Adopt, Adopt, Land_rows 0, Delete_row 0, Answer 0 True,
     Clear_draft ''s'', Offer, Adopt]"

text \<open>Two prompts are taken one after the other while the server refuses both consumes.\<close>

definition two_consumes :: "restore_event list" where
  "two_consumes = [Read_rows ''s'', Land_rows 0, Offer, Adopt, Adopt, Clear_draft ''s'', Offer, Adopt, Adopt, Answer 0 False, Answer 1 False,
     Read_rows ''s'', Land_rows 0, Reconcile, Delete_row 2, Answer 2 True]"

definition refetch_round :: "restore_event list" where
  "refetch_round = [Read_rows ''s'', Land_rows 0, Reconcile]"

lemma latest_is_demo: "latest_call_only heard \<Longrightarrow> heard = demo_heard"
  by (simp add: latest_call_only_def fun_eq_iff)

lemma round_still:
  assumes cached: "cached_rows s = [(''s'', [demo_row ''r''])]" "server_rows s = [demo_row ''r'']" "under_way s = []"
    and rec: "''r'' \<in> set (reconciling s)" "active_session s = Some ''s''"
  shows "restore_run heard refetch_round s = Inr s"
proof -
  let ?s1 = "s\<lparr>under_way := [(''s'', [demo_row ''r''])]\<rparr>"
  have read: "restore_step heard (Read_rows ''s'') s = Inr ?s1"
    using cached by (simp add: demo_row_def)
  have land: "land_rows 0 ?s1 = s"
    using cached by (simp add: land_rows_def)
  have "shown_rows s = [demo_row ''r'']" by (simp add: shown_rows_def cached rec default_to_def)
  then have "reconcile_rows s = s"
    using rec by (simp add: reconcile_rows_def reconcile_row_def truthy_eq_Some demo_row_def split: option.split)
  then show ?thesis using read land by (simp add: refetch_round_def)
qed

text \<open>C25. Two races. A read that the server answered before a consume and that lands before the answer of the consume puts the row back on the cached list; the answer then clears the ledger, and the prompt is handed over a second time, after the user sent it. And with the callbacks of the mutation library, which run for the latest call only, the refusal of an earlier consume never releases its row: no later refetch consumes it again while the hook is mounted.\<close>

theorem restore_races:
  assumes "latest_call_only heard"
  shows "(\<exists>t. restore_run heard overtaken_run (demo_device [] [''r'']) = Inr t \<and> durable_ids t = [''r'', ''r''] \<and>
       draft_text (inputDrafts (chat (store t))) ''s'' = Inr (''text r'')) \<and>
    (\<exists>t. restore_run heard (two_consumes @ concat (replicate n refetch_round)) (demo_device [] [''r'', ''q'']) = Inr t \<and>
       map row_id (server_rows t) = [''r''] \<and> ledger t = [''r''] \<and> set (answered t) = {0, 1, 2} \<and>
       filter (\<lambda>c. snd c = ''r'') (calls t) = [(''s'', ''r'')])"
proof -
  have heard: "heard = demo_heard" using assms by (rule latest_is_demo)
  have one: "map_sum id (\<lambda>t. (durable_ids t, draft_text (inputDrafts (chat (store t))) ''s''))
      (restore_run demo_heard overtaken_run (demo_device [] [''r''])) = Inr ([''r'', ''r''], Inr ''text r'')" by code_simp
  have two: "map_sum id (\<lambda>t. (server_rows t, ledger t, answered t, calls t, cached_rows t, under_way t, reconciling t, active_session t))
      (restore_run demo_heard two_consumes (demo_device [] [''r'', ''q''])) =
      Inr ([demo_row ''r''], [''r''], [0, 1, 2], [(''s'', ''r''), (''s'', ''q''), (''s'', ''q'')], [(''s'', [demo_row ''r''])], [], [''r''], Some ''s'')"
    by code_simp
  obtain t where t: "restore_run heard overtaken_run (demo_device [] [''r'']) = Inr t" "durable_ids t = [''r'', ''r'']"
      "draft_text (inputDrafts (chat (store t))) ''s'' = Inr (''text r'')"
    using one unfolding heard by (cases "restore_run demo_heard overtaken_run (demo_device [] [''r''])") auto
  obtain u where u: "restore_run heard two_consumes (demo_device [] [''r'', ''q'']) = Inr u" "server_rows u = [demo_row ''r'']"
      "ledger u = [''r'']" "answered u = [0, 1, 2]" "calls u = [(''s'', ''r''), (''s'', ''q''), (''s'', ''q'')]"
      "cached_rows u = [(''s'', [demo_row ''r''])]" "under_way u = []" "reconciling u = [''r'']" "active_session u = Some ''s''"
    using two unfolding heard by (cases "restore_run demo_heard two_consumes (demo_device [] [''r'', ''q''])") auto
  have still: "restore_run heard refetch_round u = Inr u" by (rule round_still) (simp_all add: u)
  have "restore_run heard (concat (replicate n refetch_round)) u = Inr u"
  proof (induction n)
    case (Suc n)
    show ?case by (simp only: replicate_Suc concat.simps restore_run_append still sum.case Suc.IH)
  qed simp
  then have "restore_run heard (two_consumes @ concat (replicate n refetch_round)) (demo_device [] [''r'', ''q'']) = Inr u"
    by (simp only: restore_run_append u(1) sum.case)
  moreover have "map row_id (server_rows u) = [''r'']" unfolding u(2) by (simp add: demo_row_def)
  moreover have "set (answered u) = {0, 1, 2}" unfolding u(4) by simp
  moreover have "filter (\<lambda>c. snd c = ''r'') (calls u) = [(''s'', ''r'')]" unfolding u(5) by simp
  ultimately show ?thesis using t u(3) by (intro conjI exI [of _ t] exI [of _ u])
qed

theorem restore_races_witness:
  "\<exists>t. restore_run demo_heard (two_consumes @ concat (replicate 5 refetch_round)) (demo_device [] [''r'', ''q'']) = Inr t \<and>
     ledger t = [''r'']"
proof -
  have "latest_call_only demo_heard" by (simp add: latest_call_only_def)
  from restore_races [OF this, of 5] show ?thesis by blast
qed

end
