(* ===== verification/Chat_Cache.thy ===== *)
theory Chat_Cache
  imports Chat_Store JS_Sort
begin

text \<open>
  The query caches of chat and the socket events that patch them
  (\<open>core/realtime/use-realtime-sync.ts\<close>, \<open>core/chat/queries.ts\<close>, \<open>core/chat/mutations.ts\<close>,
  \<open>core/chat/unread.ts\<close>): the sessions of the current workspace and, for each session, its
  messages (whole, and as pages, newest page first), its pending task and the marker of pending
  quick actions. A cache that was never fetched is absent. Invalidations are collected as keys;
  the debounced refresh of the pending aggregate is a flag. The clock is an argument.
\<close>

section \<open>Data\<close>

record quick_action =
  action_label :: string
  action_prompt :: string
  action_primary :: "bool option"

record chat_message =
  msg_id :: string
  msg_session :: string
  msg_role :: string
  msg_content :: string
  msg_task :: "string option"
  msg_created :: string
  msg_attachments :: "js list option"
  failure_reason :: "string option"
  elapsed_ms :: "int option"
  message_kind :: "string option"
  quick_actions :: "quick_action list option"

record messages_page =
  page_messages :: "chat_message list"
  page_limit :: int
  has_more :: bool
  next_cursor :: "(string \<times> string) option"

record last_message =
  last_content :: string
  last_role :: string
  last_created :: string
  last_failure :: "string option"
  last_kind :: "string option"

record chat_session =
  session_id :: string
  session_workspace :: string
  session_agent :: string
  session_creator :: string
  session_project :: "string option"
  session_title :: string
  session_status :: string
  has_unread :: bool
  unread_count :: "int option"
  last_message :: "last_message option"
  session_pinned :: "bool option"
  session_created :: string
  session_updated :: string

record pending_task =
  pending_id :: "string option"
  pending_status :: "string option"
  pending_created :: "string option"

record marker =
  marker_message :: string
  marker_task :: string
  expires_at :: int

record task_message =
  tm_task :: string
  tm_seq :: int
  tm_rest :: js

record pinned_agent =
  pinned_agent_id :: string
  pinned_position :: int

datatype chat_key =
    Sessions_key
  | Messages_key string
  | Messages_page_key string
  | Pending_task_key string
  | Pending_tasks_key
  | Draft_restores_key string

record chat_cache =
  cc_sessions :: "chat_session list option"
  cc_messages :: "chat_message list obj"
  cc_pages :: "messages_page list obj"
  cc_pending :: "pending_task obj"
  cc_markers :: "marker option obj"
  cc_failures :: "(string \<times> int) option obj"
  cc_task_messages :: "task_message list obj"
  cc_pinned :: "pinned_agent list option"
  cc_stale :: "chat_key list"
  aggregate_due :: bool

section \<open>Sessions and badges\<close>

definition sessionActivityTime :: "(string \<Rightarrow> int option) \<Rightarrow> chat_session \<Rightarrow> int option" where
  "sessionActivityTime getTime s =
     getTime (case last_message s of Some m \<Rightarrow> last_created m | None \<Rightarrow> session_updated s)"

definition session_pin_rank :: "chat_session \<Rightarrow> int" where
  "session_pin_rank s = (if session_pinned s = Some True then 1 else 0)"

definition session_order :: "(string \<Rightarrow> int option) \<Rightarrow> chat_session \<Rightarrow> chat_session \<Rightarrow> int" where
  "session_order getTime a b =
     (if session_pin_rank a \<noteq> session_pin_rank b then session_pin_rank b - session_pin_rank a
      else time_diff (sessionActivityTime getTime b) (sessionActivityTime getTime a))"

definition sortChatSessions :: "(string \<Rightarrow> int option) \<Rightarrow> chat_session list \<Rightarrow> chat_session list" where
  "sortChatSessions getTime sessions = array_sort (session_order getTime) sessions"

definition countUnreadChatSessions :: "chat_session list \<Rightarrow> nat" where
  "countUnreadChatSessions sessions = length (filter (\<lambda>s. has_unread s \<and> session_status s \<noteq> ''archived'') sessions)"

definition countUnreadChatMessages :: "chat_session list option \<Rightarrow> string option \<Rightarrow> int" where
  "countUnreadChatMessages sessions excludeSessionId =
     (case sessions of None \<Rightarrow> 0
      | Some ss \<Rightarrow> foldl (\<lambda>sum s. if Some (session_id s) = excludeSessionId then sum
                                  else sum + default_to 0 (unread_count s)) 0 ss)"

section \<open>Messages\<close>

definition update_present :: "string \<Rightarrow> ('v \<Rightarrow> 'v) \<Rightarrow> 'v obj \<Rightarrow> 'v obj" where
  "update_present k f ob = (case obj_get ob k of None \<Rightarrow> ob | Some v \<Rightarrow> obj_set ob k (f v))"

definition invalidate_chat :: "chat_key list \<Rightarrow> chat_cache \<Rightarrow> chat_cache" where
  "invalidate_chat ks cc = cc\<lparr>cc_stale := cc_stale cc @ ks\<rparr>"

definition invalidateChatMessageQueries :: "string \<Rightarrow> chat_cache \<Rightarrow> chat_cache" where
  "invalidateChatMessageQueries sid cc = invalidate_chat [Messages_key sid, Messages_page_key sid] cc"

definition patchLatestChatMessagePage :: "messages_page list \<Rightarrow> chat_message \<Rightarrow> messages_page list" where
  "patchLatestChatMessagePage pages message =
     (case pages of
        [] \<Rightarrow> pages
      | latest # rest \<Rightarrow>
          if list_ex (\<lambda>p. list_ex (\<lambda>m. msg_id m = msg_id message) (page_messages p)) pages then pages
          else latest\<lparr>page_messages := page_messages latest @ [message]\<rparr> # rest)"

record chat_done =
  done_session :: string
  done_task :: string
  done_message :: "string option"
  done_content :: "string option"
  done_elapsed :: "int option"
  done_created :: "string option"
  done_kind :: "string option"
  done_actions :: "quick_action list option"
  done_actions_pending :: "bool option"

definition done_assistant :: "string \<Rightarrow> string \<Rightarrow> chat_done \<Rightarrow> chat_message" where
  "done_assistant nowIso messageId p =
     \<lparr>msg_id = messageId, msg_session = done_session p, msg_role = ''assistant'',
      msg_content = default_to [] (done_content p), msg_task = Some (done_task p),
      msg_created = default_to nowIso (done_created p), msg_attachments = None, failure_reason = None,
      elapsed_ms = done_elapsed p, message_kind = Some (default_to ''message'' (done_kind p)),
      quick_actions = done_actions p\<rparr>"

definition add_message :: "chat_message \<Rightarrow> chat_message list \<Rightarrow> chat_message list" where
  "add_message m old = (if list_ex (\<lambda>x. msg_id x = msg_id m) old then old else old @ [m])"

definition insert_message :: "string \<Rightarrow> chat_message \<Rightarrow> chat_cache \<Rightarrow> chat_cache" where
  "insert_message sid m cc =
     cc\<lparr>cc_messages := update_present sid (add_message m) (cc_messages cc),
        cc_pages := update_present sid (\<lambda>ps. patchLatestChatMessagePage ps m) (cc_pages cc)\<rparr>"

definition no_pending :: pending_task where
  "no_pending = \<lparr>pending_id = None, pending_status = None, pending_created = None\<rparr>"

definition set_pending_task :: "string \<Rightarrow> pending_task \<Rightarrow> chat_cache \<Rightarrow> chat_cache" where
  "set_pending_task sid p cc = cc\<lparr>cc_pending := obj_set (cc_pending cc) sid p\<rparr>"

definition QUICK_ACTIONS_PENDING_TIMEOUT_MS :: int where "QUICK_ACTIONS_PENDING_TIMEOUT_MS = 12000"

definition applyChatDoneToCache :: "string \<Rightarrow> int \<Rightarrow> chat_done \<Rightarrow> chat_cache \<Rightarrow> chat_cache" where
  "applyChatDoneToCache nowIso now p cc =
     (let sid = done_session p;
          cc1 = (case truthy (done_message p) of
                   None \<Rightarrow> cc
                 | Some i \<Rightarrow>
                     if done_content p \<noteq> None \<or> default_to [] (done_actions p) \<noteq> []
                     then insert_message sid (done_assistant nowIso i p) cc else cc);
          cc2 = set_pending_task sid no_pending cc1;
          mk = (case truthy (done_message p) of
                  None \<Rightarrow> None
                | Some i \<Rightarrow> if done_actions_pending p = Some True
                            then Some \<lparr>marker_message = i, marker_task = done_task p,
                                       expires_at = now + QUICK_ACTIONS_PENDING_TIMEOUT_MS\<rparr>
                            else None);
          cc3 = cc2\<lparr>cc_markers := obj_set (cc_markers cc2) sid mk\<rparr>
      in invalidate_chat [Pending_task_key sid] (invalidateChatMessageQueries sid cc3))"

record chat_quick_actions =
  qa_session :: string
  qa_message :: string
  qa_actions :: "quick_action list option"
  qa_failed :: "bool option"

definition patch_actions :: "string \<Rightarrow> quick_action list \<Rightarrow> chat_message \<Rightarrow> chat_message" where
  "patch_actions i actions m = (if msg_id m = i then m\<lparr>quick_actions := Some actions\<rparr> else m)"

definition map_pages :: "(chat_message list \<Rightarrow> chat_message list) \<Rightarrow> messages_page list \<Rightarrow> messages_page list" where
  "map_pages f ps = map (\<lambda>p. p\<lparr>page_messages := f (page_messages p)\<rparr>) ps"

definition applyChatQuickActionsToCache :: "int \<Rightarrow> chat_quick_actions \<Rightarrow> chat_cache \<Rightarrow> chat_cache" where
  "applyChatQuickActionsToCache now p cc =
     (let sid = qa_session p;
          actions = default_to [] (qa_actions p);
          cc1 = (if actions \<noteq> []
                 then cc\<lparr>cc_messages := update_present sid (map (patch_actions (qa_message p) actions)) (cc_messages cc),
                         cc_pages := update_present sid (map_pages (map (patch_actions (qa_message p) actions))) (cc_pages cc)\<rparr>
                 else cc);
          current = (case obj_get (cc_markers cc1) sid of Some (Some m) \<Rightarrow> Some m | _ \<Rightarrow> None);
          cc2 = cc1\<lparr>cc_markers := obj_set (cc_markers cc1) sid
                     (case current of Some m \<Rightarrow> if marker_message m \<noteq> qa_message p then Some m else None | None \<Rightarrow> None)\<rparr>
      in if qa_failed p = Some True
         then cc2\<lparr>cc_failures := obj_set (cc_failures cc2) sid (Some (qa_message p, now))\<rparr> else cc2)"

definition removeChatMessageFromPageCache :: "string \<Rightarrow> string \<Rightarrow> chat_cache \<Rightarrow> chat_cache" where
  "removeChatMessageFromPageCache sid i cc =
     cc\<lparr>cc_pages := update_present sid (map_pages (filter (\<lambda>m. msg_id m \<noteq> i))) (cc_pages cc)\<rparr>"

definition removeChatMessageFromCaches :: "string \<Rightarrow> string \<Rightarrow> chat_cache \<Rightarrow> chat_cache" where
  "removeChatMessageFromCaches sid i cc =
     removeChatMessageFromPageCache sid i
       (cc\<lparr>cc_messages := update_present sid (filter (\<lambda>m. msg_id m \<noteq> i)) (cc_messages cc)\<rparr>)"

datatype cancel_outcome = Stopped | Restored

record cancel_finalized =
  cancel_outcome :: cancel_outcome
  cancel_session :: string
  cancel_task :: string
  cancel_initiator :: "string option"
  cancel_message :: "string option"
  cancel_content :: "string option"
  cancel_kind :: "string option"
  cancel_created :: "string option"
  cancel_elapsed :: "int option"

definition stopped_done :: "cancel_finalized \<Rightarrow> chat_done" where
  "stopped_done p =
     \<lparr>done_session = cancel_session p, done_task = cancel_task p, done_message = cancel_message p,
      done_content = cancel_content p, done_elapsed = cancel_elapsed p, done_created = cancel_created p,
      done_kind = cancel_kind p, done_actions = None, done_actions_pending = None\<rparr>"

definition applyChatCancelFinalizedToCache ::
  "string \<Rightarrow> int \<Rightarrow> string option \<Rightarrow> cancel_finalized \<Rightarrow> chat_cache \<Rightarrow> chat_cache" where
  "applyChatCancelFinalizedToCache nowIso now currentUserId p cc =
     (let sid = cancel_session p in
      if sid = [] then cc
      else (case cancel_outcome p of
          Stopped \<Rightarrow> applyChatDoneToCache nowIso now (stopped_done p) cc
        | Restored \<Rightarrow>
            (let cc1 = (case truthy (cancel_message p) of
                          None \<Rightarrow> cc | Some i \<Rightarrow> removeChatMessageFromCaches sid i cc);
                 cc2 = invalidateChatMessageQueries sid (set_pending_task sid no_pending cc1);
                 isInitiator = (truthy (cancel_initiator p) \<noteq> None \<and> truthy currentUserId \<noteq> None \<and>
                                cancel_initiator p = currentUserId)
             in if isInitiator then invalidate_chat [Draft_restores_key sid] cc2 else cc2)))"

section \<open>Session events\<close>

text \<open>A field of the payload that is \<open>undefined\<close> is \<open>None\<close>; \<open>project_id\<close> may also be present and \<open>null\<close>.\<close>

record session_updated =
  upd_session :: string
  upd_title :: "string option"
  upd_project :: "string option option"
  upd_pinned :: "bool option"
  upd_status :: "string option"
  upd_updated :: "string option"

definition patch_session :: "session_updated \<Rightarrow> chat_session \<Rightarrow> chat_session" where
  "patch_session p s =
     (if session_id s \<noteq> upd_session p then s
      else (let s1 = s\<lparr>session_title := default_to (session_title s) (upd_title p),
                       session_project := default_to (session_project s) (upd_project p),
                       session_pinned := (case upd_pinned p of None \<Rightarrow> session_pinned s | Some b \<Rightarrow> Some b),
                       session_status := default_to (session_status s) (upd_status p),
                       session_updated := default_to (session_updated s) (upd_updated p)\<rparr>
            in if upd_status p = Some ''archived'' then s1\<lparr>unread_count := Some 0, has_unread := False\<rparr> else s1))"

definition applyChatSessionUpdatedToCache ::
  "(string \<Rightarrow> int option) \<Rightarrow> session_updated \<Rightarrow> chat_cache \<Rightarrow> chat_cache" where
  "applyChatSessionUpdatedToCache getTime p cc =
     cc\<lparr>cc_sessions := map_option (\<lambda>old.
          (let new = map (patch_session p) old
           in if upd_pinned p = None \<and> upd_status p = None then new else sortChatSessions getTime new)) (cc_sessions cc)\<rparr>"

section \<open>Task messages\<close>

definition tm_order :: "task_message \<Rightarrow> task_message \<Rightarrow> int" where
  "tm_order a b = tm_seq a - tm_seq b"

definition mergeTaskMessagesBySeq :: "task_message list \<Rightarrow> task_message list \<Rightarrow> task_message list" where
  "mergeTaskMessagesBySeq existing incoming =
     (if incoming = [] then existing
      else (let fresh = filter (\<lambda>m. tm_seq m \<notin> tm_seq ` set existing) incoming
            in if fresh = [] then existing else array_sort tm_order (existing @ fresh)))"

definition on_task_message :: "task_message \<Rightarrow> chat_cache \<Rightarrow> chat_cache" where
  "on_task_message m cc =
     cc\<lparr>cc_task_messages := obj_set (cc_task_messages cc) (tm_task m)
          (mergeTaskMessagesBySeq (default_to [] (obj_get (cc_task_messages cc) (tm_task m))) [m])\<rparr>"

section \<open>Socket handlers\<close>

definition invalidatePendingAggregate :: "chat_cache \<Rightarrow> chat_cache" where
  "invalidatePendingAggregate cc = cc\<lparr>aggregate_due := True\<rparr>"

text \<open>The timer fires: \<open>refetchPendingChatAggregate\<close> in the workspace that is current then.\<close>

definition aggregate_fires :: "string option \<Rightarrow> chat_cache \<Rightarrow> chat_cache" where
  "aggregate_fires wsId cc =
     (if \<not> aggregate_due cc then cc
      else (let cc1 = cc\<lparr>aggregate_due := False\<rparr>
            in if truthy wsId = None then cc1 else invalidate_chat [Pending_tasks_key] cc1))"

definition invalidateSessionLists :: "string option \<Rightarrow> chat_cache \<Rightarrow> chat_cache" where
  "invalidateSessionLists wsId cc = (if truthy wsId = None then cc else invalidate_chat [Sessions_key] cc)"

definition on_chat_message :: "string \<Rightarrow> chat_cache \<Rightarrow> chat_cache" where
  "on_chat_message sid cc = invalidate_chat [Pending_task_key sid] (invalidateChatMessageQueries sid cc)"

definition on_chat_done :: "string \<Rightarrow> int \<Rightarrow> string option \<Rightarrow> chat_done \<Rightarrow> chat_cache \<Rightarrow> chat_cache" where
  "on_chat_done nowIso now wsId p cc = invalidateSessionLists wsId (applyChatDoneToCache nowIso now p cc)"

definition on_cancel_finalized ::
  "string \<Rightarrow> int \<Rightarrow> string option \<Rightarrow> string option \<Rightarrow> cancel_finalized \<Rightarrow> chat_cache \<Rightarrow> chat_cache" where
  "on_cancel_finalized nowIso now wsId user p cc =
     (let cc1 = applyChatCancelFinalizedToCache nowIso now user p cc
      in if cancel_outcome p = Stopped then invalidateSessionLists wsId cc1 else cc1)"

definition on_task_queued :: "string option \<Rightarrow> string \<Rightarrow> chat_cache \<Rightarrow> chat_cache" where
  "on_task_queued session taskId cc =
     (case truthy session of
        None \<Rightarrow> cc
      | Some sid \<Rightarrow> invalidatePendingAggregate (set_pending_task sid
          ((default_to no_pending (obj_get (cc_pending cc) sid))\<lparr>pending_id := Some taskId, pending_status := Some ''queued''\<rparr>) cc))"

text \<open>\<open>task:dispatch\<close> and \<open>task:running\<close> write \<open>running\<close>, \<open>task:waiting_local_directory\<close> its own name.\<close>

definition on_task_status :: "string \<Rightarrow> string option \<Rightarrow> string \<Rightarrow> chat_cache \<Rightarrow> chat_cache" where
  "on_task_status status session taskId cc =
     (case truthy session of
        None \<Rightarrow> cc
      | Some sid \<Rightarrow> invalidatePendingAggregate
          (case obj_get (cc_pending cc) sid of
             None \<Rightarrow> cc
           | Some old \<Rightarrow> if pending_id old \<noteq> Some taskId then cc
                         else set_pending_task sid (old\<lparr>pending_status := Some status\<rparr>) cc))"

definition on_task_cancelled :: "string option \<Rightarrow> chat_cache \<Rightarrow> chat_cache" where
  "on_task_cancelled session cc =
     (case truthy session of
        None \<Rightarrow> cc
      | Some sid \<Rightarrow> invalidatePendingAggregate (invalidateChatMessageQueries sid (set_pending_task sid no_pending cc)))"

definition on_task_completed :: "string option \<Rightarrow> chat_cache \<Rightarrow> chat_cache" where
  "on_task_completed session cc = (if truthy session = None then cc else invalidatePendingAggregate cc)"

definition on_task_failed :: "string option \<Rightarrow> string option \<Rightarrow> chat_cache \<Rightarrow> chat_cache" where
  "on_task_failed wsId session cc =
     (case truthy session of
        None \<Rightarrow> cc
      | Some sid \<Rightarrow> invalidateSessionLists wsId (invalidatePendingAggregate (invalidate_chat [Pending_task_key sid]
          (invalidateChatMessageQueries sid (set_pending_task sid no_pending cc)))))"

definition on_session_updated ::
  "(string \<Rightarrow> int option) \<Rightarrow> string option \<Rightarrow> session_updated \<Rightarrow> chat_cache \<Rightarrow> chat_cache" where
  "on_session_updated getTime wsId p cc = (if truthy wsId = None then cc else applyChatSessionUpdatedToCache getTime p cc)"

definition on_session_deleted :: "string option \<Rightarrow> string \<Rightarrow> chat_cache \<times> chat_sys \<Rightarrow> chat_cache \<times> chat_sys" where
  "on_session_deleted wsId sid st =
     (case st of (cc, cs) \<Rightarrow>
       (let cc1 = (if truthy wsId = None then cc
                   else cc\<lparr>cc_sessions := map_option (filter (\<lambda>s. session_id s \<noteq> sid)) (cc_sessions cc)\<rparr>);
            cc2 = invalidatePendingAggregate (cc1\<lparr>cc_messages := obj_delete (cc_messages cc1) sid,
                                                  cc_pending := obj_delete (cc_pending cc1) sid\<rparr>)
        in (cc2, if activeSessionId (chat cs) = Some sid then setActiveSession None cs else cs)))"

section \<open>Mutations\<close>

text \<open>
  Each optimistic write gives the cache and the list it replaced; \<open>onError\<close> writes that list back
  and \<open>onSettled\<close> invalidates the sessions.
\<close>

definition map_sessions :: "(chat_session list \<Rightarrow> chat_session list) \<Rightarrow> chat_cache \<Rightarrow> chat_cache \<times> chat_session list option" where
  "map_sessions f cc = (cc\<lparr>cc_sessions := map_option f (cc_sessions cc)\<rparr>, cc_sessions cc)"

definition on_session :: "string \<Rightarrow> (chat_session \<Rightarrow> chat_session) \<Rightarrow> chat_session list \<Rightarrow> chat_session list" where
  "on_session sid f = map (\<lambda>s. if session_id s = sid then f s else s)"

definition mark_session_read_mutate :: "string \<Rightarrow> chat_cache \<Rightarrow> chat_cache \<times> chat_session list option" where
  "mark_session_read_mutate sid = map_sessions (on_session sid (\<lambda>s. s\<lparr>has_unread := False, unread_count := Some 0\<rparr>))"

definition rename_session_mutate :: "string \<Rightarrow> string \<Rightarrow> chat_cache \<Rightarrow> chat_cache \<times> chat_session list option" where
  "rename_session_mutate sid newTitle = map_sessions (on_session sid (\<lambda>s. s\<lparr>session_title := newTitle\<rparr>))"

definition set_session_project_mutate :: "string \<Rightarrow> string option \<Rightarrow> chat_cache \<Rightarrow> chat_cache \<times> chat_session list option" where
  "set_session_project_mutate sid projectId = map_sessions (on_session sid (\<lambda>s. s\<lparr>session_project := projectId\<rparr>))"

definition set_session_pinned_mutate ::
  "(string \<Rightarrow> int option) \<Rightarrow> string \<Rightarrow> bool \<Rightarrow> chat_cache \<Rightarrow> chat_cache \<times> chat_session list option" where
  "set_session_pinned_mutate getTime sid b =
     map_sessions (\<lambda>ss. sortChatSessions getTime (on_session sid (\<lambda>s. s\<lparr>session_pinned := Some b\<rparr>) ss))"

definition archive_patch :: "bool \<Rightarrow> string \<Rightarrow> chat_session \<Rightarrow> chat_session" where
  "archive_patch archived nowIso s =
     (let s1 = s\<lparr>session_status := (if archived then ''archived'' else ''active''), session_updated := nowIso\<rparr>
      in if archived then s1\<lparr>unread_count := Some 0, has_unread := False\<rparr> else s1)"

definition set_session_archived_mutate ::
  "(string \<Rightarrow> int option) \<Rightarrow> string \<Rightarrow> string \<Rightarrow> bool \<Rightarrow> chat_cache \<Rightarrow> chat_cache \<times> chat_session list option" where
  "set_session_archived_mutate getTime nowIso sid archived =
     map_sessions (\<lambda>ss. sortChatSessions getTime (on_session sid (archive_patch archived nowIso) ss))"

definition delete_session_mutate :: "string \<Rightarrow> chat_cache \<Rightarrow> chat_cache \<times> chat_session list option" where
  "delete_session_mutate sid = map_sessions (filter (\<lambda>s. session_id s \<noteq> sid))"

definition sessions_error :: "chat_session list option \<Rightarrow> chat_cache \<Rightarrow> chat_cache" where
  "sessions_error prev cc = (case prev of None \<Rightarrow> cc | Some ss \<Rightarrow> cc\<lparr>cc_sessions := Some ss\<rparr>)"

definition sessions_settled :: "chat_cache \<Rightarrow> chat_cache" where
  "sessions_settled cc = invalidate_chat [Sessions_key] cc"

definition pin_agent_mutate :: "string \<Rightarrow> chat_cache \<Rightarrow> chat_cache \<times> pinned_agent list option" where
  "pin_agent_mutate agentId cc =
     (let old = cc_pinned cc;
          maxPos = foldl (\<lambda>m p. max m (pinned_position p)) 0 (default_to [] old)
      in (if list_ex (\<lambda>p. pinned_agent_id p = agentId) (default_to [] old) then cc
          else cc\<lparr>cc_pinned := Some (default_to [] old @ [\<lparr>pinned_agent_id = agentId, pinned_position = maxPos + 1\<rparr>])\<rparr>, old))"

definition unpin_agent_mutate :: "string \<Rightarrow> chat_cache \<Rightarrow> chat_cache \<times> pinned_agent list option" where
  "unpin_agent_mutate agentId cc =
     (cc\<lparr>cc_pinned := map_option (filter (\<lambda>p. pinned_agent_id p \<noteq> agentId)) (cc_pinned cc)\<rparr>, cc_pinned cc)"

definition pinned_error :: "pinned_agent list option \<Rightarrow> chat_cache \<Rightarrow> chat_cache" where
  "pinned_error prev cc = (case prev of None \<Rightarrow> cc | Some ps \<Rightarrow> cc\<lparr>cc_pinned := Some ps\<rparr>)"

section \<open>The quick-actions marker\<close>

definition marker_of :: "string \<Rightarrow> chat_cache \<Rightarrow> marker option" where
  "marker_of sid cc = (case obj_get (cc_markers cc) sid of Some (Some m) \<Rightarrow> Some m | _ \<Rightarrow> None)"

definition regenerate_mutate :: "int \<Rightarrow> string \<Rightarrow> string \<Rightarrow> chat_cache \<Rightarrow> chat_cache \<times> marker option" where
  "regenerate_mutate now sid messageId cc =
     (cc\<lparr>cc_markers := obj_set (cc_markers cc) sid (Some \<lparr>marker_message = messageId, marker_task = [],
         expires_at = now + QUICK_ACTIONS_PENDING_TIMEOUT_MS\<rparr>)\<rparr>, marker_of sid cc)"

definition regenerate_error :: "string \<Rightarrow> marker option \<Rightarrow> chat_cache \<Rightarrow> chat_cache" where
  "regenerate_error sid previous cc = cc\<lparr>cc_markers := obj_set (cc_markers cc) sid previous\<rparr>"

text \<open>How long the timeout hook waits, and what its timer clears.\<close>

definition marker_delay :: "int \<Rightarrow> int option \<Rightarrow> int" where
  "marker_delay now expires = max 0 (case expires of Some t \<Rightarrow> t - now | None \<Rightarrow> QUICK_ACTIONS_PENDING_TIMEOUT_MS)"

definition marker_timeout :: "string \<Rightarrow> string \<Rightarrow> chat_cache \<Rightarrow> chat_cache" where
  "marker_timeout sid messageId cc =
     cc\<lparr>cc_markers := (case obj_get (cc_markers cc) sid of
          None \<Rightarrow> cc_markers cc
        | Some current \<Rightarrow> obj_set (cc_markers cc) sid
            (case current of Some m \<Rightarrow> if marker_message m = messageId then None else Some m | None \<Rightarrow> None))\<rparr>"

section \<open>The dispatch of chat events\<close>

datatype chat_event =
    Chat_message string
  | Chat_done string int chat_done
  | Chat_actions int chat_quick_actions
  | Cancel_finalized string int cancel_finalized
  | Task_queued "string option" string
  | Task_dispatch "string option" string
  | Task_running "string option" string
  | Task_waiting "string option" string
  | Task_cancelled "string option"
  | Task_completed "string option"
  | Task_failed "string option"
  | Task_message task_message
  | Session_read
  | Session_updated session_updated

fun dispatch_chat ::
  "(string \<Rightarrow> int option) \<Rightarrow> string option \<Rightarrow> string option \<Rightarrow> chat_event \<Rightarrow> chat_cache \<Rightarrow> chat_cache" where
  "dispatch_chat getTime wsId user (Chat_message sid) cc = on_chat_message sid cc"
| "dispatch_chat getTime wsId user (Chat_done nowIso now p) cc = on_chat_done nowIso now wsId p cc"
| "dispatch_chat getTime wsId user (Chat_actions now p) cc = applyChatQuickActionsToCache now p cc"
| "dispatch_chat getTime wsId user (Cancel_finalized nowIso now p) cc = on_cancel_finalized nowIso now wsId user p cc"
| "dispatch_chat getTime wsId user (Task_queued session i) cc = on_task_queued session i cc"
| "dispatch_chat getTime wsId user (Task_dispatch session i) cc = on_task_status ''running'' session i cc"
| "dispatch_chat getTime wsId user (Task_running session i) cc = on_task_status ''running'' session i cc"
| "dispatch_chat getTime wsId user (Task_waiting session i) cc = on_task_status ''waiting_local_directory'' session i cc"
| "dispatch_chat getTime wsId user (Task_cancelled session) cc = on_task_cancelled session cc"
| "dispatch_chat getTime wsId user (Task_completed session) cc = on_task_completed session cc"
| "dispatch_chat getTime wsId user (Task_failed session) cc = on_task_failed wsId session cc"
| "dispatch_chat getTime wsId user (Task_message m) cc = on_task_message m cc"
| "dispatch_chat getTime wsId user Session_read cc = invalidateSessionLists wsId cc"
| "dispatch_chat getTime wsId user (Session_updated p) cc = on_session_updated getTime wsId p cc"

end
