(* ===== verification/Chat_Cache_Properties.thy ===== *)
theory Chat_Cache_Properties
  imports Chat_Cache
begin

text \<open>
  The properties of the chat caches: the two caches of a session's messages stay views of one
  list, transcripts converge, archiving clears the badges, a marker belongs to its turn, and
  what a late outcome does to the next task.
\<close>

section \<open>Lookups\<close>

lemma update_present_get: "obj_get (update_present k f ob) j = (if j = k then map_option f (obj_get ob k) else obj_get ob j)"
  by (auto simp: update_present_def obj_simps split: option.split)

lemma fields_kept:
  "cc_messages (invalidate_chat ks cc) = cc_messages cc" "cc_pages (invalidate_chat ks cc) = cc_pages cc"
  "cc_messages (set_pending_task sid p cc) = cc_messages cc" "cc_pages (set_pending_task sid p cc) = cc_pages cc"
  "cc_messages (invalidateSessionLists w cc) = cc_messages cc" "cc_pages (invalidateSessionLists w cc) = cc_pages cc"
  "cc_messages (invalidatePendingAggregate cc) = cc_messages cc" "cc_pages (invalidatePendingAggregate cc) = cc_pages cc"
  "cc_messages (invalidateChatMessageQueries sid cc) = cc_messages cc" "cc_pages (invalidateChatMessageQueries sid cc) = cc_pages cc"
  by (simp_all add: invalidate_chat_def set_pending_task_def invalidateSessionLists_def invalidatePendingAggregate_def
      invalidateChatMessageQueries_def)

section \<open>One list, two caches\<close>

text \<open>What an event does to the messages of a session: an insertion, a patch, a removal or nothing.\<close>

datatype list_change = Keep | Insert chat_message | Patch string "quick_action list" | Drop string

fun change_list :: "list_change \<Rightarrow> chat_message list \<Rightarrow> chat_message list" where
  "change_list Keep L = L"
| "change_list (Insert m) L = add_message m L"
| "change_list (Patch i as) L = map (patch_actions i as) L"
| "change_list (Drop i) L = filter (\<lambda>m. msg_id m \<noteq> i) L"

fun change_pages :: "list_change \<Rightarrow> messages_page list \<Rightarrow> messages_page list" where
  "change_pages Keep ps = ps"
| "change_pages (Insert m) ps = patchLatestChatMessagePage ps m"
| "change_pages (Patch i as) ps = map_pages (map (patch_actions i as)) ps"
| "change_pages (Drop i) ps = map_pages (filter (\<lambda>m. msg_id m \<noteq> i)) ps"

lemma change_eqs:
  "change_list Keep = (\<lambda>L. L)" "change_list (Insert m) = add_message m" "change_list (Patch i as) = map (patch_actions i as)"
  "change_list (Drop i) = filter (\<lambda>m. msg_id m \<noteq> i)" "change_pages Keep = (\<lambda>ps. ps)"
  "change_pages (Insert m) = (\<lambda>ps. patchLatestChatMessagePage ps m)" "change_pages (Patch i as) = map_pages (map (patch_actions i as))"
  "change_pages (Drop i) = map_pages (filter (\<lambda>m. msg_id m \<noteq> i))"
  by (simp_all add: fun_eq_iff)

fun done_change :: "string \<Rightarrow> chat_done \<Rightarrow> list_change" where
  "done_change nowIso p = (case truthy (done_message p) of
     None \<Rightarrow> Keep
   | Some i \<Rightarrow> if done_content p \<noteq> None \<or> default_to [] (done_actions p) \<noteq> []
               then Insert (done_assistant nowIso i p) else Keep)"

fun event_change :: "chat_event \<Rightarrow> string \<times> list_change" where
  "event_change (Chat_done nowIso now p) = (done_session p, done_change nowIso p)"
| "event_change (Chat_actions now p) =
     (qa_session p, if default_to [] (qa_actions p) \<noteq> [] then Patch (qa_message p) (default_to [] (qa_actions p)) else Keep)"
| "event_change (Cancel_finalized nowIso now p) =
     (cancel_session p, if cancel_session p = [] then Keep
      else (case cancel_outcome p of Stopped \<Rightarrow> done_change nowIso (stopped_done p)
            | Restored \<Rightarrow> (case truthy (cancel_message p) of None \<Rightarrow> Keep | Some i \<Rightarrow> Drop i)))"
| "event_change _ = ([], Keep)"

lemma insert_message_get:
  "obj_get (cc_messages (insert_message sid m cc)) k = (if k = sid then map_option (add_message m) (obj_get (cc_messages cc) k) else obj_get (cc_messages cc) k)"
  "obj_get (cc_pages (insert_message sid m cc)) k = (if k = sid then map_option (\<lambda>ps. patchLatestChatMessagePage ps m) (obj_get (cc_pages cc) k) else obj_get (cc_pages cc) k)"
  by (simp_all add: insert_message_def update_present_get)

lemma done_get:
  "obj_get (cc_messages (applyChatDoneToCache nowIso now p cc)) k =
     (if k = done_session p then map_option (change_list (done_change nowIso p)) (obj_get (cc_messages cc) k) else obj_get (cc_messages cc) k)"
  "obj_get (cc_pages (applyChatDoneToCache nowIso now p cc)) k =
     (if k = done_session p then map_option (change_pages (done_change nowIso p)) (obj_get (cc_pages cc) k) else obj_get (cc_pages cc) k)"
  by (auto simp: applyChatDoneToCache_def Let_def fields_kept insert_message_get option.map_ident change_eqs
      split: option.split)

lemma removed_get:
  "obj_get (cc_messages (removeChatMessageFromCaches sid i cc)) k =
     (if k = sid then map_option (filter (\<lambda>m. msg_id m \<noteq> i)) (obj_get (cc_messages cc) k) else obj_get (cc_messages cc) k)"
  "obj_get (cc_pages (removeChatMessageFromCaches sid i cc)) k =
     (if k = sid then map_option (map_pages (filter (\<lambda>m. msg_id m \<noteq> i))) (obj_get (cc_pages cc) k) else obj_get (cc_pages cc) k)"
  by (simp_all add: removeChatMessageFromCaches_def removeChatMessageFromPageCache_def update_present_get)

lemma event_get:
  "obj_get (cc_messages (dispatch_chat getTime wsId user e cc)) k =
     (if k = fst (event_change e) then map_option (change_list (snd (event_change e))) (obj_get (cc_messages cc) k) else obj_get (cc_messages cc) k)"
  "obj_get (cc_pages (dispatch_chat getTime wsId user e cc)) k =
     (if k = fst (event_change e) then map_option (change_pages (snd (event_change e))) (obj_get (cc_pages cc) k) else obj_get (cc_pages cc) k)"
proof -
  have both: "obj_get (cc_messages (dispatch_chat getTime wsId user e cc)) k =
     (if k = fst (event_change e) then map_option (change_list (snd (event_change e))) (obj_get (cc_messages cc) k) else obj_get (cc_messages cc) k) \<and>
    obj_get (cc_pages (dispatch_chat getTime wsId user e cc)) k =
     (if k = fst (event_change e) then map_option (change_pages (snd (event_change e))) (obj_get (cc_pages cc) k) else obj_get (cc_pages cc) k)"
  proof (cases e)
    case (Chat_done nowIso now p)
    show ?thesis unfolding Chat_done dispatch_chat.simps event_change.simps on_chat_done_def fields_kept done_get fst_conv snd_conv by simp
  next
    case (Chat_actions now p)
    show ?thesis
      by (auto simp: Chat_actions applyChatQuickActionsToCache_def Let_def update_present_get change_eqs option.map_ident)
  next
    case (Cancel_finalized nowIso now p)
    have run: "cc_messages (on_cancel_finalized nowIso now wsId user p cc) = cc_messages (applyChatCancelFinalizedToCache nowIso now user p cc)"
      "cc_pages (on_cancel_finalized nowIso now wsId user p cc) = cc_pages (applyChatCancelFinalizedToCache nowIso now user p cc)"
      by (simp_all add: on_cancel_finalized_def Let_def fields_kept)
    have sid: "done_session (stopped_done p) = cancel_session p" by (simp add: stopped_done_def)
    show ?thesis unfolding Cancel_finalized dispatch_chat.simps run event_change.simps fst_conv snd_conv
      by (auto simp: applyChatCancelFinalizedToCache_def Let_def change_eqs option.map_ident done_get sid fields_kept removed_get
          split: cancel_outcome.split option.split simp del: done_change.simps)
  qed (auto simp: change_eqs option.map_ident on_chat_message_def fields_kept on_task_queued_def on_task_status_def on_task_cancelled_def
      on_task_completed_def on_task_failed_def on_task_message_def on_session_updated_def applyChatSessionUpdatedToCache_def split: option.split)
  then show "obj_get (cc_messages (dispatch_chat getTime wsId user e cc)) k =
     (if k = fst (event_change e) then map_option (change_list (snd (event_change e))) (obj_get (cc_messages cc) k) else obj_get (cc_messages cc) k)"
    "obj_get (cc_pages (dispatch_chat getTime wsId user e cc)) k =
     (if k = fst (event_change e) then map_option (change_pages (snd (event_change e))) (obj_get (cc_pages cc) k) else obj_get (cc_pages cc) k)"
    by blast+
qed

definition flat_pages :: "messages_page list \<Rightarrow> chat_message list" where
  "flat_pages ps = concat (map page_messages (rev ps))"

text \<open>
  The loaded pages are the end of the whole list; the messages before them, which no page has
  loaded, have their ids in \<open>old_ids\<close>.
\<close>

definition views_agree :: "string set \<Rightarrow> chat_message list \<Rightarrow> messages_page list \<Rightarrow> bool" where
  "views_agree old_ids L ps \<longleftrightarrow> ps \<noteq> [] \<and> distinct (map msg_id L) \<and>
     (\<exists>older. L = older @ flat_pages ps \<and> msg_id ` set older \<subseteq> old_ids)"

definition caches_agree :: "string \<Rightarrow> string set \<Rightarrow> chat_cache \<Rightarrow> bool" where
  "caches_agree sid old_ids cc \<longleftrightarrow>
     (\<exists>L ps. obj_get (cc_messages cc) sid = Some L \<and> obj_get (cc_pages cc) sid = Some ps \<and> views_agree old_ids L ps)"

fun fresh_change :: "string set \<Rightarrow> list_change \<Rightarrow> bool" where
  "fresh_change old_ids (Insert m) \<longleftrightarrow> msg_id m \<notin> old_ids"
| "fresh_change old_ids c \<longleftrightarrow> True"

lemma patch_actions_id [simp]: "msg_id (patch_actions i as m) = msg_id m"
  by (simp add: patch_actions_def)

lemma flat_map_pages:
  assumes "\<And>xs ys. f (xs @ ys) = f xs @ f ys" "f [] = []"
  shows "flat_pages (map_pages f ps) = f (flat_pages ps)"
  by (induction ps) (simp_all add: flat_pages_def map_pages_def assms)

lemma flat_pages_seen: "list_ex (\<lambda>p. list_ex (\<lambda>x. msg_id x = i) (page_messages p)) ps \<longleftrightarrow> i \<in> msg_id ` set (flat_pages ps)"
  by (auto simp: flat_pages_def list_ex_iff)

lemma change_agrees:
  assumes agree: "views_agree old_ids L ps" and fresh: "fresh_change old_ids c"
  shows "views_agree old_ids (change_list c L) (change_pages c ps)"
proof -
  obtain older where L: "L = older @ flat_pages ps" "msg_id ` set older \<subseteq> old_ids" and ps: "ps \<noteq> []" and d: "distinct (map msg_id L)"
    using agree by (auto simp: views_agree_def)
  show ?thesis
  proof (cases c)
    case Keep
    then show ?thesis using agree by simp
  next
    case (Insert m)
    then have new: "msg_id m \<notin> msg_id ` set older" using fresh L(2) by auto
    obtain latest rest where cons: "ps = latest # rest" using ps by (cases ps) auto
    show ?thesis
    proof (cases "msg_id m \<in> msg_id ` set (flat_pages ps)")
      case True
      then have "patchLatestChatMessagePage ps m = ps" using flat_pages_seen [of "msg_id m" ps]
        unfolding patchLatestChatMessagePage_def cons by simp
      moreover have "add_message m L = L" using True L(1) by (auto simp: add_message_def list_ex_iff)
      ultimately show ?thesis using agree Insert by simp
    next
      case False
      then have "patchLatestChatMessagePage ps m = latest\<lparr>page_messages := page_messages latest @ [m]\<rparr> # rest"
        using flat_pages_seen [of "msg_id m" ps] unfolding patchLatestChatMessagePage_def cons by simp
      then have flat: "flat_pages (patchLatestChatMessagePage ps m) = flat_pages ps @ [m]" "patchLatestChatMessagePage ps m \<noteq> []"
        by (simp_all add: flat_pages_def cons)
      have absent: "msg_id m \<notin> msg_id ` set L" using new False L(1) by auto
      then have "add_message m L = L @ [m]" by (simp add: add_message_def list_ex_iff) (metis image_eqI)
      then have "views_agree old_ids (add_message m L) (patchLatestChatMessagePage ps m)"
        unfolding views_agree_def using L d absent flat by auto
      then show ?thesis using Insert by simp
    qed
  next
    case (Patch i as)
    have flat: "flat_pages (map_pages (map (patch_actions i as)) ps) = map (patch_actions i as) (flat_pages ps)"
      by (rule flat_map_pages) simp_all
    have "map msg_id (map (patch_actions i as) L) = map msg_id L" by simp
    moreover have "map (patch_actions i as) L = map (patch_actions i as) older @ flat_pages (map_pages (map (patch_actions i as)) ps)"
      unfolding flat L(1) by simp
    moreover have "msg_id ` set (map (patch_actions i as) older) \<subseteq> old_ids" using L(2) by (simp add: image_image)
    moreover have "map_pages (map (patch_actions i as)) ps \<noteq> []" using ps by (simp add: map_pages_def)
    ultimately show ?thesis using d unfolding Patch views_agree_def change_eqs by metis
  next
    case (Drop i)
    let ?f = "filter (\<lambda>m. msg_id m \<noteq> i)"
    have flat: "flat_pages (map_pages ?f ps) = ?f (flat_pages ps)" by (rule flat_map_pages) simp_all
    have "distinct (map msg_id (?f L))" using d by (simp add: distinct_map_filter)
    moreover have "?f L = ?f older @ flat_pages (map_pages ?f ps)" unfolding flat L(1) by simp
    moreover have "msg_id ` set (?f older) \<subseteq> old_ids" using L(2) by auto
    moreover have "map_pages ?f ps \<noteq> []" using ps by (simp add: map_pages_def)
    ultimately show ?thesis unfolding Drop views_agree_def change_eqs by blast
  qed
qed

lemma change_list_again: "change_list c (change_list c L) = change_list c L"
  by (cases c) (auto simp: add_message_def list_ex_iff patch_actions_def)

lemma change_pages_again: "change_pages c (change_pages c ps) = change_pages c ps"
proof (cases c)
  case (Insert m)
  show ?thesis
  proof (cases ps)
    case (Cons latest rest)
    then show ?thesis using Insert
      by (cases "list_ex (\<lambda>p. list_ex (\<lambda>x. msg_id x = msg_id m) (page_messages p)) ps") (auto simp: patchLatestChatMessagePage_def)
  qed (simp add: Insert patchLatestChatMessagePage_def)
qed (auto simp: map_pages_def patch_actions_def comp_def)

definition demo_message :: "string \<Rightarrow> chat_message" where
  "demo_message i = \<lparr>msg_id = i, msg_session = ''s'', msg_role = ''user'', msg_content = i, msg_task = None, msg_created = i,
     msg_attachments = None, failure_reason = None, elapsed_ms = None, message_kind = None, quick_actions = None\<rparr>"

definition demo_page :: "string list \<Rightarrow> messages_page" where
  "demo_page is = \<lparr>page_messages = map demo_message is, page_limit = 50, has_more = False, next_cursor = None\<rparr>"

definition demo_cache :: chat_cache where
  "demo_cache = \<lparr>cc_sessions = None, cc_messages = [(''s'', map demo_message [''a'', ''b'', ''c''])],
     cc_pages = [(''s'', [demo_page [''c''], demo_page [''b'']])], cc_pending = [], cc_markers = [], cc_failures = [],
     cc_task_messages = [], cc_pinned = None, cc_stale = [], aggregate_due = False\<rparr>"

definition demo_done :: "string \<Rightarrow> chat_done" where
  "demo_done i = \<lparr>done_session = ''s'', done_task = ''t'', done_message = Some i, done_content = Some ''reply'', done_elapsed = None,
     done_created = None, done_kind = None, done_actions = None, done_actions_pending = Some True\<rparr>"

definition demo_restored :: cancel_finalized where
  "demo_restored = \<lparr>cancel_outcome = Restored, cancel_session = ''s'', cancel_task = ''t'', cancel_initiator = None,
     cancel_message = Some ''b'', cancel_content = None, cancel_kind = None, cancel_created = None, cancel_elapsed = None\<rparr>"



section \<open>Transcripts\<close>

definition transcript_ok :: "task_message list \<Rightarrow> bool" where
  "transcript_ok xs \<longleftrightarrow> ordered tm_order xs \<and> distinct (map tm_seq xs)"

lemma tm_consistent: "consistent_on S tm_order"
  unfolding tm_order_def by (rule consistent_key)

lemma merge_step:
  assumes ok: "transcript_ok E" and batch: "distinct (map tm_seq I)" and inj: "inj_on tm_seq S" "set E \<subseteq> S" "set I \<subseteq> S"
  shows "transcript_ok (mergeTaskMessagesBySeq E I) \<and> set (mergeTaskMessagesBySeq E I) = set E \<union> set I"
proof -
  let ?fresh = "filter (\<lambda>m. tm_seq m \<notin> tm_seq ` set E) I"
  have known: "m \<in> set E" if "m \<in> set I" "tm_seq m \<in> tm_seq ` set E" for m
    using that inj by (metis imageE inj_onD subsetD)
  have all: "set E \<union> set ?fresh = set E \<union> set I" using known by auto
  show ?thesis
  proof (cases "?fresh = []")
    case True
    then have "mergeTaskMessagesBySeq E I = E" by (simp add: mergeTaskMessagesBySeq_def)
    then show ?thesis using ok all True by simp
  next
    case False
    then have "I \<noteq> []" by auto
    then have run: "mergeTaskMessagesBySeq E I = array_sort tm_order (E @ ?fresh)" using False by (simp add: mergeTaskMessagesBySeq_def)
    have "distinct (map tm_seq (E @ ?fresh))" using ok batch by (auto simp: transcript_ok_def distinct_map_filter) (metis image_eqI)
    then have "distinct (map tm_seq (array_sort tm_order (E @ ?fresh)))"
      by (metis array_sort_mset mset_eq_imp_distinct_iff mset_map)
    moreover have "ordered tm_order (array_sort tm_order (E @ ?fresh))" by (rule array_sort_ordered [OF tm_consistent subset_UNIV])
    ultimately show ?thesis using all by (simp add: run transcript_ok_def)
  qed
qed

lemma merge_all:
  assumes "inj_on tm_seq S" "\<forall>b \<in> set bs. set b \<subseteq> S \<and> distinct (map tm_seq b)" "transcript_ok E" "set E \<subseteq> S"
  shows "transcript_ok (foldl mergeTaskMessagesBySeq E bs) \<and> set (foldl mergeTaskMessagesBySeq E bs) = set E \<union> (\<Union>b \<in> set bs. set b)"
  using assms(2-4)
proof (induction bs arbitrary: E)
  case (Cons b bs)
  have "transcript_ok (mergeTaskMessagesBySeq E b)" "set (mergeTaskMessagesBySeq E b) = set E \<union> set b"
    using merge_step [OF Cons.prems(2) _ assms(1) Cons.prems(3)] Cons.prems(1) by auto
  then show ?case using Cons.IH [of "mergeTaskMessagesBySeq E b"] Cons.prems(1,3) by auto
qed simp

text \<open>A task's transcript does not depend on how its messages arrive: one by one over the socket, in any order and more than once, or in refetched batches between them, the cache ends as the one list of these messages in the order of their sequence numbers, each number once.\<close>

theorem transcripts_converge:
  assumes "inj_on tm_seq S" "\<forall>b \<in> set bs. set b \<subseteq> S \<and> distinct (map tm_seq b)" "\<forall>b \<in> set cs. set b \<subseteq> S \<and> distinct (map tm_seq b)"
    and same: "(\<Union>b \<in> set bs. set b) = (\<Union>b \<in> set cs. set b)"
  shows "foldl mergeTaskMessagesBySeq [] bs = foldl mergeTaskMessagesBySeq [] cs \<and>
    sorted_wrt (\<lambda>a b. tm_seq a < tm_seq b) (foldl mergeTaskMessagesBySeq [] bs) \<and>
    set (foldl mergeTaskMessagesBySeq [] bs) = (\<Union>b \<in> set bs. set b)"
proof -
  let ?x = "foldl mergeTaskMessagesBySeq [] bs" and ?y = "foldl mergeTaskMessagesBySeq [] cs"
  have none: "transcript_ok []" by (simp add: transcript_ok_def ordered_def)
  have x: "transcript_ok ?x" "set ?x = (\<Union>b \<in> set bs. set b)" using merge_all [OF assms(1,2) none] by auto
  have y: "transcript_ok ?y" "set ?y = (\<Union>b \<in> set cs. set b)" using merge_all [OF assms(1,3) none] by auto
  have d: "distinct ?x" "distinct ?y" using x(1) y(1) by (auto simp: transcript_ok_def distinct_map)
  have "set ?x \<subseteq> S" using x(2) assms(2) by auto
  moreover have "mset ?x = mset ?y" using x(2) y(2) same d by (simp add: set_eq_iff_mset_eq_distinct [symmetric])
  moreover have "a = b" if "a \<in> S" "b \<in> S" "tm_order a b = 0" for a b
    using that inj_onD [OF assms(1)] by (simp add: tm_order_def)
  ultimately have "?x = ?y" using ordered_unique [OF tm_consistent [of S]] x(1) y(1) by (simp add: transcript_ok_def)
  moreover have "sorted_wrt (\<lambda>a b. tm_seq a < tm_seq b) xs" if "transcript_ok xs" for xs
    using that unfolding transcript_ok_def ordered_def tm_order_def by (induction xs) force+
  ultimately show ?thesis using x by blast
qed

definition demo_tm :: "int \<Rightarrow> task_message" where
  "demo_tm n = \<lparr>tm_task = ''t'', tm_seq = n, tm_rest = JNull\<rparr>"

theorem transcripts_converge_witness:
  "foldl mergeTaskMessagesBySeq [] [[demo_tm 2], [demo_tm 1], [demo_tm 2]] = foldl mergeTaskMessagesBySeq [] [[demo_tm 1, demo_tm 2]]"
proof -
  have "inj_on tm_seq {demo_tm 1, demo_tm 2}" by (simp add: inj_on_def demo_tm_def)
  moreover have "\<forall>b \<in> set [[demo_tm 2], [demo_tm 1], [demo_tm 2]]. set b \<subseteq> {demo_tm 1, demo_tm 2} \<and> distinct (map tm_seq b)" by simp
  moreover have "\<forall>b \<in> set [[demo_tm 1, demo_tm 2]]. set b \<subseteq> {demo_tm 1, demo_tm 2} \<and> distinct (map tm_seq b)" by (simp add: demo_tm_def)
  moreover have "(\<Union>b \<in> set [[demo_tm 2], [demo_tm 1], [demo_tm 2]]. set b) = (\<Union>b \<in> set [[demo_tm 1, demo_tm 2]]. set b)" by auto
  ultimately show ?thesis by (rule transcripts_converge [THEN conjunct1])
qed

text \<open>A number repeated inside one batch is not removed, although the helper is said to deduplicate.\<close>

lemma batch_repeats_kept: "map tm_seq (mergeTaskMessagesBySeq [] [demo_tm 1, demo_tm 1]) = [1, 1]"
  by (simp add: mergeTaskMessagesBySeq_def array_sort_def tm_order_def demo_tm_def)

section \<open>A late outcome\<close>

text \<open>The events that settle an earlier task of the session; none of them names the task it settles in the cache.\<close>

definition late_outcome :: "string \<Rightarrow> chat_event \<Rightarrow> bool" where
  "late_outcome sid e \<longleftrightarrow> (case e of
       Task_cancelled session \<Rightarrow> session = Some sid
     | Cancel_finalized nowIso now p \<Rightarrow> cancel_session p = sid \<and> cancel_outcome p = Restored
     | _ \<Rightarrow> False)"

definition status_event :: "string \<Rightarrow> string \<Rightarrow> chat_event \<Rightarrow> bool" where
  "status_event sid i e \<longleftrightarrow> e \<in> {Task_dispatch (Some sid) i, Task_running (Some sid) i, Task_waiting (Some sid) i}"

lemma status_still:
  assumes "obj_get (cc_pending cc) sid = Some no_pending" "sid \<noteq> []" "status_event sid i e"
  shows "obj_get (cc_pending (dispatch_chat getTime wsId user e cc)) sid = Some no_pending"
    "cc_stale (dispatch_chat getTime wsId user e cc) = cc_stale cc"
  using assms by (auto simp: status_event_def on_task_status_def truthy_eq_Some invalidatePendingAggregate_def no_pending_def split: option.split)

text \<open>A task that is sent while the previous one of its session is being cancelled loses its pending state: when the cancellation of the earlier task is reported after the new task was queued, the new task's entry is emptied, every later status event of the new task is ignored because the entry names no task, and unlike after a completion or a failure the entry is not marked stale, so nothing refetches it.\<close>

theorem late_outcome_drops_pending:
  assumes sid: "sid \<noteq> []" and late: "late_outcome sid e" and rest: "\<forall>x \<in> set xs. status_event sid new_task x"
  shows "obj_get (cc_pending (fold (dispatch_chat getTime wsId user) (Task_queued (Some sid) new_task # e # xs) cc)) sid = Some no_pending \<and>
    (Pending_task_key sid \<in> set (cc_stale (fold (dispatch_chat getTime wsId user) (Task_queued (Some sid) new_task # e # xs) cc)) \<longleftrightarrow>
       Pending_task_key sid \<in> set (cc_stale cc)) \<and>
    Pending_task_key sid \<in> set (cc_stale (dispatch_chat getTime wsId user (Task_failed (Some sid)) cc)) \<and>
    (\<forall>nowIso now p. done_session p = sid \<longrightarrow>
       Pending_task_key sid \<in> set (cc_stale (dispatch_chat getTime wsId user (Chat_done nowIso now p) cc)))"
proof -
  let ?d = "dispatch_chat getTime wsId user"
  let ?c = "?d e (?d (Task_queued (Some sid) new_task) cc)"
  have queued: "cc_stale (?d (Task_queued (Some sid) new_task) cc) = cc_stale cc"
    by (simp add: on_task_queued_def invalidatePendingAggregate_def set_pending_task_def split: option.split)
  have settled: "obj_get (cc_pending (?d e c)) sid = Some no_pending \<and>
      (Pending_task_key sid \<in> set (cc_stale (?d e c)) \<longleftrightarrow> Pending_task_key sid \<in> set (cc_stale c))" for c
  proof (cases e)
    case (Task_cancelled session)
    then show ?thesis using late sid by (simp add: late_outcome_def on_task_cancelled_def truthy_eq_Some invalidatePendingAggregate_def
        invalidateChatMessageQueries_def invalidate_chat_def set_pending_task_def obj_simps)
  next
    case (Cancel_finalized nowIso now p)
    have "cc_stale (removeChatMessageFromCaches s i c) = cc_stale c" "cc_pending (removeChatMessageFromCaches s i c) = cc_pending c" for s i c
      by (simp_all add: removeChatMessageFromCaches_def removeChatMessageFromPageCache_def)
    then show ?thesis using late sid by (auto simp: Cancel_finalized late_outcome_def on_cancel_finalized_def Let_def
        applyChatCancelFinalizedToCache_def invalidateChatMessageQueries_def invalidate_chat_def set_pending_task_def obj_simps
        split: option.split)
  qed (use late in \<open>simp_all add: late_outcome_def\<close>)
  have run: "obj_get (cc_pending (fold ?d xs c)) sid = Some no_pending \<and> cc_stale (fold ?d xs c) = cc_stale c"
    if "obj_get (cc_pending c) sid = Some no_pending" for c
    using that rest
  proof (induction xs arbitrary: c)
    case (Cons x xs)
    then have x: "status_event sid new_task x" by simp
    show ?case using Cons.IH [OF status_still(1) [OF Cons.prems(1) sid x]] Cons.prems(2) status_still(2) [OF Cons.prems(1) sid x] by simp
  qed simp
  have "obj_get (cc_pending (fold ?d xs ?c)) sid = Some no_pending" "cc_stale (fold ?d xs ?c) = cc_stale ?c" using run settled by blast+
  moreover have "Pending_task_key sid \<in> set (cc_stale ?c) \<longleftrightarrow> Pending_task_key sid \<in> set (cc_stale cc)" using settled queued by simp
  moreover have "fold ?d (Task_queued (Some sid) new_task # e # xs) cc = fold ?d xs ?c" by simp
  moreover have "Pending_task_key sid \<in> set (cc_stale (?d (Task_failed (Some sid)) cc))"
    using sid by (simp add: on_task_failed_def truthy_eq_Some invalidateSessionLists_def invalidatePendingAggregate_def invalidate_chat_def)
  moreover have "Pending_task_key sid \<in> set (cc_stale (?d (Chat_done nowIso now p) cc))" if "done_session p = sid" for nowIso now p
    using that by (simp add: on_chat_done_def applyChatDoneToCache_def Let_def invalidateSessionLists_def invalidate_chat_def)
  ultimately show ?thesis by simp
qed

theorem late_outcome_drops_pending_witness:
  "obj_get (cc_pending (fold (dispatch_chat (\<lambda>_. None) (Some ''w'') None)
     [Task_queued (Some ''s'') ''n'', Cancel_finalized ''now'' 0 demo_restored, Task_dispatch (Some ''s'') ''n''] demo_cache)) ''s'' = Some no_pending"
proof -
  have "late_outcome ''s'' (Cancel_finalized ''now'' 0 demo_restored)" by (simp add: late_outcome_def demo_restored_def)
  moreover have "\<forall>x \<in> set [Task_dispatch (Some ''s'') ''n'']. status_event ''s'' ''n'' x" by (simp add: status_event_def)
  ultimately show ?thesis by (rule late_outcome_drops_pending [THEN conjunct1, rotated]) simp
qed

section \<open>Archiving\<close>

lemma count_unread_sum:
  "countUnreadChatMessages (Some ss) None = sum_mset (image_mset (\<lambda>s. default_to 0 (unread_count s)) (mset ss))"
proof -
  have "foldl (\<lambda>sum s. sum + default_to 0 (unread_count s)) a ss = a + sum_mset (image_mset (\<lambda>s. default_to 0 (unread_count s)) (mset ss))" for a
    by (induction ss arbitrary: a) simp_all
  then show ?thesis by (simp add: countUnreadChatMessages_def)
qed

lemma count_sessions_mset: "countUnreadChatSessions ss = size (filter_mset (\<lambda>s. has_unread s \<and> session_status s \<noteq> ''archived'') (mset ss))"
  unfolding countUnreadChatSessions_def mset_filter [symmetric] size_mset by (rule refl)

lemma session_order_consistent:
  assumes "\<forall>s \<in> S. sessionActivityTime getTime s \<noteq> None"
  shows "consistent_on S (session_order getTime)"
proof -
  have "consistent_on S (\<lambda>a b. or_number ((\<lambda>a b. - 1 * (session_pin_rank a - session_pin_rank b)) a b)
      (time_diff (sessionActivityTime getTime b) (sessionActivityTime getTime a)))"
    by (rule consistent_or [OF consistent_dir [OF consistent_key]])
      (use consistent_time(2) [where tm = "\<lambda>x. x" and k = "sessionActivityTime getTime"] assms in auto)
  moreover have "session_order getTime = (\<lambda>a b. or_number ((\<lambda>a b. - 1 * (session_pin_rank a - session_pin_rank b)) a b)
      (time_diff (sessionActivityTime getTime b) (sessionActivityTime getTime a)))"
    by (auto simp: fun_eq_iff session_order_def or_number_def)
  ultimately show ?thesis by simp
qed

lemma split_by_id:
  assumes "distinct (map session_id ss)" "s \<in> set ss"
  shows "\<exists>xs ys. ss = xs @ s # ys \<and> (\<forall>x \<in> set (xs @ ys). session_id x \<noteq> session_id s)"
proof -
  obtain xs ys where ss: "ss = xs @ s # ys" using assms(2) by (meson split_list)
  have "session_id s \<notin> session_id ` set (xs @ ys)" using assms(1) unfolding ss by auto
  then have "\<forall>x \<in> set (xs @ ys). session_id x \<noteq> session_id s" by (metis image_eqI)
  then show ?thesis using ss by blast
qed

text \<open>Archiving a chat keeps every row, in order, takes the chat's unread messages off the message badge and the chat off the session badge at once, changes no other chat's part of either, gives the list back when the server refuses, and another tab that hears of it from the server ends with the same rows.\<close>

theorem archiving_clears_badges:
  assumes cached: "cc_sessions cc = Some ss" and ids: "distinct (map session_id ss)" and s: "s \<in> set ss"
    and dates: "\<forall>x \<in> set ss. sessionActivityTime getTime x \<noteq> None" "getTime nowIso \<noteq> None"
  shows "\<exists>ss'. cc_sessions (fst (set_session_archived_mutate getTime nowIso (session_id s) True cc)) = Some ss' \<and>
    ordered (session_order getTime) ss' \<and> mset (map session_id ss') = mset (map session_id ss) \<and>
    countUnreadChatMessages (Some ss') None + default_to 0 (unread_count s) = countUnreadChatMessages (Some ss) None \<and>
    countUnreadChatSessions ss' + (if has_unread s \<and> session_status s \<noteq> ''archived'' then 1 else 0) = countUnreadChatSessions ss \<and>
    sessions_error (snd (set_session_archived_mutate getTime nowIso (session_id s) True cc))
      (fst (set_session_archived_mutate getTime nowIso (session_id s) True cc)) = cc \<and>
    cc_sessions (applyChatSessionUpdatedToCache getTime \<lparr>upd_session = session_id s, upd_title = None, upd_project = None,
      upd_pinned = None, upd_status = Some ''archived'', upd_updated = Some nowIso\<rparr> cc) = Some ss'"
proof -
  let ?f = "\<lambda>x. if session_id x = session_id s then archive_patch True nowIso x else x"
  let ?new = "map ?f ss"
  obtain xs ys where ss: "ss = xs @ s # ys" "\<forall>x \<in> set (xs @ ys). session_id x \<noteq> session_id s" using split_by_id [OF ids s] by blast
  have rest: "map ?f xs = xs" "map ?f ys = ys" using ss(2) by (simp_all add: map_idI)
  then have new: "?new = xs @ archive_patch True nowIso s # ys" by (simp add: ss(1))
  have p: "session_id (archive_patch True nowIso x) = session_id x" "unread_count (archive_patch True nowIso x) = Some 0"
    "has_unread (archive_patch True nowIso x) = False" "last_message (archive_patch True nowIso x) = last_message x"
    "session_updated (archive_patch True nowIso x) = nowIso" for x
    by (simp_all add: archive_patch_def Let_def)
  have run: "set_session_archived_mutate getTime nowIso (session_id s) True cc =
      (cc\<lparr>cc_sessions := Some (sortChatSessions getTime ?new)\<rparr>, Some ss)"
    by (simp add: set_session_archived_mutate_def map_sessions_def cached on_session_def)
  have m: "mset (sortChatSessions getTime ?new) = mset (xs @ archive_patch True nowIso s # ys)"
    by (simp only: sortChatSessions_def array_sort_mset new)
  have "\<forall>x \<in> set ?new. sessionActivityTime getTime x \<noteq> None"
  proof
    fix x
    assume "x \<in> set ?new"
    then have "x \<in> set (xs @ archive_patch True nowIso s # ys)" by (simp only: new)
    then have "x \<in> set ss \<or> x = archive_patch True nowIso s" unfolding ss(1) by auto
    then show "sessionActivityTime getTime x \<noteq> None"
      using dates s p(4,5) [of s] by (auto simp: sessionActivityTime_def split: option.splits)
  qed
  then have "ordered (session_order getTime) (sortChatSessions getTime ?new)"
    unfolding sortChatSessions_def by (rule array_sort_ordered [OF session_order_consistent]) simp
  moreover have "mset (map session_id (sortChatSessions getTime ?new)) = mset (map session_id ss)"
    unfolding mset_map m by (simp add: ss(1) p(1))
  moreover have "countUnreadChatMessages (Some (sortChatSessions getTime ?new)) None + default_to 0 (unread_count s) = countUnreadChatMessages (Some ss) None"
    unfolding count_unread_sum m unfolding ss(1) by (simp add: p(2) default_to_def)
  moreover have "countUnreadChatSessions (sortChatSessions getTime ?new) + (if has_unread s \<and> session_status s \<noteq> ''archived'' then 1 else 0) =
      countUnreadChatSessions ss"
    unfolding count_sessions_mset m unfolding ss(1) by (simp add: p(3))
  moreover have "sessions_error (Some ss) (cc\<lparr>cc_sessions := Some (sortChatSessions getTime ?new)\<rparr>) = cc"
    using cached by (simp add: sessions_error_def)
  moreover have "patch_session \<lparr>upd_session = session_id s, upd_title = None, upd_project = None,
      upd_pinned = None, upd_status = Some ''archived'', upd_updated = Some nowIso\<rparr> x = ?f x" for x
    by (simp add: patch_session_def archive_patch_def default_to_def Let_def)
  then have "cc_sessions (applyChatSessionUpdatedToCache getTime \<lparr>upd_session = session_id s, upd_title = None, upd_project = None,
      upd_pinned = None, upd_status = Some ''archived'', upd_updated = Some nowIso\<rparr> cc) = Some (sortChatSessions getTime ?new)"
    by (simp add: applyChatSessionUpdatedToCache_def cached Let_def cong: map_cong)
  ultimately show ?thesis unfolding run fst_conv snd_conv by (intro exI [of _ "sortChatSessions getTime ?new"]) simp
qed

definition demo_session :: "string \<Rightarrow> int \<Rightarrow> chat_session" where
  "demo_session i n = \<lparr>session_id = i, session_workspace = ''w'', session_agent = ''g'', session_creator = ''u'', session_project = None,
     session_title = i, session_status = ''active'', has_unread = n > 0, unread_count = Some n, last_message = None,
     session_pinned = None, session_created = i, session_updated = i\<rparr>"

theorem archiving_clears_badges_witness:
  "\<exists>ss'. cc_sessions (fst (set_session_archived_mutate (\<lambda>t. Some (int (length t))) ''now'' ''s'' True
       (demo_cache\<lparr>cc_sessions := Some [demo_session ''s'' 2, demo_session ''r'' 3]\<rparr>))) = Some ss' \<and>
     countUnreadChatMessages (Some ss') None = 3 \<and> countUnreadChatSessions ss' = 1"
proof -
  let ?cc = "demo_cache\<lparr>cc_sessions := Some [demo_session ''s'' 2, demo_session ''r'' 3]\<rparr>"
  have "cc_sessions ?cc = Some [demo_session ''s'' 2, demo_session ''r'' 3]" by simp
  moreover have "distinct (map session_id [demo_session ''s'' 2, demo_session ''r'' 3])" by (simp add: demo_session_def)
  moreover have "demo_session ''s'' 2 \<in> set [demo_session ''s'' 2, demo_session ''r'' 3]" by simp
  moreover have "\<forall>x \<in> set [demo_session ''s'' 2, demo_session ''r'' 3]. sessionActivityTime (\<lambda>t. Some (int (length t))) x \<noteq> None"
    by (simp add: sessionActivityTime_def)
  moreover have "(\<lambda>t. Some (int (length t))) ''now'' \<noteq> None" by simp
  ultimately obtain ss' where "cc_sessions (fst (set_session_archived_mutate (\<lambda>t. Some (int (length t))) ''now'' (session_id (demo_session ''s'' 2)) True ?cc)) = Some ss'"
    "countUnreadChatMessages (Some ss') None + default_to 0 (unread_count (demo_session ''s'' 2)) =
       countUnreadChatMessages (Some [demo_session ''s'' 2, demo_session ''r'' 3]) None"
    "countUnreadChatSessions ss' + (if has_unread (demo_session ''s'' 2) \<and> session_status (demo_session ''s'' 2) \<noteq> ''archived'' then 1 else 0) =
       countUnreadChatSessions [demo_session ''s'' 2, demo_session ''r'' 3]"
    using archiving_clears_badges by blast
  then show ?thesis by (auto simp: demo_session_def countUnreadChatMessages_def countUnreadChatSessions_def default_to_def)
qed

section \<open>The marker belongs to its turn\<close>

text \<open>A supplement or a timeout for another message leaves the marker alone; its own resolves it.\<close>

lemma marker_actions: "marker_of sid (applyChatQuickActionsToCache now p cc) =
    (if qa_session p = sid then (case marker_of sid cc of
        Some m \<Rightarrow> if marker_message m \<noteq> qa_message p then Some m else None | None \<Rightarrow> None)
     else marker_of sid cc)"
  by (auto simp: marker_of_def applyChatQuickActionsToCache_def Let_def obj_simps split: option.splits)

lemma marker_timed_out: "marker_of sid (marker_timeout k i cc) =
    (if k = sid then (case marker_of sid cc of Some m \<Rightarrow> if marker_message m = i then None else Some m | None \<Rightarrow> None)
     else marker_of sid cc)"
  by (auto simp: marker_of_def marker_timeout_def obj_simps split: option.splits)

lemma marker_done: "marker_of (done_session p) (applyChatDoneToCache nowIso now p cc) =
    (case truthy (done_message p) of None \<Rightarrow> None
     | Some i \<Rightarrow> if done_actions_pending p = Some True then Some \<lparr>marker_message = i, marker_task = done_task p,
         expires_at = now + QUICK_ACTIONS_PENDING_TIMEOUT_MS\<rparr> else None)"
  by (auto simp: marker_of_def applyChatDoneToCache_def Let_def invalidateChatMessageQueries_def invalidate_chat_def obj_simps split: option.split)

lemma regenerate_back: "marker_of sid (regenerate_error sid (snd (regenerate_mutate now sid i cc)) (fst (regenerate_mutate now sid i cc))) =
    marker_of sid cc"
  by (simp add: regenerate_error_def regenerate_mutate_def marker_of_def obj_simps split: option.split)

end
