(* ===== verification/WS_Client.thy ===== *)
theory WS_Client
  imports JS_Json
begin

text \<open>
  \<open>packages/core/api/ws-client.ts\<close>: the client of the event socket. The browser is part of the
  state: the sockets the client has created, numbered in order, and the timers that are set. A
  socket delivers messages only while it is open, and none after \<open>close()\<close>, as the WebSocket
  interface of browsers specifies. A handler is a number; which handlers throw is a parameter, and
  handlers that call back into the client are not modelled. What the client does to the outside
  is a list of effects.
\<close>

section \<open>State\<close>

type_synonym handler = nat

datatype socket_phase = Connecting | Opened | Closed

record ws_socket =
  phase :: socket_phase
  has_onclose :: bool
  query_params :: "string obj"

record ws_identity =
  id_platform :: "string option"
  id_version :: "string option"
  id_os :: "string option"

record ws_client =
  ws :: "nat option"
  sockets :: "ws_socket list"
  base_params :: "string obj"
  token :: "string option"
  workspaceSlug :: "string option"
  cookieAuth :: bool
  identity :: "ws_identity option"
  handlers :: "handler list obj"
  anyHandlers :: "handler list"
  onReconnectCallbacks :: "handler list"
  reconnectTimer :: "nat option"
  timers :: "(nat \<times> int) list"
  next_timer :: nat
  reconnectAttempt :: nat
  hasConnectedBefore :: bool
  badFrameLogged :: bool

text \<open>A frame: its text, and the value \<open>JSON.parse\<close> gives when it does not throw.\<close>

record frame =
  raw :: string
  parsed :: "js option"

datatype ws_effect =
    Sent_auth nat string
  | Sent nat js
  | Called handler js js js
  | Called_any handler js
  | Reconnected handler
  | Warned string
  | Uncaught

definition new_client :: "string obj \<Rightarrow> bool \<Rightarrow> ws_identity option \<Rightarrow> ws_client" where
  "new_client url cookie ident =
     \<lparr>ws = None, sockets = [], base_params = url, token = None, workspaceSlug = None, cookieAuth = cookie,
      identity = ident, handlers = [], anyHandlers = [], onReconnectCallbacks = [], reconnectTimer = None,
      timers = [], next_timer = 0, reconnectAttempt = 0, hasConnectedBefore = False, badFrameLogged = False\<rparr>"

section \<open>Backoff\<close>

definition RECONNECT_BASE_DELAY_MS :: nat where "RECONNECT_BASE_DELAY_MS = 1000"
definition RECONNECT_MAX_DELAY_MS :: nat where "RECONNECT_MAX_DELAY_MS = 30000"
definition UNPARSEABLE_LOG_MAX_CHARS :: nat where "UNPARSEABLE_LOG_MAX_CHARS = 200"

definition backoff_base :: "nat \<Rightarrow> nat" where
  "backoff_base attempt = min (RECONNECT_BASE_DELAY_MS * 2 ^ attempt) RECONNECT_MAX_DELAY_MS"

text \<open>\<open>Math.round\<close>, and the delay for one value of \<open>Math.random()\<close>.\<close>

definition math_round :: "rat \<Rightarrow> int" where
  "math_round x = \<lfloor>x + 1 / 2\<rfloor>"

definition reconnect_delay :: "nat \<Rightarrow> rat \<Rightarrow> int" where
  "reconnect_delay attempt random =
     (let base = of_nat (backoff_base attempt);
          jitter = base * (1 / 5) * (random * 2 - 1)
      in math_round (min (base + jitter) (of_nat RECONNECT_MAX_DELAY_MS)))"

text \<open>The character of the ellipsis is not below 256, so it is an argument.\<close>

definition summarizeUnparseable :: "string \<Rightarrow> string \<Rightarrow> string" where
  "summarizeUnparseable ellipsis data =
     (if length data \<le> UNPARSEABLE_LOG_MAX_CHARS then data
      else take UNPARSEABLE_LOG_MAX_CHARS data @ ellipsis @ '' (truncated, '' @ string_of_nat (length data) @ '' chars total)'')"

section \<open>Connecting\<close>

definition setAuth :: "string option \<Rightarrow> string \<Rightarrow> ws_client \<Rightarrow> ws_client" where
  "setAuth tok slug c = c\<lparr>token := tok, workspaceSlug := Some slug\<rparr>"

definition set_param :: "string \<Rightarrow> string option \<Rightarrow> string obj \<Rightarrow> string obj" where
  "set_param k v ps = (case truthy v of None \<Rightarrow> ps | Some s \<Rightarrow> obj_set ps k s)"

definition connect_params :: "ws_client \<Rightarrow> string obj" where
  "connect_params c =
     (let part = (\<lambda>f. Option.bind (identity c) f)
      in set_param ''client_os'' (part id_os)
          (set_param ''client_version'' (part id_version)
            (set_param ''client_platform'' (part id_platform)
              (set_param ''workspace_slug'' (workspaceSlug c) (base_params c)))))"

definition connect :: "ws_client \<Rightarrow> ws_client" where
  "connect c =
     c\<lparr>badFrameLogged := False,
       sockets := sockets c @ [\<lparr>phase = Connecting, has_onclose = True, query_params = connect_params c\<rparr>],
       ws := Some (length (sockets c))\<rparr>"

definition scheduleReconnect :: "rat \<Rightarrow> ws_client \<Rightarrow> ws_client" where
  "scheduleReconnect random c =
     c\<lparr>reconnectAttempt := Suc (reconnectAttempt c),
       timers := timers c @ [(next_timer c, reconnect_delay (reconnectAttempt c) random)],
       reconnectTimer := Some (next_timer c),
       next_timer := Suc (next_timer c)\<rparr>"

text \<open>A throwing reconnect callback is caught.\<close>

definition onAuthenticated :: "ws_client \<Rightarrow> ws_client \<times> ws_effect list" where
  "onAuthenticated c =
     (c\<lparr>reconnectAttempt := 0, hasConnectedBefore := True\<rparr>,
      if hasConnectedBefore c then map Reconnected (onReconnectCallbacks c) else [])"

section \<open>Socket callbacks\<close>

definition phase_of :: "ws_client \<Rightarrow> nat \<Rightarrow> socket_phase" where
  "phase_of c i = (if i < length (sockets c) then phase (sockets c ! i) else Closed)"

definition set_socket :: "nat \<Rightarrow> (ws_socket \<Rightarrow> ws_socket) \<Rightarrow> ws_client \<Rightarrow> ws_client" where
  "set_socket i f c = c\<lparr>sockets := (sockets c)[i := f (sockets c ! i)]\<rparr>"

text \<open>\<open>this.ws!.send\<close> throws when there is no socket or it is still connecting.\<close>

definition on_open :: "ws_client \<Rightarrow> ws_client \<times> ws_effect list" where
  "on_open c =
     (case (cookieAuth c, truthy (token c)) of
        (False, Some t) \<Rightarrow>
          (c, case ws c of
                None \<Rightarrow> [Uncaught]
              | Some i \<Rightarrow> (case phase_of c i of Connecting \<Rightarrow> [Uncaught] | Opened \<Rightarrow> [Sent_auth i t] | Closed \<Rightarrow> []))
      | _ \<Rightarrow> onAuthenticated c)"

text \<open>Calls in order until one throws; the flag tells whether one did.\<close>

fun call_all :: "(handler \<Rightarrow> bool) \<Rightarrow> (handler \<Rightarrow> ws_effect) \<Rightarrow> handler list \<Rightarrow> ws_effect list \<times> bool" where
  "call_all throws eff [] = ([], False)"
| "call_all throws eff (h # hs) =
     (if throws h then ([eff h, Uncaught], True)
      else (case call_all throws eff hs of (es, t) \<Rightarrow> (eff h # es, t)))"

definition dispatch_frame :: "(handler \<Rightarrow> bool) \<Rightarrow> string \<Rightarrow> js \<Rightarrow> ws_client \<Rightarrow> ws_effect list" where
  "dispatch_frame throws event_type msg c =
     (case call_all throws (\<lambda>h. Called h (get_prop msg ''payload'') (get_prop msg ''actor_id'') (get_prop msg ''actor_type''))
              (default_to [] (obj_get (handlers c) event_type)) of
        (es, True) \<Rightarrow> es
      | (es, False) \<Rightarrow> es @ fst (call_all throws (\<lambda>h. Called_any h msg) (anyHandlers c)))"

definition on_message :: "(handler \<Rightarrow> bool) \<Rightarrow> string \<Rightarrow> frame \<Rightarrow> ws_client \<Rightarrow> ws_client \<times> ws_effect list" where
  "on_message throws ellipsis fr c =
     (case parsed fr of
        None \<Rightarrow> (c, [Warned (summarizeUnparseable ellipsis (raw fr))])
      | Some msg \<Rightarrow>
          (if \<not> js_truthy msg \<or> \<not> is_string (get_prop msg ''type'')
           then (if badFrameLogged c then (c, [])
                 else (c\<lparr>badFrameLogged := True\<rparr>, [Warned (summarizeUnparseable ellipsis (raw fr))]))
           else if get_prop msg ''type'' = JStr ''auth_ack'' then onAuthenticated c
           else (case get_prop msg ''type'' of
                   JStr t \<Rightarrow> (c, dispatch_frame throws t msg c)
                 | _ \<Rightarrow> (c, []))))"

definition on_close :: "nat \<Rightarrow> rat \<Rightarrow> ws_client \<Rightarrow> ws_client" where
  "on_close i random c =
     (let c1 = set_socket i (\<lambda>s. s\<lparr>phase := Closed\<rparr>) c
      in if has_onclose (sockets c ! i) then scheduleReconnect random c1 else c1)"

section \<open>Subscriptions and teardown\<close>

definition set_insert :: "handler \<Rightarrow> handler list \<Rightarrow> handler list" where
  "set_insert h hs = (if h \<in> set hs then hs else hs @ [h])"

definition ws_on :: "string \<Rightarrow> handler \<Rightarrow> ws_client \<Rightarrow> ws_client" where
  "ws_on event h c = c\<lparr>handlers := obj_set (handlers c) event (set_insert h (default_to [] (obj_get (handlers c) event)))\<rparr>"

definition ws_off :: "string \<Rightarrow> handler \<Rightarrow> ws_client \<Rightarrow> ws_client" where
  "ws_off event h c =
     (case obj_get (handlers c) event of
        None \<Rightarrow> c
      | Some hs \<Rightarrow> c\<lparr>handlers := obj_set (handlers c) event (filter (\<lambda>x. x \<noteq> h) hs)\<rparr>)"

definition onAny :: "handler \<Rightarrow> ws_client \<Rightarrow> ws_client" where
  "onAny h c = c\<lparr>anyHandlers := set_insert h (anyHandlers c)\<rparr>"

definition offAny :: "handler \<Rightarrow> ws_client \<Rightarrow> ws_client" where
  "offAny h c = c\<lparr>anyHandlers := filter (\<lambda>x. x \<noteq> h) (anyHandlers c)\<rparr>"

definition onReconnect :: "handler \<Rightarrow> ws_client \<Rightarrow> ws_client" where
  "onReconnect h c = c\<lparr>onReconnectCallbacks := set_insert h (onReconnectCallbacks c)\<rparr>"

definition offReconnect :: "handler \<Rightarrow> ws_client \<Rightarrow> ws_client" where
  "offReconnect h c = c\<lparr>onReconnectCallbacks := filter (\<lambda>x. x \<noteq> h) (onReconnectCallbacks c)\<rparr>"

definition ws_send :: "js \<Rightarrow> ws_client \<Rightarrow> ws_effect list" where
  "ws_send msg c = (case ws c of None \<Rightarrow> [] | Some i \<Rightarrow> if phase_of c i = Opened then [Sent i msg] else [])"

text \<open>\<open>close()\<close> ends the socket at once: no callback of it runs any more but \<open>onclose\<close>, which is cleared.\<close>

definition disconnect :: "ws_client \<Rightarrow> ws_client" where
  "disconnect c =
     (let c1 = (case reconnectTimer c of
                  None \<Rightarrow> c
                | Some t \<Rightarrow> c\<lparr>timers := filter (\<lambda>x. fst x \<noteq> t) (timers c), reconnectTimer := None\<rparr>);
          c2 = (case ws c1 of
                  None \<Rightarrow> c1
                | Some i \<Rightarrow> (set_socket i (\<lambda>s. s\<lparr>has_onclose := False, phase := Closed\<rparr>) c1)\<lparr>ws := None\<rparr>)
      in c2\<lparr>hasConnectedBefore := False, reconnectAttempt := 0, handlers := [], anyHandlers := [], onReconnectCallbacks := []\<rparr>)"

section \<open>The client in the browser\<close>

text \<open>
  What can happen: the browser opens a socket, delivers a frame or closes the socket (with the
  value \<open>Math.random()\<close> has then), a timer fires, and the program subscribes, sends or disconnects.
\<close>

datatype ws_act =
    Opens nat
  | Receives nat frame
  | Closes nat rat
  | Fires nat
  | On string handler
  | Off string handler
  | On_any handler
  | Off_any handler
  | On_reconnect handler
  | Off_reconnect handler
  | Sends js
  | Disconnects

fun enabled :: "ws_client \<Rightarrow> ws_act \<Rightarrow> bool" where
  "enabled c (Opens i) \<longleftrightarrow> phase_of c i = Connecting"
| "enabled c (Receives i fr) \<longleftrightarrow> phase_of c i = Opened"
| "enabled c (Closes i r) \<longleftrightarrow> phase_of c i \<noteq> Closed \<and> 0 \<le> r \<and> r < 1"
| "enabled c (Fires t) \<longleftrightarrow> t \<in> fst ` set (timers c)"
| "enabled c a \<longleftrightarrow> True"

fun ws_step :: "(handler \<Rightarrow> bool) \<Rightarrow> string \<Rightarrow> ws_act \<Rightarrow> ws_client \<Rightarrow> ws_client \<times> ws_effect list" where
  "ws_step throws ell (Opens i) c = on_open (set_socket i (\<lambda>s. s\<lparr>phase := Opened\<rparr>) c)"
| "ws_step throws ell (Receives i fr) c = on_message throws ell fr c"
| "ws_step throws ell (Closes i r) c = (on_close i r c, [])"
| "ws_step throws ell (Fires t) c = (connect (c\<lparr>timers := filter (\<lambda>x. fst x \<noteq> t) (timers c)\<rparr>), [])"
| "ws_step throws ell (On e h) c = (ws_on e h c, [])"
| "ws_step throws ell (Off e h) c = (ws_off e h c, [])"
| "ws_step throws ell (On_any h) c = (onAny h c, [])"
| "ws_step throws ell (Off_any h) c = (offAny h c, [])"
| "ws_step throws ell (On_reconnect h) c = (onReconnect h c, [])"
| "ws_step throws ell (Off_reconnect h) c = (offReconnect h c, [])"
| "ws_step throws ell (Sends m) c = (c, ws_send m c)"
| "ws_step throws ell Disconnects c = (disconnect c, [])"

text \<open>\<open>WSProvider\<close> makes a client, sets its credentials, connects once, and disconnects on cleanup.\<close>

definition provider_start :: "string obj \<Rightarrow> bool \<Rightarrow> ws_identity option \<Rightarrow> string option \<Rightarrow> string \<Rightarrow> ws_client" where
  "provider_start url cookie ident tok slug = connect (setAuth tok slug (new_client url cookie ident))"

text \<open>The runs of a client: its acts so far, its state, and each effect with the act it belongs to.\<close>

inductive ws_run ::
  "(handler \<Rightarrow> bool) \<Rightarrow> string \<Rightarrow> ws_client \<Rightarrow> ws_act list \<Rightarrow> ws_client \<Rightarrow> (ws_act \<times> ws_effect list) list \<Rightarrow> bool"
  for throws ell start where
  run_start: "ws_run throws ell start [] start []"
| run_step: "ws_run throws ell start as c tr \<Longrightarrow> enabled c a \<Longrightarrow> ws_step throws ell a c = (c', es) \<Longrightarrow>
    ws_run throws ell start (as @ [a]) c' (tr @ [(a, es)])"

inductive_cases ws_run_lastE: "ws_run throws ell start (as @ [a]) c tr"

end
