(* ===== verification/Realtime_Dispatch.thy ===== *)
theory Realtime_Dispatch
  imports WS_Client Issue_Mutations Inbox Chat_Cache
begin

text \<open>
  \<open>packages/core/realtime/use-realtime-sync.ts\<close> apart from the chat events: the generic refresh
  of the query caches with its debounce, the recovery after a reconnect, the fallbacks for
  timeline, reaction and subscriber events, the issue events, inbox notifications and what
  happens when a workspace changes or is lost. A query key is the list of its parts (a part that
  is an object does not occur in the keys below); an invalidation is a key prefix, or the
  predicate of the squad status queries. The clock is an argument.
\<close>

section \<open>Keys\<close>

type_synonym qkey = "string list"

datatype invalidation = Below qkey | Squad_status string

text \<open>The prefix matching of the query client, and the predicate of \<open>invalidateSquadMemberStatusQueries\<close>.\<close>

fun matches :: "invalidation \<Rightarrow> qkey \<Rightarrow> bool" where
  "matches (Below p) k \<longleftrightarrow> take (length p) k = p"
| "matches (Squad_status wsId) k \<longleftrightarrow> 5 \<le> length k \<and> k ! 0 = ''workspaces'' \<and> k ! 1 = wsId \<and> k ! 2 = ''squads'' \<and>
     k ! 4 = ''members-status''"

definition workspace_part :: "string \<Rightarrow> string \<Rightarrow> invalidation" where
  "workspace_part part wsId = Below [''workspaces'', wsId, part]"

definition scoped :: "string \<Rightarrow> string \<Rightarrow> invalidation" where
  "scoped root_part wsId = Below [root_part, wsId]"

definition issue_table_all :: "string \<Rightarrow> invalidation" where
  "issue_table_all wsId = Below [''issues'', wsId, ''table-query'']"

definition per_issue :: "string \<Rightarrow> invalidation" where
  "per_issue part = Below [''issues'', part]"

definition workspace_list :: invalidation where "workspace_list = Below [''workspaces'', ''list'']"
definition my_invitations :: invalidation where "my_invitations = Below [''invitations'', ''mine'']"
definition unread_summary :: invalidation where "unread_summary = Below [''inbox'', ''unread-summary'']"

section \<open>The refresh map\<close>

definition refresh_task :: "string \<Rightarrow> invalidation list" where
  "refresh_task wsId =
     [Below [''workspaces'', wsId, ''agent-task-snapshot'', ''list''], workspace_part ''working-agents'' wsId,
      issue_table_all wsId, Below [''workspaces'', wsId, ''agent-activity'', ''30d''],
      Below [''workspaces'', wsId, ''agent-run-counts'', ''30d''], workspace_part ''agent-tasks'' wsId,
      per_issue ''tasks'', per_issue ''usage'', Squad_status wsId, per_issue ''comment-trigger-preview'']"

text \<open>Each entry, given the current workspace and the signed-in user at the time it runs.\<close>

definition refreshMap :: "string option \<Rightarrow> string option \<Rightarrow> invalidation list obj" where
  "refreshMap current user =
     (let guarded = (\<lambda>f. case truthy current of None \<Rightarrow> [] | Some wsId \<Rightarrow> f wsId) in
      [(''inbox'', guarded (\<lambda>w. [scoped ''inbox'' w]) @ [unread_summary]),
       (''agent'', guarded (\<lambda>w. [workspace_part ''agents'' w, workspace_part ''working-agents'' w, Squad_status w])),
       (''member'', guarded (\<lambda>w. [workspace_part ''members'' w])),
       (''workspace'', [workspace_list]),
       (''skill'', guarded (\<lambda>w. [workspace_part ''skills'' w])),
       (''project'', guarded (\<lambda>w. [scoped ''projects'' w])),
       (''squad'', guarded (\<lambda>w. [workspace_part ''squads'' w, scoped ''issues'' w])),
       (''label'', guarded (\<lambda>w. [scoped ''labels'' w, scoped ''issues'' w, workspace_part ''agents'' w, workspace_part ''skills'' w])),
       (''pin'', guarded (\<lambda>w. case truthy user of None \<Rightarrow> [] | Some u \<Rightarrow> [Below [''pins'', w, u]])),
       (''daemon'', guarded (\<lambda>w. [scoped ''runtimes'' w, Squad_status w])),
       (''autopilot'', guarded (\<lambda>w. [scoped ''autopilots'' w])),
       (''github_installation'', guarded (\<lambda>w. [Below [''github'', w, ''installations'']])),
       (''lark_installation'', guarded (\<lambda>w. [Below [''lark'', w, ''installations'']])),
       (''slack_installation'', guarded (\<lambda>w. [Below [''slack'', w, ''installations'']])),
       (''vcs_connection'', guarded (\<lambda>w. [scoped ''vcs'' w])),
       (''pull_request'', [Below [''github'', ''pull-requests'']]),
       (''task'', guarded refresh_task)])"

definition specificEvents :: "string list" where
  "specificEvents =
     [''workspace:updated'', ''issue:updated'', ''issue:created'', ''issue:deleted'', ''issue_labels:changed'',
      ''issue_metadata:changed'', ''issue_properties:changed'', ''property:created'', ''property:updated'', ''inbox:new'',
      ''comment:created'', ''comment:updated'', ''comment:deleted'', ''comment:resolved'', ''comment:unresolved'',
      ''activity:created'', ''reaction:added'', ''reaction:removed'', ''issue_reaction:added'', ''issue_reaction:removed'',
      ''subscriber:added'', ''subscriber:removed'', ''daemon:heartbeat'', ''chat:message'', ''chat:done'',
      ''chat:quick_actions'', ''chat:cancel_finalized'', ''chat:session_read'', ''chat:session_deleted'',
      ''chat:session_updated'', ''task:message'']"

section \<open>State\<close>

record rt_workspace =
  wsp_id :: string
  wsp_slug :: string
  wsp_prefix :: string
  wsp_rest :: js

record rt_state =
  rt_current :: "string option"
  rt_slug :: "string option"
  rt_user :: "string option"
  rt_workspaces :: "rt_workspace list option"
  rt_stale :: "invalidation list"
  rt_due :: "int obj"
  rt_fired :: "(string \<times> int) list"
  rt_storage :: storage
  rt_entries :: "cleanup_entry obj"
  rt_pending_deletes :: "string list"
  rt_toasts :: "string list"
  rt_lost :: "string list"

definition stale :: "invalidation list \<Rightarrow> rt_state \<Rightarrow> rt_state" where
  "stale invs st = st\<lparr>rt_stale := rt_stale st @ invs\<rparr>"

section \<open>The debounced refresh\<close>

definition debouncedRefresh :: "int \<Rightarrow> string \<Rightarrow> rt_state \<Rightarrow> rt_state" where
  "debouncedRefresh now prefix st = st\<lparr>rt_due := obj_set (rt_due st) prefix (now + 100)\<rparr>"

definition event_prefix :: "string \<Rightarrow> string" where
  "event_prefix event_type = hd (split_on CHR '':'' event_type)"

definition on_any :: "int \<Rightarrow> string \<Rightarrow> rt_state \<Rightarrow> rt_state" where
  "on_any now event_type st =
     (if event_type \<in> set specificEvents then st
      else (case obj_get (refreshMap (rt_current st) (rt_user st)) (event_prefix event_type) of
              None \<Rightarrow> st
            | Some f \<Rightarrow> debouncedRefresh now (event_prefix event_type) st))"

text \<open>One timer runs: the entry of its prefix, with the workspace and user of that moment.\<close>

definition fire :: "string \<times> int \<Rightarrow> rt_state \<Rightarrow> rt_state" where
  "fire t st =
     stale (default_to [] (obj_get (refreshMap (rt_current st) (rt_user st)) (fst t)))
       (st\<lparr>rt_due := obj_delete (rt_due st) (fst t), rt_fired := rt_fired st @ [t]\<rparr>)"

text \<open>Every timer that is due by now, in the order of their times.\<close>

definition fire_until :: "int \<Rightarrow> rt_state \<Rightarrow> rt_state" where
  "fire_until now st = fold fire (sort_key snd (filter (\<lambda>t. snd t \<le> now) (rt_due st))) st"

text \<open>A burst of events in the order they arrive, each after the timers due by then.\<close>

fun run_events :: "(int \<times> string) list \<Rightarrow> rt_state \<Rightarrow> rt_state" where
  "run_events [] st = st"
| "run_events ((now, e) # es) st = run_events es (on_any now e (fire_until now st))"

text \<open>The cleanup of the effect.\<close>

definition sync_cleanup :: "rt_state \<Rightarrow> rt_state" where
  "sync_cleanup st = st\<lparr>rt_due := []\<rparr>"

section \<open>Recovery\<close>

definition recovery :: "string option \<Rightarrow> invalidation list" where
  "recovery current =
     (case truthy current of None \<Rightarrow> []
      | Some w \<Rightarrow>
          [scoped ''issues'' w, scoped ''inbox'' w, workspace_part ''agents'' w, workspace_part ''members'' w,
           workspace_part ''squads'' w, workspace_part ''skills'' w, workspace_part ''invitations'' w, scoped ''projects'' w,
           scoped ''runtimes'' w, scoped ''autopilots'' w, workspace_part ''agent-task-snapshot'' w,
           workspace_part ''working-agents'' w, workspace_part ''agent-activity'' w, workspace_part ''agent-run-counts'' w,
           scoped ''chat'' w, scoped ''labels'' w, scoped ''properties'' w]) @
     [unread_summary] @
     map per_issue [''timeline'', ''reactions'', ''subscribers'', ''usage'', ''attachments'', ''tasks''] @
     map (\<lambda>part. Below [''chat'', part]) [''messages'', ''messages-page'', ''pending-task''] @
     [Below [''task-messages''], Below [''chat'', ''draft-restores''], workspace_list]"

definition invalidateWorkspaceScopedQueries :: "rt_state \<Rightarrow> rt_state" where
  "invalidateWorkspaceScopedQueries st = stale (recovery (rt_current st)) st"

text \<open>A client instance other than the first one is a workspace switch.\<close>

definition on_client_instance :: "nat option \<Rightarrow> nat option \<Rightarrow> rt_state \<Rightarrow> nat option \<times> rt_state" where
  "on_client_instance seen client st =
     (case client of
        None \<Rightarrow> (seen, st)
      | Some c \<Rightarrow>
          (case seen of
             None \<Rightarrow> (Some c, st)
           | Some d \<Rightarrow> if d = c then (seen, st) else (Some c, invalidateWorkspaceScopedQueries st)))"

section \<open>Fallbacks\<close>

text \<open>Each takes the issue id of the payload, which may be missing or empty.\<close>

definition with_issue :: "string option \<Rightarrow> (string \<Rightarrow> rt_state \<Rightarrow> rt_state) \<Rightarrow> rt_state \<Rightarrow> rt_state" where
  "with_issue i f st = (case truthy i of None \<Rightarrow> st | Some s \<Rightarrow> f s st)"

definition invalidateTimeline :: "string \<Rightarrow> rt_state \<Rightarrow> rt_state" where
  "invalidateTimeline i st = stale [Below [''issues'', ''timeline'', i]] st"

definition on_comment_created_fallback :: "string option \<Rightarrow> rt_state \<times> update_client \<Rightarrow> rt_state \<times> update_client" where
  "on_comment_created_fallback i su =
     (if truthy i = None then su
      else (with_issue i invalidateTimeline (fst su),
            if truthy (rt_current (fst su)) = None then snd su else invalidateUpdatedAtSortedIssueLists (snd su)))"

definition on_timeline_change :: "string option \<Rightarrow> rt_state \<Rightarrow> rt_state" where
  "on_timeline_change i st = with_issue i invalidateTimeline st"

definition on_issue_reaction :: "string option \<Rightarrow> rt_state \<Rightarrow> rt_state" where
  "on_issue_reaction i st = with_issue i (\<lambda>s. stale [Below [''issues'', ''reactions'', s]]) st"

definition on_subscriber :: "string option \<Rightarrow> rt_state \<Rightarrow> rt_state" where
  "on_subscriber i st = with_issue i (\<lambda>s. stale [Below [''issues'', ''subscribers'', s]]) st"

definition on_property_changed :: "rt_state \<Rightarrow> rt_state" where
  "on_property_changed st =
     (case truthy (rt_current st) of None \<Rightarrow> st | Some w \<Rightarrow> stale [scoped ''properties'' w, issue_table_all w] st)"

section \<open>Issue events\<close>

definition on_issue_updated ::
  "string option \<Rightarrow> string option \<Rightarrow> issue_patch \<Rightarrow> update_flags \<Rightarrow> update_client \<Rightarrow> update_client" where
  "on_issue_updated current i p flags uc =
     (case (truthy i, truthy current) of
        (Some s, Some w) \<Rightarrow>
          (let uc1 = onIssueUpdated s p flags uc
           in case p_status p of
                None \<Rightarrow> uc1
              | Some x \<Rightarrow> on_cache (\<lambda>qc. patchInboxIssueStatus qc s x) uc1)
      | _ \<Rightarrow> uc)"

definition on_issue_created :: "string option \<Rightarrow> issue option \<Rightarrow> update_client \<Rightarrow> update_client" where
  "on_issue_created current x uc =
     (case (x, truthy current) of (Some i, Some w) \<Rightarrow> onIssueCreated i uc | _ \<Rightarrow> uc)"

definition on_issue_deleted ::
  "string option \<Rightarrow> string option \<Rightarrow> delete_client \<times> query_cache \<Rightarrow> (delete_client \<times> query_cache) \<times> js_error option" where
  "on_issue_deleted current i dq =
     (case (truthy i, truthy current) of
        (Some s, Some w) \<Rightarrow>
          (case onIssueDeleted w (fst dq) s of
             (d, Some e) \<Rightarrow> ((d, snd dq), Some e)
           | (d, None) \<Rightarrow> ((d, onInboxIssueDeleted s (snd dq)), None))
      | _ \<Rightarrow> (dq, None))"

definition on_issue_labels_changed :: "string option \<Rightarrow> string option \<Rightarrow> string \<Rightarrow> update_client \<Rightarrow> update_client" where
  "on_issue_labels_changed current i labels uc =
     (case (truthy i, truthy current) of (Some s, Some w) \<Rightarrow> onIssueLabelsChanged s labels uc | _ \<Rightarrow> uc)"

definition on_issue_metadata_changed :: "string option \<Rightarrow> string option \<Rightarrow> string \<Rightarrow> update_client \<Rightarrow> update_client" where
  "on_issue_metadata_changed current i metadata uc =
     (case (truthy i, truthy current) of (Some s, Some w) \<Rightarrow> onIssueMetadataChanged s metadata uc | _ \<Rightarrow> uc)"

definition on_issue_properties_changed ::
  "string option \<Rightarrow> prop_value obj option \<Rightarrow> rt_state \<times> update_client \<Rightarrow> rt_state \<times> update_client" where
  "on_issue_properties_changed i bag su =
     (case (truthy i, truthy (rt_current (fst su))) of
        (Some s, Some w) \<Rightarrow> (stale [scoped ''properties'' w] (fst su), onIssuePropertiesChanged s (default_to [] bag) (snd su))
      | _ \<Rightarrow> su)"

section \<open>Inbox notifications\<close>

record inbox_event =
  ev_item :: string
  ev_workspace :: string
  ev_issue :: "string option"
  ev_title :: string
  ev_body :: "string option"

record notification =
  nt_slug :: string
  nt_item :: string
  nt_issue_key :: string
  nt_title :: string
  nt_body :: string

text \<open>\<open>fetched\<close> is the workspace list, from the cache or the server, or \<open>None\<close> when the request fails.\<close>

definition resolveInboxSourceSlug :: "rt_workspace list option \<Rightarrow> string \<Rightarrow> string option" where
  "resolveInboxSourceSlug fetched workspaceId =
     (if workspaceId = [] then None
      else (case fetched of
              None \<Rightarrow> None
            | Some wss \<Rightarrow> map_option wsp_slug (find (\<lambda>w. wsp_id w = workspaceId) wss)))"

definition muted :: "js option \<Rightarrow> bool" where
  "muted prefs \<longleftrightarrow> (case prefs of None \<Rightarrow> False
     | Some v \<Rightarrow> get_prop (get_prop v ''preferences'') ''system_notifications'' = JStr ''muted'')"

text \<open>
  \<open>fetchPrefs wsId slug\<close> answers the preferences of a workspace asked for with that slug (\<open>None\<close>:
  the request fails), \<open>cachedPrefs\<close> the cache. The banner, when one is shown, is the second result.
\<close>

definition handleInboxNew ::
  "bool \<Rightarrow> rt_workspace list option \<Rightarrow> (string \<Rightarrow> string \<Rightarrow> js option) \<Rightarrow> (string \<Rightarrow> js option) \<Rightarrow>
   inbox_event \<Rightarrow> rt_state \<Rightarrow> rt_state \<times> notification option" where
  "handleInboxNew focused fetched fetchPrefs cachedPrefs ev st =
     (let w = ev_workspace ev;
          st1 = stale [unread_summary] (if w = [] then st else stale [scoped ''inbox'' w] st)
      in if focused then (st1, None)
         else (let slug = resolveInboxSourceSlug fetched w;
                   prefs = (if w = [] then None
                            else (case truthy slug of Some s \<Rightarrow> fetchPrefs w s | None \<Rightarrow> cachedPrefs w))
               in if muted prefs then (st1, None)
                  else (st1, Some \<lparr>nt_slug = default_to [] slug, nt_item = ev_item ev,
                                   nt_issue_key = default_to (ev_item ev) (ev_issue ev),
                                   nt_title = ev_title ev, nt_body = default_to [] (ev_body ev)\<rparr>)))"

section \<open>Workspaces\<close>

definition applyWorkspaceUpdatedToCache :: "rt_workspace option \<Rightarrow> rt_state \<Rightarrow> rt_state" where
  "applyWorkspaceUpdatedToCache nxt st =
     (case nxt of
        Some w \<Rightarrow>
          (if wsp_id w = [] then stale [workspace_list] st
           else (let cached = Option.bind (rt_workspaces st) (find (\<lambda>x. wsp_id x = wsp_id w))
                 in case cached of
                      Some old \<Rightarrow>
                        (let st1 = (if wsp_prefix old \<noteq> wsp_prefix w then stale [scoped ''issues'' (wsp_id w)] st else st)
                         in st1\<lparr>rt_workspaces := map_option (map (\<lambda>x. if wsp_id x = wsp_id w then w else x)) (rt_workspaces st1)\<rparr>)
                    | None \<Rightarrow> stale [workspace_list] (stale [scoped ''issues'' (wsp_id w)] st)))
      | None \<Rightarrow> stale [workspace_list] st)"

text \<open>\<open>encode\<close> is \<open>encodeURIComponent\<close>.\<close>

definition resolvePostAuthDestination :: "(string \<Rightarrow> string) \<Rightarrow> rt_workspace list \<Rightarrow> bool \<Rightarrow> string" where
  "resolvePostAuthDestination encode wss hasOnboarded =
     (if \<not> hasOnboarded then ''/onboarding''
      else (case wss of w # _ \<Rightarrow> ''/'' @ encode (wsp_slug w) @ ''/issues'' | [] \<Rightarrow> ''/workspaces/new''))"

text \<open>The destination once the list is fetched; a failed fetch leaves the user where they are.\<close>

definition relocateAfterWorkspaceLoss :: "(string \<Rightarrow> string) \<Rightarrow> rt_workspace list option \<Rightarrow> bool \<Rightarrow> string \<Rightarrow> string option" where
  "relocateAfterWorkspaceLoss encode fetched hasOnboarded lostWsId =
     map_option (\<lambda>wss. resolvePostAuthDestination encode (filter (\<lambda>w. wsp_id w \<noteq> lostWsId) wss) hasOnboarded) fetched"

definition on_workspace_deleted :: "string \<Rightarrow> rt_state \<Rightarrow> rt_state" where
  "on_workspace_deleted wsId st =
     (if wsId \<in> set (rt_pending_deletes st) then st
      else (let slug = map_option wsp_slug (find (\<lambda>w. wsp_id w = wsId) (default_to [] (rt_workspaces st)));
                st1 = (case truthy slug of
                         None \<Rightarrow> st
                       | Some s \<Rightarrow> st\<lparr>rt_storage := clearWorkspaceStorage (rt_entries st) s (rt_storage st)\<rparr>)
            in if rt_current st1 = Some wsId
               then st1\<lparr>rt_toasts := rt_toasts st1 @ [''This workspace was deleted''], rt_lost := rt_lost st1 @ [wsId]\<rparr>
               else st1))"

text \<open>The workspace of the payload is not read: the handler acts on the current one.\<close>

definition on_member_removed :: "string \<Rightarrow> string \<Rightarrow> rt_state \<Rightarrow> rt_state" where
  "on_member_removed userId payloadWorkspace st =
     (if Some userId \<noteq> rt_user st then st
      else (case (truthy (rt_slug st), truthy (rt_current st)) of
              (Some s, Some w) \<Rightarrow>
                st\<lparr>rt_storage := clearWorkspaceStorage (rt_entries st) s (rt_storage st),
                   rt_toasts := rt_toasts st @ [''You were removed from this workspace''], rt_lost := rt_lost st @ [w]\<rparr>
            | _ \<Rightarrow> st))"

definition on_member_added :: "string \<Rightarrow> string option \<Rightarrow> rt_state \<Rightarrow> rt_state" where
  "on_member_added userId workspaceName st =
     (if Some userId \<noteq> rt_user st then st
      else (stale [workspace_list, my_invitations] st)\<lparr>rt_toasts :=
             rt_toasts st @ [''You joined '' @ default_to ''a workspace'' workspaceName]\<rparr>)"

definition on_invitation_created :: "string option \<Rightarrow> rt_state \<Rightarrow> rt_state" where
  "on_invitation_created workspaceName st =
     (stale [my_invitations] st)\<lparr>rt_toasts := rt_toasts st @ [''You were invited to '' @ default_to ''a workspace'' workspaceName]\<rparr>"

definition on_invitation_accepted :: "rt_state \<Rightarrow> rt_state" where
  "on_invitation_accepted st =
     (case truthy (rt_current st) of None \<Rightarrow> st
      | Some w \<Rightarrow> stale [workspace_part ''invitations'' w, workspace_part ''members'' w] st)"

definition on_invitation_declined :: "rt_state \<Rightarrow> rt_state" where
  "on_invitation_declined st =
     (case truthy (rt_current st) of None \<Rightarrow> st | Some w \<Rightarrow> stale [workspace_part ''invitations'' w] st)"

definition on_invitation_revoked :: "rt_state \<Rightarrow> rt_state" where
  "on_invitation_revoked st = stale [my_invitations] st"

section \<open>The hook on the socket client\<close>

text \<open>
  The hook subscribes its dispatcher and its recovery callback to the client; \<open>any_hook\<close> and
  \<open>recovery_hook\<close> are the numbers they have there. What one effect of the client does to the
  state at the time \<open>now\<close>.
\<close>

definition sync_effect :: "handler \<Rightarrow> handler \<Rightarrow> int \<Rightarrow> ws_effect \<Rightarrow> rt_state \<Rightarrow> rt_state" where
  "sync_effect any_hook recovery_hook now e st =
     (case e of
        Called_any h msg \<Rightarrow>
          (if h = any_hook then (case get_prop msg ''type'' of JStr t \<Rightarrow> on_any now t st | _ \<Rightarrow> st) else st)
      | Reconnected h \<Rightarrow> (if h = recovery_hook then invalidateWorkspaceScopedQueries st else st)
      | _ \<Rightarrow> st)"

end
