(* ===== verification/WS_Properties.thy ===== *)
theory WS_Properties
  imports WS_Client
begin

text \<open>
  The properties of the socket client: one link at a time and none after a disconnect, the
  backoff, which authentications recover missed events, and what a handler that throws costs.
\<close>

section \<open>What the callbacks leave alone\<close>

text \<open>Opening, frames and subscriptions change no phase, timer or reference.\<close>

definition same_link :: "ws_client \<Rightarrow> ws_client \<Rightarrow> bool" where
  "same_link c d \<longleftrightarrow> sockets d = sockets c \<and> ws d = ws c \<and> timers d = timers c \<and> reconnectTimer d = reconnectTimer c \<and>
     cookieAuth d = cookieAuth c \<and> token d = token c"

lemma authenticated_link: "same_link c (fst (onAuthenticated c))"
  by (simp add: same_link_def onAuthenticated_def)

lemma open_link: "same_link c (fst (on_open c))"
  using authenticated_link [of c] by (auto simp: on_open_def same_link_def split: option.split bool.split)

lemma message_link: "same_link c (fst (on_message throws ell fr c))"
  using authenticated_link [of c] by (auto simp: on_message_def same_link_def split: option.split js.split)

lemma subscription_link:
  "same_link c (ws_on e h c)" "same_link c (ws_off e h c)" "same_link c (onAny h c)" "same_link c (offAny h c)"
  "same_link c (onReconnect h c)" "same_link c (offReconnect h c)"
  by (simp_all add: same_link_def ws_on_def ws_off_def onAny_def offAny_def onReconnect_def offReconnect_def split: option.split)

lemma same_phase: "same_link c d \<Longrightarrow> phase_of d j = phase_of c j"
  by (simp add: same_link_def phase_of_def)

section \<open>One link\<close>

definition linked :: "ws_client \<Rightarrow> bool" where
  "linked c \<longleftrightarrow> (\<exists>i. ws c = Some i \<and> i < length (sockets c) \<and> has_onclose (sockets c ! i) \<and>
     (\<forall>j. phase_of c j \<noteq> Closed \<longleftrightarrow> j = i) \<and> timers c = [])"

definition waiting :: "ws_client \<Rightarrow> bool" where
  "waiting c \<longleftrightarrow> (\<forall>j. phase_of c j = Closed) \<and> (\<exists>t d. reconnectTimer c = Some t \<and> timers c = [(t, d)])"

definition dead :: "ws_client \<Rightarrow> bool" where
  "dead c \<longleftrightarrow> (\<forall>j. phase_of c j = Closed) \<and> timers c = [] \<and> ws c = None"

lemma link_kept:
  assumes "same_link c d"
  shows "linked d = linked c" "waiting d = waiting c" "dead d = dead c"
  using assms by (simp_all add: linked_def waiting_def dead_def same_phase) (simp_all add: same_link_def)

lemma phase_set_socket:
  "phase_of (set_socket i f c) j = (if j = i \<and> i < length (sockets c) then phase (f (sockets c ! i)) else phase_of c j)"
  by (auto simp: phase_of_def set_socket_def)

lemma start_linked: "linked (provider_start url cookie ident tok slug)"
  by (auto simp: linked_def provider_start_def connect_def setAuth_def new_client_def phase_of_def)

lemma open_linked:
  assumes "linked c" "phase_of c i = Connecting"
  shows "linked (set_socket i (\<lambda>s. s\<lparr>phase := Opened\<rparr>) c)"
proof -
  obtain k where k: "ws c = Some k" "k < length (sockets c)" "has_onclose (sockets c ! k)"
    "\<forall>j. phase_of c j \<noteq> Closed \<longleftrightarrow> j = k" "timers c = []" using assms(1) by (auto simp: linked_def)
  then have "i = k" using assms(2) by (metis socket_phase.distinct(4))
  then show ?thesis using k
    by (auto simp: linked_def phase_set_socket) (simp_all add: set_socket_def)
qed

lemma close_waits:
  assumes "linked c" "phase_of c i \<noteq> Closed"
  shows "waiting (on_close i r c)"
proof -
  obtain k where k: "ws c = Some k" "k < length (sockets c)" "has_onclose (sockets c ! k)"
    "\<forall>j. phase_of c j \<noteq> Closed \<longleftrightarrow> j = k" "timers c = []" using assms(1) by (auto simp: linked_def)
  have i: "i = k" using assms(2) k(4) by blast
  have "phase_of (on_close i r c) j = Closed" for j
    using k i by (auto simp: on_close_def scheduleReconnect_def Let_def set_socket_def phase_of_def nth_list_update)
  then show ?thesis using k i
    by (simp add: waiting_def) (simp add: on_close_def scheduleReconnect_def Let_def set_socket_def)
qed

lemma fire_links:
  assumes "waiting c" "t \<in> fst ` set (timers c)"
  shows "linked (connect (c\<lparr>timers := filter (\<lambda>x. fst x \<noteq> t) (timers c)\<rparr>))"
proof -
  have closed: "phase_of c j = Closed" for j using assms(1) by (simp add: waiting_def)
  have none: "filter (\<lambda>x. fst x \<noteq> t) (timers c) = []" using assms by (auto simp: waiting_def)
  have "phase_of (connect (c\<lparr>timers := filter (\<lambda>x. fst x \<noteq> t) (timers c)\<rparr>)) j \<noteq> Closed \<longleftrightarrow> j = length (sockets c)" for j
    using closed [of j] by (auto simp: phase_of_def connect_def nth_append)
  then show ?thesis using none by (simp add: linked_def) (simp add: connect_def)
qed

lemma disconnect_phase: "phase_of (disconnect c) j = (if ws c = Some j then Closed else phase_of c j)"
  by (cases "ws c"; cases "reconnectTimer c") (auto simp: disconnect_def Let_def phase_of_def set_socket_def nth_list_update)

lemma disconnect_fields:
  "ws (disconnect c) = None"
  "timers (disconnect c) = (case reconnectTimer c of None \<Rightarrow> timers c | Some t \<Rightarrow> filter (\<lambda>x. fst x \<noteq> t) (timers c))"
  by (cases "ws c"; cases "reconnectTimer c"; simp add: disconnect_def Let_def set_socket_def)+

lemma disconnect_dead:
  assumes "linked c \<or> waiting c \<or> dead c"
  shows "dead (disconnect c)"
proof -
  have "phase_of (disconnect c) j = Closed" for j
    using assms unfolding disconnect_phase linked_def waiting_def dead_def by (metis option.inject)
  moreover have "timers (disconnect c) = []"
    using assms unfolding disconnect_fields linked_def waiting_def dead_def by (auto split: option.split)
  ultimately show ?thesis by (simp add: dead_def disconnect_fields)
qed

lemma linked_step:
  assumes "linked c \<or> waiting c" "enabled c a" "a \<noteq> Disconnects"
  shows "linked (fst (ws_step throws ell a c)) \<or> waiting (fst (ws_step throws ell a c))"
proof (cases a)
  case (Opens i)
  then have "linked c" using assms by (auto simp: waiting_def)
  then show ?thesis using Opens assms(2) open_linked [of c i] link_kept(1) [OF open_link] by simp
next
  case (Receives i fr)
  then show ?thesis using assms(1) link_kept [OF message_link [of c throws ell fr]] by simp
next
  case (Closes i r)
  then have "linked c" using assms by (auto simp: waiting_def)
  then show ?thesis using Closes assms(2) close_waits by simp
next
  case (Fires t)
  then have "waiting c" using assms by (auto simp: linked_def)
  then show ?thesis using Fires assms(2) fire_links by simp
qed (use assms in \<open>simp_all add: link_kept [OF subscription_link(1)] link_kept [OF subscription_link(2)]
    link_kept [OF subscription_link(3)] link_kept [OF subscription_link(4)] link_kept [OF subscription_link(5)]
    link_kept [OF subscription_link(6)]\<close>)

lemma dead_step:
  assumes "dead c" "enabled c a"
  shows "dead (fst (ws_step throws ell a c)) \<and> snd (ws_step throws ell a c) = []"
proof (cases a)
  case Disconnects
  then show ?thesis using assms disconnect_dead by simp
qed (use assms in \<open>simp_all add: dead_def link_kept [unfolded dead_def, OF subscription_link(1)]
    link_kept [unfolded dead_def, OF subscription_link(2)] link_kept [unfolded dead_def, OF subscription_link(3)]
    link_kept [unfolded dead_def, OF subscription_link(4)] link_kept [unfolded dead_def, OF subscription_link(5)]
    link_kept [unfolded dead_def, OF subscription_link(6)] ws_send_def\<close>)

lemma run_links:
  assumes "ws_run throws ell start as c tr" "linked start"
  shows "if Disconnects \<in> set as then dead c else linked c \<or> waiting c"
  using assms
proof induction
  case (run_step as c tr a c' es)
  have c': "c' = fst (ws_step throws ell a c)" using run_step.hyps(3) by simp
  show ?case
  proof (cases "Disconnects \<in> set as")
    case True
    then show ?thesis using run_step.IH [OF run_step.prems] dead_step [OF _ run_step.hyps(2)] c' by simp
  next
    case False
    then have live: "linked c \<or> waiting c" using run_step.IH [OF run_step.prems] by simp
    then show ?thesis using False c' disconnect_dead [of c] linked_step [OF live run_step.hyps(2)] by (cases "a = Disconnects") auto
  qed
qed simp

lemma run_length: "ws_run throws ell start as c tr \<Longrightarrow> map fst tr = as"
  by (induction rule: ws_run.induct) auto

lemma run_dead_silent:
  assumes "ws_run throws ell start as c tr" "linked start" "j < length as" "Disconnects \<in> set (take j as)"
  shows "snd (tr ! j) = []"
  using assms
proof (induction arbitrary: j)
  case (run_step as c tr a c' es)
  have len: "length tr = length as" using run_length [OF run_step.hyps(1)] by (metis length_map)
  show ?case
  proof (cases "j < length as")
    case True
    then show ?thesis using run_step.IH [OF run_step.prems(1)] run_step.prems(3) len by (simp add: nth_append)
  next
    case False
    then have j: "j = length as" using run_step.prems(2) by simp
    then have "dead c" using run_links [OF run_step.hyps(1) run_step.prems(1)] run_step.prems(3) by simp
    then have "es = []" using dead_step [OF _ run_step.hyps(2)] run_step.hyps(3) by (metis snd_conv)
    then show ?thesis using j len by (simp add: nth_append)
  qed
qed simp

definition links :: "ws_client \<Rightarrow> nat" where
  "links c = card {j. phase_of c j \<noteq> Closed} + length (timers c)"

lemma links_count: "linked c \<Longrightarrow> links c = 1" "waiting c \<Longrightarrow> links c = 1" "dead c \<Longrightarrow> links c = 0"
  by (auto simp: linked_def waiting_def dead_def links_def)


lemma demo_run:
  "\<exists>c tr. ws_run (\<lambda>_. False) [] (provider_start [] True None None ''acme'')
     [On_reconnect 7, Opens 0, Closes 0 0, Fires 0, Opens 1, Disconnects] c tr \<and>
     map snd tr = [[], [], [], [], [Reconnected 7], []]"
proof -
  let ?s = "provider_start [] True None None ''acme''"
  let ?step = "ws_step (\<lambda>_. False) [] :: ws_act \<Rightarrow> ws_client \<Rightarrow> ws_client \<times> ws_effect list"
  let ?c1 = "fst (?step (On_reconnect 7) ?s)"
  let ?c2 = "fst (?step (Opens 0) ?c1)"
  let ?c3 = "fst (?step (Closes 0 0) ?c2)"
  let ?c4 = "fst (?step (Fires 0) ?c3)"
  let ?c5 = "fst (?step (Opens 1) ?c4)"
  let ?c6 = "fst (?step Disconnects ?c5)"
  note defs = provider_start_def connect_def setAuth_def new_client_def onReconnect_def set_insert_def on_open_def
    onAuthenticated_def set_socket_def on_close_def scheduleReconnect_def disconnect_def phase_of_def Let_def
  have "ws_run (\<lambda>_. False) [] ?s ([] @ [On_reconnect 7]) ?c1 ([] @ [(On_reconnect 7, [])])"
    by (rule run_step [OF run_start]) (simp_all)
  then have "ws_run (\<lambda>_. False) [] ?s (([] @ [On_reconnect 7]) @ [Opens 0]) ?c2 (([] @ [(On_reconnect 7, [])]) @ [(Opens 0, [])])"
    by (rule run_step) (simp_all add: defs)
  then have "ws_run (\<lambda>_. False) [] ?s ((([] @ [On_reconnect 7]) @ [Opens 0]) @ [Closes 0 0]) ?c3
      ((([] @ [(On_reconnect 7, [])]) @ [(Opens 0, [])]) @ [(Closes 0 0, [])])"
    by (rule run_step) (simp_all add: defs)
  then have "ws_run (\<lambda>_. False) [] ?s (((([] @ [On_reconnect 7]) @ [Opens 0]) @ [Closes 0 0]) @ [Fires 0]) ?c4
      (((([] @ [(On_reconnect 7, [])]) @ [(Opens 0, [])]) @ [(Closes 0 0, [])]) @ [(Fires 0, [])])"
    by (rule run_step) (simp_all add: defs)
  then have "ws_run (\<lambda>_. False) [] ?s ((((([] @ [On_reconnect 7]) @ [Opens 0]) @ [Closes 0 0]) @ [Fires 0]) @ [Opens 1]) ?c5
      ((((([] @ [(On_reconnect 7, [])]) @ [(Opens 0, [])]) @ [(Closes 0 0, [])]) @ [(Fires 0, [])]) @ [(Opens 1, [Reconnected 7])])"
    by (rule run_step) (simp_all add: defs)
  then have "ws_run (\<lambda>_. False) [] ?s (((((([] @ [On_reconnect 7]) @ [Opens 0]) @ [Closes 0 0]) @ [Fires 0]) @ [Opens 1]) @ [Disconnects]) ?c6
      (((((([] @ [(On_reconnect 7, [])]) @ [(Opens 0, [])]) @ [(Closes 0 0, [])]) @ [(Fires 0, [])]) @ [(Opens 1, [Reconnected 7])]) @ [(Disconnects, [])])"
    by (rule run_step) simp_all
  then show ?thesis by (intro exI conjI) (assumption | simp)+
qed


section \<open>Authentication\<close>

text \<open>The acts that authenticate: opening in cookie mode (or without a token), the acknowledgement otherwise.\<close>

fun authenticating :: "bool \<Rightarrow> string option \<Rightarrow> ws_act \<Rightarrow> bool" where
  "authenticating cookie tok (Opens i) \<longleftrightarrow> cookie \<or> truthy tok = None"
| "authenticating cookie tok (Receives i fr) \<longleftrightarrow>
     (case parsed fr of None \<Rightarrow> False | Some msg \<Rightarrow> get_prop msg ''type'' = JStr ''auth_ack'')"
| "authenticating cookie tok a \<longleftrightarrow> False"

fun callbacks :: "ws_act \<Rightarrow> handler list \<Rightarrow> handler list" where
  "callbacks (On_reconnect h) hs = set_insert h hs"
| "callbacks (Off_reconnect h) hs = filter (\<lambda>x. x \<noteq> h) hs"
| "callbacks _ hs = hs"

text \<open>How often a socket closed since the last authentication.\<close>

fun closes_since :: "bool \<Rightarrow> string option \<Rightarrow> ws_act list \<Rightarrow> nat" where
  "closes_since cookie tok [] = 0"
| "closes_since cookie tok (a # as) =
     (if authenticating cookie tok a then 0
      else (case a of Closes i r \<Rightarrow> Suc (closes_since cookie tok as) | _ \<Rightarrow> closes_since cookie tok as))"

definition auth_state :: "bool \<Rightarrow> string option \<Rightarrow> ws_act list \<Rightarrow> ws_client \<Rightarrow> bool" where
  "auth_state cookie tok as c \<longleftrightarrow> cookieAuth c = cookie \<and> token c = tok \<and>
     hasConnectedBefore c = (\<exists>a \<in> set as. authenticating cookie tok a) \<and>
     onReconnectCallbacks c = fold callbacks as [] \<and> reconnectAttempt c = closes_since cookie tok (rev as)"

lemma ack_truthy: "get_prop msg ''type'' = JStr ''auth_ack'' \<Longrightarrow> js_truthy msg \<and> is_string (get_prop msg ''type'')"
  by (cases msg) (auto simp: js_truthy_def)

lemma start_auth: "auth_state cookie tok [] (provider_start url cookie ident tok slug)"
  by (simp add: auth_state_def provider_start_def connect_def setAuth_def new_client_def)

definition auth_fields :: "ws_client \<Rightarrow> bool \<times> string option \<times> bool \<times> handler list \<times> nat" where
  "auth_fields c = (cookieAuth c, token c, hasConnectedBefore c, onReconnectCallbacks c, reconnectAttempt c)"

lemma auth_by_fields:
  "auth_state cookie tok as c \<longleftrightarrow> auth_fields c = (cookie, tok, \<exists>a \<in> set as. authenticating cookie tok a,
     fold callbacks as [], closes_since cookie tok (rev as))"
  by (simp add: auth_state_def auth_fields_def)

lemma message_auth:
  assumes "\<not> authenticating cookie tok (Receives i fr)"
  shows "auth_fields (fst (on_message throws ell fr c)) = auth_fields c"
  using assms by (auto simp: on_message_def auth_fields_def split: option.split js.split)

lemma ack_step:
  assumes "authenticating cookie tok a" "cookieAuth c = cookie" "token c = tok"
  shows "\<exists>d. auth_fields d = auth_fields c \<and> ws_step throws ell a c = onAuthenticated d"
proof (cases a)
  case (Opens i)
  have f: "auth_fields (set_socket i (\<lambda>s. s\<lparr>phase := Opened\<rparr>) c) = auth_fields c" by (simp add: auth_fields_def set_socket_def)
  have "on_open (set_socket i (\<lambda>s. s\<lparr>phase := Opened\<rparr>) c) = onAuthenticated (set_socket i (\<lambda>s. s\<lparr>phase := Opened\<rparr>) c)"
    using assms Opens by (cases cookie; cases "truthy tok") (auto simp: on_open_def set_socket_def)
  then show ?thesis using Opens f by (intro exI [of _ "set_socket i (\<lambda>s. s\<lparr>phase := Opened\<rparr>) c"]) simp
next
  case (Receives i fr)
  then obtain msg where "parsed fr = Some msg" "get_prop msg ''type'' = JStr ''auth_ack''"
    using assms(1) by (auto split: option.splits)
  then show ?thesis using Receives ack_truthy by (intro exI [of _ c]) (simp add: on_message_def)
qed (use assms in simp_all)

lemma other_step:
  assumes "\<not> authenticating cookie tok a" "a \<noteq> Disconnects" "cookieAuth c = cookie" "token c = tok" "enabled c a" "linked c \<or> waiting c"
  shows "auth_fields (fst (ws_step throws ell a c)) = (cookieAuth c, token c, hasConnectedBefore c, callbacks a (onReconnectCallbacks c),
      (case a of Closes i r \<Rightarrow> Suc (reconnectAttempt c) | _ \<Rightarrow> reconnectAttempt c))"
proof (cases a)
  case (Opens i)
  then show ?thesis using assms(1,3,4)
    by (auto simp: on_open_def auth_fields_def set_socket_def split: option.split)
next
  case (Receives i fr)
  then show ?thesis using message_auth [OF assms(1) [unfolded Receives], of throws ell c] by (simp add: auth_fields_def)
next
  case (Closes i r)
  then have "phase_of c i \<noteq> Closed" using assms(5) by simp
  then have "linked c" "ws c = Some i" using assms(6) by (auto simp: linked_def waiting_def)
  then show ?thesis using Closes
    by (auto simp: linked_def on_close_def scheduleReconnect_def set_socket_def auth_fields_def Let_def)
qed (use assms(2) in \<open>simp_all add: auth_fields_def connect_def ws_on_def ws_off_def onAny_def offAny_def onReconnect_def
      offReconnect_def split: option.split\<close>)

lemma auth_step:
  assumes "auth_state cookie tok as c" "linked c \<or> waiting c" "enabled c a" "a \<noteq> Disconnects"
  shows "auth_state cookie tok (as @ [a]) (fst (ws_step throws ell a c))"
proof (cases "authenticating cookie tok a")
  case True
  obtain d where "auth_fields d = auth_fields c" "ws_step throws ell a c = onAuthenticated d"
    using ack_step [OF True] assms(1) unfolding auth_state_def by blast
  moreover have "callbacks a hs = hs" for hs using True by (cases a) simp_all
  ultimately show ?thesis using assms(1) True by (simp add: auth_state_def onAuthenticated_def auth_fields_def)
next
  case False
  show ?thesis using other_step [OF False assms(4) _ _ assms(3,2), of throws ell] assms(1) False
    by (simp add: auth_state_def auth_fields_def split: ws_act.split)
qed

lemma run_auth:
  assumes "ws_run throws ell (provider_start url cookie ident tok slug) as c tr" "Disconnects \<notin> set as"
  shows "auth_state cookie tok as c"
  using assms
proof induction
  case (run_step as c tr a c' es)
  have live: "linked c \<or> waiting c" using run_links [OF run_step.hyps(1) start_linked] run_step.prems by simp
  have "auth_state cookie tok as c" "a \<noteq> Disconnects" "c' = fst (ws_step throws ell a c)"
    using run_step.IH run_step.prems run_step.hyps(3) by auto
  then show ?case using auth_step [OF _ live run_step.hyps(2)] by simp
qed (rule start_auth)

text \<open>What a reconnect recovers: every authentication of a client but its first calls each registered recovery callback exactly once, in the order they were registered, however many attempts failed before; the first one calls none, however long it was in coming, so events that were missed before it are not recovered.\<close>

theorem reconnect_recovery:
  assumes "ws_run throws ell (provider_start url cookie ident tok slug) (as @ [a]) c tr"
    "Disconnects \<notin> set as" "authenticating cookie tok a"
  shows "last tr = (a, if \<exists>x \<in> set as. authenticating cookie tok x then map Reconnected (fold callbacks as []) else [])"
proof -
  obtain d dtr es where d: "ws_run throws ell (provider_start url cookie ident tok slug) as d dtr"
    "ws_step throws ell a d = (c, es)" "tr = dtr @ [(a, es)]" using ws_run_lastE [OF assms(1)] by blast
  have st: "auth_state cookie tok as d" by (rule run_auth [OF d(1) assms(2)])
  then obtain e where e: "auth_fields e = auth_fields d" "ws_step throws ell a d = onAuthenticated e"
    using ack_step [OF assms(3)] unfolding auth_state_def by blast
  have "es = snd (onAuthenticated e)" using d(2) e(2) by simp
  then show ?thesis using d(3) e(1) st by (simp add: onAuthenticated_def auth_fields_def auth_state_def)
qed

section \<open>Backoff\<close>

lemma math_round_bounds: "of_int m \<le> x \<Longrightarrow> m \<le> math_round x" "x \<le> of_int m \<Longrightarrow> math_round x \<le> m"
  unfolding math_round_def by linarith+

lemma backoff_range: "1000 \<le> backoff_base a" "backoff_base a \<le> 30000"
proof -
  have "(1000 :: nat) * 1 \<le> 1000 * 2 ^ a" by (rule mult_le_mono2) simp
  then show "1000 \<le> backoff_base a" "backoff_base a \<le> 30000"
    by (simp_all add: backoff_base_def RECONNECT_BASE_DELAY_MS_def RECONNECT_MAX_DELAY_MS_def)
qed

lemma backoff_capped: "5 \<le> a \<Longrightarrow> backoff_base a = 30000"
proof -
  assume "5 \<le> a"
  then have "(2 :: nat) ^ 5 \<le> 2 ^ a" by (intro power_increasing) simp_all
  then show ?thesis by (simp add: backoff_base_def RECONNECT_BASE_DELAY_MS_def RECONNECT_MAX_DELAY_MS_def)
qed

lemma backoff_fifths: "\<exists>q. backoff_base a = 5 * q"
proof -
  have "(1000 :: nat) * 2 ^ a = 5 * (200 * 2 ^ a)" "(30000 :: nat) = 5 * 6000" by simp_all
  then show ?thesis unfolding backoff_base_def RECONNECT_BASE_DELAY_MS_def RECONNECT_MAX_DELAY_MS_def min_def by metis
qed

text \<open>The jitter is a fifth either way, and the cap cuts it.\<close>

lemma delay_bounds:
  assumes "0 \<le> r" "r < 1"
  shows "4 * int (backoff_base a) \<le> 5 * reconnect_delay a r" "5 * reconnect_delay a r \<le> 6 * int (backoff_base a)"
    "reconnect_delay a r \<le> 30000"
proof -
  obtain q where q: "backoff_base a = 5 * q" using backoff_fifths by blast
  define x :: rat where "x = min (of_nat (5 * q) + of_nat (5 * q) * (1 / 5) * (r * 2 - 1)) 30000"
  have d: "reconnect_delay a r = math_round x"
    by (simp add: reconnect_delay_def Let_def x_def q RECONNECT_MAX_DELAY_MS_def)
  have "q \<le> 6000" using backoff_range(2) [of a] q by simp
  then have q': "(of_nat q :: rat) \<le> 6000" by (metis of_nat_le_iff of_nat_numeral)
  have "of_nat q * 0 \<le> (of_nat q :: rat) * r" "(of_nat q :: rat) * r \<le> of_nat q * 1" using assms by (intro mult_left_mono; simp)+
  then have x: "of_int (4 * int q) \<le> x" "x \<le> of_int (6 * int q)" "x \<le> of_int 30000"
    using q' unfolding x_def by (auto simp: min_def algebra_simps)
  show "4 * int (backoff_base a) \<le> 5 * reconnect_delay a r" "5 * reconnect_delay a r \<le> 6 * int (backoff_base a)"
    "reconnect_delay a r \<le> 30000"
    using math_round_bounds(1) [OF x(1)] math_round_bounds(2) [OF x(2)] math_round_bounds(2) [OF x(3)] unfolding d q by simp_all
qed

lemma delay_lockstep:
  assumes "5 \<le> a" "1 / 2 \<le> r"
  shows "reconnect_delay a r = 30000"
proof -
  have "(0 :: rat) \<le> 30000 * (1 / 5) * (r * 2 - 1)" using assms(2) by simp
  then have top: "min (30000 + 30000 * (1 / 5) * (r * 2 - 1)) 30000 = (of_int 30000 :: rat)" by simp
  have "math_round (of_int 30000) = 30000" by (intro antisym math_round_bounds) simp_all
  moreover have "reconnect_delay a r = math_round (min (30000 + 30000 * (1 / 5) * (r * 2 - 1)) 30000)"
    unfolding reconnect_delay_def backoff_capped [OF assms(1)] RECONNECT_MAX_DELAY_MS_def Let_def by simp
  ultimately show ?thesis unfolding top by simp
qed

text \<open>C28. The delay before a reconnect is exactly a fifth around 1000 ms doubled for each close since the last authentication, never more than 30 seconds. Two things break the spreading: at the cap, half of the random values give the same 30 seconds, so clients that have lost the server for long come back in lockstep; and a server that accepts and drops every connection is asked again within 1.2 seconds each time, since authenticating resets the count.\<close>

theorem reconnect_backoff:
  assumes run: "ws_run throws ell (provider_start url cookie ident tok slug) (as @ [Closes i r]) c tr"
    and live: "Disconnects \<notin> set as"
    and n: "n = closes_since cookie tok (rev as)" and base: "base = min (1000 * 2 ^ n) 30000"
  shows "\<exists>t d. timers c = [(t, d)] \<and> 4 * base \<le> 5 * d \<and> 5 * d \<le> 6 * base \<and> d \<le> 30000 \<and>
    (5 \<le> n \<and> 1 / 2 \<le> r \<longrightarrow> d = 30000) \<and>
    (as \<noteq> [] \<and> authenticating cookie tok (last as) \<longrightarrow> d \<le> 1200)"
proof -
  obtain e etr es where e: "ws_run throws ell (provider_start url cookie ident tok slug) as e etr"
    "enabled e (Closes i r)" "ws_step throws ell (Closes i r) e = (c, es)" by (rule ws_run_lastE [OF run])
  have open_socket: "phase_of e i \<noteq> Closed" and r: "0 \<le> r" "r < 1" using e(2) by simp_all
  have "linked e \<or> waiting e" using run_links [OF e(1) start_linked] live by simp
  then have "linked e" using open_socket by (auto simp: waiting_def)
  then have link: "timers e = []" "ws e = Some i" "has_onclose (sockets e ! i)" using open_socket by (auto simp: linked_def)
  have "reconnectAttempt e = n" using run_auth [OF e(1) live] by (simp add: auth_state_def n)
  moreover have "c = on_close i r e" using e(3) by simp
  ultimately have "timers c = [(next_timer e, reconnect_delay n r)]"
    using link by (simp add: on_close_def scheduleReconnect_def set_socket_def Let_def)
  moreover have b: "base = int (backoff_base n)"
    by (simp add: base backoff_base_def RECONNECT_BASE_DELAY_MS_def RECONNECT_MAX_DELAY_MS_def of_nat_min)
  moreover have "reconnect_delay n r \<le> 1200" if "as \<noteq> []" "authenticating cookie tok (last as)"
  proof -
    have "n = 0" using that n by (cases as rule: rev_cases) simp_all
    then have "backoff_base n = 1000" by (simp add: backoff_base_def RECONNECT_BASE_DELAY_MS_def RECONNECT_MAX_DELAY_MS_def)
    then show ?thesis using delay_bounds(2) [OF r, of n] by simp
  qed
  ultimately show ?thesis using delay_bounds [OF r, of n] delay_lockstep [of n r] by auto
qed

theorem reconnect_backoff_witness:
  "\<exists>c tr t d. ws_run (\<lambda>_. False) [] (provider_start [] True None None ''acme'') [On_reconnect 7, Opens 0, Closes 0 0] c tr \<and>
     timers c = [(t, d)] \<and> 800 \<le> d \<and> d \<le> 1200"
proof -
  obtain c6 tr6 where "ws_run (\<lambda>_. False) [] (provider_start [] True None None ''acme'')
      (([On_reconnect 7, Opens 0, Closes 0 0, Fires 0] @ [Opens 1]) @ [Disconnects]) c6 tr6" using demo_run by auto
  then obtain c5 tr5 where "ws_run (\<lambda>_. False) [] (provider_start [] True None None ''acme'')
      ([On_reconnect 7, Opens 0, Closes 0 0, Fires 0] @ [Opens 1]) c5 tr5" by (rule ws_run_lastE)
  then obtain c4 tr4 where "ws_run (\<lambda>_. False) [] (provider_start [] True None None ''acme'')
      ([On_reconnect 7, Opens 0, Closes 0 0, Fires 0]) c4 tr4" by (rule ws_run_lastE)
  then have "ws_run (\<lambda>_. False) [] (provider_start [] True None None ''acme'')
      ([On_reconnect 7, Opens 0, Closes 0 0] @ [Fires 0]) c4 tr4" by simp
  then obtain c3 tr3 where run: "ws_run (\<lambda>_. False) [] (provider_start [] True None None ''acme'')
      ([On_reconnect 7, Opens 0] @ [Closes 0 0]) c3 tr3" by (rule ws_run_lastE) simp
  obtain t d where "timers c3 = [(t, d)]" "4 * min (1000 * 2 ^ 0) 30000 \<le> 5 * d" "d \<le> 1200"
    using reconnect_backoff [OF run, of 0 "min (1000 * 2 ^ 0) 30000"] by auto
  then show ?thesis using run by auto
qed

section \<open>Frames\<close>

lemma call_all_quiet: "\<forall>h \<in> set hs. \<not> throws h \<Longrightarrow> call_all throws eff hs = (map eff hs, False)"
  by (induction hs) simp_all

lemma call_all_throw:
  "\<forall>x \<in> set hs. \<not> throws x \<Longrightarrow> throws h \<Longrightarrow> call_all throws eff (hs @ h # rest) = (map eff hs @ [eff h, Uncaught], True)"
  by (induction hs) simp_all

text \<open>A frame that is no object with a string as its type reaches no handler and makes nothing throw, and only the first of a connection is logged; a proper frame is given to the subscribers of its type in the order they subscribed and then to the catch-all handlers; but when one subscriber throws, the later ones and every catch-all handler never see the frame.\<close>

theorem frame_delivery:
  assumes typed: "\<And>msg. parsed good = Some msg \<Longrightarrow> get_prop msg ''type'' = JStr t" "parsed good \<noteq> None" "t \<noteq> ''auth_ack''"
    and subs: "obj_get (handlers c) t = Some (before @ h # after)"
    and quiet: "\<forall>x \<in> set (before @ after) \<union> set (anyHandlers c). \<not> throws x"
    and bad: "\<And>msg. parsed bad = Some msg \<Longrightarrow> \<not> is_string (get_prop msg ''type'')"
  shows "(\<not> throws h \<longrightarrow> (\<exists>msg. parsed good = Some msg \<and> on_message throws ell good c =
       (c, map (\<lambda>x. Called x (get_prop msg ''payload'') (get_prop msg ''actor_id'') (get_prop msg ''actor_type'')) (before @ h # after) @
           map (\<lambda>x. Called_any x msg) (anyHandlers c)))) \<and>
    (throws h \<longrightarrow> (\<exists>msg. parsed good = Some msg \<and> on_message throws ell good c =
       (c, map (\<lambda>x. Called x (get_prop msg ''payload'') (get_prop msg ''actor_id'') (get_prop msg ''actor_type'')) (before @ [h]) @ [Uncaught]))) \<and>
    set (snd (on_message throws ell bad c)) \<subseteq> range Warned \<and>
    (parsed bad \<noteq> None \<longrightarrow> snd (on_message throws ell bad (fst (on_message throws ell bad c))) = [])"
proof -
  obtain msg where msg: "parsed good = Some msg" "get_prop msg ''type'' = JStr t" using typed by auto
  have "js_truthy msg" using msg(2) by (cases msg) (auto simp: js_truthy_def)
  then have run: "on_message throws ell good c = (c, dispatch_frame throws t msg c)"
    using msg typed(3) by (simp add: on_message_def)
  have "\<not> throws h \<Longrightarrow> dispatch_frame throws t msg c =
      map (\<lambda>x. Called x (get_prop msg ''payload'') (get_prop msg ''actor_id'') (get_prop msg ''actor_type'')) (before @ h # after) @
      map (\<lambda>x. Called_any x msg) (anyHandlers c)"
    using quiet by (simp add: dispatch_frame_def subs call_all_quiet)
  moreover have "throws h \<Longrightarrow> dispatch_frame throws t msg c =
      map (\<lambda>x. Called x (get_prop msg ''payload'') (get_prop msg ''actor_id'') (get_prop msg ''actor_type'')) (before @ [h]) @ [Uncaught]"
    using quiet by (simp add: dispatch_frame_def subs call_all_throw)
  ultimately show ?thesis using run msg(1) bad by (auto simp: on_message_def split: option.splits)
qed

theorem frame_delivery_witness:
  "snd (on_message (\<lambda>h. h = 2) [] \<lparr>raw = ''x'', parsed = Some (JObj [(''type'', JStr ''pin'')])\<rparr>
      ((new_client [] True None)\<lparr>handlers := [(''pin'', [1, 2, 3])], anyHandlers := [4]\<rparr>)) =
     [Called 1 JUndef JUndef JUndef, Called 2 JUndef JUndef JUndef, Uncaught]"
proof -
  let ?c = "(new_client [] True None)\<lparr>handlers := [(''pin'', [1, 2, 3])], anyHandlers := [4]\<rparr>"
  let ?good = "\<lparr>raw = ''x'', parsed = Some (JObj [(''type'', JStr ''pin'')])\<rparr>" and ?bad = "\<lparr>raw = ''x'', parsed = Some JNull\<rparr>"
  have subs: "obj_get (handlers ?c) ''pin'' = Some ([1] @ 2 # [3])" by simp
  have typed: "parsed ?good = Some msg \<Longrightarrow> get_prop msg ''type'' = JStr ''pin''" for msg by auto
  have bad: "parsed ?bad = Some msg \<Longrightarrow> \<not> is_string (get_prop msg ''type'')" for msg by auto
  have quiet: "\<forall>x \<in> set ([1] @ [3]) \<union> set (anyHandlers ?c). \<not> (\<lambda>h :: nat. h = 2) x" by simp
  show ?thesis using frame_delivery [where good = ?good and bad = ?bad and ell = "[]", OF typed _ _ subs quiet bad] by simp
qed

end
