(* ===== verification/Realtime_Properties.thy ===== *)
theory Realtime_Properties
  imports Realtime_Dispatch WS_Properties
begin

text \<open>
  The properties of the dispatch: when the debounced refreshes run, what a reconnect recovers and
  what it does not, and whose workspace a notification belongs to.
\<close>

section \<open>Debounce\<close>

text \<open>
  The reference: of the times at which events of a prefix arrive, each that no other follows
  within 100 ms is the end of a burst, and the refresh runs 100 ms after it.
\<close>

fun burst_ends :: "int list \<Rightarrow> int list" where
  "burst_ends [] = []"
| "burst_ends [t] = [t + 100]"
| "burst_ends (t # u # ts) = (if u < t + 100 then burst_ends (u # ts) else (t + 100) # burst_ends (u # ts))"

fun ends_from :: "int option \<Rightarrow> int list \<Rightarrow> int list" where
  "ends_from None [] = []"
| "ends_from (Some d) [] = [d]"
| "ends_from None (t # ts) = ends_from (Some (t + 100)) ts"
| "ends_from (Some d) (t # ts) = (if t < d then ends_from (Some (t + 100)) ts else d # ends_from (Some (t + 100)) ts)"

lemma ends_from_burst: "ends_from (Some (t + 100)) ts = burst_ends (t # ts)"
  by (induction ts arbitrary: t) simp_all

lemma ends_from_None: "ends_from None ts = burst_ends ts"
  by (cases ts) (simp_all add: ends_from_burst)

definition generic :: "string \<Rightarrow> string \<Rightarrow> bool" where
  "generic p e \<longleftrightarrow> e \<notin> set specificEvents \<and> event_prefix e = p"

definition fired_of :: "string \<Rightarrow> rt_state \<Rightarrow> int list" where
  "fired_of p st = map snd (filter (\<lambda>t. fst t = p) (rt_fired st))"

lemma fold_fire:
  "rt_fired (fold fire xs st) = rt_fired st @ xs"
  "obj_get (rt_due (fold fire xs st)) k = (if k \<in> fst ` set xs then None else obj_get (rt_due st) k)"
  "obj_wf (rt_due st) \<Longrightarrow> obj_wf (rt_due (fold fire xs st))"
  "rt_current (fold fire xs st) = rt_current st" "rt_user (fold fire xs st) = rt_user st"
  "set (rt_stale (fold fire xs st)) = set (rt_stale st) \<union>
     (\<Union>t \<in> set xs. set (default_to [] (obj_get (refreshMap (rt_current st) (rt_user st)) (fst t))))"
  by (induction xs arbitrary: st) (auto simp: fire_def stale_def obj_simps)

lemma filter_due:
  assumes "obj_wf due"
  shows "filter (\<lambda>t. fst t = p) (sort_key snd (filter (\<lambda>t. snd t \<le> now) due)) =
    (case obj_get due p of None \<Rightarrow> [] | Some d \<Rightarrow> if d \<le> (now :: int) then [(p, d)] else [])"
proof -
  have one: "filter (\<lambda>t. fst t = p) due = (case obj_get due p of None \<Rightarrow> [] | Some d \<Rightarrow> [(p, d)])"
    using assms unfolding obj_wf_def
  proof (induction due)
    case (Cons x due)
    have "fst x \<notin> fst ` set due" using Cons.prems by simp
    then have "\<forall>t \<in> set due. fst t \<noteq> fst x" by (metis image_eqI)
    then have "filter (\<lambda>t. fst t = fst x) due = []" by (simp add: filter_empty_conv)
    then show ?case using Cons by (cases x) auto
  qed simp
  have "filter (\<lambda>t. fst t = p) (sort_key snd (filter (\<lambda>t. snd t \<le> now) due)) =
      sort_key snd (filter (\<lambda>t. snd t \<le> now) (filter (\<lambda>t. fst t = p) due))"
    by (simp add: filter_sort conj_commute)
  then show ?thesis unfolding one by (simp split: option.split)
qed

lemma fire_until_prefix:
  assumes "obj_wf (rt_due st)"
  shows "fired_of p (fire_until now st) = fired_of p st @
      (case obj_get (rt_due st) p of None \<Rightarrow> [] | Some d \<Rightarrow> if d \<le> now then [d] else [])"
    "obj_get (rt_due (fire_until now st)) p =
      (case obj_get (rt_due st) p of None \<Rightarrow> None | Some d \<Rightarrow> if d \<le> now then None else Some d)"
    "obj_wf (rt_due (fire_until now st))"
proof -
  show "fired_of p (fire_until now st) = fired_of p st @
      (case obj_get (rt_due st) p of None \<Rightarrow> [] | Some d \<Rightarrow> if d \<le> now then [d] else [])"
    unfolding fired_of_def fire_until_def fold_fire filter_append filter_due [OF assms] by (simp split: option.split)
  have "p \<in> fst ` set (filter (\<lambda>t. snd t \<le> now) (rt_due st)) \<longleftrightarrow> (\<exists>d. obj_get (rt_due st) p = Some d \<and> d \<le> now)"
    using obj_get_in [OF assms] by force
  then show "obj_get (rt_due (fire_until now st)) p =
      (case obj_get (rt_due st) p of None \<Rightarrow> None | Some d \<Rightarrow> if d \<le> now then None else Some d)"
    unfolding fire_until_def fold_fire set_sort by (auto split: option.split)
  show "obj_wf (rt_due (fire_until now st))" unfolding fire_until_def by (rule fold_fire(3) [OF assms])
qed

definition refresh_prefixes :: "string list" where
  "refresh_prefixes = map fst (refreshMap None None)"

lemma refresh_keys: "map fst (refreshMap c u) = refresh_prefixes"
  by (simp add: refreshMap_def refresh_prefixes_def Let_def)

lemma refresh_known: "obj_get (refreshMap c u) p = None \<longleftrightarrow> p \<notin> set refresh_prefixes"
  using refresh_keys [of c u] by (metis list.set_map map_of_eq_None_iff)

lemma on_any_due:
  assumes "p \<in> set refresh_prefixes"
  shows "obj_get (rt_due (on_any now e st)) p = (if generic p e then Some (now + 100) else obj_get (rt_due st) p)"
    "fired_of p (on_any now e st) = fired_of p st"
    "obj_wf (rt_due st) \<Longrightarrow> obj_wf (rt_due (on_any now e st))"
    "rt_current (on_any now e st) = rt_current st" "rt_user (on_any now e st) = rt_user st" "rt_stale (on_any now e st) = rt_stale st"
  using assms refresh_known [of "rt_current st" "rt_user st" p]
  by (auto simp: on_any_def generic_def debouncedRefresh_def fired_of_def obj_simps split: option.split)

lemma run_events_fired:
  assumes "p \<in> set refresh_prefixes" "obj_wf (rt_due st)" "sorted (map fst es)" "\<forall>x \<in> set es. fst x + 100 \<le> T"
    "\<forall>d. obj_get (rt_due st) p = Some d \<longrightarrow> d \<le> T"
  shows "fired_of p (fire_until T (run_events es st)) =
    fired_of p st @ ends_from (obj_get (rt_due st) p) (map fst (filter (\<lambda>x. generic p (snd x)) es))"
  using assms(2-)
proof (induction es arbitrary: st)
  case Nil
  then show ?case by (auto simp: fire_until_prefix split: option.split)
next
  case (Cons x es)
  obtain now e where x: "x = (now, e)" by fastforce
  let ?s = "on_any now e (fire_until now st)"
  note due = on_any_due(1) [OF assms(1), of now e "fire_until now st"] fire_until_prefix(2) [OF Cons.prems(1), of now p]
  have "obj_wf (rt_due ?s)" by (rule on_any_due(3) [OF assms(1) fire_until_prefix(3) [OF Cons.prems(1)]])
  moreover have "\<forall>d. obj_get (rt_due ?s) p = Some d \<longrightarrow> d \<le> T"
    using Cons.prems(3,4) unfolding due x by (auto split: option.splits if_splits)
  ultimately have "fired_of p (fire_until T (run_events es ?s)) =
      fired_of p ?s @ ends_from (obj_get (rt_due ?s) p) (map fst (filter (\<lambda>x. generic p (snd x)) es))"
    using Cons.IH Cons.prems(2,3) by simp
  moreover have "ends_from (Some d) (map fst (filter (\<lambda>x. generic p (snd x)) es)) =
      d # ends_from None (map fst (filter (\<lambda>x. generic p (snd x)) es))"
    if "d \<le> now" "\<not> generic p e" for d
  proof (cases "map fst (filter (\<lambda>x. generic p (snd x)) es)")
    case (Cons t ts)
    then have "t \<in> fst ` set es" by (metis (no_types, lifting) filter_is_subset image_mono in_mono list.set_intros(1) list.set_map)
    then have "now \<le> t" using Cons.prems(2) x by auto
    then show ?thesis using that Cons by simp
  qed simp
  ultimately show ?case
    unfolding x run_events.simps on_any_due(2) [OF assms(1)] fire_until_prefix(1) [OF Cons.prems(1)] due
    by (auto split: option.split)
qed

text \<open>Whatever fired since left its keys stale.\<close>

definition fired_stale :: "rt_state \<Rightarrow> rt_state \<Rightarrow> bool" where
  "fired_stale st st' \<longleftrightarrow> rt_current st' = rt_current st \<and> rt_user st' = rt_user st \<and> set (rt_stale st) \<subseteq> set (rt_stale st') \<and>
     (\<exists>xs. rt_fired st' = rt_fired st @ xs \<and>
       (\<forall>t \<in> set xs. set (default_to [] (obj_get (refreshMap (rt_current st) (rt_user st)) (fst t))) \<subseteq> set (rt_stale st')))"

lemma fired_stale_trans: "fired_stale a b \<Longrightarrow> fired_stale b c \<Longrightarrow> fired_stale a c"
proof -
  assume ab: "fired_stale a b" and bc: "fired_stale b c"
  obtain xs where xs: "rt_fired b = rt_fired a @ xs"
    "\<forall>t \<in> set xs. set (default_to [] (obj_get (refreshMap (rt_current a) (rt_user a)) (fst t))) \<subseteq> set (rt_stale b)"
    using ab by (auto simp: fired_stale_def)
  obtain ys where ys: "rt_fired c = rt_fired b @ ys"
    "\<forall>t \<in> set ys. set (default_to [] (obj_get (refreshMap (rt_current a) (rt_user a)) (fst t))) \<subseteq> set (rt_stale c)"
    using ab bc by (auto simp: fired_stale_def)
  have sub: "set (rt_stale b) \<subseteq> set (rt_stale c)" "rt_current c = rt_current a" "rt_user c = rt_user a"
    "set (rt_stale a) \<subseteq> set (rt_stale c)" using ab bc by (auto simp: fired_stale_def)
  have "\<forall>t \<in> set (xs @ ys). set (default_to [] (obj_get (refreshMap (rt_current a) (rt_user a)) (fst t))) \<subseteq> set (rt_stale c)"
    using xs(2) ys(2) sub(1) by (metis Un_iff order_trans set_append)
  then show ?thesis unfolding fired_stale_def using sub xs(1) ys(1) by (intro conjI exI [of _ "xs @ ys"]) simp_all
qed

lemma fire_until_stale: "fired_stale st (fire_until now st)"
  unfolding fired_stale_def fire_until_def fold_fire by auto

lemma on_any_stale: "fired_stale st (on_any now e st)"
  by (simp add: fired_stale_def on_any_def debouncedRefresh_def split: option.split)

lemma run_events_stale: "fired_stale st (run_events es st)"
proof (induction es arbitrary: st)
  case (Cons x es)
  obtain now e where x: "x = (now, e)" by fastforce
  show ?case unfolding x run_events.simps
    by (rule fired_stale_trans [OF fire_until_stale fired_stale_trans [OF on_any_stale Cons.IH]])
qed (simp add: fired_stale_def)

lemma stale_since:
  assumes "fired_of p st' = fired_of p st @ ds" "ds \<noteq> []" "fired_stale st st'"
  shows "set (default_to [] (obj_get (refreshMap (rt_current st) (rt_user st)) p)) \<subseteq> set (rt_stale st')"
proof -
  obtain xs where xs: "rt_fired st' = rt_fired st @ xs"
    "\<forall>t \<in> set xs. set (default_to [] (obj_get (refreshMap (rt_current st) (rt_user st)) (fst t))) \<subseteq> set (rt_stale st')"
    using assms(3) by (auto simp: fired_stale_def)
  have "filter (\<lambda>t. fst t = p) xs \<noteq> []" using assms(1,2) xs(1) by (auto simp: fired_of_def)
  then obtain t where "t \<in> set xs" "fst t = p" by (auto simp: filter_empty_conv)
  then show ?thesis using xs(2) by blast
qed

text \<open>C29. The debounced refresh of a prefix runs exactly once for every burst of its events, 100 ms after the last event of the burst, however the events of other prefixes come between, and leaves the keys of the prefix stale, so no event is lost; but there is no bound on a burst: as long as the next event follows within 100 ms the refresh does not run.\<close>

theorem debounced_refresh:
  assumes p: "p \<in> set refresh_prefixes" and idle: "rt_due st = []"
    and order: "sorted (map fst es)" and quiet: "\<forall>x \<in> set es. fst x + 100 \<le> T"
  shows "fired_of p (fire_until T (run_events es st)) =
      fired_of p st @ burst_ends (map fst (filter (\<lambda>x. generic p (snd x)) es)) \<and>
    ((\<exists>x \<in> set es. generic p (snd x)) \<longrightarrow>
      set (default_to [] (obj_get (refreshMap (rt_current st) (rt_user st)) p)) \<subseteq> set (rt_stale (fire_until T (run_events es st)))) \<and>
    (\<forall>t ts. (\<forall>i < length ts. (t # ts) ! Suc i < (t # ts) ! i + 100) \<longrightarrow> burst_ends (t # ts) = [last (t # ts) + 100])"
proof -
  have fired: "fired_of p (fire_until T (run_events es st)) =
      fired_of p st @ burst_ends (map fst (filter (\<lambda>x. generic p (snd x)) es))"
    using run_events_fired [OF p _ order quiet, of st] idle by (simp add: ends_from_None)
  have "set (default_to [] (obj_get (refreshMap (rt_current st) (rt_user st)) p)) \<subseteq> set (rt_stale (fire_until T (run_events es st)))"
    if x: "\<exists>x \<in> set es. generic p (snd x)"
  proof -
    have "filter (\<lambda>x. generic p (snd x)) es \<noteq> []" using x by (auto simp: filter_empty_conv)
    moreover have "burst_ends ts \<noteq> []" if "ts \<noteq> []" for ts using that by (induction ts rule: burst_ends.induct) simp_all
    ultimately have "burst_ends (map fst (filter (\<lambda>x. generic p (snd x)) es)) \<noteq> []" by (metis map_is_Nil_conv)
    then show ?thesis using stale_since [OF fired] fired_stale_trans [OF run_events_stale fire_until_stale] by blast
  qed
  moreover have "burst_ends (t # ts) = [last (t # ts) + 100]" if "\<forall>i < length ts. (t # ts) ! Suc i < (t # ts) ! i + 100" for t ts
    using that
  proof (induction ts arbitrary: t)
    case (Cons u ts)
    have "u < t + 100" using Cons.prems by force
    moreover have "\<forall>i < length ts. (u # ts) ! Suc i < (u # ts) ! i + 100" using Cons.prems by (metis Suc_less_eq length_Cons nth_Cons_Suc)
    ultimately show ?case using Cons.IH by simp
  qed simp
  ultimately show ?thesis using fired by blast
qed

definition demo_rt :: rt_state where
  "demo_rt = \<lparr>rt_current = Some ''w'', rt_slug = Some ''acme'', rt_user = Some ''u'', rt_workspaces = None, rt_stale = [],
     rt_due = [], rt_fired = [], rt_storage = (\<lambda>_. None), rt_entries = [], rt_pending_deletes = [], rt_toasts = [], rt_lost = []\<rparr>"

theorem debounced_refresh_witness:
  "fired_of ''pin'' (fire_until 400 (run_events [(0, ''pin:created''), (50, ''pin:deleted''), (60, ''inbox:new''), (200, ''pin:created'')] demo_rt)) =
     [150, 300]"
proof -
  have "''pin'' \<in> set refresh_prefixes" by (simp add: refresh_prefixes_def refreshMap_def Let_def)
  moreover have "rt_due demo_rt = []" by (simp add: demo_rt_def)
  moreover have "sorted (map fst [(0 :: int, ''pin:created''), (50, ''pin:deleted''), (60, ''inbox:new''), (200, ''pin:created'')])" by simp
  moreover have "\<forall>x \<in> set [(0 :: int, ''pin:created''), (50, ''pin:deleted''), (60, ''inbox:new''), (200, ''pin:created'')]. fst x + 100 \<le> 400" by simp
  ultimately have "fired_of ''pin'' (fire_until 400 (run_events [(0, ''pin:created''), (50, ''pin:deleted''), (60, ''inbox:new''), (200, ''pin:created'')] demo_rt)) =
      fired_of ''pin'' demo_rt @ burst_ends (map fst (filter (\<lambda>x. generic ''pin'' (snd x))
        [(0, ''pin:created''), (50, ''pin:deleted''), (60, ''inbox:new''), (200, ''pin:created'')]))"
    by (rule debounced_refresh [THEN conjunct1])
  moreover have "generic ''pin'' ''pin:created''" "generic ''pin'' ''pin:deleted''" "\<not> generic ''pin'' ''inbox:new''"
    by (simp_all add: generic_def specificEvents_def event_prefix_def)
  ultimately show ?thesis by (simp add: fired_of_def demo_rt_def)
qed

section \<open>Recovery\<close>

text \<open>The keys an event of some prefix refreshes, the keys a reconnect recovers, and the difference.\<close>

definition refreshed :: "string \<Rightarrow> string \<Rightarrow> qkey \<Rightarrow> bool" where
  "refreshed w u k \<longleftrightarrow> (\<exists>p invs. obj_get (refreshMap (Some w) (Some u)) p = Some invs \<and> (\<exists>iv \<in> set invs. matches iv k))"

definition recovered :: "string \<Rightarrow> qkey \<Rightarrow> bool" where
  "recovered w k \<longleftrightarrow> (\<exists>iv \<in> set (recovery (Some w)). matches iv k)"

definition gap_keys :: "string \<Rightarrow> string \<Rightarrow> qkey list" where
  "gap_keys w u =
     [[''pins'', w, u], [''github'', w, ''installations''], [''lark'', w, ''installations''], [''slack'', w, ''installations''],
      [''vcs'', w], [''github'', ''pull-requests''], [''workspaces'', w, ''agent-tasks''], [''issues'', ''comment-trigger-preview'']]"

lemma refresh_all:
  assumes "w \<noteq> []" "u \<noteq> []"
  shows "refreshed w u k \<longleftrightarrow> (\<exists>iv \<in> \<Union> (set ` snd ` set (refreshMap (Some w) (Some u))). matches iv k)"
proof -
  have "distinct (map fst (refreshMap (Some w) (Some u)))" by (simp add: refreshMap_def Let_def)
  then have "obj_get (refreshMap (Some w) (Some u)) p = Some invs \<longleftrightarrow> (p, invs) \<in> set (refreshMap (Some w) (Some u))" for p invs
    by (rule map_of_eq_Some_iff)
  then show ?thesis unfolding refreshed_def by force
qed

lemma squad_status_below: "matches (Squad_status w) k \<Longrightarrow> matches (workspace_part ''squads'' w) k"
  by (cases k; cases "tl k"; cases "tl (tl k)") (auto simp: workspace_part_def)

lemmas key_defs = scoped_def workspace_part_def issue_table_all_def per_issue_def workspace_list_def unread_summary_def my_invitations_def

lemma refresh_union:
  assumes "w \<noteq> []" "u \<noteq> []"
  shows "\<Union> (set ` snd ` set (refreshMap (Some w) (Some u))) =
    set [scoped ''inbox'' w, unread_summary, workspace_part ''agents'' w, workspace_part ''working-agents'' w, Squad_status w,
      workspace_part ''members'' w, workspace_list, workspace_part ''skills'' w, scoped ''projects'' w,
      workspace_part ''squads'' w, scoped ''issues'' w, scoped ''labels'' w, Below [''pins'', w, u], scoped ''runtimes'' w,
      scoped ''autopilots'' w, Below [''github'', w, ''installations''], Below [''lark'', w, ''installations''],
      Below [''slack'', w, ''installations''], scoped ''vcs'' w, Below [''github'', ''pull-requests'']] \<union> set (refresh_task w)"
  using assms unfolding refreshMap_def Let_def by (auto)

lemma matches_prefix: "matches (Below p) k \<longleftrightarrow> (\<exists>r. k = p @ r)"
  by (metis append_eq_conv_conj append_take_drop_id matches.simps(1))

lemma recovery_set: "w \<noteq> [] \<Longrightarrow> set (recovery (Some w)) =
    {scoped ''issues'' w, scoped ''inbox'' w, workspace_part ''agents'' w, workspace_part ''members'' w,
     workspace_part ''squads'' w, workspace_part ''skills'' w, workspace_part ''invitations'' w, scoped ''projects'' w,
     scoped ''runtimes'' w, scoped ''autopilots'' w, workspace_part ''agent-task-snapshot'' w,
     workspace_part ''working-agents'' w, workspace_part ''agent-activity'' w, workspace_part ''agent-run-counts'' w,
     scoped ''chat'' w, scoped ''labels'' w, scoped ''properties'' w, unread_summary, per_issue ''timeline'',
     per_issue ''reactions'', per_issue ''subscribers'', per_issue ''usage'', per_issue ''attachments'', per_issue ''tasks'',
     Below [''chat'', ''messages''], Below [''chat'', ''messages-page''], Below [''chat'', ''pending-task''],
     Below [''task-messages''], Below [''chat'', ''draft-restores''], workspace_list}"
  by (auto simp: recovery_def)

lemma recovered_by: "w \<noteq> [] \<Longrightarrow> iv \<in> set (recovery (Some w)) \<Longrightarrow> matches iv k \<Longrightarrow> recovered w k"
  by (auto simp: recovered_def)

lemma gap_not_recovered:
  assumes "w \<notin> {[], ''list'', ''comment-trigger-preview''}" "g \<in> set (gap_keys w u)"
  shows "\<not> recovered w (g @ r)"
proof -
  have ne: "w \<noteq> []" "w \<noteq> ''list''" "w \<noteq> ''comment-trigger-preview''" using assms(1) by auto
  have "g = [''pins'', w, u] \<or> g = [''github'', w, ''installations''] \<or> g = [''lark'', w, ''installations''] \<or>
      g = [''slack'', w, ''installations''] \<or> g = [''vcs'', w] \<or> g = [''github'', ''pull-requests''] \<or>
      g = [''workspaces'', w, ''agent-tasks''] \<or> g = [''issues'', ''comment-trigger-preview'']"
    using assms(2) by (simp add: gap_keys_def)
  then show ?thesis
    by (elim disjE) (simp_all add: recovered_def recovery_set ne ne [symmetric] key_defs)
qed

lemma table_recovered: "matches (issue_table_all w) k \<Longrightarrow> matches (scoped ''issues'' w) k"
  unfolding issue_table_all_def scoped_def matches_prefix by auto

lemma task_recovered:
  assumes "w \<noteq> []" "iv \<in> set (refresh_task w)" "matches iv k"
  shows "recovered w k \<or> (\<exists>g \<in> set (gap_keys w u). matches (Below g) k)"
proof -
  consider "iv = Below [''workspaces'', w, ''agent-task-snapshot'', ''list'']" | "iv = workspace_part ''working-agents'' w"
    | "iv = issue_table_all w" | "iv = Below [''workspaces'', w, ''agent-activity'', ''30d'']"
    | "iv = Below [''workspaces'', w, ''agent-run-counts'', ''30d'']" | "iv = workspace_part ''agent-tasks'' w"
    | "iv = per_issue ''tasks''" | "iv = per_issue ''usage''" | "iv = Squad_status w" | "iv = per_issue ''comment-trigger-preview''"
    using assms(2) by (auto simp: refresh_task_def)
  then show ?thesis
  proof cases
    case 1
    then have "matches (workspace_part ''agent-task-snapshot'' w) k" using assms(3) unfolding workspace_part_def by (auto simp: matches_prefix simp del: matches.simps)
    then show ?thesis using recovered_by [OF assms(1)] recovery_set [OF assms(1)] by blast
  next
    case 4
    then have "matches (workspace_part ''agent-activity'' w) k" using assms(3) unfolding workspace_part_def by (auto simp: matches_prefix simp del: matches.simps)
    then show ?thesis using recovered_by [OF assms(1)] recovery_set [OF assms(1)] by blast
  next
    case 5
    then have "matches (workspace_part ''agent-run-counts'' w) k" using assms(3) unfolding workspace_part_def by (auto simp: matches_prefix simp del: matches.simps)
    then show ?thesis using recovered_by [OF assms(1)] recovery_set [OF assms(1)] by blast
  next
    case 3
    then have "matches (scoped ''issues'' w) k" using assms(3) table_recovered by simp
    then show ?thesis using recovered_by [OF assms(1)] recovery_set [OF assms(1)] by blast
  next
    case 9
    then have "matches (workspace_part ''squads'' w) k" using assms(3) squad_status_below by blast
    then show ?thesis using recovered_by [OF assms(1)] recovery_set [OF assms(1)] by blast
  next
    case 6
    then show ?thesis using assms(3) by (auto simp: gap_keys_def workspace_part_def)
  next
    case 10
    then show ?thesis using assms(3) by (auto simp: gap_keys_def per_issue_def)
  qed (use assms(3) recovered_by [OF assms(1)] recovery_set [OF assms(1)] in blast)+
qed

lemma refresh_recovered:
  assumes w: "w \<noteq> []" "u \<noteq> []" and r: "refreshed w u k"
  shows "recovered w k \<or> (\<exists>g \<in> set (gap_keys w u). matches (Below g) k)"
proof -
  obtain iv where iv: "matches iv k"
    "iv \<in> set [scoped ''inbox'' w, unread_summary, workspace_part ''agents'' w, workspace_part ''working-agents'' w, Squad_status w,
      workspace_part ''members'' w, workspace_list, workspace_part ''skills'' w, scoped ''projects'' w,
      workspace_part ''squads'' w, scoped ''issues'' w, scoped ''labels'' w, Below [''pins'', w, u], scoped ''runtimes'' w,
      scoped ''autopilots'' w, Below [''github'', w, ''installations''], Below [''lark'', w, ''installations''],
      Below [''slack'', w, ''installations''], scoped ''vcs'' w, Below [''github'', ''pull-requests'']] \<union> set (refresh_task w)"
    using r unfolding refresh_all [OF w] refresh_union [OF w] by blast
  have vcs: "scoped ''vcs'' w = Below [''vcs'', w]" by (simp add: scoped_def)
  have "set [scoped ''inbox'' w, unread_summary, workspace_part ''agents'' w, workspace_part ''working-agents'' w, Squad_status w,
      workspace_part ''members'' w, workspace_list, workspace_part ''skills'' w, scoped ''projects'' w,
      workspace_part ''squads'' w, scoped ''issues'' w, scoped ''labels'' w, Below [''pins'', w, u], scoped ''runtimes'' w,
      scoped ''autopilots'' w, Below [''github'', w, ''installations''], Below [''lark'', w, ''installations''],
      Below [''slack'', w, ''installations''], scoped ''vcs'' w, Below [''github'', ''pull-requests'']] \<subseteq>
    {Squad_status w} \<union> set (recovery (Some w)) \<union> Below ` set (gap_keys w u)"
    unfolding recovery_set [OF w(1)] gap_keys_def vcs by simp
  then consider "iv \<in> set (refresh_task w)" | "iv = Squad_status w" | "iv \<in> set (recovery (Some w))" | "iv \<in> Below ` set (gap_keys w u)"
    using iv(2) by blast
  then show ?thesis
  proof cases
    case 1
    then show ?thesis using task_recovered [OF w(1)] iv(1) by blast
  next
    case 2
    then have "matches (workspace_part ''squads'' w) k" using iv(1) squad_status_below by blast
    then show ?thesis using recovered_by [OF w(1)] recovery_set [OF w(1)] by blast
  next
    case 3
    then show ?thesis using recovered_by [OF w(1)] iv(1) by blast
  next
    case 4
    then show ?thesis using iv(1) by blast
  qed
qed

lemma gap_refreshed:
  assumes w: "w \<noteq> []" "u \<noteq> []" and g: "g \<in> set (gap_keys w u)" "matches (Below g) k"
  shows "refreshed w u k"
proof -
  have "Below g \<in> \<Union> (set ` snd ` set (refreshMap (Some w) (Some u)))"
    using g(1) unfolding refresh_union [OF w] by (auto simp: gap_keys_def refresh_task_def key_defs)
  then show ?thesis unfolding refresh_all [OF w] using g(2) by blast
qed

lemma recover_effects:
  "rt_current st = c \<Longrightarrow> rt_current (fold (sync_effect any_hook hook now) (map Reconnected hs) st) = c \<and>
     set (rt_stale (fold (sync_effect any_hook hook now) (map Reconnected hs) st)) =
       set (rt_stale st) \<union> (if hook \<in> set hs then set (recovery c) else {})"
  by (induction hs arbitrary: st) (auto simp: sync_effect_def invalidateWorkspaceScopedQueries_def stale_def)



section \<open>Notifications\<close>

lemma source_slug:
  "resolveInboxSourceSlug fetched i = Some s \<Longrightarrow> \<exists>x \<in> set (default_to [] fetched). wsp_id x = i \<and> wsp_slug x = s"
  by (cases fetched) (force simp: resolveInboxSourceSlug_def map_option_eq_Some split: if_splits dest: find_Some_in)+

text \<open>A notification belongs to the workspace of its item: its link has the slug of that workspace in the workspace list, or is empty when it cannot be resolved, whatever workspace is current; the preferences that can mute it are asked for under that slug or read from that workspace's cache, and when they do not mute it and the window is not focused it is shown; the caches of that workspace's inbox are stale in any case.\<close>

theorem banner_names_source:
  assumes shown: "snd (handleInboxNew focused fetched fetchPrefs cachedPrefs ev st) = Some n"
  shows "\<not> focused \<and> nt_item n = ev_item ev \<and>
    (nt_slug n = [] \<or> (\<exists>x \<in> set (default_to [] fetched). wsp_id x = ev_workspace ev \<and> wsp_slug x = nt_slug n)) \<and>
    (ev_workspace ev = [] \<or> \<not> muted (if nt_slug n = [] then cachedPrefs (ev_workspace ev) else fetchPrefs (ev_workspace ev) (nt_slug n))) \<and>
    (\<forall>st2 fetch2 cached2. fetch2 (ev_workspace ev) (nt_slug n) = fetchPrefs (ev_workspace ev) (nt_slug n) \<and>
       cached2 (ev_workspace ev) = cachedPrefs (ev_workspace ev) \<longrightarrow>
       snd (handleInboxNew focused fetched fetch2 cached2 ev st2) = Some n \<and>
       snd (handleInboxNew True fetched fetch2 cached2 ev st2) = None \<and>
       {unread_summary} \<union> (if ev_workspace ev = [] then {} else {scoped ''inbox'' (ev_workspace ev)}) \<subseteq>
         set (rt_stale (fst (handleInboxNew focused fetched fetch2 cached2 ev st2))))"
proof -
  let ?w = "ev_workspace ev" and ?slug = "resolveInboxSourceSlug fetched (ev_workspace ev)"
  have n: "\<not> focused" "nt_slug n = default_to [] ?slug" "nt_item n = ev_item ev"
    "\<not> muted (if ?w = [] then None else (case truthy ?slug of Some s \<Rightarrow> fetchPrefs ?w s | None \<Rightarrow> cachedPrefs ?w))"
    using shown by (auto simp: handleInboxNew_def Let_def split: if_splits)
  have prefs: "(if ?w = [] then None else (case truthy ?slug of Some s \<Rightarrow> f ?w s | None \<Rightarrow> g ?w)) =
      (if ?w = [] then None else if nt_slug n = [] then g ?w else f ?w (nt_slug n))" for f :: "string \<Rightarrow> string \<Rightarrow> js option" and g
    using n(2) by (cases ?slug) auto
  have "nt_slug n = [] \<or> (\<exists>x \<in> set (default_to [] fetched). wsp_id x = ?w \<and> wsp_slug x = nt_slug n)"
    using n(2) source_slug [of fetched ?w] by (cases ?slug) simp_all
  moreover have "snd (handleInboxNew focused fetched fetch2 cached2 ev st2) = Some n"
    if "fetch2 ?w (nt_slug n) = fetchPrefs ?w (nt_slug n)" "cached2 ?w = cachedPrefs ?w" for st2 fetch2 cached2
    using shown that unfolding handleInboxNew_def Let_def prefs by (auto split: if_splits)
  moreover have "\<not> muted (if nt_slug n = [] then cachedPrefs ?w else fetchPrefs ?w (nt_slug n))" if "?w \<noteq> []"
    using n(4) that unfolding prefs by simp
  ultimately show ?thesis using n(1,3) by (auto simp: handleInboxNew_def Let_def stale_def)
qed

theorem banner_names_source_witness:
  "\<exists>n. snd (handleInboxNew False (Some [\<lparr>wsp_id = ''a'', wsp_slug = ''source'', wsp_prefix = ''A'', wsp_rest = JNull\<rparr>])
       (\<lambda>_ _. None) (\<lambda>_. None) \<lparr>ev_item = ''i'', ev_workspace = ''a'', ev_issue = None, ev_title = ''t'', ev_body = None\<rparr> demo_rt) = Some n \<and>
     nt_slug n = ''source'' \<and> nt_issue_key n = ''i''"
proof -
  let ?ws = "Some [\<lparr>wsp_id = ''a'', wsp_slug = ''source'', wsp_prefix = ''A'', wsp_rest = JNull\<rparr>]"
  let ?ev = "\<lparr>ev_item = ''i'', ev_workspace = ''a'', ev_issue = None, ev_title = ''t'', ev_body = None\<rparr>"
  let ?n = "\<lparr>nt_slug = ''source'', nt_item = ''i'', nt_issue_key = ''i'', nt_title = ''t'', nt_body = []\<rparr>"
  have shown: "snd (handleInboxNew False ?ws (\<lambda>_ _. None) (\<lambda>_. None) ?ev demo_rt) = Some ?n"
    by (simp add: handleInboxNew_def Let_def resolveInboxSourceSlug_def muted_def)
  then show ?thesis using banner_names_source [OF shown] by auto
qed

section \<open>Losing a workspace\<close>

text \<open>The relocation never leads into the lost workspace, if slugs are unique.\<close>

lemma relocation_avoids:
  assumes "relocateAfterWorkspaceLoss encode (Some wss) True lost = Some target"
  shows "target = ''/workspaces/new'' \<or> (\<exists>x \<in> set wss. wsp_id x \<noteq> lost \<and> target = ''/'' @ encode (wsp_slug x) @ ''/issues'')"
proof (cases "filter (\<lambda>x. wsp_id x \<noteq> lost) wss")
  case (Cons x xs)
  have "x \<in> set (filter (\<lambda>x. wsp_id x \<noteq> lost) wss)" unfolding Cons by simp
  then have "x \<in> set wss" "wsp_id x \<noteq> lost" by simp_all
  then show ?thesis using assms Cons by (auto simp: relocateAfterWorkspaceLoss_def resolvePostAuthDestination_def)
qed (use assms in \<open>simp add: relocateAfterWorkspaceLoss_def resolvePostAuthDestination_def\<close>)

text \<open>A removal from another workspace is taken for one from the current workspace.\<close>

lemma removal_hits_current:
  assumes "rt_user st = Some u" "rt_slug st = Some s" "rt_current st = Some w" "s \<noteq> []" "w \<noteq> []"
  shows "rt_lost (on_member_removed u other st) = rt_lost st @ [w]"
    "rt_storage (on_member_removed u other st) = clearWorkspaceStorage (rt_entries st) s (rt_storage st)"
  using assms by (simp_all add: on_member_removed_def)

end
