(* ===== verification/Attachment_Links.thy ===== *)
theory Attachment_Links
  imports Chat_Facts
begin

text \<open>
  The links of an attachment (\<open>packages/core/types/attachment-url.ts\<close>,
  \<open>packages/core/hooks/use-file-upload.ts\<close>) and the markdown that a finished upload leaves in a
  body (\<open>packages/views/editor/use-coordinated-uploads.ts\<close>). An attachment is a value whose
  members are read; a member that its type gives as a string is read as one.
\<close>

text \<open>\<open>s.includes(t)\<close>\<close>

fun includes_text :: "string \<Rightarrow> string \<Rightarrow> bool" where
  "includes_text [] t \<longleftrightarrow> t = []"
| "includes_text (c # s) t \<longleftrightarrow> starts_with (c # s) t \<or> includes_text s t"

definition attachmentDownloadPath :: "string \<Rightarrow> string" where
  "attachmentDownloadPath attachmentId = ''/api/attachments/'' @ attachmentId @ ''/download''"

definition stripQueryAndFragment :: "string \<Rightarrow> string" where
  "stripQueryAndFragment url = takeWhile (\<lambda>c. c \<noteq> CHR ''?'' \<and> c \<noteq> CHR ''#'') url"

text \<open>The search of a content is an argument: a body that is no text may be an array, whose
  \<open>includes\<close> compares the elements, and any other value has none.\<close>

fun content_search :: "js \<Rightarrow> (string \<Rightarrow> bool) option" where
  "content_search (JStr s) = Some (includes_text s)"
| "content_search (JArr vs) = Some (\<lambda>t. JStr t \<in> set vs)"
| "content_search _ = None"

definition contentReferencesURL :: "(string \<Rightarrow> bool) \<Rightarrow> string \<Rightarrow> bool" where
  "contentReferencesURL has url \<longleftrightarrow>
     url \<noteq> [] \<and>
     (has url \<or> (let stable = stripQueryAndFragment url in stable \<noteq> [] \<and> has stable))"

definition contentReferencesAttachment :: "js \<Rightarrow> js \<Rightarrow> bool js_result" where
  "contentReferencesAttachment content attachment =
     (if \<not> js_truthy content then Inr False
      else
        (case content_search content of
           None \<Rightarrow> Inl TypeError
         | Some has \<Rightarrow>
             Inr (has (attachmentDownloadPath (str_prop attachment ''id'')) \<or>
                  contentReferencesURL has (str_prop attachment ''url'') \<or>
                  contentReferencesURL has (str_prop attachment ''download_url'') \<or>
                  contentReferencesURL has (str_prop attachment ''markdown_url''))))"

definition pickMarkdownLink :: "js \<Rightarrow> string" where
  "pickMarkdownLink att =
     (if str_prop att ''markdown_url'' \<noteq> [] then str_prop att ''markdown_url''
      else if str_prop att ''id'' \<noteq> [] then attachmentDownloadPath (str_prop att ''id'')
      else str_prop att ''url'')"

definition toUploadResult :: "js \<Rightarrow> js" where
  "toUploadResult att =
     JObj (obj_set (obj_set (members att) ''link'' (get_prop att ''url''))
       ''markdownLink'' (JStr (pickMarkdownLink att)))"

definition is_image_type :: "js \<Rightarrow> bool" where
  "is_image_type att \<longleftrightarrow> starts_with (str_prop att ''content_type'') ''image/''"

definition attachmentMarkdown :: "js \<Rightarrow> string" where
  "attachmentMarkdown att =
     (let link = str_prop (toUploadResult att) ''markdownLink'' in
      if is_image_type att
      then ''!['' @ str_prop att ''filename'' @ '']('' @ link @ '')''
      else ''['' @ str_prop att ''filename'' @ '']('' @ link @ '')'')"

section \<open>A body that has the markdown of an attachment refers to it\<close>

lemma includes_iff: "includes_text s t \<longleftrightarrow> (\<exists>a b. s = a @ t @ b)"
proof (induction s)
  case (Cons c s)
  have "(\<exists>a b. c # s = a @ t @ b) \<longleftrightarrow> starts_with (c # s) t \<or> (\<exists>a b. s = a @ t @ b)"
    unfolding starts_with_iff by (metis append_Cons append_Nil list.exhaust list.inject)
  with Cons show ?case by simp
qed simp

lemma includes_middle [simp]: "includes_text (a @ t @ b) t"
  by (auto simp: includes_iff)

lemma includes_trans: "includes_text s t \<Longrightarrow> includes_text (a @ s @ b) t"
  unfolding includes_iff by (metis append.assoc)

lemma link_of_result [simp]: "str_prop (toUploadResult att) ''markdownLink'' = pickMarkdownLink att"
  by (simp add: toUploadResult_def str_prop_def obj_simps)

lemma markdown_has_link: "includes_text (attachmentMarkdown att) (pickMarkdownLink att)"
  using includes_middle [of "''!['' @ str_prop att ''filename'' @ '']('' " "pickMarkdownLink att" "'')''"]
    includes_middle [of "''['' @ str_prop att ''filename'' @ '']('' " "pickMarkdownLink att" "'')''"]
  by (simp add: attachmentMarkdown_def Let_def)

lemma markdown_not_empty: "attachmentMarkdown att \<noteq> []"
  by (simp add: attachmentMarkdown_def Let_def)

text \<open>An attachment can be linked when the server gave it any address.\<close>

definition linkable :: "js \<Rightarrow> bool" where
  "linkable att \<longleftrightarrow> pickMarkdownLink att \<noteq> []"

lemma link_is_reference:
  assumes "linkable att" and "includes_text s (pickMarkdownLink att)" and "s \<noteq> []"
  shows "contentReferencesAttachment (JStr s) att = Inr True"
proof -
  have "js_truthy (JStr s)" using assms(3) by (simp add: js_truthy_def)
  then show ?thesis using assms(1,2)
    by (simp add: contentReferencesAttachment_def contentReferencesURL_def linkable_def
        pickMarkdownLink_def split: if_splits)
qed

lemma markdown_is_reference:
  assumes "linkable att" and "includes_text s (attachmentMarkdown att)"
  shows "contentReferencesAttachment (JStr s) att = Inr True"
proof (rule link_is_reference [OF assms(1)])
  show "includes_text s (pickMarkdownLink att)"
    using assms(2) markdown_has_link includes_trans unfolding includes_iff by (metis append.assoc)
  show "s \<noteq> []" using assms(2) markdown_not_empty by (auto simp: includes_iff)
qed

end
