(* ===== verification/Upload_Binding.thy ===== *)
theory Upload_Binding
  imports Attachment_Links Chat_Properties
begin

text \<open>
  \<open>UploadDraftBinding\<close> of \<open>packages/views/editor/use-coordinated-uploads.ts\<close>: what the upload
  engine asks of the store of a draft, as a record of operations on the state \<open>'s\<close> of that
  store, with the contract the engine relies on (locale \<open>draft_binding\<close>) and its first provider,
  the chat store (\<open>packages/views/chat/components/chat-input.tsx\<close>).
\<close>

record 's upload_binding =
  registryKey :: string
  getUploads :: "'s \<Rightarrow> js list"
  addUpload :: "js \<Rightarrow> 's \<Rightarrow> 's"
  settleUpload :: "string \<Rightarrow> js \<Rightarrow> 's \<Rightarrow> 's"
  failUpload :: "string \<Rightarrow> js \<Rightarrow> 's \<Rightarrow> 's"
  removeUpload :: "string \<Rightarrow> 's \<Rightarrow> 's"
  getBody :: "'s \<Rightarrow> js"
  appendToBody :: "string \<Rightarrow> 's \<Rightarrow> 's js_result"

section \<open>The contract\<close>

text \<open>
  What a draft is to the engine: a body and the uploads in the order they were added. A body of
  white space only counts as empty: a store may drop it.
\<close>

record draft_slot =
  slot_body :: string
  slot_uploads :: "js list"

definition newline :: string where
  "newline = [char_of (10 :: nat)]"

definition appendMarkdown :: "string \<Rightarrow> string \<Rightarrow> string" where
  "appendMarkdown existing markdown =
     (if trim existing \<noteq> [] then trim_end existing @ newline @ newline @ markdown else markdown)"

definition visible_body :: "string \<Rightarrow> string" where
  "visible_body b = (if trim b = [] then [] else b)"

definition has_upload :: "string \<Rightarrow> js list \<Rightarrow> bool" where
  "has_upload uid us \<longleftrightarrow> list_ex (\<lambda>u. clientUploadId u = JStr uid) us"

datatype draft_op =
    AddOp js
  | SettleOp string js
  | FailOp string js
  | RemoveOp string
  | AppendOp string

fun spec_uploads :: "draft_op \<Rightarrow> js list \<Rightarrow> js list" where
  "spec_uploads (AddOp u) us =
     (if list_ex (\<lambda>v. clientUploadId v = clientUploadId u) us then us else us @ [u])"
| "spec_uploads (SettleOp uid att) us = replace_upload uid (\<lambda>_. settled_upload uid att) us"
| "spec_uploads (FailOp uid e) us =
     (case find (\<lambda>u. clientUploadId u = JStr uid) us of
        None \<Rightarrow> us
      | Some target \<Rightarrow> replace_upload uid (\<lambda>_. failed_upload uid e target) us)"
| "spec_uploads (RemoveOp uid) us = filter (\<lambda>u. clientUploadId u \<noteq> JStr uid) us"
| "spec_uploads (AppendOp md) us = us"

fun spec_body :: "draft_op \<Rightarrow> string \<Rightarrow> string" where
  "spec_body (AppendOp md) b = visible_body (appendMarkdown b md)"
| "spec_body _ b = b"

definition spec_op :: "draft_op \<Rightarrow> draft_slot \<Rightarrow> draft_slot" where
  "spec_op a v = \<lparr>slot_body = spec_body a (slot_body v), slot_uploads = spec_uploads a (slot_uploads v)\<rparr>"

fun binding_op :: "'s upload_binding \<Rightarrow> draft_op \<Rightarrow> 's \<Rightarrow> 's js_result" where
  "binding_op b (AddOp u) s = Inr (addUpload b u s)"
| "binding_op b (SettleOp uid att) s = Inr (settleUpload b uid att s)"
| "binding_op b (FailOp uid e) s = Inr (failUpload b uid e s)"
| "binding_op b (RemoveOp uid) s = Inr (removeUpload b uid s)"
| "binding_op b (AppendOp md) s = appendToBody b md s"

fun binding_run :: "'s upload_binding \<Rightarrow> draft_op list \<Rightarrow> 's \<Rightarrow> 's js_result" where
  "binding_run b [] s = Inr s"
| "binding_run b (a # as) s = (case binding_op b a s of Inl e \<Rightarrow> Inl e | Inr s' \<Rightarrow> binding_run b as s')"

definition body_text :: "js \<Rightarrow> string" where
  "body_text v = (case v of JStr t \<Rightarrow> t | _ \<Rightarrow> [])"

definition slot_of :: "'s upload_binding \<Rightarrow> 's \<Rightarrow> draft_slot" where
  "slot_of b s = \<lparr>slot_body = visible_body (body_text (getBody b s)), slot_uploads = getUploads b s\<rparr>"

lemma trim_nothing [simp]: "trim [] = []"
  by (simp add: trim_def trim_end_def trim_start_def)

lemma trim_blank: "trim s = [] \<Longrightarrow> c \<in> set s \<Longrightarrow> is_ws c"
proof (rule ccontr)
  assume "trim s = []" and c: "c \<in> set s" "\<not> is_ws c"
  then have "\<forall>x \<in> set (dropWhile is_ws s). is_ws x"
    by (simp add: trim_def trim_end_def trim_start_def)
  then have "dropWhile is_ws s = []"
    by (metis hd_dropWhile hd_in_set)
  with c show False by simp
qed

lemma visible_idem [simp]: "visible_body (visible_body t) = visible_body t"
  by (simp add: visible_body_def)

lemma append_visible [simp]: "appendMarkdown (visible_body t) md = appendMarkdown t md"
  by (simp add: appendMarkdown_def visible_body_def)

lemma append_has: "includes_text (appendMarkdown t md) md"
proof -
  have "includes_text ((trim_end t @ newline @ newline) @ md @ []) md" by (rule includes_middle)
  moreover have "includes_text ([] @ md @ []) md" by (rule includes_middle)
  ultimately show ?thesis by (simp add: appendMarkdown_def)
qed

lemma spec_settle_other: "\<not> has_upload uid us \<Longrightarrow> spec_uploads (SettleOp uid att) us = us"
  by (auto simp: has_upload_def replace_upload_def list_ex_iff intro!: map_idI)

lemma spec_remove_absent:
  "\<not> list_ex (\<lambda>u. clientUploadId u = JStr uid) us \<Longrightarrow> filter (\<lambda>u. clientUploadId u \<noteq> JStr uid) us = us"
  by (auto simp: list_ex_iff filter_id_conv)

lemma has_upload_settle [simp]:
  "has_upload i (spec_uploads (SettleOp uid att) us) = has_upload i us"
  by (induction us) (auto simp: has_upload_def replace_upload_def)

lemma has_upload_remove [simp]:
  "has_upload i (spec_uploads (RemoveOp uid) us) \<longleftrightarrow> i \<noteq> uid \<and> has_upload i us"
  by (auto simp: has_upload_def list_ex_iff)

text \<open>
  The laws of a provider, for the states \<open>ok\<close> that it keeps: the body is a text, every operation
  refines that of the slot, and none throws.
\<close>

locale draft_binding =
  fixes b :: "'s upload_binding" and ok :: "'s \<Rightarrow> bool"
  assumes body_is_text: "ok s \<Longrightarrow> is_string (getBody b s)"
    and op_refines: "ok s \<Longrightarrow> \<exists>s'. binding_op b a s = Inr s' \<and> ok s' \<and> slot_of b s' = spec_op a (slot_of b s)"
begin

lemma run_refines:
  "ok s \<Longrightarrow> \<exists>s'. binding_run b as s = Inr s' \<and> ok s' \<and> slot_of b s' = fold spec_op as (slot_of b s)"
proof (induction as arbitrary: s)
  case (Cons a as)
  obtain s1 where s1: "binding_op b a s = Inr s1" "ok s1" "slot_of b s1 = spec_op a (slot_of b s)"
    using op_refines [OF Cons.prems] by blast
  with Cons.IH [of s1] show ?case by auto
qed simp

lemma op_uploads:
  assumes "ok s" and "binding_op b a s = Inr s'"
  shows "ok s'" and "getUploads b s' = spec_uploads a (getUploads b s)"
    and "visible_body (body_text (getBody b s')) = spec_body a (visible_body (body_text (getBody b s)))"
  using op_refines [OF assms(1), of a] assms(2) by (auto simp: slot_of_def spec_op_def)

lemmas settled = op_uploads [where a = "SettleOp uid att" for uid att, simplified]
  and removed = op_uploads [where a = "RemoveOp uid" for uid, simplified]
  and added = op_uploads [where a = "AddOp u" for u, simplified]

text \<open>Appending the markdown of an attachment makes the body refer to it.\<close>

lemma appended_refers:
  assumes "ok s" and "linkable att"
  obtains s' where "appendToBody b (attachmentMarkdown att) s = Inr s'" and "ok s'"
    and "getUploads b s' = getUploads b s"
    and "contentReferencesAttachment (getBody b s') att = Inr True"
proof -
  let ?md = "attachmentMarkdown att"
  obtain s' where s': "appendToBody b ?md s = Inr s'" "ok s'"
    using op_refines [OF assms(1), of "AppendOp ?md"] by auto
  note facts = op_uploads [OF assms(1), of "AppendOp ?md" s', simplified, OF s'(1)]
  obtain t where t: "getBody b s' = JStr t" using body_is_text [OF s'(2)] by (cases "getBody b s'") auto
  have vis: "visible_body t = visible_body (appendMarkdown (body_text (getBody b s)) ?md)"
    using facts(3) by (simp add: t body_text_def)
  have "includes_text (appendMarkdown (body_text (getBody b s)) ?md) ?md" by (rule append_has)
  moreover have "trim (appendMarkdown (body_text (getBody b s)) ?md) \<noteq> []"
  proof
    assume "trim (appendMarkdown (body_text (getBody b s)) ?md) = []"
    moreover have "CHR '']'' \<in> set (appendMarkdown (body_text (getBody b s)) ?md)"
      by (simp add: appendMarkdown_def attachmentMarkdown_def Let_def)
    ultimately have "is_ws (CHR '']'')" by (rule trim_blank)
    then show False by (simp add: is_ws_def)
  qed
  ultimately have "includes_text t ?md"
    using vis by (simp add: visible_body_def split: if_splits)
  with markdown_is_reference [OF assms(2)] have "contentReferencesAttachment (getBody b s') att = Inr True"
    by (simp add: t)
  with s' facts(2) that show thesis by simp
qed

end

section \<open>The chat store\<close>

text \<open>\<open>useChatStore.getState().inputDrafts[key] ?? ""\<close>\<close>

definition draft_body :: "chat_sys \<Rightarrow> string \<Rightarrow> js" where
  "draft_body s key =
     (case obj_get (inputDrafts (chat s)) key of
        None \<Rightarrow> JStr []
      | Some v \<Rightarrow> if v = JUndef \<or> v = JNull then JStr [] else v)"

definition makeUploadBinding :: "string \<Rightarrow> chat_sys upload_binding" where
  "makeUploadBinding key =
     \<lparr>registryKey = ''chat:'' @ key,
      getUploads = (\<lambda>s. uploads_of s key),
      addUpload = addInputDraftUpload key,
      settleUpload = settleInputDraftUpload key,
      failUpload = failInputDraftUpload key,
      removeUpload = removeInputDraftUpload key,
      getBody = (\<lambda>s. draft_body s key),
      appendToBody = appendToInputDraft key\<rparr>"

definition chat_body_ok :: "string \<Rightarrow> chat_sys \<Rightarrow> bool" where
  "chat_body_ok key s \<longleftrightarrow> is_string (draft_body s key)"

lemma body_set_uploads [simp]: "draft_body (set_uploads us s) key = draft_body s key"
  by (simp add: draft_body_def set_uploads_def)

lemma uploads_set_drafts [simp]: "uploads_of (set_drafts ds s) key = uploads_of s key"
  by (simp add: uploads_of_def set_drafts_def)

lemma body_set_drafts: "draft_body (set_drafts (obj_set (inputDrafts (chat s)) k (JStr t)) s) key =
    (if key = k then JStr t else draft_body s key)"
  by (simp add: draft_body_def set_drafts_def obj_simps)

lemma draft_text_body: "is_string (draft_body s key) \<Longrightarrow>
    draft_text (inputDrafts (chat s)) key = Inr (body_text (draft_body s key))"
  by (auto simp: draft_text_def draft_body_def body_text_def split: option.splits js.splits if_splits)

lemma chat_op:
  "\<exists>s'. binding_op (makeUploadBinding key) a s = Inr s' \<and> draft_body s' key = draft_body s key \<and>
     uploads_of s' key = spec_uploads a (uploads_of s key)"
  if "\<forall>md. a \<noteq> AppendOp md"
proof (cases a)
  case (AddOp u)
  then show ?thesis
    by (simp add: makeUploadBinding_def addInputDraftUpload_def uploads_of_set Let_def)
next
  case (SettleOp uid att)
  then show ?thesis
    using spec_settle_other [of uid "uploads_of s key" att]
    by (simp add: makeUploadBinding_def settleInputDraftUpload_def uploads_of_set Let_def has_upload_def)
next
  case (FailOp uid e)
  then show ?thesis
    by (simp add: makeUploadBinding_def failInputDraftUpload_def uploads_of_set Let_def split: option.splits)
next
  case (RemoveOp uid)
  then show ?thesis using spec_remove_absent [of uid]
    by (simp add: makeUploadBinding_def removeInputDraftUpload_def uploads_of_delete Let_def)
next
  case (AppendOp md)
  then show ?thesis using that by blast
qed

interpretation chat_binding: draft_binding "makeUploadBinding key" "chat_body_ok key" for key
proof (unfold_locales, goal_cases)
  case (1 s)
  then show ?case by (simp add: chat_body_ok_def makeUploadBinding_def)
next
  case (2 s a)
  note ok = 2 [unfolded chat_body_ok_def]
  show ?case
  proof (cases "\<exists>md. a = AppendOp md")
    case True
    then obtain md where a: "a = AppendOp md" by blast
    show ?thesis
      using draft_text_body [OF ok] append_visible [of "body_text (draft_body s key)" md]
      by (simp add: a makeUploadBinding_def appendToInputDraft_def chat_body_ok_def body_set_drafts
          slot_of_def spec_op_def body_text_def appendMarkdown_def newline_def Let_def visible_body_def)
  next
    case False
    then obtain s' where s': "binding_op (makeUploadBinding key) a s = Inr s'"
      "draft_body s' key = draft_body s key" "uploads_of s' key = spec_uploads a (uploads_of s key)"
      using chat_op [of a key s] by blast
    have "spec_body a t = t" for t using False by (cases a) auto
    with s' ok show ?thesis
      by (simp add: slot_of_def spec_op_def chat_body_ok_def makeUploadBinding_def)
  qed
qed

end
