(* ===== verification/Comment_Drafts.thy ===== *)
theory Comment_Drafts
  imports Upload_Binding
begin

text \<open>
  The drafts of comments (\<open>packages/core/issues/stores/comment-draft-store.ts\<close>): a text and the
  uploads for every composer, kept for thirty days, and the binding that hands one of them to
  the upload engine (\<open>packages/views/issues/components/use-comment-uploads.ts\<close>). A stored draft
  has the same members as one in memory, except that its uploads are unchecked.
\<close>

record 'u comment_draft =
  draftContent :: string
  draftAttachments :: 'u
  draftUpdatedAt :: int

type_synonym comment_drafts = "js list comment_draft obj"

definition TTL_MS :: int where
  "TTL_MS = 30 * 24 * 60 * 60 * 1000"

definition isMeaningful :: "string \<Rightarrow> js list \<Rightarrow> bool" where
  "isMeaningful content uploads \<longleftrightarrow> trim content \<noteq> [] \<or> uploads \<noteq> []"

definition uploadsOf :: "comment_drafts \<Rightarrow> string \<Rightarrow> js list" where
  "uploadsOf drafts key =
     (case obj_get drafts key of None \<Rightarrow> [] | Some d \<Rightarrow> draftAttachments d)"

definition contentOf :: "comment_drafts \<Rightarrow> string \<Rightarrow> string" where
  "contentOf drafts key = (case obj_get drafts key of None \<Rightarrow> [] | Some d \<Rightarrow> draftContent d)"

text \<open>The uploads a writer passes on: the very array that the draft holds, or a new one.\<close>

datatype uploads_arg = SameArray | NewArray "js list"

definition writeDraft ::
  "int \<Rightarrow> comment_drafts \<Rightarrow> string \<Rightarrow> string \<Rightarrow> uploads_arg \<Rightarrow> comment_drafts" where
  "writeDraft now drafts key content arg =
     (let uploads = (case arg of SameArray \<Rightarrow> uploadsOf drafts key | NewArray us \<Rightarrow> us);
          entry = \<lparr>draftContent = content, draftAttachments = uploads, draftUpdatedAt = now\<rparr>
      in if \<not> isMeaningful content uploads then
           (if obj_get drafts key = None then drafts else obj_delete drafts key)
         else
           (case obj_get drafts key of
              None \<Rightarrow> obj_set drafts key entry
            | Some existing \<Rightarrow>
                if draftContent existing = content \<and> arg = SameArray then drafts
                else obj_set drafts key entry))"

section \<open>The actions\<close>

definition getDraft :: "string \<Rightarrow> comment_drafts \<Rightarrow> string option" where
  "getDraft key drafts = map_option draftContent (obj_get drafts key)"

definition getAttachments :: "string \<Rightarrow> comment_drafts \<Rightarrow> js list" where
  "getAttachments key drafts = uploadedAttachments (uploadsOf drafts key)"

definition setDraft :: "int \<Rightarrow> string \<Rightarrow> string \<Rightarrow> comment_drafts \<Rightarrow> comment_drafts" where
  "setDraft now key content drafts = writeDraft now drafts key content SameArray"

definition appendToDraftContent :: "int \<Rightarrow> string \<Rightarrow> string \<Rightarrow> comment_drafts \<Rightarrow> comment_drafts" where
  "appendToDraftContent now key markdown drafts =
     (let existing = contentOf drafts key;
          content = (if trim existing \<noteq> [] then trim_end existing @ newline @ newline @ markdown
                     else markdown)
      in writeDraft now drafts key content SameArray)"

definition setAttachments :: "int \<Rightarrow> string \<Rightarrow> js list \<Rightarrow> comment_drafts \<Rightarrow> comment_drafts" where
  "setAttachments now key attachments drafts =
     writeDraft now drafts key (contentOf drafts key) (NewArray (map attachmentToDraftUpload attachments))"

definition addCommentUpload :: "int \<Rightarrow> string \<Rightarrow> js \<Rightarrow> comment_drafts \<Rightarrow> comment_drafts" where
  "addCommentUpload now key upload drafts =
     (let current = uploadsOf drafts key in
      if list_ex (\<lambda>u. clientUploadId u = clientUploadId upload) current then drafts
      else writeDraft now drafts key (contentOf drafts key) (NewArray (current @ [upload])))"

definition settleCommentUpload :: "int \<Rightarrow> string \<Rightarrow> string \<Rightarrow> js \<Rightarrow> comment_drafts \<Rightarrow> comment_drafts" where
  "settleCommentUpload now key uid attachment drafts =
     (let current = uploadsOf drafts key in
      if \<not> list_ex (\<lambda>u. clientUploadId u = JStr uid) current then drafts
      else writeDraft now drafts key (contentOf drafts key)
             (NewArray (map (\<lambda>u. if clientUploadId u = JStr uid then settled_upload uid attachment else u)
                current)))"

definition failCommentUpload :: "int \<Rightarrow> string \<Rightarrow> string \<Rightarrow> js \<Rightarrow> comment_drafts \<Rightarrow> comment_drafts" where
  "failCommentUpload now key uid error drafts =
     (let current = uploadsOf drafts key in
      case find (\<lambda>u. clientUploadId u = JStr uid) current of
        None \<Rightarrow> drafts
      | Some target \<Rightarrow>
          writeDraft now drafts key (contentOf drafts key)
            (NewArray (map (\<lambda>u. if clientUploadId u = JStr uid then failed_upload uid error target else u)
               current)))"

definition removeCommentUpload :: "int \<Rightarrow> string \<Rightarrow> string \<Rightarrow> comment_drafts \<Rightarrow> comment_drafts" where
  "removeCommentUpload now key uid drafts =
     (let current = uploadsOf drafts key in
      if \<not> list_ex (\<lambda>u. clientUploadId u = JStr uid) current then drafts
      else writeDraft now drafts key (contentOf drafts key)
             (NewArray (filter (\<lambda>u. clientUploadId u \<noteq> JStr uid) current)))"

definition clearDraft :: "string \<Rightarrow> comment_drafts \<Rightarrow> comment_drafts" where
  "clearDraft key drafts =
     (if obj_get drafts key = None then drafts else obj_delete drafts key)"

text \<open>\<open>onRehydrateStorage\<close>: the drafts that are too old or carry nothing are dropped.\<close>

definition pruneStaleDrafts :: "int \<Rightarrow> js comment_draft obj \<Rightarrow> comment_drafts" where
  "pruneStaleDrafts now drafts =
     (let cutoff = now - TTL_MS in
      foldl (\<lambda>out (k, v).
          let uploads = normalizeStoredUploads (draftAttachments v) in
          if draftUpdatedAt v \<ge> cutoff \<and> isMeaningful (draftContent v) uploads
          then obj_set out k \<lparr>draftContent = draftContent v, draftAttachments = uploads,
                 draftUpdatedAt = draftUpdatedAt v\<rparr>
          else out) [] (obj_entries drafts))"

text \<open>What the storage gives back of the drafts it was given.\<close>

definition stored_drafts :: "comment_drafts \<Rightarrow> js comment_draft obj" where
  "stored_drafts drafts =
     map (\<lambda>(k, d). (k, \<lparr>draftContent = draftContent d,
       draftAttachments = json_value (JArr (draftAttachments d)), draftUpdatedAt = draftUpdatedAt d\<rparr>)) drafts"

definition comment_reset :: "comment_drafts \<Rightarrow> comment_drafts" where
  "comment_reset drafts = []"

text \<open>The binding of one composer, with the clock at the call as an argument.\<close>

definition commentBinding :: "int \<Rightarrow> string \<Rightarrow> comment_drafts upload_binding" where
  "commentBinding now draftKey =
     \<lparr>registryKey = ''comment:'' @ draftKey,
      getUploads = (\<lambda>s. uploadsOf s draftKey),
      addUpload = addCommentUpload now draftKey,
      settleUpload = settleCommentUpload now draftKey,
      failUpload = failCommentUpload now draftKey,
      removeUpload = removeCommentUpload now draftKey,
      getBody = (\<lambda>s. JStr (default_to [] (getDraft draftKey s))),
      appendToBody = (\<lambda>md s. Inr (appendToDraftContent now draftKey md s))\<rparr>"

section \<open>Every draft carries something\<close>

definition drafts_ok :: "comment_drafts \<Rightarrow> bool" where
  "drafts_ok drafts \<longleftrightarrow> obj_wf drafts \<and>
     list_all (\<lambda>(k, d). isMeaningful (draftContent d) (draftAttachments d)) drafts"

lemma drafts_ok_Nil [simp]: "drafts_ok []"
  by (simp add: drafts_ok_def)

lemma drafts_ok_set: "drafts_ok drafts \<Longrightarrow> isMeaningful (draftContent d) (draftAttachments d) \<Longrightarrow>
    drafts_ok (obj_set drafts k d)"
  by (auto simp: drafts_ok_def list_all_iff set_obj_set)

lemma drafts_ok_delete: "drafts_ok drafts \<Longrightarrow> drafts_ok (obj_delete drafts k)"
proof -
  assume ok: "drafts_ok drafts"
  have "set (obj_delete drafts k) \<subseteq> set drafts" by (auto simp: AList.delete_eq)
  with ok show ?thesis unfolding drafts_ok_def list_all_iff by (meson obj_wf_delete subsetD)
qed

lemma drafts_ok_write: "drafts_ok drafts \<Longrightarrow> drafts_ok (writeDraft now drafts key content arg)"
  by (auto simp: writeDraft_def Let_def drafts_ok_set drafts_ok_delete split: option.splits)

lemma content_default: "default_to [] (getDraft key drafts) = contentOf drafts key"
  by (simp add: getDraft_def contentOf_def default_to_def split: option.splits)

text \<open>A write leaves what was asked for, up to white space.\<close>

lemma write_content: "visible_body (contentOf (writeDraft now drafts key content arg) key) = visible_body content"
  by (auto simp: writeDraft_def contentOf_def isMeaningful_def visible_body_def obj_simps Let_def
      split: option.splits)

lemma write_uploads: "uploadsOf (writeDraft now drafts key content arg) key =
    (case arg of SameArray \<Rightarrow> uploadsOf drafts key | NewArray us \<Rightarrow> us)"
  by (auto simp: writeDraft_def uploadsOf_def isMeaningful_def obj_simps Let_def
      split: option.splits uploads_arg.splits)

lemma write_other: "k \<noteq> key \<Longrightarrow> obj_get (writeDraft now drafts key content arg) k = obj_get drafts k"
  by (auto simp: writeDraft_def obj_simps Let_def split: option.splits)

lemmas comment_ops = addCommentUpload_def settleCommentUpload_def failCommentUpload_def
  removeCommentUpload_def appendToDraftContent_def

lemma comment_op:
  assumes "\<forall>md. a \<noteq> AppendOp md" and "drafts_ok s"
  shows "\<exists>s'. binding_op (commentBinding now key) a s = Inr s' \<and> drafts_ok s' \<and>
    visible_body (contentOf s' key) = visible_body (contentOf s key) \<and>
    uploadsOf s' key = spec_uploads a (uploadsOf s key)"
proof (cases a)
  case (AddOp u)
  then show ?thesis using assms(2)
    by (simp add: commentBinding_def comment_ops write_content write_uploads drafts_ok_write Let_def)
next
  case (SettleOp uid att)
  then show ?thesis
    using assms(2) spec_settle_other [of uid "uploadsOf s key" att]
    by (simp add: commentBinding_def comment_ops write_content write_uploads drafts_ok_write Let_def
        has_upload_def replace_upload_def)
next
  case (FailOp uid e)
  then show ?thesis using assms(2)
    by (simp add: commentBinding_def comment_ops write_content write_uploads drafts_ok_write Let_def
        replace_upload_def split: option.splits)
next
  case (RemoveOp uid)
  then show ?thesis using spec_remove_absent [of uid] assms(2)
    by (simp add: commentBinding_def comment_ops write_content write_uploads drafts_ok_write Let_def)
qed (use assms(1) in blast)

interpretation comment_binding: draft_binding "commentBinding now key" drafts_ok for now key
proof (unfold_locales, goal_cases)
  case (1 s)
  then show ?case by (simp add: commentBinding_def)
next
  case (2 s a)
  show ?case
  proof (cases "\<exists>md. a = AppendOp md")
    case True
    then obtain md where a: "a = AppendOp md" by blast
    show ?thesis
      using 2 append_visible [of "contentOf s key" md]
      by (simp add: a commentBinding_def comment_ops content_default slot_of_def spec_op_def body_text_def
          write_content write_uploads drafts_ok_write appendMarkdown_def Let_def)
  next
    case False
    then obtain s' where s': "binding_op (commentBinding now key) a s = Inr s'" "drafts_ok s'"
      "visible_body (contentOf s' key) = visible_body (contentOf s key)"
      "uploadsOf s' key = spec_uploads a (uploadsOf s key)"
      using comment_op [of a s now key] 2 by blast
    have "spec_body a t = t" for t using False by (cases a) auto
    with s' show ?thesis
      by (simp add: slot_of_def spec_op_def commentBinding_def content_default body_text_def)
  qed
qed

end
