(* ===== verification/Issue_Draft.thy ===== *)
theory Issue_Draft
  imports Upload_Binding
begin

text \<open>
  The draft of the create-issue dialog (\<open>packages/core/issues/stores/draft-store.ts\<close>): what both
  forms share, the fields of the manual form and those of the agent form, and the binding of one
  form's body with the shared uploads (\<open>packages/views/modals/use-issue-create-uploads.ts\<close>). The
  three parts come back from the storage unchecked, so they are objects whose members are read;
  a part that is stored is an object, \<open>null\<close> or absent.
\<close>

record issue_draft =
  shared :: "js obj"
  manual :: "js obj"
  agent :: "js obj"
  activeMode :: string

record issue_draft_store =
  draft :: issue_draft
  lastAssigneeType :: js
  lastAssigneeId :: js

definition emptyShared :: "js obj" where
  "emptyShared = [(''projectId'', JUndef), (''priority'', JStr ''none''), (''dueDate'', JNull),
     (''attachments'', JArr [])]"

definition emptyManual :: "js obj" where
  "emptyManual = [(''title'', JStr []), (''description'', JStr []), (''status'', JStr ''todo''),
     (''startDate'', JNull), (''assigneeType'', JUndef), (''assigneeId'', JUndef),
     (''labelIds'', JArr []), (''propertyValues'', JObj [])]"

definition emptyAgent :: "js obj" where
  "emptyAgent = [(''prompt'', JStr []), (''actorType'', JUndef), (''actorId'', JUndef)]"

text \<open>\<open>a ?? b\<close>\<close>

definition nullish :: "js \<Rightarrow> js \<Rightarrow> js" where
  "nullish a b = (if a = JUndef \<or> a = JNull then b else a)"

section \<open>Drafts of older builds\<close>

definition isLegacyFlatDraft :: "js obj \<Rightarrow> bool" where
  "isLegacyFlatDraft d \<longleftrightarrow>
     obj_get d ''manual'' = None \<and> obj_get d ''shared'' = None \<and>
     (obj_get d ''title'' \<noteq> None \<or> obj_get d ''status'' \<noteq> None \<or> obj_get d ''labelIds'' \<noteq> None \<or>
      obj_get d ''description'' \<noteq> None)"

definition migrateDraft :: "js \<Rightarrow> issue_draft" where
  "migrateDraft raw =
     (let d = (if js_truthy raw \<and> is_object raw then members raw else []);
          get = get_prop (JObj d) in
      if isLegacyFlatDraft d then
        \<lparr>shared = obj_spread emptyShared
           [(''projectId'', get ''projectId''), (''priority'', nullish (get ''priority'') (JStr ''none'')),
            (''dueDate'', nullish (get ''dueDate'') JNull),
            (''attachments'', JArr (normalizeStoredUploads (get ''attachments'')))],
         manual = obj_spread emptyManual
           [(''title'', nullish (get ''title'') (JStr [])),
            (''description'', nullish (get ''description'') (JStr [])),
            (''status'', nullish (get ''status'') (JStr ''todo'')),
            (''startDate'', nullish (get ''startDate'') JNull),
            (''assigneeType'', get ''assigneeType''), (''assigneeId'', get ''assigneeId''),
            (''labelIds'', if is_array (get ''labelIds'') then get ''labelIds'' else JArr []),
            (''propertyValues'',
               if js_truthy (get ''propertyValues'') \<and> is_object (get ''propertyValues'')
               then get ''propertyValues'' else JObj [])],
         agent = emptyAgent, activeMode = ''manual''\<rparr>
      else
        (let sharedRaw = nullish (get ''shared'') (JObj []) in
         \<lparr>shared = obj_set (obj_spread emptyShared (members sharedRaw)) ''attachments''
            (JArr (normalizeStoredUploads (get_prop sharedRaw ''attachments''))),
          manual = obj_spread emptyManual (members (nullish (get ''manual'') (JObj []))),
          agent = obj_spread emptyAgent (members (nullish (get ''agent'') (JObj []))),
          activeMode = (if get ''activeMode'' = JStr ''agent'' then ''agent'' else ''manual'')\<rparr>))"

section \<open>The actions\<close>

definition initial_issue_store :: issue_draft_store where
  "initial_issue_store =
     \<lparr>draft = migrateDraft JUndef, lastAssigneeType = JUndef, lastAssigneeId = JUndef\<rparr>"

definition setShared :: "js obj \<Rightarrow> issue_draft_store \<Rightarrow> issue_draft_store" where
  "setShared patch s = s\<lparr>draft := (draft s)\<lparr>shared := obj_spread (shared (draft s)) patch\<rparr>\<rparr>"

definition setManual :: "js obj \<Rightarrow> issue_draft_store \<Rightarrow> issue_draft_store" where
  "setManual patch s = s\<lparr>draft := (draft s)\<lparr>manual := obj_spread (manual (draft s)) patch\<rparr>\<rparr>"

definition setAgent :: "js obj \<Rightarrow> issue_draft_store \<Rightarrow> issue_draft_store" where
  "setAgent patch s = s\<lparr>draft := (draft s)\<lparr>agent := obj_spread (agent (draft s)) patch\<rparr>\<rparr>"

definition setActiveMode :: "string \<Rightarrow> issue_draft_store \<Rightarrow> issue_draft_store" where
  "setActiveMode mode s = s\<lparr>draft := (draft s)\<lparr>activeMode := mode\<rparr>\<rparr>"

definition clearIssueDraft :: "issue_draft_store \<Rightarrow> issue_draft_store" where
  "clearIssueDraft s = s\<lparr>draft :=
     \<lparr>shared = emptyShared,
      manual = obj_spread emptyManual
        [(''assigneeType'', lastAssigneeType s), (''assigneeId'', lastAssigneeId s)],
      agent = emptyAgent, activeMode = activeMode (draft s)\<rparr>\<rparr>"

definition setLastAssignee :: "js \<Rightarrow> js \<Rightarrow> issue_draft_store \<Rightarrow> issue_draft_store" where
  "setLastAssignee type ident s = s\<lparr>lastAssigneeType := type, lastAssigneeId := ident\<rparr>"

definition issue_reset :: "issue_draft_store \<Rightarrow> issue_draft_store" where
  "issue_reset s = s\<lparr>draft := migrateDraft JUndef, lastAssigneeType := JUndef, lastAssigneeId := JUndef\<rparr>"

text \<open>\<open>Object.keys\<close> of \<open>null\<close> or \<open>undefined\<close>, and \<open>some\<close> of no array, throw.\<close>

definition has_members :: "js \<Rightarrow> bool js_result" where
  "has_members v = (if v = JUndef \<or> v = JNull then Inl TypeError else Inr (members v \<noteq> []))"

definition recoverable :: "js \<Rightarrow> bool" where
  "recoverable u \<longleftrightarrow> status_of u = JStr ''uploaded'' \<or> status_of u = JStr ''uploading''"

definition hasDraft :: "issue_draft_store \<Rightarrow> bool js_result" where
  "hasDraft s =
     (let m = get_prop (JObj (manual (draft s))); a = get_prop (JObj (agent (draft s))) in
      if js_truthy (m ''title'') \<or> js_truthy (m ''description'') \<or> js_truthy (a ''prompt'') then Inr True
      else
        (case has_members (m ''propertyValues'') of
           Inl e \<Rightarrow> Inl e
         | Inr True \<Rightarrow> Inr True
         | Inr False \<Rightarrow>
             (case get_prop (JObj (shared (draft s))) ''attachments'' of
                JArr us \<Rightarrow> Inr (list_ex recoverable us)
              | _ \<Rightarrow> Inl TypeError)))"

text \<open>The \<open>merge\<close> hook, called with the persisted state or, when there is none, \<open>undefined\<close>.\<close>

definition mergeIssueDraft :: "js \<Rightarrow> issue_draft_store \<Rightarrow> issue_draft_store" where
  "mergeIssueDraft persistedState currentState =
     (let persisted = members (nullish persistedState (JObj []));
          keep = (\<lambda>k old. case obj_get persisted k of Some v \<Rightarrow> v | None \<Rightarrow> old)
      in \<lparr>draft = migrateDraft (get_prop (JObj persisted) ''draft''),
          lastAssigneeType = keep ''lastAssigneeType'' (lastAssigneeType currentState),
          lastAssigneeId = keep ''lastAssigneeId'' (lastAssigneeId currentState)\<rparr>)"

text \<open>The state as the value that is stored.\<close>

definition draft_value :: "issue_draft \<Rightarrow> js" where
  "draft_value d = JObj [(''shared'', JObj (shared d)), (''manual'', JObj (manual d)),
     (''agent'', JObj (agent d)), (''activeMode'', JStr (activeMode d))]"

definition store_value :: "issue_draft_store \<Rightarrow> js" where
  "store_value s = JObj [(''draft'', draft_value (draft s)), (''lastAssigneeType'', lastAssigneeType s),
     (''lastAssigneeId'', lastAssigneeId s)]"

section \<open>The binding of a form\<close>

definition sharedUploads :: "issue_draft_store \<Rightarrow> js list" where
  "sharedUploads s =
     (case nullish (get_prop (JObj (shared (draft s))) ''attachments'') (JArr []) of
        JArr us \<Rightarrow> us | _ \<Rightarrow> [])"

definition setSharedUploads :: "js list \<Rightarrow> issue_draft_store \<Rightarrow> issue_draft_store" where
  "setSharedUploads us s = setShared [(''attachments'', JArr us)] s"

definition create_add :: "js \<Rightarrow> issue_draft_store \<Rightarrow> issue_draft_store" where
  "create_add u s =
     (let cur = sharedUploads s in
      if list_ex (\<lambda>x. clientUploadId x = clientUploadId u) cur then s
      else setSharedUploads (cur @ [u]) s)"

definition create_settle :: "string \<Rightarrow> js \<Rightarrow> issue_draft_store \<Rightarrow> issue_draft_store" where
  "create_settle uid att s =
     (let cur = sharedUploads s in
      if \<not> list_ex (\<lambda>u. clientUploadId u = JStr uid) cur then s
      else setSharedUploads
             (map (\<lambda>u. if clientUploadId u = JStr uid then settled_upload uid att else u) cur) s)"

definition create_fail :: "string \<Rightarrow> js \<Rightarrow> issue_draft_store \<Rightarrow> issue_draft_store" where
  "create_fail uid error s =
     (let cur = sharedUploads s in
      case find (\<lambda>u. clientUploadId u = JStr uid) cur of
        None \<Rightarrow> s
      | Some target \<Rightarrow> setSharedUploads
          (map (\<lambda>u. if clientUploadId u = JStr uid then failed_upload uid error target else u) cur) s)"

definition create_remove :: "string \<Rightarrow> issue_draft_store \<Rightarrow> issue_draft_store" where
  "create_remove uid s =
     (let cur = sharedUploads s in
      if \<not> list_ex (\<lambda>u. clientUploadId u = JStr uid) cur then s
      else setSharedUploads (filter (\<lambda>u. clientUploadId u \<noteq> JStr uid) cur) s)"

definition create_body :: "string \<Rightarrow> issue_draft_store \<Rightarrow> js" where
  "create_body mode s =
     (if mode = ''agent'' then get_prop (JObj (agent (draft s))) ''prompt''
      else get_prop (JObj (manual (draft s))) ''description'')"

definition create_append :: "string \<Rightarrow> string \<Rightarrow> issue_draft_store \<Rightarrow> issue_draft_store js_result" where
  "create_append mode md s =
     (case create_body mode s of
        JStr existing \<Rightarrow>
          Inr (if mode = ''agent'' then setAgent [(''prompt'', JStr (appendMarkdown existing md))] s
               else setManual [(''description'', JStr (appendMarkdown existing md))] s)
      | _ \<Rightarrow> Inl TypeError)"

definition issueCreateBinding :: "string \<Rightarrow> issue_draft_store upload_binding" where
  "issueCreateBinding mode =
     \<lparr>registryKey = ''issue-create:'' @ mode, getUploads = sharedUploads, addUpload = create_add,
      settleUpload = create_settle, failUpload = create_fail, removeUpload = create_remove,
      getBody = create_body mode, appendToBody = create_append mode\<rparr>"

definition create_body_ok :: "string \<Rightarrow> issue_draft_store \<Rightarrow> bool" where
  "create_body_ok mode s \<longleftrightarrow> is_string (create_body mode s)"

lemma spread_one [simp]: "obj_spread ob [(k, v)] = obj_set ob k v"
  by (simp add: obj_spread_def)

lemma uploads_setShared [simp]: "sharedUploads (setSharedUploads us s) = us"
  by (simp add: sharedUploads_def setSharedUploads_def setShared_def nullish_def obj_simps)

lemma body_setShared [simp]: "create_body mode (setSharedUploads us s) = create_body mode s"
  by (simp add: create_body_def setSharedUploads_def setShared_def)

lemma create_op:
  assumes "\<forall>md. a \<noteq> AppendOp md"
  shows "\<exists>s'. binding_op (issueCreateBinding mode) a s = Inr s' \<and> create_body mode s' = create_body mode s \<and>
    sharedUploads s' = spec_uploads a (sharedUploads s)"
proof (cases a)
  case (AddOp u)
  then show ?thesis by (simp add: issueCreateBinding_def create_add_def Let_def)
next
  case (SettleOp uid att)
  then show ?thesis
    using spec_settle_other [of uid "sharedUploads s" att]
    by (simp add: issueCreateBinding_def create_settle_def Let_def has_upload_def replace_upload_def)
next
  case (FailOp uid e)
  then show ?thesis
    by (simp add: issueCreateBinding_def create_fail_def Let_def replace_upload_def split: option.splits)
next
  case (RemoveOp uid)
  then show ?thesis using spec_remove_absent [of uid] by (simp add: issueCreateBinding_def create_remove_def Let_def)
qed (use assms in blast)

lemma append_state:
  assumes "create_body mode s = JStr t"
  shows "\<exists>s'. create_append mode md s = Inr s' \<and> create_body mode s' = JStr (appendMarkdown t md) \<and>
    sharedUploads s' = sharedUploads s"
  using assms
  by (simp add: create_append_def create_body_def setAgent_def setManual_def sharedUploads_def obj_simps)

interpretation create_binding: draft_binding "issueCreateBinding mode" "create_body_ok mode" for mode
proof (unfold_locales, goal_cases)
  case (1 s)
  then show ?case by (simp add: create_body_ok_def issueCreateBinding_def)
next
  case (2 s a)
  show ?case
  proof (cases "\<exists>md. a = AppendOp md")
    case True
    then obtain md where a: "a = AppendOp md" by blast
    obtain t where t: "create_body mode s = JStr t" using 2 by (auto simp: create_body_ok_def elim: is_string.elims)
    from append_state [OF t, of md] obtain s' where "create_append mode md s = Inr s'"
      "create_body mode s' = JStr (appendMarkdown t md)" "sharedUploads s' = sharedUploads s" by blast
    then show ?thesis
      by (simp add: a issueCreateBinding_def create_body_ok_def slot_of_def spec_op_def body_text_def t)
  next
    case False
    then obtain s' where s': "binding_op (issueCreateBinding mode) a s = Inr s'"
      "create_body mode s' = create_body mode s" "sharedUploads s' = spec_uploads a (sharedUploads s)"
      using create_op [of a mode s] by blast
    have "spec_body a t = t" for t using False by (cases a) auto
    with s' 2 show ?thesis
      by (simp add: slot_of_def spec_op_def create_body_ok_def issueCreateBinding_def)
  qed
qed

end
