(* ===== verification/Upload_Engine.thy ===== *)
theory Upload_Engine
  imports Comment_Drafts Issue_Draft
begin

text \<open>
  The upload engine: the coordinator of the requests in flight
  (\<open>packages/core/drafts/upload-coordinator.ts\<close>), the placeholders in the documents of the editors
  (\<open>packages/views/editor/extensions/file-upload.ts\<close>, \<open>content-editor.tsx\<close>) and the composers
  that connect both with a draft (\<open>packages/views/editor/use-coordinated-uploads.ts\<close>).

  A draft is named by a target \<open>'k\<close>, and \<open>bind\<close> gives the binding of a target on the state \<open>'s\<close>
  of the draft stores. A document is the list of its upload nodes and, between them, text that
  only the editor library reads. A composer is a mount: it has a document once the editor
  instance was created and until it is destroyed. The server, the timers, React's effects and
  the user are the environment: each is an event.
\<close>

section \<open>Documents\<close>

record upload_attrs =
  nodeHref :: string
  nodeName :: string
  nodeSize :: js
  nodeUploading :: bool
  nodeUploadId :: "string option"

datatype doc_node = Other string | FileCard upload_attrs | Image upload_attrs

type_synonym document = "doc_node list"

fun node_attrs :: "doc_node \<Rightarrow> upload_attrs option" where
  "node_attrs (Other t) = None"
| "node_attrs (FileCard a) = Some a"
| "node_attrs (Image a) = Some a"

definition node_of_upload :: "string \<Rightarrow> doc_node \<Rightarrow> bool" where
  "node_of_upload uid n \<longleftrightarrow>
     (case node_attrs n of None \<Rightarrow> False | Some a \<Rightarrow> nodeUploadId a = Some uid)"

definition findUploadNode :: "document \<Rightarrow> string \<Rightarrow> nat option" where
  "findUploadNode doc uid = find_index (node_of_upload uid) doc"

definition removeUploadNode :: "document \<Rightarrow> string \<Rightarrow> document \<times> bool" where
  "removeUploadNode doc uid =
     (case findUploadNode doc uid of
        None \<Rightarrow> (doc, False)
      | Some i \<Rightarrow> (take i doc @ drop (Suc i) doc, True))"

definition result_href :: "js \<Rightarrow> string" where
  "result_href result =
     (if str_prop result ''markdownLink'' \<noteq> [] then str_prop result ''markdownLink''
      else str_prop result ''link'')"

fun settled_node :: "js \<Rightarrow> doc_node \<Rightarrow> doc_node" where
  "settled_node result (Image a) =
     Image (a\<lparr>nodeHref := result_href result, nodeName := str_prop result ''filename'',
              nodeUploading := False, nodeUploadId := None\<rparr>)"
| "settled_node result (FileCard a) =
     (if is_image_type result
      then Image \<lparr>nodeHref = result_href result, nodeName = str_prop result ''filename'',
                  nodeSize = JUndef, nodeUploading = False, nodeUploadId = None\<rparr>
      else FileCard (a\<lparr>nodeHref := result_href result, nodeUploading := False, nodeUploadId := None\<rparr>))"
| "settled_node result (Other t) = Other t"

definition settleUploadNode :: "document \<Rightarrow> string \<Rightarrow> js \<Rightarrow> document \<times> bool" where
  "settleUploadNode doc uid result =
     (case findUploadNode doc uid of
        None \<Rightarrow> (doc, False)
      | Some i \<Rightarrow> (doc[i := settled_node result (doc ! i)], True))"

definition placeholder_card :: "string \<Rightarrow> string \<Rightarrow> js \<Rightarrow> doc_node" where
  "placeholder_card uid filename sz =
     FileCard \<lparr>nodeHref = [], nodeName = filename, nodeSize = nullish sz (JNum 0),
               nodeUploading = True, nodeUploadId = Some uid\<rparr>"

definition insertUploadPlaceholder :: "document \<Rightarrow> string \<Rightarrow> string \<Rightarrow> js \<Rightarrow> document" where
  "insertUploadPlaceholder doc uid filename sz =
     (if findUploadNode doc uid \<noteq> None then doc else doc @ [placeholder_card uid filename sz])"

definition insertMarkdownAtEnd :: "document \<Rightarrow> string \<Rightarrow> document" where
  "insertMarkdownAtEnd doc markdown = doc @ [Other markdown]"

definition hasUploadingNode :: "document \<Rightarrow> bool" where
  "hasUploadingNode doc \<longleftrightarrow>
     list_ex (\<lambda>n. case node_attrs n of None \<Rightarrow> False | Some a \<Rightarrow> nodeUploading a) doc"

section \<open>The state\<close>

record upload_file =
  fileName :: string
  fileSize :: int
  fileType :: string
  pastedTextSource :: "string option"

record 'k mount =
  mountedRef :: bool
  editorDoc :: "document option"
  rebuiltUploadIds :: "string list"
  localUploads :: "js list"
  bindingKey :: "'k option"
  heldKey :: "'k option"
  liveRegistryKey :: "string option"

record 'k request =
  rqUpload :: string
  rqFile :: upload_file
  rqTarget :: "'k option"
  rqMount :: nat
  rqAborted :: bool
  rqFinished :: bool

record 'k delivery =
  dlTarget :: 'k
  dlUpload :: string
  dlAttachment :: js
  dlTries :: nat

record ('s, 'k) upload_world =
  appDrafts :: 's
  mounts :: "'k mount list"
  liveEditors :: "nat obj"
  controllers :: "nat obj"
  requests :: "'k request list"
  deliveries :: "'k delivery list"
  toasts :: "string list"

definition doc_of :: "('s, 'k) upload_world \<Rightarrow> nat \<Rightarrow> document option" where
  "doc_of w m = (if m < length (mounts w) then editorDoc (mounts w ! m) else None)"

definition is_mounted :: "('s, 'k) upload_world \<Rightarrow> nat \<Rightarrow> bool" where
  "is_mounted w m \<longleftrightarrow> m < length (mounts w) \<and> mountedRef (mounts w ! m)"

definition update_mount :: "nat \<Rightarrow> ('k mount \<Rightarrow> 'k mount) \<Rightarrow> ('s, 'k) upload_world \<Rightarrow> ('s, 'k) upload_world" where
  "update_mount m f w =
     (if m < length (mounts w) then w\<lparr>mounts := (mounts w)[m := f (mounts w ! m)]\<rparr> else w)"

text \<open>A change of the document of a mount, when it has one.\<close>

definition edit_doc :: "nat \<Rightarrow> (document \<Rightarrow> document) \<Rightarrow> ('s, 'k) upload_world \<Rightarrow> ('s, 'k) upload_world" where
  "edit_doc m f w = update_mount m (\<lambda>mt. mt\<lparr>editorDoc := map_option f (editorDoc mt)\<rparr>) w"

definition tracks :: "('k \<Rightarrow> 's upload_binding) \<Rightarrow> 'k \<Rightarrow> string \<Rightarrow> 's \<Rightarrow> bool" where
  "tracks bind k uid s \<longleftrightarrow> has_upload uid (getUploads (bind k) s)"

section \<open>The coordinator\<close>

definition startUpload :: "'k request \<Rightarrow> ('s, 'k) upload_world \<Rightarrow> ('s, 'k) upload_world" where
  "startUpload rq w =
     w\<lparr>controllers := obj_set (controllers w) (rqUpload rq) (length (requests w)),
       requests := requests w @ [rq]\<rparr>"

definition abort_request :: "nat \<Rightarrow> 'k request list \<Rightarrow> 'k request list" where
  "abort_request r rqs = (if r < length rqs then rqs[r := (rqs ! r)\<lparr>rqAborted := True\<rparr>] else rqs)"

definition abortUpload :: "string \<Rightarrow> ('s, 'k) upload_world \<Rightarrow> ('s, 'k) upload_world" where
  "abortUpload uid w =
     (case obj_get (controllers w) uid of
        None \<Rightarrow> w
      | Some r \<Rightarrow> w\<lparr>controllers := obj_delete (controllers w) uid,
                    requests := abort_request r (requests w)\<rparr>)"

definition abortAll :: "('s, 'k) upload_world \<Rightarrow> ('s, 'k) upload_world" where
  "abortAll w =
     w\<lparr>requests := foldl (\<lambda>rqs r. abort_request r rqs) (requests w) (map snd (controllers w)),
       controllers := []\<rparr>"

text \<open>\<open>reset\<close> runs the \<open>resetInMemory\<close> of every registered store.\<close>

definition resetAllRegisteredDrafts :: "('s \<Rightarrow> 's) \<Rightarrow> ('s, 'k) upload_world \<Rightarrow> ('s, 'k) upload_world" where
  "resetAllRegisteredDrafts reset w = (abortAll w)\<lparr>appDrafts := reset (appDrafts w)\<rparr>"

section \<open>Delivering a finished upload\<close>

definition DELIVER_MAX_TRIES :: nat where
  "DELIVER_MAX_TRIES = 100"

text \<open>How a call ends: it returns, it throws, or it has armed the timer of the next try.\<close>

datatype 'w ending = Returned 'w | Threw 'w | Again 'w

definition append_body :: "('k \<Rightarrow> 's upload_binding) \<Rightarrow> 'k \<Rightarrow> string \<Rightarrow> ('s, 'k) upload_world \<Rightarrow>
    ('s, 'k) upload_world ending" where
  "append_body bind k markdown w =
     (case appendToBody (bind k) markdown (appDrafts w) of
        Inl e \<Rightarrow> Threw w
      | Inr s \<Rightarrow> Returned (w\<lparr>appDrafts := s\<rparr>))"

definition land_in_doc :: "string \<Rightarrow> js \<Rightarrow> document \<Rightarrow> document" where
  "land_in_doc uid attachment doc =
     (let (doc', landed) = settleUploadNode doc uid (toUploadResult attachment) in
      if landed then doc' else insertMarkdownAtEnd doc (attachmentMarkdown attachment))"

definition deliver_try :: "('k \<Rightarrow> 's upload_binding) \<Rightarrow> 'k \<Rightarrow> string \<Rightarrow> js \<Rightarrow> nat \<Rightarrow>
    ('s, 'k) upload_world \<Rightarrow> ('s, 'k) upload_world ending" where
  "deliver_try bind k uid attachment tries w =
     (if \<not> tracks bind k uid (appDrafts w) then Returned w
      else
        (case contentReferencesAttachment (getBody (bind k) (appDrafts w)) attachment of
           Inl e \<Rightarrow> Threw w
         | Inr True \<Rightarrow> Returned w
         | Inr False \<Rightarrow>
             (let md = attachmentMarkdown attachment in
              case obj_get (liveEditors w) (registryKey (bind k)) of
                None \<Rightarrow> append_body bind k md w
              | Some m \<Rightarrow>
                  if doc_of w m \<noteq> None then
                    append_body bind k md (edit_doc m (land_in_doc uid attachment) w)
                  else if tries \<ge> DELIVER_MAX_TRIES then append_body bind k md w
                  else Again w)))"

definition deliverFinishedUpload :: "('k \<Rightarrow> 's upload_binding) \<Rightarrow> 'k \<Rightarrow> string \<Rightarrow> js \<Rightarrow> nat \<Rightarrow>
    ('s, 'k) upload_world \<Rightarrow> ('s, 'k) upload_world ending" where
  "deliverFinishedUpload bind k uid attachment tries w =
     (case deliver_try bind k uid attachment tries w of
        Again w' \<Rightarrow> Returned (w'\<lparr>deliveries := deliveries w' @
          [\<lparr>dlTarget = k, dlUpload = uid, dlAttachment = attachment, dlTries = tries + 1\<rparr>]\<rparr>)
      | e \<Rightarrow> e)"

definition insert_text :: "nat \<Rightarrow> string \<Rightarrow> ('s, 'k) upload_world \<Rightarrow> ('s, 'k) upload_world" where
  "insert_text m markdown w = edit_doc m (\<lambda>doc. insertMarkdownAtEnd doc markdown) w"

definition deliverPastedTextBack :: "('k \<Rightarrow> 's upload_binding) \<Rightarrow> 'k option \<Rightarrow> nat \<Rightarrow> string \<Rightarrow>
    ('s, 'k) upload_world \<Rightarrow> ('s, 'k) upload_world ending" where
  "deliverPastedTextBack bind target m markdown w =
     (case target of
        None \<Rightarrow> Returned (insert_text m markdown w)
      | Some k \<Rightarrow>
          append_body bind k markdown
            (case obj_get (liveEditors w) (registryKey (bind k)) of
               None \<Rightarrow> w
             | Some l \<Rightarrow> insert_text l markdown w))"

fun world_of :: "'w ending \<Rightarrow> 'w" where
  "world_of (Returned w) = w"
| "world_of (Threw w) = w"
| "world_of (Again w) = w"

fun and_then :: "'w ending \<Rightarrow> ('w \<Rightarrow> 'w) \<Rightarrow> 'w ending" where
  "and_then (Returned w) f = Returned (f w)"
| "and_then e f = e"

section \<open>The outcome of a request\<close>

text \<open>
  \<open>onSettled\<close>, and after it \<open>resolve\<close>, which lets \<open>uploadAndInsertFile\<close> swap or remove the node
  of the editor that started the upload when that editor still exists.
\<close>

definition set_local :: "nat \<Rightarrow> (js list \<Rightarrow> js list) \<Rightarrow> ('s, 'k) upload_world \<Rightarrow> ('s, 'k) upload_world" where
  "set_local m f w =
     (if is_mounted w m then update_mount m (\<lambda>mt. mt\<lparr>localUploads := f (localUploads mt)\<rparr>) w else w)"

definition onUploaded :: "('k \<Rightarrow> 's upload_binding) \<Rightarrow> 'k request \<Rightarrow> js \<Rightarrow> ('s, 'k) upload_world \<Rightarrow>
    ('s, 'k) upload_world ending" where
  "onUploaded bind rq attachment w =
     and_then
       (case rqTarget rq of
          Some k \<Rightarrow>
            if tracks bind k (rqUpload rq) (appDrafts w) then
              (let w1 = w\<lparr>appDrafts := settleUpload (bind k) (rqUpload rq) attachment (appDrafts w)\<rparr> in
               if \<not> is_mounted w1 (rqMount rq)
               then deliverFinishedUpload bind k (rqUpload rq) attachment 0 w1
               else Returned w1)
            else Returned w
        | None \<Rightarrow>
            Returned (set_local (rqMount rq)
              (replace_upload (rqUpload rq) (\<lambda>_. settled_upload (rqUpload rq) attachment)) w))
       (edit_doc (rqMount rq) (\<lambda>doc. fst (settleUploadNode doc (rqUpload rq) (toUploadResult attachment))))"

definition paste_back :: "('k \<Rightarrow> 's upload_binding) \<Rightarrow> 'k option \<Rightarrow> nat \<Rightarrow> upload_file \<Rightarrow>
    ('s, 'k) upload_world \<Rightarrow> ('s, 'k) upload_world ending" where
  "paste_back bind target m f w =
     (case pastedTextSource f of
        None \<Rightarrow> Returned w
      | Some t \<Rightarrow> deliverPastedTextBack bind target m t w)"

definition onFailed :: "('k \<Rightarrow> 's upload_binding) \<Rightarrow> 'k request \<Rightarrow> ('s, 'k) upload_world \<Rightarrow>
    ('s, 'k) upload_world ending" where
  "onFailed bind rq w =
     and_then
       (case rqTarget rq of
          Some k \<Rightarrow>
            if tracks bind k (rqUpload rq) (appDrafts w) then
              paste_back bind (Some k) (rqMount rq) (rqFile rq)
                (w\<lparr>appDrafts := removeUpload (bind k) (rqUpload rq) (appDrafts w)\<rparr>)
            else Returned w
        | None \<Rightarrow>
            paste_back bind None (rqMount rq) (rqFile rq)
              (set_local (rqMount rq) (filter (\<lambda>u. clientUploadId u \<noteq> JStr (rqUpload rq))) w))
       (\<lambda>w1. edit_doc (rqMount rq) (\<lambda>doc. fst (removeUploadNode doc (rqUpload rq)))
          (w1\<lparr>toasts := toasts w1 @ [fileName (rqFile rq)]\<rparr>))"

text \<open>
  What the request came to: the attachment, or an error, which may be an \<open>AbortError\<close>. A handler
  that throws on the attachment ends in the same \<open>catch\<close> as a failed request.
\<close>

datatype response = Uploaded js | Rejected bool

definition settle_request :: "('k \<Rightarrow> 's upload_binding) \<Rightarrow> 'k request \<Rightarrow> response \<Rightarrow>
    ('s, 'k) upload_world \<Rightarrow> ('s, 'k) upload_world" where
  "settle_request bind rq resp w =
     (case resp of
        Uploaded attachment \<Rightarrow>
          (case onUploaded bind rq attachment w of
             Threw w1 \<Rightarrow> if rqAborted rq then w1 else world_of (onFailed bind rq w1)
           | e \<Rightarrow> world_of e)
      | Rejected abort_error \<Rightarrow>
          if rqAborted rq \<or> abort_error then w else world_of (onFailed bind rq w))"

definition finish_request :: "('k \<Rightarrow> 's upload_binding) \<Rightarrow> nat \<Rightarrow> response \<Rightarrow>
    ('s, 'k) upload_world \<Rightarrow> ('s, 'k) upload_world" where
  "finish_request bind r resp w =
     (if r < length (requests w) \<and> \<not> rqFinished (requests w ! r) then
        (let rq = requests w ! r;
             w1 = settle_request bind rq resp w;
             w2 = w1\<lparr>requests := (requests w1)[r := (requests w1 ! r)\<lparr>rqFinished := True\<rparr>]\<rparr>
         in if obj_get (controllers w2) (rqUpload rq) = Some r
            then w2\<lparr>controllers := obj_delete (controllers w2) (rqUpload rq)\<rparr> else w2)
      else w)"

section \<open>Picking a file\<close>

definition MAX_FILE_SIZE :: int where
  "MAX_FILE_SIZE = 100 * 1024 * 1024"

definition upload_placeholder :: "string \<Rightarrow> upload_file \<Rightarrow> js" where
  "upload_placeholder uid f = JObj
     [(''clientUploadId'', JStr uid), (''status'', JStr ''uploading''), (''filename'', JStr (fileName f)),
      (''size'', JNum (fileSize f)),
      (''contentType'', if fileType f \<noteq> [] then JStr (fileType f) else JUndef)]"

definition upload_target :: "'k mount \<Rightarrow> 'k option" where
  "upload_target mt =
     (case bindingKey mt of
        None \<Rightarrow> None
      | Some k \<Rightarrow> (case heldKey mt of None \<Rightarrow> Some k | Some h \<Rightarrow> Some h))"

text \<open>
  \<open>handleUpload\<close>; the flag tells that its promise is already resolved with \<open>null\<close> or rejected,
  and the caller then removes the node it drew.
\<close>

definition handleUpload :: "('k \<Rightarrow> 's upload_binding) \<Rightarrow> nat \<Rightarrow> upload_file \<Rightarrow> string option \<Rightarrow> string \<Rightarrow>
    ('s, 'k) upload_world \<Rightarrow> ('s, 'k) upload_world \<times> bool" where
  "handleUpload bind m f uploadId fresh w =
     (let uid = (case uploadId of None \<Rightarrow> fresh | Some i \<Rightarrow> i);
          w1 = (case uploadId of
                  None \<Rightarrow> w
                | Some i \<Rightarrow> update_mount m (\<lambda>mt. mt\<lparr>rebuiltUploadIds := i # rebuiltUploadIds mt\<rparr>) w);
          target = upload_target (mounts w1 ! m)
      in if fileSize f > MAX_FILE_SIZE then
           (world_of (and_then (paste_back bind target m f w1)
              (\<lambda>w2. w2\<lparr>toasts := toasts w2 @ [fileName f]\<rparr>)), True)
         else
           (let w2 = (case target of
                        Some k \<Rightarrow> w1\<lparr>appDrafts := addUpload (bind k) (upload_placeholder uid f) (appDrafts w1)\<rparr>
                      | None \<Rightarrow> set_local m (\<lambda>us. us @ [upload_placeholder uid f]) w1)
            in (startUpload \<lparr>rqUpload = uid, rqFile = f, rqTarget = target, rqMount = m,
                  rqAborted = False, rqFinished = False\<rparr> w2, False)))"

definition picked_node :: "upload_file \<Rightarrow> string \<Rightarrow> string \<Rightarrow> doc_node" where
  "picked_node f uid blobUrl =
     (if starts_with (fileType f) ''image/''
      then Image \<lparr>nodeHref = blobUrl, nodeName = fileName f, nodeSize = JUndef, nodeUploading = True,
             nodeUploadId = Some uid\<rparr>
      else placeholder_card uid (fileName f) (JNum (fileSize f)))"

text \<open>At the cursor or at the end, that is somewhere in the document.\<close>

definition uploadAndInsertFile :: "('k \<Rightarrow> 's upload_binding) \<Rightarrow> nat \<Rightarrow> upload_file \<Rightarrow> string \<Rightarrow> string \<Rightarrow> nat \<Rightarrow>
    ('s, 'k) upload_world \<Rightarrow> ('s, 'k) upload_world" where
  "uploadAndInsertFile bind m f uid blobUrl pos w =
     (if doc_of w m = None then w
      else
        (let w1 = edit_doc m (\<lambda>doc. take pos doc @ picked_node f uid blobUrl # drop pos doc) w;
             (w2, refused) = handleUpload bind m f (Some uid) uid w1
         in if refused then edit_doc m (\<lambda>doc. fst (removeUploadNode doc uid)) w2 else w2))"

section \<open>Composers\<close>

definition registry_of :: "('k \<Rightarrow> 's upload_binding) \<Rightarrow> 'k mount \<Rightarrow> string option" where
  "registry_of bind mt =
     (case bindingKey mt of
        None \<Rightarrow> None
      | Some k \<Rightarrow> (case liveRegistryKey mt of None \<Rightarrow> Some (registryKey (bind k)) | Some l \<Rightarrow> Some l))"

definition register_editor :: "('k \<Rightarrow> 's upload_binding) \<Rightarrow> nat \<Rightarrow> ('s, 'k) upload_world \<Rightarrow> ('s, 'k) upload_world" where
  "register_editor bind m w =
     (case registry_of bind (mounts w ! m) of
        None \<Rightarrow> w
      | Some key \<Rightarrow> w\<lparr>liveEditors := obj_set (liveEditors w) key m\<rparr>)"

definition unregister_editor :: "('k \<Rightarrow> 's upload_binding) \<Rightarrow> nat \<Rightarrow> ('s, 'k) upload_world \<Rightarrow> ('s, 'k) upload_world" where
  "unregister_editor bind m w =
     (case registry_of bind (mounts w ! m) of
        None \<Rightarrow> w
      | Some key \<Rightarrow>
          if obj_get (liveEditors w) key = Some m
          then w\<lparr>liveEditors := obj_delete (liveEditors w) key\<rparr> else w)"

definition open_composer :: "('k \<Rightarrow> 's upload_binding) \<Rightarrow> 'k option \<Rightarrow> 'k option \<Rightarrow> string option \<Rightarrow>
    ('s, 'k) upload_world \<Rightarrow> ('s, 'k) upload_world" where
  "open_composer bind k held live w =
     register_editor bind (length (mounts w))
       (w\<lparr>mounts := mounts w @ [\<lparr>mountedRef = True, editorDoc = None, rebuiltUploadIds = [],
          localUploads = [], bindingKey = k, heldKey = held, liveRegistryKey = live\<rparr>]\<rparr>)"

text \<open>The editor instance arrives with the text of the body: placeholders are never part of it.\<close>

definition create_editor :: "nat \<Rightarrow> string \<Rightarrow> ('s, 'k) upload_world \<Rightarrow> ('s, 'k) upload_world" where
  "create_editor m body w =
     (if is_mounted w m \<and> doc_of w m = None
      then update_mount m (\<lambda>mt. mt\<lparr>editorDoc := Some [Other body]\<rparr>) w else w)"

definition close_composer :: "('k \<Rightarrow> 's upload_binding) \<Rightarrow> nat \<Rightarrow> ('s, 'k) upload_world \<Rightarrow> ('s, 'k) upload_world" where
  "close_composer bind m w =
     (if is_mounted w m
      then unregister_editor bind m
             (update_mount m (\<lambda>mt. mt\<lparr>mountedRef := False, editorDoc := None\<rparr>) w)
      else w)"

text \<open>
  Another draft is selected or loaded: the effects of the hook run again with the new keys, and
  a document that is loaded is exchanged (\<open>adoptContent\<close>).
\<close>

definition switch_composer :: "('k \<Rightarrow> 's upload_binding) \<Rightarrow> nat \<Rightarrow> 'k option \<Rightarrow> 'k option \<Rightarrow> string option \<Rightarrow>
    string option \<Rightarrow> ('s, 'k) upload_world \<Rightarrow> ('s, 'k) upload_world" where
  "switch_composer bind m k held live adopted w =
     (if is_mounted w m
      then register_editor bind m
             (update_mount m (\<lambda>mt. mt\<lparr>bindingKey := k, heldKey := held, liveRegistryKey := live,
                editorDoc := (case adopted of None \<Rightarrow> editorDoc mt
                              | Some body \<Rightarrow> map_option (\<lambda>_. [Other body]) (editorDoc mt))\<rparr>)
               (unregister_editor bind m w))
      else w)"

definition composer_uploads :: "('k \<Rightarrow> 's upload_binding) \<Rightarrow> nat \<Rightarrow> ('s, 'k) upload_world \<Rightarrow> js list" where
  "composer_uploads bind m w =
     (case bindingKey (mounts w ! m) of
        None \<Rightarrow> localUploads (mounts w ! m)
      | Some k \<Rightarrow> getUploads (bind k) (appDrafts w))"

definition holds_target :: "('k \<Rightarrow> 's upload_binding) \<Rightarrow> 'k mount \<Rightarrow> bool" where
  "holds_target bind mt \<longleftrightarrow>
     (case bindingKey mt of
        None \<Rightarrow> True
      | Some k \<Rightarrow> registry_of bind mt = Some (registryKey (bind k)))"

definition rebuild_placeholders :: "('k \<Rightarrow> 's upload_binding) \<Rightarrow> nat \<Rightarrow> ('s, 'k) upload_world \<Rightarrow>
    ('s, 'k) upload_world" where
  "rebuild_placeholders bind m w =
     (if is_mounted w m \<and> holds_target bind (mounts w ! m) \<and> doc_of w m \<noteq> None then
        (let pending = filter (\<lambda>u. status_of u = JStr ''uploading'' \<and>
               str_prop u ''clientUploadId'' \<notin> set (rebuiltUploadIds (mounts w ! m)))
               (composer_uploads bind m w)
         in foldl (\<lambda>w' u. update_mount m (\<lambda>mt. mt\<lparr>rebuiltUploadIds :=
                 str_prop u ''clientUploadId'' # rebuiltUploadIds mt\<rparr>)
              (edit_doc m (\<lambda>doc. insertUploadPlaceholder doc (str_prop u ''clientUploadId'')
                 (str_prop u ''filename'') (get_prop u ''size'')) w')) w pending)
      else w)"

definition dismiss_upload :: "('k \<Rightarrow> 's upload_binding) \<Rightarrow> nat \<Rightarrow> string \<Rightarrow> ('s, 'k) upload_world \<Rightarrow>
    ('s, 'k) upload_world" where
  "dismiss_upload bind m uid w =
     (if is_mounted w m then
        (let tracked = composer_uploads bind m w;
             w1 = (if list_ex (\<lambda>u. clientUploadId u = JStr uid \<and> status_of u = JStr ''uploading'') tracked
                   then abortUpload uid w else w)
         in case bindingKey (mounts w ! m) of
              Some k \<Rightarrow> w1\<lparr>appDrafts := removeUpload (bind k) uid (appDrafts w1)\<rparr>
            | None \<Rightarrow> set_local m (filter (\<lambda>u. clientUploadId u \<noteq> JStr uid)) w1)
      else w)"

definition gate_blocked :: "('k \<Rightarrow> 's upload_binding) \<Rightarrow> nat \<Rightarrow> ('s, 'k) upload_world \<Rightarrow> bool" where
  "gate_blocked bind m w \<longleftrightarrow>
     (case doc_of w m of None \<Rightarrow> False | Some doc \<Rightarrow> hasUploadingNode doc) \<or>
     hasUploadingDraft (composer_uploads bind m w)"

section \<open>Events\<close>

datatype ('s, 'k) upload_event =
    OpenComposer "'k option" "'k option" "string option"
  | CreateEditor nat string
  | CloseComposer nat
  | SwitchComposer nat "'k option" "'k option" "string option" "string option"
  | RebuildPlaceholders nat
  | PickFile nat upload_file string string nat
  | FinishRequest nat response
  | DeliveryTimer nat
  | DismissUpload nat string
  | DeleteNode nat string
  | TypeText nat nat string
  | StoreAction "'s \<Rightarrow> 's"

definition run_delivery :: "('k \<Rightarrow> 's upload_binding) \<Rightarrow> nat \<Rightarrow> ('s, 'k) upload_world \<Rightarrow> ('s, 'k) upload_world" where
  "run_delivery bind i w =
     (if i < length (deliveries w) then
        (let d = deliveries w ! i in
         world_of (deliverFinishedUpload bind (dlTarget d) (dlUpload d) (dlAttachment d) (dlTries d)
           (w\<lparr>deliveries := take i (deliveries w) @ drop (Suc i) (deliveries w)\<rparr>)))
      else w)"

fun upload_step :: "('k \<Rightarrow> 's upload_binding) \<Rightarrow> ('s, 'k) upload_event \<Rightarrow> ('s, 'k) upload_world \<Rightarrow>
    ('s, 'k) upload_world" where
  "upload_step bind (OpenComposer k held live) w = open_composer bind k held live w"
| "upload_step bind (CreateEditor m body) w = create_editor m body w"
| "upload_step bind (CloseComposer m) w = close_composer bind m w"
| "upload_step bind (SwitchComposer m k held live adopted) w = switch_composer bind m k held live adopted w"
| "upload_step bind (RebuildPlaceholders m) w = rebuild_placeholders bind m w"
| "upload_step bind (PickFile m f uid blobUrl pos) w = uploadAndInsertFile bind m f uid blobUrl pos w"
| "upload_step bind (FinishRequest r resp) w = finish_request bind r resp w"
| "upload_step bind (DeliveryTimer i) w = run_delivery bind i w"
| "upload_step bind (DismissUpload m uid) w = dismiss_upload bind m uid w"
| "upload_step bind (DeleteNode m uid) w = edit_doc m (\<lambda>doc. fst (removeUploadNode doc uid)) w"
| "upload_step bind (TypeText m pos t) w = edit_doc m (\<lambda>doc. take pos doc @ Other t # drop pos doc) w"
| "upload_step bind (StoreAction f) w = w\<lparr>appDrafts := f (appDrafts w)\<rparr>"

definition upload_run :: "('k \<Rightarrow> 's upload_binding) \<Rightarrow> ('s, 'k) upload_event list \<Rightarrow> ('s, 'k) upload_world \<Rightarrow>
    ('s, 'k) upload_world" where
  "upload_run bind es w = foldl (\<lambda>w' e. upload_step bind e w') w es"

end
