(* ===== verification/Upload_Stores.thy ===== *)
theory Upload_Stores
  imports Upload_Engine
begin

text \<open>
  The upload engine over stores that keep the contract of a binding: uploads that no draft tracks
  stay out of the drafts, finished ones reach the body, and a placeholder that nobody owns stays
  in its document.
\<close>

text \<open>
  What the operations of the upload engine leave alone, and what they do to a document; then the
  engine over stores that keep the contract of a binding (locale \<open>upload_stores\<close>).
\<close>

named_theorems engine_simps \<open>the parts of the state an operation does not touch\<close>

section \<open>Documents\<close>

lemma find_node_Some:
  "findUploadNode doc uid = Some i \<Longrightarrow> i < length doc \<and> node_of_upload uid (doc ! i)"
  unfolding findUploadNode_def by (drule find_index_Some) simp

lemma node_ids: "node_of_upload uid n \<Longrightarrow> node_of_upload i n \<Longrightarrow> i = uid"
  by (auto simp: node_of_upload_def split: option.splits)

lemma keep_update:
  assumes "n \<in> set doc" and "node_of_upload uid n" and "findUploadNode doc i = Some j" and "i \<noteq> uid"
  shows "n \<in> set (doc[j := x])" and "n \<in> set (take j doc @ drop (Suc j) doc)"
proof -
  have j: "j < length doc" "node_of_upload i (doc ! j)" using find_node_Some [OF assms(3)] by simp_all
  then have ne: "n \<noteq> doc ! j" using node_ids [OF assms(2)] assms(4) by blast
  obtain a where a: "a < length doc" "doc ! a = n" using assms(1) by (auto simp: in_set_conv_nth)
  with ne have "a \<noteq> j" by blast
  with a show "n \<in> set (doc[j := x])" by (metis length_list_update nth_list_update_neq nth_mem)
  have "doc = take j doc @ doc ! j # drop (Suc j) doc" using j(1) by (simp add: id_take_nth_drop)
  with assms(1) ne show "n \<in> set (take j doc @ drop (Suc j) doc)"
    by (metis Un_iff set_ConsD set_append)
qed

lemma keep_settle:
  "n \<in> set doc \<Longrightarrow> node_of_upload uid n \<Longrightarrow> i \<noteq> uid \<Longrightarrow> n \<in> set (fst (settleUploadNode doc i result))"
  by (auto simp: settleUploadNode_def keep_update split: option.splits)

lemma keep_remove:
  "n \<in> set doc \<Longrightarrow> node_of_upload uid n \<Longrightarrow> i \<noteq> uid \<Longrightarrow> n \<in> set (fst (removeUploadNode doc i))"
  using keep_update(2) by (auto simp: removeUploadNode_def split: option.splits)

lemma keep_land:
  "n \<in> set doc \<Longrightarrow> node_of_upload uid n \<Longrightarrow> i \<noteq> uid \<Longrightarrow> n \<in> set (land_in_doc i att doc)"
  by (drule (2) keep_settle [of n doc uid i "toUploadResult att"])
    (cases "settleUploadNode doc i (toUploadResult att)",
      simp add: land_in_doc_def insertMarkdownAtEnd_def settleUploadNode_def split: option.splits)

lemma keep_insert: "n \<in> set doc \<Longrightarrow> n \<in> set (take pos doc @ x # drop pos doc)"
proof -
  assume "n \<in> set doc"
  moreover have "set doc = set (take pos doc) \<union> set (drop pos doc)"
    by (metis append_take_drop_id set_append)
  ultimately show ?thesis by auto
qed

text \<open>A node that is settled in its place no longer waits for anything.\<close>

lemma settled_idle: "node_attrs n = Some a \<Longrightarrow> node_attrs (settled_node result n) = Some b \<Longrightarrow>
    \<not> nodeUploading b \<and> nodeUploadId b = None"
  by (cases n) (auto split: if_splits)

section \<open>What stays\<close>

lemma update_mount_parts [engine_simps]:
  "appDrafts (update_mount m f w) = appDrafts w" "requests (update_mount m f w) = requests w"
  "controllers (update_mount m f w) = controllers w" "deliveries (update_mount m f w) = deliveries w"
  "liveEditors (update_mount m f w) = liveEditors w" "length (mounts (update_mount m f w)) = length (mounts w)"
  by (simp_all add: update_mount_def)

lemma edit_doc_parts [engine_simps]:
  "appDrafts (edit_doc m f w) = appDrafts w" "requests (edit_doc m f w) = requests w"
  "controllers (edit_doc m f w) = controllers w" "deliveries (edit_doc m f w) = deliveries w"
  "liveEditors (edit_doc m f w) = liveEditors w" "length (mounts (edit_doc m f w)) = length (mounts w)"
  by (simp_all add: edit_doc_def engine_simps)

lemma set_local_parts [engine_simps]:
  "appDrafts (set_local m f w) = appDrafts w" "requests (set_local m f w) = requests w"
  "controllers (set_local m f w) = controllers w" "deliveries (set_local m f w) = deliveries w"
  by (simp_all add: set_local_def engine_simps)

lemma doc_update: "doc_of (update_mount m f w) j =
    (if j = m \<and> m < length (mounts w) then editorDoc (f (mounts w ! m)) else doc_of w j)"
  by (auto simp: doc_of_def update_mount_def nth_list_update)

lemma doc_read: "m < length (mounts w) \<Longrightarrow> doc_of w m = editorDoc (mounts w ! m)"
    "\<not> m < length (mounts w) \<Longrightarrow> doc_of w m = None"
  by (simp_all add: doc_of_def)

lemma doc_edit [engine_simps]: "doc_of (edit_doc m f w) j = (if j = m then map_option f (doc_of w m) else doc_of w j)"
  using doc_read [of m w] by (simp add: edit_doc_def doc_update)

lemma doc_set_local [engine_simps]: "doc_of (set_local m f w) j = doc_of w j"
  using doc_read [of m w] by (simp add: set_local_def doc_update)

lemma doc_of_cong [engine_simps]:
  "doc_of (w\<lparr>appDrafts := s\<rparr>) m = doc_of w m" "doc_of (w\<lparr>toasts := ts\<rparr>) m = doc_of w m"
  "doc_of (w\<lparr>deliveries := ds\<rparr>) m = doc_of w m" "doc_of (w\<lparr>controllers := cs\<rparr>) m = doc_of w m"
  "doc_of (w\<lparr>requests := rs\<rparr>) m = doc_of w m" "doc_of (w\<lparr>liveEditors := ls\<rparr>) m = doc_of w m"
  by (simp_all add: doc_of_def)

lemma mounted_cong [engine_simps]:
  "is_mounted (w\<lparr>appDrafts := s\<rparr>) m = is_mounted w m"
  by (simp add: is_mounted_def)

lemma append_body_parts [engine_simps]:
  "requests (world_of (append_body bind k md w)) = requests w"
  "controllers (world_of (append_body bind k md w)) = controllers w"
  "deliveries (world_of (append_body bind k md w)) = deliveries w"
  "doc_of (world_of (append_body bind k md w)) m = doc_of w m"
  by (simp_all add: append_body_def engine_simps split: sum.splits)

text \<open>What both parts of a call keep, the call keeps.\<close>

lemma and_then_keeps: "(\<And>w. g (f w) = g w) \<Longrightarrow> g (world_of (and_then e f)) = g (world_of e)"
  by (cases e) simp_all

lemma insert_text_parts [engine_simps]:
  "appDrafts (insert_text m t w) = appDrafts w" "requests (insert_text m t w) = requests w"
  "controllers (insert_text m t w) = controllers w" "deliveries (insert_text m t w) = deliveries w"
  by (simp_all add: insert_text_def engine_simps)

lemma pasted_parts [engine_simps]:
  "requests (world_of (deliverPastedTextBack bind target m t w)) = requests w"
  "controllers (world_of (deliverPastedTextBack bind target m t w)) = controllers w"
  "deliveries (world_of (deliverPastedTextBack bind target m t w)) = deliveries w"
  by (simp_all add: deliverPastedTextBack_def engine_simps split: option.splits)

lemma paste_back_parts [engine_simps]:
  "requests (world_of (paste_back bind target m f w)) = requests w"
  "controllers (world_of (paste_back bind target m f w)) = controllers w"
  "deliveries (world_of (paste_back bind target m f w)) = deliveries w"
  by (simp_all add: paste_back_def engine_simps split: option.splits)

lemma deliver_try_parts [engine_simps]:
  "requests (world_of (deliver_try bind k uid att tries w)) = requests w"
  "controllers (world_of (deliver_try bind k uid att tries w)) = controllers w"
  "deliveries (world_of (deliver_try bind k uid att tries w)) = deliveries w"
  by (simp_all add: deliver_try_def engine_simps Let_def split: sum.splits option.splits bool.splits)

lemma deliver_world: "world_of (deliverFinishedUpload bind k uid att tries w) =
    (let e = deliver_try bind k uid att tries w; w' = world_of e in
     if \<exists>v. e = Again v then w'\<lparr>deliveries := deliveries w' @
         [\<lparr>dlTarget = k, dlUpload = uid, dlAttachment = att, dlTries = tries + 1\<rparr>]\<rparr>
     else w')"
  by (auto simp: deliverFinishedUpload_def Let_def split: ending.splits)

lemma deliver_parts [engine_simps]:
  "requests (world_of (deliverFinishedUpload bind k uid att tries w)) = requests w"
  "controllers (world_of (deliverFinishedUpload bind k uid att tries w)) = controllers w"
  by (simp_all add: deliver_world engine_simps Let_def)

lemma deliver_queue:
  "set (deliveries (world_of (deliverFinishedUpload bind k uid att tries w))) \<subseteq>
     set (deliveries w) \<union> {\<lparr>dlTarget = k, dlUpload = uid, dlAttachment = att, dlTries = tries + 1\<rparr>}"
  by (auto simp: deliver_world engine_simps Let_def)

lemma onUploaded_parts [engine_simps]:
  "requests (world_of (onUploaded bind rq att w)) = requests w"
  "controllers (world_of (onUploaded bind rq att w)) = controllers w"
  unfolding onUploaded_def
  by (subst and_then_keeps, simp add: engine_simps, simp add: engine_simps Let_def split: option.splits)+

lemma onFailed_parts [engine_simps]:
  "requests (world_of (onFailed bind rq w)) = requests w"
  "controllers (world_of (onFailed bind rq w)) = controllers w"
  "deliveries (world_of (onFailed bind rq w)) = deliveries w"
  unfolding onFailed_def
  by (subst and_then_keeps, simp add: engine_simps, simp add: engine_simps Let_def split: option.splits)+

lemma settle_request_cases:
  "settle_request bind rq resp w = w \<or>
   settle_request bind rq resp w = world_of (onFailed bind rq w) \<or>
   (\<exists>att. resp = Uploaded att \<and>
      (settle_request bind rq resp w = world_of (onUploaded bind rq att w) \<or>
       settle_request bind rq resp w = world_of (onFailed bind rq (world_of (onUploaded bind rq att w)))))"
  by (cases resp) (auto simp: settle_request_def split: ending.splits)

lemma settle_request_parts [engine_simps]:
  "requests (settle_request bind rq resp w) = requests w"
  "controllers (settle_request bind rq resp w) = controllers w"
  using settle_request_cases [of bind rq resp w] by (auto simp: engine_simps)

definition untracked :: "('k \<Rightarrow> 's upload_binding) \<Rightarrow> string \<Rightarrow> 's \<Rightarrow> bool" where
  "untracked bind uid s \<longleftrightarrow> (\<forall>k. \<not> tracks bind k uid s)"

fun adds_upload :: "string \<Rightarrow> draft_op \<Rightarrow> bool" where
  "adds_upload uid (AddOp u) \<longleftrightarrow> clientUploadId u = JStr uid"
| "adds_upload uid _ \<longleftrightarrow> False"

lemma spec_adds: "has_upload uid (spec_uploads a us) \<Longrightarrow> adds_upload uid a \<or> has_upload uid us"
proof (cases a)
  case (FailOp i e)
  then show "has_upload uid (spec_uploads a us) \<Longrightarrow> adds_upload uid a \<or> has_upload uid us"
    by (auto simp: has_upload_def replace_upload_def list_ex_iff find_Some_iff split: option.splits)
qed (auto simp: has_upload_def list_ex_iff replace_upload_def split: if_splits)

text \<open>The events that do not bring an upload of these ids into a draft.\<close>

fun foreign_event :: "('k \<Rightarrow> 's upload_binding) \<Rightarrow> string set \<Rightarrow> ('s, 'k) upload_event \<Rightarrow> bool" where
  "foreign_event bind ids (PickFile m f uid blobUrl pos) \<longleftrightarrow> uid \<notin> ids"
| "foreign_event bind ids (StoreAction f) \<longleftrightarrow>
     (\<forall>uid \<in> ids. \<forall>s. untracked bind uid s \<longrightarrow> untracked bind uid (f s))"
| "foreign_event bind ids _ \<longleftrightarrow> True"

section \<open>Requests are never forgotten\<close>

definition same_uploads :: "('s, 'k) upload_world \<Rightarrow> ('s, 'k) upload_world \<Rightarrow> bool" where
  "same_uploads w w' \<longleftrightarrow>
     (\<exists>more. map rqUpload (requests w') = map rqUpload (requests w) @ more)"

lemma same_uploads_refl [simp]: "same_uploads w w"
  by (simp add: same_uploads_def)

lemma same_uploads_trans: "same_uploads w w' \<Longrightarrow> same_uploads w' w'' \<Longrightarrow> same_uploads w w''"
  by (auto simp: same_uploads_def)

lemma same_requests: "requests w' = requests w \<Longrightarrow> same_uploads w w'"
  by (simp add: same_uploads_def)

lemma abort_uploads [simp]: "map rqUpload (abort_request r rqs) = map rqUpload rqs"
  by (auto simp: abort_request_def map_update intro!: nth_equalityI simp: nth_list_update)

lemma register_parts [engine_simps]:
  "requests (register_editor bind m w) = requests w" "appDrafts (register_editor bind m w) = appDrafts w"
  "deliveries (register_editor bind m w) = deliveries w" "doc_of (register_editor bind m w) j = doc_of w j"
  by (simp_all add: register_editor_def engine_simps split: option.splits)

lemma unregister_parts [engine_simps]:
  "requests (unregister_editor bind m w) = requests w" "appDrafts (unregister_editor bind m w) = appDrafts w"
  "deliveries (unregister_editor bind m w) = deliveries w" "doc_of (unregister_editor bind m w) j = doc_of w j"
  "mounts (unregister_editor bind m w) = mounts w"
  by (simp_all add: unregister_editor_def engine_simps split: option.splits)

lemma rebuild_keeps:
  assumes "\<And>m f w. g (update_mount m f w) = g w" and "\<And>m f w. g (edit_doc m f w) = g w"
  shows "g (rebuild_placeholders bind m w) = g w"
proof -
  have "g (foldl (\<lambda>w' u. update_mount m (f u) (edit_doc m (h u) w')) w us) = g w" for f h and us :: "js list"
    by (induction us arbitrary: w) (simp_all add: assms)
  then show ?thesis by (simp add: rebuild_placeholders_def Let_def)
qed

lemma rebuild_parts [engine_simps]:
  "requests (rebuild_placeholders bind m w) = requests w" "appDrafts (rebuild_placeholders bind m w) = appDrafts w"
  "deliveries (rebuild_placeholders bind m w) = deliveries w"
  by (rule rebuild_keeps; simp add: engine_simps)+

lemma abort_parts [engine_simps]:
  "appDrafts (abortUpload uid w) = appDrafts w" "deliveries (abortUpload uid w) = deliveries w"
  "mounts (abortUpload uid w) = mounts w" "map rqUpload (requests (abortUpload uid w)) = map rqUpload (requests w)"
  by (simp_all add: abortUpload_def split: option.splits)

lemma finish_uploads: "map rqUpload (requests (finish_request bind r resp w)) = map rqUpload (requests w)"
  by (auto simp: finish_request_def Let_def engine_simps map_update nth_list_update
      intro!: nth_equalityI)

lemma handle_uploads:
  "\<exists>more. map rqUpload (requests (fst (handleUpload bind m f uploadId fresh w))) = map rqUpload (requests w) @ more"
  by (auto simp: handleUpload_def Let_def engine_simps startUpload_def and_then_keeps split: option.splits)

lemma open_uploads: "requests (open_composer bind k held live w) = requests w"
    "appDrafts (open_composer bind k held live w) = appDrafts w"
    "deliveries (open_composer bind k held live w) = deliveries w"
  by (simp_all add: open_composer_def engine_simps)

lemma create_uploads: "requests (create_editor m body w) = requests w"
    "appDrafts (create_editor m body w) = appDrafts w" "deliveries (create_editor m body w) = deliveries w"
  by (simp_all add: create_editor_def engine_simps)

lemma close_uploads: "requests (close_composer bind m w) = requests w"
    "appDrafts (close_composer bind m w) = appDrafts w" "deliveries (close_composer bind m w) = deliveries w"
  by (simp_all add: close_composer_def engine_simps)

lemma switch_uploads: "requests (switch_composer bind m k held live adopted w) = requests w"
    "appDrafts (switch_composer bind m k held live adopted w) = appDrafts w"
    "deliveries (switch_composer bind m k held live adopted w) = deliveries w"
  by (simp_all add: switch_composer_def engine_simps)

lemma dismiss_uploads:
  "map rqUpload (requests (dismiss_upload bind m uid w)) = map rqUpload (requests w)"
  "deliveries (dismiss_upload bind m uid w) = deliveries w"
  by (simp_all add: dismiss_upload_def engine_simps Let_def split: option.splits)

lemma run_delivery_uploads: "requests (run_delivery bind i w) = requests w"
  by (simp add: run_delivery_def engine_simps Let_def)

lemmas composer_parts = open_uploads create_uploads close_uploads switch_uploads dismiss_uploads
  run_delivery_uploads

lemma step_same_uploads: "same_uploads w (upload_step bind e w)"
proof (cases e)
  case (PickFile m f uid blobUrl pos)
  obtain w2 refused where h: "handleUpload bind m f (Some uid) uid
      (edit_doc m (\<lambda>doc. take pos doc @ picked_node f uid blobUrl # drop pos doc) w) = (w2, refused)"
    by (meson surj_pair)
  then have "\<exists>more. map rqUpload (requests w2) = map rqUpload (requests w) @ more"
    using handle_uploads [of bind m f "Some uid" uid
        "edit_doc m (\<lambda>doc. take pos doc @ picked_node f uid blobUrl # drop pos doc) w"]
    by (simp add: engine_simps)
  then show ?thesis
    by (simp add: PickFile uploadAndInsertFile_def h same_uploads_def engine_simps)
qed (simp_all add: same_uploads_def composer_parts engine_simps finish_uploads)

lemma run_same_uploads: "same_uploads w (upload_run bind es w)"
  unfolding upload_run_def
proof (induction es arbitrary: w)
  case (Cons e es)
  then show ?case using step_same_uploads same_uploads_trans by fastforce
qed simp

section \<open>Aborting every request\<close>

lemma abort_fold:
  "map rqUpload (foldl (\<lambda>rqs r. abort_request r rqs) rqs rs) = map rqUpload rqs"
  by (induction rs arbitrary: rqs) simp_all

lemma abort_request_nth:
  "length (abort_request r rqs) = length rqs"
  "i < length rqs \<Longrightarrow> rqAborted (abort_request r rqs ! i) \<longleftrightarrow> i = r \<or> rqAborted (rqs ! i)"
  by (auto simp: abort_request_def nth_list_update)

lemma abort_fold_nth: "i < length rqs \<Longrightarrow>
    rqAborted (foldl (\<lambda>rqs r. abort_request r rqs) rqs rs ! i) \<longleftrightarrow> i \<in> set rs \<or> rqAborted (rqs ! i)"
  by (induction rs arbitrary: rqs) (auto simp: abort_request_nth)

lemma reset_parts:
  "map rqUpload (requests (resetAllRegisteredDrafts reset w)) = map rqUpload (requests w)"
  "deliveries (resetAllRegisteredDrafts reset w) = deliveries w"
  "appDrafts (resetAllRegisteredDrafts reset w) = reset (appDrafts w)"
  "controllers (resetAllRegisteredDrafts reset w) = []"
  by (simp_all add: resetAllRegisteredDrafts_def abortAll_def abort_fold)

lemma reset_aborts:
  "(i, r) \<in> set (controllers w) \<Longrightarrow> r < length (requests w) \<Longrightarrow>
     rqAborted (requests (resetAllRegisteredDrafts reset w) ! r)"
  by (force simp: resetAllRegisteredDrafts_def abortAll_def abort_fold_nth)

section \<open>Stores that keep the contract\<close>

locale upload_stores =
  fixes bind :: "'k \<Rightarrow> 's upload_binding" and ok :: "'k \<Rightarrow> 's \<Rightarrow> bool"
  assumes binding_law: "draft_binding (bind k) (ok k)"
    and frame: "binding_op (bind k) a s = Inr s' \<Longrightarrow>
      getUploads (bind j) s' = getUploads (bind j) s \<or>
      getUploads (bind j) s' = spec_uploads a (getUploads (bind j) s)"
begin

text \<open>
  A property of upload lists that the operations of an event keep holds of every draft after it
  when it held before.
\<close>

definition everywhere :: "(js list \<Rightarrow> bool) \<Rightarrow> 's \<Rightarrow> bool" where
  "everywhere P s \<longleftrightarrow> (\<forall>k. P (getUploads (bind k) s))"

lemma everywhere_op:
  "everywhere P s \<Longrightarrow> (\<And>us. P us \<Longrightarrow> P (spec_uploads a us)) \<Longrightarrow> binding_op (bind k) a s = Inr s' \<Longrightarrow>
     everywhere P s'"
  unfolding everywhere_def using frame by metis

lemma everywhere_append:
  "everywhere P (appDrafts w) \<Longrightarrow> everywhere P (appDrafts (world_of (append_body bind k md w)))"
  using everywhere_op [of P "appDrafts w" "AppendOp md" k]
  by (auto simp: append_body_def split: sum.splits)

lemma everywhere_try: "everywhere P (appDrafts w) \<Longrightarrow>
    everywhere P (appDrafts (world_of (deliver_try bind k i att tries w)))"
  by (simp add: deliver_try_def Let_def everywhere_append engine_simps split: sum.splits bool.splits option.splits)

lemma everywhere_deliver: "everywhere P (appDrafts w) \<Longrightarrow>
    everywhere P (appDrafts (world_of (deliverFinishedUpload bind k i att tries w)))"
  by (simp add: deliver_world Let_def everywhere_try)

lemma everywhere_pasted: "everywhere P (appDrafts w) \<Longrightarrow>
    everywhere P (appDrafts (world_of (paste_back bind target m f w)))"
  by (simp add: paste_back_def deliverPastedTextBack_def everywhere_append engine_simps split: option.splits)

lemma everywhere_settled: "everywhere P s \<Longrightarrow> (\<And>us. P us \<Longrightarrow> P (spec_uploads (SettleOp i att) us)) \<Longrightarrow>
    everywhere P (settleUpload (bind k) i att s)"
  by (erule everywhere_op [where a = "SettleOp i att" and k = k]) simp_all

lemma everywhere_removed: "everywhere P s \<Longrightarrow> (\<And>us. P us \<Longrightarrow> P (spec_uploads (RemoveOp i) us)) \<Longrightarrow>
    everywhere P (removeUpload (bind k) i s)"
  by (erule everywhere_op [where a = "RemoveOp i" and k = k]) simp_all

lemma everywhere_added: "everywhere P s \<Longrightarrow> (\<And>us. P us \<Longrightarrow> P (spec_uploads (AddOp u) us)) \<Longrightarrow>
    everywhere P (addUpload (bind k) u s)"
  by (erule everywhere_op [where a = "AddOp u" and k = k]) simp_all

lemma everywhere_uploaded:
  assumes "everywhere P (appDrafts w)"
    and "\<And>us. P us \<Longrightarrow> P (spec_uploads (SettleOp (rqUpload rq) att) us)"
  shows "everywhere P (appDrafts (world_of (onUploaded bind rq att w)))"
proof -
  have "everywhere P (settleUpload (bind k) (rqUpload rq) att (appDrafts w))" for k
    using assms by (rule everywhere_settled)
  then show ?thesis
    unfolding onUploaded_def using assms(1)
    by (subst and_then_keeps [where g = appDrafts], simp add: engine_simps)
      (simp add: engine_simps everywhere_deliver Let_def split: option.splits)
qed

lemma everywhere_failed:
  assumes "everywhere P (appDrafts w)"
    and "\<And>us. P us \<Longrightarrow> P (spec_uploads (RemoveOp (rqUpload rq)) us)"
  shows "everywhere P (appDrafts (world_of (onFailed bind rq w)))"
proof -
  have "everywhere P (removeUpload (bind k) (rqUpload rq) (appDrafts w))" for k
    using assms by (rule everywhere_removed)
  then show ?thesis
    unfolding onFailed_def using assms(1)
    by (subst and_then_keeps [where g = appDrafts], simp add: engine_simps)
      (simp add: engine_simps everywhere_pasted Let_def split: option.splits)
qed

lemma everywhere_settle_request:
  assumes "everywhere P (appDrafts w)"
    and "\<And>att us. P us \<Longrightarrow> P (spec_uploads (SettleOp (rqUpload rq) att) us)"
    and "\<And>us. P us \<Longrightarrow> P (spec_uploads (RemoveOp (rqUpload rq)) us)"
  shows "everywhere P (appDrafts (settle_request bind rq resp w))"
proof -
  have up: "everywhere P (appDrafts (world_of (onUploaded bind rq att w)))" for att
    using assms(1,2) by (rule everywhere_uploaded)
  have "everywhere P (appDrafts (world_of (onFailed bind rq v)))" if "everywhere P (appDrafts v)" for v
    using that assms(3) by (rule everywhere_failed)
  with up assms(1) show ?thesis
    using settle_request_cases [of bind rq resp w] by metis
qed

lemma everywhere_handle:
  assumes "everywhere P (appDrafts w)"
    and "\<And>us. P us \<Longrightarrow> P (spec_uploads (AddOp (upload_placeholder i f)) us)"
  shows "everywhere P (appDrafts (fst (handleUpload bind m f (Some i) fresh w)))"
proof -
  have "everywhere P (addUpload (bind k) (upload_placeholder i f) (appDrafts w))" for k
    using assms by (rule everywhere_added)
  moreover have "everywhere P (appDrafts (world_of (paste_back bind target m f (update_mount m g w))))" for target g
    using assms(1) by (simp add: everywhere_pasted engine_simps)
  ultimately show ?thesis
    using assms(1)
    by (simp add: handleUpload_def startUpload_def Let_def and_then_keeps [where g = appDrafts] engine_simps
        split: option.splits)
qed

lemma everywhere_step:
  assumes "everywhere P (appDrafts w)"
    and rem: "\<And>i us. P us \<Longrightarrow> P (spec_uploads (RemoveOp i) us)"
    and settle: "\<And>r resp att us. e = FinishRequest r resp \<Longrightarrow> r < length (requests w) \<Longrightarrow>
      \<not> rqFinished (requests w ! r) \<Longrightarrow> P us \<Longrightarrow>
      P (spec_uploads (SettleOp (rqUpload (requests w ! r)) att) us)"
    and add: "\<And>m f i blobUrl pos us. e = PickFile m f i blobUrl pos \<Longrightarrow> P us \<Longrightarrow>
      P (spec_uploads (AddOp (upload_placeholder i f)) us)"
    and store: "\<And>f. e = StoreAction f \<Longrightarrow> everywhere P (f (appDrafts w))"
  shows "everywhere P (appDrafts (upload_step bind e w))"
proof (cases e)
  case (PickFile m f i blobUrl pos)
  let ?w1 = "edit_doc m (\<lambda>doc. take pos doc @ picked_node f i blobUrl # drop pos doc) w"
  have "everywhere P (appDrafts (fst (handleUpload bind m f (Some i) i ?w1)))"
    using assms(1) add [OF PickFile] by (intro everywhere_handle) (simp_all add: engine_simps)
  then show ?thesis using assms(1)
    by (simp add: PickFile uploadAndInsertFile_def engine_simps split_beta Let_def)
next
  case (FinishRequest r resp)
  show ?thesis
  proof (cases "r < length (requests w) \<and> \<not> rqFinished (requests w ! r)")
    case True
    then have "everywhere P (appDrafts (settle_request bind (requests w ! r) resp w))"
      using assms(1) settle [OF FinishRequest] rem by (intro everywhere_settle_request) auto
    then show ?thesis using True by (simp add: FinishRequest finish_request_def Let_def)
  qed (use assms(1) in \<open>auto simp: FinishRequest finish_request_def\<close>)
next
  case (DismissUpload m i)
  have "everywhere P (removeUpload (bind k) i (appDrafts w))" for k
    using assms(1) rem by (rule everywhere_removed)
  then show ?thesis using assms(1)
    by (simp add: DismissUpload dismiss_upload_def engine_simps Let_def split: option.splits)
next
  case (DeliveryTimer i)
  then show ?thesis using assms(1) by (simp add: run_delivery_def everywhere_deliver Let_def)
qed (use assms(1) store in \<open>simp_all add: composer_parts engine_simps\<close>)

lemma untracked_everywhere: "untracked bind uid = everywhere (\<lambda>us. \<not> has_upload uid us)"
  by (intro ext) (simp add: untracked_def everywhere_def tracks_def)

text \<open>An upload that no draft tracks stays out of the drafts.\<close>

lemma untracked_step:
  assumes "untracked bind uid (appDrafts w)" and "foreign_event bind ids e" and "uid \<in> ids"
  shows "untracked bind uid (appDrafts (upload_step bind e w))"
proof -
  have keeps: "\<not> has_upload uid (spec_uploads a us)" if "\<not> adds_upload uid a" "\<not> has_upload uid us" for a us
    using spec_adds that by blast
  have "everywhere (\<lambda>us. \<not> has_upload uid us) (appDrafts (upload_step bind e w))"
  proof (rule everywhere_step, goal_cases)
    case 1
    then show ?case using assms(1) by (simp add: untracked_everywhere)
  next
    case (2 i us)
    then show ?case by (intro keeps) simp_all
  next
    case (3 r resp att us)
    then show ?case by (intro keeps) simp_all
  next
    case (4 m f i blobUrl pos us)
    then show ?case using assms(2,3) by (intro keeps) (auto simp: upload_placeholder_def)
  next
    case (5 f)
    then show ?case using assms by (simp add: untracked_everywhere [symmetric])
  qed
  then show ?thesis by (simp add: untracked_everywhere)
qed

lemma untracked_run:
  "untracked bind uid (appDrafts w) \<Longrightarrow> list_all (foreign_event bind ids) es \<Longrightarrow> uid \<in> ids \<Longrightarrow>
     untracked bind uid (appDrafts (upload_run bind es w))"
  unfolding upload_run_def
proof (induction es arbitrary: w)
  case (Cons e es)
  then have "untracked bind uid (appDrafts (upload_step bind e w))"
    by (intro untracked_step [where ids = ids]) simp_all
  then show ?case using Cons.IH Cons.prems by simp
qed simp

text \<open>The outcome of such an upload changes no draft, in time or late.\<close>

lemma untracked_silent:
  assumes "untracked bind (rqUpload rq) (appDrafts w)"
  shows "appDrafts (settle_request bind rq resp w) = appDrafts w"
proof -
  have up: "appDrafts (world_of (onUploaded bind rq att v)) = appDrafts v"
    if "untracked bind (rqUpload rq) (appDrafts v)" for att v
    using that unfolding onUploaded_def
    by (subst and_then_keeps [where g = appDrafts], simp add: engine_simps)
      (simp add: untracked_def engine_simps split: option.splits)
  have down: "appDrafts (world_of (onFailed bind rq v)) = appDrafts v"
    if "untracked bind (rqUpload rq) (appDrafts v)" for v
    using that unfolding onFailed_def
    by (subst and_then_keeps [where g = appDrafts], simp add: engine_simps)
      (simp add: untracked_def paste_back_def deliverPastedTextBack_def engine_simps split: option.splits)
  show ?thesis
    using settle_request_cases [of bind rq resp w] assms by (auto simp: up down)
qed

lemma untracked_finish_silent:
  "r < length (requests w) \<Longrightarrow> untracked bind (rqUpload (requests w ! r)) (appDrafts w) \<Longrightarrow>
     appDrafts (finish_request bind r resp w) = appDrafts w"
  by (simp add: finish_request_def Let_def untracked_silent)

lemma untracked_delivery_silent:
  "untracked bind uid (appDrafts w) \<Longrightarrow> deliverFinishedUpload bind k uid att tries w = Returned w"
  by (simp add: deliverFinishedUpload_def deliver_try_def untracked_def)

end

end
