(* ===== verification/Upload_Delivery.thy ===== *)
theory Upload_Delivery
  imports Upload_Stores
begin

text \<open>
  Two runs of the upload engine: the tries that deliver a finished upload whose composer was
  closed, and a document with a placeholder whose request is over.
\<close>

section \<open>The tries of a delivery\<close>

text \<open>The environment acts between two tries: one function for each of them.\<close>

fun delivery_attempts :: "('k \<Rightarrow> 's upload_binding) \<Rightarrow> 'k \<Rightarrow> string \<Rightarrow> js \<Rightarrow>
    (('s, 'k) upload_world \<Rightarrow> ('s, 'k) upload_world) list \<Rightarrow> nat \<Rightarrow> ('s, 'k) upload_world \<Rightarrow>
    ('s, 'k) upload_world ending" where
  "delivery_attempts bind k uid att [] tries w = deliver_try bind k uid att tries w"
| "delivery_attempts bind k uid att (e # es) tries w =
     (case deliver_try bind k uid att tries w of
        Again w' \<Rightarrow> delivery_attempts bind k uid att es (tries + 1) (e w')
      | r \<Rightarrow> r)"

definition landed :: "('k \<Rightarrow> 's upload_binding) \<Rightarrow> 'k \<Rightarrow> string \<Rightarrow> js \<Rightarrow> 's \<Rightarrow> bool" where
  "landed bind k uid att s \<longleftrightarrow>
     (tracks bind k uid s \<longrightarrow> contentReferencesAttachment (getBody (bind k) s) att = Inr True)"

context upload_stores
begin

lemma append_lands:
  assumes "ok k (appDrafts w)" and "linkable att"
  shows "\<exists>s. append_body bind k (attachmentMarkdown att) w = Returned (w\<lparr>appDrafts := s\<rparr>) \<and>
    ok k s \<and> landed bind k uid att s"
proof -
  obtain s where "appendToBody (bind k) (attachmentMarkdown att) (appDrafts w) = Inr s" "ok k s"
    "contentReferencesAttachment (getBody (bind k) s) att = Inr True"
    using draft_binding.appended_refers [OF binding_law assms] by metis
  then show ?thesis by (auto simp: append_body_def landed_def)
qed

lemma try_lands:
  assumes "ok k (appDrafts w)" and "linkable att"
  shows "(\<exists>w'. deliver_try bind k uid att tries w = Returned w' \<and> ok k (appDrafts w') \<and>
      landed bind k uid att (appDrafts w')) \<or>
    (deliver_try bind k uid att tries w = Again w \<and> tries < DELIVER_MAX_TRIES)"
proof -
  have "is_string (getBody (bind k) (appDrafts w))"
    by (rule draft_binding.body_is_text [OF binding_law assms(1)])
  then have refs: "\<exists>v. contentReferencesAttachment (getBody (bind k) (appDrafts w)) att = Inr v"
    by (cases "getBody (bind k) (appDrafts w)") (auto simp: contentReferencesAttachment_def)
  have appended: "\<exists>v. append_body bind k (attachmentMarkdown att) u = Returned v \<and> ok k (appDrafts v) \<and>
      landed bind k uid att (appDrafts v)" if "appDrafts u = appDrafts w" for u
  proof -
    have "ok k (appDrafts u)" using assms(1) that by simp
    from append_lands [OF this assms(2), of uid] obtain s where
      "append_body bind k (attachmentMarkdown att) u = Returned (u\<lparr>appDrafts := s\<rparr>)" "ok k s"
      "landed bind k uid att s" by blast
    then show ?thesis by (intro exI [of _ "u\<lparr>appDrafts := s\<rparr>"]) simp
  qed
  show ?thesis
  proof (cases "tracks bind k uid (appDrafts w)")
    case False
    then show ?thesis using assms(1) by (simp add: deliver_try_def landed_def)
  next
    case True
    obtain v where v: "contentReferencesAttachment (getBody (bind k) (appDrafts w)) att = Inr v"
      using refs by blast
    show ?thesis
    proof (cases v)
      case True
      then show ?thesis using assms(1) v by (simp add: deliver_try_def landed_def)
    next
      case False
      note now = appended [of w] appended [of "edit_doc m (land_in_doc uid att) w" for m, simplified edit_doc_parts]
      show ?thesis
        using now False v \<open>tracks bind k uid (appDrafts w)\<close>
        by (simp add: deliver_try_def Let_def split: option.splits)
    qed
  qed
qed

lemma attempts_land:
  assumes "ok k (appDrafts w)" and "linkable att" and "DELIVER_MAX_TRIES \<le> tries + length es"
    and "\<And>e v. e \<in> set es \<Longrightarrow> ok k (appDrafts v) \<Longrightarrow> ok k (appDrafts (e v))"
  shows "\<exists>w'. delivery_attempts bind k uid att es tries w = Returned w' \<and>
    landed bind k uid att (appDrafts w')"
  using assms
proof (induction es arbitrary: tries w)
  case Nil
  then show ?case using try_lands [OF Nil.prems(1,2), of uid tries] by auto
next
  case (Cons e es)
  show ?case
  proof (cases "deliver_try bind k uid att tries w = Again w")
    case True
    have "\<exists>w'. delivery_attempts bind k uid att es (tries + 1) (e w) = Returned w' \<and>
        landed bind k uid att (appDrafts w')"
      using Cons.prems by (intro Cons.IH) simp_all
    then show ?thesis using True by simp
  next
    case False
    then show ?thesis using try_lands [OF Cons.prems(1,2), of uid tries] by auto
  qed
qed

end

text \<open>
  A composer that was opened again shows the placeholder, and the first try turns it into the
  finished attachment in its place.
\<close>

lemma try_in_place:
  assumes "tracks bind k uid (appDrafts w)" and "obj_get (liveEditors w) (registryKey (bind k)) = Some m"
    and "doc_of w m = Some doc" and "findUploadNode doc uid = Some i"
    and "contentReferencesAttachment (getBody (bind k) (appDrafts w)) att = Inr False"
  shows "doc_of (world_of (deliver_try bind k uid att tries w)) m =
    Some (doc[i := settled_node (toUploadResult att) (doc ! i)])"
  using assms
  by (simp add: deliver_try_def Let_def engine_simps land_in_doc_def settleUploadNode_def)

text \<open>A card that the user deleted comes back as a link at the end of the document and of the body.\<close>

lemma try_at_end:
  assumes "tracks bind k uid (appDrafts w)" and "obj_get (liveEditors w) (registryKey (bind k)) = Some m"
    and "doc_of w m = Some doc" and "findUploadNode doc uid = None"
    and "contentReferencesAttachment (getBody (bind k) (appDrafts w)) att = Inr False"
  shows "doc_of (world_of (deliver_try bind k uid att tries w)) m = Some (doc @ [Other (attachmentMarkdown att)])"
  using assms
  by (simp add: deliver_try_def Let_def engine_simps land_in_doc_def settleUploadNode_def insertMarkdownAtEnd_def)

text \<open>An outcome whose handler throws is reported a second time, as a failure, which removes the upload.\<close>

lemma thrown_outcome_fails:
  "onUploaded bind rq att w = Threw w1 \<Longrightarrow> \<not> rqAborted rq \<Longrightarrow>
     settle_request bind rq (Uploaded att) w = world_of (onFailed bind rq w1)"
  by (simp add: settle_request_def)

section \<open>A placeholder that nobody owns\<close>

definition holds_node :: "nat \<Rightarrow> doc_node \<Rightarrow> ('s, 'k) upload_world \<Rightarrow> bool" where
  "holds_node m n w \<longleftrightarrow> (\<exists>doc. doc_of w m = Some doc \<and> n \<in> set doc)"

definition waiting_node :: "string \<Rightarrow> doc_node \<Rightarrow> bool" where
  "waiting_node uid n \<longleftrightarrow> node_of_upload uid n \<and>
     (case node_attrs n of None \<Rightarrow> False | Some a \<Rightarrow> nodeUploading a)"

text \<open>Every request of this upload is over, and none of its deliveries is queued.\<close>

definition upload_over :: "string \<Rightarrow> ('s, 'k) upload_world \<Rightarrow> bool" where
  "upload_over uid w \<longleftrightarrow>
     (\<forall>rq \<in> set (requests w). rqUpload rq = uid \<longrightarrow> rqFinished rq) \<and>
     (\<forall>d \<in> set (deliveries w). dlUpload d \<noteq> uid)"

text \<open>The user does not close the composer, load another draft into it or delete the node.\<close>

fun leaves_node :: "nat \<Rightarrow> string \<Rightarrow> ('s, 'k) upload_event \<Rightarrow> bool" where
  "leaves_node m uid (CloseComposer j) \<longleftrightarrow> j \<noteq> m"
| "leaves_node m uid (SwitchComposer j k held live adopted) \<longleftrightarrow> j \<noteq> m \<or> adopted = None"
| "leaves_node m uid (DeleteNode j i) \<longleftrightarrow> j \<noteq> m \<or> i \<noteq> uid"
| "leaves_node m uid (PickFile j f i blobUrl pos) \<longleftrightarrow> i \<noteq> uid"
| "leaves_node m uid _ \<longleftrightarrow> True"

lemma holds_edit:
  "holds_node m n w \<Longrightarrow> (\<And>doc. n \<in> set doc \<Longrightarrow> n \<in> set (f doc)) \<Longrightarrow> holds_node m n (edit_doc j f w)"
  by (auto simp: holds_node_def engine_simps)

lemma holds_update: "holds_node m n w \<Longrightarrow> (\<And>mt. editorDoc (f mt) = editorDoc mt) \<Longrightarrow>
    holds_node m n (update_mount j f w)"
proof -
  assume holds: "holds_node m n w" and same: "\<And>mt. editorDoc (f mt) = editorDoc mt"
  have "doc_of (update_mount j f w) m = doc_of w m"
    using doc_read(1) [of j w] by (simp add: doc_update same)
  with holds show ?thesis by (simp add: holds_node_def)
qed

lemma holds_cong: "doc_of w' m = doc_of w m \<Longrightarrow> holds_node m n w' = holds_node m n w"
  by (simp add: holds_node_def)

lemma holds_blocked: "holds_node m n w \<Longrightarrow> waiting_node uid n \<Longrightarrow> gate_blocked bind m w"
  by (auto simp: holds_node_def waiting_node_def gate_blocked_def hasUploadingNode_def list_ex_iff)

lemma holds_append: "holds_node m n (world_of (append_body bind k md w)) = holds_node m n w"
  by (rule holds_cong) (simp add: engine_simps)

lemma holds_text: "holds_node m n w \<Longrightarrow> holds_node m n (insert_text j t w)"
  unfolding insert_text_def by (rule holds_edit) (simp_all add: insertMarkdownAtEnd_def)

lemma holds_pasted: "holds_node m n w \<Longrightarrow> holds_node m n (world_of (paste_back bind target j f w))"
  by (simp add: paste_back_def deliverPastedTextBack_def holds_append holds_text split: option.splits)

lemma holds_local: "holds_node m n (set_local j f w) = holds_node m n w"
  by (rule holds_cong) (simp add: engine_simps)

lemma holds_drafts [simp]: "holds_node m n (w\<lparr>appDrafts := s\<rparr>) = holds_node m n w"
    "holds_node m n (w\<lparr>toasts := ts\<rparr>) = holds_node m n w"
    "holds_node m n (w\<lparr>deliveries := ds\<rparr>) = holds_node m n w"
    "holds_node m n (w\<lparr>controllers := cs\<rparr>) = holds_node m n w"
    "holds_node m n (w\<lparr>requests := rs\<rparr>) = holds_node m n w"
    "holds_node m n (w\<lparr>liveEditors := ls\<rparr>) = holds_node m n w"
  by (simp_all add: holds_node_def engine_simps)

lemma holds_then: "holds_node m n (world_of e) \<Longrightarrow> (\<And>w. holds_node m n w \<Longrightarrow> holds_node m n (f w)) \<Longrightarrow>
    holds_node m n (world_of (and_then e f))"
  by (cases e) simp_all

lemma holds_try:
  assumes "holds_node m n w" and "node_of_upload uid n" and "i \<noteq> uid"
  shows "holds_node m n (world_of (deliver_try bind k i att tries w))"
proof -
  have "holds_node m n (edit_doc j (land_in_doc i att) w)" for j
    using assms keep_land by (intro holds_edit)
  then show ?thesis using assms(1)
    by (simp add: deliver_try_def Let_def holds_append split: sum.splits bool.splits option.splits)
qed

lemma holds_deliver:
  "holds_node m n w \<Longrightarrow> node_of_upload uid n \<Longrightarrow> i \<noteq> uid \<Longrightarrow>
     holds_node m n (world_of (deliverFinishedUpload bind k i att tries w))"
  by (simp add: deliver_world Let_def holds_try)

lemma holds_settle_request:
  assumes "holds_node m n w" and "node_of_upload uid n" and "rqUpload rq \<noteq> uid"
  shows "holds_node m n (settle_request bind rq resp w)"
proof -
  have up: "holds_node m n (world_of (onUploaded bind rq att v))" if "holds_node m n v" for att v
    unfolding onUploaded_def using that assms(2,3)
    by (intro holds_then holds_edit keep_settle)
      (auto simp: holds_local Let_def intro: holds_deliver split: option.splits)
  have down: "holds_node m n (world_of (onFailed bind rq v))" if "holds_node m n v" for v
    unfolding onFailed_def using that assms(2,3)
    by (intro holds_then holds_edit keep_remove)
      (auto simp: holds_local intro: holds_pasted split: option.splits)
  show ?thesis
    using settle_request_cases [of bind rq resp w] assms(1) up down by metis
qed

lemma holds_open: "holds_node m n w \<Longrightarrow> holds_node m n (open_composer bind k held live w)"
  by (auto simp: holds_node_def open_composer_def register_editor_def doc_of_def nth_append
      split: if_splits option.splits)

lemma holds_create: "holds_node m n w \<Longrightarrow> holds_node m n (create_editor j body w)"
  by (auto simp: holds_node_def create_editor_def doc_update)

lemma holds_close: "holds_node m n w \<Longrightarrow> j \<noteq> m \<Longrightarrow> holds_node m n (close_composer bind j w)"
  by (auto simp: holds_node_def close_composer_def unregister_parts doc_update)

lemma holds_switch:
  assumes "holds_node m n w" and "j \<noteq> m \<or> adopted = None"
  shows "holds_node m n (switch_composer bind j k held live adopted w)"
proof -
  have "doc_of (switch_composer bind j k held live adopted w) m = doc_of w m"
    using assms(2)
    by (auto simp: switch_composer_def register_parts unregister_parts doc_update is_mounted_def doc_read)
  then show ?thesis using assms(1) by (simp add: holds_node_def)
qed

lemma holds_draw: "holds_node m n w \<Longrightarrow>
    holds_node m n (foldl (\<lambda>w' u. update_mount j (\<lambda>mt. mt\<lparr>rebuiltUploadIds :=
        str_prop u ''clientUploadId'' # rebuiltUploadIds mt\<rparr>)
      (edit_doc j (\<lambda>doc. insertUploadPlaceholder doc (str_prop u ''clientUploadId'')
        (str_prop u ''filename'') (get_prop u ''size'')) w')) w us)"
proof (induction us arbitrary: w)
  case (Cons u us)
  have "holds_node m n (update_mount j (\<lambda>mt. mt\<lparr>rebuiltUploadIds :=
        str_prop u ''clientUploadId'' # rebuiltUploadIds mt\<rparr>)
      (edit_doc j (\<lambda>doc. insertUploadPlaceholder doc (str_prop u ''clientUploadId'')
        (str_prop u ''filename'') (get_prop u ''size'')) w))"
    by (intro holds_update holds_edit Cons.prems) (simp_all add: insertUploadPlaceholder_def)
  then show ?case by (simp add: Cons.IH)
qed simp

lemma holds_rebuild: "holds_node m n w \<Longrightarrow> holds_node m n (rebuild_placeholders bind j w)"
  by (simp add: rebuild_placeholders_def Let_def holds_draw)

lemma holds_finish:
  assumes "holds_node m n w" and "node_of_upload uid n" and "upload_over uid w"
  shows "holds_node m n (finish_request bind r resp w)"
proof (cases "r < length (requests w) \<and> \<not> rqFinished (requests w ! r)")
  case True
  then have "rqUpload (requests w ! r) \<noteq> uid" using assms(3) by (auto simp: upload_over_def)
  from holds_settle_request [OF assms(1,2) this, of bind resp] True show ?thesis
    by (simp add: finish_request_def Let_def)
qed (use assms(1) in \<open>auto simp: finish_request_def\<close>)

lemma holds_delivery:
  assumes "holds_node m n w" and "node_of_upload uid n" and "upload_over uid w"
  shows "holds_node m n (run_delivery bind i w)"
proof (cases "i < length (deliveries w)")
  case True
  then have "dlUpload (deliveries w ! i) \<noteq> uid" using assms(3) by (simp add: upload_over_def)
  then show ?thesis using assms(1,2) True by (simp add: run_delivery_def Let_def holds_deliver)
qed (use assms(1) in \<open>simp add: run_delivery_def\<close>)

lemma holds_dismiss: "holds_node m n w \<Longrightarrow> holds_node m n (dismiss_upload bind j uid w)"
proof -
  have "holds_node m n (abortUpload uid w) = holds_node m n w"
    by (rule holds_cong) (simp add: doc_of_def abort_parts)
  then show "holds_node m n w \<Longrightarrow> holds_node m n (dismiss_upload bind j uid w)"
    by (simp add: dismiss_upload_def Let_def holds_local split: option.splits)
qed

lemma holds_handle:
  assumes "holds_node m n w"
  shows "holds_node m n (fst (handleUpload bind j f uploadId fresh w))"
proof -
  have up: "holds_node m n (case uploadId of None \<Rightarrow> w
      | Some i \<Rightarrow> update_mount j (\<lambda>mt. mt\<lparr>rebuiltUploadIds := i # rebuiltUploadIds mt\<rparr>) w)"
    using assms by (auto intro: holds_update split: option.splits)
  then have "holds_node m n (world_of (and_then (paste_back bind target j f
      (case uploadId of None \<Rightarrow> w
       | Some i \<Rightarrow> update_mount j (\<lambda>mt. mt\<lparr>rebuiltUploadIds := i # rebuiltUploadIds mt\<rparr>) w))
      (\<lambda>w2. w2\<lparr>toasts := toasts w2 @ [fileName f]\<rparr>)))" for target
    by (intro holds_then holds_pasted) simp_all
  with up show ?thesis
    by (simp add: handleUpload_def Let_def startUpload_def holds_local split: option.splits)
qed

lemma holds_pick:
  assumes "holds_node m n w" and "node_of_upload uid n" and "i \<noteq> uid"
  shows "holds_node m n (uploadAndInsertFile bind j f i blobUrl pos w)"
proof -
  have "holds_node m n (edit_doc j (\<lambda>doc. take pos doc @ picked_node f i blobUrl # drop pos doc) w)"
    using assms(1) keep_insert by (intro holds_edit)
  note handled = holds_handle [OF this, of bind j f "Some i" i]
  then have "holds_node m n (edit_doc j (\<lambda>doc. fst (removeUploadNode doc i))
      (fst (handleUpload bind j f (Some i) i
        (edit_doc j (\<lambda>doc. take pos doc @ picked_node f i blobUrl # drop pos doc) w))))"
    using assms(2,3) keep_remove by (intro holds_edit)
  with handled show ?thesis using assms(1)
    by (simp add: uploadAndInsertFile_def split_beta Let_def)
qed

lemma holds_step:
  assumes "holds_node m n w" and "node_of_upload uid n" and "upload_over uid w" and "leaves_node m uid e"
  shows "holds_node m n (upload_step bind e w)"
proof (cases e)
  case (DeleteNode j i)
  show ?thesis
  proof (cases "j = m")
    case True
    then show ?thesis using assms DeleteNode keep_remove by (auto intro: holds_edit)
  next
    case False
    then show ?thesis using assms(1) by (simp add: DeleteNode holds_node_def engine_simps)
  qed
next
  case (TypeText j pos t)
  have "holds_node m n (edit_doc j (\<lambda>doc. take pos doc @ Other t # drop pos doc) w)"
    by (rule holds_edit [OF assms(1)]) (rule keep_insert)
  then show ?thesis by (simp add: TypeText)
next
  case (PickFile j f i blobUrl pos)
  then show ?thesis using assms by (auto intro: holds_pick)
qed (use assms in \<open>auto intro: holds_open holds_create holds_close holds_switch holds_rebuild holds_finish
      holds_delivery holds_dismiss\<close>)

section \<open>Nothing of a finished upload comes back\<close>

lemma uploaded_queue:
  "set (deliveries (world_of (onUploaded bind rq att w))) \<subseteq> set (deliveries w) \<union> {d. dlUpload d = rqUpload rq}"
proof -
  have q: "set (deliveries (world_of (deliverFinishedUpload bind k (rqUpload rq) att 0 v))) \<subseteq>
      set (deliveries w) \<union> {d. dlUpload d = rqUpload rq}" if "deliveries v = deliveries w" for k v
    using deliver_queue [of bind k "rqUpload rq" att 0 v] that by auto
  show ?thesis
    unfolding onUploaded_def
    by (subst and_then_keeps [where g = deliveries], simp add: engine_simps)
      (auto simp: engine_simps Let_def dest!: q [THEN subsetD, rotated] split: option.splits)
qed

lemma settle_queue:
  "set (deliveries (settle_request bind rq resp w)) \<subseteq> set (deliveries w) \<union> {d. dlUpload d = rqUpload rq}"
  using settle_request_cases [of bind rq resp w]
  by (elim disjE exE conjE) (simp_all add: engine_simps uploaded_queue)

lemma over_finish:
  assumes "upload_over uid w"
  shows "upload_over uid (finish_request bind r resp w)"
proof (cases "r < length (requests w) \<and> \<not> rqFinished (requests w ! r)")
  case True
  let ?rq = "requests w ! r"
  let ?rqs = "(requests w)[r := ?rq\<lparr>rqFinished := True\<rparr>]"
  have parts: "requests (finish_request bind r resp w) = ?rqs"
    "deliveries (finish_request bind r resp w) = deliveries (settle_request bind ?rq resp w)"
    using True by (simp_all add: finish_request_def Let_def engine_simps)
  have "rqUpload ?rq \<noteq> uid" using assms True by (auto simp: upload_over_def)
  then have "dlUpload d \<noteq> uid" if "d \<in> set (deliveries (settle_request bind ?rq resp w))" for d
    using that settle_queue [of bind ?rq resp w] assms by (auto simp: upload_over_def)
  moreover have "rqFinished q" if "q \<in> set ?rqs" "rqUpload q = uid" for q
    using that set_update_subset_insert [of "requests w" r "?rq\<lparr>rqFinished := True\<rparr>"] assms
    by (auto simp: upload_over_def)
  ultimately show ?thesis by (simp add: upload_over_def parts)
qed (use assms in \<open>auto simp: finish_request_def\<close>)

lemma over_parts: "requests w' = requests w \<Longrightarrow> deliveries w' = deliveries w \<Longrightarrow>
    upload_over uid w' = upload_over uid w"
  by (simp add: upload_over_def)

lemma over_abort:
  assumes "upload_over uid w"
  shows "upload_over uid (abortUpload i w)"
proof -
  have "rqFinished q" if q: "q \<in> set (abort_request r (requests w))" "rqUpload q = uid" for q r
  proof (cases "r < length (requests w)")
    case True
    then have "q \<in> insert ((requests w ! r)\<lparr>rqAborted := True\<rparr>) (set (requests w))"
      using q(1) set_update_subset_insert by (fastforce simp: abort_request_def)
    then show ?thesis using assms q(2) True by (auto simp: upload_over_def)
  qed (use q assms in \<open>auto simp: abort_request_def upload_over_def\<close>)
  then show ?thesis using assms by (simp add: abortUpload_def upload_over_def split: option.splits)
qed

lemma over_cong: "upload_over uid (w\<lparr>appDrafts := s\<rparr>) = upload_over uid w"
    "upload_over uid (set_local m g w) = upload_over uid w"
  by (simp_all add: upload_over_def engine_simps)

lemma over_dismiss: "upload_over uid w \<Longrightarrow> upload_over uid (dismiss_upload bind j i w)"
  by (simp add: dismiss_upload_def Let_def over_abort over_cong split: option.splits)

lemma queued_upload:
  "x \<in> set (deliveries (world_of (deliverFinishedUpload bind k i att tries w))) \<Longrightarrow>
     x \<in> set (deliveries w) \<or> dlUpload x = i"
  using deliver_queue [of bind k i att tries w] by auto

lemma over_delivery:
  assumes "upload_over uid w"
  shows "upload_over uid (run_delivery bind i w)"
proof (cases "i < length (deliveries w)")
  case True
  let ?d = "deliveries w ! i" and ?ds = "take i (deliveries w) @ drop (Suc i) (deliveries w)"
  have d: "dlUpload ?d \<noteq> uid" using assms True by (simp add: upload_over_def)
  have sub: "set ?ds \<subseteq> set (deliveries w)" by (auto dest: in_set_takeD in_set_dropD)
  have "dlUpload x \<noteq> uid" if "x \<in> set (deliveries (world_of (deliverFinishedUpload bind (dlTarget ?d)
      (dlUpload ?d) (dlAttachment ?d) (dlTries ?d) (w\<lparr>deliveries := ?ds\<rparr>))))" for x
  proof -
    from queued_upload [OF that] have "x \<in> set (deliveries w) \<or> dlUpload x = dlUpload ?d"
      using sub by auto
    then show ?thesis using d assms by (auto simp: upload_over_def)
  qed
  then show ?thesis using assms True
    by (simp add: run_delivery_def Let_def upload_over_def engine_simps)
qed (use assms in \<open>simp add: run_delivery_def\<close>)

lemma over_pick:
  assumes "upload_over uid w" and "i \<noteq> uid"
  shows "upload_over uid (uploadAndInsertFile bind j f i blobUrl pos w)"
proof -
  let ?w1 = "edit_doc j (\<lambda>doc. take pos doc @ picked_node f i blobUrl # drop pos doc) w"
  let ?h = "fst (handleUpload bind j f (Some i) i ?w1)"
  have "deliveries ?h = deliveries w \<and>
      (requests ?h = requests w \<or> (\<exists>rq. requests ?h = requests w @ [rq] \<and> rqUpload rq = i))"
    by (simp add: handleUpload_def Let_def startUpload_def engine_simps and_then_keeps [where g = requests]
        and_then_keeps [where g = deliveries] split: option.splits)
  then have "upload_over uid ?h" using assms by (auto simp: upload_over_def)
  then show ?thesis using assms(1)
    by (simp add: uploadAndInsertFile_def split_beta Let_def upload_over_def engine_simps)
qed

lemma over_step:
  assumes "upload_over uid w" and "leaves_node m uid e"
  shows "upload_over uid (upload_step bind e w)"
proof (cases e)
  case (PickFile j f i blobUrl pos)
  then show ?thesis using assms by (simp add: over_pick)
next
  case (FinishRequest r resp)
  then show ?thesis using assms by (simp add: over_finish)
next
  case (DeliveryTimer i)
  then show ?thesis using assms by (simp add: over_delivery)
next
  case (DismissUpload j i)
  then show ?thesis using assms by (simp add: over_dismiss)
qed (use assms in \<open>simp_all add: upload_over_def composer_parts engine_simps\<close>)

lemma node_stays:
  assumes "holds_node m n w" and "node_of_upload uid n" and "upload_over uid w"
    and "list_all (leaves_node m uid) es"
  shows "holds_node m n (upload_run bind es w)"
  using assms unfolding upload_run_def
proof (induction es arbitrary: w)
  case (Cons e es)
  then have "holds_node m n (upload_step bind e w)" "upload_over uid (upload_step bind e w)"
    by (simp_all add: holds_step over_step [where m = m])
  then show ?case using Cons by simp
qed simp

section \<open>A failed upload in a reopened composer\<close>

context upload_stores
begin

lemma append_tracks: "tracks bind j uid (appDrafts (world_of (append_body bind k md w))) = tracks bind j uid (appDrafts w)"
proof (cases "appendToBody (bind k) md (appDrafts w)")
  case (Inr s)
  then have "getUploads (bind j) s = getUploads (bind j) (appDrafts w)"
    using frame [of k "AppendOp md" "appDrafts w" s j] by simp
  then show ?thesis using Inr by (simp add: append_body_def tracks_def)
qed (simp add: append_body_def)

lemma failed_untracks:
  assumes "ok k (appDrafts w)" and "rqTarget rq = Some k"
  shows "\<not> tracks bind k (rqUpload rq) (appDrafts (world_of (onFailed bind rq w)))"
proof -
  have gone: "\<not> tracks bind k (rqUpload rq) (removeUpload (bind k) (rqUpload rq) (appDrafts w))"
    using draft_binding.op_uploads(2) [OF binding_law assms(1), of "RemoveOp (rqUpload rq)"]
    by (simp add: tracks_def has_upload_def list_ex_iff)
  show ?thesis
    unfolding onFailed_def
    by (subst and_then_keeps [where g = appDrafts], simp add: engine_simps)
      (simp add: assms(2) gone paste_back_def deliverPastedTextBack_def append_tracks engine_simps
        split: option.splits)
qed

end

lemma holds_elsewhere: "holds_node m n w \<Longrightarrow> j \<noteq> m \<Longrightarrow> holds_node m n (edit_doc j f w)"
  by (simp add: holds_node_def engine_simps)

lemma holds_failed: "holds_node m n w \<Longrightarrow> rqMount rq \<noteq> m \<Longrightarrow> holds_node m n (world_of (onFailed bind rq w))"
  unfolding onFailed_def
  by (intro holds_then holds_elsewhere) (auto simp: holds_local intro: holds_pasted split: option.splits)

end
