(* ===== verification/Upload_Gate.thy ===== *)
theory Upload_Gate
  imports Upload_Delivery
begin

text \<open>
  The submit gate: while a request runs, the draft that tracks its upload has it as uploading,
  so every composer of that draft is blocked.
\<close>

definition pending_record :: "string \<Rightarrow> js list \<Rightarrow> bool" where
  "pending_record uid us \<longleftrightarrow>
     list_all (\<lambda>u. clientUploadId u = JStr uid \<longrightarrow> status_of u = JStr ''uploading'') us"

definition all_pending :: "('k \<Rightarrow> 's upload_binding) \<Rightarrow> string \<Rightarrow> 's \<Rightarrow> bool" where
  "all_pending bind uid s \<longleftrightarrow> (\<forall>k. pending_record uid (getUploads (bind k) s))"

definition requests_pending :: "('k \<Rightarrow> 's upload_binding) \<Rightarrow> ('s, 'k) upload_world \<Rightarrow> bool" where
  "requests_pending bind w \<longleftrightarrow>
     distinct (map rqUpload (requests w)) \<and>
     (\<forall>rq \<in> set (requests w). \<not> rqFinished rq \<longrightarrow> all_pending bind (rqUpload rq) (appDrafts w))"

text \<open>
  The id of a picked file is new (\<open>createSafeId\<close>), and the other actions of the stores do not
  change the status of an upload: they add text, remove uploads or clear drafts.
\<close>

fun fresh_event :: "('k \<Rightarrow> 's upload_binding) \<Rightarrow> ('s, 'k) upload_world \<Rightarrow> ('s, 'k) upload_event \<Rightarrow> bool" where
  "fresh_event bind w (PickFile m f uid blobUrl pos) \<longleftrightarrow>
     uid \<notin> rqUpload ` set (requests w) \<and> untracked bind uid (appDrafts w)"
| "fresh_event bind w (StoreAction f) \<longleftrightarrow>
     (\<forall>uid s. all_pending bind uid s \<longrightarrow> all_pending bind uid (f s))"
| "fresh_event bind w _ \<longleftrightarrow> True"

fun fresh_run :: "('k \<Rightarrow> 's upload_binding) \<Rightarrow> ('s, 'k) upload_event list \<Rightarrow> ('s, 'k) upload_world \<Rightarrow> bool" where
  "fresh_run bind [] w \<longleftrightarrow> True"
| "fresh_run bind (e # es) w \<longleftrightarrow> fresh_event bind w e \<and> fresh_run bind es (upload_step bind e w)"

definition empty_world :: "'s \<Rightarrow> ('s, 'k) upload_world" where
  "empty_world s = \<lparr>appDrafts = s, mounts = [], liveEditors = [], controllers = [], requests = [],
     deliveries = [], toasts = []\<rparr>"

lemma pending_remove: "pending_record uid us \<Longrightarrow> pending_record uid (spec_uploads (RemoveOp i) us)"
  by (simp add: pending_record_def list_all_iff)

lemma pending_settle: "pending_record uid us \<Longrightarrow> i \<noteq> uid \<Longrightarrow> pending_record uid (spec_uploads (SettleOp i att) us)"
  by (auto simp: pending_record_def list_all_iff replace_upload_def)

lemma pending_add: "pending_record uid us \<Longrightarrow> pending_record uid (spec_uploads (AddOp (upload_placeholder i f)) us)"
  by (auto simp: pending_record_def list_all_iff upload_placeholder_def)

lemma untracked_pending: "untracked bind uid s \<Longrightarrow> all_pending bind uid s"
  by (auto simp: untracked_def tracks_def has_upload_def all_pending_def pending_record_def list_all_iff list_ex_iff)

section \<open>The requests after an event\<close>

lemma abort_finished: "map rqFinished (abort_request r rqs) = map rqFinished rqs"
proof (cases "r < length rqs")
  case True
  then have "(map rqFinished rqs)[r := rqFinished (rqs ! r)] = map rqFinished rqs"
    by (metis list_update_id nth_map)
  then show ?thesis using True by (simp add: abort_request_def map_update)
qed (simp add: abort_request_def)

lemma dismiss_finished: "map rqFinished (requests (dismiss_upload bind m uid w)) = map rqFinished (requests w)"
  by (simp add: dismiss_upload_def abortUpload_def abort_finished engine_simps Let_def split: option.splits)

lemma pick_requests:
  "requests (uploadAndInsertFile bind m f uid blobUrl pos w) = requests w \<or>
   (\<exists>rq. requests (uploadAndInsertFile bind m f uid blobUrl pos w) = requests w @ [rq] \<and> rqUpload rq = uid)"
proof -
  let ?w1 = "edit_doc m (\<lambda>doc. take pos doc @ picked_node f uid blobUrl # drop pos doc) w"
  let ?h = "fst (handleUpload bind m f (Some uid) uid ?w1)"
  have "requests ?h = requests w \<or> (\<exists>rq. requests ?h = requests w @ [rq] \<and> rqUpload rq = uid)"
    by (simp add: handleUpload_def Let_def startUpload_def engine_simps and_then_keeps [where g = requests]
        split: option.splits)
  then show ?thesis by (auto simp: uploadAndInsertFile_def split_beta Let_def engine_simps)
qed

text \<open>A request that still runs after an event ran before, or was started by it.\<close>

lemma running_before:
  assumes "r < length (requests (upload_step bind e w))" and "\<not> rqFinished (requests (upload_step bind e w) ! r)"
  shows "(r < length (requests w) \<and> \<not> rqFinished (requests w ! r) \<and>
      rqUpload (requests (upload_step bind e w) ! r) = rqUpload (requests w ! r) \<and>
      (\<forall>resp. e \<noteq> FinishRequest r resp)) \<or>
    (\<exists>m f blobUrl pos. e = PickFile m f (rqUpload (requests (upload_step bind e w) ! r)) blobUrl pos)"
proof (cases e)
  case (PickFile m f uid blobUrl pos)
  then show ?thesis using assms pick_requests [of bind m f uid blobUrl pos w]
    by (auto simp: nth_append less_Suc_eq)
next
  case (DismissUpload m uid)
  have len: "length (requests (dismiss_upload bind m uid w)) = length (requests w)"
    using arg_cong [OF dismiss_finished, of length] by (metis length_map)
  have "rqFinished (requests (dismiss_upload bind m uid w) ! r) = rqFinished (requests w ! r)"
    "rqUpload (requests (dismiss_upload bind m uid w) ! r) = rqUpload (requests w ! r)"
    using assms(1) dismiss_finished [of bind m uid w] dismiss_uploads(1) [of bind m uid w] len
    by (simp_all add: DismissUpload) (metis nth_map)+
  then show ?thesis using assms len by (simp add: DismissUpload)
next
  case (FinishRequest q resp)
  then show ?thesis using assms
    by (auto simp: finish_request_def Let_def engine_simps nth_list_update split: if_splits)
qed (use assms in \<open>simp_all add: composer_parts engine_simps\<close>)

lemma step_distinct:
  assumes "distinct (map rqUpload (requests w))" and "fresh_event bind w e"
  shows "distinct (map rqUpload (requests (upload_step bind e w)))"
proof (cases e)
  case (PickFile m f uid blobUrl pos)
  then show ?thesis using assms pick_requests [of bind m f uid blobUrl pos w] by auto
qed (use assms(1) in \<open>simp_all add: composer_parts engine_simps finish_uploads\<close>)

section \<open>The invariant\<close>

context upload_stores
begin

lemma pending_everywhere: "all_pending bind uid = everywhere (pending_record uid)"
  by (intro ext) (simp add: all_pending_def everywhere_def)

lemma pending_step:
  assumes "all_pending bind uid (appDrafts w)" and "fresh_event bind w e"
    and "\<And>r resp. e = FinishRequest r resp \<Longrightarrow> r < length (requests w) \<Longrightarrow> rqUpload (requests w ! r) \<noteq> uid"
  shows "all_pending bind uid (appDrafts (upload_step bind e w))"
proof -
  have "everywhere (pending_record uid) (appDrafts (upload_step bind e w))"
  proof (rule everywhere_step, goal_cases)
    case 1
    then show ?case using assms(1) by (simp add: pending_everywhere)
  next
    case (2 i us)
    then show ?case by (rule pending_remove)
  next
    case (3 r resp att us)
    then show ?case using assms(3) by (intro pending_settle) simp_all
  next
    case (4 m f i blobUrl pos us)
    then show ?case by (intro pending_add)
  next
    case (5 f)
    then show ?case using assms(1,2) by (simp add: pending_everywhere [symmetric])
  qed
  then show ?thesis by (simp add: pending_everywhere)
qed

lemma requests_pending_step:
  assumes "requests_pending bind w" and "fresh_event bind w e"
  shows "requests_pending bind (upload_step bind e w)"
proof -
  have dist: "distinct (map rqUpload (requests w))" using assms(1) by (simp add: requests_pending_def)
  have "all_pending bind (rqUpload rq) (appDrafts (upload_step bind e w))"
    if rq: "rq \<in> set (requests (upload_step bind e w))" "\<not> rqFinished rq" for rq
  proof -
    obtain r where r: "r < length (requests (upload_step bind e w))" "rq = requests (upload_step bind e w) ! r"
      using rq(1) by (auto simp: in_set_conv_nth)
    from running_before [OF r(1)] rq(2) r(2) consider
        (old) "r < length (requests w)" "\<not> rqFinished (requests w ! r)"
          "rqUpload rq = rqUpload (requests w ! r)" "\<forall>resp. e \<noteq> FinishRequest r resp"
      | (new) m f blobUrl pos where "e = PickFile m f (rqUpload rq) blobUrl pos"
      by auto
    then show ?thesis
    proof cases
      case old
      have pend: "all_pending bind (rqUpload rq) (appDrafts w)"
        using assms(1) old by (simp add: requests_pending_def)
      have "rqUpload (requests w ! q) \<noteq> rqUpload rq" if "e = FinishRequest q resp" "q < length (requests w)" for q resp
        using that old nth_eq_iff_index_eq [OF dist, of q r] by auto
      with pend assms(2) show ?thesis by (rule pending_step)
    next
      case new
      then have "all_pending bind (rqUpload rq) (appDrafts w)"
        using assms(2) by (intro untracked_pending) simp
      then show ?thesis using assms(2) new by (intro pending_step) simp_all
    qed
  qed
  then show ?thesis using step_distinct [OF dist assms(2)] by (simp add: requests_pending_def)
qed

lemma requests_pending_run:
  "requests_pending bind w \<Longrightarrow> fresh_run bind es w \<Longrightarrow> requests_pending bind (upload_run bind es w)"
  unfolding upload_run_def by (induction es arbitrary: w) (simp_all add: requests_pending_step)

end

lemma pending_blocks:
  assumes "requests_pending bind w" and "rq \<in> set (requests w)" and "\<not> rqFinished rq"
    and "bindingKey (mounts w ! m) = Some k" and "tracks bind k (rqUpload rq) (appDrafts w)"
  shows "gate_blocked bind m w"
proof -
  have "pending_record (rqUpload rq) (getUploads (bind k) (appDrafts w))"
    using assms(1-3) by (simp add: requests_pending_def all_pending_def)
  then have "hasUploadingDraft (getUploads (bind k) (appDrafts w))"
    using assms(5) by (auto simp: tracks_def has_upload_def pending_record_def hasUploadingDraft_def
        list_all_iff list_ex_iff)
  then show ?thesis by (simp add: gate_blocked_def composer_uploads_def assms(4))
qed

lemma empty_pending [simp]: "requests_pending bind (empty_world s)"
  by (simp add: requests_pending_def empty_world_def)

end
