(* ===== verification/Draft_Properties.thy ===== *)
theory Draft_Properties
  imports Comment_Drafts Issue_Draft
begin

text \<open>
  The properties of the draft stores behind the composers: the three bindings implement one
  draft slot, and what a reload leaves of the drafts of comments and of the issue draft.
\<close>

section \<open>Runs of the comment store\<close>

datatype comment_action =
    TextTo int string string
  | AppendTo int string string
  | RowsTo int string "js list"
  | AddTo int string js
  | SettleIn int string string js
  | FailIn int string string js
  | RemoveFrom int string string
  | ClearAt string

fun comment_step :: "comment_drafts \<Rightarrow> comment_action \<Rightarrow> comment_drafts" where
  "comment_step s (TextTo now k t) = setDraft now k t s"
| "comment_step s (AppendTo now k md) = appendToDraftContent now k md s"
| "comment_step s (RowsTo now k rows) = setAttachments now k rows s"
| "comment_step s (AddTo now k u) = addCommentUpload now k u s"
| "comment_step s (SettleIn now k i att) = settleCommentUpload now k i att s"
| "comment_step s (FailIn now k i e) = failCommentUpload now k i e s"
| "comment_step s (RemoveFrom now k i) = removeCommentUpload now k i s"
| "comment_step s (ClearAt k) = clearDraft k s"

definition comment_run :: "comment_drafts \<Rightarrow> comment_action list \<Rightarrow> comment_drafts" where
  "comment_run s acts = foldl comment_step s acts"

text \<open>The callers add uploads with an id and a status, and rows with an id or an address.\<close>

fun shaped_action :: "comment_action \<Rightarrow> bool" where
  "shaped_action (AddTo now k u) \<longleftrightarrow> isDraftUploadShape u"
| "shaped_action (RowsTo now k rows) \<longleftrightarrow> list_all (\<lambda>a. is_string (js_or (get_prop a ''id'') (get_prop a ''url''))) rows"
| "shaped_action _ \<longleftrightarrow> True"

definition drafts_shaped :: "comment_drafts \<Rightarrow> bool" where
  "drafts_shaped drafts \<longleftrightarrow> (\<forall>(k, d) \<in> set drafts. list_all isDraftUploadShape (draftAttachments d))"

lemma shaped_uploads: "drafts_shaped drafts \<Longrightarrow> list_all isDraftUploadShape (uploadsOf drafts k)"
  by (auto simp: drafts_shaped_def uploadsOf_def split: option.splits dest!: map_of_SomeD)

lemma shaped_delete: "drafts_shaped drafts \<Longrightarrow> drafts_shaped (obj_delete drafts k)"
  by (auto simp: drafts_shaped_def AList.delete_eq)

lemma shaped_set: "drafts_shaped drafts \<Longrightarrow> list_all isDraftUploadShape (draftAttachments d) \<Longrightarrow>
    drafts_shaped (obj_set drafts k d)"
  using obj_set_subset [of k d drafts] by (fastforce simp: drafts_shaped_def)

lemma shaped_write:
  assumes "drafts_shaped drafts" and "\<And>us. arg = NewArray us \<Longrightarrow> list_all isDraftUploadShape us"
  shows "drafts_shaped (writeDraft now drafts key content arg)"
  using assms
  by (auto simp: writeDraft_def Let_def intro!: shaped_set shaped_delete shaped_uploads
      split: option.splits uploads_arg.splits)

lemma settled_shape: "isDraftUploadShape (settled_upload uid att)"
  by (simp add: shape_iff settled_upload_def attachmentToDraftUpload_def obj_simps)

lemma failed_shape: "isDraftUploadShape (failed_upload uid e t)"
  by (simp add: shape_iff failed_upload_def)

lemma wrapped_row_shape: "is_string (js_or (get_prop a ''id'') (get_prop a ''url'')) \<Longrightarrow>
    isDraftUploadShape (attachmentToDraftUpload a)"
  by (simp add: shape_iff attachmentToDraftUpload_def)

lemma step_shaped:
  assumes "drafts_shaped s" and "shaped_action a"
  shows "drafts_shaped (comment_step s a)"
  using assms settled_shape failed_shape wrapped_row_shape shaped_uploads [OF assms(1)]
  by (cases a) (auto simp: setDraft_def setAttachments_def comment_ops clearDraft_def Let_def list_all_iff
      intro!: shaped_write shaped_delete split: option.splits)

lemma step_drafts_ok: "drafts_ok s \<Longrightarrow> drafts_ok (comment_step s a)"
  by (cases a) (simp_all add: setDraft_def setAttachments_def comment_ops clearDraft_def Let_def
      drafts_ok_write drafts_ok_delete split: option.splits)

lemma comment_run_ok:
  "drafts_ok s \<Longrightarrow> drafts_shaped s \<Longrightarrow> list_all shaped_action acts \<Longrightarrow>
     drafts_ok (comment_run s acts) \<and> drafts_shaped (comment_run s acts)"
  unfolding comment_run_def
  by (induction acts arbitrary: s) (simp_all add: step_drafts_ok step_shaped)

section \<open>A reload of the comment store\<close>

lemma stored_get: "obj_get (stored_drafts drafts) k =
    map_option (\<lambda>d. \<lparr>draftContent = draftContent d,
      draftAttachments = json_value (JArr (draftAttachments d)), draftUpdatedAt = draftUpdatedAt d\<rparr>)
      (obj_get drafts k)"
  unfolding stored_drafts_def by (induction drafts) auto

lemma stored_wf: "obj_wf drafts \<Longrightarrow> obj_wf (stored_drafts drafts)"
  by (simp add: obj_wf_def stored_drafts_def comp_def split_beta)

definition kept_draft :: "int \<Rightarrow> js comment_draft \<Rightarrow> bool" where
  "kept_draft now v \<longleftrightarrow> draftUpdatedAt v \<ge> now - TTL_MS \<and>
     isMeaningful (draftContent v) (normalizeStoredUploads (draftAttachments v))"

definition pruned_draft :: "js comment_draft \<Rightarrow> js list comment_draft" where
  "pruned_draft v = \<lparr>draftContent = draftContent v,
     draftAttachments = normalizeStoredUploads (draftAttachments v), draftUpdatedAt = draftUpdatedAt v\<rparr>"

lemma prune_eq: "pruneStaleDrafts now drafts =
    foldl (\<lambda>out (k, v). if kept_draft now v then obj_set out k (pruned_draft v) else out) [] (obj_entries drafts)"
  unfolding pruneStaleDrafts_def kept_draft_def pruned_draft_def Let_def by (rule refl)

lemma prune_get: "obj_wf drafts \<Longrightarrow> obj_get (pruneStaleDrafts now drafts) k =
    (case obj_get drafts k of
       Some v \<Rightarrow> if kept_draft now v then Some (pruned_draft v) else None
     | None \<Rightarrow> None)"
  unfolding prune_eq by (rule obj_collect_get)

lemma pruned_drafts_ok:
  assumes "obj_wf drafts"
  shows "drafts_ok (pruneStaleDrafts now drafts)"
proof -
  have wf: "obj_wf (pruneStaleDrafts now drafts)" unfolding prune_eq by (rule obj_collect_wf)
  have "isMeaningful (draftContent d) (draftAttachments d)" if "(k, d) \<in> set (pruneStaleDrafts now drafts)" for k d
    using that prune_get [OF assms, of now k] unfolding obj_get_in [OF wf, symmetric]
    by (auto simp: pruned_draft_def kept_draft_def split: option.splits if_splits)
  with wf show ?thesis by (auto simp: drafts_ok_def list_all_iff)
qed

text \<open>After any run of the comment composers no stored draft is empty, and a reload keeps the text of exactly the drafts that are younger than thirty days and still have text or an upload that is not a placeholder; of the uploads it keeps all but the placeholders.\<close>

theorem comment_drafts_survive:
  assumes "list_all shaped_action acts"
  shows "let s = comment_run [] acts; s' = pruneStaleDrafts now (stored_drafts s) in
    drafts_ok s \<and> drafts_ok s' \<and>
    (\<forall>k. obj_get s' k =
      (case obj_get s k of
         None \<Rightarrow> None
       | Some d \<Rightarrow>
           (let us = filter normal_upload (draftAttachments d) in
            if draftUpdatedAt d \<ge> now - TTL_MS \<and> (trim (draftContent d) \<noteq> [] \<or> us \<noteq> [])
            then Some (d\<lparr>draftAttachments := map json_value us\<rparr>) else None)))"
proof -
  let ?s = "comment_run [] acts"
  have run: "drafts_ok ?s" "drafts_shaped ?s"
    using comment_run_ok [of "[]" acts] assms by (simp_all add: drafts_shaped_def)
  then have wf: "obj_wf ?s" by (simp add: drafts_ok_def)
  have norm: "normalizeStoredUploads (json_value (JArr (draftAttachments d))) =
      map json_value (filter normal_upload (draftAttachments d))" if "obj_get ?s k = Some d" for k d
    using run(2) map_of_SomeD [OF that] by (intro normalize_shaped) (auto simp: drafts_shaped_def)
  have "obj_get (pruneStaleDrafts now (stored_drafts ?s)) k =
      (case obj_get ?s k of
         None \<Rightarrow> None
       | Some d \<Rightarrow>
           (let us = filter normal_upload (draftAttachments d) in
            if draftUpdatedAt d \<ge> now - TTL_MS \<and> (trim (draftContent d) \<noteq> [] \<or> us \<noteq> [])
            then Some (d\<lparr>draftAttachments := map json_value us\<rparr>) else None))" for k
    using norm [of k] unfolding prune_get [OF stored_wf [OF wf]]
    by (auto simp: stored_get kept_draft_def pruned_draft_def isMeaningful_def Let_def
        simp del: json_value.simps split: option.splits)
  with run(1) pruned_drafts_ok [OF stored_wf [OF wf]] show ?thesis by (simp add: Let_def)
qed

lemma comment_drafts_survive_witness:
  "getDraft ''new:i1'' (pruneStaleDrafts 5 (stored_drafts
     (comment_run [] [TextTo 1 ''new:i1'' ''hello'', AddTo 2 ''new:i1'' (demo_upload ''uploading'')]))) =
     Some ''hello'' \<and>
   uploadsOf (pruneStaleDrafts 5 (stored_drafts
     (comment_run [] [TextTo 1 ''new:i1'' ''hello'', AddTo 2 ''new:i1'' (demo_upload ''uploading'')])))
     ''new:i1'' = []"
proof -
  let ?acts = "[TextTo 1 ''new:i1'' ''hello'', AddTo 2 ''new:i1'' (demo_upload ''uploading'')]"
  have "list_all shaped_action ?acts" by code_simp
  note all = comment_drafts_survive [OF this, of 5, unfolded Let_def, THEN conjunct2, THEN conjunct2,
    rule_format, of "''new:i1''"]
  have "obj_get (comment_run [] ?acts) ''new:i1'' =
      Some \<lparr>draftContent = ''hello'', draftAttachments = [demo_upload ''uploading''], draftUpdatedAt = 2\<rparr>"
    by code_simp
  moreover have "filter normal_upload [demo_upload ''uploading''] = []" by code_simp
  moreover have "trim ''hello'' \<noteq> []" by code_simp
  ultimately show ?thesis using all by (simp add: getDraft_def uploadsOf_def TTL_MS_def)
qed

section \<open>A reload of the issue draft\<close>

datatype issue_action =
    PatchShared "js obj"
  | PatchManual "js obj"
  | PatchAgent "js obj"
  | ModeTo bool
  | LastTo js js
  | ClearIssue
  | UploadOp draft_op

text \<open>The upload operations of a form go through its binding, which may throw when a body is no text.\<close>

fun issue_step :: "issue_draft_store \<Rightarrow> issue_action \<Rightarrow> issue_draft_store" where
  "issue_step s (PatchShared p) = setShared p s"
| "issue_step s (PatchManual p) = setManual p s"
| "issue_step s (PatchAgent p) = setAgent p s"
| "issue_step s (ModeTo to_agent) = setActiveMode (if to_agent then ''agent'' else ''manual'') s"
| "issue_step s (LastTo t i) = setLastAssignee t i s"
| "issue_step s ClearIssue = clearIssueDraft s"
| "issue_step s (UploadOp a) =
     (case binding_op (issueCreateBinding (activeMode (draft s))) a s of Inl e \<Rightarrow> s | Inr s' \<Rightarrow> s')"

definition issue_run :: "issue_draft_store \<Rightarrow> issue_action list \<Rightarrow> issue_draft_store" where
  "issue_run s acts = foldl issue_step s acts"

definition issue_wf :: "issue_draft_store \<Rightarrow> bool" where
  "issue_wf s \<longleftrightarrow> obj_wf (shared (draft s)) \<and> obj_wf (manual (draft s)) \<and> obj_wf (agent (draft s)) \<and>
     activeMode (draft s) \<in> {''agent'', ''manual''}"

lemma empty_wf [simp]: "obj_wf emptyShared" "obj_wf emptyManual" "obj_wf emptyAgent"
  by (simp_all add: obj_wf_def emptyShared_def emptyManual_def emptyAgent_def)

lemma set_op_wf: "issue_wf s \<Longrightarrow> issue_wf (setShared p s)" "issue_wf s \<Longrightarrow> issue_wf (setManual p s)"
    "issue_wf s \<Longrightarrow> issue_wf (setAgent p s)"
  by (simp_all add: issue_wf_def setShared_def setManual_def setAgent_def obj_wf_spread)

lemma upload_op_wf: "issue_wf s \<Longrightarrow> binding_op (issueCreateBinding mode) a s = Inr s' \<Longrightarrow> issue_wf s'"
  by (cases a) (auto simp: issueCreateBinding_def create_add_def create_settle_def create_fail_def
      create_remove_def create_append_def setSharedUploads_def Let_def set_op_wf
      split: option.splits js.splits if_splits)

lemma step_issue_wf: "issue_wf s \<Longrightarrow> issue_wf (issue_step s a)"
proof (cases a)
  case (UploadOp op)
  then show "issue_wf s \<Longrightarrow> issue_wf (issue_step s a)"
    by (auto split: sum.splits dest: upload_op_wf)
next
  case (ModeTo m)
  then show "issue_wf s \<Longrightarrow> issue_wf (issue_step s a)" by (simp add: issue_wf_def setActiveMode_def)
next
  case (LastTo t i)
  then show "issue_wf s \<Longrightarrow> issue_wf (issue_step s a)" by (simp add: issue_wf_def setLastAssignee_def)
next
  case ClearIssue
  then show "issue_wf s \<Longrightarrow> issue_wf (issue_step s a)"
    by (simp add: issue_wf_def clearIssueDraft_def obj_wf_spread)
qed (simp_all add: set_op_wf)

lemma migrated_draft_wf: "issue_wf (s\<lparr>draft := migrateDraft raw\<rparr>)"
  by (simp add: issue_wf_def migrateDraft_def obj_wf_spread Let_def)

lemma run_issue_wf: "issue_wf s \<Longrightarrow> issue_wf (issue_run s acts)"
  unfolding issue_run_def by (induction acts arbitrary: s) (simp_all add: step_issue_wf)

text \<open>What a part of the draft reads back: a member that is \<open>undefined\<close> gets its default.\<close>

definition reread :: "js obj \<Rightarrow> js obj \<Rightarrow> string \<Rightarrow> js" where
  "reread defaults part k =
     (let v = get_prop (JObj part) k in if v = JUndef then get_prop (JObj defaults) k else json_value v)"

lemma spread_json: "obj_wf part \<Longrightarrow>
    get_prop (JObj (obj_spread defaults (members (json_value (JObj part))))) k = reread defaults part k"
  by (simp add: obj_get_spread obj_wf_json members_json reread_def Let_def
      split: option.splits del: json_value.simps)

lemma migrate_reload:
  assumes "issue_wf s"
  shows "migrateDraft (json_value (draft_value (draft s))) =
    \<lparr>shared = obj_set (obj_spread emptyShared (members (json_value (JObj (shared (draft s)))))) ''attachments''
       (JArr (normalizeStoredUploads (json_value (get_prop (JObj (shared (draft s))) ''attachments'')))),
     manual = obj_spread emptyManual (members (json_value (JObj (manual (draft s))))),
     agent = obj_spread emptyAgent (members (json_value (JObj (agent (draft s))))),
     activeMode = activeMode (draft s)\<rparr>"
proof -
  let ?d = "members (json_value (draft_value (draft s)))"
  have d: "?d = [(''shared'', json_value (JObj (shared (draft s)))), (''manual'', json_value (JObj (manual (draft s)))),
      (''agent'', json_value (JObj (agent (draft s)))), (''activeMode'', JStr (activeMode (draft s)))]"
    by (simp add: draft_value_def)
  have obj: "js_truthy (json_value (draft_value (draft s)))" "is_object (json_value (draft_value (draft s)))"
    by (simp_all add: draft_value_def js_truthy_def)
  have flat: "\<not> isLegacyFlatDraft ?d" by (simp add: isLegacyFlatDraft_def d)
  have nn: "nullish (json_value (JObj ob)) x = json_value (JObj ob)" for ob x by (simp add: nullish_def)
  show ?thesis
    using assms obj flat
    by (simp add: migrateDraft_def Let_def nn d issue_wf_def get_prop_json [symmetric] del: json_value.simps)
      (auto simp: d)
qed

text \<open>Whatever the forms did, a reload gives back every field of both forms and the active one (a field that was undefined gets its default), and of the shared uploads those that normalize; a store that never had an assignee chosen leaves the last assignee of the state it is merged into, which on a workspace switch is the state of the previous workspace.\<close>

theorem issue_draft_reload:
  "let s = issue_run initial_issue_store acts; s' = mergeIssueDraft (json_value (store_value s)) s0 in
    (\<forall>k. get_prop (JObj (manual (draft s'))) k = reread emptyManual (manual (draft s)) k \<and>
         get_prop (JObj (agent (draft s'))) k = reread emptyAgent (agent (draft s)) k \<and>
         get_prop (JObj (shared (draft s'))) k =
           (if k = ''attachments''
            then JArr (normalizeStoredUploads (json_value (get_prop (JObj (shared (draft s))) k)))
            else reread emptyShared (shared (draft s)) k)) \<and>
    activeMode (draft s') = activeMode (draft s) \<and>
    lastAssigneeId s' = (if lastAssigneeId s = JUndef then lastAssigneeId s0 else json_value (lastAssigneeId s))"
proof -
  let ?s = "issue_run initial_issue_store acts"
  let ?s' = "mergeIssueDraft (json_value (store_value ?s)) s0"
  have wf: "issue_wf ?s"
    using migrated_draft_wf [of JUndef initial_issue_store]
    by (intro run_issue_wf) (simp add: initial_issue_store_def)
  have nn: "nullish (json_value (store_value ?s)) x = json_value (store_value ?s)" for x
    by (simp add: nullish_def store_value_def)
  have "get_prop (JObj (members (json_value (store_value ?s)))) ''draft'' = json_value (draft_value (draft ?s))"
    by (simp add: store_value_def draft_value_def)
  then have d: "draft ?s' = migrateDraft (json_value (draft_value (draft ?s)))"
    by (simp add: mergeIssueDraft_def nn Let_def del: get_prop.simps)
  have "obj_get (members (json_value (store_value ?s))) ''lastAssigneeId'' =
      (if lastAssigneeId ?s = JUndef then None else Some (json_value (lastAssigneeId ?s)))"
    by (simp add: store_value_def)
  then have l: "lastAssigneeId ?s' =
      (if lastAssigneeId ?s = JUndef then lastAssigneeId s0 else json_value (lastAssigneeId ?s))"
    by (simp add: mergeIssueDraft_def nn Let_def)
  note parts = wf [unfolded issue_wf_def]
  have other: "get_prop (JObj (obj_set ob ''attachments'' v)) k =
      (if k = ''attachments'' then v else get_prop (JObj ob) k)" for ob v k
    by (simp add: obj_simps)
  show ?thesis
    using parts l
    by (simp add: d migrate_reload [OF wf] spread_json other Let_def del: json_value.simps get_prop.simps)
qed

section \<open>One slot behind three stores\<close>

text \<open>C35. The chat store, the comment drafts and the issue draft are the same draft to the upload engine: from drafts with the same visible body and the same uploads, any sequence of its operations ends, in each of them without an exception, with the same body and uploads.\<close>

theorem bindings_agree:
  assumes "chat_body_ok key c" and "drafts_ok d" and "create_body_ok mode i"
    and "slot_of (makeUploadBinding key) c = v" and "slot_of (commentBinding now k) d = v"
    and "slot_of (issueCreateBinding mode) i = v"
  shows "\<exists>c' d' i'. binding_run (makeUploadBinding key) ops c = Inr c' \<and>
    binding_run (commentBinding now k) ops d = Inr d' \<and>
    binding_run (issueCreateBinding mode) ops i = Inr i' \<and>
    slot_of (makeUploadBinding key) c' = fold spec_op ops v \<and>
    slot_of (commentBinding now k) d' = fold spec_op ops v \<and>
    slot_of (issueCreateBinding mode) i' = fold spec_op ops v"
  using chat_binding.run_refines [OF assms(1), of ops] comment_binding.run_refines [OF assms(2), of now k ops]
    create_binding.run_refines [OF assms(3), of ops] assms(4-6)
  by metis

lemma bindings_agree_witness:
  "\<exists>c' d' i'. binding_run (makeUploadBinding ''s1'')
       [AddOp (demo_upload ''uploading''), SettleOp ''u1'' (JObj [(''id'', JStr ''at1'')]), AppendOp ''x'']
       (createChatStore (at_slug ''a'') (\<lambda>_. None)) = Inr c' \<and>
     binding_run (commentBinding 7 ''new:i1'')
       [AddOp (demo_upload ''uploading''), SettleOp ''u1'' (JObj [(''id'', JStr ''at1'')]), AppendOp ''x''] [] = Inr d' \<and>
     binding_run (issueCreateBinding ''agent'')
       [AddOp (demo_upload ''uploading''), SettleOp ''u1'' (JObj [(''id'', JStr ''at1'')]), AppendOp ''x'']
       initial_issue_store = Inr i' \<and>
     slot_body (slot_of (makeUploadBinding ''s1'') c') = ''x'' \<and>
     slot_of (commentBinding 7 ''new:i1'') d' = slot_of (issueCreateBinding ''agent'') i'"
proof -
  let ?c = "createChatStore (at_slug ''a'') (\<lambda>_. None)" and ?v = "\<lparr>slot_body = [], slot_uploads = []\<rparr>"
  let ?ops = "[AddOp (demo_upload ''uploading''), SettleOp ''u1'' (JObj [(''id'', JStr ''at1'')]), AppendOp ''x'']"
  have "chat_body_ok ''s1'' ?c" "drafts_ok []" "create_body_ok ''agent'' initial_issue_store"
    "slot_of (makeUploadBinding ''s1'') ?c = ?v" "slot_of (commentBinding 7 ''new:i1'') [] = ?v"
    "slot_of (issueCreateBinding ''agent'') initial_issue_store = ?v"
    by code_simp+
  note ends = bindings_agree [OF this, of ?ops]
  moreover have "slot_body (fold spec_op ?ops ?v) = ''x''" by code_simp
  ultimately show ?thesis by metis
qed

end
