(* ===== verification/Upload_Properties.thy ===== *)
theory Upload_Properties
  imports Upload_Gate Draft_Properties
begin

text \<open>
  The upload engine over the stores of the application: the chat drafts, the comment drafts and
  the issue draft side by side, and the clock the comment drafts read. The targets are the
  drafts of the three stores.
\<close>

section \<open>The stores together\<close>

record app_drafts =
  chatStore :: chat_sys
  commentStore :: comment_drafts
  createStore :: issue_draft_store
  clock :: int

datatype draft_target = ChatDraft string | CommentDraft string | CreateDraft string

definition lift_binding :: "('s \<Rightarrow> 'a) \<Rightarrow> ('a \<Rightarrow> 's \<Rightarrow> 's) \<Rightarrow> ('s \<Rightarrow> 'a upload_binding) \<Rightarrow> string \<Rightarrow>
    's upload_binding" where
  "lift_binding get put b key =
     \<lparr>registryKey = key,
      getUploads = (\<lambda>s. getUploads (b s) (get s)),
      addUpload = (\<lambda>u s. put (addUpload (b s) u (get s)) s),
      settleUpload = (\<lambda>uid att s. put (settleUpload (b s) uid att (get s)) s),
      failUpload = (\<lambda>uid e s. put (failUpload (b s) uid e (get s)) s),
      removeUpload = (\<lambda>uid s. put (removeUpload (b s) uid (get s)) s),
      getBody = (\<lambda>s. getBody (b s) (get s)),
      appendToBody = (\<lambda>md s. case appendToBody (b s) md (get s) of Inl e \<Rightarrow> Inl e | Inr x \<Rightarrow> Inr (put x s))\<rparr>"

fun appBinding :: "draft_target \<Rightarrow> app_drafts upload_binding" where
  "appBinding (ChatDraft k) =
     lift_binding chatStore (\<lambda>x s. s\<lparr>chatStore := x\<rparr>) (\<lambda>s. makeUploadBinding k) (''chat:'' @ k)"
| "appBinding (CommentDraft k) =
     lift_binding commentStore (\<lambda>x s. s\<lparr>commentStore := x\<rparr>) (\<lambda>s. commentBinding (clock s) k) (''comment:'' @ k)"
| "appBinding (CreateDraft mode) =
     lift_binding createStore (\<lambda>x s. s\<lparr>createStore := x\<rparr>) (\<lambda>s. issueCreateBinding mode)
       (''issue-create:'' @ mode)"

fun target_ok :: "draft_target \<Rightarrow> app_drafts \<Rightarrow> bool" where
  "target_ok (ChatDraft k) s \<longleftrightarrow> chat_body_ok k (chatStore s)"
| "target_ok (CommentDraft k) s \<longleftrightarrow> drafts_ok (commentStore s)"
| "target_ok (CreateDraft mode) s \<longleftrightarrow> create_body_ok mode (createStore s)"

definition app_reset :: "app_drafts \<Rightarrow> app_drafts" where
  "app_reset s = s\<lparr>chatStore := resetInMemory (chatStore s), commentStore := comment_reset (commentStore s),
     createStore := issue_reset (createStore s)\<rparr>"

lemma lift_op: "binding_op (lift_binding get put b key) a s =
    (case binding_op (b s) a (get s) of Inl e \<Rightarrow> Inl e | Inr x \<Rightarrow> Inr (put x s))"
  by (cases a) (simp_all add: lift_binding_def)

lemma lift_law:
  assumes law: "\<And>s. draft_binding (b s) okay" and get_put: "\<And>x s. get (put x s) = x"
    and views: "\<And>x s. getUploads (b (put x s)) = getUploads (b s)" "\<And>x s. getBody (b (put x s)) = getBody (b s)"
  shows "draft_binding (lift_binding get put b key) (\<lambda>s. okay (get s))"
proof
  fix s
  assume "okay (get s)"
  then show "is_string (getBody (lift_binding get put b key) s)"
    using draft_binding.body_is_text [OF law [of s]] by (simp add: lift_binding_def)
next
  fix s a
  assume "okay (get s)"
  then obtain x where "binding_op (b s) a (get s) = Inr x" "okay x" "slot_of (b s) x = spec_op a (slot_of (b s) (get s))"
    using draft_binding.op_refines [OF law [of s], of "get s" a] by blast
  then show "\<exists>s'. binding_op (lift_binding get put b key) a s = Inr s' \<and> okay (get s') \<and>
      slot_of (lift_binding get put b key) s' = spec_op a (slot_of (lift_binding get put b key) s)"
    by (simp add: lift_op get_put slot_of_def views) (simp add: lift_binding_def get_put views)
qed

lemma chat_frame: "binding_op (makeUploadBinding k) a s = Inr s' \<Longrightarrow> j \<noteq> k \<Longrightarrow> uploads_of s' j = uploads_of s j"
  by (cases a) (auto simp: makeUploadBinding_def addInputDraftUpload_def settleInputDraftUpload_def
      failInputDraftUpload_def removeInputDraftUpload_def appendToInputDraft_def Let_def
      uploads_of_set uploads_of_delete split: option.splits sum.splits)

lemma write_uploads_other: "j \<noteq> k \<Longrightarrow> uploadsOf (writeDraft now s k content arg) j = uploadsOf s j"
  by (simp add: uploadsOf_def write_other)

lemma comment_frame: "binding_op (commentBinding now k) a s = Inr s' \<Longrightarrow> j \<noteq> k \<Longrightarrow> uploadsOf s' j = uploadsOf s j"
  by (cases a) (auto simp: commentBinding_def comment_ops Let_def write_uploads_other split: option.splits)

lemma chat_uploads_op:
  "binding_op (makeUploadBinding k) a s = Inr s' \<Longrightarrow> uploads_of s' k = spec_uploads a (uploads_of s k)"
proof (cases "\<exists>md. a = AppendOp md")
  case True
  then show "binding_op (makeUploadBinding k) a s = Inr s' \<Longrightarrow> uploads_of s' k = spec_uploads a (uploads_of s k)"
    by (auto simp: makeUploadBinding_def appendToInputDraft_def Let_def split: sum.splits)
next
  case False
  then show "binding_op (makeUploadBinding k) a s = Inr s' \<Longrightarrow> uploads_of s' k = spec_uploads a (uploads_of s k)"
    using chat_op [of a k s] by auto
qed

lemma comment_uploads_op:
  "binding_op (commentBinding now k) a s = Inr s' \<Longrightarrow> uploadsOf s' k = spec_uploads a (uploadsOf s k)"
  using spec_settle_other spec_remove_absent
  by (cases a) (auto simp: commentBinding_def comment_ops Let_def write_uploads has_upload_def
      replace_upload_def split: option.splits)

lemma create_uploads_op:
  assumes "binding_op (issueCreateBinding mode) a s = Inr s'"
  shows "sharedUploads s' = spec_uploads a (sharedUploads s)"
proof (cases "\<exists>md. a = AppendOp md")
  case True
  then obtain md where a: "a = AppendOp md" by blast
  then have app: "create_append mode md s = Inr s'" using assms by (simp add: issueCreateBinding_def)
  then obtain t where "create_body mode s = JStr t" by (auto simp: create_append_def split: js.splits)
  from append_state [OF this, of md] app show ?thesis by (simp add: a)
next
  case False
  then show ?thesis using create_op [of a mode s] assms by auto
qed

fun target_uploads :: "draft_target \<Rightarrow> app_drafts \<Rightarrow> js list" where
  "target_uploads (ChatDraft k) s = uploads_of (chatStore s) k"
| "target_uploads (CommentDraft k) s = uploadsOf (commentStore s) k"
| "target_uploads (CreateDraft mode) s = sharedUploads (createStore s)"

lemma app_uploads [simp]: "getUploads (appBinding t) s = target_uploads t s"
  by (cases t) (simp_all add: lift_binding_def makeUploadBinding_def commentBinding_def issueCreateBinding_def)

lemma app_frame:
  assumes "binding_op (appBinding t) a s = Inr s'"
  shows "target_uploads j s' = target_uploads j s \<or> target_uploads j s' = spec_uploads a (target_uploads j s)"
proof (cases t)
  case (ChatDraft k)
  then obtain x where x: "binding_op (makeUploadBinding k) a (chatStore s) = Inr x" "s' = s\<lparr>chatStore := x\<rparr>"
    using assms by (auto simp: lift_op split: sum.splits)
  have "uploads_of x i = uploads_of (chatStore s) i \<or> uploads_of x i = spec_uploads a (uploads_of (chatStore s) i)" for i
    using chat_frame [OF x(1), of i] chat_uploads_op [OF x(1)] by (cases "i = k") simp_all
  then show ?thesis using x(2) by (cases j) simp_all
next
  case (CommentDraft k)
  then obtain x where x: "binding_op (commentBinding (clock s) k) a (commentStore s) = Inr x"
    "s' = s\<lparr>commentStore := x\<rparr>"
    using assms by (auto simp: lift_op split: sum.splits)
  have "uploadsOf x i = uploadsOf (commentStore s) i \<or>
      uploadsOf x i = spec_uploads a (uploadsOf (commentStore s) i)" for i
    using comment_frame [OF x(1), of i] comment_uploads_op [OF x(1)] by (cases "i = k") simp_all
  then show ?thesis using x(2) by (cases j) simp_all
next
  case (CreateDraft mode)
  then obtain x where x: "binding_op (issueCreateBinding mode) a (createStore s) = Inr x"
    "s' = s\<lparr>createStore := x\<rparr>"
    using assms by (auto simp: lift_op split: sum.splits)
  then show ?thesis using create_uploads_op [OF x(1)] by (cases j) auto
qed

interpretation app: upload_stores appBinding target_ok
proof (rule upload_stores.intro)
  fix t
  show "draft_binding (appBinding t) (target_ok t)"
  proof (cases t)
    case (ChatDraft k)
    have "draft_binding (appBinding (ChatDraft k)) (\<lambda>s. chat_body_ok k (chatStore s))"
      unfolding appBinding.simps by (rule lift_law) (simp_all add: chat_binding.draft_binding_axioms)
    then show ?thesis by (simp add: ChatDraft fun_eq_iff [symmetric] target_ok.simps [abs_def] del: appBinding.simps)
  next
    case (CommentDraft k)
    have "draft_binding (appBinding (CommentDraft k)) (\<lambda>s. drafts_ok (commentStore s))"
      unfolding appBinding.simps
      by (rule lift_law, rule comment_binding.draft_binding_axioms) (simp_all add: commentBinding_def)
    then show ?thesis by (simp add: CommentDraft target_ok.simps [abs_def] del: appBinding.simps)
  next
    case (CreateDraft mode)
    have "draft_binding (appBinding (CreateDraft mode)) (\<lambda>s. create_body_ok mode (createStore s))"
      unfolding appBinding.simps by (rule lift_law) (simp_all add: create_binding.draft_binding_axioms)
    then show ?thesis by (simp add: CreateDraft target_ok.simps [abs_def] del: appBinding.simps)
  qed
next
  fix t a s s' j
  assume "binding_op (appBinding t) a s = Inr s'"
  from app_frame [OF this, of j]
  show "getUploads (appBinding j) s' = getUploads (appBinding j) s \<or>
      getUploads (appBinding j) s' = spec_uploads a (getUploads (appBinding j) s)" by simp
qed

section \<open>A run\<close>

definition demo_drafts :: app_drafts where
  "demo_drafts = \<lparr>chatStore = createChatStore (at_slug ''a'') (\<lambda>_. None), commentStore = [],
     createStore = initial_issue_store, clock = 7\<rparr>"

definition demo_file :: upload_file where
  "demo_file = \<lparr>fileName = ''a.pdf'', fileSize = 3, fileType = ''application/pdf'', pastedTextSource = None\<rparr>"

definition demo_target :: draft_target where
  "demo_target = CommentDraft ''new:i1''"

text \<open>A composer starts an upload and is closed; it is opened again and draws the placeholder.\<close>

definition demo_reopen :: "(app_drafts, draft_target) upload_event list" where
  "demo_reopen = [OpenComposer (Some demo_target) None None, CreateEditor 0 [],
     PickFile 0 demo_file ''u1'' [] 0, CloseComposer 0, OpenComposer (Some demo_target) None None,
     CreateEditor 1 [], RebuildPlaceholders 1]"

definition demo_world :: "(app_drafts, draft_target) upload_world" where
  "demo_world = upload_run appBinding demo_reopen (empty_world demo_drafts)"

definition demo_attachment :: js where
  "demo_attachment = JObj [(''id'', JStr ''at1''), (''filename'', JStr ''a.pdf''), (''url'', JStr ''/f'')]"

lemma demo_state:
  "map rqUpload (requests demo_world) = [''u1'']" "map rqTarget (requests demo_world) = [Some demo_target]"
  "map rqMount (requests demo_world) = [0]" "map rqFinished (requests demo_world) = [False]"
  "map rqAborted (requests demo_world) = [False]" "deliveries demo_world = []"
  "doc_of demo_world 1 = Some [Other [], placeholder_card ''u1'' ''a.pdf'' (JNum 3)]"
  "target_uploads demo_target (appDrafts demo_world) = [upload_placeholder ''u1'' demo_file]"
  by code_simp+

lemma demo_facts:
  "target_ok demo_target (appDrafts demo_world)" "linkable demo_attachment"
  "obj_get (liveEditors demo_world) (registryKey (appBinding demo_target)) = Some 1"
  "contentReferencesAttachment (getBody (appBinding demo_target) (appDrafts demo_world)) demo_attachment = Inr False"
  "findUploadNode [Other [], placeholder_card ''u1'' ''a.pdf'' (JNum 3)] ''u1'' = Some 1"
  "bindingKey (mounts demo_world ! 1) = Some demo_target"
  by code_simp+

lemma demo_tracks: "tracks appBinding demo_target ''u1'' (appDrafts demo_world)"
  by (simp add: tracks_def demo_state has_upload_def upload_placeholder_def)

lemma demo_request:
  "length (requests demo_world) = 1" "rqUpload (requests demo_world ! 0) = ''u1''"
  "rqTarget (requests demo_world ! 0) = Some demo_target" "rqMount (requests demo_world ! 0) = 0"
  "\<not> rqFinished (requests demo_world ! 0)" "\<not> rqAborted (requests demo_world ! 0)"
proof -
  show len: "length (requests demo_world) = 1" using arg_cong [OF demo_state(1), of length] by simp
  show "rqUpload (requests demo_world ! 0) = ''u1''" "rqTarget (requests demo_world ! 0) = Some demo_target"
    "rqMount (requests demo_world ! 0) = 0" "\<not> rqFinished (requests demo_world ! 0)"
    "\<not> rqAborted (requests demo_world ! 0)"
    using demo_state(1-5) len by (cases "requests demo_world"; simp)+
qed

lemma demo_untracked: "untracked appBinding uid demo_drafts"
proof -
  have "inputDraftAttachments (chat (chatStore demo_drafts)) = []" "commentStore demo_drafts = []"
    "sharedUploads (createStore demo_drafts) = []"
    by code_simp+
  then have "target_uploads t demo_drafts = []" for t
    by (cases t) (simp_all add: uploads_of_def uploadsOf_def)
  then show ?thesis by (simp add: untracked_def tracks_def has_upload_def)
qed

section \<open>Properties\<close>

lemma reset_untracked: "untracked appBinding uid (app_reset s)"
proof -
  have "target_uploads t (app_reset s) = []" for t
    by (cases t) (simp_all add: app_reset_def resetInMemory_def comment_reset_def issue_reset_def uploads_of_def
        uploadsOf_def sharedUploads_def migrateDraft_def nullish_def normalizeStoredUploads_def
        isLegacyFlatDraft_def obj_simps js_truthy_def)
  then show ?thesis by (simp add: untracked_def tracks_def has_upload_def)
qed

text \<open>C31. Logging out aborts every tracked request and empties the drafts, and whatever the session of the next user does (its uploads have other ids), no outcome of an earlier request, aborted in time or not, and no delivery that still waits for an editor changes a draft.\<close>

theorem logout_silences_uploads:
  assumes "ids = set (map rqUpload (requests w)) \<union> set (map dlUpload (deliveries w))"
    and "list_all (foreign_event appBinding ids) es"
  shows "let w1 = resetAllRegisteredDrafts app_reset w; w2 = upload_run appBinding es w1 in
    (\<forall>(i, r) \<in> set (controllers w). r < length (requests w) \<longrightarrow> rqAborted (requests w1 ! r)) \<and>
    (\<forall>r < length (requests w). \<forall>resp. appDrafts (finish_request appBinding r resp w2) = appDrafts w2) \<and>
    (\<forall>uid \<in> ids. \<forall>k att tries.
       \<not> tracks appBinding k uid (appDrafts w2) \<and>
       deliverFinishedUpload appBinding k uid att tries w2 = Returned w2)"
proof -
  let ?w1 = "resetAllRegisteredDrafts app_reset w"
  let ?w2 = "upload_run appBinding es ?w1"
  have gone: "untracked appBinding uid (appDrafts ?w2)" if "uid \<in> ids" for uid
    using app.untracked_run [OF _ assms(2) that, of ?w1] by (simp add: reset_parts reset_untracked)
  obtain more where more: "map rqUpload (requests ?w2) = map rqUpload (requests w) @ more"
    using run_same_uploads [of ?w1 appBinding es] by (auto simp: same_uploads_def reset_parts)
  have old: "r < length (requests ?w2) \<and> rqUpload (requests ?w2 ! r) \<in> ids" if "r < length (requests w)" for r
  proof -
    have len: "length (requests ?w2) = length (requests w) + length more"
      using arg_cong [OF more, of length] by simp
    have "map rqUpload (requests ?w2) ! r = map rqUpload (requests w) ! r"
      using that by (simp add: more nth_append)
    then show ?thesis using that len assms(1) by simp
  qed
  have "appDrafts (finish_request appBinding r resp ?w2) = appDrafts ?w2" if "r < length (requests w)" for r resp
    using old [OF that] gone by (intro app.untracked_finish_silent) simp_all
  moreover have "deliverFinishedUpload appBinding k uid att tries ?w2 = Returned ?w2" if "uid \<in> ids" for k uid att tries
    by (rule app.untracked_delivery_silent [OF gone [OF that]])
  ultimately show ?thesis
    using gone reset_aborts [of _ _ w app_reset] by (auto simp: Let_def untracked_def)
qed

definition next_session :: "(app_drafts, draft_target) upload_event list" where
  "next_session = [CloseComposer 1, OpenComposer (Some demo_target) None None, CreateEditor 2 [],
     PickFile 2 demo_file ''u2'' [] 0]"

lemma logout_silences_uploads_witness:
  "appDrafts (finish_request appBinding 0 (Uploaded demo_attachment)
     (upload_run appBinding next_session (resetAllRegisteredDrafts app_reset demo_world))) =
   appDrafts (upload_run appBinding next_session (resetAllRegisteredDrafts app_reset demo_world))"
proof -
  have "{''u1''} = set (map rqUpload (requests demo_world)) \<union> set (map dlUpload (deliveries demo_world))"
    by (simp only: demo_state) simp
  moreover have "list_all (foreign_event appBinding {''u1''}) next_session" by (simp add: next_session_def)
  ultimately show ?thesis
    using logout_silences_uploads [of "{''u1''}" demo_world next_session] demo_request(1)
    by (simp add: Let_def)
qed



text \<open>C34. The failure of an upload whose composer was closed and opened again takes the upload out of the draft but leaves the placeholder that the new composer drew: whatever happens then, short of deleting the card, loading another draft or closing the composer, its submit gate stays blocked although nothing is uploading.\<close>

theorem failed_placeholder_stays:
  assumes "r < length (requests w)" and "rq = requests w ! r" and "\<not> rqFinished rq" and "\<not> rqAborted rq"
    and "rqTarget rq = Some k" and "target_ok k (appDrafts w)" and "rqMount rq \<noteq> m"
    and "holds_node m n w" and "waiting_node (rqUpload rq) n"
    and "\<And>j. j < length (requests w) \<Longrightarrow> rqUpload (requests w ! j) = rqUpload rq \<Longrightarrow> j \<noteq> r \<Longrightarrow>
      rqFinished (requests w ! j)"
    and "\<And>d. d \<in> set (deliveries w) \<Longrightarrow> dlUpload d \<noteq> rqUpload rq"
    and "list_all (leaves_node m (rqUpload rq)) es"
  shows "let w1 = finish_request appBinding r (Rejected False) w in
    \<not> tracks appBinding k (rqUpload rq) (appDrafts w1) \<and> gate_blocked appBinding m (upload_run appBinding es w1)"
proof -
  let ?w1 = "finish_request appBinding r (Rejected False) w"
  have parts: "appDrafts ?w1 = appDrafts (world_of (onFailed appBinding rq w))"
    "requests ?w1 = (requests w)[r := rq\<lparr>rqFinished := True\<rparr>]" "deliveries ?w1 = deliveries w"
    "holds_node m n ?w1 = holds_node m n (world_of (onFailed appBinding rq w))"
    using assms(1-4) by (simp_all add: finish_request_def settle_request_def Let_def engine_simps)
  have "upload_over (rqUpload rq) ?w1"
    using assms(1,2,10,11) by (auto simp: upload_over_def parts in_set_conv_nth nth_list_update)
  moreover have "holds_node m n ?w1" using holds_failed [OF assms(8,7)] by (simp add: parts)
  moreover have "node_of_upload (rqUpload rq) n" using assms(9) by (simp add: waiting_node_def)
  ultimately have "holds_node m n (upload_run appBinding es ?w1)" using assms(12) by (intro node_stays)
  from holds_blocked [OF this assms(9)] show ?thesis
    using app.failed_untracks [OF assms(6,5)] by (simp add: parts Let_def)
qed

lemma failed_placeholder_stays_witness:
  "gate_blocked appBinding 1 (upload_run appBinding [TypeText 1 0 ''x'', FinishRequest 0 (Rejected False)]
     (finish_request appBinding 0 (Rejected False) demo_world))"
proof -
  let ?rq = "requests demo_world ! 0" and ?n = "placeholder_card ''u1'' ''a.pdf'' (JNum 3)"
  have holds: "holds_node 1 ?n demo_world" using demo_state(7) by (simp add: holds_node_def)
  have waits: "waiting_node (rqUpload ?rq) ?n"
    by (simp add: demo_request waiting_node_def node_of_upload_def placeholder_card_def)
  have leaves: "list_all (leaves_node 1 (rqUpload ?rq)) [TypeText 1 0 ''x'', FinishRequest 0 (Rejected False)]"
    by simp
  show ?thesis
    using failed_placeholder_stays [OF _ refl demo_request(5,6,3) demo_facts(1) _ holds waits _ _ leaves]
      demo_request(1,4) demo_state(6)
    by (simp add: Let_def)
qed

text \<open>C32. In every reachable state, a draft that tracks an upload whose request still runs cannot be submitted: the gate of every composer of that draft is blocked, whichever composer started the upload and whatever its document shows.\<close>

theorem running_upload_blocks_submit:
  assumes "fresh_run appBinding es (empty_world s)" and "w = upload_run appBinding es (empty_world s)"
    and "rq \<in> set (requests w)" and "\<not> rqFinished rq"
    and "bindingKey (mounts w ! m) = Some k" and "tracks appBinding k (rqUpload rq) (appDrafts w)"
  shows "gate_blocked appBinding m w"
  using app.requests_pending_run [OF empty_pending assms(1)] assms(2-6) by (intro pending_blocks) simp_all

lemma running_upload_blocks_submit_witness: "gate_blocked appBinding 1 demo_world"
proof -
  have "fresh_run appBinding demo_reopen (empty_world demo_drafts)"
    using demo_untracked [of "''u1''"]
    by (simp add: demo_reopen_def composer_parts) (simp add: empty_world_def)
  moreover have "requests demo_world ! 0 \<in> set (requests demo_world)" using demo_request(1) by simp
  moreover have "tracks appBinding demo_target (rqUpload (requests demo_world ! 0)) (appDrafts demo_world)"
    using demo_tracks by (simp only: demo_request)
  ultimately show ?thesis
    using running_upload_blocks_submit [of demo_reopen demo_drafts demo_world "requests demo_world ! 0" 1 demo_target]
      demo_request(5) demo_facts(6) by (simp add: demo_world_def [symmetric])
qed

end
