(* ===== verification/Shortcuts.thy ===== *)
theory Shortcuts
  imports JS_Json
begin

text \<open>
  Keyboard shortcuts: the chords and the actions they start
  (\<open>packages/core/shortcuts/definitions.ts\<close>), the persisted store of the user's own bindings
  (\<open>store.ts\<close>), the recording of a binding on the settings page
  (\<open>views/settings/components/keyboard-shortcuts-tab.tsx\<close>), the global key handler
  (\<open>views/layout/global-shortcuts.tsx\<close>) and the submit key of the editors
  (\<open>views/editor/extensions/submit-shortcut.ts\<close>). The platform and the runtime are arguments.
  A key event carries what the code reads of it; whether its target is editable is one bit.
\<close>

section \<open>Chords and actions\<close>

datatype shortcut_platform = Macos | Windows | Linux | Unknown

datatype shortcut_runtime = Web | Desktop

datatype ShortcutActionId =
    OpenSearch | CreateIssue | ToggleSidebar | ToggleChat | FindInIssue | Send
  | GoInbox | GoChat | GoMyIssues | GoIssues | GoProjects | GoAutopilots | GoAgents | GoSquads
  | GoUsage | GoRuntimes | GoSkills | GoSettings

record shortcut_modifiers =
  primary_mod :: bool
  control_mod :: bool
  meta_mod :: bool
  alt_mod :: bool
  shift_mod :: bool

record shortcut_chord =
  chord_key :: string
  chord_modifiers :: shortcut_modifiers

record action_definition =
  shortcut_action :: ShortcutActionId
  action_name :: string
  defaultShortcut :: "shortcut_chord option"
  allowInEditable :: bool

definition no_modifiers :: shortcut_modifiers where
  "no_modifiers = \<lparr>primary_mod = False, control_mod = False, meta_mod = False, alt_mod = False, shift_mod = False\<rparr>"

definition plain_chord :: "string \<Rightarrow> shortcut_chord" where
  "plain_chord k = \<lparr>chord_key = k, chord_modifiers = no_modifiers\<rparr>"

definition primary_chord :: "string \<Rightarrow> shortcut_chord" where
  "primary_chord k = \<lparr>chord_key = k, chord_modifiers = no_modifiers\<lparr>primary_mod := True\<rparr>\<rparr>"

definition nav_action :: "ShortcutActionId \<Rightarrow> string \<Rightarrow> action_definition" where
  "nav_action a name =
     \<lparr>shortcut_action = a, action_name = name, defaultShortcut = None, allowInEditable = False\<rparr>"

definition SHORTCUT_ACTIONS :: "action_definition list" where
  "SHORTCUT_ACTIONS =
     [\<lparr>shortcut_action = OpenSearch, action_name = ''openSearch'',
       defaultShortcut = Some (primary_chord ''K''), allowInEditable = True\<rparr>,
      \<lparr>shortcut_action = CreateIssue, action_name = ''createIssue'',
       defaultShortcut = Some (plain_chord ''C''), allowInEditable = False\<rparr>,
      \<lparr>shortcut_action = ToggleSidebar, action_name = ''toggleSidebar'',
       defaultShortcut = Some (primary_chord ''B''), allowInEditable = False\<rparr>,
      \<lparr>shortcut_action = ToggleChat, action_name = ''toggleChat'',
       defaultShortcut = Some (primary_chord ''J''), allowInEditable = True\<rparr>,
      \<lparr>shortcut_action = FindInIssue, action_name = ''findInIssue'',
       defaultShortcut = Some (primary_chord ''F''), allowInEditable = True\<rparr>,
      \<lparr>shortcut_action = Send, action_name = ''send'',
       defaultShortcut = Some (primary_chord ''Enter''), allowInEditable = True\<rparr>,
      nav_action GoInbox ''goInbox'', nav_action GoChat ''goChat'', nav_action GoMyIssues ''goMyIssues'',
      nav_action GoIssues ''goIssues'', nav_action GoProjects ''goProjects'',
      nav_action GoAutopilots ''goAutopilots'', nav_action GoAgents ''goAgents'',
      nav_action GoSquads ''goSquads'', nav_action GoUsage ''goUsage'',
      nav_action GoRuntimes ''goRuntimes'', nav_action GoSkills ''goSkills'',
      nav_action GoSettings ''goSettings'']"

definition SHORTCUT_ACTION_BY_ID :: "ShortcutActionId \<Rightarrow> action_definition" where
  "SHORTCUT_ACTION_BY_ID a = hd (filter (\<lambda>d. shortcut_action d = a) SHORTCUT_ACTIONS)"

text \<open>The string of an action's id, and the action a string names.\<close>

definition action_id :: "ShortcutActionId \<Rightarrow> string" where
  "action_id a = action_name (SHORTCUT_ACTION_BY_ID a)"

definition action_named :: "string \<Rightarrow> ShortcutActionId option" where
  "action_named s = map_option shortcut_action (find (\<lambda>d. action_name d = s) SHORTCUT_ACTIONS)"

section \<open>Key events\<close>

record keyboard_event =
  event_key :: "string option"
  altGraph :: bool
  metaKey :: bool
  ctrlKey :: bool
  altKey :: bool
  shiftKey :: bool
  repeat_key :: bool
  ime_composing :: bool
  defaultPrevented :: bool
  editable_target :: bool

definition MODIFIER_KEYS :: "string list" where
  "MODIFIER_KEYS =
     [''Alt'', ''AltGraph'', ''CapsLock'', ''Control'', ''Fn'', ''FnLock'', ''Hyper'',
      ''Meta'', ''NumLock'', ''ScrollLock'', ''Shift'', ''Super'', ''Symbol'', ''SymbolLock'']"

definition NON_ACTIONABLE_KEYS :: "string list" where
  "NON_ACTIONABLE_KEYS = [''Dead'', ''Process'', ''Unidentified'']"

definition KEY_LABELS :: "string obj" where
  "KEY_LABELS =
     [('' '', ''Space''), (''ArrowUp'', ''Up''), (''ArrowDown'', ''Down''), (''ArrowLeft'', ''Left''),
      (''ArrowRight'', ''Right''), (''Esc'', ''Escape''), (''+'', ''Plus''), (''-'', ''Minus''),
      (''='', ''Equals''), (''_'', ''Underscore'')]"

text \<open>\<open>/[a-z]/i\<close> and \<open>toUpperCase\<close> of one letter.\<close>

definition is_letter :: "char \<Rightarrow> bool" where
  "is_letter c \<longleftrightarrow> c \<in> set ''abcdefghijklmnopqrstuvwxyzABCDEFGHIJKLMNOPQRSTUVWXYZ''"

definition upper :: "char \<Rightarrow> char" where
  "upper c = (if c \<in> set ''abcdefghijklmnopqrstuvwxyz'' then char_of (of_char c - 32 :: nat) else c)"

definition eventKey :: "keyboard_event \<Rightarrow> string option" where
  "eventKey ev =
     (case event_key ev of
        None \<Rightarrow> None
      | Some k \<Rightarrow>
          if k \<in> set MODIFIER_KEYS \<or> k \<in> set NON_ACTIONABLE_KEYS then None
          else (let label = default_to k (obj_get KEY_LABELS k) in
                case label of [c] \<Rightarrow> Some (if is_letter c then [upper c] else [c]) | _ \<Rightarrow> Some label))"

definition isShortcutChordActionable :: "shortcut_chord \<Rightarrow> bool" where
  "isShortcutChordActionable c \<longleftrightarrow>
     chord_key c \<noteq> [] \<and> chord_key c \<notin> set MODIFIER_KEYS \<and> chord_key c \<notin> set NON_ACTIONABLE_KEYS"

definition shortcutFromEvent :: "shortcut_platform \<Rightarrow> keyboard_event \<Rightarrow> shortcut_chord option" where
  "shortcutFromEvent platform ev =
     (if altGraph ev then None
      else case truthy (eventKey ev) of
        None \<Rightarrow> None
      | Some k \<Rightarrow>
          (let mac = (platform = Macos) in
           Some \<lparr>chord_key = k, chord_modifiers =
             \<lparr>primary_mod = (if mac then metaKey ev else ctrlKey ev),
              control_mod = (if mac then ctrlKey ev else False),
              meta_mod = (if mac then False else metaKey ev),
              alt_mod = altKey ev, shift_mod = shiftKey ev\<rparr>\<rparr>))"

definition shortcutChordEquals :: "shortcut_chord option \<Rightarrow> shortcut_chord option \<Rightarrow> bool" where
  "shortcutChordEquals l r =
     (case (l, r) of
        (Some a, Some b) \<Rightarrow>
          chord_key a = chord_key b \<and>
          primary_mod (chord_modifiers a) = primary_mod (chord_modifiers b) \<and>
          control_mod (chord_modifiers a) = control_mod (chord_modifiers b) \<and>
          meta_mod (chord_modifiers a) = meta_mod (chord_modifiers b) \<and>
          alt_mod (chord_modifiers a) = alt_mod (chord_modifiers b) \<and>
          shift_mod (chord_modifiers a) = shift_mod (chord_modifiers b)
      | (None, None) \<Rightarrow> True
      | _ \<Rightarrow> False)"

definition shortcutMatchesEvent :: "shortcut_platform \<Rightarrow> shortcut_chord option \<Rightarrow> keyboard_event \<Rightarrow> bool" where
  "shortcutMatchesEvent platform sc ev =
     (case sc of
        None \<Rightarrow> False
      | Some c \<Rightarrow> shortcutFromEvent platform ev \<noteq> None \<and>
                  shortcutChordEquals (Some c) (shortcutFromEvent platform ev))"

definition isPlainShortcut :: "shortcut_chord option \<Rightarrow> string \<Rightarrow> bool" where
  "isPlainShortcut sc k = shortcutChordEquals sc (Some (plain_chord k))"

section \<open>Which chords an action may have\<close>

definition PRIMARY_RESERVED_KEYS :: "string list" where
  "PRIMARY_RESERVED_KEYS =
     [''W'', ''R'', ''Q'', ''A'', ''C'', ''V'', ''X'', ''Y'', ''Z'',
      ''Equals'', ''Plus'', ''Minus'', ''Underscore'', ''0'']"

definition BROWSER_ONLY_PRIMARY_RESERVED_KEYS :: "string list" where
  "BROWSER_ONLY_PRIMARY_RESERVED_KEYS = [''P'', ''L'', ''T'', ''N'', ''D'', ''U'']"

definition isReservedShortcut :: "shortcut_platform \<Rightarrow> shortcut_runtime \<Rightarrow> shortcut_chord \<Rightarrow> bool" where
  "isReservedShortcut platform runtime c =
     (let m = chord_modifiers c; k = chord_key c;
          barePrimary = (\<not> control_mod m \<and> \<not> meta_mod m \<and> \<not> alt_mod m \<and> \<not> shift_mod m)
      in if k = ''F5'' then True
         else if primary_mod m \<and> k \<in> set PRIMARY_RESERVED_KEYS then True
         else if primary_mod m \<and> k \<in> set BROWSER_ONLY_PRIMARY_RESERVED_KEYS \<and>
                 (runtime \<noteq> Desktop \<or> \<not> barePrimary) then True
         else if platform = Macos then
           primary_mod m \<and> (k = ''Space'' \<or> k = ''Tab'' \<or> k = ''M'' \<or> k = ''H'') \<or>
           control_mod m \<and> k \<in> set [''Up'', ''Down'', ''Left'', ''Right'']
         else meta_mod m \<or> alt_mod m \<and> (k = ''Tab'' \<or> k = ''F4''))"

definition PLAIN_GLOBAL_RESERVED_KEYS :: "string list" where
  "PLAIN_GLOBAL_RESERVED_KEYS =
     [''Enter'', ''Space'', ''Tab'', ''Escape'', ''Backspace'', ''Delete'',
      ''Up'', ''Down'', ''Left'', ''Right'', ''Home'', ''End'', ''PageUp'', ''PageDown'']"

definition hasCommandModifier :: "shortcut_chord \<Rightarrow> bool" where
  "hasCommandModifier c \<longleftrightarrow>
     (let m = chord_modifiers c in primary_mod m \<or> control_mod m \<or> meta_mod m)"

definition hasShortcutModifier :: "shortcut_chord \<Rightarrow> bool" where
  "hasShortcutModifier c \<longleftrightarrow>
     (let m = chord_modifiers c in primary_mod m \<or> control_mod m \<or> meta_mod m \<or> alt_mod m \<or> shift_mod m)"

definition isShortcutAllowedForAction ::
    "shortcut_platform \<Rightarrow> shortcut_runtime \<Rightarrow> ShortcutActionId \<Rightarrow> shortcut_chord \<Rightarrow> bool" where
  "isShortcutAllowedForAction platform runtime a c =
     (if \<not> isShortcutChordActionable c then False
      else if isReservedShortcut platform runtime c then False
      else if chord_key c = ''Tab'' then False
      else if a = Send then
        shortcutChordEquals (Some c) (Some (plain_chord ''Enter'')) \<or>
        shortcutChordEquals (Some c) (Some (primary_chord ''Enter''))
      else if allowInEditable (SHORTCUT_ACTION_BY_ID a) then hasCommandModifier c
      else hasShortcutModifier c \<or> chord_key c \<notin> set PLAIN_GLOBAL_RESERVED_KEYS)"

text \<open>The chord of a preference stored as a string by the first version.\<close>

definition parseLegacyShortcut :: "string \<Rightarrow> shortcut_chord option" where
  "parseLegacyShortcut value =
     (if value = [] then None
      else
        (let words = split_on (CHR ''+'') value; k = last words; parts = butlast words in
         if k = [] then None
         else if \<exists>p \<in> set parts. p \<notin> set [''Mod'', ''Ctrl'', ''Meta'', ''Alt'', ''Shift''] then None
         else Some \<lparr>chord_key = k, chord_modifiers =
           \<lparr>primary_mod = (''Mod'' \<in> set parts), control_mod = (''Ctrl'' \<in> set parts),
            meta_mod = (''Meta'' \<in> set parts), alt_mod = (''Alt'' \<in> set parts),
            shift_mod = (''Shift'' \<in> set parts)\<rparr>\<rparr>))"

text \<open>
  The store of the user's bindings, its persistence, and the two users of it: the settings page,
  which records bindings, and the global key handler. An override of \<open>None\<close> switches an action
  off; an action without an override has its default.
\<close>

type_synonym overrides = "shortcut_chord option obj"

section \<open>Reading stored overrides\<close>

definition isRecord :: "js \<Rightarrow> bool" where
  "isRecord v \<longleftrightarrow> v \<noteq> JNull \<and> is_object v \<and> \<not> is_array v"

text \<open>\<open>None\<close> is a malformed chord, \<open>Some None\<close> is \<open>null\<close>.\<close>

definition sanitizeShortcutChord :: "js \<Rightarrow> shortcut_chord option option" where
  "sanitizeShortcutChord v =
     (if v = JNull then Some None
      else if \<not> isRecord v \<or> \<not> is_string (get_prop v ''key'') \<or> get_prop v ''key'' = JStr [] then None
      else
        (let m = get_prop v ''modifiers'' in
         if \<not> isRecord m then None
         else
           (case (get_prop v ''key'', get_prop m ''primary'', get_prop m ''control'', get_prop m ''meta'',
                  get_prop m ''alt'', get_prop m ''shift'') of
              (JStr k, JBool p, JBool c, JBool w, JBool a, JBool s) \<Rightarrow>
                Some (Some \<lparr>chord_key = k, chord_modifiers =
                  \<lparr>primary_mod = p, control_mod = c, meta_mod = w, alt_mod = a, shift_mod = s\<rparr>\<rparr>)
            | _ \<Rightarrow> None)))"

definition kept_override ::
    "shortcut_platform \<Rightarrow> shortcut_runtime \<Rightarrow> string \<Rightarrow> js \<Rightarrow> shortcut_chord option option" where
  "kept_override platform runtime actionId raw =
     (case action_named actionId of
        None \<Rightarrow> None
      | Some a \<Rightarrow>
          (case sanitizeShortcutChord raw of
             None \<Rightarrow> None
           | Some None \<Rightarrow> Some None
           | Some (Some c) \<Rightarrow>
               if isShortcutAllowedForAction platform runtime a c then Some (Some c) else None))"

definition sanitizeShortcutOverrides :: "shortcut_platform \<Rightarrow> shortcut_runtime \<Rightarrow> js \<Rightarrow> overrides" where
  "sanitizeShortcutOverrides platform runtime value =
     (if \<not> isRecord value then []
      else foldl (\<lambda>ov (k, raw). case kept_override platform runtime k raw of
                                  None \<Rightarrow> ov | Some sc \<Rightarrow> obj_set ov k sc)
             [] (obj_entries (members value)))"

text \<open>The value of a chord, as it is stored.\<close>

definition chord_value :: "shortcut_chord option \<Rightarrow> js" where
  "chord_value sc =
     (case sc of
        None \<Rightarrow> JNull
      | Some c \<Rightarrow>
          (let m = chord_modifiers c in
           JObj [(''key'', JStr (chord_key c)), (''modifiers'',
             JObj [(''primary'', JBool (primary_mod m)), (''control'', JBool (control_mod m)),
                   (''meta'', JBool (meta_mod m)), (''alt'', JBool (alt_mod m)),
                   (''shift'', JBool (shift_mod m))])]))"

definition overrides_value :: "overrides \<Rightarrow> js" where
  "overrides_value ov = JObj (map (\<lambda>(k, sc). (k, chord_value sc)) ov)"

definition legacy_override :: "string \<Rightarrow> js \<Rightarrow> shortcut_chord option option" where
  "legacy_override actionId value =
     (if action_named actionId = None then None
      else case value of
        JNull \<Rightarrow> Some None
      | JStr s \<Rightarrow> (case parseLegacyShortcut s of None \<Rightarrow> None | Some c \<Rightarrow> Some (Some c))
      | _ \<Rightarrow> None)"

definition migrateShortcutState ::
    "shortcut_platform \<Rightarrow> shortcut_runtime \<Rightarrow> js \<Rightarrow> int \<Rightarrow> overrides" where
  "migrateShortcutState platform runtime persisted version =
     (if version \<ge> 2
      then sanitizeShortcutOverrides platform runtime
             (if isRecord persisted then get_prop persisted ''overrides'' else JUndef)
      else
        (let previous = (if isRecord persisted \<and> isRecord (get_prop persisted ''overrides'')
                         then members (get_prop persisted ''overrides'') else []);
             old = foldl (\<lambda>ov (k, value). case legacy_override k value of
                                            None \<Rightarrow> ov | Some sc \<Rightarrow> obj_set ov k sc)
                     [] (obj_entries previous)
         in sanitizeShortcutOverrides platform runtime (overrides_value old)))"

section \<open>The store\<close>

text \<open>The bindings in memory and the text under \<open>multica_keyboard_shortcuts\<close>.\<close>

record shortcut_store =
  overrides :: overrides
  stored_shortcuts :: "item option"

definition partializeShortcuts :: "overrides \<Rightarrow> item" where
  "partializeShortcuts ov =
     JSON_stringify (JObj [(''state'', JObj [(''overrides'', overrides_value ov)]), (''version'', JNum 2)])"

text \<open>\<open>set\<close> of the persisted store: it writes the storage on every call.\<close>

definition set_overrides :: "overrides \<Rightarrow> shortcut_store \<Rightarrow> shortcut_store" where
  "set_overrides ov s = s\<lparr>overrides := ov, stored_shortcuts := Some (partializeShortcuts ov)\<rparr>"

definition mergeShortcuts :: "shortcut_platform \<Rightarrow> shortcut_runtime \<Rightarrow> js \<Rightarrow> overrides" where
  "mergeShortcuts platform runtime persisted =
     sanitizeShortcutOverrides platform runtime
       (if isRecord persisted then get_prop persisted ''overrides'' else JUndef)"

text \<open>
  The store as it starts: a stored document of another version is migrated, merged and written
  back; one of this version, or without a version, is merged; a text that does not parse fails
  the hydration, which leaves the initial state.
\<close>

definition openShortcuts :: "shortcut_platform \<Rightarrow> shortcut_runtime \<Rightarrow> item option \<Rightarrow> shortcut_store" where
  "openShortcuts platform runtime text =
     (case text of
        None \<Rightarrow> \<lparr>overrides = mergeShortcuts platform runtime JUndef, stored_shortcuts = None\<rparr>
      | Some t \<Rightarrow>
          (case JSON_parse t of
             None \<Rightarrow> \<lparr>overrides = [], stored_shortcuts = Some t\<rparr>
           | Some doc \<Rightarrow>
               (case get_prop doc ''version'' of
                  JNum v \<Rightarrow>
                    if v \<noteq> 2 then
                      (let migrated = migrateShortcutState platform runtime (get_prop doc ''state'') v;
                           ov = mergeShortcuts platform runtime
                                  (JObj [(''overrides'', overrides_value migrated)])
                       in set_overrides ov \<lparr>overrides = ov, stored_shortcuts = Some t\<rparr>)
                    else \<lparr>overrides = mergeShortcuts platform runtime (get_prop doc ''state''),
                           stored_shortcuts = Some t\<rparr>
                | _ \<Rightarrow> \<lparr>overrides = mergeShortcuts platform runtime (get_prop doc ''state''),
                         stored_shortcuts = Some t\<rparr>)))"

definition setShortcut ::
    "shortcut_platform \<Rightarrow> shortcut_runtime \<Rightarrow> ShortcutActionId \<Rightarrow> shortcut_chord option \<Rightarrow>
     shortcut_store \<Rightarrow> shortcut_store" where
  "setShortcut platform runtime a sc s =
     (if (case sc of None \<Rightarrow> False | Some c \<Rightarrow> \<not> isShortcutAllowedForAction platform runtime a c)
      then set_overrides (overrides s) s
      else if shortcutChordEquals sc (defaultShortcut (SHORTCUT_ACTION_BY_ID a))
      then set_overrides (obj_delete (overrides s) (action_id a)) s
      else set_overrides (obj_set (overrides s) (action_id a) sc) s)"

definition resetShortcut :: "ShortcutActionId \<Rightarrow> shortcut_store \<Rightarrow> shortcut_store" where
  "resetShortcut a s = set_overrides (obj_delete (overrides s) (action_id a)) s"

definition resetAll :: "shortcut_store \<Rightarrow> shortcut_store" where
  "resetAll s = set_overrides [] s"

definition resolveShortcut :: "overrides \<Rightarrow> ShortcutActionId \<Rightarrow> shortcut_chord option" where
  "resolveShortcut ov a =
     (case obj_get ov (action_id a) of
        Some sc \<Rightarrow> sc
      | None \<Rightarrow> defaultShortcut (SHORTCUT_ACTION_BY_ID a))"

definition getShortcut :: "ShortcutActionId \<Rightarrow> shortcut_store \<Rightarrow> shortcut_chord option" where
  "getShortcut a s = resolveShortcut (overrides s) a"

definition findShortcutConflict ::
    "ShortcutActionId \<Rightarrow> shortcut_chord \<Rightarrow> shortcut_store \<Rightarrow> ShortcutActionId option" where
  "findShortcutConflict a c s =
     map_option shortcut_action
       (find (\<lambda>d. shortcut_action d \<noteq> a \<and>
                  shortcutChordEquals (getShortcut (shortcut_action d) s) (Some c)) SHORTCUT_ACTIONS)"

section \<open>Recording a binding\<close>

datatype capture_error = Conflict ShortcutActionId | Reserved | SendOnly | Unsafe

record shortcuts_tab =
  tab_store :: shortcut_store
  recording :: "ShortcutActionId option"
  captureError :: "capture_error option"

definition recorded :: "shortcut_store \<Rightarrow> shortcuts_tab \<Rightarrow> shortcuts_tab" where
  "recorded st t = t\<lparr>tab_store := st, recording := None, captureError := None\<rparr>"

definition capture ::
    "shortcut_platform \<Rightarrow> shortcut_runtime \<Rightarrow> ShortcutActionId \<Rightarrow> keyboard_event \<Rightarrow> shortcuts_tab \<Rightarrow> shortcuts_tab" where
  "capture platform runtime a ev t =
     (if repeat_key ev \<or> ime_composing ev then t
      else if event_key ev = Some ''Escape'' then recorded (tab_store t) t
      else if event_key ev = Some ''Backspace'' \<or> event_key ev = Some ''Delete''
      then recorded (setShortcut platform runtime a None (tab_store t)) t
      else case shortcutFromEvent platform ev of
        None \<Rightarrow> t
      | Some c \<Rightarrow>
          if isReservedShortcut platform runtime c then t\<lparr>captureError := Some Reserved\<rparr>
          else if \<not> isShortcutAllowedForAction platform runtime a c
          then t\<lparr>captureError := Some (if a = Send then SendOnly else Unsafe)\<rparr>
          else (case findShortcutConflict a c (tab_store t) of
                  Some b \<Rightarrow> t\<lparr>captureError := Some (Conflict b)\<rparr>
                | None \<Rightarrow> recorded (setShortcut platform runtime a (Some c) (tab_store t)) t))"

definition startRecording :: "ShortcutActionId \<Rightarrow> shortcuts_tab \<Rightarrow> shortcuts_tab" where
  "startRecording a t = t\<lparr>recording := Some a, captureError := None\<rparr>"

definition cancelRecording :: "shortcuts_tab \<Rightarrow> shortcuts_tab" where
  "cancelRecording t = t\<lparr>recording := None, captureError := None\<rparr>"

definition disableShortcut ::
    "shortcut_platform \<Rightarrow> shortcut_runtime \<Rightarrow> ShortcutActionId \<Rightarrow> shortcuts_tab \<Rightarrow> shortcuts_tab" where
  "disableShortcut platform runtime a t =
     t\<lparr>tab_store := setShortcut platform runtime a None (tab_store t), captureError := None\<rparr>"

definition resetRow :: "ShortcutActionId \<Rightarrow> shortcuts_tab \<Rightarrow> shortcuts_tab" where
  "resetRow a t = t\<lparr>tab_store := resetShortcut a (tab_store t), captureError := None\<rparr>"

definition resetConfirmed :: "shortcuts_tab \<Rightarrow> shortcuts_tab" where
  "resetConfirmed t = t\<lparr>tab_store := resetAll (tab_store t), recording := None, captureError := None\<rparr>"

text \<open>
  The page: a key is captured by the row that records, and only a customized row can be reset.
  The flag says whether single rows are reset in the run.
\<close>

inductive settings_step ::
    "shortcut_platform \<Rightarrow> shortcut_runtime \<Rightarrow> bool \<Rightarrow> shortcuts_tab \<Rightarrow> shortcuts_tab \<Rightarrow> bool"
  for platform runtime resets where
  start: "settings_step platform runtime resets t (startRecording a t)"
| cancel: "settings_step platform runtime resets t (cancelRecording t)"
| key: "recording t = Some a \<Longrightarrow> settings_step platform runtime resets t (capture platform runtime a ev t)"
| disable: "settings_step platform runtime resets t (disableShortcut platform runtime a t)"
| reset_row: "resets \<Longrightarrow> obj_get (overrides (tab_store t)) (action_id a) \<noteq> None \<Longrightarrow>
    settings_step platform runtime resets t (resetRow a t)"
| reset_all: "settings_step platform runtime resets t (resetConfirmed t)"

definition open_settings :: "shortcut_store \<Rightarrow> shortcuts_tab" where
  "open_settings s = \<lparr>tab_store = s, recording = None, captureError = None\<rparr>"

section \<open>Acting on a key\<close>

definition GLOBAL_ACTIONS :: "ShortcutActionId list" where
  "GLOBAL_ACTIONS =
     [OpenSearch, CreateIssue, ToggleSidebar, ToggleChat, GoInbox, GoChat, GoMyIssues, GoIssues,
      GoProjects, GoAutopilots, GoAgents, GoSquads, GoUsage, GoRuntimes, GoSkills, GoSettings]"

definition shouldIgnoreGlobalShortcutEvent :: "keyboard_event \<Rightarrow> bool" where
  "shouldIgnoreGlobalShortcutEvent ev \<longleftrightarrow> defaultPrevented ev \<or> repeat_key ev \<or> ime_composing ev"

text \<open>The action the global handler starts; \<open>chat\<close> is \<open>canToggleFloatingChat()\<close>.\<close>

definition handleKeyDown ::
    "shortcut_platform \<Rightarrow> bool \<Rightarrow> keyboard_event \<Rightarrow> shortcut_store \<Rightarrow> ShortcutActionId option" where
  "handleKeyDown platform chat ev s =
     (if shouldIgnoreGlobalShortcutEvent ev then None
      else find (\<lambda>a.
             if \<not> allowInEditable (SHORTCUT_ACTION_BY_ID a) \<and> editable_target ev then False
             else if a = ToggleChat \<and> \<not> chat then False
             else shortcutMatchesEvent platform (getShortcut a s) ev) GLOBAL_ACTIONS)"

definition shouldHandleSubmitShortcut ::
    "shortcut_platform \<Rightarrow> keyboard_event \<Rightarrow> shortcut_chord option \<Rightarrow> bool \<Rightarrow> bool" where
  "shouldHandleSubmitShortcut platform ev configured composing \<longleftrightarrow>
     \<not> repeat_key ev \<and> \<not> composing \<and> \<not> ime_composing ev \<and> shortcutMatchesEvent platform configured ev"

definition shouldReplayNativeEnter :: "keyboard_event \<Rightarrow> shortcut_chord option \<Rightarrow> bool \<Rightarrow> bool" where
  "shouldReplayNativeEnter ev configured composing \<longleftrightarrow>
     \<not> composing \<and> \<not> ime_composing ev \<and> isPlainShortcut configured ''Enter'' \<and>
     event_key ev = Some ''Enter'' \<and> shiftKey ev \<and> \<not> metaKey ev \<and> \<not> ctrlKey ev \<and> \<not> altKey ev"

datatype submit_key = Replay_Enter | Submit | Pass

definition submit_key_down :: "shortcut_platform \<Rightarrow> keyboard_event \<Rightarrow> bool \<Rightarrow> shortcut_store \<Rightarrow> submit_key" where
  "submit_key_down platform ev composing s =
     (let sc = getShortcut Send s in
      if shouldReplayNativeEnter ev sc composing then Replay_Enter
      else if \<not> shouldHandleSubmitShortcut platform ev sc composing then Pass
      else Submit)"

end
