(* ===== verification/Shortcut_Properties.thy ===== *)
theory Shortcut_Properties
  imports Shortcuts
begin

text \<open>
  The properties of the shortcuts: every binding in force obeys the policy whatever the storage
  holds, a reload gives the bindings back, and which actions of the settings page keep two
  actions from sharing a chord.
\<close>

lemmas shortcut_tables =
  SHORTCUT_ACTION_BY_ID_def SHORTCUT_ACTIONS_def nav_action_def primary_chord_def plain_chord_def no_modifiers_def

section \<open>Actions and chords\<close>

lemma action_named_id [simp]: "action_named (action_id a) = Some a"
  by (cases a; hypsubst; code_simp)

lemma action_id_inject [simp]: "action_id a = action_id b \<longleftrightarrow> a = b"
  by (metis action_named_id option.inject)

lemma action_names: "list_all (\<lambda>d. action_name d = action_id (shortcut_action d)) SHORTCUT_ACTIONS"
  by code_simp

lemma action_named_Some: "action_named s = Some a \<Longrightarrow> s = action_id a"
  using action_names by (auto simp: action_named_def find_Some_iff list_all_length)

lemma action_known: "a \<in> shortcut_action ` set SHORTCUT_ACTIONS"
  by (cases a; hypsubst; code_simp)

lemma chord_equals [simp]: "shortcutChordEquals l r \<longleftrightarrow> l = r"
  by (cases l; cases r) (auto simp: shortcutChordEquals_def shortcut_chord.equality shortcut_modifiers.equality)

lemma shortcutMatchesEvent_iff:
  "shortcutMatchesEvent platform sc ev \<longleftrightarrow> sc \<noteq> None \<and> shortcutFromEvent platform ev = sc"
  by (cases sc) (auto simp: shortcutMatchesEvent_def)

lemma defaults_allowed:
  "list_all (\<lambda>d. case defaultShortcut d of None \<Rightarrow> True
     | Some c \<Rightarrow> isShortcutAllowedForAction platform runtime (shortcut_action d) c) SHORTCUT_ACTIONS"
  by (cases platform; cases runtime; hypsubst; code_simp)

lemma by_id_known: "SHORTCUT_ACTION_BY_ID a \<in> set SHORTCUT_ACTIONS \<and> shortcut_action (SHORTCUT_ACTION_BY_ID a) = a"
proof -
  obtain d where "d \<in> set SHORTCUT_ACTIONS" "shortcut_action d = a" using action_known [of a] by blast
  then have "filter (\<lambda>d. shortcut_action d = a) SHORTCUT_ACTIONS \<noteq> []" by (auto simp: filter_empty_conv)
  then have "hd (filter (\<lambda>d. shortcut_action d = a) SHORTCUT_ACTIONS) \<in> set (filter (\<lambda>d. shortcut_action d = a) SHORTCUT_ACTIONS)"
    by (rule hd_in_set)
  then show ?thesis by (simp add: SHORTCUT_ACTION_BY_ID_def)
qed

lemma default_allowed:
  "defaultShortcut (SHORTCUT_ACTION_BY_ID a) = Some c \<Longrightarrow> isShortcutAllowedForAction platform runtime a c"
  using defaults_allowed [of platform runtime] by_id_known [of a] by (force simp: list_all_iff)

section \<open>Reading back what was stored\<close>

lemma sanitize_chord_value:
  assumes "\<forall>c. sc = Some c \<longrightarrow> chord_key c \<noteq> []"
  shows "sanitizeShortcutChord (chord_value sc) = Some sc"
proof (cases sc)
  case (Some c)
  then show ?thesis using assms by (simp add: chord_value_def sanitizeShortcutChord_def isRecord_def Let_def)
qed (simp add: chord_value_def sanitizeShortcutChord_def)

text \<open>Overrides the store can hold: each of a known action and obeying the policy.\<close>

definition allowed_override :: "shortcut_platform \<Rightarrow> shortcut_runtime \<Rightarrow> string \<Rightarrow> shortcut_chord option \<Rightarrow> bool" where
  "allowed_override platform runtime k sc \<longleftrightarrow>
     (\<exists>a. k = action_id a \<and> (\<forall>c. sc = Some c \<longrightarrow> isShortcutAllowedForAction platform runtime a c))"

definition good_overrides :: "shortcut_platform \<Rightarrow> shortcut_runtime \<Rightarrow> overrides \<Rightarrow> bool" where
  "good_overrides platform runtime ov \<longleftrightarrow>
     obj_wf ov \<and> (\<forall>(k, sc) \<in> set ov. allowed_override platform runtime k sc)"

lemma good_Nil [simp]: "good_overrides platform runtime []"
  by (simp add: good_overrides_def)

lemma good_set:
  "good_overrides platform runtime ov \<Longrightarrow> allowed_override platform runtime k sc \<Longrightarrow>
     good_overrides platform runtime (obj_set ov k sc)"
  by (auto simp: good_overrides_def set_obj_set)

lemma good_delete: "good_overrides platform runtime ov \<Longrightarrow> good_overrides platform runtime (obj_delete ov k)"
proof -
  have "set (obj_delete ov k) \<subseteq> set ov" by (auto simp: AList.delete_eq)
  then show "good_overrides platform runtime ov \<Longrightarrow> ?thesis" by (auto simp: good_overrides_def)
qed

lemma kept_allowed: "kept_override platform runtime k raw = Some sc \<Longrightarrow> allowed_override platform runtime k sc"
  by (auto simp: kept_override_def allowed_override_def dest!: action_named_Some split: option.splits if_splits)

lemma allowed_key: "isShortcutAllowedForAction platform runtime a c \<Longrightarrow> chord_key c \<noteq> []"
  by (auto simp: isShortcutAllowedForAction_def isShortcutChordActionable_def split: if_splits)

lemma allowed_kept:
  assumes "allowed_override platform runtime k sc"
  shows "kept_override platform runtime k (chord_value sc) = Some sc"
proof -
  obtain a where a: "k = action_id a" "\<forall>c. sc = Some c \<longrightarrow> isShortcutAllowedForAction platform runtime a c"
    using assms by (auto simp: allowed_override_def)
  then have "sanitizeShortcutChord (chord_value sc) = Some sc" by (intro sanitize_chord_value) (auto dest: allowed_key)
  then show ?thesis using a by (cases sc) (auto simp: kept_override_def)
qed

lemma sanitize_good: "good_overrides platform runtime (sanitizeShortcutOverrides platform runtime v)"
proof -
  have "good_overrides platform runtime
      (foldl (\<lambda>ov (k, raw). case kept_override platform runtime k raw of None \<Rightarrow> ov | Some sc \<Rightarrow> obj_set ov k sc) acc es)"
    if "good_overrides platform runtime acc" for acc es
    using that
  proof (induction es arbitrary: acc)
    case (Cons p es)
    then show ?case by (cases p) (auto split: option.split intro!: Cons.IH good_set kept_allowed)
  qed simp
  then show ?thesis by (simp add: sanitizeShortcutOverrides_def)
qed

lemma action_id_no_index: "\<not> is_array_index (action_id a)"
  by (cases a; hypsubst; code_simp)

lemma good_entries:
  assumes "good_overrides platform runtime ov"
  shows "obj_entries (map (\<lambda>(k, sc). (k, f sc)) ov) = map (\<lambda>(k, sc). (k, f sc)) ov"
proof -
  have "\<not> is_array_index k" if "(k, sc) \<in> set ov" for k sc
    using assms that action_id_no_index by (auto simp: good_overrides_def allowed_override_def)
  then have "filter (\<lambda>p. is_array_index (fst p)) (map (\<lambda>(k, sc). (k, f sc)) ov) = []"
    "filter (\<lambda>p. \<not> is_array_index (fst p)) (map (\<lambda>(k, sc). (k, f sc)) ov) = map (\<lambda>(k, sc). (k, f sc)) ov"
    by (auto simp: filter_empty_conv filter_id_conv)
  then show ?thesis by (simp add: obj_entries_def)
qed

lemma update_new: "k \<notin> fst ` set ob \<Longrightarrow> obj_set ob k v = ob @ [(k, v)]"
  by (induction ob) auto

lemma sanitize_overrides_value:
  assumes "good_overrides platform runtime ov"
  shows "sanitizeShortcutOverrides platform runtime (overrides_value ov) = ov"
proof -
  let ?step = "\<lambda>ov (k, raw). case kept_override platform runtime k raw of None \<Rightarrow> ov | Some sc \<Rightarrow> obj_set ov k sc"
  have "foldl ?step acc (map (\<lambda>(k, sc). (k, chord_value sc)) es) = acc @ es"
    if "\<forall>(k, sc) \<in> set es. allowed_override platform runtime k sc" "distinct (map fst (acc @ es))" for acc es
    using that
  proof (induction es arbitrary: acc)
    case (Cons p es)
    obtain k sc where p: "p = (k, sc)" by (cases p)
    then have "?step acc (k, chord_value sc) = acc @ [p]"
      using Cons.prems allowed_kept [of platform runtime k sc] by (simp add: update_new image_iff)
    then show ?case using Cons.IH [of "acc @ [p]"] Cons.prems p by simp
  qed simp
  from this [of ov "[]"] show ?thesis
    using assms good_entries [OF assms, of chord_value]
    by (simp add: sanitizeShortcutOverrides_def overrides_value_def isRecord_def good_overrides_def obj_wf_def)
qed

section \<open>The store through its actions\<close>

lemma json_chord_value [simp]: "json_value (chord_value sc) = chord_value sc"
  by (cases sc) (simp_all add: chord_value_def Let_def)

lemma chord_value_defined [simp]: "chord_value sc \<noteq> JUndef"
  by (cases sc) (simp_all add: chord_value_def Let_def)

lemma json_overrides_value [simp]: "json_value (overrides_value ov) = overrides_value ov"
proof -
  have "obj_get (map (\<lambda>(k, sc). (k, chord_value sc)) ov) k \<noteq> Some JUndef" for k
    by (induction ov) auto
  then show ?thesis by (simp add: overrides_value_def split_beta filter_id_conv)
qed

lemma overrides_value_defined [simp]: "overrides_value ov \<noteq> JUndef"
  by (simp add: overrides_value_def)

text \<open>The store in step with its storage: opening it again would give the same bindings.\<close>

definition shortcuts_ok :: "shortcut_platform \<Rightarrow> shortcut_runtime \<Rightarrow> shortcut_store \<Rightarrow> bool" where
  "shortcuts_ok platform runtime s \<longleftrightarrow>
     good_overrides platform runtime (overrides s) \<and>
     overrides (openShortcuts platform runtime (stored_shortcuts s)) = overrides s"

lemma open_stored:
  "good_overrides platform runtime ov \<Longrightarrow>
     overrides (openShortcuts platform runtime (Some (partializeShortcuts ov))) = ov"
  by (simp add: openShortcuts_def partializeShortcuts_def JSON_stringify_def mergeShortcuts_def isRecord_def
      sanitize_overrides_value)

lemma set_overrides_ok: "good_overrides platform runtime ov \<Longrightarrow> shortcuts_ok platform runtime (set_overrides ov s)"
  by (simp add: shortcuts_ok_def set_overrides_def open_stored)

lemma open_ok: "shortcuts_ok platform runtime (openShortcuts platform runtime stored)"
proof -
  have good: "good_overrides platform runtime (overrides (openShortcuts platform runtime t))" for t
    by (auto simp: openShortcuts_def mergeShortcuts_def sanitize_good set_overrides_def Let_def
        split: option.split js.split)
  let ?s = "openShortcuts platform runtime stored"
  have "stored_shortcuts ?s = stored \<or> stored_shortcuts ?s = Some (partializeShortcuts (overrides ?s))"
    by (auto simp: openShortcuts_def set_overrides_def Let_def split: option.split js.split)
  then show ?thesis using good open_stored [OF good [of stored]] by (auto simp: shortcuts_ok_def)
qed

lemma setShortcut_ok:
  assumes "shortcuts_ok platform runtime s"
  shows "shortcuts_ok platform runtime (setShortcut platform runtime a sc s)"
proof -
  have good: "good_overrides platform runtime (overrides s)" using assms by (simp add: shortcuts_ok_def)
  have "allowed_override platform runtime (action_id a) sc"
    if "\<not> (case sc of None \<Rightarrow> False | Some c \<Rightarrow> \<not> isShortcutAllowedForAction platform runtime a c)"
    using that by (auto simp: allowed_override_def split: option.splits)
  then show ?thesis using good by (simp add: setShortcut_def set_overrides_ok good_set good_delete)
qed

lemma resetShortcut_ok: "shortcuts_ok platform runtime s \<Longrightarrow> shortcuts_ok platform runtime (resetShortcut a s)"
  by (simp add: resetShortcut_def set_overrides_ok good_delete shortcuts_ok_def [of _ _ s])

lemma resetAll_ok: "shortcuts_ok platform runtime (resetAll s)"
  by (simp add: resetAll_def set_overrides_ok)

lemma capture_store:
  "tab_store (capture platform runtime a ev t) = tab_store t \<or>
   tab_store (capture platform runtime a ev t) = setShortcut platform runtime a None (tab_store t) \<or>
   (\<exists>c. tab_store (capture platform runtime a ev t) = setShortcut platform runtime a (Some c) (tab_store t) \<and>
        isShortcutAllowedForAction platform runtime a c \<and> findShortcutConflict a c (tab_store t) = None)"
  by (auto simp: capture_def recorded_def split: option.split)

lemma settings_ok:
  assumes "settings_step platform runtime resets t u" "shortcuts_ok platform runtime (tab_store t)"
  shows "shortcuts_ok platform runtime (tab_store u)"
  using assms
proof cases
  case (key a ev)
  then show ?thesis using capture_store [of platform runtime a ev t] assms(2) setShortcut_ok by metis
qed (simp_all add: startRecording_def cancelRecording_def disableShortcut_def resetRow_def resetConfirmed_def
    setShortcut_ok resetShortcut_ok resetAll_ok)

abbreviation settings_run ::
    "shortcut_platform \<Rightarrow> shortcut_runtime \<Rightarrow> bool \<Rightarrow> shortcuts_tab \<Rightarrow> shortcuts_tab \<Rightarrow> bool" where
  "settings_run platform runtime resets \<equiv> (settings_step platform runtime resets)\<^sup>*\<^sup>*"

lemma run_ok:
  assumes "settings_run platform runtime resets t u" "shortcuts_ok platform runtime (tab_store t)"
  shows "shortcuts_ok platform runtime (tab_store u)"
  using assms by induction (auto dest: settings_ok)

section \<open>What a key starts\<close>

lemma shortcut_allowed:
  assumes "shortcuts_ok platform runtime s" "getShortcut a s = Some c"
  shows "isShortcutAllowedForAction platform runtime a c"
proof (cases "obj_get (overrides s) (action_id a)")
  case None
  then show ?thesis using assms(2) by (simp add: getShortcut_def resolveShortcut_def default_allowed)
next
  case (Some sc)
  then have "(action_id a, sc) \<in> set (overrides s)" by (rule map_of_SomeD)
  then have "allowed_override platform runtime (action_id a) sc" using assms(1) by (auto simp: shortcuts_ok_def good_overrides_def)
  then show ?thesis using assms(2) Some by (auto simp: allowed_override_def getShortcut_def resolveShortcut_def)
qed

lemma started_by:
  assumes "handleKeyDown platform chat ev s = Some a"
  shows "a \<noteq> Send" "shortcutFromEvent platform ev = getShortcut a s" "getShortcut a s \<noteq> None"
    "editable_target ev \<Longrightarrow> allowInEditable (SHORTCUT_ACTION_BY_ID a)"
proof -
  have "a \<in> set GLOBAL_ACTIONS \<and> (if \<not> allowInEditable (SHORTCUT_ACTION_BY_ID a) \<and> editable_target ev then False
      else if a = ToggleChat \<and> \<not> chat then False else shortcutMatchesEvent platform (getShortcut a s) ev)"
    using assms by (auto simp: handleKeyDown_def find_Some_iff split: if_splits)
  then show "a \<noteq> Send" "shortcutFromEvent platform ev = getShortcut a s" "getShortcut a s \<noteq> None"
    "editable_target ev \<Longrightarrow> allowInEditable (SHORTCUT_ACTION_BY_ID a)"
    by (auto simp: GLOBAL_ACTIONS_def shortcutMatchesEvent_iff split: if_splits)
qed

lemma from_event:
  "shortcutFromEvent platform ev = Some c \<Longrightarrow>
     \<not> altGraph ev \<and> eventKey ev = Some (chord_key c) \<and>
     (primary_mod (chord_modifiers c) \<or> control_mod (chord_modifiers c) \<or> meta_mod (chord_modifiers c) \<longrightarrow> metaKey ev \<or> ctrlKey ev) \<and>
     alt_mod (chord_modifiers c) = altKey ev \<and> shift_mod (chord_modifiers c) = shiftKey ev"
  by (auto simp: shortcutFromEvent_def Let_def truthy_eq_Some split: if_splits option.splits)

lemma enter_key:
  assumes "eventKey ev = Some ''Enter''"
  shows "event_key ev = Some ''Enter''"
proof -
  obtain k where k: "event_key ev = Some k" using assms by (auto simp: eventKey_def split: option.splits)
  have "default_to k (obj_get KEY_LABELS k) = ''Enter''"
    using assms k by (auto simp: eventKey_def Let_def split: if_splits list.splits)
  then show ?thesis using k by (simp add: KEY_LABELS_def split: if_splits)
qed

text \<open>C36. Whatever the storage holds and whatever is recorded on the settings page, every binding in force obeys the policy of its action; so no key pressed in an editable target starts a global action unless Control or Meta is held, AltGraph never starts one, and only Enter without Shift and Alt submits.\<close>

theorem shortcut_policy:
  assumes "settings_run platform runtime resets (open_settings (openShortcuts platform runtime stored)) t"
  shows "(getShortcut a (tab_store t) = Some c \<longrightarrow> isShortcutAllowedForAction platform runtime a c) \<and>
    (handleKeyDown platform chat ev (tab_store t) = Some a \<longrightarrow>
      \<not> altGraph ev \<and> (editable_target ev \<longrightarrow> metaKey ev \<or> ctrlKey ev)) \<and>
    (submit_key_down platform ev composing (tab_store t) = Submit \<longrightarrow>
      event_key ev = Some ''Enter'' \<and> \<not> shiftKey ev \<and> \<not> altKey ev)"
proof (intro conjI)
  have ok: "shortcuts_ok platform runtime (tab_store t)"
    using run_ok [OF assms] open_ok by (simp add: open_settings_def)
  show "getShortcut a (tab_store t) = Some c \<longrightarrow> isShortcutAllowedForAction platform runtime a c"
    using shortcut_allowed [OF ok] by blast
  show "handleKeyDown platform chat ev (tab_store t) = Some a \<longrightarrow>
      \<not> altGraph ev \<and> (editable_target ev \<longrightarrow> metaKey ev \<or> ctrlKey ev)"
  proof
    assume a: "handleKeyDown platform chat ev (tab_store t) = Some a"
    then obtain c where c: "getShortcut a (tab_store t) = Some c" "shortcutFromEvent platform ev = Some c"
      using started_by(2,3) by fastforce
    then have "editable_target ev \<Longrightarrow> hasCommandModifier c"
      using shortcut_allowed [OF ok c(1)] started_by(1,4) [OF a]
      by (auto simp: isShortcutAllowedForAction_def split: if_splits)
    then show "\<not> altGraph ev \<and> (editable_target ev \<longrightarrow> metaKey ev \<or> ctrlKey ev)"
      using from_event [OF c(2)] by (auto simp: hasCommandModifier_def Let_def)
  qed
  show "submit_key_down platform ev composing (tab_store t) = Submit \<longrightarrow>
      event_key ev = Some ''Enter'' \<and> \<not> shiftKey ev \<and> \<not> altKey ev"
  proof
    assume "submit_key_down platform ev composing (tab_store t) = Submit"
    then obtain c where c: "getShortcut Send (tab_store t) = Some c" "shortcutFromEvent platform ev = Some c"
      by (cases "getShortcut Send (tab_store t)")
        (auto simp: submit_key_down_def Let_def shouldHandleSubmitShortcut_def shortcutMatchesEvent_iff split: if_splits)
    have "c = plain_chord ''Enter'' \<or> c = primary_chord ''Enter''"
      using shortcut_allowed [OF ok c(1)] by (auto simp: isShortcutAllowedForAction_def split: if_splits)
    then show "event_key ev = Some ''Enter'' \<and> \<not> shiftKey ev \<and> \<not> altKey ev"
      using from_event [OF c(2)] enter_key [of ev] by (auto simp: plain_chord_def primary_chord_def no_modifiers_def)
  qed
qed

text \<open>C37. Opening the store again on the storage it left gives the same binding for every action, whatever the storage held at the start and after any use of the settings page.\<close>

theorem shortcuts_reload:
  assumes "settings_run platform runtime resets (open_settings (openShortcuts platform runtime stored)) t"
  shows "getShortcut a (openShortcuts platform runtime (stored_shortcuts (tab_store t))) = getShortcut a (tab_store t)"
  using run_ok [OF assms] open_ok by (simp add: open_settings_def shortcuts_ok_def getShortcut_def)

section \<open>Two actions on one chord\<close>

definition no_conflict :: "shortcut_store \<Rightarrow> bool" where
  "no_conflict s \<longleftrightarrow> (\<forall>a b c. a \<noteq> b \<longrightarrow> getShortcut a s = Some c \<longrightarrow> getShortcut b s \<noteq> Some c)"

lemma get_setShortcut:
  assumes "\<forall>c. sc = Some c \<longrightarrow> isShortcutAllowedForAction platform runtime a c"
  shows "getShortcut b (setShortcut platform runtime a sc s) = (if b = a then sc else getShortcut b s)"
  using assms
  by (cases sc) (auto simp: setShortcut_def getShortcut_def resolveShortcut_def set_overrides_def obj_simps)

lemma conflict_none:
  assumes "findShortcutConflict a c s = None" "b \<noteq> a"
  shows "getShortcut b s \<noteq> Some c"
  using assms action_known [of b] by (auto simp: findShortcutConflict_def find_None_iff)

lemma no_conflict_set:
  assumes "no_conflict s" "\<forall>c. sc = Some c \<longrightarrow> isShortcutAllowedForAction platform runtime a c \<and> findShortcutConflict a c s = None"
  shows "no_conflict (setShortcut platform runtime a sc s)"
proof -
  have get: "getShortcut b (setShortcut platform runtime a sc s) = (if b = a then sc else getShortcut b s)" for b
    using assms(2) by (intro get_setShortcut) blast
  have "getShortcut b s \<noteq> Some c" if "sc = Some c" "b \<noteq> a" for b c
    using conflict_none that assms(2) by blast
  then show ?thesis using assms(1) unfolding no_conflict_def get by (metis (full_types))
qed

lemma defaults_distinct: "no_conflict (resetAll s)"
proof -
  have "list_all (\<lambda>d. list_all (\<lambda>e. shortcut_action d = shortcut_action e \<or> defaultShortcut d = None \<or>
      defaultShortcut d \<noteq> defaultShortcut e) SHORTCUT_ACTIONS) SHORTCUT_ACTIONS" by code_simp
  then have "shortcut_action d = shortcut_action e \<or> defaultShortcut d = None \<or> defaultShortcut d \<noteq> defaultShortcut e"
    if "d \<in> set SHORTCUT_ACTIONS" "e \<in> set SHORTCUT_ACTIONS" for d e
    using that unfolding list_all_iff by blast
  then have "a = b \<or> defaultShortcut (SHORTCUT_ACTION_BY_ID a) = None \<or>
      defaultShortcut (SHORTCUT_ACTION_BY_ID a) \<noteq> defaultShortcut (SHORTCUT_ACTION_BY_ID b)" for a b
    using by_id_known [of a] by_id_known [of b] by metis
  then show ?thesis
    by (fastforce simp: no_conflict_def getShortcut_def resolveShortcut_def resetAll_def set_overrides_def)
qed

lemma settings_no_conflict:
  assumes "settings_step platform runtime False t u" "no_conflict (tab_store t)"
  shows "no_conflict (tab_store u)"
  using assms
proof cases
  case (key a ev)
  then show ?thesis
    using capture_store [of platform runtime a ev t] assms(2) no_conflict_set by (metis option.distinct(1) option.inject)
qed (simp_all add: startRecording_def cancelRecording_def disableShortcut_def resetConfirmed_def
    no_conflict_set defaults_distinct)

definition pressed :: "shortcut_platform \<Rightarrow> string \<Rightarrow> keyboard_event" where
  "pressed platform k =
     \<lparr>event_key = Some k, altGraph = False, metaKey = (platform = Macos), ctrlKey = (platform \<noteq> Macos),
      altKey = False, shiftKey = False, repeat_key = False, ime_composing = False, defaultPrevented = False,
      editable_target = False\<rparr>"

lemma pressed_fields [simp]:
  "event_key (pressed platform k) = Some k" "\<not> repeat_key (pressed platform k)" "\<not> ime_composing (pressed platform k)"
  "\<not> defaultPrevented (pressed platform k)" "\<not> editable_target (pressed platform k)" "\<not> shiftKey (pressed platform k)"
  by (simp_all add: pressed_def)

text \<open>The search is switched off, its chord given to the inbox, and the search reset to its default.\<close>

definition reset_run :: "shortcut_platform \<Rightarrow> shortcut_runtime \<Rightarrow> shortcuts_tab" where
  "reset_run platform runtime =
     resetRow OpenSearch
       (capture platform runtime GoInbox (pressed platform ''k'')
         (startRecording GoInbox
           (disableShortcut platform runtime OpenSearch (open_settings (openShortcuts platform runtime None)))))"

lemma pressed_k: "shortcutFromEvent platform (pressed platform ''k'') = Some (primary_chord ''K'')"
  by (cases platform; hypsubst; code_simp)

lemma k_allowed: "isShortcutAllowedForAction platform runtime GoInbox (primary_chord ''K'')"
  by (cases platform; cases runtime; hypsubst; code_simp)

lemma k_free:
  "findShortcutConflict GoInbox (primary_chord ''K'') (set_overrides [(''openSearch'', None)] s) = None"
  by (simp add: findShortcutConflict_def find_None_iff getShortcut_def resolveShortcut_def action_id_def set_overrides_def
      shortcut_tables)

lemma open_search_default: "defaultShortcut (SHORTCUT_ACTION_BY_ID OpenSearch) = Some (primary_chord ''K'')" "action_id OpenSearch = ''openSearch''"
  by code_simp+

lemma captured_store:
  "tab_store (capture platform runtime GoInbox (pressed platform ''k'') (startRecording GoInbox
      (disableShortcut platform runtime OpenSearch (open_settings (openShortcuts platform runtime None))))) =
     setShortcut platform runtime GoInbox (Some (primary_chord ''K''))
       (set_overrides [(''openSearch'', None)] (openShortcuts platform runtime None))"
proof -
  have "setShortcut platform runtime OpenSearch None (openShortcuts platform runtime None) =
      set_overrides [(''openSearch'', None)] (openShortcuts platform runtime None)"
    by (simp add: setShortcut_def open_search_default openShortcuts_def mergeShortcuts_def isRecord_def
        sanitizeShortcutOverrides_def)
  moreover have "\<not> isReservedShortcut platform runtime (primary_chord ''K'')"
    using k_allowed [of platform runtime] by (auto simp: isShortcutAllowedForAction_def split: if_splits)
  ultimately show ?thesis
    by (simp add: capture_def pressed_k recorded_def startRecording_def disableShortcut_def open_settings_def k_allowed k_free)
qed

lemma open_search_stays:
  "getShortcut GoInbox (setShortcut platform runtime GoInbox (Some (primary_chord ''K'')) s) = Some (primary_chord ''K'')"
  "obj_get (overrides (setShortcut platform runtime GoInbox (Some (primary_chord ''K'')) s)) ''openSearch'' =
     obj_get (overrides s) ''openSearch''"
  using get_setShortcut [of "Some (primary_chord ''K'')" platform runtime GoInbox GoInbox] k_allowed [of platform runtime]
    action_id_inject [of OpenSearch GoInbox, unfolded open_search_default]
  by (simp_all add: setShortcut_def set_overrides_def obj_simps)

lemma reset_run_reachable:
  "settings_run platform runtime True (open_settings (openShortcuts platform runtime None)) (reset_run platform runtime)"
proof -
  let ?t0 = "open_settings (openShortcuts platform runtime None)"
  let ?t1 = "disableShortcut platform runtime OpenSearch ?t0"
  let ?t2 = "startRecording GoInbox ?t1"
  let ?t3 = "capture platform runtime GoInbox (pressed platform ''k'') ?t2"
  have s1: "settings_step platform runtime True ?t0 ?t1" by (rule settings_step.disable)
  have s2: "settings_step platform runtime True ?t1 ?t2" by (rule settings_step.start)
  have s3: "settings_step platform runtime True ?t2 ?t3"
    by (rule settings_step.key) (simp add: startRecording_def)
  have s4: "settings_step platform runtime True ?t3 (resetRow OpenSearch ?t3)"
  proof (rule settings_step.reset_row)
    show "obj_get (overrides (tab_store ?t3)) (action_id OpenSearch) \<noteq> None"
      by (simp add: captured_store open_search_default open_search_stays) (simp add: set_overrides_def)
  qed simp
  show ?thesis unfolding reset_run_def
    by (rule converse_rtranclp_into_rtranclp [OF s1 converse_rtranclp_into_rtranclp [OF s2
          converse_rtranclp_into_rtranclp [OF s3 r_into_rtranclp [of "settings_step platform runtime True", OF s4]]]])
qed

lemma reset_run_shared:
  "getShortcut OpenSearch (tab_store (reset_run platform runtime)) = Some (primary_chord ''K'')"
  "getShortcut GoInbox (tab_store (reset_run platform runtime)) = Some (primary_chord ''K'')"
  using open_search_stays(1) [of platform runtime "set_overrides [(''openSearch'', None)] (openShortcuts platform runtime None)"]
    action_id_inject [of GoInbox OpenSearch, unfolded open_search_default]
  by (simp_all add: reset_run_def resetRow_def captured_store resetShortcut_def getShortcut_def resolveShortcut_def
      set_overrides_def obj_simps open_search_default)

lemma reset_run_starts:
  "handleKeyDown platform chat (pressed platform ''k'') (tab_store (reset_run platform runtime)) = Some OpenSearch"
  by (simp add: handleKeyDown_def GLOBAL_ACTIONS_def shouldIgnoreGlobalShortcutEvent_def shortcutMatchesEvent_iff
      pressed_k reset_run_shared(1))


section \<open>Instances\<close>

definition demo_settings :: shortcuts_tab where
  "demo_settings = capture Linux Desktop GoInbox (pressed Linux ''p'')
     (startRecording GoInbox (open_settings (openShortcuts Linux Desktop None)))"

lemma demo_settings_run:
  "settings_run Linux Desktop resets (open_settings (openShortcuts Linux Desktop None)) demo_settings"
proof -
  let ?t0 = "open_settings (openShortcuts Linux Desktop None)"
  have "settings_step Linux Desktop resets ?t0 (startRecording GoInbox ?t0)" by (rule settings_step.start)
  moreover have "settings_step Linux Desktop resets (startRecording GoInbox ?t0) demo_settings"
    unfolding demo_settings_def by (rule settings_step.key) (simp add: startRecording_def)
  ultimately show ?thesis by (rule converse_rtranclp_into_rtranclp [OF _ r_into_rtranclp])
qed

lemma demo_settings_inbox:
  "getShortcut GoInbox (tab_store demo_settings) = Some (primary_chord ''P'')"
  "handleKeyDown Linux True ((pressed Linux ''j'')\<lparr>editable_target := True\<rparr>) (tab_store demo_settings) = Some ToggleChat"
  "submit_key_down Linux (pressed Linux ''Enter'') False (tab_store demo_settings) = Submit"
  by code_simp+

theorem shortcut_policy_witness:
  "isShortcutAllowedForAction Linux Desktop GoInbox (primary_chord ''P'') \<and>
   handleKeyDown Linux True ((pressed Linux ''j'')\<lparr>editable_target := True\<rparr>) (tab_store demo_settings) = Some ToggleChat \<and>
   event_key (pressed Linux ''Enter'') = Some ''Enter'' \<and> \<not> shiftKey (pressed Linux ''Enter'')"
  using shortcut_policy [OF demo_settings_run, of GoInbox "primary_chord ''P''" True "pressed Linux ''Enter''" False]
    demo_settings_inbox
  by simp

theorem shortcuts_reload_witness:
  "getShortcut GoInbox (openShortcuts Linux Desktop (stored_shortcuts (tab_store demo_settings))) = Some (primary_chord ''P'')"
  using shortcuts_reload [OF demo_settings_run, of GoInbox] demo_settings_inbox(1) by simp


end
