(* ===== verification/Participation.thy ===== *)
theory Participation
  imports Issue_Timeline JS_Json
begin

text \<open>
  Reactions of an issue and of its comments: \<open>useToggleIssueReaction\<close> and
  \<open>useToggleCommentReaction\<close> (\<open>packages/core/issues/mutations.ts\<close>), the hook of an issue's reactions
  (\<open>packages/views/issues/hooks/use-issue-reactions.ts\<close>) and the reactions of the timeline hook
  (\<open>use-issue-timeline.ts\<close>). Nothing is written to a cache before the server answers: what is shown
  is the cache with the running requests laid over it.
\<close>

section \<open>The overlay of the running requests\<close>

text \<open>The variables of a toggle; a comment's toggle also names the comment.\<close>

record toggle_vars =
  toggle_emoji :: string
  toggle_existing :: "reaction option"

record comment_toggle_vars = toggle_vars +
  toggle_comment :: string

definition own_reaction :: "string option \<Rightarrow> string \<Rightarrow> reaction \<Rightarrow> bool" where
  "own_reaction userId em r \<longleftrightarrow>
     (case userId of None \<Rightarrow> False | Some u \<Rightarrow> same_reaction em ''member'' u r)"

definition optimistic_reaction :: "string \<Rightarrow> string option \<Rightarrow> string \<Rightarrow> reaction" where
  "optimistic_reaction on userId em =
     \<lparr>reaction_id = ''optimistic-'' @ em, reaction_on = on, reaction_actor_type = ''member'',
      reaction_actor_id = default_to [] userId, emoji = em, reacted_at = []\<rparr>"

definition pending_toggle ::
    "string \<Rightarrow> string option \<Rightarrow> reaction list \<Rightarrow> 'a toggle_vars_scheme \<Rightarrow> reaction list" where
  "pending_toggle on userId result vars =
     (case toggle_existing vars of
        Some x \<Rightarrow> filter (\<lambda>r. reaction_id r \<noteq> reaction_id x) result
      | None \<Rightarrow>
          if list_ex (own_reaction userId (toggle_emoji vars)) result then result
          else result @ [optimistic_reaction on userId (toggle_emoji vars)])"

text \<open>The reactions of an issue as they are drawn.\<close>

definition shown_reactions ::
    "string \<Rightarrow> string option \<Rightarrow> toggle_vars list \<Rightarrow> reaction list \<Rightarrow> reaction list" where
  "shown_reactions issueId userId pending server =
     (if pending = [] then server else foldl (pending_toggle issueId userId) server pending)"

text \<open>The timeline as it is drawn: each comment with the requests about it.\<close>

definition optimistic_entry ::
    "string option \<Rightarrow> comment_toggle_vars list \<Rightarrow> timeline_entry \<Rightarrow> timeline_entry" where
  "optimistic_entry userId pending entry =
     (let mine = filter (\<lambda>v. toggle_comment v = entry_id entry) pending in
      if mine = [] then entry
      else entry\<lparr>reactions := Some (foldl (pending_toggle (entry_id entry) userId) (or_empty (reactions entry)) mine)\<rparr>)"

definition optimisticTimeline ::
    "string option \<Rightarrow> comment_toggle_vars list \<Rightarrow> timeline_entry list \<Rightarrow> timeline_entry list" where
  "optimisticTimeline userId pending timeline =
     (if pending = [] then timeline else map (optimistic_entry userId pending) timeline)"

section \<open>A press on a reaction\<close>

text \<open>\<open>toggleReaction\<close> of both hooks: nothing is sent without a user.\<close>

definition toggleReaction :: "string option \<Rightarrow> string \<Rightarrow> reaction list \<Rightarrow> toggle_vars option" where
  "toggleReaction userId em server =
     (case truthy userId of
        None \<Rightarrow> None
      | Some u \<Rightarrow> Some \<lparr>toggle_emoji = em, toggle_existing = find (own_reaction userId em) server\<rparr>)"

definition toggleCommentReaction ::
    "string option \<Rightarrow> string \<Rightarrow> string \<Rightarrow> timeline_entry list \<Rightarrow> comment_toggle_vars option" where
  "toggleCommentReaction userId commentId em timeline =
     (case truthy userId of
        None \<Rightarrow> None
      | Some u \<Rightarrow>
          (let entry = find (\<lambda>e. entry_id e = commentId) timeline;
               rs = (case entry of None \<Rightarrow> [] | Some e \<Rightarrow> or_empty (reactions e))
           in Some \<lparr>toggle_emoji = em, toggle_existing = find (own_reaction userId em) rs, toggle_comment = commentId\<rparr>))"

text \<open>The request a toggle sends.\<close>

datatype reaction_request =
    AddIssueReaction string string | RemoveIssueReaction string string
  | AddReaction string string | RemoveReaction string string

definition toggle_issue_request :: "string \<Rightarrow> toggle_vars \<Rightarrow> reaction_request" where
  "toggle_issue_request issueId vars =
     (if toggle_existing vars \<noteq> None then RemoveIssueReaction issueId (toggle_emoji vars)
      else AddIssueReaction issueId (toggle_emoji vars))"

definition toggle_comment_request :: "comment_toggle_vars \<Rightarrow> reaction_request" where
  "toggle_comment_request vars =
     (if toggle_existing vars \<noteq> None then RemoveReaction (toggle_comment vars) (toggle_emoji vars)
      else AddReaction (toggle_comment vars) (toggle_emoji vars))"

section \<open>The hook of an issue's reactions\<close>

record reaction_hook =
  react_cache :: "reaction list option"
  react_pending :: "toggle_vars list"
  react_sent :: "reaction_request list"
  react_stale :: bool

definition serverReactions :: "reaction_hook \<Rightarrow> reaction list" where
  "serverReactions h = or_empty (react_cache h)"

definition drawn :: "string \<Rightarrow> string option \<Rightarrow> reaction_hook \<Rightarrow> reaction list" where
  "drawn issueId userId h = shown_reactions issueId userId (react_pending h) (serverReactions h)"

definition press :: "string \<Rightarrow> string option \<Rightarrow> string \<Rightarrow> reaction_hook \<Rightarrow> reaction_hook" where
  "press issueId userId em h =
     (case toggleReaction userId em (serverReactions h) of
        None \<Rightarrow> h
      | Some vars \<Rightarrow> h\<lparr>react_pending := react_pending h @ [vars],
                       react_sent := react_sent h @ [toggle_issue_request issueId vars]\<rparr>)"

text \<open>A request is answered, with success or not: \<open>onSettled\<close> invalidates, and the answer itself is not used.\<close>

definition reaction_settled :: "nat \<Rightarrow> reaction_hook \<Rightarrow> reaction_hook" where
  "reaction_settled i h =
     h\<lparr>react_pending := take i (react_pending h) @ drop (Suc i) (react_pending h), react_stale := True\<rparr>"

definition on_issue_reaction_added :: "string \<Rightarrow> string \<Rightarrow> reaction \<Rightarrow> reaction_hook \<Rightarrow> reaction_hook" where
  "on_issue_reaction_added issueId of_issue r h =
     (if of_issue \<noteq> issueId then h
      else h\<lparr>react_cache :=
        (case react_cache h of
           None \<Rightarrow> None
         | Some old \<Rightarrow> if list_ex (\<lambda>x. reaction_id x = reaction_id r) old then Some old
                       else Some (old @ [r]))\<rparr>)"

definition on_issue_reaction_removed ::
    "string \<Rightarrow> string \<Rightarrow> string \<Rightarrow> string \<Rightarrow> string \<Rightarrow> reaction_hook \<Rightarrow> reaction_hook" where
  "on_issue_reaction_removed issueId of_issue em aty aid h =
     (if of_issue \<noteq> issueId then h
      else h\<lparr>react_cache := map_option (filter (\<lambda>r. \<not> same_reaction em aty aid r)) (react_cache h)\<rparr>)"

definition reactions_reconnected :: "reaction_hook \<Rightarrow> reaction_hook" where
  "reactions_reconnected h = h\<lparr>react_stale := True\<rparr>"

text \<open>The query answers with the server's rows.\<close>

definition reactions_fetched :: "reaction list \<Rightarrow> reaction_hook \<Rightarrow> reaction_hook" where
  "reactions_fetched rows h = h\<lparr>react_cache := Some rows, react_stale := False\<rparr>"

text \<open>\<open>known\<close> says which reactions the server ever sends.\<close>

inductive reaction_step ::
    "string \<Rightarrow> string option \<Rightarrow> (reaction \<Rightarrow> bool) \<Rightarrow> reaction_hook \<Rightarrow> reaction_hook \<Rightarrow> bool"
  for issueId userId known where
  press: "reaction_step issueId userId known h (press issueId userId em h)"
| settle: "i < length (react_pending h) \<Longrightarrow> reaction_step issueId userId known h (reaction_settled i h)"
| added: "known r \<Longrightarrow> reaction_step issueId userId known h (on_issue_reaction_added issueId of_issue r h)"
| removed: "reaction_step issueId userId known h (on_issue_reaction_removed issueId of_issue em aty aid h)"
| reconnect: "reaction_step issueId userId known h (reactions_reconnected h)"
| fetched: "list_all known rows \<Longrightarrow> reaction_step issueId userId known h (reactions_fetched rows h)"

definition reactions_mounted :: reaction_hook where
  "reactions_mounted = \<lparr>react_cache = None, react_pending = [], react_sent = [], react_stale = False\<rparr>"

text \<open>
  The subscribers of issues: \<open>useToggleIssueSubscriber\<close> and \<open>useUnsubscribeFromIssueSubtree\<close>
  (\<open>packages/core/issues/mutations.ts\<close>) and the hook \<open>useIssueSubscribers\<close>
  (\<open>packages/views/issues/hooks/use-issue-subscribers.ts\<close>). The caches of all issues are one
  dictionary, an absent key being a list that is not loaded; the clock is an argument.
\<close>

record subscriber =
  sub_issue :: string
  sub_user_type :: string
  sub_user_id :: string
  sub_reason :: string
  sub_created :: string

record sub_state =
  sub_caches :: "subscriber list obj"
  sub_stale :: "string list"
  sub_toasts :: "string list"

definition same_subscriber :: "string \<Rightarrow> string \<Rightarrow> subscriber \<Rightarrow> bool" where
  "same_subscriber userId userType s \<longleftrightarrow> sub_user_id s = userId \<and> sub_user_type s = userType"

definition cached_subs :: "string \<Rightarrow> sub_state \<Rightarrow> subscriber list option" where
  "cached_subs issueId st = obj_get (sub_caches st) issueId"

text \<open>\<open>setQueryData\<close> with an updater: \<open>undefined\<close> writes nothing.\<close>

definition update_subs ::
    "string \<Rightarrow> (subscriber list option \<Rightarrow> subscriber list option) \<Rightarrow> sub_state \<Rightarrow> sub_state" where
  "update_subs issueId f st =
     (case f (cached_subs issueId st) of
        None \<Rightarrow> st
      | Some xs \<Rightarrow> st\<lparr>sub_caches := obj_set (sub_caches st) issueId xs\<rparr>)"

definition stale_subs :: "string list \<Rightarrow> sub_state \<Rightarrow> sub_state" where
  "stale_subs ks st = st\<lparr>sub_stale := sub_stale st @ filter (\<lambda>k. k \<notin> set (sub_stale st)) ks\<rparr>"

section \<open>Toggling one subscriber\<close>

definition remove_subscriber :: "string \<Rightarrow> string \<Rightarrow> subscriber list option \<Rightarrow> subscriber list option" where
  "remove_subscriber userId userType old = map_option (filter (\<lambda>s. \<not> same_subscriber userId userType s)) old"

definition add_subscriber :: "subscriber \<Rightarrow> subscriber list option \<Rightarrow> subscriber list option" where
  "add_subscriber temp old =
     (if list_ex (same_subscriber (sub_user_id temp) (sub_user_type temp)) (default_to [] old) then old
      else Some (default_to [] old @ [temp]))"

text \<open>\<open>onMutate\<close> gives the caches and the snapshot.\<close>

definition toggle_subscriber_mutate ::
    "string \<Rightarrow> string \<Rightarrow> string \<Rightarrow> string \<Rightarrow> bool \<Rightarrow> sub_state \<Rightarrow> sub_state \<times> subscriber list option" where
  "toggle_subscriber_mutate now issueId userId userType subscribed st =
     (let prev = cached_subs issueId st in
      (if subscribed then update_subs issueId (remove_subscriber userId userType) st
       else update_subs issueId (add_subscriber
              \<lparr>sub_issue = issueId, sub_user_type = userType, sub_user_id = userId,
               sub_reason = ''manual'', sub_created = now\<rparr>) st, prev))"

definition toggle_subscriber_error :: "string \<Rightarrow> subscriber list option \<Rightarrow> sub_state \<Rightarrow> sub_state" where
  "toggle_subscriber_error issueId prev st =
     (case prev of None \<Rightarrow> st | Some xs \<Rightarrow> update_subs issueId (\<lambda>_. Some xs) st)"

definition toggle_subscriber_settled :: "string \<Rightarrow> sub_state \<Rightarrow> sub_state" where
  "toggle_subscriber_settled issueId st = stale_subs [issueId] st"

definition isSubscribed :: "string \<Rightarrow> string option \<Rightarrow> sub_state \<Rightarrow> bool" where
  "isSubscribed issueId userId st =
     (case userId of None \<Rightarrow> False
      | Some u \<Rightarrow> list_ex (same_subscriber u ''member'') (default_to [] (cached_subs issueId st)))"

definition subscriptionReason :: "string \<Rightarrow> string option \<Rightarrow> sub_state \<Rightarrow> string option" where
  "subscriptionReason issueId userId st =
     (case userId of None \<Rightarrow> None
      | Some u \<Rightarrow> map_option sub_reason
          (find (same_subscriber u ''member'') (default_to [] (cached_subs issueId st))))"

text \<open>The press of the own button, as the variables of the mutation.\<close>

definition toggleSubscribe :: "string \<Rightarrow> string option \<Rightarrow> sub_state \<Rightarrow> (string \<times> string \<times> bool) option" where
  "toggleSubscribe issueId userId st =
     (case truthy userId of None \<Rightarrow> None | Some u \<Rightarrow> Some (u, ''member'', isSubscribed issueId userId st))"

section \<open>Leaving a sub-tree\<close>

text \<open>A failed request: an \<open>ApiError\<close> with its status and whether it had a body, or another error.\<close>

datatype request_error = ApiError int bool | OtherError

definition isMissingRouteError :: "request_error \<Rightarrow> bool" where
  "isMissingRouteError err = (case err of ApiError st body \<Rightarrow> st = 404 \<and> \<not> body | OtherError \<Rightarrow> False)"

definition subtree_failed :: "request_error \<Rightarrow> sub_state \<Rightarrow> sub_state" where
  "subtree_failed err st =
     st\<lparr>sub_toasts := sub_toasts st @
       [if isMissingRouteError err then ''unsubscribe_subtree_unsupported'' else ''unsubscribe_subtree_failed'']\<rparr>"

definition subtree_settled :: "sub_state \<Rightarrow> sub_state" where
  "subtree_settled st = stale_subs (obj_keys (sub_caches st)) st"

section \<open>Socket events\<close>

definition on_subscriber_added ::
    "string \<Rightarrow> string \<Rightarrow> string \<Rightarrow> string \<Rightarrow> string \<Rightarrow> string \<Rightarrow> sub_state \<Rightarrow> sub_state" where
  "on_subscriber_added now issueId of_issue userId userType reason st =
     (if of_issue \<noteq> issueId then st
      else update_subs issueId (\<lambda>old.
        case old of
          None \<Rightarrow> None
        | Some xs \<Rightarrow>
            (case find (same_subscriber userId userType) xs of
               Some s \<Rightarrow>
                 if sub_reason s = reason then Some xs
                 else Some (map (\<lambda>s. if same_subscriber userId userType s then s\<lparr>sub_reason := reason\<rparr> else s) xs)
             | None \<Rightarrow> Some (xs @ [\<lparr>sub_issue = of_issue, sub_user_type = userType, sub_user_id = userId,
                                   sub_reason = reason, sub_created = now\<rparr>]))) st)"

definition on_subscriber_removed :: "string \<Rightarrow> string \<Rightarrow> string \<Rightarrow> string \<Rightarrow> sub_state \<Rightarrow> sub_state" where
  "on_subscriber_removed issueId of_issue userId userType st =
     (if of_issue \<noteq> issueId then st else update_subs issueId (remove_subscriber userId userType) st)"

definition subs_reconnected :: "string \<Rightarrow> sub_state \<Rightarrow> sub_state" where
  "subs_reconnected issueId st = stale_subs [issueId] st"

definition subs_fetched :: "string \<Rightarrow> subscriber list \<Rightarrow> sub_state \<Rightarrow> sub_state" where
  "subs_fetched issueId rows st =
     st\<lparr>sub_caches := obj_set (sub_caches st) issueId rows, sub_stale := filter (\<lambda>k. k \<noteq> issueId) (sub_stale st)\<rparr>"

section \<open>The hooks at work\<close>

text \<open>
  The caches with the toggles under way: each the issue it is about and the snapshot it took.
  \<open>answered\<close> takes one off the list; a refused toggle runs \<open>onError\<close> before \<open>onSettled\<close>.
\<close>

type_synonym sub_run = "sub_state \<times> (string \<times> subscriber list option) list"

definition answered :: "nat \<Rightarrow> bool \<Rightarrow> sub_run \<Rightarrow> sub_run" where
  "answered n ok run =
     (let (issueId, prev) = snd run ! n;
          st = (if ok then fst run else toggle_subscriber_error issueId prev (fst run))
      in (toggle_subscriber_settled issueId st, take n (snd run) @ drop (Suc n) (snd run)))"

definition toggled :: "string \<Rightarrow> string \<Rightarrow> string \<Rightarrow> string \<Rightarrow> bool \<Rightarrow> sub_run \<Rightarrow> sub_run" where
  "toggled now issueId userId userType subscribed run =
     (let (st, prev) = toggle_subscriber_mutate now issueId userId userType subscribed (fst run)
      in (st, snd run @ [(issueId, prev)]))"

text \<open>The server keeps one row for each subscriber of an issue.\<close>

definition one_each :: "subscriber list \<Rightarrow> bool" where
  "one_each xs \<longleftrightarrow> distinct (map (\<lambda>s. (sub_user_id s, sub_user_type s)) xs)"

inductive sub_step :: "sub_run \<Rightarrow> sub_run \<Rightarrow> bool" where
  toggle: "sub_step run (toggled now issueId userId userType subscribed run)"
| answer: "n < length (snd run) \<Longrightarrow> sub_step run (answered n ok run)"
| added: "sub_step (st, ctx) (on_subscriber_added now issueId of_issue userId userType reason st, ctx)"
| removed: "sub_step (st, ctx) (on_subscriber_removed issueId of_issue userId userType st, ctx)"
| reconnected: "sub_step (st, ctx) (subs_reconnected issueId st, ctx)"
| fetched: "one_each rows \<Longrightarrow> sub_step (st, ctx) (subs_fetched issueId rows st, ctx)"
| left_subtree: "sub_step (st, ctx) (subtree_settled st, ctx)"
| subtree_refused: "sub_step (st, ctx) (subtree_settled (subtree_failed err st), ctx)"

definition no_subs :: sub_state where
  "no_subs = \<lparr>sub_caches = [], sub_stale = [], sub_toasts = []\<rparr>"

end
