(* ===== verification/Participation_Properties.thy ===== *)
theory Participation_Properties
  imports Participation
begin

text \<open>
  The properties of reactions and subscribers: what the overlay of the running requests may
  change, what a press shows in each order of its answer and its event, that no list holds a
  subscriber twice, and what a refused subscription leaves.
\<close>

section \<open>The overlay\<close>

definition of_user :: "string \<Rightarrow> reaction \<Rightarrow> bool" where
  "of_user u r \<longleftrightarrow> reaction_actor_type r = ''member'' \<and> reaction_actor_id r = u"

definition own_count :: "string \<Rightarrow> string \<Rightarrow> reaction list \<Rightarrow> nat" where
  "own_count u em rs = length (filter (own_reaction (Some u) em) rs)"

lemma own_of_user: "own_reaction (Some u) em r \<longleftrightarrow> of_user u r \<and> emoji r = em"
  by (auto simp: own_reaction_def same_reaction_def of_user_def)

lemma own_optimistic [simp]: "own_reaction (Some u) em (optimistic_reaction on (Some u) em') \<longleftrightarrow> em' = em"
  "of_user u (optimistic_reaction on (Some u) em')"
  by (auto simp: own_of_user of_user_def optimistic_reaction_def)

text \<open>A request to remove names a reaction of the user that the server sent.\<close>

definition removes_own :: "string \<Rightarrow> (reaction \<Rightarrow> bool) \<Rightarrow> 'a toggle_vars_scheme \<Rightarrow> bool" where
  "removes_own u known v \<longleftrightarrow> (\<forall>x. toggle_existing v = Some x \<longrightarrow> known x \<and> own_reaction (Some u) (toggle_emoji v) x)"

definition sent_once :: "(reaction \<Rightarrow> bool) \<Rightarrow> bool" where
  "sent_once known \<longleftrightarrow> (\<forall>r s. known r \<longrightarrow> known s \<longrightarrow> reaction_id r = reaction_id s \<longrightarrow> r = s)"

lemma pending_toggle_others:
  assumes "sent_once known" "removes_own u known v" "\<forall>r \<in> set rs. known r \<or> of_user u r"
  shows "filter (\<lambda>r. \<not> of_user u r) (pending_toggle on (Some u) rs v) = filter (\<lambda>r. \<not> of_user u r) rs"
    and "\<forall>r \<in> set (pending_toggle on (Some u) rs v). known r \<or> of_user u r"
proof -
  show "\<forall>r \<in> set (pending_toggle on (Some u) rs v). known r \<or> of_user u r"
    using assms(3) by (auto simp: pending_toggle_def split: option.split)
  show "filter (\<lambda>r. \<not> of_user u r) (pending_toggle on (Some u) rs v) = filter (\<lambda>r. \<not> of_user u r) rs"
  proof (cases "toggle_existing v")
    case (Some x)
    then have x: "known x" "of_user u x" using assms(2) by (auto simp: removes_own_def own_of_user)
    have "(reaction_id r \<noteq> reaction_id x \<and> \<not> of_user u r) = (\<not> of_user u r)" if "r \<in> set rs" for r
      using assms(1,3) x that by (auto simp: sent_once_def)
    then show ?thesis using Some by (simp add: pending_toggle_def conj_commute cong: filter_cong)
  qed (simp add: pending_toggle_def)
qed

lemma pending_toggle_count: "own_count u em (pending_toggle on (Some u) rs v) \<le> max 1 (own_count u em rs)"
proof (cases "toggle_existing v")
  case (Some x)
  have "length (filter P (filter Q rs)) \<le> length (filter P rs)" for P Q :: "reaction \<Rightarrow> bool"
    by (induction rs) auto
  then show ?thesis using Some by (simp add: pending_toggle_def own_count_def le_max_iff_disj del: filter_filter)
next
  case None
  then show ?thesis
    by (auto simp: pending_toggle_def own_count_def list_ex_iff filter_empty_conv)
qed

lemma overlay_own_only:
  assumes "sent_once known" "\<forall>v \<in> set pending. removes_own u known v" "\<forall>r \<in> set rs. known r \<or> of_user u r"
  shows "filter (\<lambda>r. \<not> of_user u r) (foldl (pending_toggle on (Some u)) rs pending) = filter (\<lambda>r. \<not> of_user u r) rs"
  using assms(2,3)
proof (induction pending arbitrary: rs)
  case (Cons v pending)
  have v: "removes_own u known v" using Cons.prems(1) by simp
  show ?case
    using Cons.IH [of "pending_toggle on (Some u) rs v"] Cons.prems(1)
      pending_toggle_others [OF assms(1) v Cons.prems(2), of on] by simp
qed simp

lemma overlay_count:
  "own_count u em (foldl (pending_toggle on (Some u)) rs pending) \<le> max 1 (own_count u em rs)"
proof (induction pending arbitrary: rs)
  case (Cons v pending)
  show ?case using pending_toggle_count [of u em on rs v] Cons.IH [of "pending_toggle on (Some u) rs v"]
    by (auto simp: max_def split: if_splits)
qed simp

section \<open>The hook\<close>

definition hook_ok :: "string \<Rightarrow> (reaction \<Rightarrow> bool) \<Rightarrow> reaction_hook \<Rightarrow> bool" where
  "hook_ok u known h \<longleftrightarrow>
     (\<forall>r \<in> set (serverReactions h). known r) \<and> (\<forall>v \<in> set (react_pending h). removes_own u known v)"

lemma press_ok:
  assumes "hook_ok u known h"
  shows "hook_ok u known (press issueId (Some u) em h)"
proof -
  have "removes_own u known \<lparr>toggle_emoji = em, toggle_existing = find (own_reaction (Some u) em) (serverReactions h)\<rparr>"
    using assms by (auto simp: removes_own_def hook_ok_def find_Some_iff)
  then show ?thesis using assms
    by (auto simp: press_def toggleReaction_def hook_ok_def serverReactions_def truthy_eq_Some split: option.split)
qed

lemma reaction_step_ok:
  assumes "reaction_step issueId (Some u) known h h'" "hook_ok u known h"
  shows "hook_ok u known h'"
  using assms
proof cases
  case (press em)
  then show ?thesis using press_ok assms(2) by simp
next
  case (settle i)
  then show ?thesis using assms(2)
    by (auto simp: hook_ok_def reaction_settled_def serverReactions_def dest: in_set_takeD in_set_dropD)
next
  case (added r of_issue)
  then show ?thesis using assms(2)
    by (auto simp: hook_ok_def on_issue_reaction_added_def serverReactions_def or_empty_def split: option.splits)
next
  case (removed of_issue em aty aid)
  then show ?thesis using assms(2)
    by (cases "react_cache h") (auto simp: hook_ok_def on_issue_reaction_removed_def serverReactions_def or_empty_def)
qed (auto simp: hook_ok_def reactions_reconnected_def reactions_fetched_def serverReactions_def or_empty_def list_all_iff)

text \<open>C39. Whatever requests are running and whatever the events and answers did, the drawn reactions are the cached ones as far as other users are concerned, and the own reaction with one emoji is drawn at most once unless the cache itself holds it more often.\<close>

theorem reaction_overlay:
  assumes "(reaction_step issueId (Some u) known)\<^sup>*\<^sup>* reactions_mounted h" "sent_once known"
  shows "filter (\<lambda>r. \<not> of_user u r) (drawn issueId (Some u) h) = filter (\<lambda>r. \<not> of_user u r) (serverReactions h) \<and>
    own_count u em (drawn issueId (Some u) h) \<le> max 1 (own_count u em (serverReactions h))"
proof (intro conjI)
  have "hook_ok u known reactions_mounted" by (simp add: hook_ok_def reactions_mounted_def serverReactions_def or_empty_def)
  with assms(1) have ok: "hook_ok u known h" by induction (auto dest: reaction_step_ok)
  show "filter (\<lambda>r. \<not> of_user u r) (drawn issueId (Some u) h) = filter (\<lambda>r. \<not> of_user u r) (serverReactions h)"
    using overlay_own_only [OF assms(2), of "react_pending h" u "serverReactions h"] ok
    by (simp add: drawn_def shown_reactions_def hook_ok_def)
  show "own_count u em (drawn issueId (Some u) h) \<le> max 1 (own_count u em (serverReactions h))"
    using overlay_count [of u em issueId "serverReactions h" "react_pending h"]
    by (simp add: drawn_def shown_reactions_def)
qed

text \<open>An added reaction is drawn at once, never beside the server's own, and ends the same whether the event or the answer comes first; but an answer that comes first takes it off the screen until the event or the refetch arrives, and a second press while the request runs sends the same request again instead of taking it back.\<close>

theorem press_outcomes:
  assumes "react_pending h = []" "react_cache h = Some xs" "u \<noteq> []" "own_count u em xs = 0"
    and "own_reaction (Some u) em r" "\<forall>x \<in> set xs. reaction_id x \<noteq> reaction_id r"
  shows "drawn i (Some u) (press i (Some u) em h) = xs @ [optimistic_reaction i (Some u) em]"
    and "drawn i (Some u) (on_issue_reaction_added i i r (press i (Some u) em h)) = xs @ [r]"
    and "reaction_settled 0 (on_issue_reaction_added i i r (press i (Some u) em h)) =
      on_issue_reaction_added i i r (reaction_settled 0 (press i (Some u) em h))"
    and "drawn i (Some u) (reaction_settled 0 (on_issue_reaction_added i i r (press i (Some u) em h))) = xs @ [r]"
    and "drawn i (Some u) (reaction_settled 0 (press i (Some u) em h)) = xs"
    and "drawn i (Some u) (press i (Some u) em (press i (Some u) em h)) = xs @ [optimistic_reaction i (Some u) em]"
    and "react_sent (press i (Some u) em (press i (Some u) em h)) =
      react_sent h @ [AddIssueReaction i em, AddIssueReaction i em]"
proof -
  have none: "\<not> list_ex (own_reaction (Some u) em) xs" "find (own_reaction (Some u) em) xs = None"
    using assms(4) by (auto simp: own_count_def list_ex_iff filter_empty_conv find_None_iff)
  have id: "\<not> list_ex (\<lambda>x. reaction_id x = reaction_id r) xs" using assms(6) by (auto simp: list_ex_iff)
  let ?v = "\<lparr>toggle_emoji = em, toggle_existing = None\<rparr> :: toggle_vars"
  have press: "press i (Some u) em h' = h'\<lparr>react_pending := react_pending h' @ [?v], react_sent := react_sent h' @ [AddIssueReaction i em]\<rparr>"
    if "react_cache h' = Some xs" for h'
    using that none assms(3) by (simp add: press_def toggleReaction_def serverReactions_def or_empty_def toggle_issue_request_def)
  show "drawn i (Some u) (press i (Some u) em h) = xs @ [optimistic_reaction i (Some u) em]"
    using assms(1,2) none by (simp add: press drawn_def shown_reactions_def serverReactions_def or_empty_def pending_toggle_def)
  show "drawn i (Some u) (on_issue_reaction_added i i r (press i (Some u) em h)) = xs @ [r]"
    using assms(1,2,5) none id
    by (simp add: press on_issue_reaction_added_def drawn_def shown_reactions_def serverReactions_def or_empty_def pending_toggle_def)
  show "reaction_settled 0 (on_issue_reaction_added i i r (press i (Some u) em h)) =
      on_issue_reaction_added i i r (reaction_settled 0 (press i (Some u) em h))"
    by (simp add: reaction_settled_def on_issue_reaction_added_def)
  show "drawn i (Some u) (reaction_settled 0 (on_issue_reaction_added i i r (press i (Some u) em h))) = xs @ [r]"
    using assms(1,2) id
    by (simp add: press reaction_settled_def on_issue_reaction_added_def drawn_def shown_reactions_def serverReactions_def or_empty_def)
  show "drawn i (Some u) (reaction_settled 0 (press i (Some u) em h)) = xs"
    using assms(1,2) by (simp add: press reaction_settled_def drawn_def shown_reactions_def serverReactions_def or_empty_def)
  show "drawn i (Some u) (press i (Some u) em (press i (Some u) em h)) = xs @ [optimistic_reaction i (Some u) em]"
    using assms(1,2) none
    by (simp add: press drawn_def shown_reactions_def serverReactions_def or_empty_def pending_toggle_def)
  show "react_sent (press i (Some u) em (press i (Some u) em h)) =
      react_sent h @ [AddIssueReaction i em, AddIssueReaction i em]"
    using assms(2) by (simp add: press)
qed

text \<open>The timeline draws each comment the same way, with the requests about it alone.\<close>

lemma optimistic_entry_reactions:
  assumes "e \<in> set timeline" "e' = optimistic_entry userId pending e"
  shows "e' \<in> set (optimisticTimeline userId pending timeline)"
    and "or_empty (reactions e') = foldl (pending_toggle (entry_id e) userId) (or_empty (reactions e))
      (filter (\<lambda>v. toggle_comment v = entry_id e) pending)"
    and "entry_id e' = entry_id e" "content e' = content e"
  using assms
  by (auto simp: optimisticTimeline_def optimistic_entry_def Let_def or_empty_def [of "Some _"])

section \<open>Subscribers\<close>

definition subs_ok :: "sub_state \<Rightarrow> bool" where
  "subs_ok st \<longleftrightarrow> (\<forall>i xs. cached_subs i st = Some xs \<longrightarrow> one_each xs)"

lemma one_each_Nil [simp]: "one_each []"
  by (simp add: one_each_def)

lemma one_each_filter: "one_each xs \<Longrightarrow> one_each (filter P xs)"
  by (simp add: one_each_def distinct_map_filter)

lemma one_each_append:
  "one_each xs \<Longrightarrow> \<not> list_ex (same_subscriber (sub_user_id s) (sub_user_type s)) xs \<Longrightarrow> one_each (xs @ [s])"
  by (auto simp: one_each_def list_ex_iff same_subscriber_def)

lemma cached_update:
  "cached_subs j (update_subs i f st) =
     (if j = i then (case f (cached_subs i st) of None \<Rightarrow> cached_subs i st | Some xs \<Rightarrow> Some xs) else cached_subs j st)"
  by (auto simp: update_subs_def cached_subs_def obj_simps split: option.split)

lemma subs_ok_update:
  assumes "subs_ok st" "\<And>xs. f (cached_subs i st) = Some xs \<Longrightarrow> one_each xs"
  shows "subs_ok (update_subs i f st)"
  using assms by (auto simp: subs_ok_def cached_update split: if_splits option.splits)

lemma cached_stale [simp]: "cached_subs i (stale_subs ks st) = cached_subs i st"
  by (simp add: cached_subs_def stale_subs_def)

lemma subs_ok_remove:
  assumes "subs_ok st"
  shows "subs_ok (update_subs i (remove_subscriber u t) st)"
proof (rule subs_ok_update [OF assms])
  fix xs
  assume "remove_subscriber u t (cached_subs i st) = Some xs"
  then show "one_each xs" using assms by (auto simp: remove_subscriber_def subs_ok_def one_each_filter)
qed

lemma subs_ok_add:
  assumes "subs_ok st"
  shows "subs_ok (update_subs i (add_subscriber s) st)"
proof (rule subs_ok_update [OF assms])
  fix xs
  assume "add_subscriber s (cached_subs i st) = Some xs"
  then show "one_each xs"
    using assms one_each_append [of "[]" s]
    by (cases "cached_subs i st") (auto simp: add_subscriber_def subs_ok_def one_each_append split: if_splits)
qed

lemma subs_ok_added:
  assumes "subs_ok st"
  shows "subs_ok (on_subscriber_added now i of_issue u t reason st)"
proof -
  have "one_each (map (\<lambda>s. if same_subscriber u t s then s\<lparr>sub_reason := reason\<rparr> else s) xs)" if "one_each xs" for xs
  proof -
    have "map (\<lambda>s. (sub_user_id s, sub_user_type s)) (map (\<lambda>s. if same_subscriber u t s then s\<lparr>sub_reason := reason\<rparr> else s) xs) =
        map (\<lambda>s. (sub_user_id s, sub_user_type s)) xs" by simp
    then show ?thesis using that unfolding one_each_def by (simp only:)
  qed
  moreover have "\<not> list_ex (same_subscriber u t) xs" if "find (same_subscriber u t) xs = None" for xs
    using that by (auto simp: find_None_iff list_ex_iff)
  ultimately show ?thesis
    using assms by (auto simp: on_subscriber_added_def intro!: subs_ok_update one_each_append split: option.splits if_splits)
      (auto simp: subs_ok_def)
qed

lemma subs_ok_same: "(\<And>i. cached_subs i st' = cached_subs i st) \<Longrightarrow> subs_ok st \<Longrightarrow> subs_ok st'"
  by (simp add: subs_ok_def)

lemma subtree_ok: "subs_ok st \<Longrightarrow> subs_ok (subtree_settled st)" "subs_ok st \<Longrightarrow> subs_ok (subtree_failed err st)"
  by (simp_all add: subs_ok_def subtree_settled_def subtree_failed_def) (simp add: cached_subs_def)

definition run_subs_ok :: "sub_run \<Rightarrow> bool" where
  "run_subs_ok run \<longleftrightarrow> subs_ok (fst run) \<and> (\<forall>(i, prev) \<in> set (snd run). \<forall>xs. prev = Some xs \<longrightarrow> one_each xs)"

lemma sub_step_ok:
  assumes "sub_step run run'" "run_subs_ok run"
  shows "run_subs_ok run'"
  using assms
proof cases
  case (toggle now i u t b)
  have "subs_ok (fst (toggle_subscriber_mutate now i u t b (fst run)))"
    using assms(2) by (simp add: toggle_subscriber_mutate_def Let_def run_subs_ok_def subs_ok_remove subs_ok_add)
  then show ?thesis
    using assms(2) toggle by (auto simp: toggled_def toggle_subscriber_mutate_def Let_def run_subs_ok_def subs_ok_def)
next
  case (answer n ok)
  obtain i prev where n: "snd run ! n = (i, prev)" by (cases "snd run ! n")
  then have "(i, prev) \<in> set (snd run)" using answer(2) by (metis nth_mem)
  then have "prev = Some xs \<Longrightarrow> one_each xs" for xs using assms(2) by (auto simp: run_subs_ok_def)
  then have "subs_ok (toggle_subscriber_error i prev (fst run))"
    using assms(2) by (auto simp: toggle_subscriber_error_def run_subs_ok_def intro!: subs_ok_update split: option.split)
  then have "subs_ok (fst (answered n ok run))"
    using assms(2) n by (auto simp: answered_def toggle_subscriber_settled_def run_subs_ok_def intro: subs_ok_same [OF cached_stale])
  moreover have "set (snd (answered n ok run)) \<subseteq> set (snd run)"
    using n by (auto simp: answered_def dest: in_set_takeD in_set_dropD)
  ultimately show ?thesis using assms(2) unfolding run_subs_ok_def answer(1) by blast
next
  case (fetched rows st ctx i)
  then show ?thesis using assms(2)
    by (auto simp: run_subs_ok_def subs_ok_def subs_fetched_def cached_subs_def obj_simps split: if_splits)
qed (auto simp: run_subs_ok_def subs_ok_added on_subscriber_removed_def subs_ok_remove subs_reconnected_def
    subtree_ok intro: subs_ok_same [OF cached_stale])

text \<open>Through every sequence of toggles, refusals, events, refetches and departures from a sub-tree, the cached subscribers of an issue hold each user and agent at most once.\<close>

theorem subscribers_once:
  assumes "sub_step\<^sup>*\<^sup>* (no_subs, []) run" "cached_subs issueId (fst run) = Some xs"
  shows "one_each xs"
proof -
  have "run_subs_ok (no_subs, [])" by (simp add: run_subs_ok_def subs_ok_def no_subs_def cached_subs_def)
  with assms(1) have "run_subs_ok run" by induction (auto dest: sub_step_ok)
  then show ?thesis using assms(2) by (auto simp: run_subs_ok_def subs_ok_def)
qed

lemma find_last: "\<not> list_ex P xs \<Longrightarrow> P x \<Longrightarrow> find P (xs @ [x]) = Some x"
  by (induction xs) auto

lemma toggled_shown: "isSubscribed i (Some u) (fst (toggle_subscriber_mutate now i u ''member'' b st)) = (\<not> b)"
  by (cases "cached_subs i st")
    (auto simp: toggle_subscriber_mutate_def Let_def isSubscribed_def cached_update remove_subscriber_def add_subscriber_def
      list_ex_iff same_subscriber_def)

lemma refused_cached:
  assumes "cached_subs i st = Some xs"
  shows "cached_subs j (toggle_subscriber_error i (Some xs) (fst (toggle_subscriber_mutate now i u t b st))) = cached_subs j st"
  using assms by (auto simp: toggle_subscriber_error_def toggle_subscriber_mutate_def Let_def cached_update split: option.split)

text \<open>C40. A press on subscribe or unsubscribe shows at once, and the event that echoes a subscription changes nothing more; a refused press gives every list back as it was, at the price of events that came in between; but a list that was not loaded keeps the row of the refused subscription, which shows the user as subscribed until the refetch.\<close>

theorem subscribe_outcomes:
  fixes st now i u b
  defines "after \<equiv> fst (toggle_subscriber_mutate now i u ''member'' b st)"
    and "prev \<equiv> snd (toggle_subscriber_mutate now i u ''member'' b st)"
  shows "(isSubscribed i (Some u) after = (\<not> b)) \<and>
    (\<not> b \<longrightarrow> \<not> isSubscribed i (Some u) st \<longrightarrow>
      cached_subs j (on_subscriber_added now' i i u ''member'' ''manual'' after) = cached_subs j after) \<and>
    (cached_subs i st \<noteq> None \<longrightarrow> cached_subs j (toggle_subscriber_error i prev after) = cached_subs j st) \<and>
    (cached_subs i st \<noteq> None \<longrightarrow>
      cached_subs i (toggle_subscriber_error i prev (on_subscriber_added now' i i v ''agent'' reason after)) = cached_subs i st) \<and>
    (cached_subs i st = None \<longrightarrow> \<not> b \<longrightarrow>
      isSubscribed i (Some u) (toggle_subscriber_settled i (toggle_subscriber_error i prev after)) \<and>
      i \<in> set (sub_stale (toggle_subscriber_settled i (toggle_subscriber_error i prev after))))"
proof (intro conjI)
  have prev: "prev = cached_subs i st" by (simp add: prev_def toggle_subscriber_mutate_def Let_def)
  show shown: "isSubscribed i (Some u) after = (\<not> b)" unfolding after_def by (rule toggled_shown)
  show "\<not> b \<longrightarrow> \<not> isSubscribed i (Some u) st \<longrightarrow>
      cached_subs j (on_subscriber_added now' i i u ''member'' ''manual'' after) = cached_subs j after"
  proof (intro impI)
    assume b: "\<not> b" and new: "\<not> isSubscribed i (Some u) st"
    let ?s = "\<lparr>sub_issue = i, sub_user_type = ''member'', sub_user_id = u, sub_reason = ''manual'', sub_created = now\<rparr>"
    have none: "\<not> list_ex (same_subscriber u ''member'') (default_to [] (cached_subs i st))"
      using new by (simp add: isSubscribed_def)
    then have cached: "cached_subs i after = Some (default_to [] (cached_subs i st) @ [?s])"
      using b by (simp add: after_def toggle_subscriber_mutate_def Let_def cached_update add_subscriber_def)
    have "find (same_subscriber u ''member'') (default_to [] (cached_subs i st) @ [?s]) = Some ?s"
      using none by (intro find_last) (simp_all add: same_subscriber_def)
    then show "cached_subs j (on_subscriber_added now' i i u ''member'' ''manual'' after) = cached_subs j after"
      using cached by (simp add: on_subscriber_added_def cached_update)
  qed
  show "cached_subs i st \<noteq> None \<longrightarrow> cached_subs j (toggle_subscriber_error i prev after) = cached_subs j st"
    unfolding prev after_def using refused_cached by auto
  show "cached_subs i st \<noteq> None \<longrightarrow>
      cached_subs i (toggle_subscriber_error i prev (on_subscriber_added now' i i v ''agent'' reason after)) = cached_subs i st"
    unfolding prev by (auto simp: toggle_subscriber_error_def cached_update)
  show "cached_subs i st = None \<longrightarrow> \<not> b \<longrightarrow>
      isSubscribed i (Some u) (toggle_subscriber_settled i (toggle_subscriber_error i prev after)) \<and>
      i \<in> set (sub_stale (toggle_subscriber_settled i (toggle_subscriber_error i prev after)))"
    using shown by (simp add: prev toggle_subscriber_error_def toggle_subscriber_settled_def isSubscribed_def)
      (simp add: stale_subs_def)
qed

section \<open>Instances\<close>

definition demo_reaction :: reaction where
  "demo_reaction = \<lparr>reaction_id = ''r1'', reaction_on = ''i'', reaction_actor_type = ''member'',
     reaction_actor_id = ''me'', emoji = ''+1'', reacted_at = ''t''\<rparr>"

definition demo_hook :: reaction_hook where
  "demo_hook = press ''i'' (Some ''me'') ''+1'' (reactions_fetched [] reactions_mounted)"

theorem reaction_overlay_witness:
  "own_count ''me'' ''+1'' (drawn ''i'' (Some ''me'') demo_hook) = 1"
proof -
  have "reaction_step ''i'' (Some ''me'') (\<lambda>r. r = demo_reaction) reactions_mounted (reactions_fetched [] reactions_mounted)"
    by (rule reaction_step.fetched) simp
  moreover have "reaction_step ''i'' (Some ''me'') (\<lambda>r. r = demo_reaction) (reactions_fetched [] reactions_mounted) demo_hook"
    unfolding demo_hook_def by (rule reaction_step.press)
  ultimately have run: "(reaction_step ''i'' (Some ''me'') (\<lambda>r. r = demo_reaction))\<^sup>*\<^sup>* reactions_mounted demo_hook"
    by (rule converse_rtranclp_into_rtranclp [OF _ r_into_rtranclp])
  have "own_count ''me'' ''+1'' (drawn ''i'' (Some ''me'') demo_hook) \<le> max 1 (own_count ''me'' ''+1'' (serverReactions demo_hook))"
    using reaction_overlay [OF run, of "''+1''"] by (simp add: sent_once_def)
  moreover have "own_count ''me'' ''+1'' (serverReactions demo_hook) = 0"
    "own_count ''me'' ''+1'' (drawn ''i'' (Some ''me'') demo_hook) \<noteq> 0" by code_simp+
  ultimately show ?thesis by simp
qed

theorem press_outcomes_witness:
  "drawn ''i'' (Some ''me'') (reaction_settled 0 demo_hook) = [] \<and>
   react_sent (press ''i'' (Some ''me'') ''+1'' demo_hook) = [AddIssueReaction ''i'' ''+1'', AddIssueReaction ''i'' ''+1'']"
  using press_outcomes(5,7) [of "reactions_fetched [] reactions_mounted" "[]" "''me''" "''+1''" demo_reaction "''i''"]
  by (simp add: demo_hook_def reactions_fetched_def reactions_mounted_def own_count_def own_reaction_def same_reaction_def demo_reaction_def)

definition demo_subs :: sub_run where
  "demo_subs = toggled ''t'' ''i'' ''me'' ''member'' False (subs_fetched ''i'' [] no_subs, [])"

theorem subscribers_once_witness:
  "cached_subs ''i'' (fst demo_subs) \<noteq> None \<and> one_each (the (cached_subs ''i'' (fst demo_subs)))"
proof -
  have "sub_step (no_subs, []) (subs_fetched ''i'' [] no_subs, [])" by (rule sub_step.fetched) simp
  moreover have "sub_step (subs_fetched ''i'' [] no_subs, []) demo_subs" unfolding demo_subs_def by (rule sub_step.toggle)
  ultimately have run: "sub_step\<^sup>*\<^sup>* (no_subs, []) demo_subs"
    by (rule converse_rtranclp_into_rtranclp [OF _ r_into_rtranclp])
  have "cached_subs ''i'' (fst demo_subs) \<noteq> None" by code_simp
  then show ?thesis using subscribers_once [OF run] by auto
qed

theorem subscribe_outcomes_witness:
  "isSubscribed ''i'' (Some ''me'') (fst (toggle_subscriber_mutate ''t'' ''i'' ''me'' ''member'' False no_subs)) \<and>
   ''i'' \<in> set (sub_stale (toggle_subscriber_settled ''i'' (toggle_subscriber_error ''i'' None
     (fst (toggle_subscriber_mutate ''t'' ''i'' ''me'' ''member'' False no_subs)))))"
proof -
  have none: "cached_subs ''i'' no_subs = None" "snd (toggle_subscriber_mutate ''t'' ''i'' ''me'' ''member'' False no_subs) = None"
    by code_simp+
  show ?thesis
    using subscribe_outcomes [of "''i''" "''me''" "''t''" False no_subs] none by simp
qed

end
