(* ===== verification/Spec2Isabelle.thy ===== *)
theory Spec2Isabelle
  imports Tab_Restore Cron_Properties Issue_Properties Permissions Dedupe_Properties Freeze_Properties
    Chat_Properties Paging_Properties Recent_Items Deletion_Properties Updater_Properties
    Timeline_Properties Inbox_Properties Restore_Properties Chat_Cache_Properties
    Realtime_Properties Upload_Properties Shortcut_Properties Participation_Properties
begin

text \<open>
  A verification library of the TypeScript client of the repository: the parts of the shared
  package (\<open>packages/core\<close>, \<open>packages/views\<close>) and of the desktop application (\<open>apps/desktop\<close>)
  that keep state of their own, decide something, or translate between two representations.

  The parts and their theories

  JavaScript. \<open>JS_Prelude\<close>: strings, arrays, exceptions as the left values of a sum, objects as
  association lists in insertion order with ECMAScript's enumeration of integer keys, and the
  interface \<open>js_dict\<close> of a dictionary (what a lookup returns after a store or a removal), which
  is interpreted on objects (\<open>obj\<close>), on the query caches (\<open>query\<close>), on the web storage
  (\<open>adapter\<close>) and, through the locale \<open>namespaced\<close>, on the storage of one workspace (\<open>ws\<close>).
  \<open>JS_Sort\<close>: the stable sort with a comparison, what a consistent comparison orders, and when
  two lists sort alike. \<open>JS_Number\<close>: numbers as text. \<open>JS_Json\<close>: values of unknown type, what a value keeps when it
  is printed and parsed again, and stored texts.

  Desktop tabs (\<open>apps/desktop/src/renderer/src/stores/tab-store.ts\<close>, \<open>paths/reserved-slugs.ts\<close>).
  \<open>Tab_Url\<close> sanitizes and splits paths; \<open>Tab_Store\<close> has the state (one group of tabs for a
  workspace) and every action; \<open>Tab_Invariant\<close> says when a store is well-formed, \<open>Tab_Actions\<close>
  and \<open>Tab_Order\<close> prove it of each action, \<open>Tab_Machine\<close> composes the actions with the routers
  of the tabs; \<open>Tab_Persist\<close> has the partialize and merge hooks and the migrations. Shown:
  the invariant in every reachable store, that no action throws, what each action does
  (\<open>Tab_Properties\<close>, \<open>Tab_History\<close>), and restoring and round trips (\<open>Tab_Restore\<close>).

  Schedule editor (\<open>packages/views/autopilots/components/schedule-editor\<close>). \<open>Cron_Field\<close> parses
  and collapses one field of a cron expression, \<open>Cron_Schedule\<close> maps a whole expression to a
  schedule and prints it, reads it out and validates it. \<open>Cron_Meaning\<close> says at which moments
  an expression and a schedule fire. Shown: the structured reading fires at exactly the moments
  of the text, the collapse rules keep the meaning, printing then parsing gives the schedule
  back (\<open>Cron_Properties\<close>).

  Issue caches (\<open>packages/core/issues\<close>, \<open>packages/core/inbox\<close>). \<open>Issue_Cache\<close> has the issues, the
  bucketed lists and the membership test of a filter, \<open>Issue_Coordinator\<close> the optimistic change
  across all caches with its rollback and the keys it reports stale. Shown: list totals equal
  the server's or the list is reported (\<open>Issue_Counts\<close>), rollback restores (\<open>Issue_Rollback\<close>),
  a partial issue is never judged wrongly (\<open>Issue_Properties\<close>).

  Issue fetches (\<open>issues/queries.ts\<close>, the load-more hooks of \<open>issues/mutations.ts\<close>).
  \<open>Issue_Paging\<close> has the page loops, the client-side sort and the merges; a server is a function
  from a request to an answer, so it may answer two requests from two different states.
  \<open>Paging_Properties\<close> shows what each fetch returns on a server that does not move,
  that a list export settles on any server whose totals are bounded and that the merged
  relations are their union.

  Issue deletion (\<open>issues/delete-cache.ts\<close>, the delete hooks of \<open>issues/mutations.ts\<close>,
  \<open>onIssueDeleted\<close>). \<open>Issue_Deletion\<close> has the collection of parents, the pruning and the two
  mutations with their handlers, \<open>Recent_Items\<close> the two stores of recent items that a deletion
  also visits, with the invariant of their bounds. \<open>Deletion_Properties\<close> shows what each step
  leaves in each cache, that a deletion purges every cache, that a failed one
  gives everything back, and the one cache that blocks both.

  Issue updates (\<open>issues/ws-updaters.ts\<close>, \<open>properties/mutations.ts\<close>, the create and update hooks
  of \<open>issues/mutations.ts\<close>). \<open>Issue_Updaters\<close> has the events of the socket, \<open>Issue_Mutations\<close> the
  mutations with their optimistic write, rollback and settlement. \<open>Updater_Facts\<close> lists the
  cached copies of an issue and what a patch does to them; \<open>Updater_Properties\<close> shows that labels
  reach every copy, which copies a property write misses, and that failed updates are undone.

  Issue timeline (\<open>issues/timeline-sort.ts\<close>, the comment hooks of \<open>issues/mutations.ts\<close>,
  \<open>views/issues/hooks/use-issue-timeline.ts\<close>, \<open>views/issues/components/thread-utils.ts\<close> and the
  timeline view of \<open>issue-detail.tsx\<close>). \<open>Issue_Timeline\<close> has the cached entries, the cascade of a
  deletion, the walk of a thread, the mutations and the events; \<open>Issue_Threads\<close> groups a
  timeline into threads, activity blocks and rows. The walk down a thread has no guard in the
  code, so it is a partial function whose \<open>None\<close> is a walk that never returns; the view's
  property shows that it returns whenever parents chain up to a root. \<open>Timeline_Facts\<close> and
  \<open>Thread_Facts\<close> relate both walks to reachability in the reply relation; \<open>Timeline_Properties\<close>
  shows what a deletion removes, that a thread has one resolution, that arrivals in any order
  give the same timeline and that each entry is drawn once.

  Inbox (\<open>packages/core/inbox\<close>, \<open>views/inbox/components/inbox-page.tsx\<close>). \<open>Inbox\<close> has the rows,
  the badges, the mutations with their rollbacks and the page's selection, archive and automatic
  reading. \<open>Inbox_Properties\<close> says what the rows of a list of items are, shows that they
  are the newest items of their issues, that archiving takes one row off, and that a refused
  automatic read is sent again without end.

  Permissions (\<open>packages/core/permissions/rules.ts\<close>, \<open>Permissions\<close>): every rule, who passes it,
  and that the last owner of a workspace stays.

  Exception fuse (\<open>packages/core/analytics/exception-dedupe.ts\<close>). \<open>Exception_Dedupe\<close> has the
  fingerprint with its 32-bit hash and the counts blob; \<open>Dedupe_Properties\<close> shows that it drops
  no event too early whatever the storage does, and is exact when the storage works.

  Freeze reports (\<open>apps/desktop/src/main\<close>, \<open>src/shared\<close>, \<open>src/renderer/src/freeze-flush.ts\<close>).
  \<open>Hang_Stack\<close> rebuilds stack frames and reads them over the debugger, \<open>Freeze_Breadcrumb\<close> has
  the file with its write, clear, read and acknowledge and the report of the next boot,
  \<open>Renderer_Recovery\<close> the handlers that watch a window as a step relation. \<open>Freeze_Properties\<close>
  shows what may leave the machine, that a breadcrumb is not lost before it is reported, that a
  hang is always prompted for, and two runs in which a report goes wrong.

  Chat store (\<open>packages/core/chat/store.ts\<close>, \<open>core/platform\<close>, \<open>core/drafts\<close>).
  \<open>Workspace_Storage\<close> has the storage, its namespaces, the current workspace and the cleanup,
  \<open>Draft_Upload\<close> the uploads of a draft, \<open>Chat_Store\<close> the state with every action.
  \<open>Chat_Facts\<close> shows the round trip of each persisted slice (the locale \<open>array_slice\<close>, with the
  interpretations \<open>uploads\<close> and \<open>queues\<close>), \<open>Chat_Sync\<close> that memory and storage stay in step,
  \<open>Chat_Properties\<close> the properties of runs: reloading, the migration of legacy slots, late
  upload results, and what a workspace switch can lose.

  Draft restores (\<open>views/chat/components/use-chat-draft-restore.ts\<close>, the restore effect of
  \<open>chat-input.tsx\<close>, \<open>useConsumeChatDraftRestore\<close>). \<open>Draft_Restore\<close> has the hook's state over the
  chat store, with the server's rows, the responses under way and the running requests beside
  it, and the effects, requests and answers as steps in any order. \<open>Restore_Facts\<close> has the two
  invariants, \<open>Restore_Properties\<close> the guarantees of the hand-over (nothing lost, at most once,
  queues drain) and two races that break the second one.

  Chat caches (\<open>core/realtime/use-realtime-sync.ts\<close>, \<open>core/chat/queries.ts\<close>, \<open>mutations.ts\<close>,
  \<open>unread.ts\<close>). \<open>Chat_Cache\<close> has the cached sessions, messages (whole and paged), pending tasks and
  transcripts, every chat and task event that patches them, and the session mutations.
  \<open>Chat_Cache_Properties\<close> shows that the two message caches stay views of one list, that
  transcripts converge, that archiving clears the badges in every tab, and how a late
  cancellation empties the pending state of the next task.

  Socket and dispatch (\<open>core/api/ws-client.ts\<close>, \<open>core/realtime\<close>). \<open>WS_Client\<close> has the socket client
  in a browser that may open, close and delay as it likes, \<open>WS_Properties\<close> the invariant of one
  link, the bounds of the backoff and what a frame reaches. \<open>Realtime_Dispatch\<close> has the
  generic refreshes, the recovery and the event handlers over the caches of the other parts;
  \<open>Realtime_Properties\<close> shows when refreshes run, composes the hook with the client to say which
  missed events a reconnect recovers and which keys it forgets, and to whom a notification belongs.

  Drafts and uploads (\<open>core/drafts/upload-coordinator.ts\<close>, \<open>views/editor/use-coordinated-uploads.ts\<close>,
  \<open>views/editor/extensions/file-upload.ts\<close>). \<open>Attachment_Links\<close> has the links of an attachment and
  when a body refers to one, \<open>Upload_Binding\<close> the operations the upload engine asks of a draft as a
  record, their contract as the locale \<open>draft_binding\<close>, and its interpretation on the chat store;
  \<open>Comment_Drafts\<close> (\<open>comment-draft-store.ts\<close>) and \<open>Issue_Draft\<close> (\<open>draft-store.ts\<close>) are the other two
  providers. \<open>Draft_Properties\<close> shows that the three are one slot and what a reload leaves of them.
  \<open>Upload_Engine\<close> has the documents with their placeholders, the requests, the composers and the
  events; \<open>Upload_Stores\<close> what its operations leave alone and the locale \<open>upload_stores\<close> of
  stores that keep the contract and do not disturb one another, \<open>Upload_Delivery\<close> and \<open>Upload_Gate\<close>
  the runs over it. \<open>Upload_Properties\<close> interprets it on the three stores together: a logout
  silences every earlier request, a running upload blocks the submission, a finished one reaches
  the body, and a failed one can leave a placeholder behind. The bound of a hundred retries is the
  constant of the code; the proof needs no fuel beyond it.

  Shortcuts (\<open>core/shortcuts\<close>, \<open>keyboard-shortcuts-tab.tsx\<close>, \<open>global-shortcuts.tsx\<close>,
  \<open>submit-shortcut.ts\<close>). \<open>Shortcuts\<close> has the chords, the actions and the policy, the persisted store
  with its sanitizing and migration, the recording of a binding as a step relation of the settings
  page, and the key handlers. \<open>Shortcut_Properties\<close> shows that every binding in force obeys the
  policy whatever the storage holds, that a reload gives the bindings back, and that two actions
  share a chord only after a single row was reset.

  Reactions and subscribers (\<open>views/issues/hooks/use-issue-reactions.ts\<close>, \<open>use-issue-subscribers.ts\<close>,
  their mutations in \<open>issues/mutations.ts\<close>). \<open>Participation\<close> has the overlay of the running requests,
  the hooks with their events and the optimistic subscriber cache; \<open>Participation_Properties\<close> shows
  what the overlay may change, what a press shows in each order of its answer and its event, that no
  list holds a subscriber twice, and what a refused subscription leaves.

  How the model corresponds to the code

  A definition has the name of the function or type it translates; helpers for an inner
  function, a callback or a loop body have names of their own. A store's action is a function
  on the record of its state; an optional value is an option, an exception the left value of a
  sum, a loop a fold or a structural recursion, so no fuel is needed; the page loop of the flat
  lists, which a server can keep running, is a partial function whose \<open>None\<close> means that the
  promise never settles (\<open>growing_never_settles\<close> shows such a server, \<open>fetchAllFlatPages_settles\<close>
  that there is no other kind). Where a result
  depends on the outside (a clock, a fresh id, whether a write fails, what a dialog answers), it
  is an argument, and the properties hold for all its values unless a hypothesis says otherwise.
  Code outside the repository is a parameter: the array move of the drag library (with the
  documented contract as a hypothesis), the time zone canonicalizer and the translations of the
  schedule editor.

  Abstractions. A character is a code unit below 256. Numbers are integers; what is not finite
  is one value. Objects have own properties only (no prototype chain). A stored text is either
  the text of an array or an object, represented by the value, or another text. The query client
  is its caches; an issue patch with a member set to \<open>undefined\<close> on purpose is not modelled.
  A stack of microtasks is run at once, except that a chat action may come between a workspace
  switch and its microtask. A document of the editor is its upload nodes and opaque text: when
  the editor writes its text back into a draft, that is an action of the store.

  Not modelled: rendering (React components and hooks), network clients and their generated
  types, translations, the mobile and web applications, the documentation site, the server in
  Go, and the build and deployment files; they are pure input and output, data, or in another
  language than the one the library is about. Of the issue mutations the requests themselves, the
  cancelling of running queries and the refetches after an invalidation are left out (an
  invalidation is a key in a list). The remaining stores and utilities of
  \<open>packages/core\<close> (analytics, notifications, runtimes), the
  labels of the shortcuts and the board
  and editor utilities beside the uploads of \<open>packages/views\<close> are not modelled yet.
\<close>

end
